(* ===== verification/Prelude.thy ===== *)
theory Prelude
  imports Main "HOL-Library.Word" "HOL-Library.Multiset" "HOL-Library.List_Lexorder" "HOL-Library.Char_ord"
    "HOL-Library.Code_Target_Nat"
begin

text \<open>
  Shared vocabulary of the development: the Rust \<open>Result\<close> type as a sum with the
  combinators the source uses (\<open>?\<close>, \<open>ok_or\<close>, \<open>try_fold\<close>, early returns), checked machine
  arithmetic on \<open>u64\<close> and \<open>i64\<close> values kept as unbounded numbers, the ASCII and splitting
  functions of \<open>str\<close>, and list lemmas used by several components.

  Strings are byte strings: a \<^typ>\<open>char\<close> is one byte, so \<open>str::len\<close> is \<^const>\<open>length\<close>.
  The order on strings is the lexicographic byte order, which is Rust's order on \<open>str\<close>.
\<close>

named_theorems result_simps \<open>rules that take a composed result apart\<close>

type_synonym byte = "8 word"
type_synonym bytes = "byte list"

section \<open>Results\<close>

text \<open>\<open>Result<T, E>\<close> is \<open>'e + 't\<close>: \<^const>\<open>Inl\<close> is \<open>Err\<close>, \<^const>\<open>Inr\<close> is \<open>Ok\<close>.
  \<open>and_then\<close> is the \<open>?\<close> operator applied to its first argument.\<close>

definition and_then :: "'e + 'a \<Rightarrow> ('a \<Rightarrow> 'e + 'b) \<Rightarrow> 'e + 'b" where
  "and_then r f = (case r of Inl e \<Rightarrow> Inl e | Inr v \<Rightarrow> f v)"

definition reject_if :: "bool \<Rightarrow> 'e \<Rightarrow> 'e + unit" where
  "reject_if c e = (if c then Inl e else Inr ())"

definition ok_or :: "'e \<Rightarrow> 'a option \<Rightarrow> 'e + 'a" where
  "ok_or e v = (case v of None \<Rightarrow> Inl e | Some x \<Rightarrow> Inr x)"

definition is_ok :: "'e + 'a \<Rightarrow> bool" where
  "is_ok r = (case r of Inl _ \<Rightarrow> False | Inr _ \<Rightarrow> True)"

fun try_fold :: "('s \<Rightarrow> 'a \<Rightarrow> 'e + 's) \<Rightarrow> 's \<Rightarrow> 'a list \<Rightarrow> 'e + 's" where
  "try_fold f s [] = Inr s"
| "try_fold f s (x # xs) = and_then (f s x) (\<lambda>s'. try_fold f s' xs)"

fun try_each :: "('a \<Rightarrow> 'e + unit) \<Rightarrow> 'a list \<Rightarrow> 'e + unit" where
  "try_each f [] = Inr ()"
| "try_each f (x # xs) = and_then (f x) (\<lambda>_. try_each f xs)"

fun try_map :: "('a \<Rightarrow> 'e + 'b) \<Rightarrow> 'a list \<Rightarrow> 'e + 'b list" where
  "try_map f [] = Inr []"
| "try_map f (x # xs) = and_then (f x) (\<lambda>y. and_then (try_map f xs) (\<lambda>ys. Inr (y # ys)))"

lemma and_then_Inl [simp]: "and_then (Inl e) f = Inl e"
  and and_then_Inr [simp]: "and_then (Inr v) f = f v"
  by (simp_all add: and_then_def)

lemma and_then_eq_Inr [result_simps]:
  "and_then r f = Inr y \<longleftrightarrow> (\<exists>v. r = Inr v \<and> f v = Inr y)"
  by (cases r) auto

lemma and_then_eq_Inl [result_simps]:
  "and_then r f = Inl e \<longleftrightarrow> r = Inl e \<or> (\<exists>v. r = Inr v \<and> f v = Inl e)"
  by (cases r) auto

lemma and_then_assoc: "and_then (and_then r f) g = and_then r (\<lambda>x. and_then (f x) g)"
  by (cases r) auto

lemma reject_if_eq_Inr [result_simps]: "reject_if c e = Inr u \<longleftrightarrow> \<not> c"
  by (simp add: reject_if_def)

lemma reject_if_eq_Inl [result_simps]: "reject_if c e = Inl x \<longleftrightarrow> c \<and> x = e"
  by (auto simp: reject_if_def)

lemma reject_if_simps [simp]: "reject_if True e = Inl e" "reject_if False e = Inr ()"
  by (simp_all add: reject_if_def)

lemma ok_or_eq_Inr [result_simps]: "ok_or e v = Inr y \<longleftrightarrow> v = Some y"
  by (cases v) (auto simp: ok_or_def)

lemma ok_or_eq_Inl [result_simps]: "ok_or e v = Inl x \<longleftrightarrow> v = None \<and> x = e"
  by (cases v) (auto simp: ok_or_def)

lemma ok_or_simps [simp]: "ok_or e None = Inl e" "ok_or e (Some y) = Inr y"
  by (simp_all add: ok_or_def)

lemma is_ok_simps [simp]: "is_ok (Inr v)" "\<not> is_ok (Inl e)"
  by (simp_all add: is_ok_def)

lemma is_ok_iff: "is_ok r \<longleftrightarrow> (\<exists>v. r = Inr v)"
  by (cases r) auto

lemma try_each_eq_Inr [result_simps]:
  "try_each f xs = Inr u \<longleftrightarrow> (\<forall>x \<in> set xs. f x = Inr ())"
  by (induction xs) (auto simp: result_simps)

lemma try_fold_append:
  "try_fold f s (xs @ ys) = and_then (try_fold f s xs) (\<lambda>s'. try_fold f s' ys)"
  by (induction xs arbitrary: s) (auto simp: and_then_assoc)

lemma try_fold_invariant:
  assumes "try_fold f s xs = Inr s'" "P s"
    and "\<And>s x s'. x \<in> set xs \<Longrightarrow> P s \<Longrightarrow> f s x = Inr s' \<Longrightarrow> P s'"
  shows "P s'"
  using assms
proof (induction xs arbitrary: s)
  case (Cons x xs)
  from Cons.prems(1) obtain t where t: "f s x = Inr t" "try_fold f t xs = Inr s'"
    by (auto simp: result_simps)
  moreover have "P t"
    using Cons.prems(3) [of x s t] Cons.prems(2) t(1) by simp
  ultimately show ?case
    using Cons.IH Cons.prems(3) by (meson list.set_intros(2))
qed simp

lemma try_map_eq_Inr: "try_map f xs = Inr ys \<longleftrightarrow> map f xs = map Inr ys"
  by (induction xs arbitrary: ys) (auto simp: result_simps Cons_eq_map_conv)

lemma try_map_length: "try_map f xs = Inr ys \<Longrightarrow> length ys = length xs"
  by (metis length_map try_map_eq_Inr)

text \<open>\<open>errors_in P r\<close>: if \<open>r\<close> is an error it satisfies \<open>P\<close>. The rules follow the combinators, so
  that the errors an operation can return are found by applying \<open>errors_in\<close> as introduction
  rules.\<close>

definition errors_in :: "('e \<Rightarrow> bool) \<Rightarrow> 'e + 'a \<Rightarrow> bool" where
  "errors_in P r = (case r of Inl e \<Rightarrow> P e | Inr _ \<Rightarrow> True)"

named_theorems error_intros \<open>introduction rules for the errors of a composed result\<close>

lemma errors_in_Inl [simp]: "errors_in P (Inl e) = P e"
  and errors_in_Inr [simp]: "errors_in P (Inr v)"
  by (simp_all add: errors_in_def)

lemma errors_inD: "errors_in P r \<Longrightarrow> r = Inl e \<Longrightarrow> P e"
  by simp

lemma errors_in_and_then [error_intros]:
  "errors_in P r \<Longrightarrow> (\<And>v. r = Inr v \<Longrightarrow> errors_in P (f v)) \<Longrightarrow> errors_in P (and_then r f)"
  by (cases r) auto

lemma errors_in_reject_if [error_intros]: "P e \<Longrightarrow> errors_in P (reject_if c e)"
  by (simp add: reject_if_def)

lemma errors_in_ok_or [error_intros]: "P e \<Longrightarrow> errors_in P (ok_or e v)"
  by (cases v) auto

lemma errors_in_if [error_intros]:
  "(c \<Longrightarrow> errors_in P r) \<Longrightarrow> (\<not> c \<Longrightarrow> errors_in P s) \<Longrightarrow> errors_in P (if c then r else s)"
  by simp

lemma errors_in_try_each [error_intros]:
  "(\<And>x. x \<in> set xs \<Longrightarrow> errors_in P (f x)) \<Longrightarrow> errors_in P (try_each f xs)"
  by (induction xs) (auto intro: errors_in_and_then)

lemma errors_in_try_fold [error_intros]:
  "(\<And>s x. x \<in> set xs \<Longrightarrow> errors_in P (f s x)) \<Longrightarrow> errors_in P (try_fold f s xs)"
  by (induction xs arbitrary: s) (auto intro: errors_in_and_then)

section \<open>Checked machine arithmetic\<close>

text \<open>\<open>u64\<close> and \<open>usize\<close> values are natural numbers below \<open>2 ^ 64\<close>; the operations that the source
  writes as \<open>checked_add\<close>, \<open>checked_mul\<close> and \<open>checked_sub\<close> return no value on overflow.\<close>

definition u64_max :: nat where
  "u64_max = 18446744073709551615"

definition i64_max :: nat where
  "i64_max = 9223372036854775807"

definition u32_max :: nat where
  "u32_max = 4294967295"

definition checked_add :: "nat \<Rightarrow> nat \<Rightarrow> nat option" where
  "checked_add a b = (if a + b \<le> u64_max then Some (a + b) else None)"

definition checked_mul :: "nat \<Rightarrow> nat \<Rightarrow> nat option" where
  "checked_mul a b = (if a * b \<le> u64_max then Some (a * b) else None)"

definition checked_sub :: "nat \<Rightarrow> nat \<Rightarrow> nat option" where
  "checked_sub a b = (if b \<le> a then Some (a - b) else None)"

definition i64_try_from :: "nat \<Rightarrow> int option" where
  "i64_try_from n = (if n \<le> i64_max then Some (int n) else None)"

definition u64_try_from :: "int \<Rightarrow> nat option" where
  "u64_try_from i = (if 0 \<le> i then Some (nat i) else None)"

definition u32_try_from :: "int \<Rightarrow> nat option" where
  "u32_try_from i = (if 0 \<le> i \<and> i \<le> int u32_max then Some (nat i) else None)"

definition div_ceil :: "nat \<Rightarrow> nat \<Rightarrow> nat" where
  "div_ceil a b = (a + (b - 1)) div b"

lemma checked_add_eq_Some [result_simps]:
  "checked_add a b = Some c \<longleftrightarrow> c = a + b \<and> a + b \<le> u64_max"
  by (auto simp: checked_add_def)

lemma checked_mul_eq_Some [result_simps]:
  "checked_mul a b = Some c \<longleftrightarrow> c = a * b \<and> a * b \<le> u64_max"
  by (auto simp: checked_mul_def)

lemma checked_sub_eq_Some [result_simps]:
  "checked_sub a b = Some c \<longleftrightarrow> b \<le> a \<and> c = a - b"
  by (auto simp: checked_sub_def)

lemma i64_try_from_eq_Some [result_simps]:
  "i64_try_from n = Some i \<longleftrightarrow> i = int n \<and> n \<le> i64_max"
  by (auto simp: i64_try_from_def)

lemma u64_try_from_eq_Some [result_simps]:
  "u64_try_from i = Some n \<longleftrightarrow> i = int n"
  by (auto simp: u64_try_from_def)

lemma u64_i64_roundtrip: "i64_try_from n = Some i \<Longrightarrow> u64_try_from i = Some n"
  by (simp add: result_simps)

section \<open>Bytes of a string\<close>

definition byte_of :: "char \<Rightarrow> nat" where
  "byte_of c = of_char c"

definition is_ascii_control :: "char \<Rightarrow> bool" where
  "is_ascii_control c = (byte_of c < 32 \<or> byte_of c = 127)"

definition is_ascii_digit :: "char \<Rightarrow> bool" where
  "is_ascii_digit c = (48 \<le> byte_of c \<and> byte_of c \<le> 57)"

definition is_ascii_uppercase :: "char \<Rightarrow> bool" where
  "is_ascii_uppercase c = (65 \<le> byte_of c \<and> byte_of c \<le> 90)"

definition is_ascii_lowercase :: "char \<Rightarrow> bool" where
  "is_ascii_lowercase c = (97 \<le> byte_of c \<and> byte_of c \<le> 122)"

definition is_ascii_alphanumeric :: "char \<Rightarrow> bool" where
  "is_ascii_alphanumeric c =
     (is_ascii_digit c \<or> is_ascii_uppercase c \<or> is_ascii_lowercase c)"

definition is_ascii_hexdigit :: "char \<Rightarrow> bool" where
  "is_ascii_hexdigit c =
     (is_ascii_digit c \<or> (65 \<le> byte_of c \<and> byte_of c \<le> 70)
       \<or> (97 \<le> byte_of c \<and> byte_of c \<le> 102))"

definition is_ascii :: "string \<Rightarrow> bool" where
  "is_ascii s = list_all (\<lambda>c. byte_of c < 128) s"

definition char_to_ascii_lowercase :: "char \<Rightarrow> char" where
  "char_to_ascii_lowercase c =
     (if is_ascii_uppercase c then char_of (byte_of c + 32) else c)"

definition char_to_ascii_uppercase :: "char \<Rightarrow> char" where
  "char_to_ascii_uppercase c =
     (if is_ascii_lowercase c then char_of (byte_of c - 32) else c)"

definition to_ascii_lowercase :: "string \<Rightarrow> string" where
  "to_ascii_lowercase s = map char_to_ascii_lowercase s"

definition to_ascii_uppercase :: "string \<Rightarrow> string" where
  "to_ascii_uppercase s = map char_to_ascii_uppercase s"

lemma byte_of_less [simp]: "byte_of c < 256"
  by (simp add: byte_of_def)

lemma byte_of_eq_iff [simp]: "byte_of c = byte_of d \<longleftrightarrow> c = d"
  by (simp add: byte_of_def)

lemma byte_of_char_of [simp]: "byte_of (char_of (n :: nat)) = n mod 256"
  by (simp add: byte_of_def)

lemma to_ascii_lowercase_idem [simp]:
  "to_ascii_lowercase (to_ascii_lowercase s) = to_ascii_lowercase s"
  by (auto simp: to_ascii_lowercase_def char_to_ascii_lowercase_def is_ascii_uppercase_def)

section \<open>Splitting strings\<close>

text \<open>\<open>str::split(c)\<close>: the pieces between the separators, at least one piece.\<close>

fun split_on :: "'a \<Rightarrow> 'a list \<Rightarrow> 'a list list" where
  "split_on c [] = [[]]"
| "split_on c (x # xs) =
     (if x = c then [] # split_on c xs
      else (case split_on c xs of [] \<Rightarrow> [[x]] | p # ps \<Rightarrow> (x # p) # ps))"

text \<open>The inverse, the pieces joined by the separator.\<close>

fun join_with :: "'a \<Rightarrow> 'a list list \<Rightarrow> 'a list" where
  "join_with c [] = []"
| "join_with c [p] = p"
| "join_with c (p # q # ps) = p @ c # join_with c (q # ps)"

definition strip_prefix :: "string \<Rightarrow> string \<Rightarrow> string option" where
  "strip_prefix p s = (if take (length p) s = p then Some (drop (length p) s) else None)"

text \<open>\<open>str::rsplit_once(c)\<close>: the parts before and after the last separator.\<close>

fun rsplit_once :: "'a \<Rightarrow> 'a list \<Rightarrow> ('a list \<times> 'a list) option" where
  "rsplit_once c [] = None"
| "rsplit_once c (x # xs) =
     (case rsplit_once c xs of
        Some (a, b) \<Rightarrow> Some (x # a, b)
      | None \<Rightarrow> if x = c then Some ([], xs) else None)"

lemma split_on_nonempty [simp]: "split_on c s \<noteq> []"
  by (cases s) (auto split: list.splits)

lemma join_split_on [simp]: "join_with c (split_on c s) = s"
proof (induction s)
  case (Cons x xs)
  obtain p ps where "split_on c xs = p # ps"
    using split_on_nonempty by (metis neq_Nil_conv)
  with Cons show ?case
    by (cases ps) auto
qed simp

lemma split_on_no_sep: "p \<in> set (split_on c s) \<Longrightarrow> c \<notin> set p"
  by (induction s arbitrary: p) (auto split: list.splits if_splits)

lemma split_on_append_sep: "c \<notin> set a \<Longrightarrow> split_on c (a @ c # b) = a # split_on c b"
  by (induction a) (auto split: list.splits)

lemma split_on_fresh: "c \<notin> set a \<Longrightarrow> split_on c a = [a]"
  by (induction a) auto

lemma split_join:
  "ps \<noteq> [] \<Longrightarrow> (\<forall>p \<in> set ps. c \<notin> set p) \<Longrightarrow> split_on c (join_with c ps) = ps"
  by (induction c ps rule: join_with.induct) (auto simp: split_on_append_sep split_on_fresh)

lemma strip_prefix_eq_Some [result_simps]: "strip_prefix p s = Some r \<longleftrightarrow> s = p @ r"
  by (auto simp: strip_prefix_def) (metis append_take_drop_id)

lemma strip_prefix_append [simp]: "strip_prefix p (p @ r) = Some r"
  by (simp add: strip_prefix_eq_Some)

lemma strip_prefix_case_Inr:
  "(case strip_prefix p v of None \<Rightarrow> Inl e | Some h \<Rightarrow> f h) = Inr y \<longleftrightarrow>
     (\<exists>h. v = p @ h \<and> f h = Inr y)"
  by (cases "strip_prefix p v") (auto simp: strip_prefix_eq_Some)

lemma rsplit_once_None: "rsplit_once c s = None \<longleftrightarrow> c \<notin> set s"
  by (induction s) (auto split: option.splits)

lemma rsplit_once_Some:
  "rsplit_once c s = Some (a, b) \<longleftrightarrow> s = a @ c # b \<and> c \<notin> set b"
proof (induction s arbitrary: a b)
  case (Cons x xs)
  show ?case
  proof (cases "rsplit_once c xs")
    case None
    then have "c \<notin> set xs" by (simp add: rsplit_once_None)
    with None show ?thesis by (cases a) auto
  next
    case (Some p)
    then obtain a' b' where p: "p = (a', b')" by (cases p)
    with Some Cons.IH [of a' b'] have xs: "xs = a' @ c # b'" "c \<notin> set b'"
      by auto
    with Some p Cons.IH show ?thesis by (cases a) auto
  qed
qed simp

section \<open>First and last by a key\<close>

text \<open>\<open>ORDER BY key LIMIT 1\<close>, ascending and descending.\<close>

definition first_by :: "('a \<Rightarrow> 'b :: linorder) \<Rightarrow> 'a list \<Rightarrow> 'a option" where
  "first_by key xs = (case sort_key key xs of [] \<Rightarrow> None | x # _ \<Rightarrow> Some x)"

definition last_by :: "('a \<Rightarrow> 'b :: linorder) \<Rightarrow> 'a list \<Rightarrow> 'a option" where
  "last_by key xs = (case sort_key key xs of [] \<Rightarrow> None | y # ys \<Rightarrow> Some (last (y # ys)))"

lemma sort_key_Nil_iff: "sort_key key xs = [] \<longleftrightarrow> xs = []"
  by (metis length_0_conv length_sort)

lemma first_by_None [simp]: "first_by key xs = None \<longleftrightarrow> xs = []"
  by (auto simp: first_by_def sort_key_Nil_iff split: list.splits)

lemma last_by_None [simp]: "last_by key xs = None \<longleftrightarrow> xs = []"
  by (auto simp: last_by_def sort_key_Nil_iff split: list.splits)

lemma first_by_SomeD:
  assumes "first_by key xs = Some x"
  shows "x \<in> set xs \<and> (\<forall>y \<in> set xs. key x \<le> key y)"
proof -
  obtain ys where s: "sort_key key xs = x # ys"
    using assms by (auto simp: first_by_def split: list.splits)
  then have "set xs = set (x # ys)" by (metis set_sort)
  moreover have "sorted (map key (x # ys))" by (metis s sorted_sort_key)
  ultimately show ?thesis by auto
qed

lemma last_by_SomeD:
  assumes "last_by key xs = Some x"
  shows "x \<in> set xs \<and> (\<forall>y \<in> set xs. key y \<le> key x)"
proof -
  obtain z zs where s: "sort_key key xs = z # zs" "x = last (z # zs)"
    using assms by (auto simp: last_by_def split: list.splits simp del: last.simps)
  have set: "set xs = set (z # zs)" by (metis s(1) set_sort)
  have "sorted (map key (z # zs))" by (metis s(1) sorted_sort_key)
  then have "key y \<le> key x" if "y \<in> set (z # zs)" for y
  proof -
    obtain i where i: "i < length (z # zs)" "y = (z # zs) ! i"
      using \<open>y \<in> set (z # zs)\<close> by (metis in_set_conv_nth)
    have "map key (z # zs) ! i \<le> map key (z # zs) ! length zs"
      using \<open>sorted (map key (z # zs))\<close> i(1) by (intro sorted_nth_mono) simp_all
    moreover have "x = (z # zs) ! length zs"
      unfolding s(2) by (simp add: last_conv_nth)
    ultimately show "key y \<le> key x"
      using i by (metis length_Cons lessI nth_map)
  qed
  with set s(2) show ?thesis by (metis last_in_set list.distinct(1))
qed

section \<open>Decimal numbers\<close>

text \<open>\<open>str::parse\<close> for unsigned integers: an optional plus sign, at least one digit, and no value
  above the maximum of the type. \<open>to_string\<close> writes the digits without leading zeros.\<close>

definition digit_value :: "char \<Rightarrow> nat" where
  "digit_value c = byte_of c - 48"

fun parse_digits :: "nat \<Rightarrow> string \<Rightarrow> nat option" where
  "parse_digits acc [] = Some acc"
| "parse_digits acc (c # cs) =
     (if is_ascii_digit c then parse_digits (10 * acc + digit_value c) cs else None)"

definition parse_unsigned :: "nat \<Rightarrow> string \<Rightarrow> nat option" where
  "parse_unsigned maximum s =
     (let digits = (case s of [] \<Rightarrow> [] | c # cs \<Rightarrow> if c = CHR ''+'' then cs else s)
      in if digits = [] then None
         else case parse_digits 0 digits of
             None \<Rightarrow> None
           | Some n \<Rightarrow> if n \<le> maximum then Some n else None)"

fun nat_to_string :: "nat \<Rightarrow> string" where
  "nat_to_string n =
     (if n < 10 then [char_of (n + 48)]
      else nat_to_string (n div 10) @ [char_of (n mod 10 + 48)])"

declare nat_to_string.simps [simp del]

lemma parse_digits_append:
  "parse_digits acc (xs @ ys) = (case parse_digits acc xs of None \<Rightarrow> None | Some n \<Rightarrow> parse_digits n ys)"
  by (induction xs arbitrary: acc) auto

lemma digit_char: "n < 10 \<Longrightarrow> is_ascii_digit (char_of (n + 48)) \<and> digit_value (char_of (n + 48)) = n"
  by (simp add: is_ascii_digit_def digit_value_def)

lemma parse_nat_to_string: "parse_digits 0 (nat_to_string n) = Some n"
proof (induction n rule: nat_to_string.induct)
  case (1 n)
  show ?case
  proof (cases "n < 10")
    case True
    then show ?thesis by (simp add: nat_to_string.simps [of n] digit_char)
  next
    case False
    then show ?thesis
      using 1 by (simp add: nat_to_string.simps [of n] parse_digits_append digit_char)
  qed
qed

lemma nat_to_string_head:
  "\<exists>c cs. nat_to_string n = c # cs \<and> is_ascii_digit c"
proof (induction n rule: nat_to_string.induct)
  case (1 n)
  show ?case
  proof (cases "n < 10")
    case True
    then show ?thesis by (simp add: nat_to_string.simps [of n] digit_char)
  next
    case False
    then obtain c cs where "nat_to_string (n div 10) = c # cs" "is_ascii_digit c"
      using 1 by blast
    with False show ?thesis by (simp add: nat_to_string.simps [of n])
  qed
qed

lemma parse_unsigned_nat_to_string:
  assumes "n \<le> maximum"
  shows "parse_unsigned maximum (nat_to_string n) = Some n"
proof -
  obtain c cs where "nat_to_string n = c # cs" "is_ascii_digit c"
    using nat_to_string_head by blast
  moreover from this have "c \<noteq> CHR ''+''"
    by (auto simp: is_ascii_digit_def byte_of_def)
  ultimately show ?thesis
    using assms parse_nat_to_string [of n] by (simp add: parse_unsigned_def)
qed

end
