(* ===== verification/Api_Error.thy ===== *)
theory Api_Error
  imports Prelude
begin

text \<open>
  The error values of \<open>error.rs\<close>: an HTTP status, a stable machine code and a fixed message. Every
  early return of the handlers is one of these values; \<open>'a result\<close> is \<open>Result<'a, ApiError>\<close>.
\<close>

record api_error =
  err_status :: nat
  err_code :: string
  err_message :: string

type_synonym 'a result = "api_error + 'a"

definition ApiError :: "nat \<Rightarrow> string \<Rightarrow> string \<Rightarrow> api_error" where
  "ApiError status code message =
     \<lparr>err_status = status, err_code = code, err_message = message\<rparr>"

definition invalid :: "string \<Rightarrow> api_error" where
  "invalid message = ApiError 422 ''validation_error'' message"

definition conflict :: "string \<Rightarrow> string \<Rightarrow> api_error" where
  "conflict code message = ApiError 409 code message"

definition forbidden :: "string \<Rightarrow> string \<Rightarrow> api_error" where
  "forbidden code message = ApiError 403 code message"

definition not_found :: "string \<Rightarrow> string \<Rightarrow> api_error" where
  "not_found code message = ApiError 404 code message"

definition internal :: api_error where
  "internal = ApiError 500 ''internal_error'' ''archive operation could not be completed''"

definition storage :: api_error where
  "storage = ApiError 500 ''storage_error'' ''archive storage could not be used''"

definition artifact_integrity :: api_error where
  "artifact_integrity =
     ApiError 409 ''artifact_integrity_failure'' ''artifact integrity verification failed''"

definition database_error :: api_error where
  "database_error = ApiError 500 ''metadata_error'' ''archive metadata could not be used''"

definition maintenance :: api_error where
  "maintenance = ApiError 503 ''maintenance_in_progress''
     ''archive operations are temporarily paused for maintenance''"

definition maintenance_unavailable :: api_error where
  "maintenance_unavailable = ApiError 503 ''maintenance_unavailable''
     ''archive maintenance coordination is unavailable''"

text \<open>A failing \<open>expect\<close> panics; no status of the source is 0, so this value is recognisable and
  the results of the components show where it cannot occur.\<close>

definition panicked :: "string \<Rightarrow> api_error" where
  "panicked message = ApiError 0 ''panic'' message"

text \<open>\<open>parse_json\<close>: the extractor's rejection is replaced by one validation error.\<close>

definition parse_json :: "'r + 'a \<Rightarrow> 'a result" where
  "parse_json payload = (case payload of
     Inl _ \<Rightarrow> Inl (invalid ''request body must be valid JSON with application/json content type'')
   | Inr value \<Rightarrow> Inr value)"

text \<open>A \<open>sqlx::Error\<close> as the classification sees it: a database error with its optional SQLite
  result code, or any other failure.\<close>

datatype sqlx_error = Sqlx_Database "string option" | Sqlx_Other

definition is_busy :: "sqlx_error \<Rightarrow> bool" where
  "is_busy error = (case error of
     Sqlx_Database (Some code) \<Rightarrow> code = ''5'' \<or> code = ''6''
   | _ \<Rightarrow> False)"

definition classify_database_error :: "sqlx_error \<Rightarrow> api_error" where
  "classify_database_error error =
     (if is_busy error
      then conflict ''upload_completion_contended''
        ''archive metadata was busy completing a concurrent request; retry the completion''
      else database_error)"

lemmas api_error_defs =
  ApiError_def invalid_def conflict_def forbidden_def not_found_def internal_def storage_def
  artifact_integrity_def database_error_def maintenance_def maintenance_unavailable_def
  panicked_def

text \<open>A client may retry exactly when the status is a conflict: the busy codes are the only
  database failures that are not reported as a server error.\<close>

lemma classify_database_error_status:
  "err_status (classify_database_error e) = (if is_busy e then 409 else 500)"
  by (simp add: classify_database_error_def api_error_defs)

end
