(* ===== verification/Contract.thy ===== *)
theory Contract
  imports Api_Error
begin

text \<open>
  The documents of \<open>contract.rs\<close>. Structs are records whose field names carry a prefix of the
  struct, enums are datatypes with the source's constructors. \<open>BTreeMap<String, String>\<close> is its
  list of entries in key order. The string enums share the interface \<open>string_enum\<close>.
\<close>

type_synonym btree_map = "(string \<times> string) list"

section \<open>String enumerations\<close>

locale string_enum =
  fixes as_str :: "'a \<Rightarrow> string"
    and parse :: "string \<Rightarrow> 'a option"
  assumes parse_as_str: "parse (as_str x) = Some x"
    and as_str_of_parse: "parse s = Some x \<Longrightarrow> s = as_str x"
begin

lemma parse_eq_Some_iff: "parse s = Some x \<longleftrightarrow> s = as_str x"
  using parse_as_str as_str_of_parse by auto

lemma parse_eq_None_iff: "parse s = None \<longleftrightarrow> s \<notin> range as_str"
  using parse_as_str as_str_of_parse by (metis not_None_eq rangeE rangeI option.distinct(1))

lemma as_str_inj: "inj as_str"
  using parse_as_str by (metis injI option.inject)

end

datatype compression = Identity | Zstd

datatype upload_status = Created | ArtifactUploaded | Completed | Abandoned | Expired

datatype integrity_run_status = Running | Healthy | ActionRequired | Failed

datatype integrity_severity = Info | Warning | Error

datatype integrity_finding_kind =
    ManifestMissing | ManifestUnparseable | ManifestHashMismatch | SnapshotProjectionDrift
  | DatabaseIntegrityFailure | ArtifactBlobReferenceMissing | BlobMetadataInvalid
  | BlobFileMissing | BlobFileNonRegular | BlobFileSizeMismatch | BlobFileHashMismatch
  | ArtifactOriginalMismatch | UnexpectedBlobFile | BlobOrphan | BlobGraceCandidate
  | BlobGcEligibleCandidate | BlobStaleCandidate | TombstonedSnapshot | TransientChange

fun compression_name :: "compression \<Rightarrow> string" where
  "compression_name Identity = ''identity''"
| "compression_name Zstd = ''zstd''"

definition parse_compression :: "string \<Rightarrow> compression option" where
  "parse_compression value =
     (if value = ''identity'' then Some Identity
      else if value = ''zstd'' then Some Zstd else None)"

fun run_status_as_str :: "integrity_run_status \<Rightarrow> string" where
  "run_status_as_str Running = ''running''"
| "run_status_as_str Healthy = ''healthy''"
| "run_status_as_str ActionRequired = ''action_required''"
| "run_status_as_str Failed = ''failed''"

definition run_status_parse :: "string \<Rightarrow> integrity_run_status option" where
  "run_status_parse value =
     (if value = ''running'' then Some Running
      else if value = ''healthy'' then Some Healthy
      else if value = ''action_required'' then Some ActionRequired
      else if value = ''failed'' then Some Failed
      else None)"

fun severity_as_str :: "integrity_severity \<Rightarrow> string" where
  "severity_as_str Info = ''info''"
| "severity_as_str Warning = ''warning''"
| "severity_as_str Error = ''error''"

definition severity_parse :: "string \<Rightarrow> integrity_severity option" where
  "severity_parse value =
     (if value = ''info'' then Some Info
      else if value = ''warning'' then Some Warning
      else if value = ''error'' then Some Error
      else None)"

fun finding_kind_as_str :: "integrity_finding_kind \<Rightarrow> string" where
  "finding_kind_as_str ManifestMissing = ''manifest_missing''"
| "finding_kind_as_str ManifestUnparseable = ''manifest_unparseable''"
| "finding_kind_as_str ManifestHashMismatch = ''manifest_hash_mismatch''"
| "finding_kind_as_str SnapshotProjectionDrift = ''snapshot_projection_drift''"
| "finding_kind_as_str DatabaseIntegrityFailure = ''database_integrity_failure''"
| "finding_kind_as_str ArtifactBlobReferenceMissing = ''artifact_blob_reference_missing''"
| "finding_kind_as_str BlobMetadataInvalid = ''blob_metadata_invalid''"
| "finding_kind_as_str BlobFileMissing = ''blob_file_missing''"
| "finding_kind_as_str BlobFileNonRegular = ''blob_file_non_regular''"
| "finding_kind_as_str BlobFileSizeMismatch = ''blob_file_size_mismatch''"
| "finding_kind_as_str BlobFileHashMismatch = ''blob_file_hash_mismatch''"
| "finding_kind_as_str ArtifactOriginalMismatch = ''artifact_original_mismatch''"
| "finding_kind_as_str UnexpectedBlobFile = ''unexpected_blob_file''"
| "finding_kind_as_str BlobOrphan = ''blob_orphan''"
| "finding_kind_as_str BlobGraceCandidate = ''blob_grace_candidate''"
| "finding_kind_as_str BlobGcEligibleCandidate = ''blob_gc_eligible_candidate''"
| "finding_kind_as_str BlobStaleCandidate = ''blob_stale_candidate''"
| "finding_kind_as_str TombstonedSnapshot = ''tombstoned_snapshot''"
| "finding_kind_as_str TransientChange = ''transient_change''"

definition finding_kind_parse :: "string \<Rightarrow> integrity_finding_kind option" where
  "finding_kind_parse value =
     (if value = ''manifest_missing'' then Some ManifestMissing
      else if value = ''manifest_unparseable'' then Some ManifestUnparseable
      else if value = ''manifest_hash_mismatch'' then Some ManifestHashMismatch
      else if value = ''snapshot_projection_drift'' then Some SnapshotProjectionDrift
      else if value = ''database_integrity_failure'' then Some DatabaseIntegrityFailure
      else if value = ''artifact_blob_reference_missing'' then Some ArtifactBlobReferenceMissing
      else if value = ''blob_metadata_invalid'' then Some BlobMetadataInvalid
      else if value = ''blob_file_missing'' then Some BlobFileMissing
      else if value = ''blob_file_non_regular'' then Some BlobFileNonRegular
      else if value = ''blob_file_size_mismatch'' then Some BlobFileSizeMismatch
      else if value = ''blob_file_hash_mismatch'' then Some BlobFileHashMismatch
      else if value = ''artifact_original_mismatch'' then Some ArtifactOriginalMismatch
      else if value = ''unexpected_blob_file'' then Some UnexpectedBlobFile
      else if value = ''blob_orphan'' then Some BlobOrphan
      else if value = ''blob_grace_candidate'' then Some BlobGraceCandidate
      else if value = ''blob_gc_eligible_candidate'' then Some BlobGcEligibleCandidate
      else if value = ''blob_stale_candidate'' then Some BlobStaleCandidate
      else if value = ''tombstoned_snapshot'' then Some TombstonedSnapshot
      else if value = ''transient_change'' then Some TransientChange
      else None)"

interpretation compression_enum: string_enum compression_name parse_compression
proof (standard, goal_cases)
  case (1 x) then show ?case by (cases x) (simp_all add: parse_compression_def)
next
  case (2 s x) then show ?case by (auto simp: parse_compression_def split: if_splits)
qed

interpretation run_status_enum: string_enum run_status_as_str run_status_parse
proof (standard, goal_cases)
  case (1 x) then show ?case by (cases x) (simp_all add: run_status_parse_def)
next
  case (2 s x) then show ?case by (auto simp: run_status_parse_def split: if_splits)
qed

interpretation severity_enum: string_enum severity_as_str severity_parse
proof (standard, goal_cases)
  case (1 x) then show ?case by (cases x) (simp_all add: severity_parse_def)
next
  case (2 s x) then show ?case by (auto simp: severity_parse_def split: if_splits)
qed

interpretation finding_kind_enum: string_enum finding_kind_as_str finding_kind_parse
proof (standard, goal_cases)
  case (1 x) then show ?case by (cases x) (simp_all add: finding_kind_parse_def)
next
  case (2 s x) then show ?case by (auto simp: finding_kind_parse_def split: if_splits)
qed

section \<open>Requests and manifests\<close>

record register_client_request =
  rcr_hostname :: "string option"
  rcr_display_name :: "string option"
  rcr_metadata :: btree_map

record client_response =
  cr_client_id :: string
  cr_hostname :: "string option"
  cr_display_name :: "string option"
  cr_metadata :: btree_map
  cr_created_at :: string
  cr_updated_at :: string

record session_input =
  source_agent :: string
  source_session_id :: string

record capture_input =
  ci_captured_at :: string
  ci_source_cursor :: "string option"
  ci_source_state_hash :: "string option"
  ci_source_metadata :: btree_map
  ci_project :: "string option"
  ci_repository :: "string option"
  ci_branch :: "string option"
  ci_source_agent_version :: "string option"
  ci_artifact_set_version :: nat
  ci_munshi_version :: "string option"

record capture =
  captured_at :: string
  source_cursor :: "string option"
  source_state_hash :: "string option"
  source_metadata :: btree_map
  project :: "string option"
  repository :: "string option"
  branch :: "string option"
  source_agent_version :: "string option"
  artifact_set_version :: nat
  munshi_version :: "string option"

record artifact_input =
  ai_logical_path :: string
  ai_media_type :: "string option"
  ai_original_size_bytes :: nat
  ai_original_sha256 :: string
  ai_stored_size_bytes :: nat
  ai_stored_sha256 :: string
  ai_compression :: compression

record artifact =
  logical_path :: string
  media_type :: "string option"
  original_size_bytes :: nat
  original_sha256 :: string
  stored_size_bytes :: nat
  stored_sha256 :: string
  compression :: compression

record manifest_input =
  mi_schema_version :: nat
  mi_session :: session_input
  mi_capture :: capture_input
  mi_artifacts :: "artifact_input list option"
  mi_artifact :: "artifact_input option"

record manifest =
  schema_version :: nat
  session :: session_input
  capture :: capture
  artifacts :: "artifact list"

record create_upload_request =
  cur_client_id :: string
  cur_capture_id :: "string option"
  cur_idempotency_key :: "string option"
  cur_manifest :: manifest_input

definition LEGACY_ARTIFACT_SET_VERSION :: nat where
  "LEGACY_ARTIFACT_SET_VERSION = 1"

definition default_artifact_set_version :: nat where
  "default_artifact_set_version = LEGACY_ARTIFACT_SET_VERSION"

text \<open>A persisted manifest document after JSON decoding: older documents name a single
  \<open>artifact\<close>, and the \<open>Deserialize\<close> instance of \<open>Manifest\<close> accepts exactly one of the two
  forms.\<close>

record manifest_wire =
  wire_schema_version :: nat
  wire_session :: session_input
  wire_capture :: capture
  wire_artifacts :: "artifact list option"
  wire_artifact :: "artifact option"

definition manifest_deserialize :: "manifest_wire \<Rightarrow> string + manifest" where
  "manifest_deserialize wire =
     (case (wire_artifacts wire, wire_artifact wire) of
        (Some as, None) \<Rightarrow>
          Inr \<lparr>schema_version = wire_schema_version wire, session = wire_session wire,
               capture = wire_capture wire, artifacts = as\<rparr>
      | (None, Some a) \<Rightarrow>
          Inr \<lparr>schema_version = wire_schema_version wire, session = wire_session wire,
               capture = wire_capture wire, artifacts = [a]\<rparr>
      | _ \<Rightarrow> Inl ''manifest must contain exactly one of artifacts or legacy artifact'')"

text \<open>Serialization always writes the ordered multi-artifact form.\<close>

definition manifest_serialize :: "manifest \<Rightarrow> manifest_wire" where
  "manifest_serialize m =
     \<lparr>wire_schema_version = schema_version m, wire_session = session m,
      wire_capture = capture m, wire_artifacts = Some (artifacts m), wire_artifact = None\<rparr>"

lemma manifest_deserialize_serialize: "manifest_deserialize (manifest_serialize m) = Inr m"
  by (simp add: manifest_deserialize_def manifest_serialize_def)

lemma manifest_deserialize_ok_iff:
  "is_ok (manifest_deserialize w) \<longleftrightarrow> (wire_artifacts w = None \<longleftrightarrow> wire_artifact w \<noteq> None)"
  by (auto simp: manifest_deserialize_def split: option.splits)

section \<open>Responses\<close>

record upload_artifact_status =
  uas_artifact_index :: nat
  uas_logical_path :: string
  uas_media_type :: "string option"
  uas_original_size_bytes :: nat
  uas_original_sha256 :: string
  uas_stored_size_bytes :: nat
  uas_stored_sha256 :: string
  uas_compression :: compression
  uas_chunk_count :: nat
  uas_chunk_upload_url :: string
  uas_accepted_chunk_bitmap :: string
  uas_missing_chunk_indexes :: "nat list"

record upload_response =
  ur_upload_id :: string
  ur_capture_id :: string
  ur_session_id :: string
  ur_status :: upload_status
  ur_manifest_sha256 :: string
  ur_chunk_size_bytes :: nat
  ur_artifacts :: "upload_artifact_status list"
  ur_artifact_upload_url :: string
  ur_status_url :: string
  ur_abandon_url :: string
  ur_completion_url :: string
  ur_capture_url :: string

record upload_status_response =
  us_upload_id :: string
  us_capture_id :: string
  us_session_id :: string
  us_status :: upload_status
  us_manifest_sha256 :: "string option"
  us_chunk_size_bytes :: nat
  us_artifacts :: "upload_artifact_status list"
  us_status_url :: string
  us_abandon_url :: string
  us_completion_url :: string
  us_capture_url :: string

record receipt =
  receipt_version :: nat
  rc_archive_instance_id :: string
  rc_owner_namespace :: string
  rc_snapshot_id :: string
  rc_session_id :: string
  rc_snapshot_fingerprint :: string
  rc_manifest_sha256 :: string
  rc_artifact_count :: nat
  rc_total_original_bytes :: nat
  rc_total_stored_bytes :: nat
  rc_completed_at :: string

record completion_transfer =
  ct_upload_id :: string
  ct_capture_id :: string
  ct_upload_transfer_bytes :: nat
  ct_newly_persisted_physical_bytes :: nat

record capture_provenance =
  pv_capture_record_id :: string
  pv_capture_id :: string
  pv_client_id :: string
  pv_session_id :: string
  pv_upload_id :: string
  pv_snapshot_id :: string
  pv_manifest_id :: string
  pv_manifest_sha256 :: string
  pv_capture :: capture
  pv_server_received_at :: string
  pv_server_completed_at :: string
  pv_capture_url :: string
  pv_manifest_url :: string

record completion_response =
  co_receipt :: receipt
  co_transfer :: completion_transfer
  co_capture :: capture_provenance

record delete_snapshot_request =
  ds_confirmation :: "string option"
  ds_reason :: "string option"

record tombstone_response =
  tr_tombstone_id :: string
  tr_deletion_audit_id :: string
  tr_owner_namespace :: string
  tr_session_id :: string
  tr_snapshot_id :: string
  tr_snapshot_fingerprint :: string
  tr_manifest_sha256 :: string
  tr_snapshot_completed_at :: string
  tr_deleted_at :: string
  tr_deleted_at_sort_key :: int
  tr_reason :: "string option"
  tr_capture_count :: nat
  tr_rearchived_snapshot_id :: "string option"
  tr_rearchived_snapshot_url :: "string option"
  tr_historical_receipt :: receipt

record blob_gc_response =
  inspected_blobs :: nat
  deleted_blobs :: nat

record integrity_finding_counts =
  fc_total :: nat
  fc_info :: nat
  fc_warning :: nat
  fc_error :: nat
  fc_by_kind :: "(string \<times> nat) list"

end
