(* ===== verification/Externals.thy ===== *)
theory Externals
  imports Contract
begin

text \<open>
  The third-party code the server calls, as one record of functions that the operations take as an
  argument: RFC 3339 parsing and formatting (crate \<open>time\<close>), MIME and UUID parsing, SHA-256, zstd
  decoding, JSON encoding and decoding (\<open>serde_json\<close>) of the documents below. Nothing is assumed
  of these functions here; a theorem that relies on documented behaviour of one of them says so
  in its hypotheses. The clock and fresh UUIDs are arguments of the operations.

  The second part models \<open>database.rs\<close>: numeric sort keys, deadlines and the archive identity.
\<close>

text \<open>\<open>OffsetDateTime\<close>: an instant in nanoseconds since the Unix epoch and the offset it is
  displayed in. Instants are compared by the first component only.\<close>

record offset_date_time =
  unix_timestamp_nanos :: int
  utc_offset_seconds :: int

text \<open>The documents that are hashed but never sent: the pre-provenance manifest shape and the
  snapshot fingerprint of \<open>ingestion.rs\<close>.\<close>

record legacy_capture_v1 =
  lc_captured_at :: string
  lc_source_cursor :: "string option"
  lc_project :: "string option"
  lc_repository :: "string option"
  lc_branch :: "string option"
  lc_source_agent_version :: "string option"
  lc_munshi_version :: "string option"

record legacy_manifest_v1 =
  lm_schema_version :: nat
  lm_session :: session_input
  lm_capture :: legacy_capture_v1
  lm_artifacts :: "artifact list"

record stable_capture =
  sc_project :: "string option"
  sc_repository :: "string option"
  sc_branch :: "string option"
  sc_source_agent_version :: "string option"
  sc_artifact_set_version :: nat

record original_artifact =
  oa_logical_path :: string
  oa_original_size_bytes :: nat
  oa_original_sha256 :: string

record fingerprint_document =
  fd_version :: nat
  fd_schema_version :: nat
  fd_session :: session_input
  fd_capture :: stable_capture
  fd_artifacts :: "original_artifact list"

record externals =
  parse_rfc3339 :: "string \<Rightarrow> offset_date_time option"
  format_rfc3339 :: "offset_date_time \<Rightarrow> string option"
  mime_parses :: "string \<Rightarrow> bool"
  uuid_parse :: "string \<Rightarrow> string option"
  sha256_digest :: "bytes \<Rightarrow> bytes"
  zstd_decode :: "bytes \<Rightarrow> bytes option"
  zstd_partial :: "bytes \<Rightarrow> bytes"
  manifest_to_json :: "manifest \<Rightarrow> string option"
  manifest_from_json :: "string \<Rightarrow> manifest option"
  legacy_manifest_to_json :: "legacy_manifest_v1 \<Rightarrow> string option"
  fingerprint_to_json :: "fingerprint_document \<Rightarrow> string option"
  metadata_to_json :: "btree_map \<Rightarrow> string option"
  metadata_from_json :: "string \<Rightarrow> btree_map option"

section \<open>Sort keys and deadlines\<close>

definition OWNER_NAMESPACE :: string where
  "OWNER_NAMESPACE = ''v1''"

text \<open>Rust's \<open>/\<close> on signed integers truncates towards zero.\<close>

definition truncated_div :: "int \<Rightarrow> int \<Rightarrow> int" where
  "truncated_div a b = (if 0 \<le> a then a div b else - ((- a) div b))"

text \<open>\<open>expect\<close> panics when the key leaves the \<open>i64\<close> range: \<^const>\<open>None\<close> is the panic.\<close>

definition i64_from_int :: "int \<Rightarrow> int option" where
  "i64_from_int i = (if - (2 ^ 63) \<le> i \<and> i < 2 ^ 63 then Some i else None)"

definition sort_key_from_timestamp :: "offset_date_time \<Rightarrow> int option" where
  "sort_key_from_timestamp timestamp =
     i64_from_int (truncated_div (unix_timestamp_nanos timestamp) 1000)"

definition sort_key_from_rfc3339 :: "externals \<Rightarrow> string \<Rightarrow> int option" where
  "sort_key_from_rfc3339 ext value =
     (case parse_rfc3339 ext value of
        None \<Rightarrow> None
      | Some timestamp \<Rightarrow> sort_key_from_timestamp timestamp)"

definition format_time :: "externals \<Rightarrow> offset_date_time \<Rightarrow> string option" where
  "format_time ext timestamp = format_rfc3339 ext timestamp"

text \<open>The duration contributes its whole seconds only (\<open>Duration::as_secs\<close>).\<close>

definition expiration_time :: "offset_date_time \<Rightarrow> nat \<Rightarrow> offset_date_time" where
  "expiration_time now duration_secs =
     now\<lparr>unix_timestamp_nanos := unix_timestamp_nanos now + int duration_secs * 1000000000\<rparr>"

definition expiration_at :: "externals \<Rightarrow> offset_date_time \<Rightarrow> nat \<Rightarrow> string option" where
  "expiration_at ext now duration_secs = format_time ext (expiration_time now duration_secs)"

lemma truncated_div_mono: "a \<le> b \<Longrightarrow> 0 < c \<Longrightarrow> truncated_div a c \<le> truncated_div b c"
proof -
  assume ab: "a \<le> b" and c: "0 < c"
  consider "0 \<le> a" | "a < 0" "0 \<le> b" | "b < 0" using ab by linarith
  then show ?thesis
  proof cases
    case 1
    with ab c show ?thesis by (simp add: truncated_div_def zdiv_mono1)
  next
    case 2
    with c have "0 \<le> (- a) div c" "0 \<le> b div c"
      by (simp_all add: pos_imp_zdiv_nonneg_iff)
    with 2 show ?thesis by (simp add: truncated_div_def)
  next
    case 3
    with ab c show ?thesis by (simp add: truncated_div_def zdiv_mono1)
  qed
qed

lemma i64_from_int_eq_Some: "i64_from_int i = Some k \<Longrightarrow> k = i"
  by (simp add: i64_from_int_def split: if_splits)

lemma sort_key_mono:
  assumes "sort_key_from_timestamp s = Some k" "sort_key_from_timestamp t = Some l"
    and "unix_timestamp_nanos s \<le> unix_timestamp_nanos t"
  shows "k \<le> l"
  using assms truncated_div_mono [of _ _ 1000]
  by (auto simp: sort_key_from_timestamp_def dest!: i64_from_int_eq_Some)

text \<open>After the epoch a key orders strictly whenever the instants are a microsecond apart. (Around
  the epoch truncation towards zero gives the key 0 to nearly two microseconds.)\<close>

lemma sort_key_strict:
  assumes "sort_key_from_timestamp s = Some k" "sort_key_from_timestamp t = Some l"
    and "0 \<le> unix_timestamp_nanos s"
    and "unix_timestamp_nanos s + 1000 \<le> unix_timestamp_nanos t"
  shows "k < l"
proof -
  let ?a = "unix_timestamp_nanos s" and ?b = "unix_timestamp_nanos t"
  have k: "k = truncated_div ?a 1000" and l: "l = truncated_div ?b 1000"
    using assms(1,2) by (auto simp: sort_key_from_timestamp_def dest!: i64_from_int_eq_Some)
  have "?a div 1000 + 1 = (?a + 1000) div 1000"
    by simp
  also have "\<dots> \<le> ?b div 1000"
    using assms(4) by (intro zdiv_mono1) simp_all
  finally show ?thesis
    using assms(3,4) unfolding k l truncated_div_def by simp
qed

section \<open>Archive identity\<close>

record archive_identity =
  ident_owner_namespace :: string
  archive_instance_id :: string
  ident_created_at :: string

text \<open>The \<open>archive_metadata\<close> table has one row at most (its key is the constant 1): the insert
  with \<open>ON CONFLICT DO NOTHING\<close> keeps a row that is there, and the read returns the row.\<close>

definition initialize_identity ::
  "string \<Rightarrow> string \<Rightarrow> archive_identity option \<Rightarrow> archive_identity \<times> archive_identity option" where
  "initialize_identity fresh_id now row =
     (let stored = (case row of
        None \<Rightarrow> \<lparr>ident_owner_namespace = OWNER_NAMESPACE, archive_instance_id = fresh_id,
                 ident_created_at = now\<rparr>
      | Some r \<Rightarrow> r)
      in (stored, Some stored))"

lemma initialize_identity_stable:
  "initialize_identity a s row = (i, row') \<Longrightarrow> initialize_identity b t row' = (i, row')"
  by (auto simp: initialize_identity_def Let_def split: option.splits)

end
