(* ===== verification/Validation.thy ===== *)
theory Validation
  imports Externals
begin

text \<open>
  The request validation of \<open>validation.rs\<close>. The model follows the order of the checks, so that the
  error a request gets is the one of the source. The lemmas give the declarative meaning of each
  check; \<open>normalize_manifest_iff\<close> characterises exactly which manifests are accepted and what the
  canonical manifest is.
\<close>

section \<open>Limits\<close>

definition MAX_LOGICAL_PATH_BYTES :: nat where "MAX_LOGICAL_PATH_BYTES = 1024"
definition MAX_METADATA_ENTRIES :: nat where "MAX_METADATA_ENTRIES = 64"
definition MAX_METADATA_KEY_BYTES :: nat where "MAX_METADATA_KEY_BYTES = 128"
definition MAX_METADATA_VALUE_BYTES :: nat where "MAX_METADATA_VALUE_BYTES = 1024"
definition MAX_IDEMPOTENCY_KEY_BYTES :: nat where "MAX_IDEMPOTENCY_KEY_BYTES = 128"
definition MAX_SOURCE_AGENT_BYTES :: nat where "MAX_SOURCE_AGENT_BYTES = 128"
definition MAX_SOURCE_SESSION_ID_BYTES :: nat where "MAX_SOURCE_SESSION_ID_BYTES = 512"
definition MAX_CONTEXT_VALUE_BYTES :: nat where "MAX_CONTEXT_VALUE_BYTES = 512"

definition WINDOWS_RESERVED_NAMES :: "string list" where
  "WINDOWS_RESERVED_NAMES =
     [''CON'', ''PRN'', ''AUX'', ''NUL'',
      ''COM1'', ''COM2'', ''COM3'', ''COM4'', ''COM5'', ''COM6'', ''COM7'', ''COM8'', ''COM9'',
      ''LPT1'', ''LPT2'', ''LPT3'', ''LPT4'', ''LPT5'', ''LPT6'', ''LPT7'', ''LPT8'', ''LPT9'']"

record manifest_limits =
  lim_artifact_count :: nat
  lim_artifact_stored_bytes :: nat
  lim_artifact_original_bytes :: nat
  lim_snapshot_stored_bytes :: nat
  lim_snapshot_original_bytes :: nat

section \<open>Text, digests and sizes\<close>

definition validate_text :: "string \<Rightarrow> nat \<Rightarrow> string \<Rightarrow> unit result" where
  "validate_text value maximum message =
     (if length value > maximum \<or> list_ex is_ascii_control value
      then Inl (invalid message) else Inr ())"

definition validate_nonempty_text :: "string \<Rightarrow> nat \<Rightarrow> string \<Rightarrow> unit result" where
  "validate_nonempty_text value maximum message =
     (if value = [] then Inl (invalid message) else validate_text value maximum message)"

definition validate_optional_text :: "string option \<Rightarrow> nat \<Rightarrow> unit result" where
  "validate_optional_text value maximum =
     (case value of
        Some v \<Rightarrow> validate_text v maximum ''text value is invalid''
      | None \<Rightarrow> Inr ())"

definition validate_optional_media_type :: "externals \<Rightarrow> string option \<Rightarrow> unit result" where
  "validate_optional_media_type ext value =
     (case value of
        Some v \<Rightarrow>
          and_then (validate_text v MAX_CONTEXT_VALUE_BYTES ''media type is invalid'')
            (\<lambda>_. reject_if (\<not> mime_parses ext v) (invalid ''media type is invalid''))
      | None \<Rightarrow> Inr ())"

definition is_lower_hex :: "char \<Rightarrow> bool" where
  "is_lower_hex byte =
     (is_ascii_digit byte \<or> (is_ascii_lowercase byte \<and> is_ascii_hexdigit byte))"

definition validate_content_hash :: "string \<Rightarrow> string \<Rightarrow> unit result" where
  "validate_content_hash value message =
     (if length value \<noteq> 64 \<or> \<not> list_all is_lower_hex value
      then Inl (invalid message) else Inr ())"

definition validate_digest :: "string \<Rightarrow> unit result" where
  "validate_digest value =
     (case strip_prefix ''sha256:'' value of
        None \<Rightarrow> Inl (invalid ''hash must be a lowercase sha256 digest'')
      | Some hex \<Rightarrow> validate_content_hash hex ''hash must be a lowercase sha256 digest'')"

definition validate_size :: "nat \<Rightarrow> nat \<Rightarrow> string \<Rightarrow> unit result" where
  "validate_size sz maximum message =
     (if sz > maximum \<or> i64_try_from sz = None then Inl (invalid message) else Inr ())"

definition to_sqlite_i64 :: "nat \<Rightarrow> int result" where
  "to_sqlite_i64 value =
     ok_or (invalid ''artifact size exceeds configured bounds'') (i64_try_from value)"

definition validate_octet_stream :: "string option \<Rightarrow> unit result" where
  "validate_octet_stream content_type =
     (if content_type \<noteq> Some ''application/octet-stream''
      then Inl (invalid ''artifact upload requires application/octet-stream content type'')
      else Inr ())"

definition parse_uuid :: "externals \<Rightarrow> string \<Rightarrow> string \<Rightarrow> string result" where
  "parse_uuid ext value message = ok_or (invalid message) (uuid_parse ext value)"

section \<open>Logical paths\<close>

definition is_windows_reserved_component :: "string \<Rightarrow> bool" where
  "is_windows_reserved_component component =
     (let basename = hd (split_on (CHR ''.'') component)
      in List.member WINDOWS_RESERVED_NAMES (to_ascii_uppercase basename))"

definition is_portable_byte :: "char \<Rightarrow> bool" where
  "is_portable_byte byte =
     (is_ascii_alphanumeric byte \<or> byte = CHR ''.'' \<or> byte = CHR ''_'' \<or> byte = CHR ''-'')"

definition ends_with :: "string \<Rightarrow> char \<Rightarrow> bool" where
  "ends_with s c = (s \<noteq> [] \<and> last s = c)"

definition bad_component :: "string \<Rightarrow> bool" where
  "bad_component part =
     (part = [] \<or> part = ''.'' \<or> part = ''..'' \<or> ends_with part (CHR ''.'')
       \<or> ends_with part (CHR '' '') \<or> is_windows_reserved_component part
       \<or> \<not> list_all is_portable_byte part)"

definition validate_logical_path :: "string \<Rightarrow> unit result" where
  "validate_logical_path path =
     (if path = [] \<or> length path > MAX_LOGICAL_PATH_BYTES
         \<or> (path \<noteq> [] \<and> hd path = CHR ''/'')
         \<or> List.member path (CHR 0x5C) \<or> List.member path (CHR '':'')
         \<or> \<not> is_ascii path \<or> list_ex is_ascii_control path
         \<or> list_ex bad_component (split_on (CHR ''/'') path)
      then Inl (invalid ''logical path must be a portable normalized relative regular-file path'')
      else Inr ())"

section \<open>Clients and capture identifiers\<close>

definition validate_client_request :: "register_client_request \<Rightarrow> unit result" where
  "validate_client_request request =
     and_then (validate_optional_text (rcr_hostname request) MAX_CONTEXT_VALUE_BYTES) (\<lambda>_.
     and_then (validate_optional_text (rcr_display_name request) MAX_CONTEXT_VALUE_BYTES) (\<lambda>_.
     and_then (reject_if (length (rcr_metadata request) > MAX_METADATA_ENTRIES)
                 (invalid ''metadata has too many entries'')) (\<lambda>_.
     try_each (\<lambda>(key, value).
       and_then (validate_nonempty_text key MAX_METADATA_KEY_BYTES ''metadata key is invalid'') (\<lambda>_.
       validate_text value MAX_METADATA_VALUE_BYTES ''metadata value is invalid''))
       (rcr_metadata request))))"

definition validate_capture_identifier :: "string \<Rightarrow> unit result" where
  "validate_capture_identifier cid =
     validate_nonempty_text cid MAX_IDEMPOTENCY_KEY_BYTES ''capture identifier is invalid''"

definition capture_id :: "create_upload_request \<Rightarrow> string result" where
  "capture_id request =
     and_then
       (case (cur_capture_id request, cur_idempotency_key request) of
          (Some cid, _) \<Rightarrow> Inr cid
        | (None, Some key) \<Rightarrow> Inr key
        | (None, None) \<Rightarrow> Inl (invalid ''capture identifier is required'')) (\<lambda>cid.
     and_then
       (case (cur_capture_id request, cur_idempotency_key request) of
          (Some c, Some key) \<Rightarrow> reject_if (c \<noteq> key)
            (invalid ''capture_id and idempotency_key must be identical when both are supplied'')
        | _ \<Rightarrow> Inr ()) (\<lambda>_.
     and_then (validate_capture_identifier cid) (\<lambda>_. Inr cid)))"

section \<open>Manifests\<close>

definition normalize_capture :: "externals \<Rightarrow> capture_input \<Rightarrow> capture result" where
  "normalize_capture ext input =
     and_then (ok_or (invalid ''capture timestamp must be RFC 3339'')
                 (parse_rfc3339 ext (ci_captured_at input))) (\<lambda>timestamp.
     and_then (ok_or internal (format_rfc3339 ext timestamp)) (\<lambda>captured.
     and_then (try_each (\<lambda>value. validate_optional_text value MAX_CONTEXT_VALUE_BYTES)
       [ci_source_cursor input, ci_source_state_hash input, ci_project input,
        ci_repository input, ci_branch input, ci_source_agent_version input,
        ci_munshi_version input]) (\<lambda>_.
     and_then (reject_if (ci_artifact_set_version input = 0)
       (invalid ''artifact set version must be a non-zero adapter contract version'')) (\<lambda>_.
     and_then (reject_if (length (ci_source_metadata input) > MAX_METADATA_ENTRIES)
       (invalid ''source metadata has too many entries'')) (\<lambda>_.
     and_then (try_each (\<lambda>(key, value).
         and_then (validate_nonempty_text key MAX_METADATA_KEY_BYTES
           ''source metadata key is invalid'') (\<lambda>_.
         validate_text value MAX_METADATA_VALUE_BYTES ''source metadata value is invalid''))
       (ci_source_metadata input)) (\<lambda>_.
     Inr \<lparr>captured_at = captured, source_cursor = ci_source_cursor input,
          source_state_hash = ci_source_state_hash input,
          source_metadata = ci_source_metadata input, project = ci_project input,
          repository = ci_repository input, branch = ci_branch input,
          source_agent_version = ci_source_agent_version input,
          artifact_set_version = ci_artifact_set_version input,
          munshi_version = ci_munshi_version input\<rparr>))))))"

text \<open>The loop of \<open>normalize_manifest\<close> threads five mutable accumulators through
  \<open>normalize_artifact\<close>. The hash set is a list read through membership, the tree map a map.\<close>

record normalize_state =
  ns_original_total :: nat
  ns_stored_total :: nat
  ns_portable_paths :: "string list"
  ns_representations :: "string \<Rightarrow> (nat \<times> compression) option"
  ns_normalized :: "artifact list"

definition normalize_init :: normalize_state where
  "normalize_init =
     \<lparr>ns_original_total = 0, ns_stored_total = 0, ns_portable_paths = [],
      ns_representations = Map.empty, ns_normalized = []\<rparr>"

definition artifact_of_input :: "artifact_input \<Rightarrow> artifact" where
  "artifact_of_input input =
     \<lparr>logical_path = ai_logical_path input, media_type = ai_media_type input,
      original_size_bytes = ai_original_size_bytes input,
      original_sha256 = ai_original_sha256 input,
      stored_size_bytes = ai_stored_size_bytes input, stored_sha256 = ai_stored_sha256 input,
      compression = ai_compression input\<rparr>"

definition add_total :: "nat \<Rightarrow> nat \<Rightarrow> nat \<Rightarrow> string \<Rightarrow> string \<Rightarrow> nat result" where
  "add_total acc sz maximum overflow exceeds =
     and_then (ok_or (invalid overflow) (checked_add acc sz)) (\<lambda>t.
     and_then (reject_if (t > maximum) (invalid exceeds)) (\<lambda>_. Inr t))"

definition note_representation ::
  "(string \<Rightarrow> (nat \<times> compression) option) \<Rightarrow> string \<Rightarrow> nat \<times> compression
     \<Rightarrow> (string \<Rightarrow> (nat \<times> compression) option) result" where
  "note_representation reps digest rep =
     (case reps digest of
        Some known \<Rightarrow>
          if known \<noteq> rep
          then Inl (conflict ''blob_integrity_conflict''
            ''stored digest conflicts with immutable blob size or compression metadata'')
          else Inr reps
      | None \<Rightarrow> Inr (reps(digest \<mapsto> rep)))"

definition normalize_artifact ::
  "externals \<Rightarrow> manifest_limits \<Rightarrow> normalize_state \<Rightarrow> artifact_input \<Rightarrow> normalize_state result" where
  "normalize_artifact ext limits st input =
     and_then (validate_logical_path (ai_logical_path input)) (\<lambda>_.
     let portable_path = to_ascii_lowercase (ai_logical_path input) in
     and_then (reject_if (List.member (ns_portable_paths st) portable_path)
       (invalid ''manifest contains duplicate normalized logical paths'')) (\<lambda>_.
     and_then (validate_optional_media_type ext (ai_media_type input)) (\<lambda>_.
     and_then (validate_digest (ai_original_sha256 input)) (\<lambda>_.
     and_then (validate_digest (ai_stored_sha256 input)) (\<lambda>_.
     and_then (validate_size (ai_original_size_bytes input)
       (lim_artifact_original_bytes limits)
       ''artifact original size exceeds the configured bounded limit'') (\<lambda>_.
     and_then (validate_size (ai_stored_size_bytes input)
       (lim_artifact_stored_bytes limits)
       ''artifact stored size exceeds the configured bounded limit'') (\<lambda>_.
     and_then (add_total (ns_original_total st) (ai_original_size_bytes input)
       (lim_snapshot_original_bytes limits) ''snapshot original size is invalid''
       ''snapshot original size exceeds the configured bounded limit'') (\<lambda>original_total.
     and_then (add_total (ns_stored_total st) (ai_stored_size_bytes input)
       (lim_snapshot_stored_bytes limits) ''snapshot stored size is invalid''
       ''snapshot stored size exceeds the configured bounded limit'') (\<lambda>stored_total.
     and_then (ok_or (panicked ''digest validation requires sha256 prefix'')
       (strip_prefix ''sha256:'' (ai_stored_sha256 input))) (\<lambda>stored_digest.
     and_then (note_representation (ns_representations st) stored_digest
       (ai_stored_size_bytes input, ai_compression input)) (\<lambda>reps.
     Inr \<lparr>ns_original_total = original_total, ns_stored_total = stored_total,
          ns_portable_paths = portable_path # ns_portable_paths st,
          ns_representations = reps,
          ns_normalized = ns_normalized st @ [artifact_of_input input]\<rparr>)))))))))))"

text \<open>The loop over the proper directory prefixes of a path.\<close>

function has_file_ancestor :: "string list \<Rightarrow> string \<Rightarrow> bool" where
  "has_file_ancestor paths parent =
     (case rsplit_once (CHR ''/'') parent of
        None \<Rightarrow> False
      | Some (prefix, _) \<Rightarrow>
          if List.member paths prefix then True else has_file_ancestor paths prefix)"
  by pat_completeness auto
termination
  by (relation "measure (length \<circ> snd)") (auto simp: rsplit_once_Some)

declare has_file_ancestor.simps [simp del]

definition manifest_artifact_inputs :: "manifest_input \<Rightarrow> artifact_input list result" where
  "manifest_artifact_inputs input =
     (case (mi_artifacts input, mi_artifact input) of
        (Some as, None) \<Rightarrow> Inr as
      | (None, Some a) \<Rightarrow> Inr [a]
      | _ \<Rightarrow> Inl (invalid
          ''manifest must declare exactly one artifacts array or legacy artifact''))"

definition normalize_artifacts ::
  "externals \<Rightarrow> manifest_limits \<Rightarrow> artifact_input list \<Rightarrow> artifact list result" where
  "normalize_artifacts ext limits inputs =
     and_then (reject_if (inputs = [] \<or> length inputs > lim_artifact_count limits)
       (invalid ''manifest artifact count exceeds the configured bounded limit'')) (\<lambda>_.
     and_then (try_fold (normalize_artifact ext limits) normalize_init inputs) (\<lambda>st.
     and_then (reject_if
       (list_ex (has_file_ancestor (ns_portable_paths st)) (ns_portable_paths st))
       (invalid ''manifest contains conflicting regular-file logical paths'')) (\<lambda>_.
     Inr (sort_key logical_path (ns_normalized st)))))"

definition normalize_manifest ::
  "externals \<Rightarrow> manifest_input \<Rightarrow> manifest_limits \<Rightarrow> manifest result" where
  "normalize_manifest ext input limits =
     and_then (reject_if (mi_schema_version input \<noteq> 1)
       (invalid ''manifest schema version is not supported'')) (\<lambda>_.
     and_then (validate_nonempty_text (source_agent (mi_session input)) MAX_SOURCE_AGENT_BYTES
       ''source agent is invalid'') (\<lambda>_.
     and_then (validate_nonempty_text (source_session_id (mi_session input))
       MAX_SOURCE_SESSION_ID_BYTES ''source session identifier is invalid'') (\<lambda>_.
     and_then (normalize_capture ext (mi_capture input)) (\<lambda>cap.
     and_then (manifest_artifact_inputs input) (\<lambda>inputs.
     and_then (normalize_artifacts ext limits inputs) (\<lambda>normalized.
     Inr \<lparr>schema_version = mi_schema_version input, session = mi_session input,
          capture = cap, artifacts = normalized\<rparr>))))))"

definition manifest_totals :: "manifest \<Rightarrow> (nat \<times> nat) result" where
  "manifest_totals m =
     try_fold (\<lambda>(original, stored) a.
       and_then (ok_or (invalid ''snapshot original size is invalid'')
         (checked_add original (original_size_bytes a))) (\<lambda>original'.
       and_then (ok_or (invalid ''snapshot stored size is invalid'')
         (checked_add stored (stored_size_bytes a))) (\<lambda>stored'.
       Inr (original', stored')))) (0, 0) (artifacts m)"

section \<open>What the checks accept\<close>

lemma validate_text_ok [result_simps]:
  "validate_text v n e = Inr u \<longleftrightarrow> length v \<le> n \<and> list_all (\<lambda>c. \<not> is_ascii_control c) v"
  by (auto simp: validate_text_def list_all_iff list_ex_iff)

lemma validate_nonempty_text_ok [result_simps]:
  "validate_nonempty_text v n e = Inr u \<longleftrightarrow>
     v \<noteq> [] \<and> length v \<le> n \<and> list_all (\<lambda>c. \<not> is_ascii_control c) v"
  by (auto simp: validate_nonempty_text_def result_simps)

lemma validate_content_hash_ok [result_simps]:
  "validate_content_hash v e = Inr u \<longleftrightarrow> length v = 64 \<and> list_all is_lower_hex v"
  by (auto simp: validate_content_hash_def)

lemma validate_digest_ok [result_simps]:
  "validate_digest v = Inr u \<longleftrightarrow>
     (\<exists>h. v = ''sha256:'' @ h \<and> length h = 64 \<and> list_all is_lower_hex h)"
  by (simp only: validate_digest_def strip_prefix_case_Inr validate_content_hash_ok)

lemma validate_size_ok [result_simps]:
  "validate_size n m e = Inr u \<longleftrightarrow> n \<le> m \<and> n \<le> i64_max"
  by (auto simp: validate_size_def i64_try_from_def)

lemma to_sqlite_i64_ok [result_simps]: "to_sqlite_i64 n = Inr i \<longleftrightarrow> i = int n \<and> n \<le> i64_max"
  by (simp add: to_sqlite_i64_def result_simps)

lemma add_total_ok [result_simps]:
  "add_total t n m e1 e2 = Inr r \<longleftrightarrow> r = t + n \<and> t + n \<le> m \<and> t + n \<le> u64_max"
  by (auto simp: add_total_def result_simps)

text \<open>The check of a logical path is stated twice over in the source: the guards on the whole path
  follow from the guards on its components and the length.\<close>

definition portable_component :: "string \<Rightarrow> bool" where
  "portable_component part =
     (part \<noteq> [] \<and> list_all is_portable_byte part \<and> last part \<noteq> CHR ''.''
       \<and> \<not> is_windows_reserved_component part)"

lemma portable_byte_plain:
  assumes "is_portable_byte c"
  shows "c \<noteq> CHR 0x5C" "c \<noteq> CHR '':''" "c \<noteq> CHR '' ''" "byte_of c < 128" "\<not> is_ascii_control c"
  using assms
  by (auto simp: is_portable_byte_def is_ascii_alphanumeric_def is_ascii_digit_def
      is_ascii_uppercase_def is_ascii_lowercase_def is_ascii_control_def byte_of_def)

lemma bad_component_iff: "\<not> bad_component part \<longleftrightarrow> portable_component part"
proof -
  have "last part \<noteq> CHR '' ''" if "list_all is_portable_byte part" "part \<noteq> []"
    using that portable_byte_plain(3) by (metis last_in_set list_all_iff)
  then show ?thesis
    by (auto simp: bad_component_def portable_component_def ends_with_def)
qed

lemma set_join_with: "set (join_with c ps) \<subseteq> insert c (\<Union> (set ` set ps))"
  by (induction c ps rule: join_with.induct) auto

lemma path_bytes:
  assumes "\<forall>part \<in> set (split_on (CHR ''/'') path). portable_component part" "c \<in> set path"
  shows "c = CHR ''/'' \<or> is_portable_byte c"
proof -
  have "c \<in> insert (CHR ''/'') (\<Union> (set ` set (split_on (CHR ''/'') path)))"
    using set_join_with [of "CHR ''/''" "split_on (CHR ''/'') path"] assms(2) by auto
  with assms(1) show ?thesis
    by (auto simp: portable_component_def list_all_iff)
qed

lemma validate_logical_path_ok [result_simps]:
  "validate_logical_path path = Inr u \<longleftrightarrow>
     length path \<le> MAX_LOGICAL_PATH_BYTES
       \<and> (\<forall>part \<in> set (split_on (CHR ''/'') path). portable_component part)"
  (is "_ \<longleftrightarrow> ?len \<and> ?parts")
proof
  assume "validate_logical_path path = Inr u"
  then show "?len \<and> ?parts"
    by (auto simp: validate_logical_path_def list_ex_iff bad_component_iff [symmetric]
        split: if_splits)
next
  assume ok: "?len \<and> ?parts"
  have ne: "path \<noteq> []" using ok by (auto simp: portable_component_def)
  have "hd path \<noteq> CHR ''/''"
    using ok ne by (cases path) (auto simp: portable_component_def)
  moreover have "\<forall>c \<in> set path. c \<noteq> CHR 0x5C \<and> c \<noteq> CHR '':'' \<and> byte_of c < 128
      \<and> \<not> is_ascii_control c"
  proof
    fix c assume "c \<in> set path"
    then consider "c = CHR ''/''" | "is_portable_byte c"
      using path_bytes [of path] ok by blast
    then show "c \<noteq> CHR 0x5C \<and> c \<noteq> CHR '':'' \<and> byte_of c < 128 \<and> \<not> is_ascii_control c"
      by cases (simp add: is_ascii_control_def byte_of_def, use portable_byte_plain in blast)
  qed
  ultimately show "validate_logical_path path = Inr u"
    using ok ne
    by (auto simp: validate_logical_path_def list_ex_iff list_all_iff is_ascii_def
        bad_component_iff)
qed

text \<open>The ancestors of a path are its proper prefixes that end before a separator.\<close>

definition path_ancestor :: "string \<Rightarrow> string \<Rightarrow> bool" where
  "path_ancestor a p = (\<exists>rest. p = a @ CHR ''/'' # rest)"

lemma has_file_ancestor_iff:
  "has_file_ancestor paths p \<longleftrightarrow> (\<exists>a \<in> set paths. path_ancestor a p)"
proof (induction paths p rule: has_file_ancestor.induct)
  case (1 paths p)
  show ?case
  proof (cases "rsplit_once (CHR ''/'') p")
    case None
    then have "CHR ''/'' \<notin> set p" by (simp add: rsplit_once_None)
    with None show ?thesis
      by (auto simp: has_file_ancestor.simps [of paths p] path_ancestor_def)
  next
    case (Some ab)
    then obtain a b where ab: "rsplit_once (CHR ''/'') p = Some (a, b)" by (cases ab) auto
    then have p: "p = a @ CHR ''/'' # b" "CHR ''/'' \<notin> set b"
      by (simp_all add: rsplit_once_Some)
    have anc: "path_ancestor x p \<longleftrightarrow> x = a \<or> path_ancestor x a" for x
      using p by (auto simp: path_ancestor_def append_eq_append_conv2 Cons_eq_append_conv
          append_eq_Cons_conv)
    show ?thesis
    proof (cases "List.member paths a")
      case True
      with ab anc show ?thesis
        by (auto simp: has_file_ancestor.simps [of paths p])
    next
      case False
      with ab anc "1.IH" [OF ab refl] show ?thesis
        by (auto simp: has_file_ancestor.simps [of paths p])
    qed
  qed
qed

section \<open>Which artifact lists are accepted\<close>

definition artifact_ok :: "externals \<Rightarrow> manifest_limits \<Rightarrow> artifact_input \<Rightarrow> bool" where
  "artifact_ok ext limits a =
     (validate_logical_path (ai_logical_path a) = Inr ()
       \<and> validate_optional_media_type ext (ai_media_type a) = Inr ()
       \<and> validate_digest (ai_original_sha256 a) = Inr ()
       \<and> validate_digest (ai_stored_sha256 a) = Inr ()
       \<and> ai_original_size_bytes a \<le> min (lim_artifact_original_bytes limits) i64_max
       \<and> ai_stored_size_bytes a \<le> min (lim_artifact_stored_bytes limits) i64_max)"

definition portable_path :: "artifact_input \<Rightarrow> string" where
  "portable_path a = to_ascii_lowercase (ai_logical_path a)"

definition representation_entry :: "artifact_input \<Rightarrow> string \<times> nat \<times> compression" where
  "representation_entry a =
     (drop 7 (ai_stored_sha256 a), ai_stored_size_bytes a, ai_compression a)"

definition entries_agree :: "('k \<times> 'v) list \<Rightarrow> bool" where
  "entries_agree ps = (\<forall>p \<in> set ps. \<forall>q \<in> set ps. fst p = fst q \<longrightarrow> snd p = snd q)"

definition total_original :: "artifact_input list \<Rightarrow> nat" where
  "total_original xs = sum_list (map ai_original_size_bytes xs)"

definition total_stored :: "artifact_input list \<Rightarrow> nat" where
  "total_stored xs = sum_list (map ai_stored_size_bytes xs)"

definition batch_ok :: "externals \<Rightarrow> manifest_limits \<Rightarrow> artifact_input list \<Rightarrow> bool" where
  "batch_ok ext limits xs =
     (list_all (artifact_ok ext limits) xs \<and> distinct (map portable_path xs)
       \<and> total_original xs \<le> min (lim_snapshot_original_bytes limits) u64_max
       \<and> total_stored xs \<le> min (lim_snapshot_stored_bytes limits) u64_max
       \<and> entries_agree (map representation_entry xs))"

definition normalize_state_of :: "artifact_input list \<Rightarrow> normalize_state" where
  "normalize_state_of xs =
     \<lparr>ns_original_total = total_original xs, ns_stored_total = total_stored xs,
      ns_portable_paths = rev (map portable_path xs),
      ns_representations = map_of (map representation_entry xs),
      ns_normalized = map artifact_of_input xs\<rparr>"

lemma entries_agree_snoc:
  assumes "entries_agree ps"
  shows "entries_agree (ps @ [p]) \<longleftrightarrow> (\<forall>q \<in> set ps. fst q = fst p \<longrightarrow> snd q = snd p)"
proof -
  have "set (ps @ [p]) = insert p (set ps)" by simp
  with assms show ?thesis
    unfolding entries_agree_def by (metis insert_iff)
qed

lemma note_representation_ok:
  assumes "entries_agree ps"
  shows "note_representation (map_of ps) d r = Inr m \<longleftrightarrow>
     entries_agree (ps @ [(d, r)]) \<and> m = map_of (ps @ [(d, r)])"
proof (cases "map_of ps d")
  case None
  then have fresh: "\<forall>p \<in> set ps. fst p \<noteq> d" by (auto simp: map_of_eq_None_iff)
  have "map_of (ps @ [(d, r)]) = (map_of ps)(d \<mapsto> r)"
  proof
    fix k show "map_of (ps @ [(d, r)]) k = ((map_of ps)(d \<mapsto> r)) k"
      using None by (cases "k = d") (simp_all add: map_add_def split: option.split)
  qed
  moreover have "entries_agree (ps @ [(d, r)])"
    using fresh by (simp add: entries_agree_snoc [OF assms])
  ultimately show ?thesis
    using None by (simp add: note_representation_def) metis
next
  case (Some v)
  then have dv: "(d, v) \<in> set ps" by (rule map_of_SomeD)
  have "map_of (ps @ [(d, r)]) = map_of ps"
  proof
    fix k show "map_of (ps @ [(d, r)]) k = map_of ps k"
      using Some by (cases "k = d") (simp_all add: map_add_def split: option.split)
  qed
  moreover have "entries_agree (ps @ [(d, r)]) \<longleftrightarrow> v = r"
    using entries_agree_snoc [OF assms, of "(d, r)"] assms [unfolded entries_agree_def] dv
    by (metis fst_conv snd_conv)
  ultimately show ?thesis
    using Some unfolding note_representation_def by (cases "v = r") auto
qed

lemma entries_agree_prefix: "entries_agree (ps @ qs) \<Longrightarrow> entries_agree ps"
  by (auto simp: entries_agree_def)

lemma batch_ok_snoc:
  "batch_ok ext limits (xs @ [x]) \<longleftrightarrow>
     batch_ok ext limits xs \<and> artifact_ok ext limits x \<and> portable_path x \<notin> set (map portable_path xs)
       \<and> total_original xs + ai_original_size_bytes x
           \<le> min (lim_snapshot_original_bytes limits) u64_max
       \<and> total_stored xs + ai_stored_size_bytes x \<le> min (lim_snapshot_stored_bytes limits) u64_max
       \<and> entries_agree (map representation_entry xs @ [representation_entry x])"
  (is "_ \<longleftrightarrow> _ \<and> _ \<and> _ \<and> ?o \<and> ?s \<and> ?e")
proof -
  have "total_original (xs @ [x]) = total_original xs + ai_original_size_bytes x"
    "total_stored (xs @ [x]) = total_stored xs + ai_stored_size_bytes x"
    by (simp_all add: total_original_def total_stored_def)
  moreover have "?e \<Longrightarrow> entries_agree (map representation_entry xs)"
    by (rule entries_agree_prefix)
  moreover have "?o \<Longrightarrow> total_original xs \<le> min (lim_snapshot_original_bytes limits) u64_max"
    "?s \<Longrightarrow> total_stored xs \<le> min (lim_snapshot_stored_bytes limits) u64_max"
    by linarith+
  moreover have "distinct (map portable_path (xs @ [x])) \<longleftrightarrow>
      distinct (map portable_path xs) \<and> portable_path x \<notin> set (map portable_path xs)"
    by auto
  moreover have "list_all (artifact_ok ext limits) (xs @ [x]) \<longleftrightarrow>
      list_all (artifact_ok ext limits) xs \<and> artifact_ok ext limits x"
    by simp
  moreover have "map representation_entry (xs @ [x])
      = map representation_entry xs @ [representation_entry x]"
    by simp
  ultimately show ?thesis
    unfolding batch_ok_def by metis
qed

lemma stored_digest_of_valid:
  "validate_digest v = Inr () \<Longrightarrow> strip_prefix ''sha256:'' v = Some (drop 7 v)"
  by (auto simp: result_simps strip_prefix_def)

lemma normalize_artifact_iff:
  "normalize_artifact ext limits st x = Inr st' \<longleftrightarrow>
     artifact_ok ext limits x \<and> portable_path x \<notin> set (ns_portable_paths st)
       \<and> ns_original_total st + ai_original_size_bytes x
           \<le> min (lim_snapshot_original_bytes limits) u64_max
       \<and> ns_stored_total st + ai_stored_size_bytes x
           \<le> min (lim_snapshot_stored_bytes limits) u64_max
       \<and> (\<exists>reps. note_representation (ns_representations st) (fst (representation_entry x))
                (snd (representation_entry x)) = Inr reps
            \<and> st' = \<lparr>ns_original_total = ns_original_total st + ai_original_size_bytes x,
                ns_stored_total = ns_stored_total st + ai_stored_size_bytes x,
                ns_portable_paths = portable_path x # ns_portable_paths st,
                ns_representations = reps,
                ns_normalized = ns_normalized st @ [artifact_of_input x]\<rparr>)"
proof (cases "artifact_ok ext limits x")
  case True
  then have "strip_prefix ''sha256:'' (ai_stored_sha256 x) = Some (drop 7 (ai_stored_sha256 x))"
    by (simp only: artifact_ok_def stored_digest_of_valid)
  with True show ?thesis
    unfolding normalize_artifact_def Let_def artifact_ok_def
    by (simp add: validate_size_ok [THEN iffD2] and_then_eq_Inr reject_if_eq_Inr add_total_ok
        ok_or_eq_Inr portable_path_def representation_entry_def) metis
next
  case False
  then show ?thesis
    by (auto simp: normalize_artifact_def Let_def artifact_ok_def and_then_eq_Inr
        validate_size_ok)
qed

lemma normalize_artifact_step:
  assumes "batch_ok ext limits xs"
  shows "normalize_artifact ext limits (normalize_state_of xs) x = Inr st \<longleftrightarrow>
     batch_ok ext limits (xs @ [x]) \<and> st = normalize_state_of (xs @ [x])"
proof -
  have "entries_agree (map representation_entry xs)"
    using assms by (simp add: batch_ok_def)
  note note_representation_ok [OF this, of "fst (representation_entry x)"
      "snd (representation_entry x)"]
  with assms show ?thesis
    by (simp add: normalize_artifact_iff batch_ok_snoc normalize_state_of_def
        total_original_def total_stored_def)
qed

lemma normalize_fold_iff:
  "try_fold (normalize_artifact ext limits) normalize_init xs = Inr st \<longleftrightarrow>
     batch_ok ext limits xs \<and> st = normalize_state_of xs"
proof (induction xs arbitrary: st rule: rev_induct)
  case Nil
  then show ?case
    by (auto simp: batch_ok_def normalize_state_of_def normalize_init_def total_original_def
        total_stored_def entries_agree_def)
next
  case (snoc x xs)
  show ?case
    using normalize_artifact_step [of ext limits xs x st]
    by (auto simp: try_fold_append and_then_eq_Inr snoc.IH batch_ok_snoc)
qed

definition no_file_ancestors :: "string list \<Rightarrow> bool" where
  "no_file_ancestors paths = (\<forall>a \<in> set paths. \<forall>p \<in> set paths. \<not> path_ancestor a p)"

lemma normalize_artifacts_iff:
  "normalize_artifacts ext limits xs = Inr as \<longleftrightarrow>
     xs \<noteq> [] \<and> length xs \<le> lim_artifact_count limits \<and> batch_ok ext limits xs
       \<and> no_file_ancestors (map portable_path xs)
       \<and> as = sort_key logical_path (map artifact_of_input xs)"
  by (auto simp: normalize_artifacts_def and_then_eq_Inr reject_if_eq_Inr normalize_fold_iff
      normalize_state_of_def list_ex_iff has_file_ancestor_iff no_file_ancestors_def)

definition session_ok :: "session_input \<Rightarrow> bool" where
  "session_ok s =
     (validate_nonempty_text (source_agent s) MAX_SOURCE_AGENT_BYTES [] = Inr ()
       \<and> validate_nonempty_text (source_session_id s) MAX_SOURCE_SESSION_ID_BYTES [] = Inr ())"

lemma normalize_manifest_iff:
  "normalize_manifest ext input limits = Inr m \<longleftrightarrow>
     mi_schema_version input = 1 \<and> session_ok (mi_session input)
       \<and> normalize_capture ext (mi_capture input) = Inr (capture m)
       \<and> schema_version m = 1 \<and> session m = mi_session input
       \<and> (\<exists>xs. manifest_artifact_inputs input = Inr xs
             \<and> normalize_artifacts ext limits xs = Inr (artifacts m))"
  by (cases m) (auto simp: normalize_manifest_def and_then_eq_Inr reject_if_eq_Inr session_ok_def
      validate_nonempty_text_ok)

section \<open>Canonical manifests\<close>

definition input_of_artifact :: "artifact \<Rightarrow> artifact_input" where
  "input_of_artifact a =
     \<lparr>ai_logical_path = logical_path a, ai_media_type = media_type a,
      ai_original_size_bytes = original_size_bytes a, ai_original_sha256 = original_sha256 a,
      ai_stored_size_bytes = stored_size_bytes a, ai_stored_sha256 = stored_sha256 a,
      ai_compression = compression a\<rparr>"

definition input_of_capture :: "capture \<Rightarrow> capture_input" where
  "input_of_capture c =
     \<lparr>ci_captured_at = captured_at c, ci_source_cursor = source_cursor c,
      ci_source_state_hash = source_state_hash c, ci_source_metadata = source_metadata c,
      ci_project = project c, ci_repository = repository c, ci_branch = branch c,
      ci_source_agent_version = source_agent_version c,
      ci_artifact_set_version = artifact_set_version c, ci_munshi_version = munshi_version c\<rparr>"

definition input_of_manifest :: "manifest \<Rightarrow> manifest_input" where
  "input_of_manifest m =
     \<lparr>mi_schema_version = schema_version m, mi_session = session m,
      mi_capture = input_of_capture (capture m),
      mi_artifacts = Some (map input_of_artifact (artifacts m)), mi_artifact = None\<rparr>"

definition manifest_wf :: "externals \<Rightarrow> manifest_limits \<Rightarrow> manifest \<Rightarrow> bool" where
  "manifest_wf ext limits m =
     (schema_version m = 1 \<and> session_ok (session m)
       \<and> artifacts m \<noteq> [] \<and> length (artifacts m) \<le> lim_artifact_count limits
       \<and> sorted_wrt (<) (map logical_path (artifacts m))
       \<and> batch_ok ext limits (map input_of_artifact (artifacts m))
       \<and> no_file_ancestors (map (to_ascii_lowercase \<circ> logical_path) (artifacts m)))"

lemma artifact_of_input_inverse [simp]: "input_of_artifact (artifact_of_input a) = a"
  "artifact_of_input (input_of_artifact b) = b"
  by (simp_all add: input_of_artifact_def artifact_of_input_def)

lemma artifact_inverse_comp [simp]: "artifact_of_input \<circ> input_of_artifact = id"
  "input_of_artifact \<circ> artifact_of_input = id"
  by (simp_all add: fun_eq_iff)

lemma map_artifact_inverse [simp]: "map input_of_artifact (map artifact_of_input xs) = xs"
  "map artifact_of_input (map input_of_artifact ys) = ys"
  by (simp_all add: comp_def)

lemma artifact_of_input_path [simp]: "logical_path (artifact_of_input a) = ai_logical_path a"
  "ai_logical_path (input_of_artifact b) = logical_path b"
  by (simp_all add: artifact_of_input_def input_of_artifact_def)

lemma portable_path_input [simp]:
  "portable_path (input_of_artifact b) = to_ascii_lowercase (logical_path b)"
  by (simp add: portable_path_def)

text \<open>The acceptance of a batch does not depend on the order of the artifacts.\<close>

lemma batch_ok_mset: "mset xs = mset ys \<Longrightarrow> batch_ok ext limits xs = batch_ok ext limits ys"
proof -
  assume m: "mset xs = mset ys"
  then have "set xs = set ys" by (rule mset_eq_setD)
  moreover have "distinct (map portable_path xs) = distinct (map portable_path ys)"
    using m by (metis mset_eq_imp_distinct_iff mset_map)
  moreover have "total_original xs = total_original ys" "total_stored xs = total_stored ys"
    unfolding total_original_def total_stored_def
    using m by (metis mset_map sum_mset_sum_list)+
  ultimately show ?thesis
    by (simp add: batch_ok_def list_all_iff entries_agree_def)
qed

lemma batch_paths_inj: "batch_ok ext limits xs \<Longrightarrow> inj_on ai_logical_path (set xs)"
  by (auto simp: batch_ok_def distinct_map portable_path_def inj_on_def)

lemma batch_paths_distinct: "batch_ok ext limits xs \<Longrightarrow> distinct (map ai_logical_path xs)"
  by (auto simp: batch_ok_def distinct_map portable_path_def inj_on_def)

lemma sorted_distinct_strict:
  fixes ys :: "'a :: linorder list"
  shows "sorted ys \<Longrightarrow> distinct ys \<Longrightarrow> sorted_wrt (<) ys"
  by (simp add: strict_sorted_iff)

lemma normalize_artifacts_sorted:
  assumes "normalize_artifacts ext limits xs = Inr as"
  shows "sorted_wrt (<) (map logical_path as)" "mset (map input_of_artifact as) = mset xs"
proof -
  have as: "as = sort_key logical_path (map artifact_of_input xs)" and ok: "batch_ok ext limits xs"
    using assms by (simp_all add: normalize_artifacts_iff)
  have "distinct (map ai_logical_path xs)"
    using ok by (rule batch_paths_distinct)
  then have "distinct (map logical_path (map artifact_of_input xs))"
    by (simp add: comp_def)
  then have "distinct (map logical_path as)"
    unfolding as by (metis mset_eq_imp_distinct_iff mset_map mset_sort)
  then show "sorted_wrt (<) (map logical_path as)"
    unfolding as by (intro sorted_distinct_strict) simp_all
  show "mset (map input_of_artifact as) = mset xs"
    unfolding as by (simp add: image_mset.compositionality comp_def)
qed

lemma normalize_artifacts_fixpoint:
  assumes "normalize_artifacts ext limits xs = Inr as"
  shows "normalize_artifacts ext limits (map input_of_artifact as) = Inr as"
proof -
  let ?ys = "map input_of_artifact as"
  note sorted = normalize_artifacts_sorted [OF assms]
  have xs: "xs \<noteq> []" "length xs \<le> lim_artifact_count limits" "batch_ok ext limits xs"
    "no_file_ancestors (map portable_path xs)"
    using assms by (simp_all add: normalize_artifacts_iff)
  have "length ?ys = length xs" "set ?ys = set xs"
    using sorted(2) by (metis mset_eq_length, metis mset_eq_setD)
  moreover have "batch_ok ext limits ?ys"
    using xs(3) batch_ok_mset [OF sorted(2)] by simp
  moreover have "sort_key logical_path as = as"
    using sorted(1) by (simp add: sort_key_id_if_sorted strict_sorted_imp_sorted)
  moreover from \<open>set ?ys = set xs\<close> have "set (map portable_path ?ys) = set (map portable_path xs)"
    by (metis list.set_map)
  moreover have "as \<noteq> []" using \<open>length ?ys = length xs\<close> xs(1) by auto
  ultimately show ?thesis
    using xs by (simp add: normalize_artifacts_iff no_file_ancestors_def)
qed

lemma normalize_artifacts_order:
  assumes "mset xs = mset ys"
  shows "normalize_artifacts ext limits xs = Inr as \<longleftrightarrow> normalize_artifacts ext limits ys = Inr as"
proof -
  have same: "batch_ok ext limits xs = batch_ok ext limits ys" "length xs = length ys"
    "set xs = set ys"
    using batch_ok_mset [OF assms] mset_eq_length [OF assms] mset_eq_setD [OF assms] by simp_all
  then have paths: "set (map portable_path xs) = set (map portable_path ys)"
    by simp
  have "sort_key logical_path (map artifact_of_input xs)
      = sort_key logical_path (map artifact_of_input ys)" if "batch_ok ext limits xs"
  proof (rule sort_key_inj_key_eq)
    show "mset (map artifact_of_input xs) = mset (sort_key logical_path (map artifact_of_input ys))"
      using assms by simp
    show "inj_on logical_path (set (map artifact_of_input xs))"
      using batch_paths_inj [OF that] by (auto simp: inj_on_def)
    show "sorted (map logical_path (sort_key logical_path (map artifact_of_input ys)))"
      by simp
  qed
  with same paths show ?thesis
    by (auto simp: normalize_artifacts_iff no_file_ancestors_def)
qed

lemma normalize_capture_ok:
  "normalize_capture ext input = Inr c \<Longrightarrow>
     (\<exists>t. parse_rfc3339 ext (ci_captured_at input) = Some t
        \<and> format_rfc3339 ext t = Some (captured_at c))
     \<and> input_of_capture c = input\<lparr>ci_captured_at := captured_at c\<rparr>"
  by (auto simp: normalize_capture_def input_of_capture_def and_then_eq_Inr ok_or_eq_Inr
      reject_if_eq_Inr)

lemma normalize_capture_cong:
  assumes "normalize_capture ext input = Inr c"
    and "parse_rfc3339 ext (captured_at c) = Some t"
    and "format_rfc3339 ext t = Some (captured_at c)"
  shows "normalize_capture ext (input_of_capture c) = Inr c"
  using assms
  by (auto simp: normalize_capture_def input_of_capture_def and_then_eq_Inr ok_or_eq_Inr
      reject_if_eq_Inr)

lemma normalize_manifest_wf:
  "normalize_manifest ext input limits = Inr m \<Longrightarrow> manifest_wf ext limits m"
proof -
  assume "normalize_manifest ext input limits = Inr m"
  then obtain xs where m: "schema_version m = 1" "session_ok (session m)"
    and n: "normalize_artifacts ext limits xs = Inr (artifacts m)"
    by (auto simp: normalize_manifest_iff)
  from normalize_artifacts_fixpoint [OF n] normalize_artifacts_sorted [OF n] m
  show ?thesis
    by (simp add: manifest_wf_def normalize_artifacts_iff portable_path_def comp_def)
qed

text \<open>The errors of the validation: status 422, the 409 of conflicting representations, or the
  internal error of a timestamp that cannot be formatted. No path of the code panics.\<close>

definition validation_failure :: "api_error \<Rightarrow> bool" where
  "validation_failure e =
     ((err_status e = 422 \<and> err_code e = ''validation_error'')
       \<or> (err_status e = 409 \<and> err_code e = ''blob_integrity_conflict'') \<or> e = internal)"

lemma validation_failure_invalid [simp]: "validation_failure (invalid message)"
  by (simp add: validation_failure_def invalid_def ApiError_def)

lemma validation_failure_conflict [simp]:
  "validation_failure (conflict ''blob_integrity_conflict'' message)"
  by (simp add: validation_failure_def conflict_def ApiError_def)

lemma validation_failure_internal [simp]: "validation_failure internal"
  by (simp add: validation_failure_def)

lemma validate_errors [error_intros]:
  "errors_in validation_failure (validate_text v n e)"
  "errors_in validation_failure (validate_nonempty_text v n e)"
  "errors_in validation_failure (validate_optional_text w n)"
  "errors_in validation_failure (validate_optional_media_type ext w)"
  "errors_in validation_failure (validate_content_hash v e)"
  "errors_in validation_failure (validate_digest v)"
  "errors_in validation_failure (validate_size k n e)"
  "errors_in validation_failure (validate_logical_path v)"
  "errors_in validation_failure (add_total a k n e1 e2)"
  "errors_in validation_failure (note_representation reps v rep)"
  by (auto simp: validate_text_def validate_nonempty_text_def validate_optional_text_def
      validate_optional_media_type_def validate_content_hash_def validate_digest_def
      validate_size_def validate_logical_path_def add_total_def note_representation_def
      intro!: error_intros split: option.splits)

lemma errors_in_valid_prefix:
  "validate_digest v = Inr () \<Longrightarrow> errors_in P (ok_or e (strip_prefix ''sha256:'' v))"
  by (simp add: stored_digest_of_valid)

lemma normalize_artifact_errors [error_intros]:
  "errors_in validation_failure (normalize_artifact ext limits st input)"
  unfolding normalize_artifact_def Let_def
  by (intro errors_in_and_then errors_in_reject_if validate_errors errors_in_valid_prefix)
    simp_all

lemma normalize_capture_errors [error_intros]:
  "errors_in validation_failure (normalize_capture ext input)"
  unfolding normalize_capture_def
  by (intro error_intros) (auto intro!: error_intros)

lemma normalize_artifacts_errors [error_intros]:
  "errors_in validation_failure (normalize_artifacts ext limits inputs)"
  unfolding normalize_artifacts_def by (intro error_intros) auto

lemma manifest_artifact_inputs_errors [error_intros]:
  "errors_in validation_failure (manifest_artifact_inputs input)"
  by (auto simp: manifest_artifact_inputs_def split: option.splits)

lemma normalize_manifest_errors:
  "errors_in validation_failure (normalize_manifest ext input limits)"
  unfolding normalize_manifest_def by (intro error_intros) auto

end
