(* ===== verification/Samples.thy ===== *)
theory Samples
  imports Validation
begin

text \<open>
  One concrete instance of the third-party functions, used to show that the hypotheses of the
  theorems about them can hold: a table of three timestamps, a digest that pads or cuts its
  input, an identity decompressor, and documents that are encoded by a table.
\<close>

definition sample_time :: "int \<Rightarrow> offset_date_time" where
  "sample_time seconds =
     \<lparr>unix_timestamp_nanos = seconds * 1000000000, utc_offset_seconds = 0\<rparr>"

definition sample_timestamps :: "(string \<times> int) list" where
  "sample_timestamps =
     [(''2026-01-01T00:00:00Z'', 1767225600), (''2026-01-02T00:00:00Z'', 1767312000),
      (''2026-01-03T00:00:00Z'', 1767398400)]"

definition sample_parse :: "string \<Rightarrow> offset_date_time option" where
  "sample_parse s = map_option sample_time (map_of sample_timestamps s)"

definition sample_format :: "offset_date_time \<Rightarrow> string option" where
  "sample_format t =
     (if unix_timestamp_nanos t mod 1000000000 \<noteq> 0 then None
      else map_of (map (\<lambda>(s, n). (n, s)) sample_timestamps)
             (unix_timestamp_nanos t div 1000000000))"

definition sample_digest :: "bytes \<Rightarrow> bytes" where
  "sample_digest bs = take 32 (bs @ replicate 32 0)"

definition sample_session :: session_input where
  "sample_session = \<lparr>source_agent = ''agent'', source_session_id = ''s1''\<rparr>"

definition sample_capture_input :: capture_input where
  "sample_capture_input =
     \<lparr>ci_captured_at = ''2026-01-01T00:00:00Z'', ci_source_cursor = None,
      ci_source_state_hash = None, ci_source_metadata = [], ci_project = Some ''p'',
      ci_repository = None, ci_branch = None, ci_source_agent_version = None,
      ci_artifact_set_version = 1, ci_munshi_version = None\<rparr>"

definition sample_hash :: "char \<Rightarrow> string" where
  "sample_hash c = ''sha256:'' @ replicate 64 c"

definition sample_artifact_input :: "string \<Rightarrow> char \<Rightarrow> nat \<Rightarrow> artifact_input" where
  "sample_artifact_input path c n =
     \<lparr>ai_logical_path = path, ai_media_type = None, ai_original_size_bytes = n,
      ai_original_sha256 = sample_hash c, ai_stored_size_bytes = n,
      ai_stored_sha256 = sample_hash c, ai_compression = Identity\<rparr>"

definition sample_input :: manifest_input where
  "sample_input =
     \<lparr>mi_schema_version = 1, mi_session = sample_session, mi_capture = sample_capture_input,
      mi_artifacts = Some [sample_artifact_input ''log/b.txt'' (CHR ''b'') 5,
                           sample_artifact_input ''log/A.txt'' (CHR ''a'') 3],
      mi_artifact = None\<rparr>"

definition sample_limits :: manifest_limits where
  "sample_limits =
     \<lparr>lim_artifact_count = 4, lim_artifact_stored_bytes = 10,
      lim_artifact_original_bytes = 10, lim_snapshot_stored_bytes = 16,
      lim_snapshot_original_bytes = 16\<rparr>"

definition sample_externals :: externals where
  "sample_externals =
     \<lparr>parse_rfc3339 = sample_parse, format_rfc3339 = sample_format,
      mime_parses = (\<lambda>_. True), uuid_parse = Some, sha256_digest = sample_digest,
      zstd_decode = Some, zstd_partial = (\<lambda>_. []), manifest_to_json = (\<lambda>_. Some ''m''),
      manifest_from_json = (\<lambda>_. None), legacy_manifest_to_json = (\<lambda>_. None),
      fingerprint_to_json = (\<lambda>_. Some ''f''), metadata_to_json = (\<lambda>_. Some ''{}''),
      metadata_from_json = (\<lambda>_. Some [])\<rparr>"

definition sample_capture :: capture where
  "sample_capture =
     \<lparr>captured_at = ''2026-01-01T00:00:00Z'', source_cursor = None,
      source_state_hash = None, source_metadata = [], project = Some ''p'',
      repository = None, branch = None, source_agent_version = None,
      artifact_set_version = 1, munshi_version = None\<rparr>"

definition sample_manifest :: manifest where
  "sample_manifest =
     \<lparr>schema_version = 1, session = sample_session, capture = sample_capture,
      artifacts = [artifact_of_input (sample_artifact_input ''log/A.txt'' (CHR ''a'') 3),
                   artifact_of_input (sample_artifact_input ''log/b.txt'' (CHR ''b'') 5)]\<rparr>"

text \<open>The documented round trip of the timestamp functions: what is formatted parses back to a
  value that formats alike.\<close>

definition rfc3339_roundtrip :: "externals \<Rightarrow> bool" where
  "rfc3339_roundtrip ext =
     (\<forall>t s. format_rfc3339 ext t = Some s \<longrightarrow>
        (\<exists>u. parse_rfc3339 ext s = Some u \<and> format_rfc3339 ext u = Some s))"

lemma sample_rfc3339_roundtrip: "rfc3339_roundtrip sample_externals"
  by (auto simp: rfc3339_roundtrip_def sample_externals_def sample_parse_def sample_format_def
      sample_timestamps_def sample_time_def split: if_splits)

lemma sample_normalize:
  "normalize_manifest sample_externals sample_input sample_limits = Inr sample_manifest"
  by code_simp

end
