(* ===== verification/Validation_Properties.thy ===== *)
theory Validation_Properties
  imports Samples
begin

text \<open>
  The properties of the manifest validation, over the lemmas of \<open>Validation\<close>.
\<close>

section \<open>Well-formed manifests\<close>

text \<open>The rules for a manifest in words of their own, with the bounds written out. They use none of the
  checks of the code.\<close>

definition text_within :: "nat \<Rightarrow> string \<Rightarrow> bool" where
  "text_within n t = (length t \<le> n \<and> (\<forall>c \<in> set t. 32 \<le> (of_char c :: nat) \<and> of_char c \<noteq> (127 :: nat)))"

definition name_within :: "nat \<Rightarrow> string \<Rightarrow> bool" where
  "name_within n t = (t \<noteq> [] \<and> text_within n t)"

definition optional_within :: "nat \<Rightarrow> string option \<Rightarrow> bool" where
  "optional_within n v = (\<forall>t. v = Some t \<longrightarrow> text_within n t)"

definition hex_alphabet :: string where
  "hex_alphabet = ''0123456789abcdef''"

definition sha256_text :: "string \<Rightarrow> bool" where
  "sha256_text t = (\<exists>h. t = ''sha256:'' @ h \<and> length h = 64 \<and> set h \<subseteq> set hex_alphabet)"

text \<open>Names that work as a file name on every platform, and paths made of them.\<close>

definition portable_alphabet :: string where
  "portable_alphabet = ''ABCDEFGHIJKLMNOPQRSTUVWXYZabcdefghijklmnopqrstuvwxyz0123456789._-''"

definition device_names :: "string list" where
  "device_names = [''CON'', ''PRN'', ''AUX'', ''NUL''] @ map (\<lambda>n. ''COM'' @ [n]) ''123456789'' @ map (\<lambda>n. ''LPT'' @ [n]) ''123456789''"

definition portable_name :: "string \<Rightarrow> bool" where
  "portable_name t =
     (t \<noteq> [] \<and> set t \<subseteq> set portable_alphabet \<and> last t \<noteq> CHR ''.''
      \<and> to_ascii_uppercase (takeWhile (\<lambda>c. c \<noteq> CHR ''.'') t) \<notin> set device_names)"

definition portable_relative_path :: "string \<Rightarrow> bool" where
  "portable_relative_path t = (length t \<le> 1024 \<and> (\<exists>ps. ps \<noteq> [] \<and> t = join_with (CHR ''/'') ps \<and> (\<forall>p \<in> set ps. portable_name p)))"

definition session_wf :: "session_input \<Rightarrow> bool" where
  "session_wf i = (name_within 128 (source_agent i) \<and> name_within 512 (source_session_id i))"

definition capture_wf :: "capture_input \<Rightarrow> bool" where
  "capture_wf i =
     (list_all (optional_within 512) [ci_source_cursor i, ci_source_state_hash i, ci_project i, ci_repository i,
        ci_branch i, ci_source_agent_version i, ci_munshi_version i]
      \<and> ci_artifact_set_version i \<noteq> 0
      \<and> length (ci_source_metadata i) \<le> 64
      \<and> list_all (\<lambda>(k, v). name_within 128 k \<and> text_within 1024 v) (ci_source_metadata i))"

text \<open>The capture as it is kept: the time in the normal form of the formatter, everything else as given.\<close>

definition capture_kept :: "externals \<Rightarrow> capture_input \<Rightarrow> capture \<Rightarrow> bool" where
  "capture_kept ext i c =
     ((\<exists>t. parse_rfc3339 ext (ci_captured_at i) = Some t \<and> format_rfc3339 ext t = Some (captured_at c))
      \<and> source_cursor c = ci_source_cursor i \<and> source_state_hash c = ci_source_state_hash i
      \<and> source_metadata c = ci_source_metadata i \<and> project c = ci_project i \<and> repository c = ci_repository i
      \<and> branch c = ci_branch i \<and> source_agent_version c = ci_source_agent_version i
      \<and> artifact_set_version c = ci_artifact_set_version i \<and> munshi_version c = ci_munshi_version i)"

definition artifact_wf :: "externals \<Rightarrow> manifest_limits \<Rightarrow> artifact_input \<Rightarrow> bool" where
  "artifact_wf ext limits a =
     (portable_relative_path (ai_logical_path a)
      \<and> (\<forall>t. ai_media_type a = Some t \<longrightarrow> text_within 512 t \<and> mime_parses ext t)
      \<and> sha256_text (ai_original_sha256 a) \<and> sha256_text (ai_stored_sha256 a)
      \<and> ai_original_size_bytes a \<le> lim_artifact_original_bytes limits \<and> ai_original_size_bytes a < 2 ^ 63
      \<and> ai_stored_size_bytes a \<le> lim_artifact_stored_bytes limits \<and> ai_stored_size_bytes a < 2 ^ 63)"

text \<open>The artifacts among each other.\<close>

definition artifacts_wf :: "externals \<Rightarrow> manifest_limits \<Rightarrow> artifact_input list \<Rightarrow> bool" where
  "artifacts_wf ext limits as =
     (as \<noteq> [] \<and> length as \<le> lim_artifact_count limits \<and> list_all (artifact_wf ext limits) as
      \<and> distinct (map (to_ascii_lowercase \<circ> ai_logical_path) as)
      \<and> (\<forall>a \<in> set as. \<forall>b \<in> set as. \<forall>rest.
           to_ascii_lowercase (ai_logical_path b) \<noteq> to_ascii_lowercase (ai_logical_path a) @ CHR ''/'' # rest)
      \<and> (\<forall>a \<in> set as. \<forall>b \<in> set as. ai_stored_sha256 a = ai_stored_sha256 b \<longrightarrow>
           ai_stored_size_bytes a = ai_stored_size_bytes b \<and> ai_compression a = ai_compression b)
      \<and> sum_list (map ai_original_size_bytes as) \<le> lim_snapshot_original_bytes limits
      \<and> sum_list (map ai_original_size_bytes as) < 2 ^ 64
      \<and> sum_list (map ai_stored_size_bytes as) \<le> lim_snapshot_stored_bytes limits
      \<and> sum_list (map ai_stored_size_bytes as) < 2 ^ 64)"

text \<open>The list of artifacts, under the new name or the old one, never both.\<close>

definition artifacts_given :: "manifest_input \<Rightarrow> artifact_input list \<Rightarrow> bool" where
  "artifacts_given i as =
     ((mi_artifacts i = Some as \<and> mi_artifact i = None)
      \<or> (mi_artifacts i = None \<and> (\<exists>a. mi_artifact i = Some a \<and> as = [a])))"

subsection \<open>The checks decide the rules\<close>

lemma control_code: "\<not> is_ascii_control c \<longleftrightarrow> 32 \<le> (of_char c :: nat) \<and> of_char c \<noteq> (127 :: nat)"
  by (auto simp: is_ascii_control_def byte_of_def)

lemma text_within_checks:
  "length t \<le> n \<and> list_all (\<lambda>c. \<not> is_ascii_control c) t \<longleftrightarrow> text_within n t"
  "validate_nonempty_text t n e = Inr u \<longleftrightarrow> name_within n t"
  "validate_optional_text v n = Inr u \<longleftrightarrow> optional_within n v"
  by (auto simp: text_within_def name_within_def optional_within_def validate_nonempty_text_ok validate_optional_text_def
      validate_text_ok list_all_iff control_code split: option.splits)

lemma char_in_bytes: "map byte_of s = bs \<Longrightarrow> c \<in> set s \<longleftrightarrow> byte_of c \<in> set bs"
  by auto

lemma hex_alphabet_bytes: "map byte_of hex_alphabet = [48..<58] @ [97..<103]"
  by code_simp

lemma portable_alphabet_bytes:
  "map byte_of portable_alphabet = [65..<91] @ [97..<123] @ [48..<58] @ [46, 95, 45]"
  by code_simp

lemma device_names_reserved: "device_names = WINDOWS_RESERVED_NAMES"
  by code_simp

lemma lower_hex_chars: "is_lower_hex c \<longleftrightarrow> c \<in> set hex_alphabet"
  unfolding char_in_bytes [OF hex_alphabet_bytes] set_append set_upt Un_iff atLeastLessThan_iff
    is_lower_hex_def is_ascii_digit_def is_ascii_lowercase_def is_ascii_hexdigit_def
  by linarith

lemma portable_chars: "is_portable_byte c \<longleftrightarrow> c \<in> set portable_alphabet"
proof -
  have eq: "c = CHR ''.'' \<longleftrightarrow> byte_of c = 46" "c = CHR ''_'' \<longleftrightarrow> byte_of c = 95" "c = CHR ''-'' \<longleftrightarrow> byte_of c = 45"
    using byte_of_eq_iff [of c "CHR ''.''"] byte_of_eq_iff [of c "CHR ''_''"] byte_of_eq_iff [of c "CHR ''-''"]
    by (simp_all add: byte_of_def)
  show ?thesis
    unfolding char_in_bytes [OF portable_alphabet_bytes] set_append set_upt list.set Un_iff atLeastLessThan_iff
      insert_iff empty_iff is_portable_byte_def is_ascii_alphanumeric_def is_ascii_digit_def is_ascii_lowercase_def
      is_ascii_uppercase_def eq
    by (auto simp: less_eq_Suc_le)
qed

lemma split_on_head: "hd (split_on c s) = takeWhile (\<lambda>x. x \<noteq> c) s"
  by (induction s) (auto split: list.splits dest: split_on_nonempty [THEN notE])

lemma sha256_text_checks: "validate_digest v = Inr u \<longleftrightarrow> sha256_text v"
  unfolding validate_digest_ok sha256_text_def list_all_iff subset_eq Ball_def lower_hex_chars ..

lemma portable_name_checks: "portable_component p \<longleftrightarrow> portable_name p"
proof -
  have "is_windows_reserved_component p \<longleftrightarrow>
      to_ascii_uppercase (takeWhile (\<lambda>c. c \<noteq> CHR ''.'') p) \<in> set device_names"
    by (simp only: is_windows_reserved_component_def Let_def split_on_head List.member_iff device_names_reserved)
  then show ?thesis
    unfolding portable_component_def portable_name_def list_all_iff portable_chars subset_eq by blast
qed

lemma portable_name_plain: "portable_name p \<Longrightarrow> CHR ''/'' \<notin> set p"
  unfolding portable_name_checks [symmetric]
  by (auto simp: portable_component_def list_all_iff is_portable_byte_def is_ascii_alphanumeric_def is_ascii_digit_def
      is_ascii_lowercase_def is_ascii_uppercase_def byte_of_def)

lemma portable_path_checks: "validate_logical_path t = Inr u \<longleftrightarrow> portable_relative_path t"
proof -
  have "(\<forall>p \<in> set (split_on (CHR ''/'') t). portable_name p) \<longleftrightarrow>
      (\<exists>ps. ps \<noteq> [] \<and> t = join_with (CHR ''/'') ps \<and> (\<forall>p \<in> set ps. portable_name p))" (is "?split \<longleftrightarrow> ?join")
  proof
    assume ?split
    then show ?join
      by (intro exI [of _ "split_on (CHR ''/'') t"]) simp
  next
    assume ?join
    then obtain ps where ps: "ps \<noteq> []" "t = join_with (CHR ''/'') ps" "\<forall>p \<in> set ps. portable_name p"
      by blast
    moreover have "\<forall>p \<in> set ps. CHR ''/'' \<notin> set p"
      using ps(3) portable_name_plain by blast
    ultimately show ?split by (simp add: split_join)
  qed
  then show ?thesis
    by (simp only: validate_logical_path_ok portable_name_checks portable_relative_path_def MAX_LOGICAL_PATH_BYTES_def)
qed

lemma artifact_checks: "artifact_ok ext limits a \<longleftrightarrow> artifact_wf ext limits a"
proof -
  have "validate_optional_media_type ext (ai_media_type a) = Inr () \<longleftrightarrow>
      (\<forall>t. ai_media_type a = Some t \<longrightarrow> text_within 512 t \<and> mime_parses ext t)"
    by (auto simp: validate_optional_media_type_def and_then_eq_Inr reject_if_eq_Inr validate_text_ok text_within_checks
        MAX_CONTEXT_VALUE_BYTES_def split: option.splits)
  then show ?thesis
    by (auto simp: artifact_ok_def artifact_wf_def portable_path_checks sha256_text_checks i64_max_def)
qed

lemma artifact_ok_is: "artifact_ok = artifact_wf"
  by (simp add: fun_eq_iff artifact_checks)

lemma sha256_text_split: "sha256_text v \<Longrightarrow> v = ''sha256:'' @ drop 7 v"
  by (auto simp: sha256_text_def)

lemma representations_agree:
  assumes "list_all (artifact_wf ext limits) as"
  shows "entries_agree (map representation_entry as) \<longleftrightarrow>
     (\<forall>a \<in> set as. \<forall>b \<in> set as. ai_stored_sha256 a = ai_stored_sha256 b \<longrightarrow>
        ai_stored_size_bytes a = ai_stored_size_bytes b \<and> ai_compression a = ai_compression b)"
proof -
  have "drop 7 (ai_stored_sha256 a) = drop 7 (ai_stored_sha256 b) \<longleftrightarrow> ai_stored_sha256 a = ai_stored_sha256 b"
    if "a \<in> set as" "b \<in> set as" for a b
    using that assms sha256_text_split by (metis artifact_wf_def list_all_iff)
  then show ?thesis
    by (simp add: entries_agree_def representation_entry_def cong: ball_cong)
qed

lemma artifacts_checks:
  "normalize_artifacts ext limits xs = Inr as \<longleftrightarrow>
     artifacts_wf ext limits xs \<and> sorted_wrt (<) (map logical_path as) \<and> mset (map input_of_artifact as) = mset xs"
  (is "_ \<longleftrightarrow> ?wf \<and> ?sorted \<and> ?same")
proof -
  have wf: "?wf \<longleftrightarrow> xs \<noteq> [] \<and> length xs \<le> lim_artifact_count limits \<and> batch_ok ext limits xs
      \<and> no_file_ancestors (map portable_path xs)"
  proof (cases "list_all (artifact_wf ext limits) xs")
    case True
    have "distinct (map portable_path xs) \<longleftrightarrow> distinct (map (to_ascii_lowercase \<circ> ai_logical_path) xs)"
      by (simp add: portable_path_def [abs_def] comp_def)
    moreover have "no_file_ancestors (map portable_path xs) \<longleftrightarrow> (\<forall>a \<in> set xs. \<forall>b \<in> set xs. \<forall>rest.
        to_ascii_lowercase (ai_logical_path b) \<noteq> to_ascii_lowercase (ai_logical_path a) @ CHR ''/'' # rest)"
      by (simp add: no_file_ancestors_def path_ancestor_def portable_path_def)
    moreover have "total_original xs \<le> min (lim_snapshot_original_bytes limits) u64_max \<longleftrightarrow>
        sum_list (map ai_original_size_bytes xs) \<le> lim_snapshot_original_bytes limits
          \<and> sum_list (map ai_original_size_bytes xs) < 2 ^ 64"
      "total_stored xs \<le> min (lim_snapshot_stored_bytes limits) u64_max \<longleftrightarrow>
        sum_list (map ai_stored_size_bytes xs) \<le> lim_snapshot_stored_bytes limits
          \<and> sum_list (map ai_stored_size_bytes xs) < 2 ^ 64"
      by (auto simp: total_original_def total_stored_def u64_max_def)
    ultimately show ?thesis
      unfolding artifacts_wf_def batch_ok_def artifact_ok_is representations_agree [OF True] by argo
  next
    case False
    then show ?thesis by (simp add: artifacts_wf_def batch_ok_def artifact_ok_is)
  qed
  have order: "as = sort_key logical_path (map artifact_of_input xs)" if ?sorted ?same
  proof -
    have "map artifact_of_input (map input_of_artifact as) = as" by (rule map_artifact_inverse)
    then have same: "mset (map artifact_of_input xs) = mset as"
      using \<open>?same\<close> by (metis mset_map)
    have inj: "inj_on logical_path (set as)" and sorted: "sorted (map logical_path as)"
      using \<open>?sorted\<close> by (simp_all add: strict_sorted_iff distinct_map)
    have "sort_key logical_path (map artifact_of_input xs) = as"
      by (rule sort_key_inj_key_eq [OF same _ sorted]) (simp only: mset_eq_setD [OF same] inj)
    then show ?thesis ..
  qed
  show ?thesis
  proof
    assume n: "normalize_artifacts ext limits xs = Inr as"
    with wf have ?wf unfolding normalize_artifacts_iff by blast
    with normalize_artifacts_sorted [OF n] show "?wf \<and> ?sorted \<and> ?same" by blast
  next
    assume "?wf \<and> ?sorted \<and> ?same"
    with wf order show "normalize_artifacts ext limits xs = Inr as"
      unfolding normalize_artifacts_iff by blast
  qed
qed

lemma metadata_entry_checks:
  "(case entry of (key, value) \<Rightarrow> and_then (validate_nonempty_text key 128 e) (\<lambda>_. validate_text value 1024 f)) = Inr u
     \<longleftrightarrow> (case entry of (k, v) \<Rightarrow> name_within 128 k \<and> text_within 1024 v)"
  by (cases entry) (simp add: and_then_eq_Inr text_within_checks validate_text_ok)

lemma capture_checks: "normalize_capture ext i = Inr c \<longleftrightarrow> capture_wf i \<and> capture_kept ext i c"
  by (cases c) (auto simp: normalize_capture_def capture_wf_def capture_kept_def and_then_eq_Inr ok_or_eq_Inr reject_if_eq_Inr
      text_within_checks list_all_iff MAX_CONTEXT_VALUE_BYTES_def MAX_METADATA_ENTRIES_def metadata_entry_checks
      MAX_METADATA_KEY_BYTES_def MAX_METADATA_VALUE_BYTES_def try_each_eq_Inr)

lemma given_checks: "manifest_artifact_inputs i = Inr xs \<longleftrightarrow> artifacts_given i xs"
  by (auto simp: manifest_artifact_inputs_def artifacts_given_def split: option.splits)

lemma session_checks: "session_ok s \<longleftrightarrow> session_wf s"
  by (simp add: session_ok_def session_wf_def text_within_checks MAX_SOURCE_AGENT_BYTES_def MAX_SOURCE_SESSION_ID_BYTES_def)

text \<open>C1: Exactly the well-formed manifests are accepted, by rules that use none of the code's checks, and the
  canonical manifest is determined: the session and the capture as given, with the time in the normal form of the
  formatter, and the given artifacts in the strict order of their paths.\<close>

theorem normalize_manifest_accepts:
  "normalize_manifest ext input limits = Inr m \<longleftrightarrow>
     mi_schema_version input = 1 \<and> session_wf (mi_session input) \<and> capture_wf (mi_capture input)
       \<and> schema_version m = 1 \<and> session m = mi_session input
       \<and> capture_kept ext (mi_capture input) (capture m)
       \<and> (\<exists>xs. artifacts_given input xs \<and> artifacts_wf ext limits xs
             \<and> sorted_wrt (<) (map logical_path (artifacts m))
             \<and> mset (map input_of_artifact (artifacts m)) = mset xs)"
  by (auto simp: normalize_manifest_iff session_checks capture_checks given_checks artifacts_checks)

text \<open>The canonical manifest is a fixed point: submitting it again gives the same manifest, when
  the timestamp functions round-trip.\<close>

theorem normalize_manifest_idempotent:
  assumes "rfc3339_roundtrip ext" "normalize_manifest ext input limits = Inr m"
  shows "normalize_manifest ext (input_of_manifest m) limits = Inr m"
proof -
  from assms(2) obtain xs where
    m: "schema_version m = 1" "session_ok (session m)"
      "normalize_capture ext (mi_capture input) = Inr (capture m)"
    and n: "normalize_artifacts ext limits xs = Inr (artifacts m)"
    by (auto simp: normalize_manifest_iff)
  from normalize_capture_ok [OF m(3)] assms(1)
  obtain u where u: "parse_rfc3339 ext (captured_at (capture m)) = Some u"
    "format_rfc3339 ext u = Some (captured_at (capture m))"
    by (auto simp: rfc3339_roundtrip_def)
  show ?thesis
    using m normalize_capture_cong [OF m(3) u] normalize_artifacts_fixpoint [OF n]
    by (simp add: normalize_manifest_iff input_of_manifest_def manifest_artifact_inputs_def)
qed

theorem normalize_manifest_idempotent_witness:
  "normalize_manifest sample_externals (input_of_manifest sample_manifest) sample_limits
     = Inr sample_manifest"
  by (rule normalize_manifest_idempotent [OF sample_rfc3339_roundtrip sample_normalize])

text \<open>C2: The canonical manifest does not depend on the order in which a client lists the
  artifacts.\<close>

theorem normalize_manifest_order_independent:
  assumes "mset xs = mset ys"
  shows "normalize_manifest ext (input\<lparr>mi_artifacts := Some xs\<rparr>) limits = Inr m \<longleftrightarrow>
     normalize_manifest ext (input\<lparr>mi_artifacts := Some ys\<rparr>) limits = Inr m"
  using normalize_artifacts_order [OF assms]
  by (simp add: normalize_manifest_iff manifest_artifact_inputs_def split: option.splits)

theorem normalize_manifest_order_independent_witness:
  "normalize_manifest sample_externals
     (sample_input\<lparr>mi_artifacts := Some [sample_artifact_input ''log/A.txt'' (CHR ''a'') 3,
        sample_artifact_input ''log/b.txt'' (CHR ''b'') 5]\<rparr>) sample_limits = Inr sample_manifest"
proof (rule normalize_manifest_order_independent [THEN iffD2])
  show "mset [sample_artifact_input ''log/A.txt'' (CHR ''a'') 3,
      sample_artifact_input ''log/b.txt'' (CHR ''b'') 5]
    = mset [sample_artifact_input ''log/b.txt'' (CHR ''b'') 5,
      sample_artifact_input ''log/A.txt'' (CHR ''a'') 3]"
    by simp
  have "sample_input\<lparr>mi_artifacts := Some [sample_artifact_input ''log/b.txt'' (CHR ''b'') 5,
      sample_artifact_input ''log/A.txt'' (CHR ''a'') 3]\<rparr> = sample_input"
    by (simp add: sample_input_def)
  then show "normalize_manifest sample_externals
     (sample_input\<lparr>mi_artifacts := Some [sample_artifact_input ''log/b.txt'' (CHR ''b'') 5,
        sample_artifact_input ''log/A.txt'' (CHR ''a'') 3]\<rparr>) sample_limits = Inr sample_manifest"
    by (simp only: sample_normalize)
qed

text \<open>How a file system resolves the components of a relative path below a directory.\<close>

fun resolve_below :: "string list \<Rightarrow> string list \<Rightarrow> string list" where
  "resolve_below dir [] = dir"
| "resolve_below dir (c # cs) =
     (if c = [] \<or> c = ''.'' then resolve_below dir cs
      else if c = ''..'' then resolve_below (butlast dir) cs
      else resolve_below (dir @ [c]) cs)"

lemma resolve_below_portable:
  "\<forall>c \<in> set cs. portable_component c \<Longrightarrow> resolve_below dir cs = dir @ cs"
  by (induction cs arbitrary: dir) (auto simp: portable_component_def)

text \<open>C3: An accepted logical path is confined: resolved below any directory it names a file
  strictly inside it, one directory per component, it is not absolute, and none of its
  components is a device name.\<close>

theorem validated_path_confined:
  assumes "validate_logical_path path = Inr ()"
  shows "resolve_below dir (split_on (CHR ''/'') path) = dir @ split_on (CHR ''/'') path
     \<and> hd path \<noteq> CHR ''/''
     \<and> list_all (\<lambda>c. \<not> is_windows_reserved_component c) (split_on (CHR ''/'') path)"
proof -
  have parts: "\<forall>c \<in> set (split_on (CHR ''/'') path). portable_component c"
    using assms by (simp add: validate_logical_path_ok)
  then have "hd path \<noteq> CHR ''/''"
    by (cases path) (auto simp: portable_component_def)
  with parts resolve_below_portable [OF parts] show ?thesis
    by (auto simp: list_all_iff portable_component_def)
qed

theorem validated_path_confined_witness:
  "resolve_below [''data''] (split_on (CHR ''/'') ''log/a.txt'') = [''data'', ''log'', ''a.txt'']"
proof -
  have "validate_logical_path ''log/a.txt'' = Inr ()" by code_simp
  from validated_path_confined [OF this, of "[''data'']"] show ?thesis by simp
qed

lemma manifest_totals_fold:
  "p + sum_list (map original_size_bytes as) \<le> u64_max \<Longrightarrow>
   q + sum_list (map stored_size_bytes as) \<le> u64_max \<Longrightarrow>
   try_fold (\<lambda>(original, stored) a.
       and_then (ok_or (invalid ''snapshot original size is invalid'')
         (checked_add original (original_size_bytes a))) (\<lambda>original'.
       and_then (ok_or (invalid ''snapshot stored size is invalid'')
         (checked_add stored (stored_size_bytes a))) (\<lambda>stored'.
       Inr (original', stored')))) (p, q) as
     = Inr (p + sum_list (map original_size_bytes as), q + sum_list (map stored_size_bytes as))"
  by (induction as arbitrary: p q) (simp_all add: checked_add_def add.assoc)

lemma totals_of_inputs:
  "total_original (map input_of_artifact as) = sum_list (map original_size_bytes as)"
  "total_stored (map input_of_artifact as) = sum_list (map stored_size_bytes as)"
  by (simp_all add: total_original_def total_stored_def input_of_artifact_def comp_def)

text \<open>The totals of a canonical manifest: the checked sums never fail, they are the exact
  sums, and they stay within the configured limits.\<close>

theorem normalize_manifest_totals:
  assumes "normalize_manifest ext input limits = Inr m"
  shows "manifest_totals m = Inr (sum_list (map original_size_bytes (artifacts m)),
           sum_list (map stored_size_bytes (artifacts m)))
     \<and> sum_list (map original_size_bytes (artifacts m)) \<le> lim_snapshot_original_bytes limits
     \<and> sum_list (map stored_size_bytes (artifacts m)) \<le> lim_snapshot_stored_bytes limits"
  using normalize_manifest_wf [OF assms]
  by (simp add: manifest_wf_def batch_ok_def totals_of_inputs manifest_totals_def
      manifest_totals_fold)

theorem normalize_manifest_totals_witness: "manifest_totals sample_manifest = Inr (8, 8)"
  using normalize_manifest_totals [OF sample_normalize]
  by (simp add: sample_manifest_def artifact_of_input_def sample_artifact_input_def)

text \<open>Every rejection of a manifest is the validation error with status 422, the conflict
  of two representations of one stored digest, or the internal error of a timestamp that cannot
  be formatted; the \<open>expect\<close> on the digest prefix never panics.\<close>

theorem normalize_manifest_rejections:
  "errors_in validation_failure (normalize_manifest ext input limits)"
  by (rule normalize_manifest_errors)

end
