(* ===== verification/Database.thy ===== *)
theory Database
  imports Validation "HOL-Library.AList" "HOL-Library.Product_Lexorder"
begin

text \<open>
  The persistent state. Every table of the migrations that the modelled operations use is a list
  of row records (\<open>TEXT\<close> is \<^typ>\<open>string\<close>, \<open>INTEGER\<close> is \<^typ>\<open>int\<close>, nullable columns are options), in
  insertion order; a query is a \<^const>\<open>find\<close>, \<^const>\<open>filter\<close> or \<^const>\<open>sort_key\<close> over the list. The file
  system is kept as the association lists of the chunk files (named by upload, artifact and chunk
  index) and of the blob files (named by stored digest) below the data directory; the temporary
  files of one request (\<open>.chunk-*.partial\<close>, \<open>.assembled-*.partial\<close>) are values of the request.

  An operation receives the constants of \<open>AppState\<close> as a \<open>server\<close> record and what the outside
  world decides during the request as an \<open>env\<close> record: the clock readings, the fresh UUIDs, and
  which file system steps and commits fail.
\<close>

section \<open>Rows\<close>

record client_row =
  cl_id :: string
  cl_owner_namespace :: string
  cl_hostname :: "string option"
  cl_display_name :: "string option"
  cl_metadata_json :: string
  cl_created_at :: string
  cl_updated_at :: string

record session_row =
  se_id :: string
  se_owner_namespace :: string
  se_source_agent :: string
  se_source_session_id :: string
  se_created_at :: string
  se_updated_at :: string

record upload_row =
  up_id :: string
  up_owner_namespace :: string
  up_session_id :: string
  up_client_id :: string
  up_capture_id :: string
  up_manifest_sha256 :: string
  up_status :: string
  up_snapshot_id :: "string option"
  up_created_at :: string
  up_completed_at :: "string option"
  up_chunk_size_bytes :: int
  up_chunk_count :: int
  up_declared_stored_size_bytes :: int
  up_declared_original_size_bytes :: int
  up_expires_at :: string
  up_artifact_count :: int
  up_total_stored_size_bytes :: int
  up_total_original_size_bytes :: int
  up_transfer_bytes :: int
  up_newly_persisted_bytes :: int

record manifest_row =
  mf_id :: string
  mf_upload_id :: string
  mf_canonical_json :: string
  mf_sha256 :: string
  mf_created_at :: string

record upload_artifact_row =
  ua_upload_id :: string
  ua_artifact_index :: int
  ua_logical_path :: string
  ua_media_type :: "string option"
  ua_original_size_bytes :: int
  ua_original_sha256 :: string
  ua_stored_size_bytes :: int
  ua_stored_sha256 :: string
  ua_compression :: string
  ua_chunk_count :: int

record chunk_row =
  uc_upload_id :: string
  uc_artifact_index :: int
  uc_chunk_index :: int
  uc_byte_length :: int
  uc_sha256 :: string
  uc_accepted_at :: string

record upload_audit_row =
  au_upload_id :: string
  au_owner_namespace :: string
  au_client_id :: string
  au_capture_id :: string
  au_session_id :: string
  au_declared_original_size_bytes :: int
  au_declared_stored_size_bytes :: int
  au_chunk_size_bytes :: int
  au_chunk_count :: int
  au_created_at :: string
  au_terminal_at :: string
  au_terminal_reason :: string
  au_error_code :: string
  au_artifact_count :: int
  au_total_original_size_bytes :: int
  au_total_stored_size_bytes :: int
  au_manifest_sha256 :: "string option"

record blob_row =
  bl_id :: string
  bl_owner_namespace :: string
  bl_stored_sha256 :: string
  bl_stored_size_bytes :: int
  bl_compression :: string
  bl_created_at :: string
  bl_orphaned_at :: "string option"
  bl_eligible_after :: "string option"
  bl_eligible_after_seq :: "int option"

record snapshot_row =
  sn_id :: string
  sn_owner_namespace :: string
  sn_session_id :: string
  sn_manifest_id :: string
  sn_fingerprint_sha256 :: string
  sn_completed_at :: string
  sn_completed_at_seq :: int
  sn_artifact_count :: int
  sn_total_original_size_bytes :: int
  sn_total_stored_size_bytes :: int
  sn_fingerprint_version :: int
  sn_deleted_at :: "string option"
  sn_rearchived_from_tombstone_id :: "string option"

record artifact_row =
  ar_id :: string
  ar_snapshot_id :: string
  ar_blob_id :: string
  ar_logical_path :: string
  ar_media_type :: "string option"
  ar_original_size_bytes :: int
  ar_original_sha256 :: string
  ar_created_at :: string
  ar_created_at_seq :: int
  ar_artifact_index :: int

record capture_row =
  cp_id :: string
  cp_owner_namespace :: string
  cp_capture_id :: string
  cp_session_id :: string
  cp_client_id :: string
  cp_upload_id :: string
  cp_manifest_id :: string
  cp_snapshot_id :: string
  cp_capture :: capture
  cp_source_metadata_json :: string
  cp_server_received_at :: string
  cp_server_completed_at :: string
  cp_server_completed_at_seq :: int

record latest_context_row =
  lx_session_id :: string
  lx_snapshot_id :: string
  lx_completed_at :: string
  lx_completed_at_seq :: int
  lx_source_agent :: string
  lx_project :: "string option"
  lx_repository :: "string option"
  lx_branch :: "string option"
  lx_source_agent_version :: "string option"
  lx_artifact_set_version :: int

record tombstone_row =
  ts_id :: string
  ts_owner_namespace :: string
  ts_session_id :: string
  ts_snapshot_id :: string
  ts_snapshot_fingerprint_sha256 :: string
  ts_manifest_sha256 :: string
  ts_snapshot_completed_at :: string
  ts_deleted_at :: string
  ts_deleted_at_seq :: int
  ts_reason :: "string option"
  ts_rearchived_snapshot_id :: "string option"

record deletion_audit_row =
  da_id :: string
  da_tombstone_id :: string
  da_owner_namespace :: string
  da_session_id :: string
  da_snapshot_id :: string
  da_snapshot_fingerprint_sha256 :: string
  da_manifest_sha256 :: string
  da_occurred_at :: string
  da_occurred_at_seq :: int
  da_reason :: "string option"

record database =
  db_clients :: "client_row list"
  db_sessions :: "session_row list"
  db_uploads :: "upload_row list"
  db_manifests :: "manifest_row list"
  db_upload_artifacts :: "upload_artifact_row list"
  db_upload_chunks :: "chunk_row list"
  db_upload_audits :: "upload_audit_row list"
  db_blobs :: "blob_row list"
  db_snapshots :: "snapshot_row list"
  db_artifacts :: "artifact_row list"
  db_captures :: "capture_row list"
  db_latest_contexts :: "latest_context_row list"
  db_tombstones :: "tombstone_row list"
  db_deletion_audits :: "deletion_audit_row list"

section \<open>Files\<close>

text \<open>A directory entry is a regular file with its bytes, or something else (a directory, a symbolic
  link, a device), which the server never reads.\<close>

datatype entry = Regular bytes | Non_Regular

type_synonym chunk_key = "string \<times> nat \<times> nat"

record files =
  chunk_files :: "(chunk_key \<times> entry) list"
  blob_files :: "(string \<times> entry) list"

record archive =
  db :: database
  fs :: files

section \<open>Servers and environments\<close>

record server =
  ext :: externals
  srv_identity :: archive_identity
  srv_limits :: manifest_limits
  srv_chunk_size_bytes :: nat
  srv_upload_expiry :: nat
  srv_blob_gc_grace :: nat
  srv_admin_enabled :: bool

abbreviation owner :: "server \<Rightarrow> string" where
  "owner srv \<equiv> ident_owner_namespace (srv_identity srv)"

datatype id_use =
    New_Session | New_Upload | New_Manifest | New_Snapshot | New_Capture | New_Tombstone
  | New_Deletion_Audit | New_Blob nat | New_Artifact nat

datatype io_point =
    Write_Staged | Link_Final | Sync_Directory | Remove_Staged | Remove_Upload_Dir
  | Remove_Linked | Write_Assembled | Link_Blob string | Sync_Blob string | Remove_Blob string

text \<open>The transactions of a request, by what they write; each may fail on its own.\<close>

datatype commit_point =
    Commit_Client | Commit_Upload | Commit_Terminal string | Commit_Chunk | Commit_Status
  | Commit_Existing | Commit_Snapshot | Commit_Deletion | Commit_Collected string

record env =
  now :: offset_date_time
  commit_now :: offset_date_time
  new_id :: "id_use \<Rightarrow> string"
  io_fails :: "io_point \<Rightarrow> bool"
  commit_fails :: "commit_point \<Rightarrow> sqlx_error option"

text \<open>The end of a transaction: the changed database is kept only when the commit succeeds.\<close>

definition commit :: "(sqlx_error \<Rightarrow> api_error) \<Rightarrow> env \<Rightarrow> commit_point \<Rightarrow> 'a \<Rightarrow> 'a result" where
  "commit classify e p v = (case commit_fails e p of None \<Rightarrow> Inr v | Some err \<Rightarrow> Inl (classify err))"

lemma commit_eq_Inr [result_simps]: "commit f e p v = Inr w \<longleftrightarrow> commit_fails e p = None \<and> w = v"
  by (auto simp: commit_def split: option.splits)

section \<open>Queries\<close>

text \<open>\<open>fetch_one\<close> fails when there is no row; an insert that violates a key fails, unless the
  statement says \<open>ON CONFLICT ... DO NOTHING\<close>.\<close>

definition fetch_one :: "('r \<Rightarrow> bool) \<Rightarrow> 'r list \<Rightarrow> 'r result" where
  "fetch_one p table = ok_or database_error (find p table)"

definition insert_row :: "('r \<Rightarrow> 'r \<Rightarrow> bool) \<Rightarrow> 'r \<Rightarrow> 'r list \<Rightarrow> 'r list result" where
  "insert_row clash row table =
     (if list_ex (clash row) table then Inl database_error else Inr (table @ [row]))"

definition insert_or_ignore :: "('r \<Rightarrow> 'r \<Rightarrow> bool) \<Rightarrow> 'r \<Rightarrow> 'r list \<Rightarrow> bool \<times> 'r list" where
  "insert_or_ignore clash row table =
     (if list_ex (clash row) table then (False, table) else (True, table @ [row]))"

definition update_where :: "('r \<Rightarrow> bool) \<Rightarrow> ('r \<Rightarrow> 'r) \<Rightarrow> 'r list \<Rightarrow> 'r list" where
  "update_where p f table = map (\<lambda>r. if p r then f r else r) table"

definition delete_where :: "('r \<Rightarrow> bool) \<Rightarrow> 'r list \<Rightarrow> 'r list" where
  "delete_where p table = filter (\<lambda>r. \<not> p r) table"

lemma fetch_one_eq_Inr [result_simps]: "fetch_one p t = Inr r \<longleftrightarrow> find p t = Some r"
  by (simp add: fetch_one_def result_simps)

lemma insert_row_eq_Inr [result_simps]:
  "insert_row c r t = Inr t' \<longleftrightarrow> \<not> list_ex (c r) t \<and> t' = t @ [r]"
  by (auto simp: insert_row_def)

lemma insert_or_ignore_eq:
  "insert_or_ignore c r t = (b, t') \<longleftrightarrow>
     (if list_ex (c r) t then \<not> b \<and> t' = t else b \<and> t' = t @ [r])"
  by (auto simp: insert_or_ignore_def)

lemma find_SomeD: "find p xs = Some x \<Longrightarrow> x \<in> set xs \<and> p x"
  by (auto simp: find_Some_iff)

lemma find_None: "find p xs = None \<longleftrightarrow> (\<forall>x \<in> set xs. \<not> p x)"
  by (auto simp: find_None_iff)

lemma set_update_where:
  "set (update_where p f t) = {r \<in> set t. \<not> p r} \<union> f ` {r \<in> set t. p r}"
  by (auto simp: update_where_def)

lemma map_update_where: "(\<And>r. g (f r) = g r) \<Longrightarrow> map g (update_where p f t) = map g t"
  by (simp add: update_where_def)

lemma set_delete_where [simp]: "set (delete_where p t) = {r \<in> set t. \<not> p r}"
  by (auto simp: delete_where_def)

lemma distinct_map_delete_where: "distinct (map g t) \<Longrightarrow> distinct (map g (delete_where p t))"
  by (simp add: delete_where_def distinct_map_filter)

lemma find_append: "find p (xs @ ys) = (case find p xs of Some x \<Rightarrow> Some x | None \<Rightarrow> find p ys)"
  by (induction xs) auto

text \<open>A row is determined by a key that the table keeps distinct.\<close>

lemma find_unique:
  assumes "distinct (map k t)" "r \<in> set t" "k r = v"
  shows "find (\<lambda>r. k r = v) t = Some r"
  using assms by (induction t) auto

lemma distinct_key_eq: "distinct (map k t) \<Longrightarrow> r \<in> set t \<Longrightarrow> s \<in> set t \<Longrightarrow> k r = k s \<Longrightarrow> r = s"
  by (simp add: distinct_map inj_on_def)

section \<open>Files of an upload\<close>

definition chunk_file :: "files \<Rightarrow> string \<Rightarrow> nat \<Rightarrow> nat \<Rightarrow> entry option" where
  "chunk_file f upload_id artifact_index chunk_index =
     map_of (chunk_files f) (upload_id, artifact_index, chunk_index)"

definition link_chunk_file :: "string \<Rightarrow> nat \<Rightarrow> nat \<Rightarrow> bytes \<Rightarrow> files \<Rightarrow> files" where
  "link_chunk_file upload_id artifact_index chunk_index bs f =
     f\<lparr>chunk_files := AList.update (upload_id, artifact_index, chunk_index) (Regular bs)
        (chunk_files f)\<rparr>"

definition unlink_chunk_file :: "string \<Rightarrow> nat \<Rightarrow> nat \<Rightarrow> files \<Rightarrow> files" where
  "unlink_chunk_file upload_id artifact_index chunk_index f =
     f\<lparr>chunk_files := AList.delete (upload_id, artifact_index, chunk_index) (chunk_files f)\<rparr>"

text \<open>\<open>remove_upload_dir\<close>: a missing directory is not an error.\<close>

definition remove_upload_dir :: "string \<Rightarrow> files \<Rightarrow> files" where
  "remove_upload_dir upload_id f =
     f\<lparr>chunk_files := filter (\<lambda>((u, _, _), _). u \<noteq> upload_id) (chunk_files f)\<rparr>"

definition blob_file :: "files \<Rightarrow> string \<Rightarrow> entry option" where
  "blob_file f digest = map_of (blob_files f) digest"

definition link_blob_file :: "string \<Rightarrow> bytes \<Rightarrow> files \<Rightarrow> files" where
  "link_blob_file digest bs f =
     f\<lparr>blob_files := AList.update digest (Regular bs) (blob_files f)\<rparr>"

text \<open>\<open>remove_file\<close> on a blob path: a missing file is not an error.\<close>

definition unlink_blob_file :: "string \<Rightarrow> files \<Rightarrow> files" where
  "unlink_blob_file digest f = f\<lparr>blob_files := AList.delete digest (blob_files f)\<rparr>"

lemma blob_file_simps [simp]:
  "blob_file (link_blob_file d bs f) e = (if e = d then Some (Regular bs) else blob_file f e)"
  "blob_file (unlink_blob_file d f) e = (if e = d then None else blob_file f e)"
  "blob_file (remove_upload_dir u f) e = blob_file f e"
  "blob_file (link_chunk_file u a c bs f) e = blob_file f e"
  "blob_file (unlink_chunk_file u a c f) e = blob_file f e"
  by (simp_all add: blob_file_def link_blob_file_def unlink_blob_file_def remove_upload_dir_def
      link_chunk_file_def unlink_chunk_file_def update_conv' delete_conv')

lemma map_of_filter_key:
  "map_of (filter (\<lambda>(k, v). P k) al) k = (if P k then map_of al k else None)"
  by (induction al) auto

lemma chunk_file_simps [simp]:
  "chunk_file (link_chunk_file u a c bs f) v b d =
     (if (v, b, d) = (u, a, c) then Some (Regular bs) else chunk_file f v b d)"
  "chunk_file (unlink_chunk_file u a c f) v b d =
     (if (v, b, d) = (u, a, c) then None else chunk_file f v b d)"
  "chunk_file (remove_upload_dir u f) v b d = (if v = u then None else chunk_file f v b d)"
  "chunk_file (link_blob_file g bs f) v b d = chunk_file f v b d"
  "chunk_file (unlink_blob_file g f) v b d = chunk_file f v b d"
  using map_of_filter_key [of "\<lambda>(w, _, _). w \<noteq> u" "chunk_files f" "(v, b, d)"]
  by (simp_all add: chunk_file_def link_blob_file_def unlink_blob_file_def remove_upload_dir_def
      link_chunk_file_def unlink_chunk_file_def update_conv' delete_conv' case_prod_unfold)

end
