(* ===== verification/Chunks.thy ===== *)
theory Chunks
  imports Database
begin

text \<open>
  Digests as text and the chunk layout of \<open>ingestion.rs\<close>: \<open>hex_digest\<close>, the storage and document
  forms of a digest, \<open>chunk_count\<close>, \<open>expected_chunk_length\<close>, \<open>upload_layout\<close>, and the bitmap of
  accepted chunks. The lemmas show that the layout cuts the stored bytes into non-empty chunks
  that can be joined again, and that the bitmap and the list of missing chunks are exact.
\<close>

section \<open>Digests\<close>

definition HEX :: string where
  "HEX = ''0123456789abcdef''"

definition hex_digest :: "bytes \<Rightarrow> string" where
  "hex_digest bytes =
     concat (map (\<lambda>byte. [HEX ! unat (drop_bit 4 byte), HEX ! unat (and byte 0x0f)]) bytes)"

definition string_bytes :: "string \<Rightarrow> bytes" where
  "string_bytes s = map (\<lambda>c. of_nat (byte_of c)) s"

definition sha256_hex :: "externals \<Rightarrow> bytes \<Rightarrow> string" where
  "sha256_hex x bytes = hex_digest (sha256_digest x bytes)"

definition digest_storage_value :: "string \<Rightarrow> string" where
  "digest_storage_value v = (case strip_prefix ''sha256:'' v of Some h \<Rightarrow> h | None \<Rightarrow> v)"

definition digest_document_value :: "string \<Rightarrow> string" where
  "digest_document_value v = ''sha256:'' @ digest_storage_value v"

section \<open>Chunk layout\<close>

definition MAX_CHUNK_COUNT :: nat where "MAX_CHUNK_COUNT = 65536"
definition MAX_SNAPSHOT_CHUNK_COUNT :: nat where "MAX_SNAPSHOT_CHUNK_COUNT = 262144"

definition chunk_count :: "nat \<Rightarrow> nat \<Rightarrow> nat result" where
  "chunk_count stored_size chunk_size =
     (if chunk_size = 0 then Inl internal
      else
        and_then
          (if stored_size = 0 then Inr 0
           else ok_or (invalid ''artifact chunk count is invalid'')
             (case checked_sub stored_size 1 of
                None \<Rightarrow> None
              | Some sz \<Rightarrow> checked_add (sz div chunk_size) 1)) (\<lambda>cnt.
        and_then (reject_if (cnt > MAX_CHUNK_COUNT)
          (invalid ''artifact requires more chunks than the configured bounded limit'')) (\<lambda>_.
        Inr cnt)))"

definition expected_chunk_length :: "upload_row \<Rightarrow> upload_artifact_row \<Rightarrow> nat \<Rightarrow> nat result" where
  "expected_chunk_length upload artifact chunk_index =
     and_then (ok_or internal (u64_try_from (ua_chunk_count artifact))) (\<lambda>cnt.
     and_then (reject_if (chunk_index \<ge> cnt)
       (invalid ''chunk index is outside the negotiated artifact range'')) (\<lambda>_.
     and_then (ok_or internal (u64_try_from (up_chunk_size_bytes upload))) (\<lambda>chunk_size.
     and_then (ok_or internal (u64_try_from (ua_stored_size_bytes artifact))) (\<lambda>stored_size.
     and_then (ok_or internal (checked_mul chunk_index chunk_size)) (\<lambda>offset.
     if chunk_index + 1 = cnt
     then ok_or internal (checked_sub stored_size offset)
     else Inr chunk_size)))))"

record upload_layout =
  chunk_counts :: "nat list"
  total_original_bytes :: nat
  total_stored_bytes :: nat

definition add_chunk_count :: "nat \<Rightarrow> nat \<times> nat list \<Rightarrow> artifact \<Rightarrow> (nat \<times> nat list) result" where
  "add_chunk_count chunk_size = (\<lambda>(total_chunks, counts) a.
     and_then (chunk_count (stored_size_bytes a) chunk_size) (\<lambda>cnt.
     and_then (ok_or (invalid ''snapshot chunk count is invalid'')
       (checked_add total_chunks cnt)) (\<lambda>total_chunks'.
     and_then (reject_if (total_chunks' > MAX_SNAPSHOT_CHUNK_COUNT)
       (invalid ''snapshot requires more chunks than the bounded upload limit'')) (\<lambda>_.
     Inr (total_chunks', counts @ [cnt])))))"

definition upload_layout_of :: "manifest \<Rightarrow> nat \<Rightarrow> upload_layout result" where
  "upload_layout_of m chunk_size_bytes =
     and_then (manifest_totals m) (\<lambda>(total_original, total_stored).
     and_then (try_fold (add_chunk_count chunk_size_bytes) (0, []) (artifacts m)) (\<lambda>(_, counts).
     Inr \<lparr>chunk_counts = counts, total_original_bytes = total_original,
          total_stored_bytes = total_stored\<rparr>))"

section \<open>The bitmap of accepted chunks\<close>

definition set_bitmap_bit :: "nat \<Rightarrow> bytes \<Rightarrow> chunk_row \<Rightarrow> bytes result" where
  "set_bitmap_bit cnt bitmap row =
     and_then (ok_or internal (u64_try_from (uc_chunk_index row))) (\<lambda>index.
     and_then (reject_if (index \<ge> cnt)
       (conflict ''chunk_layout_invalid''
         ''accepted chunk records do not match the negotiated layout'')) (\<lambda>_.
     Inr (bitmap[index div 8 := or (bitmap ! (index div 8)) (push_bit (index mod 8) 1)])))"

definition accepted_bitmap :: "nat \<Rightarrow> chunk_row list \<Rightarrow> bytes result" where
  "accepted_bitmap cnt rows =
     try_fold (set_bitmap_bit cnt) (replicate (div_ceil cnt 8) 0) rows"

definition missing_indexes :: "nat \<Rightarrow> bytes \<Rightarrow> nat list" where
  "missing_indexes cnt bitmap =
     filter (\<lambda>index. and (bitmap ! (index div 8)) (push_bit (index mod 8) 1) = 0) [0..<cnt]"

definition upload_artifact_status_of ::
  "string \<Rightarrow> upload_artifact_row \<Rightarrow> chunk_row list \<Rightarrow> upload_artifact_status result" where
  "upload_artifact_status_of upload_id a rows =
     and_then (ok_or internal (u32_try_from (ua_artifact_index a))) (\<lambda>artifact_index.
     and_then (ok_or internal (u64_try_from (ua_chunk_count a))) (\<lambda>cnt.
     and_then (accepted_bitmap cnt rows) (\<lambda>bitmap.
     and_then (ok_or internal (u64_try_from (ua_original_size_bytes a))) (\<lambda>original_size.
     and_then (ok_or internal (u64_try_from (ua_stored_size_bytes a))) (\<lambda>stored_size.
     and_then (ok_or internal (parse_compression (ua_compression a))) (\<lambda>compr.
     Inr \<lparr>uas_artifact_index = artifact_index, uas_logical_path = ua_logical_path a,
          uas_media_type = ua_media_type a, uas_original_size_bytes = original_size,
          uas_original_sha256 = digest_document_value (ua_original_sha256 a),
          uas_stored_size_bytes = stored_size,
          uas_stored_sha256 = digest_document_value (ua_stored_sha256 a),
          uas_compression = compr, uas_chunk_count = cnt,
          uas_chunk_upload_url = ''/api/v1/uploads/'' @ upload_id @ ''/artifacts/''
            @ nat_to_string artifact_index @ ''/chunks/{chunk_index}'',
          uas_accepted_chunk_bitmap = hex_digest bitmap,
          uas_missing_chunk_indexes = missing_indexes cnt bitmap\<rparr>))))))"

section \<open>Digest text\<close>

lemma hex_digest_Nil [simp]: "hex_digest [] = []"
  by (simp add: hex_digest_def)

lemma hex_digest_Cons:
  "hex_digest (b # bs) = HEX ! unat (drop_bit 4 b) # HEX ! unat (and b 0x0f) # hex_digest bs"
  by (simp add: hex_digest_def)

lemma length_hex_digest [simp]: "length (hex_digest bs) = 2 * length bs"
  by (induction bs) (simp_all add: hex_digest_Cons)

lemma nibble_bounds: "unat (drop_bit 4 (b :: byte)) < 16" "unat (and b 0x0f) < 16"
proof -
  have "unat b < 2 ^ 8" using unsigned_less [of b, where 'a = nat] by simp
  moreover have "unat (drop_bit 4 b) = unat b div 16"
    unfolding unat_drop_bit_eq by (simp add: drop_bit_eq_div)
  ultimately show "unat (drop_bit 4 b) < 16"
    by simp
  have "and b 0x0f = take_bit 4 b"
    by (simp add: take_bit_eq_mask mask_eq_exp_minus_1)
  moreover have "unat (take_bit 4 b) < 16"
    unfolding unsigned_take_bit_eq by (simp add: take_bit_eq_mod)
  ultimately show "unat (and b 0x0f) < 16"
    by (simp only:)
qed

lemma HEX_lower: "n < 16 \<Longrightarrow> is_lower_hex (HEX ! n)"
proof -
  have "list_all (\<lambda>n. is_lower_hex (HEX ! n)) [0..<16]" by code_simp
  then show "n < 16 \<Longrightarrow> is_lower_hex (HEX ! n)" by (simp add: list_all_iff)
qed

lemma HEX_inj: "m < 16 \<Longrightarrow> n < 16 \<Longrightarrow> HEX ! m = HEX ! n \<longleftrightarrow> m = n"
proof -
  have "distinct HEX" "length HEX = 16" by code_simp+
  then show "m < 16 \<Longrightarrow> n < 16 \<Longrightarrow> HEX ! m = HEX ! n \<longleftrightarrow> m = n"
    by (simp add: nth_eq_iff_index_eq)
qed

lemma hex_digest_lower: "list_all is_lower_hex (hex_digest bs)"
  by (induction bs) (simp_all add: hex_digest_Cons HEX_lower nibble_bounds)

lemma nibbles_determine:
  fixes b c :: byte
  assumes "drop_bit 4 b = drop_bit 4 c" "and b 0x0f = and c 0x0f"
  shows "b = c"
proof -
  have "and x 0x0f = take_bit 4 x" for x :: byte
    by (simp add: take_bit_eq_mask mask_eq_exp_minus_1)
  with assms have "take_bit 4 b = take_bit 4 c" by simp
  with assms(1) show ?thesis
    by (metis bits_ident)
qed

lemma hex_digest_inj: "hex_digest bs = hex_digest cs \<longleftrightarrow> bs = cs"
proof (induction bs arbitrary: cs)
  case Nil
  then show ?case by (cases cs) (simp_all add: hex_digest_Cons)
next
  case (Cons b bs)
  show ?case
  proof (cases cs)
    case (Cons c cs')
    have "HEX ! unat (drop_bit 4 b) = HEX ! unat (drop_bit 4 c)
        \<and> HEX ! unat (and b 0x0f) = HEX ! unat (and c 0x0f) \<longleftrightarrow> b = c"
      using nibbles_determine [of b c]
      by (auto simp: HEX_inj nibble_bounds unsigned_word_eqI)
    with Cons Cons.IH show ?thesis by (auto simp: hex_digest_Cons)
  qed (simp add: hex_digest_Cons)
qed

lemma sha256_hex_valid:
  assumes "length (sha256_digest x bs) = 32"
  shows "validate_content_hash (sha256_hex x bs) e = Inr ()"
  using assms by (simp add: validate_content_hash_ok sha256_hex_def hex_digest_lower)

lemma digest_storage_prefixed: "digest_storage_value (''sha256:'' @ r) = r"
  by (simp only: digest_storage_value_def strip_prefix_append option.case)

lemma digest_storage_document [simp]:
  "digest_storage_value (digest_document_value v) = digest_storage_value v"
  by (simp only: digest_document_value_def digest_storage_prefixed)

lemma digest_document_storage:
  "validate_digest d = Inr () \<Longrightarrow> digest_document_value (digest_storage_value d) = d"
proof -
  assume "validate_digest d = Inr ()"
  then obtain h where d: "d = ''sha256:'' @ h" and h: "list_all is_lower_hex h"
    by (auto simp only: validate_digest_ok)
  have "strip_prefix ''sha256:'' h = None"
  proof (rule ccontr)
    assume "strip_prefix ''sha256:'' h \<noteq> None"
    then obtain r where "h = ''sha256:'' @ r" by (auto simp only: not_None_eq strip_prefix_eq_Some)
    with h have "is_lower_hex (CHR ''s'')" by simp
    then show False by code_simp
  qed
  then have "digest_storage_value h = h" by (simp add: digest_storage_value_def)
  moreover have "digest_storage_value d = h"
    unfolding d by (rule digest_storage_prefixed)
  ultimately show "digest_document_value (digest_storage_value d) = d"
    by (simp add: digest_document_value_def d)
qed

section \<open>The layout cuts an artifact into chunks\<close>

definition chunks_needed :: "nat \<Rightarrow> nat \<Rightarrow> nat" where
  "chunks_needed s c = (if s = 0 then 0 else (s - 1) div c + 1)"

definition chunk_length :: "nat \<Rightarrow> nat \<Rightarrow> nat \<Rightarrow> nat" where
  "chunk_length s c i = (if i + 1 = chunks_needed s c then s - i * c else c)"

lemma chunk_count_ok [result_simps]:
  "chunk_count s c = Inr n \<longleftrightarrow> c \<noteq> 0 \<and> n = chunks_needed s c \<and> n \<le> MAX_CHUNK_COUNT"
  by (auto simp: chunk_count_def chunks_needed_def and_then_eq_Inr ok_or_eq_Inr reject_if_eq_Inr
      checked_sub_eq_Some checked_add_eq_Some MAX_CHUNK_COUNT_def u64_max_def checked_sub_def)

lemma chunks_needed_bounds:
  assumes "0 < c" "0 < s"
  shows "(chunks_needed s c - 1) * c < s" "s \<le> chunks_needed s c * c"
proof -
  have "(s - 1) div c * c \<le> s - 1" by (rule div_times_less_eq_dividend)
  with assms(2) have "(s - 1) div c * c < s" by linarith
  with assms show "(chunks_needed s c - 1) * c < s" by (simp add: chunks_needed_def)
  have "s - 1 < ((s - 1) div c + 1) * c"
    using assms(1) by (metis Suc_eq_plus1 dividend_less_div_times mult_Suc add.commute)
  with assms show "s \<le> chunks_needed s c * c" by (simp add: chunks_needed_def)
qed

lemma chunk_offset_less:
  assumes "0 < c" "i < chunks_needed s c"
  shows "i * c < s"
proof -
  have s: "0 < s" using assms(2) by (cases s) (simp_all add: chunks_needed_def)
  have "i * c \<le> (chunks_needed s c - 1) * c"
    using assms(2) by (intro mult_right_mono) auto
  with chunks_needed_bounds(1) [OF assms(1) s] show ?thesis by linarith
qed

lemma chunk_length_bounds:
  assumes "0 < c" "i < chunks_needed s c"
  shows "0 < chunk_length s c i" "chunk_length s c i \<le> c"
proof -
  have s: "0 < s" using assms(2) by (cases s) (simp_all add: chunks_needed_def)
  from chunk_offset_less [OF assms] assms(1) show "0 < chunk_length s c i"
    by (simp add: chunk_length_def)
  have "s \<le> i * c + c" if "Suc i = chunks_needed s c"
    using chunks_needed_bounds(2) [OF assms(1) s] by (simp flip: that)
  then show "chunk_length s c i \<le> c"
    by (cases "Suc i = chunks_needed s c") (auto simp: chunk_length_def le_diff_conv add.commute)
qed

lemma sum_chunk_lengths:
  assumes "0 < c"
  shows "sum_list (map (chunk_length s c) [0..<chunks_needed s c]) = s"
proof (cases "chunks_needed s c")
  case 0
  then show ?thesis by (simp add: chunks_needed_def split: if_splits)
next
  case (Suc k)
  then have s: "0 < s" by (cases s) (simp_all add: chunks_needed_def)
  have "map (chunk_length s c) [0..<k] = replicate k c"
    using Suc by (auto simp: chunk_length_def intro!: replicate_eqI)
  moreover have "chunk_length s c k = s - k * c"
    using Suc by (simp add: chunk_length_def)
  moreover have "k * c \<le> s"
    using chunks_needed_bounds(1) [OF assms s] Suc by simp
  ultimately show ?thesis
    unfolding Suc by (simp add: sum_list_replicate)
qed

text \<open>The layout of a manifest gives every artifact the chunks it needs.\<close>

lemma add_chunk_count_fold:
  assumes "try_fold (add_chunk_count c) (t, ms) as = Inr (t', ns)"
  shows "ns = ms @ map (\<lambda>a. chunks_needed (stored_size_bytes a) c) as
      \<and> list_all (\<lambda>a. chunk_count (stored_size_bytes a) c = Inr (chunks_needed (stored_size_bytes a) c)) as
      \<and> t' = t + sum_list (drop (length ms) ns) \<and> (t \<le> 262144 \<longrightarrow> t' \<le> 262144)"
  using assms
proof (induction as arbitrary: t ms)
  case (Cons a as)
  let ?n = "chunks_needed (stored_size_bytes a) c"
  have n: "c \<noteq> 0" "?n \<le> MAX_CHUNK_COUNT" "t + ?n \<le> 262144"
    and rest: "try_fold (add_chunk_count c) (t + ?n, ms @ [?n]) as = Inr (t', ns)"
    using Cons.prems
    by (auto simp: add_chunk_count_def and_then_eq_Inr chunk_count_ok ok_or_eq_Inr
        checked_add_eq_Some reject_if_eq_Inr MAX_SNAPSHOT_CHUNK_COUNT_def)
  from Cons.IH [OF rest] n show ?case by (auto simp: chunk_count_ok)
qed simp

lemma upload_layout_of_ok:
  assumes "upload_layout_of m c = Inr layout"
  shows "chunk_counts layout = map (\<lambda>a. chunks_needed (stored_size_bytes a) c) (artifacts m)"
    and "list_all (\<lambda>n. n \<le> 65536) (chunk_counts layout)" and "sum_list (chunk_counts layout) \<le> 262144"
    and "manifest_totals m = Inr (total_original_bytes layout, total_stored_bytes layout)"
    and "a \<in> set (artifacts m) \<Longrightarrow>
      chunk_count (stored_size_bytes a) c = Inr (chunks_needed (stored_size_bytes a) c)"
proof -
  obtain p q t where layout: "manifest_totals m = Inr (p, q)"
      "try_fold (add_chunk_count c) (0, []) (artifacts m) = Inr (t, chunk_counts layout)"
      "total_original_bytes layout = p" "total_stored_bytes layout = q"
    using assms by (auto simp: upload_layout_of_def and_then_eq_Inr)
  note fold = add_chunk_count_fold [OF layout(2)]
  from fold show counts: "chunk_counts layout = map (\<lambda>a. chunks_needed (stored_size_bytes a) c) (artifacts m)"
    and "sum_list (chunk_counts layout) \<le> 262144"
    and "a \<in> set (artifacts m) \<Longrightarrow>
      chunk_count (stored_size_bytes a) c = Inr (chunks_needed (stored_size_bytes a) c)"
    by (auto simp: list_all_iff)
  from fold counts show "list_all (\<lambda>n. n \<le> 65536) (chunk_counts layout)"
    by (auto simp: list_all_iff chunk_count_ok MAX_CHUNK_COUNT_def)
  from layout show "manifest_totals m = Inr (total_original_bytes layout, total_stored_bytes layout)"
    by simp
qed

text \<open>A pair of rows describes the layout of an artifact of \<open>s\<close> bytes in chunks of \<open>c\<close> bytes.\<close>

definition layout_rows :: "nat \<Rightarrow> nat \<Rightarrow> upload_row \<Rightarrow> upload_artifact_row \<Rightarrow> bool" where
  "layout_rows s c upload a =
     (up_chunk_size_bytes upload = int c \<and> ua_stored_size_bytes a = int s
       \<and> chunk_count s c = Inr (nat (ua_chunk_count a)) \<and> 0 \<le> ua_chunk_count a
       \<and> s \<le> u64_max)"

lemma expected_chunk_length_layout:
  assumes "layout_rows s c upload a"
  shows "expected_chunk_length upload a i =
     (if i < chunks_needed s c then Inr (chunk_length s c i)
      else Inl (invalid ''chunk index is outside the negotiated artifact range''))"
proof -
  have rows: "up_chunk_size_bytes upload = int c" "ua_stored_size_bytes a = int s"
    "ua_chunk_count a = int (chunks_needed s c)" "0 < c" "s \<le> u64_max"
    using assms by (auto simp: layout_rows_def chunk_count_ok)
  show ?thesis
  proof (cases "i < chunks_needed s c")
    case True
    from chunk_offset_less [OF rows(4) this] have "i * c < s" .
    with True rows show ?thesis
      by (simp add: expected_chunk_length_def u64_try_from_def checked_mul_def checked_sub_def
          chunk_length_def)
  next
    case False
    with rows show ?thesis
      by (simp add: expected_chunk_length_def u64_try_from_def)
  qed
qed

text \<open>Cutting bytes at given lengths, and joining the pieces.\<close>

fun cut_bytes :: "nat list \<Rightarrow> 'a list \<Rightarrow> 'a list list" where
  "cut_bytes [] bs = []"
| "cut_bytes (l # ls) bs = take l bs # cut_bytes ls (drop l bs)"

lemma concat_cut_bytes: "sum_list ls = length bs \<Longrightarrow> concat (cut_bytes ls bs) = bs"
  by (induction ls arbitrary: bs) auto

lemma length_cut_bytes: "sum_list ls \<le> length bs \<Longrightarrow> map length (cut_bytes ls bs) = ls"
  by (induction ls arbitrary: bs) auto

lemma cut_bytes_concat: "cut_bytes (map length ps) (concat ps) = ps"
  by (induction ps) auto

section \<open>The bitmap is exact\<close>

definition bitmap_of :: "nat \<Rightarrow> nat set \<Rightarrow> bytes \<Rightarrow> bool" where
  "bitmap_of n S bm =
     (length bm = div_ceil n 8 \<and> (\<forall>i < n. bit (bm ! (i div 8)) (i mod 8) \<longleftrightarrow> i \<in> S))"

lemma byte_index_bound: "i < n \<Longrightarrow> i div 8 < div_ceil n 8"
  by (simp add: div_ceil_def)

lemma bitmap_of_empty: "bitmap_of n {} (replicate (div_ceil n 8) 0)"
  by (simp add: bitmap_of_def byte_index_bound)

lemma bitmap_of_set:
  assumes "bitmap_of n S bm" "k < n"
  shows "bitmap_of n (insert k S) (bm[k div 8 := or (bm ! (k div 8)) (push_bit (k mod 8) 1)])"
proof -
  have len: "k div 8 < length bm"
    using assms byte_index_bound by (simp add: bitmap_of_def)
  have eq: "i mod 8 = k mod 8 \<longleftrightarrow> i = k" if "i div 8 = k div 8" for i :: nat
    using that by (metis div_mod_decomp)
  have "bit (bm[k div 8 := or (bm ! (k div 8)) (push_bit (k mod 8) 1)] ! (i div 8)) (i mod 8)
      \<longleftrightarrow> i \<in> insert k S" if i: "i < n" for i
  proof (cases "i div 8 = k div 8")
    case True
    have "bit (push_bit (k mod 8) (1 :: byte)) (i mod 8) \<longleftrightarrow> i mod 8 = k mod 8"
      by (simp add: bit_exp_iff possible_bit_def push_bit_of_1 eq_commute)
    moreover have "bit (bm ! (k div 8)) (i mod 8) \<longleftrightarrow> i \<in> S"
      using assms(1) i True unfolding bitmap_of_def by metis
    ultimately show ?thesis
      using len True eq [OF True] by (simp add: bit_or_iff del: push_bit_of_1) blast
  next
    case False
    then show ?thesis
      using assms(1) i by (auto simp: bitmap_of_def)
  qed
  with assms(1) show ?thesis by (simp add: bitmap_of_def)
qed

lemma set_bitmap_bit_ok:
  "set_bitmap_bit n bm r = Inr bm' \<longleftrightarrow>
     (\<exists>k < n. uc_chunk_index r = int k
        \<and> bm' = bm[k div 8 := or (bm ! (k div 8)) (push_bit (k mod 8) 1)])"
  unfolding set_bitmap_bit_def and_then_eq_Inr ok_or_eq_Inr reject_if_eq_Inr
    u64_try_from_eq_Some
  by (auto simp: not_le)

lemma accepted_bitmap_fold:
  assumes "bitmap_of n S bm" "try_fold (set_bitmap_bit n) bm rows = Inr bm'"
  shows "bitmap_of n (S \<union> {i. int i \<in> uc_chunk_index ` set rows}) bm'
     \<and> (\<forall>r \<in> set rows. 0 \<le> uc_chunk_index r \<and> uc_chunk_index r < int n)"
  using assms
proof (induction rows arbitrary: S bm)
  case (Cons r rows)
  then obtain k where k: "uc_chunk_index r = int k" "k < n"
    and rest: "try_fold (set_bitmap_bit n)
      (bm[k div 8 := or (bm ! (k div 8)) (push_bit (k mod 8) 1)]) rows = Inr bm'"
    unfolding try_fold.simps and_then_eq_Inr set_bitmap_bit_ok by blast
  have "insert k S \<union> {i. int i \<in> uc_chunk_index ` set rows}
      = S \<union> {i. int i \<in> uc_chunk_index ` set (r # rows)}"
    using k(1) by auto
  with Cons.IH [OF bitmap_of_set [OF Cons.prems(1) k(2)] rest] k show ?case
    by auto
qed simp

lemma accepted_bitmap_total:
  "(\<forall>r \<in> set rows. 0 \<le> uc_chunk_index r \<and> uc_chunk_index r < int n) \<Longrightarrow>
     \<exists>bm'. try_fold (set_bitmap_bit n) bm rows = Inr bm'"
proof (induction rows arbitrary: bm)
  case (Cons r rows)
  then have "set_bitmap_bit n bm r = Inr (bm[nat (uc_chunk_index r) div 8 :=
      or (bm ! (nat (uc_chunk_index r) div 8)) (push_bit (nat (uc_chunk_index r) mod 8) 1)])"
    by (auto simp: set_bitmap_bit_ok simp del: push_bit_of_1
        intro!: exI [of _ "nat (uc_chunk_index r)"])
  with Cons show ?case by simp
qed simp

lemma missing_indexes_bitmap:
  assumes "bitmap_of n S bm"
  shows "missing_indexes n bm = filter (\<lambda>i. i \<notin> S) [0..<n]"
  unfolding missing_indexes_def
  using assms by (intro filter_cong refl) (auto simp: bitmap_of_def push_bit_of_1 and_exp_eq_0_iff_not_bit)

end
