(* ===== verification/Chunk_Properties.thy ===== *)
theory Chunk_Properties
  imports Chunks Samples
begin

text \<open>
  The properties of the chunk layout, the bitmap of accepted chunks and the text of digests.
\<close>

definition sample_upload_row :: upload_row where
  "sample_upload_row =
     \<lparr>up_id = ''u1'', up_owner_namespace = ''v1'', up_session_id = ''s'', up_client_id = ''c'',
      up_capture_id = ''k'', up_manifest_sha256 = ''m'', up_status = ''created'',
      up_snapshot_id = None, up_created_at = ''2026-01-01T00:00:00Z'', up_completed_at = None,
      up_chunk_size_bytes = 4, up_chunk_count = 3, up_declared_stored_size_bytes = 10,
      up_declared_original_size_bytes = 10, up_expires_at = ''2026-01-02T00:00:00Z'',
      up_artifact_count = 1, up_total_stored_size_bytes = 10, up_total_original_size_bytes = 10,
      up_transfer_bytes = 0, up_newly_persisted_bytes = 0\<rparr>"

definition sample_artifact_row :: upload_artifact_row where
  "sample_artifact_row =
     \<lparr>ua_upload_id = ''u1'', ua_artifact_index = 0, ua_logical_path = ''a'', ua_media_type = None,
      ua_original_size_bytes = 10, ua_original_sha256 = replicate 64 (CHR ''0''),
      ua_stored_size_bytes = 10, ua_stored_sha256 = replicate 64 (CHR ''0''),
      ua_compression = ''identity'', ua_chunk_count = 3\<rparr>"

definition sample_chunk_row :: "int \<Rightarrow> chunk_row" where
  "sample_chunk_row i =
     \<lparr>uc_upload_id = ''u1'', uc_artifact_index = 0, uc_chunk_index = i, uc_byte_length = 4,
      uc_sha256 = replicate 64 (CHR ''0''), uc_accepted_at = ''2026-01-01T00:00:00Z''\<rparr>"

lemma sample_layout_rows: "layout_rows 10 4 sample_upload_row sample_artifact_row"
  by code_simp

text \<open>C4: The chunk layout is a partition of the stored bytes. For every index below the chunk
  count the negotiated length exists, is positive and at most the chunk size, and it is rejected
  for every other index; the lengths add up to the stored size, so cutting the stored bytes at these lengths and joining the
  pieces gives the bytes back, and no other pieces of these lengths do.\<close>

theorem chunk_layout_partitions:
  assumes "layout_rows (length bs) c upload a"
  shows "\<exists>lens. try_map (expected_chunk_length upload a) [0..<nat (ua_chunk_count a)] = Inr lens
     \<and> (\<forall>i \<ge> nat (ua_chunk_count a). \<not> is_ok (expected_chunk_length upload a i))
     \<and> list_all (\<lambda>l. 0 < l \<and> l \<le> c) lens
     \<and> map length (cut_bytes lens bs) = lens \<and> concat (cut_bytes lens bs) = bs
     \<and> (\<forall>ps. map length ps = lens \<and> concat ps = bs \<longrightarrow> ps = cut_bytes lens bs)"
proof -
  let ?n = "chunks_needed (length bs) c" and ?l = "chunk_length (length bs) c"
  have rows: "nat (ua_chunk_count a) = ?n" "0 < c"
    using assms by (auto simp: layout_rows_def chunk_count_ok)
  let ?lens = "map ?l [0..<?n]"
  have "try_map (expected_chunk_length upload a) [0..<?n] = Inr ?lens"
    using expected_chunk_length_layout [OF assms] by (simp add: try_map_eq_Inr)
  moreover have "\<not> is_ok (expected_chunk_length upload a i)" if "?n \<le> i" for i
    using expected_chunk_length_layout [OF assms, of i] that by simp
  moreover have "list_all (\<lambda>l. 0 < l \<and> l \<le> c) ?lens"
    using chunk_length_bounds [OF rows(2)] by (simp add: list_all_iff)
  moreover have "sum_list ?lens = length bs"
    by (rule sum_chunk_lengths [OF rows(2)])
  moreover have "ps = cut_bytes ?lens bs" if "map length ps = ?lens" "concat ps = bs" for ps
    using cut_bytes_concat [of ps] that by metis
  ultimately show ?thesis
    unfolding rows(1) by (intro exI [of _ ?lens]) (auto simp: length_cut_bytes concat_cut_bytes)
qed

theorem chunk_layout_partitions_witness:
  "try_map (expected_chunk_length sample_upload_row sample_artifact_row) [0..<3] = Inr [4, 4, 2]
     \<and> concat (cut_bytes [4, 4, 2] (replicate 10 (7 :: byte))) = replicate 10 7"
proof -
  have "layout_rows (length (replicate 10 (7 :: byte))) 4 sample_upload_row sample_artifact_row"
    using sample_layout_rows by simp
  from chunk_layout_partitions [OF this] obtain lens where
    lens: "try_map (expected_chunk_length sample_upload_row sample_artifact_row)
        [0..<nat (ua_chunk_count sample_artifact_row)] = Inr lens"
      "concat (cut_bytes lens (replicate 10 (7 :: byte))) = replicate 10 7"
    by blast
  moreover have "try_map (expected_chunk_length sample_upload_row sample_artifact_row)
      [0..<nat (ua_chunk_count sample_artifact_row)] = Inr [4, 4, 2]"
    by code_simp
  ultimately have "lens = [4, 4, 2]" by simp
  moreover have "nat (ua_chunk_count sample_artifact_row) = 3"
    by (simp add: sample_artifact_row_def)
  ultimately show ?thesis using lens by simp
qed

text \<open>The bounds of an accepted upload layout. When a manifest gets a layout, every artifact has
  the least number of chunks that holds its stored bytes, at most 65536, all together at most
  262144, and the totals are the exact sums of the declared sizes.\<close>

theorem upload_layout_bounds:
  assumes "upload_layout_of m c = Inr layout"
  shows "chunk_counts layout = map (\<lambda>a. chunks_needed (stored_size_bytes a) c) (artifacts m)
     \<and> list_all (\<lambda>n. n \<le> 65536) (chunk_counts layout) \<and> sum_list (chunk_counts layout) \<le> 262144
     \<and> manifest_totals m = Inr (total_original_bytes layout, total_stored_bytes layout)"
  using upload_layout_of_ok [OF assms] by simp

theorem upload_layout_bounds_witness:
  "chunk_counts \<lparr>chunk_counts = [1, 2], total_original_bytes = 8, total_stored_bytes = 8\<rparr>
     = map (\<lambda>a. chunks_needed (stored_size_bytes a) 4) (artifacts sample_manifest)"
proof -
  have "upload_layout_of sample_manifest 4
      = Inr \<lparr>chunk_counts = [1, 2], total_original_bytes = 8, total_stored_bytes = 8\<rparr>"
    by code_simp
  from upload_layout_bounds [OF this] show ?thesis by (rule conjunct1)
qed

text \<open>C5: The status document is exact. Bit \<open>i mod 8\<close> of byte \<open>i div 8\<close> of the published bitmap is
  set exactly for the accepted chunk indexes, the bitmap has one bit for every chunk rounded up
  to whole bytes, and the missing indexes are exactly the others, in order.\<close>

theorem upload_artifact_status_exact:
  assumes "upload_artifact_status_of upload_id a rows = Inr st"
  shows "\<exists>bm. uas_accepted_chunk_bitmap st = hex_digest bm
     \<and> length bm = div_ceil (nat (ua_chunk_count a)) 8
     \<and> (\<forall>i < nat (ua_chunk_count a).
           bit (bm ! (i div 8)) (i mod 8) \<longleftrightarrow> int i \<in> uc_chunk_index ` set rows)
     \<and> uas_missing_chunk_indexes st
         = filter (\<lambda>i. int i \<notin> uc_chunk_index ` set rows) [0..<nat (ua_chunk_count a)]
     \<and> (\<forall>r \<in> set rows. 0 \<le> uc_chunk_index r \<and> uc_chunk_index r < ua_chunk_count a)"
proof -
  let ?n = "nat (ua_chunk_count a)"
  obtain bm where n: "0 \<le> ua_chunk_count a"
    and bm: "accepted_bitmap ?n rows = Inr bm"
    and st: "uas_accepted_chunk_bitmap st = hex_digest bm"
      "uas_missing_chunk_indexes st = missing_indexes ?n bm"
    using assms
    by (auto simp: upload_artifact_status_of_def and_then_eq_Inr ok_or_eq_Inr
        u64_try_from_def split: if_splits)
  have fold: "bitmap_of ?n {i. int i \<in> uc_chunk_index ` set rows} bm"
    "\<forall>r \<in> set rows. 0 \<le> uc_chunk_index r \<and> uc_chunk_index r < int ?n"
    using accepted_bitmap_fold [OF bitmap_of_empty bm [unfolded accepted_bitmap_def]]
    by simp_all
  with st n missing_indexes_bitmap [OF fold(1)] show ?thesis
    by (intro exI [of _ bm]) (auto simp: bitmap_of_def)
qed

definition sample_status :: upload_artifact_status where
  "sample_status =
     (case upload_artifact_status_of ''u1'' sample_artifact_row
             [sample_chunk_row 0, sample_chunk_row 2] of Inr st \<Rightarrow> st)"

theorem upload_artifact_status_exact_witness:
  "uas_missing_chunk_indexes sample_status = [1]"
proof -
  have "upload_artifact_status_of ''u1'' sample_artifact_row
      [sample_chunk_row 0, sample_chunk_row 2] = Inr sample_status"
    by code_simp
  from upload_artifact_status_exact [OF this] show ?thesis
    by (auto simp: sample_artifact_row_def sample_chunk_row_def upt_rec)
qed

text \<open>Digests as text. The hexadecimal form is lower case, two characters per byte, and
  distinguishes different digests; a validated digest is recovered from the form stored in the
  database.\<close>

theorem digest_text_faithful:
  assumes "validate_digest d = Inr ()"
  shows "(hex_digest bs = hex_digest cs \<longleftrightarrow> bs = cs)
     \<and> length (hex_digest bs) = 2 * length bs \<and> list_all is_lower_hex (hex_digest bs)
     \<and> digest_document_value (digest_storage_value d) = d"
  using digest_document_storage [OF assms] by (simp add: hex_digest_inj hex_digest_lower)

theorem digest_text_faithful_witness:
  "hex_digest [0xa7] \<noteq> hex_digest [0x7a]
     \<and> digest_document_value (digest_storage_value (sample_hash (CHR ''a''))) = sample_hash (CHR ''a'')"
proof -
  have "validate_digest (sample_hash (CHR ''a'')) = Inr ()" by code_simp
  from digest_text_faithful [OF this, of "[0xa7]" "[0x7a]"] show ?thesis by simp
qed

end
