(* ===== verification/Operations.thy ===== *)
theory Operations
  imports Chunks
begin

text \<open>
  Operations on the archive: state passing with an error result. A request that fails keeps the
  effects it had before the failure; a database transaction that fails has none. \<open>preserves I m\<close>
  says that the operation keeps an invariant whether it succeeds or fails; its rules follow the
  combinators, so an operation is shown to preserve an invariant by looking at its transactions
  and file system steps only.

  The second part models the helpers of \<open>ingestion.rs\<close> that read and check stored bytes.
\<close>

type_synonym ('s, 'e, 'a) fallible_op = "'s \<Rightarrow> ('e + 'a) \<times> 's"
type_synonym ('s, 'a) op = "('s, api_error, 'a) fallible_op"

definition pure_op :: "'e + 'a \<Rightarrow> ('s, 'e, 'a) fallible_op" where
  "pure_op r = (\<lambda>s. (r, s))"

definition bind_op ::
  "('s, 'e, 'a) fallible_op \<Rightarrow> ('a \<Rightarrow> ('s, 'e, 'b) fallible_op) \<Rightarrow> ('s, 'e, 'b) fallible_op" where
  "bind_op m f = (\<lambda>s. case m s of (Inl err, s') \<Rightarrow> (Inl err, s') | (Inr v, s') \<Rightarrow> f v s')"

definition read_op :: "('s \<Rightarrow> ('s, 'e, 'a) fallible_op) \<Rightarrow> ('s, 'e, 'a) fallible_op" where
  "read_op f = (\<lambda>s. f s s)"

definition modify_op :: "('s \<Rightarrow> 's) \<Rightarrow> ('s, 'e, unit) fallible_op" where
  "modify_op f = (\<lambda>s. (Inr (), f s))"

text \<open>The \<open>?\<close> operator on a result that does not touch the state, and a query.\<close>

definition try_op :: "'e + 'a \<Rightarrow> ('a \<Rightarrow> ('s, 'e, 'b) fallible_op) \<Rightarrow> ('s, 'e, 'b) fallible_op" where
  "try_op r f = (case r of Inl err \<Rightarrow> pure_op (Inl err) | Inr v \<Rightarrow> f v)"

definition query :: "(database \<Rightarrow> 'a result) \<Rightarrow> (archive, 'a) op" where
  "query f = (\<lambda>s. (f (db s), s))"

text \<open>A loop over a list that stops at the first failure.\<close>

fun each_op :: "('x \<Rightarrow> ('s, 'e, unit) fallible_op) \<Rightarrow> 'x list \<Rightarrow> ('s, 'e, unit) fallible_op" where
  "each_op f [] = pure_op (Inr ())"
| "each_op f (x # xs) = bind_op (f x) (\<lambda>_. each_op f xs)"

text \<open>A transaction computes a new database or fails; \<open>commit\<close> is part of the computation.\<close>

definition transact :: "(database \<Rightarrow> ('a \<times> database) result) \<Rightarrow> (archive, 'a) op" where
  "transact f = (\<lambda>s. case f (db s) of
     Inl err \<Rightarrow> (Inl err, s)
   | Inr (v, d) \<Rightarrow> (Inr v, s\<lparr>db := d\<rparr>))"

text \<open>A failure replaced by another error, \<open>map_err\<close>.\<close>

definition map_err_op :: "('e \<Rightarrow> 'f) \<Rightarrow> ('s, 'e, 'a) fallible_op \<Rightarrow> ('s, 'f, 'a) fallible_op" where
  "map_err_op g m = (\<lambda>s. case m s of (Inl err, s') \<Rightarrow> (Inl (g err), s') | (Inr v, s') \<Rightarrow> (Inr v, s'))"

text \<open>A result that the caller ignores, \<open>let _ = ...\<close>.\<close>

definition ignore_op :: "('s, 'e, 'a) fallible_op \<Rightarrow> ('s, 'e, unit) fallible_op" where
  "ignore_op m = (\<lambda>s. (Inr (), snd (m s)))"

lemma bind_op_simps:
  "bind_op (pure_op (Inr v)) f = f v"
  "bind_op (pure_op (Inl err)) f = pure_op (Inl err)"
  "bind_op (read_op g) f = read_op (\<lambda>s. bind_op (g s) f)"
  by (simp_all add: bind_op_def pure_op_def read_op_def fun_eq_iff)

lemma bind_op_Inr [result_simps]:
  "bind_op m f s = (Inr w, s') \<longleftrightarrow> (\<exists>v t. m s = (Inr v, t) \<and> f v t = (Inr w, s'))"
  by (auto simp: bind_op_def split: prod.splits sum.splits)

lemma bind_op_Inl [result_simps]:
  "bind_op m f s = (Inl err, s') \<longleftrightarrow>
     m s = (Inl err, s') \<or> (\<exists>v t. m s = (Inr v, t) \<and> f v t = (Inl err, s'))"
  by (auto simp: bind_op_def split: prod.splits sum.splits)

lemma each_op_Cons: "each_op f (x # xs) s = (Inr (), t) \<longleftrightarrow> (\<exists>v. f x s = (Inr (), v) \<and> each_op f xs v = (Inr (), t))"
  by (auto simp: bind_op_Inr)

lemma try_op_simps [simp]: "try_op (Inr v) f = f v" "try_op (Inl err) f = pure_op (Inl err)"
  by (simp_all add: try_op_def)

lemma try_op_Inr [result_simps]:
  "try_op r f s = (Inr w, s') \<longleftrightarrow> (\<exists>v. r = Inr v \<and> f v s = (Inr w, s'))"
  by (cases r) (auto simp: try_op_def pure_op_def)

lemma try_op_Inl [result_simps]:
  "try_op r f s = (Inl err, s') \<longleftrightarrow>
     (r = Inl err \<and> s' = s) \<or> (\<exists>v. r = Inr v \<and> f v s = (Inl err, s'))"
  by (cases r) (auto simp: try_op_def pure_op_def)

lemma query_eq [result_simps]: "query f s = (x, s') \<longleftrightarrow> x = f (db s) \<and> s' = s"
  by (auto simp: query_def)

lemma pure_op_eq [result_simps]: "pure_op r s = (x, s') \<longleftrightarrow> x = r \<and> s' = s"
  by (auto simp: pure_op_def)

lemma read_op_eq [result_simps]: "read_op f s = f s s"
  by (simp add: read_op_def)

lemma modify_op_eq [result_simps]: "modify_op f s = (x, s') \<longleftrightarrow> x = Inr () \<and> s' = f s"
  by (auto simp: modify_op_def)

lemma ignore_op_eq [result_simps]: "ignore_op m s = (x, s') \<longleftrightarrow> x = Inr () \<and> s' = snd (m s)"
  by (auto simp: ignore_op_def)

lemma transact_Inr [result_simps]:
  "transact f s = (Inr v, s') \<longleftrightarrow> (\<exists>d. f (db s) = Inr (v, d) \<and> s' = s\<lparr>db := d\<rparr>)"
  by (auto simp: transact_def split: sum.splits)

lemma transact_Inl [result_simps]:
  "transact f s = (Inl err, s') \<longleftrightarrow> f (db s) = Inl err \<and> s' = s"
  by (auto simp: transact_def split: sum.splits)

section \<open>Invariants\<close>

named_theorems preserves_intros \<open>invariant preservation, one rule for every combinator\<close>

definition preserves :: "('s \<Rightarrow> bool) \<Rightarrow> ('s, 'e, 'a) fallible_op \<Rightarrow> bool" where
  "preserves I m = (\<forall>s. I s \<longrightarrow> I (snd (m s)))"

lemma preservesD: "preserves I m \<Longrightarrow> I s \<Longrightarrow> m s = (r, s') \<Longrightarrow> I s'"
  by (metis preserves_def snd_conv)

lemma preserves_pure [preserves_intros]: "preserves I (pure_op r)"
  by (simp add: preserves_def pure_op_def)

lemma preserves_bind [preserves_intros]:
  "preserves I m \<Longrightarrow> (\<And>v. preserves I (f v)) \<Longrightarrow> preserves I (bind_op m f)"
  by (auto simp: preserves_def bind_op_def split: prod.splits sum.splits)

lemma preserves_try [preserves_intros]:
  "(\<And>v. r = Inr v \<Longrightarrow> preserves I (f v)) \<Longrightarrow> preserves I (try_op r f)"
  by (cases r) (simp_all add: preserves_pure)

lemma preserves_query [preserves_intros]: "preserves I (query f)"
  by (simp add: preserves_def query_def)

lemma preserves_read [preserves_intros]: "(\<And>s. preserves I (f s)) \<Longrightarrow> preserves I (read_op f)"
  by (simp add: preserves_def read_op_def)

lemma preserves_modify [preserves_intros]:
  "(\<And>s. I s \<Longrightarrow> I (f s)) \<Longrightarrow> preserves I (modify_op f)"
  by (simp add: preserves_def modify_op_def)

lemma preserves_map_err [preserves_intros]: "preserves I m \<Longrightarrow> preserves I (map_err_op g m)"
  by (auto simp: preserves_def map_err_op_def split: prod.splits sum.splits)

lemma preserves_ignore [preserves_intros]: "preserves I m \<Longrightarrow> preserves I (ignore_op m)"
  by (simp add: preserves_def ignore_op_def)

lemma preserves_transact [preserves_intros]:
  "(\<And>s v d. I s \<Longrightarrow> f (db s) = Inr (v, d) \<Longrightarrow> I (s\<lparr>db := d\<rparr>)) \<Longrightarrow> preserves I (transact f)"
  by (auto simp: preserves_def transact_def split: sum.splits)

lemma preserves_if [preserves_intros]:
  "preserves I a \<Longrightarrow> preserves I b \<Longrightarrow> preserves I (if c then a else b)"
  by simp

lemma preserves_case_option [preserves_intros]:
  "preserves I a \<Longrightarrow> (\<And>x. preserves I (b x)) \<Longrightarrow> preserves I (case v of None \<Rightarrow> a | Some x \<Rightarrow> b x)"
  by (cases v) simp_all

lemma preserves_each [preserves_intros]:
  "(\<And>x. x \<in> set xs \<Longrightarrow> preserves I (f x)) \<Longrightarrow> preserves I (each_op f xs)"
  by (induction xs) (auto intro!: preserves_intros)

lemma preserves_case_sum [preserves_intros]:
  "(\<And>x. preserves I (a x)) \<Longrightarrow> (\<And>x. preserves I (b x)) \<Longrightarrow>
     preserves I (case v of Inl x \<Rightarrow> a x | Inr x \<Rightarrow> b x)"
  by (cases v) simp_all

text \<open>The same rules for one run from a given state: queries and results are known to have
  succeeded when the rest of the operation runs.\<close>

named_theorems run_intros \<open>the state after one run of an operation\<close>

lemma run_pure [run_intros]: "I s \<Longrightarrow> I (snd (pure_op r s))"
  by (simp add: pure_op_def)

lemma run_try [run_intros]:
  "I s \<Longrightarrow> (\<And>v. r = Inr v \<Longrightarrow> I (snd (f v s))) \<Longrightarrow> I (snd (try_op r f s))"
  by (cases r) (simp_all add: pure_op_def)

lemma run_query [run_intros]: "I s \<Longrightarrow> I (snd (query q s))"
  by (simp add: query_def)

lemma run_bind_query [run_intros]:
  "I s \<Longrightarrow> (\<And>v. q (db s) = Inr v \<Longrightarrow> I (snd (f v s))) \<Longrightarrow> I (snd (bind_op (query q) f s))"
  by (cases "q (db s)") (simp_all add: bind_op_def query_def)

lemma run_read [run_intros]: "I (snd (f s s)) \<Longrightarrow> I (snd (read_op f s))"
  by (simp add: read_op_def)

lemma run_bind:
  assumes "I (snd (m s))" "\<And>v t. m s = (Inr v, t) \<Longrightarrow> I t \<Longrightarrow> I (snd (f v t))"
  shows "I (snd (bind_op m f s))"
  using assms by (cases "m s") (auto simp: bind_op_def split: sum.splits)

lemma preserves_snd: "preserves I m \<Longrightarrow> I s \<Longrightarrow> I (snd (m s))"
  by (simp add: preserves_def)

section \<open>Reading and checking bytes\<close>

definition COPY_BUFFER_BYTES :: nat where "COPY_BUFFER_BYTES = 65536"

text \<open>The reads of a file through the copy buffer: full buffers and a last partial one.\<close>

function buffer_reads :: "bytes \<Rightarrow> bytes list" where
  "buffer_reads bs =
     (if bs = [] then []
      else take COPY_BUFFER_BYTES bs # buffer_reads (drop COPY_BUFFER_BYTES bs))"
  by pat_completeness auto
termination
  by (relation "measure length") (auto simp: COPY_BUFFER_BYTES_def)

declare buffer_reads.simps [simp del]

fun hash_reader_loop :: "nat \<Rightarrow> nat \<times> bytes \<Rightarrow> bytes list \<Rightarrow> (nat \<times> bytes) result" where
  "hash_reader_loop maximum_size (seen, hashed) [] = Inr (seen, hashed)"
| "hash_reader_loop maximum_size (seen, hashed) (read # reads) =
     and_then (ok_or (invalid ''artifact size is invalid'')
       (checked_add seen (length read))) (\<lambda>seen'.
     and_then (reject_if (seen' > maximum_size)
       (invalid ''artifact size exceeds its declared bound'')) (\<lambda>_.
     hash_reader_loop maximum_size (seen', hashed @ read) reads))"

definition hash_reader :: "externals \<Rightarrow> bytes \<Rightarrow> nat \<Rightarrow> (nat \<times> string) result" where
  "hash_reader x bs maximum_size =
     and_then (hash_reader_loop maximum_size (0, []) (buffer_reads bs)) (\<lambda>(seen, hashed).
     Inr (seen, sha256_hex x hashed))"

definition verify_stored_file ::
  "externals \<Rightarrow> entry option \<Rightarrow> nat \<Rightarrow> string \<Rightarrow> unit result" where
  "verify_stored_file x path expected_size expected_digest =
     (case path of
        Some (Regular bs) \<Rightarrow>
          and_then (hash_reader x bs expected_size) (\<lambda>(sz, digest).
          if sz = expected_size \<and> digest = digest_storage_value expected_digest
          then Inr () else Inl storage)
      | _ \<Rightarrow> Inl storage)"

definition zstd_decode_error :: api_error where
  "zstd_decode_error = invalid ''artifact zstd stream is corrupt or truncated''"

text \<open>\<open>verify_artifact_blocking\<close>: the stored bytes and then the original bytes against the
  manifest. The decoder of the zstd branch is the external function; a stream that cannot be
  decoded gives the decode error, unless what was decoded of it exceeds the bound before.\<close>

definition original_stream :: "externals \<Rightarrow> compression \<Rightarrow> bytes \<Rightarrow> bytes result" where
  "original_stream x compr bs =
     (case compr of
        Identity \<Rightarrow> Inr bs
      | Zstd \<Rightarrow> ok_or zstd_decode_error (zstd_decode x bs))"

text \<open>The original as the bounded reader gets it: \<open>zstd_partial\<close> is what the decoder delivers of a
  stream before it fails, and when that is too long already, the bound is what the reader reports.\<close>

definition bounded_original :: "externals \<Rightarrow> compression \<Rightarrow> nat \<Rightarrow> bytes \<Rightarrow> bytes result" where
  "bounded_original x compr maximum bs =
     (case original_stream x compr bs of
        Inr original \<Rightarrow> Inr original
      | Inl err \<Rightarrow> if length (zstd_partial x bs) > maximum then Inr (zstd_partial x bs) else Inl err)"

definition verify_artifact :: "externals \<Rightarrow> bytes \<Rightarrow> artifact \<Rightarrow> unit result" where
  "verify_artifact x stored a =
     and_then (hash_reader x stored (stored_size_bytes a)) (\<lambda>(stored_size, stored_digest).
     and_then (reject_if (stored_size \<noteq> stored_size_bytes a
         \<or> stored_digest \<noteq> digest_storage_value (stored_sha256 a))
       (ApiError 422 ''artifact_stored_checksum_mismatch''
         ''artifact stored size or checksum does not match the manifest'')) (\<lambda>_.
     and_then (bounded_original x (compression a) (original_size_bytes a) stored) (\<lambda>original.
     and_then (hash_reader x original (original_size_bytes a)) (\<lambda>(original_size, original_digest).
     reject_if (original_size \<noteq> original_size_bytes a
         \<or> original_digest \<noteq> digest_storage_value (original_sha256 a))
       (ApiError 422 ''artifact_original_checksum_mismatch''
         ''artifact original size or checksum does not match the manifest'')))))"

lemma concat_buffer_reads [simp]: "concat (buffer_reads bs) = bs"
proof (induction bs rule: buffer_reads.induct)
  case (1 bs)
  then show ?case by (cases "bs = []") (simp_all add: buffer_reads.simps)
qed

lemma hash_reader_loop_ok:
  assumes "maximum_size \<le> u64_max" "seen \<le> maximum_size"
  shows "hash_reader_loop maximum_size (seen, hashed) reads = Inr r \<longleftrightarrow>
     seen + length (concat reads) \<le> maximum_size
       \<and> r = (seen + length (concat reads), hashed @ concat reads)"
  using assms
proof (induction reads arbitrary: seen hashed)
  case (Cons b bs)
  show ?case
  proof (cases "seen + length b \<le> maximum_size")
    case True
    with Cons show ?thesis by (simp add: checked_add_def add.assoc)
  next
    case False
    with Cons.prems show ?thesis
      by (auto simp: and_then_eq_Inr reject_if_eq_Inr ok_or_eq_Inr checked_add_eq_Some)
  qed
qed auto

lemma hash_reader_ok:
  "maximum_size \<le> u64_max \<Longrightarrow>
     hash_reader x bs maximum_size = Inr r \<longleftrightarrow>
       length bs \<le> maximum_size \<and> r = (length bs, sha256_hex x bs)"
  by (auto simp: hash_reader_def and_then_eq_Inr hash_reader_loop_ok)

lemma verify_stored_file_ok:
  assumes "n \<le> u64_max"
  shows "verify_stored_file x entry n d = Inr u \<longleftrightarrow>
     (\<exists>bs. entry = Some (Regular bs) \<and> length bs = n \<and> sha256_hex x bs = digest_storage_value d)"
  using assms
  by (auto simp: verify_stored_file_def and_then_eq_Inr hash_reader_ok
      split: option.splits entry.splits)

lemma bounded_original_ok: "original_stream x c bs = Inr original \<Longrightarrow> bounded_original x c n bs = Inr original"
  by (simp add: bounded_original_def)

lemma bounded_original_exact:
  "bounded_original x c n bs = Inr original \<Longrightarrow> length original \<le> n \<Longrightarrow> original_stream x c bs = Inr original"
  by (auto simp: bounded_original_def split: sum.splits if_splits)

lemma verify_artifact_ok:
  assumes "stored_size_bytes a \<le> u64_max" "original_size_bytes a \<le> u64_max"
  shows "verify_artifact x stored a = Inr u \<longleftrightarrow>
     length stored = stored_size_bytes a
       \<and> sha256_hex x stored = digest_storage_value (stored_sha256 a)
       \<and> (\<exists>original. original_stream x (compression a) stored = Inr original
             \<and> length original = original_size_bytes a
             \<and> sha256_hex x original = digest_storage_value (original_sha256 a))"
  using assms
  by (auto simp: verify_artifact_def and_then_eq_Inr hash_reader_ok reject_if_eq_Inr
      intro: bounded_original_ok dest: bounded_original_exact)

end
