(* ===== verification/Uploads.thy ===== *)
theory Uploads
  imports Operations
begin

text \<open>
  The life cycle of an upload in \<open>ingestion.rs\<close> apart from its chunks and its completion: clients,
  the creation of an upload with the rules for reusing a capture identifier, the status
  documents, and the termination of abandoned and expired uploads.
\<close>

section \<open>Clients and sessions\<close>

definition upsert_client :: "client_row \<Rightarrow> client_row list \<Rightarrow> client_row list" where
  "upsert_client row table =
     (if list_ex (\<lambda>r. cl_id r = cl_id row) table
      then update_where (\<lambda>r. cl_id r = cl_id row)
        (\<lambda>r. r\<lparr>cl_hostname := cl_hostname row, cl_display_name := cl_display_name row,
               cl_metadata_json := cl_metadata_json row, cl_updated_at := cl_updated_at row\<rparr>) table
      else table @ [row])"

definition register_client ::
  "server \<Rightarrow> env \<Rightarrow> string \<Rightarrow> 'r + register_client_request \<Rightarrow> (archive, client_response) op" where
  "register_client srv e path payload =
     try_op (parse_uuid (ext srv) path ''client identifier is not a UUID'') (\<lambda>client_id.
     try_op (parse_json payload) (\<lambda>request.
     try_op (validate_client_request request) (\<lambda>_.
     try_op (ok_or internal (metadata_to_json (ext srv) (rcr_metadata request))) (\<lambda>metadata_json.
     try_op (ok_or internal (format_time (ext srv) (now e))) (\<lambda>now_text.
     bind_op (transact (\<lambda>d. commit (\<lambda>_. database_error) e Commit_Client
       ((), d\<lparr>db_clients := upsert_client
          \<lparr>cl_id = client_id, cl_owner_namespace = owner srv,
           cl_hostname = rcr_hostname request, cl_display_name = rcr_display_name request,
           cl_metadata_json = metadata_json, cl_created_at = now_text,
           cl_updated_at = now_text\<rparr> (db_clients d)\<rparr>))) (\<lambda>_.
     bind_op (query (\<lambda>d. fetch_one (\<lambda>r. cl_id r = client_id) (db_clients d))) (\<lambda>row.
     pure_op (and_then (ok_or internal (metadata_from_json (ext srv) (cl_metadata_json row)))
       (\<lambda>metadata.
       Inr \<lparr>cr_client_id = cl_id row, cr_hostname = cl_hostname row,
            cr_display_name = cl_display_name row, cr_metadata = metadata,
            cr_created_at = cl_created_at row, cr_updated_at = cl_updated_at row\<rparr>)))))))))"

definition session_matches :: "string \<Rightarrow> session_input \<Rightarrow> session_row \<Rightarrow> bool" where
  "session_matches own s r =
     (se_owner_namespace r = own \<and> se_source_agent r = source_agent s
       \<and> se_source_session_id r = source_session_id s)"

definition get_or_create_session ::
  "server \<Rightarrow> env \<Rightarrow> string \<Rightarrow> manifest \<Rightarrow> string \<Rightarrow> database \<Rightarrow> (string \<times> database) result" where
  "get_or_create_session srv e client_id m now_text d =
     (if \<not> list_ex (\<lambda>c. cl_id c = client_id \<and> cl_owner_namespace c = owner srv) (db_clients d)
      then Inl (not_found ''client_not_found'' ''client must be registered first'')
      else
        and_then
          (if list_ex (session_matches (owner srv) (session m)) (db_sessions d)
           then Inr (update_where (session_matches (owner srv) (session m))
             (\<lambda>r. r\<lparr>se_updated_at := now_text\<rparr>) (db_sessions d))
           else insert_row (\<lambda>r r'. se_id r = se_id r')
             \<lparr>se_id = new_id e New_Session, se_owner_namespace = owner srv,
              se_source_agent = source_agent (session m),
              se_source_session_id = source_session_id (session m),
              se_created_at = now_text, se_updated_at = now_text\<rparr> (db_sessions d)) (\<lambda>sessions.
        and_then (fetch_one (session_matches (owner srv) (session m)) sessions) (\<lambda>row.
        Inr (se_id row, d\<lparr>db_sessions := sessions\<rparr>))))"

section \<open>Rows of an upload\<close>

definition get_active_upload :: "database \<Rightarrow> string \<Rightarrow> upload_row option" where
  "get_active_upload d upload_id = find (\<lambda>r. up_id r = upload_id) (db_uploads d)"

definition get_upload_artifacts :: "database \<Rightarrow> string \<Rightarrow> upload_artifact_row list" where
  "get_upload_artifacts d upload_id =
     sort_key ua_artifact_index (filter (\<lambda>r. ua_upload_id r = upload_id) (db_upload_artifacts d))"

definition get_upload_artifact :: "database \<Rightarrow> string \<Rightarrow> nat \<Rightarrow> upload_artifact_row option" where
  "get_upload_artifact d upload_id artifact_index =
     find (\<lambda>r. ua_upload_id r = upload_id \<and> ua_artifact_index r = int artifact_index)
       (db_upload_artifacts d)"

definition chunk_rows :: "database \<Rightarrow> string \<Rightarrow> int \<Rightarrow> chunk_row list" where
  "chunk_rows d upload_id artifact_index =
     sort_key uc_chunk_index
       (filter (\<lambda>r. uc_upload_id r = upload_id \<and> uc_artifact_index r = artifact_index)
         (db_upload_chunks d))"

definition get_chunk :: "database \<Rightarrow> string \<Rightarrow> nat \<Rightarrow> nat \<Rightarrow> chunk_row option result" where
  "get_chunk d upload_id artifact_index chunk_index =
     and_then (to_sqlite_i64 chunk_index) (\<lambda>ci.
     Inr (find (\<lambda>r. uc_upload_id r = upload_id \<and> uc_artifact_index r = int artifact_index
                 \<and> uc_chunk_index r = ci) (db_upload_chunks d)))"

definition get_upload_manifest :: "server \<Rightarrow> database \<Rightarrow> string \<Rightarrow> manifest result" where
  "get_upload_manifest srv d upload_id =
     and_then (fetch_one (\<lambda>r. mf_upload_id r = upload_id) (db_manifests d)) (\<lambda>row.
     ok_or internal (manifest_from_json (ext srv) (mf_canonical_json row)))"

section \<open>Reusing a capture identifier\<close>

datatype legacy_manifest_digest_version = PreCaptureProvenanceV1

definition legacy_manifest_of :: "manifest \<Rightarrow> legacy_manifest_v1" where
  "legacy_manifest_of m =
     \<lparr>lm_schema_version = schema_version m, lm_session = session m,
      lm_capture = \<lparr>lc_captured_at = captured_at (capture m),
        lc_source_cursor = source_cursor (capture m), lc_project = project (capture m),
        lc_repository = repository (capture m), lc_branch = branch (capture m),
        lc_source_agent_version = source_agent_version (capture m),
        lc_munshi_version = munshi_version (capture m)\<rparr>,
      lm_artifacts = artifacts m\<rparr>"

definition legacy_manifest_digests ::
  "externals \<Rightarrow> manifest \<Rightarrow> (legacy_manifest_digest_version \<times> string) list" where
  "legacy_manifest_digests x m =
     (if source_state_hash (capture m) = None \<and> source_metadata (capture m) = []
         \<and> artifact_set_version (capture m) = LEGACY_ARTIFACT_SET_VERSION
      then case legacy_manifest_to_json x (legacy_manifest_of m) of
          Some json \<Rightarrow> [(PreCaptureProvenanceV1, sha256_hex x (string_bytes json))]
        | None \<Rightarrow> []
      else [])"

text \<open>\<open>ORDER BY terminal_at DESC LIMIT 1\<close> over the text of the timestamps.\<close>

definition latest_audit :: "string \<Rightarrow> string \<Rightarrow> string \<Rightarrow> database \<Rightarrow> upload_audit_row option" where
  "latest_audit own client_id cid d =
     last_by au_terminal_at
       (filter (\<lambda>a. au_owner_namespace a = own \<and> au_client_id a = client_id
                  \<and> au_capture_id a = cid) (db_upload_audits d))"

definition ensure_terminal_capture_reuse_is_equivalent ::
  "externals \<Rightarrow> string \<Rightarrow> string \<Rightarrow> string \<Rightarrow> manifest \<Rightarrow> string \<Rightarrow> database \<Rightarrow> unit result" where
  "ensure_terminal_capture_reuse_is_equivalent x own client_id cid m manifest_sha d =
     (case latest_audit own client_id cid d of
        None \<Rightarrow> Inr ()
      | Some audit \<Rightarrow>
          (case au_manifest_sha256 audit of
             Some previous \<Rightarrow>
               if previous = manifest_sha
                  \<or> list_ex (\<lambda>(_, digest). digest = previous) (legacy_manifest_digests x m)
               then Inr ()
               else Inl (conflict ''capture_id_conflict''
                 ''capture identifier was already used for a different manifest'')
           | None \<Rightarrow> Inl (conflict ''capture_id_conflict''
               ''capture identifier was used by a historical terminal upload with unknown manifest'')))"

definition legacy_manifest_equivalent ::
  "externals \<Rightarrow> string \<Rightarrow> string \<Rightarrow> database \<Rightarrow> bool result" where
  "legacy_manifest_equivalent x upload_id expected d =
     (case find (\<lambda>r. mf_upload_id r = upload_id) (db_manifests d) of
        None \<Rightarrow> Inr False
      | Some row \<Rightarrow>
          and_then (ok_or database_error (manifest_from_json x (mf_canonical_json row))) (\<lambda>m.
          and_then (ok_or internal (manifest_to_json x m)) (\<lambda>canonical.
          Inr (sha256_hex x (string_bytes canonical) = expected))))"

section \<open>Creating an upload\<close>

definition insert_upload_artifact ::
  "string \<Rightarrow> nat \<Rightarrow> artifact \<Rightarrow> nat \<Rightarrow> upload_artifact_row list
     \<Rightarrow> upload_artifact_row list result" where
  "insert_upload_artifact upload_id artifact_index a n table =
     and_then (to_sqlite_i64 (original_size_bytes a)) (\<lambda>original_size.
     and_then (to_sqlite_i64 (stored_size_bytes a)) (\<lambda>stored_size.
     and_then (to_sqlite_i64 n) (\<lambda>chunks.
     insert_row
       (\<lambda>r r'. ua_upload_id r = ua_upload_id r'
          \<and> (ua_artifact_index r = ua_artifact_index r' \<or> ua_logical_path r = ua_logical_path r'))
       \<lparr>ua_upload_id = upload_id, ua_artifact_index = int artifact_index,
        ua_logical_path = logical_path a, ua_media_type = media_type a,
        ua_original_size_bytes = original_size,
        ua_original_sha256 = digest_storage_value (original_sha256 a),
        ua_stored_size_bytes = stored_size,
        ua_stored_sha256 = digest_storage_value (stored_sha256 a),
        ua_compression = compression_name (compression a), ua_chunk_count = chunks\<rparr> table)))"

definition persist_new_upload_detail ::
  "env \<Rightarrow> string \<Rightarrow> manifest \<Rightarrow> string \<Rightarrow> string \<Rightarrow> upload_layout \<Rightarrow> string \<Rightarrow> database
     \<Rightarrow> database result" where
  "persist_new_upload_detail e upload_id m canonical_json manifest_sha layout now_text d =
     and_then (insert_row (\<lambda>r r'. mf_id r = mf_id r' \<or> mf_upload_id r = mf_upload_id r')
       \<lparr>mf_id = new_id e New_Manifest, mf_upload_id = upload_id,
        mf_canonical_json = canonical_json, mf_sha256 = manifest_sha,
        mf_created_at = now_text\<rparr> (db_manifests d)) (\<lambda>manifests.
     and_then (try_fold
       (\<lambda>table (index, a, n).
          and_then (reject_if (index > u32_max) internal) (\<lambda>_.
          insert_upload_artifact upload_id index a n table))
       (db_upload_artifacts d) (enumerate 0 (zip (artifacts m) (chunk_counts layout)))) (\<lambda>table.
     Inr (d\<lparr>db_manifests := manifests, db_upload_artifacts := table\<rparr>)))"

definition new_upload_row ::
  "server \<Rightarrow> env \<Rightarrow> string \<Rightarrow> string \<Rightarrow> string \<Rightarrow> manifest \<Rightarrow> string \<Rightarrow> upload_layout
     \<Rightarrow> string \<Rightarrow> string \<Rightarrow> upload_row result" where
  "new_upload_row srv e session_id client_id cid m manifest_sha layout now_text expires_at =
     and_then (ok_or internal (case artifacts m of [] \<Rightarrow> None | a # _ \<Rightarrow> Some a)) (\<lambda>first.
     and_then (ok_or internal (case chunk_counts layout of [] \<Rightarrow> None | n # _ \<Rightarrow> Some n))
       (\<lambda>first_chunk_count.
     and_then (to_sqlite_i64 (srv_chunk_size_bytes srv)) (\<lambda>chunk_size.
     and_then (to_sqlite_i64 first_chunk_count) (\<lambda>chunks.
     and_then (to_sqlite_i64 (stored_size_bytes first)) (\<lambda>stored_size.
     and_then (to_sqlite_i64 (original_size_bytes first)) (\<lambda>original_size.
     and_then (to_sqlite_i64 (length (artifacts m))) (\<lambda>artifact_count.
     and_then (to_sqlite_i64 (total_stored_bytes layout)) (\<lambda>stored_total.
     and_then (to_sqlite_i64 (total_original_bytes layout)) (\<lambda>original_total.
     Inr \<lparr>up_id = new_id e New_Upload, up_owner_namespace = owner srv,
          up_session_id = session_id, up_client_id = client_id, up_capture_id = cid,
          up_manifest_sha256 = manifest_sha,
          up_status = (if list_all (\<lambda>n. n = 0) (chunk_counts layout)
                       then ''artifact_uploaded'' else ''created''),
          up_snapshot_id = None, up_created_at = now_text, up_completed_at = None,
          up_chunk_size_bytes = chunk_size, up_chunk_count = chunks,
          up_declared_stored_size_bytes = stored_size,
          up_declared_original_size_bytes = original_size, up_expires_at = expires_at,
          up_artifact_count = artifact_count, up_total_stored_size_bytes = stored_total,
          up_total_original_size_bytes = original_total, up_transfer_bytes = 0,
          up_newly_persisted_bytes = 0\<rparr>)))))))))"

definition capture_matches :: "string \<Rightarrow> string \<Rightarrow> string \<Rightarrow> upload_row \<Rightarrow> bool" where
  "capture_matches own client_id cid r =
     (up_owner_namespace r = own \<and> up_client_id r = client_id \<and> up_capture_id r = cid)"

text \<open>The result is the identifier of the upload and whether this request created it.\<close>

definition persist_upload ::
  "server \<Rightarrow> env \<Rightarrow> string \<Rightarrow> string \<Rightarrow> manifest \<Rightarrow> string \<Rightarrow> string \<Rightarrow> upload_layout
     \<Rightarrow> string \<Rightarrow> string \<Rightarrow> database \<Rightarrow> ((string \<times> bool) \<times> database) result" where
  "persist_upload srv e client_id cid m canonical_json manifest_sha layout now_text expires_at d =
     and_then (get_or_create_session srv e client_id m now_text d) (\<lambda>(session_id, d1).
     and_then (ensure_terminal_capture_reuse_is_equivalent (ext srv) (owner srv) client_id cid m
       manifest_sha d1) (\<lambda>_.
     and_then (new_upload_row srv e session_id client_id cid m manifest_sha layout now_text
       expires_at) (\<lambda>row.
     case find (capture_matches (owner srv) client_id cid) (db_uploads d1) of
       None \<Rightarrow>
         and_then (insert_row (\<lambda>r r'. up_id r = up_id r') row (db_uploads d1)) (\<lambda>uploads.
         and_then (persist_new_upload_detail e (up_id row) m canonical_json manifest_sha layout
           now_text (d1\<lparr>db_uploads := uploads\<rparr>)) (\<lambda>d2.
         commit (\<lambda>_. database_error) e Commit_Upload ((up_id row, True), d2)))
     | Some existing \<Rightarrow>
         and_then
           (if up_manifest_sha256 existing \<noteq> manifest_sha
            then and_then (legacy_manifest_equivalent (ext srv) (up_id existing) manifest_sha d1)
              (\<lambda>same. reject_if (\<not> same) (conflict ''capture_id_conflict''
                ''capture identifier was already used for a different manifest''))
            else Inr ()) (\<lambda>_.
         commit (\<lambda>_. database_error) e Commit_Upload ((up_id existing, False), d1)))))"

section \<open>Terminating an upload\<close>

datatype terminal_reason = Reason_Abandoned | Reason_Expired

fun terminal_reason_as_str :: "terminal_reason \<Rightarrow> string" where
  "terminal_reason_as_str Reason_Abandoned = ''abandoned''"
| "terminal_reason_as_str Reason_Expired = ''expired''"

fun terminal_reason_error_code :: "terminal_reason \<Rightarrow> string" where
  "terminal_reason_error_code Reason_Abandoned = ''upload_abandoned''"
| "terminal_reason_error_code Reason_Expired = ''upload_expired''"

definition upload_audit_of :: "upload_row \<Rightarrow> terminal_reason \<Rightarrow> string \<Rightarrow> upload_audit_row" where
  "upload_audit_of upload reason terminal_at =
     \<lparr>au_upload_id = up_id upload, au_owner_namespace = up_owner_namespace upload,
      au_client_id = up_client_id upload, au_capture_id = up_capture_id upload,
      au_session_id = up_session_id upload,
      au_declared_original_size_bytes = up_declared_original_size_bytes upload,
      au_declared_stored_size_bytes = up_declared_stored_size_bytes upload,
      au_chunk_size_bytes = up_chunk_size_bytes upload, au_chunk_count = up_chunk_count upload,
      au_created_at = up_created_at upload, au_terminal_at = terminal_at,
      au_terminal_reason = terminal_reason_as_str reason,
      au_error_code = terminal_reason_error_code reason,
      au_artifact_count = up_artifact_count upload,
      au_total_original_size_bytes = up_total_original_size_bytes upload,
      au_total_stored_size_bytes = up_total_stored_size_bytes upload,
      au_manifest_sha256 = Some (up_manifest_sha256 upload)\<rparr>"

text \<open>A row that a completed capture or a snapshot refers to cannot be deleted: the foreign keys of
  \<open>captures\<close> and \<open>snapshots\<close> reject the statement.\<close>

definition upload_referenced :: "database \<Rightarrow> string \<Rightarrow> bool" where
  "upload_referenced d upload_id =
     (list_ex (\<lambda>c. cp_upload_id c = upload_id) (db_captures d)
       \<or> list_ex (\<lambda>m. mf_upload_id m = upload_id
            \<and> (list_ex (\<lambda>s. sn_manifest_id s = mf_id m) (db_snapshots d)
               \<or> list_ex (\<lambda>c. cp_manifest_id c = mf_id m) (db_captures d))) (db_manifests d))"

text \<open>The deletes of a termination; the artifact rows go with the upload (\<open>ON DELETE CASCADE\<close>).\<close>

definition delete_upload_detail :: "string \<Rightarrow> database \<Rightarrow> database" where
  "delete_upload_detail upload_id d =
     d\<lparr>db_upload_chunks := delete_where (\<lambda>r. uc_upload_id r = upload_id) (db_upload_chunks d),
       db_manifests := delete_where (\<lambda>r. mf_upload_id r = upload_id) (db_manifests d),
       db_upload_artifacts :=
         delete_where (\<lambda>r. ua_upload_id r = upload_id) (db_upload_artifacts d),
       db_uploads := delete_where (\<lambda>r. up_id r = upload_id) (db_uploads d)\<rparr>"

text \<open>The transaction returns whether there was an upload to terminate.\<close>

definition terminalize_transaction ::
  "env \<Rightarrow> upload_row \<Rightarrow> terminal_reason \<Rightarrow> string \<Rightarrow> database \<Rightarrow> (bool \<times> database) result" where
  "terminalize_transaction e upload reason terminal_at d =
     (case get_active_upload d (up_id upload) of
        None \<Rightarrow> commit (\<lambda>_. database_error) e (Commit_Terminal (up_id upload)) (False, d)
      | Some current \<Rightarrow>
          if up_status current = ''completed''
          then Inl (conflict ''upload_completed'' ''completed uploads cannot be abandoned'')
          else if upload_referenced d (up_id upload) then Inl database_error
          else commit (\<lambda>_. database_error) e (Commit_Terminal (up_id upload))
            (True, delete_upload_detail (up_id upload)
              (d\<lparr>db_upload_audits := snd (insert_or_ignore
                 (\<lambda>r r'. au_upload_id r = au_upload_id r')
                 (upload_audit_of upload reason terminal_at) (db_upload_audits d))\<rparr>)))"

definition remove_upload_dir_op :: "env \<Rightarrow> string \<Rightarrow> (archive, unit) op" where
  "remove_upload_dir_op e upload_id =
     (if io_fails e Remove_Upload_Dir then pure_op (Inl storage)
      else modify_op (\<lambda>s. s\<lparr>fs := remove_upload_dir upload_id (fs s)\<rparr>))"

definition terminalize_upload_locked ::
  "server \<Rightarrow> env \<Rightarrow> upload_row \<Rightarrow> terminal_reason \<Rightarrow> (archive, unit) op" where
  "terminalize_upload_locked srv e upload reason =
     try_op (ok_or internal (format_time (ext srv) (commit_now e))) (\<lambda>terminal_at.
     bind_op (transact (terminalize_transaction e upload reason terminal_at)) (\<lambda>existed.
     if existed then remove_upload_dir_op e (up_id upload) else pure_op (Inr ())))"

definition is_expired :: "externals \<Rightarrow> upload_row \<Rightarrow> offset_date_time \<Rightarrow> bool result" where
  "is_expired x upload t =
     and_then (ok_or database_error (parse_rfc3339 x (up_expires_at upload))) (\<lambda>expires_at.
     Inr (unix_timestamp_nanos expires_at \<le> unix_timestamp_nanos t))"

definition require_active_upload :: "server \<Rightarrow> env \<Rightarrow> string \<Rightarrow> (archive, upload_row) op" where
  "require_active_upload srv e upload_id =
     bind_op (query (\<lambda>d. ok_or (not_found ''upload_not_found'' ''upload was not found'')
       (get_active_upload d upload_id))) (\<lambda>upload.
     if up_status upload = ''completed'' then pure_op (Inr upload)
     else try_op (is_expired (ext srv) upload (now e)) (\<lambda>expired.
       if expired
       then bind_op (terminalize_upload_locked srv e upload Reason_Expired) (\<lambda>_.
         pure_op (Inl (conflict ''upload_expired''
           ''upload expired before this request could be accepted'')))
       else pure_op (Inr upload)))"

section \<open>The expiry sweep\<close>

datatype maintenance_error = Maintenance_Clock | Maintenance_Operation

text \<open>The candidates are selected by the text of the deadline, as the statement
  \<open>expires_at <= ?1\<close> does.\<close>

definition expiry_candidates :: "string \<Rightarrow> database \<Rightarrow> string list" where
  "expiry_candidates now_text d =
     map up_id (filter (\<lambda>r. (up_status r = ''created'' \<or> up_status r = ''artifact_uploaded'')
       \<and> up_expires_at r \<le> now_text) (db_uploads d))"

fun expire_each ::
  "server \<Rightarrow> env \<Rightarrow> offset_date_time \<Rightarrow> string list \<Rightarrow> nat \<Rightarrow> archive
     \<Rightarrow> (maintenance_error + nat) \<times> archive" where
  "expire_each srv e t [] expired s = (Inr expired, s)"
| "expire_each srv e t (upload_id # ids) expired s =
     (case get_active_upload (db s) upload_id of
        None \<Rightarrow> expire_each srv e t ids expired s
      | Some upload \<Rightarrow>
          if up_status upload = ''completed'' then expire_each srv e t ids expired s
          else (case is_expired (ext srv) upload t of
              Inl _ \<Rightarrow> (Inl Maintenance_Operation, s)
            | Inr False \<Rightarrow> expire_each srv e t ids expired s
            | Inr True \<Rightarrow>
                (case terminalize_upload_locked srv e upload Reason_Expired s of
                   (Inl _, s') \<Rightarrow> (Inl Maintenance_Operation, s')
                 | (Inr _, s') \<Rightarrow> expire_each srv e t ids (expired + 1) s')))"

definition expire_uploads_at ::
  "server \<Rightarrow> env \<Rightarrow> offset_date_time \<Rightarrow> archive \<Rightarrow> (maintenance_error + nat) \<times> archive" where
  "expire_uploads_at srv e t s =
     (case format_time (ext srv) t of
        None \<Rightarrow> (Inl Maintenance_Clock, s)
      | Some now_text \<Rightarrow> expire_each srv e t (expiry_candidates now_text (db s)) 0 s)"

text \<open>The sweep as a step of a request: any failure is the internal error.\<close>

definition expire_uploads_op :: "server \<Rightarrow> env \<Rightarrow> offset_date_time \<Rightarrow> (archive, nat) op" where
  "expire_uploads_op srv e t = (\<lambda>s. case expire_uploads_at srv e t s of
     (Inl _, s') \<Rightarrow> (Inl internal, s') | (Inr n, s') \<Rightarrow> (Inr n, s'))"

section \<open>Status documents\<close>

definition upload_status_of :: "string \<Rightarrow> upload_status result" where
  "upload_status_of status =
     (if status = ''created'' then Inr Created
      else if status = ''artifact_uploaded'' then Inr ArtifactUploaded
      else if status = ''completed'' then Inr Completed
      else Inl internal)"

definition upload_artifact_statuses ::
  "database \<Rightarrow> upload_row \<Rightarrow> upload_artifact_status list result" where
  "upload_artifact_statuses d upload =
     try_map (\<lambda>a. upload_artifact_status_of (up_id upload) a
                 (chunk_rows d (up_id upload) (ua_artifact_index a)))
       (get_upload_artifacts d (up_id upload))"

definition upload_url :: "string \<Rightarrow> string \<Rightarrow> string" where
  "upload_url upload_id tail = ''/api/v1/uploads/'' @ upload_id @ tail"

definition active_upload_response :: "string \<Rightarrow> database \<Rightarrow> upload_response result" where
  "active_upload_response upload_id d =
     and_then (ok_or (not_found ''upload_not_found'' ''upload was not found'')
       (get_active_upload d upload_id)) (\<lambda>upload.
     and_then (upload_artifact_statuses d upload) (\<lambda>statuses.
     and_then (upload_status_of (up_status upload)) (\<lambda>status.
     and_then (ok_or internal (u64_try_from (up_chunk_size_bytes upload))) (\<lambda>chunk_size.
     Inr \<lparr>ur_upload_id = up_id upload, ur_capture_id = up_capture_id upload,
          ur_session_id = up_session_id upload, ur_status = status,
          ur_manifest_sha256 = digest_document_value (up_manifest_sha256 upload),
          ur_chunk_size_bytes = chunk_size, ur_artifacts = statuses,
          ur_artifact_upload_url = upload_url upload_id ''/artifacts/0/chunks/0'',
          ur_status_url = upload_url upload_id [],
          ur_abandon_url = upload_url upload_id ''/abandon'',
          ur_completion_url = upload_url upload_id ''/complete'',
          ur_capture_url = upload_url upload_id ''/capture''\<rparr>))))"

definition active_upload_status_response ::
  "upload_row \<Rightarrow> database \<Rightarrow> upload_status_response result" where
  "active_upload_status_response upload d =
     and_then (upload_artifact_statuses d upload) (\<lambda>statuses.
     and_then (upload_status_of (up_status upload)) (\<lambda>status.
     and_then (ok_or internal (u64_try_from (up_chunk_size_bytes upload))) (\<lambda>chunk_size.
     Inr \<lparr>us_upload_id = up_id upload, us_capture_id = up_capture_id upload,
          us_session_id = up_session_id upload, us_status = status,
          us_manifest_sha256 = Some (digest_document_value (up_manifest_sha256 upload)),
          us_chunk_size_bytes = chunk_size, us_artifacts = statuses,
          us_status_url = upload_url (up_id upload) [],
          us_abandon_url = upload_url (up_id upload) ''/abandon'',
          us_completion_url = upload_url (up_id upload) ''/complete'',
          us_capture_url = upload_url (up_id upload) ''/capture''\<rparr>)))"

definition audit_upload_response :: "string \<Rightarrow> database \<Rightarrow> upload_status_response result" where
  "audit_upload_response upload_id d =
     and_then (ok_or (not_found ''upload_not_found'' ''upload was not found'')
       (find (\<lambda>a. au_upload_id a = upload_id) (db_upload_audits d))) (\<lambda>audit.
     and_then
       (if au_terminal_reason audit = ''abandoned'' then Inr Abandoned
        else if au_terminal_reason audit = ''expired'' then Inr Expired
        else Inl internal) (\<lambda>status.
     and_then (ok_or internal (u64_try_from (au_chunk_size_bytes audit))) (\<lambda>chunk_size.
     Inr \<lparr>us_upload_id = au_upload_id audit, us_capture_id = au_capture_id audit,
          us_session_id = au_session_id audit, us_status = status,
          us_manifest_sha256 = None, us_chunk_size_bytes = chunk_size, us_artifacts = [],
          us_status_url = upload_url upload_id [],
          us_abandon_url = upload_url upload_id ''/abandon'',
          us_completion_url = upload_url upload_id ''/complete'',
          us_capture_url = upload_url upload_id ''/capture''\<rparr>)))"

section \<open>Request handlers\<close>

definition create_upload ::
  "server \<Rightarrow> env \<Rightarrow> 'r + create_upload_request \<Rightarrow> (archive, nat \<times> upload_response) op" where
  "create_upload srv e payload =
     try_op (parse_json payload) (\<lambda>request.
     try_op (parse_uuid (ext srv) (cur_client_id request) ''client identifier is not a UUID'')
       (\<lambda>client_id.
     try_op (capture_id request) (\<lambda>cid.
     try_op (normalize_manifest (ext srv) (cur_manifest request) (srv_limits srv)) (\<lambda>m.
     try_op (upload_layout_of m (srv_chunk_size_bytes srv)) (\<lambda>layout.
     try_op (ok_or internal (manifest_to_json (ext srv) m)) (\<lambda>canonical_json.
     let manifest_sha = sha256_hex (ext srv) (string_bytes canonical_json) in
     try_op (ok_or internal (format_time (ext srv) (now e))) (\<lambda>now_text.
     try_op (ok_or internal (expiration_at (ext srv) (now e) (srv_upload_expiry srv))) (\<lambda>expires_at.
     bind_op (expire_uploads_op srv e (now e)) (\<lambda>_.
     bind_op (transact (persist_upload srv e client_id cid m canonical_json manifest_sha layout
       now_text expires_at)) (\<lambda>(upload_id, was_created).
     bind_op (query (active_upload_response upload_id)) (\<lambda>response.
     pure_op (Inr (if was_created then 201 else 200, response)))))))))))))"

definition get_upload_status ::
  "server \<Rightarrow> env \<Rightarrow> string \<Rightarrow> (archive, upload_status_response) op" where
  "get_upload_status srv e path =
     try_op (parse_uuid (ext srv) path ''upload identifier is not a UUID'') (\<lambda>upload_id.
     read_op (\<lambda>s. case get_active_upload (db s) upload_id of
       None \<Rightarrow> query (audit_upload_response upload_id)
     | Some upload \<Rightarrow>
         if up_status upload = ''completed'' then query (active_upload_status_response upload)
         else try_op (is_expired (ext srv) upload (now e)) (\<lambda>expired.
           if expired
           then bind_op (terminalize_upload_locked srv e upload Reason_Expired) (\<lambda>_.
             query (audit_upload_response upload_id))
           else query (active_upload_status_response upload))))"

definition abandon_upload ::
  "server \<Rightarrow> env \<Rightarrow> string \<Rightarrow> (archive, upload_status_response) op" where
  "abandon_upload srv e path =
     try_op (parse_uuid (ext srv) path ''upload identifier is not a UUID'') (\<lambda>upload_id.
     bind_op
       (read_op (\<lambda>s. case get_active_upload (db s) upload_id of
          None \<Rightarrow> pure_op (Inr ())
        | Some upload \<Rightarrow>
            if up_status upload = ''completed''
            then pure_op (Inl (conflict ''upload_completed''
              ''completed uploads cannot be abandoned''))
            else try_op (is_expired (ext srv) upload (now e)) (\<lambda>expired.
              terminalize_upload_locked srv e upload
                (if expired then Reason_Expired else Reason_Abandoned)))) (\<lambda>_.
     query (audit_upload_response upload_id)))"

section \<open>The sweep\<close>

text \<open>The sweep preserves what terminating one upload preserves.\<close>

lemma expire_each_preserves:
  assumes "\<And>u. preserves I (terminalize_upload_locked srv e u Reason_Expired)"
  shows "I s \<Longrightarrow> I (snd (expire_each srv e t ids n s))"
proof (induction ids arbitrary: n s)
  case (Cons uid ids)
  show ?case
  proof (cases "get_active_upload (db s) uid")
    case None
    with Cons show ?thesis by simp
  next
    case (Some u)
    have "I (snd (terminalize_upload_locked srv e u Reason_Expired s))"
      using assms Cons.prems by (simp add: preserves_def)
    with Some Cons show ?thesis
      by (auto split: sum.splits bool.splits prod.splits)
  qed
qed simp

lemma expire_uploads_preserves:
  assumes "\<And>u. preserves I (terminalize_upload_locked srv e u Reason_Expired)"
  shows "preserves I (expire_uploads_op srv e t)"
proof -
  have "snd (expire_uploads_op srv e t s) = snd (expire_uploads_at srv e t s)" for s
    by (auto simp: expire_uploads_op_def split: prod.splits sum.splits)
  with expire_each_preserves [of I srv e, OF assms] show ?thesis
    by (auto simp: preserves_def expire_uploads_at_def split: option.splits)
qed

end
