(* ===== verification/Chunk_Uploads.thy ===== *)
theory Chunk_Uploads
  imports Uploads
begin

text \<open>
  Accepting a chunk, \<open>put_artifact_chunk\<close> of \<open>ingestion.rs\<close>: the headers, the body written to a
  staged file, the link to its final name, the metadata row, and the refresh of the upload's
  status. Files precede metadata: a row is only written when the bytes it describes are there.
\<close>

section \<open>Requests\<close>

text \<open>A header is absent, readable text, or not valid text. The body arrives in frames.\<close>

datatype header_value = Text string | Opaque

record chunk_headers =
  hd_content_type :: "header_value option"
  hd_chunk_sha256 :: "header_value option"
  hd_chunk_length :: "header_value option"

datatype body_frame = Data bytes | Trailers | Frame_Error

record chunk_request =
  rq_byte_length :: nat
  rq_sha256 :: string

definition parse_artifact_index :: "string \<Rightarrow> nat result" where
  "parse_artifact_index value =
     ok_or (invalid ''artifact index is not a non-negative integer'') (parse_unsigned u32_max value)"

definition parse_chunk_index :: "string \<Rightarrow> nat result" where
  "parse_chunk_index value =
     ok_or (invalid ''chunk index is not a non-negative integer'') (parse_unsigned u64_max value)"

definition header_text :: "header_value option \<Rightarrow> string option" where
  "header_text h = (case h of Some (Text t) \<Rightarrow> Some t | _ \<Rightarrow> None)"

definition optional_header :: "header_value option \<Rightarrow> string option result" where
  "optional_header h =
     (case h of
        None \<Rightarrow> Inr None
      | Some (Text t) \<Rightarrow> Inr (Some t)
      | Some Opaque \<Rightarrow> Inl (invalid ''chunk headers must be valid text''))"

definition parse_chunk_headers :: "chunk_headers \<Rightarrow> chunk_request option result" where
  "parse_chunk_headers h =
     and_then (optional_header (hd_chunk_sha256 h)) (\<lambda>sha.
     and_then (optional_header (hd_chunk_length h)) (\<lambda>len.
     case (sha, len) of
       (None, None) \<Rightarrow> Inr None
     | (Some digest, Some text) \<Rightarrow>
         and_then (validate_digest digest) (\<lambda>_.
         and_then (ok_or (invalid ''chunk length header must be a non-negative integer'')
           (parse_unsigned u64_max text)) (\<lambda>byte_length.
         Inr (Some \<lparr>rq_byte_length = byte_length, rq_sha256 = digest\<rparr>)))
     | _ \<Rightarrow> Inl (invalid ''chunk checksum and length headers must be supplied together'')))"

definition legacy_single_chunk_request ::
  "upload_row \<Rightarrow> upload_artifact_row \<Rightarrow> nat \<Rightarrow> nat \<Rightarrow> chunk_request result" where
  "legacy_single_chunk_request upload a artifact_index chunk_index =
     (if up_artifact_count upload \<noteq> 1 \<or> artifact_index \<noteq> 0 \<or> ua_chunk_count a \<noteq> 1
         \<or> chunk_index \<noteq> 0
      then Inl (invalid ''chunk checksum and length headers are required'')
      else and_then (ok_or internal (u64_try_from (ua_stored_size_bytes a))) (\<lambda>byte_length.
        Inr \<lparr>rq_byte_length = byte_length,
             rq_sha256 = digest_document_value (ua_stored_sha256 a)\<rparr>))"

section \<open>Writing the body\<close>

fun write_frames :: "nat \<Rightarrow> nat \<times> bytes \<Rightarrow> body_frame list \<Rightarrow> (nat \<times> bytes) result" where
  "write_frames declared (sz, written) [] = Inr (sz, written)"
| "write_frames declared (sz, written) (Frame_Error # frames) =
     Inl (invalid ''chunk request body could not be read'')"
| "write_frames declared (sz, written) (Trailers # frames) =
     write_frames declared (sz, written) frames"
| "write_frames declared (sz, written) (Data bs # frames) =
     and_then (ok_or (invalid ''chunk size is invalid'') (checked_add sz (length bs))) (\<lambda>sz'.
     and_then (reject_if (sz' > declared)
       (invalid ''chunk body exceeds its declared negotiated length'')) (\<lambda>_.
     write_frames declared (sz', written @ bs) frames))"

text \<open>The bytes of the staged file, when it could be written and matches its headers.\<close>

definition write_chunk_body ::
  "server \<Rightarrow> env \<Rightarrow> body_frame list \<Rightarrow> chunk_request \<Rightarrow> bytes result" where
  "write_chunk_body srv e body expected =
     and_then (reject_if (io_fails e Write_Staged) storage) (\<lambda>_.
     and_then (write_frames (rq_byte_length expected) (0, []) body) (\<lambda>(sz, written).
     and_then (reject_if (sz \<noteq> rq_byte_length expected
         \<or> sha256_hex (ext srv) written \<noteq> digest_storage_value (rq_sha256 expected))
       (invalid ''chunk body length or checksum does not match its headers'')) (\<lambda>_.
     Inr written)))"

definition chunk_conflict :: api_error where
  "chunk_conflict = conflict ''chunk_conflict''
     ''this chunk index was already accepted with a different length or checksum''"

text \<open>\<open>store_chunk_file\<close>: the staged file is linked to its final name. When the name is taken, the
  file there must hold the declared bytes. A link whose directory cannot be synced is removed;
  that the removal fails is ignored.\<close>

definition store_chunk_file ::
  "server \<Rightarrow> env \<Rightarrow> string \<Rightarrow> nat \<Rightarrow> nat \<Rightarrow> body_frame list \<Rightarrow> chunk_request
     \<Rightarrow> (archive, unit) op" where
  "store_chunk_file srv e upload_id artifact_index chunk_index body request =
     try_op (write_chunk_body srv e body request) (\<lambda>written.
     read_op (\<lambda>s. case chunk_file (fs s) upload_id artifact_index chunk_index of
       None \<Rightarrow>
         if io_fails e Link_Final then pure_op (Inl storage)
         else if io_fails e Sync_Directory
         then bind_op (modify_op (\<lambda>s. s\<lparr>fs := (if io_fails e Remove_Linked then id
               else unlink_chunk_file upload_id artifact_index chunk_index)
             (link_chunk_file upload_id artifact_index chunk_index written (fs s))\<rparr>)) (\<lambda>_.
           pure_op (Inl storage))
         else modify_op (\<lambda>s. s\<lparr>fs :=
           link_chunk_file upload_id artifact_index chunk_index written (fs s)\<rparr>)
     | Some present \<Rightarrow>
         if is_ok (verify_stored_file (ext srv) (Some present) (rq_byte_length request)
              (rq_sha256 request))
         then pure_op (Inr ()) else pure_op (Inl chunk_conflict)))"

section \<open>The metadata row\<close>

definition insert_chunk_row :: "chunk_row \<Rightarrow> chunk_row list \<Rightarrow> bool \<times> chunk_row list" where
  "insert_chunk_row = insert_or_ignore
     (\<lambda>r r'. uc_upload_id r = uc_upload_id r' \<and> uc_artifact_index r = uc_artifact_index r'
        \<and> uc_chunk_index r = uc_chunk_index r')"

definition persist_chunk_record ::
  "env \<Rightarrow> upload_row \<Rightarrow> nat \<Rightarrow> nat \<Rightarrow> nat \<Rightarrow> string \<Rightarrow> string \<Rightarrow> database
     \<Rightarrow> (unit \<times> database) result" where
  "persist_chunk_record e upload artifact_index chunk_index byte_length sha accepted_at d =
     (case get_active_upload d (up_id upload) of
        Some current \<Rightarrow>
          if up_status current = ''created'' \<or> up_status current = ''artifact_uploaded''
          then
            and_then (to_sqlite_i64 chunk_index) (\<lambda>ci.
            and_then (to_sqlite_i64 byte_length) (\<lambda>len.
            case insert_chunk_row
                \<lparr>uc_upload_id = up_id upload, uc_artifact_index = int artifact_index,
                 uc_chunk_index = ci, uc_byte_length = len,
                 uc_sha256 = digest_storage_value sha, uc_accepted_at = accepted_at\<rparr>
                (db_upload_chunks d) of
              (True, table) \<Rightarrow> commit classify_database_error e Commit_Chunk ((), d\<lparr>db_upload_chunks := table\<rparr>)
            | (False, _) \<Rightarrow>
                and_then (fetch_one (\<lambda>r. uc_upload_id r = up_id upload
                    \<and> uc_artifact_index r = int artifact_index \<and> uc_chunk_index r = ci)
                  (db_upload_chunks d)) (\<lambda>existing.
                and_then (reject_if (uc_byte_length existing \<noteq> len
                    \<or> uc_sha256 existing \<noteq> digest_storage_value sha) chunk_conflict) (\<lambda>_.
                commit classify_database_error e Commit_Chunk ((), d)))))
          else Inl (conflict ''upload_state_conflict''
            ''upload state changed while the chunk was submitted'')
      | None \<Rightarrow> Inl (conflict ''upload_state_conflict''
          ''upload state changed while the chunk was submitted''))"

section \<open>Completeness of an upload\<close>

text \<open>\<open>SELECT COUNT(*), MIN(chunk_index), MAX(chunk_index)\<close>; the extremes of no rows are NULL.\<close>

definition min_index :: "int list \<Rightarrow> int option" where
  "min_index xs = (case xs of [] \<Rightarrow> None | x # ys \<Rightarrow> Some (fold min ys x))"

definition max_index :: "int list \<Rightarrow> int option" where
  "max_index xs = (case xs of [] \<Rightarrow> None | x # ys \<Rightarrow> Some (fold max ys x))"

definition artifact_is_complete :: "int \<Rightarrow> int list \<Rightarrow> bool" where
  "artifact_is_complete n indexes =
     (\<not> (int (length indexes) \<noteq> n
        \<or> (n = 0 \<and> (min_index indexes \<noteq> None \<or> max_index indexes \<noteq> None))
        \<or> (n > 0 \<and> (min_index indexes \<noteq> Some 0 \<or> max_index indexes \<noteq> Some (n - 1)))))"

definition upload_is_complete :: "string \<Rightarrow> database \<Rightarrow> bool result" where
  "upload_is_complete upload_id d =
     (let as = get_upload_artifacts d upload_id in
      if as = [] then Inl database_error
      else Inr (list_all (\<lambda>a. artifact_is_complete (ua_chunk_count a)
        (map uc_chunk_index (chunk_rows d upload_id (ua_artifact_index a)))) as))"

definition refresh_upload_status :: "env \<Rightarrow> upload_row \<Rightarrow> database \<Rightarrow> (unit \<times> database) result" where
  "refresh_upload_status e upload d =
     and_then (upload_is_complete (up_id upload) d) (\<lambda>complete.
     commit (\<lambda>_. database_error) e Commit_Status ((), d\<lparr>db_uploads :=
       update_where (\<lambda>r. up_id r = up_id upload
           \<and> (up_status r = ''created'' \<or> up_status r = ''artifact_uploaded''))
         (\<lambda>r. r\<lparr>up_status := if complete then ''artifact_uploaded'' else ''created''\<rparr>)
         (db_uploads d)\<rparr>))"

section \<open>The request handler\<close>

text \<open>The second half of the request, for a chunk index that has no row yet. The staged file is
  removed when the row has been decided; a failure to remove it is reported only when the row was
  accepted.\<close>

definition accept_new_chunk ::
  "server \<Rightarrow> env \<Rightarrow> upload_row \<Rightarrow> upload_artifact_row \<Rightarrow> nat \<Rightarrow> nat \<Rightarrow> body_frame list
     \<Rightarrow> chunk_request \<Rightarrow> (archive, nat) op" where
  "accept_new_chunk srv e upload a artifact_index chunk_index body request =
     try_op (expected_chunk_length upload a chunk_index) (\<lambda>expected_length.
     try_op (reject_if (rq_byte_length request \<noteq> expected_length)
       (invalid ''chunk length does not match the negotiated chunk layout'')) (\<lambda>_.
     bind_op (store_chunk_file srv e (up_id upload) artifact_index chunk_index body request) (\<lambda>_.
     try_op (ok_or internal (format_time (ext srv) (now e))) (\<lambda>now_text.
     bind_op (transact (persist_chunk_record e upload artifact_index chunk_index
       (rq_byte_length request) (rq_sha256 request) now_text)) (\<lambda>_.
     try_op (reject_if (io_fails e Remove_Staged) storage) (\<lambda>_.
     bind_op (transact (refresh_upload_status e upload)) (\<lambda>_.
     pure_op (Inr 204))))))))"

definition repeat_chunk ::
  "server \<Rightarrow> upload_row \<Rightarrow> nat \<Rightarrow> nat \<Rightarrow> chunk_request \<Rightarrow> chunk_row \<Rightarrow> (archive, nat) op" where
  "repeat_chunk srv upload artifact_index chunk_index request existing =
     try_op (to_sqlite_i64 (rq_byte_length request)) (\<lambda>len.
     try_op (reject_if (uc_byte_length existing \<noteq> len
         \<or> uc_sha256 existing \<noteq> digest_storage_value (rq_sha256 request)) chunk_conflict) (\<lambda>_.
     read_op (\<lambda>s. try_op (verify_stored_file (ext srv)
         (chunk_file (fs s) (up_id upload) artifact_index chunk_index)
         (rq_byte_length request) (rq_sha256 request)) (\<lambda>_.
       pure_op (Inr 204)))))"

definition put_artifact_chunk ::
  "server \<Rightarrow> env \<Rightarrow> string \<Rightarrow> string \<Rightarrow> string \<Rightarrow> chunk_headers \<Rightarrow> body_frame list
     \<Rightarrow> (archive, nat) op" where
  "put_artifact_chunk srv e upload_path artifact_path chunk_path headers body =
     try_op (parse_uuid (ext srv) upload_path ''upload identifier is not a UUID'') (\<lambda>upload_id.
     try_op (parse_artifact_index artifact_path) (\<lambda>artifact_index.
     try_op (parse_chunk_index chunk_path) (\<lambda>chunk_index.
     try_op (validate_octet_stream (header_text (hd_content_type headers))) (\<lambda>_.
     bind_op (require_active_upload srv e upload_id) (\<lambda>upload.
     try_op (reject_if (up_status upload = ''completed'')
       (conflict ''upload_completed'' ''completed uploads do not accept artifact bytes'')) (\<lambda>_.
     bind_op (query (\<lambda>d. ok_or
       (invalid ''artifact index is outside the negotiated artifact range'')
       (get_upload_artifact d upload_id artifact_index))) (\<lambda>a.
     try_op (parse_chunk_headers headers) (\<lambda>parsed.
     try_op (case parsed of
         Some request \<Rightarrow> Inr request
       | None \<Rightarrow> legacy_single_chunk_request upload a artifact_index chunk_index) (\<lambda>request.
     bind_op (query (\<lambda>d. get_chunk d upload_id artifact_index chunk_index)) (\<lambda>existing.
     case existing of
       Some row \<Rightarrow> repeat_chunk srv upload artifact_index chunk_index request row
     | None \<Rightarrow>
         accept_new_chunk srv e upload a artifact_index chunk_index body request))))))))))"

section \<open>What an accepted row is\<close>

definition chunk_row_of :: "upload_row \<Rightarrow> nat \<Rightarrow> nat \<Rightarrow> nat \<Rightarrow> string \<Rightarrow> string \<Rightarrow> chunk_row" where
  "chunk_row_of upload artifact_index chunk_index byte_length sha accepted_at =
     \<lparr>uc_upload_id = up_id upload, uc_artifact_index = int artifact_index,
      uc_chunk_index = int chunk_index, uc_byte_length = int byte_length,
      uc_sha256 = digest_storage_value sha, uc_accepted_at = accepted_at\<rparr>"

definition chunk_key_of :: "chunk_row \<Rightarrow> string \<times> int \<times> int" where
  "chunk_key_of r = (uc_upload_id r, uc_artifact_index r, uc_chunk_index r)"

lemma insert_chunk_row_eq:
  "insert_chunk_row r t =
     (if chunk_key_of r \<in> chunk_key_of ` set t then (False, t) else (True, t @ [r]))"
proof -
  have "list_ex (\<lambda>r'. uc_upload_id r = uc_upload_id r' \<and> uc_artifact_index r = uc_artifact_index r'
      \<and> uc_chunk_index r = uc_chunk_index r') t \<longleftrightarrow> chunk_key_of r \<in> chunk_key_of ` set t"
    by (force simp: list_ex_iff chunk_key_of_def)
  then show ?thesis by (simp add: insert_chunk_row_def insert_or_ignore_def)
qed

lemma persist_chunk_record_ok:
  assumes "persist_chunk_record e upload ai ci len sha at d = Inr (u, d')"
  obtains current where "get_active_upload d (up_id upload) = Some current"
    "up_status current = ''created'' \<or> up_status current = ''artifact_uploaded''"
    "let row = chunk_row_of upload ai ci len sha at in
       (d' = d\<lparr>db_upload_chunks := db_upload_chunks d @ [row]\<rparr>
          \<and> chunk_key_of row \<notin> chunk_key_of ` set (db_upload_chunks d))
       \<or> (d' = d \<and> (\<exists>r \<in> set (db_upload_chunks d). chunk_key_of r = chunk_key_of row
            \<and> uc_byte_length r = int len \<and> uc_sha256 r = digest_storage_value sha))"
proof -
  let ?row = "chunk_row_of upload ai ci len sha at"
  obtain current where cur: "get_active_upload d (up_id upload) = Some current"
    "up_status current = ''created'' \<or> up_status current = ''artifact_uploaded''"
    using assms by (auto simp: persist_chunk_record_def split: option.splits if_splits)
  have row: "\<lparr>uc_upload_id = up_id upload, uc_artifact_index = int ai, uc_chunk_index = int ci,
      uc_byte_length = int len, uc_sha256 = digest_storage_value sha, uc_accepted_at = at\<rparr> = ?row"
    by (simp add: chunk_row_of_def)
  have body: "(case insert_chunk_row ?row (db_upload_chunks d) of
              (True, table) \<Rightarrow> commit classify_database_error e Commit_Chunk ((), d\<lparr>db_upload_chunks := table\<rparr>)
            | (False, _) \<Rightarrow>
                and_then (fetch_one (\<lambda>r. uc_upload_id r = up_id upload
                    \<and> uc_artifact_index r = int ai \<and> uc_chunk_index r = int ci)
                  (db_upload_chunks d)) (\<lambda>existing.
                and_then (reject_if (uc_byte_length existing \<noteq> int len
                    \<or> uc_sha256 existing \<noteq> digest_storage_value sha) chunk_conflict) (\<lambda>_.
                commit classify_database_error e Commit_Chunk ((), d)))) = Inr (u, d')"
    using assms cur unfolding persist_chunk_record_def
    by (auto simp: and_then_eq_Inr to_sqlite_i64_ok row)
  show thesis
  proof (cases "chunk_key_of ?row \<in> chunk_key_of ` set (db_upload_chunks d)")
    case False
    with body have "d' = d\<lparr>db_upload_chunks := db_upload_chunks d @ [?row]\<rparr>"
      by (simp add: insert_chunk_row_eq commit_eq_Inr)
    with False show thesis
      by (intro that [OF cur]) (simp add: Let_def)
  next
    case True
    with body obtain r where "r \<in> set (db_upload_chunks d)" "chunk_key_of r = chunk_key_of ?row"
      "uc_byte_length r = int len" "uc_sha256 r = digest_storage_value sha" "d' = d"
      by (auto simp: insert_chunk_row_eq commit_eq_Inr and_then_eq_Inr reject_if_eq_Inr
          fetch_one_eq_Inr chunk_key_of_def chunk_row_of_def dest!: find_SomeD)
    then show thesis
      by (intro that [OF cur]) (auto simp: Let_def)
  qed
qed

lemma persist_chunk_record_tables:
  "persist_chunk_record e upload ai ci len sha at d = Inr (u, d') \<Longrightarrow>
     d' = d\<lparr>db_upload_chunks := db_upload_chunks d'\<rparr>"
  by (erule persist_chunk_record_ok) (auto simp: Let_def)

end
