(* ===== verification/Completion.thy ===== *)
theory Completion
  imports Chunk_Uploads
begin

text \<open>
  Completing an upload, \<open>complete_upload\<close> of \<open>ingestion.rs\<close>, in the order of the source: check the
  stored rows against the canonical manifest, assemble every artifact from its chunks and verify
  the stored and the original stream, then either attach the capture to a live snapshot with the
  same fingerprint, or promote the stored streams to content-addressed blobs and record the
  snapshot, its artifacts and the capture in one transaction. The last section is the response
  document of \<open>retrieval.rs\<close>.

  Every stage is a definition of its own on the archive, so that a stage can be applied to a
  state other requests have changed since the previous stage; \<open>complete_upload\<close> composes them the
  way the handler does. An assembled file is private to the request and is a value here.
\<close>

section \<open>Checks against the manifest\<close>

definition validate_current_manifest_limits :: "server \<Rightarrow> manifest \<Rightarrow> unit result" where
  "validate_current_manifest_limits srv m =
     (let limits = srv_limits srv in
      and_then (reject_if (artifacts m = [] \<or> length (artifacts m) > lim_artifact_count limits)
        (invalid ''manifest artifact count exceeds the configured bounded limit'')) (\<lambda>_.
      and_then (manifest_totals m) (\<lambda>(original, stored).
      and_then (reject_if (original > lim_snapshot_original_bytes limits)
        (invalid ''snapshot original size exceeds the configured bounded limit'')) (\<lambda>_.
      and_then (reject_if (stored > lim_snapshot_stored_bytes limits)
        (invalid ''snapshot stored size exceeds the configured bounded limit'')) (\<lambda>_.
      and_then (try_each (\<lambda>a.
          and_then (reject_if (stored_size_bytes a > lim_artifact_stored_bytes limits)
            (invalid ''artifact stored size exceeds the configured bounded limit'')) (\<lambda>_.
          reject_if (original_size_bytes a > lim_artifact_original_bytes limits)
            (invalid ''artifact original size exceeds the configured bounded limit'')))
        (artifacts m)) (\<lambda>_.
      and_then (upload_layout_of m (srv_chunk_size_bytes srv)) (\<lambda>_. Inr ())))))))"

definition projection_error :: api_error where
  "projection_error = conflict ''upload_artifact_projection_invalid''
     ''upload artifact metadata does not match the canonical manifest''"

definition validate_projected_artifact ::
  "nat \<Rightarrow> nat \<times> artifact \<times> upload_artifact_row \<Rightarrow> unit result" where
  "validate_projected_artifact chunk_size = (\<lambda>(index, a, row).
     and_then (reject_if (ua_artifact_index row \<noteq> int index
         \<or> ua_logical_path row \<noteq> logical_path a \<or> ua_media_type row \<noteq> media_type a)
       projection_error) (\<lambda>_.
     and_then (to_sqlite_i64 (original_size_bytes a)) (\<lambda>original_size.
     and_then (reject_if (ua_original_size_bytes row \<noteq> original_size
         \<or> ua_original_sha256 row \<noteq> digest_storage_value (original_sha256 a))
       projection_error) (\<lambda>_.
     and_then (to_sqlite_i64 (stored_size_bytes a)) (\<lambda>stored_size.
     and_then (reject_if (ua_stored_size_bytes row \<noteq> stored_size
         \<or> ua_stored_sha256 row \<noteq> digest_storage_value (stored_sha256 a)
         \<or> ua_compression row \<noteq> compression_name (compression a)) projection_error) (\<lambda>_.
     and_then (chunk_count (stored_size_bytes a) chunk_size) (\<lambda>n.
     and_then (to_sqlite_i64 n) (\<lambda>chunks.
     reject_if (ua_chunk_count row \<noteq> chunks) projection_error))))))))"

definition validate_upload_projection ::
  "manifest \<Rightarrow> upload_artifact_row list \<Rightarrow> upload_row \<Rightarrow> unit result" where
  "validate_upload_projection m rows upload =
     and_then (reject_if (length (artifacts m) \<noteq> length rows
         \<or> int (length rows) \<noteq> up_artifact_count upload) projection_error) (\<lambda>_.
     and_then (ok_or internal (u64_try_from (up_chunk_size_bytes upload))) (\<lambda>chunk_size.
     try_each (validate_projected_artifact chunk_size) (enumerate 0 (zip (artifacts m) rows))))"

section \<open>Assembling and verifying\<close>

definition artifact_incomplete :: "string \<Rightarrow> api_error" where
  "artifact_incomplete message = conflict ''artifact_incomplete'' message"

definition chunk_layout_invalid :: "string \<Rightarrow> api_error" where
  "chunk_layout_invalid message = conflict ''chunk_layout_invalid'' message"

definition check_accepted_row ::
  "upload_row \<Rightarrow> upload_artifact_row \<Rightarrow> nat \<times> chunk_row \<Rightarrow> unit result" where
  "check_accepted_row upload a = (\<lambda>(expected_index, row).
     and_then (ok_or internal (u64_try_from (uc_chunk_index row))) (\<lambda>actual_index.
     and_then (reject_if (actual_index \<noteq> expected_index)
       (artifact_incomplete ''accepted chunks contain a gap or overlap'')) (\<lambda>_.
     and_then (expected_chunk_length upload a actual_index) (\<lambda>expected_length.
     and_then (to_sqlite_i64 expected_length) (\<lambda>len.
     and_then (reject_if (uc_byte_length row \<noteq> len) (chunk_layout_invalid
       ''accepted chunk length does not match the negotiated layout'')) (\<lambda>_.
     reject_if (\<not> is_ok (validate_digest (digest_document_value (uc_sha256 row))))
       (chunk_layout_invalid
         ''accepted chunk checksum does not match the negotiated layout'')))))))"

definition accepted_chunk_layout ::
  "database \<Rightarrow> string \<Rightarrow> upload_artifact_row \<Rightarrow> upload_row \<Rightarrow> chunk_row list result" where
  "accepted_chunk_layout d upload_id a upload =
     (let rows = chunk_rows d upload_id (ua_artifact_index a) in
      and_then (ok_or internal (u64_try_from (ua_chunk_count a))) (\<lambda>expected_count.
      and_then (reject_if (length rows \<noteq> expected_count)
        (artifact_incomplete ''all negotiated chunks must be accepted before completion'')) (\<lambda>_.
      and_then (try_each (check_accepted_row upload a) (enumerate 0 rows)) (\<lambda>_. Inr rows))))"

definition chunk_checksum_error :: api_error where
  "chunk_checksum_error = ApiError 422 ''chunk_checksum_mismatch''
     ''accepted chunk bytes no longer match their checksum or length''"

definition chunk_missing :: api_error where
  "chunk_missing = ApiError 422 ''chunk_missing'' ''an accepted chunk is no longer available''"

definition stored_checksum_mismatch :: "string \<Rightarrow> api_error" where
  "stored_checksum_mismatch message =
     ApiError 422 ''artifact_stored_checksum_mismatch'' message"

text \<open>The copy loop over the reads of one chunk file: the bytes of the chunk, and the bytes of the
  artifact so far.\<close>

fun copy_reads ::
  "nat \<Rightarrow> nat \<Rightarrow> bytes \<times> bytes \<Rightarrow> bytes list \<Rightarrow> (bytes \<times> bytes) result" where
  "copy_reads expected_length stored_size (chunk, written) [] = Inr (chunk, written)"
| "copy_reads expected_length stored_size (chunk, written) (read # reads) =
     and_then (ok_or (invalid ''chunk size is invalid'')
       (checked_add (length chunk) (length read))) (\<lambda>chunk_size.
     and_then (reject_if (chunk_size > expected_length) chunk_checksum_error) (\<lambda>_.
     and_then (ok_or (invalid ''artifact size is invalid'')
       (checked_add (length written) (length read))) (\<lambda>artifact_size.
     and_then (reject_if (artifact_size > stored_size)
       (stored_checksum_mismatch ''assembled artifact exceeds its declared stored size'')) (\<lambda>_.
     copy_reads expected_length stored_size (chunk @ read, written @ read) reads))))"

definition copy_chunk ::
  "externals \<Rightarrow> files \<Rightarrow> string \<Rightarrow> nat \<Rightarrow> nat \<Rightarrow> bytes \<Rightarrow> chunk_row \<Rightarrow> bytes result" where
  "copy_chunk x f upload_id artifact_index stored_size written row =
     and_then (ok_or internal (u64_try_from (uc_byte_length row))) (\<lambda>expected_length.
     and_then (ok_or internal (u64_try_from (uc_chunk_index row))) (\<lambda>chunk_index.
     case chunk_file f upload_id artifact_index chunk_index of
       Some (Regular bs) \<Rightarrow>
         and_then (copy_reads expected_length stored_size ([], written) (buffer_reads bs))
           (\<lambda>(chunk, written').
         and_then (reject_if (length chunk \<noteq> expected_length \<or> sha256_hex x chunk \<noteq> uc_sha256 row)
           chunk_checksum_error) (\<lambda>_.
         Inr written'))
     | _ \<Rightarrow> Inl chunk_missing))"

definition assemble_artifact ::
  "server \<Rightarrow> env \<Rightarrow> archive \<Rightarrow> upload_row \<Rightarrow> upload_artifact_row \<Rightarrow> artifact \<Rightarrow> bytes result" where
  "assemble_artifact srv e s upload row a =
     and_then (accepted_chunk_layout (db s) (up_id upload) row upload) (\<lambda>chunks.
     and_then (reject_if (io_fails e Write_Assembled) storage) (\<lambda>_.
     and_then (ok_or internal (u32_try_from (ua_artifact_index row))) (\<lambda>artifact_index.
     and_then (try_fold (copy_chunk (ext srv) (fs s) (up_id upload) artifact_index
       (stored_size_bytes a)) [] chunks) (\<lambda>assembled.
     and_then (reject_if (length assembled \<noteq> stored_size_bytes a
         \<or> sha256_hex (ext srv) assembled \<noteq> digest_storage_value (stored_sha256 a))
       (stored_checksum_mismatch
         ''assembled artifact stored size or checksum does not match the manifest'')) (\<lambda>_.
     Inr assembled)))))"

record prepared_artifact =
  pr_artifact_index :: nat
  pr_artifact :: artifact
  pr_bytes :: bytes

definition prepare_artifact ::
  "server \<Rightarrow> env \<Rightarrow> archive \<Rightarrow> upload_row \<Rightarrow> artifact \<times> upload_artifact_row
     \<Rightarrow> prepared_artifact result" where
  "prepare_artifact srv e s upload = (\<lambda>(a, row).
     and_then (ok_or internal (u32_try_from (ua_artifact_index row))) (\<lambda>artifact_index.
     and_then (assemble_artifact srv e s upload row a) (\<lambda>assembled.
     and_then (verify_artifact (ext srv) assembled a) (\<lambda>_.
     Inr \<lparr>pr_artifact_index = artifact_index, pr_artifact = a, pr_bytes = assembled\<rparr>))))"

definition prepare_artifacts ::
  "server \<Rightarrow> env \<Rightarrow> archive \<Rightarrow> upload_row \<Rightarrow> manifest \<Rightarrow> upload_artifact_row list
     \<Rightarrow> prepared_artifact list result" where
  "prepare_artifacts srv e s upload m rows =
     try_map (prepare_artifact srv e s upload) (zip (artifacts m) rows)"

section \<open>The snapshot fingerprint\<close>

definition SNAPSHOT_FINGERPRINT_VERSION :: nat where "SNAPSHOT_FINGERPRINT_VERSION = 1"

definition fingerprint_document_of :: "manifest \<Rightarrow> fingerprint_document" where
  "fingerprint_document_of m =
     \<lparr>fd_version = SNAPSHOT_FINGERPRINT_VERSION, fd_schema_version = schema_version m,
      fd_session = session m,
      fd_capture = \<lparr>sc_project = project (capture m), sc_repository = repository (capture m),
        sc_branch = branch (capture m),
        sc_source_agent_version = source_agent_version (capture m),
        sc_artifact_set_version = artifact_set_version (capture m)\<rparr>,
      fd_artifacts = sort_key oa_logical_path (map (\<lambda>a.
        \<lparr>oa_logical_path = logical_path a, oa_original_size_bytes = original_size_bytes a,
         oa_original_sha256 = original_sha256 a\<rparr>) (artifacts m))\<rparr>"

definition snapshot_fingerprint :: "externals \<Rightarrow> manifest \<Rightarrow> string result" where
  "snapshot_fingerprint x m =
     and_then (ok_or internal (fingerprint_to_json x (fingerprint_document_of m))) (\<lambda>json.
     Inr (sha256_hex x (string_bytes json)))"

definition find_snapshot_by_fingerprint :: "string \<Rightarrow> string \<Rightarrow> database \<Rightarrow> string option" where
  "find_snapshot_by_fingerprint session_id fingerprint d =
     map_option sn_id (find (\<lambda>r. sn_session_id r = session_id
       \<and> sn_fingerprint_sha256 r = fingerprint \<and> sn_deleted_at r = None) (db_snapshots d))"

section \<open>Blobs\<close>

definition stored_digest :: "artifact \<Rightarrow> string" where
  "stored_digest a = digest_storage_value (stored_sha256 a)"

text \<open>\<open>BTreeMap::entry(..).or_insert(..)\<close> keeps the first artifact of each digest; the values come
  out in digest order.\<close>

definition unique_stored_artifacts :: "prepared_artifact list \<Rightarrow> prepared_artifact list" where
  "unique_stored_artifacts prepared =
     sort_key (\<lambda>p. stored_digest (pr_artifact p))
       (fold (\<lambda>p acc. if list_ex (\<lambda>q. stored_digest (pr_artifact q) = stored_digest (pr_artifact p)) acc
                     then acc else acc @ [p]) prepared [])"

definition blob_integrity_conflict :: api_error where
  "blob_integrity_conflict = conflict ''blob_integrity_conflict''
     ''stored digest conflicts with immutable blob size or compression metadata''"

definition blob_matches :: "string \<Rightarrow> string \<Rightarrow> blob_row \<Rightarrow> bool" where
  "blob_matches own digest b = (bl_owner_namespace b = own \<and> bl_stored_sha256 b = digest)"

definition ensure_blob_representations_compatible ::
  "server \<Rightarrow> prepared_artifact list \<Rightarrow> database \<Rightarrow> unit result" where
  "ensure_blob_representations_compatible srv prepared d =
     try_each (\<lambda>p.
       and_then (to_sqlite_i64 (stored_size_bytes (pr_artifact p))) (\<lambda>expected_size.
       case find (blob_matches (owner srv) (stored_digest (pr_artifact p))) (db_blobs d) of
         Some b \<Rightarrow> reject_if (bl_stored_size_bytes b \<noteq> expected_size
             \<or> bl_compression b \<noteq> compression_name (compression (pr_artifact p)))
           blob_integrity_conflict
       | None \<Rightarrow> Inr ())) (unique_stored_artifacts prepared)"

definition get_or_create_blob ::
  "server \<Rightarrow> env \<Rightarrow> nat \<Rightarrow> artifact \<Rightarrow> string \<Rightarrow> database \<Rightarrow> (string \<times> database) result" where
  "get_or_create_blob srv e k a now_text d =
     and_then (to_sqlite_i64 (stored_size_bytes a)) (\<lambda>stored_size.
     and_then
       (if list_ex (blob_matches (owner srv) (stored_digest a)) (db_blobs d) then Inr (db_blobs d)
        else insert_row (\<lambda>r r'. bl_id r = bl_id r')
          \<lparr>bl_id = new_id e (New_Blob k), bl_owner_namespace = owner srv,
           bl_stored_sha256 = stored_digest a, bl_stored_size_bytes = stored_size,
           bl_compression = compression_name (compression a), bl_created_at = now_text,
           bl_orphaned_at = None, bl_eligible_after = None, bl_eligible_after_seq = None\<rparr>
          (db_blobs d)) (\<lambda>blobs.
     and_then (fetch_one (blob_matches (owner srv) (stored_digest a)) blobs) (\<lambda>row.
     and_then (reject_if (bl_stored_size_bytes row \<noteq> stored_size
         \<or> bl_compression row \<noteq> compression_name (compression a)) blob_integrity_conflict) (\<lambda>_.
     Inr (bl_id row, d\<lparr>db_blobs := update_where (\<lambda>r. bl_id r = bl_id row)
       (\<lambda>r. r\<lparr>bl_orphaned_at := None, bl_eligible_after := None, bl_eligible_after_seq := None\<rparr>)
       blobs\<rparr>)))))"

record blob_promotion =
  bp_stored_sha256 :: string
  bp_stored_size_bytes :: nat
  bp_created :: bool

text \<open>\<open>promote_blob\<close>: link the assembled file under its digest; a file that is there already must
  hold the same bytes. A failed sync leaves the link behind.\<close>

definition promote_blob :: "server \<Rightarrow> env \<Rightarrow> prepared_artifact \<Rightarrow> (archive, bool) op" where
  "promote_blob srv e p =
     (let digest = stored_digest (pr_artifact p) in
      read_op (\<lambda>s. case blob_file (fs s) digest of
        None \<Rightarrow>
          if io_fails e (Link_Blob digest) then pure_op (Inl storage)
          else bind_op (modify_op (\<lambda>s. s\<lparr>fs := link_blob_file digest (pr_bytes p) (fs s)\<rparr>)) (\<lambda>_.
            if io_fails e (Sync_Blob digest) then pure_op (Inl storage) else pure_op (Inr True))
      | Some present \<Rightarrow>
          try_op (verify_stored_file (ext srv) (Some present)
              (stored_size_bytes (pr_artifact p)) (stored_sha256 (pr_artifact p))) (\<lambda>_.
            pure_op (Inr False))))"

text \<open>Only a file without a metadata row is removed; the loop stops at the first failure.\<close>

fun cleanup_uncommitted_promotions ::
  "server \<Rightarrow> env \<Rightarrow> blob_promotion list \<Rightarrow> (archive, unit) op" where
  "cleanup_uncommitted_promotions srv e [] = pure_op (Inr ())"
| "cleanup_uncommitted_promotions srv e (p # ps) =
     (if \<not> bp_created p then cleanup_uncommitted_promotions srv e ps
      else read_op (\<lambda>s.
        if list_ex (blob_matches (owner srv) (bp_stored_sha256 p)) (db_blobs (db s))
        then cleanup_uncommitted_promotions srv e ps
        else if io_fails e (Remove_Blob (bp_stored_sha256 p)) then pure_op (Inl storage)
        else bind_op (modify_op (\<lambda>s. s\<lparr>fs := unlink_blob_file (bp_stored_sha256 p) (fs s)\<rparr>)) (\<lambda>_.
          cleanup_uncommitted_promotions srv e ps)))"

definition promotion_of :: "prepared_artifact \<Rightarrow> bool \<Rightarrow> blob_promotion" where
  "promotion_of p was_created =
     \<lparr>bp_stored_sha256 = stored_digest (pr_artifact p),
      bp_stored_size_bytes = stored_size_bytes (pr_artifact p), bp_created = was_created\<rparr>"

fun promote_unique_blobs ::
  "server \<Rightarrow> env \<Rightarrow> blob_promotion list \<Rightarrow> prepared_artifact list
     \<Rightarrow> (archive, blob_promotion list) op" where
  "promote_unique_blobs srv e promotions [] = pure_op (Inr promotions)"
| "promote_unique_blobs srv e promotions (p # ps) =
     (\<lambda>s. case promote_blob srv e p s of
        (Inl err, s') \<Rightarrow>
          bind_op (ignore_op (cleanup_uncommitted_promotions srv e
            (promotions @ [promotion_of p True]))) (\<lambda>_. pure_op (Inl err)) s'
      | (Inr was_created, s') \<Rightarrow>
          promote_unique_blobs srv e (promotions @ [promotion_of p was_created]) ps s')"

section \<open>Recording the snapshot\<close>

definition latest_context_of ::
  "string \<Rightarrow> string \<Rightarrow> string \<Rightarrow> int \<Rightarrow> manifest \<Rightarrow> latest_context_row" where
  "latest_context_of session_id snapshot_id completed_at completed_at_seq m =
     \<lparr>lx_session_id = session_id, lx_snapshot_id = snapshot_id, lx_completed_at = completed_at,
      lx_completed_at_seq = completed_at_seq, lx_source_agent = source_agent (session m),
      lx_project = project (capture m), lx_repository = repository (capture m),
      lx_branch = branch (capture m), lx_source_agent_version = source_agent_version (capture m),
      lx_artifact_set_version = int (artifact_set_version (capture m))\<rparr>"

text \<open>The conditional upsert: a row is only replaced by a strictly greater completion tuple.\<close>

definition upsert_latest_context ::
  "latest_context_row \<Rightarrow> latest_context_row list \<Rightarrow> latest_context_row list" where
  "upsert_latest_context row table =
     (if list_ex (\<lambda>r. lx_session_id r = lx_session_id row) table
      then update_where (\<lambda>r. lx_session_id r = lx_session_id row
          \<and> (lx_completed_at_seq row > lx_completed_at_seq r
             \<or> (lx_completed_at_seq row = lx_completed_at_seq r
                \<and> lx_snapshot_id row > lx_snapshot_id r))) (\<lambda>_. row) table
      else table @ [row])"

definition upsert_session_latest_context ::
  "server \<Rightarrow> string \<Rightarrow> string \<Rightarrow> string \<Rightarrow> manifest \<Rightarrow> database \<Rightarrow> database result" where
  "upsert_session_latest_context srv session_id snapshot_id completed_at m d =
     and_then (ok_or internal (sort_key_from_rfc3339 (ext srv) completed_at)) (\<lambda>seq.
     Inr (d\<lparr>db_latest_contexts := upsert_latest_context
       (latest_context_of session_id snapshot_id completed_at seq m) (db_latest_contexts d)\<rparr>))"

definition maintain_session_latest_context ::
  "server \<Rightarrow> string \<Rightarrow> string \<Rightarrow> manifest \<Rightarrow> database \<Rightarrow> database result" where
  "maintain_session_latest_context srv session_id snapshot_id m d =
     and_then (ok_or internal (find (\<lambda>r. sn_id r = snapshot_id \<and> sn_deleted_at r = None)
       (db_snapshots d))) (\<lambda>row.
     upsert_session_latest_context srv session_id snapshot_id (sn_completed_at row) m d)"

definition capture_row_of ::
  "server \<Rightarrow> env \<Rightarrow> upload_row \<Rightarrow> manifest \<Rightarrow> string \<Rightarrow> string \<Rightarrow> string \<Rightarrow> string \<Rightarrow> int
     \<Rightarrow> capture_row" where
  "capture_row_of srv e upload m metadata_json manifest_id snapshot_id completed_at seq =
     \<lparr>cp_id = new_id e New_Capture, cp_owner_namespace = owner srv,
      cp_capture_id = up_capture_id upload, cp_session_id = up_session_id upload,
      cp_client_id = up_client_id upload, cp_upload_id = up_id upload,
      cp_manifest_id = manifest_id, cp_snapshot_id = snapshot_id, cp_capture = capture m,
      cp_source_metadata_json = metadata_json, cp_server_received_at = up_created_at upload,
      cp_server_completed_at = completed_at, cp_server_completed_at_seq = seq\<rparr>"

definition insert_capture_provenance ::
  "server \<Rightarrow> env \<Rightarrow> upload_row \<Rightarrow> manifest \<Rightarrow> string \<Rightarrow> string \<Rightarrow> string \<Rightarrow> database
     \<Rightarrow> database result" where
  "insert_capture_provenance srv e upload m manifest_id snapshot_id completed_at d =
     and_then (ok_or internal (sort_key_from_rfc3339 (ext srv) completed_at)) (\<lambda>seq.
     and_then (ok_or internal (metadata_to_json (ext srv) (source_metadata (capture m))))
       (\<lambda>metadata_json.
     case find (\<lambda>c. cp_upload_id c = up_id upload) (db_captures d) of
       None \<Rightarrow>
         and_then (insert_row (\<lambda>r r'. cp_id r = cp_id r'
             \<or> (cp_owner_namespace r = cp_owner_namespace r' \<and> cp_client_id r = cp_client_id r'
                \<and> cp_capture_id r = cp_capture_id r'))
           (capture_row_of srv e upload m metadata_json manifest_id snapshot_id completed_at seq)
           (db_captures d)) (\<lambda>captures.
         maintain_session_latest_context srv (up_session_id upload) snapshot_id m
           (d\<lparr>db_captures := captures\<rparr>))
     | Some existing \<Rightarrow>
         if cp_snapshot_id existing = snapshot_id
         then maintain_session_latest_context srv (up_session_id upload) snapshot_id m d
         else Inl (conflict ''capture_provenance_conflict''
           ''capture provenance conflicts with an existing completed capture'')))"

definition upload_state_conflict :: api_error where
  "upload_state_conflict = conflict ''upload_state_conflict''
     ''upload state changed while completion was requested''"

definition complete_upload_row ::
  "string \<Rightarrow> string \<Rightarrow> int \<Rightarrow> int \<Rightarrow> upload_row \<Rightarrow> upload_row" where
  "complete_upload_row snapshot_id completed_at transfer newly r =
     r\<lparr>up_status := ''completed'', up_snapshot_id := Some snapshot_id,
       up_completed_at := Some completed_at, up_transfer_bytes := transfer,
       up_newly_persisted_bytes := newly\<rparr>"

definition open_upload :: "string \<Rightarrow> upload_row \<Rightarrow> bool" where
  "open_upload upload_id r =
     (up_id r = upload_id \<and> (up_status r = ''created'' \<or> up_status r = ''artifact_uploaded''))"

text \<open>What both finalizations do with the upload row: complete it and insert the capture, or accept
  that this upload is completed with the same snapshot already.\<close>

definition finish_upload_row ::
  "server \<Rightarrow> env \<Rightarrow> upload_row \<Rightarrow> manifest \<Rightarrow> string \<Rightarrow> string \<Rightarrow> string \<Rightarrow> nat \<Rightarrow> nat
     \<Rightarrow> database \<Rightarrow> database result" where
  "finish_upload_row srv e upload m manifest_id snapshot_id completed_at transfer newly d =
     and_then (to_sqlite_i64 transfer) (\<lambda>transfer_bytes.
     and_then (to_sqlite_i64 newly) (\<lambda>newly_bytes.
     if list_ex (open_upload (up_id upload)) (db_uploads d)
     then insert_capture_provenance srv e upload m manifest_id snapshot_id completed_at
       (d\<lparr>db_uploads := update_where (open_upload (up_id upload))
          (complete_upload_row snapshot_id completed_at transfer_bytes newly_bytes)
          (db_uploads d)\<rparr>)
     else (case get_active_upload d (up_id upload) of
         Some current \<Rightarrow>
           if up_status current = ''completed'' \<and> up_snapshot_id current = Some snapshot_id
           then Inr d else Inl upload_state_conflict
       | None \<Rightarrow> Inl upload_state_conflict)))"

definition finalize_existing_transaction ::
  "server \<Rightarrow> env \<Rightarrow> upload_row \<Rightarrow> manifest \<Rightarrow> string \<Rightarrow> nat \<Rightarrow> string \<Rightarrow> database
     \<Rightarrow> (unit \<times> database) result" where
  "finalize_existing_transaction srv e upload m snapshot_id transfer now_text d =
     and_then (reject_if (\<not> list_ex (\<lambda>r. sn_id r = snapshot_id \<and> sn_deleted_at r = None)
         (db_snapshots d))
       (conflict ''snapshot_deleted''
         ''snapshot was deleted before capture provenance could be recorded'')) (\<lambda>_.
     and_then (to_sqlite_i64 transfer) (\<lambda>transfer_bytes.
     if list_ex (open_upload (up_id upload)) (db_uploads d)
     then
       and_then (fetch_one (\<lambda>r. mf_upload_id r = up_id upload) (db_manifests d)) (\<lambda>mf.
       and_then (finish_upload_row srv e upload m (mf_id mf) snapshot_id now_text transfer 0 d)
         (\<lambda>d'. commit classify_database_error e Commit_Existing ((), d')))
     else
       and_then (commit classify_database_error e Commit_Existing ()) (\<lambda>_.
       and_then (finish_upload_row srv e upload m [] snapshot_id now_text transfer 0 d)
         (\<lambda>_. Inr ((), d)))))"

definition finalize_upload_for_existing_snapshot ::
  "server \<Rightarrow> env \<Rightarrow> upload_row \<Rightarrow> manifest \<Rightarrow> string \<Rightarrow> nat \<Rightarrow> (archive, unit) op" where
  "finalize_upload_for_existing_snapshot srv e upload m snapshot_id transfer =
     try_op (ok_or internal (format_time (ext srv) (commit_now e))) (\<lambda>now_text.
     transact (finalize_existing_transaction srv e upload m snapshot_id transfer now_text))"

text \<open>One blob row for each distinct stored digest, in the order of the artifacts.\<close>

fun create_blob_rows ::
  "server \<Rightarrow> env \<Rightarrow> string \<Rightarrow> nat \<Rightarrow> prepared_artifact list \<Rightarrow> (string \<times> string) list
     \<Rightarrow> database \<Rightarrow> ((string \<times> string) list \<times> database) result" where
  "create_blob_rows srv e now_text k [] ids d = Inr (ids, d)"
| "create_blob_rows srv e now_text k (p # ps) ids d =
     (case map_of ids (stored_digest (pr_artifact p)) of
        Some _ \<Rightarrow> create_blob_rows srv e now_text (k + 1) ps ids d
      | None \<Rightarrow>
          and_then (get_or_create_blob srv e k (pr_artifact p) now_text d) (\<lambda>(blob_id, d').
          create_blob_rows srv e now_text (k + 1) ps
            ((stored_digest (pr_artifact p), blob_id) # ids) d'))"

definition insert_artifact_row ::
  "env \<Rightarrow> string \<Rightarrow> (string \<times> string) list \<Rightarrow> string \<Rightarrow> int \<Rightarrow> artifact_row list
     \<Rightarrow> nat \<times> prepared_artifact \<Rightarrow> artifact_row list result" where
  "insert_artifact_row e snapshot_id ids now_text now_seq table = (\<lambda>(k, p).
     let a = pr_artifact p in
     and_then (ok_or internal (map_of ids (stored_digest a))) (\<lambda>blob_id.
     and_then (to_sqlite_i64 (original_size_bytes a)) (\<lambda>original_size.
     insert_row (\<lambda>r r'. ar_id r = ar_id r' \<or> (ar_snapshot_id r = ar_snapshot_id r'
         \<and> (ar_logical_path r = ar_logical_path r' \<or> ar_artifact_index r = ar_artifact_index r')))
       \<lparr>ar_id = new_id e (New_Artifact k), ar_snapshot_id = snapshot_id, ar_blob_id = blob_id,
        ar_logical_path = logical_path a, ar_media_type = media_type a,
        ar_original_size_bytes = original_size,
        ar_original_sha256 = digest_storage_value (original_sha256 a), ar_created_at = now_text,
        ar_created_at_seq = now_seq, ar_artifact_index = int (pr_artifact_index p)\<rparr> table)))"

definition finalize_winning_snapshot ::
  "server \<Rightarrow> env \<Rightarrow> upload_row \<Rightarrow> manifest \<Rightarrow> string \<Rightarrow> string \<Rightarrow> prepared_artifact list
     \<Rightarrow> (string \<times> string) list \<Rightarrow> string \<Rightarrow> int \<Rightarrow> nat \<Rightarrow> nat \<Rightarrow> database \<Rightarrow> database result" where
  "finalize_winning_snapshot srv e upload m manifest_id snapshot_id prepared ids now_text now_seq
     transfer newly d =
     and_then (try_fold (insert_artifact_row e snapshot_id ids now_text now_seq)
       (db_artifacts d) (enumerate 0 prepared)) (\<lambda>artifact_rows.
     finish_upload_row srv e upload m manifest_id snapshot_id now_text transfer newly
       (d\<lparr>db_artifacts := artifact_rows\<rparr>))"

definition prior_tombstone :: "string \<Rightarrow> string \<Rightarrow> database \<Rightarrow> tombstone_row option" where
  "prior_tombstone session_id fingerprint d =
     last_by (\<lambda>t. (ts_deleted_at_seq t, ts_id t))
       (filter (\<lambda>t. ts_session_id t = session_id
          \<and> ts_snapshot_fingerprint_sha256 t = fingerprint) (db_tombstones d))"

definition snapshot_clash :: "snapshot_row \<Rightarrow> snapshot_row \<Rightarrow> bool" where
  "snapshot_clash r r' =
     (sn_id r = sn_id r'
       \<or> (sn_deleted_at r = None \<and> sn_deleted_at r' = None \<and> sn_session_id r = sn_session_id r'
          \<and> sn_fingerprint_sha256 r = sn_fingerprint_sha256 r'))"

definition new_snapshot_row ::
  "server \<Rightarrow> env \<Rightarrow> upload_row \<Rightarrow> manifest \<Rightarrow> string \<Rightarrow> string \<Rightarrow> string \<Rightarrow> int
     \<Rightarrow> tombstone_row option \<Rightarrow> nat \<Rightarrow> snapshot_row result" where
  "new_snapshot_row srv e upload m manifest_id fingerprint now_text now_seq prior n =
     and_then (manifest_totals m) (\<lambda>(original, stored).
     and_then (to_sqlite_i64 n) (\<lambda>artifact_count.
     and_then (to_sqlite_i64 original) (\<lambda>original_bytes.
     and_then (to_sqlite_i64 stored) (\<lambda>stored_bytes.
     Inr \<lparr>sn_id = new_id e New_Snapshot, sn_owner_namespace = owner srv,
          sn_session_id = up_session_id upload, sn_manifest_id = manifest_id,
          sn_fingerprint_sha256 = fingerprint, sn_completed_at = now_text,
          sn_completed_at_seq = now_seq, sn_artifact_count = artifact_count,
          sn_total_original_size_bytes = original_bytes,
          sn_total_stored_size_bytes = stored_bytes,
          sn_fingerprint_version = int SNAPSHOT_FINGERPRINT_VERSION, sn_deleted_at = None,
          sn_rearchived_from_tombstone_id = map_option ts_id prior\<rparr>))))"

definition note_rearchived ::
  "string \<Rightarrow> tombstone_row option \<Rightarrow> tombstone_row list \<Rightarrow> tombstone_row list" where
  "note_rearchived snapshot_id prior table =
     (case prior of
        None \<Rightarrow> table
      | Some t \<Rightarrow> update_where (\<lambda>r. ts_id r = ts_id t \<and> ts_rearchived_snapshot_id r = None)
          (\<lambda>r. r\<lparr>ts_rearchived_snapshot_id := Some snapshot_id\<rparr>) table)"

text \<open>The transaction returns whether it recorded the snapshot; \<^const>\<open>False\<close> is the lost race, whose
  transaction is rolled back.\<close>

definition record_transaction ::
  "server \<Rightarrow> env \<Rightarrow> upload_row \<Rightarrow> manifest \<Rightarrow> prepared_artifact list \<Rightarrow> string \<Rightarrow> nat \<Rightarrow> nat
     \<Rightarrow> string \<Rightarrow> int \<Rightarrow> database \<Rightarrow> (bool \<times> database) result" where
  "record_transaction srv e upload m prepared fingerprint transfer newly now_text now_seq d =
     and_then (create_blob_rows srv e now_text 0 prepared [] d) (\<lambda>(ids, d1).
     and_then (fetch_one (\<lambda>r. mf_upload_id r = up_id upload) (db_manifests d1)) (\<lambda>mf.
     let prior = prior_tombstone (up_session_id upload) fingerprint d1 in
     and_then (new_snapshot_row srv e upload m (mf_id mf) fingerprint now_text now_seq prior
       (length prepared)) (\<lambda>row.
     if list_ex (snapshot_clash row) (db_snapshots d1) then Inr (False, d)
     else
       and_then (finalize_winning_snapshot srv e upload m (mf_id mf) (sn_id row) prepared ids
         now_text now_seq transfer newly
         (d1\<lparr>db_snapshots := db_snapshots d1 @ [row]\<rparr>)) (\<lambda>d2.
       commit classify_database_error e Commit_Snapshot
         (True, d2\<lparr>db_tombstones := note_rearchived (sn_id row) prior (db_tombstones d2)\<rparr>)))))"

definition record_completed_upload ::
  "server \<Rightarrow> env \<Rightarrow> upload_row \<Rightarrow> manifest \<Rightarrow> prepared_artifact list \<Rightarrow> blob_promotion list
     \<Rightarrow> string \<Rightarrow> nat \<Rightarrow> nat \<Rightarrow> (archive, unit) op" where
  "record_completed_upload srv e upload m prepared promotions fingerprint transfer newly =
     try_op (ok_or internal (format_time (ext srv) (commit_now e))) (\<lambda>now_text.
     try_op (ok_or internal (sort_key_from_rfc3339 (ext srv) now_text)) (\<lambda>now_seq.
     bind_op (transact (record_transaction srv e upload m prepared fingerprint transfer newly
       now_text now_seq)) (\<lambda>recorded.
     if recorded then pure_op (Inr ())
     else
       bind_op (query (\<lambda>d. fetch_one (\<lambda>r. sn_session_id r = up_session_id upload
         \<and> sn_fingerprint_sha256 r = fingerprint \<and> sn_deleted_at r = None) (db_snapshots d)))
         (\<lambda>winner.
       bind_op (cleanup_uncommitted_promotions srv e promotions) (\<lambda>_.
       finalize_upload_for_existing_snapshot srv e upload m (sn_id winner) transfer)))))"

section \<open>The completion document\<close>

definition manifest_by_id :: "database \<Rightarrow> string \<Rightarrow> manifest_row option" where
  "manifest_by_id d mid = find (\<lambda>r. mf_id r = mid) (db_manifests d)"

definition live_snapshot :: "database \<Rightarrow> string \<Rightarrow> snapshot_row option" where
  "live_snapshot d sid = find (\<lambda>r. sn_id r = sid \<and> sn_deleted_at r = None) (db_snapshots d)"

definition completed_upload :: "database \<Rightarrow> string \<Rightarrow> upload_row option" where
  "completed_upload d upload_id =
     find (\<lambda>r. up_id r = upload_id \<and> up_status r = ''completed'') (db_uploads d)"

definition receipt_of ::
  "server \<Rightarrow> snapshot_row \<Rightarrow> manifest_row \<Rightarrow> receipt result" where
  "receipt_of srv s m =
     and_then (ok_or internal (u32_try_from (sn_artifact_count s))) (\<lambda>n.
     and_then (ok_or internal (u64_try_from (sn_total_original_size_bytes s))) (\<lambda>original.
     and_then (ok_or internal (u64_try_from (sn_total_stored_size_bytes s))) (\<lambda>stored.
     Inr \<lparr>receipt_version = 2,
          rc_archive_instance_id = archive_instance_id (srv_identity srv),
          rc_owner_namespace = owner srv, rc_snapshot_id = sn_id s,
          rc_session_id = sn_session_id s,
          rc_snapshot_fingerprint = digest_document_value (sn_fingerprint_sha256 s),
          rc_manifest_sha256 = digest_document_value (mf_sha256 m), rc_artifact_count = n,
          rc_total_original_bytes = original, rc_total_stored_bytes = stored,
          rc_completed_at = sn_completed_at s\<rparr>)))"

definition receipt_for_upload :: "server \<Rightarrow> string \<Rightarrow> database \<Rightarrow> receipt result" where
  "receipt_for_upload srv upload_id d =
     (let not_there = not_found ''snapshot_not_found'' ''snapshot was not found'' in
      and_then (ok_or not_there (completed_upload d upload_id)) (\<lambda>u.
      and_then (ok_or not_there (up_snapshot_id u)) (\<lambda>sid.
      and_then (ok_or not_there (live_snapshot d sid)) (\<lambda>s.
      and_then (ok_or not_there (manifest_by_id d (sn_manifest_id s))) (\<lambda>m.
      receipt_of srv s m)))))"

definition capture_from_row ::
  "server \<Rightarrow> capture_row \<Rightarrow> manifest_row \<Rightarrow> capture_provenance result" where
  "capture_from_row srv c m =
     and_then (ok_or internal (metadata_from_json (ext srv) (cp_source_metadata_json c)))
       (\<lambda>metadata.
     Inr \<lparr>pv_capture_record_id = cp_id c, pv_capture_id = cp_capture_id c,
          pv_client_id = cp_client_id c, pv_session_id = cp_session_id c,
          pv_upload_id = cp_upload_id c, pv_snapshot_id = cp_snapshot_id c,
          pv_manifest_id = cp_manifest_id c,
          pv_manifest_sha256 = digest_document_value (mf_sha256 m),
          pv_capture = (cp_capture c)\<lparr>source_metadata := metadata\<rparr>,
          pv_server_received_at = cp_server_received_at c,
          pv_server_completed_at = cp_server_completed_at c,
          pv_capture_url = ''/api/v1/captures/'' @ cp_id c,
          pv_manifest_url = ''/api/v1/manifests/'' @ cp_manifest_id c\<rparr>)"

definition capture_for_upload :: "server \<Rightarrow> string \<Rightarrow> database \<Rightarrow> capture_provenance result" where
  "capture_for_upload srv upload_id d =
     (let not_there = not_found ''capture_not_found'' ''capture was not found'' in
      and_then (ok_or not_there (find (\<lambda>c. cp_upload_id c = upload_id) (db_captures d))) (\<lambda>c.
      and_then (ok_or not_there (live_snapshot d (cp_snapshot_id c))) (\<lambda>_.
      and_then (ok_or not_there (manifest_by_id d (cp_manifest_id c))) (\<lambda>m.
      capture_from_row srv c m))))"

definition completion_for_upload :: "server \<Rightarrow> string \<Rightarrow> database \<Rightarrow> completion_response result" where
  "completion_for_upload srv upload_id d =
     and_then (receipt_for_upload srv upload_id d) (\<lambda>r.
     and_then (ok_or (not_found ''upload_not_found'' ''upload was not found'')
       (completed_upload d upload_id)) (\<lambda>u.
     and_then (capture_for_upload srv upload_id d) (\<lambda>c.
     and_then (ok_or internal (u64_try_from (up_transfer_bytes u))) (\<lambda>transfer.
     and_then (ok_or internal (u64_try_from (up_newly_persisted_bytes u))) (\<lambda>newly.
     Inr \<lparr>co_receipt = r,
          co_transfer = \<lparr>ct_upload_id = up_id u, ct_capture_id = up_capture_id u,
            ct_upload_transfer_bytes = transfer,
            ct_newly_persisted_physical_bytes = newly\<rparr>,
          co_capture = c\<rparr>)))))"

section \<open>The request handler\<close>

definition attach_to_snapshot ::
  "server \<Rightarrow> env \<Rightarrow> upload_row \<Rightarrow> manifest \<Rightarrow> nat \<Rightarrow> string \<Rightarrow> (archive, completion_response) op" where
  "attach_to_snapshot srv e upload m transfer snapshot_id =
     bind_op (finalize_upload_for_existing_snapshot srv e upload m snapshot_id transfer) (\<lambda>_.
     bind_op (ignore_op (remove_upload_dir_op e (up_id upload))) (\<lambda>_.
     query (completion_for_upload srv (up_id upload))))"

definition newly_persisted_bytes :: "blob_promotion list \<Rightarrow> nat result" where
  "newly_persisted_bytes promotions =
     try_fold (\<lambda>sofar p. ok_or internal (checked_add sofar (bp_stored_size_bytes p))) 0
       (filter bp_created promotions)"

text \<open>A failed recording removes the files this request linked, unless a row refers to them.\<close>

definition record_or_clean_up ::
  "server \<Rightarrow> env \<Rightarrow> upload_row \<Rightarrow> manifest \<Rightarrow> prepared_artifact list \<Rightarrow> blob_promotion list
     \<Rightarrow> string \<Rightarrow> nat \<Rightarrow> nat \<Rightarrow> (archive, unit) op" where
  "record_or_clean_up srv e upload m prepared promotions fingerprint transfer newly = (\<lambda>s.
     case record_completed_upload srv e upload m prepared promotions fingerprint transfer newly s of
       (Inr _, s') \<Rightarrow> (Inr (), s')
     | (Inl err, s') \<Rightarrow>
         bind_op (ignore_op (cleanup_uncommitted_promotions srv e promotions))
           (\<lambda>_. pure_op (Inl err)) s')"

text \<open>The part of the request that holds the locks of its blobs.\<close>

definition complete_under_blob_locks ::
  "server \<Rightarrow> env \<Rightarrow> upload_row \<Rightarrow> manifest \<Rightarrow> prepared_artifact list \<Rightarrow> string \<Rightarrow> nat
     \<Rightarrow> (archive, completion_response) op" where
  "complete_under_blob_locks srv e upload m prepared fingerprint transfer =
     bind_op (query (ensure_blob_representations_compatible srv prepared)) (\<lambda>_.
     bind_op (query (\<lambda>d. Inr (find_snapshot_by_fingerprint (up_session_id upload) fingerprint d)))
       (\<lambda>hit.
     case hit of
       Some snapshot_id \<Rightarrow> attach_to_snapshot srv e upload m transfer snapshot_id
     | None \<Rightarrow>
         bind_op (promote_unique_blobs srv e [] (unique_stored_artifacts prepared)) (\<lambda>promotions.
         try_op (newly_persisted_bytes promotions) (\<lambda>newly.
         bind_op (record_or_clean_up srv e upload m prepared promotions fingerprint transfer newly)
           (\<lambda>_.
         bind_op (ignore_op (remove_upload_dir_op e (up_id upload))) (\<lambda>_.
         query (completion_for_upload srv (up_id upload))))))))"

text \<open>The part between the verification and the blob locks: a live snapshot with the fingerprint is
  looked for twice, before and after its identity lock.\<close>

definition complete_prepared ::
  "server \<Rightarrow> env \<Rightarrow> upload_row \<Rightarrow> manifest \<Rightarrow> prepared_artifact list \<Rightarrow> string \<Rightarrow> nat
     \<Rightarrow> (archive, completion_response) op" where
  "complete_prepared srv e upload m prepared fingerprint transfer =
     bind_op (query (ensure_blob_representations_compatible srv prepared)) (\<lambda>_.
     read_op (\<lambda>s.
       case find_snapshot_by_fingerprint (up_session_id upload) fingerprint (db s) of
         None \<Rightarrow> complete_under_blob_locks srv e upload m prepared fingerprint transfer
       | Some _ \<Rightarrow> read_op (\<lambda>s'.
           case find_snapshot_by_fingerprint (up_session_id upload) fingerprint (db s') of
             Some live \<Rightarrow> attach_to_snapshot srv e upload m transfer live
           | None \<Rightarrow> complete_under_blob_locks srv e upload m prepared fingerprint transfer)))"

text \<open>The part after the checks of the stored rows: assemble, verify, and then archive.\<close>

definition complete_checked ::
  "server \<Rightarrow> env \<Rightarrow> upload_row \<Rightarrow> manifest \<Rightarrow> upload_artifact_row list
     \<Rightarrow> (archive, completion_response) op" where
  "complete_checked srv e upload m rows =
     read_op (\<lambda>s.
       try_op (prepare_artifacts srv e s upload m rows) (\<lambda>prepared.
       try_op (manifest_totals m) (\<lambda>(_, transfer).
       try_op (snapshot_fingerprint (ext srv) m) (\<lambda>fingerprint.
       complete_prepared srv e upload m prepared fingerprint transfer))))"

definition complete_upload :: "server \<Rightarrow> env \<Rightarrow> string \<Rightarrow> (archive, completion_response) op" where
  "complete_upload srv e path =
     try_op (parse_uuid (ext srv) path ''upload identifier is not a UUID'') (\<lambda>upload_id.
     bind_op (require_active_upload srv e upload_id) (\<lambda>upload.
     if up_status upload = ''completed'' then query (completion_for_upload srv upload_id)
     else
       bind_op (query (\<lambda>d. get_upload_manifest srv d upload_id)) (\<lambda>m.
       try_op (validate_current_manifest_limits srv m) (\<lambda>_.
       bind_op (query (\<lambda>d. Inr (get_upload_artifacts d upload_id))) (\<lambda>rows.
       try_op (validate_upload_projection m rows upload) (\<lambda>_.
       complete_checked srv e upload m rows))))))"

lemma require_active_same:
  "require_active_upload srv e uid s = (Inr upload, t) \<Longrightarrow> t = s"
  by (auto simp: require_active_upload_def bind_op_Inr try_op_Inr query_eq pure_op_eq
      split: if_splits)

lemma require_active_find:
  "require_active_upload srv e uid s = (Inr upload, t) \<Longrightarrow> get_active_upload (db s) uid = Some upload"
  by (auto simp: require_active_upload_def bind_op_Inr try_op_Inr query_eq pure_op_eq
      dest!: ok_or_eq_Inr [THEN iffD1, OF sym] split: if_splits)

text \<open>A completion either stops at its checks or goes on in the state it found.\<close>

lemma complete_upload_cases:
  obtains (unchanged) "snd (complete_upload srv e path s) = s"
    | (inactive) uid where
      "snd (complete_upload srv e path s) = snd (require_active_upload srv e uid s)"
    | (checked) uid upload m where
      "complete_upload srv e path s =
         complete_checked srv e upload m (get_upload_artifacts (db s) uid) s"
      "parse_uuid (ext srv) path ''upload identifier is not a UUID'' = Inr uid"
      "require_active_upload srv e uid s = (Inr upload, s)" "up_status upload \<noteq> ''completed''"
      "get_upload_manifest srv (db s) uid = Inr m"
      "validate_current_manifest_limits srv m = Inr ()"
      "validate_upload_projection m (get_upload_artifacts (db s) uid) upload = Inr ()"
proof (cases "parse_uuid (ext srv) path ''upload identifier is not a UUID''")
  case (Inl err)
  then have "snd (complete_upload srv e path s) = s"
    by (simp add: complete_upload_def try_op_def pure_op_def)
  then show thesis by (rule unchanged)
next
  case (Inr uid)
  obtain r t where run: "require_active_upload srv e uid s = (r, t)" by fastforce
  show thesis
  proof (cases r)
    case (Inl err)
    with Inr run show thesis
      by (intro inactive [of uid]) (simp add: complete_upload_def bind_op_def)
  next
    fix upload assume r: "r = Inr upload"
    then have active: "require_active_upload srv e uid s = (Inr upload, s)"
      using run require_active_same by metis
    show thesis
    proof (cases "up_status upload \<noteq> ''completed'' \<and> (\<exists>m. get_upload_manifest srv (db s) uid = Inr m
        \<and> validate_current_manifest_limits srv m = Inr ()
        \<and> validate_upload_projection m (get_upload_artifacts (db s) uid) upload = Inr ())")
      case True
      then obtain m where m: "up_status upload \<noteq> ''completed''"
        "get_upload_manifest srv (db s) uid = Inr m" "validate_current_manifest_limits srv m = Inr ()"
        "validate_upload_projection m (get_upload_artifacts (db s) uid) upload = Inr ()"
        by blast
      then have "complete_upload srv e path s =
          complete_checked srv e upload m (get_upload_artifacts (db s) uid) s"
        using Inr active by (simp add: complete_upload_def bind_op_def query_def)
      from checked [OF this Inr active m] show thesis .
    next
      case False
      then have "snd (complete_upload srv e path s) = s"
        using Inr active
        by (auto simp: complete_upload_def bind_op_def query_def try_op_def pure_op_def
            split: sum.splits)
      then show thesis by (rule unchanged)
    qed
  qed
qed

end
