(* ===== verification/Deletion.thy ===== *)
theory Deletion
  imports Completion
begin

text \<open>
  Snapshot deletion and the collection of unreferenced blobs, \<open>deletion.rs\<close>. Deleting a snapshot
  writes a tombstone and its audit, removes the artifact rows, marks blobs without a live
  reference as candidates and rebuilds the latest context of the session, in one transaction.
  The collector rechecks every candidate and removes the row and the file of a blob only when no
  live artifact refers to it.
\<close>

definition MAX_DELETION_REASON_BYTES :: nat where "MAX_DELETION_REASON_BYTES = 512"
definition GC_BATCH_SIZE :: nat where "GC_BATCH_SIZE = 256"

definition require_admin_enabled :: "server \<Rightarrow> unit result" where
  "require_admin_enabled srv =
     (if srv_admin_enabled srv then Inr ()
      else Inl (forbidden ''admin_deletion_disabled''
        ''administrative deletion is disabled by server configuration''))"

section \<open>Reason and confirmation\<close>

text \<open>\<open>str::trim\<close> leaves nothing: every character is Unicode white space, here by its UTF-8 bytes.\<close>

function all_whitespace :: "string \<Rightarrow> bool" where
  "all_whitespace s =
     (if s = [] then True
      else
        let b = map byte_of s in
        if (9 \<le> b ! 0 \<and> b ! 0 \<le> 13) \<or> b ! 0 = 32 then all_whitespace (drop 1 s)
        else if take 2 b = [0xC2, 0x85] \<or> take 2 b = [0xC2, 0xA0] then all_whitespace (drop 2 s)
        else if take 3 b = [0xE1, 0x9A, 0x80] \<or> take 3 b = [0xE3, 0x80, 0x80]
          \<or> take 3 b = [0xE2, 0x81, 0x9F]
          \<or> (take 2 b = [0xE2, 0x80] \<and> length b > 2
             \<and> ((0x80 \<le> b ! 2 \<and> b ! 2 \<le> 0x8A) \<or> b ! 2 = 0xA8 \<or> b ! 2 = 0xA9 \<or> b ! 2 = 0xAF))
        then all_whitespace (drop 3 s)
        else False)"
  by pat_completeness auto
termination
  by (relation "measure length") auto

declare all_whitespace.simps [simp del]

definition deletion_reason :: "delete_snapshot_request option \<Rightarrow> string option result" where
  "deletion_reason request =
     (case Option.bind request ds_reason of
        None \<Rightarrow> Inr None
      | Some reason \<Rightarrow>
          if all_whitespace reason \<or> length reason > MAX_DELETION_REASON_BYTES
             \<or> list_ex is_ascii_control reason
          then Inl (invalid ''deletion reason is invalid'')
          else Inr (Some reason))"

definition expected_confirmation :: "string \<Rightarrow> string \<Rightarrow> string" where
  "expected_confirmation snapshot_id fingerprint =
     ''delete-snapshot'' @ '':'' @ snapshot_id @ '':sha256:'' @ fingerprint"

definition confirm_snapshot_deletion ::
  "header_value option \<Rightarrow> string option \<Rightarrow> string \<Rightarrow> string \<Rightarrow> unit result" where
  "confirm_snapshot_deletion header body snapshot_id fingerprint =
     and_then
       (case header of
          None \<Rightarrow> Inr None
        | Some (Text t) \<Rightarrow> Inr (Some t)
        | Some Opaque \<Rightarrow> Inl (invalid ''deletion confirmation is invalid'')) (\<lambda>header_text.
     and_then (reject_if
       (case (header_text, body) of (Some h, Some b) \<Rightarrow> h \<noteq> b | _ \<Rightarrow> False)
       (invalid ''header and body deletion confirmations must match'')) (\<lambda>_.
     and_then (ok_or (invalid ''a snapshot-specific deletion confirmation is required'')
       (case header_text of Some h \<Rightarrow> Some h | None \<Rightarrow> body)) (\<lambda>confirmation.
     reject_if (confirmation \<noteq> expected_confirmation snapshot_id fingerprint)
       (conflict ''deletion_confirmation_mismatch''
         ''deletion confirmation does not match this snapshot fingerprint''))))"

section \<open>Rows\<close>

text \<open>The join of a snapshot with its manifest.\<close>

definition snapshot_deletion_row :: "string \<Rightarrow> database \<Rightarrow> (snapshot_row \<times> manifest_row) option" where
  "snapshot_deletion_row snapshot_id d =
     (case find (\<lambda>s. sn_id s = snapshot_id) (db_snapshots d) of
        None \<Rightarrow> None
      | Some s \<Rightarrow> map_option (Pair s) (manifest_by_id d (sn_manifest_id s)))"

definition has_live_reference :: "database \<Rightarrow> string \<Rightarrow> bool" where
  "has_live_reference d blob_id =
     list_ex (\<lambda>a. ar_blob_id a = blob_id
        \<and> list_ex (\<lambda>s. sn_id s = ar_snapshot_id a \<and> sn_deleted_at s = None) (db_snapshots d))
       (db_artifacts d)"

text \<open>\<open>SELECT DISTINCT b.id, b.stored_sha256\<close> for the artifacts of a live snapshot.\<close>

definition artifact_blobs :: "string \<Rightarrow> database \<Rightarrow> (string \<times> string) list" where
  "artifact_blobs snapshot_id d =
     (if list_ex (\<lambda>s. sn_id s = snapshot_id \<and> sn_deleted_at s = None) (db_snapshots d)
      then map (\<lambda>b. (bl_id b, bl_stored_sha256 b))
        (filter (\<lambda>b. list_ex (\<lambda>a. ar_snapshot_id a = snapshot_id \<and> ar_blob_id a = bl_id b)
          (db_artifacts d)) (db_blobs d))
      else [])"

definition schedule_or_clear_blob_candidate ::
  "string \<Rightarrow> string \<Rightarrow> string \<Rightarrow> int \<Rightarrow> database \<Rightarrow> database" where
  "schedule_or_clear_blob_candidate blob_id orphaned_at eligible_after seq d =
     d\<lparr>db_blobs := update_where (\<lambda>b. bl_id b = blob_id)
       (\<lambda>b. if has_live_reference d (bl_id b)
             then b\<lparr>bl_orphaned_at := None, bl_eligible_after := None,
                    bl_eligible_after_seq := None\<rparr>
             else b\<lparr>bl_orphaned_at := Some orphaned_at, bl_eligible_after := Some eligible_after,
                    bl_eligible_after_seq := Some seq\<rparr>) (db_blobs d)\<rparr>"

text \<open>The join of live snapshots with their session and captures, ordered by completion descending
  and by capture identifier ascending; the first row becomes the latest context.\<close>

definition latest_context_candidates ::
  "string \<Rightarrow> database \<Rightarrow> (snapshot_row \<times> session_row \<times> capture_row) list" where
  "latest_context_candidates session_id d =
     [(s, se, c). s \<leftarrow> db_snapshots d, sn_session_id s = session_id \<and> sn_deleted_at s = None,
                  se \<leftarrow> db_sessions d, se_id se = sn_session_id s,
                  c \<leftarrow> db_captures d, cp_snapshot_id c = sn_id s]"

definition rebuilt_context :: "string \<Rightarrow> database \<Rightarrow> latest_context_row option" where
  "rebuilt_context session_id d =
     (case last_by (\<lambda>(s, _, _). (sn_completed_at_seq s, sn_id s))
         (latest_context_candidates session_id d) of
        None \<Rightarrow> None
      | Some (best, _, _) \<Rightarrow>
          (case first_by (\<lambda>(_, _, c). cp_id c)
              (filter (\<lambda>(s, _, _). sn_completed_at_seq s = sn_completed_at_seq best
                 \<and> sn_id s = sn_id best) (latest_context_candidates session_id d)) of
             None \<Rightarrow> None
           | Some (s, se, c) \<Rightarrow>
               Some \<lparr>lx_session_id = sn_session_id s, lx_snapshot_id = sn_id s,
                     lx_completed_at = sn_completed_at s,
                     lx_completed_at_seq = sn_completed_at_seq s,
                     lx_source_agent = se_source_agent se, lx_project = project (cp_capture c),
                     lx_repository = repository (cp_capture c),
                     lx_branch = branch (cp_capture c),
                     lx_source_agent_version = source_agent_version (cp_capture c),
                     lx_artifact_set_version = int (artifact_set_version (cp_capture c))\<rparr>))"

definition rebuild_session_latest_context :: "string \<Rightarrow> database \<Rightarrow> database" where
  "rebuild_session_latest_context session_id d =
     d\<lparr>db_latest_contexts :=
        delete_where (\<lambda>r. lx_session_id r = session_id) (db_latest_contexts d)
          @ (case rebuilt_context session_id d of None \<Rightarrow> [] | Some r \<Rightarrow> [r])\<rparr>"

section \<open>The tombstone document\<close>

definition tombstone_response_of :: "server \<Rightarrow> string \<Rightarrow> database \<Rightarrow> tombstone_response result" where
  "tombstone_response_of srv snapshot_id d =
     (let not_there = not_found ''tombstone_not_found'' ''tombstone was not found'' in
      and_then (ok_or not_there
        (find (\<lambda>t. ts_snapshot_id t = snapshot_id) (db_tombstones d))) (\<lambda>t.
      and_then (ok_or not_there
        (find (\<lambda>a. da_tombstone_id a = ts_id t) (db_deletion_audits d))) (\<lambda>audit.
      and_then (ok_or not_there
        (find (\<lambda>s. sn_id s = ts_snapshot_id t) (db_snapshots d))) (\<lambda>s.
      and_then (ok_or internal (u32_try_from (sn_artifact_count s))) (\<lambda>n.
      and_then (ok_or internal (u64_try_from (sn_total_original_size_bytes s))) (\<lambda>original.
      and_then (ok_or internal (u64_try_from (sn_total_stored_size_bytes s))) (\<lambda>stored.
      Inr \<lparr>tr_tombstone_id = ts_id t, tr_deletion_audit_id = da_id audit,
           tr_owner_namespace = ts_owner_namespace t, tr_session_id = ts_session_id t,
           tr_snapshot_id = ts_snapshot_id t,
           tr_snapshot_fingerprint = digest_document_value (ts_snapshot_fingerprint_sha256 t),
           tr_manifest_sha256 = digest_document_value (ts_manifest_sha256 t),
           tr_snapshot_completed_at = ts_snapshot_completed_at t,
           tr_deleted_at = ts_deleted_at t, tr_deleted_at_sort_key = ts_deleted_at_seq t,
           tr_reason = ts_reason t,
           tr_capture_count =
             length (filter (\<lambda>c. cp_snapshot_id c = ts_snapshot_id t) (db_captures d)),
           tr_rearchived_snapshot_id = ts_rearchived_snapshot_id t,
           tr_rearchived_snapshot_url =
             map_option (\<lambda>i. ''/api/v1/snapshots/'' @ i) (ts_rearchived_snapshot_id t),
           tr_historical_receipt =
             \<lparr>receipt_version = 2,
              rc_archive_instance_id = archive_instance_id (srv_identity srv),
              rc_owner_namespace = ts_owner_namespace t, rc_snapshot_id = ts_snapshot_id t,
              rc_session_id = ts_session_id t,
              rc_snapshot_fingerprint = digest_document_value (ts_snapshot_fingerprint_sha256 t),
              rc_manifest_sha256 = digest_document_value (ts_manifest_sha256 t),
              rc_artifact_count = n, rc_total_original_bytes = original,
              rc_total_stored_bytes = stored,
              rc_completed_at = ts_snapshot_completed_at t\<rparr>\<rparr>)))))))"

section \<open>Deleting a snapshot\<close>

record deletion_times =
  dt_deleted_at :: string
  dt_deleted_at_seq :: int
  dt_eligible_after :: string
  dt_eligible_after_seq :: int

definition deletion_times_at :: "server \<Rightarrow> offset_date_time \<Rightarrow> deletion_times result" where
  "deletion_times_at srv t =
     and_then (ok_or internal (format_time (ext srv) t)) (\<lambda>deleted_at.
     and_then (ok_or (panicked ''microsecond timestamps fit'') (sort_key_from_timestamp t))
       (\<lambda>deleted_at_seq.
     let eligible_at = expiration_time t (srv_blob_gc_grace srv) in
     and_then (ok_or internal (format_time (ext srv) eligible_at)) (\<lambda>eligible_after.
     and_then (ok_or (panicked ''microsecond timestamps fit'')
       (sort_key_from_timestamp eligible_at)) (\<lambda>eligible_after_seq.
     Inr \<lparr>dt_deleted_at = deleted_at, dt_deleted_at_seq = deleted_at_seq,
          dt_eligible_after = eligible_after, dt_eligible_after_seq = eligible_after_seq\<rparr>))))"

definition tombstone_row_of ::
  "env \<Rightarrow> deletion_times \<Rightarrow> string option \<Rightarrow> snapshot_row \<Rightarrow> manifest_row \<Rightarrow> tombstone_row" where
  "tombstone_row_of e dt reason s m =
     \<lparr>ts_id = new_id e New_Tombstone, ts_owner_namespace = sn_owner_namespace s,
      ts_session_id = sn_session_id s, ts_snapshot_id = sn_id s,
      ts_snapshot_fingerprint_sha256 = sn_fingerprint_sha256 s, ts_manifest_sha256 = mf_sha256 m,
      ts_snapshot_completed_at = sn_completed_at s, ts_deleted_at = dt_deleted_at dt,
      ts_deleted_at_seq = dt_deleted_at_seq dt, ts_reason = reason,
      ts_rearchived_snapshot_id = None\<rparr>"

definition deletion_audit_of ::
  "env \<Rightarrow> deletion_times \<Rightarrow> string option \<Rightarrow> snapshot_row \<Rightarrow> manifest_row \<Rightarrow> deletion_audit_row" where
  "deletion_audit_of e dt reason s m =
     \<lparr>da_id = new_id e New_Deletion_Audit, da_tombstone_id = new_id e New_Tombstone,
      da_owner_namespace = sn_owner_namespace s, da_session_id = sn_session_id s,
      da_snapshot_id = sn_id s, da_snapshot_fingerprint_sha256 = sn_fingerprint_sha256 s,
      da_manifest_sha256 = mf_sha256 m, da_occurred_at = dt_deleted_at dt,
      da_occurred_at_seq = dt_deleted_at_seq dt, da_reason = reason\<rparr>"

definition schedule_all ::
  "deletion_times \<Rightarrow> (string \<times> string) list \<Rightarrow> database \<Rightarrow> database" where
  "schedule_all dt blobs d =
     fold (\<lambda>(blob_id, _). schedule_or_clear_blob_candidate blob_id (dt_deleted_at dt)
       (dt_eligible_after dt) (dt_eligible_after_seq dt)) blobs d"

definition delete_snapshot_transaction ::
  "env \<Rightarrow> deletion_times \<Rightarrow> string option \<Rightarrow> string \<Rightarrow> database \<Rightarrow> (unit \<times> database) result" where
  "delete_snapshot_transaction e dt reason snapshot_id d =
     and_then (ok_or (not_found ''snapshot_not_found'' ''snapshot was not found'')
       (snapshot_deletion_row snapshot_id d)) (\<lambda>(live, m).
     if sn_deleted_at live \<noteq> None then commit (\<lambda>_. database_error) e Commit_Deletion ((), d)
     else
       let blobs = artifact_blobs snapshot_id d in
       and_then (insert_row (\<lambda>r r'. ts_id r = ts_id r' \<or> ts_snapshot_id r = ts_snapshot_id r')
         (tombstone_row_of e dt reason live m) (db_tombstones d)) (\<lambda>tombstones.
       and_then (insert_row (\<lambda>r r'. da_id r = da_id r' \<or> da_tombstone_id r = da_tombstone_id r'
           \<or> da_snapshot_id r = da_snapshot_id r')
         (deletion_audit_of e dt reason live m) (db_deletion_audits d)) (\<lambda>audits.
       let d1 = d\<lparr>db_tombstones := tombstones, db_deletion_audits := audits,
                  db_snapshots := update_where (\<lambda>s. sn_id s = sn_id live \<and> sn_deleted_at s = None)
                    (\<lambda>s. s\<lparr>sn_deleted_at := Some (dt_deleted_at dt)\<rparr>) (db_snapshots d),
                  db_artifacts :=
                    delete_where (\<lambda>a. ar_snapshot_id a = sn_id live) (db_artifacts d)\<rparr>;
           d2 = schedule_all dt blobs d1;
           d3 = rebuild_session_latest_context (sn_session_id live) d2
       in commit (\<lambda>_. database_error) e Commit_Deletion ((), d3))))"

text \<open>Reading the snapshot and checking the confirmation; done before and after the identity lock.\<close>

definition check_deletion ::
  "string \<Rightarrow> header_value option \<Rightarrow> string option \<Rightarrow> database \<Rightarrow> snapshot_row result" where
  "check_deletion snapshot_id header body d =
     and_then (ok_or (not_found ''snapshot_not_found'' ''snapshot was not found'')
       (snapshot_deletion_row snapshot_id d)) (\<lambda>(row, _).
     and_then (confirm_snapshot_deletion header body (sn_id row) (sn_fingerprint_sha256 row))
       (\<lambda>_. Inr row))"

definition delete_snapshot ::
  "server \<Rightarrow> env \<Rightarrow> string \<Rightarrow> header_value option \<Rightarrow> delete_snapshot_request option
     \<Rightarrow> (archive, tombstone_response) op" where
  "delete_snapshot srv e path header payload =
     try_op (require_admin_enabled srv) (\<lambda>_.
     try_op (parse_uuid (ext srv) path ''snapshot identifier is not a UUID'') (\<lambda>snapshot_id.
     try_op (deletion_reason payload) (\<lambda>reason.
     let body = Option.bind payload ds_confirmation in
     bind_op (query (check_deletion snapshot_id header body)) (\<lambda>initial.
     if sn_deleted_at initial \<noteq> None then query (tombstone_response_of srv snapshot_id)
     else
       bind_op (query (check_deletion snapshot_id header body)) (\<lambda>current.
       if sn_deleted_at current \<noteq> None then query (tombstone_response_of srv snapshot_id)
       else
         try_op (deletion_times_at srv (now e)) (\<lambda>dt.
         bind_op (transact (delete_snapshot_transaction e dt reason snapshot_id)) (\<lambda>_.
         query (tombstone_response_of srv snapshot_id))))))))"

definition get_tombstone :: "server \<Rightarrow> string \<Rightarrow> (archive, tombstone_response) op" where
  "get_tombstone srv path =
     try_op (require_admin_enabled srv) (\<lambda>_.
     try_op (parse_uuid (ext srv) path ''snapshot identifier is not a UUID'') (\<lambda>snapshot_id.
     query (tombstone_response_of srv snapshot_id)))"

section \<open>Collecting blobs\<close>

definition gc_eligible :: "int \<Rightarrow> blob_row \<Rightarrow> bool" where
  "gc_eligible now_seq b =
     (case bl_eligible_after_seq b of None \<Rightarrow> False | Some seq \<Rightarrow> seq \<le> now_seq)"

definition gc_candidates :: "int \<Rightarrow> database \<Rightarrow> blob_row list" where
  "gc_candidates now_seq d =
     take GC_BATCH_SIZE (sort_key (\<lambda>b. (the (bl_eligible_after_seq b), bl_id b))
       (filter (gc_eligible now_seq) (db_blobs d)))"

definition clear_candidate :: "string \<Rightarrow> database \<Rightarrow> database" where
  "clear_candidate blob_id d =
     d\<lparr>db_blobs := update_where (\<lambda>b. bl_id b = blob_id)
       (\<lambda>b. b\<lparr>bl_orphaned_at := None, bl_eligible_after := None,
              bl_eligible_after_seq := None\<rparr>) (db_blobs d)\<rparr>"

text \<open>One candidate, under the lock of its digest: the eligibility and the references are checked
  again; the row is deleted in a transaction that commits after the file is removed, so a failed
  commit leaves a row without a file. The result tells whether a blob was deleted.\<close>

definition collect_candidate ::
  "env \<Rightarrow> int \<Rightarrow> blob_row \<Rightarrow> archive \<Rightarrow> (maintenance_error + bool) \<times> archive" where
  "collect_candidate e now_seq candidate s =
     (if \<not> list_ex (\<lambda>b. bl_id b = bl_id candidate \<and> gc_eligible now_seq b) (db_blobs (db s))
      then (if commit_fails e (Commit_Collected (bl_id candidate)) = None then (Inr False, s) else (Inl Maintenance_Operation, s))
      else if has_live_reference (db s) (bl_id candidate)
      then (if commit_fails e (Commit_Collected (bl_id candidate)) = None
            then (Inr False, s\<lparr>db := clear_candidate (bl_id candidate) (db s)\<rparr>)
            else (Inl Maintenance_Operation, s))
      else if io_fails e (Remove_Blob (bl_stored_sha256 candidate))
      then (Inl Maintenance_Operation, s)
      else
        let unlinked = s\<lparr>fs := unlink_blob_file (bl_stored_sha256 candidate) (fs s)\<rparr>
        in if commit_fails e (Commit_Collected (bl_id candidate)) = None
           then (Inr True, unlinked\<lparr>db := (db s)\<lparr>db_blobs :=
                  delete_where (\<lambda>b. bl_id b = bl_id candidate) (db_blobs (db s))\<rparr>\<rparr>)
           else (Inl Maintenance_Operation, unlinked))"

fun collect_each ::
  "env \<Rightarrow> int \<Rightarrow> blob_row list \<Rightarrow> nat \<Rightarrow> archive \<Rightarrow> (maintenance_error + nat) \<times> archive" where
  "collect_each e now_seq [] deleted s = (Inr deleted, s)"
| "collect_each e now_seq (b # bs) deleted s =
     (case collect_candidate e now_seq b s of
        (Inl err, s') \<Rightarrow> (Inl err, s')
      | (Inr was_deleted, s') \<Rightarrow>
          if was_deleted \<and> deleted + 1 > u32_max then (Inl Maintenance_Operation, s')
          else collect_each e now_seq bs (if was_deleted then deleted + 1 else deleted) s')"

definition collect_orphaned_blobs_at ::
  "env \<Rightarrow> offset_date_time \<Rightarrow> archive \<Rightarrow> (maintenance_error + blob_gc_response) \<times> archive" where
  "collect_orphaned_blobs_at e t s =
     (case sort_key_from_timestamp t of
        None \<Rightarrow> (Inl Maintenance_Clock, s)
      | Some now_seq \<Rightarrow>
          let candidates = gc_candidates now_seq (db s) in
          (case collect_each e now_seq candidates 0 s of
             (Inl err, s') \<Rightarrow> (Inl err, s')
           | (Inr deleted, s') \<Rightarrow>
               (Inr \<lparr>inspected_blobs = length candidates, deleted_blobs = deleted\<rparr>, s')))"

definition run_blob_gc :: "server \<Rightarrow> env \<Rightarrow> (archive, blob_gc_response) op" where
  "run_blob_gc srv e =
     try_op (require_admin_enabled srv) (\<lambda>_ s.
       case collect_orphaned_blobs_at e (now e) s of
         (Inl _, s') \<Rightarrow> (Inl internal, s')
       | (Inr r, s') \<Rightarrow> (Inr r, s'))"

end
