(* ===== verification/Blob_Invariant.thy ===== *)
theory Blob_Invariant
  imports Deletion
begin

text \<open>
  The promise of the archive: every artifact row can be read back. Its blob row exists, the blob
  file holds bytes of the recorded size and digest, and these bytes decode to an original of the
  recorded size and digest. \<open>blob_inv\<close> states it together with the uniqueness of blob and snapshot
  rows; the lemmas show that the operations preserve it.
\<close>

section \<open>The invariant\<close>

definition blob_stored :: "externals \<Rightarrow> files \<Rightarrow> blob_row \<Rightarrow> bytes \<Rightarrow> bool" where
  "blob_stored x f b bs =
     (blob_file f (bl_stored_sha256 b) = Some (Regular bs)
       \<and> int (length bs) = bl_stored_size_bytes b \<and> sha256_hex x bs = bl_stored_sha256 b)"

definition readable :: "externals \<Rightarrow> database \<Rightarrow> files \<Rightarrow> artifact_row \<Rightarrow> bool" where
  "readable x d f a =
     (\<exists>b \<in> set (db_blobs d). bl_id b = ar_blob_id a
        \<and> (\<exists>bs c original. blob_stored x f b bs \<and> parse_compression (bl_compression b) = Some c
              \<and> original_stream x c bs = Inr original
              \<and> int (length original) = ar_original_size_bytes a
              \<and> sha256_hex x original = ar_original_sha256 a))"

definition live_ids :: "database \<Rightarrow> string set" where
  "live_ids d = {sn_id s | s. s \<in> set (db_snapshots d) \<and> sn_deleted_at s = None}"

definition blob_key :: "blob_row \<Rightarrow> string \<times> string" where
  "blob_key b = (bl_owner_namespace b, bl_stored_sha256 b)"

definition live_fingerprints_unique :: "database \<Rightarrow> bool" where
  "live_fingerprints_unique d =
     distinct (map (\<lambda>s. (sn_session_id s, sn_fingerprint_sha256 s))
       (filter (\<lambda>s. sn_deleted_at s = None) (db_snapshots d)))"

definition blob_inv :: "server \<Rightarrow> archive \<Rightarrow> bool" where
  "blob_inv srv s =
     (distinct (map bl_id (db_blobs (db s))) \<and> distinct (map blob_key (db_blobs (db s)))
       \<and> (\<forall>b \<in> set (db_blobs (db s)). bl_owner_namespace b = owner srv)
       \<and> distinct (map sn_id (db_snapshots (db s))) \<and> live_fingerprints_unique (db s)
       \<and> (\<forall>a \<in> set (db_artifacts (db s)).
             ar_snapshot_id a \<in> live_ids (db s) \<and> readable (ext srv) (db s) (fs s) a))"

lemma blob_invD:
  assumes "blob_inv srv s"
  shows "distinct (map bl_id (db_blobs (db s)))" "distinct (map blob_key (db_blobs (db s)))"
    and "b \<in> set (db_blobs (db s)) \<Longrightarrow> bl_owner_namespace b = owner srv"
    and "distinct (map sn_id (db_snapshots (db s)))" "live_fingerprints_unique (db s)"
    and "a \<in> set (db_artifacts (db s)) \<Longrightarrow> ar_snapshot_id a \<in> live_ids (db s)"
    and "a \<in> set (db_artifacts (db s)) \<Longrightarrow> readable (ext srv) (db s) (fs s) a"
  using assms by (simp_all add: blob_inv_def)

text \<open>What the invariant depends on.\<close>

definition blob_view ::
  "archive \<Rightarrow> blob_row list \<times> artifact_row list \<times> snapshot_row list \<times> (string \<times> entry) list" where
  "blob_view s = (db_blobs (db s), db_artifacts (db s), db_snapshots (db s), blob_files (fs s))"

lemma blob_inv_view: "blob_view s = blob_view t \<Longrightarrow> blob_inv srv s = blob_inv srv t"
  by (simp add: blob_view_def blob_inv_def live_fingerprints_unique_def live_ids_def readable_def
      blob_stored_def blob_file_def)

text \<open>An operation that leaves the view alone keeps every property of the view.\<close>

abbreviation keeps_blob_view :: "(archive, 'a) op \<Rightarrow> bool" where
  "keeps_blob_view m \<equiv> (\<forall>v. preserves (\<lambda>s. blob_view s = v) m)"

lemma keeps_blob_view_inv: "keeps_blob_view m \<Longrightarrow> preserves (blob_inv srv) m"
  unfolding preserves_def using blob_inv_view by metis

section \<open>Requests that do not touch blobs\<close>

lemma view_transact:
  assumes "\<And>d v d'. f d = Inr (v, d') \<Longrightarrow>
      db_blobs d' = db_blobs d \<and> db_artifacts d' = db_artifacts d \<and> db_snapshots d' = db_snapshots d"
  shows "preserves (\<lambda>s. blob_view s = v) (transact f)"
  by (intro preserves_transact) (use assms in \<open>fastforce simp: blob_view_def\<close>)

lemma view_files [simp]:
  "blob_files (link_chunk_file u a c bs f) = blob_files f"
  "blob_files (unlink_chunk_file u a c f) = blob_files f"
  "blob_files (remove_upload_dir u f) = blob_files f"
  by (simp_all add: link_chunk_file_def unlink_chunk_file_def remove_upload_dir_def)

lemma blob_view_fs [simp]:
  "blob_files f = blob_files (fs s) \<Longrightarrow> blob_view (s\<lparr>fs := f\<rparr>) = blob_view s"
  by (simp add: blob_view_def)

lemma view_modify [preserves_intros]:
  "(\<And>s. blob_view (f s) = blob_view s) \<Longrightarrow> preserves (\<lambda>s. blob_view s = v) (modify_op f)"
  by (intro preserves_modify) simp

lemma register_client_view: "keeps_blob_view (register_client srv e path payload)"
  unfolding register_client_def
  by (intro allI preserves_intros view_transact) (auto simp: commit_eq_Inr)

lemma terminalize_view: "keeps_blob_view (terminalize_upload_locked srv e upload reason)"
  unfolding terminalize_upload_locked_def remove_upload_dir_op_def
  by (intro allI preserves_intros view_transact)
    (auto simp: terminalize_transaction_def delete_upload_detail_def commit_eq_Inr
      split: option.splits if_splits)

lemma require_active_view: "keeps_blob_view (require_active_upload srv e uid)"
  unfolding require_active_upload_def
  by (intro allI preserves_intros) (simp_all add: terminalize_view)

lemma persist_upload_view:
  "persist_upload srv e client_id cid m json sha layout now_text expires d = Inr (v, d') \<Longrightarrow>
     db_blobs d' = db_blobs d \<and> db_artifacts d' = db_artifacts d \<and> db_snapshots d' = db_snapshots d"
  by (auto simp: persist_upload_def get_or_create_session_def persist_new_upload_detail_def
      and_then_eq_Inr commit_eq_Inr split: option.splits if_splits prod.splits)

lemma expire_uploads_view: "keeps_blob_view (expire_uploads_op srv e t)"
  using terminalize_view by (intro allI expire_uploads_preserves) blast

lemma create_upload_view: "keeps_blob_view (create_upload srv e payload)"
  unfolding create_upload_def Let_def
  by (intro allI preserves_intros view_transact)
    (auto simp: expire_uploads_view persist_upload_view split: prod.splits intro!: preserves_intros)

lemma get_upload_status_view: "keeps_blob_view (get_upload_status srv e path)"
  unfolding get_upload_status_def
  by (intro allI preserves_intros) (simp_all add: terminalize_view)

lemma abandon_upload_view: "keeps_blob_view (abandon_upload srv e path)"
  unfolding abandon_upload_def
  by (intro allI preserves_intros) (simp_all add: terminalize_view)

lemma persist_chunk_record_view:
  "persist_chunk_record e upload ai ci len sha at d = Inr (u, d') \<Longrightarrow>
     db_blobs d' = db_blobs d \<and> db_artifacts d' = db_artifacts d \<and> db_snapshots d' = db_snapshots d"
  by (drule persist_chunk_record_tables, erule ssubst) simp

lemma store_chunk_file_view: "keeps_blob_view (store_chunk_file srv e uid ai ci body request)"
  unfolding store_chunk_file_def
  by (intro allI preserves_intros view_modify) simp_all

lemma accept_new_chunk_view: "keeps_blob_view (accept_new_chunk srv e upload a ai ci body request)"
  unfolding accept_new_chunk_def
  by (intro allI preserves_intros view_transact)
    (auto simp: store_chunk_file_view persist_chunk_record_view refresh_upload_status_def
      and_then_eq_Inr commit_eq_Inr)

lemma repeat_chunk_view: "keeps_blob_view (repeat_chunk srv upload ai ci request row)"
  unfolding repeat_chunk_def by (intro allI preserves_intros)

lemma put_artifact_chunk_view: "keeps_blob_view (put_artifact_chunk srv e p q r h body)"
  unfolding put_artifact_chunk_def
  by (intro allI preserves_intros)
    (simp_all add: require_active_view accept_new_chunk_view repeat_chunk_view)

section \<open>Changing blob rows and files\<close>

text \<open>The immutable part of a blob row.\<close>

definition same_blob :: "blob_row \<Rightarrow> blob_row \<Rightarrow> bool" where
  "same_blob b b' =
     (bl_id b' = bl_id b \<and> bl_owner_namespace b' = bl_owner_namespace b
       \<and> bl_stored_sha256 b' = bl_stored_sha256 b \<and> bl_stored_size_bytes b' = bl_stored_size_bytes b
       \<and> bl_compression b' = bl_compression b)"

lemma same_blob_refl [simp]: "same_blob b b"
  by (simp add: same_blob_def)

lemma same_blob_trans: "same_blob b c \<Longrightarrow> same_blob c d \<Longrightarrow> same_blob b d"
  by (simp add: same_blob_def)

lemma readable_mono:
  assumes "readable x d f a"
    and "\<And>b. b \<in> set (db_blobs d) \<Longrightarrow> bl_id b = ar_blob_id a \<Longrightarrow>
      (\<exists>b' \<in> set (db_blobs d'). same_blob b b')
        \<and> (blob_file f (bl_stored_sha256 b) \<noteq> None \<longrightarrow>
            blob_file f' (bl_stored_sha256 b) = blob_file f (bl_stored_sha256 b))"
  shows "readable x d' f' a"
proof -
  obtain b bs c original where b: "b \<in> set (db_blobs d)" "bl_id b = ar_blob_id a"
    "blob_stored x f b bs" "parse_compression (bl_compression b) = Some c"
    "original_stream x c bs = Inr original" "int (length original) = ar_original_size_bytes a"
    "sha256_hex x original = ar_original_sha256 a"
    using assms(1) unfolding readable_def by blast
  from assms(2) [OF b(1,2)] obtain b' where b': "b' \<in> set (db_blobs d')" "same_blob b b'"
    and f: "blob_file f (bl_stored_sha256 b) \<noteq> None \<longrightarrow>
      blob_file f' (bl_stored_sha256 b) = blob_file f (bl_stored_sha256 b)"
    by blast
  have "blob_stored x f' b' bs"
    using b(3) b'(2) f by (simp add: blob_stored_def same_blob_def)
  with b b' show ?thesis
    unfolding readable_def same_blob_def by metis
qed

text \<open>Updates that keep the immutable part.\<close>

lemma update_where_same_blob:
  assumes "\<And>b. same_blob b (f b)"
  shows "map bl_id (update_where p f t) = map bl_id t"
    and "map blob_key (update_where p f t) = map blob_key t"
    and "b \<in> set t \<Longrightarrow> \<exists>b' \<in> set (update_where p f t). same_blob b b'"
    and "b' \<in> set (update_where p f t) \<Longrightarrow> \<exists>b \<in> set t. same_blob b b'"
  using assms by (auto simp: update_where_def same_blob_def blob_key_def)

definition blob_columns_kept :: "blob_row list \<Rightarrow> blob_row list \<Rightarrow> bool" where
  "blob_columns_kept t t' =
     (map bl_id t' = map bl_id t \<and> map blob_key t' = map blob_key t
       \<and> (\<forall>b \<in> set t. \<exists>b' \<in> set t'. same_blob b b') \<and> (\<forall>b' \<in> set t'. \<exists>b \<in> set t. same_blob b b'))"

lemma blob_columns_kept_refl [simp]: "blob_columns_kept t t"
  by (auto simp: blob_columns_kept_def intro: same_blob_refl)

lemma blob_columns_kept_trans:
  "blob_columns_kept t u \<Longrightarrow> blob_columns_kept u v \<Longrightarrow> blob_columns_kept t v"
  unfolding blob_columns_kept_def by (auto, (meson same_blob_trans)+)

lemma blob_columns_kept_update:
  "(\<And>b. same_blob b (f b)) \<Longrightarrow> blob_columns_kept t (update_where p f t)"
  using update_where_same_blob [of f] by (simp add: blob_columns_kept_def)

lemma blob_inv_columns_kept:
  assumes inv: "blob_inv srv s" and kept: "blob_columns_kept (db_blobs (db s)) blobs"
  shows "blob_inv srv (s\<lparr>db := (db s)\<lparr>db_blobs := blobs\<rparr>\<rparr>)"
proof -
  let ?d = "(db s)\<lparr>db_blobs := blobs\<rparr>"
  have maps: "map bl_id blobs = map bl_id (db_blobs (db s))"
    "map blob_key blobs = map blob_key (db_blobs (db s))"
    and fwd: "\<And>b. b \<in> set (db_blobs (db s)) \<Longrightarrow> \<exists>b' \<in> set blobs. same_blob b b'"
    and bwd: "\<And>b'. b' \<in> set blobs \<Longrightarrow> \<exists>b \<in> set (db_blobs (db s)). same_blob b b'"
    using kept by (auto simp: blob_columns_kept_def)
  have "readable (ext srv) ?d (fs s) a" if "a \<in> set (db_artifacts (db s))" for a
    using blob_invD(7) [OF inv that] by (rule readable_mono) (simp add: fwd)
  moreover have "bl_owner_namespace b' = owner srv" if b': "b' \<in> set blobs" for b'
    using bwd [OF b'] blob_invD(3) [OF inv] by (metis same_blob_def)
  ultimately show ?thesis
    using inv by (simp add: blob_inv_def maps live_fingerprints_unique_def live_ids_def)
qed

lemma clear_candidate_inv:
  "blob_inv srv s \<Longrightarrow> blob_inv srv (s\<lparr>db := clear_candidate bid (db s)\<rparr>)"
  unfolding clear_candidate_def
  by (intro blob_inv_columns_kept blob_columns_kept_update) (simp_all add: same_blob_def)

text \<open>Removing the file, and possibly the row, of a blob that no artifact refers to.\<close>

lemma has_live_reference_iff:
  assumes "blob_inv srv s"
  shows "has_live_reference (db s) bid \<longleftrightarrow> bid \<in> ar_blob_id ` set (db_artifacts (db s))"
  using assms by (fastforce simp: has_live_reference_def list_ex_iff blob_inv_def live_ids_def)

lemma blob_digest_unique:
  assumes "blob_inv srv s" "b \<in> set (db_blobs (db s))" "b' \<in> set (db_blobs (db s))"
    "bl_stored_sha256 b = bl_stored_sha256 b'"
  shows "b = b'"
proof (rule distinct_key_eq)
  show "blob_key b = blob_key b'"
    using assms(2-4) blob_invD(3) [OF assms(1)] by (simp add: blob_key_def)
qed (use assms blob_invD(2) in blast)+

lemma unlink_unreferenced_inv:
  assumes inv: "blob_inv srv s"
    and other: "\<And>a b. a \<in> set (db_artifacts (db s)) \<Longrightarrow> b \<in> set (db_blobs (db s)) \<Longrightarrow>
      bl_id b = ar_blob_id a \<Longrightarrow> bl_stored_sha256 b \<noteq> digest"
  shows "blob_inv srv (s\<lparr>fs := unlink_blob_file digest (fs s)\<rparr>)"
proof -
  have "readable (ext srv) (db s) (unlink_blob_file digest (fs s)) a"
    if a: "a \<in> set (db_artifacts (db s))" for a
    using blob_invD(7) [OF inv a]
  proof (rule readable_mono)
    fix b assume "b \<in> set (db_blobs (db s))" "bl_id b = ar_blob_id a"
    with other [OF a this] show "(\<exists>b' \<in> set (db_blobs (db s)). same_blob b b')
        \<and> (blob_file (fs s) (bl_stored_sha256 b) \<noteq> None \<longrightarrow>
           blob_file (unlink_blob_file digest (fs s)) (bl_stored_sha256 b)
             = blob_file (fs s) (bl_stored_sha256 b))"
      by (auto intro: same_blob_refl)
  qed
  with inv show ?thesis by (simp add: blob_inv_def)
qed

lemma delete_unreferenced_inv:
  assumes inv: "blob_inv srv s" and unref: "bid \<notin> ar_blob_id ` set (db_artifacts (db s))"
  shows "blob_inv srv (s\<lparr>db := (db s)\<lparr>db_blobs :=
    delete_where (\<lambda>b. bl_id b = bid) (db_blobs (db s))\<rparr>\<rparr>)"
proof -
  let ?d = "(db s)\<lparr>db_blobs := delete_where (\<lambda>b. bl_id b = bid) (db_blobs (db s))\<rparr>"
  have "readable (ext srv) ?d (fs s) a" if a: "a \<in> set (db_artifacts (db s))" for a
    using blob_invD(7) [OF inv a]
  proof (rule readable_mono)
    fix b assume b: "b \<in> set (db_blobs (db s))" "bl_id b = ar_blob_id a"
    with a unref have "b \<in> set (db_blobs ?d)" by auto
    then show "(\<exists>b' \<in> set (db_blobs ?d). same_blob b b')
        \<and> (blob_file (fs s) (bl_stored_sha256 b) \<noteq> None \<longrightarrow>
           blob_file (fs s) (bl_stored_sha256 b) = blob_file (fs s) (bl_stored_sha256 b))"
      using same_blob_refl by blast
  qed
  with inv show ?thesis
    by (simp add: blob_inv_def live_fingerprints_unique_def live_ids_def distinct_map_delete_where)
qed

section \<open>The collector\<close>

definition candidate_of :: "database \<Rightarrow> blob_row \<Rightarrow> bool" where
  "candidate_of d c =
     (\<forall>b \<in> set (db_blobs d). bl_id b = bl_id c \<longrightarrow> bl_stored_sha256 b = bl_stored_sha256 c)"

lemma collect_candidate_inv:
  assumes inv: "blob_inv srv s" and cand: "candidate_of (db s) c"
  shows "blob_inv srv (snd (collect_candidate e k c s))"
proof (cases "list_ex (\<lambda>b. bl_id b = bl_id c \<and> gc_eligible k b) (db_blobs (db s))
    \<and> \<not> has_live_reference (db s) (bl_id c)")
  case False
  with inv clear_candidate_inv [OF inv] show ?thesis
    unfolding collect_candidate_def by simp
next
  case True
  then have unref: "bl_id c \<notin> ar_blob_id ` set (db_artifacts (db s))"
    using has_live_reference_iff [OF inv] by simp
  obtain b where b: "b \<in> set (db_blobs (db s))" "bl_id b = bl_id c"
    using True by (auto simp: list_ex_iff)
  let ?u = "s\<lparr>fs := unlink_blob_file (bl_stored_sha256 c) (fs s)\<rparr>"
  have u: "blob_inv srv ?u"
  proof (rule unlink_unreferenced_inv [OF inv])
    fix a b' assume a: "a \<in> set (db_artifacts (db s))" "b' \<in> set (db_blobs (db s))"
      "bl_id b' = ar_blob_id a"
    have "b' \<noteq> b" using a unref b(2) by force
    with blob_digest_unique [OF inv a(2) b(1)] cand b
    show "bl_stored_sha256 b' \<noteq> bl_stored_sha256 c"
      unfolding candidate_of_def by metis
  qed
  have "blob_inv srv (?u\<lparr>db := (db s)\<lparr>db_blobs :=
      delete_where (\<lambda>b. bl_id b = bl_id c) (db_blobs (db s))\<rparr>\<rparr>)"
    using delete_unreferenced_inv [OF u, of "bl_id c"] unref by simp
  with u inv True show ?thesis
    unfolding collect_candidate_def Let_def by simp
qed

definition blob_digests :: "database \<Rightarrow> (string \<times> string) set" where
  "blob_digests d = (\<lambda>b. (bl_id b, bl_stored_sha256 b)) ` set (db_blobs d)"

lemma candidate_of_digests:
  "candidate_of d c \<longleftrightarrow> (\<forall>h. (bl_id c, h) \<in> blob_digests d \<longrightarrow> h = bl_stored_sha256 c)"
  unfolding candidate_of_def blob_digests_def image_def by (auto; metis)

lemma collect_candidate_blobs:
  "blob_digests (db (snd (collect_candidate e k c s))) \<subseteq> blob_digests (db s)"
proof -
  have "blob_digests (clear_candidate bid d) = blob_digests d" for bid d
    unfolding blob_digests_def clear_candidate_def set_map [symmetric]
    by (simp add: map_update_where)
  moreover have "blob_digests (d\<lparr>db_blobs := delete_where p (db_blobs d)\<rparr>) \<subseteq> blob_digests d" for p d
    by (auto simp: blob_digests_def)
  ultimately show ?thesis
    unfolding collect_candidate_def Let_def by simp
qed

lemma collect_candidate_keeps_candidates:
  "candidate_of (db s) c' \<Longrightarrow> candidate_of (db (snd (collect_candidate e k c s))) c'"
  unfolding candidate_of_digests using collect_candidate_blobs by blast

lemma collect_each_inv:
  assumes "blob_inv srv s" "\<forall>c \<in> set cs. candidate_of (db s) c"
  shows "blob_inv srv (snd (collect_each e k cs n s))"
  using assms
proof (induction cs arbitrary: n s)
  case (Cons c cs)
  let ?s = "snd (collect_candidate e k c s)"
  have "blob_inv srv ?s" "\<forall>c \<in> set cs. candidate_of (db ?s) c"
    using Cons.prems collect_candidate_inv collect_candidate_keeps_candidates by auto
  with Cons.IH show ?case
    by (auto split: prod.splits sum.splits)
qed simp

lemma gc_candidates_of:
  assumes "blob_inv srv s" "c \<in> set (gc_candidates k (db s))"
  shows "candidate_of (db s) c"
proof -
  have "c \<in> set (db_blobs (db s))"
    using assms(2) by (auto simp: gc_candidates_def dest!: in_set_takeD)
  then show ?thesis
    using assms(1) distinct_key_eq [of bl_id] by (auto simp: candidate_of_def blob_inv_def)
qed

lemma collect_orphaned_blobs_inv:
  "blob_inv srv s \<Longrightarrow> blob_inv srv (snd (collect_orphaned_blobs_at e t s))"
  using collect_each_inv [of srv s "gc_candidates k (db s)" e k 0 for k] gc_candidates_of
  by (auto simp: collect_orphaned_blobs_at_def Let_def split: option.splits prod.splits sum.splits)
    (metis snd_conv)+

lemma run_blob_gc_inv: "preserves (blob_inv srv) (run_blob_gc srv' e)"
  unfolding run_blob_gc_def
  by (intro preserves_intros)
    (auto simp: preserves_def split: prod.splits sum.splits
      dest: collect_orphaned_blobs_inv [of srv _ e "now e"])

end
