(* ===== verification/Archive_Invariant.thy ===== *)
theory Archive_Invariant
  imports Blob_Invariant
begin

text \<open>
  The two requests that change snapshots and artifacts keep the invariant of the archive. Deleting
  a snapshot removes its artifact rows with it and only schedules blobs. Completing an upload
  links files that were verified against the manifest before any row refers to them; it relies on
  the manifests of the database giving one representation to each stored digest, and on the
  digest function having no collision on the bytes at hand.
\<close>

section \<open>Deleting a snapshot\<close>

lemma schedule_all_columns:
  "\<exists>blobs. schedule_all dt bs d = d\<lparr>db_blobs := blobs\<rparr> \<and> blob_columns_kept (db_blobs d) blobs"
proof (induction bs arbitrary: d)
  case Nil
  have "schedule_all dt [] d = d\<lparr>db_blobs := db_blobs d\<rparr>" by (simp add: schedule_all_def)
  then show ?case using blob_columns_kept_refl by blast
next
  case (Cons b bs)
  obtain i h where b: "b = (i, h)" by fastforce
  define d1 where "d1 = schedule_or_clear_blob_candidate i (dt_deleted_at dt)
    (dt_eligible_after dt) (dt_eligible_after_seq dt) d"
  have "\<exists>t. d1 = d\<lparr>db_blobs := t\<rparr> \<and> blob_columns_kept (db_blobs d) t"
    unfolding d1_def schedule_or_clear_blob_candidate_def
    by (intro exI conjI, rule refl, rule blob_columns_kept_update) (simp add: same_blob_def)
  then obtain t where t: "d1 = d\<lparr>db_blobs := t\<rparr>" "blob_columns_kept (db_blobs d) t"
    by blast
  from Cons.IH [of d1] obtain u where u: "schedule_all dt bs d1 = d1\<lparr>db_blobs := u\<rparr>"
    "blob_columns_kept (db_blobs d1) u"
    by blast
  have "schedule_all dt (b # bs) d = schedule_all dt bs d1"
    by (simp add: schedule_all_def b d1_def)
  with t u show ?case
    using blob_columns_kept_trans [of "db_blobs d" t u] by auto
qed

lemma mark_deleted_filter:
  "filter (\<lambda>s. sn_deleted_at s = None)
     (update_where (\<lambda>s. sn_id s = i \<and> sn_deleted_at s = None) (\<lambda>s. s\<lparr>sn_deleted_at := Some t\<rparr>) xs)
   = filter (\<lambda>s. sn_id s \<noteq> i) (filter (\<lambda>s. sn_deleted_at s = None) xs)"
  by (induction xs) (auto simp: update_where_def)

definition live_rows :: "database \<Rightarrow> snapshot_row list" where
  "live_rows d = filter (\<lambda>s. sn_deleted_at s = None) (db_snapshots d)"

lemma live_ids_rows: "live_ids d = sn_id ` set (live_rows d)"
  by (auto simp: live_ids_def live_rows_def)

lemma live_unique_rows: "live_fingerprints_unique d =
    distinct (map (\<lambda>s. (sn_session_id s, sn_fingerprint_sha256 s)) (live_rows d))"
  by (simp add: live_fingerprints_unique_def live_rows_def)

text \<open>The invariant does not depend on the tables of tombstones, audits and contexts.\<close>

lemma blob_inv_other_tables [simp]:
  "blob_inv srv (s\<lparr>db := d\<lparr>db_tombstones := x\<rparr>\<rparr>) = blob_inv srv (s\<lparr>db := d\<rparr>)"
  "blob_inv srv (s\<lparr>db := d\<lparr>db_deletion_audits := y\<rparr>\<rparr>) = blob_inv srv (s\<lparr>db := d\<rparr>)"
  "blob_inv srv (s\<lparr>db := d\<lparr>db_latest_contexts := z\<rparr>\<rparr>) = blob_inv srv (s\<lparr>db := d\<rparr>)"
  "blob_inv srv (s\<lparr>db := d\<lparr>db_uploads := u\<rparr>\<rparr>) = blob_inv srv (s\<lparr>db := d\<rparr>)"
  "blob_inv srv (s\<lparr>db := d\<lparr>db_captures := c\<rparr>\<rparr>) = blob_inv srv (s\<lparr>db := d\<rparr>)"
  by (auto intro!: blob_inv_view simp: blob_view_def)

lemma mark_deleted_inv:
  assumes inv: "blob_inv srv (s\<lparr>db := d\<rparr>)"
  shows "blob_inv srv (s\<lparr>db := d\<lparr>db_snapshots :=
      update_where (\<lambda>r. sn_id r = i \<and> sn_deleted_at r = None) (\<lambda>r. r\<lparr>sn_deleted_at := Some t\<rparr>)
        (db_snapshots d),
      db_artifacts := delete_where (\<lambda>a. ar_snapshot_id a = i) (db_artifacts d)\<rparr>\<rparr>)"
    (is "blob_inv srv (s\<lparr>db := ?d\<rparr>)")
proof -
  have rows: "live_rows ?d = filter (\<lambda>r. sn_id r \<noteq> i) (live_rows d)"
    by (simp add: live_rows_def mark_deleted_filter del: filter_filter)
  then have live: "live_ids ?d = live_ids d - {i}"
    by (auto simp: live_ids_rows)
  have "readable (ext srv) ?d (fs s) a" if "readable (ext srv) d (fs s) a" for a
    using that by (simp add: readable_def)
  moreover have "map sn_id (db_snapshots ?d) = map sn_id (db_snapshots d)"
    by (simp add: map_update_where)
  moreover have "live_fingerprints_unique ?d"
    using inv by (simp add: blob_inv_def live_unique_rows rows distinct_map_filter)
  ultimately show ?thesis
    using inv live by (simp add: blob_inv_def)
qed

lemma delete_snapshot_transaction_inv:
  assumes inv: "blob_inv srv s"
    and ok: "delete_snapshot_transaction e dt reason sid (db s) = Inr (u, d')"
  shows "blob_inv srv (s\<lparr>db := d'\<rparr>)"
proof -
  have s: "s\<lparr>db := db s\<rparr> = s" by simp
  obtain live m where row: "snapshot_deletion_row sid (db s) = Some (live, m)"
    using ok by (auto simp: delete_snapshot_transaction_def result_simps)
  show ?thesis
  proof (cases "sn_deleted_at live = None")
    case False
    with ok row inv show ?thesis
      by (auto simp: delete_snapshot_transaction_def result_simps)
  next
    case True
    with ok row obtain tombstones audits where d': "d' = rebuild_session_latest_context
        (sn_session_id live) (schedule_all dt (artifact_blobs sid (db s))
          ((db s)\<lparr>db_tombstones := tombstones, db_deletion_audits := audits,
            db_snapshots := update_where (\<lambda>r. sn_id r = sn_id live \<and> sn_deleted_at r = None)
                (\<lambda>r. r\<lparr>sn_deleted_at := Some (dt_deleted_at dt)\<rparr>) (db_snapshots (db s)),
            db_artifacts :=
              delete_where (\<lambda>a. ar_snapshot_id a = sn_id live) (db_artifacts (db s))\<rparr>))"
      (is "d' = rebuild_session_latest_context _ (schedule_all _ _ ?d1)")
      by (auto simp: delete_snapshot_transaction_def result_simps Let_def)
    have "blob_inv srv (s\<lparr>db := (db s)\<lparr>db_tombstones := tombstones, db_deletion_audits := audits\<rparr>\<rparr>)"
      using inv by simp
    from mark_deleted_inv [OF this, of "sn_id live" "dt_deleted_at dt"]
    have d1: "blob_inv srv (s\<lparr>db := ?d1\<rparr>)" by simp
    obtain blobs where "schedule_all dt (artifact_blobs sid (db s)) ?d1 = ?d1\<lparr>db_blobs := blobs\<rparr>"
      "blob_columns_kept (db_blobs ?d1) blobs"
      using schedule_all_columns by blast
    with d1 blob_inv_columns_kept [of srv "s\<lparr>db := ?d1\<rparr>" blobs] show ?thesis
      unfolding d' rebuild_session_latest_context_def by simp
  qed
qed

lemma delete_snapshot_inv: "preserves (blob_inv srv) (delete_snapshot srv' e path header payload)"
  unfolding delete_snapshot_def Let_def
  by (intro preserves_intros) (erule delete_snapshot_transaction_inv, assumption)

section \<open>Linking files\<close>

text \<open>The bytes of a prepared artifact were checked against its manifest entry.\<close>

definition verified :: "externals \<Rightarrow> prepared_artifact \<Rightarrow> bool" where
  "verified x p =
     (let a = pr_artifact p in
      length (pr_bytes p) = stored_size_bytes a \<and> sha256_hex x (pr_bytes p) = stored_digest a
       \<and> stored_size_bytes a \<le> i64_max \<and> original_size_bytes a \<le> i64_max
       \<and> (\<exists>original. original_stream x (compression a) (pr_bytes p) = Inr original
             \<and> length original = original_size_bytes a
             \<and> sha256_hex x original = digest_storage_value (original_sha256 a)))"

text \<open>A file that a later row can rely on.\<close>

definition promoted :: "externals \<Rightarrow> files \<Rightarrow> prepared_artifact \<Rightarrow> bool" where
  "promoted x f p =
     (\<exists>bs. blob_file f (stored_digest (pr_artifact p)) = Some (Regular bs)
        \<and> length bs = stored_size_bytes (pr_artifact p)
        \<and> sha256_hex x bs = stored_digest (pr_artifact p))"

definition files_in :: "bytes set \<Rightarrow> archive \<Rightarrow> bool" where
  "files_in U s = (\<forall>digest bs. blob_file (fs s) digest = Some (Regular bs) \<longrightarrow> bs \<in> U)"

text \<open>No file of \<open>s\<close> is lost or changed in \<open>t\<close>.\<close>

definition files_kept :: "archive \<Rightarrow> archive \<Rightarrow> bool" where
  "files_kept s t =
     (\<forall>digest. blob_file (fs s) digest \<noteq> None \<longrightarrow> blob_file (fs t) digest = blob_file (fs s) digest)"

lemma files_kept_refl [simp]: "files_kept s s"
  by (simp add: files_kept_def)

lemma files_kept_trans: "files_kept s t \<Longrightarrow> files_kept t u \<Longrightarrow> files_kept s u"
  unfolding files_kept_def by simp

lemma promoted_kept: "promoted x (fs s) p \<Longrightarrow> files_kept s t \<Longrightarrow> promoted x (fs t) p"
  unfolding promoted_def files_kept_def by (metis option.distinct(1))

lemma blob_inv_files_kept:
  assumes inv: "blob_inv srv s" and kept: "files_kept s t" and db: "db t = db s"
  shows "blob_inv srv t"
proof -
  have "readable (ext srv) (db t) (fs t) a" if "a \<in> set (db_artifacts (db s))" for a
    using blob_invD(7) [OF inv that]
    by (rule readable_mono) (use kept in \<open>auto simp: files_kept_def db intro: same_blob_refl\<close>)
  with inv show ?thesis by (simp add: blob_inv_def db)
qed

lemma promote_blob_effect:
  assumes run: "promote_blob srv e p s = (r, t)" and v: "verified (ext srv) p"
  shows "db t = db s" "files_kept s t" "r = Inr created \<Longrightarrow> promoted (ext srv) (fs t) p"
    and "files_in U s \<Longrightarrow> pr_bytes p \<in> U \<Longrightarrow> files_in U t"
proof -
  let ?digest = "stored_digest (pr_artifact p)"
  let ?linked = "s\<lparr>fs := link_blob_file ?digest (pr_bytes p) (fs s)\<rparr>"
  have size: "stored_size_bytes (pr_artifact p) \<le> u64_max"
    using v by (simp add: verified_def Let_def i64_max_def u64_max_def)
  have cases: "t = s \<and> (r = Inr created \<longrightarrow> promoted (ext srv) (fs s) p)
      \<or> blob_file (fs s) ?digest = None \<and> t = ?linked" for created
    using run unfolding promote_blob_def Let_def
    by (auto simp: bind_op_def modify_op_def read_op_def pure_op_def try_op_def promoted_def
        verify_stored_file_ok [OF size] stored_digest_def [symmetric]
        split: option.splits if_splits sum.splits)
  have linked: "promoted (ext srv) (fs ?linked) p"
    using v by (simp add: promoted_def verified_def Let_def)
  show "db t = db s" using cases [of created] by auto
  show "files_kept s t" using cases [of created] by (auto simp: files_kept_def)
  show "r = Inr created \<Longrightarrow> promoted (ext srv) (fs t) p" using cases [of created] linked by auto
  show "files_in U s \<Longrightarrow> pr_bytes p \<in> U \<Longrightarrow> files_in U t"
    using cases [of created] by (auto simp: files_in_def split: if_splits)
qed

lemma cleanup_inv:
  "preserves (\<lambda>s. blob_inv srv s \<and> files_in U s) (cleanup_uncommitted_promotions srv e ps)"
proof (induction ps)
  case (Cons p ps)
  have unlink: "blob_inv srv (s\<lparr>fs := unlink_blob_file (bp_stored_sha256 p) (fs s)\<rparr>)
      \<and> files_in U (s\<lparr>fs := unlink_blob_file (bp_stored_sha256 p) (fs s)\<rparr>)"
    if inv: "blob_inv srv s \<and> files_in U s"
      and free: "\<not> list_ex (blob_matches (owner srv) (bp_stored_sha256 p)) (db_blobs (db s))" for s
  proof
    show "blob_inv srv (s\<lparr>fs := unlink_blob_file (bp_stored_sha256 p) (fs s)\<rparr>)"
      using inv free
      by (intro unlink_unreferenced_inv)
        (auto simp: list_ex_iff blob_matches_def dest: blob_invD(3))
    show "files_in U (s\<lparr>fs := unlink_blob_file (bp_stored_sha256 p) (fs s)\<rparr>)"
      using inv by (auto simp: files_in_def split: if_splits)
  qed
  show ?case
  proof (cases "bp_created p")
    case False
    with Cons show ?thesis by simp
  next
    case True
    show ?thesis
      unfolding preserves_def
    proof (intro allI impI)
      fix s assume s: "blob_inv srv s \<and> files_in U s"
      let ?u = "s\<lparr>fs := unlink_blob_file (bp_stored_sha256 p) (fs s)\<rparr>"
      show "blob_inv srv (snd (cleanup_uncommitted_promotions srv e (p # ps) s))
          \<and> files_in U (snd (cleanup_uncommitted_promotions srv e (p # ps) s))"
        using Cons True s unlink [of s] unfolding preserves_def
        by (simp add: read_op_def bind_op_def modify_op_def pure_op_def)
    qed
  qed
qed (simp add: preserves_def pure_op_def)

lemma promote_unique_blobs_effect:
  assumes "promote_unique_blobs srv e promotions ps s = (r, t)"
    and "\<forall>p \<in> set ps. verified (ext srv) p \<and> pr_bytes p \<in> U"
    and "blob_inv srv s" "files_in U s"
  shows "blob_inv srv t \<and> files_in U t
    \<and> (\<forall>v. r = Inr v \<longrightarrow> db t = db s \<and> files_kept s t \<and> (\<forall>p \<in> set ps. promoted (ext srv) (fs t) p))"
  using assms
proof (induction ps arbitrary: promotions s)
  case (Cons p ps)
  obtain r1 s1 where run: "promote_blob srv e p s = (r1, s1)" by fastforce
  have v: "verified (ext srv) p" "pr_bytes p \<in> U" using Cons.prems(2) by simp_all
  note one = promote_blob_effect [OF run v(1)]
  have s1: "blob_inv srv s1" "files_in U s1"
    using blob_inv_files_kept [OF Cons.prems(3) one(2,1)] one(4) [OF Cons.prems(4) v(2)] by auto
  show ?case
  proof (cases r1)
    case (Inl err)
    with Cons.prems(1) run have "r = Inl err" "t = snd (cleanup_uncommitted_promotions srv e
        (promotions @ [promotion_of p True]) s1)"
      by (simp_all add: bind_op_def ignore_op_def pure_op_def)
    with s1 cleanup_inv [of srv U e] show ?thesis unfolding preserves_def by simp
  next
    case (Inr created)
    with Cons.prems(1) run
    have rest: "promote_unique_blobs srv e (promotions @ [promotion_of p created]) ps s1 = (r, t)"
      by simp
    from Cons.IH [OF this] Cons.prems(2) s1
    have ih: "blob_inv srv t" "files_in U t"
      "\<forall>v. r = Inr v \<longrightarrow> db t = db s1 \<and> files_kept s1 t \<and> (\<forall>p \<in> set ps. promoted (ext srv) (fs t) p)"
      by simp_all
    with one(1,2) one(3) [OF Inr] promoted_kept files_kept_trans show ?thesis
      by (metis set_ConsD)
  qed
qed (simp add: pure_op_def)

section \<open>Recording the snapshot\<close>

text \<open>The blob row of a prepared artifact.\<close>

definition row_for :: "prepared_artifact \<Rightarrow> blob_row \<Rightarrow> bool" where
  "row_for p b =
     (bl_stored_sha256 b = stored_digest (pr_artifact p)
       \<and> bl_stored_size_bytes b = int (stored_size_bytes (pr_artifact p))
       \<and> bl_compression b = compression_name (compression (pr_artifact p)))"

lemma row_for_same: "row_for p b \<Longrightarrow> same_blob b b' \<Longrightarrow> row_for p b'"
  by (simp add: row_for_def same_blob_def)

definition blobs_grow :: "database \<Rightarrow> database \<Rightarrow> bool" where
  "blobs_grow d d' =
     ((\<exists>blobs. d' = d\<lparr>db_blobs := blobs\<rparr>)
       \<and> (\<forall>b \<in> set (db_blobs d). \<exists>b' \<in> set (db_blobs d'). same_blob b b'))"

lemma blobs_grow_refl [simp]: "blobs_grow d d"
proof -
  have "d = d\<lparr>db_blobs := db_blobs d\<rparr>" by simp
  then show ?thesis unfolding blobs_grow_def using same_blob_refl by blast
qed

lemma blobs_grow_trans: "blobs_grow d d1 \<Longrightarrow> blobs_grow d1 d2 \<Longrightarrow> blobs_grow d d2"
  unfolding blobs_grow_def by (auto, meson same_blob_trans)

lemma insert_blob_inv:
  assumes inv: "blob_inv srv (s\<lparr>db := d\<rparr>)" and new: "\<not> list_ex (\<lambda>r. bl_id b = bl_id r) (db_blobs d)"
    "\<not> list_ex (blob_matches (owner srv) (bl_stored_sha256 b)) (db_blobs d)"
    "bl_owner_namespace b = owner srv"
  shows "blob_inv srv (s\<lparr>db := d\<lparr>db_blobs := db_blobs d @ [b]\<rparr>\<rparr>)"
proof -
  have "readable (ext srv) (d\<lparr>db_blobs := db_blobs d @ [b]\<rparr>) (fs s) a"
    if "readable (ext srv) d (fs s) a" for a
    using that by (rule readable_mono) (auto intro: same_blob_refl)
  moreover have "bl_id b \<notin> bl_id ` set (db_blobs d)" "blob_key b \<notin> blob_key ` set (db_blobs d)"
    using new by (auto simp: list_ex_iff blob_matches_def blob_key_def)
  ultimately show ?thesis
    using inv new(3) by (simp add: blob_inv_def live_fingerprints_unique_def live_ids_def)
qed

lemma get_or_create_blob_effect:
  assumes ok: "get_or_create_blob srv e k (pr_artifact p) now_text d = Inr (bid, d')"
    and inv: "blob_inv srv (s\<lparr>db := d\<rparr>)"
  shows "blob_inv srv (s\<lparr>db := d'\<rparr>) \<and> blobs_grow d d'
    \<and> (\<exists>b \<in> set (db_blobs d'). bl_id b = bid \<and> row_for p b)"
proof -
  let ?a = "pr_artifact p"
  let ?clear = "\<lambda>b. b\<lparr>bl_orphaned_at := None, bl_eligible_after := None, bl_eligible_after_seq := None\<rparr>"
  obtain blobs row where blobs: "d' = d\<lparr>db_blobs := update_where (\<lambda>r. bl_id r = bl_id row) ?clear blobs\<rparr>"
    and row: "find (blob_matches (owner srv) (stored_digest ?a)) blobs = Some row" "bl_id row = bid"
      "bl_stored_size_bytes row = int (stored_size_bytes ?a)"
      "bl_compression row = compression_name (compression ?a)"
    and cases: "blobs = db_blobs d \<or> (\<exists>b. blobs = db_blobs d @ [b]
       \<and> \<not> list_ex (\<lambda>r. bl_id b = bl_id r) (db_blobs d)
       \<and> \<not> list_ex (blob_matches (owner srv) (bl_stored_sha256 b)) (db_blobs d)
       \<and> bl_owner_namespace b = owner srv)"
    using ok unfolding get_or_create_blob_def
    by (auto simp: and_then_eq_Inr to_sqlite_i64_ok fetch_one_eq_Inr reject_if_eq_Inr
        insert_row_eq_Inr split: if_splits)
  have "blob_inv srv (s\<lparr>db := d\<lparr>db_blobs := blobs\<rparr>\<rparr>)"
    using cases inv insert_blob_inv [where srv = srv and s = s and d = d] by auto
  then have inv': "blob_inv srv (s\<lparr>db := d'\<rparr>)"
    using blob_inv_columns_kept [of srv "s\<lparr>db := d\<lparr>db_blobs := blobs\<rparr>\<rparr>"]
      blob_columns_kept_update [of ?clear] unfolding blobs by (simp add: same_blob_def)
  have up: "\<exists>b' \<in> set (db_blobs d'). same_blob b b'" if "b \<in> set blobs" for b
    using that update_where_same_blob(3) [of ?clear b blobs] unfolding blobs
    by (simp add: same_blob_def)
  have "set (db_blobs d) \<subseteq> set blobs"
    using cases by auto
  then have grow: "blobs_grow d d'"
    using up blobs unfolding blobs_grow_def by blast
  have "row \<in> set blobs" "row_for p row"
    using find_SomeD [OF row(1)] row(3,4) by (auto simp: blob_matches_def row_for_def)
  then obtain b' where "b' \<in> set (db_blobs d')" "same_blob row b'"
    using up by blast
  with \<open>row_for p row\<close> row(2) row_for_same [of p row b'] inv' grow show ?thesis
    unfolding same_blob_def by blast
qed

definition ids_backed :: "database \<Rightarrow> prepared_artifact list \<Rightarrow> (string \<times> string) list \<Rightarrow> bool" where
  "ids_backed d prepared ids =
     (\<forall>digest bid. map_of ids digest = Some bid \<longrightarrow>
        (\<exists>p \<in> set prepared. \<exists>b \<in> set (db_blobs d). bl_id b = bid \<and> row_for p b
           \<and> stored_digest (pr_artifact p) = digest))"

lemma ids_backed_grow: "ids_backed d prepared ids \<Longrightarrow> blobs_grow d d' \<Longrightarrow> ids_backed d' prepared ids"
proof -
  assume ids: "ids_backed d prepared ids" and grow: "blobs_grow d d'"
  show "ids_backed d' prepared ids"
    unfolding ids_backed_def
  proof (intro allI impI)
    fix digest bid assume "map_of ids digest = Some bid"
    with ids obtain p b where b: "p \<in> set prepared" "b \<in> set (db_blobs d)" "bl_id b = bid"
      "row_for p b" "stored_digest (pr_artifact p) = digest"
      unfolding ids_backed_def by blast
    from grow b(2) obtain b' where "b' \<in> set (db_blobs d')" "same_blob b b'"
      unfolding blobs_grow_def by blast
    with b row_for_same [of p b b'] show "\<exists>p \<in> set prepared. \<exists>b \<in> set (db_blobs d').
        bl_id b = bid \<and> row_for p b \<and> stored_digest (pr_artifact p) = digest"
      unfolding same_blob_def by auto
  qed
qed

lemma create_blob_rows_effect:
  assumes "create_blob_rows srv e now_text k ps ids d = Inr (ids', d')"
    and "set ps \<subseteq> set prepared" "ids_backed d prepared ids" "blob_inv srv (s\<lparr>db := d\<rparr>)"
  shows "blob_inv srv (s\<lparr>db := d'\<rparr>) \<and> blobs_grow d d' \<and> ids_backed d' prepared ids'"
  using assms
proof (induction ps arbitrary: k ids d)
  case (Cons p ps)
  let ?digest = "stored_digest (pr_artifact p)"
  show ?case
  proof (cases "map_of ids ?digest")
    case (Some bid)
    with Cons show ?thesis by simp
  next
    case None
    with Cons.prems(1) obtain bid d1
      where one: "get_or_create_blob srv e k (pr_artifact p) now_text d = Inr (bid, d1)"
      and rest: "create_blob_rows srv e now_text (k + 1) ps ((?digest, bid) # ids) d1 = Inr (ids', d')"
      by (auto simp: and_then_eq_Inr)
    note effect = get_or_create_blob_effect [OF one Cons.prems(4)]
    have p: "p \<in> set prepared" using Cons.prems(2) by simp
    have "ids_backed d1 prepared ids"
      using effect Cons.prems(3) ids_backed_grow by blast
    with effect p have "ids_backed d1 prepared ((?digest, bid) # ids)"
      unfolding ids_backed_def by auto
    with Cons.IH [OF rest] effect Cons.prems(2) blobs_grow_trans show ?thesis by auto
  qed
qed (auto simp: blobs_grow_refl)

text \<open>What the prepared artifacts of one request satisfy when their rows are written: they were
  verified, equal stored digests have one compression, and the files are in place.\<close>

definition ready :: "externals \<Rightarrow> bytes set \<Rightarrow> prepared_artifact list \<Rightarrow> bool" where
  "ready x U ps =
     (inj_on (sha256_digest x) U
       \<and> (\<forall>p \<in> set ps. verified x p \<and> pr_bytes p \<in> U)
       \<and> (\<forall>p \<in> set ps. \<forall>q \<in> set ps. stored_digest (pr_artifact p) = stored_digest (pr_artifact q)
             \<longrightarrow> compression (pr_artifact p) = compression (pr_artifact q)))"

definition in_place :: "prepared_artifact list \<Rightarrow> files \<Rightarrow> bool" where
  "in_place ps f =
     (\<forall>p \<in> set ps. blob_file f (stored_digest (pr_artifact p)) = Some (Regular (pr_bytes p)))"

lemma same_digest_same_bytes:
  assumes "inj_on (sha256_digest x) U" "bs \<in> U" "cs \<in> U" "sha256_hex x bs = sha256_hex x cs"
  shows "bs = cs"
  using assms by (simp add: sha256_hex_def hex_digest_inj inj_on_def)

lemma readable_prepared:
  assumes ready: "ready x U ps" and place: "in_place ps f" and p: "p \<in> set ps"
    and ids: "ids_backed d ps ids" "map_of ids (stored_digest (pr_artifact p)) = Some (ar_blob_id a)"
    and row: "ar_original_size_bytes a = int (original_size_bytes (pr_artifact p))"
      "ar_original_sha256 a = digest_storage_value (original_sha256 (pr_artifact p))"
  shows "readable x d f a"
proof -
  obtain q b where q: "q \<in> set ps" "stored_digest (pr_artifact q) = stored_digest (pr_artifact p)"
    and b: "b \<in> set (db_blobs d)" "bl_id b = ar_blob_id a" "row_for q b"
    using ids unfolding ids_backed_def by metis
  have vp: "verified x p" and vq: "verified x q" and U: "pr_bytes p \<in> U" "pr_bytes q \<in> U"
    and inj: "inj_on (sha256_digest x) U" and compr: "compression (pr_artifact q) = compression (pr_artifact p)"
    using ready p q unfolding ready_def by blast+
  have "sha256_hex x (pr_bytes q) = sha256_hex x (pr_bytes p)"
    using vp vq q(2) by (simp add: verified_def Let_def)
  then have bytes: "pr_bytes q = pr_bytes p"
    using same_digest_same_bytes inj U by blast
  have linked: "blob_file f (stored_digest (pr_artifact p)) = Some (Regular (pr_bytes p))"
    using place p by (simp add: in_place_def)
  have "blob_stored x f b (pr_bytes p)"
    using b(3) q(2) linked vp vq bytes by (simp add: blob_stored_def row_for_def verified_def Let_def)
  moreover have "parse_compression (bl_compression b) = Some (compression (pr_artifact p))"
    using b(3) compr by (simp add: row_for_def compression_enum.parse_as_str)
  ultimately show ?thesis
    unfolding readable_def using b(1,2) vp row by (auto simp: verified_def Let_def)
qed

lemma append_artifact_inv:
  assumes "blob_inv srv (s\<lparr>db := d\<rparr>)" "ar_snapshot_id a \<in> live_ids d" "readable (ext srv) d (fs s) a"
  shows "blob_inv srv (s\<lparr>db := d\<lparr>db_artifacts := db_artifacts d @ [a]\<rparr>\<rparr>)"
  using assms by (auto simp: blob_inv_def live_fingerprints_unique_def live_ids_def readable_def)

lemma append_snapshot_inv:
  assumes inv: "blob_inv srv (s\<lparr>db := d\<rparr>)" and live: "sn_deleted_at row = None"
    and new: "\<not> list_ex (snapshot_clash row) (db_snapshots d)"
  shows "blob_inv srv (s\<lparr>db := d\<lparr>db_snapshots := db_snapshots d @ [row]\<rparr>\<rparr>)"
proof -
  let ?d = "d\<lparr>db_snapshots := db_snapshots d @ [row]\<rparr>"
  have rows: "live_rows ?d = live_rows d @ [row]" using live by (simp add: live_rows_def)
  have "(sn_session_id row, sn_fingerprint_sha256 row)
      \<notin> (\<lambda>s. (sn_session_id s, sn_fingerprint_sha256 s)) ` set (live_rows d)"
    using new live by (force simp: list_ex_iff snapshot_clash_def live_rows_def)
  then have "live_fingerprints_unique ?d"
    using inv by (simp add: blob_inv_def live_unique_rows rows)
  moreover have "sn_id row \<notin> sn_id ` set (db_snapshots d)"
    using new by (auto simp: list_ex_iff snapshot_clash_def)
  moreover have "live_ids ?d = insert (sn_id row) (live_ids d)"
    by (simp add: live_ids_rows rows)
  moreover have "readable (ext srv) ?d (fs s) a" if "readable (ext srv) d (fs s) a" for a
    using that by (simp add: readable_def)
  ultimately show ?thesis
    using inv by (simp add: blob_inv_def)
qed

lemma insert_artifact_rows_inv:
  assumes ok: "try_fold (insert_artifact_row e sid ids now_text now_seq) (db_artifacts d)
      (enumerate 0 ps) = Inr rows"
    and inv: "blob_inv srv (s\<lparr>db := d\<rparr>)" and sid: "sid \<in> live_ids d"
    and ready: "ready (ext srv) U ps" "in_place ps (fs s)" "ids_backed d ps ids"
  shows "blob_inv srv (s\<lparr>db := d\<lparr>db_artifacts := rows\<rparr>\<rparr>)"
proof (rule try_fold_invariant [OF ok])
  show "blob_inv srv (s\<lparr>db := d\<lparr>db_artifacts := db_artifacts d\<rparr>\<rparr>)"
    using inv by simp
  fix table kp table'
  assume kp: "kp \<in> set (enumerate 0 ps)" and table: "blob_inv srv (s\<lparr>db := d\<lparr>db_artifacts := table\<rparr>\<rparr>)"
    and step: "insert_artifact_row e sid ids now_text now_seq table kp = Inr table'"
  obtain k p where kpp: "kp = (k, p)" by fastforce
  have p: "p \<in> set ps" using kp by (auto simp: kpp in_set_enumerate_eq)
  have "\<exists>a. table' = table @ [a] \<and> ar_snapshot_id a = sid
      \<and> map_of ids (stored_digest (pr_artifact p)) = Some (ar_blob_id a)
      \<and> ar_original_size_bytes a = int (original_size_bytes (pr_artifact p))
      \<and> ar_original_sha256 a = digest_storage_value (original_sha256 (pr_artifact p))"
    using step unfolding insert_artifact_row_def kpp
    by (auto simp: and_then_eq_Inr ok_or_eq_Inr to_sqlite_i64_ok insert_row_eq_Inr Let_def)
  then obtain a where a: "table' = table @ [a]" "ar_snapshot_id a = sid"
    "map_of ids (stored_digest (pr_artifact p)) = Some (ar_blob_id a)"
    "ar_original_size_bytes a = int (original_size_bytes (pr_artifact p))"
    "ar_original_sha256 a = digest_storage_value (original_sha256 (pr_artifact p))"
    by blast
  have "readable (ext srv) d (fs s) a"
    using readable_prepared [OF ready(1,2) p ready(3) a(3-5)] .
  with append_artifact_inv [OF table, of a] a sid show "blob_inv srv (s\<lparr>db := d\<lparr>db_artifacts := table'\<rparr>\<rparr>)"
    by (simp add: readable_def live_ids_def)
qed

text \<open>The rest of the transaction leaves blobs, artifacts and snapshots alone.\<close>

lemma finish_upload_row_inv:
  assumes "finish_upload_row srv' e upload m mid sid at transfer newly d = Inr d'"
    "blob_inv srv (s\<lparr>db := d\<rparr>)"
  shows "blob_inv srv (s\<lparr>db := d'\<rparr>)"
  using assms
  by (auto simp: finish_upload_row_def insert_capture_provenance_def and_then_eq_Inr
      maintain_session_latest_context_def upsert_session_latest_context_def
      split: if_splits option.splits)

lemma record_transaction_inv:
  assumes ok: "record_transaction srv e upload m ps fingerprint transfer newly now_text now_seq (db s)
      = Inr (recorded, d')"
    and inv: "blob_inv srv s" and ready: "ready (ext srv) U ps" "in_place ps (fs s)"
  shows "blob_inv srv (s\<lparr>db := d'\<rparr>)"
proof -
  obtain ids d1 where blobs: "create_blob_rows srv e now_text 0 ps [] (db s) = Inr (ids, d1)"
    using ok by (auto simp: record_transaction_def and_then_eq_Inr)
  have d1: "blob_inv srv (s\<lparr>db := d1\<rparr>)" "ids_backed d1 ps ids"
    using create_blob_rows_effect [OF blobs subset_refl, of s] inv by (simp_all add: ids_backed_def)
  show ?thesis
  proof (cases recorded)
    case False
    with ok blobs inv show ?thesis
      by (auto simp: record_transaction_def and_then_eq_Inr commit_eq_Inr Let_def split: if_splits)
  next
    case True
    with ok blobs obtain row mid prior rows d2 where
      row: "new_snapshot_row srv e upload m mid fingerprint now_text now_seq prior (length ps) = Inr row"
        "\<not> list_ex (snapshot_clash row) (db_snapshots d1)"
      and rows: "try_fold (insert_artifact_row e (sn_id row) ids now_text now_seq)
        (db_artifacts d1) (enumerate 0 ps) = Inr rows"
      and d2: "finish_upload_row srv e upload m mid (sn_id row) now_text transfer newly
        (d1\<lparr>db_snapshots := db_snapshots d1 @ [row], db_artifacts := rows\<rparr>) = Inr d2"
      and d': "d' = d2\<lparr>db_tombstones := note_rearchived (sn_id row) prior (db_tombstones d2)\<rparr>"
      by (auto simp: record_transaction_def finalize_winning_snapshot_def and_then_eq_Inr
          commit_eq_Inr Let_def split: if_splits)
    let ?d = "d1\<lparr>db_snapshots := db_snapshots d1 @ [row]\<rparr>"
    have live: "sn_deleted_at row = None"
      using row(1) by (auto simp: new_snapshot_row_def and_then_eq_Inr)
    have sid: "sn_id row \<in> live_ids ?d"
      using live by (auto simp: live_ids_def)
    have "blob_inv srv (s\<lparr>db := ?d\<rparr>)"
      by (rule append_snapshot_inv [OF d1(1) live row(2)])
    from insert_artifact_rows_inv [where d = ?d, OF _ this sid ready] rows d1(2)
    have "blob_inv srv (s\<lparr>db := ?d\<lparr>db_artifacts := rows\<rparr>\<rparr>)"
      by (simp add: ids_backed_def)
    from finish_upload_row_inv [OF d2, of srv s] this show ?thesis
      unfolding d' by simp
  qed
qed

section \<open>Completing an upload\<close>

lemma unique_stored_covers:
  "set (unique_stored_artifacts ps) \<subseteq> set ps
    \<and> (\<forall>p \<in> set ps. \<exists>q \<in> set (unique_stored_artifacts ps).
          stored_digest (pr_artifact q) = stored_digest (pr_artifact p))"
proof -
  let ?add = "\<lambda>p acc. if list_ex (\<lambda>q. stored_digest (pr_artifact q) = stored_digest (pr_artifact p)) acc
                    then acc else acc @ [p]"
  have "set (fold ?add ps acc) \<subseteq> set acc \<union> set ps \<and> set acc \<subseteq> set (fold ?add ps acc)
      \<and> (\<forall>p \<in> set ps. \<exists>q \<in> set (fold ?add ps acc).
            stored_digest (pr_artifact q) = stored_digest (pr_artifact p))" for acc
  proof (induction ps arbitrary: acc)
    case (Cons p ps)
    let ?acc = "?add p acc"
    have "\<exists>q \<in> set ?acc. stored_digest (pr_artifact q) = stored_digest (pr_artifact p)"
      "set acc \<subseteq> set ?acc" "set ?acc \<subseteq> insert p (set acc)"
      by (auto simp: list_ex_iff)
    with Cons.IH [of ?acc] show ?case
      unfolding fold_simps by (auto simp del: fold_simps) blast+
  qed simp
  from this [of "[]"] show ?thesis
    by (simp add: unique_stored_artifacts_def)
qed

lemma in_place_promoted:
  assumes ready: "ready x U ps" and U: "files_in U s"
    and promoted: "\<forall>q \<in> set (unique_stored_artifacts ps). promoted x (fs s) q"
  shows "in_place ps (fs s)"
  unfolding in_place_def
proof
  fix p assume p: "p \<in> set ps"
  obtain q where q: "q \<in> set (unique_stored_artifacts ps)"
    "stored_digest (pr_artifact q) = stored_digest (pr_artifact p)"
    using unique_stored_covers p by blast
  then obtain bs where bs: "blob_file (fs s) (stored_digest (pr_artifact p)) = Some (Regular bs)"
    "sha256_hex x bs = stored_digest (pr_artifact p)"
    using promoted unfolding promoted_def by metis
  have "verified x p" "pr_bytes p \<in> U" "inj_on (sha256_digest x) U"
    using ready p by (auto simp: ready_def)
  moreover from this(1) have "sha256_hex x (pr_bytes p) = sha256_hex x bs"
    using bs(2) by (simp add: verified_def Let_def)
  moreover have "bs \<in> U" using U bs(1) by (simp add: files_in_def)
  ultimately have "bs = pr_bytes p" by (metis same_digest_same_bytes)
  with bs(1) show "blob_file (fs s) (stored_digest (pr_artifact p)) = Some (Regular (pr_bytes p))"
    by simp
qed

text \<open>Both parts of the invariant; the files are part of the view of the first.\<close>

definition archive_inv :: "server \<Rightarrow> bytes set \<Rightarrow> archive \<Rightarrow> bool" where
  "archive_inv srv U s = (blob_inv srv s \<and> files_in U s)"

lemma files_in_view: "blob_view s = blob_view t \<Longrightarrow> files_in U s = files_in U t"
  by (simp add: files_in_def blob_view_def blob_file_def)

lemma keeps_blob_view_archive: "keeps_blob_view m \<Longrightarrow> preserves (archive_inv srv U) m"
  unfolding preserves_def archive_inv_def using blob_inv_view files_in_view by metis

lemma files_in_db [simp]: "files_in U (s\<lparr>db := d\<rparr>) = files_in U s"
  by (simp add: files_in_def)

lemma remove_upload_dir_view: "keeps_blob_view (remove_upload_dir_op e uid)"
  unfolding remove_upload_dir_op_def by (intro allI preserves_intros) simp_all

lemma finish_upload_row_view:
  "finish_upload_row srv e upload m mid sid at transfer newly d = Inr d' \<Longrightarrow>
     db_blobs d' = db_blobs d \<and> db_artifacts d' = db_artifacts d \<and> db_snapshots d' = db_snapshots d"
  by (auto simp: finish_upload_row_def insert_capture_provenance_def and_then_eq_Inr
      maintain_session_latest_context_def upsert_session_latest_context_def
      split: if_splits option.splits)

lemma finalize_existing_view:
  "keeps_blob_view (finalize_upload_for_existing_snapshot srv e upload m sid transfer)"
  unfolding finalize_upload_for_existing_snapshot_def
  by (intro allI preserves_intros view_transact)
    (auto simp: finalize_existing_transaction_def and_then_eq_Inr commit_eq_Inr
      split: if_splits dest: finish_upload_row_view)

lemma attach_to_snapshot_view:
  "keeps_blob_view (attach_to_snapshot srv e upload m transfer sid)"
  unfolding attach_to_snapshot_def
  by (intro allI preserves_intros) (simp_all add: finalize_existing_view remove_upload_dir_view)

lemma cleanup_archive_inv:
  "preserves (archive_inv srv U) (cleanup_uncommitted_promotions srv e ps)"
  using cleanup_inv [of srv U e ps] by (simp add: archive_inv_def [abs_def])

lemma record_completed_upload_inv:
  assumes inv: "archive_inv srv U s" and ready: "ready (ext srv) U ps" "in_place ps (fs s)"
  shows "archive_inv srv U
    (snd (record_completed_upload srv e upload m ps promotions fingerprint transfer newly s))"
proof -
  have transact: "archive_inv srv U (snd (transact (record_transaction srv e upload m ps fingerprint
      transfer newly now_text now_seq) s))" for now_text now_seq
    using inv record_transaction_inv [OF _ _ ready]
    by (auto simp: transact_def archive_inv_def split: sum.splits prod.splits)
  have rest: "preserves (archive_inv srv U) (if recorded then pure_op (Inr ())
     else
       bind_op (query (\<lambda>d. fetch_one (\<lambda>r. sn_session_id r = up_session_id upload
         \<and> sn_fingerprint_sha256 r = fingerprint \<and> sn_deleted_at r = None) (db_snapshots d)))
         (\<lambda>winner.
       bind_op (cleanup_uncommitted_promotions srv e promotions) (\<lambda>_.
       finalize_upload_for_existing_snapshot srv e upload m (sn_id winner) transfer)))" for recorded
    by (intro preserves_intros cleanup_archive_inv keeps_blob_view_archive finalize_existing_view)
  show ?thesis
    unfolding record_completed_upload_def try_op_def
    by (auto simp only: pure_op_def snd_conv inv split: sum.splits
        intro!: run_bind [of "archive_inv srv U"] transact
        elim!: preserves_snd [OF rest, unfolded pure_op_def])
qed

lemma record_or_clean_up_inv:
  assumes "archive_inv srv U s" "ready (ext srv) U ps" "in_place ps (fs s)"
  shows "archive_inv srv U
    (snd (record_or_clean_up srv e upload m ps promotions fingerprint transfer newly s))"
proof -
  obtain r t where run: "record_completed_upload srv e upload m ps promotions fingerprint transfer
      newly s = (r, t)"
    by fastforce
  have t: "archive_inv srv U t"
    using record_completed_upload_inv [OF assms, of e upload m promotions fingerprint transfer newly]
    by (simp add: run)
  have "preserves (archive_inv srv U) (bind_op (ignore_op (cleanup_uncommitted_promotions srv e
      promotions)) (\<lambda>_. pure_op (Inl err)))" for err
    by (intro preserves_intros cleanup_archive_inv)
  with t show ?thesis
    unfolding record_or_clean_up_def by (auto simp: run preserves_def split: sum.splits)
qed

lemma complete_under_blob_locks_inv:
  assumes ready: "ready (ext srv) U ps"
  shows "preserves (archive_inv srv U)
    (complete_under_blob_locks srv e upload m ps fingerprint transfer)"
proof -
  have "archive_inv srv U (snd (bind_op (promote_unique_blobs srv e [] (unique_stored_artifacts ps))
      (\<lambda>promotions. try_op (newly_persisted_bytes promotions) (\<lambda>newly.
       bind_op (record_or_clean_up srv e upload m ps promotions fingerprint transfer newly) (\<lambda>_.
       bind_op (ignore_op (remove_upload_dir_op e (up_id upload))) (\<lambda>_.
       query (completion_for_upload srv (up_id upload)))))) s))"
    if s: "archive_inv srv U s" for s
  proof -
    obtain r t where run: "promote_unique_blobs srv e [] (unique_stored_artifacts ps) s = (r, t)"
      by fastforce
    have "\<forall>p \<in> set (unique_stored_artifacts ps). verified (ext srv) p \<and> pr_bytes p \<in> U"
      using ready unique_stored_covers by (auto simp: ready_def)
    note effect = promote_unique_blobs_effect [OF run this]
    have t: "archive_inv srv U t" using effect s by (simp add: archive_inv_def)
    have place: "in_place ps (fs t)" if "r = Inr v" for v
      using in_place_promoted [OF ready] effect s that by (simp add: archive_inv_def)
    have after: "preserves (archive_inv srv U) (bind_op (ignore_op (remove_upload_dir_op e (up_id upload)))
        (\<lambda>_. query (completion_for_upload srv (up_id upload))))"
      by (intro preserves_intros keeps_blob_view_archive remove_upload_dir_view)
    show ?thesis
    proof (cases r)
      case (Inl err)
      with run t show ?thesis by (simp add: bind_op_def)
    next
      case (Inr promotions)
      note rec = record_or_clean_up_inv [OF t ready place [OF Inr]]
      from Inr run t show ?thesis
        unfolding bind_op_def [of "promote_unique_blobs srv e [] (unique_stored_artifacts ps)"]
        by (auto simp: try_op_def pure_op_def split: sum.splits
            intro!: run_bind [of "archive_inv srv U"] rec
            preserves_snd [of "archive_inv srv U", OF after])
    qed
  qed
  then have promote: "preserves (archive_inv srv U)
      (bind_op (promote_unique_blobs srv e [] (unique_stored_artifacts ps))
      (\<lambda>promotions. try_op (newly_persisted_bytes promotions) (\<lambda>newly.
       bind_op (record_or_clean_up srv e upload m ps promotions fingerprint transfer newly) (\<lambda>_.
       bind_op (ignore_op (remove_upload_dir_op e (up_id upload))) (\<lambda>_.
       query (completion_for_upload srv (up_id upload)))))))"
    by (simp add: preserves_def)
  show ?thesis
    unfolding complete_under_blob_locks_def
    by (intro preserves_intros promote keeps_blob_view_archive attach_to_snapshot_view)
qed

lemma complete_prepared_inv:
  assumes "ready (ext srv) U ps"
  shows "preserves (archive_inv srv U) (complete_prepared srv e upload m ps fingerprint transfer)"
  unfolding complete_prepared_def
  by (intro preserves_intros complete_under_blob_locks_inv [OF assms] keeps_blob_view_archive
      attach_to_snapshot_view)

section \<open>The request\<close>

text \<open>Every manifest of the database decodes to a manifest that the validation accepted.\<close>

definition canonical_json :: "externals \<Rightarrow> string \<Rightarrow> bool" where
  "canonical_json x json =
     (\<exists>m limits. manifest_from_json x json = Some m \<and> manifest_wf x limits m)"

definition manifests_ok :: "externals \<Rightarrow> database \<Rightarrow> bool" where
  "manifests_ok x d = (\<forall>mf \<in> set (db_manifests d). canonical_json x (mf_canonical_json mf))"

text \<open>The bytes that the accepted chunks of an upload can be assembled to.\<close>

definition assembled_in :: "bytes set \<Rightarrow> server \<Rightarrow> env \<Rightarrow> archive \<Rightarrow> bool" where
  "assembled_in U srv e s =
     (\<forall>upload m rows ps. prepare_artifacts srv e s upload m rows = Inr ps \<longrightarrow> pr_bytes ` set ps \<subseteq> U)"

lemma manifest_wf_artifact:
  assumes wf: "manifest_wf x limits m" and a: "a \<in> set (artifacts m)"
  shows "stored_size_bytes a \<le> i64_max" "original_size_bytes a \<le> i64_max"
    "stored_digest a = drop 7 (stored_sha256 a)"
proof -
  have ok: "artifact_ok x limits (input_of_artifact a)"
    using wf a by (auto simp: manifest_wf_def batch_ok_def list_all_iff)
  then show "stored_size_bytes a \<le> i64_max" "original_size_bytes a \<le> i64_max"
    by (simp_all add: artifact_ok_def input_of_artifact_def)
  from ok obtain h where "stored_sha256 a = ''sha256:'' @ h"
    by (auto simp only: artifact_ok_def input_of_artifact_def artifact_input.simps validate_digest_ok)
  then show "stored_digest a = drop 7 (stored_sha256 a)"
    by (simp only: stored_digest_def digest_storage_prefixed) simp
qed

lemma manifest_wf_compression:
  assumes wf: "manifest_wf x limits m" and a: "a \<in> set (artifacts m)" and b: "b \<in> set (artifacts m)"
    and eq: "stored_digest a = stored_digest b"
  shows "compression a = compression b"
proof -
  let ?entry = "\<lambda>a. representation_entry (input_of_artifact a)"
  have "entries_agree (map ?entry (artifacts m))"
    using wf by (auto simp: manifest_wf_def batch_ok_def comp_def)
  moreover have "fst (?entry a) = fst (?entry b)"
    unfolding representation_entry_def input_of_artifact_def artifact_input.simps fst_conv
      manifest_wf_artifact(3) [OF wf a, symmetric] manifest_wf_artifact(3) [OF wf b, symmetric]
    by (rule eq)
  moreover have "?entry a \<in> set (map ?entry (artifacts m))" "?entry b \<in> set (map ?entry (artifacts m))"
    using a b by simp_all
  ultimately have "snd (?entry a) = snd (?entry b)"
    unfolding entries_agree_def by blast
  then show ?thesis by (simp add: representation_entry_def input_of_artifact_def)
qed

lemma prepared_ready:
  assumes inj: "inj_on (sha256_digest (ext srv)) U" and wf: "manifest_wf (ext srv) limits m"
    and ps: "prepare_artifacts srv e s upload m rows = Inr ps" and U: "pr_bytes ` set ps \<subseteq> U"
  shows "ready (ext srv) U ps"
proof -
  have one: "pr_artifact p \<in> set (artifacts m) \<and> verified (ext srv) p" if p: "p \<in> set ps" for p
  proof -
    have "Inr p \<in> set (map (prepare_artifact srv e s upload) (zip (artifacts m) rows))"
      using ps p by (simp add: prepare_artifacts_def try_map_eq_Inr)
    then obtain a row where z: "(a, row) \<in> set (zip (artifacts m) rows)"
      and run: "prepare_artifact srv e s upload (a, row) = Inr p"
      by auto
    have a: "a \<in> set (artifacts m)" using z by (rule set_zip_leftD)
    have "pr_artifact p = a" "verify_artifact (ext srv) (pr_bytes p) a = Inr ()"
      using run by (auto simp: prepare_artifact_def and_then_eq_Inr)
    with manifest_wf_artifact(1,2) [OF wf a] a show ?thesis
      by (simp add: verified_def verify_artifact_ok u64_max_def i64_max_def stored_digest_def Let_def)
  qed
  then show ?thesis
    using inj U manifest_wf_compression [OF wf] unfolding ready_def by auto
qed

lemma complete_upload_archive_inv:
  assumes inj: "inj_on (sha256_digest (ext srv)) U" and inv: "archive_inv srv U s"
    and manifests: "manifests_ok (ext srv) (db s)" and U: "assembled_in U srv e s"
  shows "archive_inv srv U (snd (complete_upload srv e path s))"
proof -
  have checked: "archive_inv srv U (snd (complete_checked srv e upload m rows s))"
    if m: "get_upload_manifest srv (db s) uid = Inr m" for upload m rows uid
  proof -
    obtain limits where wf: "manifest_wf (ext srv) limits m"
      using m manifests by (auto simp: get_upload_manifest_def and_then_eq_Inr fetch_one_eq_Inr
          ok_or_eq_Inr manifests_ok_def canonical_json_def dest!: find_SomeD)
    have "preserves (archive_inv srv U) (try_op (manifest_totals m) (\<lambda>(_, transfer).
        try_op (snapshot_fingerprint (ext srv) m) (\<lambda>fingerprint.
        complete_prepared srv e upload m ps fingerprint transfer)))"
      if "prepare_artifacts srv e s upload m rows = Inr ps" for ps
      using prepared_ready [OF inj wf that] U that
      by (auto simp: assembled_in_def split: prod.splits
          intro!: preserves_intros complete_prepared_inv)
    with inv show ?thesis
      by (auto simp: complete_checked_def read_op_def try_op_def pure_op_def preserves_def
          split: sum.splits)
  qed
  show ?thesis
  proof (cases rule: complete_upload_cases [of srv e path s])
    case (inactive uid)
    have "preserves (archive_inv srv U) (require_active_upload srv e uid)"
      using keeps_blob_view_archive require_active_view by blast
    with inv inactive show ?thesis by (simp add: preserves_def)
  qed (use inv checked in simp_all)
qed

end
