(* ===== verification/Upload_Invariant.thy ===== *)
theory Upload_Invariant
  imports Archive_Invariant
begin

text \<open>
  The state of uploads. Every upload row has one manifest that decodes to an accepted manifest and
  hashes to the recorded digest, the artifact rows that the manifest and the chunk size determine,
  and chunk rows that lie in the layout and, until the upload is completed, describe a file with
  exactly these bytes. The sections follow the requests that change this state.
\<close>

section \<open>The invariant\<close>

definition projected_row :: "string \<Rightarrow> nat \<Rightarrow> nat \<times> artifact \<Rightarrow> upload_artifact_row" where
  "projected_row upload_id c = (\<lambda>(i, a).
     \<lparr>ua_upload_id = upload_id, ua_artifact_index = int i, ua_logical_path = logical_path a,
      ua_media_type = media_type a, ua_original_size_bytes = int (original_size_bytes a),
      ua_original_sha256 = digest_storage_value (original_sha256 a),
      ua_stored_size_bytes = int (stored_size_bytes a),
      ua_stored_sha256 = digest_storage_value (stored_sha256 a),
      ua_compression = compression_name (compression a),
      ua_chunk_count = int (chunks_needed (stored_size_bytes a) c)\<rparr>)"

definition projected_rows :: "string \<Rightarrow> nat \<Rightarrow> manifest \<Rightarrow> upload_artifact_row list" where
  "projected_rows upload_id c m = map (projected_row upload_id c) (enumerate 0 (artifacts m))"

text \<open>A chunk row in the layout of the manifest, and a file that backs it.\<close>

definition chunk_in_layout :: "nat \<Rightarrow> manifest \<Rightarrow> chunk_row \<Rightarrow> bool" where
  "chunk_in_layout c m r =
     (\<exists>i < length (artifacts m). \<exists>k < chunks_needed (stored_size_bytes (artifacts m ! i)) c.
        uc_artifact_index r = int i \<and> uc_chunk_index r = int k
        \<and> uc_byte_length r = int (chunk_length (stored_size_bytes (artifacts m ! i)) c k)
        \<and> validate_digest (digest_document_value (uc_sha256 r)) = Inr ())"

definition chunk_backed :: "externals \<Rightarrow> (nat \<Rightarrow> nat \<Rightarrow> entry option) \<Rightarrow> chunk_row \<Rightarrow> bool" where
  "chunk_backed x file r =
     (\<exists>bs. file (nat (uc_artifact_index r)) (nat (uc_chunk_index r)) = Some (Regular bs)
        \<and> int (length bs) = uc_byte_length r \<and> sha256_hex x bs = uc_sha256 r)"

definition manifest_of ::
  "externals \<Rightarrow> upload_row \<Rightarrow> manifest_row list \<Rightarrow> manifest \<Rightarrow> bool" where
  "manifest_of x u mfs m =
     (\<exists>mf limits. mfs = [mf] \<and> manifest_from_json x (mf_canonical_json mf) = Some m
        \<and> manifest_wf x limits m \<and> mf_sha256 mf = up_manifest_sha256 u
        \<and> sha256_hex x (string_bytes (mf_canonical_json mf)) = up_manifest_sha256 u)"

definition upload_layout_recorded :: "upload_row \<Rightarrow> nat \<Rightarrow> manifest \<Rightarrow> bool" where
  "upload_layout_recorded u c m =
     (up_chunk_size_bytes u = int c \<and> up_artifact_count u = int (length (artifacts m))
       \<and> (\<forall>a \<in> set (artifacts m).
             chunk_count (stored_size_bytes a) c = Inr (chunks_needed (stored_size_bytes a) c)))"

definition upload_ok ::
  "externals \<Rightarrow> upload_row \<Rightarrow> manifest_row list \<Rightarrow> upload_artifact_row list \<Rightarrow> chunk_row list
     \<Rightarrow> (nat \<Rightarrow> nat \<Rightarrow> entry option) \<Rightarrow> bool" where
  "upload_ok x u mfs arts chunks file =
     (\<exists>m c. manifest_of x u mfs m \<and> upload_layout_recorded u c m
        \<and> arts = projected_rows (up_id u) c m
        \<and> distinct (map chunk_key_of chunks) \<and> (\<forall>r \<in> set chunks. chunk_in_layout c m r)
        \<and> (up_status u \<noteq> ''completed'' \<longrightarrow> (\<forall>r \<in> set chunks. chunk_backed x file r))
        \<and> up_status u \<in> {''created'', ''artifact_uploaded'', ''completed''})"

definition manifests_for :: "database \<Rightarrow> string \<Rightarrow> manifest_row list" where
  "manifests_for d uid = filter (\<lambda>r. mf_upload_id r = uid) (db_manifests d)"

definition artifacts_for :: "database \<Rightarrow> string \<Rightarrow> upload_artifact_row list" where
  "artifacts_for d uid = filter (\<lambda>r. ua_upload_id r = uid) (db_upload_artifacts d)"

definition chunks_for :: "database \<Rightarrow> string \<Rightarrow> chunk_row list" where
  "chunks_for d uid = filter (\<lambda>r. uc_upload_id r = uid) (db_upload_chunks d)"

definition upload_detail_ok :: "externals \<Rightarrow> database \<Rightarrow> files \<Rightarrow> upload_row \<Rightarrow> bool" where
  "upload_detail_ok x d f u =
     upload_ok x u (manifests_for d (up_id u)) (artifacts_for d (up_id u)) (chunks_for d (up_id u))
       (chunk_file f (up_id u))"

definition upload_ids :: "database \<Rightarrow> string set" where
  "upload_ids d = up_id ` set (db_uploads d)"

definition capture_key :: "upload_row \<Rightarrow> string \<times> string \<times> string" where
  "capture_key u = (up_owner_namespace u, up_client_id u, up_capture_id u)"

text \<open>No detail row outlives its upload.\<close>

definition no_orphan_detail :: "database \<Rightarrow> bool" where
  "no_orphan_detail d =
     (mf_upload_id ` set (db_manifests d) \<subseteq> upload_ids d
       \<and> ua_upload_id ` set (db_upload_artifacts d) \<subseteq> upload_ids d
       \<and> uc_upload_id ` set (db_upload_chunks d) \<subseteq> upload_ids d)"

definition upload_inv :: "server \<Rightarrow> archive \<Rightarrow> bool" where
  "upload_inv srv s =
     (distinct (map up_id (db_uploads (db s))) \<and> distinct (map capture_key (db_uploads (db s)))
       \<and> (\<forall>u \<in> set (db_uploads (db s)). up_owner_namespace u = owner srv)
       \<and> no_orphan_detail (db s)
       \<and> (\<forall>u \<in> set (db_uploads (db s)). upload_detail_ok (ext srv) (db s) (fs s) u))"

lemma upload_invD:
  assumes "upload_inv srv s"
  shows "distinct (map up_id (db_uploads (db s)))" "distinct (map capture_key (db_uploads (db s)))"
    and "u \<in> set (db_uploads (db s)) \<Longrightarrow> up_owner_namespace u = owner srv"
    and "no_orphan_detail (db s)"
    and "u \<in> set (db_uploads (db s)) \<Longrightarrow> upload_detail_ok (ext srv) (db s) (fs s) u"
  using assms by (simp_all add: upload_inv_def)

lemma upload_inv_manifests: "upload_inv srv s \<Longrightarrow> manifests_ok (ext srv) (db s)"
proof -
  assume inv: "upload_inv srv s"
  show "manifests_ok (ext srv) (db s)"
    unfolding manifests_ok_def
  proof
    fix mf assume mf: "mf \<in> set (db_manifests (db s))"
    then obtain u where u: "u \<in> set (db_uploads (db s))" "mf_upload_id mf = up_id u"
      using upload_invD(4) [OF inv] by (auto simp: no_orphan_detail_def upload_ids_def)
    then obtain m where m: "manifest_of (ext srv) u (manifests_for (db s) (up_id u)) m"
      using upload_invD(5) [OF inv] unfolding upload_detail_ok_def upload_ok_def by blast
    have "mf \<in> set (manifests_for (db s) (up_id u))"
      using mf u(2) by (simp add: manifests_for_def)
    with m show "canonical_json (ext srv) (mf_canonical_json mf)"
      by (auto simp: manifest_of_def canonical_json_def)
  qed
qed

text \<open>What the invariant depends on.\<close>

definition upload_view ::
  "archive \<Rightarrow> upload_row list \<times> manifest_row list \<times> upload_artifact_row list \<times> chunk_row list
     \<times> (chunk_key \<times> entry) list" where
  "upload_view s = (db_uploads (db s), db_manifests (db s), db_upload_artifacts (db s),
     db_upload_chunks (db s), chunk_files (fs s))"

lemma upload_inv_view: "upload_view s = upload_view t \<Longrightarrow> upload_inv srv s = upload_inv srv t"
  by (simp add: upload_view_def upload_inv_def no_orphan_detail_def upload_ids_def
      upload_detail_ok_def manifests_for_def artifacts_for_def chunks_for_def chunk_file_def [abs_def])

abbreviation keeps_upload_view :: "(archive, 'a) op \<Rightarrow> bool" where
  "keeps_upload_view m \<equiv> (\<forall>v. preserves (\<lambda>s. upload_view s = v) m)"

lemma keeps_upload_view_inv: "keeps_upload_view m \<Longrightarrow> preserves (upload_inv srv) m"
  unfolding preserves_def using upload_inv_view by metis

lemma upload_view_transact:
  assumes "\<And>d v d'. f d = Inr (v, d') \<Longrightarrow>
      db_uploads d' = db_uploads d \<and> db_manifests d' = db_manifests d
        \<and> db_upload_artifacts d' = db_upload_artifacts d \<and> db_upload_chunks d' = db_upload_chunks d"
  shows "preserves (\<lambda>s. upload_view s = v) (transact f)"
  by (intro preserves_transact) (use assms in \<open>fastforce simp: upload_view_def\<close>)

lemma register_client_upload_view: "keeps_upload_view (register_client srv e path payload)"
  unfolding register_client_def
  by (intro allI preserves_intros upload_view_transact) (auto simp: commit_eq_Inr)

lemma schedule_all_other_tables:
  "db_uploads (schedule_all dt bs d) = db_uploads d"
  "db_manifests (schedule_all dt bs d) = db_manifests d"
  "db_upload_artifacts (schedule_all dt bs d) = db_upload_artifacts d"
  "db_upload_chunks (schedule_all dt bs d) = db_upload_chunks d"
  "db_snapshots (schedule_all dt bs d) = db_snapshots d"
  "db_captures (schedule_all dt bs d) = db_captures d"
  "db_sessions (schedule_all dt bs d) = db_sessions d"
  "db_tombstones (schedule_all dt bs d) = db_tombstones d"
  "db_artifacts (schedule_all dt bs d) = db_artifacts d"
  "db_latest_contexts (schedule_all dt bs d) = db_latest_contexts d"
  "db_deletion_audits (schedule_all dt bs d) = db_deletion_audits d"
  using schedule_all_columns [of dt bs d] by auto

lemma delete_snapshot_upload_view: "keeps_upload_view (delete_snapshot srv e path header payload)"
  unfolding delete_snapshot_def Let_def
  by (intro allI preserves_intros upload_view_transact)
    (auto simp: delete_snapshot_transaction_def and_then_eq_Inr commit_eq_Inr Let_def
      rebuild_session_latest_context_def schedule_all_other_tables split: if_splits)

lemma collect_candidate_upload_view:
  "upload_view (snd (collect_candidate e k c s)) = upload_view s"
  by (simp add: collect_candidate_def upload_view_def clear_candidate_def unlink_blob_file_def Let_def)

lemma collect_each_upload_view: "upload_view (snd (collect_each e k cs n s)) = upload_view s"
proof (induction cs arbitrary: n s)
  case (Cons c cs)
  obtain r t where "collect_candidate e k c s = (r, t)" by fastforce
  moreover from this have "upload_view t = upload_view s"
    using collect_candidate_upload_view by (metis snd_conv)
  ultimately show ?case
    using Cons.IH by (auto split: sum.splits)
qed simp

lemma run_blob_gc_upload_view: "keeps_upload_view (run_blob_gc srv e)"
proof -
  have "upload_view (snd (collect_orphaned_blobs_at e t s)) = upload_view s" for t s
    using collect_each_upload_view
    by (auto simp: collect_orphaned_blobs_at_def Let_def split: option.splits prod.splits sum.splits)
      (metis snd_conv)+
  then show ?thesis
    unfolding run_blob_gc_def
    by (intro allI preserves_intros) (auto simp: preserves_def split: prod.splits sum.splits, (metis snd_conv)+)
qed

section \<open>Terminating an upload\<close>

lemma upload_detail_cong:
  assumes "manifests_for d' (up_id u) = manifests_for d (up_id u)"
    "artifacts_for d' (up_id u) = artifacts_for d (up_id u)"
    "chunks_for d' (up_id u) = chunks_for d (up_id u)"
    "chunk_file f' (up_id u) = chunk_file f (up_id u)"
  shows "upload_detail_ok x d' f' u = upload_detail_ok x d f u"
  using assms by (simp add: upload_detail_ok_def)

lemma delete_detail_for:
  assumes "v \<noteq> uid"
  shows "manifests_for (delete_upload_detail uid d) v = manifests_for d v"
    "artifacts_for (delete_upload_detail uid d) v = artifacts_for d v"
    "chunks_for (delete_upload_detail uid d) v = chunks_for d v"
  using assms
  by (auto simp: manifests_for_def artifacts_for_def chunks_for_def delete_upload_detail_def
      delete_where_def intro!: filter_cong)

lemma other_upload_file [simp]:
  "v \<noteq> uid \<Longrightarrow> chunk_file (remove_upload_dir uid f) v = chunk_file f v"
  "v \<noteq> uid \<Longrightarrow> chunk_file (link_chunk_file uid i k bs f) v = chunk_file f v"
  "v \<noteq> uid \<Longrightarrow> chunk_file (unlink_chunk_file uid i k f) v = chunk_file f v"
  by (simp_all add: fun_eq_iff)

lemma delete_detail_inv:
  assumes inv: "upload_inv srv s" and files: "\<And>v. v \<noteq> uid \<Longrightarrow> chunk_file f v = chunk_file (fs s) v"
  shows "upload_inv srv (s\<lparr>db := delete_upload_detail uid (db s), fs := f\<rparr>)"
proof -
  let ?d = "delete_upload_detail uid (db s)"
  have ups: "set (db_uploads ?d) = {u \<in> set (db_uploads (db s)). up_id u \<noteq> uid}"
    by (simp add: delete_upload_detail_def)
  have "upload_detail_ok (ext srv) ?d f u" if u: "u \<in> set (db_uploads ?d)" for u
    using upload_invD(5) [OF inv, of u] u ups
    by (simp add: upload_detail_cong [OF delete_detail_for files])
  moreover have "no_orphan_detail ?d"
    using upload_invD(4) [OF inv] ups
    by (auto simp: no_orphan_detail_def upload_ids_def delete_upload_detail_def)
  moreover have "distinct (map up_id (db_uploads ?d))" "distinct (map capture_key (db_uploads ?d))"
    using upload_invD(1,2) [OF inv]
    by (simp_all add: delete_upload_detail_def distinct_map_delete_where)
  ultimately show ?thesis
    using upload_invD(3) [OF inv] ups by (simp add: upload_inv_def)
qed

lemma upload_inv_audits [simp]:
  "upload_inv srv (s\<lparr>db := d\<lparr>db_upload_audits := a\<rparr>\<rparr>) = upload_inv srv (s\<lparr>db := d\<rparr>)"
  by (intro upload_inv_view) (simp add: upload_view_def)

lemma terminalize_inv: "preserves (upload_inv srv) (terminalize_upload_locked srv e upload reason)"
  unfolding preserves_def
proof (intro allI impI)
  fix s assume inv: "upload_inv srv s"
  let ?uid = "up_id upload"
  have step: "upload_inv srv t" if run: "bind_op (transact (terminalize_transaction e upload reason at))
      (\<lambda>existed. if existed then remove_upload_dir_op e ?uid else pure_op (Inr ())) s = (r, t)" for r t at
  proof (cases "terminalize_transaction e upload reason at (db s)")
    case (Inl err)
    with run inv show ?thesis by (simp add: bind_op_def transact_def)
  next
    case (Inr p)
    obtain existed d where p: "p = (existed, d)" by fastforce
    show ?thesis
    proof (cases existed)
      case False
      with Inr p have "d = db s"
        by (auto simp: terminalize_transaction_def commit_eq_Inr split: option.splits if_splits)
      with run Inr p False inv show ?thesis by (simp add: bind_op_def transact_def pure_op_def)
    next
      case True
      with Inr p obtain a where d: "d = delete_upload_detail ?uid ((db s)\<lparr>db_upload_audits := a\<rparr>)"
        by (auto simp: terminalize_transaction_def commit_eq_Inr split: option.splits if_splits)
      have t: "t = s\<lparr>db := d\<rparr> \<or> t = s\<lparr>db := d, fs := remove_upload_dir ?uid (fs s)\<rparr>"
        using run Inr p True
        by (auto simp: bind_op_def transact_def remove_upload_dir_op_def pure_op_def modify_op_def
            split: if_splits)
      have inv': "upload_inv srv (s\<lparr>db := (db s)\<lparr>db_upload_audits := a\<rparr>\<rparr>)" using inv by simp
      from t show ?thesis
        using delete_detail_inv [OF inv', where uid = ?uid and f = "fs s"]
          delete_detail_inv [OF inv', where uid = ?uid and f = "remove_upload_dir ?uid (fs s)"]
        by (auto simp: d)
    qed
  qed
  show "upload_inv srv (snd (terminalize_upload_locked srv e upload reason s))"
    unfolding terminalize_upload_locked_def try_op_def
    using inv step by (auto simp: pure_op_def split: sum.splits) (metis prod.collapse)
qed

lemma require_active_inv: "preserves (upload_inv srv) (require_active_upload srv e uid)"
  unfolding require_active_upload_def by (intro preserves_intros terminalize_inv)

lemma get_upload_status_inv: "preserves (upload_inv srv) (get_upload_status srv e path)"
  unfolding get_upload_status_def by (intro preserves_intros terminalize_inv)

lemma abandon_upload_inv: "preserves (upload_inv srv) (abandon_upload srv e path)"
  unfolding abandon_upload_def by (intro preserves_intros terminalize_inv)

lemma expire_uploads_inv: "preserves (upload_inv srv) (expire_uploads_op srv e t)"
  by (rule expire_uploads_preserves) (rule terminalize_inv)

section \<open>Creating an upload\<close>

text \<open>Documented behaviour of the JSON library on the manifest type: what is encoded decodes to the
  same value.\<close>

definition json_roundtrip :: "externals \<Rightarrow> bool" where
  "json_roundtrip x = (\<forall>m json. manifest_to_json x m = Some json \<longrightarrow> manifest_from_json x json = Some m)"

lemma insert_projected_row:
  "insert_upload_artifact uid i a (chunks_needed (stored_size_bytes a) c) table = Inr table' \<Longrightarrow>
     table' = table @ [projected_row uid c (i, a)]"
  by (auto simp: insert_upload_artifact_def and_then_eq_Inr to_sqlite_i64_ok insert_row_eq_Inr
      projected_row_def)

abbreviation insert_numbered ::
  "string \<Rightarrow> upload_artifact_row list \<Rightarrow> nat \<times> artifact \<times> nat \<Rightarrow> upload_artifact_row list result" where
  "insert_numbered uid \<equiv> (\<lambda>table (index, a, n).
     and_then (reject_if (index > u32_max) internal) (\<lambda>_. insert_upload_artifact uid index a n table))"

lemma insert_projected_rows:
  assumes "try_fold (insert_numbered uid) table
      (enumerate k (zip as (map (\<lambda>a. chunks_needed (stored_size_bytes a) c) as))) = Inr table'"
  shows "table' = table @ map (projected_row uid c) (enumerate k as)"
  using assms
proof (induction as arbitrary: k table)
  case (Cons a as)
  have rest: "try_fold (insert_numbered uid) (table @ [projected_row uid c (k, a)])
      (enumerate (Suc k) (zip as (map (\<lambda>a. chunks_needed (stored_size_bytes a) c) as))) = Inr table'"
    using Cons.prems by (auto simp: and_then_eq_Inr dest!: insert_projected_row)
  from Cons.IH [OF rest] show ?case by simp
qed simp

text \<open>The database after a request that created an upload.\<close>

definition with_new_upload ::
  "session_row list \<Rightarrow> upload_row \<Rightarrow> manifest_row \<Rightarrow> upload_artifact_row list \<Rightarrow> database \<Rightarrow> database" where
  "with_new_upload sessions row mf arts d =
     d\<lparr>db_sessions := sessions, db_uploads := db_uploads d @ [row],
       db_manifests := db_manifests d @ [mf], db_upload_artifacts := db_upload_artifacts d @ arts\<rparr>"

lemma new_upload_row_ok:
  assumes "new_upload_row srv e sid client cid m sha layout now_text expires = Inr row"
  shows "up_id row = new_id e New_Upload" "up_owner_namespace row = owner srv"
    "up_client_id row = client" "up_capture_id row = cid" "up_manifest_sha256 row = sha"
    "up_session_id row = sid" "up_snapshot_id row = None" "up_expires_at row = expires"
    "up_status row = (if list_all (\<lambda>n. n = 0) (chunk_counts layout)
                       then ''artifact_uploaded'' else ''created'')"
    "up_chunk_size_bytes row = int (srv_chunk_size_bytes srv)"
    "up_artifact_count row = int (length (artifacts m))"
  using assms by (auto simp: new_upload_row_def and_then_eq_Inr to_sqlite_i64_ok)

lemma get_or_create_session_effect:
  assumes "get_or_create_session srv e client m now_text d = Inr (sid, d')"
  obtains sessions where "d' = d\<lparr>db_sessions := sessions\<rparr>" "sid \<in> se_id ` set sessions"
    "se_id ` set (db_sessions d) \<subseteq> se_id ` set sessions"
proof -
  let ?touch = "update_where (session_matches (owner srv) (session m))
    (\<lambda>r. r\<lparr>se_updated_at := now_text\<rparr>) (db_sessions d)"
  have ids: "se_id ` set ?touch = se_id ` set (db_sessions d)"
    unfolding set_map [symmetric] by (simp add: map_update_where)
  obtain sessions row where d': "d' = d\<lparr>db_sessions := sessions\<rparr>"
    and row: "find (session_matches (owner srv) (session m)) sessions = Some row" "sid = se_id row"
    and cases: "sessions = ?touch \<or> (\<exists>r. sessions = db_sessions d @ [r])"
    using assms by (auto simp: get_or_create_session_def and_then_eq_Inr fetch_one_eq_Inr
        insert_row_eq_Inr split: if_splits)
  have "se_id ` set (db_sessions d) \<subseteq> se_id ` set sessions"
    using cases ids by auto
  moreover have "sid \<in> se_id ` set sessions"
    using find_SomeD [OF row(1)] row(2) by simp
  ultimately show thesis using that d' by blast
qed

lemma persist_upload_effect:
  assumes ok: "persist_upload srv e client cid m json sha layout now_text expires d = Inr ((uid, created), d')"
    and layout: "upload_layout_of m (srv_chunk_size_bytes srv) = Inr layout"
  obtains (reused) existing sessions where "\<not> created" "d' = d\<lparr>db_sessions := sessions\<rparr>"
      "se_id ` set (db_sessions d) \<subseteq> se_id ` set sessions"
      "find (capture_matches (owner srv) client cid) (db_uploads d) = Some existing" "uid = up_id existing"
    | (fresh) sessions sid row mf where "created"
      "d' = with_new_upload sessions row mf (projected_rows uid (srv_chunk_size_bytes srv) m) d"
      "new_upload_row srv e sid client cid m sha layout now_text expires = Inr row" "uid = up_id row"
      "find (capture_matches (owner srv) client cid) (db_uploads d) = None"
      "\<forall>u \<in> set (db_uploads d). up_id u \<noteq> up_id row"
      "mf_upload_id mf = up_id row" "mf_canonical_json mf = json" "mf_sha256 mf = sha"
      "sid \<in> se_id ` set sessions" "se_id ` set (db_sessions d) \<subseteq> se_id ` set sessions"
proof -
  obtain sid d1 where session: "get_or_create_session srv e client m now_text d = Inr (sid, d1)"
    using ok by (auto simp: persist_upload_def and_then_eq_Inr)
  from get_or_create_session_effect [OF this] obtain sessions where
    d1: "d1 = d\<lparr>db_sessions := sessions\<rparr>" and sid: "sid \<in> se_id ` set sessions"
      "se_id ` set (db_sessions d) \<subseteq> se_id ` set sessions"
    by blast
  show thesis
  proof (cases "find (capture_matches (owner srv) client cid) (db_uploads d)")
    case (Some existing)
    with ok session d1 have "\<not> created" "d' = d\<lparr>db_sessions := sessions\<rparr>" "uid = up_id existing"
      by (auto simp: persist_upload_def and_then_eq_Inr commit_eq_Inr split: if_splits)
    with Some sid(2) show thesis by (intro reused)
  next
    case None
    define mf where "mf row = \<lparr>mf_id = new_id e New_Manifest, mf_upload_id = up_id row,
      mf_canonical_json = json, mf_sha256 = sha, mf_created_at = now_text\<rparr>" for row :: upload_row
    from None ok session d1 obtain row table where
      row: "new_upload_row srv e sid client cid m sha layout now_text expires = Inr row"
        "\<not> list_ex (\<lambda>r'. up_id row = up_id r') (db_uploads d)" "uid = up_id row" "created"
      and fold: "try_fold (insert_numbered (up_id row)) (db_upload_artifacts d)
        (enumerate 0 (zip (artifacts m) (chunk_counts layout))) = Inr table"
      and d': "d' = d1\<lparr>db_uploads := db_uploads d @ [row], db_manifests := db_manifests d @ [mf row],
        db_upload_artifacts := table\<rparr>"
      by (auto simp: persist_upload_def persist_new_upload_detail_def and_then_eq_Inr commit_eq_Inr
          insert_row_eq_Inr mf_def)
    have "table = db_upload_artifacts d @ projected_rows uid (srv_chunk_size_bytes srv) m"
      using insert_projected_rows [of "up_id row" "db_upload_artifacts d" 0 "artifacts m"
          "srv_chunk_size_bytes srv" table] fold upload_layout_of_ok(1) [OF layout] row(3)
      by (simp add: projected_rows_def)
    with d' d1 have new: "d' = with_new_upload sessions row (mf row)
        (projected_rows uid (srv_chunk_size_bytes srv) m) d"
      by (simp add: with_new_upload_def)
    have ids: "\<forall>u \<in> set (db_uploads d). up_id u \<noteq> up_id row"
      using row(2) by (simp add: list_ex_iff eq_commute [of "up_id row"])
    have mf: "mf_upload_id (mf row) = up_id row" "mf_canonical_json (mf row) = json"
      "mf_sha256 (mf row) = sha"
      by (simp_all add: mf_def)
    show thesis by (rule fresh [OF row(4) new row(1,3) None ids mf sid])
  qed
qed

lemma upload_inv_sessions [simp]:
  "upload_inv srv (s\<lparr>db := d\<lparr>db_sessions := a\<rparr>\<rparr>) = upload_inv srv (s\<lparr>db := d\<rparr>)"
  by (intro upload_inv_view) (simp add: upload_view_def)

lemma no_orphan_for:
  assumes "no_orphan_detail d" "uid \<notin> upload_ids d"
  shows "manifests_for d uid = []" "artifacts_for d uid = []" "chunks_for d uid = []"
  using assms
  by (auto simp: no_orphan_detail_def manifests_for_def artifacts_for_def chunks_for_def filter_empty_conv)

lemma with_new_upload_for:
  assumes "mf_upload_id mf = up_id row" "\<And>a. a \<in> set arts \<Longrightarrow> ua_upload_id a = up_id row"
  shows "manifests_for (with_new_upload ss row mf arts d) v =
      manifests_for d v @ (if v = up_id row then [mf] else [])"
    "artifacts_for (with_new_upload ss row mf arts d) v =
      artifacts_for d v @ (if v = up_id row then arts else [])"
    "chunks_for (with_new_upload ss row mf arts d) v = chunks_for d v"
proof -
  have "filter (\<lambda>r. ua_upload_id r = v) arts = (if v = up_id row then arts else [])"
    using assms(2) by (auto simp: filter_id_conv filter_empty_conv)
  then show "artifacts_for (with_new_upload ss row mf arts d) v =
      artifacts_for d v @ (if v = up_id row then arts else [])"
    by (simp add: artifacts_for_def with_new_upload_def)
qed (use assms(1) in \<open>auto simp: manifests_for_def chunks_for_def with_new_upload_def\<close>)

lemma new_upload_inv:
  assumes inv: "upload_inv srv s"
    and fresh: "\<forall>u \<in> set (db_uploads (db s)). up_id u \<noteq> up_id row"
      "find (capture_matches (owner srv) (up_client_id row) (up_capture_id row)) (db_uploads (db s)) = None"
    and owner: "up_owner_namespace row = owner srv"
    and mf: "mf_upload_id mf = up_id row"
    and arts: "\<And>a. a \<in> set arts \<Longrightarrow> ua_upload_id a = up_id row"
    and ok: "upload_ok (ext srv) row [mf] arts [] (chunk_file (fs s) (up_id row))"
  shows "upload_inv srv (s\<lparr>db := with_new_upload ss row mf arts (db s)\<rparr>)"
proof -
  let ?d = "with_new_upload ss row mf arts (db s)"
  note for_rows = with_new_upload_for [OF mf arts]
  have ups: "db_uploads ?d = db_uploads (db s) @ [row]" by (simp add: with_new_upload_def)
  have new: "up_id row \<notin> upload_ids (db s)"
    using fresh(1) by (auto simp: upload_ids_def)
  note none = no_orphan_for [OF upload_invD(4) [OF inv] new]
  have "upload_detail_ok (ext srv) ?d (fs s) u" if u: "u \<in> set (db_uploads ?d)" for u
  proof (cases "u = row")
    case True
    with ok none show ?thesis by (simp add: upload_detail_ok_def for_rows)
  next
    case False
    with u ups have "u \<in> set (db_uploads (db s))" by simp
    with fresh(1) upload_invD(5) [OF inv] show ?thesis
      by (simp add: upload_detail_ok_def for_rows)
  qed
  moreover have "no_orphan_detail ?d"
    using upload_invD(4) [OF inv] mf arts
    by (auto simp: no_orphan_detail_def upload_ids_def with_new_upload_def)
  moreover have "capture_key row \<notin> capture_key ` set (db_uploads (db s))"
    using fresh(2) owner by (auto simp: find_None capture_matches_def capture_key_def)
  ultimately show ?thesis
    using upload_invD(1-3) [OF inv] fresh(1) owner ups by (auto simp: upload_inv_def)
qed

lemma persist_upload_inv:
  assumes inv: "upload_inv srv s"
    and ok: "persist_upload srv e client cid m json sha layout now_text expires (db s) = Inr (r, d')"
    and m: "normalize_manifest (ext srv) input (srv_limits srv) = Inr m"
      "upload_layout_of m (srv_chunk_size_bytes srv) = Inr layout"
      "manifest_to_json (ext srv) m = Some json" "sha = sha256_hex (ext srv) (string_bytes json)"
    and json: "json_roundtrip (ext srv)"
  shows "upload_inv srv (s\<lparr>db := d'\<rparr>)"
proof -
  obtain uid created where r: "r = (uid, created)" by fastforce
  show ?thesis
  proof (cases rule: persist_upload_effect [OF ok [unfolded r] m(2)])
    case (1 existing sessions)
    with inv show ?thesis by simp
  next
    case (2 sessions sid row mf)
    note row = new_upload_row_ok [OF 2(3)]
    have "manifest_of (ext srv) row [mf] m"
      unfolding manifest_of_def
      using json m normalize_manifest_wf [OF m(1)] 2(8,9) row(5) by (auto simp: json_roundtrip_def)
    moreover have "upload_layout_recorded row (srv_chunk_size_bytes srv) m"
      using row(10,11) upload_layout_of_ok(5) [OF m(2)] by (simp add: upload_layout_recorded_def)
    ultimately have "upload_ok (ext srv) row [mf] (projected_rows uid (srv_chunk_size_bytes srv) m) []
        (chunk_file (fs s) (up_id row))"
      unfolding upload_ok_def using row(9) 2(4) by auto
    moreover have "ua_upload_id a = up_id row"
      if "a \<in> set (projected_rows uid (srv_chunk_size_bytes srv) m)" for a
      using that 2(4) by (auto simp: projected_rows_def projected_row_def)
    ultimately show ?thesis
      using new_upload_inv [OF inv 2(6) _ row(2) 2(7)] 2(5) row(3,4) unfolding 2(2) by simp
  qed
qed

lemma create_upload_inv:
  assumes "json_roundtrip (ext srv)"
  shows "preserves (upload_inv srv) (create_upload srv e payload)"
  unfolding create_upload_def Let_def
  by (intro preserves_intros expire_uploads_inv)
    (auto split: prod.splits simp: ok_or_eq_Inr intro!: preserves_intros
      intro: persist_upload_inv [OF _ _ _ _ _ _ assms])

section \<open>Changing upload rows and chunk files\<close>

text \<open>The columns of an upload row that never change.\<close>

definition same_upload :: "upload_row \<Rightarrow> upload_row \<Rightarrow> bool" where
  "same_upload u u' =
     (up_id u' = up_id u \<and> capture_key u' = capture_key u
       \<and> up_manifest_sha256 u' = up_manifest_sha256 u \<and> up_session_id u' = up_session_id u
       \<and> up_chunk_size_bytes u' = up_chunk_size_bytes u \<and> up_artifact_count u' = up_artifact_count u)"

lemma same_upload_refl [simp]: "same_upload u u"
  by (simp add: same_upload_def)

lemma upload_ok_same:
  assumes "upload_ok x u mfs arts chunks file" "same_upload u u'"
    and "up_status u' \<noteq> ''completed'' \<Longrightarrow> up_status u \<noteq> ''completed''"
    and "up_status u' \<in> {''created'', ''artifact_uploaded'', ''completed''}"
  shows "upload_ok x u' mfs arts chunks file"
proof -
  obtain m c where m: "manifest_of x u mfs m" "upload_layout_recorded u c m"
    "arts = projected_rows (up_id u) c m" "distinct (map chunk_key_of chunks)"
    "\<forall>r \<in> set chunks. chunk_in_layout c m r"
    "up_status u \<noteq> ''completed'' \<longrightarrow> (\<forall>r \<in> set chunks. chunk_backed x file r)"
    using assms(1) unfolding upload_ok_def by blast
  have "manifest_of x u' mfs m" "upload_layout_recorded u' c m" "arts = projected_rows (up_id u') c m"
    using m(1-3) assms(2) by (simp_all add: manifest_of_def upload_layout_recorded_def same_upload_def)
  with m(4-6) assms(3,4) show ?thesis unfolding upload_ok_def by blast
qed

lemma for_uploads:
  "manifests_for (d\<lparr>db_uploads := us\<rparr>) v = manifests_for d v"
  "artifacts_for (d\<lparr>db_uploads := us\<rparr>) v = artifacts_for d v"
  "chunks_for (d\<lparr>db_uploads := us\<rparr>) v = chunks_for d v"
  by (simp_all add: manifests_for_def artifacts_for_def chunks_for_def)

lemma update_uploads_inv:
  assumes inv: "upload_inv srv s"
    and f: "\<And>u. u \<in> set (db_uploads (db s)) \<Longrightarrow> p u \<Longrightarrow> same_upload u (f u)
        \<and> (up_status (f u) \<noteq> ''completed'' \<longrightarrow> up_status u \<noteq> ''completed'')
        \<and> up_status (f u) \<in> {''created'', ''artifact_uploaded'', ''completed''}"
  shows "upload_inv srv (s\<lparr>db := (db s)\<lparr>db_uploads := update_where p f (db_uploads (db s))\<rparr>\<rparr>)"
proof -
  let ?ups = "db_uploads (db s)" and ?new = "update_where p f (db_uploads (db s))"
  have "map up_id ?new = map up_id ?ups" "map capture_key ?new = map capture_key ?ups"
    using f by (auto simp: update_where_def same_upload_def)
  moreover have "upload_ids ((db s)\<lparr>db_uploads := ?new\<rparr>) = upload_ids (db s)"
    unfolding upload_ids_def set_map [symmetric] using calculation(1) by simp
  moreover have "upload_detail_ok (ext srv) ((db s)\<lparr>db_uploads := ?new\<rparr>) (fs s) u
      \<and> up_owner_namespace u = owner srv" if new: "u \<in> set ?new" for u
  proof -
    obtain v where v: "v \<in> set ?ups" "u = (if p v then f v else v)"
      using new by (auto simp: update_where_def)
    note ok = upload_invD(5) [OF inv v(1)]
    have same: "same_upload v u \<and> (up_status u \<noteq> ''completed'' \<longrightarrow> up_status v \<noteq> ''completed'')
        \<and> (u = v \<or> up_status u \<in> {''created'', ''artifact_uploaded'', ''completed''})"
    proof (cases "p v")
      case True
      with v f [OF v(1) True] show ?thesis by simp
    next
      case False
      with v show ?thesis by simp
    qed
    have status: "up_status v \<in> {''created'', ''artifact_uploaded'', ''completed''}"
      using ok unfolding upload_detail_ok_def upload_ok_def by blast
    have "upload_ok (ext srv) u (manifests_for (db s) (up_id v)) (artifacts_for (db s) (up_id v))
        (chunks_for (db s) (up_id v)) (chunk_file (fs s) (up_id v))"
    proof (rule upload_ok_same)
      show "upload_ok (ext srv) v (manifests_for (db s) (up_id v)) (artifacts_for (db s) (up_id v))
          (chunks_for (db s) (up_id v)) (chunk_file (fs s) (up_id v))"
        using ok unfolding upload_detail_ok_def .
      show "same_upload v u" using same by blast
      show "up_status v \<noteq> ''completed''" if "up_status u \<noteq> ''completed''"
        using same that by blast
      show "up_status u \<in> {''created'', ''artifact_uploaded'', ''completed''}"
        using same status by blast
    qed
    moreover have "up_id u = up_id v" "up_owner_namespace u = up_owner_namespace v"
      using same by (simp_all add: same_upload_def capture_key_def)
    ultimately show ?thesis
      using upload_invD(3) [OF inv v(1)]
      by (simp only: upload_detail_ok_def for_uploads simp_thms)
  qed
  ultimately show ?thesis
    using inv by (simp add: upload_inv_def no_orphan_detail_def)
qed

lemma upload_ok_file_mono:
  assumes "upload_ok x u mfs arts chunks file"
    and "up_status u \<noteq> ''completed'' \<Longrightarrow> \<forall>i k. file i k \<noteq> None \<longrightarrow> file' i k = file i k"
  shows "upload_ok x u mfs arts chunks file'"
proof -
  have "chunk_backed x file' r" if "chunk_backed x file r" "up_status u \<noteq> ''completed''" for r
    using that assms(2) unfolding chunk_backed_def by (metis option.distinct(1))
  with assms(1) show ?thesis unfolding upload_ok_def by blast
qed

lemma chunk_files_inv:
  assumes inv: "upload_inv srv s" and db: "db t = db s"
    and files: "\<And>u i k. u \<in> set (db_uploads (db s)) \<Longrightarrow> up_status u \<noteq> ''completed'' \<Longrightarrow>
      chunk_file (fs s) (up_id u) i k \<noteq> None \<Longrightarrow>
      chunk_file (fs t) (up_id u) i k = chunk_file (fs s) (up_id u) i k"
  shows "upload_inv srv t"
proof -
  have "upload_detail_ok (ext srv) (db t) (fs t) u" if u: "u \<in> set (db_uploads (db s))" for u
    using upload_invD(5) [OF inv u] unfolding upload_detail_ok_def db
    by (rule upload_ok_file_mono) (use files [OF u] in blast)
  with inv db show ?thesis by (simp add: upload_inv_def)
qed

section \<open>Accepting a chunk\<close>

lemma write_frames_length:
  "write_frames declared (n, written) body = Inr (n', written') \<Longrightarrow> n = length written \<Longrightarrow>
     n' = length written'"
  by (induction declared "(n, written)" body arbitrary: n written rule: write_frames.induct)
    (auto simp: and_then_eq_Inr ok_or_eq_Inr checked_add_eq_Some)

definition holds_chunk :: "externals \<Rightarrow> chunk_request \<Rightarrow> entry option \<Rightarrow> bool" where
  "holds_chunk x request present =
     (\<exists>bs. present = Some (Regular bs) \<and> length bs = rq_byte_length request
        \<and> sha256_hex x bs = digest_storage_value (rq_sha256 request))"

lemma store_chunk_file_effect:
  assumes run: "store_chunk_file srv e uid ai ci body request s = (r, t)"
    and size: "rq_byte_length request \<le> u64_max"
  shows "db t = db s"
    and "chunk_file (fs s) v i k \<noteq> None \<Longrightarrow> chunk_file (fs t) v i k = chunk_file (fs s) v i k"
    and "r = Inr u \<Longrightarrow> holds_chunk (ext srv) request (chunk_file (fs t) uid ai ci)"
proof -
  let ?link = "\<lambda>bs. s\<lparr>fs := link_chunk_file uid ai ci bs (fs s)\<rparr>"
  have written: "holds_chunk (ext srv) request (Some (Regular bs))"
    if "write_chunk_body srv e body request = Inr bs" for bs
    using that write_frames_length [of "rq_byte_length request" 0 "[]" body]
    by (auto simp: write_chunk_body_def holds_chunk_def and_then_eq_Inr reject_if_eq_Inr)
  have cases: "(t = s \<and> (\<forall>u. r = Inr u \<longrightarrow> holds_chunk (ext srv) request (chunk_file (fs s) uid ai ci)))
      \<or> (chunk_file (fs s) uid ai ci = None \<and> (\<exists>bs. holds_chunk (ext srv) request (Some (Regular bs))
          \<and> (t = ?link bs \<or> t = s\<lparr>fs := unlink_chunk_file uid ai ci (link_chunk_file uid ai ci bs (fs s))\<rparr>
               \<and> (\<forall>u. r \<noteq> Inr u))))"
  proof (cases "write_chunk_body srv e body request")
    case (Inl err)
    with run have "t = s" "r = Inl err" by (simp_all add: store_chunk_file_def pure_op_def)
    then show ?thesis by simp
  next
    case (Inr bs)
    note w = written [OF Inr]
    show ?thesis
    proof (cases "chunk_file (fs s) uid ai ci")
      case None
      with run Inr w show ?thesis
        by (auto simp: store_chunk_file_def read_op_def pure_op_def modify_op_def bind_op_def
            split: if_splits)
    next
      case (Some present)
      with run Inr show ?thesis
        by (auto simp: store_chunk_file_def read_op_def pure_op_def is_ok_iff holds_chunk_def
            verify_stored_file_ok [OF size] split: if_splits)
    qed
  qed
  show "db t = db s" using cases by auto
  show "chunk_file (fs s) v i k \<noteq> None \<Longrightarrow> chunk_file (fs t) v i k = chunk_file (fs s) v i k"
    using cases by auto
  show "r = Inr u \<Longrightarrow> holds_chunk (ext srv) request (chunk_file (fs t) uid ai ci)"
    using cases by auto
qed

lemma projected_row_layout:
  assumes rec: "upload_layout_recorded u c m" and m: "manifest_of x u mfs m"
    and a: "a \<in> set (projected_rows (up_id u) c m)"
  obtains i where "i < length (artifacts m)" "a = projected_row (up_id u) c (i, artifacts m ! i)"
    "layout_rows (stored_size_bytes (artifacts m ! i)) c u a"
    "stored_size_bytes (artifacts m ! i) \<le> i64_max"
    "validate_digest (digest_document_value (ua_stored_sha256 a)) = Inr ()"
proof -
  obtain i where i: "i < length (artifacts m)" "a = projected_row (up_id u) c (i, artifacts m ! i)"
    using a by (auto simp: projected_rows_def in_set_enumerate_eq)
  let ?a = "artifacts m ! i"
  have mem: "?a \<in> set (artifacts m)" using i(1) by simp
  obtain limits where wf: "manifest_wf x limits m" using m by (auto simp: manifest_of_def)
  have size: "stored_size_bytes ?a \<le> i64_max" by (rule manifest_wf_artifact(1) [OF wf mem])
  have "chunk_count (stored_size_bytes ?a) c = Inr (chunks_needed (stored_size_bytes ?a) c)"
    using rec mem by (simp add: upload_layout_recorded_def)
  then have layout: "layout_rows (stored_size_bytes ?a) c u a"
    using rec i(2) size
    by (simp add: layout_rows_def upload_layout_recorded_def projected_row_def i64_max_def u64_max_def)
  have "artifact_ok x limits (input_of_artifact ?a)"
    using wf mem by (auto simp: manifest_wf_def batch_ok_def list_all_iff)
  then have valid: "validate_digest (stored_sha256 ?a) = Inr ()"
    by (simp add: artifact_ok_def input_of_artifact_def)
  have "validate_digest (digest_document_value (ua_stored_sha256 a)) = Inr ()"
    unfolding i(2) projected_row_def using valid digest_document_storage [OF valid]
    by (simp add: digest_document_value_def digest_storage_value_def split: option.splits)
  with that i layout size show thesis by blast
qed

lemma upload_artifact_projected:
  assumes "arts = projected_rows (up_id u) c m" "artifacts_for d (up_id u) = arts"
    and "get_upload_artifact d (up_id u) ai = Some a"
  shows "a \<in> set (projected_rows (up_id u) c m)" "ua_artifact_index a = int ai"
proof -
  have a: "a \<in> set (db_upload_artifacts d)" "ua_upload_id a = up_id u" "ua_artifact_index a = int ai"
    using find_SomeD [OF assms(3) [unfolded get_upload_artifact_def]] by auto
  then have "a \<in> set (artifacts_for d (up_id u))" by (simp add: artifacts_for_def)
  with assms(1,2) a(3) show "a \<in> set (projected_rows (up_id u) c m)" "ua_artifact_index a = int ai"
    by simp_all
qed

lemma expected_length_bound:
  assumes inv: "upload_inv srv s" and u: "u \<in> set (db_uploads (db s))"
    and a: "get_upload_artifact (db s) (up_id u) ai = Some a"
    and len: "expected_chunk_length u a ci = Inr len"
  obtains m c where
    "manifest_of (ext srv) u (manifests_for (db s) (up_id u)) m" "upload_layout_recorded u c m"
    "artifacts_for (db s) (up_id u) = projected_rows (up_id u) c m"
    "ai < length (artifacts m)" "ci < chunks_needed (stored_size_bytes (artifacts m ! ai)) c"
    "len = chunk_length (stored_size_bytes (artifacts m ! ai)) c ci" "len \<le> i64_max"
    "validate_digest (digest_document_value (ua_stored_sha256 a)) = Inr ()"
proof -
  obtain m c where ok: "manifest_of (ext srv) u (manifests_for (db s) (up_id u)) m"
    "upload_layout_recorded u c m" "artifacts_for (db s) (up_id u) = projected_rows (up_id u) c m"
    using upload_invD(5) [OF inv u] unfolding upload_detail_ok_def upload_ok_def by blast
  note a' = upload_artifact_projected [OF ok(3) refl a]
  from projected_row_layout [OF ok(2,1) a'(1)] obtain i where i: "i < length (artifacts m)"
    "a = projected_row (up_id u) c (i, artifacts m ! i)"
    "layout_rows (stored_size_bytes (artifacts m ! i)) c u a"
    "stored_size_bytes (artifacts m ! i) \<le> i64_max"
    "validate_digest (digest_document_value (ua_stored_sha256 a)) = Inr ()"
    by blast
  have "ai = i" using a'(2) i(2) by (simp add: projected_row_def)
  with i expected_chunk_length_layout [OF i(3)] len
  have ci: "ci < chunks_needed (stored_size_bytes (artifacts m ! ai)) c"
    "len = chunk_length (stored_size_bytes (artifacts m ! ai)) c ci"
    by (auto split: if_splits)
  have "0 < c" using i(3) by (auto simp: layout_rows_def chunk_count_ok)
  have "len \<le> stored_size_bytes (artifacts m ! ai)"
  proof (cases "ci + 1 = chunks_needed (stored_size_bytes (artifacts m ! ai)) c")
    case False
    with ci(1) have "ci + 1 < chunks_needed (stored_size_bytes (artifacts m ! ai)) c" by simp
    from chunk_offset_less [OF \<open>0 < c\<close> this] False ci(2) show ?thesis
      by (simp add: chunk_length_def)
  qed (simp add: ci(2) chunk_length_def)
  with ok ci i \<open>ai = i\<close> that show thesis by auto
qed

lemma chunks_for_append:
  "chunks_for (d\<lparr>db_upload_chunks := db_upload_chunks d @ [r]\<rparr>) v =
     chunks_for d v @ (if uc_upload_id r = v then [r] else [])"
  "manifests_for (d\<lparr>db_upload_chunks := x\<rparr>) v = manifests_for d v"
  "artifacts_for (d\<lparr>db_upload_chunks := x\<rparr>) v = artifacts_for d v"
  by (auto simp: chunks_for_def manifests_for_def artifacts_for_def)

lemma append_chunk_inv:
  assumes inv: "upload_inv srv s" and u: "u \<in> set (db_uploads (db s))"
    and a: "get_upload_artifact (db s) (up_id u) ai = Some a"
    and len: "expected_chunk_length u a ci = Inr len"
    and valid: "validate_digest sha = Inr ()"
    and fresh: "chunk_key_of (chunk_row_of u ai ci len sha at) \<notin> chunk_key_of ` set (db_upload_chunks (db s))"
    and backed: "chunk_backed (ext srv) (chunk_file (fs s) (up_id u)) (chunk_row_of u ai ci len sha at)"
  shows "upload_inv srv (s\<lparr>db := (db s)\<lparr>db_upload_chunks :=
    db_upload_chunks (db s) @ [chunk_row_of u ai ci len sha at]\<rparr>\<rparr>)"
proof -
  let ?r = "chunk_row_of u ai ci len sha at"
  let ?d = "(db s)\<lparr>db_upload_chunks := db_upload_chunks (db s) @ [?r]\<rparr>"
  have r: "uc_upload_id ?r = up_id u" by (simp add: chunk_row_of_def)
  have detail: "upload_detail_ok (ext srv) ?d (fs s) v" if v: "v \<in> set (db_uploads (db s))" for v
  proof (cases "up_id v = up_id u")
    case False
    with upload_invD(5) [OF inv v] r show ?thesis
      by (simp add: upload_detail_ok_def chunks_for_append)
  next
    case True
    with u v have v: "v = u" using distinct_key_eq [OF upload_invD(1) [OF inv]] by blast
    from expected_length_bound [OF inv u a len] obtain m c where
      m: "manifest_of (ext srv) u (manifests_for (db s) (up_id u)) m" "upload_layout_recorded u c m"
        "artifacts_for (db s) (up_id u) = projected_rows (up_id u) c m"
      and at: "ai < length (artifacts m)" "ci < chunks_needed (stored_size_bytes (artifacts m ! ai)) c"
        "len = chunk_length (stored_size_bytes (artifacts m ! ai)) c ci"
      by blast
    from upload_invD(5) [OF inv u] obtain m' c' where
      ok: "manifest_of (ext srv) u (manifests_for (db s) (up_id u)) m'" "upload_layout_recorded u c' m'"
        "distinct (map chunk_key_of (chunks_for (db s) (up_id u)))"
        "\<forall>r \<in> set (chunks_for (db s) (up_id u)). chunk_in_layout c' m' r"
        "up_status u \<noteq> ''completed'' \<longrightarrow> (\<forall>r \<in> set (chunks_for (db s) (up_id u)).
           chunk_backed (ext srv) (chunk_file (fs s) (up_id u)) r)"
        "up_status u \<in> {''created'', ''artifact_uploaded'', ''completed''}"
      unfolding upload_detail_ok_def upload_ok_def by blast
    have "m' = m" "c' = c"
      using ok(1,2) m(1,2) by (auto simp: manifest_of_def upload_layout_recorded_def)
    moreover have "chunk_in_layout c m ?r"
      unfolding chunk_in_layout_def using at valid digest_document_storage [OF valid]
      by (intro exI [of _ ai] conjI exI [of _ ci]) (simp_all add: chunk_row_of_def)
    moreover have "chunk_key_of ?r \<notin> chunk_key_of ` set (chunks_for (db s) (up_id u))"
      using fresh by (auto simp: chunks_for_def)
    ultimately have "upload_ok (ext srv) u (manifests_for (db s) (up_id u)) (artifacts_for (db s) (up_id u))
        (chunks_for (db s) (up_id u) @ [?r]) (chunk_file (fs s) (up_id u))"
      unfolding upload_ok_def using m ok(3-6) backed
      by (intro exI [of _ m] exI [of _ c]) auto
    then show ?thesis using r by (simp add: v upload_detail_ok_def chunks_for_append)
  qed
  have "no_orphan_detail ?d"
    using upload_invD(4) [OF inv] u r by (auto simp: no_orphan_detail_def upload_ids_def)
  with inv detail show ?thesis by (simp add: upload_inv_def)
qed

lemma get_chunk_none:
  assumes "get_chunk d uid ai ci = Inr None"
  shows "\<forall>r \<in> set (db_upload_chunks d). chunk_key_of r \<noteq> (uid, int ai, int ci)"
  using assms
  by (auto simp: get_chunk_def and_then_eq_Inr to_sqlite_i64_ok find_None chunk_key_of_def)

lemma persist_chunk_inv:
  assumes inv: "upload_inv srv s" and active: "get_active_upload (db s) (up_id u) = Some u"
    and a: "get_upload_artifact (db s) (up_id u) ai = Some a"
    and len: "expected_chunk_length u a ci = Inr (rq_byte_length request)"
    and valid: "validate_digest (rq_sha256 request) = Inr ()"
    and held: "holds_chunk (ext srv) request (chunk_file (fs s) (up_id u) ai ci)"
    and ok: "persist_chunk_record e u ai ci (rq_byte_length request) (rq_sha256 request) at (db s) = Inr (v, d)"
  shows "upload_inv srv (s\<lparr>db := d\<rparr>)"
proof -
  let ?row = "chunk_row_of u ai ci (rq_byte_length request) (rq_sha256 request) at"
  have u: "u \<in> set (db_uploads (db s))"
    using active by (auto simp: get_active_upload_def dest: find_SomeD)
  have backed: "chunk_backed (ext srv) (chunk_file (fs s) (up_id u)) ?row"
    using held by (auto simp: holds_chunk_def chunk_backed_def chunk_row_of_def)
  from persist_chunk_record_ok [OF ok] consider
    "d = (db s)\<lparr>db_upload_chunks := db_upload_chunks (db s) @ [?row]\<rparr>"
      "chunk_key_of ?row \<notin> chunk_key_of ` set (db_upload_chunks (db s))"
    | "d = db s"
    unfolding Let_def by metis
  then show ?thesis
    by cases (use append_chunk_inv [OF inv u a len valid _ backed] inv in simp_all)
qed

lemma refresh_upload_status_inv: "preserves (upload_inv srv) (transact (refresh_upload_status e u))"
  by (rule preserves_transact)
    (auto simp: refresh_upload_status_def and_then_eq_Inr commit_eq_Inr same_upload_def capture_key_def
      intro!: update_uploads_inv split: if_splits)

lemma accept_new_chunk_inv:
  assumes inv: "upload_inv srv s" and active: "get_active_upload (db s) (up_id u) = Some u"
    and a: "get_upload_artifact (db s) (up_id u) ai = Some a"
    and valid: "validate_digest (rq_sha256 request) = Inr ()"
  shows "upload_inv srv (snd (accept_new_chunk srv e u a ai ci body request s))"
proof (cases "expected_chunk_length u a ci = Inr (rq_byte_length request)")
  case False
  with inv show ?thesis
    by (auto simp: accept_new_chunk_def try_op_def pure_op_def reject_if_def split: sum.splits)
next
  case True
  have u: "u \<in> set (db_uploads (db s))"
    using active by (auto simp: get_active_upload_def dest: find_SomeD)
  have size: "rq_byte_length request \<le> u64_max"
  proof -
    have "rq_byte_length request \<le> i64_max"
      by (rule expected_length_bound [OF inv u a True])
    then show ?thesis by (simp add: i64_max_def u64_max_def)
  qed
  obtain r t where run: "store_chunk_file srv e (up_id u) ai ci body request s = (r, t)" by fastforce
  note effect = store_chunk_file_effect [OF run size]
  have t: "upload_inv srv t"
    by (rule chunk_files_inv [OF inv effect(1)]) (rule effect(2))
  show ?thesis
  proof (cases r)
    case (Inl err)
    with True run t show ?thesis
      by (simp add: accept_new_chunk_def bind_op_def)
  next
    case (Inr v)
    have rest: "upload_inv srv (snd (bind_op (transact (persist_chunk_record e u ai ci
        (rq_byte_length request) (rq_sha256 request) now_text)) (\<lambda>_.
      try_op (reject_if (io_fails e Remove_Staged) storage) (\<lambda>_.
      bind_op (transact (refresh_upload_status e u)) (\<lambda>_. pure_op (Inr 204)))) t))" for now_text
    proof (rule run_bind)
      show "upload_inv srv (snd (transact (persist_chunk_record e u ai ci (rq_byte_length request)
          (rq_sha256 request) now_text) t))"
        using persist_chunk_inv [OF t _ _ True valid effect(3) [OF Inr]] active a t
        by (auto simp: effect(1) transact_def split: sum.splits prod.splits)
      fix v t' assume "upload_inv srv t'"
      then show "upload_inv srv (snd ((try_op (reject_if (io_fails e Remove_Staged) storage) (\<lambda>_.
          bind_op (transact (refresh_upload_status e u)) (\<lambda>_. pure_op (Inr 204)))) t'))"
        by (rule preserves_snd [rotated]) (intro preserves_intros refresh_upload_status_inv)
    qed
    from True run Inr have "accept_new_chunk srv e u a ai ci body request s =
        try_op (ok_or internal (format_time (ext srv) (now e))) (\<lambda>now_text.
        bind_op (transact (persist_chunk_record e u ai ci
        (rq_byte_length request) (rq_sha256 request) now_text)) (\<lambda>_.
      try_op (reject_if (io_fails e Remove_Staged) storage) (\<lambda>_.
      bind_op (transact (refresh_upload_status e u)) (\<lambda>_. pure_op (Inr 204))))) t"
      by (simp add: accept_new_chunk_def bind_op_def [of "store_chunk_file srv e (up_id u) ai ci body request"])
    with rest t show ?thesis
      by (auto simp: try_op_def pure_op_def split: sum.splits)
  qed
qed

lemma parse_chunk_headers_valid:
  "parse_chunk_headers h = Inr (Some request) \<Longrightarrow> validate_digest (rq_sha256 request) = Inr ()"
  by (auto simp: parse_chunk_headers_def and_then_eq_Inr split: option.splits)

lemma put_artifact_chunk_inv: "preserves (upload_inv srv) (put_artifact_chunk srv e p q r h body)"
  unfolding preserves_def
proof (intro allI impI)
  fix s assume inv: "upload_inv srv s"
  show "upload_inv srv (snd (put_artifact_chunk srv e p q r h body s))"
    unfolding put_artifact_chunk_def
  proof (intro run_try [where I = "upload_inv srv"] inv, rule run_bind)
    show "upload_inv srv (snd (require_active_upload srv e uid s))" for uid
      using require_active_inv inv by (rule preserves_snd)
    fix uid ai ci u t
    assume active: "require_active_upload srv e uid s = (Inr u, t)"
    have t: "t = s" by (rule require_active_same [OF active])
    have find: "get_active_upload (db s) uid = Some u" by (rule require_active_find [OF active])
    then have uid: "up_id u = uid" by (auto simp: get_active_upload_def dest: find_SomeD)
    have new: "upload_inv srv (snd (accept_new_chunk srv e u a ai ci body request s))"
      if a: "get_upload_artifact (db s) uid ai = Some a"
        and request: "(case parsed of Some request \<Rightarrow> Inr request
          | None \<Rightarrow> legacy_single_chunk_request u a ai ci) = Inr request"
        and parsed: "parse_chunk_headers h = Inr parsed" for a request parsed
    proof (rule accept_new_chunk_inv [OF inv])
      show "get_active_upload (db s) (up_id u) = Some u" using find uid by simp
      show a': "get_upload_artifact (db s) (up_id u) ai = Some a" using a uid by simp
      have u: "u \<in> set (db_uploads (db s))"
        using find by (auto simp: get_active_upload_def dest: find_SomeD)
      obtain m c where ok: "manifest_of (ext srv) u (manifests_for (db s) (up_id u)) m"
        "upload_layout_recorded u c m" "artifacts_for (db s) (up_id u) = projected_rows (up_id u) c m"
        using upload_invD(5) [OF inv u] unfolding upload_detail_ok_def upload_ok_def by blast
      have legacy: "validate_digest (digest_document_value (ua_stored_sha256 a)) = Inr ()"
        using projected_row_layout [OF ok(2,1) upload_artifact_projected(1) [OF ok(3) refl a']] by blast
      show "validate_digest (rq_sha256 request) = Inr ()"
        using request parsed legacy parse_chunk_headers_valid
        by (auto simp: legacy_single_chunk_request_def and_then_eq_Inr split: option.splits if_splits)
    qed
    show "upload_inv srv (snd (try_op (reject_if (up_status u = ''completed'')
       (conflict ''upload_completed'' ''completed uploads do not accept artifact bytes'')) (\<lambda>_.
     bind_op (query (\<lambda>d. ok_or
       (invalid ''artifact index is outside the negotiated artifact range'')
       (get_upload_artifact d uid ai))) (\<lambda>a.
     try_op (parse_chunk_headers h) (\<lambda>parsed.
     try_op (case parsed of
         Some request \<Rightarrow> Inr request
       | None \<Rightarrow> legacy_single_chunk_request u a ai ci) (\<lambda>request.
     bind_op (query (\<lambda>d. get_chunk d uid ai ci)) (\<lambda>existing.
     case existing of
       Some row \<Rightarrow> repeat_chunk srv u ai ci request row
     | None \<Rightarrow>
         accept_new_chunk srv e u a ai ci body request))))) t))"
      unfolding t
    proof (intro run_intros [where I = "upload_inv srv"] inv)
      fix a parsed request existing
      assume "ok_or (invalid ''artifact index is outside the negotiated artifact range'')
          (get_upload_artifact (db s) uid ai) = Inr a"
        "(case parsed of None \<Rightarrow> legacy_single_chunk_request u a ai ci | Some request \<Rightarrow> Inr request)
          = Inr request" "parse_chunk_headers h = Inr parsed"
      then have "upload_inv srv (snd (accept_new_chunk srv e u a ai ci body request s))"
        using new by (simp add: ok_or_eq_Inr)
      moreover have "preserves (upload_inv srv) (repeat_chunk srv u ai ci request row)" for row
        unfolding repeat_chunk_def by (intro preserves_intros)
      ultimately show "upload_inv srv (snd ((case existing of
          None \<Rightarrow> accept_new_chunk srv e u a ai ci body request
        | Some row \<Rightarrow> repeat_chunk srv u ai ci request row) s))"
        using inv by (simp add: preserves_def split: option.splits)
    qed
  qed
qed

section \<open>Completing an upload\<close>

definition completed_in :: "database \<Rightarrow> string \<Rightarrow> bool" where
  "completed_in d uid = (\<exists>u \<in> set (db_uploads d). up_id u = uid \<and> up_status u = ''completed'')"

text \<open>An operation that keeps the invariant and, when it succeeds, leaves the upload completed.\<close>

definition finishes :: "server \<Rightarrow> string \<Rightarrow> (archive, 'a) op \<Rightarrow> bool" where
  "finishes srv uid m =
     (\<forall>s r t. upload_inv srv s \<longrightarrow> m s = (r, t) \<longrightarrow>
        upload_inv srv t \<and> ((\<exists>v. r = Inr v) \<longrightarrow> completed_in (db t) uid))"

lemma finishes_preserves: "finishes srv uid m \<Longrightarrow> preserves (upload_inv srv) m"
  by (auto simp: finishes_def preserves_def) (metis prod.collapse)

lemma finishes_bind:
  assumes "preserves (upload_inv srv) m" "\<And>v. finishes srv uid (f v)"
  shows "finishes srv uid (bind_op m f)"
  unfolding finishes_def
proof (intro allI impI)
  fix s r t assume inv: "upload_inv srv s" and run: "bind_op m f s = (r, t)"
  obtain r1 s1 where m: "m s = (r1, s1)" by fastforce
  have s1: "upload_inv srv s1" by (rule preservesD [OF assms(1) inv m])
  show "upload_inv srv t \<and> ((\<exists>v. r = Inr v) \<longrightarrow> completed_in (db t) uid)"
  proof (cases r1)
    case (Inl err)
    with run m s1 show ?thesis by (auto simp: bind_op_def)
  next
    case (Inr v)
    with run m have "f v s1 = (r, t)" by (simp add: bind_op_def)
    with assms(2) s1 show ?thesis unfolding finishes_def by blast
  qed
qed

lemma finishes_try:
  "(\<And>v. r = Inr v \<Longrightarrow> finishes srv uid (f v)) \<Longrightarrow> finishes srv uid (try_op r f)"
  by (cases r) (simp_all add: finishes_def pure_op_def)

lemma finishes_if: "finishes srv uid a \<Longrightarrow> finishes srv uid b \<Longrightarrow> finishes srv uid (if c then a else b)"
  by simp

lemma finishes_transact:
  assumes "\<And>s v d. f (db s) = Inr (v, d) \<Longrightarrow> upload_inv srv s \<Longrightarrow>
      upload_inv srv (s\<lparr>db := d\<rparr>) \<and> completed_in d uid"
  shows "finishes srv uid (transact f)"
  unfolding finishes_def
proof (intro allI impI)
  fix s r t assume inv: "upload_inv srv s" and run: "transact f s = (r, t)"
  show "upload_inv srv t \<and> ((\<exists>v. r = Inr v) \<longrightarrow> completed_in (db t) uid)"
  proof (cases r)
    case (Inl err)
    with run inv show ?thesis by (simp add: transact_Inl)
  next
    case (Inr v)
    with run obtain d where "f (db s) = Inr (v, d)" "t = s\<lparr>db := d\<rparr>" by (auto simp: transact_Inr)
    with assms [OF _ inv] show ?thesis by simp
  qed
qed

lemma remove_completed_dir_inv:
  assumes inv: "upload_inv srv s" and fin: "completed_in (db s) uid"
  shows "upload_inv srv (snd (remove_upload_dir_op e uid s))"
proof -
  have "upload_inv srv (s\<lparr>fs := remove_upload_dir uid (fs s)\<rparr>)"
  proof (rule chunk_files_inv [OF inv])
    fix u i k assume u: "u \<in> set (db_uploads (db s))" "up_status u \<noteq> ''completed''"
    with fin have "up_id u \<noteq> uid"
      using distinct_key_eq [OF upload_invD(1) [OF inv]] by (auto simp: completed_in_def)
    then show "chunk_file (fs (s\<lparr>fs := remove_upload_dir uid (fs s)\<rparr>)) (up_id u) i k
        = chunk_file (fs s) (up_id u) i k"
      by simp
  qed simp
  with inv show ?thesis by (simp add: remove_upload_dir_op_def pure_op_def modify_op_def)
qed

lemma then_remove_dir_inv:
  assumes "finishes srv uid m"
  shows "preserves (upload_inv srv)
    (bind_op m (\<lambda>_. bind_op (ignore_op (remove_upload_dir_op e uid)) (\<lambda>_. query g)))"
  unfolding preserves_def
proof (intro allI impI, rule run_bind)
  fix s assume inv: "upload_inv srv s"
  then show "upload_inv srv (snd (m s))"
    using finishes_preserves [OF assms] by (simp add: preserves_def)
  fix v t assume run: "m s = (Inr v, t)" and t: "upload_inv srv t"
  with assms inv have "completed_in (db t) uid" unfolding finishes_def by blast
  with remove_completed_dir_inv [OF t]
  show "upload_inv srv (snd ((bind_op (ignore_op (remove_upload_dir_op e uid)) (\<lambda>_. query g)) t))"
    by (simp add: bind_op_def ignore_op_def query_def)
qed

text \<open>What completing does to the tables of uploads.\<close>

lemma insert_capture_tables:
  "insert_capture_provenance srv e u m mid sid at d = Inr d' \<Longrightarrow>
     db_uploads d' = db_uploads d \<and> db_manifests d' = db_manifests d
       \<and> db_upload_artifacts d' = db_upload_artifacts d \<and> db_upload_chunks d' = db_upload_chunks d"
  by (auto simp: insert_capture_provenance_def and_then_eq_Inr maintain_session_latest_context_def
      upsert_session_latest_context_def split: option.splits if_splits)

lemma complete_open_inv:
  assumes inv: "upload_inv srv s"
    and d: "db_uploads d = update_where (open_upload uid) (complete_upload_row sid at tr nw)
      (db_uploads (db s))"
      "db_manifests d = db_manifests (db s)" "db_upload_artifacts d = db_upload_artifacts (db s)"
      "db_upload_chunks d = db_upload_chunks (db s)"
  shows "upload_inv srv (s\<lparr>db := d\<rparr>)"
proof -
  have "upload_inv srv (s\<lparr>db := (db s)\<lparr>db_uploads := update_where (open_upload uid)
      (complete_upload_row sid at tr nw) (db_uploads (db s))\<rparr>\<rparr>)"
    by (intro update_uploads_inv inv)
      (simp add: complete_upload_row_def same_upload_def capture_key_def)
  moreover have view: "upload_view (s\<lparr>db := d\<rparr>) = upload_view (s\<lparr>db := (db s)\<lparr>db_uploads :=
      update_where (open_upload uid) (complete_upload_row sid at tr nw) (db_uploads (db s))\<rparr>\<rparr>)"
    by (simp add: upload_view_def d)
  ultimately show ?thesis by (subst upload_inv_view [OF view])
qed

lemma finish_upload_row_effect:
  assumes ok: "finish_upload_row srv' e u m mid sid at transfer newly d = Inr d'"
    and inv: "upload_inv srv (s\<lparr>db := d\<rparr>)"
  shows "upload_inv srv (s\<lparr>db := d'\<rparr>) \<and> completed_in d' (up_id u)"
proof (cases "list_ex (open_upload (up_id u)) (db_uploads d)")
  case True
  with ok obtain tr nw where cap: "insert_capture_provenance srv' e u m mid sid at
      (d\<lparr>db_uploads := update_where (open_upload (up_id u)) (complete_upload_row sid at tr nw)
        (db_uploads d)\<rparr>) = Inr d'"
    by (auto simp: finish_upload_row_def and_then_eq_Inr)
  note tables = insert_capture_tables [OF cap]
  have "upload_inv srv (s\<lparr>db := d\<rparr>\<lparr>db := d'\<rparr>)"
    by (rule complete_open_inv [OF inv]) (use tables in auto)
  moreover have "completed_in d' (up_id u)"
  proof -
    obtain v where v: "v \<in> set (db_uploads d)" "open_upload (up_id u) v"
      using True by (auto simp: list_ex_iff)
    then have "complete_upload_row sid at tr nw v \<in> set (db_uploads d')"
      using tables by (simp add: set_update_where)
    moreover have "up_id (complete_upload_row sid at tr nw v) = up_id u"
      "up_status (complete_upload_row sid at tr nw v) = ''completed''"
      using v(2) by (simp_all add: complete_upload_row_def open_upload_def)
    ultimately show ?thesis unfolding completed_in_def by blast
  qed
  ultimately show ?thesis by simp
next
  case False
  with ok inv show ?thesis
    by (auto simp: finish_upload_row_def and_then_eq_Inr completed_in_def get_active_upload_def
        split: option.splits if_splits dest!: find_SomeD)
qed

lemma finish_upload_row_closed:
  assumes "finish_upload_row srv e u m mid sid at transfer newly d = Inr d'"
    and "\<not> list_ex (open_upload (up_id u)) (db_uploads d)"
  shows "d' = d"
  using assms by (auto simp: finish_upload_row_def and_then_eq_Inr split: option.splits if_splits)

lemma finalize_existing_ok:
  assumes ok: "finalize_existing_transaction srv e u m sid transfer at d = Inr (v, d')"
  shows "\<exists>mid. finish_upload_row srv e u m mid sid at transfer 0 d = Inr d'"
proof (cases "list_ex (open_upload (up_id u)) (db_uploads d)")
  case True
  with ok show ?thesis
    by (auto simp: finalize_existing_transaction_def and_then_eq_Inr commit_eq_Inr)
next
  case False
  with ok obtain w where "finish_upload_row srv e u m [] sid at transfer 0 d = Inr w" "d' = d"
    unfolding finalize_existing_transaction_def and_then_eq_Inr commit_eq_Inr
    by (simp only: if_False and_then_eq_Inr) blast
  with finish_upload_row_closed [OF this(1) False] show ?thesis by blast
qed

lemma finalize_existing_finishes:
  "finishes srv (up_id u) (finalize_upload_for_existing_snapshot srv e u m sid transfer)"
  unfolding finalize_upload_for_existing_snapshot_def
proof (rule finishes_try, rule finishes_transact)
  fix now_text s v d
  assume ok: "finalize_existing_transaction srv e u m sid transfer now_text (db s) = Inr (v, d)"
    and inv: "upload_inv srv s"
  obtain mid where fin: "finish_upload_row srv e u m mid sid now_text transfer 0 (db s) = Inr d"
    using finalize_existing_ok [OF ok] by blast
  from inv have "upload_inv srv (s\<lparr>db := db s\<rparr>)" by simp
  from finish_upload_row_effect [OF fin this]
  show "upload_inv srv (s\<lparr>db := d\<rparr>) \<and> completed_in d (up_id u)" .
qed

text \<open>Promoting blobs does not touch uploads.\<close>

lemma blob_file_upload_view [simp]:
  "upload_view (s\<lparr>fs := link_blob_file h bs (fs s)\<rparr>) = upload_view s"
  "upload_view (s\<lparr>fs := unlink_blob_file h (fs s)\<rparr>) = upload_view s"
  by (simp_all add: upload_view_def link_blob_file_def unlink_blob_file_def)

lemma promote_blob_upload_view: "keeps_upload_view (promote_blob srv e p)"
  unfolding promote_blob_def Let_def by (intro allI preserves_intros) simp_all

lemma cleanup_upload_view: "preserves (\<lambda>s. upload_view s = v) (cleanup_uncommitted_promotions srv e ps)"
  by (induction ps) (auto intro!: preserves_intros)

lemma promote_unique_upload_view:
  "upload_view (snd (promote_unique_blobs srv e promotions ps s)) = upload_view s"
proof (induction ps arbitrary: promotions s)
  case (Cons p ps)
  obtain r t where run: "promote_blob srv e p s = (r, t)" by fastforce
  have t: "upload_view t = upload_view s"
    using preservesD [OF promote_blob_upload_view [rule_format] refl run] .
  have "upload_view (snd (bind_op (ignore_op (cleanup_uncommitted_promotions srv e qs))
      (\<lambda>_. pure_op (Inl err)) t)) = upload_view t" for qs and err :: api_error
    by (rule preserves_snd [where I = "\<lambda>u. upload_view u = upload_view t"])
      (intro preserves_intros cleanup_upload_view, rule refl)
  with run t Cons.IH show ?case
    by (auto split: sum.splits)
qed (simp add: pure_op_def)

lemma upload_inv_blobs [simp]:
  "upload_inv srv (s\<lparr>db := d\<lparr>db_blobs := a\<rparr>\<rparr>) = upload_inv srv (s\<lparr>db := d\<rparr>)"
  "upload_inv srv (s\<lparr>db := d\<lparr>db_tombstones := b\<rparr>\<rparr>) = upload_inv srv (s\<lparr>db := d\<rparr>)"
  "upload_inv srv (s\<lparr>db := d\<lparr>db_snapshots := c\<rparr>\<rparr>) = upload_inv srv (s\<lparr>db := d\<rparr>)"
  "upload_inv srv (s\<lparr>db := d\<lparr>db_artifacts := g\<rparr>\<rparr>) = upload_inv srv (s\<lparr>db := d\<rparr>)"
  by (auto intro!: upload_inv_view simp: upload_view_def)

lemma get_or_create_blob_table:
  "get_or_create_blob srv e k a now_text d = Inr (bid, d') \<Longrightarrow> \<exists>blobs. d' = d\<lparr>db_blobs := blobs\<rparr>"
  by (auto simp: get_or_create_blob_def and_then_eq_Inr)

lemma create_blob_rows_table:
  "create_blob_rows srv e now_text k ps ids d = Inr (ids', d') \<Longrightarrow> \<exists>blobs. d' = d\<lparr>db_blobs := blobs\<rparr>"
proof (induction ps arbitrary: k ids d)
  case Nil
  then have "d' = d\<lparr>db_blobs := db_blobs d\<rparr>" by simp
  then show ?case by blast
next
  case (Cons p ps)
  show ?case
  proof (cases "map_of ids (stored_digest (pr_artifact p))")
    case None
    with Cons.prems obtain bid d1 where
      one: "get_or_create_blob srv e k (pr_artifact p) now_text d = Inr (bid, d1)"
      and rest: "create_blob_rows srv e now_text (k + 1) ps
        ((stored_digest (pr_artifact p), bid) # ids) d1 = Inr (ids', d')"
      by (auto simp: and_then_eq_Inr)
    from get_or_create_blob_table [OF one] Cons.IH [OF rest] show ?thesis by auto
  next
    case (Some b)
    with Cons show ?thesis by simp
  qed
qed

text \<open>The tables a recording transaction goes through.\<close>

lemma record_transaction_cases:
  assumes ok: "record_transaction srv e u m ps fingerprint transfer newly now_text now_seq d
      = Inr (recorded, d')"
  obtains (lost) "\<not> recorded" "d' = d"
    | (won) blobs ids row mid rows d2 prior where "recorded"
      "create_blob_rows srv e now_text 0 ps [] d = Inr (ids, d\<lparr>db_blobs := blobs\<rparr>)"
      "find (\<lambda>r. mf_upload_id r = up_id u) (db_manifests d) = Some mid"
      "new_snapshot_row srv e u m (mf_id mid) fingerprint now_text now_seq prior (length ps) = Inr row"
      "prior = prior_tombstone (up_session_id u) fingerprint d"
      "\<not> list_ex (snapshot_clash row) (db_snapshots d)"
      "try_fold (insert_artifact_row e (sn_id row) ids now_text now_seq)
        (db_artifacts d) (enumerate 0 ps) = Inr rows"
      "finish_upload_row srv e u m (mf_id mid) (sn_id row) now_text transfer newly
        (d\<lparr>db_blobs := blobs, db_snapshots := db_snapshots d @ [row], db_artifacts := rows\<rparr>) = Inr d2"
      "d' = d2\<lparr>db_tombstones := note_rearchived (sn_id row) prior (db_tombstones d2)\<rparr>"
proof -
  obtain ids d1 where blobs: "create_blob_rows srv e now_text 0 ps [] d = Inr (ids, d1)"
    using ok by (auto simp: record_transaction_def and_then_eq_Inr)
  obtain bs where d1: "d1 = d\<lparr>db_blobs := bs\<rparr>" using create_blob_rows_table [OF blobs] by blast
  have prior: "prior_tombstone sid f (d\<lparr>db_blobs := bs\<rparr>) = prior_tombstone sid f d" for sid f
    by (simp add: prior_tombstone_def)
  show thesis
  proof (cases recorded)
    case False
    with ok blobs have "d' = d"
      by (auto simp: record_transaction_def and_then_eq_Inr commit_eq_Inr Let_def split: if_splits)
    with False show thesis by (rule lost)
  next
    case True
    from True ok blobs obtain mid row rows d2 where
      "find (\<lambda>r. mf_upload_id r = up_id u) (db_manifests d) = Some mid"
      "new_snapshot_row srv e u m (mf_id mid) fingerprint now_text now_seq
        (prior_tombstone (up_session_id u) fingerprint d) (length ps) = Inr row"
      "\<not> list_ex (snapshot_clash row) (db_snapshots d)"
      "try_fold (insert_artifact_row e (sn_id row) ids now_text now_seq)
        (db_artifacts d) (enumerate 0 ps) = Inr rows"
      "finish_upload_row srv e u m (mf_id mid) (sn_id row) now_text transfer newly
        (d\<lparr>db_blobs := bs, db_snapshots := db_snapshots d @ [row], db_artifacts := rows\<rparr>) = Inr d2"
      "d' = d2\<lparr>db_tombstones := note_rearchived (sn_id row)
        (prior_tombstone (up_session_id u) fingerprint d) (db_tombstones d2)\<rparr>"
      by (auto simp: record_transaction_def finalize_winning_snapshot_def and_then_eq_Inr
          commit_eq_Inr Let_def d1 prior fetch_one_eq_Inr split: if_splits)
    from won [OF True blobs [unfolded d1] this(1,2) refl this(3-6)] show thesis .
  qed
qed

lemma record_transaction_effect:
  assumes ok: "record_transaction srv e u m ps fingerprint transfer newly now_text now_seq (db s)
      = Inr (recorded, d)"
    and inv: "upload_inv srv s"
  shows "upload_inv srv (s\<lparr>db := d\<rparr>) \<and> (recorded \<longrightarrow> completed_in d (up_id u))"
proof (cases rule: record_transaction_cases [OF ok])
  case 1
  with inv show ?thesis by simp
next
  case (2 blobs ids row mid rows d2 prior)
  have "upload_inv srv (s\<lparr>db := (db s)\<lparr>db_blobs := blobs,
      db_snapshots := db_snapshots (db s) @ [row], db_artifacts := rows\<rparr>\<rparr>)"
    using inv by simp
  from finish_upload_row_effect [OF 2(8) this] show ?thesis
    unfolding 2(9) by (simp add: completed_in_def)
qed

lemma record_completed_upload_finishes:
  "finishes srv (up_id u)
     (record_completed_upload srv e u m ps promotions fingerprint transfer newly)"
  unfolding record_completed_upload_def
proof (intro finishes_try)
  fix now_text now_seq
  let ?rest = "\<lambda>recorded. if recorded then pure_op (Inr ())
     else
       bind_op (query (\<lambda>d. fetch_one (\<lambda>r. sn_session_id r = up_session_id u
         \<and> sn_fingerprint_sha256 r = fingerprint \<and> sn_deleted_at r = None) (db_snapshots d)))
         (\<lambda>winner.
       bind_op (cleanup_uncommitted_promotions srv e promotions) (\<lambda>_.
       finalize_upload_for_existing_snapshot srv e u m (sn_id winner) transfer))"
  have lost: "finishes srv (up_id u) (?rest False)"
    using cleanup_upload_view
    by (auto intro!: finishes_bind preserves_intros keeps_upload_view_inv finalize_existing_finishes)
  show "finishes srv (up_id u) (bind_op (transact (record_transaction srv e u m ps fingerprint
      transfer newly now_text now_seq)) ?rest)"
    unfolding finishes_def
  proof (intro allI impI)
    fix s r t assume inv: "upload_inv srv s" and run: "bind_op (transact (record_transaction srv e u
      m ps fingerprint transfer newly now_text now_seq)) ?rest s = (r, t)"
    show "upload_inv srv t \<and> ((\<exists>v. r = Inr v) \<longrightarrow> completed_in (db t) (up_id u))"
    proof (cases "record_transaction srv e u m ps fingerprint transfer newly now_text now_seq (db s)")
      case (Inl err)
      with run inv show ?thesis by (auto simp: bind_op_def transact_def)
    next
      case (Inr p)
      obtain recorded d where p: "p = (recorded, d)" by fastforce
      note effect = record_transaction_effect [OF Inr [unfolded p] inv]
      from run Inr p have rest: "?rest recorded (s\<lparr>db := d\<rparr>) = (r, t)"
        by (simp add: bind_op_def transact_def)
      show ?thesis
      proof (cases recorded)
        case True
        with rest effect show ?thesis by (auto simp: pure_op_def)
      next
        case False
        with rest have rest': "?rest False (s\<lparr>db := d\<rparr>) = (r, t)" by simp
        have "upload_inv srv (s\<lparr>db := d\<rparr>)" using effect by blast
        from lost [unfolded finishes_def, rule_format, OF this rest'] show ?thesis by blast
      qed
    qed
  qed
qed

lemma cleanup_upload_inv: "preserves (upload_inv srv) (cleanup_uncommitted_promotions srv' e ps)"
  using cleanup_upload_view by (intro keeps_upload_view_inv) blast

lemma record_or_clean_up_finishes:
  "finishes srv (up_id u) (record_or_clean_up srv e u m ps promotions fingerprint transfer newly)"
  unfolding finishes_def
proof (intro allI impI)
  fix s r t assume inv: "upload_inv srv s"
    and run: "record_or_clean_up srv e u m ps promotions fingerprint transfer newly s = (r, t)"
  obtain r1 s1 where rec: "record_completed_upload srv e u m ps promotions fingerprint transfer newly s
      = (r1, s1)"
    by fastforce
  have s1: "upload_inv srv s1" "(\<exists>v. r1 = Inr v) \<longrightarrow> completed_in (db s1) (up_id u)"
    using record_completed_upload_finishes [unfolded finishes_def, rule_format, OF inv rec] by blast+
  show "upload_inv srv t \<and> ((\<exists>v. r = Inr v) \<longrightarrow> completed_in (db t) (up_id u))"
  proof (cases r1)
    case (Inl err)
    have "preserves (upload_inv srv) (bind_op (ignore_op (cleanup_uncommitted_promotions srv e
        promotions)) (\<lambda>_. pure_op (Inl err)))"
      by (intro preserves_intros cleanup_upload_inv)
    then have "upload_inv srv (snd (bind_op (ignore_op (cleanup_uncommitted_promotions srv e
        promotions)) (\<lambda>_. pure_op (Inl err)) s1))"
      using s1(1) by (rule preserves_snd)
    with Inl run rec show ?thesis
      by (auto simp: record_or_clean_up_def bind_op_def ignore_op_def pure_op_def)
  next
    case (Inr v)
    with run rec s1 show ?thesis by (auto simp: record_or_clean_up_def)
  qed
qed

lemma promote_unique_upload_inv:
  "preserves (upload_inv srv) (promote_unique_blobs srv' e promotions ps)"
  unfolding preserves_def using upload_inv_view [OF promote_unique_upload_view] by blast

lemma complete_prepared_upload_inv:
  "preserves (upload_inv srv) (complete_prepared srv e u m ps fingerprint transfer)"
proof -
  have attach: "preserves (upload_inv srv) (attach_to_snapshot srv e u m transfer sid)" for sid
    unfolding attach_to_snapshot_def
    by (rule then_remove_dir_inv [OF finalize_existing_finishes])
  have locked: "preserves (upload_inv srv) (complete_under_blob_locks srv e u m ps fingerprint transfer)"
    unfolding complete_under_blob_locks_def
    by (intro preserves_intros attach promote_unique_upload_inv
        then_remove_dir_inv [OF record_or_clean_up_finishes])
  show ?thesis
    unfolding complete_prepared_def by (intro preserves_intros attach locked)
qed

lemma complete_checked_upload_inv: "preserves (upload_inv srv) (complete_checked srv e u m rows)"
  unfolding complete_checked_def
  by (intro preserves_intros) (auto split: prod.splits intro!: preserves_intros complete_prepared_upload_inv)

lemma complete_upload_upload_inv: "preserves (upload_inv srv) (complete_upload srv e path)"
  unfolding preserves_def
proof (intro allI impI)
  fix s assume inv: "upload_inv srv s"
  show "upload_inv srv (snd (complete_upload srv e path s))"
  proof (cases rule: complete_upload_cases [of srv e path s])
    case (inactive uid)
    with preserves_snd [OF require_active_inv inv] show ?thesis by simp
  next
    case (checked uid u m)
    with preserves_snd [OF complete_checked_upload_inv inv] show ?thesis by simp
  qed (use inv in simp)
qed

end
