(* ===== verification/History_Invariant.thy ===== *)
theory History_Invariant
  imports Upload_Invariant
begin

text \<open>
  The history of the archive. A completed upload has the capture and the snapshot it was completed
  with; every snapshot has a capture and a session; a snapshot is deleted exactly when it has its
  tombstone and audit; and the latest context of a session is the live snapshot that was completed
  last. The operations that change this history are the two finalizations and the deletion.
\<close>

section \<open>The invariant\<close>

text \<open>The order of completion, with the identifier as the tie breaker.\<close>

definition completion_key :: "snapshot_row \<Rightarrow> int \<times> string" where
  "completion_key s = (sn_completed_at_seq s, sn_id s)"

definition context_key :: "latest_context_row \<Rightarrow> int \<times> string" where
  "context_key r = (lx_completed_at_seq r, lx_snapshot_id r)"

definition live_of :: "database \<Rightarrow> string \<Rightarrow> snapshot_row set" where
  "live_of d session_id =
     {s \<in> set (db_snapshots d). sn_session_id s = session_id \<and> sn_deleted_at s = None}"

text \<open>The latest contexts are the maxima of the completion order over the given snapshots.\<close>

definition contexts_latest :: "(string \<Rightarrow> snapshot_row set) \<Rightarrow> latest_context_row list \<Rightarrow> bool" where
  "contexts_latest live table =
     (distinct (map lx_session_id table)
       \<and> (\<forall>r \<in> set table. context_key r \<in> completion_key ` live (lx_session_id r)
             \<and> (\<forall>k \<in> completion_key ` live (lx_session_id r). k \<le> context_key r))
       \<and> (\<forall>session_id. live session_id \<noteq> {} \<longrightarrow> session_id \<in> lx_session_id ` set table))"

definition snapshots_recorded :: "externals \<Rightarrow> database \<Rightarrow> bool" where
  "snapshots_recorded x d =
     (distinct (map sn_id (db_snapshots d))
       \<and> (\<forall>s \<in> set (db_snapshots d).
            sort_key_from_rfc3339 x (sn_completed_at s) = Some (sn_completed_at_seq s)
              \<and> sn_session_id s \<in> se_id ` set (db_sessions d)
              \<and> sn_id s \<in> cp_snapshot_id ` set (db_captures d)))"

definition uploads_recorded :: "database \<Rightarrow> bool" where
  "uploads_recorded d =
     (up_session_id ` set (db_uploads d) \<subseteq> se_id ` set (db_sessions d)
       \<and> (\<forall>u \<in> set (db_uploads d). up_status u = ''completed'' \<longrightarrow>
            (\<exists>sid. up_snapshot_id u = Some sid \<and> sid \<in> sn_id ` set (db_snapshots d)
               \<and> (\<exists>c \<in> set (db_captures d). cp_upload_id c = up_id u \<and> cp_snapshot_id c = sid))))"

definition tombstones_recorded :: "database \<Rightarrow> bool" where
  "tombstones_recorded d =
     (distinct (map ts_snapshot_id (db_tombstones d)) \<and> distinct (map ts_id (db_tombstones d))
       \<and> (\<forall>s \<in> set (db_snapshots d). sn_deleted_at s \<noteq> None \<longrightarrow>
            (\<exists>t \<in> set (db_tombstones d). ts_snapshot_id t = sn_id s
               \<and> (\<exists>a \<in> set (db_deletion_audits d). da_tombstone_id a = ts_id t)))
       \<and> (\<forall>t \<in> set (db_tombstones d). \<exists>s \<in> set (db_snapshots d).
            sn_id s = ts_snapshot_id t \<and> sn_deleted_at s \<noteq> None))"

definition history_inv :: "server \<Rightarrow> archive \<Rightarrow> bool" where
  "history_inv srv s =
     (snapshots_recorded (ext srv) (db s) \<and> uploads_recorded (db s) \<and> tombstones_recorded (db s)
       \<and> contexts_latest (live_of (db s)) (db_latest_contexts (db s)))"

text \<open>What the invariant depends on; uploads may disappear unless they are completed.\<close>

definition history_view ::
  "archive \<Rightarrow> snapshot_row list \<times> session_row list \<times> capture_row list \<times> tombstone_row list
     \<times> deletion_audit_row list \<times> latest_context_row list" where
  "history_view s = (db_snapshots (db s), db_sessions (db s), db_captures (db s),
     db_tombstones (db s), db_deletion_audits (db s), db_latest_contexts (db s))"

lemma history_inv_change:
  assumes inv: "history_inv srv s" and view: "history_view t = history_view s"
    and uploads: "\<And>u. u \<in> set (db_uploads (db t)) \<Longrightarrow> \<exists>v \<in> set (db_uploads (db s)).
      up_id u = up_id v \<and> up_session_id u = up_session_id v
        \<and> (up_status u = ''completed'' \<longrightarrow> up_status v = ''completed'' \<and> up_snapshot_id u = up_snapshot_id v)"
  shows "history_inv srv t"
proof -
  have "live_of (db t) = live_of (db s)"
    using view by (simp add: history_view_def live_of_def fun_eq_iff)
  moreover have "uploads_recorded (db t)"
    unfolding uploads_recorded_def
  proof (intro conjI subsetI ballI impI)
    fix i assume "i \<in> up_session_id ` set (db_uploads (db t))"
    then show "i \<in> se_id ` set (db_sessions (db t))"
      using uploads inv view unfolding history_inv_def uploads_recorded_def history_view_def by force
  next
    fix u assume u: "u \<in> set (db_uploads (db t))" "up_status u = ''completed''"
    from uploads [OF u(1)] u(2) obtain v where v: "v \<in> set (db_uploads (db s))" "up_id u = up_id v"
      "up_status v = ''completed''" "up_snapshot_id u = up_snapshot_id v"
      by blast
    with inv view show "\<exists>sid. up_snapshot_id u = Some sid \<and> sid \<in> sn_id ` set (db_snapshots (db t))
        \<and> (\<exists>c \<in> set (db_captures (db t)). cp_upload_id c = up_id u \<and> cp_snapshot_id c = sid)"
      unfolding history_inv_def uploads_recorded_def history_view_def by simp
  qed
  ultimately show ?thesis
    using inv view
    by (simp add: history_inv_def snapshots_recorded_def tombstones_recorded_def history_view_def)
qed

lemma history_inv_view:
  "history_inv srv s \<Longrightarrow> history_view t = history_view s \<Longrightarrow> db_uploads (db t) = db_uploads (db s) \<Longrightarrow>
     history_inv srv t"
  by (erule history_inv_change) auto

text \<open>Operations that change neither history nor uploads.\<close>

abbreviation keeps_history_view :: "(archive, 'a) op \<Rightarrow> bool" where
  "keeps_history_view m \<equiv> (\<forall>v. preserves (\<lambda>s. (history_view s, db_uploads (db s)) = v) m)"

lemma keeps_history_view_inv:
  assumes "keeps_history_view m" shows "preserves (history_inv srv) m"
  unfolding preserves_def
proof (intro allI impI)
  fix s assume inv: "history_inv srv s"
  have "(history_view (snd (m s)), db_uploads (db (snd (m s)))) = (history_view s, db_uploads (db s))"
    by (rule preserves_snd [OF assms [rule_format] refl])
  with inv show "history_inv srv (snd (m s))" by (auto intro: history_inv_view)
qed

lemma history_view_db [simp]:
  "history_view (s\<lparr>fs := f\<rparr>) = history_view s"
  "history_view (s\<lparr>db := d\<lparr>db_uploads := u\<rparr>\<rparr>) = history_view (s\<lparr>db := d\<rparr>)"
  "history_view (s\<lparr>db := d\<lparr>db_clients := c\<rparr>\<rparr>) = history_view (s\<lparr>db := d\<rparr>)"
  "history_view (s\<lparr>db := d\<lparr>db_upload_chunks := k\<rparr>\<rparr>) = history_view (s\<lparr>db := d\<rparr>)"
  "history_view (s\<lparr>db := d\<lparr>db_upload_audits := a\<rparr>\<rparr>) = history_view (s\<lparr>db := d\<rparr>)"
  "history_view (s\<lparr>db := d\<lparr>db_blobs := b\<rparr>\<rparr>) = history_view (s\<lparr>db := d\<rparr>)"
  "history_view (s\<lparr>db := d\<lparr>db_artifacts := f'\<rparr>\<rparr>) = history_view (s\<lparr>db := d\<rparr>)"
  "history_view (s\<lparr>db := d\<lparr>db_manifests := f''\<rparr>\<rparr>) = history_view (s\<lparr>db := d\<rparr>)"
  "history_view (s\<lparr>db := d\<lparr>db_upload_artifacts := g\<rparr>\<rparr>) = history_view (s\<lparr>db := d\<rparr>)"
  by (simp_all add: history_view_def)

lemma register_client_history: "preserves (history_inv srv) (register_client srv' e path payload)"
  unfolding register_client_def
  by (intro preserves_intros) (auto simp: commit_eq_Inr intro: history_inv_view)

lemma terminalize_history: "preserves (history_inv srv) (terminalize_upload_locked srv' e upload reason)"
  unfolding terminalize_upload_locked_def remove_upload_dir_op_def
  by (intro preserves_intros)
    (auto simp: terminalize_transaction_def delete_upload_detail_def commit_eq_Inr
      split: option.splits if_splits intro: history_inv_view elim!: history_inv_change)

lemma require_active_history: "preserves (history_inv srv) (require_active_upload srv' e uid)"
  unfolding require_active_upload_def by (intro preserves_intros terminalize_history)

lemma get_upload_status_history: "preserves (history_inv srv) (get_upload_status srv' e path)"
  unfolding get_upload_status_def by (intro preserves_intros terminalize_history)

lemma abandon_upload_history: "preserves (history_inv srv) (abandon_upload srv' e path)"
  unfolding abandon_upload_def by (intro preserves_intros terminalize_history)

lemma expire_uploads_history: "preserves (history_inv srv) (expire_uploads_op srv' e t)"
  by (rule expire_uploads_preserves) (rule terminalize_history)

section \<open>Chunks and new uploads\<close>

lemma store_chunk_file_history:
  "preserves (history_inv srv) (store_chunk_file srv' e uid ai ci body request)"
  unfolding store_chunk_file_def
  by (intro preserves_intros) (auto intro: history_inv_view)

lemma accept_new_chunk_history:
  "preserves (history_inv srv) (accept_new_chunk srv' e u a ai ci body request)"
proof -
  have persist: "history_inv srv (s\<lparr>db := d\<rparr>)" if inv: "history_inv srv s"
    and ok: "persist_chunk_record e u ai ci len sha at (db s) = Inr (v, d)" for s v d len sha at
  proof -
    from persist_chunk_record_ok [OF ok] obtain rows where "d = (db s)\<lparr>db_upload_chunks := rows\<rparr> \<or> d = db s"
      unfolding Let_def by metis
    with inv show ?thesis by (auto intro: history_inv_view)
  qed
  have refresh: "history_inv srv (s\<lparr>db := d\<rparr>)" if inv: "history_inv srv s"
    and ok: "refresh_upload_status e u (db s) = Inr (v, d)" for s v d
  proof -
    obtain p st where d: "d = (db s)\<lparr>db_uploads := update_where p (\<lambda>r. r\<lparr>up_status := st\<rparr>)
        (db_uploads (db s))\<rparr>" and st: "st \<noteq> ''completed''"
      using ok by (auto simp: refresh_upload_status_def and_then_eq_Inr commit_eq_Inr split: if_splits)
    show ?thesis
    proof (rule history_inv_change [OF inv])
      fix w assume "w \<in> set (db_uploads (db (s\<lparr>db := d\<rparr>)))"
      then obtain v where v: "v \<in> set (db_uploads (db s))" "w = (if p v then v\<lparr>up_status := st\<rparr> else v)"
        by (auto simp: d update_where_def)
      with st show "\<exists>v \<in> set (db_uploads (db s)). up_id w = up_id v \<and> up_session_id w = up_session_id v
          \<and> (up_status w = ''completed'' \<longrightarrow> up_status v = ''completed'' \<and> up_snapshot_id w = up_snapshot_id v)"
        by (intro bexI [of _ v]) auto
    qed (simp add: d)
  qed
  show ?thesis
    unfolding accept_new_chunk_def
    by (intro preserves_intros store_chunk_file_history) (erule persist refresh, assumption)+
qed

lemma put_artifact_chunk_history: "preserves (history_inv srv) (put_artifact_chunk srv' e p q r h body)"
  unfolding put_artifact_chunk_def repeat_chunk_def
  by (intro preserves_intros require_active_history accept_new_chunk_history)

lemma new_session_history:
  assumes inv: "history_inv srv s" and ids: "se_id ` set (db_sessions (db s)) \<subseteq> se_id ` set sessions"
  shows "history_inv srv (s\<lparr>db := (db s)\<lparr>db_sessions := sessions\<rparr>\<rparr>)"
  using inv ids
  unfolding history_inv_def snapshots_recorded_def uploads_recorded_def tombstones_recorded_def live_of_def
  by (auto simp: subset_iff)

lemma persist_upload_history:
  assumes inv: "history_inv srv s"
    and ok: "persist_upload srv' e client cid m json sha layout now_text expires (db s) = Inr (r, d)"
    and layout: "upload_layout_of m (srv_chunk_size_bytes srv') = Inr layout"
  shows "history_inv srv (s\<lparr>db := d\<rparr>)"
proof -
  obtain uid created where r: "r = (uid, created)" by fastforce
  show ?thesis
  proof (cases rule: persist_upload_effect [OF ok [unfolded r] layout])
    case (1 existing sessions)
    with new_session_history [OF inv] show ?thesis by simp
  next
    case (2 sessions sid row mf)
    let ?s = "s\<lparr>db := (db s)\<lparr>db_sessions := sessions\<rparr>\<rparr>"
    have inv': "history_inv srv ?s" by (rule new_session_history [OF inv 2(11)])
    have "uploads_recorded d"
      using inv' 2(10) new_upload_row_ok(6,9) [OF 2(3)] unfolding 2(2)
      by (auto simp: history_inv_def uploads_recorded_def with_new_upload_def split: if_splits)
    moreover have "history_view (s\<lparr>db := d\<rparr>) = history_view ?s"
      by (simp add: 2(2) with_new_upload_def history_view_def)
    ultimately show ?thesis
      using inv' by (simp add: history_inv_def snapshots_recorded_def tombstones_recorded_def
          live_of_def [abs_def] history_view_def)
  qed
qed

lemma create_upload_history: "preserves (history_inv srv) (create_upload srv' e payload)"
  unfolding create_upload_def Let_def
  by (intro preserves_intros expire_uploads_history)
    (auto split: prod.splits intro!: preserves_intros intro: persist_upload_history)

section \<open>Latest contexts\<close>

lemma contexts_latest_replace:
  assumes old: "contexts_latest live table"
    and others: "\<And>i. i \<noteq> sid \<Longrightarrow> live' i = live i"
    and new: "case row of None \<Rightarrow> live' sid = {}
      | Some r \<Rightarrow> lx_session_id r = sid \<and> context_key r \<in> completion_key ` live' sid
          \<and> (\<forall>k \<in> completion_key ` live' sid. k \<le> context_key r)"
  shows "contexts_latest live' (delete_where (\<lambda>r. lx_session_id r = sid) table
    @ (case row of None \<Rightarrow> [] | Some r \<Rightarrow> [r]))"
proof -
  let ?kept = "delete_where (\<lambda>r. lx_session_id r = sid) table"
  have kept: "distinct (map lx_session_id ?kept)"
    using old by (simp add: contexts_latest_def distinct_map_delete_where)
  have cover: "i \<in> lx_session_id ` set ?kept" if "live' i \<noteq> {}" "i \<noteq> sid" for i
  proof -
    from that(1) others [OF that(2)] have "i \<in> lx_session_id ` set table"
      using old unfolding contexts_latest_def by simp
    then obtain r where "r \<in> set table" "lx_session_id r = i" by blast
    with that(2) show ?thesis by auto
  qed
  have entries: "context_key r \<in> completion_key ` live' (lx_session_id r)
      \<and> (\<forall>k \<in> completion_key ` live' (lx_session_id r). k \<le> context_key r)"
    if "r \<in> set ?kept" for r
    using that old others by (simp add: contexts_latest_def)
  show ?thesis
  proof (cases row)
    case None
    with new have "i \<noteq> sid" if "live' i \<noteq> {}" for i using that by auto
    with None kept cover entries show ?thesis by (simp add: contexts_latest_def)
  next
    case (Some r)
    with new kept cover entries show ?thesis by (auto simp: contexts_latest_def)
  qed
qed

lemma contexts_latest_upsert:
  assumes old: "contexts_latest live table"
    and others: "\<And>i. i \<noteq> lx_session_id row \<Longrightarrow> live' i = live i"
    and new: "live' (lx_session_id row) = insert s (live (lx_session_id row))"
    and row: "context_key row = completion_key s"
  shows "contexts_latest live' (upsert_latest_context row table)"
proof (cases "list_ex (\<lambda>r. lx_session_id r = lx_session_id row) table")
  case False
  then have fresh: "lx_session_id row \<notin> lx_session_id ` set table" by (auto simp: list_ex_iff)
  then have none: "live (lx_session_id row) = {}" using old by (auto simp: contexts_latest_def)
  have "live' (lx_session_id r) = live (lx_session_id r)" if "r \<in> set table" for r
    using fresh that by (intro others) (metis imageI)
  moreover have "i \<in> lx_session_id ` set (table @ [row])" if "live' i \<noteq> {}" for i
    using that others [of i] old unfolding contexts_latest_def
    by (cases "i = lx_session_id row") auto
  ultimately have "contexts_latest live' (table @ [row])"
    using old fresh none new row unfolding contexts_latest_def by auto
  with False show ?thesis by (simp add: upsert_latest_context_def)
next
  case True
  then obtain r where r: "r \<in> set table" "lx_session_id r = lx_session_id row" by (auto simp: list_ex_iff)
  let ?p = "\<lambda>r. lx_session_id r = lx_session_id row
      \<and> (lx_completed_at_seq row > lx_completed_at_seq r
         \<or> (lx_completed_at_seq row = lx_completed_at_seq r \<and> lx_snapshot_id row > lx_snapshot_id r))"
  have p: "?p q \<longleftrightarrow> lx_session_id q = lx_session_id row \<and> context_key q < context_key row" for q
    by (auto simp: context_key_def)
  let ?new = "upsert_latest_context row table"
  have upd: "?new = update_where ?p (\<lambda>_. row) table"
    using True by (simp add: upsert_latest_context_def)
  have ids: "map lx_session_id ?new = map lx_session_id table"
    unfolding upd by (auto simp: update_where_def)
  have entry: "context_key q \<in> completion_key ` live' (lx_session_id q)
      \<and> (\<forall>k \<in> completion_key ` live' (lx_session_id q). k \<le> context_key q)"
    if q: "q \<in> set ?new" for q
  proof -
    obtain q0 where q0: "q0 \<in> set table" "q = (if ?p q0 then row else q0)"
      using q unfolding upd by (auto simp: update_where_def)
    have old0: "context_key q0 \<in> completion_key ` live (lx_session_id q0)"
      "\<forall>k \<in> completion_key ` live (lx_session_id q0). k \<le> context_key q0"
      using old q0(1) by (auto simp: contexts_latest_def)
    show ?thesis
    proof (cases "lx_session_id q0 = lx_session_id row")
      case False
      with q0 old0 others show ?thesis by auto
    next
      case same: True
      show ?thesis
      proof (cases "context_key q0 < context_key row")
        case True
        with p [of q0] same have "?p q0" by blast
        from q0(2) if_P [OF this] have "q = row" by (rule trans)
        with new row old0 same True show ?thesis by auto
      next
        case False
        with p [of q0] have "\<not> ?p q0" by blast
        from q0(2) if_not_P [OF this] have "q = q0" by (rule trans)
        with new row old0 same False show ?thesis by auto
      qed
    qed
  qed
  have cover: "i \<in> lx_session_id ` set ?new" if "live' i \<noteq> {}" for i
  proof -
    have "lx_session_id ` set ?new = lx_session_id ` set table"
      unfolding set_map [symmetric] ids ..
    then show ?thesis
      using that old others [of i] imageI [OF r(1), of lx_session_id] r(2)
      by (cases "i = lx_session_id row") (simp_all add: contexts_latest_def)
  qed
  from old ids entry cover show ?thesis unfolding contexts_latest_def by simp
qed

section \<open>Deletion\<close>

lemma in_latest_context_candidates:
  "(s, se, c) \<in> set (latest_context_candidates sid d) \<longleftrightarrow>
     s \<in> live_of d sid \<and> se \<in> {se \<in> set (db_sessions d). se_id se = sn_session_id s}
       \<and> c \<in> {c \<in> set (db_captures d). cp_snapshot_id c = sn_id s}"
  unfolding latest_context_candidates_def live_of_def by auto

lemma rebuilt_context_latest:
  assumes joined: "\<And>s. s \<in> set (db_snapshots d) \<Longrightarrow> sn_session_id s \<in> se_id ` set (db_sessions d)
      \<and> sn_id s \<in> cp_snapshot_id ` set (db_captures d)"
  shows "case rebuilt_context sid d of None \<Rightarrow> live_of d sid = {}
    | Some r \<Rightarrow> lx_session_id r = sid \<and> context_key r \<in> completion_key ` live_of d sid
        \<and> (\<forall>k \<in> completion_key ` live_of d sid. k \<le> context_key r)"
proof -
  let ?cands = "latest_context_candidates sid d"
  let ?key = "\<lambda>(s, _, _). (sn_completed_at_seq s, sn_id s)"
  have cand: "s \<in> live_of d sid" if "(s, se, c) \<in> set ?cands" for s se c
    using that by (simp only: in_latest_context_candidates)
  have all: "\<exists>se c. (s, se, c) \<in> set ?cands" if s: "s \<in> live_of d sid" for s
  proof -
    have "s \<in> set (db_snapshots d)" using s by (simp add: live_of_def)
    from joined [OF this] obtain se c where "se \<in> set (db_sessions d)" "sn_session_id s = se_id se"
      "c \<in> set (db_captures d)" "sn_id s = cp_snapshot_id c"
      by (elim conjE imageE)
    with s have "(s, se, c) \<in> set ?cands" by (simp add: in_latest_context_candidates)
    then show ?thesis by blast
  qed
  show ?thesis
  proof (cases "last_by ?key ?cands")
    case None
    then have "?cands = []" by simp
    with all have "live_of d sid = {}" by auto
    moreover have "rebuilt_context sid d = None"
      unfolding rebuilt_context_def None by simp
    ultimately show ?thesis by simp
  next
    case (Some p)
    obtain best se0 c0 where p: "p = (best, se0, c0)" by (cases p)
    note best = last_by_SomeD [OF Some [unfolded p]]
    let ?top = "filter (\<lambda>(s, _, _). sn_completed_at_seq s = sn_completed_at_seq best
      \<and> sn_id s = sn_id best) ?cands"
    have "(best, se0, c0) \<in> set ?top" using best by simp
    then have "?top \<noteq> []" by (metis empty_iff empty_set)
    then have "first_by (\<lambda>(_, _, c). cp_id c) ?top \<noteq> None" unfolding first_by_None .
    then obtain q where q: "first_by (\<lambda>(_, _, c). cp_id c) ?top = Some q"
      unfolding not_None_eq by (rule exE)
    obtain s se c where "q = (s, se, c)" by (cases q)
    note first = q [unfolded this]
    have s: "(s, se, c) \<in> set ?cands" "completion_key s = completion_key best"
      using first_by_SomeD [OF first] by (auto simp: completion_key_def)
    have "completion_key s' \<le> completion_key best" if "s' \<in> live_of d sid" for s'
      using all [OF that] best by (auto simp: completion_key_def)
    moreover obtain r where "rebuilt_context sid d = Some r" "lx_session_id r = sn_session_id s"
      "context_key r = completion_key s"
      unfolding rebuilt_context_def Some p option.case prod.case first
      by (simp add: context_key_def completion_key_def)
    moreover have "sn_session_id s = sid" using cand [OF s(1)] by (simp add: live_of_def)
    ultimately show ?thesis
      using s(2) imageI [OF cand [OF s(1)], of completion_key] by simp
  qed
qed

definition with_deletion ::
  "snapshot_row \<Rightarrow> string \<Rightarrow> tombstone_row \<Rightarrow> deletion_audit_row \<Rightarrow> database \<Rightarrow> database" where
  "with_deletion live at t a d =
     d\<lparr>db_tombstones := db_tombstones d @ [t], db_deletion_audits := db_deletion_audits d @ [a],
       db_snapshots := update_where (\<lambda>s. sn_id s = sn_id live \<and> sn_deleted_at s = None)
         (\<lambda>s. s\<lparr>sn_deleted_at := Some at\<rparr>) (db_snapshots d),
       db_artifacts := delete_where (\<lambda>a. ar_snapshot_id a = sn_id live) (db_artifacts d)\<rparr>"

text \<open>What a deletion does to the tables.\<close>

lemma delete_snapshot_transaction_cases:
  assumes ok: "delete_snapshot_transaction e dt reason sid d = Inr (v, d')"
  obtains (repeated) "d' = d"
    | (deleted) live m t a blobs where
      "snapshot_deletion_row sid d = Some (live, m)" "sn_deleted_at live = None"
      "t = tombstone_row_of e dt reason live m" "a = deletion_audit_of e dt reason live m"
      "\<forall>r \<in> set (db_tombstones d). ts_id r \<noteq> ts_id t \<and> ts_snapshot_id r \<noteq> sn_id live"
      "blobs = artifact_blobs sid d"
      "d' = rebuild_session_latest_context (sn_session_id live)
         (schedule_all dt blobs (with_deletion live (dt_deleted_at dt) t a d))"
proof -
  obtain live m where row: "snapshot_deletion_row sid d = Some (live, m)"
    using ok by (auto simp: delete_snapshot_transaction_def and_then_eq_Inr ok_or_eq_Inr)
  show thesis
  proof (cases "sn_deleted_at live = None")
    case False
    with ok row have "d' = d"
      by (auto simp: delete_snapshot_transaction_def commit_eq_Inr)
    then show thesis by (rule repeated)
  next
    case True
    let ?t = "tombstone_row_of e dt reason live m" and ?a = "deletion_audit_of e dt reason live m"
    have fresh: "\<not> list_ex (\<lambda>r'. ts_id ?t = ts_id r' \<or> ts_snapshot_id ?t = ts_snapshot_id r') (db_tombstones d)"
      and d': "d' = rebuild_session_latest_context (sn_session_id live) (schedule_all dt
        (artifact_blobs sid d) (with_deletion live (dt_deleted_at dt) ?t ?a d))"
      using ok row True
      by (auto simp: delete_snapshot_transaction_def and_then_eq_Inr commit_eq_Inr insert_row_eq_Inr
          Let_def with_deletion_def)
    have "ts_snapshot_id ?t = sn_id live" by (simp add: tombstone_row_of_def)
    with fresh have "\<forall>r \<in> set (db_tombstones d). ts_id r \<noteq> ts_id ?t \<and> ts_snapshot_id r \<noteq> sn_id live"
      by (auto simp: list_ex_iff)
    from deleted [OF row True refl refl this refl d'] show thesis .
  qed
qed

lemma live_of_delete:
  assumes "distinct (map sn_id (db_snapshots d))" "live \<in> set (db_snapshots d)"
    "sn_session_id live \<noteq> i"
  shows "live_of (with_deletion live at t a d) i = live_of d i"
proof -
  have "sn_id s \<noteq> sn_id live" if s: "s \<in> live_of d i" for s
  proof
    assume same: "sn_id s = sn_id live"
    have "s \<in> set (db_snapshots d)" using s by (simp add: live_of_def)
    from distinct_key_eq [OF assms(1) this assms(2) same] s assms(3) show False
      by (simp add: live_of_def)
  qed
  then have "r \<in> live_of d i \<longleftrightarrow> r \<in> live_of (with_deletion live at t a d) i" for r
    by (auto simp: live_of_def with_deletion_def set_update_where)
  then show ?thesis by blast
qed

lemma tombstones_after_delete:
  assumes old: "tombstones_recorded d" and live: "live \<in> set (db_snapshots d)" "sn_deleted_at live = None"
    and t: "ts_snapshot_id t = sn_id live" "da_tombstone_id a = ts_id t"
    and fresh: "\<forall>r \<in> set (db_tombstones d). ts_id r \<noteq> ts_id t \<and> ts_snapshot_id r \<noteq> sn_id live"
  shows "tombstones_recorded (with_deletion live at t a d)"
proof -
  let ?d = "with_deletion live at t a d"
  let ?mark = "\<lambda>s. if sn_id s = sn_id live \<and> sn_deleted_at s = None then s\<lparr>sn_deleted_at := Some at\<rparr> else s"
  have snaps: "set (db_snapshots ?d) = ?mark ` set (db_snapshots d)"
    by (auto simp: with_deletion_def update_where_def)
  have "\<exists>t' \<in> set (db_tombstones ?d). ts_snapshot_id t' = sn_id s
      \<and> (\<exists>a' \<in> set (db_deletion_audits ?d). da_tombstone_id a' = ts_id t')"
    if s: "s \<in> set (db_snapshots ?d)" "sn_deleted_at s \<noteq> None" for s
  proof -
    from s(1) snaps obtain s0 where s0: "s0 \<in> set (db_snapshots d)" "s = ?mark s0" by auto
    then show ?thesis
      using s(2) t old
      by (cases "sn_id s0 = sn_id live \<and> sn_deleted_at s0 = None")
        (auto simp: with_deletion_def tombstones_recorded_def)
  qed
  moreover have "\<exists>s \<in> set (db_snapshots ?d). sn_id s = ts_snapshot_id t' \<and> sn_deleted_at s \<noteq> None"
    if t': "t' \<in> set (db_tombstones ?d)" for t'
  proof (cases "t' = t")
    case True
    have "?mark live \<in> set (db_snapshots ?d)" using live(1) snaps by blast
    with True t(1) live(2) show ?thesis by (intro bexI [of _ "?mark live"]) auto
  next
    case False
    with t' have "t' \<in> set (db_tombstones d)" by (simp add: with_deletion_def)
    then obtain s0 where s0: "s0 \<in> set (db_snapshots d)" "sn_id s0 = ts_snapshot_id t'"
      "sn_deleted_at s0 \<noteq> None"
      using old unfolding tombstones_recorded_def by blast
    then have "?mark s0 \<in> set (db_snapshots ?d)" using snaps by blast
    with s0 show ?thesis by (intro bexI [of _ "?mark s0"]) auto
  qed
  ultimately show ?thesis
    using old fresh t(1) unfolding tombstones_recorded_def
    by (auto simp: with_deletion_def)
qed

lemma delete_transaction_history:
  assumes inv: "history_inv srv s"
    and ok: "delete_snapshot_transaction e dt reason sid (db s) = Inr (v, d)"
  shows "history_inv srv (s\<lparr>db := d\<rparr>)"
proof (cases rule: delete_snapshot_transaction_cases [OF ok])
  case 1
  with inv show ?thesis by simp
next
  case (2 live m t a blobs)
  let ?d1 = "with_deletion live (dt_deleted_at dt) t a (db s)"
  have live: "live \<in> set (db_snapshots (db s))"
    using 2(1) by (auto simp: snapshot_deletion_row_def dest!: find_SomeD split: option.splits)
  have rows: "\<exists>r0 \<in> set (db_snapshots (db s)). sn_id r = sn_id r0 \<and> sn_session_id r = sn_session_id r0
      \<and> sn_completed_at r = sn_completed_at r0 \<and> sn_completed_at_seq r = sn_completed_at_seq r0"
    if r: "r \<in> set (db_snapshots ?d1)" for r
  proof -
    from r obtain r0 where "r0 \<in> set (db_snapshots (db s))"
      "r = r0 \<or> r = r0\<lparr>sn_deleted_at := Some (dt_deleted_at dt)\<rparr>"
      by (auto simp: with_deletion_def update_where_def split: if_splits)
    then show ?thesis by (intro bexI [of _ r0]) auto
  qed
  have old: "snapshots_recorded (ext srv) (db s)" using inv by (simp add: history_inv_def)
  have "sort_key_from_rfc3339 (ext srv) (sn_completed_at r) = Some (sn_completed_at_seq r)
      \<and> sn_session_id r \<in> se_id ` set (db_sessions (db s))
      \<and> sn_id r \<in> cp_snapshot_id ` set (db_captures (db s))" if r: "r \<in> set (db_snapshots ?d1)" for r
    using rows [OF r] old unfolding snapshots_recorded_def by metis
  then have snaps: "snapshots_recorded (ext srv) ?d1"
    using old by (simp add: snapshots_recorded_def with_deletion_def map_update_where)
  have ids: "sn_id ` set (db_snapshots ?d1) = sn_id ` set (db_snapshots (db s))"
    unfolding set_map [symmetric] by (simp add: with_deletion_def map_update_where)
  have ups: "uploads_recorded ?d1"
    using inv ids unfolding history_inv_def uploads_recorded_def
    by (simp add: with_deletion_def)
  have tombs: "tombstones_recorded ?d1"
    using inv live 2(2,5)
    by (intro tombstones_after_delete) (simp_all add: history_inv_def 2(3,4) tombstone_row_of_def
        deletion_audit_of_def)
  have ctx: "contexts_latest (live_of ?d1) (delete_where (\<lambda>r. lx_session_id r = sn_session_id live)
      (db_latest_contexts (db s)) @ (case rebuilt_context (sn_session_id live) ?d1 of None \<Rightarrow> [] | Some r \<Rightarrow> [r]))"
  proof (rule contexts_latest_replace)
    show "contexts_latest (live_of (db s)) (db_latest_contexts (db s))"
      using inv by (simp add: history_inv_def)
    show "live_of ?d1 i = live_of (db s) i" if "i \<noteq> sn_session_id live" for i
      using that inv live
      by (intro live_of_delete) (auto simp: history_inv_def snapshots_recorded_def)
    show "case rebuilt_context (sn_session_id live) ?d1 of None \<Rightarrow> live_of ?d1 (sn_session_id live) = {}
      | Some r \<Rightarrow> lx_session_id r = sn_session_id live
          \<and> context_key r \<in> completion_key ` live_of ?d1 (sn_session_id live)
          \<and> (\<forall>k \<in> completion_key ` live_of ?d1 (sn_session_id live). k \<le> context_key r)"
      using snaps by (intro rebuilt_context_latest) (simp add: snapshots_recorded_def)
  qed
  have same: "rebuilt_context i (schedule_all dt blobs ?d1) = rebuilt_context i ?d1" for i
    by (simp only: rebuilt_context_def latest_context_candidates_def schedule_all_other_tables)
  have "db_latest_contexts ?d1 = db_latest_contexts (db s)"
    by (simp add: with_deletion_def)
  with snaps ups tombs ctx same show ?thesis
    unfolding 2(7) rebuild_session_latest_context_def history_inv_def
    by (simp add: snapshots_recorded_def uploads_recorded_def tombstones_recorded_def
        live_of_def [abs_def] schedule_all_other_tables)
qed

lemma delete_snapshot_history: "preserves (history_inv srv) (delete_snapshot srv' e path header payload)"
  unfolding delete_snapshot_def Let_def
  by (intro preserves_intros) (auto intro: delete_transaction_history)

lemma collect_candidate_history_view:
  "history_view (snd (collect_candidate e k c s)) = history_view s
     \<and> db_uploads (db (snd (collect_candidate e k c s))) = db_uploads (db s)"
  by (simp add: collect_candidate_def history_view_def clear_candidate_def unlink_blob_file_def Let_def)

lemma collect_each_history_view:
  "history_view (snd (collect_each e k cs n s)) = history_view s
     \<and> db_uploads (db (snd (collect_each e k cs n s))) = db_uploads (db s)"
proof (induction cs arbitrary: n s)
  case (Cons c cs)
  obtain r t where run: "collect_candidate e k c s = (r, t)" by fastforce
  from collect_candidate_history_view [of e k c s]
  have "history_view t = history_view s \<and> db_uploads (db t) = db_uploads (db s)" by (simp add: run)
  with Cons.IH run show ?case by (auto split: sum.splits)
qed simp

lemma run_blob_gc_history: "preserves (history_inv srv) (run_blob_gc srv' e)"
proof (rule keeps_history_view_inv)
  have "history_view (snd (collect_orphaned_blobs_at e t s)) = history_view s
      \<and> db_uploads (db (snd (collect_orphaned_blobs_at e t s))) = db_uploads (db s)" for t s
    using collect_each_history_view [of e _ _ 0 s]
    by (auto simp: collect_orphaned_blobs_at_def Let_def split: option.splits prod.splits sum.splits)
      (metis snd_conv)+
  then show "keeps_history_view (run_blob_gc srv' e)"
    unfolding run_blob_gc_def
    by (intro allI preserves_intros) (auto simp: preserves_def split: prod.splits sum.splits, (metis snd_conv)+)
qed

section \<open>Completion\<close>

lemma insert_capture_effect:
  assumes ok: "insert_capture_provenance srv e u m mid sid at d = Inr d'"
    and sn: "sn \<in> set (db_snapshots d)" "sn_id sn = sid" "distinct (map sn_id (db_snapshots d))"
      "sort_key_from_rfc3339 (ext srv) (sn_completed_at sn) = Some (sn_completed_at_seq sn)"
  obtains captures row where
    "d' = d\<lparr>db_captures := captures,
            db_latest_contexts := upsert_latest_context row (db_latest_contexts d)\<rparr>"
    "set (db_captures d) \<subseteq> set captures"
    "\<exists>c \<in> set captures. cp_upload_id c = up_id u \<and> cp_snapshot_id c = sid"
    "lx_session_id row = up_session_id u" "context_key row = completion_key sn"
proof -
  obtain captures where
    main: "maintain_session_latest_context srv (up_session_id u) sid m (d\<lparr>db_captures := captures\<rparr>) = Inr d'"
    and caps: "set (db_captures d) \<subseteq> set captures"
      "\<exists>c \<in> set captures. cp_upload_id c = up_id u \<and> cp_snapshot_id c = sid"
  proof (cases "find (\<lambda>c. cp_upload_id c = up_id u) (db_captures d)")
    case None
    from ok None obtain mj k where
      "maintain_session_latest_context srv (up_session_id u) sid m
        (d\<lparr>db_captures := db_captures d @ [capture_row_of srv e u m mj mid sid at k]\<rparr>) = Inr d'"
      by (auto simp: insert_capture_provenance_def and_then_eq_Inr insert_row_eq_Inr)
    then show thesis
      by (rule that) (auto simp: capture_row_of_def)
  next
    case (Some c)
    with ok have "cp_snapshot_id c = sid"
      "maintain_session_latest_context srv (up_session_id u) sid m (d\<lparr>db_captures := db_captures d\<rparr>) = Inr d'"
      by (auto simp: insert_capture_provenance_def and_then_eq_Inr split: if_splits)
    with find_SomeD [OF Some] show thesis by (intro that [of "db_captures d"]) auto
  qed
  from main obtain r k where r: "r \<in> set (db_snapshots d)" "sn_id r = sid"
    and k: "sort_key_from_rfc3339 (ext srv) (sn_completed_at r) = Some k"
    and d': "d' = d\<lparr>db_captures := captures, db_latest_contexts := upsert_latest_context
      (latest_context_of (up_session_id u) sid (sn_completed_at r) k m) (db_latest_contexts d)\<rparr>"
    by (auto simp: maintain_session_latest_context_def upsert_session_latest_context_def
        and_then_eq_Inr ok_or_eq_Inr dest!: find_SomeD)
  have "r = sn" using distinct_key_eq [OF sn(3) r(1) sn(1)] r(2) sn(2) by simp
  with k sn(4) have "k = sn_completed_at_seq sn" by simp
  then show thesis
    using sn(2) by (intro that [OF d' caps]) (simp_all add: latest_context_of_def context_key_def completion_key_def)
qed

text \<open>The state right before the upload row is finished: the snapshot is there, possibly new.\<close>

definition about_to_finish :: "externals \<Rightarrow> upload_row \<Rightarrow> snapshot_row \<Rightarrow> database \<Rightarrow> database \<Rightarrow> bool" where
  "about_to_finish x u sn d d1 =
     (sn_deleted_at sn = None \<and> sn_session_id sn = up_session_id u
       \<and> sort_key_from_rfc3339 x (sn_completed_at sn) = Some (sn_completed_at_seq sn)
       \<and> up_session_id u \<in> se_id ` set (db_sessions d)
       \<and> distinct (map sn_id (db_snapshots d1))
       \<and> set (db_snapshots d1) = insert sn (set (db_snapshots d))
       \<and> db_sessions d1 = db_sessions d \<and> db_captures d1 = db_captures d
       \<and> db_tombstones d1 = db_tombstones d \<and> db_deletion_audits d1 = db_deletion_audits d
       \<and> db_latest_contexts d1 = db_latest_contexts d \<and> db_uploads d1 = db_uploads d)"

lemma finish_open_history:
  assumes inv: "history_inv srv s" and before: "about_to_finish (ext srv) u sn (db s) d1"
    and fin: "finish_upload_row srv e u m mid (sn_id sn) at transfer newly d1 = Inr d2"
    and opened: "list_ex (open_upload (up_id u)) (db_uploads d1)"
  shows "history_inv srv (s\<lparr>db := d2\<rparr>)"
proof -
  note b = before [unfolded about_to_finish_def]
  from fin opened obtain tr nw where cap: "insert_capture_provenance srv e u m mid (sn_id sn) at
      (d1\<lparr>db_uploads := update_where (open_upload (up_id u))
        (complete_upload_row (sn_id sn) at tr nw) (db_uploads d1)\<rparr>) = Inr d2"
    by (auto simp: finish_upload_row_def and_then_eq_Inr)
  let ?ups = "update_where (open_upload (up_id u)) (complete_upload_row (sn_id sn) at tr nw) (db_uploads (db s))"
  from b have sn: "sn \<in> set (db_snapshots (d1\<lparr>db_uploads := ups\<rparr>))"
    "distinct (map sn_id (db_snapshots (d1\<lparr>db_uploads := ups\<rparr>)))"
    "sort_key_from_rfc3339 (ext srv) (sn_completed_at sn) = Some (sn_completed_at_seq sn)" for ups
    by auto
  obtain captures row where d2: "d2 = d1\<lparr>db_uploads := update_where (open_upload (up_id u))
        (complete_upload_row (sn_id sn) at tr nw) (db_uploads d1),
      db_captures := captures, db_latest_contexts := upsert_latest_context row (db_latest_contexts d1)\<rparr>"
    and caps: "set (db_captures d1) \<subseteq> set captures"
      "\<exists>c \<in> set captures. cp_upload_id c = up_id u \<and> cp_snapshot_id c = sn_id sn"
    and row: "lx_session_id row = up_session_id u" "context_key row = completion_key sn"
    by (rule insert_capture_effect [OF cap sn(1) refl sn(2,3)]) auto
  have tables: "set (db_snapshots d2) = insert sn (set (db_snapshots (db s)))"
    "db_sessions d2 = db_sessions (db s)" "db_captures d2 = captures"
    "db_tombstones d2 = db_tombstones (db s)" "db_deletion_audits d2 = db_deletion_audits (db s)"
    "db_uploads d2 = ?ups"
    "db_latest_contexts d2 = upsert_latest_context row (db_latest_contexts (db s))"
    using b by (simp_all add: d2)
  have old: "set (db_captures (db s)) \<subseteq> set captures" using b caps(1) by simp
  have "snapshots_recorded (ext srv) d2"
  proof -
    have "distinct (map sn_id (db_snapshots d2))" using b by (simp add: d2)
    moreover obtain c where "c \<in> set captures" "sn_id sn = cp_snapshot_id c" using caps(2) by auto
    ultimately show ?thesis
      using inv old b unfolding history_inv_def snapshots_recorded_def tables by auto blast+
  qed
  moreover have "uploads_recorded d2"
  proof -
    have "\<exists>sid. up_snapshot_id w = Some sid \<and> sid \<in> sn_id ` set (db_snapshots d2)
        \<and> (\<exists>c \<in> set captures. cp_upload_id c = up_id w \<and> cp_snapshot_id c = sid)"
      if w: "w \<in> set ?ups" "up_status w = ''completed''" for w
    proof -
      from w(1) obtain v where v: "v \<in> set (db_uploads (db s))"
        "w = (if open_upload (up_id u) v then complete_upload_row (sn_id sn) at tr nw v else v)"
        by (auto simp: update_where_def)
      show ?thesis
      proof (cases "open_upload (up_id u) v")
        case True
        with v(2) caps(2) show ?thesis
          by (simp add: complete_upload_row_def open_upload_def tables)
      next
        case False
        with v(2) have "w = v" by simp
        with v(1) w(2) inv obtain sid c where "up_snapshot_id w = Some sid"
          "sid \<in> sn_id ` set (db_snapshots (db s))" "c \<in> set (db_captures (db s))"
          "cp_upload_id c = up_id w" "cp_snapshot_id c = sid"
          unfolding history_inv_def uploads_recorded_def by blast
        with old show ?thesis unfolding tables by blast
      qed
    qed
    moreover have "up_session_id ` set ?ups = up_session_id ` set (db_uploads (db s))"
      unfolding set_map [symmetric] by (simp add: map_update_where complete_upload_row_def)
    ultimately show ?thesis
      using inv by (simp add: history_inv_def uploads_recorded_def tables)
  qed
  moreover have "tombstones_recorded d2"
    using inv b unfolding history_inv_def tombstones_recorded_def tables by auto
  moreover have "contexts_latest (live_of d2) (db_latest_contexts d2)"
    unfolding tables
  proof (rule contexts_latest_upsert [OF _ _ _ row(2)])
    show "contexts_latest (live_of (db s)) (db_latest_contexts (db s))"
      using inv by (simp add: history_inv_def)
  qed (use b row(1) in \<open>auto simp: live_of_def tables\<close>)
  ultimately show ?thesis by (simp add: history_inv_def)
qed

lemma finish_history:
  assumes inv: "history_inv srv s" and before: "about_to_finish (ext srv) u sn (db s) d1"
    and fin: "finish_upload_row srv e u m mid (sn_id sn) at transfer newly d1 = Inr d2"
  shows "history_inv srv (s\<lparr>db := d2\<rparr>)"
proof (cases "list_ex (open_upload (up_id u)) (db_uploads d1)")
  case True
  with assms show ?thesis by (rule finish_open_history)
next
  case False
  note b = before [unfolded about_to_finish_def]
  from fin False obtain w where w: "w \<in> set (db_uploads (db s))" "up_status w = ''completed''"
    "up_snapshot_id w = Some (sn_id sn)"
    using b by (auto simp: finish_upload_row_def and_then_eq_Inr get_active_upload_def
        split: option.splits if_splits dest!: find_SomeD)
  from inv w(1,2) obtain sid where "up_snapshot_id w = Some sid" "sid \<in> sn_id ` set (db_snapshots (db s))"
    unfolding history_inv_def uploads_recorded_def by blast
  with w(3) have "sn_id sn \<in> sn_id ` set (db_snapshots (db s))" by simp
  then obtain r where r: "r \<in> set (db_snapshots (db s))" "sn_id sn = sn_id r" by (rule imageE)
  have snaps: "distinct (map sn_id (db_snapshots d1))"
    "set (db_snapshots d1) = insert sn (set (db_snapshots (db s)))" using b by blast+
  with r(1) have "sn \<in> set (db_snapshots d1)" "r \<in> set (db_snapshots d1)" by blast+
  from distinct_key_eq [OF snaps(1) this r(2)] r(1)
  have "sn \<in> set (db_snapshots (db s))" by (rule ssubst)
  with snaps(2) have "set (db_snapshots d1) = set (db_snapshots (db s))" by (simp add: insert_absorb)
  note same = this
  then have "live_of d1 = live_of (db s)" by (simp add: live_of_def fun_eq_iff)
  moreover have "db_sessions d1 = db_sessions (db s)" "db_captures d1 = db_captures (db s)"
    "db_tombstones d1 = db_tombstones (db s)" "db_deletion_audits d1 = db_deletion_audits (db s)"
    "db_latest_contexts d1 = db_latest_contexts (db s)" "db_uploads d1 = db_uploads (db s)"
    using b by blast+
  moreover have "d2 = d1" by (rule finish_upload_row_closed [OF fin False])
  ultimately show ?thesis
    using inv snaps(1) same
    by (simp add: history_inv_def snapshots_recorded_def uploads_recorded_def tombstones_recorded_def)
qed

lemma finalize_existing_history:
  assumes inv: "history_inv srv s" and sess: "up_session_id u \<in> se_id ` set (db_sessions (db s))"
    and sn: "sn \<in> live_of (db s) (up_session_id u)"
    and ok: "finalize_existing_transaction srv e u m (sn_id sn) transfer at (db s) = Inr (v, d)"
  shows "history_inv srv (s\<lparr>db := d\<rparr>)"
proof -
  obtain mid where fin: "finish_upload_row srv e u m mid (sn_id sn) at transfer 0 (db s) = Inr d"
    using finalize_existing_ok [OF ok] by blast
  have "about_to_finish (ext srv) u sn (db s) (db s)"
    using inv sess sn
    by (auto simp: about_to_finish_def history_inv_def snapshots_recorded_def live_of_def)
  from finish_history [OF inv this fin] show ?thesis .
qed

lemma note_rearchived_history:
  assumes "history_inv srv (s\<lparr>db := d\<rparr>)"
  shows "history_inv srv (s\<lparr>db := d\<lparr>db_tombstones := note_rearchived sid prior (db_tombstones d)\<rparr>\<rparr>)"
proof -
  let ?table = "note_rearchived sid prior (db_tombstones d)"
  have maps: "map ts_id ?table = map ts_id (db_tombstones d)"
    "map ts_snapshot_id ?table = map ts_snapshot_id (db_tombstones d)"
    by (simp_all add: note_rearchived_def map_update_where split: option.splits)
  have pairs: "map (\<lambda>t. (ts_id t, ts_snapshot_id t)) ?table
      = map (\<lambda>t. (ts_id t, ts_snapshot_id t)) (db_tombstones d)"
    by (simp add: note_rearchived_def map_update_where split: option.splits)
  have "(\<lambda>t. (ts_id t, ts_snapshot_id t)) ` set ?table
      = (\<lambda>t. (ts_id t, ts_snapshot_id t)) ` set (db_tombstones d)"
    unfolding set_map [symmetric] pairs ..
  note same = this
  have fwd: "\<exists>t' \<in> set ?table. ts_id t' = ts_id t \<and> ts_snapshot_id t' = ts_snapshot_id t"
    if t: "t \<in> set (db_tombstones d)" for t
    using imageI [OF t, of "\<lambda>t. (ts_id t, ts_snapshot_id t)"] unfolding same [symmetric] by auto
  have bwd: "\<exists>t' \<in> set (db_tombstones d). ts_id t' = ts_id t \<and> ts_snapshot_id t' = ts_snapshot_id t"
    if t: "t \<in> set ?table" for t
    using imageI [OF t, of "\<lambda>t. (ts_id t, ts_snapshot_id t)"] unfolding same by auto
  have old: "tombstones_recorded d" using assms by (simp add: history_inv_def)
  have "tombstones_recorded (d\<lparr>db_tombstones := ?table\<rparr>)"
    unfolding tombstones_recorded_def
  proof (intro conjI ballI impI)
    fix r assume "r \<in> set (db_snapshots (d\<lparr>db_tombstones := ?table\<rparr>))" "sn_deleted_at r \<noteq> None"
    with old obtain t a where "t \<in> set (db_tombstones d)" "ts_snapshot_id t = sn_id r"
      "a \<in> set (db_deletion_audits d)" "da_tombstone_id a = ts_id t"
      unfolding tombstones_recorded_def by auto
    moreover from this(1) obtain t' where "t' \<in> set ?table" "ts_id t' = ts_id t"
      "ts_snapshot_id t' = ts_snapshot_id t"
      using fwd by blast
    ultimately show "\<exists>t \<in> set (db_tombstones (d\<lparr>db_tombstones := ?table\<rparr>)). ts_snapshot_id t = sn_id r
        \<and> (\<exists>a \<in> set (db_deletion_audits (d\<lparr>db_tombstones := ?table\<rparr>)). da_tombstone_id a = ts_id t)"
      by (intro bexI [of _ t'] conjI bexI [of _ a]) auto
  next
    fix t assume "t \<in> set (db_tombstones (d\<lparr>db_tombstones := ?table\<rparr>))"
    then obtain t' where "t' \<in> set (db_tombstones d)" "ts_snapshot_id t' = ts_snapshot_id t"
      using bwd by auto
    moreover from this(1) old obtain r where "r \<in> set (db_snapshots d)" "sn_id r = ts_snapshot_id t'"
      "sn_deleted_at r \<noteq> None"
      unfolding tombstones_recorded_def by blast
    ultimately show "\<exists>r \<in> set (db_snapshots (d\<lparr>db_tombstones := ?table\<rparr>)).
        sn_id r = ts_snapshot_id t \<and> sn_deleted_at r \<noteq> None"
      by (intro bexI [of _ r]) auto
  qed (use old maps in \<open>simp_all add: tombstones_recorded_def\<close>)
  with assms show ?thesis
    by (simp add: history_inv_def snapshots_recorded_def uploads_recorded_def live_of_def [abs_def])
qed

lemma record_transaction_history:
  assumes inv: "history_inv srv s" and sess: "up_session_id u \<in> se_id ` set (db_sessions (db s))"
    and key: "sort_key_from_rfc3339 (ext srv) now_text = Some now_seq"
    and ok: "record_transaction srv e u m ps fingerprint transfer newly now_text now_seq (db s)
      = Inr (recorded, d)"
  shows "history_inv srv (s\<lparr>db := d\<rparr>)"
proof (cases rule: record_transaction_cases [OF ok])
  case 1
  with inv show ?thesis by simp
next
  case (2 blobs ids row mid rows d2 prior)
  let ?d1 = "(db s)\<lparr>db_blobs := blobs, db_snapshots := db_snapshots (db s) @ [row], db_artifacts := rows\<rparr>"
  have row: "sn_deleted_at row = None" "sn_session_id row = up_session_id u"
    "sn_completed_at row = now_text" "sn_completed_at_seq row = now_seq"
    using 2(4) by (auto simp: new_snapshot_row_def and_then_eq_Inr)
  have "sn_id row \<notin> sn_id ` set (db_snapshots (db s))"
    using 2(6) by (auto simp: list_ex_iff snapshot_clash_def)
  moreover have "distinct (map sn_id (db_snapshots (db s)))"
    using inv by (simp add: history_inv_def snapshots_recorded_def)
  ultimately have "about_to_finish (ext srv) u row (db s) ?d1"
    using row sess key by (simp add: about_to_finish_def)
  from finish_history [OF inv this 2(8)] show ?thesis
    unfolding 2(9) by (rule note_rearchived_history)
qed

text \<open>What holds while a request completes the upload \<open>u\<close>.\<close>

definition completing :: "server \<Rightarrow> upload_row \<Rightarrow> archive \<Rightarrow> bool" where
  "completing srv u s =
     (history_inv srv s \<and> up_session_id u \<in> se_id ` set (db_sessions (db s)))"

lemma completing_view:
  assumes "completing srv u s" "(history_view t, db_uploads (db t)) = (history_view s, db_uploads (db s))"
  shows "completing srv u t"
  using assms history_inv_view by (auto simp: completing_def history_view_def)

lemma keeps_history_view_completing:
  "keeps_history_view m \<Longrightarrow> preserves (completing srv u) m"
  unfolding preserves_def using completing_view by metis

lemma remove_dir_history_view: "keeps_history_view (remove_upload_dir_op e uid)"
  unfolding remove_upload_dir_op_def by (intro allI preserves_intros) simp

lemma cleanup_history_view: "keeps_history_view (cleanup_uncommitted_promotions srv e ps)"
  by (rule allI, induction ps) (auto intro!: preserves_intros)

lemma promote_blob_history_view: "keeps_history_view (promote_blob srv e p)"
  unfolding promote_blob_def Let_def by (intro allI preserves_intros) simp_all

lemma promote_unique_completing: "preserves (completing srv' u) (promote_unique_blobs srv e promotions ps)"
proof (induction ps arbitrary: promotions)
  case (Cons p ps)
  show ?case
    unfolding preserves_def
  proof (intro allI impI)
    fix s assume inv: "completing srv' u s"
    obtain r t where run: "promote_blob srv e p s = (r, t)" by fastforce
    have t: "completing srv' u t"
      using keeps_history_view_completing [OF promote_blob_history_view] inv run by (rule preservesD)
    have "completing srv' u (snd (bind_op (ignore_op (cleanup_uncommitted_promotions srv e qs))
        (\<lambda>_. pure_op (Inl err)) t))" for qs and err :: api_error
      by (rule preserves_snd [where I = "completing srv' u"])
        (intro preserves_intros keeps_history_view_completing cleanup_history_view, rule t)
    with run t Cons.IH show "completing srv' u (snd (promote_unique_blobs srv e promotions (p # ps) s))"
      by (auto simp: preserves_def split: sum.splits)
  qed
qed (simp add: preserves_pure)

lemma finalize_existing_completing:
  assumes inv: "completing srv u s" and sn: "sn \<in> live_of (db s) (up_session_id u)"
  shows "completing srv u (snd (finalize_upload_for_existing_snapshot srv e u m (sn_id sn) transfer s))"
proof (cases "snd (finalize_upload_for_existing_snapshot srv e u m (sn_id sn) transfer s) = s")
  case True
  with inv show ?thesis by simp
next
  case False
  then obtain at v d where
    ok: "finalize_existing_transaction srv e u m (sn_id sn) transfer at (db s) = Inr (v, d)"
    and t: "snd (finalize_upload_for_existing_snapshot srv e u m (sn_id sn) transfer s) = s\<lparr>db := d\<rparr>"
    by (auto simp: finalize_upload_for_existing_snapshot_def try_op_def pure_op_def transact_def
        split: sum.splits prod.splits)
  have "history_inv srv (s\<lparr>db := d\<rparr>)"
    using inv sn ok unfolding completing_def by (blast intro: finalize_existing_history)
  moreover have "up_session_id u \<in> se_id ` set (db_sessions d)"
  proof -
    obtain mid where "finish_upload_row srv e u m mid (sn_id sn) at transfer 0 (db s) = Inr d"
      using finalize_existing_ok [OF ok] by blast
    then have "db_sessions d = db_sessions (db s)"
      by (auto simp: finish_upload_row_def insert_capture_provenance_def and_then_eq_Inr
          maintain_session_latest_context_def upsert_session_latest_context_def
          split: option.splits if_splits)
    with inv show ?thesis by (simp add: completing_def)
  qed
  ultimately show ?thesis unfolding t by (simp add: completing_def)
qed

lemma found_snapshot_live:
  "find (\<lambda>r. sn_session_id r = i \<and> sn_fingerprint_sha256 r = f \<and> sn_deleted_at r = None)
     (db_snapshots d) = Some sn \<Longrightarrow> sn \<in> live_of d i"
  by (auto simp: live_of_def dest!: find_SomeD)

lemma attach_completing:
  assumes inv: "completing srv u s"
    and hit: "find_snapshot_by_fingerprint (up_session_id u) f (db s) = Some sid"
  shows "completing srv u (snd (attach_to_snapshot srv e u m transfer sid s))"
proof -
  obtain sn where sn: "sn \<in> live_of (db s) (up_session_id u)" "sid = sn_id sn"
    using hit by (auto simp: find_snapshot_by_fingerprint_def intro: found_snapshot_live)
  show ?thesis
    unfolding attach_to_snapshot_def sn(2)
    by (rule run_bind, rule finalize_existing_completing [OF inv sn(1)], rule preserves_snd)
      (intro preserves_intros keeps_history_view_completing remove_dir_history_view)
qed

lemma record_transaction_completing:
  assumes inv: "completing srv u s"
    and key: "sort_key_from_rfc3339 (ext srv) now_text = Some now_seq"
    and ok: "record_transaction srv e u m ps fingerprint transfer newly now_text now_seq (db s)
      = Inr (recorded, d)"
  shows "completing srv u (s\<lparr>db := d\<rparr>)"
proof -
  have "history_inv srv (s\<lparr>db := d\<rparr>)"
    using inv key ok unfolding completing_def by (blast intro: record_transaction_history)
  moreover have "db_sessions d = db_sessions (db s)"
  proof (cases rule: record_transaction_cases [OF ok])
    case (2 blobs ids row mid rows d2 prior)
    from 2(8) have "db_sessions d2 = db_sessions (db s)"
      by (auto simp: finish_upload_row_def insert_capture_provenance_def and_then_eq_Inr
          maintain_session_latest_context_def upsert_session_latest_context_def
          split: option.splits if_splits)
    with 2(9) show ?thesis by simp
  qed simp
  ultimately show ?thesis using inv by (simp add: completing_def)
qed

lemma record_completed_upload_completing:
  "preserves (completing srv u) (record_completed_upload srv e u m ps promotions fingerprint transfer newly)"
  unfolding record_completed_upload_def
proof (rule preserves_try, rule preserves_try)
  fix now_text now_seq
  assume key: "ok_or internal (sort_key_from_rfc3339 (ext srv) now_text) = Inr now_seq"
  let ?lost = "bind_op (query (\<lambda>d. fetch_one (\<lambda>r. sn_session_id r = up_session_id u
         \<and> sn_fingerprint_sha256 r = fingerprint \<and> sn_deleted_at r = None) (db_snapshots d)))
         (\<lambda>winner.
       bind_op (cleanup_uncommitted_promotions srv e promotions) (\<lambda>_.
       finalize_upload_for_existing_snapshot srv e u m (sn_id winner) transfer))"
  have lost: "completing srv u (snd (?lost s))" if inv: "completing srv u s" for s
  proof (rule run_bind_query [where I = "completing srv u", OF inv])
    fix winner assume "fetch_one (\<lambda>r. sn_session_id r = up_session_id u
        \<and> sn_fingerprint_sha256 r = fingerprint \<and> sn_deleted_at r = None) (db_snapshots (db s)) = Inr winner"
    then have winner: "winner \<in> live_of (db s) (up_session_id u)"
      by (auto simp: fetch_one_eq_Inr intro: found_snapshot_live)
    show "completing srv u (snd (bind_op (cleanup_uncommitted_promotions srv e promotions) (\<lambda>_.
        finalize_upload_for_existing_snapshot srv e u m (sn_id winner) transfer) s))"
    proof (rule run_bind [where I = "completing srv u"])
      show "completing srv u (snd (cleanup_uncommitted_promotions srv e promotions s))"
        by (rule preserves_snd [OF keeps_history_view_completing [OF cleanup_history_view] inv])
    next
      fix v t assume "cleanup_uncommitted_promotions srv e promotions s = (Inr v, t)"
        and t: "completing srv u t"
      from preservesD [OF cleanup_history_view [rule_format] refl this(1)]
      have "db_snapshots (db t) = db_snapshots (db s)" by (simp add: history_view_def)
      with winner have "winner \<in> live_of (db t) (up_session_id u)" by (simp add: live_of_def)
      with t show "completing srv u (snd (finalize_upload_for_existing_snapshot srv e u m
          (sn_id winner) transfer t))"
        by (rule finalize_existing_completing)
    qed
  qed
  show "preserves (completing srv u) (bind_op (transact (record_transaction srv e u m ps fingerprint
      transfer newly now_text now_seq)) (\<lambda>recorded. if recorded then pure_op (Inr ()) else ?lost))"
  proof (rule preserves_bind, rule preserves_transact)
    fix s v d assume "completing srv u s" "record_transaction srv e u m ps fingerprint
      transfer newly now_text now_seq (db s) = Inr (v, d)"
    with key show "completing srv u (s\<lparr>db := d\<rparr>)"
      by (cases v) (auto simp: ok_or_eq_Inr intro: record_transaction_completing)
  next
    have "preserves (completing srv u) ?lost" using lost by (simp add: preserves_def)
    then show "preserves (completing srv u) (if recorded then pure_op (Inr ()) else ?lost)" for recorded
      by (rule preserves_if [OF preserves_pure])
  qed
qed

lemma record_or_clean_up_completing:
  "preserves (completing srv u) (record_or_clean_up srv e u m ps promotions fingerprint transfer newly)"
  unfolding preserves_def
proof (intro allI impI)
  fix s assume inv: "completing srv u s"
  obtain r t where run: "record_completed_upload srv e u m ps promotions fingerprint transfer newly s = (r, t)"
    by fastforce
  have t: "completing srv u t"
    using record_completed_upload_completing inv run by (rule preservesD)
  have "completing srv u (snd (bind_op (ignore_op (cleanup_uncommitted_promotions srv e promotions))
      (\<lambda>_. pure_op (Inl err)) t))" for err :: api_error
    by (rule preserves_snd [where I = "completing srv u"])
      (intro preserves_intros keeps_history_view_completing cleanup_history_view, rule t)
  with run t show "completing srv u (snd (record_or_clean_up srv e u m ps promotions fingerprint
      transfer newly s))"
    by (auto simp: record_or_clean_up_def split: sum.splits)
qed

lemma complete_under_blob_locks_completing:
  assumes "completing srv u s"
  shows "completing srv u (snd (complete_under_blob_locks srv e u m ps fingerprint transfer s))"
  unfolding complete_under_blob_locks_def
proof (intro run_bind_query [where I = "completing srv u"] assms)
  fix hit
  assume hit: "Inr (find_snapshot_by_fingerprint (up_session_id u) fingerprint (db s)) = Inr hit"
  let ?promote = "bind_op (promote_unique_blobs srv e [] (unique_stored_artifacts ps)) (\<lambda>promotions.
       try_op (newly_persisted_bytes promotions) (\<lambda>newly.
       bind_op (record_or_clean_up srv e u m ps promotions fingerprint transfer newly) (\<lambda>_.
       bind_op (ignore_op (remove_upload_dir_op e (up_id u))) (\<lambda>_.
       query (completion_for_upload srv (up_id u))))))"
  have "preserves (completing srv u) ?promote"
    by (intro preserves_intros promote_unique_completing record_or_clean_up_completing
        keeps_history_view_completing remove_dir_history_view)
  with hit assms show "completing srv u (snd ((case hit of
       Some snapshot_id \<Rightarrow> attach_to_snapshot srv e u m transfer snapshot_id | None \<Rightarrow> ?promote) s))"
    by (cases hit) (auto intro: attach_completing preserves_snd)
qed

lemma complete_prepared_completing:
  assumes "completing srv u s"
  shows "completing srv u (snd (complete_prepared srv e u m ps fingerprint transfer s))"
  using assms complete_under_blob_locks_completing attach_completing
  by (cases "ensure_blob_representations_compatible srv ps (db s)";
      cases "find_snapshot_by_fingerprint (up_session_id u) fingerprint (db s)")
    (simp_all add: complete_prepared_def bind_op_def query_def read_op_def)

lemma complete_checked_completing:
  assumes "completing srv u s"
  shows "completing srv u (snd (complete_checked srv e u m rows s))"
  unfolding complete_checked_def read_op_def
  by (intro run_try [where I = "completing srv u"] assms)
    (auto split: prod.splits intro!: run_try [where I = "completing srv u"] assms complete_prepared_completing)

lemma complete_upload_history: "preserves (history_inv srv) (complete_upload srv e path)"
  unfolding preserves_def
proof (intro allI impI)
  fix s assume inv: "history_inv srv s"
  show "history_inv srv (snd (complete_upload srv e path s))"
  proof (cases rule: complete_upload_cases [of srv e path s])
    case (inactive uid)
    with preserves_snd [OF require_active_history inv] show ?thesis by simp
  next
    case (checked uid u m)
    from require_active_find [OF checked(3)] have "u \<in> set (db_uploads (db s))"
      by (auto simp: get_active_upload_def dest!: find_SomeD)
    with inv have "completing srv u s"
      by (auto simp: completing_def history_inv_def uploads_recorded_def)
    from complete_checked_completing [OF this] checked(1) show ?thesis
      by (simp add: completing_def)
  qed (use inv in simp)
qed

end
