(* ===== verification/Archive_Steps.thy ===== *)
theory Archive_Steps
  imports History_Invariant
begin

text \<open>
  The archive as a state machine: the requests that change it, one step for every request, and the
  reachable states. A request runs with the locks of its upload, snapshot and blobs, so requests are
  steps that do not interleave; what may fail inside a request is part of its environment. The
  locale \<open>inductive_invariant\<close> is the contract of an invariant of such a machine, and the
  interpretation at the end shows that the three invariants of the archive meet it together.
\<close>

section \<open>Requests\<close>

datatype request =
    Register_Client string "unit + register_client_request"
  | Create_Upload "unit + create_upload_request"
  | Get_Upload_Status string
  | Put_Artifact_Chunk string string string chunk_headers "body_frame list"
  | Complete_Upload string
  | Abandon_Upload string
  | Expire_Uploads
  | Delete_Snapshot string "header_value option" "delete_snapshot_request option"
  | Run_Blob_Gc

text \<open>The archive after a request, whatever its answer is.\<close>

fun run_request :: "server \<Rightarrow> env \<Rightarrow> request \<Rightarrow> archive \<Rightarrow> archive" where
  "run_request srv e (Register_Client path payload) s = snd (register_client srv e path payload s)"
| "run_request srv e (Create_Upload payload) s = snd (create_upload srv e payload s)"
| "run_request srv e (Get_Upload_Status path) s = snd (get_upload_status srv e path s)"
| "run_request srv e (Put_Artifact_Chunk p q r h body) s = snd (put_artifact_chunk srv e p q r h body s)"
| "run_request srv e (Complete_Upload path) s = snd (complete_upload srv e path s)"
| "run_request srv e (Abandon_Upload path) s = snd (abandon_upload srv e path s)"
| "run_request srv e Expire_Uploads s = snd (expire_uploads_op srv e (now e) s)"
| "run_request srv e (Delete_Snapshot path header payload) s =
     snd (delete_snapshot srv e path header payload s)"
| "run_request srv e Run_Blob_Gc s = snd (run_blob_gc srv e s)"

definition empty_database :: database where
  "empty_database =
     \<lparr>db_clients = [], db_sessions = [], db_uploads = [], db_manifests = [],
      db_upload_artifacts = [], db_upload_chunks = [], db_upload_audits = [], db_blobs = [],
      db_snapshots = [], db_artifacts = [], db_captures = [], db_latest_contexts = [],
      db_tombstones = [], db_deletion_audits = []\<rparr>"

definition empty_archive :: archive where
  "empty_archive = \<lparr>db = empty_database, fs = \<lparr>chunk_files = [], blob_files = []\<rparr>\<rparr>"

text \<open>The assumptions on third-party code: the JSON library decodes what it encoded, and SHA-256 does
  not collide on \<open>U\<close>, the artifact contents this archive ever assembles.\<close>

definition trusted :: "server \<Rightarrow> bytes set \<Rightarrow> bool" where
  "trusted srv U = (json_roundtrip (ext srv) \<and> inj_on (sha256_digest (ext srv)) U)"

inductive archive_step :: "server \<Rightarrow> bytes set \<Rightarrow> archive \<Rightarrow> archive \<Rightarrow> bool" for srv U where
  step: "assembled_in U srv e s \<Longrightarrow> archive_step srv U s (run_request srv e r s)"

text \<open>States reachable by a transition relation.\<close>

inductive reachable :: "'s \<Rightarrow> ('s \<Rightarrow> 's \<Rightarrow> bool) \<Rightarrow> 's \<Rightarrow> bool" for start trans where
  initial: "reachable start trans start"
| next_state: "reachable start trans s \<Longrightarrow> trans s t \<Longrightarrow> reachable start trans t"

inductive_cases archive_stepE: "archive_step srv U s t"

abbreviation archive_reachable :: "server \<Rightarrow> bytes set \<Rightarrow> archive \<Rightarrow> bool" where
  "archive_reachable srv U \<equiv> reachable empty_archive (archive_step srv U)"

section \<open>Invariants of a transition system\<close>

locale inductive_invariant =
  fixes start :: 's and trans :: "'s \<Rightarrow> 's \<Rightarrow> bool" and inv :: "'s \<Rightarrow> bool"
  assumes start: "inv start"
    and kept: "inv s \<Longrightarrow> trans s t \<Longrightarrow> inv t"
begin

lemma always: "reachable start trans s \<Longrightarrow> inv s"
  by (induction rule: reachable.induct) (auto intro: start kept)

lemma kept_from:
  assumes "inv s" "trans\<^sup>*\<^sup>* s t"
  shows "inv t"
  using assms(2,1) by (induction rule: rtranclp_induct) (auto intro: kept)

end

text \<open>A contract for pairs of states: what a step may do to things that have been recorded. When it
  is reflexive and transitive it holds between any state and any later state.\<close>

locale step_guarantee =
  fixes trans :: "'s \<Rightarrow> 's \<Rightarrow> bool" and le :: "'s \<Rightarrow> 's \<Rightarrow> bool"
  assumes refl: "le s s"
    and trans: "le s t \<Longrightarrow> le t u \<Longrightarrow> le s u"
    and steps: "trans s t \<Longrightarrow> le s t"
begin

lemma later: "trans\<^sup>*\<^sup>* s t \<Longrightarrow> le s t"
  by (induction rule: rtranclp_induct) (auto intro: refl trans steps)

end

section \<open>The archive keeps its invariants\<close>

definition sound :: "server \<Rightarrow> bytes set \<Rightarrow> archive \<Rightarrow> bool" where
  "sound srv U s = (archive_inv srv U s \<and> upload_inv srv s \<and> history_inv srv s)"

lemma archive_inv_unchanged_files:
  assumes "preserves (blob_inv srv) m" "\<And>s. fs (snd (m s)) = fs s"
  shows "preserves (archive_inv srv U) m"
  using assms by (simp add: preserves_def archive_inv_def files_in_def)

lemma delete_snapshot_fs: "fs (snd (delete_snapshot srv e path header payload s)) = fs s"
proof -
  have "preserves (\<lambda>t. fs t = fs s) (delete_snapshot srv e path header payload)"
    unfolding delete_snapshot_def Let_def by (intro preserves_intros) simp_all
  then show ?thesis by (simp add: preserves_def)
qed

lemma collect_candidate_files_in: "files_in U s \<Longrightarrow> files_in U (snd (collect_candidate e k c s))"
  by (auto simp: collect_candidate_def files_in_def Let_def split: if_splits)

lemma collect_each_files_in: "files_in U s \<Longrightarrow> files_in U (snd (collect_each e k cs n s))"
proof (induction cs arbitrary: n s)
  case (Cons c cs)
  obtain r t where run: "collect_candidate e k c s = (r, t)" by fastforce
  from collect_candidate_files_in [OF Cons.prems, of e k c] have "files_in U t" by (simp add: run)
  with Cons.IH run show ?case by (auto split: sum.splits)
qed simp

lemma run_blob_gc_files_in: "preserves (files_in U) (run_blob_gc srv e)"
proof -
  have "files_in U (snd (collect_orphaned_blobs_at e t s))" if "files_in U s" for t s
    using collect_each_files_in [OF that, of e _ _ 0]
    by (auto simp: collect_orphaned_blobs_at_def Let_def that split: option.splits prod.splits sum.splits)
      (metis snd_conv)+
  then show ?thesis
    unfolding run_blob_gc_def
    by (intro preserves_intros) (auto simp: preserves_def split: prod.splits sum.splits, (metis snd_conv)+)
qed

lemma run_request_archive_inv:
  assumes U: "trusted srv U" "assembled_in U srv e s"
    and inv: "archive_inv srv U s" "upload_inv srv s"
  shows "archive_inv srv U (run_request srv e r s)"
proof -
  have view: "archive_inv srv U (snd (m s))" if "keeps_blob_view m" for m :: "(archive, 'a) op"
    using keeps_blob_view_archive [OF that] inv(1) by (rule preserves_snd)
  show ?thesis
  proof (cases r)
    case (Complete_Upload path)
    with U inv show ?thesis
      by (auto simp: trusted_def intro: complete_upload_archive_inv upload_inv_manifests)
  next
    case (Delete_Snapshot path header payload)
    with preserves_snd [OF archive_inv_unchanged_files [OF delete_snapshot_inv delete_snapshot_fs] inv(1)]
    show ?thesis by simp
  next
    case Run_Blob_Gc
    with preserves_snd [OF run_blob_gc_inv] preserves_snd [OF run_blob_gc_files_in] inv(1)
    show ?thesis by (simp add: archive_inv_def)
  qed (auto intro!: view simp del: all_simps simp: register_client_view create_upload_view
      get_upload_status_view put_artifact_chunk_view abandon_upload_view expire_uploads_view)
qed

lemma run_request_upload_inv:
  assumes "trusted srv U" "upload_inv srv s"
  shows "upload_inv srv (run_request srv e r s)"
proof -
  note keep = preserves_snd [where I = "upload_inv srv", OF _ assms(2)]
  note view = keep [OF keeps_upload_view_inv]
  show ?thesis
    using assms(1) unfolding trusted_def
    by (cases r) (simp_all add: keep view register_client_upload_view create_upload_inv
        get_upload_status_inv put_artifact_chunk_inv complete_upload_upload_inv abandon_upload_inv
        expire_uploads_inv delete_snapshot_upload_view run_blob_gc_upload_view)
qed

lemma run_request_history:
  assumes "history_inv srv s"
  shows "history_inv srv (run_request srv e r s)"
proof -
  note keep = preserves_snd [where I = "history_inv srv", OF _ assms]
  show ?thesis
    by (cases r) (simp_all add: keep register_client_history create_upload_history
        get_upload_status_history put_artifact_chunk_history complete_upload_history
        abandon_upload_history expire_uploads_history delete_snapshot_history run_blob_gc_history)
qed

interpretation archive: inductive_invariant empty_archive "archive_step srv U"
  "\<lambda>s. trusted srv U \<longrightarrow> sound srv U s" for srv U
proof
  show "trusted srv U \<longrightarrow> sound srv U empty_archive"
    by (simp add: sound_def archive_inv_def blob_inv_def files_in_def upload_inv_def history_inv_def
        snapshots_recorded_def uploads_recorded_def tombstones_recorded_def contexts_latest_def
        live_of_def live_fingerprints_unique_def no_orphan_detail_def empty_archive_def
        empty_database_def blob_file_def)
next
  fix s t assume "trusted srv U \<longrightarrow> sound srv U s" "archive_step srv U s t"
  then show "trusted srv U \<longrightarrow> sound srv U t"
    by (auto simp: sound_def elim!: archive_stepE
        intro: run_request_archive_inv run_request_upload_inv run_request_history)
qed

lemma reachable_sound:
  assumes "trusted srv U" "archive_reachable srv U s"
  shows "archive_inv srv U s" "upload_inv srv s" "history_inv srv s" "blob_inv srv s"
  using archive.always [OF assms(2)] assms(1) by (simp_all add: sound_def archive_inv_def)

end
