(* ===== verification/Archive_Growth.thy ===== *)
theory Archive_Growth
  imports Archive_Steps
begin

text \<open>
  The archive only grows: a capture, a snapshot, a tombstone and a deletion audit are never removed,
  and the only columns of them that ever change are the deletion time of a live snapshot and the
  link of a tombstone to the snapshot that archived the same content again. New captures get new
  identifiers.
\<close>

definition snapshot_kept :: "snapshot_row \<Rightarrow> snapshot_row \<Rightarrow> bool" where
  "snapshot_kept r r' =
     (r' = r \<or> (sn_deleted_at r = None \<and> (\<exists>at. r' = r\<lparr>sn_deleted_at := Some at\<rparr>)))"

definition tombstone_kept :: "tombstone_row \<Rightarrow> tombstone_row \<Rightarrow> bool" where
  "tombstone_kept r r' =
     (r' = r \<or> (ts_rearchived_snapshot_id r = None
                 \<and> (\<exists>i. r' = r\<lparr>ts_rearchived_snapshot_id := Some i\<rparr>)))"

definition archive_grows :: "database \<Rightarrow> database \<Rightarrow> bool" where
  "archive_grows d d' =
     (set (db_captures d) \<subseteq> set (db_captures d')
       \<and> (distinct (map cp_id (db_captures d)) \<longrightarrow> distinct (map cp_id (db_captures d')))
       \<and> set (db_deletion_audits d) \<subseteq> set (db_deletion_audits d')
       \<and> (\<forall>r \<in> set (db_snapshots d). \<exists>r' \<in> set (db_snapshots d'). snapshot_kept r r')
       \<and> (\<forall>r \<in> set (db_tombstones d). \<exists>r' \<in> set (db_tombstones d'). tombstone_kept r r'))"

lemma snapshot_kept_trans: "snapshot_kept a b \<Longrightarrow> snapshot_kept b c \<Longrightarrow> snapshot_kept a c"
  by (auto simp: snapshot_kept_def)

lemma tombstone_kept_trans: "tombstone_kept a b \<Longrightarrow> tombstone_kept b c \<Longrightarrow> tombstone_kept a c"
  by (auto simp: tombstone_kept_def)

lemma archive_grows_trans:
  assumes "archive_grows d d1" "archive_grows d1 d2" shows "archive_grows d d2"
  using assms unfolding archive_grows_def
  by (meson snapshot_kept_trans tombstone_kept_trans subset_trans)

text \<open>Operations that leave these four tables alone.\<close>

definition same_archive :: "database \<Rightarrow> database \<Rightarrow> bool" where
  "same_archive d d' =
     (db_captures d' = db_captures d \<and> db_deletion_audits d' = db_deletion_audits d
       \<and> db_snapshots d' = db_snapshots d \<and> db_tombstones d' = db_tombstones d)"

lemma same_archive_grows: "same_archive d d' \<Longrightarrow> archive_grows d d'"
  by (auto simp: same_archive_def archive_grows_def snapshot_kept_def tombstone_kept_def)

lemma archive_grows_refl [simp]: "archive_grows d d"
  by (rule same_archive_grows) (simp add: same_archive_def)

abbreviation grows_op :: "(archive, 'a) op \<Rightarrow> bool" where
  "grows_op m \<equiv> (\<forall>d. preserves (\<lambda>t. archive_grows d (db t)) m)"

lemma grows_transact:
  assumes "\<And>d v d'. f d = Inr (v, d') \<Longrightarrow> archive_grows d d'"
  shows "preserves (\<lambda>t. archive_grows d (db t)) (transact f)"
  using assms by (intro preserves_transact) (auto intro: archive_grows_trans)

lemma grows_same_transact:
  assumes "\<And>d v d'. f d = Inr (v, d') \<Longrightarrow> same_archive d d'"
  shows "preserves (\<lambda>t. archive_grows d (db t)) (transact f)"
  using assms by (intro grows_transact) (rule same_archive_grows)

lemma register_client_grows: "grows_op (register_client srv e path payload)"
  unfolding register_client_def
  by (intro allI preserves_intros grows_same_transact) (auto simp: commit_eq_Inr same_archive_def)

lemma terminalize_grows: "grows_op (terminalize_upload_locked srv e upload reason)"
  unfolding terminalize_upload_locked_def remove_upload_dir_op_def
  by (intro allI preserves_intros grows_same_transact)
    (auto simp: terminalize_transaction_def delete_upload_detail_def commit_eq_Inr same_archive_def
      split: option.splits if_splits)

lemma require_active_grows: "grows_op (require_active_upload srv e uid)"
  unfolding require_active_upload_def
  by (intro allI preserves_intros) (simp_all add: terminalize_grows)

lemma get_upload_status_grows: "grows_op (get_upload_status srv e path)"
  unfolding get_upload_status_def by (intro allI preserves_intros) (simp_all add: terminalize_grows)

lemma abandon_upload_grows: "grows_op (abandon_upload srv e path)"
  unfolding abandon_upload_def by (intro allI preserves_intros) (simp_all add: terminalize_grows)

lemma expire_uploads_grows: "grows_op (expire_uploads_op srv e t)"
  using terminalize_grows by (intro allI expire_uploads_preserves) blast

lemma create_upload_grows: "grows_op (create_upload srv e payload)"
proof -
  have "same_archive d d'"
    if "persist_upload srv e c cid m json sha layout now_text expires d = Inr (v, d')"
    for c cid m json sha layout now_text expires d v d'
    using that
    by (auto simp: persist_upload_def get_or_create_session_def persist_new_upload_detail_def
        same_archive_def and_then_eq_Inr commit_eq_Inr split: option.splits if_splits prod.splits)
  then show ?thesis
    unfolding create_upload_def Let_def
    by (intro allI preserves_intros grows_same_transact)
      (auto simp: expire_uploads_grows split: prod.splits intro!: preserves_intros)
qed

lemma put_artifact_chunk_grows: "grows_op (put_artifact_chunk srv e p q r h body)"
proof -
  have store: "grows_op (store_chunk_file srv e uid ai ci body request)" for uid ai ci request
    unfolding store_chunk_file_def by (intro allI preserves_intros) simp_all
  have persist: "same_archive d d'" if "persist_chunk_record e u ai ci len sha at d = Inr (v, d')"
    for u ai ci len sha at d v d'
    unfolding same_archive_def by (subst (1 2 3 4) persist_chunk_record_tables [OF that]) simp
  have "grows_op (accept_new_chunk srv e u a ai ci body request)" for u a ai ci request
    unfolding accept_new_chunk_def
    by (intro allI preserves_intros grows_same_transact)
      (auto simp: store same_archive_def refresh_upload_status_def and_then_eq_Inr commit_eq_Inr
        dest: persist [unfolded same_archive_def])
  then show ?thesis
    unfolding put_artifact_chunk_def repeat_chunk_def
    by (intro allI preserves_intros) (simp_all add: require_active_grows)
qed

section \<open>Completion\<close>

text \<open>The tables that only gain rows.\<close>

definition archive_appended :: "database \<Rightarrow> database \<Rightarrow> bool" where
  "archive_appended d d' =
     (set (db_captures d) \<subseteq> set (db_captures d')
       \<and> (distinct (map cp_id (db_captures d)) \<longrightarrow> distinct (map cp_id (db_captures d')))
       \<and> db_deletion_audits d' = db_deletion_audits d
       \<and> set (db_snapshots d) \<subseteq> set (db_snapshots d') \<and> db_tombstones d' = db_tombstones d)"

lemma archive_appended_grows: "archive_appended d d' \<Longrightarrow> archive_grows d d'"
  by (auto simp: archive_appended_def archive_grows_def snapshot_kept_def tombstone_kept_def)

lemma finish_upload_row_grows:
  "finish_upload_row srv e u m mid sid at transfer newly d = Inr d' \<Longrightarrow> archive_grows d d'"
  by (rule archive_appended_grows)
    (auto simp: finish_upload_row_def insert_capture_provenance_def and_then_eq_Inr insert_row_eq_Inr
      maintain_session_latest_context_def upsert_session_latest_context_def archive_appended_def
      list_ex_iff image_iff split: option.splits if_splits)

lemma update_where_kept:
  assumes "\<And>r. K r r" "\<And>r. p r \<Longrightarrow> K r (f r)" "r \<in> set t"
  shows "\<exists>r' \<in> set (update_where p f t). K r r'"
  using assms by (intro bexI [of _ "if p r then f r else r"]) (auto simp: update_where_def)

lemma finalize_existing_grows: "grows_op (finalize_upload_for_existing_snapshot srv e u m sid transfer)"
  unfolding finalize_upload_for_existing_snapshot_def
  by (intro allI preserves_intros grows_transact)
    (auto dest!: finalize_existing_ok intro: finish_upload_row_grows)

lemma note_rearchived_grows:
  "archive_grows d (d\<lparr>db_tombstones := note_rearchived sid prior (db_tombstones d)\<rparr>)"
proof (cases prior)
  case (Some q)
  have "\<exists>r' \<in> set (note_rearchived sid prior (db_tombstones d)). tombstone_kept r r'"
    if "r \<in> set (db_tombstones d)" for r
    unfolding note_rearchived_def Some option.case
    using that by (rule update_where_kept [rotated 2]) (auto simp: tombstone_kept_def)
  then show ?thesis by (auto simp: archive_grows_def snapshot_kept_def)
qed (simp add: note_rearchived_def)

lemma record_transaction_grows:
  assumes "record_transaction srv e u m ps fingerprint transfer newly now_text now_seq d = Inr (v, d')"
  shows "archive_grows d d'"
proof (cases rule: record_transaction_cases [OF assms])
  case (2 blobs ids row mid rows d2 prior)
  have "archive_grows d (d\<lparr>db_blobs := blobs, db_snapshots := db_snapshots d @ [row], db_artifacts := rows\<rparr>)"
    by (auto simp: archive_grows_def snapshot_kept_def tombstone_kept_def)
  from archive_grows_trans [OF this finish_upload_row_grows [OF 2(8)]] show ?thesis
    unfolding 2(9) by (rule archive_grows_trans [OF _ note_rearchived_grows])
qed simp

lemma cleanup_grows: "grows_op (cleanup_uncommitted_promotions srv e ps)"
  by (rule allI, induction ps) (auto intro!: preserves_intros)

lemma promote_unique_grows: "grows_op (promote_unique_blobs srv e promotions ps)"
proof (intro allI, induction ps arbitrary: promotions)
  case (Cons p ps)
  have one: "preserves (\<lambda>t. archive_grows d (db t)) (promote_blob srv e p)"
    unfolding promote_blob_def Let_def by (intro preserves_intros) simp_all
  have clean: "preserves (\<lambda>t. archive_grows d (db t)) (bind_op (ignore_op
      (cleanup_uncommitted_promotions srv e qs)) (\<lambda>_. pure_op (Inl err :: blob_promotion list result)))" for qs err
    by (intro preserves_intros cleanup_grows [rule_format])
  show ?case
    unfolding preserves_def
  proof (intro allI impI)
    fix s :: archive assume s: "archive_grows d (db s)"
    obtain r t where run: "promote_blob srv e p s = (r, t)" by fastforce
    from preservesD [OF one s run] run Cons.IH clean
    show "archive_grows d (db (snd (promote_unique_blobs srv e promotions (p # ps) s)))"
      by (auto simp: preserves_def split: sum.splits)
  qed
qed (simp add: preserves_pure)

lemma record_or_clean_up_grows:
  "grows_op (record_or_clean_up srv e u m ps promotions fingerprint transfer newly)"
proof (intro allI)
  fix d
  have rec: "preserves (\<lambda>t. archive_grows d (db t))
      (record_completed_upload srv e u m ps promotions fingerprint transfer newly)"
    unfolding record_completed_upload_def
    by (intro preserves_intros grows_transact record_transaction_grows)
      (simp_all add: cleanup_grows finalize_existing_grows)
  have clean: "preserves (\<lambda>t. archive_grows d (db t)) (bind_op (ignore_op
      (cleanup_uncommitted_promotions srv e promotions)) (\<lambda>_. pure_op (Inl err :: unit result)))" for err
    by (intro preserves_intros cleanup_grows [rule_format])
  show "preserves (\<lambda>t. archive_grows d (db t))
      (record_or_clean_up srv e u m ps promotions fingerprint transfer newly)"
    unfolding preserves_def
  proof (intro allI impI)
    fix s :: archive assume s: "archive_grows d (db s)"
    obtain r t where run: "record_completed_upload srv e u m ps promotions fingerprint transfer newly s = (r, t)"
      by fastforce
    from preservesD [OF rec s run] run clean show "archive_grows d (db (snd (record_or_clean_up srv e u
        m ps promotions fingerprint transfer newly s)))"
      by (auto simp: record_or_clean_up_def preserves_def split: sum.splits)
  qed
qed

lemma complete_upload_grows: "grows_op (complete_upload srv e path)"
proof -
  have dir: "grows_op (ignore_op (remove_upload_dir_op e uid))" for uid
    unfolding remove_upload_dir_op_def by (intro allI preserves_intros) simp
  have attach: "grows_op (attach_to_snapshot srv e u m transfer sid)" for u m transfer sid
    unfolding attach_to_snapshot_def
    by (intro allI preserves_bind preserves_query) (simp_all add: finalize_existing_grows dir)
  have locks: "grows_op (complete_under_blob_locks srv e u m ps fingerprint transfer)"
    for u m ps fingerprint transfer
    unfolding complete_under_blob_locks_def
    by (intro allI preserves_bind preserves_query preserves_case_option preserves_try)
      (simp_all add: attach promote_unique_grows record_or_clean_up_grows dir)
  have prepared: "grows_op (complete_prepared srv e u m ps fingerprint transfer)"
    for u m ps fingerprint transfer
    unfolding complete_prepared_def
    by (intro allI preserves_intros) (simp_all add: attach locks)
  have "grows_op (complete_checked srv e u m rows)" for u m rows
    unfolding complete_checked_def
    by (intro allI preserves_intros)
      (auto simp: prepared split: prod.splits intro!: preserves_intros)
  then show ?thesis
    unfolding complete_upload_def
    by (intro allI preserves_intros) (simp_all add: require_active_grows)
qed

section \<open>Deletion and collection\<close>

lemma delete_transaction_grows:
  assumes "delete_snapshot_transaction e dt reason sid d = Inr (v, d')"
  shows "archive_grows d d'"
proof (cases rule: delete_snapshot_transaction_cases [OF assms])
  case (2 live m t a blobs)
  have kept: "\<exists>r' \<in> set (db_snapshots (with_deletion live (dt_deleted_at dt) t a d)). snapshot_kept r r'"
    if "r \<in> set (db_snapshots d)" for r
    unfolding with_deletion_def using that
    by simp (erule update_where_kept [rotated 2], auto simp: snapshot_kept_def)
  show ?thesis
    using kept unfolding 2(7) archive_grows_def
    by (simp add: rebuild_session_latest_context_def schedule_all_other_tables)
      (auto simp: with_deletion_def tombstone_kept_def)
qed simp

lemma delete_snapshot_grows: "grows_op (delete_snapshot srv e path header payload)"
  unfolding delete_snapshot_def Let_def
  by (intro allI preserves_intros grows_transact) (rule delete_transaction_grows)

lemma collect_each_same: "same_archive d (db s) \<Longrightarrow> same_archive d (db (snd (collect_each e k cs n s)))"
  using collect_each_history_view [of e k cs n s]
  by (auto simp: same_archive_def history_view_def)

lemma run_blob_gc_grows: "grows_op (run_blob_gc srv e)"
proof -
  have "same_archive (db s) (db (snd (collect_orphaned_blobs_at e t s)))" for t s
    using collect_each_same [of "db s" s e _ _ 0]
    by (auto simp: collect_orphaned_blobs_at_def Let_def same_archive_def
        split: option.splits prod.splits sum.splits) (metis snd_conv)+
  then have "archive_grows d (db (snd (collect_orphaned_blobs_at e t s)))"
    if "archive_grows d (db s)" for d t s
    using that by (blast intro: archive_grows_trans same_archive_grows)
  then show ?thesis
    unfolding run_blob_gc_def
    by (intro allI preserves_intros) (auto simp: preserves_def split: prod.splits sum.splits, (metis snd_conv)+)
qed

section \<open>Any sequence of requests\<close>

lemma run_request_grows: "archive_grows (db s) (db (run_request srv e r s))"
proof -
  have keep: "archive_grows (db s) (db (snd (m s)))" if "grows_op m" for m :: "(archive, 'a) op"
    using that by (simp add: preserves_def)
  show ?thesis
    by (cases r) (auto intro!: keep simp del: all_simps simp: register_client_grows create_upload_grows
        get_upload_status_grows put_artifact_chunk_grows complete_upload_grows abandon_upload_grows
        expire_uploads_grows delete_snapshot_grows run_blob_gc_grows)
qed

interpretation growth: step_guarantee "archive_step srv U" "\<lambda>s t. archive_grows (db s) (db t)"
  for srv U
  by unfold_locales (auto intro: archive_grows_trans run_request_grows elim!: archive_stepE)

lemma reachable_captures_distinct:
  assumes "archive_reachable srv U s"
  shows "distinct (map cp_id (db_captures (db s)))"
proof -
  have "(archive_step srv U)\<^sup>*\<^sup>* empty_archive s"
    using assms by (induction rule: reachable.induct) auto
  from growth.later [OF this] show ?thesis
    by (simp add: archive_grows_def empty_archive_def empty_database_def)
qed

end
