(* ===== verification/Sample_Flow.thy ===== *)
theory Sample_Flow
  imports Archive_Growth Samples
begin

text \<open>
  One run of the archive on concrete values: a client registers, proposes a manifest of one artifact
  of three bytes, sends it in two chunks and completes the upload; then the snapshot is deleted and
  its blob collected. The digest of this instance is injective (the input, a marker and padding to
  32 bytes) and the only document its JSON codec encodes is the manifest of the run, so the
  assumptions on third-party code hold for it.
\<close>

definition flow_digest :: "bytes \<Rightarrow> bytes" where
  "flow_digest bs = bs @ 1 # replicate (31 - length bs) 0"

lemma padded_eq:
  "xs @ 1 # replicate m 0 = ys @ 1 # replicate n (0 :: byte) \<Longrightarrow> xs = ys"
proof -
  assume eq: "xs @ 1 # replicate m 0 = ys @ 1 # replicate n (0 :: byte)"
  have strip: "dropWhile (\<lambda>b. b = 0) (rev (zs @ 1 # replicate k 0)) = 1 # rev zs" for zs :: bytes and k
    by simp (induction k, simp_all)
  from strip [of xs m] strip [of ys n] eq have "1 # rev xs = 1 # rev ys" by simp
  then show ?thesis by simp
qed

lemma inj_flow_digest: "inj_on flow_digest U"
  by (auto simp: inj_on_def flow_digest_def dest: padded_eq)

definition flow_bytes :: bytes where "flow_bytes = [7, 8, 9]"

definition flow_hash :: "bytes \<Rightarrow> string" where
  "flow_hash bs = ''sha256:'' @ hex_digest (flow_digest bs)"

definition flow_artifact :: artifact_input where
  "flow_artifact =
     \<lparr>ai_logical_path = ''log/a.txt'', ai_media_type = None, ai_original_size_bytes = 3,
      ai_original_sha256 = flow_hash flow_bytes, ai_stored_size_bytes = 3,
      ai_stored_sha256 = flow_hash flow_bytes, ai_compression = Identity\<rparr>"

definition flow_input :: manifest_input where
  "flow_input =
     \<lparr>mi_schema_version = 1, mi_session = sample_session, mi_capture = sample_capture_input,
      mi_artifacts = Some [flow_artifact], mi_artifact = None\<rparr>"

definition flow_manifest :: manifest where
  "flow_manifest =
     \<lparr>schema_version = 1, session = sample_session, capture = sample_capture,
      artifacts = [artifact_of_input flow_artifact]\<rparr>"

definition flow_externals :: externals where
  "flow_externals =
     \<lparr>parse_rfc3339 = sample_parse, format_rfc3339 = sample_format,
      mime_parses = (\<lambda>_. True), uuid_parse = Some, sha256_digest = flow_digest,
      zstd_decode = Some, zstd_partial = (\<lambda>_. []), manifest_to_json = (\<lambda>m. if m = flow_manifest then Some ''m'' else None),
      manifest_from_json = (\<lambda>s. if s = ''m'' then Some flow_manifest else None),
      legacy_manifest_to_json = (\<lambda>_. None), fingerprint_to_json = (\<lambda>_. Some ''f''),
      metadata_to_json = (\<lambda>_. Some ''{}''), metadata_from_json = (\<lambda>_. Some [])\<rparr>"

definition flow_server :: server where
  "flow_server =
     \<lparr>ext = flow_externals,
      srv_identity = \<lparr>ident_owner_namespace = ''v1'', archive_instance_id = ''i'',
        ident_created_at = ''2026-01-01T00:00:00Z''\<rparr>,
      srv_limits = sample_limits, srv_chunk_size_bytes = 2, srv_upload_expiry = 86400,
      srv_blob_gc_grace = 86400, srv_admin_enabled = True\<rparr>"

lemma flow_trusted: "trusted flow_server UNIV"
  by (auto simp: trusted_def json_roundtrip_def flow_server_def flow_externals_def inj_flow_digest)

text \<open>Nothing fails in this run; fresh identifiers are numbered by the request.\<close>

fun flow_id :: "char \<Rightarrow> id_use \<Rightarrow> string" where
  "flow_id c New_Session = c # ''-session''"
| "flow_id c New_Upload = c # ''-upload''"
| "flow_id c New_Manifest = c # ''-manifest''"
| "flow_id c New_Snapshot = c # ''-snapshot''"
| "flow_id c New_Capture = c # ''-capture''"
| "flow_id c New_Tombstone = c # ''-tombstone''"
| "flow_id c New_Deletion_Audit = c # ''-audit''"
| "flow_id c (New_Blob k) = c # ''-blob-'' @ replicate k (CHR ''x'')"
| "flow_id c (New_Artifact k) = c # ''-artifact-'' @ replicate k (CHR ''x'')"

definition flow_env :: "int \<Rightarrow> char \<Rightarrow> env" where
  "flow_env seconds c =
     \<lparr>now = sample_time seconds, commit_now = sample_time seconds, new_id = flow_id c,
      io_fails = (\<lambda>_. False), commit_fails = (\<lambda>_. None)\<rparr>"

abbreviation day_1 :: env where "day_1 \<equiv> flow_env 1767225600 (CHR ''1'')"
abbreviation day_2 :: env where "day_2 \<equiv> flow_env 1767312000 (CHR ''2'')"

definition flow_chunk :: "string \<Rightarrow> bytes \<Rightarrow> string \<Rightarrow> request" where
  "flow_chunk index bs len =
     Put_Artifact_Chunk ''1-upload'' ''0'' index
       \<lparr>hd_content_type = Some (Text ''application/octet-stream''),
        hd_chunk_sha256 = Some (Text (flow_hash bs)), hd_chunk_length = Some (Text len)\<rparr>
       [Data bs]"

definition flow_create :: request where
  "flow_create = Create_Upload (Inr \<lparr>cur_client_id = ''c'', cur_capture_id = Some ''k1'',
     cur_idempotency_key = None, cur_manifest = flow_input\<rparr>)"

definition flow_register :: request where
  "flow_register =
     Register_Client ''c'' (Inr \<lparr>rcr_hostname = None, rcr_display_name = None, rcr_metadata = []\<rparr>)"

definition flow_delete :: request where
  "flow_delete = Delete_Snapshot ''1-snapshot''
     (Some (Text (expected_confirmation ''1-snapshot'' (sha256_hex flow_externals (string_bytes ''f'')))))
     None"

definition run_all :: "server \<Rightarrow> env \<Rightarrow> request list \<Rightarrow> archive \<Rightarrow> archive" where
  "run_all srv e rs s = fold (run_request srv e) rs s"

definition flow_created :: archive where
  "flow_created = run_all flow_server day_1 [flow_register, flow_create] empty_archive"

definition flow_uploaded :: archive where
  "flow_uploaded = run_all flow_server day_1
     [flow_chunk ''0'' [7, 8] ''2'', flow_chunk ''1'' [9] ''1''] flow_created"

definition flow_completed :: archive where
  "flow_completed = run_request flow_server day_1 (Complete_Upload ''1-upload'') flow_uploaded"

definition flow_deleted :: archive where
  "flow_deleted = run_request flow_server day_1 flow_delete flow_completed"

definition flow_collected :: archive where
  "flow_collected = run_request flow_server day_2 Run_Blob_Gc flow_deleted"

lemma assembled_in_UNIV: "assembled_in UNIV srv e s"
  by (simp add: assembled_in_def)

lemma run_request_reachable:
  "archive_reachable srv UNIV s \<Longrightarrow> archive_reachable srv UNIV (run_request srv e r s)"
  by (erule reachable.next_state) (rule archive_step.step [OF assembled_in_UNIV])

lemma run_all_reachable:
  "archive_reachable srv UNIV s \<Longrightarrow> archive_reachable srv UNIV (run_all srv e rs s)"
  unfolding run_all_def by (induction rs arbitrary: s) (simp_all add: run_request_reachable)

lemma flow_reachable:
  "archive_reachable flow_server UNIV flow_uploaded"
  "archive_reachable flow_server UNIV flow_completed"
  "archive_reachable flow_server UNIV flow_deleted"
  "archive_reachable flow_server UNIV flow_collected"
  unfolding flow_collected_def flow_deleted_def flow_completed_def flow_uploaded_def flow_created_def
  by (intro run_request_reachable run_all_reachable reachable.initial)+

section \<open>The states of the run\<close>

text \<open>Each state is evaluated once, from the one before it; later evaluations start from its value.\<close>

abbreviation day_1_text :: string where "day_1_text \<equiv> ''2026-01-01T00:00:00Z''"
abbreviation day_2_text :: string where "day_2_text \<equiv> ''2026-01-02T00:00:00Z''"
abbreviation flow_sha :: string where
  "flow_sha \<equiv> ''0708090100000000000000000000000000000000000000000000000000000000''"
abbreviation flow_manifest_sha :: string where
  "flow_manifest_sha \<equiv> ''6d01000000000000000000000000000000000000000000000000000000000000''"
abbreviation flow_fingerprint_sha :: string where
  "flow_fingerprint_sha \<equiv> ''6601000000000000000000000000000000000000000000000000000000000000''"

abbreviation flow_upload_row :: upload_row where
  "flow_upload_row \<equiv>
     \<lparr>up_id = ''1-upload'', up_owner_namespace = ''v1'', up_session_id = ''1-session'', up_client_id = ''c'',
      up_capture_id = ''k1'', up_manifest_sha256 = flow_manifest_sha, up_status = ''artifact_uploaded'',
      up_snapshot_id = None, up_created_at = day_1_text, up_completed_at = None, up_chunk_size_bytes = 2,
      up_chunk_count = 2, up_declared_stored_size_bytes = 3, up_declared_original_size_bytes = 3,
      up_expires_at = day_2_text, up_artifact_count = 1, up_total_stored_size_bytes = 3,
      up_total_original_size_bytes = 3, up_transfer_bytes = 0, up_newly_persisted_bytes = 0\<rparr>"

abbreviation flow_chunk_row :: "int \<Rightarrow> int \<Rightarrow> string \<Rightarrow> chunk_row" where
  "flow_chunk_row index len sha \<equiv>
     \<lparr>uc_upload_id = ''1-upload'', uc_artifact_index = 0, uc_chunk_index = index, uc_byte_length = len,
      uc_sha256 = sha, uc_accepted_at = day_1_text\<rparr>"

abbreviation flow_uploaded_tables :: database where
  "flow_uploaded_tables \<equiv>
     \<lparr>db_clients = [\<lparr>cl_id = ''c'', cl_owner_namespace = ''v1'', cl_hostname = None, cl_display_name = None,
        cl_metadata_json = ''{}'', cl_created_at = day_1_text, cl_updated_at = day_1_text\<rparr>],
      db_sessions = [\<lparr>se_id = ''1-session'', se_owner_namespace = ''v1'', se_source_agent = ''agent'',
        se_source_session_id = ''s1'', se_created_at = day_1_text, se_updated_at = day_1_text\<rparr>],
      db_uploads = [flow_upload_row],
      db_manifests = [\<lparr>mf_id = ''1-manifest'', mf_upload_id = ''1-upload'', mf_canonical_json = ''m'',
        mf_sha256 = flow_manifest_sha, mf_created_at = day_1_text\<rparr>],
      db_upload_artifacts = [\<lparr>ua_upload_id = ''1-upload'', ua_artifact_index = 0, ua_logical_path = ''log/a.txt'',
        ua_media_type = None, ua_original_size_bytes = 3, ua_original_sha256 = flow_sha,
        ua_stored_size_bytes = 3, ua_stored_sha256 = flow_sha, ua_compression = ''identity'', ua_chunk_count = 2\<rparr>],
      db_upload_chunks =
        [flow_chunk_row 0 2 ''0708010000000000000000000000000000000000000000000000000000000000'',
         flow_chunk_row 1 1 ''0901000000000000000000000000000000000000000000000000000000000000''],
      db_upload_audits = [], db_blobs = [], db_snapshots = [], db_artifacts = [], db_captures = [],
      db_latest_contexts = [], db_tombstones = [], db_deletion_audits = []\<rparr>"

abbreviation flow_blob_row :: blob_row where
  "flow_blob_row \<equiv>
     \<lparr>bl_id = ''1-blob-'', bl_owner_namespace = ''v1'', bl_stored_sha256 = flow_sha, bl_stored_size_bytes = 3,
      bl_compression = ''identity'', bl_created_at = day_1_text, bl_orphaned_at = None,
      bl_eligible_after = None, bl_eligible_after_seq = None\<rparr>"

abbreviation flow_snapshot_row :: snapshot_row where
  "flow_snapshot_row \<equiv>
     \<lparr>sn_id = ''1-snapshot'', sn_owner_namespace = ''v1'', sn_session_id = ''1-session'',
      sn_manifest_id = ''1-manifest'', sn_fingerprint_sha256 = flow_fingerprint_sha,
      sn_completed_at = day_1_text, sn_completed_at_seq = 1767225600000000, sn_artifact_count = 1,
      sn_total_original_size_bytes = 3, sn_total_stored_size_bytes = 3, sn_fingerprint_version = 1,
      sn_deleted_at = None, sn_rearchived_from_tombstone_id = None\<rparr>"

abbreviation flow_completed_tables :: database where
  "flow_completed_tables \<equiv> flow_uploaded_tables
     \<lparr>db_uploads := [flow_upload_row\<lparr>up_status := ''completed'', up_snapshot_id := Some ''1-snapshot'',
        up_completed_at := Some day_1_text, up_transfer_bytes := 3, up_newly_persisted_bytes := 3\<rparr>],
      db_blobs := [flow_blob_row], db_snapshots := [flow_snapshot_row],
      db_artifacts := [\<lparr>ar_id = ''1-artifact-'', ar_snapshot_id = ''1-snapshot'', ar_blob_id = ''1-blob-'',
        ar_logical_path = ''log/a.txt'', ar_media_type = None, ar_original_size_bytes = 3,
        ar_original_sha256 = flow_sha, ar_created_at = day_1_text, ar_created_at_seq = 1767225600000000,
        ar_artifact_index = 0\<rparr>],
      db_captures := [\<lparr>cp_id = ''1-capture'', cp_owner_namespace = ''v1'', cp_capture_id = ''k1'',
        cp_session_id = ''1-session'', cp_client_id = ''c'', cp_upload_id = ''1-upload'',
        cp_manifest_id = ''1-manifest'', cp_snapshot_id = ''1-snapshot'', cp_capture = sample_capture,
        cp_source_metadata_json = ''{}'', cp_server_received_at = day_1_text,
        cp_server_completed_at = day_1_text, cp_server_completed_at_seq = 1767225600000000\<rparr>],
      db_latest_contexts := [\<lparr>lx_session_id = ''1-session'', lx_snapshot_id = ''1-snapshot'',
        lx_completed_at = day_1_text, lx_completed_at_seq = 1767225600000000, lx_source_agent = ''agent'',
        lx_project = Some ''p'', lx_repository = None, lx_branch = None, lx_source_agent_version = None,
        lx_artifact_set_version = 1\<rparr>]\<rparr>"

abbreviation flow_deleted_tables :: database where
  "flow_deleted_tables \<equiv> flow_completed_tables
     \<lparr>db_blobs := [flow_blob_row\<lparr>bl_orphaned_at := Some day_1_text, bl_eligible_after := Some day_2_text,
        bl_eligible_after_seq := Some 1767312000000000\<rparr>],
      db_snapshots := [flow_snapshot_row\<lparr>sn_deleted_at := Some day_1_text\<rparr>],
      db_artifacts := [], db_latest_contexts := [],
      db_tombstones := [\<lparr>ts_id = ''1-tombstone'', ts_owner_namespace = ''v1'', ts_session_id = ''1-session'',
        ts_snapshot_id = ''1-snapshot'', ts_snapshot_fingerprint_sha256 = flow_fingerprint_sha,
        ts_manifest_sha256 = flow_manifest_sha, ts_snapshot_completed_at = day_1_text,
        ts_deleted_at = day_1_text, ts_deleted_at_seq = 1767225600000000, ts_reason = None,
        ts_rearchived_snapshot_id = None\<rparr>],
      db_deletion_audits := [\<lparr>da_id = ''1-audit'', da_tombstone_id = ''1-tombstone'', da_owner_namespace = ''v1'',
        da_session_id = ''1-session'', da_snapshot_id = ''1-snapshot'',
        da_snapshot_fingerprint_sha256 = flow_fingerprint_sha, da_manifest_sha256 = flow_manifest_sha,
        da_occurred_at = day_1_text, da_occurred_at_seq = 1767225600000000, da_reason = None\<rparr>]\<rparr>"

lemma flow_uploaded_is [code]:
  "flow_uploaded = \<lparr>db = flow_uploaded_tables,
     fs = \<lparr>chunk_files = [((''1-upload'', 0, 0), Regular [7, 8]), ((''1-upload'', 0, 1), Regular [9])], blob_files = []\<rparr>\<rparr>"
  by code_simp

lemma flow_completed_is [code]:
  "flow_completed = \<lparr>db = flow_completed_tables,
     fs = \<lparr>chunk_files = [], blob_files = [(flow_sha, Regular [7, 8, 9])]\<rparr>\<rparr>"
  by code_simp

lemma flow_deleted_is [code]:
  "flow_deleted = \<lparr>db = flow_deleted_tables,
     fs = \<lparr>chunk_files = [], blob_files = [(flow_sha, Regular [7, 8, 9])]\<rparr>\<rparr>"
  by code_simp

lemma flow_collected_is [code]:
  "flow_collected = \<lparr>db = flow_deleted_tables\<lparr>db_blobs := []\<rparr>, fs = \<lparr>chunk_files = [], blob_files = []\<rparr>\<rparr>"
  by code_simp

section \<open>What the states of the run hold\<close>

definition flow_summary ::
  "archive \<Rightarrow> (string \<times> string option) list \<times> (string \<times> string) list \<times> (string \<times> int) list
     \<times> string list \<times> string list \<times> string list" where
  "flow_summary s =
     (map (\<lambda>r. (sn_id r, sn_deleted_at r)) (db_snapshots (db s)),
      map (\<lambda>u. (up_id u, up_status u)) (db_uploads (db s)),
      map (\<lambda>r. (uc_upload_id r, uc_chunk_index r)) (db_upload_chunks (db s)),
      map ar_snapshot_id (db_artifacts (db s)), map bl_id (db_blobs (db s)),
      map lx_snapshot_id (db_latest_contexts (db s)))"

lemma flow_uploaded_summary:
  "flow_summary flow_uploaded =
     ([], [(''1-upload'', ''artifact_uploaded'')], [(''1-upload'', 0), (''1-upload'', 1)], [], [], [])"
  by code_simp

lemma flow_completed_summary:
  "flow_summary flow_completed =
     ([(''1-snapshot'', None)], [(''1-upload'', ''completed'')], [(''1-upload'', 0), (''1-upload'', 1)],
      [''1-snapshot''], [''1-blob-''], [''1-snapshot''])"
  by code_simp

lemma flow_deleted_summary:
  "flow_summary flow_deleted =
     ([(''1-snapshot'', Some ''2026-01-01T00:00:00Z'')], [(''1-upload'', ''completed'')],
      [(''1-upload'', 0), (''1-upload'', 1)], [], [''1-blob-''], [])"
  by code_simp

lemma flow_collected_summary:
  "flow_summary flow_collected =
     ([(''1-snapshot'', Some ''2026-01-01T00:00:00Z'')], [(''1-upload'', ''completed'')],
      [(''1-upload'', 0), (''1-upload'', 1)], [], [], [])"
  by code_simp

text \<open>Rows of the run, by what the summaries say of them.\<close>

lemma mapped_member:
  assumes "map f xs = ys" "y \<in> set ys"
  obtains x where "x \<in> set xs" "f x = y"
  using assms by auto

lemma flow_rows:
  obtains u r a n d where
    "u \<in> set (db_uploads (db flow_completed))" "up_id u = ''1-upload''" "up_status u = ''completed''"
    "r \<in> set (db_upload_chunks (db flow_uploaded))" "uc_upload_id r = ''1-upload''" "uc_chunk_index r = 1"
    "a \<in> set (db_artifacts (db flow_completed))" "ar_snapshot_id a = ''1-snapshot''"
    "n \<in> set (db_uploads (db flow_uploaded))" "up_id n = ''1-upload''" "up_status n = ''artifact_uploaded''"
    "d \<in> set (db_snapshots (db flow_deleted))" "sn_id d = ''1-snapshot''" "sn_deleted_at d \<noteq> None"
proof -
  note up = flow_uploaded_summary [unfolded flow_summary_def prod.inject]
    and complete = flow_completed_summary [unfolded flow_summary_def prod.inject]
    and gone = flow_deleted_summary [unfolded flow_summary_def prod.inject]
  obtain u where u: "u \<in> set (db_uploads (db flow_completed))" "(up_id u, up_status u) = (''1-upload'', ''completed'')"
    by (rule mapped_member [OF conjunct1 [OF conjunct2 [OF complete]]]) auto
  obtain r where r: "r \<in> set (db_upload_chunks (db flow_uploaded))"
    "(uc_upload_id r, uc_chunk_index r) = (''1-upload'', 1)"
    by (rule mapped_member [OF conjunct1 [OF conjunct2 [OF conjunct2 [OF up]]], of "(''1-upload'', 1)"]) auto
  obtain a where a: "a \<in> set (db_artifacts (db flow_completed))" "ar_snapshot_id a = ''1-snapshot''"
    by (rule mapped_member [OF conjunct1 [OF conjunct2 [OF conjunct2 [OF conjunct2 [OF complete]]]]])
      auto
  obtain n where n: "n \<in> set (db_uploads (db flow_uploaded))" "(up_id n, up_status n) = (''1-upload'', ''artifact_uploaded'')"
    by (rule mapped_member [OF conjunct1 [OF conjunct2 [OF up]]]) auto
  obtain d where d: "d \<in> set (db_snapshots (db flow_deleted))"
    "(sn_id d, sn_deleted_at d) = (''1-snapshot'', Some ''2026-01-01T00:00:00Z'')"
    by (rule mapped_member [OF conjunct1 [OF gone]]) auto
  from u r a n d show thesis by (intro that) auto
qed

end
