(* ===== verification/Archive_Properties.thy ===== *)
theory Archive_Properties
  imports Sample_Flow
begin

text \<open>
  What the archive promises in every reachable state, whatever requests arrive in whatever order and
  whatever file system steps and commits fail in them. Each property is read off the invariants of
  \<open>Archive_Steps\<close> and \<open>Archive_Growth\<close>; the witnesses instantiate them with the run of
  \<open>Sample_Flow\<close>.
\<close>

text \<open>C6: Nothing archived is lost. Every artifact row belongs to a live snapshot, and the bytes
  behind it can be read back: its blob row exists, the blob file is a regular file with the recorded
  size and digest, and decoding it by the recorded compression gives an original of the size and the
  digest that the manifest declared.\<close>

theorem archived_artifacts_readable:
  assumes "trusted srv U" "archive_reachable srv U s" "a \<in> set (db_artifacts (db s))"
  shows "ar_snapshot_id a \<in> live_ids (db s) \<and> readable (ext srv) (db s) (fs s) a"
  using blob_invD(6,7) [OF reachable_sound(4) [OF assms(1,2)] assms(3)] by (rule conjI)

theorem archived_artifacts_readable_witness:
  "\<exists>a. a \<in> set (db_artifacts (db flow_completed)) \<and> ar_snapshot_id a = ''1-snapshot''
     \<and> readable flow_externals (db flow_completed) (fs flow_completed) a"
proof -
  obtain a where a: "a \<in> set (db_artifacts (db flow_completed))" "ar_snapshot_id a = ''1-snapshot''"
    by (rule flow_rows)
  with archived_artifacts_readable [OF flow_trusted flow_reachable(2) a(1)] show ?thesis
    by (auto simp: flow_server_def)
qed

text \<open>C7: Content is stored once. At any time a stored digest has at most one blob row, and a
  session has at most one live snapshot with a given fingerprint.\<close>

theorem content_stored_once:
  assumes "trusted srv U" "archive_reachable srv U s"
  shows "distinct (map bl_stored_sha256 (db_blobs (db s))) \<and> live_fingerprints_unique (db s)"
proof -
  note inv = reachable_sound(4) [OF assms]
  have "distinct (map bl_stored_sha256 (db_blobs (db s)))"
    unfolding distinct_map inj_on_def
    using blob_digest_unique [OF inv] blob_invD(1) [OF inv] by (auto simp: distinct_map)
  with blob_invD(5) [OF inv] show ?thesis by simp
qed

theorem content_stored_once_witness:
  "distinct (map bl_stored_sha256 (db_blobs (db flow_completed)))
     \<and> live_fingerprints_unique (db flow_completed)"
  by (rule content_stored_once [OF flow_trusted flow_reachable(2)])

text \<open>C8: An accepted chunk is never lost before its upload is completed: the file named by its
  row is there, with the accepted length and checksum.\<close>

theorem accepted_chunks_backed:
  assumes "trusted srv U" "archive_reachable srv U s"
    and "u \<in> set (db_uploads (db s))" "up_status u \<noteq> ''completed''"
    and "r \<in> set (db_upload_chunks (db s))" "uc_upload_id r = up_id u"
  shows "chunk_backed (ext srv) (chunk_file (fs s) (up_id u)) r"
proof -
  have "r \<in> set (chunks_for (db s) (up_id u))" using assms(5,6) by (simp add: chunks_for_def)
  with upload_invD(5) [OF reachable_sound(2) [OF assms(1,2)] assms(3)] assms(4) show ?thesis
    by (auto simp: upload_detail_ok_def upload_ok_def)
qed

theorem accepted_chunks_backed_witness:
  "\<exists>r. r \<in> set (db_upload_chunks (db flow_uploaded)) \<and> uc_chunk_index r = 1
     \<and> chunk_backed flow_externals (chunk_file (fs flow_uploaded) ''1-upload'') r"
proof -
  obtain u r where u: "u \<in> set (db_uploads (db flow_uploaded))" "up_id u = ''1-upload''"
    "up_status u = ''artifact_uploaded''"
    and r: "r \<in> set (db_upload_chunks (db flow_uploaded))" "uc_upload_id r = ''1-upload''" "uc_chunk_index r = 1"
    by (rule flow_rows)
  have "chunk_backed (ext flow_server) (chunk_file (fs flow_uploaded) (up_id u)) r"
    by (rule accepted_chunks_backed [OF flow_trusted flow_reachable(1) u(1) _ r(1)]) (use u r in auto)
  with u r show ?thesis by (auto simp: flow_server_def)
qed

text \<open>C9: A completed upload is archived: it names a snapshot that exists, and a capture records
  which upload contributed to which snapshot.\<close>

theorem completed_upload_recorded:
  assumes "trusted srv U" "archive_reachable srv U s"
    and "u \<in> set (db_uploads (db s))" "up_status u = ''completed''"
  shows "\<exists>r \<in> set (db_snapshots (db s)). \<exists>c \<in> set (db_captures (db s)).
    up_snapshot_id u = Some (sn_id r) \<and> cp_upload_id c = up_id u \<and> cp_snapshot_id c = sn_id r"
  using reachable_sound(3) [OF assms(1,2)] assms(3,4)
  unfolding history_inv_def uploads_recorded_def by (auto simp: image_iff) metis

theorem completed_upload_recorded_witness:
  "\<exists>c. c \<in> set (db_captures (db flow_completed)) \<and> cp_upload_id c = ''1-upload''"
proof -
  obtain u where u: "u \<in> set (db_uploads (db flow_completed))" "up_id u = ''1-upload''"
    "up_status u = ''completed''"
    by (rule flow_rows)
  with completed_upload_recorded [OF flow_trusted flow_reachable(2) u(1)] show ?thesis by auto
qed

text \<open>C10: Deletion leaves a trace. A snapshot is marked deleted exactly when a tombstone names it;
  this tombstone is the only one, and a deletion audit refers to it.\<close>

theorem deleted_iff_tombstone:
  assumes "trusted srv U" "archive_reachable srv U s" "r \<in> set (db_snapshots (db s))"
  shows "(sn_deleted_at r \<noteq> None \<longleftrightarrow> (\<exists>t. t \<in> set (db_tombstones (db s)) \<and> ts_snapshot_id t = sn_id r
             \<and> (\<exists>a. a \<in> set (db_deletion_audits (db s)) \<and> da_tombstone_id a = ts_id t)))
     \<and> distinct (map ts_snapshot_id (db_tombstones (db s)))"
proof -
  note inv = reachable_sound(3) [OF assms(1,2)]
  have "sn_deleted_at r \<noteq> None" if t: "t \<in> set (db_tombstones (db s))" "ts_snapshot_id t = sn_id r" for t
  proof -
    from inv t obtain r' where r': "r' \<in> set (db_snapshots (db s))" "sn_id r' = sn_id r"
      "sn_deleted_at r' \<noteq> None"
      unfolding history_inv_def tombstones_recorded_def by metis
    have "distinct (map sn_id (db_snapshots (db s)))"
      using inv by (simp add: history_inv_def snapshots_recorded_def)
    from distinct_key_eq [OF this r'(1) assms(3) r'(2)] r'(3) show ?thesis by simp
  qed
  moreover have "\<exists>t. t \<in> set (db_tombstones (db s)) \<and> ts_snapshot_id t = sn_id r
      \<and> (\<exists>a. a \<in> set (db_deletion_audits (db s)) \<and> da_tombstone_id a = ts_id t)"
    if "sn_deleted_at r \<noteq> None"
    using inv assms(3) that unfolding history_inv_def tombstones_recorded_def by blast
  ultimately show ?thesis
    using inv by (auto simp: history_inv_def tombstones_recorded_def)
qed

theorem deleted_iff_tombstone_witness:
  "\<exists>t. t \<in> set (db_tombstones (db flow_deleted)) \<and> ts_snapshot_id t = ''1-snapshot''"
proof -
  obtain r where r: "r \<in> set (db_snapshots (db flow_deleted))" "sn_id r = ''1-snapshot''"
    "sn_deleted_at r \<noteq> None"
    by (rule flow_rows)
  with deleted_iff_tombstone [OF flow_trusted flow_reachable(3) r(1)] show ?thesis by auto
qed

text \<open>C11: The latest context of a session is what its definition says, although it is maintained
  incrementally by completions and rebuilt by deletions: a session has one exactly when it has a live
  snapshot, and it names the live snapshot with the greatest completion time, ties broken by the
  identifier.\<close>

theorem latest_context_is_newest:
  assumes "trusted srv U" "archive_reachable srv U s"
  shows "distinct (map lx_session_id (db_latest_contexts (db s)))
     \<and> (\<forall>i. live_of (db s) i \<noteq> {} \<longleftrightarrow> i \<in> lx_session_id ` set (db_latest_contexts (db s)))
     \<and> (\<forall>r \<in> set (db_latest_contexts (db s)).
          context_key r = Max (completion_key ` live_of (db s) (lx_session_id r)))"
proof -
  have latest: "contexts_latest (live_of (db s)) (db_latest_contexts (db s))"
    using reachable_sound(3) [OF assms] by (simp add: history_inv_def)
  have fin: "finite (completion_key ` live_of (db s) i)" for i
    by (simp add: live_of_def)
  have "context_key r = Max (completion_key ` live_of (db s) (lx_session_id r))"
    if "r \<in> set (db_latest_contexts (db s))" for r
    using latest that unfolding contexts_latest_def by (intro Max_eqI [symmetric] fin) blast+
  with latest show ?thesis
    unfolding contexts_latest_def by auto
qed

theorem latest_context_is_newest_witness:
  "\<exists>r. r \<in> set (db_latest_contexts (db flow_completed)) \<and> lx_snapshot_id r = ''1-snapshot''
     \<and> context_key r = Max (completion_key ` live_of (db flow_completed) (lx_session_id r))"
proof -
  have "map lx_snapshot_id (db_latest_contexts (db flow_completed)) = [''1-snapshot'']"
    using flow_completed_summary by (simp add: flow_summary_def)
  then obtain r where "r \<in> set (db_latest_contexts (db flow_completed))" "lx_snapshot_id r = ''1-snapshot''"
    by (rule mapped_member) auto
  with latest_context_is_newest [OF flow_trusted flow_reachable(2)] show ?thesis by blast
qed

text \<open>C12: The archive only grows. Between any state and any later state every capture, snapshot,
  tombstone and deletion audit is still there; a snapshot may have been marked deleted and a tombstone
  linked to the snapshot that archived its content again, and nothing else of them changes.\<close>

theorem archive_only_grows:
  assumes "(archive_step srv U)\<^sup>*\<^sup>* s t"
  shows "archive_grows (db s) (db t)"
  using assms by (rule growth.later)

lemma step_UNIV: "archive_step srv UNIV s (run_request srv e r s)"
  by (rule archive_step.step [OF assembled_in_UNIV])

theorem archive_only_grows_witness:
  "archive_grows (db flow_completed) (db flow_collected)"
proof -
  have "archive_step flow_server UNIV flow_completed flow_deleted"
    "archive_step flow_server UNIV flow_deleted flow_collected"
    unfolding flow_deleted_def flow_collected_def by (rule step_UNIV)+
  then have "(archive_step flow_server UNIV)\<^sup>*\<^sup>* flow_completed flow_collected"
    by (meson r_into_rtranclp rtranclp.rtrancl_into_rtrancl)
  then show ?thesis by (rule archive_only_grows)
qed

end
