(* ===== verification/Request_Properties.thy ===== *)
theory Request_Properties
  imports Sample_Flow
begin

text \<open>
  What single requests promise: the completeness check of an upload, the confirmation of a deletion,
  what the collector may remove, and which requests may be repeated.
\<close>

section \<open>Completeness of an artifact\<close>

lemma min_index_Min: "min_index xs = (if xs = [] then None else Some (Min (set xs)))"
  by (cases xs) (simp_all only: min_index_def list.case Min.set_eq_fold list.distinct if_False if_True refl)

lemma max_index_Max: "max_index xs = (if xs = [] then None else Some (Max (set xs)))"
  by (cases xs) (simp_all only: max_index_def list.case Max.set_eq_fold list.distinct if_False if_True refl)

text \<open>Counting and looking at the extremes decides whether all indexes are there.\<close>

lemma artifact_is_complete_iff:
  assumes "distinct xs" "set xs \<subseteq> {0..<n}" "0 \<le> n"
  shows "artifact_is_complete n xs \<longleftrightarrow> set xs = {0..<n}"
proof
  assume "artifact_is_complete n xs"
  then have "int (length xs) = n" by (simp add: artifact_is_complete_def)
  with assms show "set xs = {0..<n}"
    by (intro card_subset_eq) (simp_all add: distinct_card)
next
  assume all: "set xs = {0..<n}"
  with assms(1,3) have len: "int (length xs) = n" using distinct_card [of xs] by simp
  show "artifact_is_complete n xs"
  proof (cases "n = 0")
    case True
    with len show ?thesis by (simp add: artifact_is_complete_def min_index_Min max_index_Max)
  next
    case False
    have "Min (set xs) = 0" unfolding all by (rule Min_eqI) (use False assms(3) in auto)
    moreover have "Max (set xs) = n - 1" unfolding all by (rule Max_eqI) (use False assms(3) in auto)
    moreover have "xs \<noteq> []" using len False by auto
    ultimately show ?thesis
      using len False by (simp add: artifact_is_complete_def min_index_Min max_index_Max)
  qed
qed

lemma chunk_rows_of_upload:
  assumes ok: "upload_ok x u mfs arts (chunks_for d (up_id u)) file" and a: "a \<in> set arts"
  shows "distinct (map uc_chunk_index (chunk_rows d (up_id u) (ua_artifact_index a)))"
    and "uc_chunk_index ` set (chunk_rows d (up_id u) (ua_artifact_index a)) \<subseteq> {0..<ua_chunk_count a}"
    and "0 \<le> ua_chunk_count a"
proof -
  obtain m c where m: "manifest_of x u mfs m" "upload_layout_recorded u c m"
    and arts: "arts = projected_rows (up_id u) c m"
    and keys: "distinct (map chunk_key_of (chunks_for d (up_id u)))"
    and layout: "\<And>r. r \<in> set (chunks_for d (up_id u)) \<Longrightarrow> chunk_in_layout c m r"
    using ok by (auto simp: upload_ok_def)
  obtain i where i: "i < length (artifacts m)" "a = projected_row (up_id u) c (i, artifacts m ! i)"
    using projected_row_layout [OF m(2,1) a [unfolded arts]] by blast
  let ?rows = "chunk_rows d (up_id u) (ua_artifact_index a)"
  have set_rows: "set ?rows = {r \<in> set (chunks_for d (up_id u)). uc_artifact_index r = int i}"
    by (auto simp: chunk_rows_def chunks_for_def i(2) projected_row_def)
  have "distinct (map uc_chunk_index (filter (\<lambda>r. uc_upload_id r = up_id u
      \<and> uc_artifact_index r = ua_artifact_index a) (db_upload_chunks d)))"
  proof -
    have "distinct (map chunk_key_of (filter (\<lambda>r. uc_upload_id r = up_id u
        \<and> uc_artifact_index r = ua_artifact_index a) (db_upload_chunks d)))"
      using distinct_map_filter [OF keys, of "\<lambda>r. uc_artifact_index r = ua_artifact_index a"]
      by (simp add: chunks_for_def conj_commute)
    then show ?thesis
      by (auto simp: distinct_map inj_on_def chunk_key_of_def)
  qed
  then show "distinct (map uc_chunk_index ?rows)"
    unfolding chunk_rows_def distinct_map by simp
  show "uc_chunk_index ` set ?rows \<subseteq> {0..<ua_chunk_count a}"
  proof (rule image_subsetI)
    fix r assume r: "r \<in> set ?rows"
    then obtain j k where k: "k < chunks_needed (stored_size_bytes (artifacts m ! j)) c"
      "uc_artifact_index r = int j" "uc_chunk_index r = int k"
      using layout [of r] unfolding set_rows chunk_in_layout_def by blast
    with r have "j = i" unfolding set_rows by simp
    with k show "uc_chunk_index r \<in> {0..<ua_chunk_count a}"
      by (simp add: i(2) projected_row_def)
  qed
  show "0 \<le> ua_chunk_count a" by (simp add: i(2) projected_row_def)
qed

text \<open>C13: The completeness check is exact. The three aggregates the server looks at (the number of
  accepted chunks and the least and greatest index) decide whether every negotiated chunk of every
  artifact has been accepted.\<close>

theorem upload_completeness_exact:
  assumes "trusted srv U" "archive_reachable srv U s" "u \<in> set (db_uploads (db s))"
    and "upload_is_complete (up_id u) (db s) = Inr complete"
  shows "complete \<longleftrightarrow> (\<forall>a \<in> set (artifacts_for (db s) (up_id u)). \<forall>k. 0 \<le> k \<and> k < ua_chunk_count a \<longrightarrow>
    (\<exists>r \<in> set (db_upload_chunks (db s)). chunk_key_of r = (up_id u, ua_artifact_index a, k)))"
proof -
  have ok: "upload_ok (ext srv) u (manifests_for (db s) (up_id u)) (artifacts_for (db s) (up_id u))
      (chunks_for (db s) (up_id u)) (chunk_file (fs s) (up_id u))"
    using upload_invD(5) [OF reachable_sound(2) [OF assms(1,2)] assms(3)]
    by (simp add: upload_detail_ok_def)
  have one: "artifact_is_complete (ua_chunk_count a)
        (map uc_chunk_index (chunk_rows (db s) (up_id u) (ua_artifact_index a)))
      \<longleftrightarrow> (\<forall>k. 0 \<le> k \<and> k < ua_chunk_count a \<longrightarrow>
            (\<exists>r \<in> set (db_upload_chunks (db s)). chunk_key_of r = (up_id u, ua_artifact_index a, k)))"
    if a: "a \<in> set (artifacts_for (db s) (up_id u))" for a
  proof -
    let ?rows = "chunk_rows (db s) (up_id u) (ua_artifact_index a)"
    note rows = chunk_rows_of_upload [OF ok a]
    have "k \<in> uc_chunk_index ` set ?rows \<longleftrightarrow>
        (\<exists>r \<in> set (db_upload_chunks (db s)). chunk_key_of r = (up_id u, ua_artifact_index a, k))" for k
      by (auto simp: chunk_rows_def chunk_key_of_def image_iff)
    moreover have "artifact_is_complete (ua_chunk_count a) (map uc_chunk_index ?rows)
        \<longleftrightarrow> {0..<ua_chunk_count a} \<subseteq> uc_chunk_index ` set ?rows"
      using artifact_is_complete_iff [OF rows(1) _ rows(3)] rows(2) by auto
    ultimately show ?thesis by (auto simp: subset_iff)
  qed
  have "complete \<longleftrightarrow> (\<forall>a \<in> set (artifacts_for (db s) (up_id u)). artifact_is_complete (ua_chunk_count a)
      (map uc_chunk_index (chunk_rows (db s) (up_id u) (ua_artifact_index a))))"
    using assms(4)
    by (auto simp: upload_is_complete_def Let_def get_upload_artifacts_def artifacts_for_def
        list_all_iff split: if_splits)
  with one show ?thesis by simp
qed

lemma flow_uploaded_complete:
  "map (\<lambda>a. (ua_upload_id a, ua_artifact_index a, ua_chunk_count a)) (db_upload_artifacts (db flow_uploaded))
     = [(''1-upload'', 0, 2)]"
  "upload_is_complete ''1-upload'' (db flow_uploaded) = Inr True"
  by code_simp+

theorem upload_completeness_exact_witness:
  "\<exists>r. r \<in> set (db_upload_chunks (db flow_uploaded)) \<and> chunk_key_of r = (''1-upload'', 0, 1)"
proof -
  obtain u where u: "u \<in> set (db_uploads (db flow_uploaded))" "up_id u = ''1-upload''"
    by (rule flow_rows)
  obtain a where a: "a \<in> set (db_upload_artifacts (db flow_uploaded))"
    "(ua_upload_id a, ua_artifact_index a, ua_chunk_count a) = (''1-upload'', 0, 2)"
    by (rule mapped_member [OF flow_uploaded_complete(1)]) auto
  have "upload_is_complete (up_id u) (db flow_uploaded) = Inr True"
    using u(2) flow_uploaded_complete(2) by simp
  note exact = upload_completeness_exact [OF flow_trusted flow_reachable(1) u(1) this]
  have "a \<in> set (artifacts_for (db flow_uploaded) (up_id u))"
    using a u(2) by (simp add: artifacts_for_def)
  with exact a(2) have "\<exists>r \<in> set (db_upload_chunks (db flow_uploaded)).
      chunk_key_of r = (up_id u, ua_artifact_index a, 1)"
    by (metis one_less_numeral_iff prod.inject semiring_norm(76) zero_le_one)
  with a(2) u(2) show ?thesis by auto
qed

text \<open>A deletion must be confirmed for this very snapshot: the confirmation is accepted exactly
  when the header or the body carries it (both agreeing when both are there) and it spells the
  identifier and the fingerprint of the snapshot.\<close>

theorem deletion_confirmation_exact:
  "confirm_snapshot_deletion header body sid fingerprint = Inr () \<longleftrightarrow>
     (header = Some (Text (expected_confirmation sid fingerprint))
        \<and> (body = None \<or> body = Some (expected_confirmation sid fingerprint)))
     \<or> (header = None \<and> body = Some (expected_confirmation sid fingerprint))"
  by (cases header; cases body; (cases "the header")?)
    (auto simp: confirm_snapshot_deletion_def and_then_eq_Inr reject_if_eq_Inr ok_or_eq_Inr)

section \<open>The collector\<close>

definition collected_ok :: "int \<Rightarrow> database \<Rightarrow> database \<Rightarrow> bool" where
  "collected_ok k d d' =
     (db_artifacts d' = db_artifacts d \<and> db_snapshots d' = db_snapshots d
       \<and> (\<forall>c \<in> set (db_blobs d'). gc_eligible k c \<longrightarrow> c \<in> set (db_blobs d))
       \<and> (\<forall>b \<in> set (db_blobs d). bl_id b \<in> bl_id ` set (db_blobs d')
            \<or> (\<not> has_live_reference d (bl_id b)
                \<and> (\<exists>c \<in> set (db_blobs d). bl_id c = bl_id b \<and> gc_eligible k c))))"

lemma has_live_reference_cong:
  "db_artifacts d' = db_artifacts d \<Longrightarrow> db_snapshots d' = db_snapshots d \<Longrightarrow>
     has_live_reference d' b = has_live_reference d b"
  by (simp add: has_live_reference_def)

lemma collect_candidate_ok:
  assumes "collected_ok k d (db s)"
  shows "collected_ok k d (db (snd (collect_candidate e k c s)))"
proof -
  note ok = assms [unfolded collected_ok_def]
  have ref: "has_live_reference (db s) b = has_live_reference d b" for b
    using ok by (intro has_live_reference_cong) blast+
  have clear: "collected_ok k d (clear_candidate i (db s))" for i
  proof -
    have "bl_id ` set (db_blobs (clear_candidate i (db s))) = bl_id ` set (db_blobs (db s))"
      unfolding set_map [symmetric] by (simp add: clear_candidate_def map_update_where)
    moreover have "x \<in> set (db_blobs (db s))"
      if "x \<in> set (db_blobs (clear_candidate i (db s)))" "gc_eligible k x" for x
      using that by (auto simp: clear_candidate_def set_update_where gc_eligible_def)
    ultimately show ?thesis
      using ok unfolding collected_ok_def by (simp add: clear_candidate_def)
  qed
  have gone: "collected_ok k d ((db s)\<lparr>db_blobs := delete_where (\<lambda>b. bl_id b = bl_id c) (db_blobs (db s))\<rparr>)"
    if eligible: "list_ex (\<lambda>b. bl_id b = bl_id c \<and> gc_eligible k b) (db_blobs (db s))"
      and free: "\<not> has_live_reference (db s) (bl_id c)"
  proof -
    obtain x where x: "x \<in> set (db_blobs d)" "bl_id x = bl_id c" "gc_eligible k x"
      using eligible ok by (auto simp: list_ex_iff)
    have "bl_id b \<in> bl_id ` {b \<in> set (db_blobs (db s)). bl_id b \<noteq> bl_id c}
        \<or> (\<not> has_live_reference d (bl_id b) \<and> (\<exists>c \<in> set (db_blobs d). bl_id c = bl_id b \<and> gc_eligible k c))"
      if b: "b \<in> set (db_blobs d)" for b
    proof (cases "bl_id b = bl_id c")
      case True
      with x free ref show ?thesis by metis
    next
      case False
      with b ok show ?thesis by auto
    qed
    with ok show ?thesis unfolding collected_ok_def by simp
  qed
  show ?thesis
    using assms clear gone by (simp add: collect_candidate_def Let_def)
qed

lemma collect_each_ok:
  "collected_ok k d (db s) \<Longrightarrow> collected_ok k d (db (snd (collect_each e k cs n s)))"
proof (induction cs arbitrary: n s)
  case (Cons c cs)
  obtain r t where run: "collect_candidate e k c s = (r, t)" by fastforce
  from collect_candidate_ok [OF Cons.prems, of e c] have "collected_ok k d (db t)" by (simp add: run)
  with Cons.IH run show ?case by (auto split: sum.splits)
qed simp

lemma run_blob_gc_cases:
  "db (snd (run_blob_gc srv e s)) = db s
     \<or> (\<exists>k. sort_key_from_timestamp (now e) = Some k \<and> collected_ok k (db s) (db (snd (run_blob_gc srv e s))))"
proof (cases "sort_key_from_timestamp (now e)")
  case None
  then have "snd (collect_orphaned_blobs_at e (now e) s) = s"
    by (simp add: collect_orphaned_blobs_at_def)
  then show ?thesis
    by (auto simp: run_blob_gc_def try_op_def pure_op_def split: sum.splits prod.splits)
next
  case (Some k)
  have "collected_ok k (db s) (db s)" by (simp add: collected_ok_def)
  from collect_each_ok [OF this, of e "gc_candidates k (db s)" 0]
  have "collected_ok k (db s) (db (snd (collect_orphaned_blobs_at e (now e) s)))"
    by (auto simp: collect_orphaned_blobs_at_def Some Let_def split: prod.splits sum.splits)
  with Some show ?thesis
    by (auto simp: run_blob_gc_def try_op_def pure_op_def split: sum.splits prod.splits)
qed

text \<open>C14: The collector removes nothing that is in use. A blob row that a collection removes had no
  live artifact referring to it, and its grace period had ended by the numeric clock.\<close>

theorem gc_removes_only_orphans:
  assumes "b \<in> set (db_blobs (db s))" "bl_id b \<notin> bl_id ` set (db_blobs (db (snd (run_blob_gc srv e s))))"
  shows "\<not> has_live_reference (db s) (bl_id b)
     \<and> (\<exists>k c. sort_key_from_timestamp (now e) = Some k \<and> c \<in> set (db_blobs (db s))
              \<and> bl_id c = bl_id b \<and> gc_eligible k c)"
proof -
  from run_blob_gc_cases [of srv e s] assms obtain k where k: "sort_key_from_timestamp (now e) = Some k"
    "collected_ok k (db s) (db (snd (run_blob_gc srv e s)))"
    by auto
  from k(2) assms have "\<not> has_live_reference (db s) (bl_id b)
      \<and> (\<exists>c \<in> set (db_blobs (db s)). bl_id c = bl_id b \<and> gc_eligible k c)"
    unfolding collected_ok_def by blast
  with k(1) show ?thesis by blast
qed

theorem gc_removes_only_orphans_witness:
  "\<not> has_live_reference (db flow_deleted) ''1-blob-''"
proof -
  have "map bl_id (db_blobs (db flow_deleted)) = [''1-blob-'']"
    using flow_deleted_summary by (simp add: flow_summary_def)
  then obtain b where b: "b \<in> set (db_blobs (db flow_deleted))" "bl_id b = ''1-blob-''"
    by (rule mapped_member) auto
  have "map bl_id (db_blobs (db flow_collected)) = []"
    using flow_collected_summary by (simp only: flow_summary_def prod.inject)
  then have "bl_id b \<notin> bl_id ` set (db_blobs (db (snd (run_blob_gc flow_server day_2 flow_deleted))))"
    by (simp add: flow_collected_def)
  from gc_removes_only_orphans [OF b(1) this] b(2) show ?thesis by simp
qed

section \<open>Repeated deletion\<close>

lemma marked_deletion_row:
  assumes "snapshot_deletion_row sid d = Some (live, m)"
  shows "snapshot_deletion_row sid (rebuild_session_latest_context i (schedule_all dt blobs
      (with_deletion live at t a d))) = Some (if sn_deleted_at live = None then live\<lparr>sn_deleted_at := Some at\<rparr> else live, m)"
proof -
  let ?p = "\<lambda>s. sn_id s = sn_id live \<and> sn_deleted_at s = None"
  let ?f = "\<lambda>s. s\<lparr>sn_deleted_at := Some at\<rparr>"
  have find: "find (\<lambda>s. sn_id s = sid) (update_where ?p ?f xs)
      = map_option (\<lambda>s. if ?p s then ?f s else s) (find (\<lambda>s. sn_id s = sid) xs)" for xs
    by (induction xs) (auto simp: update_where_def)
  from assms have live: "find (\<lambda>s. sn_id s = sid) (db_snapshots d) = Some live"
    "manifest_by_id d (sn_manifest_id live) = Some m"
    by (auto simp: snapshot_deletion_row_def split: option.splits)
  show ?thesis
    using live
    by (simp add: snapshot_deletion_row_def rebuild_session_latest_context_def schedule_all_other_tables
        with_deletion_def find manifest_by_id_def)
qed

lemma check_deletion_Inr:
  "check_deletion sid header body d = Inr row \<longleftrightarrow> (\<exists>m. snapshot_deletion_row sid d = Some (row, m)
     \<and> confirm_snapshot_deletion header body (sn_id row) (sn_fingerprint_sha256 row) = Inr ())"
  by (auto simp: check_deletion_def and_then_eq_Inr ok_or_eq_Inr)

text \<open>A deletion may be repeated. Sending a successful deletion again, whenever and with whatever
  faults, gives the same tombstone document and changes nothing.\<close>

theorem delete_snapshot_repeatable:
  assumes "delete_snapshot srv e path header payload s = (Inr response, t)"
  shows "delete_snapshot srv e' path header payload t = (Inr response, t)"
proof -
  let ?body = "Option.bind payload ds_confirmation"
  obtain sid reason row where
    guards: "require_admin_enabled srv = Inr ()"
      "parse_uuid (ext srv) path ''snapshot identifier is not a UUID'' = Inr sid"
      "deletion_reason payload = Inr reason"
    and row: "Inr row = check_deletion sid header ?body (db s)"
    using assms by (auto simp: delete_snapshot_def try_op_Inr bind_op_Inr query_eq Let_def)
  note row = row [symmetric]
  have again: "delete_snapshot srv e' path header payload t = (Inr response, t)"
    if "check_deletion sid header ?body (db t) = Inr row'" "sn_deleted_at row' \<noteq> None"
      "tombstone_response_of srv sid (db t) = Inr response" for row'
    using guards that by (auto simp: delete_snapshot_def bind_op_def query_def Let_def)
  show ?thesis
  proof (cases "sn_deleted_at row = None")
    case False
    with assms guards row have "t = s" "tombstone_response_of srv sid (db s) = Inr response"
      by (auto simp: delete_snapshot_def bind_op_def query_def Let_def)
    with again row False show ?thesis by simp
  next
    case True
    with assms guards row obtain dt v d where
      ok: "delete_snapshot_transaction e dt reason sid (db s) = Inr (v, d)" and t: "t = s\<lparr>db := d\<rparr>"
      and response: "tombstone_response_of srv sid d = Inr response"
      by (auto simp: delete_snapshot_def try_op_Inr bind_op_Inr query_eq transact_Inr Let_def)
    from row obtain m where live: "snapshot_deletion_row sid (db s) = Some (row, m)"
      "confirm_snapshot_deletion header ?body (sn_id row) (sn_fingerprint_sha256 row) = Inr ()"
      by (auto simp: check_deletion_Inr)
    from ok live True have "d = rebuild_session_latest_context (sn_session_id row) (schedule_all dt
        (artifact_blobs sid (db s)) (with_deletion row (dt_deleted_at dt)
          (tombstone_row_of e dt reason row m) (deletion_audit_of e dt reason row m) (db s)))"
      by (auto simp: delete_snapshot_transaction_def and_then_eq_Inr commit_eq_Inr insert_row_eq_Inr
          Let_def with_deletion_def)
    with marked_deletion_row [OF live(1)] True
    have "snapshot_deletion_row sid d = Some (row\<lparr>sn_deleted_at := Some (dt_deleted_at dt)\<rparr>, m)" by simp
    with live(2) have "check_deletion sid header ?body d = Inr (row\<lparr>sn_deleted_at := Some (dt_deleted_at dt)\<rparr>)"
      by (simp add: check_deletion_Inr)
    with response t show ?thesis
      by (intro again [of "row\<lparr>sn_deleted_at := Some (dt_deleted_at dt)\<rparr>"]) simp_all
  qed
qed

definition flow_confirmation :: header_value where
  "flow_confirmation = Text (expected_confirmation ''1-snapshot''
     (sha256_hex flow_externals (string_bytes ''f'')))"

lemma flow_delete_ok:
  "is_ok (fst (delete_snapshot flow_server day_1 ''1-snapshot'' (Some flow_confirmation) None flow_completed))"
  by code_simp

theorem delete_snapshot_repeatable_witness:
  "\<exists>response. delete_snapshot flow_server day_2 ''1-snapshot'' (Some flow_confirmation) None flow_deleted
     = (Inr response, flow_deleted)"
proof -
  let ?run = "delete_snapshot flow_server day_1 ''1-snapshot'' (Some flow_confirmation) None flow_completed"
  obtain response where "fst ?run = Inr response" using flow_delete_ok by (cases "fst ?run") auto
  moreover have "snd ?run = flow_deleted"
    by (simp add: flow_deleted_def flow_delete_def flow_confirmation_def)
  ultimately have "?run = (Inr response, flow_deleted)" by (simp add: prod_eq_iff)
  from delete_snapshot_repeatable [OF this] show ?thesis by blast
qed

section \<open>Repeated chunks\<close>

lemma refresh_upload_find:
  assumes ok: "refresh_upload_status e u d = Inr (v, d')" and u: "get_active_upload d (up_id u) = Some u"
    and active: "up_status u \<noteq> ''completed''"
  obtains st where "get_active_upload d' (up_id u) = Some (u\<lparr>up_status := st\<rparr>)" "st \<noteq> ''completed''"
    "d' = d\<lparr>db_uploads := db_uploads d'\<rparr>"
proof -
  obtain complete where "d' = d\<lparr>db_uploads := update_where
      (\<lambda>r. up_id r = up_id u \<and> (up_status r = ''created'' \<or> up_status r = ''artifact_uploaded''))
      (\<lambda>r. r\<lparr>up_status := if complete then ''artifact_uploaded'' else ''created''\<rparr>) (db_uploads d)\<rparr>"
    using ok unfolding refresh_upload_status_def and_then_eq_Inr commit_eq_Inr by blast
  note d = this
  define st where "st = (if complete then ''artifact_uploaded'' else ''created'')"
  from d have d': "d' = d\<lparr>db_uploads := update_where
      (\<lambda>r. up_id r = up_id u \<and> (up_status r = ''created'' \<or> up_status r = ''artifact_uploaded''))
      (\<lambda>r. r\<lparr>up_status := st\<rparr>) (db_uploads d)\<rparr>" unfolding st_def .
  have st: "st \<noteq> ''completed''" by (simp add: st_def)
  have find: "find (\<lambda>r. up_id r = i) (update_where p (\<lambda>r. r\<lparr>up_status := st\<rparr>) xs)
      = map_option (\<lambda>r. if p r then r\<lparr>up_status := st\<rparr> else r) (find (\<lambda>r. up_id r = i) xs)" for i p xs
    by (induction xs) (auto simp: update_where_def)
  have found: "get_active_upload d' (up_id u) = Some (u\<lparr>up_status := if up_status u = ''created''
      \<or> up_status u = ''artifact_uploaded'' then st else up_status u\<rparr>)"
    using u by (simp add: get_active_upload_def d' find)
  show thesis
    by (rule that [OF found]) (use st active in \<open>simp_all add: d'\<close>)
qed

lemma accept_new_chunk_effect:
  assumes run: "accept_new_chunk srv e u a ai ci body rq s = (Inr n, t)"
    and fresh: "get_chunk (db s) (up_id u) ai ci = Inr None"
    and u: "get_active_upload (db s) (up_id u) = Some u" "up_status u \<noteq> ''completed''"
  obtains st row where "n = 204" "get_active_upload (db t) (up_id u) = Some (u\<lparr>up_status := st\<rparr>)"
    "st \<noteq> ''completed''" "db_upload_artifacts (db t) = db_upload_artifacts (db s)"
    "get_chunk (db t) (up_id u) ai ci = Inr (Some row)"
    "to_sqlite_i64 (rq_byte_length rq) = Inr (uc_byte_length row)"
    "uc_sha256 row = digest_storage_value (rq_sha256 rq)"
    "holds_chunk (ext srv) rq (chunk_file (fs t) (up_id u) ai ci)"
proof -
  from run obtain w s1 now_text d1 d2 x1 x2 where
    store: "store_chunk_file srv e (up_id u) ai ci body rq s = (Inr w, s1)"
    and persist: "persist_chunk_record e u ai ci (rq_byte_length rq) (rq_sha256 rq) now_text (db s1)
      = Inr (x1, d1)"
    and refresh: "refresh_upload_status e u d1 = Inr (x2, d2)"
    and t: "n = 204" "t = s1\<lparr>db := d2\<rparr>"
    by (auto simp: accept_new_chunk_def try_op_Inr bind_op_Inr transact_Inr pure_op_eq)
  have ci: "to_sqlite_i64 ci = Inr (int ci)" "to_sqlite_i64 (rq_byte_length rq) = Inr (int (rq_byte_length rq))"
    and size: "rq_byte_length rq \<le> u64_max"
    using persist by (auto simp: persist_chunk_record_def and_then_eq_Inr to_sqlite_i64_ok
        i64_max_def u64_max_def split: option.splits if_splits)
  note stored = store_chunk_file_effect(1,3) [OF store size]
  let ?row = "chunk_row_of u ai ci (rq_byte_length rq) (rq_sha256 rq) now_text"
  have key: "chunk_key_of ?row = (up_id u, int ai, int ci)"
    by (simp add: chunk_key_of_def chunk_row_of_def)
  from persist stored(1) have d1: "d1 = (db s)\<lparr>db_upload_chunks := db_upload_chunks (db s) @ [?row]\<rparr>"
    using get_chunk_none [OF fresh] key by (elim persist_chunk_record_ok) (auto simp: Let_def)
  have "get_active_upload d1 (up_id u) = Some u" using u(1) by (simp add: d1 get_active_upload_def)
  from refresh_upload_find [OF refresh this u(2)] obtain st where
    st: "get_active_upload d2 (up_id u) = Some (u\<lparr>up_status := st\<rparr>)" "st \<noteq> ''completed''"
    and d2: "d2 = d1\<lparr>db_uploads := db_uploads d2\<rparr>" .
  have chunks: "db_upload_chunks d2 = db_upload_chunks (db s) @ [?row]"
    and arts: "db_upload_artifacts d2 = db_upload_artifacts (db s)"
    by (subst d2, simp add: d1)+
  have "find (\<lambda>r. uc_upload_id r = up_id u \<and> uc_artifact_index r = int ai \<and> uc_chunk_index r = int ci)
      (db_upload_chunks (db s)) = None"
    using get_chunk_none [OF fresh] by (auto simp: find_None chunk_key_of_def)
  then have "get_chunk d2 (up_id u) ai ci = Inr (Some ?row)"
    using ci(1) by (simp add: get_chunk_def chunks find_append chunk_row_of_def)
  with st arts stored(2) ci(2) t show thesis
    by (intro that [of st ?row]) (simp_all add: chunk_row_of_def)
qed

text \<open>C15: An accepted chunk may be sent again. When a chunk request has succeeded, the same request
  with any body at the same time succeeds with 204 and changes nothing: a client that lost the
  answer repeats it safely.\<close>

theorem put_artifact_chunk_repeatable:
  assumes "put_artifact_chunk srv e p q r h body s = (Inr n, t)"
  shows "put_artifact_chunk srv e p q r h body' t = (Inr 204, t)"
proof -
  from assms obtain uid ai ci u s1 a parsed rq existing where
    guards: "parse_uuid (ext srv) p ''upload identifier is not a UUID'' = Inr uid"
      "parse_artifact_index q = Inr ai" "parse_chunk_index r = Inr ci"
      "validate_octet_stream (header_text (hd_content_type h)) = Inr ()"
    and active: "require_active_upload srv e uid s = (Inr u, s1)" "up_status u \<noteq> ''completed''"
    and a: "get_upload_artifact (db s1) uid ai = Some a"
    and rq: "parse_chunk_headers h = Inr parsed"
      "(case parsed of Some request \<Rightarrow> Inr request | None \<Rightarrow> legacy_single_chunk_request u a ai ci) = Inr rq"
    and existing: "Inr existing = get_chunk (db s1) uid ai ci"
    and rest: "(case existing of Some row \<Rightarrow> repeat_chunk srv u ai ci rq row
      | None \<Rightarrow> accept_new_chunk srv e u a ai ci body rq) s1 = (Inr n, t)"
    unfolding put_artifact_chunk_def try_op_Inr bind_op_Inr query_eq
    by (auto simp: reject_if_eq_Inr ok_or_eq_Inr eq_commute [of "Inr _" "ok_or _ _"])
  have s1: "s1 = s" by (rule require_active_same [OF active(1)])
  have find: "get_active_upload (db s) uid = Some u" using require_active_find [OF active(1)] .
  then have uid: "up_id u = uid" by (auto simp: get_active_upload_def dest: find_SomeD)
  show ?thesis
  proof (cases existing)
    case (Some row)
    from rest Some have "repeat_chunk srv u ai ci rq row t = (Inr 204, t)" "t = s"
      by (auto simp: repeat_chunk_def try_op_Inr read_op_eq pure_op_eq s1)
    with Some guards active a rq existing [symmetric] s1 show ?thesis
      by (simp add: put_artifact_chunk_def bind_op_def query_def reject_if_def)
  next
    case None
    from rest None s1 have run: "accept_new_chunk srv e u a ai ci body rq s = (Inr n, t)" by simp
    obtain st row where u: "get_active_upload (db t) uid = Some (u\<lparr>up_status := st\<rparr>)" "st \<noteq> ''completed''"
      and arts: "db_upload_artifacts (db t) = db_upload_artifacts (db s)"
      and row: "get_chunk (db t) uid ai ci = Inr (Some row)"
        "to_sqlite_i64 (rq_byte_length rq) = Inr (uc_byte_length row)"
        "uc_sha256 row = digest_storage_value (rq_sha256 rq)"
      and held: "holds_chunk (ext srv) rq (chunk_file (fs t) uid ai ci)"
      using accept_new_chunk_effect [OF run] find existing None active(2) unfolding uid s1 by metis
    have "require_active_upload srv e uid t = (Inr (u\<lparr>up_status := st\<rparr>), t)"
    proof -
      have "is_expired (ext srv) u (now e) = Inr False"
        using active find by (auto simp: require_active_upload_def bind_op_Inr try_op_Inr query_eq
            pure_op_eq s1 split: if_splits)
      then have "is_expired (ext srv) (u\<lparr>up_status := st\<rparr>) (now e) = Inr False"
        by (simp add: is_expired_def)
      with u show ?thesis by (simp add: require_active_upload_def bind_op_def query_def pure_op_def)
    qed
    moreover have "get_upload_artifact (db t) uid ai = Some a"
      using a arts by (simp add: get_upload_artifact_def s1)
    moreover have "(case parsed of Some request \<Rightarrow> Inr request
        | None \<Rightarrow> legacy_single_chunk_request (u\<lparr>up_status := st\<rparr>) a ai ci) = Inr rq"
    proof -
      have "legacy_single_chunk_request (u\<lparr>up_status := st\<rparr>) a ai ci = legacy_single_chunk_request u a ai ci"
        by (simp add: legacy_single_chunk_request_def)
      with rq(2) show ?thesis by (simp only:)
    qed
    moreover have "repeat_chunk srv (u\<lparr>up_status := st\<rparr>) ai ci rq row t = (Inr 204, t)"
    proof -
      have "rq_byte_length rq \<le> u64_max"
        using row(2) by (auto simp: to_sqlite_i64_ok i64_max_def u64_max_def)
      with held have "verify_stored_file (ext srv) (chunk_file (fs t) uid ai ci) (rq_byte_length rq)
          (rq_sha256 rq) = Inr ()"
        by (simp add: verify_stored_file_ok holds_chunk_def)
      with row uid show ?thesis
        by (simp add: repeat_chunk_def read_op_def pure_op_def reject_if_def)
    qed
    ultimately show ?thesis
      using guards rq(1) row(1) u(2) by (simp add: put_artifact_chunk_def bind_op_def query_def reject_if_def)
  qed
qed

definition flow_headers :: "bytes \<Rightarrow> string \<Rightarrow> chunk_headers" where
  "flow_headers bs len =
     \<lparr>hd_content_type = Some (Text ''application/octet-stream''),
      hd_chunk_sha256 = Some (Text (flow_hash bs)), hd_chunk_length = Some (Text len)\<rparr>"

lemma flow_put_ok:
  "is_ok (fst (put_artifact_chunk flow_server day_1 ''1-upload'' ''0'' ''0'' (flow_headers [7, 8] ''2'')
     [Data [7], Data [8]] flow_created))"
  by code_simp

theorem put_artifact_chunk_repeatable_witness:
  "\<exists>t. put_artifact_chunk flow_server day_1 ''1-upload'' ''0'' ''0'' (flow_headers [7, 8] ''2'') [] t
     = (Inr 204, t) \<and> t = snd (put_artifact_chunk flow_server day_1 ''1-upload'' ''0'' ''0''
         (flow_headers [7, 8] ''2'') [Data [7], Data [8]] flow_created)"
proof -
  let ?run = "put_artifact_chunk flow_server day_1 ''1-upload'' ''0'' ''0'' (flow_headers [7, 8] ''2'')
    [Data [7], Data [8]] flow_created"
  obtain n where "fst ?run = Inr n" using flow_put_ok by (cases "fst ?run") auto
  then have "?run = (Inr n, snd ?run)" by (simp add: prod_eq_iff)
  from put_artifact_chunk_repeatable [OF this] show ?thesis by blast
qed

section \<open>Fingerprints\<close>

lemma sort_key_sorted_map:
  "sorted (map k xs) \<Longrightarrow> (\<And>x. k' (f x) = k x) \<Longrightarrow> sort_key k' (map f xs) = map f xs"
  by (simp add: sort_key_id_if_sorted comp_def)

text \<open>The semantic identity of a snapshot. Two canonical manifests have the same fingerprint
  document exactly when they agree on the schema, the session, the stable context of the capture and,
  artifact by artifact, on path, original size and original digest. When and by which tool it was
  captured, the cursor, the state hash, the metadata, the media types, and how the bytes were compressed for
  storage do not matter.\<close>

theorem fingerprint_document_exact:
  assumes "manifest_wf x limits m" "manifest_wf x' limits' m'"
  shows "fingerprint_document_of m = fingerprint_document_of m' \<longleftrightarrow>
     schema_version m = schema_version m' \<and> session m = session m'
       \<and> project (capture m) = project (capture m') \<and> repository (capture m) = repository (capture m')
       \<and> branch (capture m) = branch (capture m')
       \<and> source_agent_version (capture m) = source_agent_version (capture m')
       \<and> artifact_set_version (capture m) = artifact_set_version (capture m')
       \<and> map (\<lambda>a. (logical_path a, original_size_bytes a, original_sha256 a)) (artifacts m)
           = map (\<lambda>a. (logical_path a, original_size_bytes a, original_sha256 a)) (artifacts m')"
proof -
  let ?triple = "\<lambda>a. (logical_path a, original_size_bytes a, original_sha256 a)"
  let ?doc = "\<lambda>(p, n, h). \<lparr>oa_logical_path = p, oa_original_size_bytes = n, oa_original_sha256 = h\<rparr>"
  have arts: "fd_artifacts (fingerprint_document_of m0) = map ?doc (map ?triple (artifacts m0))"
    if "manifest_wf y lim m0" for y lim m0
  proof -
    have "sorted (map logical_path (artifacts m0))"
      using that by (auto simp: manifest_wf_def intro: strict_sorted_imp_sorted)
    then show ?thesis
      by (simp add: fingerprint_document_of_def sort_key_sorted_map [where k = logical_path] comp_def)
  qed
  have "inj ?doc" by (auto simp: inj_on_def)
  then have "map ?doc xs = map ?doc ys \<longleftrightarrow> xs = ys" for xs ys
    by (rule inj_map_eq_map)
  with arts [OF assms(1)] arts [OF assms(2)]
  have "fd_artifacts (fingerprint_document_of m) = fd_artifacts (fingerprint_document_of m')
      \<longleftrightarrow> map ?triple (artifacts m) = map ?triple (artifacts m')"
    by (simp only:)
  then show ?thesis
    by (simp add: fingerprint_document_of_def)
qed

lemma flow_normalize:
  "normalize_manifest flow_externals flow_input sample_limits = Inr flow_manifest"
  "normalize_manifest flow_externals
     (flow_input\<lparr>mi_capture := sample_capture_input\<lparr>ci_munshi_version := Some ''2''\<rparr>\<rparr>) sample_limits
     = Inr (flow_manifest\<lparr>capture := sample_capture\<lparr>munshi_version := Some ''2''\<rparr>\<rparr>)"
  by code_simp+

theorem fingerprint_document_exact_witness:
  "fingerprint_document_of flow_manifest
     = fingerprint_document_of (flow_manifest\<lparr>capture := sample_capture\<lparr>munshi_version := Some ''2''\<rparr>\<rparr>)"
  by (rule fingerprint_document_exact [OF normalize_manifest_wf [OF flow_normalize(1)]
        normalize_manifest_wf [OF flow_normalize(2)], THEN iffD2])
    (simp add: flow_manifest_def sample_capture_def)

section \<open>Expiry\<close>

definition upload_expired :: api_error where
  "upload_expired = conflict ''upload_expired'' ''upload expired before this request could be accepted''"

text \<open>C16: An expired upload is terminated by the next request that needs it, also before any sweep:
  the request answers that the upload expired, the upload and its staged files are gone, and an audit
  of it remains.\<close>

theorem expired_upload_terminated:
  assumes "get_active_upload (db s) uid = Some u" "up_status u \<noteq> ''completed''"
    and "is_expired (ext srv) u (now e) = Inr True" "\<not> upload_referenced (db s) uid"
    and "format_time (ext srv) (commit_now e) = Some at" "commit_fails e (Commit_Terminal uid) = None"
    and "\<not> io_fails e Remove_Upload_Dir"
  shows "\<exists>t. require_active_upload srv e uid s = (Inl upload_expired, t)
     \<and> get_active_upload (db t) uid = None \<and> (\<nexists>i k bs. chunk_file (fs t) uid i k = Some bs)
     \<and> uid \<in> au_upload_id ` set (db_upload_audits (db t))"
proof -
  have uid: "up_id u = uid" using assms(1) by (auto simp: get_active_upload_def dest: find_SomeD)
  let ?audits = "snd (insert_or_ignore (\<lambda>r r'. au_upload_id r = au_upload_id r')
    (upload_audit_of u Reason_Expired at) (db_upload_audits (db s)))"
  let ?t = "\<lparr>db = delete_upload_detail uid ((db s)\<lparr>db_upload_audits := ?audits\<rparr>),
    fs = remove_upload_dir uid (fs s)\<rparr>"
  have "require_active_upload srv e uid s = (Inl upload_expired, ?t)"
    using assms uid
    by (simp add: require_active_upload_def bind_op_def query_def terminalize_upload_locked_def
        transact_def terminalize_transaction_def commit_def remove_upload_dir_op_def modify_op_def
        pure_op_def upload_expired_def)
  moreover have "get_active_upload (db ?t) uid = None"
    by (simp add: get_active_upload_def find_None delete_upload_detail_def)
  moreover have "uid \<in> au_upload_id ` set (db_upload_audits (db ?t))"
    using uid by (auto simp: delete_upload_detail_def insert_or_ignore_def upload_audit_of_def
        list_ex_iff)
  ultimately show ?thesis by (intro exI [of _ ?t]) simp
qed

lemma flow_expired:
  "(case get_active_upload (db flow_created) ''1-upload'' of None \<Rightarrow> False
    | Some u \<Rightarrow> up_status u \<noteq> ''completed'' \<and> is_expired flow_externals u (now day_2) = Inr True
        \<and> \<not> upload_referenced (db flow_created) ''1-upload''
        \<and> format_time flow_externals (commit_now day_2) = Some ''2026-01-02T00:00:00Z'')"
  by code_simp

theorem expired_upload_terminated_witness:
  "fst (require_active_upload flow_server day_2 ''1-upload'' flow_created) = Inl upload_expired"
proof -
  obtain u where u: "get_active_upload (db flow_created) ''1-upload'' = Some u"
    "up_status u \<noteq> ''completed''" "is_expired (ext flow_server) u (now day_2) = Inr True"
    "\<not> upload_referenced (db flow_created) ''1-upload''"
    "format_time (ext flow_server) (commit_now day_2) = Some ''2026-01-02T00:00:00Z''"
    using flow_expired by (auto simp: flow_server_def split: option.splits)
  have "commit_fails day_2 (Commit_Terminal ''1-upload'') = None" "\<not> io_fails day_2 Remove_Upload_Dir" by (simp_all add: flow_env_def)
  from expired_upload_terminated [OF u this] show ?thesis by auto
qed

end
