(* ===== verification/Contents_Invariant.thy ===== *)
theory Contents_Invariant
  imports History_Invariant
begin

text \<open>
  The contents invariant: a live snapshot is what its canonical manifest says. The manifest row is
  there and its hash is right, it decodes, the counts and totals of the snapshot are those of the
  manifest, and the artifact rows are its artifacts, in order, each with a blob row of the declared
  digest, size and compression. The proof for a completion goes through the locale
  \<open>completion_contract\<close>: an invariant of the database that both recording transactions keep is kept
  by the whole request.
\<close>

section \<open>The invariant\<close>

definition describes :: "blob_row list \<Rightarrow> artifact_row \<Rightarrow> nat \<times> artifact \<Rightarrow> bool" where
  "describes blobs r = (\<lambda>(i, a).
     ar_artifact_index r = int i \<and> ar_logical_path r = logical_path a \<and> ar_media_type r = media_type a
     \<and> ar_original_size_bytes r = int (original_size_bytes a) \<and> original_size_bytes a \<le> i64_max
     \<and> ar_original_sha256 r = digest_storage_value (original_sha256 a)
     \<and> stored_size_bytes a \<le> i64_max
     \<and> (\<exists>b \<in> set blobs. bl_id b = ar_blob_id r \<and> bl_stored_sha256 b = stored_digest a
           \<and> bl_stored_size_bytes b = int (stored_size_bytes a)
           \<and> bl_compression b = compression_name (compression a)))"

definition rows_of_snapshot :: "database \<Rightarrow> string \<Rightarrow> artifact_row list" where
  "rows_of_snapshot d sid = filter (\<lambda>a. ar_snapshot_id a = sid) (db_artifacts d)"

text \<open>The row of an intact manifest: it decodes to a well-formed manifest and hashes to its digest.\<close>

definition manifest_row_ok :: "externals \<Rightarrow> manifest_row \<Rightarrow> manifest \<Rightarrow> bool" where
  "manifest_row_ok x mf m =
     (manifest_from_json x (mf_canonical_json mf) = Some m
      \<and> sha256_hex x (string_bytes (mf_canonical_json mf)) = mf_sha256 mf
      \<and> (\<exists>limits. manifest_wf x limits m))"

definition snapshot_contents ::
  "externals \<Rightarrow> manifest_row list \<Rightarrow> blob_row list \<Rightarrow> artifact_row list \<Rightarrow> snapshot_row \<Rightarrow> bool" where
  "snapshot_contents x manifests blobs rows s =
     (\<exists>mf m original stored. mf \<in> set manifests \<and> mf_id mf = sn_manifest_id s
        \<and> manifest_row_ok x mf m
        \<and> sn_artifact_count s = int (length (artifacts m)) \<and> length (artifacts m) \<le> i64_max
        \<and> manifest_totals m = Inr (original, stored)
        \<and> sn_total_original_size_bytes s = int original \<and> original \<le> i64_max
        \<and> sn_total_stored_size_bytes s = int stored \<and> stored \<le> i64_max
        \<and> list_all2 (describes blobs) rows (enumerate 0 (artifacts m)))"

definition contents_inv :: "externals \<Rightarrow> database \<Rightarrow> bool" where
  "contents_inv x d =
     (distinct (map mf_id (db_manifests d))
      \<and> ar_snapshot_id ` set (db_artifacts d) \<subseteq> sn_id ` set (db_snapshots d)
      \<and> (\<forall>s \<in> set (db_snapshots d). sn_deleted_at s = None \<longrightarrow>
           snapshot_contents x (db_manifests d) (db_blobs d) (rows_of_snapshot d (sn_id s)) s))"

lemma contents_invD:
  assumes "contents_inv x d"
  shows "distinct (map mf_id (db_manifests d))"
    and "a \<in> set (db_artifacts d) \<Longrightarrow> ar_snapshot_id a \<in> sn_id ` set (db_snapshots d)"
    and "s \<in> set (db_snapshots d) \<Longrightarrow> sn_deleted_at s = None \<Longrightarrow>
      snapshot_contents x (db_manifests d) (db_blobs d) (rows_of_snapshot d (sn_id s)) s"
  using assms by (auto simp: contents_inv_def)

text \<open>What it depends on.\<close>

definition contents_view ::
  "database \<Rightarrow> manifest_row list \<times> blob_row list \<times> artifact_row list \<times> snapshot_row list" where
  "contents_view d = (db_manifests d, db_blobs d, db_artifacts d, db_snapshots d)"

lemma contents_inv_view: "contents_view d = contents_view d' \<Longrightarrow> contents_inv x d = contents_inv x d'"
  by (simp add: contents_view_def contents_inv_def rows_of_snapshot_def)

abbreviation keeps_contents_view :: "(archive, 'a) op \<Rightarrow> bool" where
  "keeps_contents_view m \<equiv> (\<forall>v. preserves (\<lambda>s. contents_view (db s) = v) m)"

lemma keeps_contents_view_inv: "keeps_contents_view m \<Longrightarrow> preserves (\<lambda>s. contents_inv x (db s)) m"
  unfolding preserves_def using contents_inv_view by metis

text \<open>A snapshot keeps its contents when its manifest row stays and every blob row one of its
  artifacts refers to stays in its immutable columns.\<close>

lemma describes_mono:
  assumes "describes blobs r ia"
    and "\<And>b. b \<in> set blobs \<Longrightarrow> bl_id b = ar_blob_id r \<Longrightarrow> \<exists>b' \<in> set blobs'. same_blob b b'"
  shows "describes blobs' r ia"
  using assms unfolding describes_def same_blob_def by (auto split: prod.splits) metis

lemma snapshot_contents_mono:
  assumes "snapshot_contents x manifests blobs rows s"
    and "\<And>mf. mf \<in> set manifests \<Longrightarrow> mf_id mf = sn_manifest_id s \<Longrightarrow> mf \<in> set manifests'"
    and "\<And>r b. r \<in> set rows \<Longrightarrow> b \<in> set blobs \<Longrightarrow> bl_id b = ar_blob_id r \<Longrightarrow> \<exists>b' \<in> set blobs'. same_blob b b'"
  shows "snapshot_contents x manifests' blobs' rows s"
proof -
  have mono: "list_all2 (describes blobs') rows xs" if "list_all2 (describes blobs) rows xs" for xs
    unfolding list_all2_conv_all_nth
  proof (intro conjI allI impI)
    fix i assume i: "i < length rows"
    then have "describes blobs (rows ! i) (xs ! i)" using that by (simp add: list_all2_conv_all_nth)
    then show "describes blobs' (rows ! i) (xs ! i)"
      by (rule describes_mono) (rule assms(3) [OF nth_mem [OF i]])
  qed (use that in \<open>simp add: list_all2_lengthD\<close>)
  then show ?thesis
    using assms(1,2) unfolding snapshot_contents_def by (fast intro: mono)
qed

lemma contents_change:
  assumes inv: "contents_inv x d" and ids: "distinct (map mf_id (db_manifests d'))"
    and live: "\<And>s. s \<in> set (db_snapshots d') \<Longrightarrow> sn_deleted_at s = None \<Longrightarrow>
      s \<in> set (db_snapshots d) \<and> rows_of_snapshot d' (sn_id s) = rows_of_snapshot d (sn_id s)
        \<and> (\<forall>mf \<in> set (db_manifests d). mf_id mf = sn_manifest_id s \<longrightarrow> mf \<in> set (db_manifests d'))
        \<and> (\<forall>r \<in> set (rows_of_snapshot d (sn_id s)). \<forall>b \<in> set (db_blobs d). bl_id b = ar_blob_id r \<longrightarrow>
             (\<exists>b' \<in> set (db_blobs d'). same_blob b b'))"
    and fk: "ar_snapshot_id ` set (db_artifacts d') \<subseteq> sn_id ` set (db_snapshots d')"
  shows "contents_inv x d'"
  unfolding contents_inv_def
proof (intro conjI ids fk ballI impI)
  fix s assume s: "s \<in> set (db_snapshots d')" "sn_deleted_at s = None"
  note kept = live [OF s]
  have "snapshot_contents x (db_manifests d) (db_blobs d) (rows_of_snapshot d (sn_id s)) s"
    using contents_invD(3) [OF inv] kept s(2) by blast
  then show "snapshot_contents x (db_manifests d') (db_blobs d') (rows_of_snapshot d' (sn_id s)) s"
    using kept by (auto intro: snapshot_contents_mono)
qed

section \<open>Uploads and chunks\<close>

lemma terminalize_contents:
  "preserves (\<lambda>s. contents_inv x (db s)) (terminalize_upload_locked srv e upload reason)"
proof -
  have "contents_inv x d'" if inv: "contents_inv x d"
    and ok: "terminalize_transaction e upload reason at d = Inr (b, d')" for d d' b at
  proof (cases "d' = d")
    case False
    with ok obtain audits where unref: "\<not> upload_referenced d (up_id upload)"
      and d': "d' = delete_upload_detail (up_id upload) (d\<lparr>db_upload_audits := audits\<rparr>)"
      by (auto simp: terminalize_transaction_def commit_eq_Inr split: option.splits if_splits)
    show ?thesis
    proof (rule contents_change [OF inv])
      fix s assume s: "s \<in> set (db_snapshots d')" "sn_deleted_at s = None"
      then have sn: "s \<in> set (db_snapshots d)" by (simp add: d' delete_upload_detail_def)
      have "mf \<in> set (db_manifests d')" if "mf \<in> set (db_manifests d)" "mf_id mf = sn_manifest_id s" for mf
      proof -
        have "\<exists>s \<in> set (db_snapshots d). sn_manifest_id s = mf_id mf" using sn that(2) by auto
        then have "mf_upload_id mf \<noteq> up_id upload"
          using unref that(1) unfolding upload_referenced_def list_ex_iff by blast
        with that(1) show ?thesis by (simp add: d' delete_upload_detail_def)
      qed
      with sn show "s \<in> set (db_snapshots d) \<and> rows_of_snapshot d' (sn_id s) = rows_of_snapshot d (sn_id s)
        \<and> (\<forall>mf \<in> set (db_manifests d). mf_id mf = sn_manifest_id s \<longrightarrow> mf \<in> set (db_manifests d'))
        \<and> (\<forall>r \<in> set (rows_of_snapshot d (sn_id s)). \<forall>b \<in> set (db_blobs d). bl_id b = ar_blob_id r \<longrightarrow>
             (\<exists>b' \<in> set (db_blobs d'). same_blob b b'))"
        by (auto simp: d' delete_upload_detail_def rows_of_snapshot_def intro: same_blob_refl)
    qed (use contents_invD(1,2) [OF inv] in
        \<open>auto simp: d' delete_upload_detail_def distinct_map_delete_where\<close>)
  qed (use inv in simp)
  then show ?thesis
    unfolding terminalize_upload_locked_def remove_upload_dir_op_def
    by (intro preserves_intros) auto
qed

lemma require_active_contents:
  "preserves (\<lambda>s. contents_inv x (db s)) (require_active_upload srv e uid)"
  unfolding require_active_upload_def by (intro preserves_intros terminalize_contents)

lemma get_upload_status_contents:
  "preserves (\<lambda>s. contents_inv x (db s)) (get_upload_status srv e path)"
  unfolding get_upload_status_def by (intro preserves_intros terminalize_contents)

lemma abandon_upload_contents: "preserves (\<lambda>s. contents_inv x (db s)) (abandon_upload srv e path)"
  unfolding abandon_upload_def by (intro preserves_intros terminalize_contents)

lemma expire_uploads_contents: "preserves (\<lambda>s. contents_inv x (db s)) (expire_uploads_op srv e t)"
  by (rule expire_uploads_preserves) (rule terminalize_contents)

lemma contents_view_transact:
  assumes "\<And>d v d'. f d = Inr (v, d') \<Longrightarrow> contents_view d' = contents_view d"
  shows "preserves (\<lambda>s. contents_view (db s) = v) (transact f)"
  by (intro preserves_transact) (use assms in \<open>fastforce\<close>)

lemma register_client_contents: "keeps_contents_view (register_client srv e path payload)"
  unfolding register_client_def
  by (intro allI preserves_intros contents_view_transact) (auto simp: commit_eq_Inr contents_view_def)

lemma accept_new_chunk_contents:
  "keeps_contents_view (accept_new_chunk srv e u a ai ci body request)"
proof -
  have persist: "contents_view d' = contents_view d"
    if "persist_chunk_record e u ai ci len sha at d = Inr (v, d')" for d d' v len sha at
    by (subst persist_chunk_record_tables [OF that]) (simp add: contents_view_def)
  have refresh: "contents_view d' = contents_view d" if "refresh_upload_status e u d = Inr (v, d')" for d d' v
    using that by (auto simp: refresh_upload_status_def and_then_eq_Inr commit_eq_Inr contents_view_def)
  show ?thesis
    unfolding accept_new_chunk_def store_chunk_file_def
    by (intro allI preserves_intros contents_view_transact) (auto dest: persist refresh)
qed

lemma put_artifact_chunk_contents:
  "preserves (\<lambda>s. contents_inv x (db s)) (put_artifact_chunk srv e p q r h body)"
  unfolding put_artifact_chunk_def repeat_chunk_def
  by (intro preserves_intros require_active_contents keeps_contents_view_inv accept_new_chunk_contents)

section \<open>New uploads\<close>

lemma persist_upload_manifests:
  assumes ok: "persist_upload srv e client cid m json sha layout now_text expires d = Inr ((uid, created), d')"
    and layout: "upload_layout_of m (srv_chunk_size_bytes srv) = Inr layout"
    and ids: "distinct (map mf_id (db_manifests d))"
  shows "set (db_manifests d) \<subseteq> set (db_manifests d') \<and> distinct (map mf_id (db_manifests d'))
    \<and> db_blobs d' = db_blobs d \<and> db_artifacts d' = db_artifacts d \<and> db_snapshots d' = db_snapshots d"
proof -
  have manifests: "\<exists>new. db_manifests d2 = db_manifests d1 @ [new] \<and> mf_id new \<notin> mf_id ` set (db_manifests d1)"
    if "persist_new_upload_detail e i m json sha layout now_text d1 = Inr d2" for i d1 d2
    using that by (auto simp: persist_new_upload_detail_def and_then_eq_Inr insert_row_eq_Inr list_ex_iff)
  obtain sid d1 where session: "get_or_create_session srv e client m now_text d = Inr (sid, d1)"
    using ok by (auto simp: persist_upload_def and_then_eq_Inr)
  from get_or_create_session_effect [OF this] obtain sessions where d1: "d1 = d\<lparr>db_sessions := sessions\<rparr>"
    by blast
  have "db_manifests d' = db_manifests d \<or> (\<exists>new. db_manifests d' = db_manifests d @ [new]
      \<and> mf_id new \<notin> mf_id ` set (db_manifests d))"
  proof (cases "find (capture_matches (owner srv) client cid) (db_uploads d)")
    case (Some existing)
    with ok session show ?thesis
      by (auto simp: persist_upload_def and_then_eq_Inr commit_eq_Inr d1)
  next
    case None
    with ok session obtain i ups where
      "persist_new_upload_detail e i m json sha layout now_text (d1\<lparr>db_uploads := ups\<rparr>) = Inr d'"
      by (auto simp: persist_upload_def and_then_eq_Inr commit_eq_Inr d1)
    from manifests [OF this] show ?thesis by (simp add: d1)
  qed
  with ids persist_upload_view [OF ok] show ?thesis by auto
qed

lemma persist_upload_contents:
  assumes inv: "contents_inv x d" and layout: "upload_layout_of m (srv_chunk_size_bytes srv) = Inr layout"
    and ok: "persist_upload srv e client cid m json sha layout now_text expires d = Inr (r, d')"
  shows "contents_inv x d'"
proof -
  obtain uid created where r: "r = (uid, created)" by fastforce
  note new = persist_upload_manifests [OF ok [unfolded r] layout contents_invD(1) [OF inv]]
  show ?thesis
    by (rule contents_change [OF inv])
      (use new contents_invD(2) [OF inv] in \<open>auto simp: rows_of_snapshot_def intro: same_blob_refl\<close>)
qed

lemma create_upload_contents: "preserves (\<lambda>s. contents_inv x (db s)) (create_upload srv e payload)"
  unfolding create_upload_def Let_def
  by (intro preserves_intros expire_uploads_contents)
    (auto split: prod.splits intro!: preserves_intros intro: persist_upload_contents)

section \<open>Deletion and collection\<close>

lemma blob_table_contents:
  assumes inv: "contents_inv x d" and kept: "blob_columns_kept (db_blobs d) blobs"
  shows "contents_inv x (d\<lparr>db_blobs := blobs\<rparr>)"
  by (rule contents_change [OF inv])
    (use contents_invD(1,2) [OF inv] kept in \<open>auto simp: rows_of_snapshot_def blob_columns_kept_def\<close>)

lemma mark_deleted_contents:
  assumes inv: "contents_inv x d" and ids: "distinct (map sn_id (db_snapshots d))"
  shows "contents_inv x (d\<lparr>db_snapshots :=
      update_where (\<lambda>r. sn_id r = i \<and> sn_deleted_at r = None) (\<lambda>r. r\<lparr>sn_deleted_at := Some t\<rparr>)
        (db_snapshots d),
      db_artifacts := delete_where (\<lambda>a. ar_snapshot_id a = i) (db_artifacts d)\<rparr>)"
    (is "contents_inv x ?d")
proof (rule contents_change [OF inv])
  fix s assume s: "s \<in> set (db_snapshots ?d)" "sn_deleted_at s = None"
  then obtain r where r: "r \<in> set (db_snapshots d)"
    "s = (if sn_id r = i \<and> sn_deleted_at r = None then r\<lparr>sn_deleted_at := Some t\<rparr> else r)"
    by (auto simp: update_where_def)
  with s(2) have "s = r \<and> sn_id r \<noteq> i" by (cases "sn_id r = i \<and> sn_deleted_at r = None") simp_all
  with r(1) have "s \<in> set (db_snapshots d)" "sn_id s \<noteq> i" by simp_all
  moreover have "filter (\<lambda>a. ar_snapshot_id a = k) (delete_where (\<lambda>a. ar_snapshot_id a = i) xs)
      = filter (\<lambda>a. ar_snapshot_id a = k) xs" if "k \<noteq> i" for k xs
    using that by (induction xs) (auto simp: delete_where_def)
  ultimately show "s \<in> set (db_snapshots d) \<and> rows_of_snapshot ?d (sn_id s) = rows_of_snapshot d (sn_id s)
        \<and> (\<forall>mf \<in> set (db_manifests d). mf_id mf = sn_manifest_id s \<longrightarrow> mf \<in> set (db_manifests ?d))
        \<and> (\<forall>r \<in> set (rows_of_snapshot d (sn_id s)). \<forall>b \<in> set (db_blobs d). bl_id b = ar_blob_id r \<longrightarrow>
             (\<exists>b' \<in> set (db_blobs ?d). same_blob b b'))"
    by (auto simp: rows_of_snapshot_def intro: same_blob_refl)
next
  have "sn_id ` set (db_snapshots ?d) = sn_id ` set (db_snapshots d)"
    unfolding set_map [symmetric] by (simp add: map_update_where)
  with contents_invD(2) [OF inv] show "ar_snapshot_id ` set (db_artifacts ?d) \<subseteq> sn_id ` set (db_snapshots ?d)"
    by auto
qed (use contents_invD(1) [OF inv] in simp)

lemma delete_transaction_contents:
  assumes inv: "contents_inv x d" and ids: "distinct (map sn_id (db_snapshots d))"
    and ok: "delete_snapshot_transaction e dt reason sid d = Inr (v, d')"
  shows "contents_inv x d'"
proof (cases rule: delete_snapshot_transaction_cases [OF ok])
  case 1
  with inv show ?thesis by simp
next
  case (2 live m t a blobs)
  let ?d = "with_deletion live (dt_deleted_at dt) t a d"
  have "contents_inv x ?d"
    using mark_deleted_contents [OF inv ids, of "sn_id live" "dt_deleted_at dt"]
    by (subst contents_inv_view) (auto simp: contents_view_def with_deletion_def)
  moreover obtain table where "schedule_all dt blobs ?d = ?d\<lparr>db_blobs := table\<rparr>"
    "blob_columns_kept (db_blobs ?d) table"
    using schedule_all_columns by blast
  ultimately have "contents_inv x (schedule_all dt blobs ?d)"
    using blob_table_contents by simp
  then show ?thesis
    unfolding 2(7) rebuild_session_latest_context_def
    by (subst contents_inv_view) (auto simp: contents_view_def)
qed

lemma delete_snapshot_contents:
  "preserves (\<lambda>s. contents_inv x (db s) \<and> distinct (map sn_id (db_snapshots (db s))))
     (delete_snapshot srv e path header payload)"
proof -
  have "distinct (map sn_id (db_snapshots d'))"
    if ids: "distinct (map sn_id (db_snapshots d))"
      and ok: "delete_snapshot_transaction e dt reason sid d = Inr (v, d')" for d d' dt reason sid v
  proof (cases rule: delete_snapshot_transaction_cases [OF ok])
    case (2 live m t a blobs)
    obtain table where "schedule_all dt blobs (with_deletion live (dt_deleted_at dt) t a d)
        = (with_deletion live (dt_deleted_at dt) t a d)\<lparr>db_blobs := table\<rparr>"
      using schedule_all_columns by blast
    with ids show ?thesis
      by (simp add: 2(7) rebuild_session_latest_context_def with_deletion_def map_update_where)
  qed (use ids in simp)
  then show ?thesis
    unfolding delete_snapshot_def Let_def
    by (intro preserves_intros) (auto intro: delete_transaction_contents)
qed

lemma collect_candidate_contents:
  assumes inv: "contents_inv x (db s)"
  shows "contents_inv x (db (snd (collect_candidate e k c s)))"
proof -
  have clear: "contents_inv x (clear_candidate bid (db s))" for bid
    unfolding clear_candidate_def
    by (intro blob_table_contents [OF inv] blob_columns_kept_update) (simp_all add: same_blob_def)
  have gone: "contents_inv x ((db s)\<lparr>db_blobs := delete_where (\<lambda>b. bl_id b = bl_id c) (db_blobs (db s))\<rparr>)"
    if unref: "\<not> has_live_reference (db s) (bl_id c)"
  proof (rule contents_change [OF inv])
    fix sn assume sn: "sn \<in> set (db_snapshots ((db s)\<lparr>db_blobs := delete_where (\<lambda>b. bl_id b = bl_id c) (db_blobs (db s))\<rparr>))"
      "sn_deleted_at sn = None"
    then have sn_in: "sn \<in> set (db_snapshots (db s))" by simp
    have "ar_blob_id r \<noteq> bl_id c" if "r \<in> set (rows_of_snapshot (db s) (sn_id sn))" for r
    proof -
      have "r \<in> set (db_artifacts (db s))" "sn_id sn = ar_snapshot_id r"
        using that by (auto simp: rows_of_snapshot_def)
      with sn(2) sn_in unref show ?thesis unfolding has_live_reference_def list_ex_iff by metis
    qed
    with sn_in show "sn \<in> set (db_snapshots (db s))
        \<and> rows_of_snapshot ((db s)\<lparr>db_blobs := delete_where (\<lambda>b. bl_id b = bl_id c) (db_blobs (db s))\<rparr>) (sn_id sn)
            = rows_of_snapshot (db s) (sn_id sn)
        \<and> (\<forall>mf \<in> set (db_manifests (db s)). mf_id mf = sn_manifest_id sn \<longrightarrow>
             mf \<in> set (db_manifests ((db s)\<lparr>db_blobs := delete_where (\<lambda>b. bl_id b = bl_id c) (db_blobs (db s))\<rparr>)))
        \<and> (\<forall>r \<in> set (rows_of_snapshot (db s) (sn_id sn)). \<forall>b \<in> set (db_blobs (db s)). bl_id b = ar_blob_id r \<longrightarrow>
             (\<exists>b' \<in> set (db_blobs ((db s)\<lparr>db_blobs := delete_where (\<lambda>b. bl_id b = bl_id c) (db_blobs (db s))\<rparr>)). same_blob b b'))"
      by (fastforce simp: rows_of_snapshot_def intro: same_blob_refl)
  qed (use contents_invD(1,2) [OF inv] in auto)
  show ?thesis
    using inv clear gone unfolding collect_candidate_def Let_def by simp
qed

lemma collect_each_contents:
  "contents_inv x (db s) \<Longrightarrow> contents_inv x (db (snd (collect_each e k cs n s)))"
proof (induction cs arbitrary: n s)
  case (Cons c cs)
  obtain r t where run: "collect_candidate e k c s = (r, t)" by fastforce
  from collect_candidate_contents [OF Cons.prems, of e k c] have "contents_inv x (db t)" by (simp add: run)
  with Cons.IH run show ?case by (auto split: sum.splits)
qed simp

lemma run_blob_gc_contents: "preserves (\<lambda>s. contents_inv x (db s)) (run_blob_gc srv e)"
proof -
  have "contents_inv x (db (snd (collect_orphaned_blobs_at e t s)))" if "contents_inv x (db s)" for t s
    using collect_each_contents [OF that, of e _ _ 0]
    by (auto simp: collect_orphaned_blobs_at_def Let_def that split: option.splits prod.splits sum.splits)
      (metis snd_conv)+
  then show ?thesis
    unfolding run_blob_gc_def
    by (intro preserves_intros) (auto simp: preserves_def split: prod.splits sum.splits, (metis snd_conv)+)
qed

section \<open>Invariants of the database during a completion\<close>

text \<open>What an invariant of the archive has to satisfy to survive a completion with the prepared
  artifacts \<open>ps\<close>: it is about the database, and both transactions keep it.\<close>

locale completion_contract =
  fixes srv :: server and e :: env and u :: upload_row and m :: manifest
    and ps :: "prepared_artifact list" and I :: "archive \<Rightarrow> bool"
  assumes files: "I s \<Longrightarrow> I (s\<lparr>fs := f\<rparr>)"
    and attached: "I s \<Longrightarrow> finalize_existing_transaction srv e u m sid transfer at (db s) = Inr (v, d) \<Longrightarrow>
      I (s\<lparr>db := d\<rparr>)"
    and recorded: "I s \<Longrightarrow> record_transaction srv e u m ps fingerprint transfer newly now_text now_seq (db s)
      = Inr (won, d) \<Longrightarrow> I (s\<lparr>db := d\<rparr>)"
begin

lemma cleanup: "preserves I (cleanup_uncommitted_promotions srv e promotions)"
  by (induction promotions) (auto intro!: preserves_intros files)

lemma remove_dir: "preserves I (remove_upload_dir_op e uid)"
  unfolding remove_upload_dir_op_def by (intro preserves_intros files)

lemma promote: "preserves I (promote_blob srv e p)"
  unfolding promote_blob_def Let_def by (intro preserves_intros files)

lemma promote_unique: "preserves I (promote_unique_blobs srv e promotions qs)"
proof (induction qs arbitrary: promotions)
  case (Cons q qs)
  show ?case
    unfolding preserves_def
  proof (intro allI impI)
    fix s assume inv: "I s"
    obtain r t where run: "promote_blob srv e q s = (r, t)" by fastforce
    have t: "I t" using promote inv run by (rule preservesD)
    have "I (snd (bind_op (ignore_op (cleanup_uncommitted_promotions srv e qs'))
        (\<lambda>_. pure_op (Inl err)) t))" for qs' and err :: api_error
      by (rule preserves_snd [where I = I]) (intro preserves_intros cleanup, rule t)
    with run t Cons.IH show "I (snd (promote_unique_blobs srv e promotions (q # qs) s))"
      by (auto simp: preserves_def split: sum.splits)
  qed
qed (simp add: preserves_pure)

lemma finalize: "preserves I (finalize_upload_for_existing_snapshot srv e u m sid transfer)"
  unfolding finalize_upload_for_existing_snapshot_def by (intro preserves_intros) (rule attached)

lemma attach: "preserves I (attach_to_snapshot srv e u m transfer sid)"
  unfolding attach_to_snapshot_def by (intro preserves_intros finalize remove_dir)

lemma recording: "preserves I (record_or_clean_up srv e u m ps promotions fingerprint transfer newly)"
  unfolding preserves_def
proof (intro allI impI)
  fix s assume inv: "I s"
  obtain r t where run: "record_completed_upload srv e u m ps promotions fingerprint transfer newly s = (r, t)"
    by fastforce
  have "preserves I (record_completed_upload srv e u m ps promotions fingerprint transfer newly)"
    unfolding record_completed_upload_def
    by (intro preserves_intros cleanup finalize) (rule recorded)
  from this inv run have t: "I t" by (rule preservesD)
  have "I (snd (bind_op (ignore_op (cleanup_uncommitted_promotions srv e promotions))
      (\<lambda>_. pure_op (Inl err)) t))" for err :: api_error
    by (rule preserves_snd [where I = I]) (intro preserves_intros cleanup, rule t)
  with run t show "I (snd (record_or_clean_up srv e u m ps promotions fingerprint transfer newly s))"
    by (auto simp: record_or_clean_up_def split: sum.splits)
qed

lemma under_blob_locks: "preserves I (complete_under_blob_locks srv e u m ps fingerprint transfer)"
  unfolding complete_under_blob_locks_def
  by (intro preserves_intros attach promote_unique recording remove_dir)

lemma complete: "preserves I (complete_prepared srv e u m ps fingerprint transfer)"
  unfolding complete_prepared_def by (intro preserves_intros attach under_blob_locks)

end

section \<open>Recording a completion\<close>

text \<open>The prepared artifacts are those of the manifest, in order.\<close>

definition prepared_of :: "manifest \<Rightarrow> prepared_artifact list \<Rightarrow> bool" where
  "prepared_of m ps = (map (\<lambda>p. (pr_artifact_index p, pr_artifact p)) ps = enumerate 0 (artifacts m))"

definition filing ::
  "externals \<Rightarrow> upload_row \<Rightarrow> manifest \<Rightarrow> prepared_artifact list \<Rightarrow> archive \<Rightarrow> bool" where
  "filing x u m ps s =
     (contents_inv x (db s) \<and> prepared_of m ps
      \<and> (\<exists>mf. find (\<lambda>r. mf_upload_id r = up_id u) (db_manifests (db s)) = Some mf
           \<and> manifest_row_ok x mf m))"

lemma get_or_create_blob_backed:
  assumes ok: "get_or_create_blob srv e k (pr_artifact p) now_text d = Inr (bid, d')"
  shows "blobs_grow d d' \<and> (\<exists>b \<in> set (db_blobs d'). bl_id b = bid \<and> row_for p b)"
proof -
  let ?clear = "\<lambda>b. b\<lparr>bl_orphaned_at := None, bl_eligible_after := None, bl_eligible_after_seq := None\<rparr>"
  obtain blobs row where blobs: "d' = d\<lparr>db_blobs := update_where (\<lambda>r. bl_id r = bl_id row) ?clear blobs\<rparr>"
    and row: "find (blob_matches (owner srv) (stored_digest (pr_artifact p))) blobs = Some row" "bl_id row = bid"
      "bl_stored_size_bytes row = int (stored_size_bytes (pr_artifact p))"
      "bl_compression row = compression_name (compression (pr_artifact p))"
    and cases: "blobs = db_blobs d \<or> (\<exists>b. blobs = db_blobs d @ [b])"
    using ok unfolding get_or_create_blob_def
    by (auto simp: and_then_eq_Inr to_sqlite_i64_ok fetch_one_eq_Inr reject_if_eq_Inr
        insert_row_eq_Inr split: if_splits)
  have up: "\<exists>b' \<in> set (db_blobs d'). same_blob b b'" if "b \<in> set blobs" for b
    using that update_where_same_blob(3) [of ?clear b blobs] unfolding blobs
    by (simp add: same_blob_def)
  have "row \<in> set blobs" "row_for p row"
    using find_SomeD [OF row(1)] row(3,4) by (auto simp: blob_matches_def row_for_def)
  then obtain b' where "b' \<in> set (db_blobs d')" "same_blob row b'"
    using up by blast
  with \<open>row_for p row\<close> row(2) row_for_same [of p row b']
  have "\<exists>b \<in> set (db_blobs d'). bl_id b = bid \<and> row_for p b"
    unfolding same_blob_def by blast
  moreover have "set (db_blobs d) \<subseteq> set blobs" using cases by auto
  ultimately show ?thesis
    using up blobs unfolding blobs_grow_def by blast
qed

lemma create_blob_rows_backed:
  assumes "create_blob_rows srv e now_text k ps ids d = Inr (ids', d')"
    and "set ps \<subseteq> set prepared" "ids_backed d prepared ids"
  shows "blobs_grow d d' \<and> ids_backed d' prepared ids'"
  using assms
proof (induction ps arbitrary: k ids d)
  case (Cons p ps)
  let ?digest = "stored_digest (pr_artifact p)"
  show ?case
  proof (cases "map_of ids ?digest")
    case (Some bid)
    with Cons show ?thesis by simp
  next
    case None
    with Cons.prems(1) obtain bid d1
      where one: "get_or_create_blob srv e k (pr_artifact p) now_text d = Inr (bid, d1)"
      and rest: "create_blob_rows srv e now_text (k + 1) ps ((?digest, bid) # ids) d1 = Inr (ids', d')"
      by (auto simp: and_then_eq_Inr)
    note effect = get_or_create_blob_backed [OF one]
    have p: "p \<in> set prepared" using Cons.prems(2) by simp
    have "ids_backed d1 prepared ids"
      using effect Cons.prems(3) ids_backed_grow by blast
    with effect p have "ids_backed d1 prepared ((?digest, bid) # ids)"
      unfolding ids_backed_def by auto
    with Cons.IH [OF rest] effect Cons.prems(2) blobs_grow_trans show ?thesis by auto
  qed
qed (auto simp: blobs_grow_refl)

lemma insert_artifact_rows_describe:
  assumes "try_fold (insert_artifact_row e sid ids now_text now_seq) table (enumerate k ps) = Inr rows"
    and "\<And>p bid. p \<in> set ps \<Longrightarrow> map_of ids (stored_digest (pr_artifact p)) = Some bid \<Longrightarrow>
      stored_size_bytes (pr_artifact p) \<le> i64_max \<and> (\<exists>b \<in> set blobs. bl_id b = bid \<and> row_for p b)"
  shows "\<exists>new. rows = table @ new \<and> (\<forall>r \<in> set new. ar_snapshot_id r = sid)
    \<and> list_all2 (describes blobs) new (map (\<lambda>p. (pr_artifact_index p, pr_artifact p)) ps)"
  using assms
proof (induction ps arbitrary: k table)
  case (Cons p ps)
  from Cons.prems(1) obtain table' where
    step: "insert_artifact_row e sid ids now_text now_seq table (k, p) = Inr table'"
    and rest: "try_fold (insert_artifact_row e sid ids now_text now_seq) table' (enumerate (Suc k) ps) = Inr rows"
    by (auto simp: and_then_eq_Inr)
  obtain bid where bid: "map_of ids (stored_digest (pr_artifact p)) = Some bid"
    using step by (auto simp: insert_artifact_row_def and_then_eq_Inr ok_or_eq_Inr Let_def)
  obtain b where b: "b \<in> set blobs" "bl_id b = bid" "row_for p b"
    and sz: "stored_size_bytes (pr_artifact p) \<le> i64_max"
    using Cons.prems(2) [OF _ bid] by auto
  have "\<exists>r. table' = table @ [r] \<and> ar_snapshot_id r = sid
      \<and> describes blobs r (pr_artifact_index p, pr_artifact p)"
    using step bid b sz
    by (auto simp: insert_artifact_row_def and_then_eq_Inr ok_or_eq_Inr to_sqlite_i64_ok insert_row_eq_Inr
        Let_def describes_def row_for_def)
  then obtain r where r: "table' = table @ [r]" "ar_snapshot_id r = sid"
    "describes blobs r (pr_artifact_index p, pr_artifact p)"
    by blast
  from Cons.IH [OF rest] Cons.prems(2) obtain new where "rows = table' @ new"
    "\<forall>r \<in> set new. ar_snapshot_id r = sid"
    "list_all2 (describes blobs) new (map (\<lambda>p. (pr_artifact_index p, pr_artifact p)) ps)"
    by auto
  with r show ?case by (intro exI [of _ "r # new"]) simp
qed simp

lemma manifest_wf_representation:
  assumes wf: "manifest_wf x limits m" and a: "a \<in> set (artifacts m)" and b: "b \<in> set (artifacts m)"
    and eq: "stored_digest a = stored_digest b"
  shows "stored_size_bytes a = stored_size_bytes b \<and> compression a = compression b"
proof -
  let ?entry = "\<lambda>a. representation_entry (input_of_artifact a)"
  have "entries_agree (map ?entry (artifacts m))"
    using wf by (auto simp: manifest_wf_def batch_ok_def comp_def)
  moreover have "fst (?entry a) = fst (?entry b)"
    unfolding representation_entry_def input_of_artifact_def artifact_input.simps fst_conv
      manifest_wf_artifact(3) [OF wf a, symmetric] manifest_wf_artifact(3) [OF wf b, symmetric]
    by (rule eq)
  moreover have "?entry a \<in> set (map ?entry (artifacts m))" "?entry b \<in> set (map ?entry (artifacts m))"
    using a b by simp_all
  ultimately have "snd (?entry a) = snd (?entry b)"
    unfolding entries_agree_def by blast
  then show ?thesis by (simp add: representation_entry_def input_of_artifact_def)
qed

lemma prepared_of_artifacts:
  assumes "prepared_of m ps"
  shows "length ps = length (artifacts m)" and "p \<in> set ps \<Longrightarrow> pr_artifact p \<in> set (artifacts m)"
proof -
  have eq: "map (\<lambda>p. (pr_artifact_index p, pr_artifact p)) ps = enumerate 0 (artifacts m)"
    using assms by (simp add: prepared_of_def)
  from arg_cong [OF eq, of length] show "length ps = length (artifacts m)" by simp
  from arg_cong [OF eq, of "map snd"] have "map pr_artifact ps = artifacts m" by (simp add: comp_def)
  then show "p \<in> set ps \<Longrightarrow> pr_artifact p \<in> set (artifacts m)" by (metis imageI set_map)
qed

lemma finish_upload_row_contents_view:
  assumes "finish_upload_row srv e u m mid sid at transfer newly d = Inr d'"
  shows "contents_view d' = contents_view d"
  using assms
  by (auto simp: finish_upload_row_def insert_capture_provenance_def and_then_eq_Inr contents_view_def
      maintain_session_latest_context_def upsert_session_latest_context_def
      split: if_splits option.splits)

lemma filing_view:
  assumes "filing x u m ps s" "contents_view (db t) = contents_view (db s)"
  shows "filing x u m ps t"
proof -
  have "contents_inv x (db t) = contents_inv x (db s)" by (rule contents_inv_view [OF assms(2)])
  moreover have "db_manifests (db t) = db_manifests (db s)"
    using assms(2) by (simp add: contents_view_def)
  ultimately show ?thesis using assms(1) by (simp add: filing_def)
qed

lemma record_snapshot_contents:
  assumes inv: "contents_inv x d" and prepared: "prepared_of m ps"
    and mf: "mf \<in> set (db_manifests d)" "manifest_row_ok x mf m"
    and blobs: "create_blob_rows srv e now_text 0 ps [] d = Inr (ids, d\<lparr>db_blobs := blobs\<rparr>)"
    and row: "new_snapshot_row srv e u m (mf_id mf) fingerprint now_text now_seq prior (length ps) = Inr row"
    and new_id: "\<not> list_ex (snapshot_clash row) (db_snapshots d)"
    and rows: "try_fold (insert_artifact_row e (sn_id row) ids now_text now_seq)
      (db_artifacts d) (enumerate 0 ps) = Inr rows"
  shows "contents_inv x (d\<lparr>db_blobs := blobs, db_snapshots := db_snapshots d @ [row], db_artifacts := rows\<rparr>)"
    (is "contents_inv x ?d")
proof -
  note art = prepared_of_artifacts [OF prepared]
  obtain limits where wf: "manifest_wf x limits m" using mf(2) by (auto simp: manifest_row_ok_def)
  have grow: "blobs_grow d (d\<lparr>db_blobs := blobs\<rparr>)" "ids_backed (d\<lparr>db_blobs := blobs\<rparr>) ps ids"
    using create_blob_rows_backed [OF blobs subset_refl] by (simp_all add: ids_backed_def)
  have backed: "stored_size_bytes (pr_artifact p) \<le> i64_max \<and> (\<exists>b \<in> set blobs. bl_id b = bid \<and> row_for p b)"
    if p: "p \<in> set ps" and bid: "map_of ids (stored_digest (pr_artifact p)) = Some bid" for p bid
  proof -
    obtain q b where q: "q \<in> set ps" "stored_digest (pr_artifact q) = stored_digest (pr_artifact p)"
      and b: "b \<in> set blobs" "bl_id b = bid" "row_for q b"
      using grow(2) bid unfolding ids_backed_def by fastforce
    have "row_for p b"
      using b(3) q(2) manifest_wf_representation [OF wf art(2) [OF q(1)] art(2) [OF p] q(2)]
      by (simp add: row_for_def)
    with b manifest_wf_artifact(1) [OF wf art(2) [OF p]] show ?thesis by blast
  qed
  obtain new where new: "rows = db_artifacts d @ new" "\<forall>r \<in> set new. ar_snapshot_id r = sn_id row"
    and desc: "list_all2 (describes blobs) new (enumerate 0 (artifacts m))"
    using insert_artifact_rows_describe [OF rows backed] prepared by (auto simp: prepared_of_def)
  have fresh: "sn_id row \<notin> sn_id ` set (db_snapshots d)"
    using new_id by (auto simp: list_ex_iff snapshot_clash_def)
  have r: "sn_manifest_id row = mf_id mf" "sn_artifact_count row = int (length ps)" "length ps \<le> i64_max"
    and tot: "\<exists>o1 s1. manifest_totals m = Inr (o1, s1) \<and> sn_total_original_size_bytes row = int o1
      \<and> o1 \<le> i64_max \<and> sn_total_stored_size_bytes row = int s1 \<and> s1 \<le> i64_max"
    using row by (auto simp: new_snapshot_row_def and_then_eq_Inr to_sqlite_i64_ok)
  have old_rows: "rows_of_snapshot ?d sid = rows_of_snapshot d sid" if "sid \<noteq> sn_id row" for sid
    using new that by (simp add: rows_of_snapshot_def filter_empty_conv)
  have new_rows: "rows_of_snapshot ?d (sn_id row) = new"
  proof -
    have "filter (\<lambda>a. ar_snapshot_id a = sn_id row) (db_artifacts d) = []"
      unfolding filter_empty_conv using contents_invD(2) [OF inv] fresh by metis
    with new show ?thesis by (simp add: rows_of_snapshot_def)
  qed
  show ?thesis
    unfolding contents_inv_def
  proof (intro conjI ballI impI)
    show "distinct (map mf_id (db_manifests ?d))" using contents_invD(1) [OF inv] by simp
    show "ar_snapshot_id ` set (db_artifacts ?d) \<subseteq> sn_id ` set (db_snapshots ?d)"
      using contents_invD(2) [OF inv] new by auto
    fix s assume s: "s \<in> set (db_snapshots ?d)" "sn_deleted_at s = None"
    show "snapshot_contents x (db_manifests ?d) (db_blobs ?d) (rows_of_snapshot ?d (sn_id s)) s"
    proof (cases "s = row")
      case True
      with mf r tot desc new_rows art(1) show ?thesis
        unfolding snapshot_contents_def by auto
    next
      case False
      with s have old: "s \<in> set (db_snapshots d)" by auto
      with fresh have "sn_id s \<noteq> sn_id row" by (metis imageI)
      moreover have "snapshot_contents x (db_manifests d) blobs (rows_of_snapshot d (sn_id s)) s"
        using contents_invD(3) [OF inv old s(2)]
        by (rule snapshot_contents_mono) (use grow(1) in \<open>auto simp: blobs_grow_def\<close>)
      ultimately show ?thesis by (simp add: old_rows)
    qed
  qed
qed

lemma record_transaction_filing:
  assumes inv: "filing (ext srv) u m ps s"
    and ok: "record_transaction srv e u m ps fingerprint transfer newly now_text now_seq (db s) = Inr (won, d')"
  shows "filing (ext srv) u m ps (s\<lparr>db := d'\<rparr>)"
proof (cases rule: record_transaction_cases [OF ok])
  case 1
  with inv show ?thesis by simp
next
  case (2 blobs ids row mf rows d2 prior)
  let ?d = "(db s)\<lparr>db_blobs := blobs, db_snapshots := db_snapshots (db s) @ [row], db_artifacts := rows\<rparr>"
  have mf: "mf \<in> set (db_manifests (db s))" "manifest_row_ok (ext srv) mf m"
    using inv 2(3) by (auto simp: filing_def dest: find_SomeD)
  have "contents_inv (ext srv) ?d"
    using inv mf 2 by (intro record_snapshot_contents [where ps = ps]) (auto simp: filing_def)
  then have "filing (ext srv) u m ps (s\<lparr>db := ?d\<rparr>)"
    using inv by (simp add: filing_def)
  moreover have "contents_view d' = contents_view ?d"
    using finish_upload_row_contents_view [OF 2(8)] 2(9) by (simp add: contents_view_def)
  ultimately show ?thesis by (auto intro: filing_view)
qed

interpretation contents_completion:
  completion_contract srv e u m ps "filing (ext srv) u m ps" for srv e u m ps
proof
  show "filing (ext srv) u m ps s \<Longrightarrow> filing (ext srv) u m ps (s\<lparr>fs := f\<rparr>)" for s f
    by (simp add: filing_def)
next
  fix s sid transfer at v d
  assume inv: "filing (ext srv) u m ps s"
    and "finalize_existing_transaction srv e u m sid transfer at (db s) = Inr (v, d)"
  then obtain mid where "finish_upload_row srv e u m mid sid at transfer 0 (db s) = Inr d"
    using finalize_existing_ok by blast
  from finish_upload_row_contents_view [OF this] inv show "filing (ext srv) u m ps (s\<lparr>db := d\<rparr>)"
    by (auto intro: filing_view)
qed (rule record_transaction_filing)

lemma prepare_artifacts_of:
  assumes proj: "validate_upload_projection m rows u = Inr ()"
    and ps: "prepare_artifacts srv e s u m rows = Inr ps"
  shows "prepared_of m ps"
proof -
  have len: "length rows = length (artifacts m)" "length ps = length (artifacts m)"
    using proj try_map_length [OF ps [unfolded prepare_artifacts_def]]
    by (auto simp: validate_upload_projection_def and_then_eq_Inr reject_if_eq_Inr)
  obtain c where each: "try_each (validate_projected_artifact c) (enumerate 0 (zip (artifacts m) rows)) = Inr ()"
    using proj by (auto simp: validate_upload_projection_def and_then_eq_Inr)
  have "(pr_artifact_index (ps ! i), pr_artifact (ps ! i)) = (i, artifacts m ! i)" if i: "i < length (artifacts m)" for i
  proof -
    have "(i, artifacts m ! i, rows ! i) \<in> set (enumerate 0 (zip (artifacts m) rows))"
      using i len by (simp add: in_set_enumerate_eq)
    with each have "validate_projected_artifact c (i, artifacts m ! i, rows ! i) = Inr ()"
      by (simp add: try_each_eq_Inr)
    then have index: "ua_artifact_index (rows ! i) = int i"
      by (auto simp: validate_projected_artifact_def and_then_eq_Inr reject_if_eq_Inr)
    have "map (prepare_artifact srv e s u) (zip (artifacts m) rows) ! i = map Inr ps ! i"
      using ps by (simp add: prepare_artifacts_def try_map_eq_Inr)
    with i len have "prepare_artifact srv e s u (artifacts m ! i, rows ! i) = Inr (ps ! i)" by simp
    with index obtain v where
      "\<lparr>pr_artifact_index = i, pr_artifact = artifacts m ! i, pr_bytes = v\<rparr> = ps ! i"
      by (auto simp: prepare_artifact_def and_then_eq_Inr ok_or_eq_Inr u32_try_from_def split: if_splits)
    from this [symmetric] show ?thesis by simp
  qed
  with len show ?thesis
    unfolding prepared_of_def by (intro nth_equalityI) (simp_all add: nth_enumerate_eq)
qed

lemma complete_upload_contents:
  assumes uploads: "upload_inv srv s" and inv: "contents_inv (ext srv) (db s)"
  shows "contents_inv (ext srv) (db (snd (complete_upload srv e path s)))"
proof (cases rule: complete_upload_cases [of srv e path s])
  case (inactive uid)
  with preserves_snd [where I = "\<lambda>s. contents_inv (ext srv) (db s)", OF require_active_contents inv] show ?thesis
    by simp
next
  case (checked uid u m)
  have u: "u \<in> set (db_uploads (db s))" "up_id u = uid"
    using require_active_find [OF checked(3)] by (auto simp: get_active_upload_def dest!: find_SomeD)
  obtain mf where mf: "find (\<lambda>r. mf_upload_id r = up_id u) (db_manifests (db s)) = Some mf"
    "manifest_from_json (ext srv) (mf_canonical_json mf) = Some m"
    using checked(5) u(2) by (auto simp: get_upload_manifest_def and_then_eq_Inr fetch_one_eq_Inr ok_or_eq_Inr)
  have "manifest_row_ok (ext srv) mf m"
  proof -
    obtain m' where "manifest_of (ext srv) u (manifests_for (db s) (up_id u)) m'"
      using upload_invD(5) [OF uploads u(1)] by (auto simp: upload_detail_ok_def upload_ok_def)
    moreover have "mf \<in> set (manifests_for (db s) (up_id u))"
      using find_SomeD [OF mf(1)] by (simp add: manifests_for_def)
    ultimately show ?thesis
      using mf(2) by (auto simp: manifest_of_def manifest_row_ok_def)
  qed
  with inv mf(1) have filing: "filing (ext srv) u m ps s" if "prepared_of m ps" for ps
    using that by (auto simp: filing_def)
  have "contents_inv (ext srv) (db (snd (complete_checked srv e u m (get_upload_artifacts (db s) uid) s)))"
  proof (cases "prepare_artifacts srv e s u m (get_upload_artifacts (db s) uid)")
    case (Inl err)
    with inv show ?thesis by (simp add: complete_checked_def read_op_def try_op_def pure_op_def)
  next
    case (Inr ps)
    let ?rest = "try_op (manifest_totals m) (\<lambda>(_, transfer).
       try_op (snapshot_fingerprint (ext srv) m) (\<lambda>fingerprint.
       complete_prepared srv e u m ps fingerprint transfer))"
    have "preserves (filing (ext srv) u m ps) ?rest"
      by (auto intro!: preserves_intros contents_completion.complete split: prod.splits)
    from preserves_snd [OF this filing [OF prepare_artifacts_of [OF checked(7) Inr]]]
    have "contents_inv (ext srv) (db (snd (?rest s)))" by (simp add: filing_def)
    with Inr show ?thesis by (simp add: complete_checked_def read_op_def try_op_def)
  qed
  with checked(1) show ?thesis by simp
qed (use inv in simp)

end
