(* ===== verification/Pagination.thy ===== *)
theory Pagination
  imports Database Chunks
begin

text \<open>
  The cursors of \<open>pagination.rs\<close>. A collection is listed in descending order of a key (a numeric time
  and the row identifier); the first page fixes a high watermark, a cursor carries it together with
  the key of the last row delivered, and the query of a later page is bounded by both. The codec of
  a cursor (base64 and JSON) and the version of a UUID are third-party code and are collected in the
  record \<open>codec\<close>.

  The second half follows a client through a whole listing while the collection changes between the
  requests, first on the keys alone (\<open>walk_rows\<close>) and then, in the locale \<open>keyset_collection\<close>, through the
  cursors (\<open>follow_pages\<close>).
\<close>

section \<open>Documents\<close>

record sort_boundary =
  sb_sort_key :: int
  sb_timestamp :: string
  sb_id :: string

record opaque_cursor =
  oc_version :: nat
  oc_kind :: string
  oc_filter_hash :: string
  oc_high_watermark :: sort_boundary
  oc_after :: sort_boundary

record page_request =
  pg_limit :: nat
  pg_cursor :: "opaque_cursor option"

record page_high_watermark =
  hw_timestamp :: string
  hw_id :: string

record 'a paginated_response =
  pr_items :: "'a list"
  pr_next_cursor :: "string option"
  pr_high_watermark :: "page_high_watermark option"

record 'f codec =
  base64url_encode :: "string \<Rightarrow> string"
  base64url_decode :: "string \<Rightarrow> string option"
  cursor_to_json :: "opaque_cursor \<Rightarrow> string option"
  cursor_from_json :: "string \<Rightarrow> opaque_cursor option"
  filters_to_json :: "string \<Rightarrow> 'f \<Rightarrow> string option"
  uuid_version :: "string \<Rightarrow> nat"

definition DEFAULT_PAGE_LIMIT :: nat where "DEFAULT_PAGE_LIMIT = 50"
definition MAX_PAGE_LIMIT :: nat where "MAX_PAGE_LIMIT = 100"
definition MAX_CURSOR_BYTES :: nat where "MAX_CURSOR_BYTES = 2048"
definition CURSOR_VERSION :: nat where "CURSOR_VERSION = 1"

definition cursor_invalid :: api_error where
  "cursor_invalid = invalid ''cursor is invalid''"

section \<open>Reading a page request\<close>

definition page_normalize_timestamp :: "externals \<Rightarrow> string \<Rightarrow> string \<Rightarrow> string result" where
  "page_normalize_timestamp x value message =
     and_then (ok_or (invalid message) (parse_rfc3339 x value)) (\<lambda>t.
     ok_or internal (format_rfc3339 x (t\<lparr>utc_offset_seconds := 0\<rparr>)))"

definition validate_boundary :: "'f codec \<Rightarrow> externals \<Rightarrow> sort_boundary \<Rightarrow> unit result" where
  "validate_boundary k x boundary =
     and_then (page_normalize_timestamp x (sb_timestamp boundary) ''cursor is invalid'') (\<lambda>text.
     and_then (reject_if (text \<noteq> sb_timestamp boundary) cursor_invalid) (\<lambda>_.
     and_then (ok_or cursor_invalid (sort_key_from_rfc3339 x (sb_timestamp boundary))) (\<lambda>expected.
     and_then (reject_if (sb_sort_key boundary \<noteq> expected) cursor_invalid) (\<lambda>_.
     and_then (ok_or cursor_invalid (uuid_parse x (sb_id boundary))) (\<lambda>id.
     reject_if (id \<noteq> sb_id boundary \<or> uuid_version k id \<noteq> 7) cursor_invalid)))))"

definition is_at_or_before :: "sort_boundary \<Rightarrow> sort_boundary \<Rightarrow> bool" where
  "is_at_or_before left right =
     (sb_sort_key left < sb_sort_key right
      \<or> (sb_sort_key left = sb_sort_key right \<and> sb_id left \<le> sb_id right))"

definition filter_hash :: "'f codec \<Rightarrow> externals \<Rightarrow> string \<Rightarrow> 'f \<Rightarrow> string result" where
  "filter_hash k x kind filters =
     and_then (ok_or internal (filters_to_json k kind filters)) (\<lambda>json.
     Inr (sha256_hex x (string_bytes json)))"

definition encode_cursor ::
  "'f codec \<Rightarrow> string \<Rightarrow> string \<Rightarrow> sort_boundary \<Rightarrow> sort_boundary \<Rightarrow> string result" where
  "encode_cursor k kind hash high_watermark after =
     and_then (ok_or internal (cursor_to_json k
       \<lparr>oc_version = CURSOR_VERSION, oc_kind = kind, oc_filter_hash = hash,
        oc_high_watermark = high_watermark, oc_after = after\<rparr>)) (\<lambda>json.
     Inr (base64url_encode k json))"

definition decode_cursor ::
  "'f codec \<Rightarrow> externals \<Rightarrow> string \<Rightarrow> string \<Rightarrow> string \<Rightarrow> opaque_cursor result" where
  "decode_cursor k x kind hash cursor =
     and_then (reject_if (length cursor > MAX_CURSOR_BYTES) cursor_invalid) (\<lambda>_.
     and_then (ok_or cursor_invalid (base64url_decode k cursor)) (\<lambda>json.
     and_then (ok_or cursor_invalid (cursor_from_json k json)) (\<lambda>c.
     and_then (reject_if (oc_version c \<noteq> CURSOR_VERSION \<or> oc_kind c \<noteq> kind \<or> oc_filter_hash c \<noteq> hash)
       (invalid ''cursor does not match this collection and filters'')) (\<lambda>_.
     and_then (validate_boundary k x (oc_high_watermark c)) (\<lambda>_.
     and_then (validate_boundary k x (oc_after c)) (\<lambda>_.
     and_then (reject_if (\<not> is_at_or_before (oc_after c) (oc_high_watermark c)) cursor_invalid) (\<lambda>_.
     Inr c)))))))"

definition parse_page ::
  "'f codec \<Rightarrow> externals \<Rightarrow> nat option \<Rightarrow> string option \<Rightarrow> string \<Rightarrow> string \<Rightarrow> page_request result" where
  "parse_page k x limit cursor kind hash =
     (let n = (case limit of None \<Rightarrow> DEFAULT_PAGE_LIMIT | Some m \<Rightarrow> m) in
      and_then (reject_if (\<not> (1 \<le> n \<and> n \<le> MAX_PAGE_LIMIT))
        (invalid ''page limit must be between 1 and 100'')) (\<lambda>_.
      case cursor of
        None \<Rightarrow> Inr \<lparr>pg_limit = n, pg_cursor = None\<rparr>
      | Some text \<Rightarrow> and_then (decode_cursor k x kind hash text) (\<lambda>c.
          Inr \<lparr>pg_limit = n, pg_cursor = Some c\<rparr>)))"

section \<open>Querying and cutting a page\<close>

text \<open>The two conditions that \<open>append_descending_bounds\<close> writes into the statement, with the values
  \<open>bind_descending_bounds\<close> gives them; \<open>sort_key\<close> and \<open>id\<close> are the columns of the row.\<close>

definition descending_bounds :: "page_request \<Rightarrow> int \<times> string \<Rightarrow> bool" where
  "descending_bounds page = (\<lambda>(key, id).
     case pg_cursor page of
       None \<Rightarrow> True
     | Some c \<Rightarrow>
         (key < sb_sort_key (oc_high_watermark c)
           \<or> (key = sb_sort_key (oc_high_watermark c) \<and> id \<le> sb_id (oc_high_watermark c)))
         \<and> (key < sb_sort_key (oc_after c)
           \<or> (key = sb_sort_key (oc_after c) \<and> id < sb_id (oc_after c))))"

text \<open>\<open>WHERE <bounds> ORDER BY sort_key DESC, id DESC LIMIT limit + 1\<close>.\<close>

definition fetch_page :: "('r \<Rightarrow> int \<times> string) \<Rightarrow> page_request \<Rightarrow> 'r list \<Rightarrow> 'r list" where
  "fetch_page key page rows =
     take (pg_limit page + 1) (rev (sort_key key (filter (descending_bounds page \<circ> key) rows)))"

definition page_from_rows ::
  "'f codec \<Rightarrow> ('a \<times> sort_boundary) list \<Rightarrow> page_request \<Rightarrow> string \<Rightarrow> string
     \<Rightarrow> 'a paginated_response result" where
  "page_from_rows k rows page kind hash =
     (let high_watermark = (case pg_cursor page of
            Some c \<Rightarrow> Some (oc_high_watermark c)
          | None \<Rightarrow> (case rows of [] \<Rightarrow> None | (_, boundary) # _ \<Rightarrow> Some boundary));
          has_next = length rows > pg_limit page;
          kept = take (pg_limit page) rows
      in and_then
        (if has_next
         then and_then (ok_or internal (if kept = [] then None else Some (snd (last kept)))) (\<lambda>after.
           and_then (ok_or internal high_watermark) (\<lambda>hw.
           and_then (encode_cursor k kind hash hw after) (\<lambda>cursor. Inr (Some cursor))))
         else Inr None) (\<lambda>next_cursor.
      Inr \<lparr>pr_items = map fst kept, pr_next_cursor = next_cursor,
           pr_high_watermark = map_option (\<lambda>b.
             \<lparr>hw_timestamp = sb_timestamp b, hw_id = sb_id b\<rparr>) high_watermark\<rparr>))"

text \<open>What every listing does once it has its filters: read the page request, query one row more than
  the limit, turn the rows into documents and cut the page.\<close>

definition list_page ::
  "'f codec \<Rightarrow> externals \<Rightarrow> string \<Rightarrow> ('r \<Rightarrow> int \<times> string) \<Rightarrow> ('r \<Rightarrow> sort_boundary)
     \<Rightarrow> ('r \<Rightarrow> 'a result) \<Rightarrow> 'f \<Rightarrow> nat option \<Rightarrow> string option \<Rightarrow> 'r list
     \<Rightarrow> 'a paginated_response result" where
  "list_page k x kind key boundary respond filters limit cursor rows =
     and_then (filter_hash k x kind filters) (\<lambda>hash.
     and_then (parse_page k x limit cursor kind hash) (\<lambda>page.
     and_then (try_map (\<lambda>row. and_then (respond row) (\<lambda>item. Inr (item, boundary row)))
       (fetch_page key page rows)) (\<lambda>items.
     page_from_rows k items page kind hash)))"

section \<open>Walking a collection by its keys\<close>

text \<open>The bound of a page as a pair of keys, and the listing on rows alone: every element of the list
  argument is the collection as it is at one request. The flag says that the last page had no
  successor.\<close>

type_synonym page_key = "int \<times> string"

definition in_bounds :: "(page_key \<times> page_key) option \<Rightarrow> page_key \<Rightarrow> bool" where
  "in_bounds bound k = (case bound of None \<Rightarrow> True | Some (hw, after) \<Rightarrow> k \<le> hw \<and> k < after)"

definition page_rows :: "('r \<Rightarrow> page_key) \<Rightarrow> (page_key \<times> page_key) option \<Rightarrow> 'r list \<Rightarrow> 'r list" where
  "page_rows key bound rows = rev (sort_key key (filter (in_bounds bound \<circ> key) rows))"

definition next_bound ::
  "('r \<Rightarrow> page_key) \<Rightarrow> nat \<Rightarrow> (page_key \<times> page_key) option \<Rightarrow> 'r list \<Rightarrow> page_key \<times> page_key" where
  "next_bound key limit bound rows =
     (case bound of Some (hw, _) \<Rightarrow> hw | None \<Rightarrow> key (hd rows), key (last (take limit rows)))"

fun walk_rows ::
  "('r \<Rightarrow> page_key) \<Rightarrow> nat \<Rightarrow> (page_key \<times> page_key) option \<Rightarrow> 'r list list \<Rightarrow> 'r list list \<times> bool" where
  "walk_rows key limit bound [] = ([], False)"
| "walk_rows key limit bound (rows # later) =
     (let page = page_rows key bound rows
      in if length page \<le> limit then ([page], True)
         else let (pages, finished) = walk_rows key limit (Some (next_bound key limit bound page)) later
              in (take limit page # pages, finished))"

lemma set_page_rows: "set (page_rows key bound rows) = {r \<in> set rows. in_bounds bound (key r)}"
  by (auto simp: page_rows_def)

lemma page_rows_descending:
  assumes "distinct (map key rows)"
  shows "sorted_wrt (\<lambda>r s. key s < key r) (page_rows key bound rows)"
proof -
  let ?xs = "sort_key key (filter (in_bounds bound \<circ> key) rows)"
  have "mset (map key ?xs) = mset (map key (filter (in_bounds bound \<circ> key) rows))"
    by (simp only: mset_map mset_sort)
  moreover have "distinct (map key (filter (in_bounds bound \<circ> key) rows))"
    using assms by (simp add: distinct_map_filter)
  ultimately have "distinct (map key ?xs)" using mset_eq_imp_distinct_iff by blast
  then have "sorted_wrt (<) (map key ?xs)"
    by (simp add: strict_sorted_iff)
  then have "sorted_wrt (\<lambda>r s. key r < key s) ?xs"
    by (simp add: sorted_wrt_map)
  then show ?thesis by (simp add: page_rows_def sorted_wrt_rev)
qed

lemma last_is_least:
  "sorted_wrt (\<lambda>r s. key s < (key r :: page_key)) (xs @ [x]) \<Longrightarrow> r \<in> set (xs @ [x]) \<Longrightarrow> key x \<le> key r"
  by (auto simp: sorted_wrt_append intro: less_imp_le)

lemma descending_take:
  assumes "sorted_wrt (\<lambda>r s. key s < (key r :: page_key)) xs" "n \<le> length xs" "0 < n"
  shows "{r \<in> set xs. key r < key (last (take n xs))} = set (drop n xs)"
    and "\<forall>r \<in> set (take n xs). key (last (take n xs)) \<le> key r"
    and "sorted_wrt (\<lambda>r s. key s < key r) (take n xs)"
proof -
  let ?p = "take n xs" and ?q = "drop n xs"
  have p: "butlast ?p @ [last ?p] = ?p" using assms(2,3) by (intro append_butlast_last_id) auto
  have sorted: "sorted_wrt (\<lambda>r s. key s < key r) (?p @ ?q)"
    using assms(1) by simp
  then show "sorted_wrt (\<lambda>r s. key s < key r) ?p"
    unfolding sorted_wrt_append by simp
  then show least: "\<forall>r \<in> set ?p. key (last ?p) \<le> key r"
    using last_is_least [of key "butlast ?p" "last ?p"] unfolding p by blast
  have "last ?p \<in> set ?p" using p by (metis in_set_conv_decomp)
  with sorted have "\<forall>r \<in> set ?q. key r < key (last ?p)"
    unfolding sorted_wrt_append by blast
  moreover have "set xs = set ?p \<union> set ?q" by (metis append_take_drop_id set_append)
  ultimately show "{r \<in> set xs. key r < key (last ?p)} = set ?q"
    using least by (auto simp: not_less)
qed

lemma page_rows_below:
  assumes "r \<in> set (page_rows key bound rows)" "distinct (map key rows)"
  shows "key r \<le> (case bound of Some (hw, _) \<Rightarrow> hw | None \<Rightarrow> key (hd (page_rows key bound rows)))"
proof (cases bound)
  case None
  have "sorted_wrt (\<lambda>r s. key s < key r) (page_rows key bound rows)"
    by (rule page_rows_descending [OF assms(2)])
  with assms(1) show ?thesis
    by (cases "page_rows key bound rows") (auto simp: None intro: less_imp_le)
next
  case (Some b)
  with assms(1) show ?thesis by (auto simp: set_page_rows in_bounds_def split: prod.splits)
qed

text \<open>What a walk delivers: in strictly descending order, within the bounds, each page out of the
  collection it was asked of; when the walk is finished, every row that was there at each request;
  as long as it is not, full pages.\<close>

lemma walk_rows_exact:
  assumes "walk_rows key limit bound Rs = (Ps, finished)"
    and "\<forall>R \<in> set Rs. distinct (map key R)" "0 < limit"
  shows "sorted_wrt (\<lambda>r s. key s < key r) (concat Ps)"
    and "\<forall>r \<in> set (concat Ps). in_bounds bound (key r)"
    and "length Ps \<le> length Rs" and "\<forall>i < length Ps. set (Ps ! i) \<subseteq> set (Rs ! i)"
    and "finished \<Longrightarrow> \<forall>R \<in> set (take (length Ps) Rs). r \<in> set R \<Longrightarrow> in_bounds bound (key r)
      \<Longrightarrow> r \<in> set (concat Ps)"
    and "\<not> finished \<Longrightarrow> length Ps = length Rs \<and> (\<forall>P \<in> set Ps. length P = limit)"
  using assms
proof (atomize (full), induction Rs arbitrary: bound Ps finished)
  case (Cons R Rs)
  let ?page = "page_rows key bound R"
  have R: "distinct (map key R)" using Cons.prems by simp
  note desc = page_rows_descending [OF R, of bound]
  show ?case
  proof (cases "length ?page \<le> limit")
    case True
    with Cons.prems(1) have "Ps = [?page]" "finished" by auto
    then show ?thesis using desc by (auto simp: set_page_rows)
  next
    case False
    let ?next = "next_bound key limit bound ?page"
    obtain Ps' where walk: "walk_rows key limit (Some ?next) Rs = (Ps', finished)"
      and Ps: "Ps = take limit ?page # Ps'"
      using Cons.prems(1) False by (auto simp: Let_def split: prod.splits)
    have "\<forall>R \<in> set Rs. distinct (map key R)" using Cons.prems(2) by simp
    note IH = Cons.IH [OF walk this Cons.prems(3)]
    have n: "limit \<le> length ?page" using False by simp
    note cut = descending_take [OF desc n Cons.prems(3)]
    have step: "in_bounds (Some ?next) (key r)" if "r \<in> set (drop limit ?page)" for r
    proof -
      have "r \<in> set ?page" using that by (rule in_set_dropD)
      moreover have "key r < key (last (take limit ?page))" using that cut(1) by blast
      ultimately show ?thesis
        using page_rows_below [of r key bound R] R
        by (auto simp: in_bounds_def next_bound_def split: option.splits)
    qed
    have below: "in_bounds bound (key r) \<and> (\<forall>q \<in> set (take limit ?page). key r < key q)"
      if "in_bounds (Some ?next) (key r)" for r
    proof -
      have "last (take limit ?page) \<in> set (take limit ?page)"
        using Cons.prems(3) False by (intro last_in_set) auto
      then have "last (take limit ?page) \<in> set ?page" by (rule in_set_takeD)
      then have "in_bounds bound (key (last (take limit ?page)))" by (simp add: set_page_rows)
      with that cut(2) show ?thesis
        by (auto simp: in_bounds_def next_bound_def split: option.splits
            intro: less_trans less_le_trans)
    qed
    show ?thesis
    proof (intro conjI allI impI)
      show "sorted_wrt (\<lambda>r s. key s < key r) (concat Ps)"
        using cut(3) IH below by (auto simp: Ps sorted_wrt_append)
      show "\<forall>r \<in> set (concat Ps). in_bounds bound (key r)"
        using IH below by (auto simp: Ps set_page_rows dest!: in_set_takeD)
      show "length Ps \<le> length (R # Rs)" using IH by (simp add: Ps)
      show "set (Ps ! i) \<subseteq> set ((R # Rs) ! i)" if "i < length Ps" for i
        using that IH by (cases i) (auto simp: Ps set_page_rows dest!: in_set_takeD)
      show "r \<in> set (concat Ps)" if "finished" "\<forall>R \<in> set (take (length Ps) (R # Rs)). r \<in> set R"
        "in_bounds bound (key r)"
      proof -
        have "r \<in> set ?page" using that by (simp add: Ps set_page_rows)
        then consider "r \<in> set (take limit ?page)" | "r \<in> set (drop limit ?page)"
          by (metis append_take_drop_id Un_iff set_append)
        then show ?thesis
        proof cases
          case 2
          with IH that step show ?thesis by (simp add: Ps)
        qed (simp add: Ps)
      qed
      show "length Ps = length (R # Rs)" if "\<not> finished" using IH that by (simp add: Ps)
      show "\<forall>P \<in> set Ps. length P = limit" if "\<not> finished" using IH that n by (simp add: Ps)
    qed
  qed
qed simp

section \<open>Walking a collection by its cursors\<close>

definition boundary_key :: "sort_boundary \<Rightarrow> page_key" where
  "boundary_key b = (sb_sort_key b, sb_id b)"

definition bound_of :: "page_request \<Rightarrow> (page_key \<times> page_key) option" where
  "bound_of page = map_option (\<lambda>c. (boundary_key (oc_high_watermark c), boundary_key (oc_after c)))
     (pg_cursor page)"

lemma descending_bounds_eq: "descending_bounds page = in_bounds (bound_of page)"
  by (rule ext) (auto simp: descending_bounds_def in_bounds_def bound_of_def boundary_key_def
      less_eq_prod_def less_prod_def split: option.splits)

lemma is_at_or_before_eq: "is_at_or_before a b \<longleftrightarrow> boundary_key a \<le> boundary_key b"
  by (auto simp: is_at_or_before_def boundary_key_def less_eq_prod_def)

lemma fetch_page_eq: "fetch_page key page rows = take (pg_limit page + 1) (page_rows key (bound_of page) rows)"
  by (simp add: fetch_page_def page_rows_def descending_bounds_eq)

text \<open>The documented behaviour of base64 and of the JSON codec: what was written can be read.\<close>

definition codec_ok :: "'f codec \<Rightarrow> bool" where
  "codec_ok k = ((\<forall>s. base64url_decode k (base64url_encode k s) = Some s)
     \<and> (\<forall>c. \<exists>json. cursor_to_json k c = Some json \<and> cursor_from_json k json = Some c))"

text \<open>The boundary of a row is accepted again when it comes back in a cursor, and a cursor of two
  boundaries has the bounded length.\<close>

definition boundaries_ok :: "'f codec \<Rightarrow> externals \<Rightarrow> string \<Rightarrow> string \<Rightarrow> sort_boundary set \<Rightarrow> bool" where
  "boundaries_ok k x kind hash bs =
     ((\<forall>b \<in> bs. validate_boundary k x b = Inr ())
      \<and> (\<forall>a \<in> bs. \<forall>b \<in> bs. \<forall>text. encode_cursor k kind hash a b = Inr text
           \<longrightarrow> length text \<le> MAX_CURSOR_BYTES))"

lemma decode_encode_cursor:
  assumes "codec_ok k" "encode_cursor k kind hash a b = Inr text" "length text \<le> MAX_CURSOR_BYTES"
    and "validate_boundary k x a = Inr ()" "validate_boundary k x b = Inr ()" "is_at_or_before b a"
  shows "decode_cursor k x kind hash text = Inr
    \<lparr>oc_version = CURSOR_VERSION, oc_kind = kind, oc_filter_hash = hash, oc_high_watermark = a, oc_after = b\<rparr>"
proof -
  obtain json where "cursor_to_json k \<lparr>oc_version = CURSOR_VERSION, oc_kind = kind,
      oc_filter_hash = hash, oc_high_watermark = a, oc_after = b\<rparr> = Some json"
    "text = base64url_encode k json"
    using assms(2) by (auto simp: encode_cursor_def result_simps)
  with assms show ?thesis
    by (auto simp: decode_cursor_def result_simps codec_ok_def) (metis option.inject)
qed

lemma encode_cursor_total:
  assumes "codec_ok k"
  shows "\<exists>text. encode_cursor k kind hash a b = Inr text"
proof -
  obtain json where "cursor_to_json k \<lparr>oc_version = CURSOR_VERSION, oc_kind = kind,
      oc_filter_hash = hash, oc_high_watermark = a, oc_after = b\<rparr> = Some json"
    using assms unfolding codec_ok_def by blast
  then show ?thesis by (simp add: encode_cursor_def)
qed

text \<open>A client that asks for the first page and then follows every cursor; the list argument is the
  state the server is in at each request.\<close>

fun follow_pages ::
  "(string option \<Rightarrow> 's \<Rightarrow> 'a paginated_response result) \<Rightarrow> string option \<Rightarrow> 's list
     \<Rightarrow> ('a paginated_response list \<times> bool) result" where
  "follow_pages request cursor [] = Inr ([], False)"
| "follow_pages request cursor (s # later) =
     and_then (request cursor s) (\<lambda>page.
       case pr_next_cursor page of
         None \<Rightarrow> Inr ([page], True)
       | Some next_cursor \<Rightarrow>
           and_then (follow_pages request (Some next_cursor) later) (\<lambda>(pages, finished).
             Inr (page # pages, finished)))"

text \<open>The contract between a collection and the pagination: the columns of the statement are the
  sort key and the identifier of the boundary that a row of the join is given.\<close>

locale keyset_collection =
  fixes joined :: "'r \<Rightarrow> bool" and key :: "'r \<Rightarrow> page_key" and boundary :: "'r \<Rightarrow> sort_boundary"
  assumes boundary_key: "joined r \<Longrightarrow> boundary_key (boundary r) = key r"
begin

lemma page_of_bound:
  assumes k: "codec_ok k" "boundaries_ok k x kind hash V"
    and page: "1 \<le> pg_limit page"
      "\<And>c. pg_cursor page = Some c \<Longrightarrow> oc_high_watermark c \<in> V"
    and rows: "distinct (map key rows)" "\<forall>r \<in> set rows. joined r \<and> boundary r \<in> V \<and> respond r = Inr (f r)"
    and S: "S = page_rows key (bound_of page) rows"
  shows "\<exists>resp. and_then (try_map (\<lambda>row. and_then (respond row) (\<lambda>item. Inr (item, boundary row)))
        (fetch_page key page rows)) (\<lambda>items. page_from_rows k items page kind hash) = Inr resp
     \<and> pr_items resp = map f (take (pg_limit page) S)
     \<and> (if length S \<le> pg_limit page then pr_next_cursor resp = None
        else \<exists>text c. pr_next_cursor resp = Some text \<and> decode_cursor k x kind hash text = Inr c
          \<and> oc_high_watermark c \<in> V
          \<and> (boundary_key (oc_high_watermark c), boundary_key (oc_after c))
              = next_bound key (pg_limit page) (bound_of page) S)"
proof -
  let ?L = "pg_limit page"
  have in_S: "set S \<subseteq> set rows" by (auto simp: S set_page_rows)
  have items: "try_map (\<lambda>row. and_then (respond row) (\<lambda>item. Inr (item, boundary row)))
      (fetch_page key page rows) = Inr (map (\<lambda>r. (f r, boundary r)) (take (?L + 1) S))"
    using in_S rows(2) by (auto simp: try_map_eq_Inr fetch_page_eq S [symmetric] dest!: in_set_takeD)
  have cut: "map fst (take ?L (map (\<lambda>r. (f r, boundary r)) (take (?L + 1) S))) = map f (take ?L S)"
    by (simp add: take_map [symmetric] min_def comp_def)
  show ?thesis
  proof (cases "length S \<le> ?L")
    case True
    with cut show ?thesis by (auto simp: items page_from_rows_def min_def Let_def)
  next
    case False
    then have ne: "S \<noteq> []" "take ?L S \<noteq> []" using page(1) by auto
    define hw where "hw = (case pg_cursor page of Some c \<Rightarrow> oc_high_watermark c | None \<Rightarrow> boundary (hd S))"
    define af where "af = boundary (last (take ?L S))"
    have hw: "(case pg_cursor page of Some c \<Rightarrow> Some (oc_high_watermark c)
        | None \<Rightarrow> (case map (\<lambda>r. (f r, boundary r)) (take (?L + 1) S) of [] \<Rightarrow> None | (_, b) # _ \<Rightarrow> Some b))
          = Some hw"
      using ne(1) by (cases S) (auto simp: hw_def split: option.splits)
    have af: "snd (last (take ?L (map (\<lambda>r. (f r, boundary r)) (take (?L + 1) S)))) = af"
      using ne(2) by (simp add: take_map min_def last_map af_def)
    have last_S: "last (take ?L S) \<in> set S" using ne(2) by (metis in_set_takeD last_in_set)
    have V: "hw \<in> V" "af \<in> V"
      using page(2) rows(2) in_S hd_in_set [OF ne(1)] last_S
      by (auto simp: hw_def af_def split: option.splits)
    have keys: "boundary_key (boundary (hd S)) = key (hd S)"
      "boundary_key af = key (last (take ?L S))"
      using in_S hd_in_set [OF ne(1)] last_S rows(2) by (auto simp: af_def boundary_key)
    then have nb: "(boundary_key hw, boundary_key af) = next_bound key ?L (bound_of page) S"
      by (auto simp: hw_def next_bound_def bound_of_def split: option.splits)
    have "key (last (take ?L S)) \<le> fst (next_bound key ?L (bound_of page) S)"
      using page_rows_below [of "last (take ?L S)" key "bound_of page" rows] last_S rows(1)
      by (auto simp: next_bound_def S split: option.splits)
    then have before: "is_at_or_before af hw"
      by (simp add: is_at_or_before_eq nb [symmetric] keys(2))
    obtain tx where tx: "encode_cursor k kind hash hw af = Inr tx"
      using encode_cursor_total [OF k(1)] by blast
    have dec: "decode_cursor k x kind hash tx = Inr
        \<lparr>oc_version = CURSOR_VERSION, oc_kind = kind, oc_filter_hash = hash, oc_high_watermark = hw, oc_after = af\<rparr>"
      using k(2) V tx before unfolding boundaries_ok_def by (intro decode_encode_cursor [OF k(1) tx]) auto
    have "page_from_rows k (map (\<lambda>r. (f r, boundary r)) (take (?L + 1) S)) page kind hash
        = Inr \<lparr>pr_items = map f (take ?L S), pr_next_cursor = Some tx,
            pr_high_watermark = Some \<lparr>hw_timestamp = sb_timestamp hw, hw_id = sb_id hw\<rparr>\<rparr>"
      using False ne unfolding page_from_rows_def Let_def hw af
      by (simp add: tx take_map comp_def)
    with False dec V nb show ?thesis by (simp add: items)
  qed
qed

text \<open>The listing delivers the pages of the walk on rows.\<close>

lemma follow_pages_walk:
  assumes k: "codec_ok k" "boundaries_ok k x kind hash V" "filter_hash k x kind filters = Inr hash"
    and limit: "1 \<le> limit" "limit \<le> MAX_PAGE_LIMIT"
    and rows: "\<forall>s \<in> set states. distinct (map key (rows s))
      \<and> (\<forall>r \<in> set (rows s). joined r \<and> boundary r \<in> V \<and> respond r = Inr (f r))"
    and request: "\<And>cursor s. s \<in> set states \<Longrightarrow> request cursor s
      = list_page k x kind key boundary respond filters (Some limit) cursor (rows s)"
  shows "\<exists>pages. follow_pages request None states
      = Inr (pages, snd (walk_rows key limit None (map rows states)))
     \<and> map pr_items pages = map (map f) (fst (walk_rows key limit None (map rows states)))"
proof -
  have "\<exists>pages. follow_pages request cursor states
        = Inr (pages, snd (walk_rows key limit bound (map rows states)))
     \<and> map pr_items pages = map (map f) (fst (walk_rows key limit bound (map rows states)))"
    if "parse_page k x (Some limit) cursor kind hash = Inr page" "bound = bound_of page"
      "\<forall>c. pg_cursor page = Some c \<longrightarrow> oc_high_watermark c \<in> V" for cursor page bound
    using that rows request
  proof (induction states arbitrary: cursor page bound)
    case (Cons s states)
    let ?S = "page_rows key bound (rows s)"
    have L: "pg_limit page = limit"
      using Cons.prems(1) by (auto simp: parse_page_def result_simps split: option.splits)
    have this_page: "\<exists>resp. request cursor s = Inr resp \<and> pr_items resp = map f (take limit ?S)
       \<and> (if length ?S \<le> limit then pr_next_cursor resp = None
          else \<exists>text c. pr_next_cursor resp = Some text \<and> decode_cursor k x kind hash text = Inr c
            \<and> oc_high_watermark c \<in> V
            \<and> (boundary_key (oc_high_watermark c), boundary_key (oc_after c))
                = next_bound key limit bound ?S)"
    proof -
      have run: "request cursor s = and_then (try_map (\<lambda>row. and_then (respond row) (\<lambda>item. Inr (item, boundary row)))
          (fetch_page key page (rows s))) (\<lambda>items. page_from_rows k items page kind hash)"
        using Cons.prems(1,5) by (simp add: list_page_def k(3))
      show ?thesis
        unfolding run Cons.prems(2) L [symmetric]
        using Cons.prems(3,4) limit(1) by (intro page_of_bound [OF k(1,2) _ _ _ _ refl]) (auto simp: L)
    qed
    then obtain resp where resp: "request cursor s = Inr resp" "pr_items resp = map f (take limit ?S)"
      by blast
    show ?case
    proof (cases "length ?S \<le> limit")
      case True
      with this_page resp show ?thesis by auto
    next
      case False
      with this_page resp(1) obtain tx c where tx: "pr_next_cursor resp = Some tx"
        and c: "decode_cursor k x kind hash tx = Inr c" "oc_high_watermark c \<in> V"
          "(boundary_key (oc_high_watermark c), boundary_key (oc_after c)) = next_bound key limit bound ?S"
        by (auto simp del: split_paired_Ex)
      let ?page = "\<lparr>pg_limit = limit, pg_cursor = Some c\<rparr>"
      have parse: "parse_page k x (Some limit) (Some tx) kind hash = Inr ?page"
        using limit c(1) by (simp add: parse_page_def)
      have bound: "Some (next_bound key limit bound ?S) = bound_of ?page"
        using c(3) by (simp add: bound_of_def)
      have "\<exists>pages. follow_pages request (Some tx) states
          = Inr (pages, snd (walk_rows key limit (Some (next_bound key limit bound ?S)) (map rows states)))
        \<and> map pr_items pages
          = map (map f) (fst (walk_rows key limit (Some (next_bound key limit bound ?S)) (map rows states)))"
        using Cons.prems(4,5) by (intro Cons.IH [OF parse bound]) (simp_all add: c(2))
      with False resp tx show ?thesis by (auto simp: Let_def split: prod.splits)
    qed
  qed simp
  from this [of None "\<lparr>pg_limit = limit, pg_cursor = None\<rparr>" None] limit show ?thesis
    by (simp add: parse_page_def bound_of_def)
qed

text \<open>What the client ends up with, whatever happens to the collection between the requests: rows in
  strictly descending order of their keys, so none twice; full pages until the last; each page out of
  the collection it was asked of; and, when the last page has come, every row that was there at each
  request.\<close>

lemma listing_exact:
  assumes k: "codec_ok k" "boundaries_ok k x kind hash V" "filter_hash k x kind filters = Inr hash"
    and limit: "1 \<le> limit" "limit \<le> MAX_PAGE_LIMIT"
    and rows: "\<forall>s \<in> set states. distinct (map key (rows s))
      \<and> (\<forall>r \<in> set (rows s). joined r \<and> boundary r \<in> V \<and> respond r = Inr (f r))"
    and request: "\<And>cursor s. s \<in> set states \<Longrightarrow> request cursor s
      = list_page k x kind key boundary respond filters (Some limit) cursor (rows s)"
  shows "\<exists>pages finished Ps. follow_pages request None states = Inr (pages, finished)
     \<and> map pr_items pages = map (map f) Ps \<and> sorted_wrt (\<lambda>r s. key s < key r) (concat Ps)
     \<and> length Ps \<le> length states \<and> (\<forall>i < length Ps. set (Ps ! i) \<subseteq> set (rows (states ! i)))
     \<and> (finished \<longrightarrow> (\<forall>r. (\<forall>s \<in> set (take (length Ps) states). r \<in> set (rows s)) \<longrightarrow> r \<in> set (concat Ps)))
     \<and> (\<not> finished \<longrightarrow> length Ps = length states \<and> (\<forall>P \<in> set Ps. length P = limit))"
proof -
  obtain Ps finished where walk: "walk_rows key limit None (map rows states) = (Ps, finished)" by fastforce
  have "\<forall>R \<in> set (map rows states). distinct (map key R)" "0 < limit" using rows limit(1) by auto
  note exact = walk_rows_exact [OF walk this]
  obtain pages where pages: "follow_pages request None states = Inr (pages, finished)"
    "map pr_items pages = map (map f) Ps"
    using follow_pages_walk [OF k limit rows request] walk by auto
  have "r \<in> set (concat Ps)" if "finished" "\<forall>s \<in> set (take (length Ps) states). r \<in> set (rows s)" for r
    using that by (intro exact(5)) (auto simp: take_map in_bounds_def)
  with pages exact show ?thesis by (intro exI [of _ pages] exI [of _ finished] exI [of _ Ps]) simp
qed

text \<open>A collection that stays as it is has been read after as many requests as its rows fill pages,
  and one more at most; the client then has all of it, sorted.\<close>

lemma listing_ends:
  assumes k: "codec_ok k" "boundaries_ok k x kind hash V" "filter_hash k x kind filters = Inr hash"
    and limit: "1 \<le> limit" "limit \<le> MAX_PAGE_LIMIT"
    and rows: "distinct (map key (rows s))"
      "\<forall>r \<in> set (rows s). joined r \<and> boundary r \<in> V \<and> respond r = Inr (f r)"
    and request: "\<And>cursor. request cursor s
      = list_page k x kind key boundary respond filters (Some limit) cursor (rows s)"
    and n: "length (rows s) div limit < n"
  shows "\<exists>pages. follow_pages request None (replicate n s) = Inr (pages, True)
     \<and> concat (map pr_items pages) = map f (rev (sort_key key (rows s)))"
proof -
  have rows': "\<forall>t \<in> set (replicate n s). distinct (map key (rows t))
      \<and> (\<forall>r \<in> set (rows t). joined r \<and> boundary r \<in> V \<and> respond r = Inr (f r))"
    using rows by simp
  have request': "request cursor t = list_page k x kind key boundary respond filters (Some limit) cursor (rows t)"
    if "t \<in> set (replicate n s)" for cursor t
    using that request by simp
  obtain pages finished Ps where pages: "follow_pages request None (replicate n s) = Inr (pages, finished)"
      "map pr_items pages = map (map f) Ps"
    and sorted: "sorted_wrt (\<lambda>r s. key s < key r) (concat Ps)"
    and short: "length Ps \<le> length (replicate n s)" and sub: "\<forall>i < length Ps. set (Ps ! i) \<subseteq> set (rows (replicate n s ! i))"
    and all: "finished \<longrightarrow> (\<forall>r. (\<forall>s \<in> set (take (length Ps) (replicate n s)). r \<in> set (rows s)) \<longrightarrow> r \<in> set (concat Ps))"
    and full: "\<not> finished \<longrightarrow> length Ps = length (replicate n s) \<and> (\<forall>P \<in> set Ps. length P = limit)"
    using listing_exact [OF k limit rows' request'] by blast
  have sub': "set (concat Ps) \<subseteq> set (rows s)"
  proof
    fix r assume "r \<in> set (concat Ps)"
    then obtain i where "i < length Ps" "r \<in> set (Ps ! i)" by (auto simp: in_set_conv_nth [of _ Ps])
    moreover from this short have "replicate n s ! i = s" by simp
    ultimately show "r \<in> set (rows s)" using sub by (metis subsetD)
  qed
  have distinct: "distinct (concat Ps)"
  proof -
    have "sorted_wrt (\<lambda>a b. b < a) (map key (concat Ps))"
      using sorted by (simp only: sorted_wrt_map)
    then have "sorted_wrt (<) (rev (map key (concat Ps)))" by (simp only: sorted_wrt_rev)
    then have "distinct (rev (map key (concat Ps)))" by (simp only: strict_sorted_iff)
    then show ?thesis by (simp only: distinct_rev distinct_map)
  qed
  have "finished"
  proof (rule ccontr)
    assume "\<not> finished"
    with full have "length Ps = n" "\<forall>P \<in> set Ps. length P = limit" by auto
    then have "length (concat Ps) = limit * n"
      by (induction Ps arbitrary: n) (auto simp: length_concat)
    moreover have "length (concat Ps) \<le> length (rows s)"
      using card_mono [OF finite_set sub'] card_length [of "rows s"]
      unfolding distinct_card [OF distinct] by (rule order_trans)
    ultimately have "limit * n \<le> length (rows s)" by simp
    then have "n \<le> length (rows s) div limit" using limit(1)
      by (metis One_nat_def less_eq_Suc_le mult.commute less_eq_div_iff_mult_less_eq)
    with n show False by simp
  qed
  with all have "set (concat Ps) = set (rows s)" using sub' by auto
  then have "mset (rows s) = mset (rev (concat Ps))"
    using distinct rows(1) by (simp only: mset_rev set_eq_iff_mset_eq_distinct distinct_map)
  moreover have "inj_on key (set (rows s))" using rows(1) by (simp add: distinct_map)
  moreover have "sorted (map key (rev (concat Ps)))"
    using sorted unfolding sorted_wrt_map sorted_wrt_rev
    by (rule sorted_wrt_mono_rel [rotated]) simp
  ultimately have "sort_key key (rows s) = rev (concat Ps)" by (rule sort_key_inj_key_eq)
  then have "concat Ps = rev (sort_key key (rows s))" by (metis rev_rev_ident)
  moreover have "concat (map pr_items pages) = map f (concat Ps)"
    unfolding pages(2) by (simp only: map_concat)
  ultimately show ?thesis using pages(1) \<open>finished\<close> by auto
qed

end

end
