(* ===== verification/Retrieval.thy ===== *)
theory Retrieval
  imports Pagination Deletion
begin

text \<open>
  The read-only browsing resources of \<open>retrieval.rs\<close> and the administrative listing of tombstones of
  \<open>deletion.rs\<close>: the filters of each collection, its query as a comprehension over the tables joined
  by the statement, and the single-resource lookups. A collection is a \<open>keyset_collection\<close>; every
  one of them is interpreted below its row type.
\<close>

section \<open>Documents\<close>

record session_latest_snapshot =
  sl_snapshot_id :: string
  sl_completed_at :: string
  sl_project :: "string option"
  sl_repository :: "string option"
  sl_branch :: "string option"
  sl_source_agent_version :: "string option"
  sl_artifact_set_version :: nat
  sl_manifest_url :: string
  sl_snapshot_url :: string

record session_response =
  sr_session_id :: string
  sr_source_agent :: string
  sr_source_session_id :: string
  sr_created_at :: string
  sr_updated_at :: string
  sr_latest_snapshot :: session_latest_snapshot
  sr_captures_url :: string
  sr_snapshots_url :: string

record snapshot_summary =
  ss_snapshot_id :: string
  ss_session_id :: string
  ss_snapshot_fingerprint :: string
  ss_manifest_id :: string
  ss_manifest_sha256 :: string
  ss_completed_at :: string
  ss_artifact_count :: nat
  ss_total_original_bytes :: nat
  ss_total_stored_bytes :: nat
  ss_capture_count :: nat
  ss_snapshot_url :: string
  ss_captures_url :: string
  ss_manifest_url :: string

record manifest_summary =
  ms_manifest_id :: string
  ms_snapshot_id :: string
  ms_session_id :: string
  ms_capture_record_id :: string
  ms_sha256 :: string
  ms_created_at :: string
  ms_completed_at :: string
  ms_snapshot_url :: string
  ms_capture_url :: string
  ms_manifest_url :: string

record manifest_response =
  mr_summary :: manifest_summary
  mr_manifest :: manifest

record artifact_metadata_response =
  am_artifact_id :: string
  am_snapshot_id :: string
  am_artifact_index :: nat
  am_logical_path :: string
  am_media_type :: "string option"
  am_original_size_bytes :: nat
  am_original_sha256 :: string
  am_stored_size_bytes :: nat
  am_stored_sha256 :: string
  am_compression :: compression
  am_created_at :: string
  am_metadata_url :: string
  am_content_url :: string

record snapshot_captures_response =
  sc_snapshot_id :: string
  sc_captures :: "capture_provenance list"
  sc_next_cursor :: "string option"
  sc_high_watermark :: "page_high_watermark option"

section \<open>Filters\<close>

definition MAX_CONTEXT_FILTER_BYTES :: nat where "MAX_CONTEXT_FILTER_BYTES = 512"
definition MAX_SOURCE_AGENT_FILTER_BYTES :: nat where "MAX_SOURCE_AGENT_FILTER_BYTES = 128"

definition normalize_optional_filter ::
  "string option \<Rightarrow> nat \<Rightarrow> string \<Rightarrow> string option result" where
  "normalize_optional_filter v maximum message =
     (case v of
        Some s \<Rightarrow> if length s > maximum \<or> list_ex is_ascii_control s
                  then Inl (invalid message) else Inr v
      | None \<Rightarrow> Inr v)"

definition normalize_optional_nonempty_filter ::
  "string option \<Rightarrow> nat \<Rightarrow> string \<Rightarrow> string option result" where
  "normalize_optional_nonempty_filter v maximum message =
     and_then (normalize_optional_filter v maximum message) (\<lambda>v.
     if v = Some [] then Inl (invalid message) else Inr v)"

text \<open>\<open>Option::map(f).transpose()?\<close>.\<close>

definition try_option :: "('a \<Rightarrow> 'b result) \<Rightarrow> 'a option \<Rightarrow> 'b option result" where
  "try_option f v = (case v of None \<Rightarrow> Inr None | Some a \<Rightarrow> and_then (f a) (\<lambda>b. Inr (Some b)))"

definition activity_sort_key :: "externals \<Rightarrow> string \<Rightarrow> string \<Rightarrow> int result" where
  "activity_sort_key x v message = ok_or (invalid message) (sort_key_from_rfc3339 x v)"

definition normalize_activity_range ::
  "externals \<Rightarrow> string option \<Rightarrow> string option \<Rightarrow> (int option \<times> int option) result" where
  "normalize_activity_range x activity_from activity_to =
     (let read = try_option (\<lambda>v. activity_sort_key x v ''activity timestamp must be RFC 3339'') in
      and_then (read activity_from) (\<lambda>from.
      and_then (read activity_to) (\<lambda>until.
      and_then (reject_if (case (from, until) of (Some f, Some t) \<Rightarrow> f > t | _ \<Rightarrow> False)
        (invalid ''activity_from must not be later than activity_to'')) (\<lambda>_.
      Inr (from, until)))))"

definition normalize_resource_id :: "externals \<Rightarrow> string option \<Rightarrow> string \<Rightarrow> string option result" where
  "normalize_resource_id x v message = try_option (\<lambda>s. parse_uuid x s message) v"

definition normalize_client_id :: "externals \<Rightarrow> string option \<Rightarrow> string option result" where
  "normalize_client_id x v = try_option (\<lambda>s. parse_uuid x s ''client identifier is not a UUID'') v"

definition normalize_content_hash :: "string option \<Rightarrow> string \<Rightarrow> string option result" where
  "normalize_content_hash v message =
     try_option (\<lambda>s. and_then (validate_content_hash s message) (\<lambda>_. Inr s)) v"

definition normalize_artifact_set_version :: "nat option \<Rightarrow> nat option result" where
  "normalize_artifact_set_version v =
     (if v = Some 0
      then Inl (invalid ''artifact set version must be a non-zero adapter contract version'')
      else Inr v)"

text \<open>The \<open>Query\<close> extractor: a rejection of any kind is one validation error.\<close>

definition query_error :: "unit + 'q \<Rightarrow> 'q result" where
  "query_error q = (case q of
     Inl _ \<Rightarrow> Inl (invalid ''query parameters are invalid'') | Inr v \<Rightarrow> Inr v)"

text \<open>The context filters that the session, capture and snapshot collections have in common; each
  filter struct of the source embeds them.\<close>

record context_query =
  cq_source_agent :: "string option"
  cq_repository :: "string option"
  cq_project :: "string option"
  cq_branch :: "string option"
  cq_source_agent_version :: "string option"
  cq_artifact_set_version :: "nat option"

record list_query =
  lq_limit :: "nat option"
  lq_cursor :: "string option"
  lq_client_id :: "string option"
  lq_capture_id :: "string option"
  lq_session_id :: "string option"
  lq_snapshot_id :: "string option"
  lq_context :: context_query
  lq_activity_from :: "string option"
  lq_activity_to :: "string option"

record list_filters =
  lf_session_id :: "string option"
  lf_snapshot_id :: "string option"
  lf_client_id :: "string option"
  lf_context :: context_query
  lf_activity_from :: "int option"
  lf_activity_to :: "int option"

datatype filters =
    Session_Filters list_filters | Capture_Filters list_filters | Snapshot_Filters list_filters
  | Session_Only_Filter string | Snapshot_Only_Filter string
  | Manifest_Filters "string option"
  | Artifact_Filters "string option" "string option" "string option" "string option"
  | No_Filters

definition context_filters :: "context_query \<Rightarrow> context_query result" where
  "context_filters q =
     and_then (normalize_optional_nonempty_filter (cq_source_agent q) MAX_SOURCE_AGENT_FILTER_BYTES
       ''source agent filter is invalid'') (\<lambda>agent.
     and_then (normalize_optional_filter (cq_repository q) MAX_CONTEXT_FILTER_BYTES
       ''repository filter is invalid'') (\<lambda>repo.
     and_then (normalize_optional_filter (cq_project q) MAX_CONTEXT_FILTER_BYTES
       ''project filter is invalid'') (\<lambda>proj.
     and_then (normalize_optional_filter (cq_branch q) MAX_CONTEXT_FILTER_BYTES
       ''branch filter is invalid'') (\<lambda>br.
     and_then (normalize_optional_filter (cq_source_agent_version q) MAX_CONTEXT_FILTER_BYTES
       ''source agent version filter is invalid'') (\<lambda>ver.
     and_then (normalize_artifact_set_version (cq_artifact_set_version q)) (\<lambda>set_version.
     Inr \<lparr>cq_source_agent = agent, cq_repository = repo, cq_project = proj, cq_branch = br,
          cq_source_agent_version = ver, cq_artifact_set_version = set_version\<rparr>))))))"

definition session_filters :: "externals \<Rightarrow> list_query \<Rightarrow> list_filters result" where
  "session_filters x q =
     and_then (normalize_activity_range x (lq_activity_from q) (lq_activity_to q)) (\<lambda>(from, until).
     and_then (context_filters (lq_context q)) (\<lambda>cx.
     and_then (normalize_client_id x (lq_client_id q)) (\<lambda>client.
     Inr \<lparr>lf_session_id = None, lf_snapshot_id = None, lf_client_id = client, lf_context = cx,
          lf_activity_from = from, lf_activity_to = until\<rparr>)))"

definition capture_filters :: "externals \<Rightarrow> list_query \<Rightarrow> list_filters result" where
  "capture_filters x q =
     and_then (normalize_activity_range x (lq_activity_from q) (lq_activity_to q)) (\<lambda>(from, until).
     and_then (normalize_client_id x (lq_client_id q)) (\<lambda>client.
     and_then (normalize_resource_id x (lq_session_id q) ''session identifier is not a UUID'')
       (\<lambda>session_id.
     and_then (normalize_resource_id x (lq_snapshot_id q) ''snapshot identifier is not a UUID'')
       (\<lambda>snapshot_id.
     and_then (context_filters (lq_context q)) (\<lambda>cx.
     Inr \<lparr>lf_session_id = session_id, lf_snapshot_id = snapshot_id, lf_client_id = client,
          lf_context = cx, lf_activity_from = from, lf_activity_to = until\<rparr>)))))"

definition snapshot_filters :: "externals \<Rightarrow> list_query \<Rightarrow> list_filters result" where
  "snapshot_filters x q =
     and_then (normalize_activity_range x (lq_activity_from q) (lq_activity_to q)) (\<lambda>(from, until).
     and_then (normalize_resource_id x (lq_session_id q) ''session identifier is not a UUID'')
       (\<lambda>session_id.
     and_then (context_filters (lq_context q)) (\<lambda>cx.
     and_then (normalize_client_id x (lq_client_id q)) (\<lambda>client.
     Inr \<lparr>lf_session_id = session_id, lf_snapshot_id = None, lf_client_id = client,
          lf_context = cx, lf_activity_from = from, lf_activity_to = until\<rparr>))))"

text \<open>A condition \<open>AND column = ?\<close> that is only written when the filter is present; NULL equals
  nothing.\<close>

definition filter_is :: "'a option \<Rightarrow> 'a \<Rightarrow> bool" where
  "filter_is f v = (case f of None \<Rightarrow> True | Some w \<Rightarrow> v = w)"

definition filter_is_column :: "'a option \<Rightarrow> 'a option \<Rightarrow> bool" where
  "filter_is_column f v = (case f of None \<Rightarrow> True | Some w \<Rightarrow> v = Some w)"

definition in_activity_range :: "list_filters \<Rightarrow> int \<Rightarrow> bool" where
  "in_activity_range f seq =
     ((case lf_activity_from f of None \<Rightarrow> True | Some from \<Rightarrow> seq \<ge> from)
      \<and> (case lf_activity_to f of None \<Rightarrow> True | Some until \<Rightarrow> seq \<le> until))"

lemma no_filter [simp]: "filter_is None v" "filter_is_column None w"
  by (simp_all add: filter_is_def filter_is_column_def)

section \<open>Sessions\<close>

text \<open>\<open>session_latest_context p JOIN sessions s JOIN snapshots snapshot\<close>, restricted to visible
  snapshots.\<close>

definition session_rows :: "database \<Rightarrow> (latest_context_row \<times> session_row) list" where
  "session_rows d =
     [(p, s). p \<leftarrow> db_latest_contexts d,
              s \<leftarrow> db_sessions d, se_id s = lx_session_id p,
              n \<leftarrow> db_snapshots d, sn_id n = lx_snapshot_id p \<and> sn_deleted_at n = None]"

definition session_list_matches :: "database \<Rightarrow> list_filters \<Rightarrow> latest_context_row \<Rightarrow> bool" where
  "session_list_matches d f p =
     (filter_is (cq_source_agent (lf_context f)) (lx_source_agent p)
      \<and> filter_is_column (cq_repository (lf_context f)) (lx_repository p)
      \<and> filter_is_column (cq_project (lf_context f)) (lx_project p)
      \<and> filter_is_column (cq_branch (lf_context f)) (lx_branch p)
      \<and> filter_is_column (cq_source_agent_version (lf_context f)) (lx_source_agent_version p)
      \<and> filter_is (map_option int (cq_artifact_set_version (lf_context f))) (lx_artifact_set_version p)
      \<and> (case lf_client_id f of None \<Rightarrow> True | Some client \<Rightarrow>
           list_ex (\<lambda>c. cp_snapshot_id c = lx_snapshot_id p \<and> cp_client_id c = client) (db_captures d))
      \<and> in_activity_range f (lx_completed_at_seq p))"

definition session_page_key :: "latest_context_row \<times> session_row \<Rightarrow> int \<times> string" where
  "session_page_key = (\<lambda>(p, s). (lx_completed_at_seq p, lx_session_id p))"

definition session_boundary :: "latest_context_row \<times> session_row \<Rightarrow> sort_boundary" where
  "session_boundary = (\<lambda>(p, s).
     \<lparr>sb_sort_key = lx_completed_at_seq p, sb_timestamp = lx_completed_at p, sb_id = se_id s\<rparr>)"

definition u16_try_from :: "int \<Rightarrow> nat option" where
  "u16_try_from i = (if 0 \<le> i \<and> i \<le> 65535 then Some (nat i) else None)"

definition session_response_of :: "latest_context_row \<times> session_row \<Rightarrow> session_response result" where
  "session_response_of = (\<lambda>(p, s).
     and_then (ok_or internal (u16_try_from (lx_artifact_set_version p))) (\<lambda>set_version.
     Inr \<lparr>sr_session_id = se_id s, sr_source_agent = se_source_agent s,
          sr_source_session_id = se_source_session_id s, sr_created_at = se_created_at s,
          sr_updated_at = se_updated_at s,
          sr_latest_snapshot =
            \<lparr>sl_snapshot_id = lx_snapshot_id p, sl_completed_at = lx_completed_at p,
             sl_project = lx_project p, sl_repository = lx_repository p, sl_branch = lx_branch p,
             sl_source_agent_version = lx_source_agent_version p,
             sl_artifact_set_version = set_version,
             sl_manifest_url = ''/api/v1/snapshots/'' @ lx_snapshot_id p @ ''/manifest'',
             sl_snapshot_url = ''/api/v1/snapshots/'' @ lx_snapshot_id p\<rparr>,
          sr_captures_url = ''/api/v1/sessions/'' @ se_id s @ ''/captures'',
          sr_snapshots_url = ''/api/v1/sessions/'' @ se_id s @ ''/snapshots''\<rparr>))"

definition list_sessions ::
  "server \<Rightarrow> filters codec \<Rightarrow> unit + list_query \<Rightarrow> database \<Rightarrow> session_response paginated_response result" where
  "list_sessions srv k params d =
     and_then (query_error params) (\<lambda>q.
     and_then (session_filters (ext srv) q) (\<lambda>f.
     list_page k (ext srv) ''sessions'' session_page_key session_boundary session_response_of
       (Session_Filters f) (lq_limit q) (lq_cursor q)
       (filter (\<lambda>(p, s). session_list_matches d f p) (session_rows d))))"

definition get_session :: "server \<Rightarrow> string \<Rightarrow> database \<Rightarrow> session_response result" where
  "get_session srv path d =
     and_then (parse_uuid (ext srv) path ''session identifier is not a UUID'') (\<lambda>session_id.
     and_then (ok_or (not_found ''session_not_found'' ''session was not found'')
       (find (\<lambda>(p, s). lx_session_id p = session_id) (session_rows d))) session_response_of)"

section \<open>Captures\<close>

text \<open>\<open>capture_select_sql\<close> joined with the visible snapshots.\<close>

definition capture_rows :: "database \<Rightarrow> (capture_row \<times> manifest_row) list" where
  "capture_rows d =
     [(c, m). c \<leftarrow> db_captures d, m \<leftarrow> db_manifests d, mf_id m = cp_manifest_id c,
              n \<leftarrow> db_snapshots d, sn_id n = cp_snapshot_id c \<and> sn_deleted_at n = None]"

definition capture_page_key :: "capture_row \<times> 'm \<Rightarrow> int \<times> string" where
  "capture_page_key = (\<lambda>(c, m). (cp_server_completed_at_seq c, cp_id c))"

definition capture_boundary :: "capture_row \<times> 'm \<Rightarrow> sort_boundary" where
  "capture_boundary = (\<lambda>(c, m).
     \<lparr>sb_sort_key = cp_server_completed_at_seq c, sb_timestamp = cp_server_completed_at c,
      sb_id = cp_id c\<rparr>)"

definition capture_context_matches :: "context_query \<Rightarrow> capture_row \<Rightarrow> bool" where
  "capture_context_matches f c =
     (filter_is_column (cq_repository f) (repository (cp_capture c))
      \<and> filter_is_column (cq_project f) (project (cp_capture c))
      \<and> filter_is_column (cq_branch f) (branch (cp_capture c))
      \<and> filter_is_column (cq_source_agent_version f) (source_agent_version (cp_capture c))
      \<and> filter_is (cq_artifact_set_version f) (artifact_set_version (cp_capture c)))"

text \<open>With the additional join on the session of the capture.\<close>

definition capture_list_matches :: "database \<Rightarrow> list_filters \<Rightarrow> capture_row \<Rightarrow> bool" where
  "capture_list_matches d f c =
     (list_ex (\<lambda>s. se_id s = cp_session_id c
          \<and> filter_is (cq_source_agent (lf_context f)) (se_source_agent s)) (db_sessions d)
      \<and> filter_is (lf_client_id f) (cp_client_id c)
      \<and> filter_is (lf_session_id f) (cp_session_id c)
      \<and> filter_is (lf_snapshot_id f) (cp_snapshot_id c)
      \<and> capture_context_matches (lf_context f) c
      \<and> in_activity_range f (cp_server_completed_at_seq c))"

abbreviation capture_page where
  "capture_page srv k kind flt limit cursor rows \<equiv>
     list_page k (ext srv) kind capture_page_key capture_boundary (\<lambda>(c, m). capture_from_row srv c m)
       flt limit cursor rows"

definition list_session_captures ::
  "server \<Rightarrow> filters codec \<Rightarrow> string \<Rightarrow> unit + list_query \<Rightarrow> database
     \<Rightarrow> capture_provenance paginated_response result" where
  "list_session_captures srv k path params d =
     and_then (parse_uuid (ext srv) path ''session identifier is not a UUID'') (\<lambda>session_id.
     and_then (query_error params) (\<lambda>q.
     capture_page srv k ''session_captures'' (Session_Only_Filter session_id) (lq_limit q) (lq_cursor q)
       (filter (\<lambda>(c, m). cp_session_id c = session_id) (capture_rows d))))"

definition list_captures ::
  "server \<Rightarrow> filters codec \<Rightarrow> list_query \<Rightarrow> database \<Rightarrow> capture_provenance paginated_response result" where
  "list_captures srv k q d =
     and_then (capture_filters (ext srv) q) (\<lambda>f.
     capture_page srv k ''captures'' (Capture_Filters f) (lq_limit q) (lq_cursor q)
       (filter (\<lambda>(c, m). capture_list_matches d f c) (capture_rows d)))"

definition capture_not_found :: api_error where
  "capture_not_found = not_found ''capture_not_found'' ''capture was not found''"

definition find_capture ::
  "server \<Rightarrow> (capture_row \<Rightarrow> bool) \<Rightarrow> database \<Rightarrow> capture_provenance result" where
  "find_capture srv p d =
     and_then (ok_or capture_not_found (find (\<lambda>(c, m). p c) (capture_rows d)))
       (\<lambda>(c, m). capture_from_row srv c m)"

definition capture_by_client :: "server \<Rightarrow> string \<Rightarrow> string \<Rightarrow> database \<Rightarrow> capture_provenance result" where
  "capture_by_client srv client_id wanted d =
     find_capture srv (\<lambda>c. cp_client_id c = client_id \<and> cp_capture_id c = wanted) d"

datatype captures_response =
    One_Capture capture_provenance
  | Capture_Page "capture_provenance paginated_response"

definition has_list_filters :: "list_query \<Rightarrow> bool" where
  "has_list_filters q =
     (lq_limit q \<noteq> None \<or> lq_cursor q \<noteq> None \<or> lq_session_id q \<noteq> None \<or> lq_snapshot_id q \<noteq> None
      \<or> cq_source_agent (lq_context q) \<noteq> None \<or> cq_repository (lq_context q) \<noteq> None
      \<or> cq_project (lq_context q) \<noteq> None \<or> cq_branch (lq_context q) \<noteq> None
      \<or> cq_source_agent_version (lq_context q) \<noteq> None
      \<or> cq_artifact_set_version (lq_context q) \<noteq> None
      \<or> lq_activity_from q \<noteq> None \<or> lq_activity_to q \<noteq> None)"

definition captures ::
  "server \<Rightarrow> filters codec \<Rightarrow> unit + list_query \<Rightarrow> database \<Rightarrow> captures_response result" where
  "captures srv k params d =
     and_then (query_error params) (\<lambda>q.
     case lq_capture_id q of
       Some wanted \<Rightarrow>
         and_then (ok_or (invalid ''capture_id requires a client_id exact lookup'') (lq_client_id q))
           (\<lambda>client.
         and_then (reject_if (has_list_filters q)
           (invalid ''capture exact lookup cannot be combined with list filters'')) (\<lambda>_.
         and_then (parse_uuid (ext srv) client ''client identifier is not a UUID'') (\<lambda>client_id.
         and_then (validate_capture_identifier wanted) (\<lambda>_.
         and_then (capture_by_client srv client_id wanted d) (\<lambda>c. Inr (One_Capture c))))))
     | None \<Rightarrow> and_then (list_captures srv k q d) (\<lambda>page. Inr (Capture_Page page)))"

definition get_capture_by_upload :: "server \<Rightarrow> string \<Rightarrow> database \<Rightarrow> capture_provenance result" where
  "get_capture_by_upload srv path d =
     and_then (parse_uuid (ext srv) path ''upload identifier is not a UUID'') (\<lambda>upload_id.
     capture_for_upload srv upload_id d)"

definition get_capture :: "server \<Rightarrow> string \<Rightarrow> database \<Rightarrow> capture_provenance result" where
  "get_capture srv path d =
     and_then (parse_uuid (ext srv) path ''capture record identifier is not a UUID'') (\<lambda>record_id.
     find_capture srv (\<lambda>c. cp_id c = record_id) d)"

definition get_snapshot_captures ::
  "server \<Rightarrow> filters codec \<Rightarrow> string \<Rightarrow> unit + list_query \<Rightarrow> database
     \<Rightarrow> snapshot_captures_response result" where
  "get_snapshot_captures srv k path params d =
     and_then (parse_uuid (ext srv) path ''snapshot identifier is not a UUID'') (\<lambda>snapshot_id.
     and_then (query_error params) (\<lambda>q.
     and_then (reject_if (live_snapshot d snapshot_id = None)
       (not_found ''snapshot_not_found'' ''snapshot was not found'')) (\<lambda>_.
     and_then (capture_page srv k ''snapshot_captures'' (Snapshot_Only_Filter snapshot_id)
       (lq_limit q) (lq_cursor q)
       (filter (\<lambda>(c, m). cp_snapshot_id c = snapshot_id) (capture_rows d))) (\<lambda>page.
     Inr \<lparr>sc_snapshot_id = snapshot_id, sc_captures = pr_items page,
          sc_next_cursor = pr_next_cursor page, sc_high_watermark = pr_high_watermark page\<rparr>))))"

section \<open>Snapshots\<close>

text \<open>\<open>snapshots s JOIN manifests m JOIN sessions session\<close> of the visible snapshots.\<close>

definition snapshot_rows :: "database \<Rightarrow> (snapshot_row \<times> manifest_row \<times> session_row) list" where
  "snapshot_rows d =
     [(s, m, se). s \<leftarrow> db_snapshots d, sn_deleted_at s = None,
                  m \<leftarrow> db_manifests d, mf_id m = sn_manifest_id s,
                  se \<leftarrow> db_sessions d, se_id se = sn_session_id s]"

definition capture_count :: "database \<Rightarrow> string \<Rightarrow> nat" where
  "capture_count d snapshot_id =
     length (filter (\<lambda>c. cp_snapshot_id c = snapshot_id) (db_captures d))"

definition has_capture_context :: "list_filters \<Rightarrow> bool" where
  "has_capture_context f =
     (cq_repository (lf_context f) \<noteq> None \<or> cq_project (lf_context f) \<noteq> None
      \<or> cq_branch (lf_context f) \<noteq> None \<or> cq_source_agent_version (lf_context f) \<noteq> None
      \<or> cq_artifact_set_version (lf_context f) \<noteq> None \<or> lf_client_id f \<noteq> None)"

definition snapshot_list_matches :: "database \<Rightarrow> list_filters \<Rightarrow> snapshot_row \<times> manifest_row \<times> session_row \<Rightarrow> bool" where
  "snapshot_list_matches d f = (\<lambda>(s, m, se).
     filter_is (lf_session_id f) (sn_session_id s)
     \<and> filter_is (cq_source_agent (lf_context f)) (se_source_agent se)
     \<and> (has_capture_context f \<longrightarrow>
          list_ex (\<lambda>c. cp_snapshot_id c = sn_id s \<and> capture_context_matches (lf_context f) c
            \<and> filter_is (lf_client_id f) (cp_client_id c)) (db_captures d))
     \<and> in_activity_range f (sn_completed_at_seq s))"

definition snapshot_page_key :: "snapshot_row \<times> 'm \<Rightarrow> int \<times> string" where
  "snapshot_page_key = (\<lambda>(s, m). (sn_completed_at_seq s, sn_id s))"

definition snapshot_boundary :: "snapshot_row \<times> 'm \<Rightarrow> sort_boundary" where
  "snapshot_boundary = (\<lambda>(s, m).
     \<lparr>sb_sort_key = sn_completed_at_seq s, sb_timestamp = sn_completed_at s, sb_id = sn_id s\<rparr>)"

definition snapshot_summary_of ::
  "database \<Rightarrow> snapshot_row \<times> manifest_row \<times> session_row \<Rightarrow> snapshot_summary result" where
  "snapshot_summary_of d = (\<lambda>(s, m, se).
     and_then (ok_or internal (u32_try_from (sn_artifact_count s))) (\<lambda>n.
     and_then (ok_or internal (u64_try_from (sn_total_original_size_bytes s))) (\<lambda>original.
     and_then (ok_or internal (u64_try_from (sn_total_stored_size_bytes s))) (\<lambda>stored.
     Inr \<lparr>ss_snapshot_id = sn_id s, ss_session_id = sn_session_id s,
          ss_snapshot_fingerprint = digest_document_value (sn_fingerprint_sha256 s),
          ss_manifest_id = mf_id m, ss_manifest_sha256 = digest_document_value (mf_sha256 m),
          ss_completed_at = sn_completed_at s, ss_artifact_count = n,
          ss_total_original_bytes = original, ss_total_stored_bytes = stored,
          ss_capture_count = capture_count d (sn_id s),
          ss_snapshot_url = ''/api/v1/snapshots/'' @ sn_id s,
          ss_captures_url = ''/api/v1/snapshots/'' @ sn_id s @ ''/captures'',
          ss_manifest_url = ''/api/v1/manifests/'' @ mf_id m\<rparr>))))"

definition snapshot_page ::
  "server \<Rightarrow> filters codec \<Rightarrow> string \<Rightarrow> list_filters \<Rightarrow> nat option \<Rightarrow> string option \<Rightarrow> database
     \<Rightarrow> snapshot_summary paginated_response result" where
  "snapshot_page srv k kind f limit cursor d =
     list_page k (ext srv) kind snapshot_page_key snapshot_boundary (snapshot_summary_of d)
       (Snapshot_Filters f) limit cursor (filter (snapshot_list_matches d f) (snapshot_rows d))"

definition list_snapshots ::
  "server \<Rightarrow> filters codec \<Rightarrow> unit + list_query \<Rightarrow> database \<Rightarrow> snapshot_summary paginated_response result" where
  "list_snapshots srv k params d =
     and_then (query_error params) (\<lambda>q.
     and_then (snapshot_filters (ext srv) q) (\<lambda>f.
     snapshot_page srv k ''snapshots'' f (lq_limit q) (lq_cursor q) d))"

definition no_context :: context_query where
  "no_context =
     \<lparr>cq_source_agent = None, cq_repository = None, cq_project = None, cq_branch = None,
      cq_source_agent_version = None, cq_artifact_set_version = None\<rparr>"

definition list_session_snapshots ::
  "server \<Rightarrow> filters codec \<Rightarrow> string \<Rightarrow> unit + list_query \<Rightarrow> database
     \<Rightarrow> snapshot_summary paginated_response result" where
  "list_session_snapshots srv k path params d =
     and_then (parse_uuid (ext srv) path ''session identifier is not a UUID'') (\<lambda>session_id.
     and_then (query_error params) (\<lambda>q.
     snapshot_page srv k ''session_snapshots''
       \<lparr>lf_session_id = Some session_id, lf_snapshot_id = None, lf_client_id = None,
        lf_context = no_context, lf_activity_from = None, lf_activity_to = None\<rparr>
       (lq_limit q) (lq_cursor q) d))"

section \<open>Manifests\<close>

text \<open>\<open>captures c JOIN snapshots s JOIN manifests m\<close> of the visible snapshots.\<close>

definition manifest_summary_of :: "capture_row \<times> manifest_row \<Rightarrow> manifest_summary" where
  "manifest_summary_of = (\<lambda>(c, m).
     \<lparr>ms_manifest_id = mf_id m, ms_snapshot_id = cp_snapshot_id c, ms_session_id = cp_session_id c,
      ms_capture_record_id = cp_id c, ms_sha256 = digest_document_value (mf_sha256 m),
      ms_created_at = mf_created_at m, ms_completed_at = cp_server_completed_at c,
      ms_snapshot_url = ''/api/v1/snapshots/'' @ cp_snapshot_id c,
      ms_capture_url = ''/api/v1/captures/'' @ cp_id c,
      ms_manifest_url = ''/api/v1/manifests/'' @ mf_id m\<rparr>)"

definition list_manifests ::
  "server \<Rightarrow> filters codec \<Rightarrow> unit + list_query \<Rightarrow> database \<Rightarrow> manifest_summary paginated_response result" where
  "list_manifests srv k params d =
     and_then (query_error params) (\<lambda>q.
     and_then (normalize_resource_id (ext srv) (lq_session_id q) ''session identifier is not a UUID'')
       (\<lambda>session_id.
     list_page k (ext srv) ''manifests'' capture_page_key capture_boundary (\<lambda>r. Inr (manifest_summary_of r))
       (Manifest_Filters session_id) (lq_limit q) (lq_cursor q)
       (filter (\<lambda>(c, m). filter_is session_id (cp_session_id c)) (capture_rows d))))"

definition canonical_manifest_response ::
  "server \<Rightarrow> capture_row \<times> manifest_row \<Rightarrow> manifest_response result" where
  "canonical_manifest_response srv r =
     and_then (ok_or internal (manifest_from_json (ext srv) (mf_canonical_json (snd r)))) (\<lambda>m.
     Inr \<lparr>mr_summary = manifest_summary_of r, mr_manifest = m\<rparr>)"

definition get_manifest :: "server \<Rightarrow> string \<Rightarrow> database \<Rightarrow> manifest_response result" where
  "get_manifest srv path d =
     and_then (parse_uuid (ext srv) path ''manifest identifier is not a UUID'') (\<lambda>manifest_id.
     and_then (ok_or (not_found ''manifest_not_found'' ''manifest was not found'')
       (find (\<lambda>(c, m). mf_id m = manifest_id) (capture_rows d)))
       (canonical_manifest_response srv))"

text \<open>\<open>snapshots s JOIN manifests m JOIN captures c ON c.manifest_id = m.id\<close>: the capture that
  contributed the manifest of the snapshot; the identifier reported is that of the snapshot.\<close>

definition get_snapshot_manifest :: "server \<Rightarrow> string \<Rightarrow> database \<Rightarrow> manifest_response result" where
  "get_snapshot_manifest srv path d =
     and_then (parse_uuid (ext srv) path ''snapshot identifier is not a UUID'') (\<lambda>snapshot_id.
     and_then (ok_or (not_found ''snapshot_not_found'' ''snapshot was not found'')
       (case [(c\<lparr>cp_snapshot_id := sn_id s\<rparr>, m). s \<leftarrow> db_snapshots d,
                sn_id s = snapshot_id \<and> sn_deleted_at s = None,
                m \<leftarrow> db_manifests d, mf_id m = sn_manifest_id s,
                c \<leftarrow> db_captures d, cp_manifest_id c = mf_id m] of
          [] \<Rightarrow> None | r # _ \<Rightarrow> Some r))
       (canonical_manifest_response srv))"

section \<open>Artifacts\<close>

text \<open>\<open>artifacts a JOIN snapshots s JOIN blobs b\<close> of the visible snapshots.\<close>

definition artifact_rows :: "database \<Rightarrow> (artifact_row \<times> snapshot_row \<times> blob_row) list" where
  "artifact_rows d =
     [(a, s, b). a \<leftarrow> db_artifacts d,
                 s \<leftarrow> db_snapshots d, sn_id s = ar_snapshot_id a \<and> sn_deleted_at s = None,
                 b \<leftarrow> db_blobs d, bl_id b = ar_blob_id a]"

definition artifact_page_key :: "artifact_row \<times> 'm \<Rightarrow> int \<times> string" where
  "artifact_page_key = (\<lambda>(a, _). (ar_created_at_seq a, ar_id a))"

definition artifact_boundary :: "artifact_row \<times> 'm \<Rightarrow> sort_boundary" where
  "artifact_boundary = (\<lambda>(a, _).
     \<lparr>sb_sort_key = ar_created_at_seq a, sb_timestamp = ar_created_at a, sb_id = ar_id a\<rparr>)"

definition artifact_metadata_response_of ::
  "artifact_row \<times> snapshot_row \<times> blob_row \<Rightarrow> artifact_metadata_response result" where
  "artifact_metadata_response_of = (\<lambda>(a, s, b).
     and_then (ok_or internal (u32_try_from (ar_artifact_index a))) (\<lambda>index.
     and_then (ok_or internal (u64_try_from (ar_original_size_bytes a))) (\<lambda>original.
     and_then (ok_or internal (u64_try_from (bl_stored_size_bytes b))) (\<lambda>stored.
     and_then (ok_or internal (parse_compression (bl_compression b))) (\<lambda>compr.
     Inr \<lparr>am_artifact_id = ar_id a, am_snapshot_id = ar_snapshot_id a, am_artifact_index = index,
          am_logical_path = ar_logical_path a, am_media_type = ar_media_type a,
          am_original_size_bytes = original,
          am_original_sha256 = digest_document_value (ar_original_sha256 a),
          am_stored_size_bytes = stored,
          am_stored_sha256 = digest_document_value (bl_stored_sha256 b), am_compression = compr,
          am_created_at = ar_created_at a, am_metadata_url = ''/api/v1/artifacts/'' @ ar_id a,
          am_content_url = ''/api/v1/artifacts/'' @ ar_id a @ ''/content''\<rparr>)))))"

record artifact_query =
  aq_limit :: "nat option"
  aq_cursor :: "string option"
  aq_snapshot_id :: "string option"
  aq_session_id :: "string option"
  aq_original_sha256 :: "string option"
  aq_stored_sha256 :: "string option"

definition list_artifacts ::
  "server \<Rightarrow> filters codec \<Rightarrow> unit + artifact_query \<Rightarrow> database
     \<Rightarrow> artifact_metadata_response paginated_response result" where
  "list_artifacts srv k params d =
     and_then (query_error params) (\<lambda>q.
     and_then (normalize_resource_id (ext srv) (aq_snapshot_id q) ''snapshot identifier is not a UUID'')
       (\<lambda>snapshot_id.
     and_then (normalize_resource_id (ext srv) (aq_session_id q) ''session identifier is not a UUID'')
       (\<lambda>session_id.
     and_then (normalize_content_hash (aq_original_sha256 q)
       ''original content hash is not a lowercase sha256 hex digest'') (\<lambda>original.
     and_then (normalize_content_hash (aq_stored_sha256 q)
       ''stored content hash is not a lowercase sha256 hex digest'') (\<lambda>stored.
     list_page k (ext srv) ''artifacts'' artifact_page_key artifact_boundary artifact_metadata_response_of
       (Artifact_Filters snapshot_id session_id original stored) (aq_limit q) (aq_cursor q)
       (filter (\<lambda>(a, s, b). filter_is snapshot_id (ar_snapshot_id a)
           \<and> filter_is session_id (sn_session_id s) \<and> filter_is original (ar_original_sha256 a)
           \<and> filter_is stored (bl_stored_sha256 b)) (artifact_rows d)))))))"

definition get_artifact_metadata :: "server \<Rightarrow> string \<Rightarrow> database \<Rightarrow> artifact_metadata_response result" where
  "get_artifact_metadata srv path d =
     and_then (parse_uuid (ext srv) path ''artifact identifier is not a UUID'') (\<lambda>artifact_id.
     and_then (ok_or (not_found ''artifact_not_found'' ''artifact was not found'')
       (find (\<lambda>(a, s, b). ar_id a = artifact_id) (artifact_rows d))) artifact_metadata_response_of)"

section \<open>Tombstones\<close>

definition tombstone_page_key :: "tombstone_row \<Rightarrow> int \<times> string" where
  "tombstone_page_key t = (ts_deleted_at_seq t, ts_id t)"

definition tombstone_boundary :: "tombstone_row \<Rightarrow> sort_boundary" where
  "tombstone_boundary t =
     \<lparr>sb_sort_key = ts_deleted_at_seq t, sb_timestamp = ts_deleted_at t, sb_id = ts_id t\<rparr>"

text \<open>The page is cut first; only the tombstones that stay are enriched.\<close>

definition list_tombstones ::
  "server \<Rightarrow> filters codec \<Rightarrow> nat option \<Rightarrow> string option \<Rightarrow> database
     \<Rightarrow> tombstone_response paginated_response result" where
  "list_tombstones srv k limit cursor d =
     and_then (require_admin_enabled srv) (\<lambda>_.
     and_then (list_page k (ext srv) ''tombstones'' tombstone_page_key tombstone_boundary Inr
       No_Filters limit cursor (db_tombstones d)) (\<lambda>truncated.
     and_then (try_map (\<lambda>t. tombstone_response_of srv (ts_snapshot_id t) d) (pr_items truncated)) (\<lambda>items.
     Inr \<lparr>pr_items = items, pr_next_cursor = pr_next_cursor truncated,
          pr_high_watermark = pr_high_watermark truncated\<rparr>)))"

section \<open>Every collection is a keyset collection\<close>

interpretation sessions: keyset_collection
  "\<lambda>(p, s). se_id s = lx_session_id p" session_page_key session_boundary
  by unfold_locales (auto simp: session_page_key_def session_boundary_def boundary_key_def)

interpretation capture_collection: keyset_collection "\<lambda>_. True" capture_page_key capture_boundary
  by unfold_locales (auto simp: capture_page_key_def capture_boundary_def boundary_key_def)

interpretation snapshot_collection: keyset_collection "\<lambda>_. True" snapshot_page_key snapshot_boundary
  by unfold_locales (auto simp: snapshot_page_key_def snapshot_boundary_def boundary_key_def)

interpretation artifact_collection: keyset_collection "\<lambda>_. True" artifact_page_key artifact_boundary
  by unfold_locales (auto simp: artifact_page_key_def artifact_boundary_def boundary_key_def)

interpretation tombstone_collection: keyset_collection "\<lambda>_. True" tombstone_page_key tombstone_boundary
  by unfold_locales (auto simp: tombstone_page_key_def tombstone_boundary_def boundary_key_def)

end
