(* ===== verification/Reconciliation.thy ===== *)
theory Reconciliation
  imports Retrieval Contents_Invariant Archive_Steps
begin

text \<open>
  \<open>reconcile_snapshot\<close> of \<open>ingestion.rs\<close>, which compares the normalized rows of a snapshot with its
  canonical manifest, and the two resources of \<open>retrieval.rs\<close> that call it before they answer: the
  snapshot document and the download of an artifact. The contents invariant makes the comparison
  succeed for every live snapshot of a reachable archive.
\<close>

section \<open>Reconciliation\<close>

datatype reconciliation_error = Reconcile_Not_Found | Reconcile_Metadata | Reconcile_Drift

text \<open>\<open>artifacts a JOIN blobs b ... WHERE a.snapshot_id = ? ORDER BY a.artifact_index\<close>.\<close>

definition snapshot_artifact_rows :: "database \<Rightarrow> string \<Rightarrow> (artifact_row \<times> blob_row) list" where
  "snapshot_artifact_rows d snapshot_id =
     sort_key (\<lambda>(a, b). ar_artifact_index a)
       [(a, b). a \<leftarrow> db_artifacts d, ar_snapshot_id a = snapshot_id,
                b \<leftarrow> db_blobs d, bl_id b = ar_blob_id a]"

definition reconcile_artifact ::
  "nat \<times> artifact \<times> artifact_row \<times> blob_row \<Rightarrow> reconciliation_error + unit" where
  "reconcile_artifact = (\<lambda>(index, a, row, b).
     and_then (ok_or Reconcile_Drift (i64_try_from index)) (\<lambda>i.
     and_then (reject_if (ar_artifact_index row \<noteq> i \<or> ar_logical_path row \<noteq> logical_path a
       \<or> ar_media_type row \<noteq> media_type a) Reconcile_Drift) (\<lambda>_.
     and_then (ok_or Reconcile_Drift (i64_try_from (original_size_bytes a))) (\<lambda>original_size.
     and_then (reject_if (ar_original_size_bytes row \<noteq> original_size
       \<or> ar_original_sha256 row \<noteq> digest_storage_value (original_sha256 a)) Reconcile_Drift) (\<lambda>_.
     and_then (ok_or Reconcile_Drift (i64_try_from (stored_size_bytes a))) (\<lambda>stored_size.
     reject_if (bl_stored_size_bytes b \<noteq> stored_size
       \<or> bl_stored_sha256 b \<noteq> digest_storage_value (stored_sha256 a)
       \<or> bl_compression b \<noteq> compression_name (compression a)) Reconcile_Drift))))))"

definition map_error :: "('e \<Rightarrow> 'f) \<Rightarrow> 'e + 'a \<Rightarrow> 'f + 'a" where
  "map_error f r = (case r of Inl err \<Rightarrow> Inl (f err) | Inr v \<Rightarrow> Inr v)"

definition reconcile_snapshot :: "externals \<Rightarrow> string \<Rightarrow> database \<Rightarrow> reconciliation_error + unit" where
  "reconcile_snapshot x snapshot_id d =
     and_then (ok_or Reconcile_Not_Found
       (case live_snapshot d snapshot_id of
          None \<Rightarrow> None
        | Some s \<Rightarrow> map_option (Pair s) (manifest_by_id d (sn_manifest_id s)))) (\<lambda>(s, mf).
     and_then (reject_if (sha256_hex x (string_bytes (mf_canonical_json mf)) \<noteq> mf_sha256 mf)
       Reconcile_Drift) (\<lambda>_.
     and_then (ok_or Reconcile_Drift (manifest_from_json x (mf_canonical_json mf))) (\<lambda>m.
     let rows = snapshot_artifact_rows d snapshot_id in
     and_then (reject_if (length rows \<noteq> length (artifacts m)) Reconcile_Drift) (\<lambda>_.
     and_then (ok_or Reconcile_Drift (i64_try_from (length (artifacts m)))) (\<lambda>n.
     and_then (reject_if (sn_artifact_count s \<noteq> n) Reconcile_Drift) (\<lambda>_.
     and_then (map_error (\<lambda>_. Reconcile_Drift) (manifest_totals m)) (\<lambda>(original_total, stored_total).
     and_then (ok_or Reconcile_Drift (i64_try_from original_total)) (\<lambda>original.
     and_then (reject_if (sn_total_original_size_bytes s \<noteq> original) Reconcile_Drift) (\<lambda>_.
     and_then (ok_or Reconcile_Drift (i64_try_from stored_total)) (\<lambda>stored.
     and_then (reject_if (sn_total_stored_size_bytes s \<noteq> stored) Reconcile_Drift) (\<lambda>_.
     try_each reconcile_artifact (enumerate 0 (zip (artifacts m) rows)))))))))))))"

section \<open>The snapshot document\<close>

record artifact_response =
  as_artifact_id :: string
  as_artifact_index :: nat
  as_logical_path :: string
  as_media_type :: "string option"
  as_original_size_bytes :: nat
  as_original_sha256 :: string
  as_stored_size_bytes :: nat
  as_stored_sha256 :: string
  as_compression :: compression
  as_metadata_url :: string
  as_content_url :: string

record snapshot_response =
  sp_snapshot_id :: string
  sp_session_id :: string
  sp_snapshot_fingerprint :: string
  sp_manifest_id :: string
  sp_manifest_sha256 :: string
  sp_completed_at :: string
  sp_artifact_count :: nat
  sp_total_original_bytes :: nat
  sp_total_stored_bytes :: nat
  sp_capture_count :: nat
  sp_captures_url :: string
  sp_manifest_url :: string
  sp_manifest :: manifest
  sp_artifacts :: "artifact_response list"

definition artifact_response_of :: "artifact_row \<times> blob_row \<Rightarrow> artifact_response result" where
  "artifact_response_of = (\<lambda>(a, b).
     and_then (ok_or internal (u32_try_from (ar_artifact_index a))) (\<lambda>index.
     and_then (ok_or internal (u64_try_from (ar_original_size_bytes a))) (\<lambda>original.
     and_then (ok_or internal (u64_try_from (bl_stored_size_bytes b))) (\<lambda>stored.
     and_then (ok_or internal (parse_compression (bl_compression b))) (\<lambda>compr.
     Inr \<lparr>as_artifact_id = ar_id a, as_artifact_index = index, as_logical_path = ar_logical_path a,
          as_media_type = ar_media_type a, as_original_size_bytes = original,
          as_original_sha256 = digest_document_value (ar_original_sha256 a),
          as_stored_size_bytes = stored,
          as_stored_sha256 = digest_document_value (bl_stored_sha256 b), as_compression = compr,
          as_metadata_url = ''/api/v1/artifacts/'' @ ar_id a,
          as_content_url = ''/api/v1/artifacts/'' @ ar_id a @ ''/content''\<rparr>)))))"

fun snapshot_reconciliation_error :: "reconciliation_error \<Rightarrow> api_error" where
  "snapshot_reconciliation_error Reconcile_Not_Found = not_found ''snapshot_not_found'' ''snapshot was not found''"
| "snapshot_reconciliation_error Reconcile_Drift = internal"
| "snapshot_reconciliation_error Reconcile_Metadata = internal"

definition snapshot_response_of :: "externals \<Rightarrow> string \<Rightarrow> database \<Rightarrow> snapshot_response result" where
  "snapshot_response_of x snapshot_id d =
     and_then (ok_or (not_found ''snapshot_not_found'' ''snapshot was not found'')
       (case live_snapshot d snapshot_id of
          None \<Rightarrow> None
        | Some s \<Rightarrow> map_option (Pair s) (manifest_by_id d (sn_manifest_id s)))) (\<lambda>(s, mf).
     and_then (map_error snapshot_reconciliation_error (reconcile_snapshot x snapshot_id d)) (\<lambda>_.
     and_then (ok_or internal (manifest_from_json x (mf_canonical_json mf))) (\<lambda>m.
     and_then (try_map artifact_response_of (snapshot_artifact_rows d snapshot_id)) (\<lambda>arts.
     and_then (ok_or internal (u32_try_from (sn_artifact_count s))) (\<lambda>n.
     and_then (ok_or internal (u64_try_from (sn_total_original_size_bytes s))) (\<lambda>original.
     and_then (ok_or internal (u64_try_from (sn_total_stored_size_bytes s))) (\<lambda>stored.
     Inr \<lparr>sp_snapshot_id = sn_id s, sp_session_id = sn_session_id s,
          sp_snapshot_fingerprint = digest_document_value (sn_fingerprint_sha256 s),
          sp_manifest_id = mf_id mf, sp_manifest_sha256 = digest_document_value (mf_sha256 mf),
          sp_completed_at = sn_completed_at s, sp_artifact_count = n,
          sp_total_original_bytes = original, sp_total_stored_bytes = stored,
          sp_capture_count = capture_count d (sn_id s),
          sp_captures_url = ''/api/v1/snapshots/'' @ sn_id s @ ''/captures'',
          sp_manifest_url = ''/api/v1/manifests/'' @ mf_id mf, sp_manifest = m,
          sp_artifacts = arts\<rparr>)))))))"

definition get_snapshot :: "server \<Rightarrow> string \<Rightarrow> database \<Rightarrow> snapshot_response result" where
  "get_snapshot srv path d =
     and_then (parse_uuid (ext srv) path ''snapshot identifier is not a UUID'') (\<lambda>snapshot_id.
     snapshot_response_of (ext srv) snapshot_id d)"

section \<open>Downloads\<close>

definition storage_digest :: "string \<Rightarrow> string option" where
  "storage_digest v =
     (if length v = 64
         \<and> list_all (\<lambda>c. is_ascii_digit c \<or> (is_ascii_lowercase c \<and> is_ascii_hexdigit c)) v
      then Some v else None)"

definition canonical_digest :: "string \<Rightarrow> string option" where
  "canonical_digest v = Option.bind (strip_prefix ''sha256:'' v) storage_digest"

record download_metadata =
  dm_logical_path :: string
  dm_media_type :: "string option"
  dm_original_size_bytes :: nat
  dm_original_sha256 :: string
  dm_stored_size_bytes :: nat
  dm_stored_sha256 :: string
  dm_compression :: compression

definition download_metadata_from_row ::
  "externals \<Rightarrow> artifact_row \<times> blob_row \<times> manifest_row \<Rightarrow> download_metadata result" where
  "download_metadata_from_row x = (\<lambda>(row, b, mf).
     and_then (reject_if (sha256_hex x (string_bytes (mf_canonical_json mf)) \<noteq> mf_sha256 mf)
       artifact_integrity) (\<lambda>_.
     and_then (ok_or artifact_integrity (manifest_from_json x (mf_canonical_json mf))) (\<lambda>m.
     and_then (ok_or artifact_integrity (u64_try_from (ar_artifact_index row))) (\<lambda>index.
     and_then (ok_or artifact_integrity
       (if index < length (artifacts m) then Some (artifacts m ! index) else None)) (\<lambda>a.
     and_then (ok_or artifact_integrity (canonical_digest (original_sha256 a))) (\<lambda>original_digest.
     and_then (ok_or artifact_integrity (canonical_digest (stored_sha256 a))) (\<lambda>stored_digest.
     and_then (ok_or artifact_integrity (u64_try_from (ar_original_size_bytes row))) (\<lambda>original_size.
     and_then (ok_or artifact_integrity (u64_try_from (bl_stored_size_bytes b))) (\<lambda>stored_size.
     and_then (ok_or artifact_integrity (parse_compression (bl_compression b))) (\<lambda>compr.
     and_then (reject_if (ar_logical_path row \<noteq> logical_path a \<or> ar_media_type row \<noteq> media_type a
         \<or> original_size \<noteq> original_size_bytes a
         \<or> storage_digest (ar_original_sha256 row) \<noteq> Some original_digest
         \<or> stored_size \<noteq> stored_size_bytes a
         \<or> storage_digest (bl_stored_sha256 b) \<noteq> Some stored_digest
         \<or> compr \<noteq> compression a) artifact_integrity) (\<lambda>_.
     Inr \<lparr>dm_logical_path = logical_path a, dm_media_type = media_type a,
          dm_original_size_bytes = original_size_bytes a,
          dm_original_sha256 = digest_document_value original_digest,
          dm_stored_size_bytes = stored_size_bytes a, dm_stored_sha256 = stored_digest,
          dm_compression = compression a\<rparr>)))))))))))"

fun download_reconciliation_error :: "reconciliation_error \<Rightarrow> api_error" where
  "download_reconciliation_error Reconcile_Metadata = database_error"
| "download_reconciliation_error Reconcile_Not_Found = artifact_integrity"
| "download_reconciliation_error Reconcile_Drift = artifact_integrity"

text \<open>\<open>artifacts a JOIN snapshots s JOIN manifests m JOIN blobs b\<close> for one artifact.\<close>

definition verified_download_metadata ::
  "externals \<Rightarrow> string \<Rightarrow> database \<Rightarrow> download_metadata option result" where
  "verified_download_metadata x artifact_id d =
     (case [(a, b, m). (a, s, b) \<leftarrow> artifact_rows d, ar_id a = artifact_id,
                       m \<leftarrow> db_manifests d, mf_id m = sn_manifest_id s] of
        [] \<Rightarrow> Inr None
      | (a, b, m) # _ \<Rightarrow>
          and_then (download_metadata_from_row x (a, b, m)) (\<lambda>metadata.
          and_then (map_error download_reconciliation_error (reconcile_snapshot x (ar_snapshot_id a) d))
            (\<lambda>_. Inr (Some metadata))))"

text \<open>\<open>preflight_blob\<close>: the whole file is read and hashed before the first byte is sent. The file is
  what the symbolic link check and the open find; it does not change while it is read, so the second
  look at its metadata agrees with the first.\<close>

fun preflight_loop :: "nat \<Rightarrow> nat \<times> bytes \<Rightarrow> bytes list \<Rightarrow> (nat \<times> bytes) result" where
  "preflight_loop expected_size (seen, hashed) [] = Inr (seen, hashed)"
| "preflight_loop expected_size (seen, hashed) (b # bs) =
     and_then (ok_or artifact_integrity (checked_add seen (length b))) (\<lambda>sofar.
     and_then (reject_if (sofar > expected_size) artifact_integrity) (\<lambda>_.
     preflight_loop expected_size (sofar, hashed @ b) bs))"

definition preflight_blob :: "externals \<Rightarrow> entry option \<Rightarrow> nat \<Rightarrow> string \<Rightarrow> (bytes \<times> bytes) result" where
  "preflight_blob x file expected_size expected_sha256 =
     and_then (reject_if (storage_digest expected_sha256 = None) artifact_integrity) (\<lambda>_.
     case file of
       Some (Regular bs) \<Rightarrow>
         and_then (reject_if (length bs \<noteq> expected_size) artifact_integrity) (\<lambda>_.
         and_then (preflight_loop expected_size (0, []) (buffer_reads bs)) (\<lambda>(seen, hashed).
         and_then (reject_if (seen \<noteq> expected_size \<or> sha256_hex x hashed \<noteq> expected_sha256)
           artifact_integrity) (\<lambda>_.
         Inr (bs, sha256_digest x hashed))))
     | _ \<Rightarrow> Inl artifact_integrity)"

text \<open>The headers carry the metadata and the digest in base64. The two base64 alphabets and the check
  of a header value are third-party code.\<close>

record header_codec =
  base64_encode :: "bytes \<Rightarrow> string"
  base64url_text :: "string \<Rightarrow> string"
  header_value_ok :: "string \<Rightarrow> bool"

definition header_value_of :: "header_codec \<Rightarrow> string \<Rightarrow> string result" where
  "header_value_of h v = (if header_value_ok h v then Inr v else Inl artifact_integrity)"

definition download_headers ::
  "externals \<Rightarrow> header_codec \<Rightarrow> download_metadata \<Rightarrow> bytes \<Rightarrow> (string \<times> string) list result" where
  "download_headers x h metadata digest =
     and_then (reject_if (case dm_media_type metadata of None \<Rightarrow> False | Some t \<Rightarrow> \<not> mime_parses x t)
       artifact_integrity) (\<lambda>_.
     and_then (header_value_of h (case dm_media_type metadata of
         None \<Rightarrow> ''application/octet-stream'' | Some t \<Rightarrow> t)) (\<lambda>content_type.
     and_then (header_value_of h (nat_to_string (dm_stored_size_bytes metadata))) (\<lambda>content_length.
     and_then (header_value_of h (''SHA-256='' @ base64_encode h digest)) (\<lambda>digest_header.
     and_then (header_value_of h (''sha-256=:'' @ base64_encode h digest @ '':'')) (\<lambda>content_digest.
     and_then (header_value_of h (base64url_text h (dm_logical_path metadata))) (\<lambda>path.
     and_then (case dm_media_type metadata of
         None \<Rightarrow> Inr [] | Some t \<Rightarrow> and_then (header_value_of h t) (\<lambda>v. Inr [(''x-patwari-media-type'', v)]))
       (\<lambda>media.
     and_then (header_value_of h (nat_to_string (dm_original_size_bytes metadata))) (\<lambda>original_size.
     and_then (header_value_of h (dm_original_sha256 metadata)) (\<lambda>original_digest.
     and_then (header_value_of h (digest_document_value (dm_stored_sha256 metadata))) (\<lambda>stored_digest.
     Inr ([(''content-type'', content_type), (''content-length'', content_length),
           (''cache-control'', ''no-transform'')]
          @ (if dm_compression metadata = Zstd then [(''content-encoding'', ''zstd'')] else [])
          @ [(''digest'', digest_header), (''content-digest'', content_digest),
             (''x-patwari-logical-path'', path),
             (''x-patwari-logical-path-encoding'', ''base64url'')]
          @ media
          @ [(''x-patwari-compression'', compression_name (dm_compression metadata)),
             (''x-patwari-original-size-bytes'', original_size),
             (''x-patwari-original-sha256'', original_digest),
             (''x-patwari-stored-size-bytes'', content_length),
             (''x-patwari-stored-sha256'', stored_digest)])))))))))))"

text \<open>A download that is not cut off: the headers and the bytes the stream delivers.\<close>

definition download_artifact ::
  "server \<Rightarrow> header_codec \<Rightarrow> string \<Rightarrow> archive \<Rightarrow> ((string \<times> string) list \<times> bytes) result" where
  "download_artifact srv h path s =
     and_then (parse_uuid (ext srv) path ''artifact identifier is not a UUID'') (\<lambda>artifact_id.
     and_then (verified_download_metadata (ext srv) artifact_id (db s)) (\<lambda>found.
     and_then (ok_or (not_found ''artifact_not_found'' ''artifact was not found'') found) (\<lambda>metadata.
     and_then (preflight_blob (ext srv) (blob_file (fs s) (dm_stored_sha256 metadata))
       (dm_stored_size_bytes metadata) (dm_stored_sha256 metadata)) (\<lambda>(bytes, digest).
     and_then (download_headers (ext srv) h metadata digest) (\<lambda>headers.
     Inr (headers, bytes))))))"

end
