(* ===== verification/Archive_Contents.thy ===== *)
theory Archive_Contents
  imports Archive_Steps Contents_Invariant Reconciliation
begin

text \<open>
  The contents invariant holds in every reachable archive, and what follows for the readers of
  \<open>Reconciliation\<close>: the comparison of the rows with the canonical manifest succeeds for every live
  snapshot, and the bytes of every archived artifact pass the checks of a download.
\<close>

section \<open>The contents invariant of a reachable archive\<close>

lemma run_request_contents:
  assumes "upload_inv srv s" "history_inv srv s" "contents_inv (ext srv) (db s)"
  shows "contents_inv (ext srv) (db (run_request srv e r s))"
proof -
  let ?I = "\<lambda>s. contents_inv (ext srv) (db s)"
  have keep: "?I (snd (m s))" if "preserves ?I m" for m :: "(archive, 'a) op"
    using that assms(3) by (rule preserves_snd)
  have "distinct (map sn_id (db_snapshots (db s)))"
    using assms(2) by (simp add: history_inv_def snapshots_recorded_def)
  with assms(3) have delete: "?I (snd (delete_snapshot srv e path header payload s))" for path header payload
    using preserves_snd [OF delete_snapshot_contents] by blast
  show ?thesis
    by (cases r) (simp_all add: keep keeps_contents_view_inv register_client_contents
        create_upload_contents get_upload_status_contents put_artifact_chunk_contents
        complete_upload_contents [OF assms(1,3)] abandon_upload_contents expire_uploads_contents
        delete run_blob_gc_contents)
qed

interpretation contents: inductive_invariant empty_archive "archive_step srv U"
  "\<lambda>s. trusted srv U \<longrightarrow> sound srv U s \<and> contents_inv (ext srv) (db s)" for srv U
proof
  show "trusted srv U \<longrightarrow> sound srv U empty_archive \<and> contents_inv (ext srv) (db empty_archive)"
    using archive.start by (simp add: contents_inv_def empty_archive_def empty_database_def)
next
  fix s t
  assume "trusted srv U \<longrightarrow> sound srv U s \<and> contents_inv (ext srv) (db s)" "archive_step srv U s t"
  then show "trusted srv U \<longrightarrow> sound srv U t \<and> contents_inv (ext srv) (db t)"
    using archive.kept [of srv U s t]
    by (auto simp: sound_def elim!: archive_stepE intro!: run_request_contents)
qed

lemma reachable_contents:
  assumes "trusted srv U" "archive_reachable srv U s"
  shows "contents_inv (ext srv) (db s)"
  using contents.always [OF assms(2)] assms(1) by simp

section \<open>The joined rows of a snapshot\<close>

definition describes_joined :: "artifact_row \<times> blob_row \<Rightarrow> nat \<times> artifact \<Rightarrow> bool" where
  "describes_joined = (\<lambda>(r, b) (i, a).
     ar_artifact_index r = int i \<and> ar_logical_path r = logical_path a \<and> ar_media_type r = media_type a
     \<and> ar_original_size_bytes r = int (original_size_bytes a) \<and> original_size_bytes a \<le> i64_max
     \<and> ar_original_sha256 r = digest_storage_value (original_sha256 a)
     \<and> stored_size_bytes a \<le> i64_max \<and> bl_id b = ar_blob_id r \<and> bl_stored_sha256 b = stored_digest a
     \<and> bl_stored_size_bytes b = int (stored_size_bytes a)
     \<and> bl_compression b = compression_name (compression a))"

lemma join_unique:
  "distinct (map key xs) \<Longrightarrow> b \<in> set xs \<Longrightarrow> key b = k \<Longrightarrow>
     concat (map (\<lambda>y. if key y = k then [f y] else []) xs) = [f b]"
  by (induction xs) (auto simp: image_iff)

lemma join_describes:
  assumes "distinct (map bl_id blobs)"
    and "list_all2 (describes blobs) (filter (\<lambda>a. ar_snapshot_id a = sid) rows) es"
  shows "list_all2 describes_joined
      [(a, b). a \<leftarrow> rows, ar_snapshot_id a = sid, b \<leftarrow> blobs, bl_id b = ar_blob_id a] es
    \<and> map fst [(a, b). a \<leftarrow> rows, ar_snapshot_id a = sid, b \<leftarrow> blobs, bl_id b = ar_blob_id a]
      = filter (\<lambda>a. ar_snapshot_id a = sid) rows"
  using assms(2)
proof (induction rows arbitrary: es)
  case (Cons r rows)
  show ?case
  proof (cases "ar_snapshot_id r = sid")
    case True
    with Cons.prems obtain e es' where es: "es = e # es'" "describes blobs r e"
      "list_all2 (describes blobs) (filter (\<lambda>a. ar_snapshot_id a = sid) rows) es'"
      by (auto simp: list_all2_Cons1)
    then obtain b where b: "b \<in> set blobs" "bl_id b = ar_blob_id r" "describes_joined (r, b) e"
      by (auto simp: describes_def describes_joined_def)
    with True Cons.IH [OF es(3)] join_unique [OF assms(1) b(1,2), of "\<lambda>b. (r, b)"] show ?thesis
      by (simp add: es(1))
  qed (use Cons in simp)
qed simp

lemma snapshot_rows_describe:
  assumes "distinct (map bl_id (db_blobs d))"
    and "list_all2 (describes (db_blobs d)) (rows_of_snapshot d sid) (enumerate 0 xs)"
  shows "list_all2 describes_joined (snapshot_artifact_rows d sid) (enumerate 0 xs)"
    and "map fst (snapshot_artifact_rows d sid) = rows_of_snapshot d sid"
proof -
  let ?rows = "[(a, b). a \<leftarrow> db_artifacts d, ar_snapshot_id a = sid, b \<leftarrow> db_blobs d, bl_id b = ar_blob_id a]"
  note joined = join_describes [OF assms(1) assms(2) [unfolded rows_of_snapshot_def]]
  have "map (\<lambda>(a, b). ar_artifact_index a) ?rows = map int [0 ..< length xs]"
  proof (rule nth_equalityI)
    show "length (map (\<lambda>(a, b). ar_artifact_index a) ?rows) = length (map int [0 ..< length xs])"
      using list_all2_lengthD [OF conjunct1 [OF joined]] by simp
  next
    fix i assume "i < length (map (\<lambda>(a, b). ar_artifact_index a) ?rows)"
    then have i: "i < length ?rows" by simp
    then have "describes_joined (?rows ! i) (enumerate 0 xs ! i)"
      using joined by (auto simp: list_all2_conv_all_nth)
    moreover have "i < length xs" using i list_all2_lengthD [OF conjunct1 [OF joined]] by simp
    ultimately show "map (\<lambda>(a, b). ar_artifact_index a) ?rows ! i = map int [0 ..< length xs] ! i"
      using i by (auto simp: describes_joined_def nth_enumerate_eq split: prod.splits)
  qed
  then have "sorted (map (\<lambda>(a, b). ar_artifact_index a) ?rows)"
    by (simp only:) (simp add: sorted_iff_nth_mono)
  then have "snapshot_artifact_rows d sid = ?rows"
    unfolding snapshot_artifact_rows_def by (rule sort_key_id_if_sorted)
  with joined show "list_all2 describes_joined (snapshot_artifact_rows d sid) (enumerate 0 xs)"
    "map fst (snapshot_artifact_rows d sid) = rows_of_snapshot d sid"
    by (simp_all add: rows_of_snapshot_def)
qed

section \<open>Live snapshots reconcile\<close>

lemma reconcile_rows:
  assumes "list_all2 describes_joined rows (enumerate 0 xs)"
    and n: "length xs \<le> i64_max"
  shows "try_each reconcile_artifact (enumerate 0 (zip xs rows)) = Inr ()"
  unfolding try_each_eq_Inr
proof
  fix e assume e: "e \<in> set (enumerate 0 (zip xs rows))"
  obtain i a r b where abrv: "e = (i, a, r, b)" by (rule prod_cases4)
  with e have i: "i < length xs" "i < length rows" "xs ! i = a" "rows ! i = (r, b)"
    by (auto simp: in_set_enumerate_eq)
  then have "describes_joined (r, b) (i, a)"
    using list_all2_nthD [OF assms(1), of i] by (simp add: nth_enumerate_eq)
  with n i(1) show "reconcile_artifact e = Inr ()"
    by (simp add: abrv reconcile_artifact_def describes_joined_def i64_try_from_def stored_digest_def)
qed

lemma live_snapshot_None: "live_snapshot d sid = None \<longleftrightarrow> sid \<notin> live_ids d"
  by (auto simp: live_snapshot_def find_None live_ids_def)

lemma live_snapshot_SomeD:
  assumes "live_snapshot d sid = Some s"
  shows "s \<in> set (db_snapshots d)" "sn_id s = sid" "sn_deleted_at s = None"
  using find_SomeD [OF assms [unfolded live_snapshot_def]] by simp_all

text \<open>What a reader finds of a live snapshot: its intact manifest and the rows it describes.\<close>

lemma live_snapshot_contents:
  assumes inv: "contents_inv x d" and blobs: "distinct (map bl_id (db_blobs d))"
    and live: "live_snapshot d sid = Some s"
  obtains mf m original stored where "manifest_by_id d (sn_manifest_id s) = Some mf"
    "manifest_row_ok x mf m" "sn_artifact_count s = int (length (artifacts m))"
    "length (artifacts m) \<le> i64_max" "manifest_totals m = Inr (original, stored)"
    "sn_total_original_size_bytes s = int original" "original \<le> i64_max"
    "sn_total_stored_size_bytes s = int stored" "stored \<le> i64_max"
    "list_all2 describes_joined (snapshot_artifact_rows d sid) (enumerate 0 (artifacts m))"
    "map fst (snapshot_artifact_rows d sid) = rows_of_snapshot d sid"
proof -
  note s = live_snapshot_SomeD [OF live]
  have contents: "snapshot_contents x (db_manifests d) (db_blobs d) (rows_of_snapshot d sid) s"
    using contents_invD(3) [OF inv s(1,3)] by (simp add: s(2))
  then obtain mf m original stored where mf: "mf \<in> set (db_manifests d)" "mf_id mf = sn_manifest_id s"
    and m: "manifest_row_ok x mf m" "sn_artifact_count s = int (length (artifacts m))"
      "length (artifacts m) \<le> i64_max" "manifest_totals m = Inr (original, stored)"
      "sn_total_original_size_bytes s = int original" "original \<le> i64_max"
      "sn_total_stored_size_bytes s = int stored" "stored \<le> i64_max"
    and rows: "list_all2 (describes (db_blobs d)) (rows_of_snapshot d sid) (enumerate 0 (artifacts m))"
    unfolding snapshot_contents_def by blast
  have "manifest_by_id d (sn_manifest_id s) = Some mf"
    unfolding manifest_by_id_def using mf contents_invD(1) [OF inv]
    by (intro find_unique) (auto dest: distinct_key_eq)
  from that [OF this m snapshot_rows_describe [OF blobs rows]] show thesis .
qed

lemma reconcile_live:
  assumes inv: "contents_inv x d" and blobs: "distinct (map bl_id (db_blobs d))"
  shows "reconcile_snapshot x sid d
    = (if sid \<in> live_ids d then Inr () else Inl Reconcile_Not_Found)"
proof (cases "live_snapshot d sid")
  case None
  then show ?thesis
    using live_snapshot_None [of d sid] by (simp add: reconcile_snapshot_def)
next
  case (Some s)
  from Some have "sid \<in> live_ids d"
    using live_snapshot_None [of d sid] by fastforce
  moreover have "reconcile_snapshot x sid d = Inr ()"
  proof (rule live_snapshot_contents [OF inv blobs Some])
    fix mf m original stored
    assume mf: "manifest_by_id d (sn_manifest_id s) = Some mf" "manifest_row_ok x mf m"
      and n: "sn_artifact_count s = int (length (artifacts m))" "length (artifacts m) \<le> i64_max"
      and totals: "manifest_totals m = Inr (original, stored)"
        "sn_total_original_size_bytes s = int original" "original \<le> i64_max"
        "sn_total_stored_size_bytes s = int stored" "stored \<le> i64_max"
      and rows: "list_all2 describes_joined (snapshot_artifact_rows d sid) (enumerate 0 (artifacts m))"
    have len: "length (snapshot_artifact_rows d sid) = length (artifacts m)"
      using list_all2_lengthD [OF rows] by simp
    show "reconcile_snapshot x sid d = Inr ()"
      using mf n totals len reconcile_rows [OF rows n(2)]
      by (simp add: reconcile_snapshot_def Some manifest_row_ok_def map_error_def i64_try_from_def Let_def)
  qed
  ultimately show ?thesis by simp
qed

section \<open>Archived artifacts can be downloaded\<close>

lemma storage_digest_eq: "storage_digest v = (if length v = 64 \<and> list_all is_lower_hex v then Some v else None)"
  by (simp add: storage_digest_def is_lower_hex_def [abs_def])

lemma canonical_digest_valid:
  assumes "validate_digest v = Inr ()"
  shows "canonical_digest v = Some (digest_storage_value v)"
    and "storage_digest (digest_storage_value v) = Some (digest_storage_value v)"
proof -
  obtain h where h: "v = ''sha256:'' @ h" "length h = 64" "list_all is_lower_hex h"
    using assms validate_digest_ok by blast
  have eq: "digest_storage_value v = h" unfolding h(1) by (rule digest_storage_prefixed)
  show "canonical_digest v = Some (digest_storage_value v)"
    unfolding eq canonical_digest_def unfolding h(1) strip_prefix_append using h(2,3)
    by (simp add: storage_digest_eq)
  show "storage_digest (digest_storage_value v) = Some (digest_storage_value v)"
    unfolding eq using h(2,3) by (simp add: storage_digest_eq)
qed

text \<open>One row of the join of a download: the manifest describes it and its file is there.\<close>

lemma artifact_rows_member:
  "(a, s, b) \<in> set (artifact_rows d) \<longleftrightarrow> a \<in> set (db_artifacts d) \<and> s \<in> set (db_snapshots d)
     \<and> sn_id s = ar_snapshot_id a \<and> sn_deleted_at s = None \<and> b \<in> set (db_blobs d) \<and> bl_id b = ar_blob_id a"
  by (auto simp: artifact_rows_def split: if_splits)

lemma artifact_row_described:
  assumes inv: "contents_inv x d" and blobs: "distinct (map bl_id (db_blobs d))"
    and row: "(a, s, b) \<in> set (artifact_rows d)"
  obtains mf m i where "mf \<in> set (db_manifests d)" "mf_id mf = sn_manifest_id s" "manifest_row_ok x mf m"
    "i < length (artifacts m)" "length (artifacts m) \<le> i64_max" "describes_joined (a, b) (i, artifacts m ! i)"
proof -
  note row' = row [unfolded artifact_rows_member]
  have contents: "snapshot_contents x (db_manifests d) (db_blobs d) (rows_of_snapshot d (sn_id s)) s"
    using contents_invD(3) [OF inv] row' by blast
  then obtain mf m where mf: "mf \<in> set (db_manifests d)" "mf_id mf = sn_manifest_id s" "manifest_row_ok x mf m"
    and n: "length (artifacts m) \<le> i64_max"
    and rows: "list_all2 (describes (db_blobs d)) (rows_of_snapshot d (sn_id s)) (enumerate 0 (artifacts m))"
    unfolding snapshot_contents_def by blast
  have "a \<in> set (rows_of_snapshot d (sn_id s))" using row' by (simp add: rows_of_snapshot_def)
  then obtain i where i: "i < length (rows_of_snapshot d (sn_id s))" "rows_of_snapshot d (sn_id s) ! i = a"
    by (auto simp: in_set_conv_nth)
  then have len: "i < length (artifacts m)" using list_all2_lengthD [OF rows] by simp
  have described: "describes (db_blobs d) a (i, artifacts m ! i)"
    using list_all2_nthD [OF rows i(1)] i(2) len by (simp add: nth_enumerate_eq)
  have same: "b' = b" if "b' \<in> set (db_blobs d)" "bl_id b' = ar_blob_id a" for b'
    using distinct_key_eq [OF blobs, of b' b] row' that by simp
  from described have "describes_joined (a, b) (i, artifacts m ! i)"
    unfolding describes_def describes_joined_def prod.case using same by blast
  from that [OF mf len n this] show thesis .
qed

lemma described_metadata:
  assumes mf: "manifest_row_ok x mf m" and i: "i < length (artifacts m)" "length (artifacts m) \<le> i64_max"
    and d: "describes_joined (a, b) (i, artifacts m ! i)"
  shows "download_metadata_from_row x (a, b, mf) = Inr
    \<lparr>dm_logical_path = ar_logical_path a, dm_media_type = ar_media_type a,
     dm_original_size_bytes = nat (ar_original_size_bytes a),
     dm_original_sha256 = digest_document_value (ar_original_sha256 a),
     dm_stored_size_bytes = nat (bl_stored_size_bytes b), dm_stored_sha256 = bl_stored_sha256 b,
     dm_compression = compression (artifacts m ! i)\<rparr>"
    and "storage_digest (bl_stored_sha256 b) = Some (bl_stored_sha256 b)"
    and "\<forall>t. ar_media_type a = Some t \<longrightarrow> mime_parses x t \<and> list_all (\<lambda>c. \<not> is_ascii_control c) t"
proof -
  obtain limits where wf: "manifest_wf x limits m" using mf by (auto simp: manifest_row_ok_def)
  let ?a = "artifacts m ! i"
  have ok: "artifact_ok x limits (input_of_artifact ?a)"
    using wf nth_mem [OF i(1)] by (auto simp: manifest_wf_def batch_ok_def list_all_iff)
  then have digests: "validate_digest (original_sha256 ?a) = Inr ()" "validate_digest (stored_sha256 ?a) = Inr ()"
    by (simp_all add: artifact_ok_def input_of_artifact_def)
  note original = canonical_digest_valid [OF digests(1)] and stored = canonical_digest_valid [OF digests(2)]
  have small: "i64_max \<le> u64_max" by (simp add: i64_max_def u64_max_def)
  have media: "validate_optional_media_type x (media_type ?a) = Inr ()"
    using ok by (simp add: artifact_ok_def input_of_artifact_def)
  show "storage_digest (bl_stored_sha256 b) = Some (bl_stored_sha256 b)"
    using d stored(2) by (simp add: describes_joined_def stored_digest_def)
  show "\<forall>t. ar_media_type a = Some t \<longrightarrow> mime_parses x t \<and> list_all (\<lambda>c. \<not> is_ascii_control c) t"
    using media d by (auto simp: describes_joined_def validate_optional_media_type_def validate_text_def
        result_simps list_all_iff list_ex_iff split: if_splits)
  show "download_metadata_from_row x (a, b, mf) = Inr
    \<lparr>dm_logical_path = ar_logical_path a, dm_media_type = ar_media_type a,
     dm_original_size_bytes = nat (ar_original_size_bytes a),
     dm_original_sha256 = digest_document_value (ar_original_sha256 a),
     dm_stored_size_bytes = nat (bl_stored_size_bytes b), dm_stored_sha256 = bl_stored_sha256 b,
     dm_compression = compression (artifacts m ! i)\<rparr>"
    using mf d i original stored small
    by (simp add: download_metadata_from_row_def manifest_row_ok_def describes_joined_def
        u64_try_from_def stored_digest_def compression_enum.parse_as_str)
qed

lemma preflight_loop_ok:
  assumes "n \<le> u64_max" "seen + length (concat reads) \<le> n"
  shows "preflight_loop n (seen, hashed) reads = Inr (seen + length (concat reads), hashed @ concat reads)"
  using assms(2) by (induction reads arbitrary: seen hashed) (use assms(1) in \<open>simp_all add: checked_add_def\<close>)

lemma preflight_stored:
  assumes "blob_stored x f b bs" "bl_stored_size_bytes b = int n" "n \<le> u64_max"
    and "storage_digest (bl_stored_sha256 b) \<noteq> None"
  shows "preflight_blob x (blob_file f (bl_stored_sha256 b)) n (bl_stored_sha256 b)
    = Inr (bs, sha256_digest x bs)"
  using assms preflight_loop_ok [of n 0 "buffer_reads bs" "[]"]
  by (auto simp: preflight_blob_def blob_stored_def)

text \<open>The documented behaviour of the header library: visible ASCII text is a header value; both
  base64 alphabets consist of such text.\<close>

definition plain_text :: "string \<Rightarrow> bool" where
  "plain_text v = list_all (\<lambda>c. 32 \<le> byte_of c \<and> byte_of c < 127) v"

definition header_codec_ok :: "header_codec \<Rightarrow> bool" where
  "header_codec_ok h =
     ((\<forall>v. plain_text v \<longrightarrow> header_value_ok h v) \<and> (\<forall>bs. plain_text (base64_encode h bs))
       \<and> (\<forall>s. plain_text (base64url_text h s)))"

lemma plain_char: "byte_of c < 128 \<Longrightarrow> \<not> is_ascii_control c \<Longrightarrow> 32 \<le> byte_of c \<and> byte_of c < 127"
  unfolding is_ascii_control_def by linarith

lemma header_value_of_plain: "header_codec_ok h \<Longrightarrow> plain_text v \<Longrightarrow> header_value_of h v = Inr v"
  by (simp add: header_codec_ok_def header_value_of_def)

lemma plain_nat_to_string: "plain_text (nat_to_string n)"
proof (induction n rule: nat_to_string.induct)
  case (1 n)
  have digit: "plain_text [char_of (k + 48)]" if "k < 10" for k :: nat
    using that by (simp add: plain_text_def)
  show ?case
  proof (cases "n < 10")
    case True
    with digit show ?thesis by (simp add: nat_to_string.simps [of n])
  next
    case False
    with 1 digit [of "n mod 10"] show ?thesis
      by (simp add: nat_to_string.simps [of n] plain_text_def)
  qed
qed

lemma plain_digest:
  assumes "storage_digest v \<noteq> None"
  shows "plain_text (digest_document_value v)"
proof -
  have hex: "list_all is_lower_hex v" using assms by (simp add: storage_digest_eq split: if_splits)
  have "plain_text r" if "list_all is_lower_hex r" for r
    using that by (auto simp: plain_text_def list_all_iff is_lower_hex_def is_ascii_digit_def is_ascii_lowercase_def)
  moreover have "set (digest_storage_value v) \<subseteq> set v"
    by (auto simp: digest_storage_value_def strip_prefix_def dest: in_set_dropD split: option.splits if_splits)
  ultimately have "plain_text (digest_storage_value v)"
    using hex by (auto simp: list_all_iff)
  then show ?thesis by (simp add: digest_document_value_def plain_text_def byte_of_def)
qed

text \<open>The headers of a download, from the row of the artifact and the bytes that are sent.\<close>

definition announced_headers ::
  "externals \<Rightarrow> header_codec \<Rightarrow> artifact_row \<Rightarrow> compression \<Rightarrow> bytes \<Rightarrow> (string \<times> string) list" where
  "announced_headers x h a compr bytes =
     (let digest = base64_encode h (sha256_digest x bytes) in
      [(''content-type'', case_option ''application/octet-stream'' id (ar_media_type a)),
       (''content-length'', nat_to_string (length bytes)), (''cache-control'', ''no-transform'')]
      @ (case compr of Identity \<Rightarrow> [] | Zstd \<Rightarrow> [(''content-encoding'', ''zstd'')])
      @ [(''digest'', ''SHA-256='' @ digest), (''content-digest'', ''sha-256=:'' @ digest @ '':''),
         (''x-patwari-logical-path'', base64url_text h (ar_logical_path a)),
         (''x-patwari-logical-path-encoding'', ''base64url'')]
      @ (case ar_media_type a of None \<Rightarrow> [] | Some t \<Rightarrow> [(''x-patwari-media-type'', t)])
      @ [(''x-patwari-compression'', compression_name compr),
         (''x-patwari-original-size-bytes'', nat_to_string (nat (ar_original_size_bytes a))),
         (''x-patwari-original-sha256'', digest_document_value (ar_original_sha256 a)),
         (''x-patwari-stored-size-bytes'', nat_to_string (length bytes)),
         (''x-patwari-stored-sha256'', digest_document_value (sha256_hex x bytes))])"

text \<open>All values but the media type are header values whatever the archive holds.\<close>

lemma download_headers_exact:
  assumes h: "header_codec_ok h" and media: "\<forall>t. ar_media_type a = Some t \<longrightarrow> mime_parses x t"
    and digests: "plain_text (digest_document_value (ar_original_sha256 a))" "storage_digest (sha256_hex x bytes) \<noteq> None"
  shows "download_headers x h
      \<lparr>dm_logical_path = ar_logical_path a, dm_media_type = ar_media_type a,
       dm_original_size_bytes = nat (ar_original_size_bytes a),
       dm_original_sha256 = digest_document_value (ar_original_sha256 a),
       dm_stored_size_bytes = length bytes, dm_stored_sha256 = sha256_hex x bytes, dm_compression = compr\<rparr>
      (sha256_digest x bytes)
    = (if pred_option (header_value_ok h) (ar_media_type a)
       then Inr (announced_headers x h a compr bytes) else Inl artifact_integrity)"
proof -
  note ok = header_value_of_plain [OF h]
  have base: "plain_text (''SHA-256='' @ base64_encode h digest)"
    "plain_text (''sha-256=:'' @ base64_encode h digest @ '':'')" "plain_text (base64url_text h p)"
    "plain_text ''application/octet-stream''" for p digest
    using h by (simp_all add: header_codec_ok_def plain_text_def byte_of_def)
  note vals = base [THEN ok] plain_nat_to_string [THEN ok] plain_digest [OF digests(2), THEN ok]
    digests(1) [THEN ok]
  show ?thesis
  proof (cases "ar_media_type a")
    case None
    then show ?thesis
      by (cases compr) (simp_all add: download_headers_def announced_headers_def Let_def vals vals(1,2,4) [simplified])
  next
    case (Some t)
    with media have "mime_parses x t" by simp
    with Some show ?thesis
      by (cases compr) (simp_all add: download_headers_def announced_headers_def Let_def vals vals(1,2) [simplified]
          header_value_of_def [of h t])
  qed
qed

text \<open>The bytes of an archived artifact, as a client gets them and as the manifest describes them.\<close>

definition archived_bytes :: "externals \<Rightarrow> database \<Rightarrow> artifact_row \<Rightarrow> bytes \<Rightarrow> compression \<Rightarrow> bool" where
  "archived_bytes x d a bytes compr =
     (\<exists>b original. b \<in> set (db_blobs d) \<and> bl_id b = ar_blob_id a
        \<and> parse_compression (bl_compression b) = Some compr
        \<and> int (length bytes) = bl_stored_size_bytes b \<and> sha256_hex x bytes = bl_stored_sha256 b
        \<and> original_stream x compr bytes = Inr original
        \<and> int (length original) = ar_original_size_bytes a \<and> sha256_hex x original = ar_original_sha256 a)"

lemma readable_archived:
  assumes "readable x d f a" "distinct (map bl_id (db_blobs d))" "b \<in> set (db_blobs d)" "bl_id b = ar_blob_id a"
  obtains bytes compr where "blob_stored x f b bytes" "archived_bytes x d a bytes compr"
    "parse_compression (bl_compression b) = Some compr"
proof -
  obtain b' bs c original where b': "b' \<in> set (db_blobs d)" "bl_id b' = ar_blob_id a"
    and stored: "blob_stored x f b' bs" and c: "parse_compression (bl_compression b') = Some c"
    and original: "original_stream x c bs = Inr original" "int (length original) = ar_original_size_bytes a"
      "sha256_hex x original = ar_original_sha256 a"
    using assms(1) unfolding readable_def by blast
  have "b' = b" using distinct_key_eq [OF assms(2) b'(1) assms(3)] b'(2) assms(4) by simp
  moreover have "archived_bytes x d a bs c"
    unfolding archived_bytes_def using b' stored c original unfolding blob_stored_def by blast
  ultimately show thesis using that stored c by blast
qed

lemma download_found:
  assumes inv: "contents_inv (ext srv) (db s)" "blob_inv srv s"
    and h: "header_codec_ok h" and id: "uuid_parse (ext srv) path = Some artifact_id"
    and row: "(a, n, b) \<in> set (artifact_rows (db s))"
    and first: "[(a, b, m). (a, n, b) \<leftarrow> artifact_rows (db s), ar_id a = artifact_id,
                       m \<leftarrow> db_manifests (db s), mf_id m = sn_manifest_id n] = (a, b, mf) # others"
    and mf: "mf \<in> set (db_manifests (db s))" "mf_id mf = sn_manifest_id n"
  shows "\<exists>bytes compr. archived_bytes (ext srv) (db s) a bytes compr
    \<and> pred_option (\<lambda>t. is_ascii t \<longrightarrow> header_value_ok h t) (ar_media_type a)
    \<and> download_artifact srv h path s
      = (if pred_option (header_value_ok h) (ar_media_type a)
         then Inr (announced_headers (ext srv) h a compr bytes, bytes) else Inl artifact_integrity)"
proof -
  note blobs = blob_invD(1) [OF inv(2)]
  note row' = row [unfolded artifact_rows_member]
  obtain mf' m i where mf': "mf' \<in> set (db_manifests (db s))" "mf_id mf' = sn_manifest_id n"
      "manifest_row_ok (ext srv) mf' m"
    and i: "i < length (artifacts m)" "length (artifacts m) \<le> i64_max"
    and d: "describes_joined (a, b) (i, artifacts m ! i)"
    by (rule artifact_row_described [OF inv(1) blobs row])
  have "mf' = mf" using distinct_key_eq [OF contents_invD(1) [OF inv(1)] mf'(1) mf(1)] mf'(2) mf(2) by simp
  note metadata = described_metadata [OF mf'(3) [unfolded this] i d]
  let ?metadata = "\<lparr>dm_logical_path = ar_logical_path a, dm_media_type = ar_media_type a,
     dm_original_size_bytes = nat (ar_original_size_bytes a),
     dm_original_sha256 = digest_document_value (ar_original_sha256 a),
     dm_stored_size_bytes = nat (bl_stored_size_bytes b), dm_stored_sha256 = bl_stored_sha256 b,
     dm_compression = compression (artifacts m ! i)\<rparr>"
  have live: "ar_snapshot_id a \<in> live_ids (db s)" using blob_invD(6) [OF inv(2)] row' by blast
  have found: "verified_download_metadata (ext srv) artifact_id (db s) = Inr (Some ?metadata)"
    unfolding verified_download_metadata_def first
    by (simp add: metadata(1) reconcile_live [OF inv(1) blobs] live map_error_def)
  obtain bytes compr where bytes: "blob_stored (ext srv) (fs s) b bytes" "archived_bytes (ext srv) (db s) a bytes compr"
    "parse_compression (bl_compression b) = Some compr"
    using readable_archived [OF blob_invD(7) [OF inv(2)] blobs] row' by blast
  have sz: "bl_stored_size_bytes b = int (length bytes)" "length bytes \<le> u64_max"
    and compr: "compression (artifacts m ! i) = compr"
    using d bytes(1,3) by (auto simp: describes_joined_def blob_stored_def i64_max_def u64_max_def
        compression_enum.parse_as_str)
  have preflight: "preflight_blob (ext srv) (blob_file (fs s) (bl_stored_sha256 b)) (length bytes) (bl_stored_sha256 b)
      = Inr (bytes, sha256_digest (ext srv) bytes)"
    by (rule preflight_stored [OF bytes(1) sz]) (simp add: metadata(2))
  have original: "storage_digest (ar_original_sha256 a) \<noteq> None"
  proof -
    obtain limits where "manifest_wf (ext srv) limits m" using mf'(3) by (auto simp: manifest_row_ok_def)
    then have "artifact_ok (ext srv) limits (input_of_artifact (artifacts m ! i))"
      using i(1) by (auto simp: manifest_wf_def batch_ok_def list_all_iff)
    then have "validate_digest (original_sha256 (artifacts m ! i)) = Inr ()"
      by (simp add: artifact_ok_def input_of_artifact_def)
    from canonical_digest_valid(2) [OF this] d show ?thesis by (simp add: describes_joined_def)
  qed
  have hash: "bl_stored_sha256 b = sha256_hex (ext srv) bytes" using bytes(1) by (simp add: blob_stored_def)
  have "download_headers (ext srv) h ?metadata (sha256_digest (ext srv) bytes)
      = (if pred_option (header_value_ok h) (ar_media_type a)
         then Inr (announced_headers (ext srv) h a compr bytes) else Inl artifact_integrity)"
    using download_headers_exact [OF h _ plain_digest [OF original], of "ext srv" bytes compr] metadata(2,3)
    by (simp add: sz(1) compr hash)
  moreover have "pred_option (\<lambda>t. is_ascii t \<longrightarrow> header_value_ok h t) (ar_media_type a)"
    using metadata(3) h
    by (auto simp: option.pred_set plain_text_def list_all_iff is_ascii_def plain_char header_codec_ok_def)
  ultimately show ?thesis
    using bytes(2)
    by (auto simp: download_artifact_def parse_uuid_def id found preflight sz(1) intro!: exI [of _ bytes] exI [of _ compr])
qed

section \<open>The snapshot document\<close>

definition artifact_of_response :: "artifact_response \<Rightarrow> artifact" where
  "artifact_of_response r =
     \<lparr>logical_path = as_logical_path r, media_type = as_media_type r,
      original_size_bytes = as_original_size_bytes r, original_sha256 = as_original_sha256 r,
      stored_size_bytes = as_stored_size_bytes r, stored_sha256 = as_stored_sha256 r,
      compression = as_compression r\<rparr>"

lemma document_value_valid:
  assumes "validate_digest v = Inr ()"
  shows "digest_document_value (digest_storage_value v) = v"
proof -
  obtain h where h: "v = ''sha256:'' @ h" "length h = 64" "list_all is_lower_hex h"
    using assms validate_digest_ok by blast
  have "digest_storage_value h = h"
    using h(2,3) by (auto simp: digest_storage_value_def strip_prefix_eq_Some is_lower_hex_def
        is_ascii_digit_def is_ascii_lowercase_def is_ascii_hexdigit_def byte_of_def split: option.splits)
  then show ?thesis unfolding h(1) digest_storage_prefixed by (simp only: digest_document_value_def)
qed

text \<open>What the resource of an artifact says beside the manifest.\<close>

definition resource_of_row :: "artifact_row \<Rightarrow> artifact_response \<Rightarrow> bool" where
  "resource_of_row a r =
     (as_artifact_id r = ar_id a \<and> int (as_artifact_index r) = ar_artifact_index a
      \<and> as_metadata_url r = ''/api/v1/artifacts/'' @ ar_id a
      \<and> as_content_url r = ''/api/v1/artifacts/'' @ ar_id a @ ''/content'')"

lemma describe_responses:
  assumes "list_all2 describes_joined rows (enumerate k xs)" "k + length xs \<le> u32_max"
    and "\<forall>a \<in> set xs. validate_digest (original_sha256 a) = Inr () \<and> validate_digest (stored_sha256 a) = Inr ()"
  shows "\<exists>rs. try_map artifact_response_of rows = Inr rs \<and> map artifact_of_response rs = xs
    \<and> list_all2 resource_of_row (map fst rows) rs"
  using assms
proof (induction xs arbitrary: rows k)
  case (Cons a xs)
  then obtain r b rest where rows: "rows = (r, b) # rest" "describes_joined (r, b) (k, a)"
    "list_all2 describes_joined rest (enumerate (Suc k) xs)"
    by (auto simp: list_all2_Cons2)
  have small: "i64_max \<le> u64_max" by (simp add: i64_max_def u64_max_def)
  have "\<exists>resp. artifact_response_of (r, b) = Inr resp \<and> artifact_of_response resp = a \<and> resource_of_row r resp"
    using rows(2) Cons.prems(2,3) small
    by (simp add: artifact_response_of_def describes_joined_def u32_try_from_def u64_try_from_def resource_of_row_def
        compression_enum.parse_as_str artifact_of_response_def stored_digest_def document_value_valid)
  moreover obtain rs where "try_map artifact_response_of rest = Inr rs" "map artifact_of_response rs = xs"
    "list_all2 resource_of_row (map fst rest) rs"
    using Cons.IH [OF rows(3)] Cons.prems(2,3) by auto
  ultimately show ?case by (auto simp: rows(1))
qed simp

lemma live_snapshot_document:
  assumes inv: "contents_inv (ext srv) d" and blobs: "distinct (map bl_id (db_blobs d))"
    and id: "uuid_parse (ext srv) path = Some sid" and live: "live_snapshot d sid = Some row"
    and small: "sn_artifact_count row \<le> int u32_max"
  shows "\<exists>resp mf. get_snapshot srv path d = Inr resp
    \<and> mf \<in> set (db_manifests d) \<and> mf_id mf = sn_manifest_id row
    \<and> manifest_from_json (ext srv) (mf_canonical_json mf) = Some (sp_manifest resp)
    \<and> sp_manifest_id resp = mf_id mf
    \<and> sp_manifest_sha256 resp = digest_document_value (sha256_hex (ext srv) (string_bytes (mf_canonical_json mf)))
    \<and> sp_manifest_url resp = ''/api/v1/manifests/'' @ mf_id mf
    \<and> sp_snapshot_id resp = sid \<and> sp_session_id resp = sn_session_id row
    \<and> sp_completed_at resp = sn_completed_at row
    \<and> sp_snapshot_fingerprint resp = digest_document_value (sn_fingerprint_sha256 row)
    \<and> sp_capture_count resp = length (filter (\<lambda>c. cp_snapshot_id c = sid) (db_captures d))
    \<and> sp_captures_url resp = ''/api/v1/snapshots/'' @ sid @ ''/captures''
    \<and> sp_artifact_count resp = length (artifacts (sp_manifest resp))
    \<and> map artifact_of_response (sp_artifacts resp) = artifacts (sp_manifest resp)
    \<and> list_all2 resource_of_row (rows_of_snapshot d sid) (sp_artifacts resp)
    \<and> manifest_totals (sp_manifest resp) = Inr (sp_total_original_bytes resp, sp_total_stored_bytes resp)
    \<and> (\<exists>limits. manifest_wf (ext srv) limits (sp_manifest resp))"
proof (rule live_snapshot_contents [OF inv blobs live])
  fix mf m original stored
  assume mf: "manifest_by_id d (sn_manifest_id row) = Some mf" "manifest_row_ok (ext srv) mf m"
    and n: "sn_artifact_count row = int (length (artifacts m))" "length (artifacts m) \<le> i64_max"
    and totals: "manifest_totals m = Inr (original, stored)"
      "sn_total_original_size_bytes row = int original" "original \<le> i64_max"
      "sn_total_stored_size_bytes row = int stored" "stored \<le> i64_max"
    and rows: "list_all2 describes_joined (snapshot_artifact_rows d sid) (enumerate 0 (artifacts m))"
      "map fst (snapshot_artifact_rows d sid) = rows_of_snapshot d sid"
  obtain limits where wf: "manifest_wf (ext srv) limits m" using mf(2) by (auto simp: manifest_row_ok_def)
  have "validate_digest (original_sha256 a) = Inr () \<and> validate_digest (stored_sha256 a) = Inr ()"
    if "a \<in> set (artifacts m)" for a
    using wf that by (fastforce simp: manifest_wf_def batch_ok_def list_all_iff artifact_ok_def input_of_artifact_def)
  then obtain rs where rs: "try_map artifact_response_of (snapshot_artifact_rows d sid) = Inr rs"
    "map artifact_of_response rs = artifacts m" "list_all2 resource_of_row (rows_of_snapshot d sid) rs"
    using describe_responses [OF rows(1)] small n(1) by (auto simp: rows(2))
  have "sid \<in> live_ids d" using live live_snapshot_None [of d sid] by fastforce
  then have reconciled: "reconcile_snapshot (ext srv) sid d = Inr ()"
    by (simp add: reconcile_live [OF inv blobs])
  have max: "i64_max \<le> u64_max" by (simp add: i64_max_def u64_max_def)
  note row = live_snapshot_SomeD(2) [OF live]
  have "mf \<in> set (db_manifests d)" "mf_id mf = sn_manifest_id row"
    using find_SomeD [OF mf(1) [unfolded manifest_by_id_def]] by simp_all
  with mf(2) n small totals rs wf max row show ?thesis
    by (intro exI [of _ "\<lparr>sp_snapshot_id = sid, sp_session_id = sn_session_id row,
          sp_snapshot_fingerprint = digest_document_value (sn_fingerprint_sha256 row),
          sp_manifest_id = mf_id mf, sp_manifest_sha256 = digest_document_value (mf_sha256 mf),
          sp_completed_at = sn_completed_at row, sp_artifact_count = length (artifacts m),
          sp_total_original_bytes = original, sp_total_stored_bytes = stored,
          sp_capture_count = capture_count d sid,
          sp_captures_url = ''/api/v1/snapshots/'' @ sid @ ''/captures'',
          sp_manifest_url = ''/api/v1/manifests/'' @ mf_id mf, sp_manifest = m, sp_artifacts = rs\<rparr>"] exI [of _ mf])
      (auto simp: get_snapshot_def parse_uuid_def id snapshot_response_of_def live mf(1) manifest_row_ok_def
        reconciled map_error_def u32_try_from_def u64_try_from_def capture_count_def)
qed

end
