(* ===== verification/Retrieval_Properties.thy ===== *)
theory Retrieval_Properties
  imports Sample_Flow Archive_Contents
begin

text \<open>
  What the readers of the archive promise: every live snapshot passes reconciliation, a download
  delivers the archived bytes, the snapshot document agrees with the canonical manifest, and a
  client that follows the cursors of a listing gets every row exactly once.
\<close>

text \<open>C17: The normalized rows never drift from the canonical manifest: in every reachable archive
  the reconciliation of a snapshot succeeds if the snapshot is live, and otherwise reports that it
  does not exist.\<close>

theorem live_snapshots_reconcile:
  assumes "trusted srv U" "archive_reachable srv U s"
  shows "reconcile_snapshot (ext srv) snapshot_id (db s)
    = (if snapshot_id \<in> live_ids (db s) then Inr () else Inl Reconcile_Not_Found)"
  by (rule reconcile_live [OF reachable_contents [OF assms] blob_invD(1) [OF reachable_sound(4) [OF assms]]])

lemma live_ids_of_map:
  "map (\<lambda>r. (sn_id r, sn_deleted_at r)) (db_snapshots d) = xs \<Longrightarrow> live_ids d = {i. (i, None) \<in> set xs}"
  by (auto simp: live_ids_def image_iff eq_commute [of None])

lemma flow_live_ids:
  "live_ids (db flow_completed) = {''1-snapshot''}" "live_ids (db flow_deleted) = {}"
  using live_ids_of_map [OF conjunct1 [OF flow_completed_summary [unfolded flow_summary_def prod.inject]]]
    live_ids_of_map [OF conjunct1 [OF flow_deleted_summary [unfolded flow_summary_def prod.inject]]]
  by simp_all

theorem live_snapshots_reconcile_witness:
  "reconcile_snapshot flow_externals ''1-snapshot'' (db flow_completed) = Inr ()
     \<and> reconcile_snapshot flow_externals ''1-snapshot'' (db flow_deleted) = Inl Reconcile_Not_Found"
  using live_snapshots_reconcile [OF flow_trusted flow_reachable(2), of "''1-snapshot''"]
    live_snapshots_reconcile [OF flow_trusted flow_reachable(3), of "''1-snapshot''"]
  unfolding flow_live_ids by (simp add: flow_server_def)

text \<open>C18: What a download of a reachable archive answers. For an identifier no artifact has, that
  the artifact was not found. For an artifact, bytes of the recorded size and digest, which decode by
  the announced compression to the original with the size and the digest that the manifest declared,
  under exactly the headers of the artifact. The one other answer is an integrity error, and only for an
  artifact whose media type, not being ASCII, the header library refuses as a header value.\<close>

theorem download_exact:
  assumes "trusted srv U" "archive_reachable srv U s" "header_codec_ok h"
    and "uuid_parse (ext srv) path = Some artifact_id"
  shows "case download_artifact srv h path s of
      Inl err \<Rightarrow>
        (err = not_found ''artifact_not_found'' ''artifact was not found''
          \<and> artifact_id \<notin> ar_id ` set (db_artifacts (db s)))
        \<or> (err = artifact_integrity
          \<and> (\<exists>a t. a \<in> set (db_artifacts (db s)) \<and> ar_id a = artifact_id \<and> ar_media_type a = Some t
                \<and> \<not> is_ascii t \<and> \<not> header_value_ok h t))
    | Inr (headers, bytes) \<Rightarrow> \<exists>a compr. a \<in> set (db_artifacts (db s)) \<and> ar_id a = artifact_id
        \<and> archived_bytes (ext srv) (db s) a bytes compr
        \<and> headers = announced_headers (ext srv) h a compr bytes
        \<and> pred_option (header_value_ok h) (ar_media_type a)"
proof -
  note contents = reachable_contents [OF assms(1,2)] and blobs = reachable_sound(4) [OF assms(1,2)]
  let ?found = "[(a, b, m). (a, n, b) \<leftarrow> artifact_rows (db s), ar_id a = artifact_id,
                       m \<leftarrow> db_manifests (db s), mf_id m = sn_manifest_id n]"
  show ?thesis
  proof (cases "?found")
    case Nil
    have "ar_id a \<noteq> artifact_id" if a: "a \<in> set (db_artifacts (db s))" for a
    proof
      assume id: "ar_id a = artifact_id"
      obtain n b where row: "(a, n, b) \<in> set (artifact_rows (db s))"
        using blob_invD(6,7) [OF blobs a] a
        by (auto simp: artifact_rows_member live_ids_def readable_def)
      obtain mf m i where "mf \<in> set (db_manifests (db s))" "mf_id mf = sn_manifest_id n"
        by (rule artifact_row_described [OF contents blob_invD(1) [OF blobs] row])
      with row id have "(a, b, mf) \<in> set ?found" by force
      with Nil show False by simp
    qed
    moreover have "verified_download_metadata (ext srv) artifact_id (db s) = Inr None"
      unfolding verified_download_metadata_def Nil by simp
    ultimately show ?thesis
      by (auto simp: download_artifact_def parse_uuid_def assms(4))
  next
    case (Cons r others)
    then have "r \<in> set ?found" by simp
    then obtain a n b mf where r: "r = (a, b, mf)" "(a, n, b) \<in> set (artifact_rows (db s))"
      and a: "ar_id a = artifact_id" and mf: "mf \<in> set (db_manifests (db s))" "mf_id mf = sn_manifest_id n"
      by auto
    from r(2) have "a \<in> set (db_artifacts (db s))" by (simp add: artifact_rows_member)
    with download_found [OF contents blobs assms(3,4) r(2) Cons [unfolded r(1)] mf] a
    show ?thesis by (auto simp: option.pred_set split: if_splits) blast+
  qed
qed

definition flow_headers :: header_codec where
  "flow_headers =
     \<lparr>base64_encode = (\<lambda>bs. hex_digest []), base64url_text = (\<lambda>s. ''p''), header_value_ok = plain_text\<rparr>"

lemma flow_headers_ok: "header_codec_ok flow_headers"
  by (simp add: header_codec_ok_def flow_headers_def plain_text_def hex_digest_def byte_of_def)

lemma flow_artifact_rows:
  "map (\<lambda>a. (ar_id a, ar_media_type a)) (db_artifacts (db flow_completed)) = [(''1-artifact-'', None)]"
  by code_simp

theorem download_exact_witness:
  "case download_artifact flow_server flow_headers ''1-artifact-'' flow_completed of
      Inl err \<Rightarrow> False
    | Inr (headers, bytes) \<Rightarrow>
        \<exists>a compr. ar_id a = ''1-artifact-'' \<and> headers = announced_headers flow_externals flow_headers a compr bytes"
proof -
  have rows: "(ar_id a, ar_media_type a) = (''1-artifact-'', None)" if "a \<in> set (db_artifacts (db flow_completed))" for a
  proof -
    have "(ar_id a, ar_media_type a) \<in> set (map (\<lambda>a. (ar_id a, ar_media_type a)) (db_artifacts (db flow_completed)))"
      using that unfolding set_map by (rule imageI)
    then show ?thesis unfolding flow_artifact_rows by simp
  qed
  have "''1-artifact-'' \<in> ar_id ` set (db_artifacts (db flow_completed))"
    using arg_cong [OF flow_artifact_rows, of "\<lambda>xs. set (map fst xs)"] by (simp add: image_comp comp_def)
  with download_exact [OF flow_trusted flow_reachable(2) flow_headers_ok, of "''1-artifact-''" "''1-artifact-''"] rows
  show ?thesis
    by (auto simp: flow_server_def flow_externals_def split: sum.splits)
qed

text \<open>C19: The document of a live snapshot says what is stored of it: the manifest it quotes is the
  decoded text of the manifest row of the snapshot, under that row's identifier and the digest of that
  text, and it is well-formed; session, completion time and fingerprint are those of the snapshot row and
  the capture count is that of its capture rows; the artifact resources are the artifact rows of the
  snapshot in order and, entry by entry, the artifacts of the manifest; the count and the totals are those
  of the manifest. The document is always produced while the count fits its field.\<close>

theorem snapshot_document_exact:
  assumes "trusted srv U" "archive_reachable srv U s"
    and "uuid_parse (ext srv) path = Some snapshot_id"
    and "live_snapshot (db s) snapshot_id = Some row" "sn_artifact_count row \<le> int u32_max"
  shows "\<exists>resp mf. get_snapshot srv path (db s) = Inr resp
    \<and> mf \<in> set (db_manifests (db s)) \<and> mf_id mf = sn_manifest_id row
    \<and> manifest_from_json (ext srv) (mf_canonical_json mf) = Some (sp_manifest resp)
    \<and> sp_manifest_id resp = mf_id mf
    \<and> sp_manifest_sha256 resp = digest_document_value (sha256_hex (ext srv) (string_bytes (mf_canonical_json mf)))
    \<and> sp_manifest_url resp = ''/api/v1/manifests/'' @ mf_id mf
    \<and> sp_snapshot_id resp = snapshot_id \<and> sp_session_id resp = sn_session_id row
    \<and> sp_completed_at resp = sn_completed_at row
    \<and> sp_snapshot_fingerprint resp = digest_document_value (sn_fingerprint_sha256 row)
    \<and> sp_capture_count resp = length (filter (\<lambda>c. cp_snapshot_id c = snapshot_id) (db_captures (db s)))
    \<and> sp_captures_url resp = ''/api/v1/snapshots/'' @ snapshot_id @ ''/captures''
    \<and> sp_artifact_count resp = length (artifacts (sp_manifest resp))
    \<and> map artifact_of_response (sp_artifacts resp) = artifacts (sp_manifest resp)
    \<and> list_all2 resource_of_row (rows_of_snapshot (db s) snapshot_id) (sp_artifacts resp)
    \<and> manifest_totals (sp_manifest resp) = Inr (sp_total_original_bytes resp, sp_total_stored_bytes resp)
    \<and> (\<exists>limits. manifest_wf (ext srv) limits (sp_manifest resp))"
  by (rule live_snapshot_document [OF reachable_contents [OF assms(1,2)]
        blob_invD(1) [OF reachable_sound(4) [OF assms(1,2)]] assms(3-5)])

lemma flow_live_snapshot:
  "map_option sn_artifact_count (live_snapshot (db flow_completed) ''1-snapshot'') = Some 1"
  by code_simp

theorem snapshot_document_exact_witness:
  "\<exists>resp. get_snapshot flow_server ''1-snapshot'' (db flow_completed) = Inr resp
     \<and> map artifact_of_response (sp_artifacts resp) = artifacts (sp_manifest resp)"
proof -
  obtain row where row: "live_snapshot (db flow_completed) ''1-snapshot'' = Some row" "sn_artifact_count row = 1"
    using flow_live_snapshot by auto
  have "uuid_parse (ext flow_server) ''1-snapshot'' = Some ''1-snapshot''" "sn_artifact_count row \<le> int u32_max"
    by (simp_all add: flow_server_def flow_externals_def row(2) u32_max_def)
  from snapshot_document_exact [OF flow_trusted flow_reachable(2) this(1) row(1) this(2)] show ?thesis by blast
qed

end
