(* ===== verification/Sample_Codec.thy ===== *)
theory Sample_Codec
  imports Pagination
begin

text \<open>
  One concrete codec for cursors, used by witnesses: the fields are written one after the other, every
  character escaped, and base64 is the identity. What is written can be read.
\<close>

fun escape :: "string \<Rightarrow> string" where
  "escape [] = '';''"
| "escape (c # cs) = CHR ''+'' # c # escape cs"

fun unescape :: "string \<Rightarrow> (string \<times> string) option" where
  "unescape (c # d # rest) =
     (if c = CHR '';'' then Some ([], d # rest)
      else map_option (\<lambda>(cs, r). (d # cs, r)) (unescape rest))"
| "unescape [c] = (if c = CHR '';'' then Some ([], []) else None)"
| "unescape [] = None"

fun unescape_fields :: "nat \<Rightarrow> string \<Rightarrow> string list option" where
  "unescape_fields 0 s = (if s = [] then Some [] else None)"
| "unescape_fields (Suc n) s =
     Option.bind (unescape s) (\<lambda>(v, rest). map_option (Cons v) (unescape_fields n rest))"

lemma unescape_escape: "unescape (escape s @ rest) = Some (s, rest)"
proof (induction s)
  case Nil
  show ?case by (cases rest) simp_all
qed simp

lemma unescape_fields_escape:
  "unescape_fields (length vs) (concat (map escape vs)) = Some vs"
  by (induction vs) (simp_all add: unescape_escape)

definition write_int :: "int \<Rightarrow> string" where
  "write_int i = (if i < 0 then CHR ''-'' # nat_to_string (nat (- i)) else nat_to_string (nat i))"

definition read_int :: "string \<Rightarrow> int option" where
  "read_int s =
     (case s of
        [] \<Rightarrow> None
      | c # cs \<Rightarrow> if c = CHR ''-'' then map_option (\<lambda>n. - int n) (parse_digits 0 cs)
                  else map_option int (parse_digits 0 s))"

lemma read_write_int: "read_int (write_int i) = Some i"
proof (cases "i < 0")
  case False
  obtain c cs where c: "nat_to_string (nat i) = c # cs" "is_ascii_digit c"
    using nat_to_string_head by blast
  then have "c \<noteq> CHR ''-''" by (auto simp: is_ascii_digit_def byte_of_def)
  with False c parse_nat_to_string [of "nat i"] show ?thesis by (simp add: write_int_def read_int_def)
qed (simp add: write_int_def read_int_def parse_nat_to_string)

definition write_cursor :: "opaque_cursor \<Rightarrow> string" where
  "write_cursor c = concat (map escape
     [nat_to_string (oc_version c), oc_kind c, oc_filter_hash c,
      write_int (sb_sort_key (oc_high_watermark c)), sb_timestamp (oc_high_watermark c),
      sb_id (oc_high_watermark c),
      write_int (sb_sort_key (oc_after c)), sb_timestamp (oc_after c), sb_id (oc_after c)])"

definition read_cursor :: "string \<Rightarrow> opaque_cursor option" where
  "read_cursor s =
     (case unescape_fields 9 s of
        Some [v, kind, hash, hk, ht, hi, ak, at, ai] \<Rightarrow>
          (case (parse_digits 0 v, read_int hk, read_int ak) of
             (Some version, Some hw_key, Some after_key) \<Rightarrow>
               Some \<lparr>oc_version = version, oc_kind = kind, oc_filter_hash = hash,
                     oc_high_watermark = \<lparr>sb_sort_key = hw_key, sb_timestamp = ht, sb_id = hi\<rparr>,
                     oc_after = \<lparr>sb_sort_key = after_key, sb_timestamp = at, sb_id = ai\<rparr>\<rparr>
           | _ \<Rightarrow> None)
      | _ \<Rightarrow> None)"

lemma read_write_cursor: "read_cursor (write_cursor c) = Some c"
proof -
  let ?fields = "[nat_to_string (oc_version c), oc_kind c, oc_filter_hash c,
      write_int (sb_sort_key (oc_high_watermark c)), sb_timestamp (oc_high_watermark c),
      sb_id (oc_high_watermark c),
      write_int (sb_sort_key (oc_after c)), sb_timestamp (oc_after c), sb_id (oc_after c)]"
  have "unescape_fields 9 (write_cursor c) = Some ?fields"
    using unescape_fields_escape [of ?fields] by (simp only: write_cursor_def) (simp add: numeral_eq_Suc)
  then show ?thesis
    by (simp add: read_cursor_def parse_nat_to_string read_write_int)
qed

definition sample_codec :: "'f codec" where
  "sample_codec =
     \<lparr>base64url_encode = id, base64url_decode = Some, cursor_to_json = (\<lambda>c. Some (write_cursor c)),
      cursor_from_json = read_cursor, filters_to_json = (\<lambda>kind f. Some kind), uuid_version = (\<lambda>_. 7)\<rparr>"

lemma sample_codec_ok: "codec_ok sample_codec"
  by (simp add: codec_ok_def sample_codec_def read_write_cursor)

end
