(* ===== verification/Listing_Properties.thy ===== *)
theory Listing_Properties
  imports Retrieval_Properties Sample_Codec
begin

text \<open>
  What a client that follows the cursors of a listing ends up with. The properties are stated for the
  listing of manifests; the contract \<open>keyset_collection\<close> they rest on is interpreted for every
  collection of the archive.
\<close>

section \<open>The rows of the listing have distinct keys\<close>

lemma joined_once:
  assumes "distinct (map key ys)" "\<And>y. length (h y) \<le> 1"
  shows "length (concat (map (\<lambda>y. if key y = k then h y else []) ys)) \<le> (1 :: nat)"
  using assms(1)
proof (induction ys)
  case (Cons y ys)
  show ?case
  proof (cases "key y = k")
    case True
    have "(if key z = k then h z else []) = []" if "z \<in> set ys" for z
      using True Cons.prems that by (auto simp: image_iff)
    then have "concat (map (\<lambda>y. if key y = k then h y else []) ys) = []"
      unfolding concat_eq_Nil_conv by auto
    with True assms(2) [of y] show ?thesis by (simp only: list.map concat.simps if_True) simp
  qed (use Cons in simp)
qed simp

lemma disjoint_singleton: "A \<subseteq> {a} \<Longrightarrow> a \<notin> B \<Longrightarrow> A \<inter> B = {}"
  by blast

lemma distinct_join:
  assumes "distinct (map k xs)" "\<And>x. length (g x) \<le> 1" "\<And>x y. y \<in> set (g x) \<Longrightarrow> k' y = k x"
  shows "distinct (map k' (concat (map g xs)))"
  using assms(1)
proof (induction xs)
  case (Cons x xs)
  have sub: "k' ` set (g x) \<subseteq> {k x}" "k' ` set (concat (map g xs)) \<subseteq> k ` set xs"
    using assms(3) by auto
  have "k x \<notin> k' ` set (concat (map g xs))" using Cons.prems sub(2) by (simp only: list.map distinct.simps set_map) blast
  with sub(1) have "k' ` set (g x) \<inter> k' ` set (concat (map g xs)) = {}"
    by (rule disjoint_singleton)
  then have "set (map k' (g x)) \<inter> set (map k' (concat (map g xs))) = {}" by (simp only: set_map)
  moreover have "distinct (map k' (g x))"
    using assms(2) [of x] by (cases "g x") (auto simp: le_Suc_eq)
  moreover have "distinct (map k' (concat (map g xs)))" using Cons by simp
  ultimately show ?case
    by (simp only: list.map concat.simps map_append distinct_append simp_thms)
qed simp

lemma capture_rows_distinct:
  assumes "distinct (map cp_id (db_captures d))" "distinct (map mf_id (db_manifests d))"
    and "distinct (map sn_id (db_snapshots d))"
  shows "distinct (map capture_page_key (filter P (capture_rows d)))"
proof -
  have inner: "length (concat (map (\<lambda>n :: snapshot_row. if sn_id n = cp_snapshot_id c \<and> sn_deleted_at n = None then [(c, m)] else [])
      (db_snapshots d))) \<le> 1" for c m
  proof -
    have "(\<lambda>n :: snapshot_row. if sn_id n = cp_snapshot_id c \<and> sn_deleted_at n = None then [(c, m)] else [])
      = (\<lambda>n. if sn_id n = cp_snapshot_id c then (if sn_deleted_at n = None then [(c, m)] else []) else [])"
      by (rule ext) simp
    then show ?thesis
      using joined_once [OF assms(3), of "\<lambda>n. if sn_deleted_at n = None then [(c, m)] else []" "cp_snapshot_id c"]
      by (simp only:) simp
  qed
  have "distinct (map (\<lambda>(c, m). cp_id c) (capture_rows d))"
    unfolding capture_rows_def
    by (rule distinct_join [OF assms(1) joined_once [OF assms(2) inner]]) (auto split: if_splits)
  then have "distinct (map (snd \<circ> capture_page_key) (capture_rows d))"
    by (simp add: capture_page_key_def comp_def case_prod_unfold)
  then have "distinct (map capture_page_key (capture_rows d))"
    by (simp add: distinct_map comp_inj_on_iff [symmetric]) (metis distinct_map inj_on_imageI2 map_map)
  then show ?thesis by (rule distinct_map_filter)
qed

text \<open>The captures the listing of manifests shows, and the reader of it as a client sees it.\<close>

abbreviation listed_captures :: "string option \<Rightarrow> archive \<Rightarrow> (capture_row \<times> manifest_row) list" where
  "listed_captures session_id s \<equiv>
     filter (\<lambda>(c, m). filter_is session_id (cp_session_id c)) (capture_rows (db s))"

abbreviation manifests_request ::
  "server \<Rightarrow> filters codec \<Rightarrow> list_query \<Rightarrow> nat \<Rightarrow> string option \<Rightarrow> archive
     \<Rightarrow> manifest_summary paginated_response result" where
  "manifests_request srv k q limit cursor s \<equiv>
     list_manifests srv k (Inr (q\<lparr>lq_limit := Some limit, lq_cursor := cursor\<rparr>)) (db s)"

lemma manifests_request_eq:
  assumes "normalize_resource_id (ext srv) (lq_session_id q) ''session identifier is not a UUID'' = Inr session_id"
  shows "manifests_request srv k q limit cursor s
    = list_page k (ext srv) ''manifests'' capture_page_key capture_boundary (\<lambda>r. Inr (manifest_summary_of r))
        (Manifest_Filters session_id) (Some limit) cursor (listed_captures session_id s)"
  using assms by (simp add: list_manifests_def query_error_def)

lemma reachable_listed_distinct:
  assumes "trusted srv U" "archive_reachable srv U s"
  shows "distinct (map capture_page_key (listed_captures session_id s))"
  using reachable_captures_distinct [OF assms(2)] contents_invD(1) [OF reachable_contents [OF assms]]
    blob_invD(4) [OF reachable_sound(4) [OF assms]]
  by (rule capture_rows_distinct)

text \<open>C20: A listing can be followed while the archive changes. Whatever requests are served between
  the pages, the client that follows the cursors gets every manifest at most once and in descending
  order, each page shows manifests that were visible when it was asked for, and once the last page
  has come it has every manifest that was visible at all of its requests. Until then every page is
  full.\<close>

theorem list_manifests_exact:
  assumes "trusted srv U" "\<And>s. s \<in> set states \<Longrightarrow> archive_reachable srv U s"
    and "normalize_resource_id (ext srv) (lq_session_id q) ''session identifier is not a UUID'' = Inr session_id"
    and "codec_ok k" "filter_hash k (ext srv) ''manifests'' (Manifest_Filters session_id) = Inr hash"
    and "boundaries_ok k (ext srv) ''manifests'' hash
      (capture_boundary ` (\<Union>s \<in> set states. set (listed_captures session_id s)))"
    and "1 \<le> limit" "limit \<le> MAX_PAGE_LIMIT"
  shows "\<exists>pages finished Ps. follow_pages (manifests_request srv k q limit) None states = Inr (pages, finished)
     \<and> map pr_items pages = map (map manifest_summary_of) Ps
     \<and> sorted_wrt (\<lambda>r s. capture_page_key s < capture_page_key r) (concat Ps)
     \<and> length Ps \<le> length states
     \<and> (\<forall>i < length Ps. set (Ps ! i) \<subseteq> set (listed_captures session_id (states ! i)))
     \<and> (finished \<longrightarrow> (\<forall>r. (\<forall>s \<in> set (take (length Ps) states). r \<in> set (listed_captures session_id s))
          \<longrightarrow> r \<in> set (concat Ps)))
     \<and> (\<not> finished \<longrightarrow> length Ps = length states \<and> (\<forall>P \<in> set Ps. length P = limit))"
proof (rule capture_collection.listing_exact [OF assms(4,6,5,7,8)])
  show "\<forall>s \<in> set states. distinct (map capture_page_key (listed_captures session_id s))
      \<and> (\<forall>r \<in> set (listed_captures session_id s). True
        \<and> capture_boundary r \<in> capture_boundary ` (\<Union>s \<in> set states. set (listed_captures session_id s))
        \<and> Inr (manifest_summary_of r) = (Inr (manifest_summary_of r) :: manifest_summary result))"
    using reachable_listed_distinct [OF assms(1) assms(2)] by blast
qed (rule manifests_request_eq [OF assms(3)])

definition flow_query :: list_query where
  "flow_query =
     \<lparr>lq_limit = None, lq_cursor = None, lq_client_id = None, lq_capture_id = None, lq_session_id = None,
      lq_snapshot_id = None, lq_context = no_context, lq_activity_from = None, lq_activity_to = None\<rparr>"

definition flow_hash_of_filters :: string where
  "flow_hash_of_filters = sha256_hex flow_externals (string_bytes ''manifests'')"

definition flow_boundary :: sort_boundary where
  "flow_boundary =
     \<lparr>sb_sort_key = 1767225600000000, sb_timestamp = ''2026-01-01T00:00:00Z'', sb_id = ''1-capture''\<rparr>"

lemma flow_filter_hash:
  "filter_hash sample_codec (ext flow_server) ''manifests'' (Manifest_Filters None) = Inr flow_hash_of_filters"
  by (simp add: filter_hash_def sample_codec_def flow_hash_of_filters_def flow_server_def)

lemma flow_listed: "map capture_boundary (listed_captures None flow_completed) = [flow_boundary]"
  by code_simp

lemma flow_boundary_valid: "validate_boundary (sample_codec :: filters codec) (ext flow_server) flow_boundary = Inr ()"
  by code_simp

lemma flow_cursor_short:
  "case encode_cursor (sample_codec :: filters codec) ''manifests'' flow_hash_of_filters flow_boundary flow_boundary of
     Inl err \<Rightarrow> True | Inr text \<Rightarrow> length text \<le> MAX_CURSOR_BYTES"
  by code_simp

lemma flow_boundaries_ok:
  "boundaries_ok (sample_codec :: filters codec) (ext flow_server) ''manifests'' flow_hash_of_filters
     (capture_boundary ` set (listed_captures None flow_completed))"
  using arg_cong [OF flow_listed, of set] flow_boundary_valid flow_cursor_short
  unfolding set_map by (auto simp: boundaries_ok_def simp del: set_filter split: sum.splits)

lemma flow_query_session:
  "normalize_resource_id (ext flow_server) (lq_session_id flow_query) ''session identifier is not a UUID'' = Inr None"
  by (simp add: normalize_resource_id_def try_option_def flow_query_def)

theorem list_manifests_exact_witness:
  "\<exists>pages finished. follow_pages (manifests_request flow_server sample_codec flow_query 1) None
     [flow_completed] = Inr (pages, finished)"
proof -
  have "boundaries_ok (sample_codec :: filters codec) (ext flow_server) ''manifests'' flow_hash_of_filters
      (capture_boundary ` (\<Union>s \<in> set [flow_completed]. set (listed_captures None s)))"
    using flow_boundaries_ok by simp
  from list_manifests_exact [OF flow_trusted _ flow_query_session sample_codec_ok flow_filter_hash this, of 1]
  show ?thesis using flow_reachable(2) by (auto simp: MAX_PAGE_LIMIT_def)
qed

text \<open>C21: A listing ends. On an archive that does not change, a client that asks for pages of
  \<open>limit\<close> rows has every manifest, sorted, after at most one request more than the number of full
  pages.\<close>

theorem list_manifests_ends:
  assumes "trusted srv U" "archive_reachable srv U s"
    and "normalize_resource_id (ext srv) (lq_session_id q) ''session identifier is not a UUID'' = Inr session_id"
    and "codec_ok k" "filter_hash k (ext srv) ''manifests'' (Manifest_Filters session_id) = Inr hash"
    and "boundaries_ok k (ext srv) ''manifests'' hash (capture_boundary ` set (listed_captures session_id s))"
    and "1 \<le> limit" "limit \<le> MAX_PAGE_LIMIT" "length (listed_captures session_id s) div limit < n"
  shows "\<exists>pages. follow_pages (manifests_request srv k q limit) None (replicate n s) = Inr (pages, True)
     \<and> concat (map pr_items pages)
       = map manifest_summary_of (rev (sort_key capture_page_key (listed_captures session_id s)))"
proof (rule capture_collection.listing_ends [where rows = "listed_captures session_id",
      OF assms(4,6,5,7,8) reachable_listed_distinct [OF assms(1,2)] _ _ assms(9)])
  show "\<forall>r \<in> set (listed_captures session_id s). True
      \<and> capture_boundary r \<in> capture_boundary ` set (listed_captures session_id s)
      \<and> Inr (manifest_summary_of r) = (Inr (manifest_summary_of r) :: manifest_summary result)"
    by blast
qed (rule manifests_request_eq [OF assms(3)])

theorem list_manifests_ends_witness:
  "\<exists>pages. follow_pages (manifests_request flow_server sample_codec flow_query 1) None
     (replicate 2 flow_completed) = Inr (pages, True)"
proof -
  have "length (listed_captures None flow_completed) = 1"
    using arg_cong [OF flow_listed, of length] by (simp del: length_filter_less)
  with list_manifests_ends [OF flow_trusted flow_reachable(2) flow_query_session sample_codec_ok
      flow_filter_hash flow_boundaries_ok, of 1 2] show ?thesis
    by (auto simp: MAX_PAGE_LIMIT_def)
qed

end
