(* ===== verification/Locks.thy ===== *)
theory Locks
  imports Deletion
begin

text \<open>
  The lock stripes of \<open>service.rs\<close> and the order in which requests take them. Every upload, every
  snapshot identity and every blob digest is hashed onto one of a fixed number of mutexes by FNV-1a on
  64 bits. A request is seen as its script of acquisitions and releases; the step relation
  \<open>lock_step\<close> interleaves the scripts of any number of requests. The locale \<open>ordered_locking\<close> is the
  contract between the scripts and the argument that nothing can get stuck: a script takes a lock
  only while all it holds are smaller.
\<close>

unbundle bit_operations_syntax

section \<open>Stripes\<close>

definition UPLOAD_LOCK_STRIPES :: nat where "UPLOAD_LOCK_STRIPES = 256"
definition SNAPSHOT_LOCK_STRIPES :: nat where "SNAPSHOT_LOCK_STRIPES = 256"
definition BLOB_LOCK_STRIPES :: nat where "BLOB_LOCK_STRIPES = 256"

definition FNV_OFFSET_BASIS :: "64 word" where "FNV_OFFSET_BASIS = 0xcbf29ce484222325"
definition FNV_PRIME :: "64 word" where "FNV_PRIME = 0x00000100000001b3"

definition stable_lock_stripe :: "bytes \<Rightarrow> nat \<Rightarrow> nat" where
  "stable_lock_stripe bytes stripe_count =
     unat (foldl (\<lambda>hash byte. (hash XOR ucast byte) * FNV_PRIME) FNV_OFFSET_BASIS bytes
       mod of_nat stripe_count)"

definition upload_lock_stripe :: "string \<Rightarrow> nat" where
  "upload_lock_stripe upload_id = stable_lock_stripe (string_bytes upload_id) UPLOAD_LOCK_STRIPES"

definition snapshot_lock_stripe :: "string \<Rightarrow> string \<Rightarrow> nat" where
  "snapshot_lock_stripe session_id fingerprint =
     stable_lock_stripe (string_bytes session_id @ 0 # string_bytes fingerprint) SNAPSHOT_LOCK_STRIPES"

definition blob_lock_stripe :: "string \<Rightarrow> string \<Rightarrow> nat" where
  "blob_lock_stripe owner_namespace digest =
     stable_lock_stripe (string_bytes owner_namespace @ 0 # string_bytes digest) BLOB_LOCK_STRIPES"

text \<open>\<open>sort_unstable\<close> and \<open>dedup\<close>, which drops an element that equals its predecessor.\<close>

definition blob_lock_stripes :: "string \<Rightarrow> string list \<Rightarrow> nat list" where
  "blob_lock_stripes owner_namespace digests =
     remdups_adj (sort (map (blob_lock_stripe owner_namespace) digests))"

lemma stable_lock_stripe_less:
  assumes "0 < n" "n < 2 ^ 64"
  shows "stable_lock_stripe bs n < n"
  using assms by (simp add: stable_lock_stripe_def unat_mod unat_of_nat)

lemma stripe_bounds:
  "upload_lock_stripe u < UPLOAD_LOCK_STRIPES" "snapshot_lock_stripe s f < SNAPSHOT_LOCK_STRIPES"
  "blob_lock_stripe ns d < BLOB_LOCK_STRIPES"
  by (simp_all add: upload_lock_stripe_def snapshot_lock_stripe_def blob_lock_stripe_def
      UPLOAD_LOCK_STRIPES_def SNAPSHOT_LOCK_STRIPES_def BLOB_LOCK_STRIPES_def stable_lock_stripe_less)

lemma remdups_adj_strict: "sorted xs \<Longrightarrow> sorted_wrt (<) (remdups_adj (xs :: nat list))"
  by (induction xs rule: remdups_adj.induct) (auto simp: less_le)

lemma blob_lock_stripes_strict: "sorted_wrt (<) (blob_lock_stripes ns digests)"
  by (simp add: blob_lock_stripes_def remdups_adj_strict)

lemma set_blob_lock_stripes: "set (blob_lock_stripes ns digests) = blob_lock_stripe ns ` set digests"
  by (simp add: blob_lock_stripes_def)

section \<open>Locks and their order\<close>

datatype lock = Upload_Lock nat | Snapshot_Lock nat | Blob_Lock nat

text \<open>Upload before snapshot before blob, and ascending stripes in a family.\<close>

fun lock_rank :: "lock \<Rightarrow> nat \<times> nat" where
  "lock_rank (Upload_Lock n) = (0, n)"
| "lock_rank (Snapshot_Lock n) = (1, n)"
| "lock_rank (Blob_Lock n) = (2, n)"

lemma inj_lock_rank: "lock_rank l = lock_rank m \<Longrightarrow> l = m"
  by (cases l; cases m) simp_all

instantiation lock :: linorder
begin

definition less_eq_lock :: "lock \<Rightarrow> lock \<Rightarrow> bool" where
  "less_eq_lock l m = (lock_rank l \<le> lock_rank m)"

definition less_lock :: "lock \<Rightarrow> lock \<Rightarrow> bool" where
  "less_lock l m = (lock_rank l < lock_rank m)"

instance
  by standard (auto simp: less_eq_lock_def less_lock_def intro: inj_lock_rank)

end

datatype 'l action = Acquire 'l | Release 'l

definition guarded :: "'l \<Rightarrow> 'l action list \<Rightarrow> 'l action list" where
  "guarded l body = Acquire l # body @ [Release l]"

definition guarded_all :: "'l list \<Rightarrow> 'l action list \<Rightarrow> 'l action list" where
  "guarded_all ls body = map Acquire ls @ body @ map Release ls"

section \<open>The scripts of the requests\<close>

definition upload_script :: "string \<Rightarrow> lock action list" where
  "upload_script upload_id = guarded (Upload_Lock (upload_lock_stripe upload_id)) []"

definition blob_guards :: "server \<Rightarrow> string list \<Rightarrow> lock list" where
  "blob_guards srv digests = map Blob_Lock (blob_lock_stripes (owner srv) digests)"

text \<open>How far a completion gets: it answers under the upload lock alone; it attaches to the live
  snapshot it found; or it takes the blob locks, after a live snapshot it had found was deleted
  before the snapshot lock was granted (\<open>True\<close>), or without having found one.\<close>

datatype completion_path = Answers | Attaches | Takes_Blob_Locks bool

definition completion_script ::
  "server \<Rightarrow> string \<Rightarrow> string \<Rightarrow> string \<Rightarrow> string list \<Rightarrow> completion_path \<Rightarrow> lock action list" where
  "completion_script srv upload_id session_id fingerprint digests path =
     (let identity = guarded (Snapshot_Lock (snapshot_lock_stripe session_id fingerprint)) [] in
      guarded (Upload_Lock (upload_lock_stripe upload_id))
        (case path of
           Answers \<Rightarrow> []
         | Attaches \<Rightarrow> identity
         | Takes_Blob_Locks found \<Rightarrow>
             (if found then identity else []) @ guarded_all (blob_guards srv digests) []))"

text \<open>A deletion may end before it takes a lock, or under the snapshot lock alone.\<close>

datatype deletion_path = Unlocked | Rechecked | Deletes

definition deletion_script ::
  "server \<Rightarrow> string \<Rightarrow> string \<Rightarrow> string list \<Rightarrow> deletion_path \<Rightarrow> lock action list" where
  "deletion_script srv session_id fingerprint digests path =
     (let identity = Snapshot_Lock (snapshot_lock_stripe session_id fingerprint) in
      case path of
        Unlocked \<Rightarrow> []
      | Rechecked \<Rightarrow> guarded identity []
      | Deletes \<Rightarrow> guarded identity (guarded_all (blob_guards srv digests) []))"

definition expiry_script :: "string list \<Rightarrow> lock action list" where
  "expiry_script upload_ids = concat (map upload_script upload_ids)"

definition collection_script :: "server \<Rightarrow> string list \<Rightarrow> lock action list" where
  "collection_script srv digests = concat (map (\<lambda>digest. guarded_all (blob_guards srv [digest]) []) digests)"

inductive request_script :: "server \<Rightarrow> lock action list \<Rightarrow> bool" for srv where
  reads: "request_script srv []"
| upload: "request_script srv (upload_script upload_id)"
| expires: "request_script srv (expiry_script upload_ids)"
| completes: "request_script srv (completion_script srv upload_id session_id fingerprint digests path)"
| deletes: "request_script srv (deletion_script srv session_id fingerprint digests deletion)"
| collects: "request_script srv (collection_script srv digests)"

section \<open>Running scripts\<close>

record 'l lock_thread =
  lt_held :: "'l list"
  lt_script :: "'l action list"

definition start_thread :: "'l action list \<Rightarrow> 'l lock_thread" where
  "start_thread script = \<lparr>lt_held = [], lt_script = script\<rparr>"

definition held_somewhere :: "'l lock_thread list \<Rightarrow> 'l \<Rightarrow> bool" where
  "held_somewhere ts l = list_ex (\<lambda>t. l \<in> set (lt_held t)) ts"

inductive lock_step :: "'l lock_thread list \<Rightarrow> 'l lock_thread list \<Rightarrow> bool" where
  acquire: "i < length ts \<Longrightarrow> lt_script (ts ! i) = Acquire l # rest \<Longrightarrow> \<not> held_somewhere ts l \<Longrightarrow>
    lock_step ts (ts[i := \<lparr>lt_held = l # lt_held (ts ! i), lt_script = rest\<rparr>])"
| release: "i < length ts \<Longrightarrow> lt_script (ts ! i) = Release l # rest \<Longrightarrow>
    lock_step ts (ts[i := \<lparr>lt_held = remove1 l (lt_held (ts ! i)), lt_script = rest\<rparr>])"

definition all_finished :: "'l lock_thread list \<Rightarrow> bool" where
  "all_finished ts = list_all (\<lambda>t. lt_script t = []) ts"

text \<open>A script that takes a lock only above all it holds and releases only what it holds; it leads
  from the locks held before to those held after.\<close>

fun ordered_script :: "'l :: linorder list \<Rightarrow> 'l action list \<Rightarrow> 'l list \<Rightarrow> bool" where
  "ordered_script held [] final = (held = final)"
| "ordered_script held (Acquire l # rest) final =
     (list_all (\<lambda>h. h < l) held \<and> ordered_script (l # held) rest final)"
| "ordered_script held (Release l # rest) final =
     (List.member held l \<and> ordered_script (remove1 l held) rest final)"

lemma ordered_append:
  "ordered_script held a mid \<Longrightarrow> ordered_script mid b final \<Longrightarrow> ordered_script held (a @ b) final"
  by (induction held a mid rule: ordered_script.induct) auto

lemma ordered_guarded:
  "list_all (\<lambda>h. h < l) held \<Longrightarrow> ordered_script (l # held) body (l # held) \<Longrightarrow>
     ordered_script held (guarded l body) held"
  unfolding guarded_def by (auto intro: ordered_append)

lemma ordered_acquires:
  "sorted_wrt (<) ls \<Longrightarrow> list_all (\<lambda>h. list_all ((<) h) ls) held \<Longrightarrow>
     ordered_script held (map Acquire ls) (rev ls @ held)"
  by (induction ls arbitrary: held) (auto simp: list_all_iff)

lemma ordered_releases:
  "distinct ls \<Longrightarrow> ordered_script (rev ls @ held) (map Release ls) held"
  by (induction ls) (auto simp: remove1_append)

lemma ordered_guarded_all:
  assumes "sorted_wrt (<) ls" "list_all (\<lambda>h. list_all ((<) h) ls) held"
  shows "ordered_script held (guarded_all ls []) held"
  unfolding guarded_all_def append_Nil
  by (rule ordered_append [OF ordered_acquires [OF assms] ordered_releases])
    (use assms(1) in \<open>simp add: strict_sorted_iff\<close>)

lemma ordered_concat:
  "(\<And>a. a \<in> set scripts \<Longrightarrow> ordered_script held a held) \<Longrightarrow> ordered_script held (concat scripts) held"
  by (induction scripts) (auto intro: ordered_append)

section \<open>Ordered scripts never deadlock\<close>

definition thread_ordered :: "'l :: linorder lock_thread \<Rightarrow> bool" where
  "thread_ordered t = ordered_script (lt_held t) (lt_script t) []"

definition actions_left :: "'l lock_thread list \<Rightarrow> nat" where
  "actions_left ts = sum_list (map (\<lambda>t. length (lt_script t)) ts)"

text \<open>At most one thread holds a lock.\<close>

definition held_once :: "'l lock_thread list \<Rightarrow> bool" where
  "held_once ts = distinct (concat (map lt_held ts))"

locale ordered_locking =
  fixes allowed :: "'l :: linorder action list \<Rightarrow> bool"
  assumes allowed_ordered: "allowed script \<Longrightarrow> ordered_script [] script []"
begin

lemma start_ordered: "list_all allowed scripts \<Longrightarrow> list_all thread_ordered (map start_thread scripts)"
  by (auto simp: list_all_iff thread_ordered_def start_thread_def allowed_ordered)

lemma step_ordered: "lock_step ts ts' \<Longrightarrow> list_all thread_ordered ts \<Longrightarrow> list_all thread_ordered ts'"
proof (induction rule: lock_step.induct)
  case (acquire i ts l rest)
  then have "thread_ordered (ts ! i)" by (simp add: list_all_length)
  then have "thread_ordered \<lparr>lt_held = l # lt_held (ts ! i), lt_script = rest\<rparr>"
    using acquire(2) by (simp add: thread_ordered_def)
  with acquire(4) show ?case by (auto simp: list_all_iff dest!: set_update_subset_insert [THEN subsetD])
next
  case (release i ts l rest)
  then have "thread_ordered (ts ! i)" by (simp add: list_all_length)
  then have "thread_ordered \<lparr>lt_held = remove1 l (lt_held (ts ! i)), lt_script = rest\<rparr>"
    using release(2) by (simp add: thread_ordered_def)
  with release(3) show ?case by (auto simp: list_all_iff dest!: set_update_subset_insert [THEN subsetD])
qed

text \<open>The thread that waits for the greatest lock waits for one that nobody holds.\<close>

lemma never_stuck:
  assumes ordered: "list_all thread_ordered ts" and unfinished: "\<not> all_finished ts"
  shows "\<exists>ts'. lock_step ts ts'"
proof (rule ccontr)
  assume stuck: "\<nexists>ts'. lock_step ts ts'"
  have waits: "\<exists>l rest. lt_script (ts ! i) = Acquire l # rest \<and> held_somewhere ts l"
    if i: "i < length ts" "lt_script (ts ! i) \<noteq> []" for i
  proof (cases "lt_script (ts ! i)")
    case (Cons a rest)
    with stuck i show ?thesis by (cases a) (auto intro: lock_step.intros)
  qed (use i in simp)
  have holder: "\<exists>j < length ts. \<exists>m rest'. lt_script (ts ! j) = Acquire m # rest' \<and> l < m"
    if i: "i < length ts" "lt_script (ts ! i) = Acquire l # rest" for i l rest
  proof -
    have "held_somewhere ts l" using waits [OF i(1)] i(2) by simp
    then obtain j where j: "j < length ts" "l \<in> set (lt_held (ts ! j))"
      by (auto simp: held_somewhere_def list_ex_length)
    have tj: "thread_ordered (ts ! j)" using ordered j(1) by (simp add: list_all_length)
    have "lt_script (ts ! j) \<noteq> []" using tj j(2) by (auto simp: thread_ordered_def)
    then obtain m rest' where m: "lt_script (ts ! j) = Acquire m # rest'" using waits [OF j(1)] by blast
    with tj j(2) have "l < m" by (auto simp: thread_ordered_def list_all_iff)
    with j(1) m show ?thesis by blast
  qed
  let ?W = "{l. \<exists>i < length ts. \<exists>rest. lt_script (ts ! i) = Acquire l # rest}"
  have "?W \<subseteq> (\<lambda>i. case lt_script (ts ! i) of Acquire l # _ \<Rightarrow> l | _ \<Rightarrow> undefined) ` {..< length ts}"
    by (force simp: image_iff)
  then have fin: "finite ?W" by (rule finite_subset) simp
  obtain i where "i < length ts" "lt_script (ts ! i) \<noteq> []"
    using unfinished by (auto simp: all_finished_def list_all_length)
  with waits have "?W \<noteq> {}" by blast
  with fin have "Max ?W \<in> ?W" by (rule Max_in)
  then obtain k rest where k: "k < length ts" "lt_script (ts ! k) = Acquire (Max ?W) # rest" by blast
  from holder [OF k] obtain m where "m \<in> ?W" "Max ?W < m" by blast
  with Max_ge [OF fin] show False by (simp add: not_le [symmetric])
qed

lemma step_actions: "lock_step ts ts' \<Longrightarrow> actions_left ts = Suc (actions_left ts')"
proof -
  have shorter: "sum_list (map (\<lambda>t. length (lt_script t)) ts)
      = Suc (sum_list (map (\<lambda>t. length (lt_script t)) (ts[i := t])))"
    if "i < length ts" "length (lt_script (ts ! i)) = Suc (length (lt_script t))" for i and ts :: "'a lock_thread list" and t
    using that by (induction ts arbitrary: i) (auto split: nat.splits)
  show "lock_step ts ts' \<Longrightarrow> actions_left ts = Suc (actions_left ts')"
    unfolding actions_left_def by (induction rule: lock_step.induct) (simp_all add: shorter)
qed

lemma run_ordered: "lock_step\<^sup>*\<^sup>* ts ts' \<Longrightarrow> list_all thread_ordered ts \<Longrightarrow> list_all thread_ordered ts'"
  by (induction rule: rtranclp_induct) (auto dest: step_ordered)

lemma run_actions: "(lock_step ^^ n) ts ts' \<Longrightarrow> actions_left ts = n + actions_left ts'"
  by (induction n arbitrary: ts') (auto dest: step_actions)

lemma finished_actions: "all_finished ts \<longleftrightarrow> actions_left ts = 0"
  by (auto simp: all_finished_def actions_left_def list_all_iff)

lemma can_finish:
  assumes "list_all thread_ordered ts"
  shows "\<exists>ts'. (lock_step ^^ actions_left ts) ts ts' \<and> all_finished ts'"
  using assms
proof (induction "actions_left ts" arbitrary: ts)
  case 0
  then show ?case by (auto simp: finished_actions)
next
  case (Suc n)
  then have "\<not> all_finished ts" by (simp add: finished_actions)
  with Suc.prems obtain ts1 where step: "lock_step ts ts1" using never_stuck by blast
  then have n: "actions_left ts = Suc (actions_left ts1)" by (rule step_actions)
  with Suc.hyps(2) have "n = actions_left ts1" by simp
  from Suc.hyps(1) [OF this step_ordered [OF step Suc.prems]] obtain ts' where
    run: "(lock_step ^^ actions_left ts1) ts1 ts'" "all_finished ts'" by blast
  have "(lock_step ^^ actions_left ts) ts ts'"
    unfolding n using step run(1) by (rule relpowp_Suc_I2)
  with run(2) show ?case by blast
qed

end

section \<open>A lock is held by one thread at a time\<close>

lemma concat_update:
  "i < length ts \<Longrightarrow>
     mset (concat (map f (ts[i := t]))) + mset (f (ts ! i)) = mset (concat (map f ts)) + mset (f t)"
  by (induction ts arbitrary: i) (auto split: nat.splits)

lemma distinct_mset: "distinct xs \<longleftrightarrow> (\<forall>x. count (mset xs) x \<le> 1)"
  by (induction xs) (auto simp: not_le count_mset_0_iff le_Suc_eq)

lemma held_once_count: "held_once ts \<longleftrightarrow> (\<forall>l. count (mset (concat (map lt_held ts))) l \<le> 1)"
  by (simp add: held_once_def distinct_mset)

lemma step_held_once: "lock_step ts ts' \<Longrightarrow> held_once ts \<Longrightarrow> held_once ts'"
proof (induction rule: lock_step.induct)
  case (acquire i ts l rest)
  let ?t = "\<lparr>lt_held = l # lt_held (ts ! i), lt_script = rest\<rparr>"
  have eq: "mset (concat (map lt_held (ts[i := ?t]))) = add_mset l (mset (concat (map lt_held ts)))"
    using concat_update [OF acquire(1), of lt_held ?t] by simp
  have "count (mset (concat (map lt_held ts))) l = 0"
    using acquire(3) by (auto simp: count_mset_0_iff held_somewhere_def list_ex_iff)
  with acquire(4) show ?case unfolding held_once_count eq by auto
next
  case (release i ts l rest)
  let ?t = "\<lparr>lt_held = remove1 l (lt_held (ts ! i)), lt_script = rest\<rparr>"
  have eq: "mset (concat (map lt_held (ts[i := ?t]))) + mset (lt_held (ts ! i))
      = mset (concat (map lt_held ts)) + (mset (lt_held (ts ! i)) - {#l#})"
    using concat_update [OF release(1), of lt_held ?t] by simp
  have "count (mset (concat (map lt_held (ts[i := ?t])))) m \<le> count (mset (concat (map lt_held ts))) m" for m
    using arg_cong [OF eq, of "\<lambda>M. count M m"] by (simp split: if_splits)
  with release(3) show ?case unfolding held_once_count by (meson order_trans)
qed

lemma run_held_once: "lock_step\<^sup>*\<^sup>* ts ts' \<Longrightarrow> held_once ts \<Longrightarrow> held_once ts'"
  by (induction rule: rtranclp_induct) (auto dest: step_held_once)

lemma start_held_once: "held_once (map start_thread scripts)"
  by (induction scripts) (auto simp: held_once_def start_thread_def)

lemma held_once_disjoint:
  assumes "held_once ts" "i < j" "j < length ts"
  shows "set (lt_held (ts ! i)) \<inter> set (lt_held (ts ! j)) = {}"
  using assms
proof (induction ts arbitrary: i j)
  case (Cons t ts)
  then show ?case
    by (cases i; cases j) (auto simp: held_once_def disjoint_iff dest: nth_mem)
qed simp

section \<open>The scripts of the archive are ordered\<close>

lemma blob_guards_sorted: "sorted_wrt (<) (blob_guards srv digests)"
  using blob_lock_stripes_strict [of "owner srv" digests]
  by (simp add: blob_guards_def sorted_wrt_map less_lock_def)

lemma ordered_blob_guards:
  "list_all (\<lambda>h. list_all ((<) h) (blob_guards srv digests)) held \<Longrightarrow>
     ordered_script held (guarded_all (blob_guards srv digests) []) held"
  by (rule ordered_guarded_all [OF blob_guards_sorted])

lemma ordered_upload_script: "ordered_script [] (upload_script u) []"
  unfolding upload_script_def by (rule ordered_guarded) simp_all

lemma request_script_ordered: "request_script srv script \<Longrightarrow> ordered_script [] script []"
proof (induction rule: request_script.induct)
  case (completes upload_id session_id fingerprint digests path)
  have identity: "ordered_script held (guarded (Snapshot_Lock n) []) held"
    if "list_all (\<lambda>h. h < Snapshot_Lock n) held" for held n
    using that by (intro ordered_guarded) simp_all
  show ?case
    unfolding completion_script_def Let_def
    by (intro ordered_guarded)
      (auto simp: less_lock_def blob_guards_def list_all_iff split: completion_path.splits
        intro!: identity ordered_append ordered_blob_guards [unfolded blob_guards_def])
next
  case (deletes session_id fingerprint digests deletion)
  show ?case
    unfolding deletion_script_def Let_def
    by (cases deletion)
      (auto simp: less_lock_def blob_guards_def list_all_iff
        intro!: ordered_guarded ordered_blob_guards [unfolded blob_guards_def])
next
  case (collects digests)
  show ?case
    unfolding collection_script_def by (rule ordered_concat) (auto intro!: ordered_blob_guards)
qed (auto simp: expiry_script_def intro!: ordered_concat ordered_upload_script)

interpretation locking: ordered_locking "request_script srv" for srv
  by unfold_locales (rule request_script_ordered)

end
