(* ===== verification/Maintenance.thy ===== *)
theory Maintenance
  imports Archive_Steps
begin

text \<open>
  The maintenance gate of \<open>maintenance.rs\<close>: the singleton row with the lease of an exclusive owner, the
  advisory file lock, and the processes that use both. Every statement on the row and every attempt
  on the file lock is one step, so the steps of different processes interleave in every way, a process
  may die at any point, and the clock may advance between any two steps. The advisory lock itself is
  the operating system's: it is held in shared mode by any number of processes or exclusively by one,
  and a process that ends gives it up.
\<close>

section \<open>The lease\<close>

record lease =
  exclusive_token :: "string option"
  exclusive_until_unix :: "int option"

datatype gate_error = Busy | Unavailable

definition LEASE_DURATION :: int where "LEASE_DURATION = 6 * 60 * 60"

definition no_lease :: lease where
  "no_lease = \<lparr>exclusive_token = None, exclusive_until_unix = None\<rparr>"

definition lease_until :: "int \<Rightarrow> int" where
  "lease_until now_unix = now_unix + LEASE_DURATION"

text \<open>A comparison with NULL is not true. The clock is read twice for a claim, first for the comparison
  and then for the expiry of the new lease, and the statement is executed after both.\<close>

definition until_passed :: "lease \<Rightarrow> int \<Rightarrow> bool" where
  "until_passed row moment = (case exclusive_until_unix row of None \<Rightarrow> False | Some until \<Rightarrow> until \<le> moment)"

definition claim_lease :: "string \<Rightarrow> int \<Rightarrow> int \<Rightarrow> lease \<Rightarrow> gate_error + lease" where
  "claim_lease token now_unix until row =
     (if exclusive_token row = None \<or> until_passed row now_unix
      then Inr \<lparr>exclusive_token = Some token, exclusive_until_unix = Some until\<rparr>
      else Inl Busy)"

definition clear_lease :: "string \<Rightarrow> lease \<Rightarrow> lease" where
  "clear_lease token row = (if exclusive_token row = Some token then no_lease else row)"

text \<open>One round of \<open>maintenance_is_active\<close>: what the row read says, and the update of a stale row by
  the values that were read.\<close>

datatype lease_reading = Lease_Free | Lease_Active | Lease_Stale string

definition read_lease :: "int \<Rightarrow> lease \<Rightarrow> lease_reading" where
  "read_lease now_unix row =
     (case exclusive_token row of
        None \<Rightarrow> Lease_Free
      | Some token \<Rightarrow>
          (case exclusive_until_unix row of
             None \<Rightarrow> Lease_Active
           | Some until \<Rightarrow> if until > now_unix then Lease_Active else Lease_Stale token))"

definition clear_stale_lease :: "string \<Rightarrow> int \<Rightarrow> lease \<Rightarrow> lease" where
  "clear_stale_lease token now_unix row =
     (if exclusive_token row = Some token \<and> until_passed row now_unix then no_lease else row)"

text \<open>Uninterrupted, with at most two rounds.\<close>

fun is_active_rounds :: "nat \<Rightarrow> int \<Rightarrow> lease \<Rightarrow> bool \<times> lease" where
  "is_active_rounds 0 now_unix row = (True, row)"
| "is_active_rounds (Suc n) now_unix row =
     (case read_lease now_unix row of
        Lease_Free \<Rightarrow> (False, row)
      | Lease_Active \<Rightarrow> (True, row)
      | Lease_Stale token \<Rightarrow> is_active_rounds n now_unix (clear_stale_lease token now_unix row))"

definition maintenance_is_active :: "int \<Rightarrow> lease \<Rightarrow> bool \<times> lease" where
  "maintenance_is_active now_unix row = is_active_rounds 2 now_unix row"

text \<open>What a request is told by \<open>gate_api_requests\<close>.\<close>

fun gate_response :: "gate_error \<Rightarrow> api_error" where
  "gate_response Busy = maintenance"
| "gate_response Unavailable = maintenance_unavailable"

section \<open>The processes\<close>

text \<open>A shared permit: the file lock is held, and \<open>n\<close> rounds are left; or a row with an owner was read
  and is to be compared with the clock; or that row was stale and is to be cleared; or the permit was
  granted. A server that starts holds the file lock first without a look at the row, for as long as the
  row need not exist yet, and then checks it like a request. An exclusive permit: the lease is claimed and the file
  lock awaited; it is held; the lease is cleared and the lock still held.\<close>

datatype shared_phase = Starting | Checking nat | Owned lease nat | Clearing string int nat | Permitted
datatype exclusive_phase = Waiting | Exclusive | Lease_Cleared

record gate =
  gt_now :: int
  gt_row :: lease
  gt_tokens :: "string set"
  gt_shared :: "nat \<Rightarrow> shared_phase option"
  gt_exclusive :: "nat \<Rightarrow> (string \<times> exclusive_phase) option"

definition gate_start :: "int \<Rightarrow> lease \<Rightarrow> gate" where
  "gate_start t row =
     \<lparr>gt_now = t, gt_row = row, gt_tokens = set_option (exclusive_token row),
      gt_shared = (\<lambda>_. None), gt_exclusive = (\<lambda>_. None)\<rparr>"

text \<open>The advisory lock.\<close>

definition locks_exclusively :: "exclusive_phase \<Rightarrow> bool" where
  "locks_exclusively ph = (ph \<noteq> Waiting)"

definition flock_exclusive :: "gate \<Rightarrow> bool" where
  "flock_exclusive g = (\<exists>b t ph. gt_exclusive g b = Some (t, ph) \<and> locks_exclusively ph)"

definition flock_shared :: "gate \<Rightarrow> bool" where
  "flock_shared g = (\<exists>p. gt_shared g p \<noteq> None)"

definition with_shared :: "nat \<Rightarrow> shared_phase option \<Rightarrow> gate \<Rightarrow> gate" where
  "with_shared p v g = g\<lparr>gt_shared := (gt_shared g)(p := v)\<rparr>"

definition with_exclusive :: "nat \<Rightarrow> (string \<times> exclusive_phase) option \<Rightarrow> gate \<Rightarrow> gate" where
  "with_exclusive b v g = g\<lparr>gt_exclusive := (gt_exclusive g)(b := v)\<rparr>"

inductive gate_step :: "gate \<Rightarrow> gate \<Rightarrow> bool" where
  tick: "gt_now g \<le> t \<Longrightarrow> gate_step g (g\<lparr>gt_now := t\<rparr>)"
| lock_file: "gt_shared g p = None \<Longrightarrow> \<not> flock_exclusive g \<Longrightarrow>
    gate_step g (with_shared p (Some Starting) g)"
| check_start: "gt_shared g p = Some Starting \<Longrightarrow> gate_step g (with_shared p (Some (Checking 2)) g)"
| lock_shared: "gt_shared g p = None \<Longrightarrow> \<not> flock_exclusive g \<Longrightarrow>
    gate_step g (with_shared p (Some (Checking 2)) g)"
| read_free: "gt_shared g p = Some (Checking (Suc n)) \<Longrightarrow> read_lease (gt_now g) (gt_row g) = Lease_Free \<Longrightarrow>
    gate_step g (with_shared p (Some Permitted) g)"
| read_owned: "gt_shared g p = Some (Checking (Suc n)) \<Longrightarrow> exclusive_token (gt_row g) \<noteq> None \<Longrightarrow>
    gate_step g (with_shared p (Some (Owned (gt_row g) n)) g)"
| judge_active: "gt_shared g p = Some (Owned row n) \<Longrightarrow> read_lease (gt_now g) row = Lease_Active \<Longrightarrow>
    gate_step g (with_shared p None g)"
| judge_stale: "gt_shared g p = Some (Owned row n) \<Longrightarrow> read_lease (gt_now g) row = Lease_Stale token \<Longrightarrow>
    gate_step g (with_shared p (Some (Clearing token (gt_now g) n)) g)"
| clear_stale: "gt_shared g p = Some (Clearing token t n) \<Longrightarrow>
    gate_step g (with_shared p (Some (Checking n)) (g\<lparr>gt_row := clear_stale_lease token t (gt_row g)\<rparr>))"
| rounds_over: "gt_shared g p = Some (Checking 0) \<Longrightarrow> gate_step g (with_shared p None g)"
| leave: "gt_shared g p \<noteq> None \<Longrightarrow> gate_step g (with_shared p None g)"
| claim: "gt_exclusive g b = None \<Longrightarrow> token \<notin> gt_tokens g \<Longrightarrow>
    t \<le> t' \<Longrightarrow> t' \<le> gt_now g \<Longrightarrow> claim_lease token t (lease_until t') (gt_row g) = Inr row \<Longrightarrow>
    gate_step g (with_exclusive b (Some (token, Waiting))
      (g\<lparr>gt_row := row, gt_tokens := insert token (gt_tokens g)\<rparr>))"
| lock_exclusive: "gt_exclusive g b = Some (token, Waiting) \<Longrightarrow> \<not> flock_exclusive g \<Longrightarrow> \<not> flock_shared g \<Longrightarrow>
    gate_step g (with_exclusive b (Some (token, Exclusive)) g)"
| wait_over: "gt_exclusive g b = Some (token, Waiting) \<Longrightarrow>
    gate_step g (with_exclusive b None (g\<lparr>gt_row := clear_lease token (gt_row g)\<rparr>))"
| clear_own: "gt_exclusive g b = Some (token, Exclusive) \<Longrightarrow>
    gate_step g (with_exclusive b (Some (token, Lease_Cleared))
      (g\<lparr>gt_row := clear_lease token (gt_row g)\<rparr>))"
| unlock: "gt_exclusive g b = Some (token, Lease_Cleared) \<Longrightarrow> gate_step g (with_exclusive b None g)"
| die: "gt_exclusive g b \<noteq> None \<Longrightarrow> gate_step g (with_exclusive b None g)"

abbreviation gate_reachable :: "int \<Rightarrow> lease \<Rightarrow> gate \<Rightarrow> bool" where
  "gate_reachable t row \<equiv> reachable (gate_start t row) gate_step"

section \<open>Exclusion\<close>

definition flock_ok :: "gate \<Rightarrow> bool" where
  "flock_ok g =
     ((\<forall>b t ph p. gt_exclusive g b = Some (t, ph) \<longrightarrow> ph \<noteq> Waiting \<longrightarrow> gt_shared g p = None)
      \<and> (\<forall>b c t u ph ph'. gt_exclusive g b = Some (t, ph) \<longrightarrow> gt_exclusive g c = Some (u, ph') \<longrightarrow>
           ph \<noteq> Waiting \<longrightarrow> ph' \<noteq> Waiting \<longrightarrow> b = c))"

definition tokens_ok :: "gate \<Rightarrow> bool" where
  "tokens_ok g =
     ((\<forall>b t ph. gt_exclusive g b = Some (t, ph) \<longrightarrow> t \<in> gt_tokens g)
      \<and> (\<forall>b c t ph ph'. gt_exclusive g b = Some (t, ph) \<longrightarrow> gt_exclusive g c = Some (t, ph') \<longrightarrow> b = c))"

definition clocks_ok :: "gate \<Rightarrow> bool" where
  "clocks_ok g = (\<forall>p token t n. gt_shared g p = Some (Clearing token t n) \<longrightarrow> t \<le> gt_now g)"

lemma gate_simps [simp]:
  "gt_now (with_shared p v g) = gt_now g" "gt_row (with_shared p v g) = gt_row g"
  "gt_tokens (with_shared p v g) = gt_tokens g" "gt_exclusive (with_shared p v g) = gt_exclusive g"
  "gt_shared (with_shared p v g) = (gt_shared g)(p := v)"
  "gt_now (with_exclusive b w g) = gt_now g" "gt_row (with_exclusive b w g) = gt_row g"
  "gt_tokens (with_exclusive b w g) = gt_tokens g" "gt_shared (with_exclusive b w g) = gt_shared g"
  "gt_exclusive (with_exclusive b w g) = (gt_exclusive g)(b := w)"
  by (simp_all add: with_shared_def with_exclusive_def)

lemma not_flock_exclusive: "\<not> flock_exclusive g \<longleftrightarrow> (\<forall>b t ph. gt_exclusive g b = Some (t, ph) \<longrightarrow> ph = Waiting)"
  by (auto simp: flock_exclusive_def locks_exclusively_def)

lemma not_flock_shared: "\<not> flock_shared g \<longleftrightarrow> (\<forall>p. gt_shared g p = None)"
  by (simp add: flock_shared_def)

lemma flock_step: "gate_step g h \<Longrightarrow> flock_ok g \<Longrightarrow> flock_ok h"
  unfolding flock_ok_def
  by (induction rule: gate_step.induct)
    (simp_all add: not_flock_exclusive not_flock_shared, (metis exclusive_phase.distinct option.distinct)+)

lemma tokens_step: "gate_step g h \<Longrightarrow> tokens_ok g \<Longrightarrow> tokens_ok h"
  unfolding tokens_ok_def by (induction rule: gate_step.induct) (simp_all, metis+)

lemma clocks_step: "gate_step g h \<Longrightarrow> clocks_ok g \<Longrightarrow> clocks_ok h"
  unfolding clocks_ok_def by (induction rule: gate_step.induct) (simp_all, force+)

definition gate_inv :: "gate \<Rightarrow> bool" where
  "gate_inv g = (flock_ok g \<and> tokens_ok g \<and> clocks_ok g)"

lemma gate_start_inv: "gate_inv (gate_start t row)"
  by (simp add: gate_inv_def gate_start_def flock_ok_def tokens_ok_def clocks_ok_def)

lemma gate_step_inv: "gate_inv g \<Longrightarrow> gate_step g h \<Longrightarrow> gate_inv h"
  unfolding gate_inv_def using flock_step tokens_step clocks_step by blast

interpretation gate: inductive_invariant "gate_start t row" gate_step gate_inv for t row
  by unfold_locales (rule gate_start_inv, rule gate_step_inv)

section \<open>A pending backup\<close>

definition permitted :: "gate \<Rightarrow> nat set" where
  "permitted g = {p. gt_shared g p = Some Permitted}"

lemma gate_clock: "gate_step g h \<Longrightarrow> gt_now g \<le> gt_now h"
  by (induction rule: gate_step.induct) simp_all

lemma gate_tokens: "gate_step g h \<Longrightarrow> gt_tokens g \<subseteq> gt_tokens h"
  by (induction rule: gate_step.induct) auto

text \<open>The owner of a token that was issued had it before, and its phases only advance.\<close>

lemma owner_before:
  assumes "gate_step g h" "gt_exclusive h b = Some (t, ph)" "t \<in> gt_tokens g"
  shows "\<exists>ph'. gt_exclusive g b = Some (t, ph') \<and> (ph \<noteq> Lease_Cleared \<longrightarrow> ph' \<noteq> Lease_Cleared)"
  using assms by (induction rule: gate_step.induct) (auto split: if_splits)

lemma row_kept:
  assumes "gate_step g h"
    and "gt_row g = \<lparr>exclusive_token = Some t, exclusive_until_unix = Some u\<rparr>"
    and "gt_now g < u" "gt_exclusive g b = Some (t, ph')" "gt_exclusive h b = Some (t, ph)" "ph \<noteq> Lease_Cleared"
    and unique: "\<And>c q. gt_exclusive g c = Some (t, q) \<Longrightarrow> c = b"
    and clocks: "\<And>p token v n. gt_shared g p = Some (Clearing token v n) \<Longrightarrow> v \<le> gt_now g"
  shows "gt_row h = gt_row g"
  using assms(1)
proof cases
  case (clear_stale p token v n)
  with clocks [OF clear_stale(2)] assms(2,3) show ?thesis by (simp add: clear_stale_lease_def until_passed_def)
next
  case (claim c token v v' row)
  with assms(2,3) show ?thesis by (simp add: claim_lease_def until_passed_def)
next
  case (wait_over c token)
  show ?thesis
  proof (cases "token = t")
    case True
    with unique wait_over(2) have "c = b" by blast
    with wait_over(1) assms(5) show ?thesis by simp
  qed (use wait_over assms(2) in \<open>simp add: clear_lease_def\<close>)
next
  case (clear_own c token)
  show ?thesis
  proof (cases "token = t")
    case True
    with unique clear_own(2) have "c = b" by blast
    with clear_own(1) assms(5,6) show ?thesis by simp
  qed (use clear_own assms(2) in \<open>simp add: clear_lease_def\<close>)
qed simp_all

lemma none_admitted:
  assumes "gate_step g h"
    and "gt_row g = \<lparr>exclusive_token = Some t, exclusive_until_unix = Some u\<rparr>" "gt_now g < u"
  shows "permitted h \<subseteq> permitted g"
  using assms(1)
proof cases
  case (read_free p n)
  with assms(2,3) show ?thesis by (simp add: read_lease_def)
qed (auto simp: permitted_def split: if_splits)

lemma lease_kept:
  assumes "gate_step g h" "gate_inv g" "gt_row g = \<lparr>exclusive_token = Some t, exclusive_until_unix = Some u\<rparr>"
    and "gt_now h < u" "gt_exclusive h b = Some (t, ph)" "ph \<noteq> Lease_Cleared" "t \<in> gt_tokens g"
  shows "gt_row h = gt_row g \<and> permitted h \<subseteq> permitted g"
proof -
  obtain ph' where owner: "gt_exclusive g b = Some (t, ph')" using owner_before assms(1,5,7) by blast
  have unique: "c = b" if "gt_exclusive g c = Some (t, q)" for c q
    using assms(2) owner that unfolding gate_inv_def tokens_ok_def by blast
  have clocks: "v \<le> gt_now g" if "gt_shared g p = Some (Clearing token v n)" for p token v n
    using assms(2) that unfolding gate_inv_def clocks_ok_def by blast
  have "gt_now g < u" using gate_clock [OF assms(1)] assms(4) by simp
  from none_admitted [OF assms(1,3) this] row_kept [OF assms(1,3) this owner assms(5,6)] unique clocks
  show ?thesis by blast
qed

text \<open>From the claim of a lease until it expires, is cleared or its owner dies, no new permit is
  granted: the requests that are inside can only leave.\<close>

lemma lease_drains:
  assumes "gate_step\<^sup>*\<^sup>* g h" "gate_inv g" "t \<in> gt_tokens g"
    and "gt_row g = \<lparr>exclusive_token = Some t, exclusive_until_unix = Some u\<rparr>"
    and "gt_now h < u" "gt_exclusive h b = Some (t, ph)" "ph \<noteq> Lease_Cleared"
  shows "gt_row h = gt_row g \<and> permitted h \<subseteq> permitted g \<and> gate_inv h \<and> t \<in> gt_tokens h"
  using assms
proof (induction arbitrary: ph rule: rtranclp_induct)
  case (step h k)
  have "gt_now h < u" using gate_clock [OF step.hyps(2)] step.prems(4) by simp
  have "t \<in> gt_tokens h"
  proof -
    have "gt_tokens g \<subseteq> gt_tokens h"
      using step.hyps(1) by (induction rule: rtranclp_induct) (use gate_tokens in blast)+
    with step.prems(2) show ?thesis by blast
  qed
  then obtain ph' where "gt_exclusive h b = Some (t, ph')" "ph' \<noteq> Lease_Cleared"
    using owner_before [OF step.hyps(2) step.prems(5)] step.prems(6) by blast
  from step.IH [OF step.prems(1-3) \<open>gt_now h < u\<close> this]
  have IH: "gt_row h = gt_row g" "permitted h \<subseteq> permitted g" "gate_inv h" by simp_all
  have "gt_row k = gt_row h \<and> permitted k \<subseteq> permitted h"
    using lease_kept [OF step.hyps(2) IH(3) _ step.prems(4,5,6) \<open>t \<in> gt_tokens h\<close>] IH(1) step.prems(3) by simp
  with IH gate_step_inv [OF IH(3) step.hyps(2)] gate_tokens [OF step.hyps(2)] \<open>t \<in> gt_tokens h\<close> show ?case by auto
qed simp

section \<open>A lease expires\<close>

definition lease_bounded :: "gate \<Rightarrow> bool" where
  "lease_bounded g =
     (gt_row g = no_lease
      \<or> (exclusive_token (gt_row g) \<noteq> None \<and> until_passed (gt_row g) (lease_until (gt_now g))))"

lemma lease_bounded_step: "lease_bounded g \<Longrightarrow> gate_step g h \<Longrightarrow> lease_bounded h"
  unfolding lease_bounded_def
  by (erule gate_step.cases)
    (auto simp: until_passed_def lease_until_def clear_stale_lease_def clear_lease_def claim_lease_def no_lease_def
      split: option.splits if_splits)

lemma lease_bounded_start: "lease_bounded (gate_start t no_lease)"
  by (simp add: lease_bounded_def gate_start_def no_lease_def)

interpretation fresh_gate: inductive_invariant "gate_start t no_lease" gate_step lease_bounded for t
  by unfold_locales (rule lease_bounded_start, rule lease_bounded_step)

lemma is_active_stale:
  "exclusive_token row = None \<or> until_passed row moment \<Longrightarrow>
     maintenance_is_active moment row = (False, if exclusive_token row = None then row else no_lease)"
  by (auto simp: maintenance_is_active_def numeral_2_eq_2 read_lease_def until_passed_def no_lease_def
      clear_stale_lease_def split: option.splits)

end
