(* ===== verification/Concurrency_Properties.thy ===== *)
theory Concurrency_Properties
  imports Locks Maintenance Sample_Flow
begin

text \<open>
  The properties of requests that run at the same time: the lock stripes cannot deadlock, a digest
  finds its stripe among those its request holds, a backup and the requests exclude each other, a
  pending backup is not overtaken, and a lease whose owner died does not outlive its term.
\<close>

section \<open>Lock stripes\<close>

text \<open>C22: Requests cannot deadlock. Let any number of requests of any kind run, each taking and
  releasing the locks of its upload, its snapshot and its blobs in the order of the code. However
  their steps interleave, a state in which some request has not finished has a next step, and after
  as many steps as the scripts have actions all have finished and no lock is held.\<close>

theorem requests_finish:
  assumes "list_all (request_script srv) scripts"
    and "(lock_step ^^ n) (map start_thread scripts) ts"
  shows "n \<le> sum_list (map length scripts)
    \<and> (n = sum_list (map length scripts) \<longleftrightarrow> (\<nexists>ts'. lock_step ts ts'))
    \<and> (n = sum_list (map length scripts) \<longleftrightarrow> ts = map (\<lambda>_. start_thread []) scripts)"
proof -
  let ?n = "sum_list (map length scripts)"
  have actions: "actions_left (map start_thread scripts) = ?n"
    by (simp add: actions_left_def start_thread_def comp_def)
  have runs: "lock_step\<^sup>*\<^sup>* (map start_thread scripts) ts" using assms(2) by (rule relpowp_imp_rtranclp)
  have ordered: "list_all thread_ordered ts"
    using locking.run_ordered [OF runs locking.start_ordered [OF assms(1)]] .
  have left: "?n = n + actions_left ts" using locking.run_actions [OF assms(2)] actions by simp
  have finished: "n = ?n \<longleftrightarrow> all_finished ts" using left locking.finished_actions [of ts] by auto
  have stuck: "all_finished ts \<longleftrightarrow> (\<nexists>ts'. lock_step ts ts')"
    using locking.never_stuck [OF ordered] locking.step_actions locking.finished_actions by force
  have "length ts = length scripts"
    using runs by (induction rule: rtranclp_induct) (auto elim!: lock_step.cases)
  then have "all_finished ts \<longleftrightarrow> ts = map (\<lambda>_. start_thread []) scripts"
    using ordered unfolding all_finished_def list_all_length list_eq_iff_nth_eq
    by (auto simp: thread_ordered_def start_thread_def)
  with left finished stuck show ?thesis by simp
qed

definition rival_scripts :: "lock action list list" where
  "rival_scripts =
     [completion_script flow_server ''u1'' ''s'' ''f'' [''d1'', ''d2''] (Takes_Blob_Locks True),
      deletion_script flow_server ''s'' ''f'' [''d2'', ''d1''] Deletes]"

lemma rival_requests: "list_all (request_script flow_server) rival_scripts"
  by (simp add: rival_scripts_def request_script.intros)

theorem requests_finish_witness:
  "0 < sum_list (map length rival_scripts) \<and> (\<exists>ts. lock_step (map start_thread rival_scripts) ts)"
proof -
  have "(lock_step ^^ 0) (map start_thread rival_scripts) (map start_thread rival_scripts)" by simp
  from requests_finish [OF rival_requests this]
  show ?thesis by (auto simp: rival_scripts_def completion_script_def Let_def guarded_def)
qed

text \<open>The blob locks of a request are in strictly ascending order of their stripes, there is one
  for the stripe of every digest and no other, and every stripe is an index of the lock table.\<close>

theorem blob_lock_stripes_exact:
  "sorted_wrt (<) (blob_lock_stripes namespace digests)
   \<and> set (blob_lock_stripes namespace digests) = blob_lock_stripe namespace ` set digests
   \<and> set (blob_lock_stripes namespace digests) \<subseteq> {..< BLOB_LOCK_STRIPES}
   \<and> length (blob_lock_stripes namespace digests) \<le> min (length digests) BLOB_LOCK_STRIPES"
proof -
  let ?ls = "blob_lock_stripes namespace digests"
  have bound: "set ?ls \<subseteq> {..< BLOB_LOCK_STRIPES}"
    by (auto simp: set_blob_lock_stripes stripe_bounds)
  have "length ?ls = card (set ?ls)"
    using blob_lock_stripes_strict [of namespace digests]
    by (simp add: strict_sorted_iff distinct_card)
  moreover have "card (set ?ls) \<le> BLOB_LOCK_STRIPES" using card_mono [OF _ bound] by simp
  moreover have "card (set ?ls) \<le> length digests"
    unfolding set_blob_lock_stripes by (meson card_image_le card_length List.finite_set le_trans)
  ultimately show ?thesis using blob_lock_stripes_strict bound by (simp add: set_blob_lock_stripes)
qed

section \<open>Maintenance\<close>

definition busy_start :: gate where
  "busy_start = gate_start 0 no_lease"

definition busy_claimed :: gate where
  "busy_claimed =
     with_exclusive 7 (Some (''t'', Waiting))
       (busy_start\<lparr>gt_row := \<lparr>exclusive_token = Some ''t'', exclusive_until_unix = Some LEASE_DURATION\<rparr>,
          gt_tokens := {''t''}\<rparr>)"

definition busy_exclusive :: gate where
  "busy_exclusive = with_exclusive 7 (Some (''t'', Exclusive)) busy_claimed"

lemma busy_claim: "gate_step busy_start busy_claimed"
proof -
  have "claim_lease ''t'' 0 (lease_until 0) (gt_row busy_start)
      = Inr \<lparr>exclusive_token = Some ''t'', exclusive_until_unix = Some LEASE_DURATION\<rparr>"
    by (simp add: claim_lease_def busy_start_def gate_start_def no_lease_def lease_until_def)
  from gate_step.claim [where b = 7, OF _ _ _ _ this] show ?thesis
    by (simp add: busy_claimed_def busy_start_def gate_start_def no_lease_def)
qed

lemma busy_lock: "gate_step busy_claimed busy_exclusive"
  unfolding busy_exclusive_def
  by (rule gate_step.lock_exclusive)
    (auto simp: busy_claimed_def busy_start_def gate_start_def not_flock_exclusive not_flock_shared split: if_splits)

lemma busy_reachable: "gate_reachable 0 no_lease busy_claimed" "gate_reachable 0 no_lease busy_exclusive"
  using busy_claim busy_lock unfolding busy_start_def by (blast intro: reachable.intros)+

text \<open>C23: A backup excludes the requests. From any state of the lease row, whatever processes start,
  die and interleave: while one owns the archive exclusively no request is inside, not even in the
  check of the lease, no server is starting, and no other process owns the archive exclusively.\<close>

theorem backup_excludes_requests:
  assumes "gate_reachable t row g" "gt_exclusive g b = Some (token, phase)" "phase \<noteq> Waiting"
  shows "gt_shared g = (\<lambda>_. None)
    \<and> {c. \<exists>u ph. gt_exclusive g c = Some (u, ph) \<and> ph \<noteq> Waiting} = {b}"
proof -
  have "flock_ok g" using gate.always [OF assms(1)] unfolding gate_inv_def by blast
  with assms(2,3) show ?thesis unfolding flock_ok_def by blast
qed

theorem backup_excludes_requests_witness: "gt_shared busy_exclusive 3 = None"
  using backup_excludes_requests [OF busy_reachable(2), of 7 "''t''" Exclusive]
  by (simp add: busy_exclusive_def)

text \<open>C24: A pending backup is not overtaken. From the moment at which a process claimed the lease,
  and until the lease expires, the process clears it or ends, no request is admitted: those inside
  were inside before, and the row keeps the token of the owner.\<close>

theorem pending_backup_drains:
  assumes "gate_reachable t row g"
    and "gt_exclusive g b = None" "token \<notin> gt_tokens g" "read_at \<le> executed" "executed \<le> gt_now g"
    and "claim_lease token read_at (lease_until executed) (gt_row g) = Inr claimed"
    and "gate_step\<^sup>*\<^sup>* (with_exclusive b (Some (token, Waiting))
           (g\<lparr>gt_row := claimed, gt_tokens := insert token (gt_tokens g)\<rparr>)) h"
    and "gt_now h < lease_until executed" "gt_exclusive h b = Some (token, phase)" "phase \<noteq> Lease_Cleared"
  shows "gt_row h = claimed \<and> permitted h \<subseteq> permitted g"
proof -
  let ?g = "with_exclusive b (Some (token, Waiting))
     (g\<lparr>gt_row := claimed, gt_tokens := insert token (gt_tokens g)\<rparr>)"
  have step: "gate_step g ?g" by (rule gate_step.claim [OF assms(2-6)])
  have inv: "gate_inv ?g" using gate_step_inv [OF gate.always [OF assms(1)] step] .
  have "gt_row ?g = \<lparr>exclusive_token = Some token, exclusive_until_unix = Some (lease_until executed)\<rparr>"
    using assms(6) by (auto simp: claim_lease_def split: if_splits)
  from lease_drains [OF assms(7) inv _ this assms(8-10)] show ?thesis
    by (simp add: permitted_def)
qed

theorem pending_backup_drains_witness: "gt_row busy_exclusive = gt_row busy_claimed"
proof -
  have start: "gate_reachable 0 no_lease busy_start" unfolding busy_start_def by (rule reachable.initial)
  have claim: "claim_lease ''t'' 0 (lease_until 0) (gt_row busy_start)
      = Inr \<lparr>exclusive_token = Some ''t'', exclusive_until_unix = Some LEASE_DURATION\<rparr>"
    by (simp add: claim_lease_def busy_start_def gate_start_def no_lease_def lease_until_def)
  have "gate_step\<^sup>*\<^sup>* (with_exclusive 7 (Some (''t'', Waiting))
      (busy_start\<lparr>gt_row := \<lparr>exclusive_token = Some ''t'', exclusive_until_unix = Some LEASE_DURATION\<rparr>,
         gt_tokens := insert ''t'' (gt_tokens busy_start)\<rparr>)) busy_exclusive"
    using busy_lock by (simp add: busy_claimed_def busy_start_def gate_start_def no_lease_def)
  from pending_backup_drains [OF start _ _ _ _ claim this, of Exclusive]
  show ?thesis
    by (simp add: busy_claimed_def busy_exclusive_def busy_start_def gate_start_def no_lease_def
        lease_until_def LEASE_DURATION_def)
qed

text \<open>C25: A lease does not outlive its term. On a gate that started with a free row, whatever
  processes claimed the lease and died since: once the term of a lease has passed after the last step,
  a request that reads the row finds the archive free, with the row cleared, and another process can
  claim the lease.\<close>

theorem abandoned_lease_expires:
  assumes "gate_reachable t no_lease g" "gt_now g + LEASE_DURATION \<le> read_at"
  shows "maintenance_is_active read_at (gt_row g) = (False, no_lease)
    \<and> claim_lease token read_at (lease_until read_at) (gt_row g)
      = Inr \<lparr>exclusive_token = Some token, exclusive_until_unix = Some (read_at + LEASE_DURATION)\<rparr>"
proof -
  have "lease_bounded g" by (rule fresh_gate.always [OF assms(1)])
  then have row: "gt_row g = no_lease \<or> (exclusive_token (gt_row g) \<noteq> None \<and> until_passed (gt_row g) read_at)"
    using assms(2) by (auto simp: lease_bounded_def until_passed_def lease_until_def split: option.splits)
  then have "maintenance_is_active read_at (gt_row g) = (False, no_lease)"
    using is_active_stale [of "gt_row g" read_at] by (auto simp: no_lease_def)
  with row show ?thesis by (auto simp: claim_lease_def lease_until_def no_lease_def)
qed

theorem abandoned_lease_expires_witness:
  "fst (maintenance_is_active (7 * 60 * 60) (gt_row busy_claimed)) = False"
  using abandoned_lease_expires [OF busy_reachable(1), of "7 * 60 * 60" "''u''"]
  by (simp add: busy_claimed_def busy_start_def gate_start_def LEASE_DURATION_def)

end
