(* ===== verification/Socket_Address.thy ===== *)
theory Socket_Address
  imports Prelude
begin

text \<open>
  \<open>str::parse::<SocketAddr>\<close> of the Rust standard library, which reads the bind address of the
  configuration: a recursive descent over the bytes in which every reader either consumes its text
  or leaves the input as it was.
\<close>

datatype socket_addr =
    Socket_V4 "nat list" nat
  | Socket_V6 "nat list" nat nat

type_synonym 'a reader = "string \<Rightarrow> ('a \<times> string) option"

definition read_given_char :: "char \<Rightarrow> unit reader" where
  "read_given_char c s = (case s of [] \<Rightarrow> None | d # rest \<Rightarrow> if d = c then Some ((), rest) else None)"

definition then_read :: "'a reader \<Rightarrow> ('a \<Rightarrow> 'b reader) \<Rightarrow> 'b reader" where
  "then_read r f s = (case r s of None \<Rightarrow> None | Some (v, rest) \<Rightarrow> f v rest)"

definition to_digit :: "nat \<Rightarrow> char \<Rightarrow> nat option" where
  "to_digit radix c =
     (let b = byte_of c;
          digit = (if 48 \<le> b \<and> b \<le> 57 then b - 48
                   else if 97 \<le> b \<and> b \<le> 122 then b - 87
                   else if 65 \<le> b \<and> b \<le> 90 then b - 55 else 36)
      in if digit < radix then Some digit else None)"

text \<open>The digits of a number: the value so far and how many were read; \<^const>\<open>None\<close> on overflow or
  one digit too many.\<close>

fun read_digits :: "nat \<Rightarrow> nat \<Rightarrow> nat option \<Rightarrow> nat \<Rightarrow> nat \<Rightarrow> string \<Rightarrow> ((nat \<times> nat) \<times> string) option" where
  "read_digits radix maximum max_digits result digits [] = Some ((result, digits), [])"
| "read_digits radix maximum max_digits result digits (c # cs) =
     (case to_digit radix c of
        None \<Rightarrow> Some ((result, digits), c # cs)
      | Some digit \<Rightarrow>
          if result * radix + digit > maximum then None
          else if (case max_digits of None \<Rightarrow> False | Some m \<Rightarrow> digits + 1 > m) then None
          else read_digits radix maximum max_digits (result * radix + digit) (digits + 1) cs)"

definition read_number :: "nat \<Rightarrow> nat \<Rightarrow> nat option \<Rightarrow> bool \<Rightarrow> nat reader" where
  "read_number radix maximum max_digits allow_zero_prefix s =
     (case read_digits radix maximum max_digits 0 0 s of
        None \<Rightarrow> None
      | Some ((result, digits), rest) \<Rightarrow>
          if digits = 0 then None
          else if \<not> allow_zero_prefix \<and> hd s = CHR ''0'' \<and> digits > 1 then None
          else Some (result, rest))"

definition read_separator :: "char \<Rightarrow> nat \<Rightarrow> 'a reader \<Rightarrow> 'a reader" where
  "read_separator separator index inner =
     (if index > 0 then then_read (read_given_char separator) (\<lambda>_. inner) else inner)"

fun read_octets :: "nat \<Rightarrow> nat \<Rightarrow> nat list reader" where
  "read_octets i 0 s = Some ([], s)"
| "read_octets i (Suc n) s =
     (case read_separator (CHR ''.'') i (read_number 10 255 (Some 3) False) s of
        None \<Rightarrow> None
      | Some (octet, rest) \<Rightarrow>
          (case read_octets (Suc i) n rest of
             None \<Rightarrow> None
           | Some (octets, rest') \<Rightarrow> Some (octet # octets, rest')))"

definition read_ipv4_addr :: "nat list reader" where
  "read_ipv4_addr = read_octets 0 4"

text \<open>\<open>read_groups\<close>: at most \<open>n\<close> more parts from index \<open>i\<close>; an embedded IPv4 address fills two and
  ends the list.\<close>

fun read_groups :: "nat \<Rightarrow> nat \<Rightarrow> string \<Rightarrow> (nat list \<times> bool) \<times> string" where
  "read_groups i 0 s = (([], False), s)"
| "read_groups i (Suc n) s =
     (let embedded = (if n > 0 then read_separator (CHR '':'') i read_ipv4_addr s else None) in
      case embedded of
        Some (octets, rest) \<Rightarrow>
          (([octets ! 0 * 256 + octets ! 1, octets ! 2 * 256 + octets ! 3], True), rest)
      | None \<Rightarrow>
          (case read_separator (CHR '':'') i (read_number 16 65535 (Some 4) True) s of
             None \<Rightarrow> (([], False), s)
           | Some (part, rest) \<Rightarrow>
               (let ((parts, ipv4), rest') = read_groups (Suc i) n rest in ((part # parts, ipv4), rest'))))"

definition read_ipv6_addr :: "nat list reader" where
  "read_ipv6_addr s =
     (let ((head, head_ipv4), rest) = read_groups 0 8 s in
      if length head = 8 then Some (head, rest)
      else if head_ipv4 then None
      else then_read (read_given_char (CHR '':'')) (\<lambda>_. then_read (read_given_char (CHR '':'')) (\<lambda>_ rest'.
        (let ((tail, _), rest'') = read_groups 0 (8 - (length head + 1)) rest' in
         Some (head @ replicate (8 - length head - length tail) 0 @ tail, rest'')))) rest)"

definition read_port :: "nat reader" where
  "read_port = then_read (read_given_char (CHR '':'')) (\<lambda>_. read_number 10 65535 None True)"

definition read_scope_id :: "nat reader" where
  "read_scope_id = then_read (read_given_char (CHR ''%'')) (\<lambda>_. read_number 10 4294967295 None True)"

definition read_socket_addr_v4 :: "socket_addr reader" where
  "read_socket_addr_v4 =
     then_read read_ipv4_addr (\<lambda>ip. then_read read_port (\<lambda>port s. Some (Socket_V4 ip port, s)))"

definition read_socket_addr_v6 :: "socket_addr reader" where
  "read_socket_addr_v6 =
     then_read (read_given_char (CHR ''['')) (\<lambda>_. then_read read_ipv6_addr (\<lambda>ip s.
       (let (scope_id, rest) = (case read_scope_id s of None \<Rightarrow> (0, s) | Some r \<Rightarrow> r) in
        then_read (read_given_char (CHR '']'')) (\<lambda>_. then_read read_port (\<lambda>port s'.
          Some (Socket_V6 ip port scope_id, s'))) rest)))"

definition parse_socket_addr :: "string \<Rightarrow> socket_addr option" where
  "parse_socket_addr s =
     (case (case read_socket_addr_v4 s of None \<Rightarrow> read_socket_addr_v6 s | Some r \<Rightarrow> Some r) of
        Some (addr, []) \<Rightarrow> Some addr
      | _ \<Rightarrow> None)"

definition is_loopback :: "socket_addr \<Rightarrow> bool" where
  "is_loopback addr =
     (case addr of
        Socket_V4 ip _ \<Rightarrow> take 1 ip = [127]
      | Socket_V6 ip _ _ \<Rightarrow> ip = [0, 0, 0, 0, 0, 0, 0, 1])"

lemma parse_socket_addr_examples:
  "parse_socket_addr ''127.0.0.1:8080'' = Some (Socket_V4 [127, 0, 0, 1] 8080)"
  "parse_socket_addr ''[::1%3]:09'' = Some (Socket_V6 [0, 0, 0, 0, 0, 0, 0, 1] 9 3)"
  "parse_socket_addr ''[1::2:10.0.0.1]:1'' = Some (Socket_V6 [1, 0, 0, 0, 0, 2, 2560, 1] 1 0)"
  "parse_socket_addr ''127.0.0.01:80'' = None" "parse_socket_addr ''localhost:80'' = None"
  by code_simp+

end
