(* ===== verification/Configuration.thy ===== *)
theory Configuration
  imports Chunks Deletion Socket_Address
begin

text \<open>
  \<open>config.rs\<close>: the settings of the server, their defaults, their reading from the \<open>PATWARI_*\<close>
  variables and their validation, and the part of the service state that \<open>service.rs\<close> takes from
  them. A \<open>Duration\<close> is its number of nanoseconds; \<open>usize\<close> is that of a 64-bit target; a path is its text.
\<close>

section \<open>Constants\<close>

definition seconds :: "nat \<Rightarrow> nat" where "seconds n = n * 1000000000"

definition DEFAULT_DATA_DIR :: string where "DEFAULT_DATA_DIR = ''data''"
definition DEFAULT_BIND_ADDR :: string where "DEFAULT_BIND_ADDR = ''127.0.0.1:8080''"
definition DEFAULT_MAX_REQUEST_BODY_BYTES :: nat where "DEFAULT_MAX_REQUEST_BODY_BYTES = 32 * 1024 * 1024"
definition DEFAULT_MAX_CONCURRENCY :: nat where "DEFAULT_MAX_CONCURRENCY = 64"
definition DEFAULT_MAX_DOWNLOAD_CONCURRENCY :: nat where "DEFAULT_MAX_DOWNLOAD_CONCURRENCY = 8"
definition DEFAULT_REQUEST_TIMEOUT :: nat where "DEFAULT_REQUEST_TIMEOUT = seconds 30"
definition DEFAULT_CHUNK_SIZE_BYTES :: nat where "DEFAULT_CHUNK_SIZE_BYTES = 4 * 1024 * 1024"
definition DEFAULT_MAX_ARTIFACT_STORED_BYTES :: nat where "DEFAULT_MAX_ARTIFACT_STORED_BYTES = 1024 * 1024 * 1024"
definition DEFAULT_MAX_ARTIFACT_ORIGINAL_BYTES :: nat where
  "DEFAULT_MAX_ARTIFACT_ORIGINAL_BYTES = 4 * 1024 * 1024 * 1024"
definition DEFAULT_MAX_ARTIFACT_COUNT :: nat where "DEFAULT_MAX_ARTIFACT_COUNT = 128"
definition DEFAULT_MAX_SNAPSHOT_STORED_BYTES :: nat where
  "DEFAULT_MAX_SNAPSHOT_STORED_BYTES = 4 * 1024 * 1024 * 1024"
definition DEFAULT_MAX_SNAPSHOT_ORIGINAL_BYTES :: nat where
  "DEFAULT_MAX_SNAPSHOT_ORIGINAL_BYTES = 16 * 1024 * 1024 * 1024"
definition DEFAULT_UPLOAD_EXPIRY :: nat where "DEFAULT_UPLOAD_EXPIRY = seconds (24 * 60 * 60)"
definition DEFAULT_ADMIN_DELETION_ENABLED :: bool where "DEFAULT_ADMIN_DELETION_ENABLED = False"
definition DEFAULT_BLOB_GC_GRACE :: nat where "DEFAULT_BLOB_GC_GRACE = seconds (90 * 24 * 60 * 60)"
definition DEFAULT_INTEGRITY_SCAN_CONCURRENCY :: nat where "DEFAULT_INTEGRITY_SCAN_CONCURRENCY = 4"
definition DEFAULT_INTEGRITY_SCAN_BUFFER_BYTES :: nat where "DEFAULT_INTEGRITY_SCAN_BUFFER_BYTES = 64 * 1024"

definition MIN_REQUEST_BODY_BYTES :: nat where "MIN_REQUEST_BODY_BYTES = 1024"
definition MAX_REQUEST_BODY_BYTES :: nat where "MAX_REQUEST_BODY_BYTES = 64 * 1024 * 1024"
definition MAX_CONCURRENCY :: nat where "MAX_CONCURRENCY = 256"
definition MAX_DOWNLOAD_CONCURRENCY :: nat where "MAX_DOWNLOAD_CONCURRENCY = 64"
definition MAX_REQUEST_TIMEOUT :: nat where "MAX_REQUEST_TIMEOUT = seconds (5 * 60)"
definition MIN_CHUNK_SIZE_BYTES :: nat where "MIN_CHUNK_SIZE_BYTES = 1024"
definition MAX_CHUNK_SIZE_BYTES :: nat where "MAX_CHUNK_SIZE_BYTES = 32 * 1024 * 1024"
definition MAX_ARTIFACT_BYTES :: nat where "MAX_ARTIFACT_BYTES = 8 * 1024 * 1024 * 1024"
definition MAX_ARTIFACT_COUNT :: nat where "MAX_ARTIFACT_COUNT = 1024"
definition MAX_SNAPSHOT_BYTES :: nat where "MAX_SNAPSHOT_BYTES = 64 * 1024 * 1024 * 1024"
definition MIN_UPLOAD_EXPIRY :: nat where "MIN_UPLOAD_EXPIRY = seconds 60"
definition MAX_UPLOAD_EXPIRY :: nat where "MAX_UPLOAD_EXPIRY = seconds (720 * 60 * 60)"
definition MIN_BLOB_GC_GRACE :: nat where "MIN_BLOB_GC_GRACE = seconds 60"
definition MAX_BLOB_GC_GRACE :: nat where "MAX_BLOB_GC_GRACE = seconds (365 * 24 * 60 * 60)"
definition MAX_INTEGRITY_SCAN_CONCURRENCY :: nat where "MAX_INTEGRITY_SCAN_CONCURRENCY = 32"
definition MIN_INTEGRITY_SCAN_BUFFER_BYTES :: nat where "MIN_INTEGRITY_SCAN_BUFFER_BYTES = 4 * 1024"
definition MAX_INTEGRITY_SCAN_BUFFER_BYTES :: nat where "MAX_INTEGRITY_SCAN_BUFFER_BYTES = 1024 * 1024"

lemmas config_bounds =
  MIN_REQUEST_BODY_BYTES_def MAX_REQUEST_BODY_BYTES_def MAX_CONCURRENCY_def MAX_DOWNLOAD_CONCURRENCY_def
  MAX_REQUEST_TIMEOUT_def MIN_CHUNK_SIZE_BYTES_def MAX_CHUNK_SIZE_BYTES_def MAX_ARTIFACT_BYTES_def
  MAX_ARTIFACT_COUNT_def MAX_SNAPSHOT_BYTES_def MIN_UPLOAD_EXPIRY_def MAX_UPLOAD_EXPIRY_def
  MIN_BLOB_GC_GRACE_def MAX_BLOB_GC_GRACE_def MAX_INTEGRITY_SCAN_CONCURRENCY_def
  MIN_INTEGRITY_SCAN_BUFFER_BYTES_def MAX_INTEGRITY_SCAN_BUFFER_BYTES_def seconds_def

lemmas config_defaults =
  DEFAULT_DATA_DIR_def DEFAULT_BIND_ADDR_def DEFAULT_MAX_REQUEST_BODY_BYTES_def DEFAULT_MAX_CONCURRENCY_def
  DEFAULT_MAX_DOWNLOAD_CONCURRENCY_def DEFAULT_REQUEST_TIMEOUT_def DEFAULT_CHUNK_SIZE_BYTES_def
  DEFAULT_MAX_ARTIFACT_STORED_BYTES_def DEFAULT_MAX_ARTIFACT_ORIGINAL_BYTES_def DEFAULT_MAX_ARTIFACT_COUNT_def
  DEFAULT_MAX_SNAPSHOT_STORED_BYTES_def DEFAULT_MAX_SNAPSHOT_ORIGINAL_BYTES_def DEFAULT_UPLOAD_EXPIRY_def
  DEFAULT_ADMIN_DELETION_ENABLED_def DEFAULT_BLOB_GC_GRACE_def DEFAULT_INTEGRITY_SCAN_CONCURRENCY_def
  DEFAULT_INTEGRITY_SCAN_BUFFER_BYTES_def seconds_def

record config =
  cf_data_dir :: string
  cf_bind_addr :: socket_addr
  cf_max_request_body_bytes :: nat
  cf_max_concurrency :: nat
  cf_max_download_concurrency :: nat
  cf_request_timeout :: nat
  cf_chunk_size_bytes :: nat
  cf_max_artifact_stored_bytes :: nat
  cf_max_artifact_original_bytes :: nat
  cf_max_artifact_count :: nat
  cf_max_snapshot_stored_bytes :: nat
  cf_max_snapshot_original_bytes :: nat
  cf_upload_expiry :: nat
  cf_admin_deletion_enabled :: bool
  cf_blob_gc_grace :: nat
  cf_integrity_scan_concurrency :: nat
  cf_integrity_scan_buffer_bytes :: nat

datatype config_error =
    EmptyDataDir | InvalidBindAddr | InvalidRequestBodyLimit | InvalidConcurrencyLimit
  | InvalidDownloadConcurrencyLimit | InvalidRequestTimeout | InvalidChunkSize | ChunkExceedsRequestBody
  | InvalidStoredArtifactLimit | InvalidOriginalArtifactLimit | InvalidArtifactCountLimit
  | InvalidStoredSnapshotLimit | InvalidOriginalSnapshotLimit | TooManyChunks | InvalidUploadExpiry
  | InvalidAdminDeletionEnabled | InvalidBlobGcGrace | InvalidIntegrityScanConcurrency
  | InvalidIntegrityScanBuffer

text \<open>The \<open>expect\<close> on the default bind address cannot panic (\<open>default_bind_addr\<close> below).\<close>

definition default_config :: config where
  "default_config =
     \<lparr>cf_data_dir = DEFAULT_DATA_DIR, cf_bind_addr = the (parse_socket_addr DEFAULT_BIND_ADDR),
      cf_max_request_body_bytes = DEFAULT_MAX_REQUEST_BODY_BYTES, cf_max_concurrency = DEFAULT_MAX_CONCURRENCY,
      cf_max_download_concurrency = DEFAULT_MAX_DOWNLOAD_CONCURRENCY,
      cf_request_timeout = DEFAULT_REQUEST_TIMEOUT, cf_chunk_size_bytes = DEFAULT_CHUNK_SIZE_BYTES,
      cf_max_artifact_stored_bytes = DEFAULT_MAX_ARTIFACT_STORED_BYTES,
      cf_max_artifact_original_bytes = DEFAULT_MAX_ARTIFACT_ORIGINAL_BYTES,
      cf_max_artifact_count = DEFAULT_MAX_ARTIFACT_COUNT,
      cf_max_snapshot_stored_bytes = DEFAULT_MAX_SNAPSHOT_STORED_BYTES,
      cf_max_snapshot_original_bytes = DEFAULT_MAX_SNAPSHOT_ORIGINAL_BYTES,
      cf_upload_expiry = DEFAULT_UPLOAD_EXPIRY, cf_admin_deletion_enabled = DEFAULT_ADMIN_DELETION_ENABLED,
      cf_blob_gc_grace = DEFAULT_BLOB_GC_GRACE,
      cf_integrity_scan_concurrency = DEFAULT_INTEGRITY_SCAN_CONCURRENCY,
      cf_integrity_scan_buffer_bytes = DEFAULT_INTEGRITY_SCAN_BUFFER_BYTES\<rparr>"

lemma default_bind_addr: "parse_socket_addr DEFAULT_BIND_ADDR = Some (Socket_V4 [127, 0, 0, 1] 8080)"
  by (simp add: DEFAULT_BIND_ADDR_def parse_socket_addr_examples)

section \<open>Reading values\<close>

definition max_stored_bytes_for_chunk_size :: "nat \<Rightarrow> config_error + nat" where
  "max_stored_bytes_for_chunk_size chunk_size_bytes =
     ok_or TooManyChunks (checked_mul chunk_size_bytes MAX_CHUNK_COUNT)"

definition parse_bounded :: "string \<Rightarrow> nat \<Rightarrow> nat \<Rightarrow> nat option" where
  "parse_bounded text minimum maximum =
     (case parse_unsigned u64_max text of
        None \<Rightarrow> None
      | Some parsed \<Rightarrow> if minimum \<le> parsed \<and> parsed \<le> maximum then Some parsed else None)"

definition strip_suffix :: "char \<Rightarrow> string \<Rightarrow> string option" where
  "strip_suffix c s = (if s \<noteq> [] \<and> last s = c then Some (butlast s) else None)"

definition split_duration :: "string \<Rightarrow> (string \<times> nat) option" where
  "split_duration text =
     (case strip_suffix (CHR ''s'') text of Some number \<Rightarrow> Some (number, 1) | None \<Rightarrow>
      (case strip_suffix (CHR ''m'') text of Some number \<Rightarrow> Some (number, 60) | None \<Rightarrow>
       (case strip_suffix (CHR ''h'') text of Some number \<Rightarrow> Some (number, 60 * 60) | None \<Rightarrow>
        (case strip_suffix (CHR ''d'') text of Some number \<Rightarrow> Some (number, 24 * 60 * 60) | None \<Rightarrow> None))))"

definition parse_duration :: "string \<Rightarrow> nat option" where
  "parse_duration text =
     Option.bind (split_duration text) (\<lambda>(number, multiplier).
     Option.bind (parse_unsigned u64_max number) (\<lambda>n.
       if n > 0 then map_option seconds (checked_mul n multiplier) else None))"

definition bounded_duration :: "string \<Rightarrow> nat \<Rightarrow> nat \<Rightarrow> nat option" where
  "bounded_duration text minimum maximum =
     (case parse_duration text of
        None \<Rightarrow> None
      | Some d \<Rightarrow> if minimum \<le> d \<and> d \<le> maximum then Some d else None)"

definition parse_bool :: "string \<Rightarrow> bool option" where
  "parse_bool text = (if text = ''true'' then Some True else if text = ''false'' then Some False else None)"

section \<open>Validation\<close>

text \<open>The checks in the order of the code: the first that fails gives the error.\<close>

definition validate :: "config \<Rightarrow> config_error + unit" where
  "validate c =
     and_then (reject_if (cf_data_dir c = []) EmptyDataDir) (\<lambda>_.
     and_then (reject_if (\<not> (MIN_REQUEST_BODY_BYTES \<le> cf_max_request_body_bytes c
         \<and> cf_max_request_body_bytes c \<le> MAX_REQUEST_BODY_BYTES)) InvalidRequestBodyLimit) (\<lambda>_.
     and_then (reject_if (\<not> (1 \<le> cf_max_concurrency c \<and> cf_max_concurrency c \<le> MAX_CONCURRENCY))
         InvalidConcurrencyLimit) (\<lambda>_.
     and_then (reject_if (\<not> (1 \<le> cf_max_download_concurrency c
         \<and> cf_max_download_concurrency c \<le> MAX_DOWNLOAD_CONCURRENCY)) InvalidDownloadConcurrencyLimit) (\<lambda>_.
     and_then (reject_if (cf_request_timeout c = 0 \<or> cf_request_timeout c > MAX_REQUEST_TIMEOUT)
         InvalidRequestTimeout) (\<lambda>_.
     and_then (reject_if (\<not> (MIN_CHUNK_SIZE_BYTES \<le> cf_chunk_size_bytes c
         \<and> cf_chunk_size_bytes c \<le> MAX_CHUNK_SIZE_BYTES)) InvalidChunkSize) (\<lambda>_.
     and_then (reject_if (cf_chunk_size_bytes c > cf_max_request_body_bytes c) ChunkExceedsRequestBody) (\<lambda>_.
     and_then (reject_if (cf_max_artifact_stored_bytes c = 0
         \<or> cf_max_artifact_stored_bytes c > MAX_ARTIFACT_BYTES) InvalidStoredArtifactLimit) (\<lambda>_.
     and_then (reject_if (cf_max_artifact_original_bytes c = 0
         \<or> cf_max_artifact_original_bytes c > MAX_ARTIFACT_BYTES) InvalidOriginalArtifactLimit) (\<lambda>_.
     and_then (reject_if (\<not> (1 \<le> cf_max_artifact_count c \<and> cf_max_artifact_count c \<le> MAX_ARTIFACT_COUNT))
         InvalidArtifactCountLimit) (\<lambda>_.
     and_then (reject_if (cf_max_snapshot_stored_bytes c = 0
         \<or> cf_max_snapshot_stored_bytes c > MAX_SNAPSHOT_BYTES) InvalidStoredSnapshotLimit) (\<lambda>_.
     and_then (reject_if (cf_max_snapshot_original_bytes c = 0
         \<or> cf_max_snapshot_original_bytes c > MAX_SNAPSHOT_BYTES) InvalidOriginalSnapshotLimit) (\<lambda>_.
     and_then (max_stored_bytes_for_chunk_size (cf_chunk_size_bytes c)) (\<lambda>bound.
     and_then (reject_if (cf_max_artifact_stored_bytes c > bound) TooManyChunks) (\<lambda>_.
     and_then (reject_if (cf_upload_expiry c < MIN_UPLOAD_EXPIRY \<or> cf_upload_expiry c > MAX_UPLOAD_EXPIRY)
         InvalidUploadExpiry) (\<lambda>_.
     and_then (reject_if (cf_blob_gc_grace c < MIN_BLOB_GC_GRACE \<or> cf_blob_gc_grace c > MAX_BLOB_GC_GRACE)
         InvalidBlobGcGrace) (\<lambda>_.
     and_then (reject_if (\<not> (1 \<le> cf_integrity_scan_concurrency c
         \<and> cf_integrity_scan_concurrency c \<le> MAX_INTEGRITY_SCAN_CONCURRENCY))
         InvalidIntegrityScanConcurrency) (\<lambda>_.
       reject_if (\<not> (MIN_INTEGRITY_SCAN_BUFFER_BYTES \<le> cf_integrity_scan_buffer_bytes c
         \<and> cf_integrity_scan_buffer_bytes c \<le> MAX_INTEGRITY_SCAN_BUFFER_BYTES))
         InvalidIntegrityScanBuffer)))))))))))))))))"

section \<open>The environment\<close>

type_synonym environment = "string \<Rightarrow> string option"

text \<open>A setting that is read when its variable is set and left alone otherwise.\<close>

definition setting ::
  "environment \<Rightarrow> string \<Rightarrow> (string \<Rightarrow> 'a option) \<Rightarrow> config_error \<Rightarrow> ('a \<Rightarrow> config \<Rightarrow> config) \<Rightarrow> config
     \<Rightarrow> config_error + config" where
  "setting values name parse err update c =
     (case values name of
        None \<Rightarrow> Inr c
      | Some text \<Rightarrow> and_then (ok_or err (parse text)) (\<lambda>v. Inr (update v c)))"

definition parse_data_dir :: "string \<Rightarrow> string option" where
  "parse_data_dir text = (if all_whitespace text then None else Some text)"

text \<open>The chunk size: an implicit one is lowered to the request limit.\<close>

definition set_chunk_size :: "environment \<Rightarrow> config \<Rightarrow> config_error + config" where
  "set_chunk_size values c =
     (let explicit = values ''PATWARI_UPLOAD_CHUNK_SIZE_BYTES'' \<noteq> None in
      and_then
        (case values ''PATWARI_UPLOAD_CHUNK_SIZE_BYTES'' of
           Some text \<Rightarrow>
             ok_or InvalidChunkSize (parse_bounded text MIN_CHUNK_SIZE_BYTES MAX_CHUNK_SIZE_BYTES)
         | None \<Rightarrow> Inr (min (cf_chunk_size_bytes c) (cf_max_request_body_bytes c))) (\<lambda>n.
      and_then (reject_if (n > cf_max_request_body_bytes c) ChunkExceedsRequestBody) (\<lambda>_.
      and_then (reject_if (\<not> explicit \<and> n < MIN_CHUNK_SIZE_BYTES) InvalidChunkSize) (\<lambda>_.
        Inr (c\<lparr>cf_chunk_size_bytes := n\<rparr>)))))"

text \<open>The stored limit of an artifact: an implicit one is lowered to what the chunk size allows.\<close>

definition set_stored_limit :: "environment \<Rightarrow> config \<Rightarrow> config_error + config" where
  "set_stored_limit values c =
     (let explicit = values ''PATWARI_MAX_ARTIFACT_STORED_BYTES'' \<noteq> None in
      and_then
        (case values ''PATWARI_MAX_ARTIFACT_STORED_BYTES'' of
           Some text \<Rightarrow> ok_or InvalidStoredArtifactLimit (parse_bounded text 1 MAX_ARTIFACT_BYTES)
         | None \<Rightarrow>
             and_then (max_stored_bytes_for_chunk_size (cf_chunk_size_bytes c)) (\<lambda>bound.
               Inr (min (cf_max_artifact_stored_bytes c) bound))) (\<lambda>n.
      and_then (max_stored_bytes_for_chunk_size (cf_chunk_size_bytes c)) (\<lambda>bound.
      and_then (reject_if (n > bound) (if explicit then TooManyChunks else InvalidStoredArtifactLimit)) (\<lambda>_.
        Inr (c\<lparr>cf_max_artifact_stored_bytes := n\<rparr>)))))"

definition from_values :: "environment \<Rightarrow> config_error + config" where
  "from_values values =
     and_then (setting values ''PATWARI_DATA_DIR'' parse_data_dir EmptyDataDir
       (\<lambda>v c. c\<lparr>cf_data_dir := v\<rparr>) default_config) (\<lambda>c.
     and_then (setting values ''PATWARI_BIND_ADDR'' parse_socket_addr InvalidBindAddr
       (\<lambda>v c. c\<lparr>cf_bind_addr := v\<rparr>) c) (\<lambda>c.
     and_then (setting values ''PATWARI_MAX_REQUEST_BODY_BYTES''
       (\<lambda>t. parse_bounded t MIN_REQUEST_BODY_BYTES MAX_REQUEST_BODY_BYTES) InvalidRequestBodyLimit
       (\<lambda>v c. c\<lparr>cf_max_request_body_bytes := v\<rparr>) c) (\<lambda>c.
     and_then (set_chunk_size values c) (\<lambda>c.
     and_then (setting values ''PATWARI_MAX_CONCURRENCY''
       (\<lambda>t. parse_bounded t 1 MAX_CONCURRENCY) InvalidConcurrencyLimit
       (\<lambda>v c. c\<lparr>cf_max_concurrency := v\<rparr>) c) (\<lambda>c.
     and_then (setting values ''PATWARI_MAX_DOWNLOAD_CONCURRENCY''
       (\<lambda>t. parse_bounded t 1 MAX_DOWNLOAD_CONCURRENCY) InvalidDownloadConcurrencyLimit
       (\<lambda>v c. c\<lparr>cf_max_download_concurrency := v\<rparr>) c) (\<lambda>c.
     and_then (setting values ''PATWARI_REQUEST_TIMEOUT''
       (\<lambda>t. bounded_duration t 0 MAX_REQUEST_TIMEOUT) InvalidRequestTimeout
       (\<lambda>v c. c\<lparr>cf_request_timeout := v\<rparr>) c) (\<lambda>c.
     and_then (set_stored_limit values c) (\<lambda>c.
     and_then (setting values ''PATWARI_MAX_ARTIFACT_ORIGINAL_BYTES''
       (\<lambda>t. parse_bounded t 1 MAX_ARTIFACT_BYTES) InvalidOriginalArtifactLimit
       (\<lambda>v c. c\<lparr>cf_max_artifact_original_bytes := v\<rparr>) c) (\<lambda>c.
     and_then (setting values ''PATWARI_MAX_ARTIFACT_COUNT''
       (\<lambda>t. parse_bounded t 1 MAX_ARTIFACT_COUNT) InvalidArtifactCountLimit
       (\<lambda>v c. c\<lparr>cf_max_artifact_count := v\<rparr>) c) (\<lambda>c.
     and_then (setting values ''PATWARI_MAX_SNAPSHOT_STORED_BYTES''
       (\<lambda>t. parse_bounded t 1 MAX_SNAPSHOT_BYTES) InvalidStoredSnapshotLimit
       (\<lambda>v c. c\<lparr>cf_max_snapshot_stored_bytes := v\<rparr>) c) (\<lambda>c.
     and_then (setting values ''PATWARI_MAX_SNAPSHOT_ORIGINAL_BYTES''
       (\<lambda>t. parse_bounded t 1 MAX_SNAPSHOT_BYTES) InvalidOriginalSnapshotLimit
       (\<lambda>v c. c\<lparr>cf_max_snapshot_original_bytes := v\<rparr>) c) (\<lambda>c.
     and_then (setting values ''PATWARI_UPLOAD_EXPIRY''
       (\<lambda>t. bounded_duration t MIN_UPLOAD_EXPIRY MAX_UPLOAD_EXPIRY) InvalidUploadExpiry
       (\<lambda>v c. c\<lparr>cf_upload_expiry := v\<rparr>) c) (\<lambda>c.
     and_then (setting values ''PATWARI_ADMIN_DELETION_ENABLED'' parse_bool InvalidAdminDeletionEnabled
       (\<lambda>v c. c\<lparr>cf_admin_deletion_enabled := v\<rparr>) c) (\<lambda>c.
     and_then (setting values ''PATWARI_BLOB_GC_GRACE''
       (\<lambda>t. bounded_duration t MIN_BLOB_GC_GRACE MAX_BLOB_GC_GRACE) InvalidBlobGcGrace
       (\<lambda>v c. c\<lparr>cf_blob_gc_grace := v\<rparr>) c) (\<lambda>c.
     and_then (setting values ''PATWARI_INTEGRITY_SCAN_CONCURRENCY''
       (\<lambda>t. parse_bounded t 1 MAX_INTEGRITY_SCAN_CONCURRENCY) InvalidIntegrityScanConcurrency
       (\<lambda>v c. c\<lparr>cf_integrity_scan_concurrency := v\<rparr>) c) (\<lambda>c.
     and_then (setting values ''PATWARI_INTEGRITY_SCAN_BUFFER_BYTES''
       (\<lambda>t. parse_bounded t MIN_INTEGRITY_SCAN_BUFFER_BYTES MAX_INTEGRITY_SCAN_BUFFER_BYTES)
       InvalidIntegrityScanBuffer (\<lambda>v c. c\<lparr>cf_integrity_scan_buffer_bytes := v\<rparr>) c) (\<lambda>c.
     and_then (validate c) (\<lambda>_. Inr c))))))))))))))))))"

text \<open>Of the variables of the process only those with the prefix are kept; a later entry of the
  same name wins.\<close>

definition from_env :: "(string \<times> string) list \<Rightarrow> config_error + config" where
  "from_env vars =
     from_values (map_of (rev (filter (\<lambda>(key, _). strip_prefix ''PATWARI_'' key \<noteq> None) vars)))"

section \<open>The service state\<close>

text \<open>What \<open>Service::bootstrap\<close> takes from the settings for the request handlers; deadlines use the
  whole seconds of a duration.\<close>

definition app_state :: "config \<Rightarrow> externals \<Rightarrow> archive_identity \<Rightarrow> server" where
  "app_state c externals identity =
     \<lparr>ext = externals, srv_identity = identity,
      srv_limits = \<lparr>lim_artifact_count = cf_max_artifact_count c,
        lim_artifact_stored_bytes = cf_max_artifact_stored_bytes c,
        lim_artifact_original_bytes = cf_max_artifact_original_bytes c,
        lim_snapshot_stored_bytes = cf_max_snapshot_stored_bytes c,
        lim_snapshot_original_bytes = cf_max_snapshot_original_bytes c\<rparr>,
      srv_chunk_size_bytes = cf_chunk_size_bytes c,
      srv_upload_expiry = cf_upload_expiry c div 1000000000,
      srv_blob_gc_grace = cf_blob_gc_grace c div 1000000000,
      srv_admin_enabled = cf_admin_deletion_enabled c\<rparr>"

end
