(* ===== verification/Configuration_Properties.thy ===== *)
theory Configuration_Properties
  imports Configuration Validation_Properties
begin

text \<open>
  The properties of the configuration: an environment is rejected only on account of a variable that
  is set in it, and a validated configuration bounds the chunks of every manifest that its limits
  accept.
\<close>

section \<open>Errors of the environment\<close>

text \<open>The variable an error message names.\<close>

fun blamed_variable :: "config_error \<Rightarrow> string" where
  "blamed_variable EmptyDataDir = ''PATWARI_DATA_DIR''"
| "blamed_variable InvalidBindAddr = ''PATWARI_BIND_ADDR''"
| "blamed_variable InvalidRequestBodyLimit = ''PATWARI_MAX_REQUEST_BODY_BYTES''"
| "blamed_variable InvalidConcurrencyLimit = ''PATWARI_MAX_CONCURRENCY''"
| "blamed_variable InvalidDownloadConcurrencyLimit = ''PATWARI_MAX_DOWNLOAD_CONCURRENCY''"
| "blamed_variable InvalidRequestTimeout = ''PATWARI_REQUEST_TIMEOUT''"
| "blamed_variable InvalidChunkSize = ''PATWARI_UPLOAD_CHUNK_SIZE_BYTES''"
| "blamed_variable ChunkExceedsRequestBody = ''PATWARI_UPLOAD_CHUNK_SIZE_BYTES''"
| "blamed_variable InvalidStoredArtifactLimit = ''PATWARI_MAX_ARTIFACT_STORED_BYTES''"
| "blamed_variable InvalidOriginalArtifactLimit = ''PATWARI_MAX_ARTIFACT_ORIGINAL_BYTES''"
| "blamed_variable InvalidArtifactCountLimit = ''PATWARI_MAX_ARTIFACT_COUNT''"
| "blamed_variable InvalidStoredSnapshotLimit = ''PATWARI_MAX_SNAPSHOT_STORED_BYTES''"
| "blamed_variable InvalidOriginalSnapshotLimit = ''PATWARI_MAX_SNAPSHOT_ORIGINAL_BYTES''"
| "blamed_variable TooManyChunks = ''PATWARI_MAX_ARTIFACT_STORED_BYTES''"
| "blamed_variable InvalidUploadExpiry = ''PATWARI_UPLOAD_EXPIRY''"
| "blamed_variable InvalidAdminDeletionEnabled = ''PATWARI_ADMIN_DELETION_ENABLED''"
| "blamed_variable InvalidBlobGcGrace = ''PATWARI_BLOB_GC_GRACE''"
| "blamed_variable InvalidIntegrityScanConcurrency = ''PATWARI_INTEGRITY_SCAN_CONCURRENCY''"
| "blamed_variable InvalidIntegrityScanBuffer = ''PATWARI_INTEGRITY_SCAN_BUFFER_BYTES''"

text \<open>The bounds that hold from the defaults on, and those between two settings once both are read.\<close>

definition config_sane :: "bool \<Rightarrow> bool \<Rightarrow> config \<Rightarrow> bool" where
  "config_sane chunk_read stored_read c =
     (cf_data_dir c \<noteq> []
      \<and> MIN_REQUEST_BODY_BYTES \<le> cf_max_request_body_bytes c
      \<and> cf_max_request_body_bytes c \<le> MAX_REQUEST_BODY_BYTES
      \<and> 1 \<le> cf_max_concurrency c \<and> cf_max_concurrency c \<le> MAX_CONCURRENCY
      \<and> 1 \<le> cf_max_download_concurrency c \<and> cf_max_download_concurrency c \<le> MAX_DOWNLOAD_CONCURRENCY
      \<and> 0 < cf_request_timeout c \<and> cf_request_timeout c \<le> MAX_REQUEST_TIMEOUT
      \<and> MIN_CHUNK_SIZE_BYTES \<le> cf_chunk_size_bytes c \<and> cf_chunk_size_bytes c \<le> MAX_CHUNK_SIZE_BYTES
      \<and> (chunk_read \<longrightarrow> cf_chunk_size_bytes c \<le> cf_max_request_body_bytes c)
      \<and> 0 < cf_max_artifact_stored_bytes c \<and> cf_max_artifact_stored_bytes c \<le> MAX_ARTIFACT_BYTES
      \<and> (stored_read \<longrightarrow> cf_max_artifact_stored_bytes c \<le> cf_chunk_size_bytes c * MAX_CHUNK_COUNT)
      \<and> 0 < cf_max_artifact_original_bytes c \<and> cf_max_artifact_original_bytes c \<le> MAX_ARTIFACT_BYTES
      \<and> 1 \<le> cf_max_artifact_count c \<and> cf_max_artifact_count c \<le> MAX_ARTIFACT_COUNT
      \<and> 0 < cf_max_snapshot_stored_bytes c \<and> cf_max_snapshot_stored_bytes c \<le> MAX_SNAPSHOT_BYTES
      \<and> 0 < cf_max_snapshot_original_bytes c \<and> cf_max_snapshot_original_bytes c \<le> MAX_SNAPSHOT_BYTES
      \<and> MIN_UPLOAD_EXPIRY \<le> cf_upload_expiry c \<and> cf_upload_expiry c \<le> MAX_UPLOAD_EXPIRY
      \<and> MIN_BLOB_GC_GRACE \<le> cf_blob_gc_grace c \<and> cf_blob_gc_grace c \<le> MAX_BLOB_GC_GRACE
      \<and> 1 \<le> cf_integrity_scan_concurrency c
      \<and> cf_integrity_scan_concurrency c \<le> MAX_INTEGRITY_SCAN_CONCURRENCY
      \<and> MIN_INTEGRITY_SCAN_BUFFER_BYTES \<le> cf_integrity_scan_buffer_bytes c
      \<and> cf_integrity_scan_buffer_bytes c \<le> MAX_INTEGRITY_SCAN_BUFFER_BYTES)"

lemma max_stored_bytes_eq:
  "n \<le> MAX_CHUNK_SIZE_BYTES \<Longrightarrow> max_stored_bytes_for_chunk_size n = Inr (n * MAX_CHUNK_COUNT)"
  by (simp add: max_stored_bytes_for_chunk_size_def checked_mul_def MAX_CHUNK_SIZE_BYTES_def
      MAX_CHUNK_COUNT_def u64_max_def)

lemma validate_iff: "validate c = Inr () \<longleftrightarrow> config_sane True True c"
  by (auto simp: validate_def config_sane_def and_then_eq_Inr reject_if_eq_Inr max_stored_bytes_eq)

lemma default_sane: "config_sane False False default_config"
  by (simp add: config_sane_def default_config_def config_defaults config_bounds)

lemma parse_bounded_ok [result_simps]:
  "parse_bounded t a b = Some n \<longleftrightarrow> parse_unsigned u64_max t = Some n \<and> a \<le> n \<and> n \<le> b"
  by (auto simp: parse_bounded_def split: option.splits)

lemma parse_duration_positive: "parse_duration t = Some d \<Longrightarrow> 0 < d"
  by (auto simp: parse_duration_def bind_eq_Some_conv checked_mul_def seconds_def split_duration_def
      split: if_splits option.splits)

lemma bounded_duration_ok:
  "bounded_duration t a b = Some d \<Longrightarrow> 0 < d \<and> a \<le> d \<and> d \<le> b"
  using parse_duration_positive by (auto simp: bounded_duration_def split: option.splits if_splits)

lemma parse_data_dir_ok: "parse_data_dir t = Some d \<Longrightarrow> d \<noteq> []"
  by (auto simp: parse_data_dir_def all_whitespace.simps [of "[]"] split: if_splits)

lemma sane_updates:
  assumes "config_sane a b c"
  shows "parse_data_dir t = Some d \<Longrightarrow> config_sane a b (c\<lparr>cf_data_dir := d\<rparr>)"
    and "config_sane a b (c\<lparr>cf_bind_addr := addr\<rparr>)"
    and "parse_bounded t 1 MAX_CONCURRENCY = Some n \<Longrightarrow> config_sane a b (c\<lparr>cf_max_concurrency := n\<rparr>)"
    and "parse_bounded t 1 MAX_DOWNLOAD_CONCURRENCY = Some n \<Longrightarrow>
      config_sane a b (c\<lparr>cf_max_download_concurrency := n\<rparr>)"
    and "bounded_duration t 0 MAX_REQUEST_TIMEOUT = Some n \<Longrightarrow> config_sane a b (c\<lparr>cf_request_timeout := n\<rparr>)"
    and "parse_bounded t 1 MAX_ARTIFACT_BYTES = Some n \<Longrightarrow>
      config_sane a b (c\<lparr>cf_max_artifact_original_bytes := n\<rparr>)"
    and "parse_bounded t 1 MAX_ARTIFACT_COUNT = Some n \<Longrightarrow> config_sane a b (c\<lparr>cf_max_artifact_count := n\<rparr>)"
    and "parse_bounded t 1 MAX_SNAPSHOT_BYTES = Some n \<Longrightarrow>
      config_sane a b (c\<lparr>cf_max_snapshot_stored_bytes := n\<rparr>)"
    and "parse_bounded t 1 MAX_SNAPSHOT_BYTES = Some n \<Longrightarrow>
      config_sane a b (c\<lparr>cf_max_snapshot_original_bytes := n\<rparr>)"
    and "bounded_duration t MIN_UPLOAD_EXPIRY MAX_UPLOAD_EXPIRY = Some n \<Longrightarrow>
      config_sane a b (c\<lparr>cf_upload_expiry := n\<rparr>)"
    and "config_sane a b (c\<lparr>cf_admin_deletion_enabled := enabled\<rparr>)"
    and "bounded_duration t MIN_BLOB_GC_GRACE MAX_BLOB_GC_GRACE = Some n \<Longrightarrow>
      config_sane a b (c\<lparr>cf_blob_gc_grace := n\<rparr>)"
    and "parse_bounded t 1 MAX_INTEGRITY_SCAN_CONCURRENCY = Some n \<Longrightarrow>
      config_sane a b (c\<lparr>cf_integrity_scan_concurrency := n\<rparr>)"
    and "parse_bounded t MIN_INTEGRITY_SCAN_BUFFER_BYTES MAX_INTEGRITY_SCAN_BUFFER_BYTES = Some n \<Longrightarrow>
      config_sane a b (c\<lparr>cf_integrity_scan_buffer_bytes := n\<rparr>)"
  using assms
  by (simp_all add: config_sane_def parse_bounded_ok parse_data_dir_ok bounded_duration_ok)

lemma sane_request_limit:
  "config_sane False b c \<Longrightarrow> parse_bounded t MIN_REQUEST_BODY_BYTES MAX_REQUEST_BODY_BYTES = Some n \<Longrightarrow>
     config_sane False b (c\<lparr>cf_max_request_body_bytes := n\<rparr>)"
  by (simp add: config_sane_def parse_bounded_ok)

text \<open>The steps of \<open>from_values\<close>: what each can report, and the bounds it leaves.\<close>

lemma setting_step:
  assumes "config_sane a b c" "values name \<noteq> None \<Longrightarrow> P err"
    and "\<And>text v c. config_sane a b c \<Longrightarrow> parse text = Some v \<Longrightarrow> config_sane a b (update v c)"
    and "\<And>c'. config_sane a b c' \<Longrightarrow> errors_in P (f c')"
  shows "errors_in P (and_then (setting values name parse err update c) f)"
  using assms by (auto simp: setting_def ok_or_def split: option.splits intro!: errors_in_and_then)

lemma chunk_size_step:
  assumes "config_sane False False c"
    and "values ''PATWARI_UPLOAD_CHUNK_SIZE_BYTES'' \<noteq> None \<Longrightarrow> P InvalidChunkSize \<and> P ChunkExceedsRequestBody"
    and "\<And>c'. config_sane True False c' \<Longrightarrow> errors_in P (f c')"
  shows "errors_in P (and_then (set_chunk_size values c) f)"
proof (cases "values ''PATWARI_UPLOAD_CHUNK_SIZE_BYTES''")
  case None
  have "config_sane True False (c\<lparr>cf_chunk_size_bytes := min (cf_chunk_size_bytes c) (cf_max_request_body_bytes c)\<rparr>)"
    using assms(1) by (auto simp: config_sane_def MIN_CHUNK_SIZE_BYTES_def MIN_REQUEST_BODY_BYTES_def)
  moreover from this have "MIN_CHUNK_SIZE_BYTES \<le> min (cf_chunk_size_bytes c) (cf_max_request_body_bytes c)"
    by (simp add: config_sane_def)
  ultimately show ?thesis
    using assms(3) None by (auto simp: set_chunk_size_def Let_def reject_if_def min_less_iff_disj)
next
  case (Some t)
  then have P: "P InvalidChunkSize" "P ChunkExceedsRequestBody" using assms(2) by simp_all
  have "config_sane True False (c\<lparr>cf_chunk_size_bytes := n\<rparr>)"
    if "MIN_CHUNK_SIZE_BYTES \<le> n" "n \<le> MAX_CHUNK_SIZE_BYTES" "n \<le> cf_max_request_body_bytes c" for n
    using assms(1) that by (auto simp: config_sane_def)
  with P assms(3) Some show ?thesis
    by (auto simp: set_chunk_size_def Let_def reject_if_def ok_or_def parse_bounded_ok split: option.splits
        intro!: errors_in_and_then)
qed

lemma stored_limit_step:
  assumes "config_sane True False c"
    and "values ''PATWARI_MAX_ARTIFACT_STORED_BYTES'' \<noteq> None \<Longrightarrow> P InvalidStoredArtifactLimit \<and> P TooManyChunks"
    and "\<And>c'. config_sane True True c' \<Longrightarrow> errors_in P (f c')"
  shows "errors_in P (and_then (set_stored_limit values c) f)"
proof (cases "values ''PATWARI_MAX_ARTIFACT_STORED_BYTES''")
  case None
  have bound: "max_stored_bytes_for_chunk_size (cf_chunk_size_bytes c) = Inr (cf_chunk_size_bytes c * MAX_CHUNK_COUNT)"
    using assms(1) by (simp add: config_sane_def max_stored_bytes_eq)
  let ?n = "min (cf_max_artifact_stored_bytes c) (cf_chunk_size_bytes c * MAX_CHUNK_COUNT)"
  have "config_sane True True (c\<lparr>cf_max_artifact_stored_bytes := ?n\<rparr>)"
    using assms(1) by (auto simp: config_sane_def MIN_CHUNK_SIZE_BYTES_def MAX_CHUNK_COUNT_def)
  then show ?thesis
    using assms(3) None bound by (simp add: set_stored_limit_def Let_def)
next
  case (Some t)
  have bound: "max_stored_bytes_for_chunk_size (cf_chunk_size_bytes c) = Inr (cf_chunk_size_bytes c * MAX_CHUNK_COUNT)"
    using assms(1) by (simp add: config_sane_def max_stored_bytes_eq)
  have P: "P InvalidStoredArtifactLimit" "P TooManyChunks" using assms(2) Some by simp_all
  have "config_sane True True (c\<lparr>cf_max_artifact_stored_bytes := n\<rparr>)"
    if "1 \<le> n" "n \<le> MAX_ARTIFACT_BYTES" "n \<le> cf_chunk_size_bytes c * MAX_CHUNK_COUNT" for n
    using assms(1) that by (auto simp: config_sane_def)
  with P assms(3) Some bound show ?thesis
    by (auto simp: set_stored_limit_def Let_def reject_if_def ok_or_def parse_bounded_ok split: option.splits
        intro!: errors_in_and_then)
qed

lemma validate_step: "config_sane True True c \<Longrightarrow> errors_in P (f ()) \<Longrightarrow> errors_in P (and_then (validate c) f)"
  by (simp add: validate_iff [symmetric])

lemma from_values_errors:
  assumes "\<And>e. values (blamed_variable e) \<noteq> None \<Longrightarrow> P e"
  shows "errors_in P (from_values values)"
proof -
  have P: "values name \<noteq> None \<Longrightarrow> blamed_variable e = name \<Longrightarrow> P e" for name e using assms by blast
  have sane: "config_sane False False default_config" by (rule default_sane)
  show ?thesis
    unfolding from_values_def
    by ((rule setting_step, (rule sane | assumption), erule P, simp,
          (rule sane_updates sane_request_limit; assumption)[1])
        | (rule chunk_size_step, assumption, simp add: assms)
        | (rule stored_limit_step, assumption, simp add: assms)
        | (rule validate_step, assumption, simp))+
qed

text \<open>C26: A start is refused only for a reason the operator can see: an error of the configuration
  names a variable that is set in the environment. The defaults alone always give a configuration,
  and every configuration that is read passes the validation.\<close>

theorem configuration_errors_explained:
  "errors_in (\<lambda>e. values (blamed_variable e) \<noteq> None) (from_values values)
   \<and> from_values (\<lambda>_. None) = Inr default_config
   \<and> {c. from_values values = Inr c} \<subseteq> {c. validate c = Inr ()}"
proof -
  have "from_values (\<lambda>_. None) = Inr default_config" by code_simp
  moreover have "validate c = Inr ()" if "from_values values = Inr c" for c
    using that unfolding from_values_def and_then_eq_Inr by auto
  moreover have "errors_in (\<lambda>e. values (blamed_variable e) \<noteq> None) (from_values values)"
    by (rule from_values_errors)
  ultimately show ?thesis by blast
qed

text \<open>The examples of the unit tests.\<close>

lemma configuration_examples:
  "map_option (\<lambda>c. (cf_chunk_size_bytes c, cf_request_timeout c, cf_upload_expiry c))
     (case from_values [''PATWARI_MAX_REQUEST_BODY_BYTES'' \<mapsto> ''4096'', ''PATWARI_UPLOAD_EXPIRY'' \<mapsto> ''2h'',
        ''PATWARI_REQUEST_TIMEOUT'' \<mapsto> ''5s''] of Inl e \<Rightarrow> None | Inr c \<Rightarrow> Some c)
   = Some (4096, seconds 5, seconds 7200)"
  "from_values [''PATWARI_MAX_CONCURRENCY'' \<mapsto> ''0''] = Inl InvalidConcurrencyLimit"
  "from_values [''PATWARI_UPLOAD_CHUNK_SIZE_BYTES'' \<mapsto> ''8192'', ''PATWARI_MAX_REQUEST_BODY_BYTES'' \<mapsto> ''4096'']
   = Inl ChunkExceedsRequestBody"
  "from_values [''PATWARI_UPLOAD_CHUNK_SIZE_BYTES'' \<mapsto> ''1024'', ''PATWARI_MAX_ARTIFACT_STORED_BYTES'' \<mapsto> ''67109888'']
   = Inl TooManyChunks"
  "from_values [''PATWARI_BLOB_GC_GRACE'' \<mapsto> ''366d''] = Inl InvalidBlobGcGrace"
  "from_values [''PATWARI_BLOB_GC_GRACE'' \<mapsto> ''59s''] = Inl InvalidBlobGcGrace"
  by code_simp+

section \<open>Limits and chunks\<close>

lemma add_chunk_count_exact:
  assumes "list_all (\<lambda>a. chunk_count (stored_size_bytes a) c = Inr (f a)) as" "t \<le> MAX_SNAPSHOT_CHUNK_COUNT"
  shows "try_fold (add_chunk_count c) (t, ms) as =
    (if t + sum_list (map f as) \<le> MAX_SNAPSHOT_CHUNK_COUNT
     then Inr (t + sum_list (map f as), ms @ map f as)
     else Inl (invalid ''snapshot requires more chunks than the bounded upload limit''))"
  using assms
proof (induction as arbitrary: t ms)
  case (Cons a as)
  have "f a \<le> MAX_CHUNK_COUNT" using Cons.prems(1) by (auto simp: chunk_count_ok)
  then have sum: "checked_add t (f a) = Some (t + f a)"
    using Cons.prems(2)
    by (simp add: checked_add_def MAX_CHUNK_COUNT_def MAX_SNAPSHOT_CHUNK_COUNT_def u64_max_def)
  show ?case
  proof (cases "t + f a \<le> MAX_SNAPSHOT_CHUNK_COUNT")
    case True
    then show ?thesis using Cons.IH [of "t + f a" "ms @ [f a]"] Cons.prems sum
      by (simp add: add_chunk_count_def add.assoc)
  next
    case False
    then show ?thesis using Cons.prems sum by (simp add: add_chunk_count_def)
  qed
qed simp

lemma chunks_needed_limit: "s \<le> c * n \<Longrightarrow> 0 < c \<Longrightarrow> chunks_needed s c \<le> n"
  by (auto simp: chunks_needed_def less_mult_imp_div_less Suc_le_eq mult.commute)

text \<open>C27: The configuration keeps chunked uploads possible. With the limits of a validated
  configuration every artifact of an accepted manifest needs at most \<open>MAX_CHUNK_COUNT\<close> chunks, so its
  layout fails only when all artifacts together need more than the snapshot bound, and otherwise
  lists what each needs with the totals of the manifest.\<close>

theorem configured_layout_exact:
  assumes "validate c = Inr ()"
    and "normalize_manifest externals input (srv_limits (app_state c externals identity)) = Inr m"
  shows "list_all (\<lambda>a. chunks_needed (stored_size_bytes a) (cf_chunk_size_bytes c) \<le> MAX_CHUNK_COUNT) (artifacts m)
    \<and> upload_layout_of m (srv_chunk_size_bytes (app_state c externals identity)) =
      (let counts = map (\<lambda>a. chunks_needed (stored_size_bytes a) (cf_chunk_size_bytes c)) (artifacts m) in
       if sum_list counts \<le> MAX_SNAPSHOT_CHUNK_COUNT
       then Inr \<lparr>chunk_counts = counts,
         total_original_bytes = sum_list (map original_size_bytes (artifacts m)),
         total_stored_bytes = sum_list (map stored_size_bytes (artifacts m))\<rparr>
       else Inl (invalid ''snapshot requires more chunks than the bounded upload limit''))"
proof -
  let ?c = "cf_chunk_size_bytes c" and ?limits = "srv_limits (app_state c externals identity)"
  have sane: "config_sane True True c" using assms(1) by (simp add: validate_iff)
  then have c: "0 < ?c" "cf_max_artifact_stored_bytes c \<le> ?c * MAX_CHUNK_COUNT"
    by (simp_all add: config_sane_def MIN_CHUNK_SIZE_BYTES_def)
  note wf = normalize_manifest_wf [OF assms(2)]
  have "stored_size_bytes a \<le> cf_max_artifact_stored_bytes c" if "a \<in> set (artifacts m)" for a
    using wf that
    by (auto simp: manifest_wf_def batch_ok_def artifact_ok_def list_all_iff app_state_def input_of_artifact_def)
  then have needed: "list_all (\<lambda>a. chunks_needed (stored_size_bytes a) ?c \<le> MAX_CHUNK_COUNT) (artifacts m)"
    using c by (fastforce simp: list_all_iff intro: chunks_needed_limit)
  then have counts: "list_all (\<lambda>a. chunk_count (stored_size_bytes a) ?c = Inr (chunks_needed (stored_size_bytes a) ?c))
      (artifacts m)"
    using c(1) by (simp add: list_all_iff chunk_count_ok)
  have totals: "manifest_totals m = Inr (sum_list (map original_size_bytes (artifacts m)),
      sum_list (map stored_size_bytes (artifacts m)))"
    using wf by (simp add: manifest_wf_def batch_ok_def totals_of_inputs manifest_totals_def manifest_totals_fold)
  show ?thesis
    using needed totals add_chunk_count_exact [OF counts, of 0 "[]"]
    by (simp add: upload_layout_of_def app_state_def Let_def)
qed

definition sample_config :: config where
  "sample_config = default_config\<lparr>cf_max_artifact_count := 4\<rparr>"

theorem configured_layout_exact_witness:
  "list_all (\<lambda>a. chunks_needed (stored_size_bytes a) (4 * 1024 * 1024) \<le> MAX_CHUNK_COUNT) (artifacts sample_manifest)"
proof -
  let ?identity = "\<lparr>ident_owner_namespace = OWNER_NAMESPACE, archive_instance_id = ''a'',
    ident_created_at = ''2026-01-01T00:00:00Z''\<rparr>"
  have "validate sample_config = Inr ()" by code_simp
  moreover have "normalize_manifest sample_externals sample_input
      (srv_limits (app_state sample_config sample_externals ?identity)) = Inr sample_manifest"
    by code_simp
  ultimately have "list_all (\<lambda>a. chunks_needed (stored_size_bytes a) (cf_chunk_size_bytes sample_config)
      \<le> MAX_CHUNK_COUNT) (artifacts sample_manifest)"
    by (rule configured_layout_exact [THEN conjunct1])
  then show ?thesis by (simp add: sample_config_def default_config_def DEFAULT_CHUNK_SIZE_BYTES_def)
qed

end
