(* ===== verification/Recovery.thy ===== *)
theory Recovery
  imports Deletion Completion
begin

text \<open>
  Recovery at start-up, \<open>recover_uploads\<close> of \<open>ingestion.rs\<close>: the upgrades of rows of earlier schema
  versions, the rebuild of the latest contexts, and the reconciliation of the upload and blob
  directories with the tables. Recovery meets entries that no request reads, so the state is a
  \<open>disk\<close>: an archive with the other directory entries below \<open>uploads/\<close> and \<open>blobs/sha256/\<close>. What may
  fail is an oracle over the steps; a failed step ends the recovery and what was done before stays.
\<close>

section \<open>The disk\<close>

text \<open>\<open>dk_upload_dirs\<close> are the names in \<open>uploads/\<close>; \<open>dk_upload_entries\<close> what lies directly in such a
  directory beside the tree of chunks, by directory and name; \<open>dk_chunk_strays\<close> the entries of a
  directory of chunks whose name is not the text of a number, by upload, artifact and name;
  \<open>dk_blob_strays\<close> the entries of a shard that are not at the path of a digest, by shard and name.
  Names that are not UTF-8 are skipped by the code and not part of the state.\<close>

record disk =
  dk_archive :: archive
  dk_upload_dirs :: "string list"
  dk_upload_entries :: "((string \<times> string) \<times> entry) list"
  dk_chunk_strays :: "((string \<times> nat \<times> string) \<times> entry) list"
  dk_blob_strays :: "((string \<times> string) \<times> entry) list"

datatype recovery_point =
    Commit_Upgrade string | Commit_Legacy string | Stat_Legacy string | Read_Legacy string | Link_Legacy string
  | Sync_Legacy string | Remove_Legacy string
  | Update_Fingerprint string | Commit_Sort_Keys string | Commit_Provenance string | Commit_Contexts
  | Remove_Tree string | Read_Chunk chunk_key | Delete_Chunk_Row chunk_key | Unlink_Chunk chunk_key
  | Sweep_Chunk chunk_key | Sweep_Chunk_Stray "string \<times> nat \<times> string" | Update_Status string
  | Sweep_Upload_Entry "string \<times> string" | Commit_Orphans | Sweep_Blob string
  | Sweep_Blob_Stray "string \<times> string"

record recovery_env =
  rv_upgraded_at :: offset_date_time
  rv_orphaned_at :: offset_date_time
  rv_capture_env :: "string \<Rightarrow> env"
  rv_fails :: "recovery_point \<Rightarrow> bool"

type_synonym 'a recovery = "(disk, maintenance_error, 'a) fallible_op"

text \<open>\<open>map_err(|_| MaintenanceError::Operation)\<close>.\<close>

definition operation :: "'e + 'a \<Rightarrow> maintenance_error + 'a" where
  "operation r = (case r of Inl _ \<Rightarrow> Inl Maintenance_Operation | Inr v \<Rightarrow> Inr v)"

definition failing :: "bool \<Rightarrow> 'a recovery \<Rightarrow> 'a recovery" where
  "failing fails m = (if fails then pure_op (Inl Maintenance_Operation) else m)"

text \<open>A database step: what it computes is kept unless the statement or its commit fails.\<close>

definition tables :: "disk \<Rightarrow> database" where
  "tables s = db (dk_archive s)"

definition staged :: "disk \<Rightarrow> files" where
  "staged s = fs (dk_archive s)"

definition set_tables :: "database \<Rightarrow> disk \<Rightarrow> disk" where
  "set_tables d s = s\<lparr>dk_archive := (dk_archive s)\<lparr>db := d\<rparr>\<rparr>"

definition set_staged :: "files \<Rightarrow> disk \<Rightarrow> disk" where
  "set_staged f s = s\<lparr>dk_archive := (dk_archive s)\<lparr>fs := f\<rparr>\<rparr>"

definition update_tables :: "bool \<Rightarrow> (database \<Rightarrow> 'e + database) \<Rightarrow> unit recovery" where
  "update_tables fails f =
     read_op (\<lambda>s. try_op (operation (f (tables s))) (\<lambda>d.
       failing fails (modify_op (set_tables d))))"

section \<open>Upgrades\<close>

definition LEGACY_EXPIRY_MARKER :: string where
  "LEGACY_EXPIRY_MARKER = ''1970-01-01T00:00:00Z''"

definition open_status :: "string \<Rightarrow> bool" where
  "open_status status = (status = ''created'' \<or> status = ''artifact_uploaded'')"

text \<open>Uploads without artifact rows, from before there were any.\<close>

definition uploads_to_upgrade :: "database \<Rightarrow> (upload_row \<times> manifest_row) list" where
  "uploads_to_upgrade d =
     [(u, m). u \<leftarrow> db_uploads d, m \<leftarrow> db_manifests d,
        mf_upload_id m = up_id u \<and> \<not> list_ex (\<lambda>a. ua_upload_id a = up_id u) (db_upload_artifacts d)]"

definition upgraded_upload_row ::
  "nat \<Rightarrow> int \<Rightarrow> int \<Rightarrow> int \<Rightarrow> int \<Rightarrow> int \<Rightarrow> upload_row \<Rightarrow> upload_row" where
  "upgraded_upload_row n original_total stored_total original stored chunks r =
     r\<lparr>up_artifact_count := int n, up_total_original_size_bytes := original_total,
       up_total_stored_size_bytes := stored_total, up_declared_original_size_bytes := original,
       up_declared_stored_size_bytes := stored, up_chunk_count := chunks,
       up_transfer_bytes := (if up_status r = ''completed'' then stored_total else up_transfer_bytes r)\<rparr>"

definition upgrade_artifact_rows ::
  "externals \<Rightarrow> upload_row \<Rightarrow> manifest_row \<Rightarrow> database \<Rightarrow> database result" where
  "upgrade_artifact_rows x u row d =
     and_then (ok_or internal (manifest_from_json x (mf_canonical_json row))) (\<lambda>m.
     and_then (reject_if (artifacts m = []) internal) (\<lambda>_.
     and_then (ok_or internal (u64_try_from (up_chunk_size_bytes u))) (\<lambda>chunk_size.
     and_then (upload_layout_of m chunk_size) (\<lambda>layout.
     and_then (try_fold (\<lambda>table (index, a, computed_count).
         and_then (reject_if (index > u32_max) internal) (\<lambda>_.
         insert_upload_artifact (up_id u) index a
           (if length (artifacts m) = 1 \<and> up_chunk_count u > 0 then nat (up_chunk_count u)
            else computed_count) table))
       (db_upload_artifacts d) (enumerate 0 (zip (artifacts m) (chunk_counts layout)))) (\<lambda>rows.
     and_then (to_sqlite_i64 (total_original_bytes layout)) (\<lambda>original_total.
     and_then (to_sqlite_i64 (total_stored_bytes layout)) (\<lambda>stored_total.
     and_then (to_sqlite_i64 (original_size_bytes (hd (artifacts m)))) (\<lambda>original.
     and_then (to_sqlite_i64 (stored_size_bytes (hd (artifacts m)))) (\<lambda>stored.
     Inr (d\<lparr>db_upload_artifacts := rows,
       db_uploads := update_where (\<lambda>r. up_id r = up_id u)
         (upgraded_upload_row (length (artifacts m)) original_total stored_total original stored
           (if up_chunk_count u > 0 then up_chunk_count u else int (hd (chunk_counts layout))))
         (db_uploads d)\<rparr>))))))))))"

definition upgrade_upload_artifact_rows :: "server \<Rightarrow> recovery_env \<Rightarrow> unit recovery" where
  "upgrade_upload_artifact_rows srv e =
     read_op (\<lambda>s. each_op (\<lambda>(u, row).
         update_tables (rv_fails e (Commit_Upgrade (up_id u))) (upgrade_artifact_rows (ext srv) u row))
       (uploads_to_upgrade (tables s)))"

text \<open>Uploads of the single-artifact protocol: their file becomes chunk zero of artifact zero.\<close>

definition legacy_uploads :: "database \<Rightarrow> (upload_row \<times> manifest_row) list" where
  "legacy_uploads d =
     [(u, m). u \<leftarrow> db_uploads d, m \<leftarrow> db_manifests d,
        mf_upload_id m = up_id u \<and> open_status (up_status u) \<and> up_expires_at u = LEGACY_EXPIRY_MARKER]"

definition legacy_source :: "string \<Rightarrow> disk \<Rightarrow> entry option" where
  "legacy_source upload_id s = map_of (dk_upload_entries s) (upload_id, ''artifact'')"

definition migrate_legacy_file :: "server \<Rightarrow> recovery_env \<Rightarrow> string \<Rightarrow> artifact \<Rightarrow> bool recovery" where
  "migrate_legacy_file srv e upload_id a =
     (if stored_size_bytes a = 0 then pure_op (Inr False)
      else failing (rv_fails e (Stat_Legacy upload_id)) (read_op (\<lambda>s. case legacy_source upload_id s of
       Some (Regular bs) \<Rightarrow>
         if rv_fails e (Read_Legacy upload_id)
           \<or> \<not> is_ok (verify_stored_file (ext srv) (Some (Regular bs)) (stored_size_bytes a) (stored_sha256 a))
         then pure_op (Inr False)
         else failing (rv_fails e (Link_Legacy upload_id))
           (case chunk_file (staged s) upload_id 0 0 of
              None \<Rightarrow>
                bind_op (modify_op (set_staged (link_chunk_file upload_id 0 0 bs (staged s)))) (\<lambda>_.
                failing (rv_fails e (Sync_Legacy upload_id)) (pure_op (Inr True)))
            | Some destination \<Rightarrow> pure_op (Inr (is_ok (verify_stored_file (ext srv) (Some destination)
                (stored_size_bytes a) (stored_sha256 a)))))
     | _ \<Rightarrow> pure_op (Inr False))))"

definition legacy_upload_row ::
  "int \<Rightarrow> int \<Rightarrow> int \<Rightarrow> int \<Rightarrow> string \<Rightarrow> string \<Rightarrow> upload_row \<Rightarrow> upload_row" where
  "legacy_upload_row chunk_size chunks stored original expires_at status r =
     r\<lparr>up_chunk_size_bytes := chunk_size, up_chunk_count := chunks,
       up_declared_stored_size_bytes := stored, up_declared_original_size_bytes := original,
       up_expires_at := expires_at, up_status := status, up_artifact_count := 1,
       up_total_stored_size_bytes := stored, up_total_original_size_bytes := original\<rparr>"

definition upgrade_legacy_rows ::
  "server \<Rightarrow> string \<Rightarrow> artifact \<Rightarrow> bool \<Rightarrow> string \<Rightarrow> string \<Rightarrow> database \<Rightarrow> database result" where
  "upgrade_legacy_rows srv upload_id a accepted now_text expires_at d =
     (let stored_size = stored_size_bytes a;
          chunk_size = (if stored_size = 0 then srv_chunk_size_bytes srv else stored_size);
          chunks = (if stored_size \<noteq> 0 then 1 else 0);
          status = (if stored_size = 0 \<or> accepted then ''artifact_uploaded'' else ''created'') in
      and_then (to_sqlite_i64 chunk_size) (\<lambda>chunk_size_value.
      and_then (to_sqlite_i64 stored_size) (\<lambda>stored_value.
      and_then (to_sqlite_i64 (original_size_bytes a)) (\<lambda>original_value.
      Inr (d\<lparr>db_artifacts := delete_where (\<lambda>r. list_ex (\<lambda>sn. sn_id sn = ar_snapshot_id r
            \<and> sn_deleted_at sn \<noteq> None) (db_snapshots d)) (db_artifacts d),
        db_uploads := update_where (\<lambda>r. up_id r = upload_id)
          (legacy_upload_row chunk_size_value chunks stored_value original_value expires_at status)
          (db_uploads d),
        db_upload_artifacts := update_where (\<lambda>r. ua_upload_id r = upload_id \<and> ua_artifact_index r = 0)
          (\<lambda>r. r\<lparr>ua_chunk_count := chunks\<rparr>) (db_upload_artifacts d),
        db_upload_chunks := (if accepted then snd (insert_or_ignore
            (\<lambda>r r'. uc_upload_id r = uc_upload_id r' \<and> uc_artifact_index r = uc_artifact_index r'
               \<and> uc_chunk_index r = uc_chunk_index r')
            \<lparr>uc_upload_id = upload_id, uc_artifact_index = 0, uc_chunk_index = 0,
             uc_byte_length = stored_value, uc_sha256 = digest_storage_value (stored_sha256 a),
             uc_accepted_at = now_text\<rparr> (db_upload_chunks d))
          else db_upload_chunks d)\<rparr>)))))"

definition upgrade_legacy_upload ::
  "server \<Rightarrow> recovery_env \<Rightarrow> string \<Rightarrow> string \<Rightarrow> upload_row \<times> manifest_row \<Rightarrow> unit recovery" where
  "upgrade_legacy_upload srv e now_text expires_at = (\<lambda>(u, row).
     try_op (ok_or Maintenance_Operation (manifest_from_json (ext srv) (mf_canonical_json row))) (\<lambda>m.
     try_op (reject_if (length (artifacts m) \<noteq> 1) Maintenance_Operation) (\<lambda>_.
     let a = hd (artifacts m) in
     bind_op (migrate_legacy_file srv e (up_id u) a) (\<lambda>accepted.
     bind_op (update_tables (rv_fails e (Commit_Legacy (up_id u)))
       (upgrade_legacy_rows srv (up_id u) a accepted now_text expires_at)) (\<lambda>_.
     if accepted
     then failing (rv_fails e (Remove_Legacy (up_id u)))
       (modify_op (\<lambda>s. s\<lparr>dk_upload_entries := AList.delete (up_id u, ''artifact'') (dk_upload_entries s)\<rparr>))
     else pure_op (Inr ()))))))"

definition upgrade_legacy_uploads :: "server \<Rightarrow> recovery_env \<Rightarrow> unit recovery" where
  "upgrade_legacy_uploads srv e =
     read_op (\<lambda>s. let legacy = legacy_uploads (tables s) in
       if legacy = [] then pure_op (Inr ())
       else try_op (ok_or Maintenance_Clock (format_time (ext srv) (rv_upgraded_at e))) (\<lambda>now_text.
         try_op (ok_or Maintenance_Clock (expiration_at (ext srv) (rv_upgraded_at e) (srv_upload_expiry srv)))
           (\<lambda>expires_at. each_op (upgrade_legacy_upload srv e now_text expires_at) legacy)))"

text \<open>Fingerprints of version zero. The update fails when it violates the unique index on the
  fingerprints of live snapshots.\<close>

definition live_fingerprint_keys :: "snapshot_row list \<Rightarrow> (string \<times> string) list" where
  "live_fingerprint_keys table =
     map (\<lambda>s. (sn_session_id s, sn_fingerprint_sha256 s)) (filter (\<lambda>s. sn_deleted_at s = None) table)"

definition upgraded_fingerprint :: "string \<Rightarrow> snapshot_row \<Rightarrow> snapshot_row" where
  "upgraded_fingerprint fingerprint r =
     r\<lparr>sn_fingerprint_sha256 := fingerprint, sn_fingerprint_version := int SNAPSHOT_FINGERPRINT_VERSION\<rparr>"

definition upgrade_snapshot_fingerprint ::
  "externals \<Rightarrow> string \<Rightarrow> manifest_row \<Rightarrow> database \<Rightarrow> database result" where
  "upgrade_snapshot_fingerprint x snapshot_id row d =
     and_then (ok_or internal (manifest_from_json x (mf_canonical_json row))) (\<lambda>m.
     and_then (snapshot_fingerprint x m) (\<lambda>fingerprint.
     let table = update_where (\<lambda>r. sn_id r = snapshot_id \<and> sn_fingerprint_version r = 0)
       (upgraded_fingerprint fingerprint) (db_snapshots d) in
     and_then (reject_if (\<not> distinct (live_fingerprint_keys table)) internal) (\<lambda>_.
     Inr (d\<lparr>db_snapshots := table\<rparr>))))"

definition snapshots_to_upgrade :: "database \<Rightarrow> (string \<times> manifest_row) list" where
  "snapshots_to_upgrade d =
     [(sn_id sn, row). sn \<leftarrow> db_snapshots d, row \<leftarrow> db_manifests d,
        mf_id row = sn_manifest_id sn \<and> sn_fingerprint_version sn = 0]"

definition upgrade_snapshot_fingerprints :: "server \<Rightarrow> recovery_env \<Rightarrow> unit recovery" where
  "upgrade_snapshot_fingerprints srv e =
     read_op (\<lambda>s. each_op (\<lambda>(snapshot_id, row).
         update_tables (rv_fails e (Update_Fingerprint snapshot_id))
           (upgrade_snapshot_fingerprint (ext srv) snapshot_id row))
       (snapshots_to_upgrade (tables s)))"

section \<open>Sort keys, provenance and latest contexts\<close>

definition backfill_table_sort_key ::
  "externals \<Rightarrow> ('r \<Rightarrow> string) \<Rightarrow> ('r \<Rightarrow> string) \<Rightarrow> ('r \<Rightarrow> int) \<Rightarrow> (int \<Rightarrow> 'r \<Rightarrow> 'r) \<Rightarrow> 'r list \<Rightarrow> 'r list result" where
  "backfill_table_sort_key x id_of timestamp_of key_of set_key table =
     try_fold (\<lambda>t row.
         and_then (ok_or internal (sort_key_from_rfc3339 x (timestamp_of row))) (\<lambda>sort_key.
         Inr (update_where (\<lambda>r. id_of r = id_of row \<and> key_of r = 0) (set_key sort_key) t)))
       table (filter (\<lambda>row. key_of row = 0) table)"

definition backfill_snapshots :: "externals \<Rightarrow> database \<Rightarrow> database result" where
  "backfill_snapshots x d =
     and_then (backfill_table_sort_key x sn_id sn_completed_at sn_completed_at_seq
       (\<lambda>k r. r\<lparr>sn_completed_at_seq := k\<rparr>) (db_snapshots d)) (\<lambda>t. Inr (d\<lparr>db_snapshots := t\<rparr>))"

definition backfill_captures :: "externals \<Rightarrow> database \<Rightarrow> database result" where
  "backfill_captures x d =
     and_then (backfill_table_sort_key x cp_id cp_server_completed_at cp_server_completed_at_seq
       (\<lambda>k r. r\<lparr>cp_server_completed_at_seq := k\<rparr>) (db_captures d)) (\<lambda>t. Inr (d\<lparr>db_captures := t\<rparr>))"

definition backfill_artifacts :: "externals \<Rightarrow> database \<Rightarrow> database result" where
  "backfill_artifacts x d =
     and_then (backfill_table_sort_key x ar_id ar_created_at ar_created_at_seq
       (\<lambda>k r. r\<lparr>ar_created_at_seq := k\<rparr>) (db_artifacts d)) (\<lambda>t. Inr (d\<lparr>db_artifacts := t\<rparr>))"

definition backfill_sort_keys :: "server \<Rightarrow> recovery_env \<Rightarrow> unit recovery" where
  "backfill_sort_keys srv e =
     bind_op (update_tables (rv_fails e (Commit_Sort_Keys ''snapshots'')) (backfill_snapshots (ext srv))) (\<lambda>_.
     bind_op (update_tables (rv_fails e (Commit_Sort_Keys ''captures'')) (backfill_captures (ext srv))) (\<lambda>_.
     update_tables (rv_fails e (Commit_Sort_Keys ''artifacts'')) (backfill_artifacts (ext srv))))"

definition completed_without_capture :: "database \<Rightarrow> string list" where
  "completed_without_capture d =
     map up_id (filter (\<lambda>u. up_status u = ''completed''
       \<and> \<not> list_ex (\<lambda>c. cp_upload_id c = up_id u) (db_captures d)) (db_uploads d))"

definition backfill_provenance :: "server \<Rightarrow> env \<Rightarrow> string \<Rightarrow> database \<Rightarrow> database result" where
  "backfill_provenance srv e upload_id d =
     and_then (ok_or internal (get_active_upload d upload_id)) (\<lambda>upload.
     and_then (get_upload_manifest srv d upload_id) (\<lambda>m.
     and_then (ok_or internal (up_snapshot_id upload)) (\<lambda>snapshot_id.
     and_then (ok_or internal (up_completed_at upload)) (\<lambda>completed_at.
     and_then (fetch_one (\<lambda>r. mf_upload_id r = upload_id) (db_manifests d)) (\<lambda>row.
     insert_capture_provenance srv e upload m (mf_id row) snapshot_id completed_at d)))))"

definition backfill_completed_capture_provenance :: "server \<Rightarrow> recovery_env \<Rightarrow> unit recovery" where
  "backfill_completed_capture_provenance srv e =
     read_op (\<lambda>s. each_op (\<lambda>upload_id.
         update_tables (rv_fails e (Commit_Provenance upload_id))
           (backfill_provenance srv (rv_capture_env e upload_id) upload_id))
       (completed_without_capture (tables s)))"

text \<open>The projection of all sessions, rebuilt: the statement ranks the joined rows of every session
  like the rebuild of one session after a deletion.\<close>

definition rebuild_latest_contexts :: "database \<Rightarrow> database" where
  "rebuild_latest_contexts d =
     d\<lparr>db_latest_contexts := concat (map (\<lambda>session_id.
         case rebuilt_context session_id d of None \<Rightarrow> [] | Some r \<Rightarrow> [r])
       (remdups (map se_id (db_sessions d))))\<rparr>"

definition rebuild_contexts :: "recovery_env \<Rightarrow> unit recovery" where
  "rebuild_contexts e = update_tables (rv_fails e Commit_Contexts)
     (\<lambda>d. Inr (rebuild_latest_contexts d) :: unit + database)"

section \<open>Upload directories\<close>

definition remove_tree :: "string \<Rightarrow> disk \<Rightarrow> disk" where
  "remove_tree name s =
     (set_staged (remove_upload_dir name (staged s)) s)
       \<lparr>dk_upload_dirs := filter (\<lambda>n. n \<noteq> name) (dk_upload_dirs s),
        dk_upload_entries := filter (\<lambda>((n, _), _). n \<noteq> name) (dk_upload_entries s),
        dk_chunk_strays := filter (\<lambda>((n, _, _), _). n \<noteq> name) (dk_chunk_strays s)\<rparr>"

definition remove_tree_op :: "recovery_env \<Rightarrow> string \<Rightarrow> unit recovery" where
  "remove_tree_op e name = failing (rv_fails e (Remove_Tree name)) (modify_op (remove_tree name))"

definition remove_unknown_upload_directories :: "server \<Rightarrow> recovery_env \<Rightarrow> string set \<Rightarrow> unit recovery" where
  "remove_unknown_upload_directories srv e known =
     read_op (\<lambda>s. each_op (remove_tree_op e)
       (filter (\<lambda>name. uuid_parse (ext srv) name \<noteq> None \<and> name \<notin> known) (dk_upload_dirs s)))"

text \<open>A chunk row whose file does not check is deleted; an error of the removal of its file is ignored.\<close>

definition delete_chunk_row :: "chunk_row \<Rightarrow> database \<Rightarrow> database" where
  "delete_chunk_row row d =
     d\<lparr>db_upload_chunks := delete_where (\<lambda>r. uc_upload_id r = uc_upload_id row
        \<and> uc_artifact_index r = uc_artifact_index row \<and> uc_chunk_index r = uc_chunk_index row)
      (db_upload_chunks d)\<rparr>"

definition recover_chunk_row :: "server \<Rightarrow> recovery_env \<Rightarrow> string \<Rightarrow> nat \<Rightarrow> chunk_row \<Rightarrow> unit recovery" where
  "recover_chunk_row srv e upload_id artifact_index row =
     try_op (ok_or Maintenance_Operation (u64_try_from (uc_chunk_index row))) (\<lambda>chunk_index.
     try_op (ok_or Maintenance_Operation (u64_try_from (uc_byte_length row))) (\<lambda>byte_length.
     read_op (\<lambda>s.
       let key = (upload_id, artifact_index, chunk_index);
           path = (if rv_fails e (Read_Chunk key) then None
                   else chunk_file (staged s) upload_id artifact_index chunk_index) in
       if is_ok (verify_stored_file (ext srv) path byte_length (uc_sha256 row)) then pure_op (Inr ())
       else bind_op (update_tables (rv_fails e (Delete_Chunk_Row key))
              (\<lambda>d. Inr (delete_chunk_row row d) :: unit + database)) (\<lambda>_.
            if rv_fails e (Unlink_Chunk key) then pure_op (Inr ())
            else modify_op (\<lambda>s. set_staged (unlink_chunk_file upload_id artifact_index chunk_index (staged s)) s)))))"

definition sweep_chunk :: "recovery_env \<Rightarrow> chunk_key \<Rightarrow> unit recovery" where
  "sweep_chunk e key = failing (rv_fails e (Sweep_Chunk key))
     (modify_op (\<lambda>s. case key of (u, a, c) \<Rightarrow> set_staged (unlink_chunk_file u a c (staged s)) s))"

definition sweep_chunk_stray :: "recovery_env \<Rightarrow> string \<times> nat \<times> string \<Rightarrow> unit recovery" where
  "sweep_chunk_stray e key = failing (rv_fails e (Sweep_Chunk_Stray key))
     (modify_op (\<lambda>s. s\<lparr>dk_chunk_strays := AList.delete key (dk_chunk_strays s)\<rparr>))"

definition unaccepted_chunks :: "string \<Rightarrow> nat \<Rightarrow> nat set \<Rightarrow> disk \<Rightarrow> chunk_key list" where
  "unaccepted_chunks upload_id artifact_index accepted s =
     filter (\<lambda>(u, a, c). u = upload_id \<and> a = artifact_index \<and> c \<notin> accepted)
       (map fst (chunk_files (staged s)))"

definition unaccepted_strays ::
  "string \<Rightarrow> nat \<Rightarrow> nat set \<Rightarrow> disk \<Rightarrow> (string \<times> nat \<times> string) list" where
  "unaccepted_strays upload_id artifact_index accepted s =
     filter (\<lambda>(u, a, name). u = upload_id \<and> a = artifact_index
         \<and> \<not> (case parse_unsigned u64_max name of None \<Rightarrow> False | Some index \<Rightarrow> index \<in> accepted))
       (map fst (dk_chunk_strays s))"

definition recover_artifact_chunks :: "server \<Rightarrow> recovery_env \<Rightarrow> string \<Rightarrow> upload_artifact_row \<Rightarrow> unit recovery" where
  "recover_artifact_chunks srv e upload_id a =
     try_op (ok_or Maintenance_Operation (u32_try_from (ua_artifact_index a))) (\<lambda>artifact_index.
     bind_op (read_op (\<lambda>s. each_op (recover_chunk_row srv e upload_id artifact_index)
       (chunk_rows (tables s) upload_id (ua_artifact_index a)))) (\<lambda>_.
     read_op (\<lambda>s. try_op (ok_or Maintenance_Operation
         (those (map (\<lambda>r. u64_try_from (uc_chunk_index r)) (chunk_rows (tables s) upload_id (ua_artifact_index a)))))
       (\<lambda>accepted.
         bind_op (each_op (sweep_chunk e) (unaccepted_chunks upload_id artifact_index (set accepted) s)) (\<lambda>_.
         each_op (sweep_chunk_stray e) (unaccepted_strays upload_id artifact_index (set accepted) s))))))"

definition sweep_upload_entry :: "recovery_env \<Rightarrow> string \<times> string \<Rightarrow> unit recovery" where
  "sweep_upload_entry e key = failing (rv_fails e (Sweep_Upload_Entry key))
     (modify_op (\<lambda>s. s\<lparr>dk_upload_entries := AList.delete key (dk_upload_entries s)\<rparr>))"

definition temporary_entry :: "string \<Rightarrow> bool" where
  "temporary_entry name = (strip_prefix ''.assembled-'' name \<noteq> None \<or> name = ''artifact'')"

definition recovered_status :: "string \<Rightarrow> bool \<Rightarrow> database \<Rightarrow> database" where
  "recovered_status upload_id complete d =
     d\<lparr>db_uploads := update_where (\<lambda>r. up_id r = upload_id \<and> open_status (up_status r))
        (\<lambda>r. r\<lparr>up_status := if complete then ''artifact_uploaded'' else ''created''\<rparr>) (db_uploads d)\<rparr>"

definition recover_active_upload :: "server \<Rightarrow> recovery_env \<Rightarrow> string \<Rightarrow> unit recovery" where
  "recover_active_upload srv e upload_id =
     read_op (\<lambda>s. let rows = get_upload_artifacts (tables s) upload_id in
       try_op (reject_if (rows = []) Maintenance_Operation) (\<lambda>_.
       bind_op (each_op (recover_artifact_chunks srv e upload_id) rows) (\<lambda>_.
       read_op (\<lambda>s. try_op (operation (upload_is_complete upload_id (tables s))) (\<lambda>complete.
       bind_op (update_tables (rv_fails e (Update_Status upload_id))
         (\<lambda>d. Inr (recovered_status upload_id complete d) :: unit + database)) (\<lambda>_.
       read_op (\<lambda>s. each_op (sweep_upload_entry e)
         (filter (\<lambda>(n, name). n = upload_id \<and> temporary_entry name) (map fst (dk_upload_entries s))))))))))"

section \<open>Blobs\<close>

definition mark_orphan :: "string \<Rightarrow> string \<Rightarrow> int \<Rightarrow> blob_row \<Rightarrow> blob_row" where
  "mark_orphan orphaned_at eligible_after seq b =
     b\<lparr>bl_orphaned_at := Some orphaned_at, bl_eligible_after := Some eligible_after,
       bl_eligible_after_seq := Some seq\<rparr>"

definition clear_orphan :: "blob_row \<Rightarrow> blob_row" where
  "clear_orphan b = b\<lparr>bl_orphaned_at := None, bl_eligible_after := None, bl_eligible_after_seq := None\<rparr>"

definition refresh_orphans :: "string \<Rightarrow> string \<Rightarrow> int \<Rightarrow> database \<Rightarrow> database" where
  "refresh_orphans orphaned_at eligible_after seq d =
     d\<lparr>db_blobs :=
        update_where (\<lambda>b. bl_eligible_after_seq b = None \<and> \<not> has_live_reference d (bl_id b))
          (mark_orphan orphaned_at eligible_after seq)
          (update_where (\<lambda>b. has_live_reference d (bl_id b)) clear_orphan (db_blobs d))\<rparr>"

definition sweep_blob :: "recovery_env \<Rightarrow> string \<Rightarrow> unit recovery" where
  "sweep_blob e digest = failing (rv_fails e (Sweep_Blob digest))
     (modify_op (\<lambda>s. set_staged (unlink_blob_file digest (staged s)) s))"

definition sweep_blob_stray :: "recovery_env \<Rightarrow> string \<times> string \<Rightarrow> unit recovery" where
  "sweep_blob_stray e key = failing (rv_fails e (Sweep_Blob_Stray key))
     (modify_op (\<lambda>s. s\<lparr>dk_blob_strays := AList.delete key (dk_blob_strays s)\<rparr>))"

definition known_digests :: "disk \<Rightarrow> string set" where
  "known_digests s = bl_stored_sha256 ` set (db_blobs (tables s))"

definition sweep_unknown_blobs :: "recovery_env \<Rightarrow> unit recovery" where
  "sweep_unknown_blobs e =
     read_op (\<lambda>s.
       bind_op (each_op (sweep_blob e)
         (filter (\<lambda>digest. digest \<notin> known_digests s) (map fst (blob_files (staged s))))) (\<lambda>_.
       each_op (sweep_blob_stray e)
         (filter (\<lambda>(_, name). name \<notin> known_digests s) (map fst (dk_blob_strays s)))))"

text \<open>The \<open>expect\<close> on a sort key out of range is reported as the error of the clock.\<close>

definition recover_unreferenced_blobs :: "server \<Rightarrow> recovery_env \<Rightarrow> unit recovery" where
  "recover_unreferenced_blobs srv e =
     (let t = rv_orphaned_at e; eligible_at = expiration_time t (srv_blob_gc_grace srv) in
      try_op (ok_or Maintenance_Clock (format_time (ext srv) t)) (\<lambda>orphaned_at.
      try_op (ok_or Maintenance_Clock (format_time (ext srv) eligible_at)) (\<lambda>eligible_after.
      try_op (ok_or Maintenance_Clock (sort_key_from_timestamp eligible_at)) (\<lambda>seq.
      bind_op (update_tables (rv_fails e Commit_Orphans)
        (\<lambda>d. Inr (refresh_orphans orphaned_at eligible_after seq d) :: unit + database)) (\<lambda>_.
      sweep_unknown_blobs e)))))"

section \<open>The recovery\<close>

definition recover_upload :: "server \<Rightarrow> recovery_env \<Rightarrow> string \<times> string \<Rightarrow> unit recovery" where
  "recover_upload srv e = (\<lambda>(upload_id, status).
     if status = ''completed'' then remove_tree_op e upload_id
     else recover_active_upload srv e upload_id)"

definition recover_directories :: "server \<Rightarrow> recovery_env \<Rightarrow> unit recovery" where
  "recover_directories srv e =
     read_op (\<lambda>s.
       let uploads = map (\<lambda>u. (up_id u, up_status u)) (db_uploads (tables s));
           audits = map au_upload_id (db_upload_audits (tables s)) in
       bind_op (remove_unknown_upload_directories srv e (fst ` set uploads \<union> set audits)) (\<lambda>_.
       bind_op (each_op (recover_upload srv e) uploads) (\<lambda>_.
       bind_op (each_op (remove_tree_op e) audits) (\<lambda>_.
       recover_unreferenced_blobs srv e))))"

definition upgrade_tables :: "server \<Rightarrow> recovery_env \<Rightarrow> unit recovery" where
  "upgrade_tables srv e =
     bind_op (upgrade_upload_artifact_rows srv e) (\<lambda>_.
     bind_op (upgrade_legacy_uploads srv e) (\<lambda>_.
     bind_op (upgrade_snapshot_fingerprints srv e) (\<lambda>_.
     bind_op (backfill_sort_keys srv e) (\<lambda>_.
     bind_op (backfill_completed_capture_provenance srv e) (\<lambda>_.
     rebuild_contexts e)))))"

definition recover_uploads :: "server \<Rightarrow> recovery_env \<Rightarrow> unit recovery" where
  "recover_uploads srv e = bind_op (upgrade_tables srv e) (\<lambda>_. recover_directories srv e)"

end
