(* ===== verification/Recovery_Invariant.thy ===== *)
theory Recovery_Invariant
  imports Recovery Archive_Steps
begin

text \<open>
  Recovery keeps what the tables and the blobs promise, whether it ends well or not, and a recovery
  that ends well restores the rest: the files behind the accepted chunks. The invariant during the
  recovery speaks of the upload rows with the files \<open>f\<close> that backed them before the crash, since
  the files on the disk may have been lost.
\<close>

section \<open>Rules for the combinators\<close>

lemma preserves_failing [preserves_intros]: "preserves I m \<Longrightarrow> preserves I (failing c m)"
  unfolding failing_def by (intro preserves_intros)

lemma disk_simps [simp]:
  "tables (set_tables d s) = d" "staged (set_tables d s) = staged s"
  "staged (set_staged f s) = f" "tables (set_staged f s) = tables s"
  "dk_archive (set_tables d s) = (dk_archive s)\<lparr>db := d\<rparr>"
  "dk_archive (set_staged f s) = (dk_archive s)\<lparr>fs := f\<rparr>"
  "db (dk_archive s) = tables s" "fs (dk_archive s) = staged s"
  "dk_upload_dirs (set_tables d s) = dk_upload_dirs s" "dk_upload_dirs (set_staged f s) = dk_upload_dirs s"
  "dk_upload_entries (set_tables d s) = dk_upload_entries s"
  "dk_upload_entries (set_staged f s) = dk_upload_entries s"
  "dk_chunk_strays (set_tables d s) = dk_chunk_strays s" "dk_chunk_strays (set_staged f s) = dk_chunk_strays s"
  "set_tables (tables s) s = s" "set_staged (staged s) s = s"
  "dk_blob_strays (set_tables d s) = dk_blob_strays s" "dk_blob_strays (set_staged f s) = dk_blob_strays s"
  by (simp_all add: tables_def staged_def set_tables_def set_staged_def)

lemma disk_field_simps [simp]:
  "tables (s\<lparr>dk_upload_dirs := a\<rparr>) = tables s" "staged (s\<lparr>dk_upload_dirs := a\<rparr>) = staged s"
  "tables (s\<lparr>dk_upload_entries := b\<rparr>) = tables s" "staged (s\<lparr>dk_upload_entries := b\<rparr>) = staged s"
  "tables (s\<lparr>dk_chunk_strays := c\<rparr>) = tables s" "staged (s\<lparr>dk_chunk_strays := c\<rparr>) = staged s"
  "tables (s\<lparr>dk_blob_strays := d\<rparr>) = tables s" "staged (s\<lparr>dk_blob_strays := d\<rparr>) = staged s"
  unfolding tables_def staged_def by simp_all

lemma archive_update_swap [simp]: "a\<lparr>db := d, fs := f\<rparr> = a\<lparr>fs := f, db := d\<rparr>" for a :: archive
  by (cases a) simp

lemma operation_eq [result_simps]:
  "operation r = Inr v \<longleftrightarrow> r = Inr v" "operation r = Inl e \<longleftrightarrow> (\<exists>err. r = Inl err) \<and> e = Maintenance_Operation"
  by (cases r; auto simp: operation_def)+

lemma preserves_update [preserves_intros]:
  assumes "\<And>s d. I s \<Longrightarrow> f (tables s) = Inr d \<Longrightarrow> I (set_tables d s)"
  shows "preserves I (update_tables fails f)"
  using assms
  by (auto simp: preserves_def update_tables_def read_op_def try_op_def failing_def pure_op_def modify_op_def
      operation_def split: sum.splits)

section \<open>The invariant of the recovery\<close>

definition recoverable :: "server \<Rightarrow> bytes set \<Rightarrow> files \<Rightarrow> disk \<Rightarrow> bool" where
  "recoverable srv U f s =
     (archive_inv srv U (dk_archive s) \<and> history_inv srv (dk_archive s)
      \<and> upload_inv srv ((dk_archive s)\<lparr>fs := f\<rparr>) \<and> legacy_uploads (tables s) = [])"

lemma recoverableD:
  assumes "recoverable srv U f s"
  shows "archive_inv srv U (dk_archive s)" "blob_inv srv (dk_archive s)" "files_in U (dk_archive s)"
    "history_inv srv (dk_archive s)" "upload_inv srv ((dk_archive s)\<lparr>fs := f\<rparr>)"
    "legacy_uploads (tables s) = []"
  using assms by (simp_all add: recoverable_def archive_inv_def)

text \<open>What the invariant depends on: the tables and the blob files.\<close>

lemma recoverable_view:
  assumes "tables t = tables s" "blob_files (staged t) = blob_files (staged s)"
  shows "recoverable srv U f t = recoverable srv U f s"
proof -
  have "blob_view (dk_archive t) = blob_view (dk_archive s)" using assms by (simp add: blob_view_def)
  then have "archive_inv srv U (dk_archive t) = archive_inv srv U (dk_archive s)"
    unfolding archive_inv_def using blob_inv_view files_in_view by blast
  moreover have "history_inv srv (dk_archive t) = history_inv srv (dk_archive s)"
    using assms by (simp add: history_inv_def)
  moreover have "upload_inv srv ((dk_archive t)\<lparr>fs := f\<rparr>) = upload_inv srv ((dk_archive s)\<lparr>fs := f\<rparr>)"
    by (rule upload_inv_view) (simp add: upload_view_def assms)
  ultimately show ?thesis using assms by (simp add: recoverable_def)
qed

lemma recoverable_disk:
  "recoverable srv U f (s\<lparr>dk_upload_dirs := a\<rparr>) = recoverable srv U f s"
  "recoverable srv U f (s\<lparr>dk_upload_entries := b\<rparr>) = recoverable srv U f s"
  "recoverable srv U f (s\<lparr>dk_chunk_strays := c\<rparr>) = recoverable srv U f s"
  "recoverable srv U f (s\<lparr>dk_blob_strays := d\<rparr>) = recoverable srv U f s"
  by (rule recoverable_view; simp)+

lemma recoverable_staged:
  "blob_files g = blob_files (staged s) \<Longrightarrow> recoverable srv U f (set_staged g s) = recoverable srv U f s"
  by (rule recoverable_view) simp_all

lemma chunk_files_only:
  "blob_files (unlink_chunk_file u a c g) = blob_files g" "blob_files (remove_upload_dir u g) = blob_files g"
  "blob_files (link_chunk_file u a c bs g) = blob_files g"
  by (simp_all add: unlink_chunk_file_def remove_upload_dir_def link_chunk_file_def)

lemma recoverable_remove_tree: "recoverable srv U f (remove_tree n s) = recoverable srv U f s"
  by (rule recoverable_view) (simp_all add: remove_tree_def remove_upload_dir_def)

section \<open>The upgrades\<close>

lemma upload_artifacts_present:
  assumes "upload_inv srv s" "u \<in> set (db_uploads (db s))"
  shows "\<exists>a \<in> set (db_upload_artifacts (db s)). ua_upload_id a = up_id u"
proof -
  from upload_invD(5) [OF assms] obtain m c where
    m: "manifest_of (ext srv) u (manifests_for (db s) (up_id u)) m"
    and rows: "artifacts_for (db s) (up_id u) = projected_rows (up_id u) c m"
    unfolding upload_detail_ok_def upload_ok_def by blast
  have "artifacts m \<noteq> []" using m by (auto simp: manifest_of_def manifest_wf_def)
  then have "projected_rows (up_id u) c m \<noteq> []" by (auto simp: projected_rows_def enumerate_eq_zip zip_eq_Nil_iff)
  with rows have "artifacts_for (db s) (up_id u) \<noteq> []" by simp
  then obtain a where "a \<in> set (artifacts_for (db s) (up_id u))" by (cases "artifacts_for (db s) (up_id u)") auto
  then show ?thesis by (auto simp: artifacts_for_def)
qed

lemma no_uploads_to_upgrade:
  assumes "recoverable srv U f s"
  shows "uploads_to_upgrade (tables s) = []"
proof -
  have "\<exists>a \<in> set (db_upload_artifacts (tables s)). ua_upload_id a = up_id u"
    if "u \<in> set (db_uploads (tables s))" for u
    using upload_artifacts_present [OF recoverableD(5) [OF assms]] that by simp
  then show ?thesis by (auto simp: uploads_to_upgrade_def list_ex_iff)
qed

lemma no_missing_captures:
  assumes "recoverable srv U f s"
  shows "completed_without_capture (tables s) = []"
  using recoverableD(4) [OF assms]
  by (auto simp: completed_without_capture_def history_inv_def uploads_recorded_def filter_empty_conv list_ex_iff)

lemma upgrade_rows_run:
  assumes "recoverable srv U f s"
  shows "upgrade_upload_artifact_rows srv e s = (Inr (), s)" "upgrade_legacy_uploads srv e s = (Inr (), s)"
    "backfill_completed_capture_provenance srv e s = (Inr (), s)"
  using no_uploads_to_upgrade [OF assms] recoverableD(6) [OF assms] no_missing_captures [OF assms]
  by (simp_all add: upgrade_upload_artifact_rows_def upgrade_legacy_uploads_def
      backfill_completed_capture_provenance_def read_op_def pure_op_def)

text \<open>Changes of the snapshot table that keep the columns of the history.\<close>

lemma live_keys_unique: "live_fingerprints_unique d \<longleftrightarrow> distinct (live_fingerprint_keys (db_snapshots d))"
  by (simp add: live_fingerprints_unique_def live_fingerprint_keys_def)

definition history_columns :: "snapshot_row \<Rightarrow> string \<times> string \<times> string \<times> int \<times> string option" where
  "history_columns s = (sn_id s, sn_session_id s, sn_completed_at s, sn_completed_at_seq s, sn_deleted_at s)"

lemma history_columns_eq:
  "history_columns (g r) = history_columns r \<Longrightarrow>
     sn_id (g r) = sn_id r \<and> sn_session_id (g r) = sn_session_id r \<and> sn_completed_at (g r) = sn_completed_at r
       \<and> sn_completed_at_seq (g r) = sn_completed_at_seq r \<and> sn_deleted_at (g r) = sn_deleted_at r"
  by (simp add: history_columns_def)

lemma history_inv_snapshots:
  assumes inv: "history_inv srv s" and g: "\<And>r. history_columns (g r) = history_columns r"
  shows "history_inv srv (s\<lparr>db := (db s)\<lparr>db_snapshots := map g (db_snapshots (db s))\<rparr>\<rparr>)"
proof -
  let ?d = "(db s)\<lparr>db_snapshots := map g (db_snapshots (db s))\<rparr>"
  note col = history_columns_eq [of g, OF g]
  have ids: "distinct (map sn_id (db_snapshots ?d)) = distinct (map sn_id (db_snapshots (db s)))"
    by (rule arg_cong [of _ _ distinct]) (simp add: col)
  have live: "completion_key ` live_of ?d i = completion_key ` live_of (db s) i" for i
  proof -
    have "live_of ?d i = g ` live_of (db s) i" by (auto simp: live_of_def col)
    then show ?thesis by (simp add: image_image completion_key_def col)
  qed
  then have empty: "live_of ?d i = {} \<longleftrightarrow> live_of (db s) i = {}" for i by (metis image_is_empty)
  have "snapshots_recorded (ext srv) ?d"
    using inv ids by (simp add: history_inv_def snapshots_recorded_def col)
  moreover have "uploads_recorded ?d"
    using inv by (simp add: history_inv_def uploads_recorded_def col image_image)
  moreover have "tombstones_recorded ?d"
    using inv by (simp add: history_inv_def tombstones_recorded_def col)
  moreover have "contexts_latest (live_of ?d) (db_latest_contexts ?d)"
    using inv live empty by (simp add: history_inv_def contexts_latest_def)
  ultimately show ?thesis by (simp add: history_inv_def)
qed

lemma blob_inv_snapshots:
  assumes inv: "blob_inv srv s" and g: "\<And>r. history_columns (g r) = history_columns r"
    and unique: "distinct (live_fingerprint_keys (map g (db_snapshots (db s))))"
  shows "blob_inv srv (s\<lparr>db := (db s)\<lparr>db_snapshots := map g (db_snapshots (db s))\<rparr>\<rparr>)"
proof -
  let ?d = "(db s)\<lparr>db_snapshots := map g (db_snapshots (db s))\<rparr>"
  note col = history_columns_eq [of g, OF g]
  have "live_ids ?d = {sn_id (g r) | r. r \<in> set (db_snapshots (db s)) \<and> sn_deleted_at (g r) = None}"
    by (auto simp: live_ids_def)
  then have "live_ids ?d = live_ids (db s)" by (simp add: live_ids_def col)
  moreover have "distinct (map sn_id (db_snapshots ?d)) = distinct (map sn_id (db_snapshots (db s)))"
    by (rule arg_cong [of _ _ distinct]) (simp add: col)
  moreover have "readable (ext srv) ?d (fs s) a = readable (ext srv) (db s) (fs s) a" for a
    by (simp add: readable_def)
  ultimately show ?thesis using inv unique by (simp add: blob_inv_def live_keys_unique)
qed

lemma upload_inv_tables:
  assumes "upload_inv srv (s\<lparr>fs := f\<rparr>)"
    and "db_uploads d = db_uploads (db s)" "db_manifests d = db_manifests (db s)"
    and "db_upload_artifacts d = db_upload_artifacts (db s)" "db_upload_chunks d = db_upload_chunks (db s)"
  shows "upload_inv srv (s\<lparr>db := d, fs := f\<rparr>)"
  using assms upload_inv_view [of "s\<lparr>db := d, fs := f\<rparr>" "s\<lparr>fs := f\<rparr>" srv] by (simp add: upload_view_def)

lemma legacy_uploads_tables:
  "db_uploads d = db_uploads d' \<Longrightarrow> db_manifests d = db_manifests d' \<Longrightarrow> legacy_uploads d = legacy_uploads d'"
  by (simp add: legacy_uploads_def)

lemma upgrade_fingerprints_keeps: "preserves (recoverable srv U f) (upgrade_snapshot_fingerprints srv e)"
proof -
  have "recoverable srv U f (set_tables d s)"
    if s: "recoverable srv U f s" and d: "upgrade_snapshot_fingerprint (ext srv) sid row (tables s) = Inr d" for s d sid row
  proof -
    from d obtain fingerprint where
      d: "d = (tables s)\<lparr>db_snapshots := update_where (\<lambda>r. sn_id r = sid \<and> sn_fingerprint_version r = 0)
         (upgraded_fingerprint fingerprint) (db_snapshots (tables s))\<rparr>"
      and unique: "distinct (live_fingerprint_keys (db_snapshots d))"
      by (auto simp: upgrade_snapshot_fingerprint_def and_then_eq_Inr Let_def reject_if_eq_Inr)
    let ?g = "\<lambda>r. if sn_id r = sid \<and> sn_fingerprint_version r = 0 then upgraded_fingerprint fingerprint r else r"
    have g: "history_columns (?g r) = history_columns r" for r
      by (simp add: history_columns_def upgraded_fingerprint_def)
    have d': "d = (tables s)\<lparr>db_snapshots := map ?g (db_snapshots (tables s))\<rparr>"
      unfolding d update_where_def by simp
    from unique have unique: "distinct (live_fingerprint_keys (map ?g (db_snapshots (tables s))))"
      unfolding d' by simp
    from history_inv_snapshots [OF recoverableD(4) [OF s] g] blob_inv_snapshots [OF recoverableD(2) [OF s] g] unique
    have "history_inv srv (dk_archive (set_tables d s))" "blob_inv srv (dk_archive (set_tables d s))"
      by (simp_all add: d')
    moreover have "files_in U (dk_archive (set_tables d s))"
      using recoverableD(3) [OF s] by (simp add: files_in_def)
    moreover have "upload_inv srv ((dk_archive (set_tables d s))\<lparr>fs := f\<rparr>)"
      using upload_inv_tables [OF recoverableD(5) [OF s], of d] by (simp add: d')
    moreover have "legacy_uploads d = []"
      using recoverableD(6) [OF s] legacy_uploads_tables [of d "tables s"] by (simp add: d')
    ultimately show ?thesis by (simp add: recoverable_def archive_inv_def)
  qed
  then show ?thesis
    unfolding upgrade_snapshot_fingerprints_def by (intro preserves_intros) (auto intro!: preserves_intros)
qed

text \<open>Sort keys: those of the snapshots are already those of their text, so a key of zero stays.\<close>

lemma backfill_identity:
  assumes "backfill_table_sort_key x id_of timestamp_of key_of set_key table = Inr table'"
    and "\<And>r. r \<in> set table \<Longrightarrow> sort_key_from_rfc3339 x (timestamp_of r) = Some (key_of r)"
    and "\<And>r. key_of r = 0 \<Longrightarrow> set_key 0 r = r"
  shows "table' = table"
proof -
  have same: "update_where (\<lambda>r. id_of r = i \<and> key_of r = 0) (set_key 0) t = t" for i t
    using assms(3) by (induction t) (auto simp: update_where_def)
  have "try_fold (\<lambda>t row. and_then (ok_or internal (sort_key_from_rfc3339 x (timestamp_of row))) (\<lambda>sort_key.
      Inr (update_where (\<lambda>r. id_of r = id_of row \<and> key_of r = 0) (set_key sort_key) t))) t rows = Inr t'
      \<Longrightarrow> (\<And>r. r \<in> set rows \<Longrightarrow> sort_key_from_rfc3339 x (timestamp_of r) = Some 0) \<Longrightarrow> t' = t" for t rows t'
    by (induction rows arbitrary: t) (auto simp: and_then_eq_Inr same)
  with assms(1,2) show ?thesis unfolding backfill_table_sort_key_def by fastforce
qed

lemma backfill_columns:
  assumes "backfill_table_sort_key x id_of timestamp_of key_of set_key table = Inr table'"
    and "\<And>k r. h (set_key k r) = h r"
  shows "map h table' = map h table"
proof -
  have "try_fold (\<lambda>t row. and_then (ok_or internal (sort_key_from_rfc3339 x (timestamp_of row))) (\<lambda>sort_key.
      Inr (update_where (\<lambda>r. id_of r = id_of row \<and> key_of r = 0) (set_key sort_key) t))) t rows = Inr t'
      \<Longrightarrow> map h t' = map h t" for t rows t'
    by (induction rows arbitrary: t) (auto simp: and_then_eq_Inr update_where_def assms(2))
  with assms(1) show ?thesis unfolding backfill_table_sort_key_def by blast
qed

lemma map_eq_set: "map h t = map h t' \<Longrightarrow> r \<in> set t \<Longrightarrow> \<exists>r' \<in> set t'. h r' = h r"
  by (metis (no_types, lifting) image_iff list.set_map)

lemma history_inv_captures:
  assumes "history_inv srv s"
    and "map (\<lambda>c. (cp_upload_id c, cp_snapshot_id c)) t
      = map (\<lambda>c. (cp_upload_id c, cp_snapshot_id c)) (db_captures (db s))"
  shows "history_inv srv (s\<lparr>db := (db s)\<lparr>db_captures := t\<rparr>\<rparr>)"
proof -
  let ?h = "\<lambda>c :: capture_row. (cp_upload_id c, cp_snapshot_id c)"
  have "cp_snapshot_id ` set t = snd ` set (map ?h t)" by (simp add: image_image)
  also have "\<dots> = cp_snapshot_id ` set (db_captures (db s))" unfolding assms(2) by (simp add: image_image)
  finally have ids: "cp_snapshot_id ` set t = cp_snapshot_id ` set (db_captures (db s))" .
  have "(\<exists>c \<in> set t. cp_upload_id c = u \<and> cp_snapshot_id c = i)
      \<longleftrightarrow> (\<exists>c \<in> set (db_captures (db s)). cp_upload_id c = u \<and> cp_snapshot_id c = i)" for u i
    using map_eq_set [OF assms(2)] map_eq_set [OF assms(2) [symmetric]] by (fastforce simp del: map_eq_conv)
  with assms(1) ids show ?thesis
    by (simp add: history_inv_def snapshots_recorded_def uploads_recorded_def tombstones_recorded_def
        live_of_def [abs_def])
qed

lemma blob_inv_artifacts:
  assumes inv: "blob_inv srv s"
    and cols: "map (\<lambda>a. (ar_snapshot_id a, ar_blob_id a, ar_original_size_bytes a, ar_original_sha256 a)) t
      = map (\<lambda>a. (ar_snapshot_id a, ar_blob_id a, ar_original_size_bytes a, ar_original_sha256 a)) (db_artifacts (db s))"
  shows "blob_inv srv (s\<lparr>db := (db s)\<lparr>db_artifacts := t\<rparr>\<rparr>)"
proof -
  let ?d = "(db s)\<lparr>db_artifacts := t\<rparr>"
  have "ar_snapshot_id a \<in> live_ids ?d \<and> readable (ext srv) ?d (fs s) a" if "a \<in> set t" for a
  proof -
    from map_eq_set [OF cols that] obtain b where b: "b \<in> set (db_artifacts (db s))"
      "ar_snapshot_id b = ar_snapshot_id a" "ar_blob_id b = ar_blob_id a"
      "ar_original_size_bytes b = ar_original_size_bytes a" "ar_original_sha256 b = ar_original_sha256 a"
      by auto
    with blob_invD(6,7) [OF inv b(1)] show ?thesis by (simp add: readable_def live_ids_def)
  qed
  with inv show ?thesis by (simp add: blob_inv_def live_fingerprints_unique_def live_ids_def)
qed

lemma backfill_keeps: "preserves (recoverable srv U f) (backfill_sort_keys srv e)"
proof -
  have snapshots: "set_tables d s = s" if s: "recoverable srv U f s" and d: "backfill_snapshots (ext srv) (tables s) = Inr d" for s d
  proof -
    from d obtain t where t: "backfill_table_sort_key (ext srv) sn_id sn_completed_at sn_completed_at_seq
        (\<lambda>k r. r\<lparr>sn_completed_at_seq := k\<rparr>) (db_snapshots (tables s)) = Inr t" "d = (tables s)\<lparr>db_snapshots := t\<rparr>"
      by (auto simp: backfill_snapshots_def and_then_eq_Inr)
    have "t = db_snapshots (tables s)"
      using recoverableD(4) [OF s]
      by (intro backfill_identity [OF t(1)]) (auto simp: history_inv_def snapshots_recorded_def)
    with t(2) have "d = tables s" by simp
    then show ?thesis by simp
  qed
  have captures: "recoverable srv U f (set_tables d s)"
    if s: "recoverable srv U f s" and d: "backfill_captures (ext srv) (tables s) = Inr d" for s d
  proof -
    from d obtain t where t: "backfill_table_sort_key (ext srv) cp_id cp_server_completed_at cp_server_completed_at_seq
        (\<lambda>k r. r\<lparr>cp_server_completed_at_seq := k\<rparr>) (db_captures (tables s)) = Inr t" "d = (tables s)\<lparr>db_captures := t\<rparr>"
      by (auto simp: backfill_captures_def and_then_eq_Inr)
    have "map (\<lambda>c. (cp_upload_id c, cp_snapshot_id c)) t
        = map (\<lambda>c. (cp_upload_id c, cp_snapshot_id c)) (db_captures (tables s))"
      by (rule backfill_columns [OF t(1)]) simp
    with history_inv_captures [OF recoverableD(4) [OF s], of t]
    have "history_inv srv (dk_archive (set_tables d s))" by (simp add: t(2))
    moreover have "archive_inv srv U (dk_archive (set_tables d s))"
      using recoverableD(1) [OF s] blob_inv_view [of "dk_archive (set_tables d s)" "dk_archive s"]
        files_in_view [of "dk_archive (set_tables d s)" "dk_archive s"]
      by (simp add: archive_inv_def t(2) blob_view_def)
    ultimately show ?thesis
      using upload_inv_tables [OF recoverableD(5) [OF s], of d] recoverableD(6) [OF s]
        legacy_uploads_tables [of d "tables s"] by (simp add: recoverable_def t(2))
  qed
  have artifacts: "recoverable srv U f (set_tables d s)"
    if s: "recoverable srv U f s" and d: "backfill_artifacts (ext srv) (tables s) = Inr d" for s d
  proof -
    from d obtain t where t: "backfill_table_sort_key (ext srv) ar_id ar_created_at ar_created_at_seq
        (\<lambda>k r. r\<lparr>ar_created_at_seq := k\<rparr>) (db_artifacts (tables s)) = Inr t" "d = (tables s)\<lparr>db_artifacts := t\<rparr>"
      by (auto simp: backfill_artifacts_def and_then_eq_Inr)
    have "map (\<lambda>a. (ar_snapshot_id a, ar_blob_id a, ar_original_size_bytes a, ar_original_sha256 a)) t
        = map (\<lambda>a. (ar_snapshot_id a, ar_blob_id a, ar_original_size_bytes a, ar_original_sha256 a))
            (db_artifacts (tables s))"
      by (rule backfill_columns [OF t(1)]) simp
    with blob_inv_artifacts [OF recoverableD(2) [OF s], of t]
    have "blob_inv srv (dk_archive (set_tables d s))" by (simp add: t(2))
    moreover have "files_in U (dk_archive (set_tables d s))"
      using recoverableD(3) [OF s] by (simp add: files_in_def)
    moreover have "history_inv srv (dk_archive (set_tables d s))"
      using recoverableD(4) [OF s] by (simp add: history_inv_def t(2) snapshots_recorded_def
          uploads_recorded_def tombstones_recorded_def live_of_def [abs_def])
    ultimately show ?thesis
      using upload_inv_tables [OF recoverableD(5) [OF s], of d] recoverableD(6) [OF s]
        legacy_uploads_tables [of d "tables s"] by (simp add: recoverable_def archive_inv_def t(2))
  qed
  show ?thesis
    unfolding backfill_sort_keys_def
    by (intro preserves_intros) (simp add: snapshots, erule (1) captures, erule (1) artifacts)
qed

text \<open>The rebuilt contexts are the latest ones.\<close>

lemma contexts_rebuilt:
  assumes "\<And>s. s \<in> set (db_snapshots d) \<Longrightarrow> sn_session_id s \<in> se_id ` set (db_sessions d)
      \<and> sn_id s \<in> cp_snapshot_id ` set (db_captures d)"
  shows "contexts_latest (live_of d) (db_latest_contexts (rebuild_latest_contexts d))"
proof -
  let ?row = "\<lambda>i. case rebuilt_context i d of None \<Rightarrow> [] | Some r \<Rightarrow> [r]"
  let ?table = "\<lambda>ids. concat (map ?row ids)"
  note latest = rebuilt_context_latest [OF assms]
  have ids: "map lx_session_id (?table is) = filter (\<lambda>i. rebuilt_context i d \<noteq> None) is" for "is"
  proof (induction "is")
    case (Cons i "is")
    then show ?case using latest [of i] by (cases "rebuilt_context i d") auto
  qed simp
  have "distinct (map lx_session_id (?table (remdups (map se_id (db_sessions d)))))"
    unfolding ids by (simp add: distinct_filter)
  moreover have "context_key r \<in> completion_key ` live_of d (lx_session_id r)
      \<and> (\<forall>k \<in> completion_key ` live_of d (lx_session_id r). k \<le> context_key r)"
    if "r \<in> set (?table (remdups (map se_id (db_sessions d))))" for r
  proof -
    from that obtain i where "r \<in> set (?row i)" by auto
    then have "rebuilt_context i d = Some r" by (cases "rebuilt_context i d") auto
    with latest [of i] show ?thesis by simp
  qed
  moreover have "i \<in> lx_session_id ` set (?table (remdups (map se_id (db_sessions d))))"
    if i: "live_of d i \<noteq> {}" for i
  proof -
    have "i \<in> set (map se_id (db_sessions d))" using i assms by (auto simp: live_of_def)
    moreover have "rebuilt_context i d \<noteq> None" using latest [of i] i by auto
    ultimately have "i \<in> set (map lx_session_id (?table (remdups (map se_id (db_sessions d)))))"
      unfolding ids by simp
    then show ?thesis by simp
  qed
  ultimately show ?thesis by (simp add: contexts_latest_def rebuild_latest_contexts_def)
qed

lemma rebuild_contexts_keeps: "preserves (recoverable srv U f) (rebuild_contexts e)"
proof -
  have "recoverable srv U f (set_tables (rebuild_latest_contexts (tables s)) s)" if s: "recoverable srv U f s" for s
  proof -
    let ?d = "rebuild_latest_contexts (tables s)"
    have "archive_inv srv U (dk_archive (set_tables ?d s))"
      using recoverableD(1) [OF s] blob_inv_view [of "dk_archive (set_tables ?d s)" "dk_archive s"]
        files_in_view [of "dk_archive (set_tables ?d s)" "dk_archive s"]
      by (simp add: archive_inv_def rebuild_latest_contexts_def blob_view_def)
    moreover have "history_inv srv (dk_archive (set_tables ?d s))"
      using recoverableD(4) [OF s] contexts_rebuilt [of "tables s"]
      by (simp add: history_inv_def snapshots_recorded_def uploads_recorded_def tombstones_recorded_def
          live_of_def [abs_def] rebuild_latest_contexts_def)
    ultimately show ?thesis
      using upload_inv_tables [OF recoverableD(5) [OF s], of ?d] recoverableD(6) [OF s]
        legacy_uploads_tables [of ?d "tables s"] by (simp add: recoverable_def rebuild_latest_contexts_def)
  qed
  then show ?thesis unfolding rebuild_contexts_def by (intro preserves_intros) auto
qed

lemma upgrade_tables_keeps: "preserves (recoverable srv U f) (upgrade_tables srv e)"
proof -
  have unchanged: "preserves (recoverable srv U f) m"
    if "\<And>s. recoverable srv U f s \<Longrightarrow> m s = (Inr (), s)" for m :: "unit recovery"
    using that by (simp add: preserves_def)
  show ?thesis
    unfolding upgrade_tables_def
    by (intro preserves_bind unchanged upgrade_fingerprints_keeps backfill_keeps rebuild_contexts_keeps)
      (simp_all add: upgrade_rows_run)
qed

section \<open>Upload directories\<close>

lemma delete_chunk_rows_inv:
  assumes inv: "upload_inv srv s"
  shows "upload_inv srv (s\<lparr>db := (db s)\<lparr>db_upload_chunks := delete_where p (db_upload_chunks (db s))\<rparr>\<rparr>)"
proof -
  let ?d = "(db s)\<lparr>db_upload_chunks := delete_where p (db_upload_chunks (db s))\<rparr>"
  have "upload_detail_ok (ext srv) ?d (fs s) u" if u: "u \<in> set (db_uploads (db s))" for u
  proof -
    from upload_invD(5) [OF inv u] obtain m c where m: "manifest_of (ext srv) u (manifests_for (db s) (up_id u)) m"
      "upload_layout_recorded u c m" "artifacts_for (db s) (up_id u) = projected_rows (up_id u) c m"
      "distinct (map chunk_key_of (chunks_for (db s) (up_id u)))"
      "\<forall>r \<in> set (chunks_for (db s) (up_id u)). chunk_in_layout c m r"
      "up_status u \<noteq> ''completed'' \<longrightarrow> (\<forall>r \<in> set (chunks_for (db s) (up_id u)).
         chunk_backed (ext srv) (chunk_file (fs s) (up_id u)) r)"
      "up_status u \<in> {''created'', ''artifact_uploaded'', ''completed''}"
      unfolding upload_detail_ok_def upload_ok_def by blast
    have chunks: "chunks_for ?d (up_id u) = filter (\<lambda>r. \<not> p r) (chunks_for (db s) (up_id u))"
      by (simp add: chunks_for_def delete_where_def conj_commute)
    have same: "manifests_for ?d (up_id u) = manifests_for (db s) (up_id u)"
      "artifacts_for ?d (up_id u) = artifacts_for (db s) (up_id u)"
      by (simp_all add: manifests_for_def artifacts_for_def)
    have "distinct (map chunk_key_of (chunks_for ?d (up_id u)))"
      unfolding chunks by (rule distinct_map_filter) (rule m(4))
    moreover have "set (chunks_for ?d (up_id u)) \<subseteq> set (chunks_for (db s) (up_id u))" unfolding chunks by auto
    ultimately show ?thesis
      using m unfolding upload_detail_ok_def upload_ok_def same by blast
  qed
  moreover have "no_orphan_detail ?d"
    using upload_invD(4) [OF inv] by (auto simp: no_orphan_detail_def upload_ids_def)
  ultimately show ?thesis using inv by (simp add: upload_inv_def)
qed

lemma delete_chunk_row_keeps:
  assumes s: "recoverable srv U f s"
  shows "recoverable srv U f (set_tables (delete_chunk_row row (tables s)) s)"
proof -
  let ?d = "delete_chunk_row row (tables s)"
  have "upload_inv srv ((dk_archive s)\<lparr>fs := f, db := ?d\<rparr>)"
    using delete_chunk_rows_inv [OF recoverableD(5) [OF s]] by (simp add: delete_chunk_row_def)
  moreover have "archive_inv srv U (dk_archive (set_tables ?d s))"
    using recoverableD(1) [OF s] blob_inv_view [of "dk_archive (set_tables ?d s)" "dk_archive s"]
      files_in_view [of "dk_archive (set_tables ?d s)" "dk_archive s"]
    by (simp add: archive_inv_def delete_chunk_row_def blob_view_def)
  moreover have "history_inv srv (dk_archive (set_tables ?d s))"
    using recoverableD(4) [OF s]
    by (simp add: history_inv_def snapshots_recorded_def uploads_recorded_def tombstones_recorded_def
        live_of_def [abs_def] delete_chunk_row_def)
  ultimately show ?thesis
    using recoverableD(6) [OF s] legacy_uploads_tables [of ?d "tables s"]
    by (simp add: recoverable_def delete_chunk_row_def)
qed

lemma recovered_status_keeps:
  assumes s: "recoverable srv U f s"
  shows "recoverable srv U f (set_tables (recovered_status uid complete (tables s)) s)"
proof -
  let ?d = "recovered_status uid complete (tables s)"
  have "upload_inv srv (((dk_archive s)\<lparr>fs := f\<rparr>)\<lparr>db := (db ((dk_archive s)\<lparr>fs := f\<rparr>))\<lparr>db_uploads :=
      update_where (\<lambda>r. up_id r = uid \<and> open_status (up_status r))
        (\<lambda>r. r\<lparr>up_status := if complete then ''artifact_uploaded'' else ''created''\<rparr>)
        (db_uploads (db ((dk_archive s)\<lparr>fs := f\<rparr>)))\<rparr>\<rparr>)"
    by (rule update_uploads_inv [OF recoverableD(5) [OF s]])
      (auto simp: same_upload_def open_status_def capture_key_def)
  then have "upload_inv srv ((dk_archive s)\<lparr>fs := f, db := ?d\<rparr>)" by (simp only: recovered_status_def) simp
  moreover have "archive_inv srv U (dk_archive (set_tables ?d s))"
    using recoverableD(1) [OF s] blob_inv_view [of "dk_archive (set_tables ?d s)" "dk_archive s"]
      files_in_view [of "dk_archive (set_tables ?d s)" "dk_archive s"]
    by (simp add: archive_inv_def recovered_status_def blob_view_def)
  moreover have "history_inv srv (dk_archive (set_tables ?d s))"
    by (rule history_inv_change [OF recoverableD(4) [OF s]])
      (auto simp: recovered_status_def history_view_def update_where_def split: if_splits)
  moreover have "legacy_uploads ?d = []"
    using recoverableD(6) [OF s]
    by (auto simp: legacy_uploads_def recovered_status_def update_where_def open_status_def split: if_splits)
  ultimately show ?thesis by (simp add: recoverable_def)
qed

lemma recover_upload_keeps: "preserves (recoverable srv U f) (recover_upload srv e x)"
  unfolding recover_upload_def remove_tree_op_def recover_active_upload_def recover_artifact_chunks_def
    recover_chunk_row_def sweep_chunk_def sweep_chunk_stray_def sweep_upload_entry_def Let_def
  by (auto intro!: preserves_intros delete_chunk_row_keeps recovered_status_keeps
      simp: recoverable_remove_tree recoverable_staged recoverable_disk chunk_files_only split: prod.splits)

section \<open>Blobs\<close>

lemma refresh_orphans_keeps:
  assumes s: "recoverable srv U f s"
  shows "recoverable srv U f (set_tables (refresh_orphans a b k (tables s)) s)"
proof -
  let ?d = "refresh_orphans a b k (tables s)"
  have "blob_columns_kept (db_blobs (tables s)) (db_blobs ?d)"
    unfolding refresh_orphans_def
    by (simp, intro blob_columns_kept_trans [OF blob_columns_kept_update blob_columns_kept_update])
      (simp_all add: same_blob_def mark_orphan_def clear_orphan_def)
  from blob_inv_columns_kept [OF recoverableD(2) [OF s], of "db_blobs ?d"] this
  have "blob_inv srv (dk_archive (set_tables ?d s))" by (simp add: refresh_orphans_def)
  moreover have "files_in U (dk_archive (set_tables ?d s))"
    using recoverableD(3) [OF s] by (simp add: files_in_def)
  moreover have "history_inv srv (dk_archive (set_tables ?d s))"
    using recoverableD(4) [OF s]
    by (simp add: history_inv_def snapshots_recorded_def uploads_recorded_def tombstones_recorded_def
        live_of_def [abs_def] refresh_orphans_def)
  ultimately show ?thesis
    using upload_inv_tables [OF recoverableD(5) [OF s], of ?d] recoverableD(6) [OF s]
      legacy_uploads_tables [of ?d "tables s"]
    by (simp add: recoverable_def archive_inv_def refresh_orphans_def)
qed

lemma unlink_unknown_keeps:
  assumes s: "recoverable srv U f s" and unknown: "digest \<notin> known_digests s"
  shows "recoverable srv U f (set_staged (unlink_blob_file digest (staged s)) s)"
proof -
  let ?t = "set_staged (unlink_blob_file digest (staged s)) s"
  have "blob_inv srv (dk_archive ?t)"
    using unlink_unreferenced_inv [OF recoverableD(2) [OF s], of digest] unknown
    by (auto simp: known_digests_def)
  moreover have "files_in U (dk_archive ?t)"
    using recoverableD(3) [OF s] by (simp add: files_in_def)
  moreover have "history_inv srv (dk_archive ?t)"
    using recoverableD(4) [OF s] by (simp add: history_inv_def)
  ultimately show ?thesis
    using recoverableD(5,6) [OF s] by (simp add: recoverable_def archive_inv_def)
qed

lemma recover_blobs_keeps: "preserves (recoverable srv U f) (recover_unreferenced_blobs srv e)"
proof -
  have sweep: "preserves (\<lambda>t. recoverable srv U f t \<and> known_digests t = K) (sweep_blob e digest)"
    if "digest \<notin> K" for digest K
    unfolding sweep_blob_def using that
    by (intro preserves_intros) (auto intro!: unlink_unknown_keeps simp: known_digests_def)
  have strays: "preserves (\<lambda>t. recoverable srv U f t \<and> known_digests t = K) (sweep_blob_stray e key)" for key K
    unfolding sweep_blob_stray_def
    by (intro preserves_intros) (auto simp: known_digests_def recoverable_disk)
  let ?m = "\<lambda>s. bind_op (each_op (sweep_blob e)
       (filter (\<lambda>digest. digest \<notin> known_digests s) (map fst (blob_files (staged s))))) (\<lambda>_.
     each_op (sweep_blob_stray e) (filter (\<lambda>(_, name). name \<notin> known_digests s) (map fst (dk_blob_strays s))))"
  have "preserves (\<lambda>t. recoverable srv U f t \<and> known_digests t = known_digests s) (?m s)" for s
    by (intro preserves_intros sweep strays) auto
  from preserves_snd [OF this] have "recoverable srv U f (snd (?m s s))" if "recoverable srv U f s" for s
    using that by blast
  then have "preserves (recoverable srv U f) (sweep_unknown_blobs e)"
    by (simp add: preserves_def read_op_def sweep_unknown_blobs_def)
  then show ?thesis
    unfolding recover_unreferenced_blobs_def Let_def
    by (intro preserves_intros) (auto intro: refresh_orphans_keeps)
qed

lemma recover_uploads_keeps: "preserves (recoverable srv U f) (recover_uploads srv e)"
proof -
  have "preserves (recoverable srv U f) (recover_directories srv e)"
    unfolding recover_directories_def remove_unknown_upload_directories_def remove_tree_op_def Let_def
    by (intro preserves_intros recover_upload_keeps recover_blobs_keeps) (simp_all add: recoverable_remove_tree)
  with upgrade_tables_keeps show ?thesis
    unfolding recover_uploads_def by (intro preserves_bind)
qed

end
