(* ===== verification/Recovery_Effects.thy ===== *)
theory Recovery_Effects
  imports Recovery_Invariant
begin

text \<open>
  What a recovery that ends well has done: the files behind every accepted chunk of an open upload
  check, no other chunk file of its artifacts is left, the status of an upload says whether it is
  complete, directories of unknown, completed and terminated uploads are gone, and every blob file
  has a row.
\<close>

section \<open>Successful runs\<close>

lemma failing_Inr [result_simps]: "failing c m s = (Inr v, t) \<longleftrightarrow> \<not> c \<and> m s = (Inr v, t)"
  by (auto simp: failing_def pure_op_def)

lemma update_tables_Inr [result_simps]:
  "update_tables c f s = (Inr u, t) \<longleftrightarrow> (\<exists>d. f (tables s) = Inr d \<and> \<not> c \<and> t = set_tables d s)"
  by (auto simp: update_tables_def read_op_eq try_op_Inr operation_eq failing_Inr modify_op_eq)

lemma each_failing_modify:
  "each_op (\<lambda>k. failing (F k) (modify_op (D k))) ks s = (Inr (), t) \<longleftrightarrow> (\<forall>k \<in> set ks. \<not> F k) \<and> t = fold D ks s"
  by (induction ks arbitrary: s) (auto simp: pure_op_eq bind_op_Inr failing_Inr modify_op_eq)

lemma each_establishes:
  assumes "each_op f xs s = (Inr (), t)" "I s" "distinct xs"
    and keep: "\<And>x. x \<in> set xs \<Longrightarrow> preserves I (f x)"
    and est: "\<And>x s t. x \<in> set xs \<Longrightarrow> I s \<Longrightarrow> f x s = (Inr (), t) \<Longrightarrow> Q x t"
    and frame: "\<And>x y. x \<in> set xs \<Longrightarrow> y \<in> set xs \<Longrightarrow> x \<noteq> y \<Longrightarrow> preserves (Q x) (f y)"
  shows "I t \<and> (\<forall>x \<in> set xs. Q x t)"
  using assms
proof (induction xs arbitrary: s)
  case (Cons x xs)
  from Cons.prems(1) [unfolded each_op_Cons] obtain v where v: "f x s = (Inr (), v)" "each_op f xs v = (Inr (), t)"
    by blast
  have "I v" using preservesD [OF Cons.prems(4) Cons.prems(2) v(1)] by simp
  have "I t \<and> (\<forall>y \<in> set xs. Q y t)"
    by (rule Cons.IH [OF v(2) \<open>I v\<close>]) (use Cons.prems in auto)
  moreover have "preserves (Q x) (each_op f xs)"
    using Cons.prems(3,6) by (intro preserves_each) auto
  with Cons.prems(2,5) v have "Q x t" using preservesD by (metis list.set_intros(1))
  ultimately show ?case by simp
qed (simp add: pure_op_def)

section \<open>Chunk rows and files\<close>

lemma hash_reader_loop_Inr:
  "hash_reader_loop n (k, h) reads = Inr r \<Longrightarrow> r = (k + length (concat reads), h @ concat reads)"
proof (induction reads arbitrary: k h)
  case (Cons a reads)
  then have "hash_reader_loop n (k + length a, h @ a) reads = Inr r"
    by (auto simp: and_then_eq_Inr ok_or_eq_Inr checked_add_eq_Some reject_if_eq_Inr)
  from Cons.IH [OF this] show ?case by simp
qed simp

lemma verify_stored_file_Inr:
  "verify_stored_file x path n d = Inr u \<Longrightarrow>
     \<exists>bs. path = Some (Regular bs) \<and> length bs = n \<and> sha256_hex x bs = digest_storage_value d"
  by (auto simp: verify_stored_file_def hash_reader_def and_then_eq_Inr dest: hash_reader_loop_Inr
      split: option.splits entry.splits if_splits)

definition piece_rows :: "string \<Rightarrow> int \<Rightarrow> disk \<Rightarrow> chunk_row list" where
  "piece_rows u i s = filter (\<lambda>r. uc_upload_id r = u \<and> uc_artifact_index r = i) (db_upload_chunks (tables s))"

lemma set_chunk_rows [simp]: "set (chunk_rows (tables s) u i) = set (piece_rows u i s)"
  by (simp add: chunk_rows_def piece_rows_def)

definition piece :: "string \<Rightarrow> int \<Rightarrow> disk \<Rightarrow> chunk_row list \<times> (nat \<Rightarrow> entry option)" where
  "piece u i s = (piece_rows u i s, chunk_file (staged s) u (nat i))"

definition row_backed :: "externals \<Rightarrow> string \<Rightarrow> chunk_row \<Rightarrow> disk \<Rightarrow> bool" where
  "row_backed x u r s = (r \<in> set (piece_rows u (uc_artifact_index r) s) \<longrightarrow> chunk_backed x (chunk_file (staged s) u) r)"

text \<open>A row as the layout of an upload has it.\<close>

definition row_plain :: "string \<Rightarrow> int \<Rightarrow> chunk_row \<Rightarrow> bool" where
  "row_plain u i r =
     (uc_upload_id r = u \<and> uc_artifact_index r = i \<and> 0 \<le> i \<and> 0 \<le> uc_chunk_index r \<and> 0 \<le> uc_byte_length r
      \<and> digest_storage_value (uc_sha256 r) = uc_sha256 r)"

lemma piece_rows_delete:
  "piece_rows u i (set_tables (delete_chunk_row r (tables s)) s) =
     filter (\<lambda>q. \<not> (uc_upload_id q = uc_upload_id r \<and> uc_artifact_index q = uc_artifact_index r
       \<and> uc_chunk_index q = uc_chunk_index r)) (piece_rows u i s)"
  by (simp add: piece_rows_def delete_chunk_row_def delete_where_def conj_commute)

lemma piece_rows_staged [simp]: "piece_rows u i (set_staged g s) = piece_rows u i s"
  by (simp add: piece_rows_def)

lemma recover_chunk_row_eq:
  assumes "row_plain u i r"
  shows "recover_chunk_row srv e u (nat i) r s =
    (let c = nat (uc_chunk_index r);
         path = (if rv_fails e (Read_Chunk (u, nat i, c)) then None else chunk_file (staged s) u (nat i) c);
         deleted = set_tables (delete_chunk_row r (tables s)) s in
     if is_ok (verify_stored_file (ext srv) path (nat (uc_byte_length r)) (uc_sha256 r)) then (Inr (), s)
     else if rv_fails e (Delete_Chunk_Row (u, nat i, c)) then (Inl Maintenance_Operation, s)
     else (Inr (), if rv_fails e (Unlink_Chunk (u, nat i, c)) then deleted
                   else set_staged (unlink_chunk_file u (nat i) c (staged s)) deleted))"
  using assms
  by (simp add: recover_chunk_row_def row_plain_def u64_try_from_def read_op_def pure_op_def modify_op_def
      bind_op_def update_tables_def try_op_def failing_def operation_def Let_def)

lemma recover_chunk_row_backs:
  assumes "row_plain u i r" "recover_chunk_row srv e u (nat i) r s = (Inr (), t)"
  shows "row_backed (ext srv) u r t"
proof -
  let ?path = "if rv_fails e (Read_Chunk (u, nat i, nat (uc_chunk_index r))) then None
    else chunk_file (staged s) u (nat i) (nat (uc_chunk_index r))"
  show ?thesis
  proof (cases "is_ok (verify_stored_file (ext srv) ?path (nat (uc_byte_length r)) (uc_sha256 r))")
    case True
    then obtain bs where "chunk_file (staged s) u (nat i) (nat (uc_chunk_index r)) = Some (Regular bs)"
      "length bs = nat (uc_byte_length r)" "sha256_hex (ext srv) bs = digest_storage_value (uc_sha256 r)"
      by (auto simp: is_ok_def dest!: verify_stored_file_Inr split: sum.splits if_splits)
    moreover have "t = s" using assms True by (simp add: recover_chunk_row_eq Let_def)
    ultimately show ?thesis using assms(1) by (auto simp: row_backed_def chunk_backed_def row_plain_def)
  next
    case False
    with assms have "piece_rows u i t = piece_rows u i (set_tables (delete_chunk_row r (tables s)) s)"
      by (auto simp: recover_chunk_row_eq Let_def split: if_splits)
    with assms(1) show ?thesis by (auto simp: row_backed_def row_plain_def piece_rows_delete)
  qed
qed

lemma recover_chunk_row_frame:
  assumes "row_plain u i r" "row_plain u i q" "uc_chunk_index r \<noteq> uc_chunk_index q"
  shows "preserves (row_backed x u r) (recover_chunk_row srv e u (nat i) q)"
proof -
  have "nat (uc_chunk_index r) \<noteq> nat (uc_chunk_index q)" using assms by (auto simp: row_plain_def)
  with assms show ?thesis
    by (auto simp: preserves_def recover_chunk_row_eq row_plain_def row_backed_def chunk_backed_def
        piece_rows_delete Let_def)
qed

lemma recover_chunk_row_shrinks:
  "preserves (\<lambda>s. set (piece_rows u i s) \<subseteq> R) (recover_chunk_row srv e w j q)"
  unfolding recover_chunk_row_def Let_def
  by (intro preserves_intros) (auto simp: piece_rows_delete)

lemma recover_chunk_rows_backed:
  assumes "each_op (recover_chunk_row srv e u (nat i)) (chunk_rows (tables s) u i) s = (Inr (), t)"
    and "\<And>r. r \<in> set (piece_rows u i s) \<Longrightarrow> row_plain u i r"
    and "distinct (map chunk_key_of (piece_rows u i s))"
  shows "set (piece_rows u i t) \<subseteq> set (piece_rows u i s) \<and> (\<forall>r \<in> set (piece_rows u i t). chunk_backed (ext srv) (chunk_file (staged t) u) r)"
proof -
  let ?rows = "chunk_rows (tables s) u i"
  have inj: "inj_on chunk_key_of (set (piece_rows u i s))" using assms(3) by (simp add: distinct_map)
  have keys: "uc_chunk_index r \<noteq> uc_chunk_index q" if "r \<in> set ?rows" "q \<in> set ?rows" "r \<noteq> q" for r q
    using that inj_onD [OF inj, of r q] assms(2) [of r] assms(2) [of q]
    by (auto simp: chunk_key_of_def row_plain_def)
  have "set (piece_rows u i t) \<subseteq> set (piece_rows u i s) \<and> (\<forall>r \<in> set ?rows. row_backed (ext srv) u r t)"
  proof (rule each_establishes [OF assms(1)])
    show "distinct ?rows" using assms(3) by (simp add: chunk_rows_def piece_rows_def distinct_map)
    show "preserves (row_backed (ext srv) u r) (recover_chunk_row srv e u (nat i) q)"
      if "r \<in> set ?rows" "q \<in> set ?rows" "r \<noteq> q" for r q
      using that by (intro recover_chunk_row_frame [OF _ _ keys]) (simp_all add: assms(2))
    show "row_backed (ext srv) u r v" if "r \<in> set ?rows" "recover_chunk_row srv e u (nat i) r w = (Inr (), v)" for r w v
      using that by (intro recover_chunk_row_backs [where i = i]) (simp_all add: assms(2))
  qed (simp_all add: recover_chunk_row_shrinks)
  then show ?thesis
    using assms(2) by (fastforce simp: row_backed_def piece_rows_def)
qed

section \<open>The chunks of an open upload\<close>

lemma hex_storage_value: "digest_storage_value (hex_digest bs) = hex_digest bs"
proof -
  have "strip_prefix ''sha256:'' (hex_digest bs) = None"
  proof (cases "hex_digest bs")
    case (Cons c cs)
    then have "is_lower_hex c" using hex_digest_lower [of bs] by simp
    moreover have "\<not> is_lower_hex (CHR ''s'')" by code_simp
    ultimately have "c \<noteq> CHR ''s''" by blast
    with Cons show ?thesis by (simp add: strip_prefix_def)
  qed (simp add: strip_prefix_def)
  then show ?thesis by (simp add: digest_storage_value_def)
qed

definition open_upload_row :: "string \<Rightarrow> disk \<Rightarrow> bool" where
  "open_upload_row u s = (\<exists>r \<in> set (db_uploads (tables s)). up_id r = u \<and> up_status r \<noteq> ''completed'')"

lemma open_rows_plain:
  assumes s: "recoverable srv U f s" and "open_upload_row u s" and r: "r \<in> set (piece_rows u i s)"
  shows "row_plain u i r" "i \<in> ua_artifact_index ` set (artifacts_for (tables s) u)"
proof -
  obtain up where up: "up \<in> set (db_uploads (tables s))" "up_id up = u" "up_status up \<noteq> ''completed''"
    using assms(2) by (auto simp: open_upload_row_def)
  have r': "r \<in> set (chunks_for (tables s) u)" "uc_upload_id r = u" "uc_artifact_index r = i"
    using r by (auto simp: piece_rows_def chunks_for_def)
  have "upload_detail_ok (ext srv) (tables s) f up"
    using upload_invD(5) [OF recoverableD(5) [OF s]] up(1) by simp
  then obtain m c where rows: "artifacts_for (tables s) u = projected_rows u c m"
    and layout: "chunk_in_layout c m r" and backed: "chunk_backed (ext srv) (chunk_file f u) r"
    using r'(1) up(2,3) unfolding upload_detail_ok_def upload_ok_def by blast
  from layout obtain n k where n: "n < length (artifacts m)" "uc_artifact_index r = int n" "uc_chunk_index r = int k"
    "0 \<le> uc_byte_length r"
    by (auto simp: chunk_in_layout_def)
  from backed have "digest_storage_value (uc_sha256 r) = uc_sha256 r"
    by (auto simp: chunk_backed_def sha256_hex_def dest!: sym [of "hex_digest _"] simp: hex_storage_value)
  with n r' show "row_plain u i r" by (simp add: row_plain_def)
  have "ua_artifact_index (projected_row u c (n, artifacts m ! n)) = i"
    using n r'(3) by (simp add: projected_row_def)
  moreover have "projected_row u c (n, artifacts m ! n) \<in> set (artifacts_for (tables s) u)"
    using n(1) unfolding rows by (auto simp: projected_rows_def in_set_enumerate_eq)
  ultimately show "i \<in> ua_artifact_index ` set (artifacts_for (tables s) u)" by blast
qed

lemma open_rows_distinct:
  assumes s: "recoverable srv U f s" and "open_upload_row u s"
  shows "distinct (map chunk_key_of (piece_rows u i s))"
    "distinct (map ua_artifact_index (artifacts_for (tables s) u))"
    "\<And>a. a \<in> set (artifacts_for (tables s) u) \<Longrightarrow> 0 \<le> ua_artifact_index a"
proof -
  obtain up where up: "up \<in> set (db_uploads (tables s))" "up_id up = u"
    using assms(2) by (auto simp: open_upload_row_def)
  have "upload_detail_ok (ext srv) (tables s) f up"
    using upload_invD(5) [OF recoverableD(5) [OF s]] up(1) by simp
  then obtain m c where rows: "artifacts_for (tables s) u = projected_rows u c m"
    and keys: "distinct (map chunk_key_of (chunks_for (tables s) u))"
    using up unfolding upload_detail_ok_def upload_ok_def by blast
  have "piece_rows u i s = filter (\<lambda>r. uc_artifact_index r = i) (chunks_for (tables s) u)"
    by (simp add: piece_rows_def chunks_for_def conj_commute)
  with keys show "distinct (map chunk_key_of (piece_rows u i s))" by (simp add: distinct_map_filter)
  have "map ua_artifact_index (artifacts_for (tables s) u) = map int [0..<length (artifacts m)]"
    unfolding rows projected_rows_def
    by (rule nth_equalityI) (simp_all add: projected_row_def nth_enumerate_eq split_beta)
  then show "distinct (map ua_artifact_index (artifacts_for (tables s) u))"
    by (simp add: distinct_map inj_on_def)
  show "0 \<le> ua_artifact_index a" if "a \<in> set (artifacts_for (tables s) u)" for a
    using that unfolding rows by (auto simp: projected_rows_def projected_row_def)
qed

text \<open>The chunks of one artifact are in order: every row has its file, every file its row.\<close>

definition piece_ok :: "externals \<Rightarrow> string \<Rightarrow> int \<Rightarrow> disk \<Rightarrow> bool" where
  "piece_ok x u i s =
     ((\<forall>r \<in> set (piece_rows u i s). chunk_backed x (chunk_file (staged s) u) r)
      \<and> (\<forall>c. chunk_file (staged s) u (nat i) c \<noteq> None \<longrightarrow> int c \<in> uc_chunk_index ` set (piece_rows u i s)))"

lemma piece_ok_piece: "piece u i s = piece u i t \<Longrightarrow> piece_ok x u i s = piece_ok x u i t"
proof -
  assume eq: "piece u i s = piece u i t"
  have "chunk_backed x (chunk_file (staged s) u) r = chunk_backed x (chunk_file (staged t) u) r"
    if "r \<in> set (piece_rows u i t)" for r
    using eq that by (auto simp: piece_def chunk_backed_def piece_rows_def)
  with eq show ?thesis by (simp add: piece_ok_def piece_def)
qed

lemma fold_unlink_chunks:
  "chunk_file (staged (fold (\<lambda>key s. case key of (u, a, c) \<Rightarrow> set_staged (unlink_chunk_file u a c (staged s)) s) keys s)) v b d
    = (if (v, b, d) \<in> set keys then None else chunk_file (staged s) v b d)"
proof (induction keys arbitrary: s)
  case (Cons key keys)
  then show ?case by (cases key) (auto split: if_splits)
qed simp

lemma fold_unlink_tables:
  "tables (fold (\<lambda>key s. case key of (u, a, c) \<Rightarrow> set_staged (unlink_chunk_file u a c (staged s)) s) keys s) = tables s"
  by (induction keys arbitrary: s) auto

lemma fold_strays_fields:
  "tables (fold (\<lambda>key s. s\<lparr>dk_chunk_strays := AList.delete key (dk_chunk_strays s)\<rparr>) keys s) = tables s"
  "staged (fold (\<lambda>key s. s\<lparr>dk_chunk_strays := AList.delete key (dk_chunk_strays s)\<rparr>) keys s) = staged s"
  by (induction keys arbitrary: s) auto

lemma those_eq_Some: "those xs = Some ys \<Longrightarrow> map Some ys = xs"
  by (induction xs arbitrary: ys) (auto split: option.splits)

lemma recover_artifact_chunks_ok:
  assumes s: "recoverable srv U f s" "open_upload_row u s"
    and run: "recover_artifact_chunks srv e u a s = (Inr (), t)"
  shows "piece_ok (ext srv) u (ua_artifact_index a) t"
proof -
  let ?i = "ua_artifact_index a"
  from run obtain n v accepted w where n: "u32_try_from ?i = Some n"
    and rows: "each_op (recover_chunk_row srv e u n) (chunk_rows (tables s) u ?i) s = (Inr (), v)"
    and acc: "those (map (\<lambda>r. u64_try_from (uc_chunk_index r)) (chunk_rows (tables v) u ?i)) = Some accepted"
    and sweep: "each_op (sweep_chunk e) (unaccepted_chunks u n (set accepted) v) v = (Inr (), w)"
    and strays: "each_op (sweep_chunk_stray e) (unaccepted_strays u n (set accepted) v) w = (Inr (), t)"
    by (auto simp: recover_artifact_chunks_def try_op_Inr ok_or_eq_Inr bind_op_Inr read_op_eq)
  have n: "n = nat ?i" using n by (simp add: u32_try_from_def split: if_splits)
  have v: "set (piece_rows u ?i v) \<subseteq> set (piece_rows u ?i s)"
    "\<forall>r \<in> set (piece_rows u ?i v). chunk_backed (ext srv) (chunk_file (staged v) u) r"
    using recover_chunk_rows_backed [OF rows [unfolded n] open_rows_plain(1) [OF s] open_rows_distinct(1) [OF s]]
    by simp_all
  have w: "w = fold (\<lambda>key s. case key of (u, a, c) \<Rightarrow> set_staged (unlink_chunk_file u a c (staged s)) s)
      (unaccepted_chunks u n (set accepted) v) v"
    using sweep unfolding sweep_chunk_def each_failing_modify by blast
  have t: "t = fold (\<lambda>key s. s\<lparr>dk_chunk_strays := AList.delete key (dk_chunk_strays s)\<rparr>)
      (unaccepted_strays u n (set accepted) v) w"
    using strays unfolding sweep_chunk_stray_def each_failing_modify by blast
  have tables: "piece_rows u ?i t = piece_rows u ?i v"
    by (simp add: piece_rows_def t w fold_unlink_tables fold_strays_fields)
  have kept: "chunk_file (staged t) u n c = (if c \<in> set accepted then chunk_file (staged v) u n c else None)" for c
  proof -
    have "chunk_file (staged t) u n c
        = (if (u, n, c) \<in> set (unaccepted_chunks u n (set accepted) v) then None else chunk_file (staged v) u n c)"
      by (simp add: t w fold_unlink_chunks fold_strays_fields)
    moreover have "(u, n, c) \<in> fst ` set (chunk_files (staged v)) \<longleftrightarrow> chunk_file (staged v) u n c \<noteq> None"
      by (auto simp: chunk_file_def map_of_eq_None_iff)
    ultimately show ?thesis by (auto simp: unaccepted_chunks_def)
  qed
  have accepted: "c \<in> set accepted \<longleftrightarrow> int c \<in> uc_chunk_index ` set (piece_rows u ?i v)" for c
  proof -
    have "Some ` set accepted = (\<lambda>r. u64_try_from (uc_chunk_index r)) ` set (piece_rows u ?i v)"
      using arg_cong [OF those_eq_Some [OF acc], of set] by simp
    then have "c \<in> set accepted \<longleftrightarrow> Some c \<in> (\<lambda>r. u64_try_from (uc_chunk_index r)) ` set (piece_rows u ?i v)" by auto
    also have "\<dots> \<longleftrightarrow> (\<exists>r \<in> set (piece_rows u ?i v). u64_try_from (uc_chunk_index r) = Some c)" by force
    also have "\<dots> \<longleftrightarrow> (\<exists>r \<in> set (piece_rows u ?i v). uc_chunk_index r = int c)"
    proof (rule bex_cong [OF refl])
      fix r assume "r \<in> set (piece_rows u ?i v)"
      with open_rows_plain(1) [OF s, of r ?i] v(1) have "0 \<le> uc_chunk_index r" by (auto simp: row_plain_def)
      then show "u64_try_from (uc_chunk_index r) = Some c \<longleftrightarrow> uc_chunk_index r = int c"
        by (auto simp: u64_try_from_def)
    qed
    also have "\<dots> \<longleftrightarrow> int c \<in> uc_chunk_index ` set (piece_rows u ?i v)" by force
    finally show ?thesis .
  qed
  have "chunk_backed (ext srv) (chunk_file (staged t) u) r" if r: "r \<in> set (piece_rows u ?i t)" for r
  proof -
    have plain: "row_plain u ?i r"
      by (rule open_rows_plain(1) [OF s]) (use v(1) r tables in auto)
    have "nat (uc_chunk_index r) \<in> set accepted"
      using r plain unfolding accepted tables row_plain_def by auto
    then have "chunk_file (staged t) u n (nat (uc_chunk_index r)) = chunk_file (staged v) u n (nat (uc_chunk_index r))"
      by (simp add: kept)
    moreover have "chunk_backed (ext srv) (chunk_file (staged v) u) r" using v(2) r tables by simp
    ultimately show ?thesis using plain n by (simp add: chunk_backed_def row_plain_def)
  qed
  moreover have "int c \<in> uc_chunk_index ` set (piece_rows u ?i t)" if "chunk_file (staged t) u (nat ?i) c \<noteq> None" for c
    using that kept [of c] accepted n tables by (auto split: if_splits)
  ultimately show ?thesis by (simp add: piece_ok_def)
qed

section \<open>An open upload\<close>

text \<open>What the recovery of other uploads, and other artifacts, leaves alone.\<close>

lemma piece_rows_delete_other:
  "uc_upload_id q \<noteq> u \<or> uc_artifact_index q \<noteq> i \<Longrightarrow>
     piece_rows u i (set_tables (delete_chunk_row q (tables s)) s) = piece_rows u i s"
  unfolding piece_rows_delete by (rule filter_True) (auto simp: piece_rows_def)

lemma chunk_row_frame:
  assumes "w \<noteq> u \<or> (uc_artifact_index q \<noteq> i \<and> n \<noteq> nat i)" "uc_upload_id q = w"
  shows "preserves (\<lambda>s. piece u i s = v) (recover_chunk_row srv e w n q)"
  unfolding recover_chunk_row_def Let_def
  using assms by (intro preserves_intros) (auto simp: piece_def fun_eq_iff piece_rows_delete_other)

lemma piece_strays [simp]: "piece u i (s\<lparr>dk_chunk_strays := c\<rparr>) = piece u i s"
  "piece u i (s\<lparr>dk_upload_entries := b\<rparr>) = piece u i s" "piece u i (s\<lparr>dk_blob_strays := b'\<rparr>) = piece u i s"
  by (simp_all add: piece_def piece_rows_def)

lemma artifact_chunks_frame:
  assumes "w \<noteq> u \<or> (ua_artifact_index a \<noteq> i \<and> 0 \<le> i)"
  shows "preserves (\<lambda>s. piece u i s = v) (recover_artifact_chunks srv e w a)"
proof -
  have sweep: "preserves (\<lambda>s. piece u i s = v) (sweep_chunk e key)"
    if "key = (w, n, c)" "w \<noteq> u \<or> n \<noteq> nat i" for key n c
    unfolding sweep_chunk_def using that
    by (intro preserves_intros) (auto simp: piece_def fun_eq_iff)
  have strays: "preserves (\<lambda>s. piece u i s = v) (sweep_chunk_stray e key)" for key
    unfolding sweep_chunk_stray_def by (intro preserves_intros) simp
  have "w \<noteq> u \<or> n \<noteq> nat i" if "u32_try_from (ua_artifact_index a) = Some n" for n
    using assms that by (auto simp: u32_try_from_def split: if_splits)
  then show ?thesis
    unfolding recover_artifact_chunks_def using assms
    by (intro preserves_intros chunk_row_frame strays)
      (auto simp: ok_or_eq_Inr unaccepted_chunks_def piece_rows_def intro!: sweep)
qed

definition outlook :: "string \<Rightarrow> disk \<Rightarrow> upload_row list \<times> upload_artifact_row list \<times> chunk_row list
    \<times> (nat \<Rightarrow> nat \<Rightarrow> entry option)" where
  "outlook u s = (filter (\<lambda>r. up_id r = u) (db_uploads (tables s)), artifacts_for (tables s) u,
     chunks_for (tables s) u, chunk_file (staged s) u)"

lemma outlook_fields [simp]: "outlook u (s\<lparr>dk_chunk_strays := c\<rparr>) = outlook u s"
  "outlook u (s\<lparr>dk_upload_entries := b\<rparr>) = outlook u s" "outlook u (s\<lparr>dk_blob_strays := b'\<rparr>) = outlook u s"
  by (simp_all add: outlook_def)

lemma filter_update_where: "(\<And>r. p r \<Longrightarrow> \<not> q r \<and> \<not> q (f r)) \<Longrightarrow> filter q (update_where p f t) = filter q t"
  by (induction t) (auto simp: update_where_def)

lemma filter_delete_where: "(\<And>r. p r \<Longrightarrow> \<not> q r) \<Longrightarrow> filter q (delete_where p t) = filter q t"
  by (induction t) (auto simp: delete_where_def)

lemma outlook_steps:
  assumes "w \<noteq> u"
  shows "outlook u (remove_tree w s) = outlook u s"
    and "uc_upload_id q = w \<Longrightarrow> outlook u (set_tables (delete_chunk_row q (tables s)) s) = outlook u s"
    and "outlook u (set_tables (recovered_status w complete (tables s)) s) = outlook u s"
    and "outlook u (set_staged (unlink_chunk_file w a c (staged s)) s) = outlook u s"
  using assms
  by (simp_all add: outlook_def remove_tree_def fun_eq_iff artifacts_for_def chunks_for_def delete_chunk_row_def
      recovered_status_def) (subst filter_delete_where filter_update_where; auto)+

lemma recover_upload_frame:
  assumes "w \<noteq> u"
  shows "preserves (\<lambda>s. outlook u s = v) (recover_upload srv e (w, st))"
proof -
  have chunk: "preserves (\<lambda>s. outlook u s = v) (recover_chunk_row srv e w n q)"
    if "uc_upload_id q = w" for n q
    unfolding recover_chunk_row_def Let_def
    using assms that by (intro preserves_intros) (auto simp: outlook_steps)
  have sweep: "preserves (\<lambda>s. outlook u s = v) (sweep_chunk e (w, n, c))" for n c
    unfolding sweep_chunk_def using assms by (intro preserves_intros) (auto simp: outlook_steps)
  have artifact: "preserves (\<lambda>s. outlook u s = v) (recover_artifact_chunks srv e w a)" for a
    unfolding recover_artifact_chunks_def sweep_chunk_stray_def using assms
    by (intro preserves_intros chunk) (auto simp: unaccepted_chunks_def piece_rows_def intro!: sweep)
  show ?thesis
    unfolding recover_upload_def remove_tree_op_def recover_active_upload_def sweep_upload_entry_def Let_def
    using assms by (auto intro!: preserves_intros artifact simp: outlook_steps split: prod.splits)
qed

text \<open>After an open upload was recovered.\<close>

definition upload_recovered :: "externals \<Rightarrow> string \<Rightarrow> disk \<Rightarrow> bool" where
  "upload_recovered x u s =
     ((\<forall>a \<in> set (artifacts_for (tables s) u). piece_ok x u (ua_artifact_index a) s)
      \<and> (\<forall>r \<in> set (db_uploads (tables s)). up_id r = u \<longrightarrow>
            upload_is_complete u (tables s) = Inr (up_status r = ''artifact_uploaded'')))"

lemma outlook_piece: "outlook u s = outlook u t \<Longrightarrow> piece u i s = piece u i t"
proof -
  assume "outlook u s = outlook u t"
  moreover have "piece_rows u i w = filter (\<lambda>r. uc_artifact_index r = i) (chunks_for (tables w) u)" for w
    by (simp add: piece_rows_def chunks_for_def conj_commute)
  ultimately show ?thesis by (simp add: outlook_def piece_def)
qed

lemma outlook_complete: "outlook u s = outlook u t \<Longrightarrow> upload_is_complete u (tables s) = upload_is_complete u (tables t)"
proof -
  assume eq: "outlook u s = outlook u t"
  have rows: "chunk_rows (tables w) u i = sort_key uc_chunk_index (fst (piece u i w))" for i w
    by (simp add: chunk_rows_def piece_def piece_rows_def)
  have arts: "get_upload_artifacts (tables w) u = sort_key ua_artifact_index (artifacts_for (tables w) u)" for w
    by (simp add: get_upload_artifacts_def artifacts_for_def)
  have "artifacts_for (tables s) u = artifacts_for (tables t) u" using eq by (simp add: outlook_def)
  then show ?thesis
    unfolding upload_is_complete_def arts rows outlook_piece [OF eq] by simp
qed

lemma upload_recovered_outlook:
  assumes eq: "outlook u s = outlook u t"
  shows "upload_recovered x u s = upload_recovered x u t"
proof -
  have "{r \<in> set (db_uploads (tables s)). up_id r = u} = {r \<in> set (db_uploads (tables t)). up_id r = u}"
    using eq unfolding outlook_def set_filter [symmetric] by simp
  then have "(\<forall>r \<in> set (db_uploads (tables s)). up_id r = u \<longrightarrow> P r) = (\<forall>r \<in> set (db_uploads (tables t)). up_id r = u \<longrightarrow> P r)" for P
    by blast
  with eq piece_ok_piece [OF outlook_piece [OF eq]] outlook_complete [OF eq]
  show ?thesis by (simp add: upload_recovered_def outlook_def)
qed

lemma upload_recovered_frame:
  "(\<And>v. preserves (\<lambda>s. outlook u s = v) m) \<Longrightarrow> preserves (upload_recovered x u) m"
  unfolding preserves_def using upload_recovered_outlook by metis

lemma artifact_chunks_tables:
  "preserves (\<lambda>s. (db_uploads (tables s), db_upload_artifacts (tables s)) = v) (recover_artifact_chunks srv e u a)"
  unfolding recover_artifact_chunks_def recover_chunk_row_def sweep_chunk_def sweep_chunk_stray_def Let_def
  by (intro preserves_intros) (auto simp: delete_chunk_row_def)

lemma artifact_chunks_recoverable: "preserves (recoverable srv U f) (recover_artifact_chunks srv e u a)"
  unfolding recover_artifact_chunks_def recover_chunk_row_def sweep_chunk_def sweep_chunk_stray_def Let_def
  by (auto intro!: preserves_intros delete_chunk_row_keeps
      simp: recoverable_staged recoverable_disk chunk_files_only split: prod.splits)

lemma fold_entries_fields:
  "tables (fold (\<lambda>key s. s\<lparr>dk_upload_entries := AList.delete key (dk_upload_entries s)\<rparr>) keys s) = tables s"
  "staged (fold (\<lambda>key s. s\<lparr>dk_upload_entries := AList.delete key (dk_upload_entries s)\<rparr>) keys s) = staged s"
  by (induction keys arbitrary: s) auto

lemma recoverable_uploads:
  assumes "recoverable srv U f s"
  shows "distinct (map up_id (db_uploads (tables s)))"
    "r \<in> set (db_uploads (tables s)) \<Longrightarrow> up_status r \<noteq> ''completed'' \<Longrightarrow> open_status (up_status r)"
  using upload_invD(1,5) [OF recoverableD(5) [OF assms]]
  by (auto simp: upload_detail_ok_def upload_ok_def open_status_def)

lemma recover_active_upload_ok:
  assumes s: "recoverable srv U f s" "open_upload_row u s"
    and run: "recover_active_upload srv e u s = (Inr (), t)"
  shows "upload_recovered (ext srv) u t"
proof -
  let ?rows = "get_upload_artifacts (tables s) u"
  from run obtain v complete w where
    each: "each_op (recover_artifact_chunks srv e u) ?rows s = (Inr (), v)"
    and complete: "upload_is_complete u (tables v) = Inr complete"
    and w: "w = set_tables (recovered_status u complete (tables v)) v"
    and entries: "each_op (sweep_upload_entry e)
         (filter (\<lambda>(n, name). n = u \<and> temporary_entry name) (map fst (dk_upload_entries w))) w = (Inr (), t)"
    by (auto simp: recover_active_upload_def Let_def try_op_Inr bind_op_Inr read_op_eq operation_eq update_tables_Inr)
  have t: "tables t = tables w" "staged t = staged w"
    using entries unfolding sweep_upload_entry_def each_failing_modify by (auto simp: fold_entries_fields)
  let ?I = "\<lambda>v. recoverable srv U f v
    \<and> (db_uploads (tables v), db_upload_artifacts (tables v)) = (db_uploads (tables s), db_upload_artifacts (tables s))"
  have arts: "set ?rows = set (artifacts_for (tables s) u)" by (simp add: get_upload_artifacts_def artifacts_for_def)
  have "distinct (map ua_artifact_index ?rows)"
    using open_rows_distinct(2) [OF s]
    by (simp add: get_upload_artifacts_def artifacts_for_def distinct_map)
  then have inj: "inj_on ua_artifact_index (set ?rows)" "distinct ?rows" by (simp_all add: distinct_map)
  have I: "open_upload_row u v" "artifacts_for (tables v) u = artifacts_for (tables s) u" if "?I v" for v
    using that s(2) by (simp_all add: open_upload_row_def artifacts_for_def)
  have "?I v \<and> (\<forall>a \<in> set ?rows. piece_ok (ext srv) u (ua_artifact_index a) v)"
  proof (rule each_establishes [OF each])
    show "preserves ?I (recover_artifact_chunks srv e u a)" for a
      using artifact_chunks_recoverable artifact_chunks_tables by (simp only: preserves_def) blast
    show "piece_ok (ext srv) u (ua_artifact_index a) v'"
      if "?I v" "recover_artifact_chunks srv e u a v = (Inr (), v')" for a v v'
      using that by (intro recover_artifact_chunks_ok [OF _ I(1)]) auto
    show "preserves (piece_ok (ext srv) u (ua_artifact_index a)) (recover_artifact_chunks srv e u b)"
      if "a \<in> set ?rows" "b \<in> set ?rows" "a \<noteq> b" for a b
    proof -
      have "ua_artifact_index b \<noteq> ua_artifact_index a" using inj_onD [OF inj(1)] that by blast
      moreover have "0 \<le> ua_artifact_index a" using open_rows_distinct(3) [OF s] that(1) arts by blast
      ultimately have "preserves (\<lambda>s. piece u (ua_artifact_index a) s = v) (recover_artifact_chunks srv e u b)" for v
        by (intro artifact_chunks_frame) simp
      then show ?thesis unfolding preserves_def using piece_ok_piece by metis
    qed
  qed (use s(1) inj(2) in simp_all)
  then have v: "?I v" and pieces: "\<And>a. a \<in> set (artifacts_for (tables s) u) \<Longrightarrow> piece_ok (ext srv) u (ua_artifact_index a) v"
    by (simp_all add: arts)
  have same: "piece u i t = piece u i v" for i
    by (simp add: piece_def piece_rows_def t w recovered_status_def)
  have arts_t: "artifacts_for (tables t) u = artifacts_for (tables s) u"
    using I(2) [OF v] by (simp add: t w recovered_status_def artifacts_for_def)
  have rows: "chunk_rows (tables t) u i = chunk_rows (tables v) u i" for i
    by (simp add: chunk_rows_def t w recovered_status_def)
  have "get_upload_artifacts (tables t) u = get_upload_artifacts (tables v) u"
    by (simp add: get_upload_artifacts_def t w recovered_status_def)
  then have "upload_is_complete u (tables t) = Inr complete"
    using complete unfolding upload_is_complete_def rows by simp
  moreover have "complete = (up_status r = ''artifact_uploaded'')" if r: "r \<in> set (db_uploads (tables t))" "up_id r = u" for r
  proof -
    obtain q where q: "q \<in> set (db_uploads (tables v))"
      "r = (if up_id q = u \<and> open_status (up_status q)
            then q\<lparr>up_status := if complete then ''artifact_uploaded'' else ''created''\<rparr> else q)"
      using r(1) by (auto simp: t w recovered_status_def update_where_def)
    obtain q' where q': "q' \<in> set (db_uploads (tables v))" "up_id q' = u" "up_status q' \<noteq> ''completed''"
      using I(1) [OF v] by (auto simp: open_upload_row_def)
    have "up_id q = u" using q(2) r(2) by (auto split: if_splits)
    then have "q = q'"
      using distinct_key_eq [OF recoverable_uploads(1) [of srv U f v] q(1) q'(1)] v q'(2) by simp
    with q' recoverable_uploads(2) v have "open_status (up_status q)" by blast
    with q(2) \<open>up_id q = u\<close> show ?thesis by simp
  qed
  ultimately show ?thesis
    using pieces piece_ok_piece [OF same] by (simp add: upload_recovered_def arts_t)
qed

end
