(* ===== verification/Recovery_Outcome.thy ===== *)
theory Recovery_Outcome
  imports Recovery_Effects
begin

text \<open>
  The state a successful recovery ends in: the invariant of the uploads with the files that are
  on the disk now, the directories and chunk files that are left, the blob files and the orphan
  marks.
\<close>

lemma preserves_conj: "preserves I m \<Longrightarrow> preserves J m \<Longrightarrow> preserves (\<lambda>s. I s \<and> J s) m"
  by (simp add: preserves_def)

lemma preserves_lift: "(\<And>v. preserves (\<lambda>s. h s = v) m) \<Longrightarrow> preserves (\<lambda>s. P (h s)) m"
  unfolding preserves_def by metis

section \<open>Directories\<close>

lemma tables_remove_tree [simp]: "tables (remove_tree n s) = tables s"
  by (simp add: remove_tree_def)

lemma dirs_remove_tree [simp]: "dk_upload_dirs (remove_tree n s) = filter (\<lambda>k. k \<noteq> n) (dk_upload_dirs s)"
  by (simp add: remove_tree_def)

lemma fold_remove_tree:
  "tables (fold remove_tree ns s) = tables s"
  "dk_upload_dirs (fold remove_tree ns s) = filter (\<lambda>n. n \<notin> set ns) (dk_upload_dirs s)"
  "u \<notin> set ns \<Longrightarrow> outlook u (fold remove_tree ns s) = outlook u s"
  by (induction ns arbitrary: s) (auto simp: outlook_steps intro!: filter_cong)

lemma recoverable_remove_trees: "recoverable srv U f (fold remove_tree ns s) = recoverable srv U f s"
  by (induction ns arbitrary: s) (simp_all add: recoverable_remove_tree)

lemma each_remove_tree:
  "each_op (remove_tree_op e) ns s = (Inr (), t) \<longleftrightarrow> (\<forall>n \<in> set ns. \<not> rv_fails e (Remove_Tree n)) \<and> t = fold remove_tree ns s"
  unfolding remove_tree_op_def by (rule each_failing_modify)

text \<open>Every chunk file is in a directory of the listing.\<close>

definition disk_wf :: "disk \<Rightarrow> bool" where
  "disk_wf s = (\<forall>n a c. chunk_file (staged s) n a c \<noteq> None \<longrightarrow> n \<in> set (dk_upload_dirs s))"

lemma disk_wf_steps:
  "disk_wf s \<Longrightarrow> disk_wf (remove_tree n s)" "disk_wf s \<Longrightarrow> disk_wf (set_tables d s)"
  "disk_wf s \<Longrightarrow> disk_wf (set_staged (unlink_chunk_file u a c (staged s)) s)"
  "disk_wf s \<Longrightarrow> disk_wf (set_staged (unlink_blob_file digest (staged s)) s)"
  "disk_wf s \<Longrightarrow> disk_wf (s\<lparr>dk_upload_entries := es\<rparr>)" "disk_wf s \<Longrightarrow> disk_wf (s\<lparr>dk_chunk_strays := cs\<rparr>)"
  "disk_wf s \<Longrightarrow> disk_wf (s\<lparr>dk_blob_strays := bs\<rparr>)"
  by (auto simp: disk_wf_def remove_tree_def)

lemma recover_directories_disk_wf: "preserves disk_wf (recover_directories srv e)"
  unfolding recover_directories_def remove_unknown_upload_directories_def remove_tree_op_def recover_upload_def
    recover_active_upload_def recover_artifact_chunks_def recover_chunk_row_def sweep_chunk_def
    sweep_chunk_stray_def sweep_upload_entry_def recover_unreferenced_blobs_def sweep_unknown_blobs_def
    sweep_blob_def sweep_blob_stray_def Let_def
  by (auto intro!: preserves_intros disk_wf_steps split: prod.splits)

section \<open>What the upgrades leave alone\<close>

definition upload_record ::
  "disk \<Rightarrow> upload_row list \<times> upload_artifact_row list \<times> chunk_row list \<times> upload_audit_row list \<times> files \<times> string list" where
  "upload_record s = (db_uploads (tables s), db_upload_artifacts (tables s), db_upload_chunks (tables s),
     db_upload_audits (tables s), staged s, dk_upload_dirs s)"

lemma upload_record_tables:
  "db_uploads d = db_uploads (tables s) \<Longrightarrow> db_upload_artifacts d = db_upload_artifacts (tables s) \<Longrightarrow>
     db_upload_chunks d = db_upload_chunks (tables s) \<Longrightarrow> db_upload_audits d = db_upload_audits (tables s) \<Longrightarrow>
     upload_record (set_tables d s) = upload_record s"
  by (simp add: upload_record_def)

lemma upgrade_tables_record:
  "preserves (\<lambda>s. recoverable srv U f s \<and> upload_record s = v) (upgrade_tables srv e)"
proof -
  have unchanged: "preserves (\<lambda>s. recoverable srv U f s \<and> upload_record s = v) m"
    if "\<And>s. recoverable srv U f s \<Longrightarrow> m s = (Inr (), s)" for m :: "unit recovery"
    using that by (simp add: preserves_def)
  have "preserves (\<lambda>s. upload_record s = v) (upgrade_snapshot_fingerprints srv e)"
    unfolding upgrade_snapshot_fingerprints_def
    by (intro preserves_intros)
      (auto intro!: preserves_intros simp: upgrade_snapshot_fingerprint_def and_then_eq_Inr Let_def upload_record_tables)
  moreover have "preserves (\<lambda>s. upload_record s = v) (backfill_sort_keys srv e)"
    unfolding backfill_sort_keys_def
    by (intro preserves_intros)
      (auto simp: backfill_snapshots_def backfill_captures_def backfill_artifacts_def and_then_eq_Inr upload_record_tables)
  moreover have "preserves (\<lambda>s. upload_record s = v) (rebuild_contexts e)"
    unfolding rebuild_contexts_def
    by (intro preserves_intros) (auto simp: rebuild_latest_contexts_def upload_record_tables)
  ultimately show ?thesis
    unfolding upgrade_tables_def
    by (intro preserves_bind unchanged preserves_conj [OF upgrade_fingerprints_keeps]
        preserves_conj [OF backfill_keeps] preserves_conj [OF rebuild_contexts_keeps])
      (simp_all add: upgrade_rows_run)
qed

section \<open>The uploads\<close>

text \<open>Which uploads there are, and which of them are completed.\<close>

definition roster :: "disk \<Rightarrow> (string \<times> bool) list" where
  "roster s = map (\<lambda>r. (up_id r, up_status r = ''completed'')) (db_uploads (tables s))"

lemma roster_fields [simp]: "roster (set_staged g s) = roster s" "roster (remove_tree n s) = roster s"
  "roster (s\<lparr>dk_upload_entries := es\<rparr>) = roster s" "roster (s\<lparr>dk_chunk_strays := cs\<rparr>) = roster s"
  "roster (s\<lparr>dk_blob_strays := bs\<rparr>) = roster s"
  by (simp_all add: roster_def)

lemma roster_steps: "roster (set_tables (delete_chunk_row q (tables s)) s) = roster s"
  "roster (set_tables (recovered_status w complete (tables s)) s) = roster s"
  by (auto simp: roster_def delete_chunk_row_def recovered_status_def update_where_def open_status_def)

lemma recover_upload_roster: "preserves (\<lambda>s. roster s = v) (recover_upload srv e x)"
  unfolding recover_upload_def remove_tree_op_def recover_active_upload_def recover_artifact_chunks_def
    recover_chunk_row_def sweep_chunk_def sweep_chunk_stray_def sweep_upload_entry_def Let_def
  by (auto intro!: preserves_intros simp: roster_steps split: prod.splits)

lemma recover_upload_dirs: "preserves (\<lambda>s. set (dk_upload_dirs s) \<subseteq> D) (recover_upload srv e x)"
  unfolding recover_upload_def remove_tree_op_def recover_active_upload_def recover_artifact_chunks_def
    recover_chunk_row_def sweep_chunk_def sweep_chunk_stray_def sweep_upload_entry_def Let_def
  by (auto intro!: preserves_intros split: prod.splits)

definition upload_settled :: "externals \<Rightarrow> string \<times> string \<Rightarrow> disk \<Rightarrow> bool" where
  "upload_settled x = (\<lambda>(u, st) s. if st = ''completed'' then u \<notin> set (dk_upload_dirs s) else upload_recovered x u s)"

lemma gone_frame: "preserves (\<lambda>s. u \<notin> set (dk_upload_dirs s)) (recover_upload srv e x)"
  using recover_upload_dirs [of _ srv e x] unfolding preserves_def by blast

lemma roster_open: "roster s = roster t \<Longrightarrow> open_upload_row u s = open_upload_row u t"
proof -
  have "open_upload_row u s \<longleftrightarrow> (u, False) \<in> set (roster s)" for s
    by (auto simp: open_upload_row_def roster_def)
  then show "roster s = roster t \<Longrightarrow> open_upload_row u s = open_upload_row u t" by simp
qed

lemma recover_each_upload:
  assumes s: "recoverable srv U f s"
    and xs: "xs = map (\<lambda>r. (up_id r, up_status r)) (db_uploads (tables s))"
    and run: "each_op (recover_upload srv e) xs s = (Inr (), t)"
  shows "recoverable srv U f t \<and> roster t = roster s \<and> (\<forall>x \<in> set xs. upload_settled (ext srv) x t)"
proof -
  have inj: "inj_on fst (set xs)" "distinct xs"
    using recoverable_uploads(1) [OF s] by (auto simp: xs distinct_map inj_on_def)
  have "(recoverable srv U f t \<and> roster t = roster s) \<and> (\<forall>x \<in> set xs. upload_settled (ext srv) x t)"
  proof (rule each_establishes [OF run])
    show "preserves (\<lambda>t. recoverable srv U f t \<and> roster t = roster s) (recover_upload srv e x)" for x
      by (intro preserves_conj recover_upload_keeps recover_upload_roster)
    show "upload_settled (ext srv) x w"
      if x: "x \<in> set xs" and v: "recoverable srv U f v \<and> roster v = roster s"
        and r: "recover_upload srv e x v = (Inr (), w)" for x v w
    proof (cases "snd x = ''completed''")
      case True
      with r show ?thesis
        by (auto simp: upload_settled_def recover_upload_def remove_tree_op_def failing_Inr modify_op_eq split: prod.splits)
    next
      case False
      with x have "open_upload_row (fst x) s" by (auto simp: xs open_upload_row_def)
      with v have "open_upload_row (fst x) v" using roster_open by metis
      with False r v show ?thesis
        by (auto simp: upload_settled_def recover_upload_def intro: recover_active_upload_ok split: prod.splits)
    qed
    show "preserves (upload_settled (ext srv) x) (recover_upload srv e y)"
      if "x \<in> set xs" "y \<in> set xs" "x \<noteq> y" for x y
    proof -
      obtain u st where x: "x = (u, st)" by (cases x)
      obtain w st' where y: "y = (w, st')" by (cases y)
      have "w \<noteq> u" using inj_onD [OF inj(1), of x y] that x y by auto
      then show ?thesis
        using gone_frame upload_recovered_frame [OF recover_upload_frame]
        by (cases "st = ''completed''") (simp_all add: upload_settled_def x y)
    qed
  qed (use s inj(2) in simp_all)
  then show ?thesis by simp
qed

section \<open>Blobs\<close>

lemma fold_unlink_blobs:
  "tables (fold (\<lambda>digest s. set_staged (unlink_blob_file digest (staged s)) s) ds s) = tables s"
  "dk_upload_dirs (fold (\<lambda>digest s. set_staged (unlink_blob_file digest (staged s)) s) ds s) = dk_upload_dirs s"
  "dk_blob_strays (fold (\<lambda>digest s. set_staged (unlink_blob_file digest (staged s)) s) ds s) = dk_blob_strays s"
  "chunk_file (staged (fold (\<lambda>digest s. set_staged (unlink_blob_file digest (staged s)) s) ds s)) u = chunk_file (staged s) u"
  "blob_file (staged (fold (\<lambda>digest s. set_staged (unlink_blob_file digest (staged s)) s) ds s)) digest
     = (if digest \<in> set ds then None else blob_file (staged s) digest)"
  by (induction ds arbitrary: s) (auto simp: fun_eq_iff)

lemma delete_keys_eq: "fst ` set (AList.delete k xs) = fst ` set xs - {k}"
  using arg_cong [OF AList.delete_keys [of k xs], of set] by simp

lemma fold_blob_strays:
  "tables (fold (\<lambda>key s. s\<lparr>dk_blob_strays := AList.delete key (dk_blob_strays s)\<rparr>) keys s) = tables s"
  "staged (fold (\<lambda>key s. s\<lparr>dk_blob_strays := AList.delete key (dk_blob_strays s)\<rparr>) keys s) = staged s"
  "dk_upload_dirs (fold (\<lambda>key s. s\<lparr>dk_blob_strays := AList.delete key (dk_blob_strays s)\<rparr>) keys s) = dk_upload_dirs s"
  "fst ` set (dk_blob_strays (fold (\<lambda>key s. s\<lparr>dk_blob_strays := AList.delete key (dk_blob_strays s)\<rparr>) keys s))
     = fst ` set (dk_blob_strays s) - set keys"
  by (induction keys arbitrary: s) (auto simp: delete_keys_eq)

lemma sweep_unknown_blobs_Inr:
  assumes "sweep_unknown_blobs e s = (Inr (), t)"
  shows "tables t = tables s" "outlook u t = outlook u s" "dk_upload_dirs t = dk_upload_dirs s"
    "blob_file (staged t) digest \<noteq> None \<Longrightarrow> digest \<in> known_digests t"
    "key \<in> fst ` set (dk_blob_strays t) \<Longrightarrow> snd key \<in> known_digests t"
proof -
  let ?ds = "filter (\<lambda>digest. digest \<notin> known_digests s) (map fst (blob_files (staged s)))"
  let ?ks = "filter (\<lambda>(_, name). name \<notin> known_digests s) (map fst (dk_blob_strays s))"
  let ?v = "fold (\<lambda>digest s. set_staged (unlink_blob_file digest (staged s)) s) ?ds s"
  from assms obtain v where "each_op (sweep_blob e) ?ds s = (Inr (), v)"
    "each_op (sweep_blob_stray e) ?ks v = (Inr (), t)"
    by (auto simp: sweep_unknown_blobs_def read_op_eq bind_op_Inr)
  then have t: "t = fold (\<lambda>key s. s\<lparr>dk_blob_strays := AList.delete key (dk_blob_strays s)\<rparr>) ?ks ?v"
    unfolding sweep_blob_def sweep_blob_stray_def each_failing_modify by blast
  show tables: "tables t = tables s" by (simp add: t fold_blob_strays fold_unlink_blobs)
  then have known: "known_digests t = known_digests s" by (simp add: known_digests_def)
  show "outlook u t = outlook u s"
    by (simp add: outlook_def t fold_blob_strays fold_unlink_blobs)
  show "dk_upload_dirs t = dk_upload_dirs s" by (simp add: t fold_blob_strays fold_unlink_blobs)
  show "digest \<in> known_digests t" if "blob_file (staged t) digest \<noteq> None"
  proof -
    have "digest \<notin> set ?ds" "blob_file (staged s) digest \<noteq> None"
      using that by (auto simp: t fold_blob_strays fold_unlink_blobs split: if_splits)
    moreover have "digest \<in> set (map fst (blob_files (staged s)))"
      using calculation(2) by (auto simp: blob_file_def map_of_eq_None_iff)
    ultimately show ?thesis by (simp add: known)
  qed
  show "snd key \<in> known_digests t" if "key \<in> fst ` set (dk_blob_strays t)"
  proof -
    have "fst ` set (dk_blob_strays t) = fst ` set (dk_blob_strays s) - set ?ks"
      by (simp only: t fold_blob_strays fold_unlink_blobs)
    with that have "key \<in> fst ` set (dk_blob_strays s)" "key \<notin> set ?ks" by blast+
    then show ?thesis by (cases key) (simp add: known)
  qed
qed

lemma refresh_orphans_exact:
  assumes "b \<in> set (db_blobs (refresh_orphans a k n d))"
  shows "bl_eligible_after_seq b = None \<longleftrightarrow> has_live_reference (refresh_orphans a k n d) (bl_id b)"
proof -
  have refs: "has_live_reference (refresh_orphans a k n d) i = has_live_reference d i" for i
    by (simp add: has_live_reference_def refresh_orphans_def)
  show ?thesis
    using assms unfolding refs
    by (auto simp: refresh_orphans_def update_where_def mark_orphan_def clear_orphan_def split: if_splits)
qed

lemma recover_unreferenced_blobs_Inr:
  assumes "recover_unreferenced_blobs srv e s = (Inr (), t)"
  shows "outlook u t = outlook u s" "dk_upload_dirs t = dk_upload_dirs s" "roster t = roster s"
    "blob_file (staged t) digest \<noteq> None \<Longrightarrow> digest \<in> known_digests t"
    "key \<in> fst ` set (dk_blob_strays t) \<Longrightarrow> snd key \<in> known_digests t"
    "b \<in> set (db_blobs (tables t)) \<Longrightarrow> bl_eligible_after_seq b = None \<longleftrightarrow> has_live_reference (tables t) (bl_id b)"
proof -
  from assms obtain a k n where
    run: "sweep_unknown_blobs e (set_tables (refresh_orphans a k n (tables s)) s) = (Inr (), t)"
    by (auto simp: recover_unreferenced_blobs_def Let_def try_op_Inr bind_op_Inr update_tables_Inr)
  note t = sweep_unknown_blobs_Inr [OF run]
  show "outlook u t = outlook u s" unfolding t(2)
    by (simp add: outlook_def refresh_orphans_def artifacts_for_def chunks_for_def)
  show "roster t = roster s" by (simp add: roster_def t(1) refresh_orphans_def)
  show "b \<in> set (db_blobs (tables t)) \<Longrightarrow> bl_eligible_after_seq b = None \<longleftrightarrow> has_live_reference (tables t) (bl_id b)"
    unfolding t(1) disk_simps by (rule refresh_orphans_exact)
  show "dk_upload_dirs t = dk_upload_dirs s" by (simp add: t(3))
  show "blob_file (staged t) digest \<noteq> None \<Longrightarrow> digest \<in> known_digests t" by (rule t(4))
  show "key \<in> fst ` set (dk_blob_strays t) \<Longrightarrow> snd key \<in> known_digests t" by (rule t(5))
qed

section \<open>The whole recovery\<close>

text \<open>What the start of the recovery may assume of the tables: no row of an earlier protocol, and the
  identifier of a terminated upload is not given to another one.\<close>

definition current_uploads :: "database \<Rightarrow> bool" where
  "current_uploads d =
     (legacy_uploads d = [] \<and> au_upload_id ` set (db_upload_audits d) \<inter> up_id ` set (db_uploads d) = {})"

definition reconciled :: "server \<Rightarrow> disk \<Rightarrow> bool" where
  "reconciled srv s =
     ((\<forall>r \<in> set (db_uploads (tables s)). up_status r \<noteq> ''completed'' \<longrightarrow> upload_recovered (ext srv) (up_id r) s)
      \<and> (\<forall>n \<in> set (dk_upload_dirs s). uuid_parse (ext srv) n \<noteq> None \<longrightarrow> open_upload_row n s)
      \<and> (\<forall>digest. blob_file (staged s) digest \<noteq> None \<longrightarrow> digest \<in> known_digests s)
      \<and> (\<forall>key \<in> fst ` set (dk_blob_strays s). snd key \<in> known_digests s)
      \<and> (\<forall>b \<in> set (db_blobs (tables s)).
            bl_eligible_after_seq b = None \<longleftrightarrow> has_live_reference (tables s) (bl_id b)))"

lemma recover_directories_reconciles:
  assumes s: "recoverable srv U f s" and current: "current_uploads (tables s)"
    and run: "recover_directories srv e s = (Inr (), t)"
  shows "reconciled srv t"
proof -
  let ?uploads = "map (\<lambda>u. (up_id u, up_status u)) (db_uploads (tables s))"
  let ?audits = "map au_upload_id (db_upload_audits (tables s))"
  let ?unknown = "filter (\<lambda>name. uuid_parse (ext srv) name \<noteq> None \<and> name \<notin> fst ` set ?uploads \<union> set ?audits)
    (dk_upload_dirs s)"
  let ?v = "fold remove_tree ?unknown s"
  from run obtain v w x where v: "each_op (remove_tree_op e) ?unknown s = (Inr (), v)"
    and w: "each_op (recover_upload srv e) ?uploads v = (Inr (), w)"
    and x: "each_op (remove_tree_op e) ?audits w = (Inr (), x)"
    and t: "recover_unreferenced_blobs srv e x = (Inr (), t)"
    by (auto simp: recover_directories_def remove_unknown_upload_directories_def Let_def read_op_eq bind_op_Inr)
  from v have v: "v = ?v" by (simp add: each_remove_tree)
  from x have x: "x = fold remove_tree ?audits w" by (simp add: each_remove_tree)
  have tables_v: "tables v = tables s" by (simp add: v fold_remove_tree)
  have "recoverable srv U f v"
    using s unfolding v by (simp only: recoverable_remove_trees)
  from recover_each_upload [OF this _ w] have
    settled: "\<And>y. y \<in> set ?uploads \<Longrightarrow> upload_settled (ext srv) y w" and roster_w: "roster w = roster s"
    by (auto simp: tables_v roster_def)
  note blobs = recover_unreferenced_blobs_Inr [OF t]
  have "roster x = roster w" by (simp add: roster_def x fold_remove_tree)
  with roster_w blobs(3) have roster: "roster t = roster s" by simp
  have kept: "outlook u t = outlook u w" if "u \<in> up_id ` set (db_uploads (tables s))" for u
  proof -
    have "u \<notin> set ?audits" using current that by (auto simp: current_uploads_def)
    from fold_remove_tree(3) [OF this, of w] show ?thesis by (simp add: blobs(1) x)
  qed
  have "upload_recovered (ext srv) (up_id r) t" if r: "r \<in> set (db_uploads (tables t))" "up_status r \<noteq> ''completed''" for r
  proof -
    have "(up_id r, False) \<in> set (roster s)" using r unfolding roster [symmetric] by (auto simp: roster_def)
    then obtain q where q: "q \<in> set (db_uploads (tables s))" "up_id q = up_id r" "up_status q \<noteq> ''completed''"
      by (auto simp: roster_def)
    have "(up_id q, up_status q) \<in> set ?uploads"
      using imageI [OF q(1), of "\<lambda>u. (up_id u, up_status u)"] by simp
    from settled [OF this] q have "upload_recovered (ext srv) (up_id r) w" by (simp add: upload_settled_def)
    then show ?thesis using upload_recovered_outlook [OF kept [of "up_id r"]] q by (metis image_eqI)
  qed
  moreover have "open_upload_row n t" if n: "n \<in> set (dk_upload_dirs t)" "uuid_parse (ext srv) n \<noteq> None" for n
  proof -
    have dirs: "n \<in> set (dk_upload_dirs w)" "n \<notin> set ?audits"
      using n(1) by (auto simp: blobs(2) x fold_remove_tree)
    have "preserves (\<lambda>t. set (dk_upload_dirs t) \<subseteq> set (dk_upload_dirs v)) (each_op (recover_upload srv e) ?uploads)"
      by (intro preserves_intros recover_upload_dirs)
    from preservesD [OF this _ w] dirs(1) have "n \<in> set (dk_upload_dirs v)" by auto
    then have "n \<in> set (dk_upload_dirs s)" "n \<notin> set ?unknown" unfolding v fold_remove_tree by simp_all
    with n(2) dirs(2) have "n \<in> fst ` set ?uploads" by auto
    then obtain r where r: "r \<in> set (db_uploads (tables s))" "up_id r = n" by auto
    moreover have "up_status r \<noteq> ''completed''"
      using settled [of "(up_id r, up_status r)"] imageI [OF r(1), of "\<lambda>u. (up_id u, up_status u)"] r(2) dirs(1)
      by (auto simp: upload_settled_def)
    ultimately have "open_upload_row n s" by (auto simp: open_upload_row_def)
    then show ?thesis using roster_open [OF roster] by simp
  qed
  ultimately show ?thesis using blobs(4,5,6) unfolding reconciled_def by blast
qed

text \<open>The invariant of the uploads again speaks of the files that are there.\<close>

lemma upload_ok_files:
  assumes "upload_ok x u ms as chunks file"
    and "up_status u \<noteq> ''completed'' \<Longrightarrow> \<forall>r \<in> set chunks. chunk_backed x file' r"
  shows "upload_ok x u ms as chunks file'"
  using assms unfolding upload_ok_def by blast

lemma reconciled_upload_inv:
  assumes s: "recoverable srv U f s" and ok: "reconciled srv s"
  shows "upload_inv srv (dk_archive s)"
proof -
  have "upload_detail_ok (ext srv) (tables s) (staged s) u" if u: "u \<in> set (db_uploads (tables s))" for u
    unfolding upload_detail_ok_def
  proof (rule upload_ok_files)
    show "upload_ok (ext srv) u (manifests_for (tables s) (up_id u)) (artifacts_for (tables s) (up_id u))
        (chunks_for (tables s) (up_id u)) (chunk_file f (up_id u))"
      using upload_invD(5) [OF recoverableD(5) [OF s]] u by (simp add: upload_detail_ok_def)
    show "\<forall>r \<in> set (chunks_for (tables s) (up_id u)). chunk_backed (ext srv) (chunk_file (staged s) (up_id u)) r"
      if open_u: "up_status u \<noteq> ''completed''"
    proof
      fix r assume r: "r \<in> set (chunks_for (tables s) (up_id u))"
      then have r: "r \<in> set (piece_rows (up_id u) (uc_artifact_index r) s)"
        by (simp add: piece_rows_def chunks_for_def)
      have "open_upload_row (up_id u) s" using u open_u by (auto simp: open_upload_row_def)
      from open_rows_plain(2) [OF s this r] obtain a where
        a: "a \<in> set (artifacts_for (tables s) (up_id u))" "ua_artifact_index a = uc_artifact_index r" by auto
      have "upload_recovered (ext srv) (up_id u) s" using ok u open_u by (simp add: reconciled_def)
      with a have "piece_ok (ext srv) (up_id u) (uc_artifact_index r) s" by (auto simp: upload_recovered_def)
      with r show "chunk_backed (ext srv) (chunk_file (staged s) (up_id u)) r" by (simp add: piece_ok_def)
    qed
  qed
  with upload_invD [OF recoverableD(5) [OF s]] show ?thesis by (simp add: upload_inv_def)
qed

lemma recover_uploads_outcome:
  assumes s: "recoverable srv U f s" and current: "current_uploads (tables s)"
    and run: "recover_uploads srv e s = (Inr (), t)"
  shows "sound srv U (dk_archive t)" "reconciled srv t"
proof -
  from run obtain v where v: "upgrade_tables srv e s = (Inr (), v)" "recover_directories srv e v = (Inr (), t)"
    by (auto simp: recover_uploads_def bind_op_Inr)
  have "recoverable srv U f v \<and> upload_record v = upload_record s"
    using preservesD [OF upgrade_tables_record [of srv U f "upload_record s" e] _ v(1)] s by simp
  then have "recoverable srv U f v" "upload_record v = upload_record s" by simp_all
  moreover from this current recoverableD(6) have "current_uploads (tables v)"
    by (auto simp: current_uploads_def upload_record_def)
  ultimately show reconciled: "reconciled srv t" using recover_directories_reconciles v(2) by blast
  have "recoverable srv U f t" using preservesD [OF recover_uploads_keeps s run] .
  with reconciled_upload_inv [OF this reconciled] show "sound srv U (dk_archive t)"
    by (simp add: sound_def recoverable_def)
qed

lemma recover_uploads_disk_wf:
  assumes s: "recoverable srv U f s" and wf: "disk_wf s" and run: "recover_uploads srv e s = (Inr (), t)"
  shows "disk_wf t"
proof -
  from run obtain v where v: "upgrade_tables srv e s = (Inr (), v)" "recover_directories srv e v = (Inr (), t)"
    by (auto simp: recover_uploads_def bind_op_Inr)
  have "upload_record v = upload_record s"
    using preservesD [OF upgrade_tables_record [of srv U f "upload_record s" e] _ v(1)] s by simp
  with wf have "disk_wf v" by (simp add: disk_wf_def upload_record_def)
  from preservesD [OF recover_directories_disk_wf this v(2)] show ?thesis .
qed

end
