(* ===== verification/Lifecycle.thy ===== *)
theory Lifecycle
  imports Recovery_Outcome
begin

text \<open>
  The life of the service: it serves requests, it may be stopped at any time, and a recovery that
  ends well puts it back into service. While it is down, and when it goes down, everything below
  \<open>uploads/\<close> may be lost, changed or left over; the tables are those of the last commit and the blob
  files, which are synced before the commit that refers to them, are kept. A request that is cut
  short leaves the tables before or after its commit; both are the tables of a state of this
  machine. A recovery that is cut short is one whose next step fails.
\<close>

datatype service = Serving disk | Down disk

definition damaged :: "bytes set \<Rightarrow> disk \<Rightarrow> disk \<Rightarrow> bool" where
  "damaged U s t =
     (tables t = tables s
      \<and> (\<forall>digest bs. blob_file (staged s) digest = Some (Regular bs) \<longrightarrow> blob_file (staged t) digest = Some (Regular bs))
      \<and> files_in U (dk_archive t))"

inductive service_step :: "server \<Rightarrow> bytes set \<Rightarrow> service \<Rightarrow> service \<Rightarrow> bool" for srv U where
  serve: "assembled_in U srv e (dk_archive s) \<Longrightarrow> dk_archive t = run_request srv e r (dk_archive s) \<Longrightarrow>
    service_step srv U (Serving s) (Serving t)"
| stop: "damaged U s t \<Longrightarrow> service_step srv U (Serving s) (Down t)"
| lose: "damaged U s t \<Longrightarrow> service_step srv U (Down s) (Down t)"
| fail: "current_uploads (tables s) \<Longrightarrow> recover_uploads srv e s = (Inl err, t) \<Longrightarrow>
    service_step srv U (Down s) (Down t)"
| restart: "current_uploads (tables s) \<Longrightarrow> recover_uploads srv e s = (Inr (), t) \<Longrightarrow>
    service_step srv U (Down s) (Serving t)"

inductive_cases service_stepE: "service_step srv U s t"

definition empty_disk :: disk where
  "empty_disk = \<lparr>dk_archive = empty_archive, dk_upload_dirs = [], dk_upload_entries = [], dk_chunk_strays = [],
     dk_blob_strays = []\<rparr>"

abbreviation service_reachable :: "server \<Rightarrow> bytes set \<Rightarrow> service \<Rightarrow> bool" where
  "service_reachable srv U \<equiv> reachable (Serving empty_disk) (service_step srv U)"

section \<open>The invariant of the service\<close>

text \<open>Down, the rows of the accepted chunks still agree with the files \<open>f\<close> there were.\<close>

definition restartable :: "server \<Rightarrow> bytes set \<Rightarrow> disk \<Rightarrow> bool" where
  "restartable srv U s =
     (\<exists>f. archive_inv srv U (dk_archive s) \<and> history_inv srv (dk_archive s) \<and> upload_inv srv ((dk_archive s)\<lparr>fs := f\<rparr>))"

fun service_inv :: "server \<Rightarrow> bytes set \<Rightarrow> service \<Rightarrow> bool" where
  "service_inv srv U (Serving s) = sound srv U (dk_archive s)"
| "service_inv srv U (Down s) = restartable srv U s"

lemma restartable_recoverable:
  assumes "restartable srv U s" "current_uploads (tables s)"
  shows "\<exists>f. recoverable srv U f s"
  using assms by (auto simp: restartable_def recoverable_def current_uploads_def)

lemma recoverable_restartable: "recoverable srv U f s \<Longrightarrow> restartable srv U s"
  by (auto simp: restartable_def recoverable_def)

lemma sound_restartable: "sound srv U (dk_archive s) \<Longrightarrow> restartable srv U s"
  unfolding restartable_def sound_def
  by (intro exI [of _ "staged s"]) (auto simp: staged_def simp del: disk_simps)

lemma damaged_restartable:
  assumes "damaged U s t" "restartable srv U s"
  shows "restartable srv U t"
proof -
  from assms(2) obtain f where inv: "archive_inv srv U (dk_archive s)" "history_inv srv (dk_archive s)"
    "upload_inv srv ((dk_archive s)\<lparr>fs := f\<rparr>)"
    by (auto simp: restartable_def)
  have kept: "blob_file (staged t) digest = Some (Regular bs)"
    if "blob_file (staged s) digest = Some (Regular bs)" for digest bs
    using assms(1) that by (auto simp: damaged_def)
  have tables: "tables t = tables s" and files: "files_in U (dk_archive t)"
    using assms(1) by (simp_all add: damaged_def)
  have "readable (ext srv) (tables t) (staged t) a" if "readable (ext srv) (tables s) (staged s) a" for a
    using that unfolding tables readable_def blob_stored_def by (auto dest: kept)
  then have "blob_inv srv (dk_archive t)"
    using inv(1) by (simp add: archive_inv_def blob_inv_def tables)
  moreover have "history_inv srv (dk_archive t)" using inv(2) by (simp add: history_inv_def tables)
  moreover have "upload_inv srv ((dk_archive t)\<lparr>fs := f\<rparr>) = upload_inv srv ((dk_archive s)\<lparr>fs := f\<rparr>)"
    by (rule upload_inv_view) (simp add: upload_view_def tables)
  ultimately show ?thesis using inv(3) files by (auto simp: restartable_def archive_inv_def)
qed

interpretation life: inductive_invariant "Serving empty_disk" "service_step srv U"
  "\<lambda>s. trusted srv U \<longrightarrow> service_inv srv U s" for srv U
proof
  show "trusted srv U \<longrightarrow> service_inv srv U (Serving empty_disk)"
    using archive.start by (simp add: empty_disk_def)
next
  fix s t assume inv: "trusted srv U \<longrightarrow> service_inv srv U s" and step: "service_step srv U s t"
  show "trusted srv U \<longrightarrow> service_inv srv U t"
  proof
    assume trusted: "trusted srv U"
    with inv have inv: "service_inv srv U s" by simp
    from step show "service_inv srv U t"
    proof (cases rule: service_step.cases)
      case (serve e v w r)
      then have "archive_step srv U (dk_archive v) (dk_archive w)" by (simp add: archive_step.step)
      with archive.kept serve inv trusted show ?thesis by simp
    next
      case (fail v e err w)
      with inv restartable_recoverable obtain f where "recoverable srv U f v" by fastforce
      from preservesD [OF recover_uploads_keeps this fail(4)] fail show ?thesis
        by (simp add: recoverable_restartable)
    next
      case (restart v e w)
      with inv restartable_recoverable obtain f where "recoverable srv U f v" by fastforce
      from recover_uploads_outcome(1) [OF this restart(3,4)] restart show ?thesis by simp
    qed (use inv in \<open>auto intro: damaged_restartable sound_restartable\<close>)
  qed
qed

lemma service_always:
  assumes "trusted srv U" "service_reachable srv U s"
  shows "service_inv srv U s"
  using life.always [OF assms(2)] assms(1) by simp

section \<open>Recovery makes progress\<close>

definition succeeds :: "('s, 'e, 'a) fallible_op \<Rightarrow> 's \<Rightarrow> bool" where
  "succeeds m s = (\<exists>v t. m s = (Inr v, t))"

lemma succeeds_bind: "succeeds m s \<Longrightarrow> (\<And>v t. m s = (Inr v, t) \<Longrightarrow> succeeds (k v) t) \<Longrightarrow> succeeds (bind_op m k) s"
  unfolding succeeds_def by (metis bind_op_Inr)

lemma succeeds_pure [simp]: "succeeds (pure_op (Inr v)) s"
  by (simp add: succeeds_def pure_op_def)

lemma succeeds_read [simp]: "succeeds (read_op g) s = succeeds (g s) s"
  by (simp add: succeeds_def read_op_def)

lemma succeeds_disk [simp]: "succeeds (failing c m) s \<longleftrightarrow> \<not> c \<and> succeeds m s"
  "succeeds (modify_op h) s" "succeeds (update_tables c step) s \<longleftrightarrow> is_ok (step (tables s)) \<and> \<not> c"
  by (auto simp: succeeds_def modify_op_def failing_Inr update_tables_Inr is_ok_def split: sum.splits)

lemma succeeds_each:
  assumes "I s" "\<And>x s. x \<in> set xs \<Longrightarrow> I s \<Longrightarrow> succeeds (f x) s" "\<And>x. x \<in> set xs \<Longrightarrow> preserves I (f x)"
  shows "succeeds (each_op f xs) s"
  using assms
proof (induction xs arbitrary: s)
  case (Cons x xs)
  have "I t" if "f x s = (Inr v, t)" for v t
    using preservesD [OF Cons.prems(3) Cons.prems(1) that] by simp
  then show ?case using Cons by (auto intro!: succeeds_bind)
qed simp

lemma succeeds_each_modify: "(\<And>k. \<not> F k) \<Longrightarrow> succeeds (each_op (\<lambda>k. failing (F k) (modify_op (D k))) ks) s"
  by (rule succeeds_each [where I = "\<lambda>_. True"]) (auto simp: preserves_def)

text \<open>What recovery needs of the tables to end well: no rows that wait for an upgrade it could refuse,
  and times that can be read.\<close>

definition current_rows :: "externals \<Rightarrow> database \<Rightarrow> bool" where
  "current_rows x d =
     ((\<forall>r \<in> set (db_snapshots d). sn_fingerprint_version r \<noteq> 0)
      \<and> (\<forall>r \<in> set (db_captures d). sort_key_from_rfc3339 x (cp_server_completed_at r) \<noteq> None)
      \<and> (\<forall>r \<in> set (db_artifacts d). sort_key_from_rfc3339 x (ar_created_at r) \<noteq> None)
      \<and> (\<forall>r \<in> set (db_upload_artifacts d). ua_artifact_index r \<le> int u32_max))"

definition clock_reads :: "server \<Rightarrow> recovery_env \<Rightarrow> bool" where
  "clock_reads srv e =
     (let eligible_at = expiration_time (rv_orphaned_at e) (srv_blob_gc_grace srv) in
      format_time (ext srv) (rv_orphaned_at e) \<noteq> None \<and> format_time (ext srv) eligible_at \<noteq> None
      \<and> sort_key_from_timestamp eligible_at \<noteq> None)"

lemma backfill_succeeds:
  assumes "\<And>r. r \<in> set table \<Longrightarrow> sort_key_from_rfc3339 x (timestamp_of r) \<noteq> None"
  shows "\<exists>t. backfill_table_sort_key x id_of timestamp_of key_of set_key table = Inr t"
proof -
  have "\<exists>t'. try_fold (\<lambda>t row. and_then (ok_or internal (sort_key_from_rfc3339 x (timestamp_of row))) (\<lambda>sort_key.
      Inr (update_where (\<lambda>r. id_of r = id_of row \<and> key_of r = 0) (set_key sort_key) t))) t rows = Inr t'"
    if "\<And>r. r \<in> set rows \<Longrightarrow> sort_key_from_rfc3339 x (timestamp_of r) \<noteq> None" for rows t
    using that
  proof (induction rows arbitrary: t)
    case (Cons a rows)
    obtain k where "sort_key_from_rfc3339 x (timestamp_of a) = Some k" using Cons.prems [of a] by auto
    with Cons show ?case by simp
  qed simp
  from this [of "filter (\<lambda>r. key_of r = 0) table" table] assms show ?thesis
    unfolding backfill_table_sort_key_def by simp
qed

lemma upgrade_fingerprints_none:
  "current_rows x (tables s) \<Longrightarrow> upgrade_snapshot_fingerprints srv e s = (Inr (), s)"
proof -
  assume "current_rows x (tables s)"
  then have "snapshots_to_upgrade (tables s) = []"
    by (auto simp: snapshots_to_upgrade_def current_rows_def)
  then show ?thesis by (simp add: upgrade_snapshot_fingerprints_def read_op_def pure_op_def)
qed

lemma backfill_other_tables:
  "backfill_snapshots x d = Inr d' \<Longrightarrow> db_captures d' = db_captures d \<and> db_artifacts d' = db_artifacts d"
  "backfill_captures x d = Inr d' \<Longrightarrow> db_artifacts d' = db_artifacts d"
  by (auto simp: backfill_snapshots_def backfill_captures_def and_then_eq_Inr)

lemma backfill_sort_keys_succeeds:
  assumes s: "recoverable srv U f s" and rows: "current_rows (ext srv) (tables s)" and e: "\<And>p. \<not> rv_fails e p"
  shows "succeeds (backfill_sort_keys srv e) s"
proof -
  have "sort_key_from_rfc3339 (ext srv) (sn_completed_at r) \<noteq> None" if "r \<in> set (db_snapshots (tables s))" for r
    using recoverableD(4) [OF s] that by (auto simp: history_inv_def snapshots_recorded_def)
  then obtain t where "backfill_table_sort_key (ext srv) sn_id sn_completed_at sn_completed_at_seq
      (\<lambda>k r. r\<lparr>sn_completed_at_seq := k\<rparr>) (db_snapshots (tables s)) = Inr t"
    using backfill_succeeds [of "db_snapshots (tables s)" "ext srv" sn_completed_at] by blast
  then have a: "is_ok (backfill_snapshots (ext srv) (tables s))"
    by (simp add: backfill_snapshots_def is_ok_def)
  have b: "is_ok (backfill_captures (ext srv) d)" if "db_captures d = db_captures (tables s)" for d
  proof -
    obtain t where "backfill_table_sort_key (ext srv) cp_id cp_server_completed_at cp_server_completed_at_seq
        (\<lambda>k r. r\<lparr>cp_server_completed_at_seq := k\<rparr>) (db_captures (tables s)) = Inr t"
      using backfill_succeeds [of "db_captures (tables s)" "ext srv" cp_server_completed_at] rows
      unfolding current_rows_def by blast
    then show ?thesis by (simp add: backfill_captures_def is_ok_def that)
  qed
  have c: "is_ok (backfill_artifacts (ext srv) d)" if "db_artifacts d = db_artifacts (tables s)" for d
  proof -
    obtain t where "backfill_table_sort_key (ext srv) ar_id ar_created_at ar_created_at_seq
        (\<lambda>k r. r\<lparr>ar_created_at_seq := k\<rparr>) (db_artifacts (tables s)) = Inr t"
      using backfill_succeeds [of "db_artifacts (tables s)" "ext srv" ar_created_at] rows
      unfolding current_rows_def by blast
    then show ?thesis by (simp add: backfill_artifacts_def is_ok_def that)
  qed
  show ?thesis
    unfolding backfill_sort_keys_def
    by (intro succeeds_bind)
      (auto simp: a e update_tables_Inr intro!: b c dest!: backfill_other_tables)
qed

lemma upgrade_tables_succeeds:
  assumes s: "recoverable srv U f s" and rows: "current_rows (ext srv) (tables s)" and e: "\<And>p. \<not> rv_fails e p"
  shows "succeeds (upgrade_tables srv e) s"
proof -
  have contexts: "succeeds (bind_op (backfill_completed_capture_provenance srv e) (\<lambda>_. rebuild_contexts e)) t"
    if "recoverable srv U f t" for t
    using upgrade_rows_run(3) [OF that] by (simp add: succeeds_def bind_op_def rebuild_contexts_def update_tables_Inr e)
  have "succeeds (bind_op (backfill_sort_keys srv e)
      (\<lambda>_. bind_op (backfill_completed_capture_provenance srv e) (\<lambda>_. rebuild_contexts e))) s"
    using backfill_sort_keys_succeeds [OF assms] preservesD [OF backfill_keeps s]
    by (auto intro!: succeeds_bind contexts)
  then show ?thesis
    by (simp add: upgrade_tables_def bind_op_def upgrade_rows_run [OF s] upgrade_fingerprints_none [OF rows] succeeds_def)
qed

lemma those_map_Some [simp]: "those (map Some xs) = Some xs"
  by (induction xs) auto

lemma recover_chunk_row_succeeds:
  "row_plain u i r \<Longrightarrow> (\<And>p. \<not> rv_fails e p) \<Longrightarrow> succeeds (recover_chunk_row srv e u (nat i) r) s"
  unfolding succeeds_def recover_chunk_row_eq Let_def by simp

lemma recover_artifact_chunks_succeeds:
  assumes s: "recoverable srv U f s" "open_upload_row u s" and a: "0 \<le> ua_artifact_index a" "ua_artifact_index a \<le> int u32_max"
    and e: "\<And>p. \<not> rv_fails e p"
  shows "succeeds (recover_artifact_chunks srv e u a) s"
proof -
  let ?i = "ua_artifact_index a" and ?R = "set (piece_rows u (ua_artifact_index a) s)"
  have plain: "row_plain u ?i r" if "r \<in> ?R" for r
    using open_rows_plain(1) [OF s that] .
  have sweeps: "succeeds (bind_op (each_op (sweep_chunk e) ks) (\<lambda>_. each_op (sweep_chunk_stray e) ls)) t" for ks ls t
    unfolding sweep_chunk_def sweep_chunk_stray_def by (intro succeeds_bind succeeds_each_modify) (simp_all add: e)
  have rows: "succeeds (each_op (recover_chunk_row srv e u (nat ?i)) (chunk_rows (tables s) u ?i)) s"
    by (rule succeeds_each [where I = "\<lambda>_. True"])
      (auto intro!: recover_chunk_row_succeeds plain simp: preserves_def e)
  have "\<exists>ns. those (map (\<lambda>r. u64_try_from (uc_chunk_index r)) (chunk_rows (tables t) u ?i)) = Some ns"
    if "each_op (recover_chunk_row srv e u (nat ?i)) (chunk_rows (tables s) u ?i) s = (Inr v, t)" for v t
  proof -
    have "preserves (\<lambda>t. set (piece_rows u ?i t) \<subseteq> ?R) (each_op (recover_chunk_row srv e u (nat ?i)) (chunk_rows (tables s) u ?i))"
      by (intro preserves_intros recover_chunk_row_shrinks)
    from preservesD [OF this _ that] have "set (chunk_rows (tables t) u ?i) \<subseteq> ?R" by simp
    then have "\<forall>r \<in> set (chunk_rows (tables t) u ?i). u64_try_from (uc_chunk_index r) = Some (nat (uc_chunk_index r))"
      using plain by (auto simp: row_plain_def u64_try_from_def)
    then have "map (\<lambda>r. u64_try_from (uc_chunk_index r)) (chunk_rows (tables t) u ?i)
        = map Some (map (\<lambda>r. nat (uc_chunk_index r)) (chunk_rows (tables t) u ?i))"
      by simp
    then show ?thesis by (metis those_map_Some)
  qed
  then have tail: "succeeds (try_op (ok_or Maintenance_Operation
        (those (map (\<lambda>r. u64_try_from (uc_chunk_index r)) (chunk_rows (tables t) u ?i)))) (\<lambda>accepted.
      bind_op (each_op (sweep_chunk e) (unaccepted_chunks u (nat ?i) (set accepted) t)) (\<lambda>_.
      each_op (sweep_chunk_stray e) (unaccepted_strays u (nat ?i) (set accepted) t)))) t"
    if "each_op (recover_chunk_row srv e u (nat ?i)) (chunk_rows (tables s) u ?i) s = (Inr v, t)" for v t
    using that sweeps by fastforce
  have index: "u32_try_from ?i = Some (nat ?i)" using a by (simp add: u32_try_from_def)
  show ?thesis
    unfolding recover_artifact_chunks_def index ok_or_simps try_op_simps
    by (intro succeeds_bind) (simp_all only: succeeds_read rows read_op_eq tail)
qed

lemma recover_active_upload_succeeds:
  assumes s: "recoverable srv U f s" "open_upload_row u s"
    and index: "\<forall>a \<in> set (db_upload_artifacts (tables s)). ua_artifact_index a \<le> int u32_max"
    and e: "\<And>p. \<not> rv_fails e p"
  shows "succeeds (recover_active_upload srv e u) s"
proof -
  let ?rows = "get_upload_artifacts (tables s) u"
  have arts: "set ?rows = set (artifacts_for (tables s) u)" by (simp add: get_upload_artifacts_def artifacts_for_def)
  obtain r where "r \<in> set (db_uploads (tables s))" "up_id r = u" using s(2) by (auto simp: open_upload_row_def)
  with upload_artifacts_present [OF recoverableD(5) [OF s(1)], of r] have "set ?rows \<noteq> {}"
    unfolding arts artifacts_for_def by auto
  then have present: "?rows \<noteq> []" by auto
  let ?I = "\<lambda>v. recoverable srv U f v
    \<and> (db_uploads (tables v), db_upload_artifacts (tables v)) = (db_uploads (tables s), db_upload_artifacts (tables s))"
  have keeps: "preserves ?I (recover_artifact_chunks srv e u a)" for a
    by (intro preserves_conj artifact_chunks_recoverable artifact_chunks_tables)
  have each: "succeeds (each_op (recover_artifact_chunks srv e u) ?rows) s"
  proof (rule succeeds_each [where I = ?I])
    fix a v assume a: "a \<in> set ?rows" and v: "?I v"
    then have "open_upload_row u v" using s(2) by (simp add: open_upload_row_def)
    moreover have "0 \<le> ua_artifact_index a" using open_rows_distinct(3) [OF s] a arts by blast
    moreover have "ua_artifact_index a \<le> int u32_max" using a index unfolding arts artifacts_for_def by simp
    ultimately show "succeeds (recover_artifact_chunks srv e u a) v"
      using v e by (intro recover_artifact_chunks_succeeds) auto
  qed (use s keeps in auto)
  have complete: "is_ok (operation (upload_is_complete u (tables t)))"
    if "each_op (recover_artifact_chunks srv e u) ?rows s = (Inr v, t)" for v t
  proof -
    have "preserves ?I (each_op (recover_artifact_chunks srv e u) ?rows)" by (intro preserves_intros keeps)
    from preservesD [OF this _ that] s(1) have "get_upload_artifacts (tables t) u = ?rows"
      by (simp add: get_upload_artifacts_def)
    with present show ?thesis by (simp add: upload_is_complete_def Let_def operation_def is_ok_def)
  qed
  have entries: "succeeds (each_op (sweep_upload_entry e) ks) t" for ks t
    unfolding sweep_upload_entry_def by (rule succeeds_each_modify) (rule e)
  have "succeeds (read_op (\<lambda>s. try_op (operation (upload_is_complete u (tables s))) (\<lambda>complete.
      bind_op (update_tables (rv_fails e (Update_Status u)) (\<lambda>d. Inr (recovered_status u complete d) :: unit + database))
        (\<lambda>_. read_op (\<lambda>s. each_op (sweep_upload_entry e)
          (filter (\<lambda>(n, name). n = u \<and> temporary_entry name) (map fst (dk_upload_entries s)))))))) t"
    if "each_op (recover_artifact_chunks srv e u) ?rows s = (Inr v, t)" for v t
    using complete [OF that] unfolding is_ok_def
    by (auto simp: e is_ok_def intro!: succeeds_bind entries split: sum.splits)
  with each present show ?thesis
    by (auto simp: recover_active_upload_def Let_def intro!: succeeds_bind)
qed

lemma recover_blobs_succeeds:
  assumes "clock_reads srv e" "\<And>p. \<not> rv_fails e p"
  shows "succeeds (recover_unreferenced_blobs srv e) s"
proof -
  have "succeeds (sweep_unknown_blobs e) t" for t
    unfolding sweep_unknown_blobs_def sweep_blob_def sweep_blob_stray_def
    by (auto intro!: succeeds_bind succeeds_each_modify simp: assms(2))
  with assms show ?thesis
    by (auto simp: recover_unreferenced_blobs_def clock_reads_def Let_def is_ok_def intro!: succeeds_bind)
qed

lemma remove_trees_succeed: "(\<And>p. \<not> rv_fails e p) \<Longrightarrow> succeeds (each_op (remove_tree_op e) ns) s"
  unfolding remove_tree_op_def by (rule succeeds_each_modify)

lemma recover_upload_rows:
  "preserves (\<lambda>s. db_upload_artifacts (tables s) = v) (recover_upload srv e x)"
  unfolding recover_upload_def remove_tree_op_def recover_active_upload_def recover_artifact_chunks_def
    recover_chunk_row_def sweep_chunk_def sweep_chunk_stray_def sweep_upload_entry_def Let_def
  by (auto intro!: preserves_intros simp: delete_chunk_row_def recovered_status_def split: prod.splits)

lemma recover_directories_succeeds:
  assumes s: "recoverable srv U f s" and clock: "clock_reads srv e" and e: "\<And>p. \<not> rv_fails e p"
    and index: "\<forall>a \<in> set (db_upload_artifacts (tables s)). ua_artifact_index a \<le> int u32_max"
  shows "succeeds (recover_directories srv e) s"
proof -
  let ?uploads = "map (\<lambda>u. (up_id u, up_status u)) (db_uploads (tables s))"
  let ?I = "\<lambda>t. (recoverable srv U f t \<and> roster t = roster s) \<and> db_upload_artifacts (tables t) = db_upload_artifacts (tables s)"
  have uploads: "succeeds (each_op (recover_upload srv e) ?uploads) t"
    if t: "recoverable srv U f t" "tables t = tables s" for t
  proof (rule succeeds_each [where I = ?I])
    show "?I t" using t by (simp add: roster_def)
    show "preserves ?I (recover_upload srv e x)" for x
      by (intro preserves_conj recover_upload_keeps recover_upload_roster recover_upload_rows)
    fix x v assume x: "x \<in> set ?uploads" and v: "?I v"
    show "succeeds (recover_upload srv e x) v"
    proof (cases "snd x = ''completed''")
      case False
      with x have "open_upload_row (fst x) s" by (auto simp: open_upload_row_def)
      with v have "open_upload_row (fst x) v" using roster_open by metis
      with False v index e show ?thesis
        by (auto simp: recover_upload_def split: prod.splits intro!: recover_active_upload_succeeds)
    qed (cases x, simp add: recover_upload_def remove_tree_op_def e)
  qed
  have unknown: "recoverable srv U f t" "tables t = tables s"
    if "remove_unknown_upload_directories srv e known s = (Inr v, t)" for known v t
  proof -
    have "t = fold remove_tree (filter (\<lambda>name. uuid_parse (ext srv) name \<noteq> None \<and> name \<notin> known) (dk_upload_dirs s)) s"
      using that by (simp add: remove_unknown_upload_directories_def read_op_eq each_remove_tree)
    then show "recoverable srv U f t" "tables t = tables s"
      using s by (simp_all add: recoverable_remove_trees fold_remove_tree)
  qed
  show ?thesis
    unfolding recover_directories_def Let_def succeeds_read
  proof (intro succeeds_bind)
    show "succeeds (remove_unknown_upload_directories srv e known) s" for known
      by (simp add: remove_unknown_upload_directories_def remove_trees_succeed e)
  qed (auto intro!: remove_trees_succeed uploads recover_blobs_succeeds clock simp: e dest: unknown)
qed

lemma recover_uploads_succeeds:
  assumes s: "recoverable srv U f s" and rows: "current_rows (ext srv) (tables s)"
    and clock: "clock_reads srv e" and e: "\<And>p. \<not> rv_fails e p"
  shows "succeeds (recover_uploads srv e) s"
  unfolding recover_uploads_def
proof (intro succeeds_bind)
  show "succeeds (upgrade_tables srv e) s" by (rule upgrade_tables_succeeds [OF s rows e])
  fix v t assume t: "upgrade_tables srv e s = (Inr v, t)"
  from preservesD [OF upgrade_tables_keeps s t]
  show "succeeds (recover_directories srv e) t"
  proof (rule recover_directories_succeeds)
    have "upload_record t = upload_record s"
      using preservesD [OF upgrade_tables_record [of srv U f "upload_record s" e] _ t] s by simp
    then have "db_upload_artifacts (tables t) = db_upload_artifacts (tables s)" by (simp add: upload_record_def)
    then show "\<forall>a \<in> set (db_upload_artifacts (tables t)). ua_artifact_index a \<le> int u32_max"
      using rows by (simp add: current_rows_def)
  qed (use clock e in auto)
qed

end
