(* ===== verification/Recovery_Chunks.thy ===== *)
theory Recovery_Chunks
  imports Recovery_Outcome
begin

text \<open>
  Recovery keeps every accepted chunk whose file checks: unless a file cannot be read, the accepted
  chunks of an open upload after the recovery are those before it whose file has the recorded size
  and digest.
\<close>

definition held :: "externals \<Rightarrow> string \<Rightarrow> chunk_row \<Rightarrow> disk \<Rightarrow> bool" where
  "held x u r s = (r \<in> set (piece_rows u (uc_artifact_index r) s) \<and> chunk_backed x (chunk_file (staged s) u) r)"

lemma preserves_read_at: "(\<And>s. I s \<Longrightarrow> I (snd (f s s))) \<Longrightarrow> preserves I (read_op f)"
  by (simp add: preserves_def read_op_def)

lemma preserves_try_at: "(\<And>v. r = Inr v \<Longrightarrow> I (snd (f v s))) \<Longrightarrow> I s \<Longrightarrow> I (snd (try_op r f s))"
  by (cases r) (simp_all add: pure_op_def)

lemma held_piece: "piece u (uc_artifact_index r) s = piece u (uc_artifact_index r) t \<Longrightarrow> held x u r s = held x u r t"
  by (simp add: held_def piece_def chunk_backed_def)

lemma held_frame:
  "(\<And>v. preserves (\<lambda>s. piece u (uc_artifact_index r) s = v) m) \<Longrightarrow> preserves (held x u r) m"
  unfolding preserves_def using held_piece by metis

lemma held_verifies:
  assumes "held x u r s" "row_plain u i r" "uc_byte_length r \<le> int u64_max"
  shows "is_ok (verify_stored_file x (chunk_file (staged s) u (nat i) (nat (uc_chunk_index r)))
    (nat (uc_byte_length r)) (uc_sha256 r))"
proof -
  from assms obtain bs where "chunk_file (staged s) u (nat i) (nat (uc_chunk_index r)) = Some (Regular bs)"
    "int (length bs) = uc_byte_length r" "sha256_hex x bs = uc_sha256 r"
    by (auto simp: held_def chunk_backed_def row_plain_def)
  moreover have "nat (uc_byte_length r) \<le> u64_max" using assms(3) by simp
  ultimately have "verify_stored_file x (chunk_file (staged s) u (nat i) (nat (uc_chunk_index r)))
      (nat (uc_byte_length r)) (uc_sha256 r) = Inr ()"
    using assms(2) by (auto simp: verify_stored_file_ok row_plain_def)
  then show ?thesis by (simp add: is_ok_def)
qed

text \<open>One row: its own check succeeds, that of another row does not touch it.\<close>

lemma recover_chunk_row_held:
  assumes r: "row_plain u i r" and q: "row_plain u i q" "q = r \<or> uc_chunk_index q \<noteq> uc_chunk_index r"
    and reads: "\<And>k. \<not> rv_fails e (Read_Chunk k)" and fits: "uc_byte_length r \<le> int u64_max"
  shows "preserves (held (ext srv) u r) (recover_chunk_row srv e u (nat i) q)"
proof (cases "q = r")
  case True
  then show ?thesis
    using held_verifies [OF _ r fits] unfolding preserves_def recover_chunk_row_eq [OF q(1)] Let_def
    by (auto simp: reads)
next
  case False
  with q have "nat (uc_chunk_index q) \<noteq> nat (uc_chunk_index r)" "uc_chunk_index q \<noteq> uc_chunk_index r"
    using r by (auto simp: row_plain_def)
  with r q show ?thesis
    by (auto simp: preserves_def recover_chunk_row_eq held_def chunk_backed_def row_plain_def piece_rows_delete Let_def)
qed

lemma recover_artifact_chunks_held:
  assumes reads: "\<And>k. \<not> rv_fails e (Read_Chunk k)" and fits: "uc_byte_length r \<le> int u64_max"
    and s: "recoverable srv U f s" "open_upload_row u s" and held: "held (ext srv) u r s"
    and i: "uc_artifact_index r = ua_artifact_index a"
  shows "held (ext srv) u r (snd (recover_artifact_chunks srv e u a s))"
proof -
  let ?i = "ua_artifact_index a" and ?H = "held (ext srv) u r"
  have plain: "row_plain u ?i q" if "q \<in> set (piece_rows u ?i s)" for q
    using open_rows_plain(1) [OF s that] .
  have r: "r \<in> set (piece_rows u ?i s)" using held i by (simp add: held_def)
  have keys: "q = r \<or> uc_chunk_index q \<noteq> uc_chunk_index r" if "q \<in> set (piece_rows u ?i s)" for q
    using open_rows_distinct(1) [OF s, of ?i] inj_onD [of chunk_key_of "set (piece_rows u ?i s)" q r] that r
    by (auto simp: distinct_map chunk_key_of_def piece_rows_def)
  have rows: "preserves ?H (each_op (recover_chunk_row srv e u (nat ?i)) (chunk_rows (tables s) u ?i))"
    by (intro preserves_intros recover_chunk_row_held) (simp_all add: plain r keys reads fits)
  have sweep: "preserves ?H (sweep_chunk e (u, nat ?i, c))" if "c \<noteq> nat (uc_chunk_index r)" for c
    unfolding sweep_chunk_def using that i
    by (intro preserves_intros) (auto simp: held_def chunk_backed_def)
  have stray: "preserves ?H (sweep_chunk_stray e key)" for key
    unfolding sweep_chunk_stray_def by (intro preserves_intros) (auto simp: held_def piece_rows_def)
  have sweeps: "?H (snd (try_op (ok_or Maintenance_Operation
        (those (map (\<lambda>r. u64_try_from (uc_chunk_index r)) (chunk_rows (tables v) u ?i)))) (\<lambda>accepted.
      bind_op (each_op (sweep_chunk e) (unaccepted_chunks u (nat ?i) (set accepted) v)) (\<lambda>_.
      each_op (sweep_chunk_stray e) (unaccepted_strays u (nat ?i) (set accepted) v))) v))" if v: "?H v" for v
  proof (rule preserves_try_at)
    fix accepted assume "ok_or Maintenance_Operation
      (those (map (\<lambda>r. u64_try_from (uc_chunk_index r)) (chunk_rows (tables v) u ?i))) = Inr accepted"
    then have acc: "map Some accepted = map (\<lambda>r. u64_try_from (uc_chunk_index r)) (chunk_rows (tables v) u ?i)"
      by (simp add: ok_or_eq_Inr those_eq_Some)
    have "u64_try_from (uc_chunk_index r) = Some (nat (uc_chunk_index r))"
      using plain [OF r] by (simp add: row_plain_def u64_try_from_def)
    moreover have "r \<in> set (chunk_rows (tables v) u ?i)" using v i by (simp add: held_def)
    ultimately have "Some (nat (uc_chunk_index r)) \<in> set (map Some accepted)"
      unfolding acc by force
    then have "nat (uc_chunk_index r) \<in> set accepted" by auto
    then have "preserves ?H (bind_op (each_op (sweep_chunk e) (unaccepted_chunks u (nat ?i) (set accepted) v)) (\<lambda>_.
        each_op (sweep_chunk_stray e) (unaccepted_strays u (nat ?i) (set accepted) v)))"
      by (intro preserves_intros stray) (auto simp: unaccepted_chunks_def intro!: sweep)
    from preserves_snd [OF this v] show "?H (snd (bind_op (each_op (sweep_chunk e)
        (unaccepted_chunks u (nat ?i) (set accepted) v)) (\<lambda>_.
      each_op (sweep_chunk_stray e) (unaccepted_strays u (nat ?i) (set accepted) v)) v))" .
  qed (rule v)
  show ?thesis
  proof (cases "u32_try_from ?i")
    case (Some n)
    then have n: "n = nat ?i" by (simp add: u32_try_from_def split: if_splits)
    have "preserves ?H (bind_op (\<lambda>_. each_op (recover_chunk_row srv e u (nat ?i)) (chunk_rows (tables s) u ?i) s) (\<lambda>_. read_op (\<lambda>v. try_op (ok_or Maintenance_Operation
        (those (map (\<lambda>r. u64_try_from (uc_chunk_index r)) (chunk_rows (tables v) u ?i)))) (\<lambda>accepted.
      bind_op (each_op (sweep_chunk e) (unaccepted_chunks u (nat ?i) (set accepted) v)) (\<lambda>_.
      each_op (sweep_chunk_stray e) (unaccepted_strays u (nat ?i) (set accepted) v))))))"
      using preserves_snd [OF rows held] sweeps
      by (intro preserves_bind preserves_read_at) (auto simp: preserves_def)
    from preserves_snd [OF this held] show ?thesis
      by (simp add: recover_artifact_chunks_def Some n bind_op_def read_op_def)
  qed (simp add: recover_artifact_chunks_def held pure_op_def)
qed

text \<open>One upload.\<close>

lemma recover_active_upload_held:
  assumes reads: "\<And>k. \<not> rv_fails e (Read_Chunk k)" and fits: "uc_byte_length r \<le> int u64_max"
  shows "preserves (\<lambda>s. recoverable srv U f s \<and> open_upload_row u s \<and> held (ext srv) u r s) (recover_active_upload srv e u)"
    (is "preserves ?J _")
proof -
  have artifact: "preserves ?J (recover_artifact_chunks srv e u a)" for a
    unfolding preserves_def
  proof (intro allI impI)
    fix s assume s: "?J s"
    let ?t = "snd (recover_artifact_chunks srv e u a s)"
    have "recoverable srv U f ?t" using preserves_snd [OF artifact_chunks_recoverable] s by blast
    moreover have "open_upload_row u ?t"
      using preserves_snd [OF artifact_chunks_tables refl, of _ e u a s] s by (auto simp: open_upload_row_def)
    moreover have "held (ext srv) u r ?t"
    proof (cases "uc_artifact_index r = ua_artifact_index a")
      case True
      with recover_artifact_chunks_held [OF reads fits] s show ?thesis by blast
    next
      case False
      have "0 \<le> uc_artifact_index r"
        using s open_rows_plain(1) [of srv U f s u r "uc_artifact_index r"] by (auto simp: held_def row_plain_def)
      with False have "preserves (held (ext srv) u r) (recover_artifact_chunks srv e u a)"
        by (intro held_frame artifact_chunks_frame) simp
      from preserves_snd [OF this] s show ?thesis by blast
    qed
    ultimately show "?J ?t" by blast
  qed
  have status: "?J (set_tables (recovered_status u complete (tables s)) s)" if "?J s" for complete s
    using that roster_open [OF roster_steps(2) [of u complete s], of u] recovered_status_keeps [of srv U f s u complete]
    by (auto simp: held_def piece_rows_def recovered_status_def)
  have entries: "?J (s\<lparr>dk_upload_entries := es\<rparr>)" if "?J s" for es s
    using that by (simp add: recoverable_disk open_upload_row_def held_def piece_rows_def)
  show ?thesis
    unfolding recover_active_upload_def sweep_upload_entry_def Let_def
    by (intro preserves_intros artifact) (auto intro!: status entries)
qed

text \<open>The whole recovery.\<close>

lemma held_outlook: "outlook u s = outlook u t \<Longrightarrow> held x u r s = held x u r t"
  by (intro held_piece outlook_piece)

lemma recover_upload_held:
  assumes reads: "\<And>k. \<not> rv_fails e (Read_Chunk k)" and fits: "uc_byte_length r \<le> int u64_max"
    and "w = u \<longrightarrow> st \<noteq> ''completed''"
  shows "preserves (\<lambda>s. recoverable srv U f s \<and> open_upload_row u s \<and> held (ext srv) u r s) (recover_upload srv e (w, st))"
proof (cases "w = u")
  case True
  with assms(3) recover_active_upload_held [OF reads fits] show ?thesis by (simp add: recover_upload_def)
next
  case False
  have "preserves (held (ext srv) u r) (recover_upload srv e (w, st))"
    using recover_upload_frame [OF False] held_outlook unfolding preserves_def by metis
  moreover have "preserves (open_upload_row u) (recover_upload srv e (w, st))"
    using recover_upload_roster roster_open unfolding preserves_def by metis
  ultimately show ?thesis by (intro preserves_conj recover_upload_keeps)
qed

lemma recover_directories_held:
  assumes s: "recoverable srv U f s" and current: "current_uploads (tables s)"
    and reads: "\<And>k. \<not> rv_fails e (Read_Chunk k)" and fits: "uc_byte_length r \<le> int u64_max"
    and u: "open_upload_row u s" and held: "held (ext srv) u r s"
    and run: "recover_directories srv e s = (Inr (), t)"
  shows "held (ext srv) u r t"
proof -
  let ?J = "\<lambda>s. recoverable srv U f s \<and> open_upload_row u s \<and> held (ext srv) u r s"
  let ?uploads = "map (\<lambda>u. (up_id u, up_status u)) (db_uploads (tables s))"
  let ?audits = "map au_upload_id (db_upload_audits (tables s))"
  let ?unknown = "filter (\<lambda>name. uuid_parse (ext srv) name \<noteq> None \<and> name \<notin> fst ` set ?uploads \<union> set ?audits)
    (dk_upload_dirs s)"
  from run obtain v w x where v: "each_op (remove_tree_op e) ?unknown s = (Inr (), v)"
    and w: "each_op (recover_upload srv e) ?uploads v = (Inr (), w)"
    and x: "each_op (remove_tree_op e) ?audits w = (Inr (), x)"
    and t: "recover_unreferenced_blobs srv e x = (Inr (), t)"
    by (auto simp: recover_directories_def remove_unknown_upload_directories_def Let_def read_op_eq bind_op_Inr)
  from u obtain q where q: "q \<in> set (db_uploads (tables s))" "up_id q = u" "up_status q \<noteq> ''completed''"
    by (auto simp: open_upload_row_def)
  have "u \<in> fst ` set ?uploads" using q by force
  then have "u \<notin> set ?unknown" by auto
  then have "outlook u v = outlook u s" using v by (simp add: each_remove_tree fold_remove_tree(3))
  moreover have "recoverable srv U f v" "open_upload_row u v"
    using v s u by (simp_all add: each_remove_tree recoverable_remove_trees fold_remove_tree(1) open_upload_row_def)
  ultimately have J: "?J v" using held held_outlook by blast
  have "preserves ?J (each_op (recover_upload srv e) ?uploads)"
  proof (rule preserves_each)
    fix y assume "y \<in> set ?uploads"
    then obtain p where p: "p \<in> set (db_uploads (tables s))" "y = (up_id p, up_status p)" by auto
    have "p = q" if "up_id p = u"
      using distinct_key_eq [OF recoverable_uploads(1) [OF s] p(1) q(1)] that q(2) by simp
    then have "up_id p = u \<longrightarrow> up_status p \<noteq> ''completed''" using q(3) by blast
    with p(2) show "preserves ?J (recover_upload srv e y)" using recover_upload_held [OF reads fits] by simp
  qed
  from preservesD [OF this J w] have "held (ext srv) u r w" by blast
  moreover have "u \<notin> set ?audits" using current q by (auto simp: current_uploads_def)
  from fold_remove_tree(3) [OF this, of w] x have "outlook u x = outlook u w" by (simp add: each_remove_tree)
  ultimately show ?thesis
    using held_outlook recover_unreferenced_blobs_Inr(1) [OF t, of u] by metis
qed

lemma roster_refresh: "roster (set_tables (refresh_orphans a k n (tables s)) s) = roster s"
  by (simp add: roster_def refresh_orphans_def)

lemma recover_directories_roster: "preserves (\<lambda>t. roster t = v) (recover_directories srv e)"
  unfolding recover_directories_def remove_unknown_upload_directories_def remove_tree_op_def
    recover_unreferenced_blobs_def sweep_unknown_blobs_def sweep_blob_def sweep_blob_stray_def Let_def
  by (auto intro!: preserves_intros recover_upload_roster simp: roster_refresh split: prod.splits)

text \<open>No row and no chunk file is added.\<close>

definition shrunk :: "string \<Rightarrow> chunk_row set \<Rightarrow> (nat \<Rightarrow> nat \<Rightarrow> entry option) \<Rightarrow> disk \<Rightarrow> bool" where
  "shrunk u R F s =
     (set (chunks_for (tables s) u) \<subseteq> R \<and> (\<forall>a c v. chunk_file (staged s) u a c = Some v \<longrightarrow> F a c = Some v))"

lemma shrunk_steps:
  "shrunk u R F s \<Longrightarrow> shrunk u R F (remove_tree n s)"
  "shrunk u R F s \<Longrightarrow> shrunk u R F (set_tables (delete_chunk_row q (tables s)) s)"
  "shrunk u R F s \<Longrightarrow> shrunk u R F (set_tables (recovered_status w complete (tables s)) s)"
  "shrunk u R F s \<Longrightarrow> shrunk u R F (set_tables (refresh_orphans o' k n' (tables s)) s)"
  "shrunk u R F s \<Longrightarrow> shrunk u R F (set_staged (unlink_chunk_file w a c (staged s)) s)"
  "shrunk u R F s \<Longrightarrow> shrunk u R F (set_staged (unlink_blob_file digest (staged s)) s)"
  "shrunk u R F s \<Longrightarrow> shrunk u R F (s\<lparr>dk_upload_entries := es\<rparr>)" "shrunk u R F s \<Longrightarrow> shrunk u R F (s\<lparr>dk_chunk_strays := cs\<rparr>)"
  "shrunk u R F s \<Longrightarrow> shrunk u R F (s\<lparr>dk_blob_strays := bs\<rparr>)"
  by (auto simp: shrunk_def remove_tree_def chunks_for_def delete_chunk_row_def delete_where_def recovered_status_def
      refresh_orphans_def split: if_splits)

lemma recover_directories_shrinks: "preserves (shrunk u R F) (recover_directories srv e)"
  unfolding recover_directories_def remove_unknown_upload_directories_def remove_tree_op_def recover_upload_def
    recover_active_upload_def recover_artifact_chunks_def recover_chunk_row_def sweep_chunk_def
    sweep_chunk_stray_def sweep_upload_entry_def recover_unreferenced_blobs_def sweep_unknown_blobs_def
    sweep_blob_def sweep_blob_stray_def Let_def
  by (auto intro!: preserves_intros shrunk_steps split: prod.splits)

lemma recover_uploads_chunks:
  assumes s: "recoverable srv U f s" and current: "current_uploads (tables s)"
    and reads: "\<And>k. \<not> rv_fails e (Read_Chunk k)"
    and fits: "\<And>r. r \<in> set (db_upload_chunks (tables s)) \<Longrightarrow> uc_byte_length r \<le> int u64_max"
    and u: "open_upload_row u s" and run: "recover_uploads srv e s = (Inr (), t)"
  shows "set (chunks_for (tables t) u) = {r \<in> set (chunks_for (tables s) u). chunk_backed (ext srv) (chunk_file (staged s) u) r}"
proof -
  from run obtain v where v: "upgrade_tables srv e s = (Inr (), v)" "recover_directories srv e v = (Inr (), t)"
    by (auto simp: recover_uploads_def bind_op_Inr)
  have "recoverable srv U f v \<and> upload_record v = upload_record s"
    using preservesD [OF upgrade_tables_record [of srv U f "upload_record s" e] _ v(1)] s by simp
  then have v_ok: "recoverable srv U f v" and same_record: "upload_record v = upload_record s" by simp_all
  have same: "chunks_for (tables v) u = chunks_for (tables s) u" "staged v = staged s"
    "db_uploads (tables v) = db_uploads (tables s)"
    using same_record by (simp_all add: upload_record_def chunks_for_def)
  have current_v: "current_uploads (tables v)"
    using current same_record recoverableD(6) [OF v_ok] by (auto simp: current_uploads_def upload_record_def)
  have open_v: "open_upload_row u v" using u by (simp add: open_upload_row_def same)
  have piece: "r \<in> set (piece_rows u (uc_artifact_index r) w) \<longleftrightarrow> r \<in> set (chunks_for (tables w) u)" for r w
    by (auto simp: piece_rows_def chunks_for_def)
  have "set (chunks_for (tables t) u) \<subseteq> set (chunks_for (tables s) u)"
    and files: "\<And>a c w. chunk_file (staged t) u a c = Some w \<Longrightarrow> chunk_file (staged s) u a c = Some w"
    using preservesD [OF recover_directories_shrinks [of u "set (chunks_for (tables v) u)" "chunk_file (staged v) u"] _ v(2)]
    by (auto simp: same shrunk_def)
  moreover have "chunk_backed (ext srv) (chunk_file (staged s) u) r" if r: "r \<in> set (chunks_for (tables t) u)" for r
  proof -
    have "upload_inv srv (dk_archive t)" using recover_uploads_outcome(1) [OF s current run] by (simp add: sound_def)
    moreover have "open_upload_row u t" using open_v roster_open [OF preservesD [OF recover_directories_roster refl v(2)]] by simp
    ultimately have "chunk_backed (ext srv) (chunk_file (staged t) u) r"
      using r upload_invD(5) by (fastforce simp: open_upload_row_def upload_detail_ok_def upload_ok_def)
    with files show ?thesis by (auto simp: chunk_backed_def)
  qed
  moreover have "r \<in> set (chunks_for (tables t) u)"
    if r: "r \<in> set (chunks_for (tables s) u)" "chunk_backed (ext srv) (chunk_file (staged s) u) r" for r
  proof -
    have "held (ext srv) u r v" using r by (simp add: held_def piece same)
    moreover have "uc_byte_length r \<le> int u64_max" using r fits by (simp add: chunks_for_def)
    ultimately have "held (ext srv) u r t"
      using recover_directories_held [OF v_ok current_v reads _ open_v _ v(2)] by blast
    then show ?thesis by (simp add: held_def piece)
  qed
  ultimately show ?thesis by blast
qed

end
