(* ===== verification/Recovery_Properties.thy ===== *)
theory Recovery_Properties
  imports Lifecycle Recovery_Chunks Sample_Flow
begin

text \<open>
  What the archive promises across crashes and restarts. The run of \<open>Sample_Flow\<close> is stopped when
  its two chunks are accepted: the second file is lost, and a temporary file, a file of a chunk
  that was never accepted, a directory of an unknown upload and a blob file without a row are left
  behind.
\<close>

definition flow_disk :: "archive \<Rightarrow> disk" where
  "flow_disk a = empty_disk\<lparr>dk_archive := a, dk_upload_dirs := [''1-upload'']\<rparr>"

definition flow_down :: disk where
  "flow_down =
     \<lparr>dk_archive = flow_uploaded\<lparr>fs :=
        \<lparr>chunk_files = [((''1-upload'', 0, 0), Regular [7, 8]), ((''1-upload'', 0, 7), Regular [1]),
           ((''2-upload'', 0, 0), Regular [5])],
         blob_files = [(''unknown'', Regular [4])]\<rparr>\<rparr>,
      dk_upload_dirs = [''1-upload'', ''2-upload''],
      dk_upload_entries = [((''1-upload'', ''.assembled-x''), Regular [7])],
      dk_chunk_strays = [((''1-upload'', 0, ''part''), Regular [7])], dk_blob_strays = []\<rparr>"

definition flow_recovery :: recovery_env where
  "flow_recovery =
     \<lparr>rv_upgraded_at = sample_time 1767312000, rv_orphaned_at = sample_time 1767312000,
      rv_capture_env = (\<lambda>_. day_2), rv_fails = (\<lambda>_. False)\<rparr>"

definition flow_up :: disk where
  "flow_up = snd (recover_uploads flow_server flow_recovery flow_down)"

lemma serving_reachable:
  "archive_reachable srv U a \<Longrightarrow> \<exists>s. dk_archive s = a \<and> service_reachable srv U (Serving s)"
proof (induction rule: reachable.induct)
  case initial
  show ?case by (rule exI [of _ empty_disk]) (simp add: empty_disk_def reachable.initial)
next
  case (next_state a b)
  then obtain s where s: "dk_archive s = a" "service_reachable srv U (Serving s)" by blast
  from next_state(2) obtain e r where e: "assembled_in U srv e a" "b = run_request srv e r a" by (rule archive_stepE)
  have "service_step srv U (Serving s) (Serving (s\<lparr>dk_archive := b\<rparr>))"
    by (rule service_step.serve [of _ _ e _ _ r]) (use s e in simp_all)
  from reachable.next_state [OF s(2) this] show ?case
    by (intro exI [of _ "s\<lparr>dk_archive := b\<rparr>"]) simp
qed

lemma flow_down_reachable: "service_reachable flow_server UNIV (Down flow_down)"
proof -
  obtain s where s: "dk_archive s = flow_uploaded" "service_reachable flow_server UNIV (Serving s)"
    using serving_reachable [OF flow_reachable(1)] by blast
  have "blob_files (fs flow_uploaded) = []" by code_simp
  with s(1) have "damaged UNIV s flow_down"
    by (simp add: damaged_def flow_down_def tables_def staged_def files_in_def blob_file_def del: disk_simps)
  with s(2) show ?thesis by (blast intro: reachable.next_state service_step.stop)
qed

lemma flow_current: "current_uploads (tables flow_down)" "current_rows (ext flow_server) (tables flow_down)"
    "clock_reads flow_server flow_recovery"
  by code_simp+

definition recovery_summary ::
  "(maintenance_error + unit) \<times> disk \<Rightarrow> (maintenance_error + unit) \<times> (string \<times> int) list \<times> (string \<times> string) list
     \<times> chunk_key list \<times> string list \<times> string list" where
  "recovery_summary = (\<lambda>(r, s).
     (r, map (\<lambda>c. (uc_upload_id c, uc_chunk_index c)) (db_upload_chunks (tables s)),
      map (\<lambda>u. (up_id u, up_status u)) (db_uploads (tables s)), map fst (chunk_files (staged s)),
      map fst (blob_files (staged s)), dk_upload_dirs s))"

lemma flow_recovered:
  "recovery_summary (recover_uploads flow_server flow_recovery flow_down)
   = (Inr (), [(''1-upload'', 0)], [(''1-upload'', ''created'')], [(''1-upload'', 0, 0)], [], [''1-upload''])"
  by code_simp

lemma flow_up_run: "recover_uploads flow_server flow_recovery flow_down = (Inr (), flow_up)"
proof -
  have "fst (recover_uploads flow_server flow_recovery flow_down) = Inr ()"
    using flow_recovered by (simp add: recovery_summary_def split: prod.splits)
  then show ?thesis by (cases "recover_uploads flow_server flow_recovery flow_down") (simp add: flow_up_def)
qed

lemma flow_up_rows: "map up_id (db_uploads (tables flow_up)) = [''1-upload'']"
  "map up_status (db_uploads (tables flow_up)) = [''created'']"
  "map uc_chunk_index (db_upload_chunks (tables flow_up)) = [0]"
  using flow_recovered unfolding flow_up_run by (auto simp: recovery_summary_def)

lemma flow_up_reachable: "service_reachable flow_server UNIV (Serving flow_up)"
  using reachable.next_state [OF flow_down_reachable service_step.restart [OF flow_current(1) flow_up_run]] .

text \<open>C28: Crashes and restarts do not break the archive. The service may be stopped between any two
  commits, may lose or find anything below its upload directories, and may fail to recover any number
  of times; whenever it serves, every artifact of the archive is readable and belongs to a live
  snapshot, every accepted chunk of an open upload has its file, a session has the context of its
  newest live snapshot, and the invariants of the tables and files hold as if nothing had happened.\<close>

theorem restarts_keep_archive:
  assumes "trusted srv U" "service_reachable srv U (Serving s)"
  shows "(\<forall>a \<in> set (db_artifacts (tables s)).
        ar_snapshot_id a \<in> live_ids (tables s) \<and> readable (ext srv) (tables s) (staged s) a)
    \<and> (\<forall>u \<in> set (db_uploads (tables s)). up_status u \<noteq> ''completed'' \<longrightarrow>
        (\<forall>r \<in> set (chunks_for (tables s) (up_id u)). chunk_backed (ext srv) (chunk_file (staged s) (up_id u)) r))
    \<and> contexts_latest (live_of (tables s)) (db_latest_contexts (tables s))
    \<and> sound srv U (dk_archive s)"
proof -
  have sound: "sound srv U (dk_archive s)" using service_always [OF assms] by simp
  then have inv: "blob_inv srv (dk_archive s)" "upload_inv srv (dk_archive s)" "history_inv srv (dk_archive s)"
    by (simp_all add: sound_def archive_inv_def)
  have "chunk_backed (ext srv) (chunk_file (staged s) (up_id u)) r"
    if "u \<in> set (db_uploads (tables s))" "up_status u \<noteq> ''completed''" "r \<in> set (chunks_for (tables s) (up_id u))" for u r
    using upload_invD(5) [OF inv(2)] that by (auto simp: upload_detail_ok_def upload_ok_def)
  with sound blob_invD(6,7) [OF inv(1)] inv(3) show ?thesis by (auto simp: history_inv_def)
qed

theorem restarts_keep_archive_witness:
  "\<exists>r. set (db_upload_chunks (tables flow_up)) = {r} \<and> chunk_backed flow_externals (chunk_file (staged flow_up) ''1-upload'') r"
proof -
  obtain u where u: "u \<in> set (db_uploads (tables flow_up))" "up_id u = ''1-upload''" "up_status u = ''created''"
    using flow_up_rows(1,2) by auto
  obtain r where r: "db_upload_chunks (tables flow_up) = [r]" using flow_up_rows(3) by auto
  have up: "uc_upload_id r = ''1-upload''"
    using flow_recovered r unfolding flow_up_run by (simp add: recovery_summary_def)
  have "\<forall>u \<in> set (db_uploads (tables flow_up)). up_status u \<noteq> ''completed'' \<longrightarrow>
      (\<forall>r \<in> set (chunks_for (tables flow_up) (up_id u)). chunk_backed (ext flow_server) (chunk_file (staged flow_up) (up_id u)) r)"
    using restarts_keep_archive [OF flow_trusted flow_up_reachable] by blast
  with u r up have "chunk_backed (ext flow_server) (chunk_file (staged flow_up) ''1-upload'') r"
    by (auto simp: chunks_for_def)
  then show ?thesis using r by (auto simp: flow_server_def)
qed

text \<open>C29: What a recovery does to the directories and marks is exact. When it ends well and no chunk
  file was unreadable, the accepted chunks of an open upload are those whose file has the recorded
  size and digest; the status of the upload says whether they complete it; below the directories of
  uploads only files of accepted chunks of open uploads are left; every blob file has a row; and the
  blobs marked as orphans are those no live snapshot refers to.\<close>

theorem recovery_exact:
  assumes "trusted srv U" "service_reachable srv U (Down s)" "current_uploads (tables s)" "disk_wf s"
    and "\<And>k. \<not> rv_fails e (Read_Chunk k)"
    and "\<And>r. r \<in> set (db_upload_chunks (tables s)) \<Longrightarrow> uc_byte_length r \<le> int u64_max"
    and "recover_uploads srv e s = (Inr (), t)"
  shows "(\<forall>u. open_upload_row u s \<longrightarrow> set (chunks_for (tables t) u)
        = {r \<in> set (chunks_for (tables s) u). chunk_backed (ext srv) (chunk_file (staged s) u) r})
    \<and> (\<forall>u \<in> set (db_uploads (tables t)). up_status u \<noteq> ''completed'' \<longrightarrow>
        upload_is_complete (up_id u) (tables t) = Inr (up_status u = ''artifact_uploaded'')
        \<and> (\<forall>a \<in> set (artifacts_for (tables t) (up_id u)). \<forall>c.
            chunk_file (staged t) (up_id u) (nat (ua_artifact_index a)) c \<noteq> None \<longrightarrow>
            (\<exists>r \<in> set (chunks_for (tables t) (up_id u)). uc_artifact_index r = ua_artifact_index a \<and> uc_chunk_index r = int c)))
    \<and> (\<forall>n a c. uuid_parse (ext srv) n \<noteq> None \<longrightarrow> chunk_file (staged t) n a c \<noteq> None \<longrightarrow> open_upload_row n t)
    \<and> (\<forall>digest. blob_file (staged t) digest \<noteq> None \<longrightarrow> digest \<in> known_digests t)
    \<and> (\<forall>b \<in> set (db_blobs (tables t)). bl_eligible_after_seq b = None \<longleftrightarrow> has_live_reference (tables t) (bl_id b))"
proof -
  obtain f where s: "recoverable srv U f s"
    using restartable_recoverable service_always [OF assms(1,2)] assms(3) by fastforce
  note reconciled = recover_uploads_outcome(2) [OF s assms(3,7)]
  have wf: "disk_wf t" by (rule recover_uploads_disk_wf [OF s assms(4,7)])
  have uploads: "upload_recovered (ext srv) (up_id u) t" if "u \<in> set (db_uploads (tables t))" "up_status u \<noteq> ''completed''" for u
    using reconciled that by (simp add: reconciled_def)
  have complete: "upload_is_complete (up_id u) (tables t) = Inr (up_status u = ''artifact_uploaded'')"
    if "u \<in> set (db_uploads (tables t))" "up_status u \<noteq> ''completed''" for u
    using uploads [OF that] that(1) by (simp add: upload_recovered_def)
  have files: "\<exists>r \<in> set (chunks_for (tables t) (up_id u)). uc_artifact_index r = ua_artifact_index a \<and> uc_chunk_index r = int c"
    if "u \<in> set (db_uploads (tables t))" "up_status u \<noteq> ''completed''" "a \<in> set (artifacts_for (tables t) (up_id u))"
      "chunk_file (staged t) (up_id u) (nat (ua_artifact_index a)) c \<noteq> None" for u a c
  proof -
    have "piece_ok (ext srv) (up_id u) (ua_artifact_index a) t"
      using uploads [OF that(1,2)] that(3) by (simp add: upload_recovered_def)
    with that(4) have "int c \<in> uc_chunk_index ` set (piece_rows (up_id u) (ua_artifact_index a) t)"
      unfolding piece_ok_def by blast
    then show ?thesis by (auto simp: piece_rows_def chunks_for_def)
  qed
  have dirs: "open_upload_row n t" if "uuid_parse (ext srv) n \<noteq> None" "chunk_file (staged t) n a c \<noteq> None" for n a c
  proof -
    have "n \<in> set (dk_upload_dirs t)" using wf that(2) unfolding disk_wf_def by blast
    moreover have "\<forall>n \<in> set (dk_upload_dirs t). uuid_parse (ext srv) n \<noteq> None \<longrightarrow> open_upload_row n t"
      using reconciled unfolding reconciled_def by (elim conjE)
    ultimately show ?thesis using that(1) by blast
  qed
  show ?thesis
  proof (intro conjI)
    show "\<forall>u. open_upload_row u s \<longrightarrow> set (chunks_for (tables t) u)
        = {r \<in> set (chunks_for (tables s) u). chunk_backed (ext srv) (chunk_file (staged s) u) r}"
      by (intro allI impI, rule recover_uploads_chunks [OF s assms(3) _ _ _ assms(7)]) (simp_all add: assms(5,6))
    show "\<forall>n a c. uuid_parse (ext srv) n \<noteq> None \<longrightarrow> chunk_file (staged t) n a c \<noteq> None \<longrightarrow> open_upload_row n t"
      using dirs by blast
    show "\<forall>digest. blob_file (staged t) digest \<noteq> None \<longrightarrow> digest \<in> known_digests t"
      using reconciled unfolding reconciled_def by (elim conjE)
    show "\<forall>b \<in> set (db_blobs (tables t)). bl_eligible_after_seq b = None \<longleftrightarrow> has_live_reference (tables t) (bl_id b)"
      using reconciled unfolding reconciled_def by (elim conjE)
  qed (use complete files in blast)
qed

theorem recovery_exact_witness:
  "length (db_upload_chunks (tables flow_down)) = 2 \<and> length (db_upload_chunks (tables flow_up)) = 1
   \<and> set (chunks_for (tables flow_up) ''1-upload'')
     = {r \<in> set (chunks_for (tables flow_down) ''1-upload''). chunk_backed flow_externals (chunk_file (staged flow_down) ''1-upload'') r}"
proof -
  have two: "length (db_upload_chunks (tables flow_down)) = 2" by code_simp
  have one: "length (db_upload_chunks (tables flow_up)) = 1"
    using arg_cong [OF flow_up_rows(3), of length] by simp
  have fits: "\<forall>r \<in> set (db_upload_chunks (tables flow_down)). uc_byte_length r \<le> int u64_max" by code_simp
  have wf: "disk_wf flow_down" by (auto simp: disk_wf_def flow_down_def staged_def chunk_file_def simp del: disk_simps split: if_splits)
  have open_row: "list_ex (\<lambda>u. up_id u = ''1-upload'' \<and> up_status u \<noteq> ''completed'') (db_uploads (tables flow_down))"
    by code_simp
  have "\<forall>u. open_upload_row u flow_down \<longrightarrow> set (chunks_for (tables flow_up) u)
      = {r \<in> set (chunks_for (tables flow_down) u). chunk_backed (ext flow_server) (chunk_file (staged flow_down) u) r}"
    using recovery_exact [OF flow_trusted flow_down_reachable flow_current(1) wf _ _ flow_up_run] fits
    by (simp add: flow_recovery_def)
  moreover have "open_upload_row ''1-upload'' flow_down"
    using open_row by (auto simp: open_upload_row_def list_ex_iff)
  ultimately show ?thesis using one two by (simp add: flow_server_def)
qed

text \<open>C30: Recovery does not get stuck. From every state the service can be stopped in, a recovery in
  which no file system step and no commit fails ends well and puts the service back, provided the
  tables hold no rows that wait for an upgrade and the clock can be written; so a failed recovery
  can be repeated until it succeeds.\<close>

theorem recovery_succeeds:
  assumes "trusted srv U" "service_reachable srv U (Down s)" "current_uploads (tables s)"
    and "current_rows (ext srv) (tables s)" "clock_reads srv e" "\<And>p. \<not> rv_fails e p"
  shows "\<exists>t. recover_uploads srv e s = (Inr (), t) \<and> service_reachable srv U (Serving t)"
proof -
  obtain f where s: "recoverable srv U f s"
    using restartable_recoverable service_always [OF assms(1,2)] assms(3) by fastforce
  from recover_uploads_succeeds [OF s assms(4,5,6)] obtain t where t: "recover_uploads srv e s = (Inr (), t)"
    by (auto simp: succeeds_def)
  with reachable.next_state [OF assms(2) service_step.restart [OF assms(3) t]] show ?thesis by blast
qed

theorem recovery_succeeds_witness:
  "\<exists>t. recover_uploads flow_server flow_recovery flow_down = (Inr (), t)
     \<and> service_reachable flow_server UNIV (Serving t)"
  by (rule recovery_succeeds [OF flow_trusted flow_down_reachable flow_current]) (simp add: flow_recovery_def)

end
