(* ===== verification/Integrity.thy ===== *)
theory Integrity
  imports Reconciliation Recovery
begin

text \<open>
  The integrity scan of \<open>integrity.rs\<close>. A scan reads the archive a page at a time and holds no
  transaction, so requests may run between two of its reads: what a read sees is a parameter, a
  view of the archive for every read, and so is what the file system and SQLite report. The state
  of the scan is its recorder and the two tables it writes. A loop over pages ends when a page is
  empty; it gets fuel, and \<open>Scan_Unfinished\<close> is the result of a loop that is still running.
\<close>

section \<open>Errors, tables and reports\<close>

datatype integrity_scan_error =
    Scan_Maintenance | Scan_Clock | Scan_Metadata | Scan_Storage | Scan_Worker | Scan_Persistence

datatype scan_stop = Scan_Failed integrity_scan_error | Scan_Unfinished

record integrity_run_row =
  ir_id :: string
  ir_owner_namespace :: string
  ir_started_at :: string
  ir_started_at_seq :: int
  ir_completed_at :: "string option"
  ir_completed_at_seq :: "int option"
  ir_status :: string
  ir_finding_count :: int
  ir_info_count :: int
  ir_warning_count :: int
  ir_error_count :: int

record integrity_finding_row =
  if_id :: string
  if_run_id :: string
  if_owner_namespace :: string
  if_kind :: string
  if_severity :: string
  if_snapshot_id :: "string option"
  if_artifact_id :: "string option"
  if_blob_id :: "string option"
  if_detected_at :: string
  if_detected_at_seq :: int
  if_detail_code :: string

record integrity_tables =
  it_runs :: "integrity_run_row list"
  it_findings :: "integrity_finding_row list"

record integrity_finding_summary =
  ifs_finding_id :: string
  ifs_run_id :: string
  ifs_kind :: integrity_finding_kind
  ifs_severity :: integrity_severity
  ifs_snapshot_id :: "string option"
  ifs_artifact_id :: "string option"
  ifs_blob_id :: "string option"
  ifs_detected_at :: string
  ifs_detail_code :: string

record integrity_run_summary =
  irs_run_id :: string
  irs_owner_namespace :: string
  irs_status :: integrity_run_status
  irs_started_at :: string
  irs_completed_at :: "string option"
  irs_counts :: integrity_finding_counts

record integrity_report =
  rp_run_id :: string
  rp_owner_namespace :: string
  rp_status :: integrity_run_status
  rp_started_at :: string
  rp_completed_at :: string
  rp_counts :: integrity_finding_counts
  rp_findings :: "integrity_finding_summary list"
  rp_findings_truncated :: bool

definition PAGE_SIZE :: nat where "PAGE_SIZE = 64"
definition REPORT_FINDING_LIMIT :: nat where "REPORT_FINDING_LIMIT = 256"
definition HISTORY_LIMIT :: nat where "HISTORY_LIMIT = 256"

section \<open>What a scan reads\<close>

text \<open>A check of a blob file belongs to a blob row or to an artifact, which reads the file twice.\<close>

datatype file_check_key = Blob_Check string | Artifact_Check string | Original_Check string

datatype scan_read =
    Page_Dangling string | Page_Tombstoned string | Page_Snapshots string | Page_Blobs string
  | Load_Manifest string | Reconcile_Rows string | Artifact_Rows string
  | Artifact_Before string | Artifact_After string
  | Blob_Liveness string | Blob_Before string | Blob_After string
  | Stat_File file_check_key | Open_File file_check_key | Restat_File file_check_key
  | Blob_Owner string | Stat_Entry string

datatype scan_point =
    Run_Quick_Check | Run_Foreign_Key_Check | Read_Tables scan_read | Insert_Run | Insert_Finding nat | Update_Run
  | Lstat file_check_key | Open_Blob_File file_check_key | Fstat file_check_key
  | Fstat_After file_check_key | Lstat_After file_check_key | Zstd_Init file_check_key
  | Join_Task file_check_key | Join_Manifest string
  | Blob_Root_Metadata | Read_Directory string | Next_Entry string string | Directory_End string
  | Lstat_Entry string

datatype clock_use = At_Begin | At_Finding nat | At_Blobs | At_End

text \<open>The tree below \<open>blobs/\<close> as the directory reads deliver it: names with whether they are
  directories.\<close>

record blob_tree =
  bt_root_is_dir :: bool
  bt_root :: "(string \<times> bool) list"
  bt_shards :: "(string \<times> bool) list"
  bt_shard :: "string \<Rightarrow> (string \<times> bool) list"

text \<open>\<open>iv_read_error\<close> is the number of bytes after which reading a file fails, \<open>iv_rewritten\<close> what the
  reader gets of a file whose stamp (length, device, inode, times) is another one at the second look,
  and \<open>iv_decoded\<close> what the decoder delivers of a stream it cannot decode. A file that is opened
  through a symbolic link fails to open.\<close>

record scan_env =
  iv_view :: "scan_read \<Rightarrow> archive"
  iv_fails :: "scan_point \<Rightarrow> bool"
  iv_clock :: "clock_use \<Rightarrow> offset_date_time"
  iv_new_id :: "nat option \<Rightarrow> string"
  iv_quick_check :: string
  iv_foreign_key_failure :: bool
  iv_tree :: blob_tree
  iv_read_error :: "file_check_key \<Rightarrow> nat option"
  iv_rewritten :: "file_check_key \<Rightarrow> bytes option"
  iv_decoded :: "bytes \<Rightarrow> bytes"
  iv_max_request_body_bytes :: nat
  iv_buffer_bytes :: nat
  iv_fuel :: nat

definition scan_query :: "scan_env \<Rightarrow> scan_read \<Rightarrow> (archive \<Rightarrow> 'a) \<Rightarrow> scan_stop + 'a" where
  "scan_query e r f =
     (if iv_fails e (Read_Tables r) then Inl (Scan_Failed Scan_Metadata) else Inr (f (iv_view e r)))"

section \<open>The recorder\<close>

record scan_state =
  sc_tables :: integrity_tables
  sc_run_id :: string
  sc_owner_namespace :: string
  sc_started_at :: string
  sc_counts :: integrity_finding_counts
  sc_report :: "integrity_finding_summary list"

type_synonym 'a scan = "(scan_state, scan_stop, 'a) fallible_op"

definition persistence :: "'a option \<Rightarrow> scan_stop + 'a" where
  "persistence v = ok_or (Scan_Failed Scan_Persistence) v"

text \<open>A clock reading as text and as sort key. The \<open>expect\<close> on a key out of range is reported as the
  error of the clock.\<close>

definition scan_time :: "server \<Rightarrow> scan_env \<Rightarrow> clock_use \<Rightarrow> scan_stop + string \<times> int" where
  "scan_time srv e c =
     and_then (ok_or (Scan_Failed Scan_Clock) (format_time (ext srv) (iv_clock e c))) (\<lambda>text.
     and_then (ok_or (Scan_Failed Scan_Clock) (sort_key_from_timestamp (iv_clock e c))) (\<lambda>seq.
     Inr (text, seq)))"

definition no_findings :: integrity_finding_counts where
  "no_findings = \<lparr>fc_total = 0, fc_info = 0, fc_warning = 0, fc_error = 0, fc_by_kind = []\<rparr>"

definition begin_scan :: "server \<Rightarrow> scan_env \<Rightarrow> integrity_tables \<Rightarrow> scan_stop + scan_state" where
  "begin_scan srv e saved =
     and_then (scan_time srv e At_Begin) (\<lambda>(started_at, seq).
     let run_id = iv_new_id e None; namespace = ident_owner_namespace (srv_identity srv) in
     and_then (reject_if (iv_fails e Insert_Run \<or> list_ex (\<lambda>r. ir_id r = run_id) (it_runs saved))
       (Scan_Failed Scan_Persistence)) (\<lambda>_.
     Inr \<lparr>sc_tables = saved\<lparr>it_runs := it_runs saved @
            [\<lparr>ir_id = run_id, ir_owner_namespace = namespace, ir_started_at = started_at,
              ir_started_at_seq = seq, ir_completed_at = None, ir_completed_at_seq = None,
              ir_status = run_status_as_str Running, ir_finding_count = 0, ir_info_count = 0,
              ir_warning_count = 0, ir_error_count = 0\<rparr>]\<rparr>,
          sc_run_id = run_id, sc_owner_namespace = namespace, sc_started_at = started_at,
          sc_counts = no_findings, sc_report = []\<rparr>))"

text \<open>A \<open>BTreeMap\<close> of counts in key order.\<close>

fun count_kind :: "string \<Rightarrow> (string \<times> nat) list \<Rightarrow> (string \<times> nat) list option" where
  "count_kind k [] = Some [(k, 1)]"
| "count_kind k ((k', n) # rest) =
     (if k = k' then map_option (\<lambda>m. (k, m) # rest) (checked_add n 1)
      else if k < k' then Some ((k, 1) # (k', n) # rest)
      else map_option (Cons (k', n)) (count_kind k rest))"

definition count_severity :: "integrity_severity \<Rightarrow> integrity_finding_counts \<Rightarrow> integrity_finding_counts option" where
  "count_severity severity counts = (case severity of
       Info \<Rightarrow> map_option (\<lambda>n. counts\<lparr>fc_info := n\<rparr>) (checked_add (fc_info counts) 1)
     | Warning \<Rightarrow> map_option (\<lambda>n. counts\<lparr>fc_warning := n\<rparr>) (checked_add (fc_warning counts) 1)
     | Error \<Rightarrow> map_option (\<lambda>n. counts\<lparr>fc_error := n\<rparr>) (checked_add (fc_error counts) 1))"

definition count_finding ::
  "integrity_finding_kind \<Rightarrow> integrity_severity \<Rightarrow> integrity_finding_counts \<Rightarrow> integrity_finding_counts option" where
  "count_finding kind severity counts =
     Option.bind (checked_add (fc_total counts) 1) (\<lambda>n.
     Option.bind (count_severity severity (counts\<lparr>fc_total := n\<rparr>)) (\<lambda>counts.
     map_option (\<lambda>ks. counts\<lparr>fc_by_kind := ks\<rparr>) (count_kind (finding_kind_as_str kind) (fc_by_kind counts))))"

definition record_finding ::
  "server \<Rightarrow> scan_env \<Rightarrow> integrity_finding_kind \<Rightarrow> integrity_severity \<Rightarrow> string option \<Rightarrow> string option
     \<Rightarrow> string option \<Rightarrow> string \<Rightarrow> unit scan" where
  "record_finding srv e kind severity snapshot_id artifact_id blob_id detail_code =
     read_op (\<lambda>s. let n = fc_total (sc_counts s); finding_id = iv_new_id e (Some n) in
       try_op (scan_time srv e (At_Finding n)) (\<lambda>(detected_at, seq).
       try_op (reject_if (iv_fails e (Insert_Finding n)
           \<or> list_ex (\<lambda>r. if_id r = finding_id) (it_findings (sc_tables s))) (Scan_Failed Scan_Persistence)) (\<lambda>_.
       bind_op (modify_op (\<lambda>s. s\<lparr>sc_tables := (sc_tables s)\<lparr>it_findings := it_findings (sc_tables s) @
           [\<lparr>if_id = finding_id, if_run_id = sc_run_id s, if_owner_namespace = sc_owner_namespace s,
             if_kind = finding_kind_as_str kind, if_severity = severity_as_str severity,
             if_snapshot_id = snapshot_id, if_artifact_id = artifact_id, if_blob_id = blob_id,
             if_detected_at = detected_at, if_detected_at_seq = seq, if_detail_code = detail_code\<rparr>]\<rparr>\<rparr>)) (\<lambda>_.
       try_op (persistence (count_finding kind severity (sc_counts s))) (\<lambda>counts.
       modify_op (\<lambda>s. s\<lparr>sc_counts := counts,
         sc_report := (if length (sc_report s) < REPORT_FINDING_LIMIT
           then sc_report s @
             [\<lparr>ifs_finding_id = finding_id, ifs_run_id = sc_run_id s, ifs_kind = kind, ifs_severity = severity,
               ifs_snapshot_id = snapshot_id, ifs_artifact_id = artifact_id, ifs_blob_id = blob_id,
               ifs_detected_at = detected_at, ifs_detail_code = detail_code\<rparr>]
           else sc_report s)\<rparr>))))))"

definition final_status :: "integrity_finding_counts \<Rightarrow> integrity_run_status" where
  "final_status counts = (if fc_warning counts \<noteq> 0 \<or> fc_error counts \<noteq> 0 then ActionRequired else Healthy)"

text \<open>\<open>complete\<close> and \<open>fail\<close> close the row of the run; they find it running exactly once.\<close>

definition close_run ::
  "string \<Rightarrow> string \<Rightarrow> int \<Rightarrow> string \<Rightarrow> int \<Rightarrow> int \<Rightarrow> int \<Rightarrow> int \<Rightarrow> integrity_run_row \<Rightarrow> integrity_run_row" where
  "close_run run_id completed_at seq status findings infos warnings errors r =
     (if ir_id r = run_id \<and> ir_status r = run_status_as_str Running
      then r\<lparr>ir_completed_at := Some completed_at, ir_completed_at_seq := Some seq, ir_status := status,
             ir_finding_count := findings, ir_info_count := infos, ir_warning_count := warnings,
             ir_error_count := errors\<rparr>
      else r)"

definition finish_run :: "server \<Rightarrow> scan_env \<Rightarrow> string \<Rightarrow> string scan" where
  "finish_run srv e status =
     read_op (\<lambda>s. let counts = sc_counts s in
       try_op (scan_time srv e At_End) (\<lambda>(completed_at, seq).
       try_op (persistence (i64_try_from (fc_total counts))) (\<lambda>findings.
       try_op (persistence (i64_try_from (fc_info counts))) (\<lambda>infos.
       try_op (persistence (i64_try_from (fc_warning counts))) (\<lambda>warnings.
       try_op (persistence (i64_try_from (fc_error counts))) (\<lambda>errors.
       try_op (reject_if (iv_fails e Update_Run) (Scan_Failed Scan_Persistence)) (\<lambda>_.
       let running = filter (\<lambda>r. ir_id r = sc_run_id s \<and> ir_status r = run_status_as_str Running)
         (it_runs (sc_tables s)) in
       bind_op (modify_op (\<lambda>s. s\<lparr>sc_tables := (sc_tables s)\<lparr>it_runs := map
           (close_run (sc_run_id s) completed_at seq status findings infos warnings errors)
           (it_runs (sc_tables s))\<rparr>\<rparr>)) (\<lambda>_.
       try_op (reject_if (length running \<noteq> 1) (Scan_Failed Scan_Persistence)) (\<lambda>_.
       pure_op (Inr completed_at))))))))))"

definition complete_scan :: "server \<Rightarrow> scan_env \<Rightarrow> integrity_report scan" where
  "complete_scan srv e =
     read_op (\<lambda>s. let status = final_status (sc_counts s) in
       bind_op (finish_run srv e (run_status_as_str status)) (\<lambda>completed_at.
       pure_op (Inr \<lparr>rp_run_id = sc_run_id s, rp_owner_namespace = sc_owner_namespace s, rp_status = status,
         rp_started_at = sc_started_at s, rp_completed_at = completed_at, rp_counts = sc_counts s,
         rp_findings = sc_report s, rp_findings_truncated = (length (sc_report s) < fc_total (sc_counts s))\<rparr>)))"

definition fail_scan :: "server \<Rightarrow> scan_env \<Rightarrow> unit scan" where
  "fail_scan srv e = bind_op (finish_run srv e (run_status_as_str Failed)) (\<lambda>_. pure_op (Inr ()))"

text \<open>Pages: rows with an identifier above the last one seen.\<close>

fun scan_pages ::
  "nat \<Rightarrow> (string \<Rightarrow> scan_stop + 'r list) \<Rightarrow> ('r \<Rightarrow> string) \<Rightarrow> ('r list \<Rightarrow> unit scan) \<Rightarrow> string \<Rightarrow> unit scan" where
  "scan_pages 0 page id_of body seen = pure_op (Inl Scan_Unfinished)"
| "scan_pages (Suc fuel) page id_of body seen =
     try_op (page seen) (\<lambda>rows.
     if rows = [] then pure_op (Inr ())
     else bind_op (body rows) (\<lambda>_. scan_pages fuel page id_of body (id_of (last rows))))"

definition page_after :: "('r \<Rightarrow> string) \<Rightarrow> string \<Rightarrow> 'r list \<Rightarrow> 'r list" where
  "page_after id_of seen rows = take PAGE_SIZE (sort_key id_of (filter (\<lambda>r. id_of r > seen) rows))"

section \<open>The database\<close>

definition scan_database_integrity :: "server \<Rightarrow> scan_env \<Rightarrow> unit scan" where
  "scan_database_integrity srv e =
     bind_op (try_op (reject_if (iv_fails e Run_Quick_Check) (Scan_Failed Scan_Metadata)) (\<lambda>_.
       if iv_quick_check e \<noteq> ''ok''
       then record_finding srv e DatabaseIntegrityFailure Error None None None ''sqlite_quick_check_failed''
       else pure_op (Inr ()))) (\<lambda>_.
     try_op (reject_if (iv_fails e Run_Foreign_Key_Check) (Scan_Failed Scan_Metadata)) (\<lambda>_.
     if iv_foreign_key_failure e
     then record_finding srv e DatabaseIntegrityFailure Error None None None ''sqlite_foreign_key_check_failed''
     else pure_op (Inr ())))"

text \<open>Live artifacts whose blob row is missing, and artifacts of deleted snapshots.\<close>

definition dangling_artifacts :: "database \<Rightarrow> artifact_row list" where
  "dangling_artifacts d =
     filter (\<lambda>a. list_ex (\<lambda>s. sn_id s = ar_snapshot_id a \<and> sn_deleted_at s = None) (db_snapshots d)
       \<and> \<not> list_ex (\<lambda>b. bl_id b = ar_blob_id a) (db_blobs d)) (db_artifacts d)"

definition tombstoned_artifacts :: "database \<Rightarrow> artifact_row list" where
  "tombstoned_artifacts d =
     filter (\<lambda>a. list_ex (\<lambda>s. sn_id s = ar_snapshot_id a \<and> sn_deleted_at s \<noteq> None) (db_snapshots d)) (db_artifacts d)"

definition scan_dangling_artifact_references :: "server \<Rightarrow> scan_env \<Rightarrow> unit scan" where
  "scan_dangling_artifact_references srv e =
     scan_pages (iv_fuel e)
       (\<lambda>seen. scan_query e (Page_Dangling seen) (\<lambda>a. page_after ar_id seen (dangling_artifacts (db a)))) ar_id
       (each_op (\<lambda>a. record_finding srv e ArtifactBlobReferenceMissing Error (Some (ar_snapshot_id a))
          (Some (ar_id a)) (Some (ar_blob_id a)) ''artifact_references_missing_blob_row'')) []"

definition scan_tombstoned_artifact_references :: "server \<Rightarrow> scan_env \<Rightarrow> unit scan" where
  "scan_tombstoned_artifact_references srv e =
     scan_pages (iv_fuel e)
       (\<lambda>seen. scan_query e (Page_Tombstoned seen) (\<lambda>a. page_after ar_id seen (tombstoned_artifacts (db a)))) ar_id
       (each_op (\<lambda>a. record_finding srv e SnapshotProjectionDrift Error (Some (ar_snapshot_id a))
          (Some (ar_id a)) (Some (ar_blob_id a)) ''tombstoned_snapshot_has_artifact_reference'')) []"


section \<open>Snapshots\<close>

definition left_join :: "('r \<Rightarrow> bool) \<Rightarrow> 'r list \<Rightarrow> 'r option list" where
  "left_join p table = (case filter p table of [] \<Rightarrow> [None] | rows \<Rightarrow> map Some rows)"

record snapshot_scan_row =
  ss_id :: string
  ss_deleted_at :: "string option"
  ss_manifest_row_id :: "string option"
  ss_manifest_size_bytes :: "int option"
  ss_tombstone_id :: "string option"

definition snapshot_scan_rows :: "database \<Rightarrow> snapshot_scan_row list" where
  "snapshot_scan_rows d =
     [\<lparr>ss_id = sn_id s, ss_deleted_at = sn_deleted_at s, ss_manifest_row_id = map_option mf_id m,
       ss_manifest_size_bytes = map_option (\<lambda>m. int (length (mf_canonical_json m))) m,
       ss_tombstone_id = map_option ts_id t\<rparr>.
      s \<leftarrow> db_snapshots d,
      m \<leftarrow> left_join (\<lambda>m. mf_id m = sn_manifest_id s) (db_manifests d),
      t \<leftarrow> left_join (\<lambda>t. ts_snapshot_id t = sn_id s) (db_tombstones d)]"

definition manifest_document :: "int \<Rightarrow> string \<Rightarrow> database \<Rightarrow> manifest_row option" where
  "manifest_document limit snapshot_id d =
     (case [m. s \<leftarrow> db_snapshots d, sn_id s = snapshot_id,
               m \<leftarrow> db_manifests d, mf_id m = sn_manifest_id s,
               int (length (mf_canonical_json m)) \<le> limit] of
        [] \<Rightarrow> None | m # _ \<Rightarrow> Some m)"

definition load_manifest_document ::
  "scan_env \<Rightarrow> string \<Rightarrow> nat \<Rightarrow> scan_stop + manifest_row option" where
  "load_manifest_document e snapshot_id max_manifest_bytes =
     and_then (ok_or (Scan_Failed Scan_Metadata) (i64_try_from max_manifest_bytes)) (\<lambda>limit.
     scan_query e (Load_Manifest snapshot_id) (\<lambda>a. manifest_document limit snapshot_id (db a)))"

record manifest_analysis =
  ma_computed_hash :: string
  ma_manifest :: "manifest option"
  ma_invalid_detail_code :: string

text \<open>The conversion of a manifest to a \<open>ManifestInput\<close> through a JSON value keeps every field.\<close>

definition validate_manifest_schema :: "externals \<Rightarrow> manifest_limits \<Rightarrow> manifest \<Rightarrow> manifest option" where
  "validate_manifest_schema x limits m =
     (case normalize_manifest x (input_of_manifest m) limits of Inl _ \<Rightarrow> None | Inr n \<Rightarrow> Some n)"

definition analyze_manifest :: "externals \<Rightarrow> manifest_limits \<Rightarrow> string \<Rightarrow> manifest_analysis" where
  "analyze_manifest x limits json =
     (let parsed = manifest_from_json x json;
          m = Option.bind parsed (validate_manifest_schema x limits)
      in \<lparr>ma_computed_hash = sha256_hex x (string_bytes json), ma_manifest = m,
          ma_invalid_detail_code =
            (if m \<noteq> None then ''canonical_manifest_valid''
             else if parsed = None then ''canonical_manifest_unparseable''
             else ''canonical_manifest_schema_invalid'')\<rparr>)"

section \<open>The artifacts of a snapshot\<close>

record artifact_job =
  aj_snapshot_id :: string
  aj_artifact_id :: string
  aj_blob_id :: string
  aj_stored_sha256 :: string
  aj_stored_size_bytes :: nat
  aj_original_sha256 :: string
  aj_original_size_bytes :: nat
  aj_compression :: compression

definition document_digest :: "string \<Rightarrow> string option" where
  "document_digest v = Option.bind (strip_prefix ''sha256:'' v) storage_digest"

text \<open>\<open>artifacts a LEFT JOIN blobs b WHERE a.snapshot_id = ? ORDER BY a.artifact_index, a.id\<close>.\<close>

definition artifact_projection :: "string \<Rightarrow> database \<Rightarrow> (artifact_row \<times> blob_row option) list" where
  "artifact_projection snapshot_id d =
     sort_key (\<lambda>(a, _). (ar_artifact_index a, ar_id a))
       [(a, b). a \<leftarrow> db_artifacts d, ar_snapshot_id a = snapshot_id,
                b \<leftarrow> left_join (\<lambda>b. bl_id b = ar_blob_id a) (db_blobs d)]"

text \<open>One round of the loop of \<open>artifact_jobs\<close>: nothing, a finding, or a job.\<close>

datatype artifact_plan =
    Skip_Artifact | Report_Artifact integrity_finding_kind string string string | Check_Artifact artifact_job

definition plan_artifact ::
  "server \<Rightarrow> string \<Rightarrow> (artifact_row \<times> blob_row option) list \<Rightarrow> nat \<times> artifact \<Rightarrow> scan_stop + artifact_plan" where
  "plan_artifact srv snapshot_id rows = (\<lambda>(index, a).
     and_then (ok_or (Scan_Failed Scan_Metadata) (i64_try_from index)) (\<lambda>expected_index. Inr
     (case find (\<lambda>(row, _). ar_artifact_index row = expected_index) rows of
       None \<Rightarrow> Skip_Artifact
     | Some (row, None) \<Rightarrow> Skip_Artifact
     | Some (row, Some b) \<Rightarrow>
         case document_digest (stored_sha256 a) of
           None \<Rightarrow> Report_Artifact ManifestUnparseable (ar_id row) (ar_blob_id row)
               ''canonical_manifest_stored_digest_invalid''
         | Some stored_hash \<Rightarrow>
         case document_digest (original_sha256 a) of
           None \<Rightarrow> Report_Artifact ManifestUnparseable (ar_id row) (ar_blob_id row)
               ''canonical_manifest_original_digest_invalid''
         | Some original_hash \<Rightarrow>
         if stored_size_bytes a > lim_artifact_stored_bytes (srv_limits srv)
            \<or> original_size_bytes a > lim_artifact_original_bytes (srv_limits srv)
         then Report_Artifact ArtifactOriginalMismatch (ar_id row) (ar_blob_id row)
               ''artifact_declared_size_exceeds_scan_limit''
         else if Some (bl_stored_size_bytes b) \<noteq> i64_try_from (stored_size_bytes a)
            \<or> bl_stored_sha256 b \<noteq> stored_hash
            \<or> bl_compression b \<noteq> compression_name (compression a)
         then Skip_Artifact
         else Check_Artifact
           \<lparr>aj_snapshot_id = snapshot_id, aj_artifact_id = ar_id row, aj_blob_id = ar_blob_id row,
            aj_stored_sha256 = stored_hash, aj_stored_size_bytes = stored_size_bytes a,
            aj_original_sha256 = original_hash, aj_original_size_bytes = original_size_bytes a,
            aj_compression = compression a\<rparr>)))"

definition artifact_job_of ::
  "server \<Rightarrow> scan_env \<Rightarrow> string \<Rightarrow> (artifact_row \<times> blob_row option) list \<Rightarrow> nat \<times> artifact
     \<Rightarrow> artifact_job option scan" where
  "artifact_job_of srv e snapshot_id rows ia =
     try_op (plan_artifact srv snapshot_id rows ia) (\<lambda>plan. case plan of
       Skip_Artifact \<Rightarrow> pure_op (Inr None)
     | Report_Artifact kind artifact_id blob_id code \<Rightarrow>
         bind_op (record_finding srv e kind Error (Some snapshot_id) (Some artifact_id) (Some blob_id) code)
           (\<lambda>_. pure_op (Inr None))
     | Check_Artifact job \<Rightarrow> pure_op (Inr (Some job)))"

fun collect_op :: "('x \<Rightarrow> ('s, 'e, 'y option) fallible_op) \<Rightarrow> 'x list \<Rightarrow> ('s, 'e, 'y list) fallible_op" where
  "collect_op f [] = pure_op (Inr [])"
| "collect_op f (x # xs) = bind_op (f x) (\<lambda>y. bind_op (collect_op f xs) (\<lambda>ys.
     pure_op (Inr (case y of None \<Rightarrow> ys | Some v \<Rightarrow> v # ys))))"

definition artifact_jobs ::
  "server \<Rightarrow> scan_env \<Rightarrow> string \<Rightarrow> manifest \<Rightarrow> artifact_job list scan" where
  "artifact_jobs srv e snapshot_id m =
     try_op (scan_query e (Artifact_Rows snapshot_id) (\<lambda>a. artifact_projection snapshot_id (db a))) (\<lambda>rows.
     collect_op (artifact_job_of srv e snapshot_id rows) (enumerate 0 (artifacts m)))"

section \<open>Files\<close>

datatype hash_read_error = Too_Large | Hash_Io

text \<open>The reads of a content through a buffer; a buffer of no bytes reads nothing.\<close>

function pages_of :: "nat \<Rightarrow> 'x list \<Rightarrow> 'x list list" where
  "pages_of n xs = (if n = 0 \<or> xs = [] then [] else take n xs # pages_of n (drop n xs))"
  by pat_completeness auto
termination
  by (relation "measure (length \<circ> snd)") auto

declare pages_of.simps [simp del]

fun hash_loop :: "nat \<Rightarrow> nat \<times> bytes \<Rightarrow> bytes list \<Rightarrow> hash_read_error + nat \<times> bytes" where
  "hash_loop maximum_size (seen, hashed) [] = Inr (seen, hashed)"
| "hash_loop maximum_size (seen, hashed) (b # bs) =
     and_then (ok_or Too_Large (checked_add seen (length b))) (\<lambda>sofar.
     and_then (reject_if (sofar > maximum_size) Too_Large) (\<lambda>_.
     hash_loop maximum_size (sofar, hashed @ b) bs))"

text \<open>A content and whether it is read to its end without an error.\<close>

definition hash_content ::
  "externals \<Rightarrow> bytes \<times> bool \<Rightarrow> nat \<Rightarrow> nat \<Rightarrow> hash_read_error + nat \<times> string" where
  "hash_content x delivered maximum_size buffer_size =
     and_then (hash_loop maximum_size (0, []) (pages_of buffer_size (fst delivered))) (\<lambda>(seen, hashed).
     and_then (reject_if (\<not> snd delivered) Hash_Io) (\<lambda>_.
     Inr (seen, sha256_hex x hashed)))"

definition delivered_bytes :: "scan_env \<Rightarrow> file_check_key \<Rightarrow> bytes \<Rightarrow> bytes \<times> bool" where
  "delivered_bytes e k bs =
     (let content = (case iv_rewritten e k of None \<Rightarrow> bs | Some other \<Rightarrow> other)
      in case iv_read_error e k of None \<Rightarrow> (content, True) | Some n \<Rightarrow> (take n content, False))"

datatype stored_file_check =
    Stored_Healthy | Stored_Missing | Stored_Non_Regular | Stored_Size_Mismatch
  | Stored_Hash_Mismatch | Stored_Unreadable | Stored_Transient

definition scan_stored_file ::
  "externals \<Rightarrow> scan_env \<Rightarrow> file_check_key \<Rightarrow> string \<Rightarrow> nat \<Rightarrow> stored_file_check" where
  "scan_stored_file x e k stored_hash expected_size =
     (if iv_fails e (Lstat k) then Stored_Unreadable
      else case blob_file (fs (iv_view e (Stat_File k))) stored_hash of
        None \<Rightarrow> Stored_Missing
      | Some Non_Regular \<Rightarrow> Stored_Non_Regular
      | Some (Regular _) \<Rightarrow>
      if iv_fails e (Open_Blob_File k) then Stored_Unreadable
      else case blob_file (fs (iv_view e (Open_File k))) stored_hash of
        None \<Rightarrow> Stored_Missing
      | Some Non_Regular \<Rightarrow> if iv_fails e (Fstat k) then Stored_Unreadable else Stored_Non_Regular
      | Some (Regular bs) \<Rightarrow>
      if iv_fails e (Fstat k) then Stored_Unreadable
      else if length bs \<noteq> expected_size then Stored_Size_Mismatch
      else case hash_content x (delivered_bytes e k bs) expected_size (iv_buffer_bytes e) of
        Inl Too_Large \<Rightarrow> Stored_Size_Mismatch
      | Inl Hash_Io \<Rightarrow> Stored_Unreadable
      | Inr (seen, digest) \<Rightarrow>
      if iv_fails e (Fstat_After k) then Stored_Unreadable
      else if iv_rewritten e k \<noteq> None then Stored_Transient
      else if seen \<noteq> expected_size then Stored_Size_Mismatch
      else if digest \<noteq> stored_hash then Stored_Hash_Mismatch
      else Stored_Healthy)"

datatype original_file_check =
    Original_Healthy | Original_Stored_Invalid | Original_Mismatch string | Original_Transient

definition original_delivered ::
  "externals \<Rightarrow> scan_env \<Rightarrow> compression \<Rightarrow> bytes \<times> bool \<Rightarrow> bytes \<times> bool" where
  "original_delivered x e compr delivered = (case compr of
       Identity \<Rightarrow> delivered
     | Zstd \<Rightarrow> (case (if snd delivered then zstd_decode x (fst delivered) else None) of
           None \<Rightarrow> (iv_decoded e (fst delivered), False)
         | Some original \<Rightarrow> (original, True)))"

text \<open>The second look at the metadata is one at the path.\<close>

definition scan_artifact_original_file ::
  "externals \<Rightarrow> scan_env \<Rightarrow> artifact_job \<Rightarrow> original_file_check" where
  "scan_artifact_original_file x e job =
     (let k = Original_Check (aj_artifact_id job); digest = aj_stored_sha256 job in
      if scan_stored_file x e (Artifact_Check (aj_artifact_id job)) digest (aj_stored_size_bytes job)
           \<noteq> Stored_Healthy
      then Original_Stored_Invalid
      else if iv_fails e (Open_Blob_File k) \<or> iv_fails e (Fstat k) then Original_Stored_Invalid
      else case blob_file (fs (iv_view e (Open_File k))) digest of
        None \<Rightarrow> Original_Stored_Invalid
      | Some Non_Regular \<Rightarrow> Original_Stored_Invalid
      | Some (Regular bs) \<Rightarrow>
      if aj_compression job = Zstd \<and> iv_fails e (Zstd_Init k) then Original_Mismatch ''zstd_decode_failed''
      else case hash_content x (original_delivered x e (aj_compression job) (delivered_bytes e k bs))
             (aj_original_size_bytes job) (iv_buffer_bytes e) of
        Inl Too_Large \<Rightarrow> Original_Mismatch ''original_size_mismatch''
      | Inl Hash_Io \<Rightarrow> Original_Mismatch (case aj_compression job of
            Identity \<Rightarrow> ''original_content_unreadable'' | Zstd \<Rightarrow> ''zstd_decode_failed'')
      | Inr (seen, original) \<Rightarrow>
      if iv_fails e (Lstat_After k) \<or> iv_rewritten e k \<noteq> None
         \<or> (case blob_file (fs (iv_view e (Restat_File k))) digest of
              Some (Regular _) \<Rightarrow> False | _ \<Rightarrow> True)
      then Original_Transient
      else if seen \<noteq> aj_original_size_bytes job then Original_Mismatch ''original_size_mismatch''
      else if original \<noteq> aj_original_sha256 job then Original_Mismatch ''original_sha256_mismatch''
      else Original_Healthy)"

section \<open>Artifact checks\<close>

datatype artifact_scan_result =
    Artifact_Healthy | Artifact_Stored_Invalid
  | Artifact_Original_Mismatch string string string string
  | Artifact_Transient string string string

definition artifact_current :: "artifact_job \<Rightarrow> database \<Rightarrow> bool" where
  "artifact_current job d =
     list_ex (\<lambda>a. ar_id a = aj_artifact_id job \<and> ar_snapshot_id a = aj_snapshot_id job
       \<and> ar_blob_id a = aj_blob_id job
       \<and> list_ex (\<lambda>s. sn_id s = ar_snapshot_id a \<and> sn_deleted_at s = None) (db_snapshots d)
       \<and> list_ex (\<lambda>b. bl_id b = ar_blob_id a \<and> bl_stored_sha256 b = aj_stored_sha256 job
           \<and> bl_stored_size_bytes b = int (aj_stored_size_bytes job)) (db_blobs d)) (db_artifacts d)"

definition artifact_is_current :: "scan_env \<Rightarrow> scan_read \<Rightarrow> artifact_job \<Rightarrow> scan_stop + bool" where
  "artifact_is_current e r job =
     and_then (ok_or (Scan_Failed Scan_Metadata) (i64_try_from (aj_stored_size_bytes job))) (\<lambda>_.
     scan_query e r (\<lambda>a. artifact_current job (db a)))"

text \<open>The job holds the lock of its digest; whether that keeps the blob still is up to the views.\<close>

definition scan_artifact_job ::
  "server \<Rightarrow> scan_env \<Rightarrow> artifact_job \<Rightarrow> scan_stop + artifact_scan_result" where
  "scan_artifact_job srv e job =
     (let transient = Artifact_Transient (aj_snapshot_id job) (aj_artifact_id job) (aj_blob_id job) in
      and_then (artifact_is_current e (Artifact_Before (aj_artifact_id job)) job) (\<lambda>before.
      if \<not> before then Inr transient
      else and_then (reject_if (iv_fails e (Join_Task (Original_Check (aj_artifact_id job))))
          (Scan_Failed Scan_Worker)) (\<lambda>_.
      let result = scan_artifact_original_file (ext srv) e job in
      and_then (artifact_is_current e (Artifact_After (aj_artifact_id job)) job) (\<lambda>after.
      if \<not> after then Inr transient
      else Inr (case result of
          Original_Healthy \<Rightarrow> Artifact_Healthy
        | Original_Stored_Invalid \<Rightarrow> Artifact_Stored_Invalid
        | Original_Mismatch code \<Rightarrow>
            Artifact_Original_Mismatch (aj_snapshot_id job) (aj_artifact_id job) (aj_blob_id job) code
        | Original_Transient \<Rightarrow> transient)))))"

fun record_artifact_result :: "server \<Rightarrow> scan_env \<Rightarrow> artifact_scan_result \<Rightarrow> unit scan" where
  "record_artifact_result srv e Artifact_Healthy = pure_op (Inr ())"
| "record_artifact_result srv e Artifact_Stored_Invalid = pure_op (Inr ())"
| "record_artifact_result srv e (Artifact_Original_Mismatch snapshot_id artifact_id blob_id code) =
     record_finding srv e ArtifactOriginalMismatch Error (Some snapshot_id) (Some artifact_id) (Some blob_id) code"
| "record_artifact_result srv e (Artifact_Transient snapshot_id artifact_id blob_id) =
     record_finding srv e TransientChange Info (Some snapshot_id) (Some artifact_id) (Some blob_id)
       ''artifact_changed_during_scan''"

text \<open>The jobs run as tasks that only read; their results are awaited and recorded in the order of the
  jobs, and the first failure ends the loop.\<close>

definition scan_artifact_jobs :: "server \<Rightarrow> scan_env \<Rightarrow> artifact_job list \<Rightarrow> unit scan" where
  "scan_artifact_jobs srv e jobs =
     each_op (\<lambda>job. try_op (reject_if (iv_fails e (Join_Task (Artifact_Check (aj_artifact_id job))))
         (Scan_Failed Scan_Worker)) (\<lambda>_.
       try_op (scan_artifact_job srv e job) (record_artifact_result srv e))) jobs"

definition scan_snapshot :: "server \<Rightarrow> scan_env \<Rightarrow> snapshot_scan_row \<Rightarrow> unit scan" where
  "scan_snapshot srv e row =
     (let tombstoned = ss_deleted_at row \<noteq> None;
          finding = (\<lambda>kind severity code.
            record_finding srv e kind severity (Some (ss_id row)) None None code) in
      bind_op (if tombstoned
        then (if ss_tombstone_id row \<noteq> None then finding TombstonedSnapshot Info ''snapshot_tombstoned''
              else finding TombstonedSnapshot Error ''tombstone_record_missing'')
        else pure_op (Inr ())) (\<lambda>_.
      if ss_manifest_row_id row = None
      then finding ManifestMissing Error ''snapshot_manifest_row_missing''
      else case ss_manifest_size_bytes row of
        None \<Rightarrow> finding ManifestMissing Error ''snapshot_manifest_metadata_missing''
      | Some size_bytes \<Rightarrow>
      try_op (ok_or (Scan_Failed Scan_Metadata) (u64_try_from size_bytes)) (\<lambda>manifest_size.
      if manifest_size > iv_max_request_body_bytes e
      then finding ManifestUnparseable Error ''canonical_manifest_exceeds_scan_limit''
      else try_op (load_manifest_document e (ss_id row) (iv_max_request_body_bytes e)) (\<lambda>loaded.
      case loaded of
        None \<Rightarrow> finding TransientChange Info ''snapshot_changed_during_scan''
      | Some document \<Rightarrow>
      try_op (reject_if (iv_fails e (Join_Manifest (ss_id row))) (Scan_Failed Scan_Worker)) (\<lambda>_.
      let analysis = analyze_manifest (ext srv) (srv_limits srv) (mf_canonical_json document) in
      bind_op (if ma_computed_hash analysis \<noteq> mf_sha256 document
        then finding ManifestHashMismatch Error ''canonical_manifest_hash_mismatch''
        else pure_op (Inr ())) (\<lambda>_.
      case ma_manifest analysis of
        None \<Rightarrow> finding ManifestUnparseable Error (ma_invalid_detail_code analysis)
      | Some m \<Rightarrow>
      if tombstoned then pure_op (Inr ())
      else try_op (scan_query e (Reconcile_Rows (ss_id row))
          (\<lambda>a. reconcile_snapshot (ext srv) (ss_id row) (db a))) (\<lambda>reconciled.
      let check_artifacts = bind_op (artifact_jobs srv e (ss_id row) m) (scan_artifact_jobs srv e) in
      case reconciled of
        Inr _ \<Rightarrow> check_artifacts
      | Inl Reconcile_Drift \<Rightarrow>
          bind_op (finding SnapshotProjectionDrift Error ''normalized_snapshot_projection_mismatch'')
            (\<lambda>_. check_artifacts)
      | Inl Reconcile_Not_Found \<Rightarrow> finding TransientChange Info ''snapshot_changed_during_scan''
      | Inl Reconcile_Metadata \<Rightarrow> pure_op (Inl (Scan_Failed Scan_Metadata)))))))))"

definition scan_snapshots :: "server \<Rightarrow> scan_env \<Rightarrow> unit scan" where
  "scan_snapshots srv e =
     scan_pages (iv_fuel e)
       (\<lambda>seen. scan_query e (Page_Snapshots seen) (\<lambda>a. page_after ss_id seen (snapshot_scan_rows (db a)))) ss_id
       (each_op (scan_snapshot srv e)) []"

section \<open>Blob rows\<close>

record blob_scan_row =
  bs_id :: string
  bs_stored_sha256 :: string
  bs_stored_size_bytes :: int
  bs_compression :: string
  bs_orphaned_at :: "string option"
  bs_eligible_after :: "string option"
  bs_eligible_after_seq :: "int option"
  bs_has_live_reference :: bool

definition live_reference_exists :: "database \<Rightarrow> string \<Rightarrow> bool" where
  "live_reference_exists d blob_id =
     list_ex (\<lambda>a. ar_blob_id a = blob_id
       \<and> list_ex (\<lambda>s. sn_id s = ar_snapshot_id a \<and> sn_deleted_at s = None) (db_snapshots d)) (db_artifacts d)"

definition blob_scan_rows :: "database \<Rightarrow> blob_scan_row list" where
  "blob_scan_rows d =
     map (\<lambda>b. \<lparr>bs_id = bl_id b, bs_stored_sha256 = bl_stored_sha256 b,
       bs_stored_size_bytes = bl_stored_size_bytes b, bs_compression = bl_compression b,
       bs_orphaned_at = bl_orphaned_at b, bs_eligible_after = bl_eligible_after b,
       bs_eligible_after_seq = bl_eligible_after_seq b,
       bs_has_live_reference = live_reference_exists d (bl_id b)\<rparr>) (db_blobs d)"

definition current_blob_row :: "scan_env \<Rightarrow> string \<Rightarrow> scan_stop + blob_scan_row option" where
  "current_blob_row e blob_id =
     scan_query e (Blob_Liveness blob_id) (\<lambda>a. find (\<lambda>r. bs_id r = blob_id) (blob_scan_rows (db a)))"

definition blob_liveness ::
  "blob_scan_row \<Rightarrow> int \<Rightarrow> (integrity_finding_kind \<times> integrity_severity \<times> string) option" where
  "blob_liveness row now_seq =
     (let has_candidate = bs_orphaned_at row \<noteq> None \<or> bs_eligible_after row \<noteq> None
            \<or> bs_eligible_after_seq row \<noteq> None in
      if bs_has_live_reference row
      then (if has_candidate
            then Some (BlobStaleCandidate, Warning, ''candidate_has_live_artifact_reference'')
            else None)
      else Some (case (bs_orphaned_at row, bs_eligible_after row, bs_eligible_after_seq row) of
        (Some _, Some _, Some eligible_after_seq) \<Rightarrow>
          if eligible_after_seq > now_seq
          then (BlobGraceCandidate, Info, ''orphan_within_gc_grace'')
          else (BlobGcEligibleCandidate, Warning, ''orphan_gc_eligible'')
      | (None, None, None) \<Rightarrow> (BlobOrphan, Error, ''blob_has_no_live_artifact_reference'')
      | _ \<Rightarrow> (BlobOrphan, Error, ''orphan_candidate_metadata_inconsistent'')))"

definition record_blob_liveness :: "server \<Rightarrow> scan_env \<Rightarrow> blob_scan_row \<Rightarrow> int \<Rightarrow> unit scan" where
  "record_blob_liveness srv e row now_seq =
     (case blob_liveness row now_seq of
        None \<Rightarrow> pure_op (Inr ())
      | Some (kind, severity, code) \<Rightarrow> record_finding srv e kind severity None None (Some (bs_id row)) code)"

definition classify_blob_liveness :: "server \<Rightarrow> scan_env \<Rightarrow> blob_scan_row \<Rightarrow> int \<Rightarrow> unit scan" where
  "classify_blob_liveness srv e row now_seq =
     (if storage_digest (bs_stored_sha256 row) \<noteq> None
      then try_op (current_blob_row e (bs_id row)) (\<lambda>current. case current of
          None \<Rightarrow> record_finding srv e TransientChange Info None None (Some (bs_id row)) ''blob_changed_during_scan''
        | Some now_row \<Rightarrow> record_blob_liveness srv e now_row now_seq)
      else record_blob_liveness srv e row now_seq)"

record blob_job =
  bj_blob_id :: string
  bj_stored_sha256 :: string
  bj_stored_size_bytes :: nat

definition valid_blob_size :: "server \<Rightarrow> blob_scan_row \<Rightarrow> nat option" where
  "valid_blob_size srv row =
     Option.bind (u64_try_from (bs_stored_size_bytes row)) (\<lambda>n.
       if n \<le> lim_artifact_stored_bytes (srv_limits srv)
          \<and> storage_digest (bs_stored_sha256 row) \<noteq> None
          \<and> List.member [''identity'', ''zstd''] (bs_compression row)
       then Some n else None)"

definition blob_job_of :: "server \<Rightarrow> scan_env \<Rightarrow> int \<Rightarrow> blob_scan_row \<Rightarrow> blob_job option scan" where
  "blob_job_of srv e now_seq row =
     bind_op (classify_blob_liveness srv e row now_seq) (\<lambda>_. case valid_blob_size srv row of
       None \<Rightarrow> bind_op (record_finding srv e BlobMetadataInvalid Error None None (Some (bs_id row))
           ''blob_row_metadata_invalid'') (\<lambda>_. pure_op (Inr None))
     | Some n \<Rightarrow> pure_op (Inr (Some \<lparr>bj_blob_id = bs_id row, bj_stored_sha256 = bs_stored_sha256 row,
         bj_stored_size_bytes = n\<rparr>)))"

datatype blob_scan_result =
    Blob_Healthy | Blob_Finding string integrity_finding_kind string | Blob_Transient string

definition blob_current :: "blob_job \<Rightarrow> database \<Rightarrow> bool" where
  "blob_current job d =
     list_ex (\<lambda>b. bl_id b = bj_blob_id job \<and> bl_stored_sha256 b = bj_stored_sha256 job
       \<and> bl_stored_size_bytes b = int (bj_stored_size_bytes job)) (db_blobs d)"

definition blob_is_current :: "scan_env \<Rightarrow> scan_read \<Rightarrow> blob_job \<Rightarrow> scan_stop + bool" where
  "blob_is_current e r job =
     and_then (ok_or (Scan_Failed Scan_Metadata) (i64_try_from (bj_stored_size_bytes job))) (\<lambda>_.
     scan_query e r (\<lambda>a. blob_current job (db a)))"

fun blob_result_of :: "string \<Rightarrow> stored_file_check \<Rightarrow> blob_scan_result" where
  "blob_result_of i Stored_Healthy = Blob_Healthy"
| "blob_result_of i Stored_Missing = Blob_Finding i BlobFileMissing ''canonical_blob_file_missing''"
| "blob_result_of i Stored_Non_Regular = Blob_Finding i BlobFileNonRegular ''canonical_blob_file_not_regular''"
| "blob_result_of i Stored_Size_Mismatch = Blob_Finding i BlobFileSizeMismatch ''canonical_blob_file_size_mismatch''"
| "blob_result_of i Stored_Hash_Mismatch = Blob_Finding i BlobFileHashMismatch ''canonical_blob_file_hash_mismatch''"
| "blob_result_of i Stored_Unreadable = Blob_Finding i BlobFileMissing ''canonical_blob_file_unreadable''"
| "blob_result_of i Stored_Transient = Blob_Transient i"

definition scan_blob_job :: "server \<Rightarrow> scan_env \<Rightarrow> blob_job \<Rightarrow> scan_stop + blob_scan_result" where
  "scan_blob_job srv e job =
     and_then (blob_is_current e (Blob_Before (bj_blob_id job)) job) (\<lambda>before.
     if \<not> before then Inr (Blob_Transient (bj_blob_id job))
     else and_then (reject_if (iv_fails e (Join_Task (Blob_Check (bj_blob_id job))))
         (Scan_Failed Scan_Worker)) (\<lambda>_.
     let result = scan_stored_file (ext srv) e (Blob_Check (bj_blob_id job)) (bj_stored_sha256 job)
           (bj_stored_size_bytes job) in
     and_then (blob_is_current e (Blob_After (bj_blob_id job)) job) (\<lambda>after.
     if \<not> after then Inr (Blob_Transient (bj_blob_id job))
     else Inr (blob_result_of (bj_blob_id job) result))))"

fun record_blob_result :: "server \<Rightarrow> scan_env \<Rightarrow> blob_scan_result \<Rightarrow> unit scan" where
  "record_blob_result srv e Blob_Healthy = pure_op (Inr ())"
| "record_blob_result srv e (Blob_Finding blob_id kind code) =
     record_finding srv e kind Error None None (Some blob_id) code"
| "record_blob_result srv e (Blob_Transient blob_id) =
     record_finding srv e TransientChange Info None None (Some blob_id) ''blob_changed_during_scan''"

definition scan_blob_jobs :: "server \<Rightarrow> scan_env \<Rightarrow> blob_job list \<Rightarrow> unit scan" where
  "scan_blob_jobs srv e jobs =
     each_op (\<lambda>job. try_op (scan_blob_job srv e job) (record_blob_result srv e)) jobs"

text \<open>The \<open>expect\<close> of the clock reading's key is reported as the error of the clock.\<close>

definition scan_blob_rows :: "server \<Rightarrow> scan_env \<Rightarrow> unit scan" where
  "scan_blob_rows srv e =
     try_op (ok_or (Scan_Failed Scan_Clock) (sort_key_from_timestamp (iv_clock e At_Blobs))) (\<lambda>now_seq.
     scan_pages (iv_fuel e)
       (\<lambda>seen. scan_query e (Page_Blobs seen) (\<lambda>a. page_after bs_id seen (blob_scan_rows (db a)))) bs_id
       (\<lambda>rows. bind_op (collect_op (blob_job_of srv e now_seq) rows) (scan_blob_jobs srv e)) [])"

section \<open>The tree of blob files\<close>

definition temporary_storage_name :: "string \<Rightarrow> bool" where
  "temporary_storage_name name =
     (take 1 name = ''.''
      \<or> (case rsplit_once (CHR ''.'') name of
           Some (stem, extension) \<Rightarrow> stem \<noteq> []
             \<and> List.member [''partial'', ''tmp'', ''temp''] (to_ascii_lowercase extension)
         | None \<Rightarrow> False))"

definition shard_name :: "string \<Rightarrow> bool" where
  "shard_name v = (length v = 2 \<and> list_all is_lower_hex v)"

text \<open>The entries of a directory in the order of the reads; reading may fail at every entry.\<close>

definition each_entry ::
  "scan_env \<Rightarrow> string \<Rightarrow> (string \<times> bool) list \<Rightarrow> (string \<times> bool \<Rightarrow> unit scan) \<Rightarrow> unit scan" where
  "each_entry e directory entries body =
     try_op (reject_if (iv_fails e (Read_Directory directory)) (Scan_Failed Scan_Storage)) (\<lambda>_.
     bind_op (each_op (\<lambda>entry.
         try_op (reject_if (iv_fails e (Next_Entry directory (fst entry))) (Scan_Failed Scan_Storage)) (\<lambda>_.
         body entry)) entries) (\<lambda>_.
     try_op (reject_if (iv_fails e (Directory_End directory)) (Scan_Failed Scan_Storage)) (\<lambda>_.
     pure_op (Inr ()))))"

definition unexpected_file :: "server \<Rightarrow> scan_env \<Rightarrow> string \<Rightarrow> unit scan" where
  "unexpected_file srv e code = record_finding srv e UnexpectedBlobFile Error None None None code"

definition record_unowned_blob_file_if_current :: "server \<Rightarrow> scan_env \<Rightarrow> string \<Rightarrow> unit scan" where
  "record_unowned_blob_file_if_current srv e digest =
     try_op (scan_query e (Blob_Owner digest) (\<lambda>a.
       find (\<lambda>b. bl_owner_namespace b = owner srv \<and> bl_stored_sha256 b = digest) (db_blobs (db a)))) (\<lambda>known.
     if known = None \<and> \<not> iv_fails e (Lstat_Entry digest)
        \<and> blob_file (fs (iv_view e (Stat_Entry digest))) digest \<noteq> None
     then unexpected_file srv e ''canonical_blob_file_has_no_blob_row''
     else pure_op (Inr ()))"

definition inventory_blob_shard :: "server \<Rightarrow> scan_env \<Rightarrow> string \<Rightarrow> unit scan" where
  "inventory_blob_shard srv e shard =
     each_entry e shard (bt_shard (iv_tree e) shard) (\<lambda>(name, is_dir).
       if temporary_storage_name name then pure_op (Inr ())
       else if storage_digest name \<noteq> None \<and> take (length shard) name = shard
       then record_unowned_blob_file_if_current srv e name
       else unexpected_file srv e ''invalid_canonical_blob_entry'')"

definition inventory_sha256_directory :: "server \<Rightarrow> scan_env \<Rightarrow> unit scan" where
  "inventory_sha256_directory srv e =
     each_entry e ''sha256'' (bt_shards (iv_tree e)) (\<lambda>(name, is_dir).
       if temporary_storage_name name then pure_op (Inr ())
       else if is_dir \<and> shard_name name then inventory_blob_shard srv e name
       else unexpected_file srv e ''invalid_canonical_blob_shard'')"

definition inventory_blob_files :: "server \<Rightarrow> scan_env \<Rightarrow> unit scan" where
  "inventory_blob_files srv e =
     try_op (reject_if (iv_fails e Blob_Root_Metadata) (Scan_Failed Scan_Storage)) (\<lambda>_.
     if \<not> bt_root_is_dir (iv_tree e) then unexpected_file srv e ''blob_root_not_directory''
     else each_entry e ''blobs'' (bt_root (iv_tree e)) (\<lambda>(name, is_dir).
       if name = ''sha256''
       then (if is_dir then inventory_sha256_directory srv e
             else unexpected_file srv e ''blob_sha256_root_not_directory'')
       else if \<not> temporary_storage_name name then unexpected_file srv e ''noncanonical_blob_root_entry''
       else pure_op (Inr ())))"

section \<open>The scan\<close>

definition scan_all :: "server \<Rightarrow> scan_env \<Rightarrow> unit scan" where
  "scan_all srv e =
     bind_op (scan_database_integrity srv e) (\<lambda>_.
     bind_op (scan_dangling_artifact_references srv e) (\<lambda>_.
     bind_op (scan_tombstoned_artifact_references srv e) (\<lambda>_.
     bind_op (scan_snapshots srv e) (\<lambda>_.
     bind_op (scan_blob_rows srv e) (\<lambda>_.
     inventory_blob_files srv e)))))"

text \<open>A scan that stops is closed as failed before its error is returned.\<close>

definition scan_archive ::
  "server \<Rightarrow> scan_env \<Rightarrow> integrity_tables \<Rightarrow> (scan_stop + integrity_report) \<times> integrity_tables" where
  "scan_archive srv e before =
     (case begin_scan srv e before of
        Inl stop \<Rightarrow> (Inl stop, before)
      | Inr recorder \<Rightarrow>
          (case scan_all srv e recorder of
             (Inr _, s) \<Rightarrow> (case complete_scan srv e s of (r, t) \<Rightarrow> (r, sc_tables t))
           | (Inl stop, s) \<Rightarrow> (case fail_scan srv e s of
                 (Inl _, t) \<Rightarrow> (Inl (Scan_Failed Scan_Persistence), sc_tables t)
               | (Inr _, t) \<Rightarrow> (Inl stop, sc_tables t))))"

section \<open>History\<close>

definition run_summary :: "integrity_tables \<Rightarrow> string \<Rightarrow> integrity_scan_error + integrity_run_summary" where
  "run_summary saved run_id =
     and_then (ok_or Scan_Metadata (find (\<lambda>r. ir_id r = run_id) (it_runs saved))) (\<lambda>row.
     let kinds = map if_kind (filter (\<lambda>f. if_run_id f = run_id) (it_findings saved));
         by_kind = map (\<lambda>k. (k, count_list kinds k)) (sort (remdups kinds)) in
     and_then (ok_or Scan_Metadata (run_status_parse (ir_status row))) (\<lambda>status.
     and_then (ok_or Scan_Metadata (u64_try_from (ir_finding_count row))) (\<lambda>findings.
     and_then (ok_or Scan_Metadata (u64_try_from (ir_info_count row))) (\<lambda>infos.
     and_then (ok_or Scan_Metadata (u64_try_from (ir_warning_count row))) (\<lambda>warnings.
     and_then (ok_or Scan_Metadata (u64_try_from (ir_error_count row))) (\<lambda>errors.
     Inr \<lparr>irs_run_id = ir_id row, irs_owner_namespace = ir_owner_namespace row, irs_status = status,
          irs_started_at = ir_started_at row, irs_completed_at = ir_completed_at row,
          irs_counts = \<lparr>fc_total = findings, fc_info = infos, fc_warning = warnings, fc_error = errors,
            fc_by_kind = by_kind\<rparr>\<rparr>))))))"

definition finding_summary :: "integrity_finding_row \<Rightarrow> integrity_scan_error + integrity_finding_summary" where
  "finding_summary row =
     and_then (ok_or Scan_Metadata (finding_kind_parse (if_kind row))) (\<lambda>kind.
     and_then (ok_or Scan_Metadata (severity_parse (if_severity row))) (\<lambda>severity.
     Inr \<lparr>ifs_finding_id = if_id row, ifs_run_id = if_run_id row, ifs_kind = kind, ifs_severity = severity,
          ifs_snapshot_id = if_snapshot_id row, ifs_artifact_id = if_artifact_id row,
          ifs_blob_id = if_blob_id row, ifs_detected_at = if_detected_at row,
          ifs_detail_code = if_detail_code row\<rparr>))"

text \<open>\<open>ORDER BY completed_at_seq DESC, id DESC\<close>.\<close>

definition completed_runs :: "server \<Rightarrow> integrity_tables \<Rightarrow> integrity_run_row list" where
  "completed_runs srv saved =
     rev (sort_key (\<lambda>r. (the (ir_completed_at_seq r), ir_id r))
       (filter (\<lambda>r. ir_owner_namespace r = owner srv \<and> ir_completed_at_seq r \<noteq> None) (it_runs saved)))"

definition latest_health ::
  "server \<Rightarrow> integrity_tables \<Rightarrow> integrity_scan_error + integrity_run_summary option" where
  "latest_health srv saved =
     (case completed_runs srv saved of
        [] \<Rightarrow> Inr None
      | r # _ \<Rightarrow> and_then (run_summary saved (ir_id r)) (\<lambda>s. Inr (Some s)))"

definition list_runs ::
  "server \<Rightarrow> integrity_tables \<Rightarrow> nat \<Rightarrow> integrity_scan_error + integrity_run_summary list" where
  "list_runs srv saved limit =
     try_map (\<lambda>r. run_summary saved (ir_id r)) (take (min limit HISTORY_LIMIT) (completed_runs srv saved))"

definition list_findings ::
  "integrity_tables \<Rightarrow> string \<Rightarrow> nat \<Rightarrow> integrity_scan_error + integrity_finding_summary list" where
  "list_findings saved run_id limit =
     try_map finding_summary (take (min limit HISTORY_LIMIT)
       (sort_key (\<lambda>f. (if_detected_at_seq f, if_id f))
         (filter (\<lambda>f. if_run_id f = run_id) (it_findings saved))))"

end
