(* ===== verification/Integrity_Report.thy ===== *)
theory Integrity_Report
  imports Integrity
begin

text \<open>
  What a scan of an archive at rest reports. While no request runs and no read fails, the paged,
  effectful scan is one pass that records a list of findings, and the list is a function of the
  tables and the files: \<open>archive_findings\<close>. The counts, the status and the report follow from the list.
\<close>

section \<open>Operations that record a list of findings\<close>

type_synonym finding =
  "integrity_finding_kind \<times> integrity_severity \<times> string option \<times> string option \<times> string option \<times> string"

definition record_all :: "server \<Rightarrow> scan_env \<Rightarrow> finding list \<Rightarrow> unit scan" where
  "record_all srv e =
     each_op (\<lambda>(kind, severity, snapshot_id, artifact_id, blob_id, code).
       record_finding srv e kind severity snapshot_id artifact_id blob_id code)"

definition reports :: "server \<Rightarrow> scan_env \<Rightarrow> finding list \<Rightarrow> 'a \<Rightarrow> 'a scan" where
  "reports srv e F v = bind_op (record_all srv e F) (\<lambda>_. pure_op (Inr v))"

named_theorems report_intros \<open>the findings of an operation, one rule for every combinator\<close>

lemma bind_op_assoc: "bind_op (bind_op m f) g = bind_op m (\<lambda>v. bind_op (f v) g)"
  by (auto simp: bind_op_def fun_eq_iff split: prod.splits sum.splits)

lemma bind_op_unit: "bind_op m (\<lambda>_. pure_op (Inr ())) = m"
  by (auto simp: bind_op_def pure_op_def fun_eq_iff split: prod.splits sum.splits)

lemma each_op_append: "each_op f (xs @ ys) = bind_op (each_op f xs) (\<lambda>_. each_op f ys)"
  by (induction xs) (simp_all add: bind_op_simps bind_op_assoc)

lemma reports_pure [report_intros]: "pure_op (Inr v) = reports srv e [] v"
  by (simp add: reports_def record_all_def bind_op_simps)

lemma reports_finding [report_intros]:
  "record_finding srv e kind severity s a b code = reports srv e [(kind, severity, s, a, b, code)] ()"
  by (simp add: reports_def record_all_def bind_op_unit)

lemma reports_bind [report_intros]:
  "m = reports srv e F v \<Longrightarrow> k v = reports srv e G w \<Longrightarrow> bind_op m k = reports srv e (F @ G) w"
  by (simp add: reports_def record_all_def each_op_append bind_op_assoc bind_op_simps)

lemma reports_reports: "bind_op (reports srv e F v) (reports srv e G) = reports srv e (F @ G) v"
  by (rule reports_bind) simp_all

lemma reports_try: "r = Inr v \<Longrightarrow> k v = reports srv e F w \<Longrightarrow> try_op r k = reports srv e F w"
  by simp

lemma reports_each [report_intros]:
  "(\<And>x. x \<in> set xs \<Longrightarrow> f x = reports srv e (g x) ()) \<Longrightarrow> each_op f xs = reports srv e (concat (map g xs)) ()"
  by (induction xs) (simp_all add: reports_pure reports_bind)

lemma reports_collect [report_intros]:
  "(\<And>x. x \<in> set xs \<Longrightarrow> f x = reports srv e (g x) (h x)) \<Longrightarrow>
     collect_op f xs = reports srv e (concat (map g xs)) (List.map_filter h xs)"
proof (induction xs)
  case (Cons x xs)
  have "bind_op (collect_op f xs) (\<lambda>ys. pure_op (Inr (case h x of None \<Rightarrow> ys | Some v \<Rightarrow> v # ys)))
      = reports srv e (concat (map g xs) @ []) (case h x of None \<Rightarrow> List.map_filter h xs | Some v \<Rightarrow> v # List.map_filter h xs)"
    by (rule reports_bind [OF Cons.IH]) (simp_all add: Cons.prems reports_pure)
  then show ?case
    using Cons.prems by (auto simp: List.map_filter_simps intro!: reports_bind split: option.split)
qed (simp add: List.map_filter_simps reports_pure)

lemma reports_each_entry:
  assumes "\<And>p. \<not> iv_fails e p" "\<And>x. x \<in> set entries \<Longrightarrow> body x = reports srv e (g x) ()"
  shows "each_entry e directory entries body = reports srv e (concat (map g entries)) ()"
proof -
  have "each_op (\<lambda>entry. try_op (reject_if (iv_fails e (Next_Entry directory (fst entry))) (Scan_Failed Scan_Storage))
      (\<lambda>_. body entry)) entries = reports srv e (concat (map g entries)) ()"
    by (rule reports_each) (simp add: assms reject_if_def)
  from reports_bind [OF this reports_pure] show ?thesis
    by (simp add: each_entry_def assms(1) reject_if_def)
qed

section \<open>Pages\<close>

lemma sorted_le_last: "sorted (map k xs) \<Longrightarrow> x \<in> set xs \<Longrightarrow> k x \<le> k (last xs)"
  by (induction xs) auto

lemma sorted_tail:
  fixes k :: "'a \<Rightarrow> 'b :: linorder"
  assumes "sorted (map k xs)" "distinct (map k xs)" "xs \<noteq> []" "0 < n"
  shows "filter (\<lambda>x. k x > k (last (take n xs))) xs = drop n xs"
proof -
  let ?a = "take n xs" and ?b = "drop n xs"
  have split: "xs = ?a @ ?b" by simp
  have ne: "?a \<noteq> []" using assms(3,4) by simp
  have sorted: "sorted (map k (?a @ ?b))" and distinct: "distinct (map k (?a @ ?b))" using assms(1,2) by simp_all
  from sorted [unfolded map_append sorted_append] have parts: "sorted (map k ?a)" "\<forall>x \<in> set ?a. \<forall>y \<in> set ?b. k x \<le> k y"
    by auto
  have "k x \<noteq> k y" if "x \<in> set ?a" "y \<in> set ?b" for x y
    using distinct [unfolded map_append distinct_append] that by auto
  with parts(2) ne have "filter (\<lambda>x. k x > k (last ?a)) ?b = ?b"
    by (intro filter_True ballI) (metis last_in_set order_less_le)
  moreover have "filter (\<lambda>x. k x > k (last ?a)) ?a = []"
    using sorted_le_last [OF parts(1)] by (intro filter_False) (auto simp: not_less)
  ultimately show ?thesis by (metis append_Nil filter_append split)
qed

lemma reports_pages:
  assumes "distinct (map id_of rows)"
    and "\<And>page. set page \<subseteq> set rows \<Longrightarrow> body page = reports srv e (B page) ()"
    and "length (filter (\<lambda>r. id_of r > seen) rows) < fuel"
  shows "scan_pages fuel (\<lambda>seen. Inr (page_after id_of seen rows)) id_of body seen
    = reports srv e (concat (map B (pages_of PAGE_SIZE (sort_key id_of (filter (\<lambda>r. id_of r > seen) rows))))) ()"
  using assms(3)
proof (induction fuel arbitrary: seen)
  case (Suc fuel)
  let ?rest = "sort_key id_of (filter (\<lambda>r. id_of r > seen) rows)"
  show ?case
  proof (cases "?rest = []")
    case True
    then show ?thesis
      by (simp add: page_after_def pages_of.simps [of _ "[]"] reports_pure)
  next
    case False
    let ?page = "take PAGE_SIZE ?rest"
    let ?last = "id_of (last ?page)"
    have ne: "?page \<noteq> []" using False by (simp add: PAGE_SIZE_def)
    then have last: "last ?page \<in> set ?rest" by (metis last_in_set in_set_takeD)
    have "distinct (map id_of ?rest)"
      using assms(1) by (simp add: distinct_map inj_on_def)
    from sorted_tail [OF sorted_sort_key this False, of PAGE_SIZE]
    have "filter (\<lambda>x. id_of x > ?last) ?rest = drop PAGE_SIZE ?rest" by (simp add: PAGE_SIZE_def)
    moreover have "filter (\<lambda>x. id_of x > ?last) ?rest = sort_key id_of (filter (\<lambda>r. id_of r > ?last) rows)"
      using last unfolding filter_sort by (auto simp: filter_filter intro!: arg_cong [where f = "sort_key id_of"] filter_cong)
    ultimately have tail: "sort_key id_of (filter (\<lambda>r. id_of r > ?last) rows) = drop PAGE_SIZE ?rest" by simp
    have "length (filter (\<lambda>r. id_of r > ?last) rows) = length (drop PAGE_SIZE ?rest)"
      using arg_cong [OF tail, of length] by simp
    also have "\<dots> < length ?rest"
      using False by (metis PAGE_SIZE_def diff_less length_drop length_greater_0_conv zero_less_numeral)
    finally have fuel: "length (filter (\<lambda>r. id_of r > ?last) rows) < fuel" using Suc.prems by simp
    have "set ?page \<subseteq> set rows" by (auto dest: in_set_takeD)
    then have "body ?page = reports srv e (B ?page) ()" by (rule assms(2))
    from reports_bind [OF this, of "\<lambda>_. scan_pages fuel (\<lambda>seen. Inr (page_after id_of seen rows)) id_of body ?last",
        OF Suc.IH [OF fuel]]
    show ?thesis
      using False ne by (simp add: page_after_def tail pages_of.simps [of PAGE_SIZE ?rest] PAGE_SIZE_def [symmetric] Let_def
          del: take_eq_Nil) (simp add: PAGE_SIZE_def)
  qed
qed simp

section \<open>The findings of an archive at rest\<close>

definition at_rest :: "scan_env \<Rightarrow> archive \<Rightarrow> bool" where
  "at_rest e a =
     ((\<forall>r. iv_view e r = a) \<and> (\<forall>p. \<not> iv_fails e p)
      \<and> (\<forall>k. iv_read_error e k = None \<and> iv_rewritten e k = None)
      \<and> 0 < iv_buffer_bytes e \<and> iv_max_request_body_bytes e \<le> i64_max
      \<and> length (db_artifacts (db a)) < iv_fuel e \<and> length (snapshot_scan_rows (db a)) < iv_fuel e
      \<and> length (db_blobs (db a)) < iv_fuel e)"

text \<open>The primary keys of the tables, and a tombstone for a snapshot at most.\<close>

definition keyed :: "database \<Rightarrow> bool" where
  "keyed d =
     (distinct (map ar_id (db_artifacts d)) \<and> distinct (map bl_id (db_blobs d))
      \<and> distinct (map sn_id (db_snapshots d)) \<and> distinct (map mf_id (db_manifests d))
      \<and> distinct (map ts_snapshot_id (db_tombstones d)))"

definition within_i64 :: "server \<Rightarrow> bool" where
  "within_i64 srv =
     (lim_artifact_count (srv_limits srv) \<le> i64_max \<and> lim_artifact_stored_bytes (srv_limits srv) \<le> i64_max
      \<and> lim_artifact_original_bytes (srv_limits srv) \<le> i64_max)"

definition database_findings :: "scan_env \<Rightarrow> finding list" where
  "database_findings e =
     (if iv_quick_check e = ''ok'' then []
      else [(DatabaseIntegrityFailure, Error, None, None, None, ''sqlite_quick_check_failed'')])
     @ (if iv_foreign_key_failure e
        then [(DatabaseIntegrityFailure, Error, None, None, None, ''sqlite_foreign_key_check_failed'')] else [])"

definition artifact_reference_findings :: "integrity_finding_kind \<Rightarrow> string \<Rightarrow> artifact_row list \<Rightarrow> finding list" where
  "artifact_reference_findings kind code rows =
     map (\<lambda>a. (kind, Error, Some (ar_snapshot_id a), Some (ar_id a), Some (ar_blob_id a), code))
       (sort_key ar_id (filter (\<lambda>a. ar_id a \<noteq> []) rows))"

fun plan_findings :: "string \<Rightarrow> scan_stop + artifact_plan \<Rightarrow> finding list" where
  "plan_findings snapshot_id (Inr (Report_Artifact kind artifact_id blob_id code)) =
     [(kind, Error, Some snapshot_id, Some artifact_id, Some blob_id, code)]"
| "plan_findings snapshot_id _ = []"

fun plan_job :: "scan_stop + artifact_plan \<Rightarrow> artifact_job option" where
  "plan_job (Inr (Check_Artifact job)) = Some job"
| "plan_job _ = None"

definition artifact_job_findings :: "server \<Rightarrow> scan_env \<Rightarrow> archive \<Rightarrow> artifact_job \<Rightarrow> finding list" where
  "artifact_job_findings srv e a job =
     (let found = (\<lambda>kind severity code.
        [(kind, severity, Some (aj_snapshot_id job), Some (aj_artifact_id job), Some (aj_blob_id job), code)]) in
      if \<not> artifact_current job (db a) then found TransientChange Info ''artifact_changed_during_scan''
      else case scan_artifact_original_file (ext srv) e job of
          Original_Healthy \<Rightarrow> [] | Original_Stored_Invalid \<Rightarrow> []
        | Original_Mismatch code \<Rightarrow> found ArtifactOriginalMismatch Error code
        | Original_Transient \<Rightarrow> found TransientChange Info ''artifact_changed_during_scan'')"

definition artifacts_findings :: "server \<Rightarrow> scan_env \<Rightarrow> archive \<Rightarrow> string \<Rightarrow> manifest \<Rightarrow> finding list" where
  "artifacts_findings srv e a snapshot_id m =
     (let plans = map (plan_artifact srv snapshot_id (artifact_projection snapshot_id (db a)))
            (enumerate 0 (artifacts m)) in
      concat (map (plan_findings snapshot_id) plans)
      @ concat (map (artifact_job_findings srv e a) (List.map_filter plan_job plans)))"

definition snapshot_findings :: "server \<Rightarrow> scan_env \<Rightarrow> archive \<Rightarrow> snapshot_scan_row \<Rightarrow> finding list" where
  "snapshot_findings srv e a row =
     (let found = (\<lambda>kind severity code. [(kind, severity, Some (ss_id row), None, None, code)]) in
      (if ss_deleted_at row = None then []
       else if ss_tombstone_id row = None then found TombstonedSnapshot Error ''tombstone_record_missing''
       else found TombstonedSnapshot Info ''snapshot_tombstoned'')
      @ (if ss_manifest_row_id row = None then found ManifestMissing Error ''snapshot_manifest_row_missing''
         else case ss_manifest_size_bytes row of
           None \<Rightarrow> found ManifestMissing Error ''snapshot_manifest_metadata_missing''
         | Some n \<Rightarrow>
         if nat n > iv_max_request_body_bytes e
         then found ManifestUnparseable Error ''canonical_manifest_exceeds_scan_limit''
         else case manifest_document (int (iv_max_request_body_bytes e)) (ss_id row) (db a) of
           None \<Rightarrow> found TransientChange Info ''snapshot_changed_during_scan''
         | Some document \<Rightarrow>
         let analysis = analyze_manifest (ext srv) (srv_limits srv) (mf_canonical_json document) in
         (if ma_computed_hash analysis \<noteq> mf_sha256 document
          then found ManifestHashMismatch Error ''canonical_manifest_hash_mismatch'' else [])
         @ (case ma_manifest analysis of
             None \<Rightarrow> found ManifestUnparseable Error (ma_invalid_detail_code analysis)
           | Some m \<Rightarrow>
               if ss_deleted_at row \<noteq> None then []
               else (case reconcile_snapshot (ext srv) (ss_id row) (db a) of
                   Inr _ \<Rightarrow> artifacts_findings srv e a (ss_id row) m
                 | Inl Reconcile_Not_Found \<Rightarrow> found TransientChange Info ''snapshot_changed_during_scan''
                 | Inl _ \<Rightarrow> found SnapshotProjectionDrift Error ''normalized_snapshot_projection_mismatch''
                     @ artifacts_findings srv e a (ss_id row) m))))"

definition blob_row_findings :: "server \<Rightarrow> int \<Rightarrow> blob_scan_row \<Rightarrow> finding list" where
  "blob_row_findings srv now_seq row =
     (case blob_liveness row now_seq of
        None \<Rightarrow> []
      | Some (kind, severity, code) \<Rightarrow> [(kind, severity, None, None, Some (bs_id row), code)])
     @ (if valid_blob_size srv row = None
        then [(BlobMetadataInvalid, Error, None, None, Some (bs_id row), ''blob_row_metadata_invalid'')] else [])"

definition blob_job_for :: "server \<Rightarrow> blob_scan_row \<Rightarrow> blob_job option" where
  "blob_job_for srv row = map_option (\<lambda>n. \<lparr>bj_blob_id = bs_id row, bj_stored_sha256 = bs_stored_sha256 row,
     bj_stored_size_bytes = n\<rparr>) (valid_blob_size srv row)"

fun blob_result_findings :: "blob_scan_result \<Rightarrow> finding list" where
  "blob_result_findings Blob_Healthy = []"
| "blob_result_findings (Blob_Finding i kind code) = [(kind, Error, None, None, Some i, code)]"
| "blob_result_findings (Blob_Transient i) = [(TransientChange, Info, None, None, Some i, ''blob_changed_during_scan'')]"

definition blob_job_findings :: "server \<Rightarrow> scan_env \<Rightarrow> blob_job \<Rightarrow> finding list" where
  "blob_job_findings srv e job =
     blob_result_findings (blob_result_of (bj_blob_id job)
       (scan_stored_file (ext srv) e (Blob_Check (bj_blob_id job)) (bj_stored_sha256 job) (bj_stored_size_bytes job)))"

definition blob_page_findings :: "server \<Rightarrow> scan_env \<Rightarrow> int \<Rightarrow> blob_scan_row list \<Rightarrow> finding list" where
  "blob_page_findings srv e now_seq rows =
     concat (map (blob_row_findings srv now_seq) rows)
     @ concat (map (blob_job_findings srv e) (List.map_filter (blob_job_for srv) rows))"

definition unexpected :: "string \<Rightarrow> finding list" where
  "unexpected code = [(UnexpectedBlobFile, Error, None, None, None, code)]"

definition unowned_findings :: "server \<Rightarrow> archive \<Rightarrow> string \<Rightarrow> finding list" where
  "unowned_findings srv a digest =
     (if find (\<lambda>b. bl_owner_namespace b = owner srv \<and> bl_stored_sha256 b = digest) (db_blobs (db a)) = None
         \<and> blob_file (fs a) digest \<noteq> None
      then unexpected ''canonical_blob_file_has_no_blob_row'' else [])"

definition shard_findings :: "server \<Rightarrow> archive \<Rightarrow> blob_tree \<Rightarrow> string \<Rightarrow> finding list" where
  "shard_findings srv a t shard =
     concat (map (\<lambda>(name, is_dir).
       if temporary_storage_name name then []
       else if storage_digest name \<noteq> None \<and> take (length shard) name = shard then unowned_findings srv a name
       else unexpected ''invalid_canonical_blob_entry'') (bt_shard t shard))"

definition shards_findings :: "server \<Rightarrow> archive \<Rightarrow> blob_tree \<Rightarrow> finding list" where
  "shards_findings srv a t =
     concat (map (\<lambda>(name, is_dir).
       if temporary_storage_name name then []
       else if is_dir \<and> shard_name name then shard_findings srv a t name
       else unexpected ''invalid_canonical_blob_shard'') (bt_shards t))"

definition tree_findings :: "server \<Rightarrow> archive \<Rightarrow> blob_tree \<Rightarrow> finding list" where
  "tree_findings srv a t =
     (if \<not> bt_root_is_dir t then unexpected ''blob_root_not_directory''
      else concat (map (\<lambda>(name, is_dir).
        if name = ''sha256''
        then (if is_dir then shards_findings srv a t else unexpected ''blob_sha256_root_not_directory'')
        else if \<not> temporary_storage_name name then unexpected ''noncanonical_blob_root_entry''
        else []) (bt_root t)))"

definition archive_findings :: "server \<Rightarrow> scan_env \<Rightarrow> archive \<Rightarrow> int \<Rightarrow> finding list" where
  "archive_findings srv e a now_seq =
     database_findings e
     @ artifact_reference_findings ArtifactBlobReferenceMissing ''artifact_references_missing_blob_row''
         (dangling_artifacts (db a))
     @ artifact_reference_findings SnapshotProjectionDrift ''tombstoned_snapshot_has_artifact_reference''
         (tombstoned_artifacts (db a))
     @ concat (map (snapshot_findings srv e a)
         (sort_key ss_id (filter (\<lambda>r. ss_id r \<noteq> []) (snapshot_scan_rows (db a)))))
     @ concat (map (blob_page_findings srv e now_seq) (pages_of PAGE_SIZE
         (sort_key bs_id (filter (\<lambda>r. bs_id r \<noteq> []) (blob_scan_rows (db a))))))
     @ tree_findings srv a (iv_tree e)"

section \<open>The stages of the scan\<close>

lemma at_restD:
  assumes "at_rest e a"
  shows "iv_view e r = a" "\<not> iv_fails e p" "iv_read_error e k = None" "iv_rewritten e k = None"
    "0 < iv_buffer_bytes e" "iv_max_request_body_bytes e \<le> i64_max"
  using assms by (simp_all add: at_rest_def)

lemma rest_query [simp]: "at_rest e a \<Longrightarrow> scan_query e r f = Inr (f a)"
  by (simp add: scan_query_def at_restD)

lemma report_database:
  assumes "at_rest e a"
  shows "scan_database_integrity srv e = reports srv e (database_findings e) ()"
  unfolding scan_database_integrity_def database_findings_def
  by (rule reports_bind)
    (simp_all add: at_restD(2) [OF assms] reject_if_def reports_pure [of _ srv e] reports_finding)

lemma report_rows:
  "each_op (\<lambda>a. record_finding srv e kind severity (s a) (t a) (b a) code) rows
     = reports srv e (map (\<lambda>a. (kind, severity, s a, t a, b a, code)) rows) ()"
  using reports_each [of rows _ srv e "\<lambda>a. [(kind, severity, s a, t a, b a, code)]"] reports_finding
  by (simp add: concat_map_singleton)

lemma concat_pages_of: "0 < n \<Longrightarrow> concat (pages_of n xs) = xs"
  by (induction n xs rule: pages_of.induct) (subst pages_of.simps, auto)

lemma concat_map_concat: "concat (map (\<lambda>page. concat (map g page)) ps) = concat (map g (concat ps))"
  by (induction ps) simp_all

lemma concat_map_pages_of: "0 < n \<Longrightarrow> concat (map (\<lambda>page. concat (map g page)) (pages_of n xs)) = concat (map g xs)"
  by (simp add: concat_map_concat concat_pages_of)

lemma map_pages_of: "0 < n \<Longrightarrow> concat (map (map g) (pages_of n xs)) = map g xs"
  by (simp add: concat_pages_of flip: map_concat)

lemma Nil_less_string [simp]: "[] < s \<longleftrightarrow> s \<noteq> ([] :: string)"
  by (cases s) simp_all

lemma filter_nonempty: "filter (\<lambda>r. id_of r > ([] :: string)) rows = filter (\<lambda>r. id_of r \<noteq> []) rows"
  by simp

lemma distinct_map_filter': "distinct (map k xs) \<Longrightarrow> distinct (map k (filter P xs))"
  by (simp add: distinct_map inj_on_def)

lemma report_artifact_references:
  assumes "distinct (map ar_id rows)" "length rows < fuel"
  shows "scan_pages fuel (\<lambda>seen. Inr (page_after ar_id seen rows)) ar_id
      (each_op (\<lambda>a. record_finding srv e kind Error (Some (ar_snapshot_id a)) (Some (ar_id a)) (Some (ar_blob_id a)) code)) []
    = reports srv e (artifact_reference_findings kind code rows) ()"
proof -
  have "length (filter (\<lambda>r. ar_id r > []) rows) < fuel" using assms(2) by (meson le_less_trans length_filter_le)
  from reports_pages [OF assms(1) report_rows this, of srv e "\<lambda>_. kind" "\<lambda>_. Error" "\<lambda>_ a. Some (ar_snapshot_id a)"
      "\<lambda>_ a. Some (ar_id a)" "\<lambda>_ a. Some (ar_blob_id a)" "\<lambda>_. code" "\<lambda>page. page"]
  show ?thesis
    by (simp add: artifact_reference_findings_def map_pages_of PAGE_SIZE_def)
qed

lemma report_dangling:
  assumes "at_rest e a" "keyed (db a)"
  shows "scan_dangling_artifact_references srv e = reports srv e (artifact_reference_findings
    ArtifactBlobReferenceMissing ''artifact_references_missing_blob_row'' (dangling_artifacts (db a))) ()"
  using assms unfolding scan_dangling_artifact_references_def
  by (simp, intro report_artifact_references)
    (auto simp: keyed_def at_rest_def dangling_artifacts_def distinct_map_filter' intro: le_less_trans [OF length_filter_le])

lemma report_tombstoned:
  assumes "at_rest e a" "keyed (db a)"
  shows "scan_tombstoned_artifact_references srv e = reports srv e (artifact_reference_findings
    SnapshotProjectionDrift ''tombstoned_snapshot_has_artifact_reference'' (tombstoned_artifacts (db a))) ()"
  using assms unfolding scan_tombstoned_artifact_references_def
  by (simp, intro report_artifact_references)
    (auto simp: keyed_def at_rest_def tombstoned_artifacts_def distinct_map_filter' intro: le_less_trans [OF length_filter_le])

section \<open>Snapshots\<close>

lemma plan_total: "index \<le> i64_max \<Longrightarrow> \<exists>plan. plan_artifact srv sid rows (index, x) = Inr plan"
  by (simp add: plan_artifact_def i64_try_from_def)

lemma report_artifact_job_of:
  assumes "fst ia \<le> i64_max"
  shows "artifact_job_of srv e sid rows ia
    = reports srv e (plan_findings sid (plan_artifact srv sid rows ia)) (plan_job (plan_artifact srv sid rows ia))"
proof -
  obtain plan where plan: "plan_artifact srv sid rows ia = Inr plan"
    using plan_total assms by (metis prod.collapse)
  show ?thesis
  proof (cases plan)
    case (Report_Artifact kind i b code)
    have "bind_op (record_finding srv e kind Error (Some sid) (Some i) (Some b) code) (\<lambda>_. pure_op (Inr (None :: artifact_job option)))
        = reports srv e ([(kind, Error, Some sid, Some i, Some b, code)] @ []) None"
      by (rule reports_bind [OF reports_finding reports_pure])
    then show ?thesis by (simp add: artifact_job_of_def plan Report_Artifact)
  qed (simp_all add: artifact_job_of_def plan reports_pure [of _ srv e])
qed

lemma report_artifact_jobs:
  assumes "at_rest e a" "length (artifacts m) \<le> i64_max"
  shows "artifact_jobs srv e sid m =
    (let plans = map (plan_artifact srv sid (artifact_projection sid (db a))) (enumerate 0 (artifacts m)) in
     reports srv e (concat (map (plan_findings sid) plans)) (List.map_filter plan_job plans))"
proof -
  let ?plan = "plan_artifact srv sid (artifact_projection sid (db a))"
  have "collect_op (artifact_job_of srv e sid (artifact_projection sid (db a))) (enumerate 0 (artifacts m))
      = reports srv e (concat (map (\<lambda>ia. plan_findings sid (?plan ia)) (enumerate 0 (artifacts m))))
          (List.map_filter (\<lambda>ia. plan_job (?plan ia)) (enumerate 0 (artifacts m)))"
    by (rule reports_collect, rule report_artifact_job_of) (use assms(2) in \<open>auto simp: in_set_enumerate_eq\<close>)
  moreover have "List.map_filter (\<lambda>ia. plan_job (?plan ia)) xs = List.map_filter plan_job (map ?plan xs)" for xs
    by (simp add: List.map_filter_def filter_map comp_def)
  ultimately show ?thesis
    by (simp add: artifact_jobs_def rest_query [OF assms(1)] comp_def)
qed

lemma plan_job_bounds:
  assumes "plan_job (plan_artifact srv sid rows (index, x)) = Some job" "within_i64 srv"
  shows "aj_stored_size_bytes job \<le> i64_max \<and> aj_original_size_bytes job \<le> i64_max"
  using assms
  by (auto simp: plan_artifact_def within_i64_def Let_def i64_try_from_def
      split: option.splits prod.splits if_splits)

lemma report_artifact_job:
  assumes "at_rest e a" "aj_stored_size_bytes job \<le> i64_max"
  shows "try_op (reject_if (iv_fails e (Join_Task (Artifact_Check (aj_artifact_id job)))) (Scan_Failed Scan_Worker)) (\<lambda>_.
       try_op (scan_artifact_job srv e job) (record_artifact_result srv e))
    = reports srv e (artifact_job_findings srv e a job) ()"
proof -
  have current: "artifact_is_current e r job = Inr (artifact_current job (db a))" for r
    using assms by (simp add: artifact_is_current_def i64_try_from_def)
  show ?thesis
    by (cases "scan_artifact_original_file (ext srv) e job")
      (simp_all add: scan_artifact_job_def current artifact_job_findings_def Let_def at_restD [OF assms(1)]
        reject_if_def reports_pure [of _ srv e] reports_finding)
qed

lemma map_filter_member: "y \<in> set (List.map_filter f xs) \<longleftrightarrow> (\<exists>x \<in> set xs. f x = Some y)"
  by (induction xs) (auto simp: List.map_filter_simps split: option.splits)

lemma report_artifacts:
  assumes "at_rest e a" "within_i64 srv" "length (artifacts m) \<le> i64_max"
  shows "bind_op (artifact_jobs srv e sid m) (scan_artifact_jobs srv e)
    = reports srv e (artifacts_findings srv e a sid m) ()"
proof -
  let ?plans = "map (plan_artifact srv sid (artifact_projection sid (db a))) (enumerate 0 (artifacts m))"
  have "scan_artifact_jobs srv e (List.map_filter plan_job ?plans)
      = reports srv e (concat (map (artifact_job_findings srv e a) (List.map_filter plan_job ?plans))) ()"
    unfolding scan_artifact_jobs_def
  proof (rule reports_each, rule report_artifact_job [OF assms(1)])
    fix job assume "job \<in> set (List.map_filter plan_job ?plans)"
    then obtain index x where "plan_job (plan_artifact srv sid (artifact_projection sid (db a)) (index, x)) = Some job"
      by (auto simp: map_filter_member)
    from plan_job_bounds [OF this assms(2)] show "aj_stored_size_bytes job \<le> i64_max" by simp
  qed
  then have "bind_op (artifact_jobs srv e sid m) (scan_artifact_jobs srv e)
      = reports srv e (concat (map (plan_findings sid) ?plans)
          @ concat (map (artifact_job_findings srv e a) (List.map_filter plan_job ?plans))) ()"
    by (rule reports_bind [OF report_artifact_jobs [OF assms(1,3), unfolded Let_def]])
  then show ?thesis by (simp add: artifacts_findings_def Let_def)
qed

lemma reconcile_no_metadata: "reconcile_snapshot x sid d \<noteq> Inl Reconcile_Metadata"
proof -
  have "errors_in (\<lambda>err. err \<noteq> Reconcile_Metadata) (reconcile_snapshot x sid d)"
    unfolding reconcile_snapshot_def Let_def reconcile_artifact_def map_error_def
    by (auto intro!: error_intros split: sum.splits prod.splits)
  then show ?thesis by auto
qed

lemma validate_manifest_schema_Some:
  "validate_manifest_schema x limits p = Some m \<longleftrightarrow> normalize_manifest x (input_of_manifest p) limits = Inr m"
  by (simp add: validate_manifest_schema_def split: sum.split)

lemma analyzed_bounds:
  assumes "ma_manifest (analyze_manifest x limits json) = Some m"
  shows "length (artifacts m) \<le> lim_artifact_count limits"
proof -
  obtain p where "normalize_manifest x (input_of_manifest p) limits = Inr m"
    using assms by (auto simp: analyze_manifest_def validate_manifest_schema_Some Let_def bind_eq_Some_conv)
  from normalize_manifest_wf [OF this] show ?thesis by (simp add: manifest_wf_def)
qed

text \<open>What a scan does at a snapshot whose row was read from the tables.\<close>

lemma report_snapshot:
  assumes "at_rest e a" "within_i64 srv" "row \<in> set (snapshot_scan_rows (db a))"
  shows "scan_snapshot srv e row = reports srv e (snapshot_findings srv e a row) ()"
proof -
  note fails = at_restD(2) [OF assms(1)]
  note step = reports_pure [of _ srv e] reports_finding
  have size: "0 \<le> n" if "ss_manifest_size_bytes row = Some n" for n
    using assms(3) that by (auto simp: snapshot_scan_rows_def)
  have load: "load_manifest_document e sid (iv_max_request_body_bytes e)
      = Inr (manifest_document (int (iv_max_request_body_bytes e)) sid (db a))" for sid
    by (simp add: load_manifest_document_def i64_try_from_def at_restD(6) [OF assms(1)] rest_query [OF assms(1)])
  have arts: "bind_op (artifact_jobs srv e sid m) (scan_artifact_jobs srv e)
      = reports srv e (artifacts_findings srv e a sid m) ()"
    if "ma_manifest (analyze_manifest (ext srv) (srv_limits srv) json) = Some m" for sid m json
    using analyzed_bounds [OF that] assms(2) by (intro report_artifacts [OF assms(1,2)]) (simp add: within_i64_def)
  show ?thesis
    unfolding scan_snapshot_def snapshot_findings_def Let_def
  proof (rule reports_bind [where v = "()"], goal_cases)
    case 1
    show ?case by (simp add: step)
  next
    case 2
    consider "ss_manifest_row_id row = None" | i where "ss_manifest_row_id row = Some i" "ss_manifest_size_bytes row = None"
      | n i where "ss_manifest_row_id row = Some i" "ss_manifest_size_bytes row = Some n" by blast
    then show ?case
    proof cases
      case (3 n i)
      show ?thesis
      proof (cases "nat n > iv_max_request_body_bytes e")
        case True
        with 3 size show ?thesis by (simp add: u64_try_from_def step)
      next
        case False
        show ?thesis
        proof (cases "manifest_document (int (iv_max_request_body_bytes e)) (ss_id row) (db a)")
          case None
          with 3 size False show ?thesis by (simp add: u64_try_from_def load step)
        next
          case (Some document)
          show ?thesis
            apply (simp add: 3 size u64_try_from_def load Some fails reject_if_def False split del: if_split)
            apply (rule reports_bind)
             apply (simp add: step)
            apply (auto simp: rest_query [OF assms(1)] step arts reconcile_no_metadata reports_reports
                split: option.split sum.split reconciliation_error.split intro!: reports_bind)
            done
        qed
      qed
    qed (simp_all add: step)
  qed
qed

lemma left_join_key: "distinct (map k table) \<Longrightarrow> left_join (\<lambda>r. k r = v) table = [find (\<lambda>r. k r = v) table]"
proof (induction table)
  case (Cons r table)
  show ?case
  proof (cases "k r = v")
    case True
    with Cons.prems have "filter (\<lambda>r. k r = v) table = []" unfolding filter_empty_conv by (auto simp: image_iff eq_commute)
    with True show ?thesis by (simp add: left_join_def)
  qed (use Cons in \<open>simp add: left_join_def\<close>)
qed (simp add: left_join_def)

text \<open>With the keys, the joined rows are those of the snapshots.\<close>

lemma snapshot_scan_rows_keyed:
  assumes "keyed d"
  shows "snapshot_scan_rows d = map (\<lambda>s.
    let m = manifest_by_id d (sn_manifest_id s); t = find (\<lambda>t. ts_snapshot_id t = sn_id s) (db_tombstones d) in
    \<lparr>ss_id = sn_id s, ss_deleted_at = sn_deleted_at s, ss_manifest_row_id = map_option mf_id m,
     ss_manifest_size_bytes = map_option (\<lambda>m. int (length (mf_canonical_json m))) m,
     ss_tombstone_id = map_option ts_id t\<rparr>) (db_snapshots d)"
  using assms
  by (simp add: snapshot_scan_rows_def keyed_def left_join_key manifest_by_id_def Let_def concat_map_singleton)

lemma keyed_scan_rows: "keyed d \<Longrightarrow> distinct (map ss_id (snapshot_scan_rows d))"
  by (simp add: snapshot_scan_rows_keyed keyed_def comp_def Let_def)

lemma report_snapshots:
  assumes "at_rest e a" "within_i64 srv" "keyed (db a)"
  shows "scan_snapshots srv e = reports srv e (concat (map (snapshot_findings srv e a)
    (sort_key ss_id (filter (\<lambda>r. ss_id r \<noteq> []) (snapshot_scan_rows (db a)))))) ()"
proof -
  let ?rows = "snapshot_scan_rows (db a)"
  have "length (filter (\<lambda>r. ss_id r > []) ?rows) < iv_fuel e"
    using assms(1) by (auto simp: at_rest_def intro: le_less_trans [OF length_filter_le])
  from reports_pages [where B = "\<lambda>page. concat (map (snapshot_findings srv e a) page)" and body = "each_op (scan_snapshot srv e)"
      and rows = ?rows and id_of = ss_id and srv = srv and e = e, OF _ _ this]
  have "scan_pages (iv_fuel e) (\<lambda>seen. Inr (page_after ss_id seen ?rows)) ss_id (each_op (scan_snapshot srv e)) []
    = reports srv e (concat (map (\<lambda>page. concat (map (snapshot_findings srv e a) page))
        (pages_of PAGE_SIZE (sort_key ss_id (filter (\<lambda>r. ss_id r > []) ?rows))))) ()"
    using keyed_scan_rows [OF assms(3)] by (auto intro!: reports_each report_snapshot [OF assms(1,2)])
  then show ?thesis
    by (simp add: scan_snapshots_def rest_query [OF assms(1)] concat_map_pages_of PAGE_SIZE_def)
qed

section \<open>Blob rows\<close>

lemma report_blob_row:
  assumes "at_rest e a" "keyed (db a)" "row \<in> set (blob_scan_rows (db a))"
  shows "blob_job_of srv e now_seq row = reports srv e (blob_row_findings srv now_seq row) (blob_job_for srv row)"
proof -
  have "distinct (map bs_id (blob_scan_rows (db a)))"
    using assms(2) by (simp add: keyed_def blob_scan_rows_def comp_def)
  from find_unique [OF this assms(3) refl]
  have "current_blob_row e (bs_id row) = Inr (Some row)"
    by (simp add: current_blob_row_def rest_query [OF assms(1)])
  then have classify: "classify_blob_liveness srv e row now_seq = record_blob_liveness srv e row now_seq"
    by (simp add: classify_blob_liveness_def)
  show ?thesis
    unfolding blob_job_of_def blob_row_findings_def classify
  proof (rule reports_bind [where v = "()"], goal_cases)
    case 1
    show ?case by (simp add: record_blob_liveness_def reports_pure [of _ srv e] reports_finding split: option.split)
  next
    case 2
    have "bind_op (record_finding srv e kind Error s t b code) (\<lambda>_. pure_op (Inr v))
        = reports srv e ([(kind, Error, s, t, b, code)] @ []) v" for kind s t b code and v :: "blob_job option"
      by (rule reports_bind [OF reports_finding reports_pure])
    then show ?case by (simp add: blob_job_for_def reports_pure [of _ srv e] split: option.split)
  qed
qed

lemma valid_blob_sizeD:
  "valid_blob_size srv row = Some n \<Longrightarrow> bs_stored_size_bytes row = int n \<and> n \<le> lim_artifact_stored_bytes (srv_limits srv)
     \<and> storage_digest (bs_stored_sha256 row) \<noteq> None \<and> bs_compression row \<in> {''identity'', ''zstd''}"
  by (auto simp: valid_blob_size_def bind_eq_Some_conv u64_try_from_eq_Some split: if_splits)

lemma report_blob_job:
  assumes "at_rest e a" "within_i64 srv" "row \<in> set (blob_scan_rows (db a))" "blob_job_for srv row = Some job"
  shows "try_op (scan_blob_job srv e job) (record_blob_result srv e) = reports srv e (blob_job_findings srv e job) ()"
proof -
  obtain n where n: "valid_blob_size srv row = Some n"
    and job: "job = \<lparr>bj_blob_id = bs_id row, bj_stored_sha256 = bs_stored_sha256 row, bj_stored_size_bytes = n\<rparr>"
    using assms(4) by (auto simp: blob_job_for_def)
  have "blob_current job (db a)"
    using assms(3) valid_blob_sizeD [OF n] by (auto simp: job blob_scan_rows_def blob_current_def list_ex_iff)
  moreover have "n \<le> i64_max" using valid_blob_sizeD [OF n] assms(2) by (simp add: within_i64_def)
  ultimately have "scan_blob_job srv e job = Inr (blob_result_of (bj_blob_id job)
      (scan_stored_file (ext srv) e (Blob_Check (bj_blob_id job)) (bj_stored_sha256 job) (bj_stored_size_bytes job)))"
    by (simp add: scan_blob_job_def blob_is_current_def rest_query [OF assms(1)] job i64_try_from_def
        at_restD(2) [OF assms(1)] reject_if_def)
  then show ?thesis
    by (cases "scan_stored_file (ext srv) e (Blob_Check (bj_blob_id job)) (bj_stored_sha256 job) (bj_stored_size_bytes job)")
      (simp_all add: blob_job_findings_def reports_pure [of _ srv e] reports_finding)
qed

lemma report_blob_rows:
  assumes "at_rest e a" "within_i64 srv" "keyed (db a)" "sort_key_from_timestamp (iv_clock e At_Blobs) = Some now_seq"
  shows "scan_blob_rows srv e = reports srv e (concat (map (blob_page_findings srv e now_seq) (pages_of PAGE_SIZE
    (sort_key bs_id (filter (\<lambda>r. bs_id r \<noteq> []) (blob_scan_rows (db a))))))) ()"
proof -
  let ?rows = "blob_scan_rows (db a)"
  let ?body = "\<lambda>rows. bind_op (collect_op (blob_job_of srv e now_seq) rows) (scan_blob_jobs srv e)"
  have rows: "length (filter (\<lambda>r. bs_id r > []) ?rows) < iv_fuel e"
    using assms(1) by (auto simp: at_rest_def blob_scan_rows_def intro: le_less_trans [OF length_filter_le])
  have body: "?body page = reports srv e (blob_page_findings srv e now_seq page) ()" if page: "set page \<subseteq> set ?rows" for page
    unfolding blob_page_findings_def scan_blob_jobs_def
  proof (rule reports_bind, rule reports_collect)
    fix row assume "row \<in> set page"
    with page show "blob_job_of srv e now_seq row = reports srv e (blob_row_findings srv now_seq row) (blob_job_for srv row)"
      by (intro report_blob_row [OF assms(1,3)]) auto
  next
    show "each_op (\<lambda>job. try_op (scan_blob_job srv e job) (record_blob_result srv e)) (List.map_filter (blob_job_for srv) page)
      = reports srv e (concat (map (blob_job_findings srv e) (List.map_filter (blob_job_for srv) page))) ()"
      by (rule reports_each) (use page in \<open>auto simp: map_filter_member intro: report_blob_job [OF assms(1,2)]\<close>)
  qed
  have "distinct (map bs_id ?rows)"
    using assms(3) by (simp add: keyed_def blob_scan_rows_def comp_def)
  from reports_pages [where B = "blob_page_findings srv e now_seq" and body = ?body, OF this body rows] show ?thesis
    by (simp add: scan_blob_rows_def assms(4) rest_query [OF assms(1)])
qed

section \<open>The tree and the whole scan\<close>

lemma report_tree:
  assumes "at_rest e a"
  shows "inventory_blob_files srv e = reports srv e (tree_findings srv a (iv_tree e)) ()"
proof -
  note fails = at_restD(2) [OF assms]
  note step = reports_pure [of _ srv e] reports_finding
  have unexpected: "unexpected_file srv e code = reports srv e (unexpected code) ()" for code
    by (simp add: unexpected_file_def unexpected_def step)
  have unowned: "record_unowned_blob_file_if_current srv e digest = reports srv e (unowned_findings srv a digest) ()" for digest
    by (simp add: record_unowned_blob_file_if_current_def unowned_findings_def rest_query [OF assms] at_restD [OF assms]
        unexpected step)
  have shard: "inventory_blob_shard srv e name = reports srv e (shard_findings srv a (iv_tree e) name) ()" for name
    unfolding inventory_blob_shard_def shard_findings_def
    by (rule reports_each_entry [OF fails]) (simp add: unowned unexpected step split: prod.split)
  have shards: "inventory_sha256_directory srv e = reports srv e (shards_findings srv a (iv_tree e)) ()"
    unfolding inventory_sha256_directory_def shards_findings_def
    by (rule reports_each_entry [OF fails]) (simp add: shard unexpected step split: prod.split)
  have "each_entry e ''blobs'' (bt_root (iv_tree e)) (\<lambda>(name, is_dir).
       if name = ''sha256''
       then (if is_dir then inventory_sha256_directory srv e
             else unexpected_file srv e ''blob_sha256_root_not_directory'')
       else if \<not> temporary_storage_name name then unexpected_file srv e ''noncanonical_blob_root_entry''
       else pure_op (Inr ()))
    = reports srv e (concat (map (\<lambda>(name, is_dir).
        if name = ''sha256''
        then (if is_dir then shards_findings srv a (iv_tree e) else unexpected ''blob_sha256_root_not_directory'')
        else if \<not> temporary_storage_name name then unexpected ''noncanonical_blob_root_entry''
        else []) (bt_root (iv_tree e)))) ()"
    by (rule reports_each_entry [OF fails]) (simp add: shards unexpected step split: prod.split)
  then show ?thesis
    by (simp add: inventory_blob_files_def tree_findings_def fails reject_if_def unexpected)
qed

lemma report_scan:
  assumes "at_rest e a" "within_i64 srv" "keyed (db a)" "sort_key_from_timestamp (iv_clock e At_Blobs) = Some now_seq"
  shows "scan_all srv e = reports srv e (archive_findings srv e a now_seq) ()"
  unfolding scan_all_def archive_findings_def
  by (rule reports_bind [OF report_database [OF assms(1)] reports_bind [OF report_dangling [OF assms(1,3)]
        reports_bind [OF report_tombstoned [OF assms(1,3)] reports_bind [OF report_snapshots [OF assms(1,2,3)]
        reports_bind [OF report_blob_rows [OF assms] report_tree [OF assms(1)]]]]]])

section \<open>What is recorded\<close>

definition clock_good :: "server \<Rightarrow> scan_env \<Rightarrow> bool" where
  "clock_good srv e = (\<forall>c. is_ok (scan_time srv e c))"

lemma clock_time:
  assumes "clock_good srv e"
  shows "\<exists>at seq. scan_time srv e c = Inr (at, seq)"
proof -
  have "is_ok (scan_time srv e c)" using assms by (simp add: clock_good_def)
  then show ?thesis by (cases "scan_time srv e c") (auto simp: is_ok_def)
qed

definition fresh_scan_ids :: "scan_env \<Rightarrow> integrity_tables \<Rightarrow> bool" where
  "fresh_scan_ids e saved =
     (inj (iv_new_id e) \<and> iv_new_id e None \<notin> ir_id ` set (it_runs saved)
      \<and> (\<forall>n. iv_new_id e (Some n) \<notin> if_id ` set (it_findings saved)))"

definition tally :: "finding list \<Rightarrow> integrity_finding_counts" where
  "tally found = foldl (\<lambda>counts (kind, severity, _). the (count_finding kind severity counts)) no_findings found"

definition severity_of :: "finding \<Rightarrow> integrity_severity" where
  "severity_of f = fst (snd f)"

definition kind_of :: "finding \<Rightarrow> integrity_finding_kind" where
  "kind_of f = fst f"

text \<open>The counts agree with each other, so no checked addition fails before the total overflows.\<close>

definition counts_wf :: "integrity_finding_counts \<Rightarrow> bool" where
  "counts_wf c =
     (fc_info c + fc_warning c + fc_error c = fc_total c \<and> sum_list (map snd (fc_by_kind c)) = fc_total c)"

lemma count_kind_ok:
  assumes "sum_list (map snd ks) < u64_max"
  shows "\<exists>ks'. count_kind k ks = Some ks' \<and> sum_list (map snd ks') = Suc (sum_list (map snd ks))"
  using assms
proof (induction k ks rule: count_kind.induct)
  case (2 k k' n rest)
  consider "k = k'" | "k \<noteq> k'" "k < k'" | "k \<noteq> k'" "\<not> k < k'" by blast
  then show ?case using 2 by cases (auto simp: checked_add_def)
qed simp

lemma count_finding_ok:
  assumes "counts_wf c" "fc_total c < u64_max"
  shows "\<exists>c'. count_finding kind severity c = Some c' \<and> counts_wf c' \<and> fc_total c' = Suc (fc_total c)
    \<and> fc_info c' = fc_info c + (if severity = Info then 1 else 0)
    \<and> fc_warning c' = fc_warning c + (if severity = Warning then 1 else 0)
    \<and> fc_error c' = fc_error c + (if severity = Error then 1 else 0)"
proof -
  have "sum_list (map snd (fc_by_kind c)) < u64_max" using assms by (simp add: counts_wf_def)
  from count_kind_ok [OF this] obtain ks where "count_kind (finding_kind_as_str kind) (fc_by_kind c) = Some ks"
    "sum_list (map snd ks) = Suc (sum_list (map snd (fc_by_kind c)))" by blast
  with assms show ?thesis
    by (cases severity) (auto simp: count_finding_def count_severity_def checked_add_def counts_wf_def)
qed

lemma tally_append: "tally (found @ [f]) = the (count_finding (kind_of f) (severity_of f) (tally found))"
  by (simp add: tally_def kind_of_def severity_of_def split: prod.split)

lemma tally_counts:
  assumes "length found \<le> u64_max"
  shows "counts_wf (tally found) \<and> fc_total (tally found) = length found
    \<and> fc_info (tally found) = length (filter (\<lambda>f. severity_of f = Info) found)
    \<and> fc_warning (tally found) = length (filter (\<lambda>f. severity_of f = Warning) found)
    \<and> fc_error (tally found) = length (filter (\<lambda>f. severity_of f = Error) found)"
  using assms
proof (induction found rule: rev_induct)
  case Nil
  show ?case by (simp add: tally_def no_findings_def counts_wf_def)
next
  case (snoc f found)
  then have "counts_wf (tally found)" "fc_total (tally found) < u64_max" by simp_all
  from count_finding_ok [OF this, of "kind_of f" "severity_of f"] snoc show ?case
    by (auto simp: tally_append)
qed

text \<open>The row of the \<open>n\<close>th finding of a scan.\<close>

definition finding_row_of :: "server \<Rightarrow> scan_env \<Rightarrow> nat \<times> finding \<Rightarrow> integrity_finding_row \<Rightarrow> bool" where
  "finding_row_of srv e = (\<lambda>(n, kind, severity, snapshot_id, artifact_id, blob_id, detail_code) row.
     if_id row = iv_new_id e (Some n) \<and> if_run_id row = iv_new_id e None
     \<and> if_owner_namespace row = ident_owner_namespace (srv_identity srv)
     \<and> if_kind row = finding_kind_as_str kind \<and> if_severity row = severity_as_str severity
     \<and> if_snapshot_id row = snapshot_id \<and> if_artifact_id row = artifact_id \<and> if_blob_id row = blob_id
     \<and> if_detail_code row = detail_code
     \<and> scan_time srv e (At_Finding n) = Inr (if_detected_at row, if_detected_at_seq row))"

text \<open>The state of the recorder after a list of findings: one row for every finding behind the rows
  that were there, and the first of them in the report.\<close>

definition recorded :: "server \<Rightarrow> scan_env \<Rightarrow> integrity_tables \<Rightarrow> finding list \<Rightarrow> scan_state \<Rightarrow> scan_state \<Rightarrow> bool" where
  "recorded srv e saved found s t =
     (sc_run_id t = iv_new_id e None \<and> sc_owner_namespace t = ident_owner_namespace (srv_identity srv)
      \<and> sc_started_at t = sc_started_at s \<and> sc_counts t = tally found
      \<and> it_runs (sc_tables t) = it_runs (sc_tables s)
      \<and> (\<exists>rows. it_findings (sc_tables t) = it_findings saved @ rows
           \<and> list_all2 (finding_row_of srv e) (enumerate 0 found) rows
           \<and> map Inr (sc_report t) = map finding_summary (take REPORT_FINDING_LIMIT rows)))"

lemma finding_rows_ids:
  assumes "list_all2 (finding_row_of srv e) (enumerate k found) rows"
  shows "if_id ` set rows = (\<lambda>n. iv_new_id e (Some n)) ` {k..<k + length found}"
  using assms
proof (induction found arbitrary: k rows)
  case (Cons f found)
  then obtain r rest where "rows = r # rest" "finding_row_of srv e (k, f) r"
    "list_all2 (finding_row_of srv e) (enumerate (Suc k) found) rest"
    by (auto simp: list_all2_Cons1)
  moreover have "{k..<k + length (f # found)} = insert k {Suc k..<Suc k + length found}" by auto
  ultimately show ?case using Cons.IH by (auto simp: finding_row_of_def)
qed simp

lemma finding_rows_read_back:
  assumes "list_all2 (finding_row_of srv e) (enumerate k found) rows"
    and "map Inr summaries = map finding_summary (take n rows)"
  shows "map (\<lambda>f. (ifs_kind f, ifs_severity f, ifs_snapshot_id f, ifs_artifact_id f, ifs_blob_id f, ifs_detail_code f))
    summaries = take n found"
  using assms
proof (induction found arbitrary: k rows n summaries)
  case (Cons f found)
  obtain r rest where rows: "rows = r # rest" "finding_row_of srv e (k, f) r"
    "list_all2 (finding_row_of srv e) (enumerate (Suc k) found) rest"
    using Cons.prems(1) by (auto simp: list_all2_Cons1)
  show ?case
  proof (cases n)
    case (Suc m)
    then obtain y ys where "summaries = y # ys" "finding_summary r = Inr y" "map Inr ys = map finding_summary (take m rest)"
      using Cons.prems(2) rows(1) by (cases summaries) auto
    with Cons.IH [OF rows(3)] rows(2) Suc show ?thesis
      by (cases f) (auto simp: finding_row_of_def finding_summary_def finding_kind_enum.parse_as_str
          severity_enum.parse_as_str)
  qed (use Cons.prems(2) in simp)
qed simp

lemma recorded_length:
  assumes "recorded srv e saved found s t"
  shows "length (sc_report t) = min REPORT_FINDING_LIMIT (length found)"
proof -
  obtain rows where rows: "list_all2 (finding_row_of srv e) (enumerate 0 found) rows"
    "map Inr (sc_report t) = map finding_summary (take REPORT_FINDING_LIMIT rows)"
    using assms by (auto simp: recorded_def)
  from arg_cong [OF rows(2), of length] list_all2_lengthD [OF rows(1)] show ?thesis by (simp add: min.commute)
qed

lemma record_one:
  assumes "recorded srv e saved found s t" "clock_good srv e" "\<And>n. \<not> iv_fails e (Insert_Finding n)"
    and "fresh_scan_ids e saved" "length found < u64_max"
  shows "\<exists>u. record_finding srv e kind severity a b c code t = (Inr (), u)
    \<and> recorded srv e saved (found @ [(kind, severity, a, b, c, code)]) s u"
proof -
  have tally: "counts_wf (tally found)" "fc_total (tally found) = length found"
    using tally_counts [of found] assms(5) by simp_all
  with count_finding_ok [of "tally found" kind severity] assms(5)
  obtain counts where counts: "count_finding kind severity (tally found) = Some counts" by auto
  obtain at seq where time: "scan_time srv e (At_Finding (length found)) = Inr (at, seq)"
    using clock_time [OF assms(2)] by blast
  obtain rows where rows: "it_findings (sc_tables t) = it_findings saved @ rows"
    "list_all2 (finding_row_of srv e) (enumerate 0 found) rows"
    "map Inr (sc_report t) = map finding_summary (take REPORT_FINDING_LIMIT rows)"
    using assms(1) by (auto simp: recorded_def)
  have new: "iv_new_id e (Some (length found)) \<notin> if_id ` set (it_findings (sc_tables t))"
    using assms(4) finding_rows_ids [OF rows(2)] unfolding rows(1)
    by (auto simp: fresh_scan_ids_def inj_eq image_Un)
  then have fresh: "\<not> list_ex (\<lambda>r. if_id r = iv_new_id e (Some (length found))) (it_findings (sc_tables t))"
    unfolding list_ex_iff by (metis imageI)
  have total: "fc_total (sc_counts t) = length found" using assms(1) tally by (simp add: recorded_def)
  have counts': "count_finding kind severity (sc_counts t) = Some counts" using assms(1) counts by (simp add: recorded_def)
  note len = recorded_length [OF assms(1)]
  let ?row = "\<lparr>if_id = iv_new_id e (Some (length found)), if_run_id = sc_run_id t, if_owner_namespace = sc_owner_namespace t,
     if_kind = finding_kind_as_str kind, if_severity = severity_as_str severity,
     if_snapshot_id = a, if_artifact_id = b, if_blob_id = c,
     if_detected_at = at, if_detected_at_seq = seq, if_detail_code = code\<rparr>"
  let ?summary = "\<lparr>ifs_finding_id = iv_new_id e (Some (length found)), ifs_run_id = sc_run_id t, ifs_kind = kind,
     ifs_severity = severity, ifs_snapshot_id = a, ifs_artifact_id = b, ifs_blob_id = c,
     ifs_detected_at = at, ifs_detail_code = code\<rparr>"
  let ?u = "t\<lparr>sc_tables := (sc_tables t)\<lparr>it_findings := it_findings (sc_tables t) @ [?row]\<rparr>, sc_counts := counts,
     sc_report := (if length (sc_report t) < REPORT_FINDING_LIMIT then sc_report t @ [?summary] else sc_report t)\<rparr>"
  have run: "record_finding srv e kind severity a b c code t = (Inr (), ?u)"
    using assms(3) fresh
    by (simp add: record_finding_def read_op_def total time reject_if_def bind_op_def modify_op_def
        persistence_def counts' Let_def)
  have size: "length rows = length found" using list_all2_lengthD [OF rows(2)] by simp
  have row: "finding_row_of srv e (length found, kind, severity, a, b, c, code) ?row" "finding_summary ?row = Inr ?summary"
    using assms(1) by (simp_all add: finding_row_of_def recorded_def time finding_summary_def
        finding_kind_enum.parse_as_str severity_enum.parse_as_str)
  have "list_all2 (finding_row_of srv e) (enumerate 0 (found @ [(kind, severity, a, b, c, code)])) (rows @ [?row])"
    using rows(2) row(1) by (simp add: enumerate_append_eq list_all2_append size)
  moreover have "map Inr (sc_report ?u) = map finding_summary (take REPORT_FINDING_LIMIT (rows @ [?row]))"
    using rows(3) row(2) len by (simp add: size min_def take_all)
  ultimately have "recorded srv e saved (found @ [(kind, severity, a, b, c, code)]) s ?u"
    unfolding recorded_def using assms(1) counts rows(1)
    by (intro conjI exI [of _ "rows @ [?row]"])
      (simp_all add: recorded_def tally_append kind_of_def severity_of_def)
  with run show ?thesis by blast
qed

lemma record_list:
  assumes "recorded srv e saved found s t" "clock_good srv e" "\<And>n. \<not> iv_fails e (Insert_Finding n)"
    and "fresh_scan_ids e saved" "length found + length more_found \<le> u64_max"
  shows "\<exists>u. record_all srv e more_found t = (Inr (), u) \<and> recorded srv e saved (found @ more_found) s u"
  using assms(1,5)
proof (induction more_found arbitrary: found t)
  case Nil
  then show ?case by (simp add: record_all_def pure_op_def)
next
  case (Cons f rest)
  obtain kind severity a b c code where f: "f = (kind, severity, a, b, c, code)" by (cases f)
  from record_one [OF Cons.prems(1) assms(2-4)] Cons.prems(2)
  obtain u where u: "record_finding srv e kind severity a b c code t = (Inr (), u)"
    "recorded srv e saved (found @ [f]) s u" unfolding f by force
  from Cons.IH [OF u(2)] Cons.prems(2) show ?case
    by (auto simp: record_all_def f bind_op_def u(1))
qed

section \<open>The report\<close>

definition status_for :: "finding list \<Rightarrow> integrity_run_status" where
  "status_for found = (if \<exists>f \<in> set found. severity_of f \<noteq> Info then ActionRequired else Healthy)"

lemma not_info: "severity \<noteq> Info \<longleftrightarrow> severity = Warning \<or> severity = Error"
  by (cases severity) simp_all

lemma final_status_tally:
  assumes "length found \<le> u64_max"
  shows "final_status (tally found) = status_for found"
proof -
  have "(fc_warning (tally found) \<noteq> 0 \<or> fc_error (tally found) \<noteq> 0) \<longleftrightarrow> (\<exists>f \<in> set found. severity_of f \<noteq> Info)"
    using tally_counts [OF assms] by (auto simp: not_info filter_empty_conv)
  then show ?thesis by (simp add: final_status_def status_for_def)
qed

text \<open>The row of the run when the scan is over.\<close>

definition closed_run :: "server \<Rightarrow> scan_env \<Rightarrow> finding list \<Rightarrow> integrity_run_row \<Rightarrow> bool" where
  "closed_run srv e found run =
     (ir_id run = iv_new_id e None \<and> ir_owner_namespace run = ident_owner_namespace (srv_identity srv)
      \<and> scan_time srv e At_Begin = Inr (ir_started_at run, ir_started_at_seq run)
      \<and> (\<exists>at seq. scan_time srv e At_End = Inr (at, seq) \<and> ir_completed_at run = Some at \<and> ir_completed_at_seq run = Some seq)
      \<and> ir_status run = run_status_as_str (status_for found)
      \<and> ir_finding_count run = int (length found)
      \<and> ir_info_count run = int (length (filter (\<lambda>f. severity_of f = Info) found))
      \<and> ir_warning_count run = int (length (filter (\<lambda>f. severity_of f = Warning) found))
      \<and> ir_error_count run = int (length (filter (\<lambda>f. severity_of f = Error) found)))"

text \<open>The row of the run is the one the scan opened, so it is closed exactly once.\<close>

lemma scan_at_rest:
  assumes rest: "at_rest e a" "within_i64 srv" "keyed (db a)"
    and env: "clock_good srv e" "fresh_scan_ids e saved"
    and now: "sort_key_from_timestamp (iv_clock e At_Blobs) = Some now_seq"
    and found: "found = archive_findings srv e a now_seq" "length found \<le> i64_max"
  shows "\<exists>rp run rows. scan_archive srv e saved =
      (Inr rp, saved\<lparr>it_runs := it_runs saved @ [run], it_findings := it_findings saved @ rows\<rparr>)
    \<and> closed_run srv e found run \<and> list_all2 (finding_row_of srv e) (enumerate 0 found) rows
    \<and> rp_run_id rp = iv_new_id e None \<and> rp_counts rp = tally found \<and> rp_status rp = status_for found
    \<and> map Inr (rp_findings rp) = map finding_summary (take REPORT_FINDING_LIMIT rows)
    \<and> rp_findings_truncated rp = (REPORT_FINDING_LIMIT < length found)"
proof -
  have bound: "length found \<le> u64_max" using found(2) by (simp add: i64_max_def u64_max_def)
  obtain at seq where time: "scan_time srv e At_Begin = Inr (at, seq)" using clock_time [OF env(1)] by blast
  obtain at' seq' where time': "scan_time srv e At_End = Inr (at', seq')" using clock_time [OF env(1)] by blast
  let ?run = "iv_new_id e None" and ?ns = "ident_owner_namespace (srv_identity srv)"
  let ?open = "\<lparr>ir_id = ?run, ir_owner_namespace = ?ns, ir_started_at = at, ir_started_at_seq = seq,
     ir_completed_at = None, ir_completed_at_seq = None, ir_status = run_status_as_str Running,
     ir_finding_count = 0, ir_info_count = 0, ir_warning_count = 0, ir_error_count = 0\<rparr>"
  let ?s = "\<lparr>sc_tables = saved\<lparr>it_runs := it_runs saved @ [?open]\<rparr>, sc_run_id = ?run, sc_owner_namespace = ?ns,
     sc_started_at = at, sc_counts = no_findings, sc_report = []\<rparr>"
  have new: "?run \<notin> ir_id ` set (it_runs saved)" using env(2) by (simp add: fresh_scan_ids_def)
  then have unopened: "\<not> (\<exists>r \<in> set (it_runs saved). ir_id r = ?run)" by (metis imageI)
  then have s: "begin_scan srv e saved = Inr ?s"
    by (simp add: begin_scan_def time at_restD(2) [OF rest(1)] reject_if_def list_ex_iff Let_def)
  have start: "recorded srv e saved [] ?s ?s"
    by (simp add: recorded_def tally_def)
  from record_list [OF start env(1) _ env(2), of found] at_restD(2) [OF rest(1)] bound
  obtain t where t: "record_all srv e found ?s = (Inr (), t)" "recorded srv e saved found ?s t" by auto
  obtain rows where rows: "it_findings (sc_tables t) = it_findings saved @ rows"
    "list_all2 (finding_row_of srv e) (enumerate 0 found) rows"
    "map Inr (sc_report t) = map finding_summary (take REPORT_FINDING_LIMIT rows)"
    using t(2) by (auto simp: recorded_def)
  have state: "it_runs (sc_tables t) = it_runs saved @ [?open]" "sc_run_id t = ?run" "sc_owner_namespace t = ?ns"
    "sc_counts t = tally found"
    using t(2) by (simp_all add: recorded_def)
  have all: "scan_all srv e ?s = (Inr (), t)"
    using report_scan [OF rest now] t(1) by (simp add: found(1) [symmetric] reports_def bind_op_unit)
  note tally = conjunct2 [OF tally_counts [OF bound]]
  have fits: "fc_total (tally found) \<le> i64_max" "fc_info (tally found) \<le> i64_max"
    "fc_warning (tally found) \<le> i64_max" "fc_error (tally found) \<le> i64_max" "fc_total (tally found) = length found"
    using tally_counts [OF bound] found(2) by (auto intro: le_trans [OF length_filter_le])
  have none: "filter (\<lambda>r. ir_id r = ?run \<and> ir_status r = run_status_as_str Running) (it_runs saved) = []"
    using unopened by (auto simp: filter_empty_conv)
  have kept: "map (close_run ?run x1 x2 x3 x4 x5 x6 x7) (it_runs saved) = it_runs saved" for x1 x2 x3 x4 x5 x6 x7
    using unopened by (intro map_idI) (auto simp: close_run_def)
  let ?closed = "close_run ?run at' seq' (run_status_as_str (status_for found)) (int (length found))
     (int (fc_info (tally found))) (int (fc_warning (tally found))) (int (fc_error (tally found))) ?open"
  let ?t = "t\<lparr>sc_tables := (sc_tables t)\<lparr>it_runs := it_runs saved @ [?closed]\<rparr>\<rparr>"
  let ?rp = "\<lparr>rp_run_id = ?run, rp_owner_namespace = ?ns, rp_status = status_for found,
      rp_started_at = sc_started_at t, rp_completed_at = at', rp_counts = tally found, rp_findings = sc_report t,
      rp_findings_truncated = (length (sc_report t) < length found)\<rparr>"
  have finish: "complete_scan srv e t = (Inr ?rp, ?t)"
    by (simp add: complete_scan_def finish_run_def state time' persistence_def i64_try_from_def fits found(2)
        read_op_def bind_op_def modify_op_def pure_op_def at_restD(2) [OF rest(1)] reject_if_def Let_def none [simplified]
        kept final_status_tally [OF bound])
  have tables: "sc_tables ?t = saved\<lparr>it_runs := it_runs saved @ [?closed], it_findings := it_findings saved @ rows\<rparr>"
    using rows(1) by (cases saved) (cases "sc_tables t", simp)
  have "closed_run srv e found ?closed"
    using tally by (simp add: closed_run_def close_run_def time time')
  moreover have "(length (sc_report t) < length found) = (REPORT_FINDING_LIMIT < length found)"
    using recorded_length [OF t(2)] by auto
  moreover have "scan_archive srv e saved
      = (Inr ?rp, saved\<lparr>it_runs := it_runs saved @ [?closed], it_findings := it_findings saved @ rows\<rparr>)"
    unfolding tables [symmetric] by (simp only: scan_archive_def s all finish sum.case prod.case)
  ultimately show ?thesis
    using rows(2,3) by (intro exI [of _ ?rp] exI [of _ ?closed] exI [of _ rows] conjI) simp_all
qed

end
