(* ===== verification/Integrity_Trust.thy ===== *)
theory Integrity_Trust
  imports Integrity_Report Archive_Contents
begin

text \<open>
  What it means that a scan of an archive at rest found no damage: every blob file is intact, the
  rows of every live snapshot agree with its canonical manifest, every artifact of a live snapshot can
  be read back, and every file in the canonical tree belongs to a row.
\<close>

section \<open>Checks of files at rest\<close>

lemma hash_loop_ok:
  assumes "maximum_size \<le> u64_max" "seen \<le> maximum_size"
  shows "hash_loop maximum_size (seen, hashed) reads = Inr r \<longleftrightarrow>
     seen + length (concat reads) \<le> maximum_size
       \<and> r = (seen + length (concat reads), hashed @ concat reads)"
  using assms
proof (induction reads arbitrary: seen hashed)
  case (Cons b bs)
  show ?case
  proof (cases "seen + length b \<le> maximum_size")
    case True
    with Cons show ?thesis by (simp add: checked_add_def reject_if_def add.assoc)
  next
    case False
    with Cons.prems show ?thesis
      by (auto simp: and_then_eq_Inr reject_if_eq_Inr ok_or_eq_Inr checked_add_eq_Some)
  qed
qed auto

lemma hash_content_ok:
  assumes "maximum_size \<le> u64_max" "0 < buffer_size"
  shows "hash_content x delivered maximum_size buffer_size = Inr r \<longleftrightarrow>
     snd delivered \<and> length (fst delivered) \<le> maximum_size
       \<and> r = (length (fst delivered), sha256_hex x (fst delivered))"
  using assms by (auto simp: hash_content_def and_then_eq_Inr reject_if_eq_Inr hash_loop_ok concat_pages_of)

lemma hash_content_exact:
  "maximum_size \<le> u64_max \<Longrightarrow> 0 < buffer_size \<Longrightarrow> length bs \<le> maximum_size \<Longrightarrow>
     hash_content x (bs, True) maximum_size buffer_size = Inr (length bs, sha256_hex x bs)"
  by (simp add: hash_content_ok)

lemma delivered_at_rest: "at_rest e a \<Longrightarrow> delivered_bytes e k bs = (bs, True)"
  by (simp add: delivered_bytes_def at_rest_def)

lemma stored_file_healthy:
  assumes "at_rest e a" "n \<le> u64_max"
  shows "scan_stored_file x e k digest n = Stored_Healthy \<longleftrightarrow>
     (\<exists>bs. blob_file (fs a) digest = Some (Regular bs) \<and> length bs = n \<and> sha256_hex x bs = digest)"
  using assms
  by (auto simp: scan_stored_file_def at_restD [OF assms(1)] delivered_at_rest [OF assms(1)] hash_content_exact
      split: option.splits entry.splits sum.splits hash_read_error.splits prod.splits)

lemma stored_file_not_transient: "at_rest e a \<Longrightarrow> scan_stored_file x e k digest n \<noteq> Stored_Transient"
  by (auto simp: scan_stored_file_def at_restD
      split: option.splits entry.splits sum.splits hash_read_error.splits prod.splits)

lemma original_file_healthy:
  assumes "at_rest e a" "aj_stored_size_bytes job \<le> u64_max" "aj_original_size_bytes job \<le> u64_max"
    and "scan_artifact_original_file x e job = Original_Healthy"
  shows "\<exists>bs original. blob_file (fs a) (aj_stored_sha256 job) = Some (Regular bs)
    \<and> original_stream x (aj_compression job) bs = Inr original
    \<and> length original = aj_original_size_bytes job \<and> sha256_hex x original = aj_original_sha256 job"
proof -
  note rest = at_restD [OF assms(1)]
  obtain bs where bs: "blob_file (fs a) (aj_stored_sha256 job) = Some (Regular bs)"
    using assms(4) by (auto simp: scan_artifact_original_file_def Let_def rest split: if_splits option.splits entry.splits)
  with assms(4) have "hash_content x (original_delivered x e (aj_compression job) (bs, True))
      (aj_original_size_bytes job) (iv_buffer_bytes e) = Inr (aj_original_size_bytes job, aj_original_sha256 job)"
    by (auto simp: scan_artifact_original_file_def Let_def rest delivered_at_rest [OF assms(1)]
        split: if_splits sum.splits hash_read_error.splits prod.splits)
  with bs show ?thesis
    by (auto simp: hash_content_ok [OF assms(3) rest(5)] original_delivered_def original_stream_def ok_or_def
        split: compression.splits option.splits)
qed

lemma original_file_healthyI:
  assumes "at_rest e a" "aj_stored_size_bytes job \<le> u64_max"
    and "scan_stored_file x e (Artifact_Check (aj_artifact_id job)) (aj_stored_sha256 job) (aj_stored_size_bytes job) = Stored_Healthy"
    and "\<forall>code. scan_artifact_original_file x e job \<noteq> Original_Mismatch code"
  shows "scan_artifact_original_file x e job = Original_Healthy"
proof -
  note rest = at_restD [OF assms(1)]
  obtain bs where "blob_file (fs a) (aj_stored_sha256 job) = Some (Regular bs)"
    using assms(3) by (auto simp: stored_file_healthy [OF assms(1,2)])
  with assms(3,4) show ?thesis
    by (auto simp: scan_artifact_original_file_def Let_def rest
        split: if_splits sum.splits hash_read_error.splits prod.splits)
qed

section \<open>Blob rows\<close>

definition clean :: "finding list \<Rightarrow> bool" where
  "clean found = (\<forall>f \<in> set found. severity_of f \<noteq> Error)"

lemma clean_simps [simp]:
  "clean []" "clean (f # found) \<longleftrightarrow> severity_of f \<noteq> Error \<and> clean found"
  "clean (xs @ ys) \<longleftrightarrow> clean xs \<and> clean ys" "clean (concat xss) \<longleftrightarrow> (\<forall>xs \<in> set xss. clean xs)"
  by (auto simp: clean_def)

lemma severity_of_simps [simp]: "severity_of (kind, severity, rest) = severity"
  by (simp add: severity_of_def)

lemma member_pages_of:
  assumes "0 < n" "x \<in> set xs"
  shows "\<exists>page \<in> set (pages_of n xs). x \<in> set page"
proof -
  have "x \<in> set (concat (pages_of n xs))" using assms by (simp add: concat_pages_of)
  then show ?thesis by auto
qed

lemma clean_blob_rows:
  assumes "at_rest e a" "within_i64 srv" "clean (archive_findings srv e a now_seq)"
    and "b \<in> set (db_blobs (db a))" "bl_id b \<noteq> []"
  shows "\<exists>bs. blob_stored (ext srv) (fs a) b bs"
proof -
  let ?rows = "sort_key bs_id (filter (\<lambda>r. bs_id r \<noteq> []) (blob_scan_rows (db a)))"
  have "\<exists>row \<in> set (blob_scan_rows (db a)). bs_id row = bl_id b \<and> bs_stored_sha256 row = bl_stored_sha256 b
      \<and> bs_stored_size_bytes row = bl_stored_size_bytes b"
    unfolding blob_scan_rows_def set_map by (rule bexI [OF _ imageI [OF assms(4)]]) simp
  then obtain row where row: "row \<in> set ?rows" "bs_id row = bl_id b" "bs_stored_sha256 row = bl_stored_sha256 b"
    "bs_stored_size_bytes row = bl_stored_size_bytes b"
    using assms(5) by auto
  from member_pages_of [OF _ row(1), of PAGE_SIZE] obtain page where
    page: "page \<in> set (pages_of PAGE_SIZE ?rows)" "row \<in> set page" by (auto simp: PAGE_SIZE_def)
  with assms(3) have "clean (blob_page_findings srv e now_seq page)"
    unfolding archive_findings_def by auto
  then have rows: "clean (blob_row_findings srv now_seq row)"
    and jobs: "\<And>job. job \<in> set (List.map_filter (blob_job_for srv) page) \<Longrightarrow> clean (blob_job_findings srv e job)"
    using page(2) by (auto simp: blob_page_findings_def)
  from rows obtain n where n: "valid_blob_size srv row = Some n"
    by (auto simp: blob_row_findings_def split: if_splits)
  let ?job = "\<lparr>bj_blob_id = bs_id row, bj_stored_sha256 = bs_stored_sha256 row, bj_stored_size_bytes = n\<rparr>"
  have "?job \<in> set (List.map_filter (blob_job_for srv) page)"
    using page(2) n by (auto simp: map_filter_member blob_job_for_def)
  from jobs [OF this] have "scan_stored_file (ext srv) e (Blob_Check (bs_id row)) (bs_stored_sha256 row) n = Stored_Healthy"
    using stored_file_not_transient [OF assms(1), of "ext srv" "Blob_Check (bs_id row)" "bs_stored_sha256 row" n]
    by (cases "scan_stored_file (ext srv) e (Blob_Check (bs_id row)) (bs_stored_sha256 row) n")
      (simp_all add: blob_job_findings_def)
  moreover have "n \<le> u64_max"
    using valid_blob_sizeD [OF n] assms(2) by (simp add: within_i64_def i64_max_def u64_max_def)
  ultimately show ?thesis
    using valid_blob_sizeD [OF n] row
    by (auto simp: stored_file_healthy [OF assms(1)] blob_stored_def)
qed

section \<open>Canonical manifests\<close>

lemma normalized_artifacts:
  assumes "normalize_manifest x (input_of_manifest m) limits = Inr n" "sorted_wrt (<) (map logical_path (artifacts m))"
  shows "artifacts n = artifacts m"
proof -
  from assms(1) have "artifacts n = sort_key logical_path (map artifact_of_input (map input_of_artifact (artifacts m)))"
    by (auto simp: normalize_manifest_iff normalize_artifacts_iff input_of_manifest_def manifest_artifact_inputs_def)
  moreover have "sorted (map logical_path (artifacts m))"
    using assms(2) by (metis strict_sorted_imp_sorted)
  ultimately show ?thesis by (simp add: sort_key_id_if_sorted)
qed

lemma map_error_eq_Inr: "map_error f r = Inr v \<longleftrightarrow> r = Inr v"
  by (simp add: map_error_def split: sum.split)

text \<open>What a reconciliation that succeeds says of the joined rows.\<close>

lemma reconciledD:
  assumes "reconcile_snapshot x sid d = Inr ()"
  obtains s mf m where "live_snapshot d sid = Some s" "manifest_by_id d (sn_manifest_id s) = Some mf"
    and "manifest_from_json x (mf_canonical_json mf) = Some m" "length (artifacts m) \<le> i64_max"
    and "list_all2 describes_joined (snapshot_artifact_rows d sid) (enumerate 0 (artifacts m))"
proof -
  obtain s mf m where s: "live_snapshot d sid = Some s" "manifest_by_id d (sn_manifest_id s) = Some mf"
    "manifest_from_json x (mf_canonical_json mf) = Some m" "length (artifacts m) \<le> i64_max"
    and len: "length (snapshot_artifact_rows d sid) = length (artifacts m)"
    and each: "try_each reconcile_artifact (enumerate 0 (zip (artifacts m) (snapshot_artifact_rows d sid))) = Inr ()"
    using assms
    by (auto simp: reconcile_snapshot_def and_then_eq_Inr ok_or_eq_Inr reject_if_eq_Inr Let_def i64_try_from_eq_Some
        map_error_eq_Inr split: option.splits)
  have "list_all2 describes_joined (snapshot_artifact_rows d sid) (enumerate 0 (artifacts m))"
  proof (rule list_all2_all_nthI)
    fix i assume i: "i < length (snapshot_artifact_rows d sid)"
    obtain r b where rb: "snapshot_artifact_rows d sid ! i = (r, b)" by fastforce
    have "(i, artifacts m ! i, r, b) \<in> set (enumerate 0 (zip (artifacts m) (snapshot_artifact_rows d sid)))"
      using i len rb by (auto simp: in_set_enumerate_eq)
    with each have "reconcile_artifact (i, artifacts m ! i, r, b) = Inr ()" unfolding try_each_eq_Inr by blast
    moreover have "(r, b) \<in> set (snapshot_artifact_rows d sid)" using i rb by (metis nth_mem)
    then have "bl_id b = ar_blob_id r" by (auto simp: snapshot_artifact_rows_def)
    ultimately show "describes_joined (snapshot_artifact_rows d sid ! i) (enumerate 0 (artifacts m) ! i)"
      using i len rb
      by (auto simp: describes_joined_def reconcile_artifact_def nth_enumerate_eq and_then_eq_Inr ok_or_eq_Inr
          reject_if_eq_Inr i64_try_from_eq_Some stored_digest_def)
  qed (simp add: len)
  with s show ?thesis by (rule that)
qed

lemma reconcile_found:
  assumes "live_snapshot d sid = Some s" "manifest_by_id d (sn_manifest_id s) = Some mf"
  shows "reconcile_snapshot x sid d \<noteq> Inl Reconcile_Not_Found"
proof -
  have "errors_in (\<lambda>err. err \<noteq> Reconcile_Not_Found) (reconcile_snapshot x sid d)"
    unfolding reconcile_snapshot_def Let_def reconcile_artifact_def map_error_def assms
    by (auto simp: assms intro!: error_intros split: sum.splits prod.splits)
  then show ?thesis by auto
qed

text \<open>The row of a live snapshot and what a clean scan of it says.\<close>

definition ids_given :: "database \<Rightarrow> bool" where
  "ids_given d =
     ((\<forall>s \<in> set (db_snapshots d). sn_id s \<noteq> []) \<and> (\<forall>b \<in> set (db_blobs d). bl_id b \<noteq> [])
      \<and> (\<forall>a \<in> set (db_artifacts d). ar_id a \<noteq> []))"

definition canonical_documents :: "externals \<Rightarrow> database \<Rightarrow> bool" where
  "canonical_documents x d =
     (\<forall>mf \<in> set (db_manifests d). \<forall>m. manifest_from_json x (mf_canonical_json mf) = Some m \<longrightarrow>
        sorted_wrt (<) (map logical_path (artifacts m)))"

lemma first_of_equals:
  "xs \<noteq> [] \<Longrightarrow> (\<And>z. z \<in> set xs \<Longrightarrow> z = y) \<Longrightarrow> (case xs of [] \<Rightarrow> None | z # _ \<Rightarrow> Some z) = Some y"
  by (cases xs) auto

lemma manifest_document_keyed:
  assumes "keyed d" "s \<in> set (db_snapshots d)" "manifest_by_id d (sn_manifest_id s) = Some mf"
    and "int (length (mf_canonical_json mf)) \<le> limit"
  shows "manifest_document limit (sn_id s) d = Some mf"
proof -
  let ?docs = "[m. s' \<leftarrow> db_snapshots d, sn_id s' = sn_id s, m \<leftarrow> db_manifests d, mf_id m = sn_manifest_id s',
    int (length (mf_canonical_json m)) \<le> limit]"
  have mf: "mf \<in> set (db_manifests d)" "mf_id mf = sn_manifest_id s"
    using find_SomeD [OF assms(3) [unfolded manifest_by_id_def]] by simp_all
  have "mf \<in> set ?docs" using assms(2,4) mf by auto
  then have "?docs \<noteq> []" by (metis empty_iff list.set(1))
  moreover have "m = mf" if "m \<in> set ?docs" for m
  proof -
    obtain s' where s': "s' \<in> set (db_snapshots d)" "sn_id s' = sn_id s" "m \<in> set (db_manifests d)" "mf_id m = sn_manifest_id s'"
      using \<open>m \<in> set ?docs\<close> by auto
    have "s' = s" by (rule distinct_key_eq [of sn_id "db_snapshots d"]) (use assms(1,2) s' in \<open>auto simp: keyed_def\<close>)
    with s' mf show "m = mf"
      by (intro distinct_key_eq [of mf_id "db_manifests d"]) (use assms(1) in \<open>auto simp: keyed_def\<close>)
  qed
  ultimately show ?thesis unfolding manifest_document_def by (rule first_of_equals)
qed

lemma clean_live_snapshot:
  assumes "keyed (db a)" "ids_given (db a)" "canonical_documents (ext srv) (db a)"
    and "iv_max_request_body_bytes e \<le> i64_max"
    and clean: "clean (archive_findings srv e a now_seq)"
    and live: "live_snapshot (db a) sid = Some s"
  obtains mf m n where "manifest_by_id (db a) (sn_manifest_id s) = Some mf"
    "manifest_from_json (ext srv) (mf_canonical_json mf) = Some m"
    "sha256_hex (ext srv) (string_bytes (mf_canonical_json mf)) = mf_sha256 mf"
    "normalize_manifest (ext srv) (input_of_manifest m) (srv_limits srv) = Inr n" "artifacts n = artifacts m"
    "reconcile_snapshot (ext srv) sid (db a) = Inr ()" "clean (artifacts_findings srv e a sid n)"
proof -
  note s = live_snapshot_SomeD [OF live]
  let ?row = "let m = manifest_by_id (db a) (sn_manifest_id s);
      t = find (\<lambda>t. ts_snapshot_id t = sn_id s) (db_tombstones (db a)) in
    \<lparr>ss_id = sn_id s, ss_deleted_at = sn_deleted_at s, ss_manifest_row_id = map_option mf_id m,
     ss_manifest_size_bytes = map_option (\<lambda>m. int (length (mf_canonical_json m))) m,
     ss_tombstone_id = map_option ts_id t\<rparr>"
  have "?row \<in> set (snapshot_scan_rows (db a))"
    unfolding snapshot_scan_rows_keyed [OF assms(1)] set_map using s(1) by (rule imageI)
  moreover have "ss_id ?row \<noteq> []" using assms(2) s(1) by (simp add: ids_given_def Let_def)
  ultimately have row: "clean (snapshot_findings srv e a ?row)"
    using clean by (simp add: archive_findings_def)
  then obtain mf where mf: "manifest_by_id (db a) (sn_manifest_id s) = Some mf"
    by (cases "manifest_by_id (db a) (sn_manifest_id s)") (auto simp: snapshot_findings_def Let_def)
  have size: "length (mf_canonical_json mf) \<le> iv_max_request_body_bytes e"
    using row by (auto simp: snapshot_findings_def Let_def mf split: if_splits)
  note document = manifest_document_keyed [OF assms(1) s(1) mf, of "int (iv_max_request_body_bytes e)"]
  have hash: "sha256_hex (ext srv) (string_bytes (mf_canonical_json mf)) = mf_sha256 mf"
    and analysis: "ma_manifest (analyze_manifest (ext srv) (srv_limits srv) (mf_canonical_json mf)) \<noteq> None"
    using row document size
    by (auto simp: snapshot_findings_def Let_def mf analyze_manifest_def split: if_splits option.splits)
  then obtain m n where m: "manifest_from_json (ext srv) (mf_canonical_json mf) = Some m"
    "normalize_manifest (ext srv) (input_of_manifest m) (srv_limits srv) = Inr n"
    by (auto simp: analyze_manifest_def validate_manifest_schema_Some Let_def bind_eq_Some_conv)
  have n: "ma_manifest (analyze_manifest (ext srv) (srv_limits srv) (mf_canonical_json mf)) = Some n"
    using m by (simp add: analyze_manifest_def Let_def validate_manifest_schema_Some)
  have "mf \<in> set (db_manifests (db a))" using find_SomeD [OF mf [unfolded manifest_by_id_def]] by simp
  with assms(3) m(1) have sorted: "sorted_wrt (<) (map logical_path (artifacts m))"
    by (simp add: canonical_documents_def)
  have "reconcile_snapshot (ext srv) (sn_id s) (db a) \<noteq> Inl Reconcile_Not_Found"
    using reconcile_found [OF live mf] s(2) by simp
  then have "reconcile_snapshot (ext srv) (sn_id s) (db a) = Inr () \<and> clean (artifacts_findings srv e a (sn_id s) n)"
    using row document size s(3)
    by (cases "reconcile_snapshot (ext srv) (sn_id s) (db a)")
      (auto simp: snapshot_findings_def Let_def mf n split: reconciliation_error.splits)
  then have "reconcile_snapshot (ext srv) sid (db a) = Inr ()" "clean (artifacts_findings srv e a sid n)"
    using s(2) by simp_all
  with that [OF mf m(1) hash m(2) normalized_artifacts [OF m(2) sorted]] show thesis by blast
qed

section \<open>Artifacts of a live snapshot\<close>

lemma joined_index:
  assumes "list_all2 describes_joined rows (enumerate 0 xs)" "j < length rows" "rows ! j = (r, b)"
  shows "ar_artifact_index r = int j" "describes_joined (r, b) (j, xs ! j)" "j < length xs"
proof -
  show len: "j < length xs" using list_all2_lengthD [OF assms(1)] assms(2) by simp
  show "describes_joined (r, b) (j, xs ! j)"
    using list_all2_nthD [OF assms(1,2)] assms(3) len by (simp add: nth_enumerate_eq)
  then show "ar_artifact_index r = int j" by (simp add: describes_joined_def)
qed

lemma projected_row:
  assumes "keyed d" "list_all2 describes_joined (snapshot_artifact_rows d sid) (enumerate 0 xs)"
    and "\<And>r. r \<in> set (db_artifacts d) \<Longrightarrow> ar_snapshot_id r = sid \<Longrightarrow> \<exists>b \<in> set (db_blobs d). bl_id b = ar_blob_id r"
    and "i < length (snapshot_artifact_rows d sid)" "snapshot_artifact_rows d sid ! i = (r, b)"
  shows "find (\<lambda>(row, _). ar_artifact_index row = int i) (artifact_projection sid d) = Some (r, Some b)"
proof -
  have blobs: "distinct (map bl_id (db_blobs d))" using assms(1) by (simp add: keyed_def)
  have member: "(q, ob) \<in> set (artifact_projection sid d) \<longleftrightarrow>
      q \<in> set (db_artifacts d) \<and> ar_snapshot_id q = sid \<and> ob = find (\<lambda>b. bl_id b = ar_blob_id q) (db_blobs d)" for q ob
    by (auto simp: artifact_projection_def left_join_key [OF blobs])
  have joined: "q \<in> set (db_artifacts d) \<and> ar_snapshot_id q = sid \<and> find (\<lambda>b. bl_id b = ar_blob_id q) (db_blobs d) = Some c"
    if "(q, c) \<in> set (snapshot_artifact_rows d sid)" for q c
  proof -
    have "q \<in> set (db_artifacts d)" "ar_snapshot_id q = sid" "c \<in> set (db_blobs d)" "bl_id c = ar_blob_id q"
      using that by (auto simp: snapshot_artifact_rows_def)
    with find_unique [OF blobs] show ?thesis by blast
  qed
  have "(r, b) \<in> set (snapshot_artifact_rows d sid)" using assms(4,5) by (metis nth_mem)
  note rb = joined [OF this]
  then have there: "(r, Some b) \<in> set (artifact_projection sid d)" by (simp add: member)
  have "ar_artifact_index r = int i" by (rule joined_index [OF assms(2,4,5)])
  with there obtain q ob where q: "find (\<lambda>(row, _). ar_artifact_index row = int i) (artifact_projection sid d) = Some (q, ob)"
    by (cases "find (\<lambda>(row, _). ar_artifact_index row = int i) (artifact_projection sid d)") (auto simp: find_None)
  from find_SomeD [OF q] have q': "(q, ob) \<in> set (artifact_projection sid d)" "ar_artifact_index q = int i" by simp_all
  then obtain c where "c \<in> set (db_blobs d)" "bl_id c = ar_blob_id q" using assms(3) by (auto simp: member)
  with q' have "(q, c) \<in> set (snapshot_artifact_rows d sid)" by (auto simp: member snapshot_artifact_rows_def)
  then obtain j where j: "j < length (snapshot_artifact_rows d sid)" "snapshot_artifact_rows d sid ! j = (q, c)"
    by (metis in_set_conv_nth)
  from joined_index(1) [OF assms(2) j] q'(2) have "j = i" by simp
  with j(2) assms(5) have "q = r" by simp
  with q' rb q show ?thesis by (simp add: member)
qed

lemma document_digest_valid: "validate_digest v = Inr () \<Longrightarrow> document_digest v = Some (digest_storage_value v)"
  using canonical_digest_valid(1) [of v] by (simp add: document_digest_def canonical_digest_def)

lemma clean_references:
  assumes "clean (archive_findings srv e a now_seq)" "ids_given (db a)"
    and "r \<in> set (db_artifacts (db a))" "ar_snapshot_id r \<in> live_ids (db a)"
  shows "\<exists>b \<in> set (db_blobs (db a)). bl_id b = ar_blob_id r"
proof (rule ccontr)
  assume "\<not> (\<exists>b \<in> set (db_blobs (db a)). bl_id b = ar_blob_id r)"
  with assms(3,4) have "r \<in> set (dangling_artifacts (db a))"
    by (auto simp: dangling_artifacts_def list_ex_iff live_ids_def)
  with assms(2,3) have "r \<in> set (sort_key ar_id (filter (\<lambda>a. ar_id a \<noteq> []) (dangling_artifacts (db a))))"
    by (simp add: ids_given_def)
  then have "\<not> clean (artifact_reference_findings ArtifactBlobReferenceMissing ''artifact_references_missing_blob_row''
      (dangling_artifacts (db a)))"
    by (auto simp: artifact_reference_findings_def clean_def)
  with assms(1) show False by (simp add: archive_findings_def)
qed

lemma clean_artifact_readable:
  assumes rest: "at_rest e a" "within_i64 srv" "keyed (db a)"
    and ids: "ids_given (db a)" "canonical_documents (ext srv) (db a)"
    and clean: "clean (archive_findings srv e a now_seq)"
    and r: "r \<in> set (db_artifacts (db a))" "ar_snapshot_id r \<in> live_ids (db a)"
  shows "readable (ext srv) (db a) (fs a) r"
proof -
  let ?sid = "ar_snapshot_id r"
  obtain s where s: "live_snapshot (db a) ?sid = Some s" using r(2) live_snapshot_None [of "db a" ?sid] by auto
  obtain mf m n where mf: "manifest_by_id (db a) (sn_manifest_id s) = Some mf"
    "manifest_from_json (ext srv) (mf_canonical_json mf) = Some m"
    and n: "normalize_manifest (ext srv) (input_of_manifest m) (srv_limits srv) = Inr n" "artifacts n = artifacts m"
    and ok: "reconcile_snapshot (ext srv) ?sid (db a) = Inr ()" "clean (artifacts_findings srv e a ?sid n)"
    by (rule clean_live_snapshot [OF rest(3) ids at_restD(6) [OF rest(1)] clean s])
  from ok(1) obtain s' mf' m' where "live_snapshot (db a) ?sid = Some s'" "manifest_by_id (db a) (sn_manifest_id s') = Some mf'"
    "manifest_from_json (ext srv) (mf_canonical_json mf') = Some m'"
    and len: "length (artifacts m') \<le> i64_max"
    and rows: "list_all2 describes_joined (snapshot_artifact_rows (db a) ?sid) (enumerate 0 (artifacts m'))"
    by (rule reconciledD)
  with s mf n(2) have m': "artifacts m' = artifacts n" by simp
  have refs: "\<exists>b \<in> set (db_blobs (db a)). bl_id b = ar_blob_id q" if "q \<in> set (db_artifacts (db a))" "ar_snapshot_id q = ?sid" for q
    using clean_references [OF clean ids(1) that(1)] that(2) r(2) by simp
  from refs [OF r(1) refl] obtain b where b: "b \<in> set (db_blobs (db a))" "bl_id b = ar_blob_id r" by blast
  with r(1) have "(r, b) \<in> set (snapshot_artifact_rows (db a) ?sid)" by (auto simp: snapshot_artifact_rows_def)
  then obtain i where i: "i < length (snapshot_artifact_rows (db a) ?sid)" "snapshot_artifact_rows (db a) ?sid ! i = (r, b)"
    by (metis in_set_conv_nth)
  note described = joined_index [OF rows i, unfolded m']
  let ?x = "artifacts n ! i"
  have x: "?x \<in> set (artifacts n)" using described(3) by simp
  have "artifact_ok (ext srv) (srv_limits srv) (input_of_artifact ?x)"
    using normalize_manifest_wf [OF n(1)] x by (auto simp: manifest_wf_def batch_ok_def list_all_iff)
  then have valid: "validate_digest (original_sha256 ?x) = Inr ()" "validate_digest (stored_sha256 ?x) = Inr ()"
    and sizes: "original_size_bytes ?x \<le> lim_artifact_original_bytes (srv_limits srv)"
      "stored_size_bytes ?x \<le> lim_artifact_stored_bytes (srv_limits srv)"
    by (simp_all add: artifact_ok_def input_of_artifact_def)
  let ?job = "\<lparr>aj_snapshot_id = ?sid, aj_artifact_id = ar_id r, aj_blob_id = ar_blob_id r,
      aj_stored_sha256 = digest_storage_value (stored_sha256 ?x), aj_stored_size_bytes = stored_size_bytes ?x,
      aj_original_sha256 = digest_storage_value (original_sha256 ?x), aj_original_size_bytes = original_size_bytes ?x,
      aj_compression = compression ?x\<rparr>"
  have row: "bl_stored_sha256 b = digest_storage_value (stored_sha256 ?x)" "bl_stored_size_bytes b = int (stored_size_bytes ?x)"
    "bl_compression b = compression_name (compression ?x)" "stored_size_bytes ?x \<le> i64_max"
    "ar_original_size_bytes r = int (original_size_bytes ?x)" "original_size_bytes ?x \<le> i64_max"
    "ar_original_sha256 r = digest_storage_value (original_sha256 ?x)"
    using described(2) by (simp_all add: describes_joined_def stored_digest_def)
  have i64: "i \<le> i64_max" using described(3) len m' by simp
  have "plan_artifact srv ?sid (artifact_projection ?sid (db a)) (i, ?x) = Inr (Check_Artifact ?job)"
    using projected_row [OF rest(3) rows refs i] sizes row i64
    by (simp add: plan_artifact_def i64_try_from_def document_digest_valid valid)
  moreover have "(i, ?x) \<in> set (enumerate 0 (artifacts n))" using described(3) by (simp add: in_set_enumerate_eq)
  ultimately have "?job \<in> set (List.map_filter plan_job
      (map (plan_artifact srv ?sid (artifact_projection ?sid (db a))) (enumerate 0 (artifacts n))))"
    unfolding map_filter_member by (metis imageI list.set_map plan_job.simps(1))
  with ok(2) have job: "clean (artifact_job_findings srv e a ?job)"
    by (auto simp: artifacts_findings_def Let_def)
  obtain t where "t \<in> set (db_snapshots (db a))" "sn_id t = ?sid" "sn_deleted_at t = None" using r(2) by (auto simp: live_ids_def)
  with r(1) b row have "artifact_current ?job (db a)"
    unfolding artifact_current_def list_ex_iff by auto
  with job have check: "\<forall>code. scan_artifact_original_file (ext srv) e ?job \<noteq> Original_Mismatch code"
    by (auto simp: artifact_job_findings_def)
  have u64: "aj_stored_size_bytes ?job \<le> u64_max" "aj_original_size_bytes ?job \<le> u64_max"
    using row(4,6) by (simp_all add: i64_max_def u64_max_def)
  have "bl_id b \<noteq> []" using ids(1) b(1) by (simp add: ids_given_def)
  from clean_blob_rows [OF rest(1,2) clean b(1) this] obtain bs where bs: "blob_stored (ext srv) (fs a) b bs" by blast
  with row have "scan_stored_file (ext srv) e (Artifact_Check (ar_id r)) (digest_storage_value (stored_sha256 ?x)) (stored_size_bytes ?x)
      = Stored_Healthy"
    using stored_file_healthy [OF rest(1) u64(1)] by (auto simp: blob_stored_def)
  then have "scan_artifact_original_file (ext srv) e ?job = Original_Healthy"
    by (intro original_file_healthyI [OF rest(1) u64(1) _ check]) simp
  from original_file_healthy [OF rest(1) u64 this] bs row
  obtain original where "original_stream (ext srv) (compression ?x) bs = Inr original"
    "length original = original_size_bytes ?x" "sha256_hex (ext srv) original = digest_storage_value (original_sha256 ?x)"
    by (auto simp: blob_stored_def)
  with b bs row show ?thesis
    by (auto simp: readable_def compression_enum.parse_as_str intro!: bexI [of _ b] exI [of _ bs])
qed

section \<open>Files of the canonical tree\<close>

text \<open>The reads of the tree list the file of a digest in its shard.\<close>

definition tree_lists :: "blob_tree \<Rightarrow> string \<Rightarrow> bool" where
  "tree_lists t digest =
     (bt_root_is_dir t \<and> (''sha256'', True) \<in> set (bt_root t) \<and> (take 2 digest, True) \<in> set (bt_shards t)
      \<and> (\<exists>is_dir. (digest, is_dir) \<in> set (bt_shard t (take 2 digest))))"

lemma hex_not_temporary:
  assumes "list_all is_lower_hex v"
  shows "\<not> temporary_storage_name v"
proof -
  have dot: "CHR ''.'' \<notin> set v"
  proof
    assume "CHR ''.'' \<in> set v"
    with assms have "is_lower_hex (CHR ''.'')" by (auto simp: list_all_iff)
    then show False by code_simp
  qed
  then have "rsplit_once (CHR ''.'') v = None" by (simp add: rsplit_once_None)
  moreover have "take 1 v \<noteq> ''.''" using dot by (cases v) auto
  ultimately show ?thesis by (simp add: temporary_storage_name_def)
qed

lemma clean_tree:
  assumes "clean (archive_findings srv e a now_seq)"
    and "tree_lists (iv_tree e) digest" "storage_digest digest \<noteq> None" "blob_file (fs a) digest \<noteq> None"
  shows "\<exists>b \<in> set (db_blobs (db a)). bl_owner_namespace b = owner srv \<and> bl_stored_sha256 b = digest"
proof -
  have hex: "length digest = 64" "list_all is_lower_hex digest"
    using assms(3) by (auto simp: storage_digest_eq split: if_splits)
  have "list_all is_lower_hex (take 2 digest)" using hex(2) by (auto simp: list_all_iff dest: in_set_takeD)
  with hex(1) have shard: "shard_name (take 2 digest)" "\<not> temporary_storage_name (take 2 digest)"
    by (simp_all add: shard_name_def hex_not_temporary)
  obtain is_dir where listed: "(digest, is_dir) \<in> set (bt_shard (iv_tree e) (take 2 digest))"
    "(take 2 digest, True) \<in> set (bt_shards (iv_tree e))" "(''sha256'', True) \<in> set (bt_root (iv_tree e))"
    "bt_root_is_dir (iv_tree e)"
    using assms(2) by (auto simp: tree_lists_def)
  have "clean (tree_findings srv a (iv_tree e))" using assms(1) by (simp add: archive_findings_def)
  with listed(3,4) have "clean (shards_findings srv a (iv_tree e))" by (force simp: tree_findings_def)
  with listed(2) have "clean (if temporary_storage_name (take 2 digest) then []
       else if True \<and> shard_name (take 2 digest) then shard_findings srv a (iv_tree e) (take 2 digest)
       else unexpected ''invalid_canonical_blob_shard'')"
    unfolding shards_findings_def by force
  with shard have "clean (shard_findings srv a (iv_tree e) (take 2 digest))" by simp
  with listed(1) have "clean (if temporary_storage_name digest then []
       else if storage_digest digest \<noteq> None \<and> take (length (take 2 digest)) digest = take 2 digest then unowned_findings srv a digest
       else unexpected ''invalid_canonical_blob_entry'')"
    unfolding shard_findings_def by force
  then have "clean (unowned_findings srv a digest)"
    using hex_not_temporary [OF hex(2)] assms(3) hex(1) by simp
  with assms(4) have "find (\<lambda>b. bl_owner_namespace b = owner srv \<and> bl_stored_sha256 b = digest) (db_blobs (db a)) \<noteq> None"
    by (auto simp: unowned_findings_def unexpected_def split: if_splits)
  then show ?thesis by (auto simp: find_None)
qed

end
