(* ===== verification/Integrity_Properties.thy ===== *)
theory Integrity_Properties
  imports Integrity_Trust Sample_Flow
begin

text \<open>
  The properties of the integrity scan: what a scan of an archive at rest records, and what its
  report says of the archive.
\<close>

section \<open>A scan on concrete values\<close>

definition quiet_env :: "blob_tree \<Rightarrow> archive \<Rightarrow> scan_env" where
  "quiet_env t a =
     \<lparr>iv_view = (\<lambda>_. a), iv_fails = (\<lambda>_. False), iv_clock = (\<lambda>_. sample_time 1767312000),
      iv_new_id = (\<lambda>n. case n of None \<Rightarrow> ''run'' | Some k \<Rightarrow> replicate k (CHR ''f'')),
      iv_quick_check = ''ok'', iv_foreign_key_failure = False, iv_tree = t,
      iv_read_error = (\<lambda>_. None), iv_rewritten = (\<lambda>_. None), iv_decoded = id,
      iv_max_request_body_bytes = 1000, iv_buffer_bytes = 2, iv_fuel = 5\<rparr>"

text \<open>The tree as it is when every blob file lies in its shard and nothing else is there.\<close>

definition tree_of :: "files \<Rightarrow> blob_tree" where
  "tree_of f =
     \<lparr>bt_root_is_dir = True, bt_root = [(''sha256'', True)],
      bt_shards = map (\<lambda>s. (s, True)) (remdups (map (take 2 \<circ> fst) (blob_files f))),
      bt_shard = (\<lambda>s. map (\<lambda>(d, _). (d, False)) (filter (\<lambda>(d, _). take 2 d = s) (blob_files f)))\<rparr>"

definition no_scans :: integrity_tables where
  "no_scans = \<lparr>it_runs = [], it_findings = []\<rparr>"

definition flow_scan :: "archive \<Rightarrow> scan_env" where
  "flow_scan a = quiet_env (tree_of (fs a)) a"

definition scan_facts :: "archive \<Rightarrow> bool" where
  "scan_facts a =
     (list_all (\<lambda>c. is_ok (scan_time flow_server (flow_scan a) c)) [At_Begin]
      \<and> length (db_artifacts (db a)) < 5 \<and> length (snapshot_scan_rows (db a)) < 5 \<and> length (db_blobs (db a)) < 5
      \<and> distinct (map ar_id (db_artifacts (db a))) \<and> distinct (map bl_id (db_blobs (db a)))
      \<and> distinct (map sn_id (db_snapshots (db a))) \<and> distinct (map mf_id (db_manifests (db a)))
      \<and> distinct (map ts_snapshot_id (db_tombstones (db a)))
      \<and> list_all (\<lambda>s. sn_id s \<noteq> []) (db_snapshots (db a)) \<and> list_all (\<lambda>b. bl_id b \<noteq> []) (db_blobs (db a))
      \<and> list_all (\<lambda>r. ar_id r \<noteq> []) (db_artifacts (db a)))"

definition flow_findings :: "archive \<Rightarrow> finding list" where
  "flow_findings a = archive_findings flow_server (flow_scan a) a 1767312000000000"

definition scan_summary :: "archive \<Rightarrow> bool \<times> (integrity_finding_kind \<times> integrity_severity) list" where
  "scan_summary a = (scan_facts a, map (\<lambda>f. (kind_of f, severity_of f)) (flow_findings a))"

lemma flow_completed_scan: "scan_summary flow_completed = (True, [])"
  by code_simp

lemma flow_deleted_scan:
  "scan_summary flow_deleted = (True, [(TombstonedSnapshot, Info), (BlobGcEligibleCandidate, Warning)])"
  by code_simp

lemma flow_scan_facts: "scan_facts flow_completed" "scan_facts flow_deleted"
  using flow_completed_scan flow_deleted_scan by (simp_all add: scan_summary_def)

lemma flow_completed_findings: "flow_findings flow_completed = []"
  using flow_completed_scan by (simp add: scan_summary_def)

lemma flow_deleted_findings:
  "map (\<lambda>f. (kind_of f, severity_of f)) (flow_findings flow_deleted) = [(TombstonedSnapshot, Info), (BlobGcEligibleCandidate, Warning)]"
  using flow_deleted_scan by (simp add: scan_summary_def)

lemma quiet_clock: "clock_good flow_server (flow_scan a) \<longleftrightarrow> is_ok (scan_time flow_server (flow_scan a) At_Begin)"
  by (auto simp: clock_good_def scan_time_def flow_scan_def quiet_env_def)

lemma quiet_ids: "fresh_scan_ids (flow_scan a) no_scans"
proof -
  have "replicate k (CHR ''f'') \<noteq> ''run''" for k by (cases k) auto
  then show ?thesis
    by (auto simp: fresh_scan_ids_def flow_scan_def quiet_env_def no_scans_def inj_def split: option.splits)
      (metis length_replicate)+
qed

lemma scan_facts_rest:
  assumes "scan_facts a"
  shows "at_rest (flow_scan a) a" "keyed (db a)" "ids_given (db a)" "clock_good flow_server (flow_scan a)"
  using assms unfolding quiet_clock
  by (auto simp: scan_facts_def at_rest_def flow_scan_def quiet_env_def keyed_def ids_given_def list_all_iff i64_max_def)

lemma flow_within_i64: "within_i64 flow_server"
  by (simp add: within_i64_def flow_server_def sample_limits_def i64_max_def)

lemma flow_scan_now: "sort_key_from_timestamp (iv_clock (flow_scan a) At_Blobs) = Some 1767312000000000"
  by (simp add: flow_scan_def quiet_env_def sample_time_def sort_key_from_timestamp_def truncated_div_def i64_from_int_def)

lemma flow_canonical: "canonical_documents (ext flow_server) d"
  by (auto simp: canonical_documents_def flow_server_def flow_externals_def flow_manifest_def split: if_splits)

section \<open>What a scan records\<close>

text \<open>C31: A scan of an archive at rest ends, whatever its size, and what it records is exact. The loops
  over pages terminate because the fuel bounds nothing but the number of rows: with more fuel than rows no
  loop is cut off. The pages, the current-row rechecks and the tasks add nothing: the scan leaves, behind
  the rows of earlier scans, one finding row for every entry of \<open>archive_findings\<close>, in order and beyond
  the 256 a report quotes, under the run's identifier, with the kind, the severity, the subject and the
  detail code of the entry and the clock reading of its own; \<open>archive_findings\<close> is a function of the
  tables, the files, the directory tree and the time. It leaves one run row, closed, with the status and
  the counts of those findings, and touches no earlier run. The report has the same counts and status,
  it is \<open>healthy\<close> exactly when no finding is a warning or an error, it quotes the first 256 findings as
  their rows read back, and says whether there are more.\<close>

theorem scan_records_findings:
  assumes "at_rest e a" "within_i64 srv" "keyed (db a)" "clock_good srv e" "fresh_scan_ids e saved"
    and "sort_key_from_timestamp (iv_clock e At_Blobs) = Some now_seq"
    and "length (archive_findings srv e a now_seq) \<le> i64_max"
  shows "\<exists>rp run rows. scan_archive srv e saved
        = (Inr rp, saved\<lparr>it_runs := it_runs saved @ [run], it_findings := it_findings saved @ rows\<rparr>)
    \<and> list_all2 (finding_row_of srv e) (enumerate 0 (archive_findings srv e a now_seq)) rows
    \<and> closed_run srv e (archive_findings srv e a now_seq) run
    \<and> rp_run_id rp = ir_id run \<and> run_status_as_str (rp_status rp) = ir_status run
    \<and> fc_total (rp_counts rp) = length (archive_findings srv e a now_seq)
    \<and> fc_info (rp_counts rp) = length (filter (\<lambda>f. severity_of f = Info) (archive_findings srv e a now_seq))
    \<and> fc_error (rp_counts rp) = length (filter (\<lambda>f. severity_of f = Error) (archive_findings srv e a now_seq))
    \<and> fc_warning (rp_counts rp) = length (filter (\<lambda>f. severity_of f = Warning) (archive_findings srv e a now_seq))
    \<and> (rp_status rp = Healthy \<longleftrightarrow> (\<forall>f \<in> set (archive_findings srv e a now_seq). severity_of f = Info))
    \<and> map Inr (rp_findings rp) = map finding_summary (take 256 rows)
    \<and> map (\<lambda>f. (ifs_kind f, ifs_severity f, ifs_snapshot_id f, ifs_artifact_id f, ifs_blob_id f, ifs_detail_code f))
        (rp_findings rp) = take 256 (archive_findings srv e a now_seq)
    \<and> rp_findings_truncated rp = (256 < length (archive_findings srv e a now_seq))"
proof -
  let ?found = "archive_findings srv e a now_seq"
  from scan_at_rest [OF assms(1-6) refl assms(7)] obtain rp run rows where
    rp: "scan_archive srv e saved
        = (Inr rp, saved\<lparr>it_runs := it_runs saved @ [run], it_findings := it_findings saved @ rows\<rparr>)"
      "closed_run srv e ?found run" "list_all2 (finding_row_of srv e) (enumerate 0 ?found) rows"
      "rp_run_id rp = iv_new_id e None" "rp_counts rp = tally ?found" "rp_status rp = status_for ?found"
    and quoted: "map Inr (rp_findings rp) = map finding_summary (take 256 rows)"
      "rp_findings_truncated rp = (256 < length ?found)"
    unfolding REPORT_FINDING_LIMIT_def by blast
  have "length ?found \<le> u64_max" using assms(7) by (simp add: i64_max_def u64_max_def)
  from tally_counts [OF this] rp quoted finding_rows_read_back [OF rp(3) quoted(1)] show ?thesis
    by (intro exI [of _ rp] exI [of _ run] exI [of _ rows]) (auto simp: status_for_def closed_run_def)
qed

theorem scan_records_findings_witness:
  "(\<exists>rp t. scan_archive flow_server (flow_scan flow_completed) no_scans = (Inr rp, t) \<and> rp_status rp = Healthy)
   \<and> (\<exists>rp t. scan_archive flow_server (flow_scan flow_deleted) no_scans = (Inr rp, t)
        \<and> fc_warning (rp_counts rp) = 1 \<and> fc_error (rp_counts rp) = 0 \<and> rp_status rp \<noteq> Healthy)"
proof
  have none: "archive_findings flow_server (flow_scan flow_completed) flow_completed 1767312000000000 = []"
    using flow_completed_findings by (simp add: flow_findings_def)
  from scan_records_findings [OF scan_facts_rest(1) [OF flow_scan_facts(1)] flow_within_i64
      scan_facts_rest(2) [OF flow_scan_facts(1)] scan_facts_rest(4) [OF flow_scan_facts(1)] quiet_ids flow_scan_now]
  show "\<exists>rp t. scan_archive flow_server (flow_scan flow_completed) no_scans = (Inr rp, t) \<and> rp_status rp = Healthy"
    unfolding none by auto
  have eq: "archive_findings flow_server (flow_scan flow_deleted) flow_deleted 1767312000000000 = flow_findings flow_deleted"
    by (simp add: flow_findings_def)
  obtain f g where fg: "flow_findings flow_deleted = [f, g]" "severity_of f = Info" "severity_of g = Warning"
    using flow_deleted_findings by (auto simp: map_eq_Cons_conv)
  from scan_records_findings [OF scan_facts_rest(1) [OF flow_scan_facts(2)] flow_within_i64
      scan_facts_rest(2) [OF flow_scan_facts(2)] scan_facts_rest(4) [OF flow_scan_facts(2)] quiet_ids flow_scan_now]
  show "\<exists>rp t. scan_archive flow_server (flow_scan flow_deleted) no_scans = (Inr rp, t)
      \<and> fc_warning (rp_counts rp) = 1 \<and> fc_error (rp_counts rp) = 0 \<and> rp_status rp \<noteq> Healthy"
    unfolding eq fg(1) by (auto simp: fg(2,3) i64_max_def)
qed

section \<open>What a clean report says\<close>

text \<open>C32: A report without errors can be trusted, of whatever archive, damaged or not. When the scan of
  an archive at rest counts no errors, every live snapshot reconciles with its canonical manifest, every
  artifact of a live snapshot can be read back with the size and digest its row records, the file of
  every blob row is there with the size and digest of the row, and every file the tree lists under a
  canonical name belongs to a blob row of the owner. The stored documents need to be in path order, as
  the server writes them.\<close>

theorem clean_scan_trusted:
  assumes "at_rest e a" "within_i64 srv" "keyed (db a)" "clock_good srv e" "fresh_scan_ids e saved"
    and "sort_key_from_timestamp (iv_clock e At_Blobs) = Some now_seq"
    and "length (archive_findings srv e a now_seq) \<le> i64_max"
    and "ids_given (db a)" "canonical_documents (ext srv) (db a)"
    and "scan_archive srv e saved = (Inr rp, t)" "fc_error (rp_counts rp) = 0"
  shows "(\<forall>sid \<in> live_ids (db a). reconcile_snapshot (ext srv) sid (db a) = Inr ())
    \<and> (\<forall>r \<in> set (db_artifacts (db a)). ar_snapshot_id r \<in> live_ids (db a) \<longrightarrow> readable (ext srv) (db a) (fs a) r)
    \<and> (\<forall>b \<in> set (db_blobs (db a)). \<exists>bs. blob_stored (ext srv) (fs a) b bs)
    \<and> (\<forall>digest. tree_lists (iv_tree e) digest \<and> storage_digest digest \<noteq> None \<and> blob_file (fs a) digest \<noteq> None \<longrightarrow>
        (\<exists>b \<in> set (db_blobs (db a)). bl_owner_namespace b = owner srv \<and> bl_stored_sha256 b = digest))"
proof -
  have "length (archive_findings srv e a now_seq) \<le> u64_max" using assms(7) by (simp add: i64_max_def u64_max_def)
  note counts = tally_counts [OF this]
  have "rp_counts rp = tally (archive_findings srv e a now_seq)"
    using scan_at_rest [OF assms(1-6) refl assms(7)] assms(10) by auto
  with counts assms(11) have clean: "clean (archive_findings srv e a now_seq)"
    by (auto simp: clean_def filter_empty_conv)
  have "reconcile_snapshot (ext srv) sid (db a) = Inr ()" if live: "sid \<in> live_ids (db a)" for sid
  proof -
    obtain s where "live_snapshot (db a) sid = Some s" using live by (cases "live_snapshot (db a) sid") (simp_all add: live_snapshot_None)
    from clean_live_snapshot [OF assms(3,8,9) at_restD(6) [OF assms(1)] clean this] show ?thesis .
  qed
  moreover have "\<exists>bs. blob_stored (ext srv) (fs a) b bs" if "b \<in> set (db_blobs (db a))" for b
    using clean_blob_rows [OF assms(1,2) clean that] assms(8) that by (simp add: ids_given_def)
  ultimately show ?thesis
    using clean_artifact_readable [OF assms(1-3,8,9) clean] clean_tree [OF clean] by blast
qed

theorem clean_scan_trusted_witness:
  "list_all (\<lambda>b. \<exists>bs. blob_stored (ext flow_server) (fs flow_completed) b bs) (db_blobs (db flow_completed))
   \<and> length (db_blobs (db flow_completed)) = 1"
proof -
  have one: "length (db_blobs (db flow_completed)) = 1" by code_simp
  note facts = scan_facts_rest [OF flow_scan_facts(1)]
  have none: "archive_findings flow_server (flow_scan flow_completed) flow_completed 1767312000000000 = []"
    using flow_completed_findings by (simp add: flow_findings_def)
  obtain rp t where run: "scan_archive flow_server (flow_scan flow_completed) no_scans = (Inr rp, t)" "rp_counts rp = tally []"
    using scan_at_rest [OF facts(1) flow_within_i64 facts(2,4) quiet_ids flow_scan_now none [symmetric]] by auto
  from clean_scan_trusted [OF facts(1) flow_within_i64 facts(2,4) quiet_ids flow_scan_now _ facts(3) flow_canonical run(1)]
  show ?thesis by (simp add: none run(2) tally_def no_findings_def one list_all_iff)
qed

end
