(* ===== verification/Backup.thy ===== *)
theory Backup
  imports Integrity Maintenance
begin

text \<open>
  Backup, verification and restore of \<open>backup.rs\<close>. A backup is a directory with a manifest, an image of
  the database and the blob files; it is built in a staging directory beside the output, which is
  renamed into place at the end and removed when anything fails before. The exclusive permit is the
  gate of \<open>Maintenance\<close>; here it is granted or refused. SQLite images and the JSON of the manifest are
  third-party code. What the file system does is a parameter: which steps fail, whether a hard link can
  be made, what a copy delivers, and how a destination looks at the moments it is looked at.
\<close>

section \<open>Errors and documents\<close>

datatype backup_error =
    Invalid_Output | Backup_Source | Backup_Metadata | Active_Uploads | Maintenance_Busy | Backup_Maintenance
  | Backup_Storage | Backup_Manifest | Backup_Integrity | Destination_Not_Empty | Unsafe_Destination
  | Backup_Bootstrap | Backup_Scan

definition BACKUP_FORMAT_VERSION :: nat where "BACKUP_FORMAT_VERSION = 1"
definition MANIFEST_FILE_NAME :: string where "MANIFEST_FILE_NAME = ''manifest.json''"
definition DATABASE_FILE_NAME :: string where "DATABASE_FILE_NAME = ''patwari.db''"
definition MAX_MANIFEST_BYTES :: nat where "MAX_MANIFEST_BYTES = 64 * 1024 * 1024"

record backup_file =
  bf_filename :: string
  bf_sha256 :: string
  bf_size_bytes :: nat

record blob_inventory_entry =
  be_filename :: string
  be_sha256 :: string
  be_size_bytes :: nat

record latest_integrity_health =
  lh_run_id :: string
  lh_status :: string
  lh_started_at :: string
  lh_completed_at :: string
  lh_finding_count :: nat
  lh_info_count :: nat
  lh_warning_count :: nat
  lh_error_count :: nat

record backup_manifest =
  bm_backup_format_version :: nat
  bm_created_at :: string
  bm_archive_instance_id :: string
  bm_owner_namespace :: string
  bm_archive_created_at :: string
  bm_application_version :: string
  bm_schema_version :: int
  bm_sqlite :: backup_file
  bm_blobs :: "blob_inventory_entry list"
  bm_latest_integrity_health :: "latest_integrity_health option"

record backup_create_result =
  bc_backup_format_version :: nat
  bc_archive_instance_id :: string
  bc_owner_namespace :: string
  bc_created_at :: string
  bc_blob_count :: nat

record backup_verification =
  bv_backup_format_version :: nat
  bv_archive_instance_id :: string
  bv_owner_namespace :: string
  bv_blob_count :: nat
  bv_integrity :: integrity_report

record backup_restore_result =
  br_archive_instance_id :: string
  br_owner_namespace :: string
  br_blob_count :: nat
  br_integrity :: integrity_report

record file_digest =
  fd_size_bytes :: nat
  fd_sha256 :: string

section \<open>Databases, directories and the environment\<close>

text \<open>Everything the database file holds. \<open>db_open\<close> opens an image and applies the migrations it lacks.\<close>

record stored_database =
  sd_tables :: database
  sd_identity :: "archive_identity option"
  sd_schema_version :: "int option"
  sd_integrity :: integrity_tables
  sd_lease :: lease

record backup_codec =
  db_image :: "stored_database \<Rightarrow> bytes"
  db_open :: "bytes \<Rightarrow> stored_database option"
  backup_manifest_to_json :: "backup_manifest \<Rightarrow> bytes option"
  backup_manifest_from_json :: "bytes \<Rightarrow> backup_manifest option"

record source_archive =
  so_database_is_file :: bool
  so_blob_root_is_dir :: bool
  so_maintenance_is_dir :: bool
  so_store :: stored_database
  so_files :: files

text \<open>A directory that is given as a backup: the names in its root, its two files, and the tree below
  \<open>blobs/sha256\<close> with the shards and what they hold.\<close>

record backup_dir =
  bd_is_dir :: bool
  bd_names :: "string list"
  bd_manifest :: "entry option"
  bd_database :: "entry option"
  bd_blobs_is_dir :: bool
  bd_blob_names :: "string list"
  bd_sha256_is_dir :: bool
  bd_shards :: "(string \<times> bool) list"
  bd_shard :: "string \<Rightarrow> (string \<times> entry) list"

text \<open>A data directory before it is opened, and the archive it becomes.\<close>

record staged_copy =
  sg_database :: bytes
  sg_blobs :: "(string \<times> entry) list"

record restored_archive =
  ra_store :: stored_database
  ra_blobs :: "(string \<times> entry) list"

datatype phase = Creating | Verifying | Restoring
datatype file_ref = Database_Ref | Blob_Ref string

datatype backup_point =
    Source_Connect | Count_Uploads | Read_Archive | Read_Schema | Read_Blob_Rows | Read_Health | Checkpoint
  | Create_Parent | Staging phase | Blob_Directories | Open_Source | Open_Image | Run_Image_Backup
  | Clear_Image_Lease | Checkpoint_Image | Link_Metadata phase file_ref | Link_Directory phase file_ref
  | Copy_File phase file_ref | Read_File phase file_ref | Sync_Parent phase file_ref | Write_Manifest
  | Sync_Staged phase | Rename_Staged phase | Sync_Destination phase | Join_Worker phase
  | Read_Backup phase | Read_Root phase | Read_Inventory phase | Bootstrap phase | Acquire_Scan phase
  | Read_Destination | Remove_Destination | Probe_Destination | Device_Of_Destination

datatype moment = At_Validation | At_Recheck | At_Rename
datatype destination_state = Absent | Empty_Directory | Occupied

text \<open>Paths as \<open>Path::components\<close> gives them.\<close>

datatype component = Cur_Dir | Parent_Dir | Normal string

record file_path =
  fp_absolute :: bool
  fp_components :: "component list"

record backup_env =
  bv_fails :: "backup_point \<Rightarrow> bool"
  bv_now :: "phase \<Rightarrow> offset_date_time"
  bv_acquire :: "gate_error option"
  bv_release :: "gate_error option"
  bv_canonical :: "file_path \<Rightarrow> file_path option"
  bv_is_directory :: "file_path \<Rightarrow> bool"
  bv_output_exists :: "moment \<Rightarrow> bool"
  bv_destination :: "moment \<Rightarrow> destination_state"
  bv_same_filesystem :: bool
  bv_links :: "phase \<Rightarrow> string \<Rightarrow> bool"
  bv_copied :: "phase \<Rightarrow> file_ref \<Rightarrow> bytes option"
  bv_application_version :: string
  bv_fresh_identity :: "string \<times> string"
  bv_now_unix :: "phase \<Rightarrow> int"
  bv_scan :: "phase \<Rightarrow> archive \<Rightarrow> scan_env"

definition must :: "backup_env \<Rightarrow> backup_point \<Rightarrow> backup_error \<Rightarrow> backup_error + unit" where
  "must v point err = reject_if (bv_fails v point) err"

section \<open>Paths\<close>

definition path_file_name :: "file_path \<Rightarrow> string option" where
  "path_file_name p =
     (if fp_components p = [] then None
      else case last (fp_components p) of Normal name \<Rightarrow> Some name | _ \<Rightarrow> None)"

definition path_parent :: "file_path \<Rightarrow> file_path option" where
  "path_parent p =
     (if fp_components p = [] then None else Some (p\<lparr>fp_components := butlast (fp_components p)\<rparr>))"

definition path_starts_with :: "file_path \<Rightarrow> file_path \<Rightarrow> bool" where
  "path_starts_with p root =
     (fp_absolute p = fp_absolute root \<and> take (length (fp_components root)) (fp_components p) = fp_components root)"

definition parent_or_current :: "file_path \<Rightarrow> file_path option" where
  "parent_or_current p =
     (case path_parent p of
        Some parent \<Rightarrow>
          if fp_absolute parent \<or> fp_components parent \<noteq> [] then Some parent
          else map_option (\<lambda>_. \<lparr>fp_absolute = False, fp_components = [Cur_Dir]\<rparr>) (path_file_name p)
      | None \<Rightarrow> map_option (\<lambda>_. \<lparr>fp_absolute = False, fp_components = [Cur_Dir]\<rparr>) (path_file_name p))"

definition validate_new_output :: "backup_env \<Rightarrow> file_path \<Rightarrow> backup_error + unit" where
  "validate_new_output v output =
     and_then (reject_if (path_file_name output = None \<or> bv_output_exists v At_Validation) Invalid_Output) (\<lambda>_.
     and_then (ok_or Invalid_Output (parent_or_current output)) (\<lambda>parent.
     and_then (must v Create_Parent Backup_Storage) (\<lambda>_.
     reject_if (\<not> bv_is_directory v parent) Invalid_Output)))"

definition output_is_within_data_dir :: "backup_env \<Rightarrow> file_path \<Rightarrow> file_path \<Rightarrow> backup_error + bool" where
  "output_is_within_data_dir v output data_dir =
     and_then (ok_or Backup_Source (bv_canonical v data_dir)) (\<lambda>root.
     and_then (ok_or Invalid_Output (parent_or_current output)) (\<lambda>parent.
     and_then (ok_or Backup_Storage (bv_canonical v parent)) (\<lambda>parent.
     and_then (ok_or Invalid_Output (path_file_name output)) (\<lambda>name.
     Inr (path_starts_with (parent\<lparr>fp_components := fp_components parent @ [Normal name]\<rparr>) root)))))"

definition ensure_restorable_destination :: "backup_env \<Rightarrow> file_path \<Rightarrow> backup_error + unit" where
  "ensure_restorable_destination v parent =
     and_then (reject_if (\<not> bv_is_directory v parent \<or> bv_fails v Probe_Destination) Unsafe_Destination) (\<lambda>_.
     if bv_destination v At_Validation = Absent then Inr ()
     else and_then (must v Device_Of_Destination Unsafe_Destination) (\<lambda>_.
          reject_if (\<not> bv_same_filesystem v) Unsafe_Destination))"

definition ensure_empty_directory :: "backup_env \<Rightarrow> moment \<Rightarrow> backup_error + unit" where
  "ensure_empty_directory v m =
     and_then (must v Read_Destination Destination_Not_Empty) (\<lambda>_.
     reject_if (bv_destination v m \<noteq> Empty_Directory) Destination_Not_Empty)"

definition validate_restore_destination :: "backup_env \<Rightarrow> file_path \<Rightarrow> backup_error + unit" where
  "validate_restore_destination v destination =
     and_then (ok_or Destination_Not_Empty (parent_or_current destination)) (\<lambda>parent.
     and_then (reject_if (path_file_name destination = None) Destination_Not_Empty) (\<lambda>_.
     and_then (must v Create_Parent Backup_Storage) (\<lambda>_.
     and_then (ensure_restorable_destination v parent) (\<lambda>_.
     if bv_destination v At_Validation = Absent then Inr () else ensure_empty_directory v At_Validation))))"

section \<open>Digests and file names\<close>

definition validate_raw_digest :: "string \<Rightarrow> string option" where
  "validate_raw_digest value =
     (if length value = 64 \<and> list_all (\<lambda>c. is_ascii_hexdigit c \<and> \<not> is_ascii_uppercase c) value
      then Some value else None)"

definition digest_value :: "string \<Rightarrow> string option" where
  "digest_value value = Option.bind (strip_prefix ''sha256:'' value) validate_raw_digest"

definition digest_document :: "string \<Rightarrow> string" where
  "digest_document raw_digest = ''sha256:'' @ raw_digest"

definition blob_relative_filename :: "string \<Rightarrow> string" where
  "blob_relative_filename raw_digest = ''blobs/sha256/'' @ take 2 raw_digest @ ''/'' @ raw_digest"

fun map_gate_error :: "gate_error \<Rightarrow> backup_error" where
  "map_gate_error Busy = Maintenance_Busy"
| "map_gate_error Unavailable = Backup_Maintenance"

section \<open>Copies and digests of files\<close>

fun hash_regular_loop :: "nat \<times> bytes \<Rightarrow> bytes list \<Rightarrow> backup_error + nat \<times> bytes" where
  "hash_regular_loop (seen, hashed) [] = Inr (seen, hashed)"
| "hash_regular_loop (seen, hashed) (b # bs) =
     and_then (ok_or Backup_Storage (checked_add seen (length b))) (\<lambda>sofar.
     hash_regular_loop (sofar, hashed @ b) bs)"

definition hash_regular_file ::
  "externals \<Rightarrow> backup_env \<Rightarrow> phase \<Rightarrow> file_ref \<Rightarrow> entry option \<Rightarrow> backup_error + file_digest" where
  "hash_regular_file x v ph ref found =
     (case found of
        Some (Regular bs) \<Rightarrow>
          and_then (must v (Read_File ph ref) Backup_Storage) (\<lambda>_.
          and_then (hash_regular_loop (0, []) (buffer_reads bs)) (\<lambda>(seen, hashed).
          Inr \<lparr>fd_size_bytes = seen, fd_sha256 = sha256_hex x hashed\<rparr>))
      | _ \<Rightarrow> Inl Backup_Storage)"

text \<open>\<open>bv_copied\<close> is what the destination holds when a copy does not deliver the source.\<close>

definition copy_regular_file ::
  "backup_env \<Rightarrow> phase \<Rightarrow> file_ref \<Rightarrow> entry option \<Rightarrow> backup_error + bytes" where
  "copy_regular_file v ph ref source =
     (case source of
        Some (Regular bs) \<Rightarrow>
          and_then (must v (Copy_File ph ref) Backup_Storage) (\<lambda>_.
          Inr (case bv_copied v ph ref of None \<Rightarrow> bs | Some other \<Rightarrow> other))
      | _ \<Rightarrow> Inl Backup_Storage)"

text \<open>A blob is linked, or copied when it cannot be linked; an entry that is already there is an error.
  The result is hashed in either case.\<close>

definition copy_blob ::
  "externals \<Rightarrow> backup_env \<Rightarrow> phase \<Rightarrow> (string \<times> entry) list \<Rightarrow> string \<Rightarrow> entry option \<Rightarrow> nat
     \<Rightarrow> backup_error + bytes" where
  "copy_blob x v ph there digest source expected_size =
     (case source of
        Some (Regular bs) \<Rightarrow>
          and_then (must v (Link_Directory ph (Blob_Ref digest)) Backup_Storage) (\<lambda>_.
          and_then (if bv_links v ph digest \<and> map_of there digest = None
            then and_then (must v (Link_Metadata ph (Blob_Ref digest)) Backup_Storage) (\<lambda>_. Inr bs)
            else and_then (reject_if (map_of there digest \<noteq> None) Backup_Storage) (\<lambda>_.
              copy_regular_file v ph (Blob_Ref digest) source)) (\<lambda>content.
          and_then (hash_regular_file x v ph (Blob_Ref digest) (Some (Regular content))) (\<lambda>d.
          and_then (reject_if (fd_size_bytes d \<noteq> expected_size \<or> fd_sha256 d \<noteq> digest) Backup_Storage) (\<lambda>_.
          and_then (must v (Sync_Parent ph (Blob_Ref digest)) Backup_Storage) (\<lambda>_.
          Inr content)))))
      | _ \<Rightarrow> Inl Backup_Storage)"

text \<open>The staging directory is renamed to the destination. An error after the rename leaves it there.\<close>

definition finalize :: "backup_env \<Rightarrow> phase \<Rightarrow> bool \<Rightarrow> 'd \<Rightarrow> (backup_error + unit) \<times> 'd option" where
  "finalize v ph destination_exists d =
     (if destination_exists then (Inl Invalid_Output, None)
      else if bv_fails v (Sync_Staged ph) \<or> bv_fails v (Rename_Staged ph) then (Inl Backup_Storage, None)
      else if bv_fails v (Sync_Destination ph) then (Inl Backup_Storage, Some d)
      else (Inr (), Some d))"

section \<open>Creating a backup\<close>

definition source_paths :: "source_archive \<Rightarrow> backup_error + unit" where
  "source_paths so =
     reject_if (\<not> so_database_is_file so \<or> \<not> so_blob_root_is_dir so \<or> \<not> so_maintenance_is_dir so) Backup_Source"

definition count_from :: "int \<Rightarrow> backup_error + nat" where
  "count_from n = ok_or Backup_Metadata (u64_try_from n)"

text \<open>\<open>ORDER BY completed_at_seq DESC, id DESC LIMIT 1\<close>; a run that is closed has both times.\<close>

definition load_latest_integrity_health ::
  "backup_env \<Rightarrow> integrity_tables \<Rightarrow> backup_error + latest_integrity_health option" where
  "load_latest_integrity_health v saved =
     and_then (must v Read_Health Backup_Metadata) (\<lambda>_.
     case last_by (\<lambda>r. (the (ir_completed_at_seq r), ir_id r))
         (filter (\<lambda>r. ir_completed_at r \<noteq> None) (it_runs saved)) of
       None \<Rightarrow> Inr None
     | Some r \<Rightarrow>
         and_then (count_from (ir_finding_count r)) (\<lambda>findings.
         and_then (count_from (ir_info_count r)) (\<lambda>infos.
         and_then (count_from (ir_warning_count r)) (\<lambda>warnings.
         and_then (count_from (ir_error_count r)) (\<lambda>errors.
         Inr (Some \<lparr>lh_run_id = ir_id r, lh_status = ir_status r, lh_started_at = ir_started_at r,
           lh_completed_at = the (ir_completed_at r), lh_finding_count = findings, lh_info_count = infos,
           lh_warning_count = warnings, lh_error_count = errors\<rparr>))))))"

text \<open>The image is the database with the lease cleared.\<close>

definition online_sqlite_backup ::
  "backup_codec \<Rightarrow> backup_env \<Rightarrow> stored_database \<Rightarrow> backup_error + bytes" where
  "online_sqlite_backup cdc v store =
     and_then (must v (Join_Worker Creating) Backup_Storage) (\<lambda>_.
     and_then (must v Open_Source Backup_Source) (\<lambda>_.
     and_then (must v Open_Image Backup_Storage) (\<lambda>_.
     and_then (must v Run_Image_Backup Backup_Source) (\<lambda>_.
     and_then (must v Clear_Image_Lease Backup_Storage) (\<lambda>_.
     and_then (must v Checkpoint_Image Backup_Storage) (\<lambda>_.
     Inr (db_image cdc (store\<lparr>sd_lease := no_lease\<rparr>))))))))"

definition backup_blob_row ::
  "externals \<Rightarrow> backup_env \<Rightarrow> files \<Rightarrow> (string \<times> entry) list \<times> blob_inventory_entry list \<Rightarrow> string \<times> int
     \<Rightarrow> backup_error + (string \<times> entry) list \<times> blob_inventory_entry list" where
  "backup_blob_row x v f = (\<lambda>(copied, inventory) (stored_hash, stored_size).
     and_then (ok_or Backup_Metadata (validate_raw_digest stored_hash)) (\<lambda>raw_digest.
     and_then (ok_or Backup_Metadata (u64_try_from stored_size)) (\<lambda>size_bytes.
     and_then (copy_blob x v Creating copied raw_digest (blob_file f raw_digest) size_bytes) (\<lambda>content.
     Inr (copied @ [(raw_digest, Regular content)],
          inventory @ [\<lparr>be_filename = blob_relative_filename raw_digest,
            be_sha256 = digest_document raw_digest, be_size_bytes = size_bytes\<rparr>])))))"

definition newline :: bytes where "newline = [10]"

definition write_manifest :: "backup_codec \<Rightarrow> backup_env \<Rightarrow> backup_manifest \<Rightarrow> backup_error + bytes" where
  "write_manifest cdc v m =
     and_then (ok_or Backup_Metadata (backup_manifest_to_json cdc m)) (\<lambda>json.
     and_then (must v Write_Manifest Backup_Storage) (\<lambda>_. Inr (json @ newline)))"

text \<open>What the staging directory holds at the end, with the shards its blobs need.\<close>

definition staged_backup :: "bytes \<Rightarrow> bytes \<Rightarrow> (string \<times> entry) list \<Rightarrow> backup_dir" where
  "staged_backup json db_bytes blobs =
     \<lparr>bd_is_dir = True, bd_names = [''blobs'', DATABASE_FILE_NAME, MANIFEST_FILE_NAME],
      bd_manifest = Some (Regular json), bd_database = Some (Regular db_bytes), bd_blobs_is_dir = True,
      bd_blob_names = [''sha256''], bd_sha256_is_dir = True,
      bd_shards = map (\<lambda>shard. (shard, True)) (remdups (map (take 2 \<circ> fst) blobs)),
      bd_shard = (\<lambda>shard. filter (\<lambda>(digest, _). take 2 digest = shard) blobs)\<rparr>"

definition active_uploads :: "database \<Rightarrow> upload_row list" where
  "active_uploads d = filter (\<lambda>u. List.member [''created'', ''artifact_uploaded''] (up_status u)) (db_uploads d)"

definition create_staged ::
  "externals \<Rightarrow> backup_codec \<Rightarrow> backup_env \<Rightarrow> source_archive \<Rightarrow> file_path
     \<Rightarrow> backup_error + backup_manifest \<times> backup_dir" where
  "create_staged x cdc v so output =
     and_then (must v Count_Uploads Backup_Metadata) (\<lambda>_.
     and_then (reject_if (active_uploads (sd_tables (so_store so)) \<noteq> []) Active_Uploads) (\<lambda>_.
     and_then (must v Read_Archive Backup_Metadata) (\<lambda>_.
     and_then (ok_or Backup_Metadata (sd_identity (so_store so))) (\<lambda>identity.
     and_then (must v Read_Schema Backup_Metadata) (\<lambda>_.
     and_then (ok_or Backup_Metadata (sd_schema_version (so_store so))) (\<lambda>version.
     and_then (must v Read_Blob_Rows Backup_Metadata) (\<lambda>_.
     let rows = map (\<lambda>b. (bl_stored_sha256 b, bl_stored_size_bytes b))
           (sort_key bl_stored_sha256 (db_blobs (sd_tables (so_store so)))) in
     and_then (load_latest_integrity_health v (sd_integrity (so_store so))) (\<lambda>health.
     and_then (must v Checkpoint Backup_Metadata) (\<lambda>_.
     and_then (reject_if (parent_or_current output = None) Invalid_Output) (\<lambda>_.
     and_then (must v (Staging Creating) Backup_Storage) (\<lambda>_.
     and_then (must v Blob_Directories Backup_Storage) (\<lambda>_.
     and_then (online_sqlite_backup cdc v (so_store so)) (\<lambda>db_bytes.
     and_then (hash_regular_file x v Creating Database_Ref (Some (Regular db_bytes))) (\<lambda>digest.
     and_then (try_fold (backup_blob_row x v (so_files so)) ([], []) rows) (\<lambda>(copied, inventory).
     and_then (ok_or Backup_Metadata (format_time x (bv_now v Creating))) (\<lambda>created_at.
     let m = \<lparr>bm_backup_format_version = BACKUP_FORMAT_VERSION, bm_created_at = created_at,
       bm_archive_instance_id = archive_instance_id identity,
       bm_owner_namespace = ident_owner_namespace identity,
       bm_archive_created_at = ident_created_at identity,
       bm_application_version = bv_application_version v, bm_schema_version = version,
       bm_sqlite = \<lparr>bf_filename = DATABASE_FILE_NAME, bf_sha256 = digest_document (fd_sha256 digest),
         bf_size_bytes = fd_size_bytes digest\<rparr>,
       bm_blobs = inventory, bm_latest_integrity_health = health\<rparr> in
     and_then (write_manifest cdc v m) (\<lambda>json.
     Inr (m, staged_backup json db_bytes copied))))))))))))))))))"

definition create_locked ::
  "externals \<Rightarrow> backup_codec \<Rightarrow> backup_env \<Rightarrow> source_archive \<Rightarrow> file_path
     \<Rightarrow> (backup_error + backup_create_result) \<times> backup_dir option" where
  "create_locked x cdc v so output =
     (case create_staged x cdc v so output of
       Inl err \<Rightarrow> (Inl err, None)
     | Inr (m, d) \<Rightarrow> (case finalize v Creating (bv_output_exists v At_Rename) d of (r, placed) \<Rightarrow>
         (and_then r (\<lambda>_. Inr \<lparr>bc_backup_format_version = BACKUP_FORMAT_VERSION,
            bc_archive_instance_id = bm_archive_instance_id m, bc_owner_namespace = bm_owner_namespace m,
            bc_created_at = bm_created_at m, bc_blob_count = length (bm_blobs m)\<rparr>), placed)))"

definition create_backup ::
  "externals \<Rightarrow> backup_codec \<Rightarrow> backup_env \<Rightarrow> source_archive \<Rightarrow> file_path \<Rightarrow> file_path
     \<Rightarrow> (backup_error + backup_create_result) \<times> backup_dir option" where
  "create_backup x cdc v so data_dir output =
     (case
       and_then (validate_new_output v output) (\<lambda>_.
       and_then (output_is_within_data_dir v output data_dir) (\<lambda>within.
       and_then (reject_if within Invalid_Output) (\<lambda>_.
       and_then (source_paths so) (\<lambda>_.
       and_then (must v Source_Connect Backup_Source) (\<lambda>_.
       case bv_acquire v of None \<Rightarrow> Inr () | Some err \<Rightarrow> Inl (map_gate_error err)))))) of
       Inl err \<Rightarrow> (Inl err, None)
     | Inr _ \<Rightarrow> (case create_locked x cdc v so output of
           (Inl err, placed) \<Rightarrow> (Inl err, placed)
         | (Inr created, placed) \<Rightarrow> (case bv_release v of
               None \<Rightarrow> (Inr created, placed)
             | Some err \<Rightarrow> (Inl (map_gate_error err), placed))))"

section \<open>Validating a backup\<close>

text \<open>The digests have to ascend strictly.\<close>

fun validate_blob_entries :: "string option \<Rightarrow> blob_inventory_entry list \<Rightarrow> backup_error + unit" where
  "validate_blob_entries prior [] = Inr ()"
| "validate_blob_entries prior (entry # entries) =
     and_then (ok_or Backup_Manifest (digest_value (be_sha256 entry))) (\<lambda>digest.
     and_then (reject_if (be_filename entry \<noteq> blob_relative_filename digest
         \<or> (case prior of None \<Rightarrow> False | Some previous \<Rightarrow> previous \<ge> digest)) Backup_Manifest) (\<lambda>_.
     validate_blob_entries (Some digest) entries))"

definition validate_manifest_shape :: "externals \<Rightarrow> backup_manifest \<Rightarrow> backup_error + unit" where
  "validate_manifest_shape x m =
     and_then (reject_if (bm_backup_format_version m \<noteq> BACKUP_FORMAT_VERSION
         \<or> uuid_parse x (bm_archive_instance_id m) = None
         \<or> bm_owner_namespace m = [] \<or> bm_archive_created_at m = [] \<or> bm_created_at m = []
         \<or> bm_application_version m = [] \<or> bm_schema_version m \<le> 0
         \<or> bf_filename (bm_sqlite m) \<noteq> DATABASE_FILE_NAME
         \<or> digest_value (bf_sha256 (bm_sqlite m)) = None) Backup_Manifest) (\<lambda>_.
     validate_blob_entries None (bm_blobs m))"

definition validate_backup_root_entries :: "backup_env \<Rightarrow> phase \<Rightarrow> backup_dir \<Rightarrow> backup_error + unit" where
  "validate_backup_root_entries v ph d =
     and_then (must v (Read_Root ph) Backup_Manifest) (\<lambda>_.
     reject_if (set (bd_names d) \<noteq> {MANIFEST_FILE_NAME, DATABASE_FILE_NAME, ''blobs''}) Backup_Manifest)"

definition lower_hex_byte :: "char \<Rightarrow> bool" where
  "lower_hex_byte c = (is_ascii_hexdigit c \<and> \<not> is_ascii_uppercase c)"

text \<open>The blobs of the shards, each name once; anything else in the tree is an error.\<close>

definition inventory_entry ::
  "string \<Rightarrow> string list \<Rightarrow> string \<times> entry \<Rightarrow> backup_error + string list" where
  "inventory_entry shard seen = (\<lambda>(digest, found).
     and_then (reject_if (validate_raw_digest digest = None \<or> take (length shard) digest \<noteq> shard
       \<or> (case found of Regular _ \<Rightarrow> False | Non_Regular \<Rightarrow> True)
       \<or> List.member seen digest) Backup_Manifest) (\<lambda>_. Inr (seen @ [digest])))"

definition inventory_shard :: "backup_dir \<Rightarrow> string list \<Rightarrow> string \<times> bool \<Rightarrow> backup_error + string list" where
  "inventory_shard d seen = (\<lambda>(name, is_dir).
     and_then (reject_if (length name \<noteq> 2 \<or> \<not> list_all lower_hex_byte name \<or> \<not> is_dir) Backup_Manifest) (\<lambda>_.
     try_fold (inventory_entry name) seen (bd_shard d name)))"

definition backup_blob_inventory :: "backup_env \<Rightarrow> phase \<Rightarrow> backup_dir \<Rightarrow> backup_error + string list" where
  "backup_blob_inventory v ph d =
     and_then (reject_if (\<not> bd_blobs_is_dir d) Backup_Manifest) (\<lambda>_.
     and_then (must v (Read_Inventory ph) Backup_Manifest) (\<lambda>_.
     and_then (reject_if (set (bd_blob_names d) \<noteq> {''sha256''}) Backup_Manifest) (\<lambda>_.
     and_then (reject_if (\<not> bd_sha256_is_dir d) Backup_Manifest) (\<lambda>_.
     try_fold (inventory_shard d) [] (bd_shards d)))))"

definition backup_blob_at :: "backup_dir \<Rightarrow> string \<Rightarrow> entry option" where
  "backup_blob_at d digest =
     (if (take 2 digest, True) \<in> set (bd_shards d) then map_of (bd_shard d (take 2 digest)) digest else None)"

definition expected_digest :: "blob_inventory_entry \<Rightarrow> backup_error + string" where
  "expected_digest entry =
     and_then (ok_or Backup_Manifest (digest_value (be_sha256 entry))) (\<lambda>digest.
     and_then (reject_if (be_filename entry \<noteq> blob_relative_filename digest) Backup_Manifest) (\<lambda>_. Inr digest))"

definition manifest_error :: "backup_error + 'a \<Rightarrow> backup_error + 'a" where
  "manifest_error r = (case r of Inl _ \<Rightarrow> Inl Backup_Manifest | Inr w \<Rightarrow> Inr w)"

definition check_backup_blob ::
  "externals \<Rightarrow> backup_env \<Rightarrow> phase \<Rightarrow> backup_dir \<Rightarrow> blob_inventory_entry \<Rightarrow> backup_error + unit" where
  "check_backup_blob x v ph d entry =
     and_then (ok_or Backup_Manifest (digest_value (be_sha256 entry))) (\<lambda>digest.
     and_then (manifest_error (hash_regular_file x v ph (Blob_Ref digest) (backup_blob_at d digest))) (\<lambda>found.
     reject_if (fd_size_bytes found \<noteq> be_size_bytes entry \<or> fd_sha256 found \<noteq> digest) Backup_Manifest))"

definition validate_backup ::
  "externals \<Rightarrow> backup_codec \<Rightarrow> backup_env \<Rightarrow> phase \<Rightarrow> backup_dir \<Rightarrow> backup_error + backup_manifest" where
  "validate_backup x cdc v ph d =
     and_then (must v (Join_Worker ph) Backup_Storage) (\<lambda>_.
     and_then (reject_if (\<not> bd_is_dir d) Backup_Manifest) (\<lambda>_.
     case bd_manifest d of
       Some (Regular json) \<Rightarrow>
         and_then (reject_if (length json > MAX_MANIFEST_BYTES) Backup_Manifest) (\<lambda>_.
         and_then (must v (Read_Backup ph) Backup_Manifest) (\<lambda>_.
         and_then (ok_or Backup_Manifest (backup_manifest_from_json cdc json)) (\<lambda>m.
         and_then (validate_manifest_shape x m) (\<lambda>_.
         and_then (validate_backup_root_entries v ph d) (\<lambda>_.
         and_then (manifest_error (hash_regular_file x v ph Database_Ref (bd_database d))) (\<lambda>found.
         and_then (reject_if (fd_size_bytes found \<noteq> bf_size_bytes (bm_sqlite m)
             \<or> Some (fd_sha256 found) \<noteq> digest_value (bf_sha256 (bm_sqlite m))) Backup_Manifest) (\<lambda>_.
         and_then (try_map expected_digest (bm_blobs m)) (\<lambda>expected.
         and_then (reject_if (card (set expected) \<noteq> length (bm_blobs m)) Backup_Manifest) (\<lambda>_.
         and_then (backup_blob_inventory v ph d) (\<lambda>actual.
         and_then (reject_if (set actual \<noteq> set expected) Backup_Manifest) (\<lambda>_.
         and_then (try_each (check_backup_blob x v ph d) (bm_blobs m)) (\<lambda>_.
         Inr m))))))))))))
     | _ \<Rightarrow> Inl Backup_Manifest))"

section \<open>Verifying and restoring\<close>

definition copy_manifest_blob ::
  "externals \<Rightarrow> backup_env \<Rightarrow> phase \<Rightarrow> backup_dir \<Rightarrow> (string \<times> entry) list \<Rightarrow> blob_inventory_entry
     \<Rightarrow> backup_error + (string \<times> entry) list" where
  "copy_manifest_blob x v ph d copied entry =
     and_then (ok_or Backup_Manifest (digest_value (be_sha256 entry))) (\<lambda>digest.
     and_then (copy_blob x v ph copied digest (backup_blob_at d digest) (be_size_bytes entry)) (\<lambda>content.
     Inr (copied @ [(digest, Regular content)])))"

definition copy_backup_to_data_dir ::
  "externals \<Rightarrow> backup_env \<Rightarrow> phase \<Rightarrow> backup_dir \<Rightarrow> backup_manifest \<Rightarrow> backup_error + staged_copy" where
  "copy_backup_to_data_dir x v ph d m =
     and_then (must v (Join_Worker ph) Backup_Storage) (\<lambda>_.
     and_then (copy_regular_file v ph Database_Ref (bd_database d)) (\<lambda>db_bytes.
     and_then (try_fold (copy_manifest_blob x v ph d) [] (bm_blobs m)) (\<lambda>copied.
     and_then (must v (Sync_Staged ph) Backup_Storage) (\<lambda>_.
     Inr \<lparr>sg_database = db_bytes, sg_blobs = copied\<rparr>))))"

text \<open>\<open>bootstrap_for_integrity\<close> opens the copy without recovery: the image is opened, the identity row is
  there or made, and no lease may be active. The scan runs under a shared permit of the copy's own gate.\<close>

definition staged_archive :: "stored_database \<Rightarrow> (string \<times> entry) list \<Rightarrow> archive" where
  "staged_archive store blobs = \<lparr>db = sd_tables store, fs = \<lparr>chunk_files = [], blob_files = blobs\<rparr>\<rparr>"

definition bootstrap_for_integrity ::
  "backup_codec \<Rightarrow> backup_env \<Rightarrow> phase \<Rightarrow> bytes \<Rightarrow> backup_error + archive_identity \<times> stored_database" where
  "bootstrap_for_integrity cdc v ph db_bytes =
     and_then (must v (Bootstrap ph) Backup_Bootstrap) (\<lambda>_.
     and_then (ok_or Backup_Bootstrap (db_open cdc db_bytes)) (\<lambda>store.
     case initialize_identity (fst (bv_fresh_identity v)) (snd (bv_fresh_identity v)) (sd_identity store) of
       (identity, row) \<Rightarrow> (case maintenance_is_active (bv_now_unix v ph) (sd_lease store) of
           (active, lease) \<Rightarrow>
             and_then (reject_if active Backup_Bootstrap) (\<lambda>_.
             Inr (identity, store\<lparr>sd_identity := row, sd_lease := lease\<rparr>)))))"

definition scan_staged_archive ::
  "server \<Rightarrow> backup_codec \<Rightarrow> backup_env \<Rightarrow> phase \<Rightarrow> staged_copy \<Rightarrow> backup_manifest
     \<Rightarrow> backup_error + integrity_report \<times> restored_archive" where
  "scan_staged_archive srv cdc v ph staged_files m =
     and_then (bootstrap_for_integrity cdc v ph (sg_database staged_files)) (\<lambda>(identity, store).
     and_then (reject_if (archive_instance_id identity \<noteq> bm_archive_instance_id m
         \<or> ident_owner_namespace identity \<noteq> bm_owner_namespace m) Backup_Manifest) (\<lambda>_.
     and_then (must v (Acquire_Scan ph) Backup_Scan) (\<lambda>_.
     case scan_archive (srv\<lparr>srv_identity := identity\<rparr>)
         (bv_scan v ph (staged_archive store (sg_blobs staged_files))) (sd_integrity store) of
       (Inl _, _) \<Rightarrow> Inl Backup_Scan
     | (Inr report, saved) \<Rightarrow>
         Inr (report, \<lparr>ra_store = store\<lparr>sd_integrity := saved\<rparr>, ra_blobs = sg_blobs staged_files\<rparr>))))"

text \<open>The four looks of a restore at the backup directory.\<close>

datatype backup_read = Validate_Read phase | Copy_Read phase

definition verify_backup ::
  "server \<Rightarrow> backup_codec \<Rightarrow> backup_env \<Rightarrow> (backup_read \<Rightarrow> backup_dir) \<Rightarrow> file_path
     \<Rightarrow> backup_error + backup_verification" where
  "verify_backup srv cdc v dir backup =
     and_then (validate_backup (ext srv) cdc v Verifying (dir (Validate_Read Verifying))) (\<lambda>m.
     and_then (reject_if (parent_or_current backup = None) Backup_Manifest) (\<lambda>_.
     and_then (must v (Staging Verifying) Backup_Storage) (\<lambda>_.
     and_then (copy_backup_to_data_dir (ext srv) v Verifying (dir (Copy_Read Verifying)) m) (\<lambda>staged_files.
     and_then (scan_staged_archive srv cdc v Verifying staged_files m) (\<lambda>(report, _).
     Inr \<lparr>bv_backup_format_version = bm_backup_format_version m,
          bv_archive_instance_id = bm_archive_instance_id m, bv_owner_namespace = bm_owner_namespace m,
          bv_blob_count = length (bm_blobs m), bv_integrity = report\<rparr>)))))"

text \<open>What becomes of the destination: nothing, an empty directory that was removed, or the archive.\<close>

datatype restore_outcome = Untouched | Emptied | Placed restored_archive

definition place_restored ::
  "backup_env \<Rightarrow> restored_archive \<Rightarrow> (backup_error + unit) \<times> restore_outcome" where
  "place_restored v archive =
     (case (if bv_destination v At_Recheck = Absent then Inr Untouched
            else and_then (ensure_empty_directory v At_Recheck) (\<lambda>_.
                 and_then (must v Remove_Destination Destination_Not_Empty) (\<lambda>_. Inr Emptied))) of
        Inl err \<Rightarrow> (Inl err, Untouched)
      | Inr outcome \<Rightarrow> (case finalize v Restoring (bv_destination v At_Rename \<noteq> Absent) archive of
            (r, None) \<Rightarrow> (r, outcome)
          | (r, Some placed) \<Rightarrow> (r, Placed placed)))"

definition restore_backup ::
  "server \<Rightarrow> backup_codec \<Rightarrow> backup_env \<Rightarrow> (backup_read \<Rightarrow> backup_dir) \<Rightarrow> file_path \<Rightarrow> file_path
     \<Rightarrow> (backup_error + backup_restore_result) \<times> restore_outcome" where
  "restore_backup srv cdc v dir backup data_dir =
     (case
       and_then (verify_backup srv cdc v dir backup) (\<lambda>verification.
       and_then (reject_if (rp_status (bv_integrity verification) \<noteq> Healthy) Backup_Integrity) (\<lambda>_.
       and_then (validate_restore_destination v data_dir) (\<lambda>_.
       and_then (validate_backup (ext srv) cdc v Restoring (dir (Validate_Read Restoring))) (\<lambda>m.
       and_then (reject_if (parent_or_current data_dir = None) Destination_Not_Empty) (\<lambda>_.
       and_then (must v (Staging Restoring) Backup_Storage) (\<lambda>_.
       and_then (copy_backup_to_data_dir (ext srv) v Restoring (dir (Copy_Read Restoring)) m) (\<lambda>staged_files.
       and_then (scan_staged_archive srv cdc v Restoring staged_files m) (\<lambda>(report, archive).
       and_then (reject_if (rp_status report \<noteq> Healthy) Backup_Integrity) (\<lambda>_.
       Inr (verification, report, archive)))))))))) of
       Inl err \<Rightarrow> (Inl err, Untouched)
     | Inr (verification, report, archive) \<Rightarrow> (case place_restored v archive of (r, outcome) \<Rightarrow>
         (and_then r (\<lambda>_. Inr \<lparr>br_archive_instance_id = bv_archive_instance_id verification,
            br_owner_namespace = bv_owner_namespace verification,
            br_blob_count = bv_blob_count verification, br_integrity = report\<rparr>), outcome)))"

end
