(* ===== verification/Backup_Copies.thy ===== *)
theory Backup_Copies
  imports Backup Integrity_Trust
begin

text \<open>
  What the copies and checks of \<open>Backup\<close> come to. \<open>addressed\<close> is the content of a blob store as a list
  of digests with their bytes; a backup, its inventory and the restored copy are each a function of it.
\<close>

section \<open>Files\<close>

lemma must_ok [simp]: "must v p err = Inr u \<longleftrightarrow> \<not> bv_fails v p"
  by (simp add: must_def reject_if_def)

lemma hash_regular_loop_ok:
  assumes "seen \<le> u64_max"
  shows "hash_regular_loop (seen, hashed) reads = Inr r \<longleftrightarrow>
     seen + length (concat reads) \<le> u64_max \<and> r = (seen + length (concat reads), hashed @ concat reads)"
  using assms
proof (induction reads arbitrary: seen hashed)
  case (Cons b bs)
  show ?case
  proof (cases "seen + length b \<le> u64_max")
    case True
    with Cons show ?thesis by (simp add: checked_add_def add.assoc)
  next
    case False
    with Cons.prems show ?thesis by (auto simp: and_then_eq_Inr ok_or_eq_Inr checked_add_eq_Some)
  qed
qed auto

lemma hash_regular_file_ok:
  "hash_regular_file x v ph ref found = Inr d \<longleftrightarrow>
     (\<exists>bs. found = Some (Regular bs) \<and> \<not> bv_fails v (Read_File ph ref) \<and> length bs \<le> u64_max
       \<and> d = \<lparr>fd_size_bytes = length bs, fd_sha256 = sha256_hex x bs\<rparr>)"
  by (auto simp: hash_regular_file_def and_then_eq_Inr hash_regular_loop_ok split: option.splits entry.splits)

lemma copy_regular_file_ok:
  "copy_regular_file v ph ref source = Inr content \<longleftrightarrow>
     (\<exists>bs. source = Some (Regular bs) \<and> \<not> bv_fails v (Copy_File ph ref)
       \<and> content = (case bv_copied v ph ref of None \<Rightarrow> bs | Some other \<Rightarrow> other))"
  by (auto simp: copy_regular_file_def and_then_eq_Inr split: option.splits entry.splits)

text \<open>Whatever the copy delivered, what is kept has the size and the digest that were asked for.\<close>

lemma copied_blob:
  assumes "copy_blob x v ph there digest source expected_size = Inr content"
  shows "length content = expected_size" "sha256_hex x content = digest" "map_of there digest = None"
    "length content \<le> u64_max"
    "\<exists>bs. source = Some (Regular bs) \<and> (content = bs \<or> bv_copied v ph (Blob_Ref digest) = Some content)"
  using assms
  by (auto simp: copy_blob_def copy_regular_file_ok and_then_eq_Inr reject_if_eq_Inr hash_regular_file_ok
      split: option.splits entry.splits if_splits)

definition undisturbed :: "backup_env \<Rightarrow> bool" where
  "undisturbed v = ((\<forall>p. \<not> bv_fails v p) \<and> (\<forall>ph ref. bv_copied v ph ref = None))"

lemma undisturbedD:
  assumes "undisturbed v"
  shows "\<not> bv_fails v p" "must v p err = Inr ()" "bv_copied v ph ref = None"
  using assms by (simp_all add: undisturbed_def)

lemma hash_undisturbed:
  "undisturbed v \<Longrightarrow> length bs \<le> u64_max \<Longrightarrow> hash_regular_file x v ph ref (Some (Regular bs)) =
     Inr \<lparr>fd_size_bytes = length bs, fd_sha256 = sha256_hex x bs\<rparr>"
  by (simp add: hash_regular_file_ok undisturbedD)

lemma copy_blob_undisturbed:
  assumes "undisturbed v"
  shows "copy_blob x v ph there digest source n = Inr content \<longleftrightarrow>
     source = Some (Regular content) \<and> map_of there digest = None \<and> length content = n
       \<and> n \<le> u64_max \<and> sha256_hex x content = digest"
  by (auto simp: copy_blob_def copy_regular_file_def and_then_eq_Inr reject_if_eq_Inr hash_regular_file_ok
      undisturbedD [OF assms] split: option.splits entry.splits if_splits)

section \<open>The content of a blob store\<close>

definition stored_entries :: "(string \<times> bytes) list \<Rightarrow> (string \<times> entry) list" where
  "stored_entries hs = map (\<lambda>(h, bs). (h, Regular bs)) hs"

definition inventory_of :: "(string \<times> bytes) list \<Rightarrow> blob_inventory_entry list" where
  "inventory_of hs = map (\<lambda>(h, bs). \<lparr>be_filename = blob_relative_filename h, be_sha256 = digest_document h,
     be_size_bytes = length bs\<rparr>) hs"

definition addressed :: "externals \<Rightarrow> (string \<times> bytes) list \<Rightarrow> bool" where
  "addressed x hs =
     (sorted_wrt (<) (map fst hs)
      \<and> list_all (\<lambda>(h, bs). validate_raw_digest h = Some h \<and> length bs \<le> u64_max \<and> sha256_hex x bs = h) hs)"

lemma validate_raw_digest_ok: "validate_raw_digest value = Some r \<longleftrightarrow>
    length value = 64 \<and> list_all lower_hex_byte value \<and> r = value"
  by (auto simp: validate_raw_digest_def lower_hex_byte_def list_all_iff)

lemma addressedD:
  assumes "addressed x hs" "(h, bs) \<in> set hs"
  shows "validate_raw_digest h = Some h" "length bs \<le> u64_max" "sha256_hex x bs = h" "length h = 64"
    "list_all lower_hex_byte h"
proof -
  show v: "validate_raw_digest h = Some h" and "length bs \<le> u64_max" "sha256_hex x bs = h"
    using assms by (auto simp: addressed_def list_all_iff)
  from v show "length h = 64" "list_all lower_hex_byte h" by (simp_all add: validate_raw_digest_ok)
qed

lemma addressed_distinct: "addressed x hs \<Longrightarrow> distinct (map fst hs)"
  by (simp add: addressed_def strict_sorted_iff)

lemma digest_value_document [simp]: "digest_value (digest_document h) = validate_raw_digest h"
  by (simp only: digest_value_def digest_document_def strip_prefix_append Option.bind.simps)

lemma fst_stored_entries [simp]: "map fst (stored_entries hs) = map fst hs"
  by (simp add: stored_entries_def case_prod_beta' comp_def)

lemma map_of_stored_entries: "map_of (stored_entries hs) h = map_option Regular (map_of hs h)"
  by (simp add: stored_entries_def map_of_map comp_def)

lemma length_inventory [simp]: "length (inventory_of hs) = length hs"
  by (simp add: inventory_of_def)

lemma stored_entries_Cons [simp]: "stored_entries ((h, bs) # hs) = (h, Regular bs) # stored_entries hs"
  and stored_entries_Nil [simp]: "stored_entries [] = []"
  by (simp_all add: stored_entries_def)

lemma stored_entries_append [simp]: "stored_entries (hs @ ks) = stored_entries hs @ stored_entries ks"
  by (simp add: stored_entries_def)

lemma inventory_Cons [simp]:
    "inventory_of ((h, bs) # hs) = \<lparr>be_filename = blob_relative_filename h, be_sha256 = digest_document h,
       be_size_bytes = length bs\<rparr> # inventory_of hs"
  and inventory_Nil [simp]: "inventory_of [] = []"
  by (simp_all add: inventory_of_def)

section \<open>Copying the blobs of an archive\<close>

text \<open>A blob of the copy has the digest and the size of its row, and it is the file of the source unless
  the copy delivered something else.\<close>

definition blob_copied :: "externals \<Rightarrow> backup_env \<Rightarrow> files \<Rightarrow> string \<Rightarrow> bytes \<Rightarrow> bool" where
  "blob_copied x v f h bs =
     (validate_raw_digest h = Some h \<and> length bs \<le> u64_max \<and> sha256_hex x bs = h
      \<and> (blob_file f h = Some (Regular bs)
          \<or> bv_copied v Creating (Blob_Ref h) = Some bs \<and> (\<exists>src. blob_file f h = Some (Regular src))))"

lemma copied_rows:
  assumes "try_fold (backup_blob_row x v f) (copied, inventory) rows = Inr result" "distinct (map fst copied)"
  shows "\<exists>hs. result = (copied @ stored_entries hs, inventory @ inventory_of hs)
    \<and> map (\<lambda>(h, bs). (h, int (length bs))) hs = rows \<and> list_all (\<lambda>(h, bs). blob_copied x v f h bs) hs
    \<and> distinct (map fst copied @ map fst hs)"
  using assms
proof (induction rows arbitrary: copied inventory)
  case Nil
  then show ?case by (intro exI [of _ "[]"]) simp
next
  case (Cons row rows)
  obtain h n where row: "row = (h, n)" by (cases row)
  from Cons.prems(1) obtain raw size_bytes content where step:
    "validate_raw_digest h = Some raw" "n = int size_bytes"
    "copy_blob x v Creating copied raw (blob_file f raw) size_bytes = Inr content"
    and rest: "try_fold (backup_blob_row x v f) (copied @ [(raw, Regular content)],
      inventory @ inventory_of [(raw, content)]) rows = Inr result"
    by (auto simp: row backup_blob_row_def and_then_eq_Inr ok_or_eq_Inr u64_try_from_eq_Some dest: copied_blob(1))
  have raw: "raw = h" "validate_raw_digest h = Some h" using step(1) by (auto simp: validate_raw_digest_ok)
  note content = copied_blob [OF step(3)]
  have "distinct (map fst (copied @ [(raw, Regular content)]))"
    using Cons.prems(2) content(3) by (simp add: map_of_eq_None_iff)
  from Cons.IH [OF rest this] obtain hs where hs:
    "result = ((copied @ [(raw, Regular content)]) @ stored_entries hs, (inventory @ inventory_of [(raw, content)]) @ inventory_of hs)"
    "map (\<lambda>(h, bs). (h, int (length bs))) hs = rows" "list_all (\<lambda>(h, bs). blob_copied x v f h bs) hs"
    "distinct (map fst (copied @ [(raw, Regular content)]) @ map fst hs)"
    by blast
  have "blob_copied x v f h content" using content raw by (auto simp: blob_copied_def)
  with hs show ?case
    using content(1) step(2) by (intro exI [of _ "(h, content) # hs"]) (simp add: row raw)
qed

lemma copied_archive:
  assumes "try_fold (backup_blob_row x v f) ([], []) rows = Inr (copied, inventory)" "sorted (map fst rows)"
  shows "\<exists>hs. copied = stored_entries hs \<and> inventory = inventory_of hs \<and> addressed x hs
    \<and> map (\<lambda>(h, bs). (h, int (length bs))) hs = rows \<and> list_all (\<lambda>(h, bs). blob_copied x v f h bs) hs"
proof -
  from copied_rows [OF assms(1)] obtain hs where hs: "copied = stored_entries hs" "inventory = inventory_of hs"
    "map (\<lambda>(h, bs). (h, int (length bs))) hs = rows" "distinct (map fst hs)" "list_all (\<lambda>(h, bs). blob_copied x v f h bs) hs"
    by auto
  have "map fst hs = map fst rows" unfolding hs(3) [symmetric] by (simp add: case_prod_beta' comp_def)
  with assms(2) hs(4,5) have "addressed x hs"
    by (auto simp: addressed_def strict_sorted_iff list_all_iff blob_copied_def)
  with hs show ?thesis by blast
qed

section \<open>Validating the copy\<close>

lemma entries_valid:
  assumes "sorted_wrt (<) (map fst hs)" "list_all (\<lambda>(h, _). validate_raw_digest h = Some h) hs"
    and "\<And>previous. prior = Some previous \<Longrightarrow> list_all (\<lambda>(h, _). previous < h) hs"
  shows "validate_blob_entries prior (inventory_of hs) = Inr ()"
  using assms
proof (induction hs arbitrary: prior)
  case (Cons entry hs)
  obtain h bs where entry: "entry = (h, bs)" by (cases entry)
  have "validate_blob_entries (Some h) (inventory_of hs) = Inr ()"
    using Cons.prems(1,2) by (intro Cons.IH) (auto simp: entry list_all_iff)
  moreover have "\<not> (case prior of None \<Rightarrow> False | Some previous \<Rightarrow> previous \<ge> h)"
    using Cons.prems(3) by (auto simp: entry split: option.splits)
  ultimately show ?case using Cons.prems(2) by (simp add: entry reject_if_def)
qed simp

lemma expected_digests:
  "list_all (\<lambda>(h, _). validate_raw_digest h = Some h) hs \<Longrightarrow> try_map expected_digest (inventory_of hs) = Inr (map fst hs)"
  by (induction hs) (auto simp: expected_digest_def reject_if_def)

lemma shard_inventory:
  assumes "list_all (\<lambda>(h, _). validate_raw_digest h = Some h \<and> take (length shard) h = shard) es"
    and "distinct (seen @ map fst es)"
  shows "try_fold (inventory_entry shard) seen (stored_entries es) = Inr (seen @ map fst es)"
  using assms
  by (induction es arbitrary: seen) (auto simp: inventory_entry_def reject_if_def)

lemma stored_entries_filter:
  "filter (\<lambda>(digest, _). P digest) (stored_entries hs) = stored_entries (filter (\<lambda>(digest, _). P digest) hs)"
  by (induction hs) auto

definition shard_blobs :: "(string \<times> bytes) list \<Rightarrow> string \<Rightarrow> (string \<times> bytes) list" where
  "shard_blobs hs shard = filter (\<lambda>(digest, _). take 2 digest = shard) hs"

lemma shards_inventory:
  assumes "addressed x hs" "distinct shards" "distinct seen" "set shards \<subseteq> set (map (take 2 \<circ> fst) hs)"
    and "\<And>h. h \<in> set seen \<Longrightarrow> take 2 h \<notin> set shards"
  shows "try_fold (inventory_shard (staged_backup json bytes (stored_entries hs))) seen (map (\<lambda>s. (s, True)) shards) =
    Inr (seen @ concat (map (map fst \<circ> shard_blobs hs) shards))"
  using assms(2-)
proof (induction shards arbitrary: seen)
  case (Cons shard shards)
  let ?es = "shard_blobs hs shard"
  obtain h bs where "(h, bs) \<in> set hs" "shard = take 2 h" using Cons.prems(3) by auto
  with addressedD(4,5) [OF assms(1) this(1)] have shard: "length shard = 2" "list_all lower_hex_byte shard"
    by (auto simp: list_all_iff dest: in_set_takeD)
  have "list_all (\<lambda>(h, _). validate_raw_digest h = Some h \<and> take (length shard) h = shard) ?es"
    using assms(1) shard(1) by (auto simp: shard_blobs_def addressed_def list_all_iff)
  moreover have "distinct (seen @ map fst ?es)"
  proof -
    have "h \<notin> set seen" if "h \<in> set (map fst ?es)" for h
      using that Cons.prems(4) [of h] by (auto simp: shard_blobs_def)
    moreover have "distinct (map fst ?es)"
      using addressed_distinct [OF assms(1)] by (simp add: shard_blobs_def distinct_map_filter)
    ultimately show ?thesis using Cons.prems(2) by auto
  qed
  ultimately have step: "inventory_shard (staged_backup json bytes (stored_entries hs)) seen (shard, True) =
      Inr (seen @ map fst ?es)"
    using shard shard_inventory [of shard ?es seen]
    by (simp add: inventory_shard_def staged_backup_def reject_if_def stored_entries_filter shard_blobs_def)
  have "try_fold (inventory_shard (staged_backup json bytes (stored_entries hs))) (seen @ map fst ?es)
      (map (\<lambda>s. (s, True)) shards) = Inr ((seen @ map fst ?es) @ concat (map (map fst \<circ> shard_blobs hs) shards))"
  proof (rule Cons.IH)
    show "distinct (seen @ map fst ?es)" by fact
    show "take 2 h \<notin> set shards" if "h \<in> set (seen @ map fst ?es)" for h
      using that Cons.prems(1,4) by (auto simp: shard_blobs_def)
  qed (use Cons.prems in auto)
  with step show ?case by (simp add: comp_def)
qed simp

lemma staged_inventory:
  assumes "undisturbed v" "addressed x hs"
  shows "\<exists>actual. backup_blob_inventory v ph (staged_backup json bytes (stored_entries hs)) = Inr actual
    \<and> set actual = set (map fst hs)"
proof -
  let ?shards = "remdups (map (take 2 \<circ> fst) (stored_entries hs))"
  have heads: "map (take 2 \<circ> fst) (stored_entries hs) = map (take 2 \<circ> fst) hs"
    by (simp add: stored_entries_def case_prod_beta' comp_def)
  have "try_fold (inventory_shard (staged_backup json bytes (stored_entries hs))) [] (map (\<lambda>s. (s, True)) ?shards) =
    Inr ([] @ concat (map (map fst \<circ> shard_blobs hs) ?shards))"
    by (intro shards_inventory [OF assms(2)]) (simp_all only: heads distinct_remdups set_remdups list.set(1) distinct.simps(1) subset_refl empty_iff)
  moreover have "set (concat (map (map fst \<circ> shard_blobs hs) ?shards)) = set (map fst hs)"
    unfolding heads by (force simp: shard_blobs_def)
  ultimately show ?thesis
    by (simp add: backup_blob_inventory_def undisturbedD [OF assms(1)])
      (simp add: staged_backup_def)
qed

lemma staged_blob_at:
  "backup_blob_at (staged_backup json bytes (stored_entries hs)) h = map_option Regular (map_of hs h)"
proof (cases "take 2 h \<in> set (map (take 2 \<circ> fst) hs)")
  case True
  have "map_of (filter (\<lambda>(digest, _). take 2 digest = take 2 h) es) h = map_of es h" for es :: "(string \<times> entry) list"
    by (induction es) auto
  then show ?thesis using True
    by (auto simp: backup_blob_at_def staged_backup_def map_of_stored_entries [symmetric]) (force simp: stored_entries_def)
next
  case False
  then have "h \<notin> fst ` set hs" by auto
  then have "map_of hs h = None" by (simp add: map_of_eq_None_iff)
  moreover have "(take 2 h, True) \<notin> set (bd_shards (staged_backup json bytes (stored_entries hs)))"
    using False by (force simp: staged_backup_def stored_entries_def)
  ultimately show ?thesis by (simp add: backup_blob_at_def)
qed

text \<open>The fields a manifest has to give.\<close>

definition presentable :: "externals \<Rightarrow> backup_manifest \<Rightarrow> bool" where
  "presentable x m =
     (bm_backup_format_version m = BACKUP_FORMAT_VERSION \<and> uuid_parse x (bm_archive_instance_id m) \<noteq> None
      \<and> bm_owner_namespace m \<noteq> [] \<and> bm_archive_created_at m \<noteq> [] \<and> bm_created_at m \<noteq> []
      \<and> bm_application_version m \<noteq> [] \<and> 0 < bm_schema_version m)"

definition manifest_describes :: "externals \<Rightarrow> backup_manifest \<Rightarrow> bytes \<Rightarrow> (string \<times> bytes) list \<Rightarrow> bool" where
  "manifest_describes x m db_bytes hs =
     (bm_blobs m = inventory_of hs
      \<and> bm_sqlite m = \<lparr>bf_filename = DATABASE_FILE_NAME, bf_sha256 = digest_document (sha256_hex x db_bytes),
          bf_size_bytes = length db_bytes\<rparr>
      \<and> length db_bytes \<le> u64_max)"

definition sha256_sized :: "externals \<Rightarrow> bytes \<Rightarrow> bool" where
  "sha256_sized x bs = (length (sha256_digest x bs) = 32)"

lemma sized_digest: "sha256_sized x bs \<Longrightarrow> validate_raw_digest (sha256_hex x bs) = Some (sha256_hex x bs)"
  using hex_digest_lower [of "sha256_digest x bs"]
  by (auto simp: sha256_sized_def validate_raw_digest_ok sha256_hex_def list_all_iff is_lower_hex_def lower_hex_byte_def
      is_ascii_hexdigit_def is_ascii_digit_def is_ascii_lowercase_def is_ascii_uppercase_def)

lemma staged_valid:
  assumes v: "undisturbed v" and x: "sha256_sized x db_bytes" "addressed x hs"
    and json: "backup_manifest_from_json cdc json = Some m" "length json \<le> MAX_MANIFEST_BYTES"
    and m: "presentable x m" "manifest_describes x m db_bytes hs"
  shows "validate_backup x cdc v ph (staged_backup json db_bytes (stored_entries hs)) = Inr m"
proof -
  let ?d = "staged_backup json db_bytes (stored_entries hs)"
  have raw: "list_all (\<lambda>(h, _). validate_raw_digest h = Some h) hs" using x(2) by (auto simp: addressed_def list_all_iff)
  have fields: "bm_blobs m = inventory_of hs" "digest_value (bf_sha256 (bm_sqlite m)) = Some (sha256_hex x db_bytes)"
    "bf_filename (bm_sqlite m) = DATABASE_FILE_NAME" "bf_size_bytes (bm_sqlite m) = length db_bytes" "length db_bytes \<le> u64_max"
    using m(2) sized_digest [OF x(1)] by (simp_all add: manifest_describes_def)
  have "validate_blob_entries None (inventory_of hs) = Inr ()"
    using x(2) raw by (intro entries_valid) (simp_all add: addressed_def)
  then have shape: "validate_manifest_shape x m = Inr ()"
    using m(1) by (simp add: validate_manifest_shape_def fields presentable_def reject_if_def)
  have root: "validate_backup_root_entries v ph ?d = Inr ()"
    by (auto simp: validate_backup_root_entries_def undisturbedD [OF v] staged_backup_def reject_if_def)
  obtain actual where actual: "backup_blob_inventory v ph ?d = Inr actual" "set actual = set (map fst hs)"
    using staged_inventory [OF v x(2)] by blast
  have "check_backup_blob x v ph ?d \<lparr>be_filename = blob_relative_filename h, be_sha256 = digest_document h,
      be_size_bytes = length bs\<rparr> = Inr ()" if entry: "(h, bs) \<in> set hs" for h bs
  proof -
    have "map_of hs h = Some bs" using addressed_distinct [OF x(2)] entry by simp
    then show ?thesis using addressedD(1-3) [OF x(2) entry]
      by (simp add: check_backup_blob_def staged_blob_at hash_undisturbed [OF v] manifest_error_def reject_if_def)
  qed
  then have checks: "try_each (check_backup_blob x v ph ?d) (inventory_of hs) = Inr ()"
    by (auto simp: try_each_eq_Inr inventory_of_def)
  have parts: "bd_is_dir ?d" "bd_manifest ?d = Some (Regular json)" "bd_database ?d = Some (Regular db_bytes)"
    by (simp_all add: staged_backup_def)
  have count: "card (set (map fst hs)) = length hs"
    using distinct_card [OF addressed_distinct [OF x(2)]] by simp
  show ?thesis
    unfolding validate_backup_def undisturbedD(2) [OF v] parts
    using json actual count
    by (simp add: parts(1) reject_if_def shape root hash_undisturbed [OF v] manifest_error_def fields expected_digests [OF raw] checks)
qed

section \<open>Copying a backup\<close>

lemma copied_manifest_blobs:
  assumes "undisturbed v" "distinct (map fst (placed @ todo))"
    and "list_all (\<lambda>(h, bs). validate_raw_digest h = Some h \<and> length bs \<le> u64_max \<and> sha256_hex x bs = h
        \<and> backup_blob_at d h = Some (Regular bs)) todo"
  shows "try_fold (copy_manifest_blob x v ph d) (stored_entries placed) (inventory_of todo) =
    Inr (stored_entries (placed @ todo))"
  using assms(2,3)
proof (induction todo arbitrary: placed)
  case (Cons entry todo)
  obtain h bs where entry: "entry = (h, bs)" by (cases entry)
  have "map_of (stored_entries placed) h = None"
    using Cons.prems(1) by (auto simp: entry map_of_stored_entries map_of_eq_None_iff)
  with Cons.prems(2) have "copy_blob x v ph (stored_entries placed) h (backup_blob_at d h) (length bs) = Inr bs"
    by (simp add: entry copy_blob_undisturbed [OF assms(1)])
  moreover have "try_fold (copy_manifest_blob x v ph d) (stored_entries (placed @ [(h, bs)])) (inventory_of todo) =
      Inr (stored_entries ((placed @ [(h, bs)]) @ todo))"
    using Cons.prems by (intro Cons.IH) (auto simp: entry)
  moreover from calculation(1) have "copy_manifest_blob x v ph d (stored_entries placed) \<lparr>be_filename = blob_relative_filename h,
      be_sha256 = digest_document h, be_size_bytes = length bs\<rparr> = Inr (stored_entries (placed @ [(h, bs)]))"
    using Cons.prems(2) by (simp add: entry copy_manifest_blob_def)
  ultimately show ?case by (simp add: entry)
qed simp

lemma staged_copied:
  assumes "undisturbed v" "addressed x hs" "manifest_describes x m db_bytes hs"
  shows "copy_backup_to_data_dir x v ph (staged_backup json db_bytes (stored_entries hs)) m =
    Inr \<lparr>sg_database = db_bytes, sg_blobs = stored_entries hs\<rparr>"
proof -
  let ?d = "staged_backup json db_bytes (stored_entries hs)"
  have "backup_blob_at ?d h = Some (Regular bs)" if "(h, bs) \<in> set hs" for h bs
    using addressed_distinct [OF assms(2)] that by (simp add: staged_blob_at)
  then have "try_fold (copy_manifest_blob x v ph ?d) (stored_entries []) (inventory_of hs) = Inr (stored_entries ([] @ hs))"
    using addressed_distinct [OF assms(2)] addressedD [OF assms(2)]
    by (intro copied_manifest_blobs [OF assms(1)]) (auto simp: list_all_iff)
  then show ?thesis using assms(3)
    by (simp add: copy_backup_to_data_dir_def undisturbedD [OF assms(1)] copy_regular_file_def manifest_describes_def)
      (simp add: staged_backup_def undisturbedD [OF assms(1)])
qed

section \<open>What a created backup is\<close>

definition backed_up_store :: "source_archive \<Rightarrow> stored_database" where
  "backed_up_store so = (so_store so)\<lparr>sd_lease := no_lease\<rparr>"

definition stored_rows :: "source_archive \<Rightarrow> (string \<times> int) list" where
  "stored_rows so = map (\<lambda>b. (bl_stored_sha256 b, bl_stored_size_bytes b))
     (sort_key bl_stored_sha256 (db_blobs (sd_tables (so_store so))))"

text \<open>The manifest and the content of a backup of \<open>so\<close>.\<close>

definition backup_of ::
  "externals \<Rightarrow> backup_codec \<Rightarrow> backup_env \<Rightarrow> source_archive \<Rightarrow> backup_manifest \<Rightarrow> (string \<times> bytes) list \<Rightarrow> bool" where
  "backup_of x cdc v so m hs =
     (addressed x hs \<and> manifest_describes x m (db_image cdc (backed_up_store so)) hs
      \<and> map (\<lambda>(h, bs). (h, int (length bs))) hs = stored_rows so
      \<and> list_all (\<lambda>(h, bs). blob_copied x v (so_files so) h bs) hs
      \<and> sd_identity (so_store so) = Some \<lparr>ident_owner_namespace = bm_owner_namespace m,
          archive_instance_id = bm_archive_instance_id m, ident_created_at = bm_archive_created_at m\<rparr>
      \<and> sd_schema_version (so_store so) = Some (bm_schema_version m)
      \<and> bm_application_version m = bv_application_version v
      \<and> format_time x (bv_now v Creating) = Some (bm_created_at m)
      \<and> bm_backup_format_version m = BACKUP_FORMAT_VERSION \<and> active_uploads (sd_tables (so_store so)) = [])"

lemma create_staged_backup:
  assumes "create_staged x cdc v so output = Inr (m, d)"
  shows "\<exists>hs json. backup_manifest_to_json cdc m = Some json \<and> backup_of x cdc v so m hs
    \<and> d = staged_backup (json @ newline) (db_image cdc (backed_up_store so)) (stored_entries hs)"
proof -
  from assms obtain identity version health db_bytes digest copied inventory created_at json where
    steps: "active_uploads (sd_tables (so_store so)) = []" "sd_identity (so_store so) = Some identity"
      "sd_schema_version (so_store so) = Some version" "online_sqlite_backup cdc v (so_store so) = Inr db_bytes"
      "hash_regular_file x v Creating Database_Ref (Some (Regular db_bytes)) = Inr digest"
      "try_fold (backup_blob_row x v (so_files so)) ([], []) (stored_rows so) = Inr (copied, inventory)"
      "format_time x (bv_now v Creating) = Some created_at" "write_manifest cdc v m = Inr json"
      "d = staged_backup json db_bytes copied"
    and m: "m = \<lparr>bm_backup_format_version = BACKUP_FORMAT_VERSION, bm_created_at = created_at,
         bm_archive_instance_id = archive_instance_id identity,
         bm_owner_namespace = ident_owner_namespace identity,
         bm_archive_created_at = ident_created_at identity,
         bm_application_version = bv_application_version v, bm_schema_version = version,
         bm_sqlite = \<lparr>bf_filename = DATABASE_FILE_NAME, bf_sha256 = digest_document (fd_sha256 digest),
           bf_size_bytes = fd_size_bytes digest\<rparr>,
         bm_blobs = inventory, bm_latest_integrity_health = health\<rparr>"
    by (auto simp: create_staged_def Let_def stored_rows_def and_then_eq_Inr ok_or_eq_Inr reject_if_eq_Inr)
  have image: "db_bytes = db_image cdc (backed_up_store so)"
    using steps(4) by (auto simp: online_sqlite_backup_def and_then_eq_Inr backed_up_store_def)
  have "sorted (map fst (stored_rows so))" by (simp add: stored_rows_def comp_def)
  from copied_archive [OF steps(6) this] obtain hs where hs: "copied = stored_entries hs" "inventory = inventory_of hs"
    "addressed x hs" "map (\<lambda>(h, bs). (h, int (length bs))) hs = stored_rows so"
    "list_all (\<lambda>(h, bs). blob_copied x v (so_files so) h bs) hs"
    by blast
  obtain json' where json: "backup_manifest_to_json cdc m = Some json'" "json = json' @ newline"
    using steps(8) by (auto simp: write_manifest_def and_then_eq_Inr ok_or_eq_Inr)
  have "backup_of x cdc v so m hs"
    using steps(1-3,5,7) hs(3-5) by (auto simp: backup_of_def manifest_describes_def m hash_regular_file_ok image hs(2))
  with json steps(9) hs(1) image show ?thesis by blast
qed

lemma create_placed:
  assumes "create_backup x cdc v so data_dir output = (r, Some d)"
  shows "\<exists>m hs json. backup_manifest_to_json cdc m = Some json \<and> backup_of x cdc v so m hs
    \<and> d = staged_backup (json @ newline) (db_image cdc (backed_up_store so)) (stored_entries hs)
    \<and> (is_ok r \<longrightarrow> r = Inr \<lparr>bc_backup_format_version = BACKUP_FORMAT_VERSION,
            bc_archive_instance_id = bm_archive_instance_id m, bc_owner_namespace = bm_owner_namespace m,
            bc_created_at = bm_created_at m, bc_blob_count = length (bm_blobs m)\<rparr>)
    \<and> (\<not> is_ok r \<longrightarrow> bv_fails v (Sync_Destination Creating) \<or> bv_release v \<noteq> None)"
proof -
  obtain m where staged: "create_staged x cdc v so output = Inr (m, d)"
    and r: "is_ok r \<longrightarrow> r = Inr \<lparr>bc_backup_format_version = BACKUP_FORMAT_VERSION,
            bc_archive_instance_id = bm_archive_instance_id m, bc_owner_namespace = bm_owner_namespace m,
            bc_created_at = bm_created_at m, bc_blob_count = length (bm_blobs m)\<rparr>"
      "\<not> is_ok r \<longrightarrow> bv_fails v (Sync_Destination Creating) \<or> bv_release v \<noteq> None"
    using assms
    by (auto simp: create_backup_def create_locked_def finalize_def split: sum.splits option.splits prod.splits if_splits)
  from create_staged_backup [OF staged] r show ?thesis by blast
qed

end
