(* ===== verification/Backup_Restore.thy ===== *)
theory Backup_Restore
  imports Backup_Copies
begin

text \<open>
  What becomes of a backup that was made: it is accepted by every undisturbed check, its scan sees the
  archive as it was copied, and a restore places exactly that archive or, when the scan finds anything
  to warn of, nothing.
\<close>

section \<open>Acceptance\<close>

text \<open>The third-party formats: an image opens to what was written, and the manifest is read back.\<close>

definition codec_faithful :: "backup_codec \<Rightarrow> stored_database \<Rightarrow> bool" where
  "codec_faithful cdc store =
     (db_open cdc (db_image cdc store) = Some store
      \<and> (\<forall>m json. backup_manifest_to_json cdc m = Some json \<longrightarrow> backup_manifest_from_json cdc (json @ newline) = Some m))"

text \<open>The row of the archive, the schema version and the version of the program are what they are in any
  archive that was opened once.\<close>

definition well_kept :: "externals \<Rightarrow> backup_env \<Rightarrow> source_archive \<Rightarrow> bool" where
  "well_kept x v so =
     ((case sd_identity (so_store so) of None \<Rightarrow> True
       | Some i \<Rightarrow> uuid_parse x (archive_instance_id i) \<noteq> None \<and> ident_owner_namespace i \<noteq> [] \<and> ident_created_at i \<noteq> [])
      \<and> (case sd_schema_version (so_store so) of None \<Rightarrow> True | Some version \<Rightarrow> 0 < version)
      \<and> bv_application_version v \<noteq> [] \<and> format_time x (bv_now v Creating) \<noteq> Some [])"

lemma kept_presentable: "well_kept x v so \<Longrightarrow> backup_of x cdc v so m hs \<Longrightarrow> presentable x m"
  by (auto simp: well_kept_def backup_of_def presentable_def)

lemma created_accepted:
  assumes "undisturbed v'" "sha256_sized x (db_image cdc (backed_up_store so))" "codec_faithful cdc (backed_up_store so)" "well_kept x v so"
    and "backup_manifest_to_json cdc m = Some json" "backup_of x cdc v so m hs" "length json < MAX_MANIFEST_BYTES"
  shows "validate_backup x cdc v' ph (staged_backup (json @ newline) (db_image cdc (backed_up_store so)) (stored_entries hs))
    = Inr m"
  using assms
  by (intro staged_valid) (auto simp: codec_faithful_def backup_of_def newline_def kept_presentable)

section \<open>The scan of the copy\<close>

definition scan_findings :: "server \<Rightarrow> scan_env \<Rightarrow> archive \<Rightarrow> finding list" where
  "scan_findings srv e a = archive_findings srv e a (the (sort_key_from_timestamp (iv_clock e At_Blobs)))"

definition scan_ready :: "server \<Rightarrow> scan_env \<Rightarrow> archive \<Rightarrow> integrity_tables \<Rightarrow> bool" where
  "scan_ready srv e a saved =
     (at_rest e a \<and> within_i64 srv \<and> keyed (db a) \<and> clock_good srv e \<and> fresh_scan_ids e saved
      \<and> sort_key_from_timestamp (iv_clock e At_Blobs) \<noteq> None \<and> length (scan_findings srv e a) \<le> i64_max)"

lemma ready_scan:
  assumes "scan_ready srv e a saved"
  shows "\<exists>rp t. scan_archive srv e saved = (Inr rp, t)
    \<and> (rp_status rp = Healthy \<longleftrightarrow> (\<forall>f \<in> set (scan_findings srv e a). severity_of f = Info))"
proof -
  obtain now_seq where now: "sort_key_from_timestamp (iv_clock e At_Blobs) = Some now_seq"
    using assms by (auto simp: scan_ready_def)
  then have found: "scan_findings srv e a = archive_findings srv e a now_seq" by (simp add: scan_findings_def)
  from scan_at_rest [OF _ _ _ _ _ now found, of saved] assms
  obtain rp t where "scan_archive srv e saved = (Inr rp, t)" "rp_status rp = status_for (scan_findings srv e a)"
    by (auto simp: scan_ready_def)
  then show ?thesis by (auto simp: status_for_def)
qed

text \<open>The archive that is copied, and the server that scans the copy.\<close>

definition source_copy :: "source_archive \<Rightarrow> archive" where
  "source_copy so = staged_archive (so_store so)
     (map (\<lambda>(h, _). (h, the (blob_file (so_files so) h))) (stored_rows so))"

definition served :: "server \<Rightarrow> source_archive \<Rightarrow> server" where
  "served srv so = srv\<lparr>srv_identity := the (sd_identity (so_store so))\<rparr>"

lemma copied_entries:
  assumes "backup_of x cdc v so m hs" "\<And>h. bv_copied v Creating (Blob_Ref h) = None"
  shows "stored_entries hs = map (\<lambda>(h, _). (h, the (blob_file (so_files so) h))) (stored_rows so)"
proof -
  have "list_all (\<lambda>(h, bs). blob_file (so_files so) h = Some (Regular bs)) hs"
    and rows: "stored_rows so = map (\<lambda>(h, bs). (h, int (length bs))) hs"
    using assms by (auto simp: backup_of_def blob_copied_def list_all_iff)
  then show ?thesis unfolding rows stored_entries_def by (auto simp: list_all_iff)
qed

lemma no_lease_inactive [simp]: "maintenance_is_active t no_lease = (False, no_lease)"
  by (simp add: maintenance_is_active_def read_lease_def no_lease_def numeral_2_eq_2)

definition scan_env_for :: "backup_env \<Rightarrow> phase \<Rightarrow> source_archive \<Rightarrow> scan_env" where
  "scan_env_for v ph so = bv_scan v ph (source_copy so)"

lemma created_scan:
  assumes "undisturbed v'" "codec_faithful cdc (backed_up_store so)" "backup_of x cdc v so m hs" "\<And>h. bv_copied v Creating (Blob_Ref h) = None"
    and "scan_ready (served srv so) (scan_env_for v' ph so) (source_copy so) (sd_integrity (so_store so))"
  shows "\<exists>report saved. scan_staged_archive srv cdc v' ph
      \<lparr>sg_database = db_image cdc (backed_up_store so), sg_blobs = stored_entries hs\<rparr> m =
        Inr (report, \<lparr>ra_store = (backed_up_store so)\<lparr>sd_integrity := saved\<rparr>, ra_blobs = stored_entries hs\<rparr>)
    \<and> (rp_status report = Healthy \<longleftrightarrow>
        (\<forall>f \<in> set (scan_findings (served srv so) (scan_env_for v' ph so) (source_copy so)). severity_of f = Info))"
proof -
  obtain i where i: "sd_identity (so_store so) = Some i" "archive_instance_id i = bm_archive_instance_id m"
    "ident_owner_namespace i = bm_owner_namespace m"
    using assms(3) by (auto simp: backup_of_def)
  have archive: "staged_archive (backed_up_store so) (stored_entries hs) = source_copy so"
    unfolding copied_entries [OF assms(3,4)] by (simp add: source_copy_def staged_archive_def backed_up_store_def)
  have boot: "bootstrap_for_integrity cdc v' ph (db_image cdc (backed_up_store so)) = Inr (i, backed_up_store so)"
    using assms(2) i(1)
    by (simp add: bootstrap_for_integrity_def undisturbedD [OF assms(1)] codec_faithful_def backed_up_store_def
        initialize_identity_def reject_if_def)
  have saved: "sd_integrity (backed_up_store so) = sd_integrity (so_store so)" by (simp add: backed_up_store_def)
  have server: "srv\<lparr>srv_identity := i\<rparr> = served srv so" by (simp add: served_def i(1))
  from ready_scan [OF assms(5)] obtain rp t where
    run: "scan_archive (served srv so) (scan_env_for v' ph so) (sd_integrity (so_store so)) = (Inr rp, t)"
    and healthy: "rp_status rp = Healthy \<longleftrightarrow>
      (\<forall>f \<in> set (scan_findings (served srv so) (scan_env_for v' ph so) (source_copy so)). severity_of f = Info)"
    by blast
  have "scan_staged_archive srv cdc v' ph
      \<lparr>sg_database = db_image cdc (backed_up_store so), sg_blobs = stored_entries hs\<rparr> m =
        Inr (rp, \<lparr>ra_store = (backed_up_store so)\<lparr>sd_integrity := t\<rparr>, ra_blobs = stored_entries hs\<rparr>)"
    using run
    by (simp add: scan_staged_archive_def boot i(2,3) reject_if_def undisturbedD [OF assms(1)] archive saved server
        scan_env_for_def)
  with healthy show ?thesis by blast
qed

section \<open>Restoring\<close>

lemma created_verified:
  assumes "undisturbed v'" "codec_faithful cdc (backed_up_store so)" "sha256_sized (ext srv) (db_image cdc (backed_up_store so))" "well_kept (ext srv) v so"
    and "backup_manifest_to_json cdc m = Some json" "backup_of (ext srv) cdc v so m hs" "length json < MAX_MANIFEST_BYTES"
    and "\<And>h. bv_copied v Creating (Blob_Ref h) = None" "parent_or_current backup \<noteq> None"
    and "scan_ready (served srv so) (scan_env_for v' Verifying so) (source_copy so) (sd_integrity (so_store so))"
    and "\<And>ph. dir ph = staged_backup (json @ newline) (db_image cdc (backed_up_store so)) (stored_entries hs)"
  shows "\<exists>verification. verify_backup srv cdc v' dir backup = Inr verification
    \<and> bv_archive_instance_id verification = bm_archive_instance_id m
    \<and> bv_blob_count verification = length (bm_blobs m)
    \<and> (rp_status (bv_integrity verification) = Healthy \<longleftrightarrow>
        (\<forall>f \<in> set (scan_findings (served srv so) (scan_env_for v' Verifying so) (source_copy so)). severity_of f = Info))"
proof -
  note accepted = created_accepted [OF assms(1,3,2,4,5,6,7)]
  have m: "addressed (ext srv) hs" "manifest_describes (ext srv) m (db_image cdc (backed_up_store so)) hs"
    using assms(6) by (simp_all add: backup_of_def)
  note scan = created_scan [OF assms(1,2,6,8,10)]
  show ?thesis
    using scan assms(9)
    by (auto simp: verify_backup_def assms(11) accepted staged_copied [OF assms(1) m] undisturbedD [OF assms(1)]
        reject_if_def)
qed

text \<open>The destination a restore may take: nothing, or an empty directory that can be removed.\<close>

definition destination_free :: "backup_env \<Rightarrow> file_path \<Rightarrow> bool" where
  "destination_free v target =
     (validate_restore_destination v target = Inr () \<and> parent_or_current target \<noteq> None
      \<and> bv_destination v At_Recheck \<noteq> Occupied \<and> bv_destination v At_Rename = Absent)"

lemma placed_free:
  "undisturbed v \<Longrightarrow> destination_free v target \<Longrightarrow> place_restored v archive = (Inr (), Placed archive)"
  by (cases "bv_destination v At_Recheck")
    (simp_all add: place_restored_def destination_free_def ensure_empty_directory_def undisturbedD finalize_def reject_if_def)

lemma created_restored:
  assumes "undisturbed v'" "codec_faithful cdc (backed_up_store so)" "sha256_sized (ext srv) (db_image cdc (backed_up_store so))" "well_kept (ext srv) v so"
    and "backup_manifest_to_json cdc m = Some json" "backup_of (ext srv) cdc v so m hs" "length json < MAX_MANIFEST_BYTES"
    and "\<And>h. bv_copied v Creating (Blob_Ref h) = None" "parent_or_current backup \<noteq> None"
    and "\<And>ph. scan_ready (served srv so) (scan_env_for v' ph so) (source_copy so) (sd_integrity (so_store so))"
    and "\<And>ph. dir ph = staged_backup (json @ newline) (db_image cdc (backed_up_store so)) (stored_entries hs)"
    and "destination_free v' target"
    and "\<And>ph. list_all (\<lambda>f. severity_of f = Info) (scan_findings (served srv so) (scan_env_for v' ph so) (source_copy so))"
  shows "\<exists>restored saved. restore_backup srv cdc v' dir backup target =
      (Inr restored, Placed \<lparr>ra_store = (backed_up_store so)\<lparr>sd_integrity := saved\<rparr>, ra_blobs = stored_entries hs\<rparr>)
    \<and> br_archive_instance_id restored = bm_archive_instance_id m \<and> br_blob_count restored = length (bm_blobs m)"
proof -
  note accepted = created_accepted [OF assms(1,3,2,4,5,6,7)]
  have m: "addressed (ext srv) hs" "manifest_describes (ext srv) m (db_image cdc (backed_up_store so)) hs"
    using assms(6) by (simp_all add: backup_of_def)
  have info: "\<forall>f \<in> set (scan_findings (served srv so) (scan_env_for v' ph so) (source_copy so)). severity_of f = Info" for ph
    using assms(13) [of ph] by (simp add: list_all_iff)
  from created_scan [OF assms(1,2,6,8,10), of Restoring] info [of Restoring] obtain report saved where scan:
    "scan_staged_archive srv cdc v' Restoring \<lparr>sg_database = db_image cdc (backed_up_store so), sg_blobs = stored_entries hs\<rparr> m =
        Inr (report, \<lparr>ra_store = (backed_up_store so)\<lparr>sd_integrity := saved\<rparr>, ra_blobs = stored_entries hs\<rparr>)"
    "rp_status report = Healthy"
    by blast
  from created_verified [where dir = dir, OF assms(1-11)] info [of Verifying] obtain verification where verified:
    "verify_backup srv cdc v' dir backup = Inr verification" "rp_status (bv_integrity verification) = Healthy"
    "bv_archive_instance_id verification = bm_archive_instance_id m" "bv_blob_count verification = length (bm_blobs m)"
    by blast
  show ?thesis
    using assms(12)
    by (auto simp add: restore_backup_def verified assms(11) accepted staged_copied [OF assms(1) m] undisturbedD [OF assms(1)]
        reject_if_def scan placed_free [OF assms(1,12)] destination_free_def)
qed

section \<open>What a restore may place\<close>

lemma copy_manifest_blob_ok: "copy_manifest_blob x v ph d copied entry = Inr result \<longleftrightarrow>
    (\<exists>digest content. digest_value (be_sha256 entry) = Some digest
      \<and> copy_blob x v ph copied digest (backup_blob_at d digest) (be_size_bytes entry) = Inr content
      \<and> result = copied @ [(digest, Regular content)])"
  by (auto simp: copy_manifest_blob_def and_then_eq_Inr ok_or_eq_Inr)

lemma copied_contents:
  assumes "try_fold (copy_manifest_blob x v ph d) copied entries = Inr result"
    and "list_all (\<lambda>(h, found). \<exists>bs. found = Regular bs \<and> sha256_hex x bs = h) copied"
  shows "list_all (\<lambda>(h, found). \<exists>bs. found = Regular bs \<and> sha256_hex x bs = h) result
    \<and> map (Some \<circ> fst) result = map (Some \<circ> fst) copied @ map (digest_value \<circ> be_sha256) entries"
  using assms
proof (induction entries arbitrary: copied)
  case (Cons entry entries)
  from Cons.prems(1) obtain digest content where step: "digest_value (be_sha256 entry) = Some digest"
    "copy_blob x v ph copied digest (backup_blob_at d digest) (be_size_bytes entry) = Inr content"
    "try_fold (copy_manifest_blob x v ph d) (copied @ [(digest, Regular content)]) entries = Inr result"
    unfolding try_fold.simps and_then_eq_Inr copy_manifest_blob_ok by blast
  from Cons.IH [OF step(3)] Cons.prems(2) copied_blob(2) [OF step(2)] step(1) show ?case by simp
qed simp

lemma restored_archive:
  assumes "scan_staged_archive srv cdc v ph staged_files m = Inr (report, archive)"
  shows "\<exists>identity saved. archive_instance_id identity = bm_archive_instance_id m
    \<and> ident_owner_namespace identity = bm_owner_namespace m \<and> sd_identity (ra_store archive) = Some identity
    \<and> ra_blobs archive = sg_blobs staged_files
    \<and> scan_archive (srv\<lparr>srv_identity := identity\<rparr>) (bv_scan v ph (staged_archive (ra_store archive) (ra_blobs archive))) saved
        = (Inr report, sd_integrity (ra_store archive))"
proof -
  from assms obtain identity store where boot: "bootstrap_for_integrity cdc v ph (sg_database staged_files) = Inr (identity, store)"
    and same: "archive_instance_id identity = bm_archive_instance_id m" "ident_owner_namespace identity = bm_owner_namespace m"
    and scan: "(case scan_archive (srv\<lparr>srv_identity := identity\<rparr>)
         (bv_scan v ph (staged_archive store (sg_blobs staged_files))) (sd_integrity store) of
       (Inl _, _) \<Rightarrow> Inl Backup_Scan
     | (Inr report, saved) \<Rightarrow>
         Inr (report, \<lparr>ra_store = store\<lparr>sd_integrity := saved\<rparr>, ra_blobs = sg_blobs staged_files\<rparr>)) = Inr (report, archive)"
    by (auto simp: scan_staged_archive_def and_then_eq_Inr reject_if_eq_Inr)
  from scan obtain saved where run: "scan_archive (srv\<lparr>srv_identity := identity\<rparr>)
         (bv_scan v ph (staged_archive store (sg_blobs staged_files))) (sd_integrity store) = (Inr report, saved)"
    "archive = \<lparr>ra_store = store\<lparr>sd_integrity := saved\<rparr>, ra_blobs = sg_blobs staged_files\<rparr>"
    by (auto split: prod.splits sum.splits)
  have "sd_identity store = Some identity"
    using boot by (auto simp: bootstrap_for_integrity_def initialize_identity_def Let_def split_beta and_then_eq_Inr
        ok_or_eq_Inr reject_if_eq_Inr)
  with same run show ?thesis by (auto simp: staged_archive_def)
qed

lemma place_restored_outcome:
  assumes "place_restored v archive = (r, outcome)"
  shows "outcome = Untouched \<or> outcome = Emptied \<or> outcome = Placed archive"
    "outcome = Placed other \<Longrightarrow> other = archive \<and> bv_destination v At_Recheck \<noteq> Occupied \<and> bv_destination v At_Rename = Absent
      \<and> (is_ok r \<or> bv_fails v (Sync_Destination Restoring))"
    "is_ok r \<Longrightarrow> outcome = Placed archive"
    "outcome = Emptied \<Longrightarrow> bv_destination v At_Recheck = Empty_Directory"
  using assms
  by (auto simp: place_restored_def ensure_empty_directory_def finalize_def and_then_eq_Inr and_then_eq_Inl reject_if_def
      split: sum.splits if_splits)

end
