(* ===== verification/Sample_Backup.thy ===== *)
theory Sample_Backup
  imports Backup_Restore Integrity_Properties
begin

text \<open>
  A backup on concrete values: two archives of the sample run, an environment in which nothing fails,
  and formats that read back what they wrote.
\<close>

section \<open>A backup on concrete values\<close>

definition flow_source :: "archive \<Rightarrow> source_archive" where
  "flow_source a =
     \<lparr>so_database_is_file = True, so_blob_root_is_dir = True, so_maintenance_is_dir = True,
      so_store = \<lparr>sd_tables = db a, sd_identity = Some (srv_identity flow_server), sd_schema_version = Some 12,
        sd_integrity = no_scans, sd_lease = \<lparr>exclusive_token = Some ''t'', exclusive_until_unix = Some 10\<rparr>\<rparr>,
      so_files = fs a\<rparr>"

definition root_path :: "string list \<Rightarrow> file_path" where
  "root_path names = \<lparr>fp_absolute = True, fp_components = map Normal names\<rparr>"

definition flow_backup_env :: backup_env where
  "flow_backup_env =
     \<lparr>bv_fails = (\<lambda>_. False), bv_now = (\<lambda>_. sample_time 1767312000), bv_acquire = None, bv_release = None,
      bv_canonical = Some, bv_is_directory = (\<lambda>_. True), bv_output_exists = (\<lambda>_. False),
      bv_destination = (\<lambda>_. Absent), bv_same_filesystem = True, bv_links = (\<lambda>_ _. True), bv_copied = (\<lambda>_ _. None),
      bv_application_version = ''0.1.0'', bv_fresh_identity = (''j'', ''t''), bv_now_unix = (\<lambda>_. 5),
      bv_scan = (\<lambda>_. flow_scan)\<rparr>"

definition flow_backup_manifest :: "archive \<Rightarrow> backup_manifest" where
  "flow_backup_manifest a =
     (case sum.projr (create_staged flow_externals
         \<lparr>db_image = (\<lambda>_. [7]), db_open = (\<lambda>_. None), backup_manifest_to_json = (\<lambda>_. Some [1]),
          backup_manifest_from_json = (\<lambda>_. None)\<rparr>
         flow_backup_env (flow_source a) (root_path [''b''])) of (m, _) \<Rightarrow> m)"

definition flow_backup_codec :: "archive \<Rightarrow> backup_codec" where
  "flow_backup_codec a =
     \<lparr>db_image = (\<lambda>_. [7]), db_open = (\<lambda>_. Some (backed_up_store (flow_source a))),
      backup_manifest_to_json = (\<lambda>m. if m = flow_backup_manifest a then Some [1] else None),
      backup_manifest_from_json = (\<lambda>_. Some (flow_backup_manifest a))\<rparr>"

definition flow_create :: "archive \<Rightarrow> (backup_error + backup_create_result) \<times> backup_dir option" where
  "flow_create a = create_backup flow_externals (flow_backup_codec a) flow_backup_env (flow_source a)
     (root_path [''d'']) (root_path [''b''])"

definition backup_summary ::
  "archive \<Rightarrow> bool \<times> bytes option \<times> bool \<times> (integrity_finding_kind \<times> integrity_severity) list" where
  "backup_summary a =
     (is_ok (fst (flow_create a)),
      (case snd (flow_create a) of Some d \<Rightarrow> (case bd_manifest d of Some (Regular json) \<Rightarrow> Some json | _ \<Rightarrow> None) | _ \<Rightarrow> None),
      scan_summary (source_copy (flow_source a)))"

lemma flow_completed_backup: "backup_summary flow_completed = (True, Some [1, 10], True, [])"
  by code_simp

lemma flow_deleted_backup:
  "backup_summary flow_deleted = (True, Some [1, 10], True, [(TombstonedSnapshot, Info), (BlobGcEligibleCandidate, Warning)])"
  by code_simp

text \<open>What the two runs have in common.\<close>

lemma flow_backup_facts:
  assumes "backup_summary a = (True, Some [1, 10], True, found)"
  shows "\<exists>created d. flow_create a = (Inr created, Some d) \<and> bd_manifest d = Some (Regular [1, 10])"
    "scan_facts (source_copy (flow_source a))"
    "map (\<lambda>f. (kind_of f, severity_of f)) (flow_findings (source_copy (flow_source a))) = found"
  using assms
  by (auto simp: backup_summary_def scan_summary_def is_ok_def split: option.splits entry.splits sum.splits prod.splits)
    (metis prod.collapse)

lemma flow_undisturbed: "undisturbed flow_backup_env"
  by (simp add: undisturbed_def flow_backup_env_def)

lemma flow_codec: "codec_faithful (flow_backup_codec a) (backed_up_store (flow_source a))"
  by (simp add: codec_faithful_def flow_backup_codec_def)

lemma flow_image_sized: "sha256_sized (ext flow_server) (db_image (flow_backup_codec a) (backed_up_store (flow_source a)))"
  by (simp add: sha256_sized_def flow_server_def flow_externals_def flow_backup_codec_def flow_digest_def)

lemma flow_kept: "well_kept (ext flow_server) flow_backup_env (flow_source a)"
proof -
  have "format_time flow_externals (sample_time 1767312000) \<noteq> Some []" by code_simp
  then show ?thesis
    by (simp add: well_kept_def flow_source_def flow_server_def flow_externals_def flow_backup_env_def)
qed

lemma flow_ready:
  assumes "scan_facts (source_copy (flow_source a))" "length (flow_findings (source_copy (flow_source a))) < 5"
  shows "scan_ready (served flow_server (flow_source a)) (scan_env_for flow_backup_env ph (flow_source a))
    (source_copy (flow_source a)) (sd_integrity (so_store (flow_source a)))"
    "scan_findings (served flow_server (flow_source a)) (scan_env_for flow_backup_env ph (flow_source a))
      (source_copy (flow_source a)) = flow_findings (source_copy (flow_source a))"
proof -
  have e: "scan_env_for flow_backup_env ph (flow_source a) = flow_scan (source_copy (flow_source a))"
    by (simp add: scan_env_for_def flow_backup_env_def)
  have srv: "served flow_server (flow_source a) = flow_server" by (simp add: served_def flow_source_def)
  show found: "scan_findings (served flow_server (flow_source a)) (scan_env_for flow_backup_env ph (flow_source a))
      (source_copy (flow_source a)) = flow_findings (source_copy (flow_source a))"
    by (simp add: scan_findings_def e srv flow_scan_now flow_findings_def)
  have "sd_integrity (so_store (flow_source a)) = no_scans" by (simp add: flow_source_def)
  with scan_facts_rest [OF assms(1)] quiet_ids flow_within_i64 flow_scan_now assms(2) found
  show "scan_ready (served flow_server (flow_source a)) (scan_env_for flow_backup_env ph (flow_source a))
    (source_copy (flow_source a)) (sd_integrity (so_store (flow_source a)))"
    by (simp add: scan_ready_def e srv i64_max_def)
qed

end
