(* ===== verification/Backup_Properties.thy ===== *)
theory Backup_Properties
  imports Sample_Backup
begin

text \<open>
  The properties of backup and restore: a created backup is complete and is accepted, a restore gives
  the archive back, what stands in its way, and what a restore may ever place.
\<close>

section \<open>What a created backup holds\<close>

text \<open>C34: A backup that is put in place is complete, whatever failed or was copied wrongly while it was
  made, and even when \<open>create\<close> reports an error afterwards. Its manifest names the archive and lists,
  in ascending order, every blob row with its size; the bytes held for each row have that size and the
  digest of the row. Every check that nothing disturbs accepts it, with one exception: \<open>create\<close> does
  not look at the size of the manifest it writes, and a manifest of more than 64 MiB is refused by
  every \<open>verify\<close> and \<open>restore\<close>.\<close>

theorem placed_backup_complete:
  assumes "create_backup x cdc v so data_dir output = (r, Some d)"
    and "undisturbed v'" "sha256_sized x (db_image cdc (backed_up_store so))" "codec_faithful cdc (backed_up_store so)"
    and "well_kept x v so"
  shows "\<exists>m hs json. bd_manifest d = Some (Regular json)
    \<and> bm_blobs m = inventory_of hs \<and> map (\<lambda>(h, bs). (h, int (length bs))) hs = stored_rows so
    \<and> (\<forall>(h, bs) \<in> set hs. backup_blob_at d h = Some (Regular bs) \<and> sha256_hex x bs = h)
    \<and> bd_database d = Some (Regular (db_image cdc (backed_up_store so)))
    \<and> map_option archive_instance_id (sd_identity (so_store so)) = Some (bm_archive_instance_id m)
    \<and> (\<forall>ph. validate_backup x cdc v' ph d = (if length json \<le> MAX_MANIFEST_BYTES then Inr m else Inl Backup_Manifest))"
proof -
  from create_placed [OF assms(1)] obtain m hs json where
    made: "backup_manifest_to_json cdc m = Some json" "backup_of x cdc v so m hs"
    and d: "d = staged_backup (json @ newline) (db_image cdc (backed_up_store so)) (stored_entries hs)"
    by blast
  have accepted: "validate_backup x cdc v' ph d = Inr m" if "length (json @ newline) \<le> MAX_MANIFEST_BYTES" for ph
    using created_accepted [OF assms(2-5) made] that by (simp add: d newline_def)
  have refused: "validate_backup x cdc v' ph d = Inl Backup_Manifest" if "\<not> length (json @ newline) \<le> MAX_MANIFEST_BYTES" for ph
    using that unfolding validate_backup_def undisturbedD(2) [OF assms(2)]
    by (simp add: d staged_backup_def reject_if_def)
  have hs: "addressed x hs" "bm_blobs m = inventory_of hs" "map (\<lambda>(h, bs). (h, int (length bs))) hs = stored_rows so"
    "map_option archive_instance_id (sd_identity (so_store so)) = Some (bm_archive_instance_id m)"
    using made(2) by (auto simp: backup_of_def manifest_describes_def)
  have held: "backup_blob_at d h = Some (Regular bs) \<and> sha256_hex x bs = h" if "(h, bs) \<in> set hs" for h bs
    using addressed_distinct [OF hs(1)] addressedD(3) [OF hs(1) that] that by (simp add: d staged_blob_at)
  have parts: "bd_manifest d = Some (Regular (json @ newline))"
    "bd_database d = Some (Regular (db_image cdc (backed_up_store so)))"
    by (simp_all add: d staged_backup_def)
  show ?thesis
    using hs(2-4) held parts accepted refused
    by (intro exI [of _ m] exI [of _ hs] exI [of _ "json @ newline"]) auto
qed

theorem placed_backup_complete_witness:
  "\<exists>m d. snd (flow_create flow_deleted) = Some d
     \<and> validate_backup flow_externals (flow_backup_codec flow_deleted) flow_backup_env Restoring d = Inr m"
proof -
  from flow_backup_facts(1) [OF flow_deleted_backup] obtain created d where
    run: "flow_create flow_deleted = (Inr created, Some d)" and json: "bd_manifest d = Some (Regular [1, 10])"
    by blast
  have x: "ext flow_server = flow_externals" by (simp add: flow_server_def)
  from placed_backup_complete [OF run [unfolded flow_create_def] flow_undisturbed flow_image_sized [unfolded x] flow_codec
      flow_kept [unfolded x]]
  obtain m where "validate_backup flow_externals (flow_backup_codec flow_deleted) flow_backup_env Restoring d = Inr m"
    using json by (auto simp: MAX_MANIFEST_BYTES_def)
  with run show ?thesis by auto
qed

section \<open>Restoring what was backed up\<close>

text \<open>C33: Backup and restore are inverse. A backup that \<open>create\<close> reported, copied without a change of
  bytes, is restored by an undisturbed restore into a free destination whenever the scan of the copy
  finds nothing beyond information: the restored archive has the tables, the identity and the schema
  version of the source, its lease is free, and the file of every blob row is the file of the source.
  Only the tables of the integrity scan differ, by the run that checked the copy.\<close>

theorem backup_roundtrip:
  assumes "create_backup (ext srv) cdc v so data_dir output = (Inr created, Some d)"
    and "\<And>h. bv_copied v Creating (Blob_Ref h) = None" "bd_manifest d = Some (Regular json)" "length json \<le> MAX_MANIFEST_BYTES"
    and "sha256_sized (ext srv) (db_image cdc (backed_up_store so))" "codec_faithful cdc (backed_up_store so)" "well_kept (ext srv) v so"
    and "undisturbed v'" "destination_free v' target" "parent_or_current backup \<noteq> None"
    and "\<And>ph. scan_ready (served srv so) (scan_env_for v' ph so) (source_copy so) (sd_integrity (so_store so))"
    and "\<And>ph. list_all (\<lambda>f. severity_of f = Info) (scan_findings (served srv so) (scan_env_for v' ph so) (source_copy so))"
  shows "\<exists>restored a. restore_backup srv cdc v' (\<lambda>_. d) backup target = (Inr restored, Placed a)
    \<and> sd_tables (ra_store a) = sd_tables (so_store so) \<and> sd_identity (ra_store a) = sd_identity (so_store so)
    \<and> sd_schema_version (ra_store a) = sd_schema_version (so_store so) \<and> sd_lease (ra_store a) = no_lease
    \<and> (\<forall>b \<in> set (db_blobs (sd_tables (so_store so))).
         map_of (ra_blobs a) (bl_stored_sha256 b) = blob_file (so_files so) (bl_stored_sha256 b))
    \<and> br_archive_instance_id restored = bc_archive_instance_id created
    \<and> br_blob_count restored = length (db_blobs (sd_tables (so_store so)))"
proof -
  from create_placed [OF assms(1)] obtain m hs bytes where
    made: "backup_manifest_to_json cdc m = Some bytes" "backup_of (ext srv) cdc v so m hs"
    and d: "d = staged_backup (bytes @ newline) (db_image cdc (backed_up_store so)) (stored_entries hs)"
    and created: "bc_archive_instance_id created = bm_archive_instance_id m"
    by auto
  have short: "length bytes < MAX_MANIFEST_BYTES" using assms(3,4) by (auto simp: d staged_backup_def newline_def)
  from created_restored [where dir = "\<lambda>_. d", OF assms(8,6,5,7) made short assms(2,10,11) d assms(9,12)]
  obtain restored saved where placed: "restore_backup srv cdc v' (\<lambda>_. d) backup target =
      (Inr restored, Placed \<lparr>ra_store = (backed_up_store so)\<lparr>sd_integrity := saved\<rparr>, ra_blobs = stored_entries hs\<rparr>)"
    "br_archive_instance_id restored = bm_archive_instance_id m" "br_blob_count restored = length (bm_blobs m)"
    by blast
  have rows: "map (\<lambda>(h, bs). (h, int (length bs))) hs = stored_rows so" "length (bm_blobs m) = length hs"
    using made(2) by (auto simp: backup_of_def manifest_describes_def)
  have count: "length (bm_blobs m) = length (db_blobs (sd_tables (so_store so)))"
    using arg_cong [OF rows(1), of length] rows(2) by (simp add: stored_rows_def)
  have same_file: "map_of (stored_entries hs) (bl_stored_sha256 b) = blob_file (so_files so) (bl_stored_sha256 b)"
    if "b \<in> set (db_blobs (sd_tables (so_store so)))" for b
  proof -
    have "(bl_stored_sha256 b, bl_stored_size_bytes b) \<in> set (stored_rows so)" using that by (auto simp: stored_rows_def)
    then obtain bs where bs: "(bl_stored_sha256 b, bs) \<in> set hs" unfolding rows(1) [symmetric] by auto
    have "distinct (map fst hs)" using made(2) addressed_distinct by (auto simp: backup_of_def)
    then have "map_of hs (bl_stored_sha256 b) = Some bs" using bs by simp
    moreover have "blob_file (so_files so) (bl_stored_sha256 b) = Some (Regular bs)"
      using made(2) bs assms(2) by (fastforce simp: backup_of_def list_all_iff blob_copied_def)
    ultimately show ?thesis by (simp add: map_of_stored_entries)
  qed
  show ?thesis
    using placed created count same_file by (auto simp: backed_up_store_def)
qed

theorem backup_roundtrip_witness:
  "\<exists>restored a. restore_backup flow_server (flow_backup_codec flow_completed) flow_backup_env
       (\<lambda>_. the (snd (flow_create flow_completed))) (root_path [''b'']) (root_path [''r'']) = (Inr restored, Placed a)
     \<and> sd_tables (ra_store a) = db flow_completed \<and> br_blob_count restored = length (db_blobs (db flow_completed))"
proof -
  from flow_backup_facts(1) [OF flow_completed_backup] obtain created d where
    run: "flow_create flow_completed = (Inr created, Some d)" and json: "bd_manifest d = Some (Regular [1, 10])"
    by blast
  have x: "ext flow_server = flow_externals" by (simp add: flow_server_def)
  have none: "flow_findings (source_copy (flow_source flow_completed)) = []"
    using flow_backup_facts(3) [OF flow_completed_backup] by simp
  note ready = flow_ready [OF flow_backup_facts(2) [OF flow_completed_backup], unfolded none, simplified]
  have free: "destination_free flow_backup_env (root_path [''r''])" by code_simp
  have parent: "parent_or_current (root_path [''b'']) \<noteq> None" by code_simp
  have run': "create_backup (ext flow_server) (flow_backup_codec flow_completed) flow_backup_env (flow_source flow_completed)
      (root_path [''d'']) (root_path [''b'']) = (Inr created, Some d)"
    using run by (simp add: flow_create_def x)
  from backup_roundtrip [OF run' _ json _ flow_image_sized flow_codec flow_kept flow_undisturbed free parent ready(1)]
  show ?thesis
    by (simp add: run flow_backup_env_def ready(2) [unfolded flow_backup_env_def] MAX_MANIFEST_BYTES_def)
      (auto simp: flow_source_def)
qed

section \<open>What stands in the way of a restore\<close>

lemma orphan_found:
  assumes "b \<in> set (db_blobs (db a))" "bl_id b \<noteq> []" "\<not> live_reference_exists (db a) (bl_id b)"
    and "bl_orphaned_at b \<noteq> None" "bl_eligible_after b \<noteq> None" "bl_eligible_after_seq b = Some n" "n \<le> now_seq"
  shows "(BlobGcEligibleCandidate, Warning, None, None, Some (bl_id b), ''orphan_gc_eligible'')
    \<in> set (archive_findings srv e a now_seq)"
proof -
  let ?rows = "sort_key bs_id (filter (\<lambda>r. bs_id r \<noteq> []) (blob_scan_rows (db a)))"
  let ?row = "\<lparr>bs_id = bl_id b, bs_stored_sha256 = bl_stored_sha256 b,
       bs_stored_size_bytes = bl_stored_size_bytes b, bs_compression = bl_compression b,
       bs_orphaned_at = bl_orphaned_at b, bs_eligible_after = bl_eligible_after b,
       bs_eligible_after_seq = bl_eligible_after_seq b, bs_has_live_reference = live_reference_exists (db a) (bl_id b)\<rparr>"
  have "?row \<in> set (blob_scan_rows (db a))" unfolding blob_scan_rows_def set_map by (rule imageI [OF assms(1)])
  then have "?row \<in> set ?rows" using assms(2) by simp
  from member_pages_of [OF _ this, of PAGE_SIZE] obtain page where
    page: "page \<in> set (pages_of PAGE_SIZE ?rows)" "?row \<in> set page" by (auto simp: PAGE_SIZE_def)
  have "(BlobGcEligibleCandidate, Warning, None, None, Some (bl_id b), ''orphan_gc_eligible'') \<in> set (blob_row_findings srv now_seq ?row)"
    using assms(3-7) by (auto simp: blob_row_findings_def blob_liveness_def split: option.splits)
  then have "(BlobGcEligibleCandidate, Warning, None, None, Some (bl_id b), ''orphan_gc_eligible'')
      \<in> set (blob_page_findings srv e now_seq page)"
    using page(2) unfolding blob_page_findings_def by fastforce
  then show ?thesis using page(1) unfolding archive_findings_def by auto
qed

text \<open>C36: A backup does not have to be restorable. Garbage that waits for the collector is a warning of
  the scan, and \<open>restore\<close> refuses a copy that is not healthy: when a blob without a live reference is
  past its grace period, in whatever archive, \<open>create\<close> and \<open>verify\<close> succeed, and \<open>restore\<close> reports an
  integrity error and leaves the destination untouched.\<close>

theorem orphan_backup_refused:
  assumes "create_backup (ext srv) cdc v so data_dir output = (Inr created, Some d)"
    and "\<And>h. bv_copied v Creating (Blob_Ref h) = None" "bd_manifest d = Some (Regular json)" "length json \<le> MAX_MANIFEST_BYTES"
    and "sha256_sized (ext srv) (db_image cdc (backed_up_store so))" "codec_faithful cdc (backed_up_store so)" "well_kept (ext srv) v so"
    and "undisturbed v'" "parent_or_current backup \<noteq> None"
    and "scan_ready (served srv so) (scan_env_for v' Verifying so) (source_copy so) (sd_integrity (so_store so))"
    and "b \<in> set (db_blobs (sd_tables (so_store so)))" "bl_id b \<noteq> []"
    and "\<not> live_reference_exists (sd_tables (so_store so)) (bl_id b)"
    and "bl_orphaned_at b \<noteq> None" "bl_eligible_after b \<noteq> None" "bl_eligible_after_seq b = Some n"
    and "sort_key_from_timestamp (iv_clock (scan_env_for v' Verifying so) At_Blobs) = Some now_seq" "n \<le> now_seq"
  shows "is_ok (verify_backup srv cdc v' (\<lambda>_. d) backup)
    \<and> restore_backup srv cdc v' (\<lambda>_. d) backup target = (Inl Backup_Integrity, Untouched)"
proof -
  from create_placed [OF assms(1)] obtain m hs bytes where
    made: "backup_manifest_to_json cdc m = Some bytes" "backup_of (ext srv) cdc v so m hs"
    and d: "d = staged_backup (bytes @ newline) (db_image cdc (backed_up_store so)) (stored_entries hs)"
    by auto
  have short: "length bytes < MAX_MANIFEST_BYTES" using assms(3,4) by (auto simp: d staged_backup_def newline_def)
  have "db (source_copy so) = sd_tables (so_store so)" by (simp add: source_copy_def staged_archive_def)
  with orphan_found [of b "source_copy so" n now_seq] assms(11-16,18)
  have "(BlobGcEligibleCandidate, Warning, None, None, Some (bl_id b), ''orphan_gc_eligible'')
      \<in> set (scan_findings (served srv so) (scan_env_for v' Verifying so) (source_copy so))"
    by (simp add: scan_findings_def assms(17))
  then have "\<not> (\<forall>f \<in> set (scan_findings (served srv so) (scan_env_for v' Verifying so) (source_copy so)). severity_of f = Info)"
    by (metis integrity_severity.distinct(1) severity_of_simps)
  with created_verified [where dir = "\<lambda>_. d", OF assms(8,6,5,7) made short assms(2,9,10) d]
  obtain verification where "verify_backup srv cdc v' (\<lambda>_. d) backup = Inr verification"
    "rp_status (bv_integrity verification) \<noteq> Healthy"
    by blast
  then show ?thesis by (simp add: restore_backup_def reject_if_def)
qed

theorem orphan_backup_refused_witness:
  "is_ok (fst (flow_create flow_deleted))
   \<and> restore_backup flow_server (flow_backup_codec flow_deleted) flow_backup_env
       (\<lambda>_. the (snd (flow_create flow_deleted))) (root_path [''b'']) (root_path [''r'']) = (Inl Backup_Integrity, Untouched)"
proof -
  from flow_backup_facts(1) [OF flow_deleted_backup] obtain created d where
    run: "flow_create flow_deleted = (Inr created, Some d)" and json: "bd_manifest d = Some (Regular [1, 10])"
    by blast
  have x: "ext flow_server = flow_externals" by (simp add: flow_server_def)
  have few: "length (flow_findings (source_copy (flow_source flow_deleted))) < 5"
    using arg_cong [OF flow_backup_facts(3) [OF flow_deleted_backup], of length] by simp
  note ready = flow_ready [OF flow_backup_facts(2) [OF flow_deleted_backup] few]
  have parent: "parent_or_current (root_path [''b'']) \<noteq> None" by code_simp
  have run': "create_backup (ext flow_server) (flow_backup_codec flow_deleted) flow_backup_env (flow_source flow_deleted)
      (root_path [''d'']) (root_path [''b'']) = (Inr created, Some d)"
    using run by (simp add: flow_create_def x)
  have tables: "sd_tables (so_store (flow_source flow_deleted)) = db flow_deleted" by (simp add: flow_source_def)
  have clock: "sort_key_from_timestamp (iv_clock (scan_env_for flow_backup_env Verifying (flow_source flow_deleted)) At_Blobs) =
      Some 1767312000000000"
    using flow_scan_now by (simp add: scan_env_for_def flow_backup_env_def)
  have "list_ex (\<lambda>b. bl_id b \<noteq> [] \<and> \<not> live_reference_exists (db flow_deleted) (bl_id b)
      \<and> bl_orphaned_at b \<noteq> None \<and> bl_eligible_after b \<noteq> None
      \<and> (case bl_eligible_after_seq b of None \<Rightarrow> False | Some n \<Rightarrow> n \<le> 1767312000000000)) (db_blobs (db flow_deleted))"
    by code_simp
  then obtain b n where b: "b \<in> set (db_blobs (sd_tables (so_store (flow_source flow_deleted))))" "bl_id b \<noteq> []"
    "\<not> live_reference_exists (sd_tables (so_store (flow_source flow_deleted))) (bl_id b)"
    "bl_orphaned_at b \<noteq> None" "bl_eligible_after b \<noteq> None" "bl_eligible_after_seq b = Some n" "n \<le> 1767312000000000"
    unfolding tables by (auto simp: list_ex_iff split: option.splits)
  from orphan_backup_refused [OF run' _ json _ flow_image_sized flow_codec flow_kept flow_undisturbed parent ready(1)
      b(1-6) clock b(7), of "root_path [''r'']"]
  show ?thesis by (simp add: run MAX_MANIFEST_BYTES_def) (simp add: flow_backup_env_def)
qed

section \<open>What a restore may place\<close>

lemma is_ok_continued: "is_ok (and_then r (\<lambda>u. Inr (f u))) = is_ok r"
  by (cases r) simp_all

text \<open>The restore of the sample run, without the properties.\<close>

lemma flow_restored:
  "\<exists>restored a. restore_backup flow_server (flow_backup_codec flow_completed) flow_backup_env
       (\<lambda>_. the (snd (flow_create flow_completed))) (root_path [''b'']) (root_path [''r'']) = (Inr restored, Placed a)"
proof -
  from flow_backup_facts(1) [OF flow_completed_backup] obtain created d where
    run: "flow_create flow_completed = (Inr created, Some d)" and json: "bd_manifest d = Some (Regular [1, 10])"
    by blast
  have x: "ext flow_server = flow_externals" by (simp add: flow_server_def)
  from create_placed [OF run [unfolded flow_create_def]] obtain m hs bytes where
    made: "backup_manifest_to_json (flow_backup_codec flow_completed) m = Some bytes"
      "backup_of (ext flow_server) (flow_backup_codec flow_completed) flow_backup_env (flow_source flow_completed) m hs"
    and d: "d = staged_backup (bytes @ newline) (db_image (flow_backup_codec flow_completed)
        (backed_up_store (flow_source flow_completed))) (stored_entries hs)"
    unfolding x by blast
  have short: "length bytes < MAX_MANIFEST_BYTES"
    using json by (simp add: d staged_backup_def newline_def MAX_MANIFEST_BYTES_def)
  have none: "flow_findings (source_copy (flow_source flow_completed)) = []"
    using flow_backup_facts(3) [OF flow_completed_backup] by simp
  note ready = flow_ready [OF flow_backup_facts(2) [OF flow_completed_backup], unfolded none, simplified]
  have free: "destination_free flow_backup_env (root_path [''r''])" by code_simp
  have parent: "parent_or_current (root_path [''b'']) \<noteq> None" by code_simp
  from created_restored [where dir = "\<lambda>_. d", OF flow_undisturbed flow_codec flow_image_sized flow_kept made short _ parent
      ready(1) d free]
  show ?thesis by (simp add: run flow_backup_env_def ready(2) [unfolded flow_backup_env_def]) blast
qed

text \<open>C35: Whatever fails or changes while it runs, a restore places only a verified archive. When an
  archive appears at the destination, nothing was there at the moment of the rename and the destination
  was no directory with content when it was looked at again; the backup passed its checks; every blob of
  the archive is in the manifest and has the digest it is named by; the archive has the identity of the
  manifest, and the scan of it, whose run its tables hold, reported it healthy. An error is reported for
  a placed archive only when the directory above it could not be synced; every other error leaves the
  destination as it was, or removes it where it was an empty directory.\<close>

theorem restore_places_verified:
  assumes "restore_backup srv cdc v dir backup target = (r, outcome)"
  shows "case outcome of
      Untouched \<Rightarrow> \<not> is_ok r
    | Emptied \<Rightarrow> \<not> is_ok r \<and> bv_destination v At_Recheck = Empty_Directory
    | Placed a \<Rightarrow> (is_ok r \<or> bv_fails v (Sync_Destination Restoring))
        \<and> bv_destination v At_Recheck \<noteq> Occupied \<and> bv_destination v At_Rename = Absent
        \<and> (\<exists>m report identity saved.
            validate_backup (ext srv) cdc v Restoring (dir (Validate_Read Restoring)) = Inr m
          \<and> map (Some \<circ> fst) (ra_blobs a) = map (digest_value \<circ> be_sha256) (bm_blobs m)
          \<and> (\<forall>(h, found) \<in> set (ra_blobs a). \<exists>bs. found = Regular bs \<and> sha256_hex (ext srv) bs = h)
          \<and> sd_identity (ra_store a) = Some identity \<and> archive_instance_id identity = bm_archive_instance_id m
          \<and> scan_archive (srv\<lparr>srv_identity := identity\<rparr>)
              (bv_scan v Restoring (staged_archive (ra_store a) (ra_blobs a))) saved = (Inr report, sd_integrity (ra_store a))
          \<and> rp_status report = Healthy)"
proof (cases "outcome = Untouched \<and> \<not> is_ok r")
  case False
  from assms False obtain r' report m archive staged_files where
    steps: "validate_backup (ext srv) cdc v Restoring (dir (Validate_Read Restoring)) = Inr m"
      "copy_backup_to_data_dir (ext srv) v Restoring (dir (Copy_Read Restoring)) m = Inr staged_files"
      "scan_staged_archive srv cdc v Restoring staged_files m = Inr (report, archive)" "rp_status report = Healthy"
    and place: "place_restored v archive = (r', outcome)" and r: "is_ok r = is_ok r'"
    unfolding restore_backup_def
    by (auto simp: and_then_eq_Inr reject_if_eq_Inr is_ok_continued split: sum.splits prod.splits)
  have blobs: "try_fold (copy_manifest_blob (ext srv) v Restoring (dir (Copy_Read Restoring))) [] (bm_blobs m) = Inr (sg_blobs staged_files)"
    using steps(2) by (auto simp: copy_backup_to_data_dir_def and_then_eq_Inr)
  from copied_contents [OF blobs] have contents:
    "\<forall>(h, found) \<in> set (sg_blobs staged_files). \<exists>bs. found = Regular bs \<and> sha256_hex (ext srv) bs = h"
    "map (Some \<circ> fst) (sg_blobs staged_files) = map (digest_value \<circ> be_sha256) (bm_blobs m)"
    by (auto simp: list_all_iff)
  from restored_archive [OF steps(3)] obtain identity saved where a: "sd_identity (ra_store archive) = Some identity"
    "archive_instance_id identity = bm_archive_instance_id m" "ra_blobs archive = sg_blobs staged_files"
    "scan_archive (srv\<lparr>srv_identity := identity\<rparr>) (bv_scan v Restoring (staged_archive (ra_store archive) (ra_blobs archive))) saved
        = (Inr report, sd_integrity (ra_store archive))"
    by blast
  note outcomes = place_restored_outcome [OF place]
  show ?thesis
  proof (cases outcome)
    case (Placed other)
    with outcomes(2) have other: "other = archive" "bv_destination v At_Recheck \<noteq> Occupied"
      "bv_destination v At_Rename = Absent" "is_ok r' \<or> bv_fails v (Sync_Destination Restoring)" by auto
    then show ?thesis using Placed steps(1,4) contents a r by auto
  qed (use outcomes r in auto)
qed simp

theorem restore_places_verified_witness:
  "\<exists>a. snd (restore_backup flow_server (flow_backup_codec flow_completed) flow_backup_env
       (\<lambda>_. the (snd (flow_create flow_completed))) (root_path [''b'']) (root_path [''r''])) = Placed a
     \<and> list_all (\<lambda>(h, found). \<exists>bs. found = Regular bs \<and> sha256_hex flow_externals bs = h) (ra_blobs a)"
proof -
  obtain restored a where run: "restore_backup flow_server (flow_backup_codec flow_completed) flow_backup_env
       (\<lambda>_. the (snd (flow_create flow_completed))) (root_path [''b'']) (root_path [''r'']) = (Inr restored, Placed a)"
    using flow_restored by blast
  have x: "ext flow_server = flow_externals" by (simp add: flow_server_def)
  from restore_places_verified [OF run] run show ?thesis by (auto simp: list_all_iff x)
qed

end
