(* ===== verification/Client_Invariant.thy ===== *)
theory Client_Invariant
  imports Archive_Growth
begin

text \<open>
  The references to clients and the sizes of blobs. A client is registered once and never removed, so
  every upload and every capture names a client that is there; and no blob row has a negative size.
  In SQLite the first is a primary key and two foreign keys; here it is an invariant of the operations.
\<close>

abbreviation client_ids :: "database \<Rightarrow> string set" where
  "client_ids d \<equiv> cl_id ` set (db_clients d)"

definition clients_ok :: "database \<Rightarrow> bool" where
  "clients_ok d =
     (distinct (map cl_id (db_clients d))
      \<and> up_client_id ` set (db_uploads d) \<subseteq> client_ids d \<and> cp_client_id ` set (db_captures d) \<subseteq> client_ids d
      \<and> (\<forall>b \<in> set (db_blobs d). 0 \<le> bl_stored_size_bytes b))"

text \<open>The invariant in the middle of a request, which has read the clients \<open>C\<close>.\<close>

definition knows :: "string set \<Rightarrow> database \<Rightarrow> bool" where
  "knows C d = (clients_ok d \<and> C \<subseteq> client_ids d)"

abbreviation keeps_clients :: "string set \<Rightarrow> (archive, 'a) op \<Rightarrow> bool" where
  "keeps_clients C m \<equiv> preserves (\<lambda>t. knows C (db t)) m"

text \<open>Operations that add no upload, capture or client, and no blob.\<close>

definition no_new_references :: "database \<Rightarrow> database \<Rightarrow> bool" where
  "no_new_references d d' =
     (db_clients d' = db_clients d \<and> set (db_captures d') \<subseteq> set (db_captures d)
      \<and> up_client_id ` set (db_uploads d') \<subseteq> up_client_id ` set (db_uploads d)
      \<and> bl_stored_size_bytes ` set (db_blobs d') \<subseteq> bl_stored_size_bytes ` set (db_blobs d))"

lemma no_new_references_refl [simp]: "no_new_references d d"
  by (simp add: no_new_references_def)

lemma no_new_references_trans:
  "no_new_references d d1 \<Longrightarrow> no_new_references d1 d2 \<Longrightarrow> no_new_references d d2"
  unfolding no_new_references_def by (metis subset_trans)

lemma no_new_references_knows: "no_new_references d d' \<Longrightarrow> knows C d \<Longrightarrow> knows C d'"
  unfolding no_new_references_def knows_def clients_ok_def by (auto simp: subset_iff image_iff) (metis image_eqI)+

lemma keeps_clients_transact:
  assumes "\<And>d v d'. f d = Inr (v, d') \<Longrightarrow> no_new_references d d'"
  shows "keeps_clients C (transact f)"
  using assms by (intro preserves_transact) (auto intro: no_new_references_knows)

lemma update_where_image: "(\<And>r. g (f r) = g r) \<Longrightarrow> g ` set (update_where p f t) = g ` set t"
  by (simp only: set_map [symmetric] map_update_where)

section \<open>Clients and uploads\<close>

lemma upsert_client_ids:
  "cl_id ` set (upsert_client row t) = insert (cl_id row) (cl_id ` set t)"
  "distinct (map cl_id t) \<Longrightarrow> distinct (map cl_id (upsert_client row t))"
proof -
  have ids: "map cl_id (update_where p (\<lambda>r. r\<lparr>cl_hostname := a, cl_display_name := b, cl_metadata_json := c, cl_updated_at := d\<rparr>) t)
      = map cl_id t" for p a b c d
    by (simp add: map_update_where)
  show "cl_id ` set (upsert_client row t) = insert (cl_id row) (cl_id ` set t)"
    by (auto simp: upsert_client_def list_ex_iff set_map [symmetric] ids simp del: set_map) (metis image_eqI set_map)
  show "distinct (map cl_id t) \<Longrightarrow> distinct (map cl_id (upsert_client row t))"
    by (auto simp: upsert_client_def ids list_ex_iff)
qed

lemma register_client_clients: "keeps_clients C (register_client srv e path payload)"
  unfolding register_client_def
  by (intro preserves_intros)
    (auto simp: commit_eq_Inr knows_def clients_ok_def upsert_client_ids)

lemma terminalize_clients: "keeps_clients C (terminalize_upload_locked srv e upload reason)"
  unfolding terminalize_upload_locked_def remove_upload_dir_op_def
  by (intro preserves_intros keeps_clients_transact)
    (auto simp: terminalize_transaction_def delete_upload_detail_def commit_eq_Inr no_new_references_def delete_where_def
      split: option.splits if_splits)

lemma require_active_clients: "keeps_clients C (require_active_upload srv e uid)"
  unfolding require_active_upload_def by (intro preserves_intros) (simp_all add: terminalize_clients)

lemma get_upload_status_clients: "keeps_clients C (get_upload_status srv e path)"
  unfolding get_upload_status_def by (intro preserves_intros) (simp_all add: terminalize_clients)

lemma abandon_upload_clients: "keeps_clients C (abandon_upload srv e path)"
  unfolding abandon_upload_def by (intro preserves_intros) (simp_all add: terminalize_clients)

lemma expire_uploads_clients: "keeps_clients C (expire_uploads_op srv e t)"
  using terminalize_clients by (intro expire_uploads_preserves) blast

lemma get_or_create_session_clients:
  assumes "get_or_create_session srv e c m now_text d = Inr (sid, d')"
  shows "c \<in> client_ids d" "no_new_references d d'" "db_uploads d' = db_uploads d"
  using assms by (auto simp: get_or_create_session_def and_then_eq_Inr list_ex_iff no_new_references_def split: if_splits)

lemma persist_new_upload_detail_references:
  "persist_new_upload_detail e i m json sha layout at d = Inr d' \<Longrightarrow> no_new_references d d'"
  by (auto simp: persist_new_upload_detail_def and_then_eq_Inr no_new_references_def)

lemma new_upload_row_client:
  "new_upload_row srv e sid c cid m sha layout now_text expires = Inr row \<Longrightarrow> up_client_id row = c"
  by (auto simp: new_upload_row_def and_then_eq_Inr)

lemma persist_upload_clients:
  assumes run: "persist_upload srv e c cid m json sha layout now_text expires d = Inr (v, d')" and "knows C d"
  shows "knows C d'"
proof -
  obtain sid d1 where d1: "get_or_create_session srv e c m now_text d = Inr (sid, d1)"
    using run by (auto simp: persist_upload_def and_then_eq_Inr split: prod.splits)
  note opened = get_or_create_session_clients [OF d1]
  have k1: "knows C d1" "c \<in> client_ids d1"
    using no_new_references_knows [OF opened(2) assms(2)] opened(1,2) by (auto simp: no_new_references_def)
  show ?thesis
  proof (cases "find (capture_matches (owner srv) c cid) (db_uploads d1)")
    case None
    then obtain row uploads d2 where new: "new_upload_row srv e sid c cid m sha layout now_text expires = Inr row"
      "insert_row (\<lambda>r r'. up_id r = up_id r') row (db_uploads d1) = Inr uploads"
      "persist_new_upload_detail e (up_id row) m json sha layout now_text (d1\<lparr>db_uploads := uploads\<rparr>) = Inr d2" "d' = d2"
      using run by (auto simp: persist_upload_def d1 and_then_eq_Inr commit_eq_Inr)
    have "knows C (d1\<lparr>db_uploads := uploads\<rparr>)"
      using k1 new(2) new_upload_row_client [OF new(1)] by (auto simp: knows_def clients_ok_def insert_row_eq_Inr)
    from no_new_references_knows [OF persist_new_upload_detail_references [OF new(3)] this] new(4) show ?thesis by simp
  next
    case (Some existing)
    with run have "d' = d1" by (auto simp: persist_upload_def d1 and_then_eq_Inr commit_eq_Inr)
    with k1 show ?thesis by simp
  qed
qed

lemma create_upload_clients: "keeps_clients C (create_upload srv e payload)"
  unfolding create_upload_def Let_def
  by (intro preserves_intros)
    (auto simp: expire_uploads_clients persist_upload_clients split: prod.splits intro!: preserves_intros)

lemma put_artifact_chunk_clients: "keeps_clients C (put_artifact_chunk srv e p q r h body)"
proof -
  have store: "keeps_clients C (store_chunk_file srv e uid ai ci body request)" for uid ai ci request
    unfolding store_chunk_file_def by (intro preserves_intros) simp_all
  have persist: "no_new_references d d'" if "persist_chunk_record e u ai ci len sha at d = Inr (v, d')"
    for u ai ci len sha at d v d'
    unfolding no_new_references_def by (subst (1 2 3 4) persist_chunk_record_tables [OF that]) simp
  have refresh: "no_new_references d d'" if ok: "refresh_upload_status e uid d = Inr (v, d')" for uid d v d'
  proof -
    obtain complete where "d' = d\<lparr>db_uploads := update_where (\<lambda>r. up_id r = up_id uid
        \<and> (up_status r = ''created'' \<or> up_status r = ''artifact_uploaded''))
        (\<lambda>r. r\<lparr>up_status := if complete then ''artifact_uploaded'' else ''created''\<rparr>) (db_uploads d)\<rparr>"
      using ok by (auto simp: refresh_upload_status_def and_then_eq_Inr commit_eq_Inr)
    then show ?thesis by (simp add: no_new_references_def update_where_image)
  qed
  have "keeps_clients C (accept_new_chunk srv e u a ai ci body request)" for u a ai ci request
    unfolding accept_new_chunk_def
    by (intro preserves_intros keeps_clients_transact) (auto simp: store refresh dest: persist)
  then show ?thesis
    unfolding put_artifact_chunk_def repeat_chunk_def
    by (intro preserves_intros) (simp_all add: require_active_clients)
qed

section \<open>Completion\<close>

text \<open>The capture of a completion is that of the client of its upload.\<close>

lemma maintain_context_references:
  "maintain_session_latest_context srv i sid m d = Inr d' \<Longrightarrow> no_new_references d d'"
  by (auto simp: maintain_session_latest_context_def upsert_session_latest_context_def and_then_eq_Inr no_new_references_def
      split: option.splits if_splits)

lemma insert_capture_clients:
  assumes ok: "insert_capture_provenance srv e u m mid sid at d = Inr d'" and "knows C d" "up_client_id u \<in> C"
  shows "knows C d'"
proof (cases "find (\<lambda>c. cp_upload_id c = up_id u) (db_captures d)")
  case None
  with ok obtain json seq captures where
    "insert_row (\<lambda>r r'. cp_id r = cp_id r' \<or> (cp_owner_namespace r = cp_owner_namespace r' \<and> cp_client_id r = cp_client_id r'
       \<and> cp_capture_id r = cp_capture_id r')) (capture_row_of srv e u m json mid sid at seq) (db_captures d) = Inr captures"
    and kept: "maintain_session_latest_context srv (up_session_id u) sid m (d\<lparr>db_captures := captures\<rparr>) = Inr d'"
    by (auto simp: insert_capture_provenance_def and_then_eq_Inr)
  with assms(2,3) have "knows C (d\<lparr>db_captures := captures\<rparr>)"
    by (auto simp: knows_def clients_ok_def insert_row_eq_Inr capture_row_of_def)
  from no_new_references_knows [OF maintain_context_references [OF kept] this] show ?thesis .
next
  case (Some c)
  with ok have "maintain_session_latest_context srv (up_session_id u) sid m d = Inr d'"
    by (auto simp: insert_capture_provenance_def and_then_eq_Inr split: if_splits)
  from no_new_references_knows [OF maintain_context_references [OF this] assms(2)] show ?thesis .
qed

lemma finish_upload_row_clients:
  assumes ok: "finish_upload_row srv e u m mid sid at transfer newly d = Inr d'" and known: "knows C d" "up_client_id u \<in> C"
  shows "knows C d'"
proof (cases "list_ex (open_upload (up_id u)) (db_uploads d)")
  case True
  with ok obtain t n where done_row: "insert_capture_provenance srv e u m mid sid at
      (d\<lparr>db_uploads := update_where (open_upload (up_id u)) (complete_upload_row sid at t n) (db_uploads d)\<rparr>) = Inr d'"
    by (auto simp: finish_upload_row_def and_then_eq_Inr)
  have "up_client_id (complete_upload_row sid at t n r) = up_client_id r" for r by (simp add: complete_upload_row_def)
  then have "knows C (d\<lparr>db_uploads := update_where (open_upload (up_id u)) (complete_upload_row sid at t n) (db_uploads d)\<rparr>)"
    using known(1) by (simp add: knows_def clients_ok_def update_where_image)
  from insert_capture_clients [OF done_row this known(2)] show ?thesis .
next
  case False
  with ok known(1) show ?thesis
    by (auto simp: finish_upload_row_def and_then_eq_Inr split: option.splits if_splits)
qed

lemma finalize_existing_clients:
  assumes "up_client_id u \<in> C"
  shows "keeps_clients C (finalize_upload_for_existing_snapshot srv e u m sid transfer)"
  unfolding finalize_upload_for_existing_snapshot_def
  by (intro preserves_intros) (auto dest!: finalize_existing_ok intro: finish_upload_row_clients assms)

lemma get_or_create_blob_sizes:
  assumes "get_or_create_blob srv e k a now_text d = Inr (bid, d')" "\<forall>b \<in> set (db_blobs d). 0 \<le> bl_stored_size_bytes b"
  shows "\<forall>b \<in> set (db_blobs d'). 0 \<le> bl_stored_size_bytes b"
  using assms
  by (auto simp: get_or_create_blob_def and_then_eq_Inr insert_row_eq_Inr update_where_def to_sqlite_i64_def i64_try_from_def
      ok_or_eq_Inr split: if_splits)

lemma create_blob_rows_sizes:
  assumes "create_blob_rows srv e now_text k ps ids d = Inr (ids', d')" "\<forall>b \<in> set (db_blobs d). 0 \<le> bl_stored_size_bytes b"
  shows "\<forall>b \<in> set (db_blobs d'). 0 \<le> bl_stored_size_bytes b"
  using assms
proof (induction ps arbitrary: k ids d)
  case (Cons p ps)
  then show ?case
    by (auto simp: and_then_eq_Inr split: option.splits prod.splits) (meson get_or_create_blob_sizes)+
qed simp

lemma record_transaction_clients:
  assumes "record_transaction srv e u m ps fingerprint transfer newly now_text now_seq d = Inr (v, d')"
    "knows C d" "up_client_id u \<in> C"
  shows "knows C d'"
proof (cases rule: record_transaction_cases [OF assms(1)])
  case (2 blobs ids row mid rows d2 prior)
  have "knows C (d\<lparr>db_blobs := blobs, db_snapshots := db_snapshots d @ [row], db_artifacts := rows\<rparr>)"
    using create_blob_rows_sizes [OF 2(2)] assms(2) by (simp add: knows_def clients_ok_def)
  from finish_upload_row_clients [OF 2(8) this assms(3)] show ?thesis
    by (simp add: 2(9) knows_def clients_ok_def)
qed (use assms in simp)

lemma cleanup_clients: "keeps_clients C (cleanup_uncommitted_promotions srv e ps)"
  by (induction ps) (auto intro!: preserves_intros)

lemma promote_unique_clients: "keeps_clients C (promote_unique_blobs srv e promotions ps)"
proof (induction ps arbitrary: promotions)
  case (Cons p ps)
  have one: "keeps_clients C (promote_blob srv e p)"
    unfolding promote_blob_def Let_def by (intro preserves_intros) simp_all
  have clean: "keeps_clients C (bind_op (ignore_op
      (cleanup_uncommitted_promotions srv e qs)) (\<lambda>_. pure_op (Inl err :: blob_promotion list result)))" for qs err
    by (intro preserves_intros cleanup_clients)
  show ?case
    unfolding preserves_def
  proof (intro allI impI)
    fix s :: archive assume s: "knows C (db s)"
    obtain r t where run: "promote_blob srv e p s = (r, t)" by fastforce
    from preservesD [OF one s run] run Cons.IH clean
    show "knows C (db (snd (promote_unique_blobs srv e promotions (p # ps) s)))"
      by (auto simp: preserves_def split: sum.splits)
  qed
qed (simp add: preserves_pure)

lemma record_or_clean_up_clients:
  assumes "up_client_id u \<in> C"
  shows "keeps_clients C (record_or_clean_up srv e u m ps promotions fingerprint transfer newly)"
proof -
  have rec: "keeps_clients C (record_completed_upload srv e u m ps promotions fingerprint transfer newly)"
    unfolding record_completed_upload_def
    by (intro preserves_intros) (auto simp: cleanup_clients finalize_existing_clients assms intro: record_transaction_clients)
  have clean: "keeps_clients C (bind_op (ignore_op
      (cleanup_uncommitted_promotions srv e promotions)) (\<lambda>_. pure_op (Inl err :: unit result)))" for err
    by (intro preserves_intros cleanup_clients)
  show ?thesis
    unfolding preserves_def
  proof (intro allI impI)
    fix s :: archive assume s: "knows C (db s)"
    obtain r t where run: "record_completed_upload srv e u m ps promotions fingerprint transfer newly s = (r, t)"
      by fastforce
    from preservesD [OF rec s run] run clean show "knows C (db (snd (record_or_clean_up srv e u
        m ps promotions fingerprint transfer newly s)))"
      by (auto simp: record_or_clean_up_def preserves_def split: sum.splits)
  qed
qed

lemma complete_checked_clients:
  assumes "up_client_id u \<in> C" shows "keeps_clients C (complete_checked srv e u m rows)"
proof -
  have dir: "keeps_clients C (ignore_op (remove_upload_dir_op e uid))" for uid
    unfolding remove_upload_dir_op_def by (intro preserves_intros) simp
  have attach: "keeps_clients C (attach_to_snapshot srv e u m transfer sid)" for m transfer sid
    unfolding attach_to_snapshot_def
    by (intro preserves_bind preserves_query) (simp_all add: finalize_existing_clients assms dir)
  have locks: "keeps_clients C (complete_under_blob_locks srv e u m ps fingerprint transfer)" for m ps fingerprint transfer
    unfolding complete_under_blob_locks_def
    by (intro preserves_bind preserves_query preserves_case_option preserves_try)
      (simp_all add: attach promote_unique_clients record_or_clean_up_clients assms dir)
  have prepared: "keeps_clients C (complete_prepared srv e u m ps fingerprint transfer)" for m ps fingerprint transfer
    unfolding complete_prepared_def by (intro preserves_intros) (simp_all add: attach locks)
  show ?thesis
    unfolding complete_checked_def
    by (intro preserves_intros) (auto simp: prepared split: prod.splits intro!: preserves_intros)
qed

lemma knows_none: "knows {} d \<longleftrightarrow> clients_ok d"
  by (simp add: knows_def)

lemma complete_upload_clients: "keeps_clients {} (complete_upload srv e path)"
  unfolding preserves_def
proof (intro allI impI)
  fix s :: archive assume inv: "knows {} (db s)"
  show "knows {} (db (snd (complete_upload srv e path s)))"
  proof (cases rule: complete_upload_cases [of srv e path s])
    case (inactive uid)
    with preserves_snd [OF require_active_clients, of "{}" s] inv show ?thesis by simp
  next
    case (checked uid u m)
    from require_active_find [OF checked(3)] have "u \<in> set (db_uploads (db s))"
      by (auto simp: get_active_upload_def dest!: find_SomeD)
    with inv have "knows {up_client_id u} (db s)" by (auto simp: knows_def clients_ok_def)
    from preserves_snd [OF complete_checked_clients this] checked(1) show ?thesis by (auto simp: knows_def)
  qed (use inv in simp)
qed

section \<open>Deletion and collection\<close>

lemma schedule_all_references: "no_new_references d (schedule_all dt bs d)"
proof -
  obtain blobs where "schedule_all dt bs d = d\<lparr>db_blobs := blobs\<rparr>" "blob_columns_kept (db_blobs d) blobs"
    using schedule_all_columns by blast
  then show ?thesis by (auto simp: no_new_references_def blob_columns_kept_def same_blob_def image_iff)
qed

lemma delete_transaction_references:
  assumes "delete_snapshot_transaction e dt reason sid d = Inr (v, d')"
  shows "no_new_references d d'"
proof (cases rule: delete_snapshot_transaction_cases [OF assms])
  case (2 live m t a blobs)
  have "no_new_references d (with_deletion live (dt_deleted_at dt) t a d)"
    by (simp add: with_deletion_def no_new_references_def)
  moreover have "no_new_references c (rebuild_session_latest_context i c)" for i c
    by (simp add: rebuild_session_latest_context_def no_new_references_def)
  ultimately show ?thesis
    unfolding 2(7) by (blast intro: no_new_references_trans schedule_all_references)
qed simp

lemma delete_snapshot_clients: "keeps_clients C (delete_snapshot srv e path header payload)"
  unfolding delete_snapshot_def Let_def
  by (intro preserves_intros keeps_clients_transact) (rule delete_transaction_references)

lemma collect_each_references: "no_new_references (db s) (db (snd (collect_each e k cs n s)))"
proof (induction cs arbitrary: n s)
  case (Cons c cs)
  obtain r t where run: "collect_candidate e k c s = (r, t)" by fastforce
  have "no_new_references (db s) (db (snd (collect_candidate e k c s)))"
    by (simp add: collect_candidate_def clear_candidate_def no_new_references_def update_where_image Let_def delete_where_def)
      auto
  then have one: "no_new_references (db s) (db t)" by (simp add: run)
  show ?case
  proof (cases r)
    case (Inr deleted)
    have "no_new_references (db t) (db (snd (collect_each e k (c # cs) n s)))"
      using Cons.IH by (simp add: run Inr)
    with one show ?thesis by (rule no_new_references_trans)
  qed (use one in \<open>simp add: run\<close>)
qed simp

lemma run_blob_gc_clients: "keeps_clients C (run_blob_gc srv e)"
proof -
  have "no_new_references (db s) (db (snd (collect_orphaned_blobs_at e t s)))" for t s
    by (auto simp: collect_orphaned_blobs_at_def Let_def split: option.splits prod.splits sum.splits)
      (metis collect_each_references snd_conv)+
  then have "knows C (db (snd (collect_orphaned_blobs_at e t s)))" if "knows C (db s)" for t s
    using that by (rule no_new_references_knows)
  then show ?thesis
    unfolding run_blob_gc_def
    by (intro preserves_intros) (auto simp: preserves_def split: prod.splits sum.splits, (metis snd_conv)+)
qed

section \<open>Every reachable archive\<close>

lemma run_request_clients:
  assumes "clients_ok (db s)" shows "clients_ok (db (run_request srv e r s))"
proof -
  have keep: "clients_ok (db (snd (m s)))" if "keeps_clients {} m" for m :: "(archive, 'a) op"
    using that assms by (simp add: preserves_def knows_none)
  show ?thesis
    by (cases r) (auto intro!: keep simp del: all_simps simp: register_client_clients create_upload_clients
        get_upload_status_clients put_artifact_chunk_clients complete_upload_clients abandon_upload_clients
        expire_uploads_clients delete_snapshot_clients run_blob_gc_clients)
qed

interpretation clients: inductive_invariant empty_archive "archive_step srv U" "\<lambda>s. clients_ok (db s)" for srv U
  by unfold_locales
    (simp add: clients_ok_def empty_archive_def empty_database_def, auto elim!: archive_stepE intro: run_request_clients)

end
