(* ===== verification/Row_Invariant.thy ===== *)
theory Row_Invariant
  imports Client_Invariant
begin

text \<open>
  The types of the stored values. A table keeps counts and sizes as signed integers and documents as
  text, and the readers of the server convert them; this invariant says of every row that the conversion
  succeeds: a count is not negative and not above the artifact limit, an artifact set version is a 16 bit
  number, a terminal reason is one of the two, and a document decodes.
\<close>

text \<open>The documented behaviour of \<open>serde_json\<close>: a decoded manifest has a version of type \<open>u16\<close>, and a
  written map of strings can be read.\<close>

definition typed_documents :: "externals \<Rightarrow> bool" where
  "typed_documents x =
     ((\<forall>t m. manifest_from_json x t = Some m \<longrightarrow> artifact_set_version (capture m) \<le> 65535)
      \<and> (\<forall>data t. metadata_to_json x data = Some t \<longrightarrow> metadata_from_json x t \<noteq> None))"

lemma typed_documentsD:
  assumes "typed_documents x"
  shows "manifest_from_json x t = Some m \<Longrightarrow> artifact_set_version (capture m) \<le> 65535"
    and "metadata_to_json x data = Some t \<Longrightarrow> \<exists>read. metadata_from_json x t = Some read"
  using assms by (auto simp: typed_documents_def)

definition manifest_typed :: "externals \<Rightarrow> nat \<Rightarrow> string \<Rightarrow> bool" where
  "manifest_typed x n json = (\<exists>m. manifest_from_json x json = Some m \<and> length (artifacts m) \<le> n)"

definition capture_typed :: "externals \<Rightarrow> capture_row \<Rightarrow> bool" where
  "capture_typed x c =
     (metadata_from_json x (cp_source_metadata_json c) \<noteq> None \<and> artifact_set_version (cp_capture c) \<le> 65535)"

definition context_typed :: "latest_context_row \<Rightarrow> bool" where
  "context_typed p = (0 \<le> lx_artifact_set_version p \<and> lx_artifact_set_version p \<le> 65535)"

definition snapshot_typed :: "nat \<Rightarrow> snapshot_row \<Rightarrow> bool" where
  "snapshot_typed n s =
     (0 \<le> sn_artifact_count s \<and> sn_artifact_count s \<le> int n
      \<and> 0 \<le> sn_total_original_size_bytes s \<and> 0 \<le> sn_total_stored_size_bytes s)"

definition upload_typed :: "upload_row \<Rightarrow> bool" where
  "upload_typed u =
     (0 \<le> up_chunk_size_bytes u \<and> 0 \<le> up_transfer_bytes u \<and> 0 \<le> up_newly_persisted_bytes u)"

definition audit_typed :: "upload_audit_row \<Rightarrow> bool" where
  "audit_typed a =
     ((au_terminal_reason a = ''abandoned'' \<or> au_terminal_reason a = ''expired'') \<and> 0 \<le> au_chunk_size_bytes a)"

definition rows_typed :: "externals \<Rightarrow> nat \<Rightarrow> database \<Rightarrow> bool" where
  "rows_typed x n d =
     (list_all (\<lambda>c. metadata_from_json x (cl_metadata_json c) \<noteq> None) (db_clients d)
      \<and> list_all upload_typed (db_uploads d) \<and> list_all audit_typed (db_upload_audits d)
      \<and> list_all (\<lambda>mf. manifest_typed x n (mf_canonical_json mf)) (db_manifests d)
      \<and> list_all (snapshot_typed n) (db_snapshots d) \<and> list_all (capture_typed x) (db_captures d)
      \<and> list_all context_typed (db_latest_contexts d))"

abbreviation keeps_rows :: "server \<Rightarrow> (archive, 'a) op \<Rightarrow> bool" where
  "keeps_rows srv m \<equiv> preserves (\<lambda>t. rows_typed (ext srv) (lim_artifact_count (srv_limits srv)) (db t)) m"

lemma list_all_update_where:
  "list_all P t \<Longrightarrow> (\<And>r. P r \<Longrightarrow> P (f r)) \<Longrightarrow> list_all P (update_where p f t)"
  by (auto simp: list_all_iff set_update_where)

lemma list_all_delete_where: "list_all P t \<Longrightarrow> list_all P (delete_where p t)"
  by (auto simp: list_all_iff delete_where_def)

text \<open>The tables the invariant reads.\<close>

definition typed_tables where
  "typed_tables d = (db_clients d, db_uploads d, db_upload_audits d, db_manifests d, db_snapshots d,
     db_captures d, db_latest_contexts d)"

lemma typed_tables_rows: "typed_tables d' = typed_tables d \<Longrightarrow> rows_typed x n d' = rows_typed x n d"
  by (simp add: typed_tables_def rows_typed_def)

lemma keeps_rows_transact:
  assumes "\<And>d v d'. f d = Inr (v, d') \<Longrightarrow> typed_tables d' = typed_tables d"
  shows "keeps_rows srv (transact f)"
proof (rule preserves_transact)
  fix s v d
  assume "rows_typed (ext srv) (lim_artifact_count (srv_limits srv)) (db s)" "f (db s) = Inr (v, d)"
  then show "rows_typed (ext srv) (lim_artifact_count (srv_limits srv)) (db (s\<lparr>db := d\<rparr>))"
    using typed_tables_rows [OF assms] by simp
qed

text \<open>What an operation reads first is known of the state it goes on from.\<close>

lemma preserves_bind_query:
  "(\<And>s v. I s \<Longrightarrow> q (db s) = Inr v \<Longrightarrow> preserves I (f v)) \<Longrightarrow> preserves I (bind_op (query q) f)"
  by (auto simp: preserves_def bind_op_def query_def split: sum.splits)

lemma preserves_read_from: "(\<And>s. I s \<Longrightarrow> preserves I (f s)) \<Longrightarrow> preserves I (read_op f)"
  by (simp add: preserves_def read_op_def)

section \<open>Clients and uploads\<close>

lemma client_rows:
  assumes "rows_typed x n d" "metadata_from_json x (cl_metadata_json row) \<noteq> None"
  shows "rows_typed x n (d\<lparr>db_clients := upsert_client row (db_clients d)\<rparr>)"
  using assms by (simp add: rows_typed_def upsert_client_def list_all_update_where)

lemma register_client_rows:
  assumes "typed_documents (ext srv)"
  shows "keeps_rows srv (register_client srv e path payload)"
  unfolding register_client_def
  by (intro preserves_intros)
    (auto simp: commit_eq_Inr ok_or_eq_Inr intro!: client_rows typed_documentsD(2) [OF assms])

lemma audit_of_typed: "upload_typed u \<Longrightarrow> audit_typed (upload_audit_of u reason at)"
  by (cases reason) (simp_all add: audit_typed_def upload_audit_of_def upload_typed_def)

lemma terminalize_transaction_rows:
  assumes "terminalize_transaction e u reason at d = Inr (v, d')" "rows_typed x n d" "upload_typed u"
  shows "rows_typed x n d'"
  using assms(1,2) audit_of_typed [OF assms(3)]
  by (auto simp: terminalize_transaction_def delete_upload_detail_def commit_eq_Inr rows_typed_def insert_or_ignore_def
      list_all_delete_where split: option.splits if_splits)

lemma terminalize_rows:
  assumes "upload_typed upload"
  shows "keeps_rows srv (terminalize_upload_locked srv e upload reason)"
  unfolding terminalize_upload_locked_def remove_upload_dir_op_def
  by (intro preserves_intros) (auto intro: terminalize_transaction_rows assms)

lemma active_typed: "rows_typed x n d \<Longrightarrow> get_active_upload d uid = Some u \<Longrightarrow> upload_typed u"
  by (auto simp: rows_typed_def get_active_upload_def list_all_iff dest!: find_SomeD)

lemma require_active_rows: "keeps_rows srv (require_active_upload srv e uid)"
  unfolding require_active_upload_def
  by (intro preserves_bind_query)
    (auto simp: ok_or_eq_Inr dest!: active_typed intro!: preserves_intros terminalize_rows)

lemma get_upload_status_rows: "keeps_rows srv (get_upload_status srv e path)"
  unfolding get_upload_status_def
  by (intro preserves_try preserves_read_from)
    (auto split: option.split intro!: preserves_intros terminalize_rows dest: active_typed)

lemma abandon_upload_rows: "keeps_rows srv (abandon_upload srv e path)"
  unfolding abandon_upload_def
  by (intro preserves_try preserves_bind preserves_query preserves_read_from)
    (auto split: option.split intro!: preserves_intros terminalize_rows dest: active_typed)

lemma expire_uploads_rows: "keeps_rows srv (expire_uploads_op srv e t)"
proof -
  let ?I = "\<lambda>t. rows_typed (ext srv) (lim_artifact_count (srv_limits srv)) (db t)"
  have each: "?I s \<Longrightarrow> ?I (snd (expire_each srv e t ids k s))" for ids k s
  proof (induction ids arbitrary: k s)
    case (Cons uid ids)
    show ?case
    proof (cases "get_active_upload (db s) uid")
      case (Some u)
      have "?I (snd (terminalize_upload_locked srv e u Reason_Expired s))"
        using terminalize_rows [OF active_typed [OF Cons.prems Some]] Cons.prems by (simp add: preserves_def)
      with Some Cons show ?thesis by (auto split: sum.splits bool.splits prod.splits)
    qed (use Cons in simp)
  qed simp
  have "snd (expire_uploads_op srv e t s) = snd (expire_uploads_at srv e t s)" for s
    by (auto simp: expire_uploads_op_def split: prod.splits sum.splits)
  with each show ?thesis
    by (auto simp: preserves_def expire_uploads_at_def split: option.splits)
qed

lemma session_tables:
  "get_or_create_session srv e c m now_text d = Inr (sid, d') \<Longrightarrow> typed_tables d' = typed_tables d"
  by (auto simp: get_or_create_session_def and_then_eq_Inr typed_tables_def split: if_splits)

lemma upload_detail_rows:
  assumes "persist_new_upload_detail e i m json sha layout at d = Inr d'" "rows_typed x n d" "manifest_typed x n json"
  shows "rows_typed x n d'"
  using assms by (auto simp: persist_new_upload_detail_def and_then_eq_Inr insert_row_eq_Inr rows_typed_def)

lemma new_upload_typed: "new_upload_row srv e sid c cid m sha layout now_text expires = Inr row \<Longrightarrow> upload_typed row"
  by (auto simp: new_upload_row_def and_then_eq_Inr upload_typed_def to_sqlite_i64_ok)

lemma persist_upload_rows:
  assumes run: "persist_upload srv e c cid m json sha layout now_text expires d = Inr (v, d')"
    and inv: "rows_typed x n d" and json: "manifest_typed x n json"
  shows "rows_typed x n d'"
proof -
  obtain sid d1 where d1: "get_or_create_session srv e c m now_text d = Inr (sid, d1)"
    using run by (auto simp: persist_upload_def and_then_eq_Inr split: prod.splits)
  have k1: "rows_typed x n d1" using inv typed_tables_rows [OF session_tables [OF d1]] by simp
  show ?thesis
  proof (cases "find (capture_matches (owner srv) c cid) (db_uploads d1)")
    case None
    then obtain row uploads d2 where new: "new_upload_row srv e sid c cid m sha layout now_text expires = Inr row"
      "insert_row (\<lambda>r r'. up_id r = up_id r') row (db_uploads d1) = Inr uploads"
      "persist_new_upload_detail e (up_id row) m json sha layout now_text (d1\<lparr>db_uploads := uploads\<rparr>) = Inr d2" "d' = d2"
      using run by (auto simp: persist_upload_def d1 and_then_eq_Inr commit_eq_Inr)
    have "rows_typed x n (d1\<lparr>db_uploads := uploads\<rparr>)"
      using k1 new(2) new_upload_typed [OF new(1)] by (auto simp: rows_typed_def insert_row_eq_Inr)
    from upload_detail_rows [OF new(3) this json] new(4) show ?thesis by simp
  next
    case (Some existing)
    with run have "d' = d1" by (auto simp: persist_upload_def d1 and_then_eq_Inr commit_eq_Inr)
    with k1 show ?thesis by simp
  qed
qed

lemma create_upload_rows:
  assumes "json_roundtrip (ext srv)"
  shows "keeps_rows srv (create_upload srv e payload)"
proof -
  have json: "manifest_typed (ext srv) (lim_artifact_count (srv_limits srv)) json"
    if "normalize_manifest (ext srv) input (srv_limits srv) = Inr m" "manifest_to_json (ext srv) m = Some json" for input m json
    using normalize_manifest_wf [OF that(1)] that(2) assms
    by (auto simp: manifest_typed_def manifest_wf_def json_roundtrip_def)
  show ?thesis
    unfolding create_upload_def Let_def
    by (intro preserves_intros)
      (auto simp: expire_uploads_rows ok_or_eq_Inr split: prod.splits intro!: preserves_intros
        intro: persist_upload_rows [OF _ _ json])
qed

lemma put_artifact_chunk_rows: "keeps_rows srv (put_artifact_chunk srv e p q r h body)"
proof -
  have store: "keeps_rows srv (store_chunk_file srv e uid ai ci body request)" for uid ai ci request
    unfolding store_chunk_file_def by (intro preserves_intros) simp_all
  have persist: "typed_tables d' = typed_tables d" if "persist_chunk_record e u ai ci len sha at d = Inr (v, d')"
    for u ai ci len sha at d v d'
    unfolding typed_tables_def by (subst (1 2 3 4 5 6 7) persist_chunk_record_tables [OF that]) simp
  have refresh: "rows_typed x n d'" if ok: "refresh_upload_status e uid d = Inr (v, d')" and inv: "rows_typed x n d"
    for uid d v d' x n
  proof -
    obtain complete where "d' = d\<lparr>db_uploads := update_where (\<lambda>r. up_id r = up_id uid
        \<and> (up_status r = ''created'' \<or> up_status r = ''artifact_uploaded''))
        (\<lambda>r. r\<lparr>up_status := if complete then ''artifact_uploaded'' else ''created''\<rparr>) (db_uploads d)\<rparr>"
      using ok by (auto simp: refresh_upload_status_def and_then_eq_Inr commit_eq_Inr)
    with inv show ?thesis
      by (auto simp: rows_typed_def upload_typed_def intro!: list_all_update_where)
  qed
  have "keeps_rows srv (accept_new_chunk srv e u a ai ci body request)" for u a ai ci request
    unfolding accept_new_chunk_def
    by (intro preserves_intros keeps_rows_transact) (auto simp: store intro: refresh dest: persist typed_tables_rows)
  then show ?thesis
    unfolding put_artifact_chunk_def repeat_chunk_def
    by (intro preserves_intros) (simp_all add: require_active_rows)
qed

section \<open>Completion\<close>

lemma latest_context_rows:
  assumes "maintain_session_latest_context srv i sid m d = Inr d'" "rows_typed x n d"
    and "artifact_set_version (capture m) \<le> 65535"
  shows "rows_typed x n d'"
  using assms
  by (auto simp: maintain_session_latest_context_def upsert_session_latest_context_def upsert_latest_context_def
      and_then_eq_Inr rows_typed_def context_typed_def latest_context_of_def intro!: list_all_update_where)

lemma insert_capture_rows:
  assumes ok: "insert_capture_provenance srv e u m mid sid at d = Inr d'" and inv: "rows_typed (ext srv) n d"
    and docs: "typed_documents (ext srv)" "artifact_set_version (capture m) \<le> 65535"
  shows "rows_typed (ext srv) n d'"
proof (cases "find (\<lambda>c. cp_upload_id c = up_id u) (db_captures d)")
  case None
  with ok obtain json seq captures where json: "metadata_to_json (ext srv) (source_metadata (capture m)) = Some json"
    and ins: "insert_row (\<lambda>r r'. cp_id r = cp_id r' \<or> (cp_owner_namespace r = cp_owner_namespace r' \<and> cp_client_id r = cp_client_id r'
       \<and> cp_capture_id r = cp_capture_id r')) (capture_row_of srv e u m json mid sid at seq) (db_captures d) = Inr captures"
    and kept: "maintain_session_latest_context srv (up_session_id u) sid m (d\<lparr>db_captures := captures\<rparr>) = Inr d'"
    by (auto simp: insert_capture_provenance_def and_then_eq_Inr ok_or_eq_Inr)
  have "rows_typed (ext srv) n (d\<lparr>db_captures := captures\<rparr>)"
    using inv ins docs(2) typed_documentsD(2) [OF docs(1) json]
    by (auto simp: rows_typed_def insert_row_eq_Inr capture_row_of_def capture_typed_def)
  from latest_context_rows [OF kept this docs(2)] show ?thesis .
next
  case (Some c)
  with ok have "maintain_session_latest_context srv (up_session_id u) sid m d = Inr d'"
    by (auto simp: insert_capture_provenance_def and_then_eq_Inr split: if_splits)
  from latest_context_rows [OF this inv docs(2)] show ?thesis .
qed

lemma finish_upload_rows:
  assumes ok: "finish_upload_row srv e u m mid sid at transfer newly d = Inr d'" and inv: "rows_typed (ext srv) n d"
    and docs: "typed_documents (ext srv)" "artifact_set_version (capture m) \<le> 65535"
  shows "rows_typed (ext srv) n d'"
proof (cases "list_ex (open_upload (up_id u)) (db_uploads d)")
  case True
  with ok obtain t k where done_row: "insert_capture_provenance srv e u m mid sid at
      (d\<lparr>db_uploads := update_where (open_upload (up_id u)) (complete_upload_row sid at t k) (db_uploads d)\<rparr>) = Inr d'"
      and "0 \<le> t" "0 \<le> k"
    by (auto simp: finish_upload_row_def and_then_eq_Inr to_sqlite_i64_ok)
  then have "rows_typed (ext srv) n
      (d\<lparr>db_uploads := update_where (open_upload (up_id u)) (complete_upload_row sid at t k) (db_uploads d)\<rparr>)"
    using inv by (auto simp: rows_typed_def upload_typed_def complete_upload_row_def intro!: list_all_update_where)
  from insert_capture_rows [OF done_row this docs] show ?thesis .
next
  case False
  with ok inv show ?thesis
    by (auto simp: finish_upload_row_def and_then_eq_Inr split: option.splits if_splits)
qed

lemma finalize_existing_rows:
  assumes "typed_documents (ext srv)" "artifact_set_version (capture m) \<le> 65535"
  shows "keeps_rows srv (finalize_upload_for_existing_snapshot srv e u m sid transfer)"
  unfolding finalize_upload_for_existing_snapshot_def
  by (intro preserves_intros) (auto dest!: finalize_existing_ok intro: finish_upload_rows assms)

lemma record_transaction_rows:
  assumes "record_transaction srv e u m ps fingerprint transfer newly now_text now_seq d = Inr (v, d')"
    "rows_typed (ext srv) n d" "length ps \<le> n"
    and docs: "typed_documents (ext srv)" "artifact_set_version (capture m) \<le> 65535"
  shows "rows_typed (ext srv) n d'"
proof (cases rule: record_transaction_cases [OF assms(1)])
  case (2 blobs ids row mid rows d2 prior)
  have "snapshot_typed n row"
    using 2(4) assms(3) by (auto simp: new_snapshot_row_def and_then_eq_Inr to_sqlite_i64_ok snapshot_typed_def)
  then have "rows_typed (ext srv) n (d\<lparr>db_blobs := blobs, db_snapshots := db_snapshots d @ [row], db_artifacts := rows\<rparr>)"
    using assms(2) by (simp add: rows_typed_def)
  from finish_upload_rows [OF 2(8) this docs] show ?thesis by (simp add: 2(9) rows_typed_def)
qed (use assms in simp)

lemma cleanup_rows: "keeps_rows srv (cleanup_uncommitted_promotions srv e ps)"
  by (induction ps) (auto intro!: preserves_intros)

lemma promote_unique_rows: "keeps_rows srv (promote_unique_blobs srv e promotions ps)"
proof (induction ps arbitrary: promotions)
  case (Cons p ps)
  have one: "keeps_rows srv (promote_blob srv e p)"
    unfolding promote_blob_def Let_def by (intro preserves_intros) simp_all
  have clean: "keeps_rows srv (bind_op (ignore_op
      (cleanup_uncommitted_promotions srv e qs)) (\<lambda>_. pure_op (Inl err :: blob_promotion list result)))" for qs err
    by (intro preserves_intros cleanup_rows)
  show ?case
    unfolding preserves_def
  proof (intro allI impI)
    fix s :: archive assume s: "rows_typed (ext srv) (lim_artifact_count (srv_limits srv)) (db s)"
    obtain r t where run: "promote_blob srv e p s = (r, t)" by fastforce
    from preservesD [OF one s run] run Cons.IH clean
    show "rows_typed (ext srv) (lim_artifact_count (srv_limits srv)) (db (snd (promote_unique_blobs srv e promotions (p # ps) s)))"
      by (auto simp: preserves_def split: sum.splits)
  qed
qed (simp add: preserves_pure)

lemma complete_checked_rows:
  assumes docs: "typed_documents (ext srv)" "artifact_set_version (capture m) \<le> 65535"
    and bound: "length (artifacts m) \<le> lim_artifact_count (srv_limits srv)"
  shows "keeps_rows srv (complete_checked srv e u m rows)"
proof -
  let ?I = "\<lambda>t. rows_typed (ext srv) (lim_artifact_count (srv_limits srv)) (db t)"
  note existing = finalize_existing_rows [OF docs]
  have record_it: "keeps_rows srv (record_or_clean_up srv e u m ps promotions fingerprint transfer newly)"
    if "length ps \<le> lim_artifact_count (srv_limits srv)" for ps promotions fingerprint transfer newly
  proof -
    have rec: "keeps_rows srv (record_completed_upload srv e u m ps promotions fingerprint transfer newly)"
      unfolding record_completed_upload_def
      by (intro preserves_intros) (auto simp: cleanup_rows existing intro: record_transaction_rows that docs)
    have clean: "keeps_rows srv (bind_op (ignore_op
        (cleanup_uncommitted_promotions srv e promotions)) (\<lambda>_. pure_op (Inl err :: unit result)))" for err
      by (intro preserves_intros cleanup_rows)
    show ?thesis
      unfolding preserves_def
    proof (intro allI impI)
      fix s :: archive assume s: "?I s"
      obtain r t where run: "record_completed_upload srv e u m ps promotions fingerprint transfer newly s = (r, t)"
        by fastforce
      from preservesD [OF rec s run] run clean
      show "?I (snd (record_or_clean_up srv e u m ps promotions fingerprint transfer newly s))"
        by (auto simp: record_or_clean_up_def preserves_def split: sum.splits)
    qed
  qed
  have dir: "keeps_rows srv (ignore_op (remove_upload_dir_op e uid))" for uid
    unfolding remove_upload_dir_op_def by (intro preserves_intros) simp
  have attach: "keeps_rows srv (attach_to_snapshot srv e u m transfer sid)" for transfer sid
    unfolding attach_to_snapshot_def by (intro preserves_bind preserves_query) (simp_all add: existing dir)
  have locks: "keeps_rows srv (complete_under_blob_locks srv e u m ps fingerprint transfer)"
    if "length ps \<le> lim_artifact_count (srv_limits srv)" for ps fingerprint transfer
    unfolding complete_under_blob_locks_def
    by (intro preserves_bind preserves_query preserves_case_option preserves_try)
      (simp_all add: attach promote_unique_rows record_it that dir)
  have prepared: "keeps_rows srv (complete_prepared srv e u m ps fingerprint transfer)"
    if "length ps \<le> lim_artifact_count (srv_limits srv)" for ps fingerprint transfer
    unfolding complete_prepared_def by (intro preserves_intros) (simp_all add: attach locks that)
  have "length ps \<le> lim_artifact_count (srv_limits srv)" if "prepare_artifacts srv e s u m rows = Inr ps" for ps s
    using try_map_length [OF that [unfolded prepare_artifacts_def]] bound by simp
  then show ?thesis
    unfolding complete_checked_def
    by (intro preserves_intros) (auto simp: prepared split: prod.splits intro!: preserves_intros)
qed

lemma complete_upload_rows:
  assumes "typed_documents (ext srv)"
  shows "keeps_rows srv (complete_upload srv e path)"
  unfolding preserves_def
proof (intro allI impI)
  fix s :: archive assume inv: "rows_typed (ext srv) (lim_artifact_count (srv_limits srv)) (db s)"
  show "rows_typed (ext srv) (lim_artifact_count (srv_limits srv)) (db (snd (complete_upload srv e path s)))"
  proof (cases rule: complete_upload_cases [of srv e path s])
    case (inactive uid)
    with preserves_snd [OF require_active_rows, of srv s] inv show ?thesis by simp
  next
    case (checked uid u m)
    have "artifact_set_version (capture m) \<le> 65535"
      using checked(5) typed_documentsD(1) [OF assms] by (auto simp: get_upload_manifest_def and_then_eq_Inr ok_or_eq_Inr)
    moreover have "length (artifacts m) \<le> lim_artifact_count (srv_limits srv)"
      using checked(6) by (simp add: validate_current_manifest_limits_def Let_def and_then_eq_Inr reject_if_eq_Inr)
    ultimately show ?thesis
      using preserves_snd [OF complete_checked_rows [OF assms]] inv checked(1) by metis
  qed (use inv in simp)
qed

section \<open>Deletion and collection\<close>

lemma rebuilt_context_typed:
  assumes "rebuilt_context i d = Some p" "list_all (capture_typed x) (db_captures d)"
  shows "context_typed p"
proof -
  obtain s se c where row: "(s, se, c) \<in> set (latest_context_candidates i d)"
    and p: "lx_artifact_set_version p = int (artifact_set_version (cp_capture c))"
    using assms(1) by (fastforce simp: rebuilt_context_def split: option.splits prod.splits dest!: first_by_SomeD)
  from row have "c \<in> set (db_captures d)"
    by (auto simp: latest_context_candidates_def split: if_splits)
  with assms(2) p show ?thesis by (auto simp: list_all_iff capture_typed_def context_typed_def)
qed

lemma delete_transaction_rows:
  assumes "delete_snapshot_transaction e dt reason sid d = Inr (v, d')" "rows_typed x n d"
  shows "rows_typed x n d'"
proof (cases rule: delete_snapshot_transaction_cases [OF assms(1)])
  case (2 live m t a blobs)
  have "rows_typed x n (with_deletion live (dt_deleted_at dt) t a d)"
    using assms(2) by (auto simp: with_deletion_def rows_typed_def snapshot_typed_def intro!: list_all_update_where)
  moreover obtain bs where "schedule_all dt blobs (with_deletion live (dt_deleted_at dt) t a d)
      = (with_deletion live (dt_deleted_at dt) t a d)\<lparr>db_blobs := bs\<rparr>"
    using schedule_all_columns by blast
  ultimately have "rows_typed x n (schedule_all dt blobs (with_deletion live (dt_deleted_at dt) t a d))"
    by (simp add: rows_typed_def)
  then show ?thesis
    unfolding 2(7)
    by (auto simp: rebuild_session_latest_context_def rows_typed_def list_all_delete_where
        intro: rebuilt_context_typed split: option.split)
qed (use assms in simp)

lemma delete_snapshot_rows: "keeps_rows srv (delete_snapshot srv e path header payload)"
  unfolding delete_snapshot_def Let_def
  by (intro preserves_intros) (auto intro: delete_transaction_rows)

lemma collect_each_tables: "typed_tables (db (snd (collect_each e k cs n s))) = typed_tables (db s)"
proof (induction cs arbitrary: n s)
  case (Cons c cs)
  obtain r t where run: "collect_candidate e k c s = (r, t)" by fastforce
  have "typed_tables (db (snd (collect_candidate e k c s))) = typed_tables (db s)"
    by (simp add: collect_candidate_def clear_candidate_def typed_tables_def Let_def)
  then have "typed_tables (db t) = typed_tables (db s)" by (simp add: run)
  with Cons.IH show ?case by (cases r) (simp_all add: run)
qed simp

lemma run_blob_gc_rows: "keeps_rows srv (run_blob_gc srv e)"
proof -
  have "typed_tables (db (snd (collect_orphaned_blobs_at e t s))) = typed_tables (db s)" for t s
    by (auto simp: collect_orphaned_blobs_at_def Let_def split: option.splits prod.splits sum.splits)
      (metis collect_each_tables snd_conv)+
  from typed_tables_rows [OF this] show ?thesis
    unfolding run_blob_gc_def
    by (intro preserves_intros) (auto simp: preserves_def split: prod.splits sum.splits, (metis snd_conv)+)
qed

section \<open>Every reachable archive\<close>

lemma run_request_rows:
  assumes "json_roundtrip (ext srv)" "typed_documents (ext srv)"
    and "rows_typed (ext srv) (lim_artifact_count (srv_limits srv)) (db s)"
  shows "rows_typed (ext srv) (lim_artifact_count (srv_limits srv)) (db (run_request srv e r s))"
proof -
  have keep: "rows_typed (ext srv) (lim_artifact_count (srv_limits srv)) (db (snd (m s)))" if "keeps_rows srv m"
    for m :: "(archive, 'a) op"
    using that assms(3) by (simp add: preserves_def)
  show ?thesis
    by (cases r) (auto intro!: keep simp del: all_simps simp: register_client_rows create_upload_rows
        get_upload_status_rows put_artifact_chunk_rows complete_upload_rows abandon_upload_rows
        expire_uploads_rows delete_snapshot_rows run_blob_gc_rows assms(1,2))
qed

lemma reachable_rows:
  assumes "trusted srv U" "typed_documents (ext srv)" "archive_reachable srv U s"
  shows "rows_typed (ext srv) (lim_artifact_count (srv_limits srv)) (db s)"
  using assms(3)
proof (induction rule: reachable.induct)
  case initial
  show ?case by (simp add: rows_typed_def empty_archive_def empty_database_def)
next
  case (next_state s t)
  then show ?case
    using run_request_rows [OF _ assms(2)] assms(1) by (auto simp: trusted_def elim!: archive_stepE)
qed

end
