(* ===== verification/Row_Types.thy ===== *)
theory Row_Types
  imports Row_Invariant Archive_Contents Sample_Flow
begin

text \<open>
  What the typed rows mean for the readers: every conversion with which a reader of the server turns a
  row, or the rows of a join, into a resource succeeds, so no reader answers a server error for what is
  stored.
\<close>

definition client_fault :: "api_error \<Rightarrow> bool" where
  "client_fault e = (400 \<le> err_status e \<and> err_status e < 500)"

lemma client_fault_errors [simp]: "client_fault (not_found c t)" "client_fault (invalid t)"
  by (simp_all add: client_fault_def api_error_defs)

lemma client_fault_uuid [error_intros]: "errors_in client_fault (parse_uuid x v t)"
  by (simp add: parse_uuid_def errors_in_ok_or)

lemma ok_answers: "is_ok r \<Longrightarrow> errors_in P r"
  by (auto simp: is_ok_iff)

lemma u64_of: "0 \<le> i \<Longrightarrow> u64_try_from i = Some (nat i)"
  by (simp add: u64_try_from_def)

section \<open>The conversions of the readers\<close>

lemma typed_session: "context_typed p \<Longrightarrow> is_ok (session_response_of (p, s))"
  by (simp add: context_typed_def session_response_of_def u16_try_from_def)

lemma typed_capture: "capture_typed (ext srv) c \<Longrightarrow> is_ok (capture_from_row srv c mf)"
  by (auto simp: capture_typed_def capture_from_row_def)

lemma typed_manifest: "manifest_typed (ext srv) n (mf_canonical_json mf) \<Longrightarrow> is_ok (canonical_manifest_response srv (c, mf))"
  by (auto simp: manifest_typed_def canonical_manifest_response_def)

lemma typed_snapshot:
  assumes "snapshot_typed n s" "n \<le> u32_max"
  shows "is_ok (snapshot_summary_of d (s, mf, se))" "is_ok (receipt_of srv s mf)"
  using assms by (simp_all add: snapshot_typed_def snapshot_summary_of_def receipt_of_def u32_try_from_def u64_of)

lemma described_artifact:
  assumes "describes_joined (a, b) (i, art)" "i \<le> u32_max"
  shows "is_ok (artifact_metadata_response_of (a, s, b))"
  using assms
  by (simp add: describes_joined_def artifact_metadata_response_of_def u32_try_from_def u64_of compression_enum.parse_as_str)

lemma is_ok_try_map: "is_ok (try_map f xs) \<longleftrightarrow> (\<forall>r \<in> set xs. is_ok (f r))"
  by (induction xs) (auto simp: is_ok_iff result_simps)

text \<open>The status of an upload: the rows of an artifact and of its chunks are those of the layout.\<close>

lemma typed_upload:
  assumes ok: "upload_detail_ok (ext srv) d f u" and typed: "upload_typed u"
    and manifests: "list_all (\<lambda>mf. manifest_typed (ext srv) n (mf_canonical_json mf)) (db_manifests d)" "n \<le> u32_max"
  shows "is_ok (upload_artifact_statuses d u)" "is_ok (upload_status_of (up_status u))"
    and "u64_try_from (up_chunk_size_bytes u) \<noteq> None"
proof -
  obtain m c where m: "manifest_of (ext srv) u (manifests_for d (up_id u)) m"
    and arts: "artifacts_for d (up_id u) = projected_rows (up_id u) c m"
    and chunks: "\<forall>r \<in> set (chunks_for d (up_id u)). chunk_in_layout c m r"
    and status: "up_status u \<in> {''created'', ''artifact_uploaded'', ''completed''}"
    using ok unfolding upload_detail_ok_def upload_ok_def by blast
  show "is_ok (upload_status_of (up_status u))" using status by (auto simp: upload_status_of_def)
  show "u64_try_from (up_chunk_size_bytes u) \<noteq> None" using typed by (simp add: upload_typed_def u64_of)
  obtain mf where mf: "manifests_for d (up_id u) = [mf]" "manifest_from_json (ext srv) (mf_canonical_json mf) = Some m"
    using m by (auto simp: manifest_of_def)
  have "mf \<in> set (db_manifests d)" using arg_cong [OF mf(1), of set] by (auto simp: manifests_for_def)
  then have bound: "length (artifacts m) \<le> u32_max"
    using manifests mf(2) by (fastforce simp: list_all_iff manifest_typed_def)
  have "is_ok (upload_artifact_status_of (up_id u) a (chunk_rows d (up_id u) (ua_artifact_index a)))"
    if a: "a \<in> set (get_upload_artifacts d (up_id u))" for a
  proof -
    have "a \<in> set (projected_rows (up_id u) c m)"
      using a unfolding arts [symmetric] by (simp add: get_upload_artifacts_def artifacts_for_def)
    then obtain i where i: "i < length (artifacts m)" "a = projected_row (up_id u) c (i, artifacts m ! i)"
      by (auto simp: projected_rows_def in_set_enumerate_eq)
    let ?n = "chunks_needed (stored_size_bytes (artifacts m ! i)) c"
    have "0 \<le> uc_chunk_index r \<and> uc_chunk_index r < int ?n"
      if r: "r \<in> set (chunk_rows d (up_id u) (ua_artifact_index a))" for r
    proof -
      have "r \<in> set (chunks_for d (up_id u))" "uc_artifact_index r = int i"
        using r i(2) by (auto simp: chunk_rows_def chunks_for_def projected_row_def)
      with chunks show ?thesis by (fastforce simp: chunk_in_layout_def)
    qed
    then obtain bm where "accepted_bitmap ?n (chunk_rows d (up_id u) (ua_artifact_index a)) = Inr bm"
      using accepted_bitmap_total unfolding accepted_bitmap_def by blast
    with i bound show ?thesis
      by (simp add: upload_artifact_status_of_def projected_row_def u32_try_from_def u64_of compression_enum.parse_as_str)
  qed
  then show "is_ok (upload_artifact_statuses d u)"
    by (simp add: upload_artifact_statuses_def is_ok_try_map)
qed

section \<open>Readers\<close>

text \<open>The rows of the joins are rows of the tables.\<close>

lemma join_rows:
  "(p, se) \<in> set (session_rows d) \<Longrightarrow> p \<in> set (db_latest_contexts d)"
  "(c, mf) \<in> set (capture_rows d) \<Longrightarrow> c \<in> set (db_captures d) \<and> mf \<in> set (db_manifests d)"
  "(s, mf, se) \<in> set (snapshot_rows d) \<Longrightarrow> s \<in> set (db_snapshots d)"
  by (auto simp: session_rows_def capture_rows_def snapshot_rows_def split: if_splits)

lemma typed_rows:
  assumes "rows_typed (ext srv) n d" "n \<le> u32_max"
  shows "r \<in> set (session_rows d) \<Longrightarrow> is_ok (session_response_of r)"
    and "q \<in> set (capture_rows d) \<Longrightarrow> is_ok (capture_from_row srv (fst q) (snd q)) \<and> is_ok (canonical_manifest_response srv q)"
    and "t \<in> set (snapshot_rows d) \<Longrightarrow> is_ok (snapshot_summary_of d t)"
proof -
  have tables: "p \<in> set (db_latest_contexts d) \<Longrightarrow> context_typed p" "c \<in> set (db_captures d) \<Longrightarrow> capture_typed (ext srv) c"
    "s \<in> set (db_snapshots d) \<Longrightarrow> snapshot_typed n s"
    "mf \<in> set (db_manifests d) \<Longrightarrow> manifest_typed (ext srv) n (mf_canonical_json mf)" for p c s mf
    using assms(1) by (auto simp: rows_typed_def list_all_iff)
  show "r \<in> set (session_rows d) \<Longrightarrow> is_ok (session_response_of r)"
    by (cases r) (auto dest!: join_rows(1) intro!: typed_session tables)
  show "q \<in> set (capture_rows d) \<Longrightarrow> is_ok (capture_from_row srv (fst q) (snd q)) \<and> is_ok (canonical_manifest_response srv q)"
    by (cases q) (auto dest!: join_rows(2) intro!: typed_capture typed_manifest tables)
  show "t \<in> set (snapshot_rows d) \<Longrightarrow> is_ok (snapshot_summary_of d t)"
    by (cases t) (auto dest!: join_rows(3) intro!: typed_snapshot(1) [OF tables(3) assms(2)])
qed

lemma first_of: "(case xs of [] \<Rightarrow> None | r # _ \<Rightarrow> Some r) = Some r \<Longrightarrow> r \<in> set xs"
  by (cases xs) simp_all

lemma errors_in_ok_or_then:
  "P e \<Longrightarrow> (\<And>r. v = Some r \<Longrightarrow> errors_in P (f r)) \<Longrightarrow> errors_in P (and_then (ok_or e v) f)"
  by (cases v) simp_all

lemma typed_readers:
  assumes typed: "rows_typed (ext srv) n d" and bound: "n \<le> u32_max"
  shows "errors_in client_fault (get_session srv path d)" "errors_in client_fault (get_capture srv path d)"
    "errors_in client_fault (get_capture_by_upload srv path d)" "errors_in client_fault (get_manifest srv path d)"
    "errors_in client_fault (get_snapshot_manifest srv path d)"
    "errors_in client_fault (completion_for_upload srv path d)"
    "errors_in client_fault (tombstone_response_of srv path d)"
    "errors_in client_fault (audit_upload_response path d)"
proof -
  note rows = typed_rows [OF typed bound]
  have tables: "c \<in> set (db_captures d) \<Longrightarrow> capture_typed (ext srv) c"
    "s \<in> set (db_snapshots d) \<Longrightarrow> snapshot_typed n s" "u \<in> set (db_uploads d) \<Longrightarrow> upload_typed u"
    "a \<in> set (db_upload_audits d) \<Longrightarrow> audit_typed a"
    "mf \<in> set (db_manifests d) \<Longrightarrow> manifest_typed (ext srv) n (mf_canonical_json mf)" for c s u a mf
    using typed by (auto simp: rows_typed_def list_all_iff)
  show "errors_in client_fault (get_session srv path d)"
    unfolding get_session_def
    by (intro errors_in_and_then [OF client_fault_uuid] errors_in_ok_or_then)
      (auto dest!: find_SomeD rows(1) intro: ok_answers)
  show "errors_in client_fault (get_capture srv path d)"
    unfolding get_capture_def find_capture_def capture_not_found_def
    by (intro errors_in_and_then [OF client_fault_uuid] errors_in_ok_or_then)
      (auto dest!: find_SomeD rows(2) intro: ok_answers)
  have capture: "errors_in client_fault (capture_for_upload srv uid d)" for uid
    unfolding capture_for_upload_def Let_def
    by (intro errors_in_ok_or_then) (auto dest!: find_SomeD tables(1) intro: ok_answers typed_capture)
  then show "errors_in client_fault (get_capture_by_upload srv path d)"
    unfolding get_capture_by_upload_def by (intro errors_in_and_then [OF client_fault_uuid])
  show "errors_in client_fault (get_manifest srv path d)"
    unfolding get_manifest_def
    by (intro errors_in_and_then [OF client_fault_uuid] errors_in_ok_or_then)
      (auto dest!: find_SomeD rows(2) intro: ok_answers)
  show "errors_in client_fault (get_snapshot_manifest srv path d)"
    unfolding get_snapshot_manifest_def
  proof (intro errors_in_and_then [OF client_fault_uuid] errors_in_ok_or_then)
    fix sid r assume "(case [(c\<lparr>cp_snapshot_id := sn_id s\<rparr>, m). s \<leftarrow> db_snapshots d,
                sn_id s = sid \<and> sn_deleted_at s = None,
                m \<leftarrow> db_manifests d, mf_id m = sn_manifest_id s,
                c \<leftarrow> db_captures d, cp_manifest_id c = mf_id m] of [] \<Rightarrow> None | r # _ \<Rightarrow> Some r) = Some r"
    from first_of [OF this] have "snd r \<in> set (db_manifests d)" by (auto split: if_splits)
    then show "errors_in client_fault (canonical_manifest_response srv r)"
      using tables(5) by (cases r) (auto intro!: ok_answers typed_manifest)
  qed simp
  have receipt: "errors_in client_fault (receipt_for_upload srv uid d)" for uid
    unfolding receipt_for_upload_def Let_def live_snapshot_def
    by (intro errors_in_ok_or_then) (auto dest!: find_SomeD tables(2) intro: ok_answers typed_snapshot(2) bound)
  show "errors_in client_fault (completion_for_upload srv path d)"
    unfolding completion_for_upload_def completed_upload_def
    by (rule errors_in_and_then [OF receipt], rule errors_in_ok_or_then, simp, rule errors_in_and_then [OF capture])
      (auto dest!: find_SomeD tables(3) simp: upload_typed_def u64_of)
  show "errors_in client_fault (tombstone_response_of srv path d)"
    unfolding tombstone_response_of_def Let_def
    by (rule errors_in_ok_or_then, simp, rule errors_in_ok_or_then, simp, rule errors_in_ok_or_then, simp)
      (use bound in \<open>auto dest!: find_SomeD tables(2) simp: snapshot_typed_def u64_of u32_try_from_def\<close>)
  show "errors_in client_fault (audit_upload_response path d)"
    unfolding audit_upload_response_def
    by (intro errors_in_ok_or_then) (auto dest!: find_SomeD tables(4) simp: audit_typed_def u64_of)
qed

text \<open>C37: What is stored can be read. In every archive the server can reach, none of the readers of a
  resource answers a server error: sessions, captures, manifests, snapshots, artifacts, completions,
  upload statuses and tombstones are answered, or refused as a fault of the client (not found, or not a
  UUID); and every row of a listing becomes its item, and the metadata of every client decodes. So every
  count and index fits the 32 bits and every size the 64 bits of the answer, every set version its 16
  bits, and every status, reason, compression and document decodes. It needs the artifact limit of the
  server within 32 bits, which the configuration guarantees, and of the decoder of the manifests that it
  delivers a set version of 16 bits, and of that of the metadata that it reads what was written.\<close>

theorem stored_rows_decode:
  assumes "trusted srv U" "archive_reachable srv U s" "typed_documents (ext srv)"
    and "lim_artifact_count (srv_limits srv) \<le> u32_max"
  shows "errors_in client_fault (get_session srv path (db s))
    \<and> errors_in client_fault (get_capture srv path (db s))
    \<and> errors_in client_fault (get_capture_by_upload srv path (db s))
    \<and> errors_in client_fault (get_manifest srv path (db s))
    \<and> errors_in client_fault (get_snapshot_manifest srv path (db s))
    \<and> errors_in client_fault (get_snapshot srv path (db s))
    \<and> errors_in client_fault (get_artifact_metadata srv path (db s))
    \<and> errors_in client_fault (completion_for_upload srv path (db s))
    \<and> errors_in client_fault (active_upload_response path (db s))
    \<and> errors_in client_fault (audit_upload_response path (db s))
    \<and> errors_in client_fault (tombstone_response_of srv path (db s))
    \<and> (\<forall>u \<in> set (db_uploads (db s)). is_ok (active_upload_status_response u (db s)))
    \<and> (\<forall>r \<in> set (session_rows (db s)). is_ok (session_response_of r))
    \<and> (\<forall>r \<in> set (capture_rows (db s)). is_ok (capture_from_row srv (fst r) (snd r)))
    \<and> (\<forall>r \<in> set (snapshot_rows (db s)). is_ok (snapshot_summary_of (db s) r))
    \<and> (\<forall>r \<in> set (artifact_rows (db s)). is_ok (artifact_metadata_response_of r))
    \<and> (\<forall>c \<in> set (db_clients (db s)). metadata_from_json (ext srv) (cl_metadata_json c) \<noteq> None)"
proof -
  let ?d = "db s"
  note typed = reachable_rows [OF assms(1,3,2)] and inv = reachable_sound [OF assms(1,2)]
  note contents = reachable_contents [OF assms(1,2)] and blobs = blob_invD(1) [OF inv(4)]
  have small: "sn_artifact_count r \<le> int u32_max" if "r \<in> set (db_snapshots ?d)" for r
    using typed that assms(4) by (fastforce simp: rows_typed_def list_all_iff snapshot_typed_def)
  have statuses: "is_ok (upload_artifact_statuses ?d u)" "is_ok (upload_status_of (up_status u))"
    "u64_try_from (up_chunk_size_bytes u) \<noteq> None" if "u \<in> set (db_uploads ?d)" for u
    using typed_upload [OF upload_invD(5) [OF inv(2) that] _ _ assms(4)] typed that
    by (auto simp: rows_typed_def list_all_iff)
  have status: "is_ok (active_upload_status_response u ?d)" if "u \<in> set (db_uploads ?d)" for u
    using statuses [OF that] by (auto simp: active_upload_status_response_def is_ok_iff)
  have active: "errors_in client_fault (active_upload_response path ?d)"
    unfolding active_upload_response_def get_active_upload_def
  proof (rule errors_in_ok_or_then)
    fix u assume "find (\<lambda>r. up_id r = path) (db_uploads ?d) = Some u"
    then have "u \<in> set (db_uploads ?d)" by (auto dest: find_SomeD)
    from statuses [OF this] show "errors_in client_fault (and_then (upload_artifact_statuses ?d u) (\<lambda>statuses.
        and_then (upload_status_of (up_status u)) (\<lambda>status.
        and_then (ok_or internal (u64_try_from (up_chunk_size_bytes u))) (\<lambda>chunk_size. Inr (k statuses status chunk_size)))))" for k
      by (auto simp: is_ok_iff)
  qed simp
  have artifact: "is_ok (artifact_metadata_response_of r)" if row: "r \<in> set (artifact_rows ?d)" for r
  proof -
    obtain a n b where r: "r = (a, n, b)" by (cases r)
    obtain mf m i where m: "mf \<in> set (db_manifests ?d)" "manifest_row_ok (ext srv) mf m" "i < length (artifacts m)"
      "describes_joined (a, b) (i, artifacts m ! i)"
      by (rule artifact_row_described [OF contents blobs row [unfolded r]])
    have "length (artifacts m) \<le> lim_artifact_count (srv_limits srv)"
      using typed m(1,2) by (fastforce simp: rows_typed_def list_all_iff manifest_typed_def manifest_row_ok_def)
    with m(3) assms(4) described_artifact [OF m(4)] show ?thesis by (simp add: r)
  qed
  have artifacts: "errors_in client_fault (get_artifact_metadata srv path ?d)"
    unfolding get_artifact_metadata_def
    by (intro errors_in_and_then [OF client_fault_uuid] errors_in_ok_or_then)
      (auto dest!: find_SomeD artifact intro: ok_answers)
  have snapshots: "errors_in client_fault (get_snapshot srv path ?d)"
  proof (cases "uuid_parse (ext srv) path")
    case (Some sid)
    show ?thesis
    proof (cases "live_snapshot ?d sid")
      case None
      then show ?thesis by (simp add: get_snapshot_def parse_uuid_def Some snapshot_response_of_def)
    next
      case live: (Some row)
      have "row \<in> set (db_snapshots ?d)" using live by (auto simp: live_snapshot_def dest: find_SomeD)
      from live_snapshot_document [OF contents blobs Some live small [OF this]] show ?thesis by auto
    qed
  qed (simp add: get_snapshot_def parse_uuid_def)
  have clients: "\<forall>c \<in> set (db_clients ?d). metadata_from_json (ext srv) (cl_metadata_json c) \<noteq> None"
    using typed by (simp add: rows_typed_def list_all_iff)
  note rows = typed_rows [OF typed assms(4)]
  show ?thesis
    using typed_readers [OF typed assms(4)] snapshots artifacts active status artifact clients rows by blast
qed

theorem stored_rows_decode_witness:
  "errors_in client_fault (get_session flow_server ''1-session'' (db flow_completed))
   \<and> list_all (\<lambda>u. is_ok (active_upload_status_response u (db flow_completed))) (db_uploads (db flow_completed))
   \<and> db_uploads (db flow_completed) \<noteq> []"
proof -
  have docs: "typed_documents (ext flow_server)"
    by (auto simp: typed_documents_def flow_server_def flow_externals_def flow_manifest_def sample_capture_def split: if_splits)
  have limit: "lim_artifact_count (srv_limits flow_server) \<le> u32_max"
    by (simp add: flow_server_def sample_limits_def u32_max_def)
  have "db_uploads (db flow_completed) \<noteq> []" by code_simp
  with stored_rows_decode [OF flow_trusted flow_reachable(2) docs limit, of "''1-session''"] show ?thesis
    by (simp add: list_all_iff)
qed

end
