(* ===== verification/Inventory.thy ===== *)
theory Inventory
  imports Retrieval
begin

text \<open>
  The inventory of \<open>inventory.rs\<close>: the totals of the archive and the registered clients. A join is
  computed as SQLite computes it, a row for every match, and a sum fails when it leaves \<open>i64\<close>.
\<close>

section \<open>Totals\<close>

definition STATS_SCHEMA_VERSION :: nat where "STATS_SCHEMA_VERSION = 1"

record archive_stats =
  as_schema_version :: nat
  as_generated_at :: string
  as_archive_instance_id :: string
  as_sessions :: nat
  as_snapshots :: nat
  as_captures :: nat
  as_artifacts :: nat
  as_blobs :: nat
  as_stored_bytes :: nat
  as_original_bytes :: nat
  as_blob_stored_bytes :: nat
  as_clients :: nat
  as_tombstones :: nat
  as_last_ingest_at :: "string option"
  as_oldest_activity_at :: "string option"
  as_newest_activity_at :: "string option"

definition counter :: "int \<Rightarrow> nat result" where
  "counter i = ok_or internal (u64_try_from i)"

definition count_rows :: "'r list \<Rightarrow> int" where
  "count_rows rows = int (length rows)"

fun sql_sum :: "int \<Rightarrow> int list \<Rightarrow> int result" where
  "sql_sum acc [] = Inr acc"
| "sql_sum acc (i # is) =
     (if - (2 ^ 63) \<le> acc + i \<and> acc + i \<le> int i64_max then sql_sum (acc + i) is else Inl database_error)"

definition live_joined :: "database \<Rightarrow> ('r \<Rightarrow> string) \<Rightarrow> 'r list \<Rightarrow> 'r list" where
  "live_joined d snapshot_id_of rows =
     concat (map (\<lambda>r. map (\<lambda>_. r)
       (filter (\<lambda>s. sn_id s = snapshot_id_of r \<and> sn_deleted_at s = None) (db_snapshots d))) rows)"

definition newest_capture_at :: "capture_row list \<Rightarrow> string option" where
  "newest_capture_at rows =
     map_option cp_server_completed_at (last_by (\<lambda>c. (cp_server_completed_at_seq c, cp_id c)) rows)"

definition get_stats :: "server \<Rightarrow> offset_date_time \<Rightarrow> database \<Rightarrow> archive_stats result" where
  "get_stats srv t d =
     and_then (ok_or internal (format_time (ext srv) t)) (\<lambda>generated_at.
     let live = filter (\<lambda>s. sn_deleted_at s = None) (db_snapshots d);
         contexts = live_joined d lx_snapshot_id (db_latest_contexts d);
         captures = live_joined d cp_snapshot_id (db_captures d);
         activity = (\<lambda>p. (lx_completed_at_seq p, lx_session_id p)) in
     and_then (sql_sum 0 (map sn_total_stored_size_bytes live)) (\<lambda>stored.
     and_then (sql_sum 0 (map sn_total_original_size_bytes live)) (\<lambda>original.
     and_then (sql_sum 0 (map bl_stored_size_bytes (db_blobs d))) (\<lambda>blob_stored.
     and_then (counter (count_rows contexts)) (\<lambda>n_sessions.
     and_then (counter (count_rows live)) (\<lambda>n_snapshots.
     and_then (counter (count_rows captures)) (\<lambda>n_captures.
     and_then (counter (count_rows (live_joined d ar_snapshot_id (db_artifacts d)))) (\<lambda>n_artifacts.
     and_then (counter (count_rows (db_blobs d))) (\<lambda>n_blobs.
     and_then (counter stored) (\<lambda>stored_bytes.
     and_then (counter original) (\<lambda>original_bytes.
     and_then (counter blob_stored) (\<lambda>blob_stored_bytes.
     and_then (counter (count_rows (db_clients d))) (\<lambda>n_clients.
     and_then (counter (count_rows (db_tombstones d))) (\<lambda>n_tombstones.
     Inr \<lparr>as_schema_version = STATS_SCHEMA_VERSION, as_generated_at = generated_at,
       as_archive_instance_id = archive_instance_id (srv_identity srv),
       as_sessions = n_sessions, as_snapshots = n_snapshots, as_captures = n_captures, as_artifacts = n_artifacts,
       as_blobs = n_blobs, as_stored_bytes = stored_bytes, as_original_bytes = original_bytes,
       as_blob_stored_bytes = blob_stored_bytes, as_clients = n_clients, as_tombstones = n_tombstones,
       as_last_ingest_at = newest_capture_at captures,
       as_oldest_activity_at = map_option lx_completed_at (first_by activity contexts),
       as_newest_activity_at = map_option lx_completed_at (last_by activity contexts)\<rparr>))))))))))))))"

section \<open>Clients\<close>

record client_inventory_entry =
  ci_client_id :: string
  ci_hostname :: "string option"
  ci_display_name :: "string option"
  ci_first_seen_at :: string
  ci_last_seen_at :: "string option"
  ci_capture_count :: nat
  ci_last_capture_at :: "string option"

definition client_captures :: "database \<Rightarrow> string \<Rightarrow> capture_row list" where
  "client_captures d client_id =
     filter (\<lambda>c. cp_client_id c = client_id) (live_joined d cp_snapshot_id (db_captures d))"

definition client_entry :: "database \<Rightarrow> client_row \<Rightarrow> client_inventory_entry result" where
  "client_entry d row =
     and_then (counter (count_rows (client_captures d (cl_id row)))) (\<lambda>n.
     Inr \<lparr>ci_client_id = cl_id row, ci_hostname = cl_hostname row, ci_display_name = cl_display_name row,
       ci_first_seen_at = cl_created_at row, ci_last_seen_at = Some (cl_updated_at row), ci_capture_count = n,
       ci_last_capture_at = newest_capture_at (client_captures d (cl_id row))\<rparr>)"

definition list_clients :: "database \<Rightarrow> client_inventory_entry paginated_response result" where
  "list_clients d =
     and_then (try_map (client_entry d) (sort_key cl_id (db_clients d))) (\<lambda>items.
     Inr \<lparr>pr_items = items, pr_next_cursor = None, pr_high_watermark = None\<rparr>)"

end
