(* ===== verification/Inventory_Properties.thy ===== *)
theory Inventory_Properties
  imports Inventory Archive_Contents Client_Invariant Sample_Flow
begin

text \<open>
  The totals of the inventory agree with each other and with the tables: what a tombstone takes from one
  count it adds to another, and the captures of the clients are the captures of the archive.
\<close>

section \<open>Joins and sums\<close>

lemma filter_by_key:
  assumes "distinct (map k xs)"
  shows "filter (\<lambda>x. k x = i \<and> P x) xs = (if \<exists>x \<in> set xs. k x = i \<and> P x then [the (find (\<lambda>x. k x = i \<and> P x) xs)] else [])"
  using assms
proof (induction xs)
  case (Cons x xs)
  show ?case
  proof (cases "k x = i")
    case True
    then have "filter (\<lambda>x. k x = i \<and> P x) xs = []"
      using Cons.prems by (auto simp: filter_empty_conv image_iff)
    moreover have "\<not> (\<exists>y \<in> set xs. k y = i \<and> P y)" using Cons.prems True by (auto simp: image_iff)
    ultimately show ?thesis using True by auto
  qed (use Cons in auto)
qed simp

lemma live_joined_eq:
  assumes "distinct (map sn_id (db_snapshots d))"
  shows "live_joined d k rows = filter (\<lambda>r. k r \<in> live_ids d) rows"
proof (induction rows)
  case (Cons r rows)
  have "map (\<lambda>_. r) (filter (\<lambda>s. sn_id s = k r \<and> sn_deleted_at s = None) (db_snapshots d)) =
      (if k r \<in> live_ids d then [r] else [])"
    unfolding filter_by_key [OF assms] by (auto simp: live_ids_def)
  with Cons show ?case by (simp add: live_joined_def)
qed (simp add: live_joined_def)

lemma sql_sum_ok:
  assumes "list_all (\<lambda>i. 0 \<le> i) xs" "0 \<le> acc"
  shows "sql_sum acc xs = (if xs = [] \<or> acc + sum_list xs \<le> int i64_max then Inr (acc + sum_list xs) else Inl database_error)"
  using assms
proof (induction xs arbitrary: acc)
  case (Cons x xs)
  have "0 \<le> sum_list xs" using Cons.prems(1) by (intro sum_list_nonneg) (auto simp: list_all_iff)
  with Cons show ?case by (auto simp: add.assoc)
qed simp

lemma counter_count [simp]: "counter (count_rows xs) = Inr (length xs)"
  by (simp add: counter_def count_rows_def u64_try_from_def)

lemma counter_ok: "0 \<le> i \<Longrightarrow> counter i = Inr (nat i)"
  by (simp add: counter_def u64_try_from_def)

lemma int_sum_list: "int (sum_list (map f xs)) = sum_list (map (\<lambda>x. int (f x)) xs)"
  by (induction xs) simp_all

lemma sum_of_classes:
  assumes "distinct ks" "f ` set xs \<subseteq> set ks"
  shows "sum_list (map (\<lambda>k. length (filter (\<lambda>x. f x = k) xs)) ks) = length xs"
  using assms(2)
proof (induction xs)
  case (Cons x xs)
  have one: "sum_list (map (\<lambda>k. if f x = k then Suc 0 else 0) ks) = Suc 0"
  proof -
    have "sum_list (map (\<lambda>k. if f x = k then Suc 0 else 0) ks) = (\<Sum>k \<in> set ks. if f x = k then Suc 0 else 0)"
      using assms(1) by (simp add: sum_list_distinct_conv_sum_set)
    also have "\<dots> = Suc 0" using Cons.prems by (simp add: sum.delta)
    finally show ?thesis .
  qed
  have "sum_list (map (\<lambda>k. length (filter (\<lambda>y. f y = k) (x # xs))) ks) =
      sum_list (map (\<lambda>k. (if f x = k then Suc 0 else 0) + length (filter (\<lambda>y. f y = k) xs)) ks)"
    by (intro arg_cong [of _ _ sum_list] map_cong) simp_all
  also have "\<dots> = length (x # xs)" using one Cons by (simp add: sum_list_addf)
  finally show ?case .
qed simp

section \<open>The clients\<close>

lemma client_entries:
  "try_map (client_entry d) rows = Inr (map (\<lambda>row. \<lparr>ci_client_id = cl_id row, ci_hostname = cl_hostname row,
     ci_display_name = cl_display_name row, ci_first_seen_at = cl_created_at row, ci_last_seen_at = Some (cl_updated_at row),
     ci_capture_count = length (client_captures d (cl_id row)),
     ci_last_capture_at = newest_capture_at (client_captures d (cl_id row))\<rparr>) rows)"
  by (induction rows) (simp_all add: client_entry_def)

lemma captures_by_client:
  assumes "distinct (map cl_id (db_clients d))" "cp_client_id ` set (db_captures d) \<subseteq> cl_id ` set (db_clients d)"
    and "list_clients d = Inr page"
  shows "sum_list (map ci_capture_count (pr_items page)) = length (live_joined d cp_snapshot_id (db_captures d))"
proof -
  let ?caps = "live_joined d cp_snapshot_id (db_captures d)"
  have items: "map ci_capture_count (pr_items page) =
      map (\<lambda>k. length (filter (\<lambda>c. cp_client_id c = k) ?caps)) (map cl_id (sort_key cl_id (db_clients d)))"
    using assms(3) by (auto simp: list_clients_def client_entries client_captures_def comp_def)
  have "distinct (map cl_id (sort_key cl_id (db_clients d)))"
    using assms(1) by (simp add: distinct_map)
  moreover have "cp_client_id ` set ?caps \<subseteq> set (map cl_id (sort_key cl_id (db_clients d)))"
    using assms(2) by (auto simp: live_joined_def)
  ultimately show ?thesis unfolding items by (rule sum_of_classes)
qed

section \<open>The totals\<close>

lemma tombstones_count:
  assumes "tombstones_recorded d" "distinct (map sn_id (db_snapshots d))"
  shows "length (db_tombstones d) = length (filter (\<lambda>s. sn_deleted_at s \<noteq> None) (db_snapshots d))"
proof -
  let ?gone = "filter (\<lambda>s. sn_deleted_at s \<noteq> None) (db_snapshots d)"
  have "set (map ts_snapshot_id (db_tombstones d)) = set (map sn_id ?gone)"
    using assms(1) unfolding tombstones_recorded_def
    by (auto 0 3 simp: image_iff; metis)
  moreover have "distinct (map ts_snapshot_id (db_tombstones d))" "distinct (map sn_id ?gone)"
    using assms by (simp_all add: tombstones_recorded_def distinct_map_filter)
  ultimately show ?thesis by (metis distinct_card length_map)
qed

lemma contexts_live:
  assumes "contexts_latest (live_of d) (db_latest_contexts d)"
  shows "filter (\<lambda>r. lx_snapshot_id r \<in> live_ids d) (db_latest_contexts d) = db_latest_contexts d"
    "length (db_latest_contexts d) = card {i. live_of d i \<noteq> {}}"
proof -
  have live: "\<exists>s \<in> live_of d (lx_session_id r). sn_id s = lx_snapshot_id r" if "r \<in> set (db_latest_contexts d)" for r
  proof -
    have "context_key r \<in> completion_key ` live_of d (lx_session_id r)" using assms that by (simp add: contexts_latest_def)
    then show ?thesis by (auto simp: context_key_def completion_key_def)
  qed
  have "lx_snapshot_id r \<in> live_ids d" if "r \<in> set (db_latest_contexts d)" for r
    using live [OF that] by (auto simp: live_of_def live_ids_def intro: sym)
  then show "filter (\<lambda>r. lx_snapshot_id r \<in> live_ids d) (db_latest_contexts d) = db_latest_contexts d"
    by (simp add: filter_id_conv)
  have "set (map lx_session_id (db_latest_contexts d)) = {i. live_of d i \<noteq> {}}"
    using assms live by (fastforce simp: contexts_latest_def)
  then show "length (db_latest_contexts d) = card {i. live_of d i \<noteq> {}}"
    using assms distinct_card [of "map lx_session_id (db_latest_contexts d)"] by (simp add: contexts_latest_def)
qed

lemma snapshots_captured:
  assumes "snapshots_recorded x d"
  shows "length (filter (\<lambda>s. sn_deleted_at s = None) (db_snapshots d))
    \<le> length (filter (\<lambda>c. cp_snapshot_id c \<in> live_ids d) (db_captures d))"
proof -
  let ?live = "filter (\<lambda>s. sn_deleted_at s = None) (db_snapshots d)"
  let ?caps = "filter (\<lambda>c. cp_snapshot_id c \<in> live_ids d) (db_captures d)"
  have "set (map sn_id ?live) \<subseteq> set (map cp_snapshot_id ?caps)"
  proof
    fix i assume "i \<in> set (map sn_id ?live)"
    then obtain s where s: "s \<in> set (db_snapshots d)" "sn_deleted_at s = None" "sn_id s = i" by auto
    then obtain c where "c \<in> set (db_captures d)" "cp_snapshot_id c = i" using assms by (auto simp: snapshots_recorded_def)
    moreover have "i \<in> live_ids d" using s by (auto simp: live_ids_def)
    ultimately show "i \<in> set (map cp_snapshot_id ?caps)" by auto
  qed
  then have "card (set (map sn_id ?live)) \<le> length (map cp_snapshot_id ?caps)"
    by (meson List.finite_set card_length card_mono le_trans)
  moreover have "distinct (map sn_id ?live)" using assms by (simp add: snapshots_recorded_def distinct_map_filter)
  ultimately show ?thesis using distinct_card by fastforce
qed

text \<open>The recorded contents of the live snapshots: their sizes are not negative, and their artifacts are
  the artifacts of the archive.\<close>

lemma live_contents:
  assumes "contents_inv x d" "r \<in> set (live_rows d)"
  shows "0 \<le> sn_total_stored_size_bytes r" "0 \<le> sn_total_original_size_bytes r"
    "sn_artifact_count r = int (length (rows_of_snapshot d (sn_id r)))"
proof -
  have "snapshot_contents x (db_manifests d) (db_blobs d) (rows_of_snapshot d (sn_id r)) r"
    using contents_invD(3) [OF assms(1)] assms(2) by (simp add: live_rows_def)
  then show "0 \<le> sn_total_stored_size_bytes r" "0 \<le> sn_total_original_size_bytes r"
    "sn_artifact_count r = int (length (rows_of_snapshot d (sn_id r)))"
    by (auto simp: snapshot_contents_def dest: list_all2_lengthD)
qed

lemma live_artifacts:
  assumes "contents_inv x d" "distinct (map sn_id (db_snapshots d))"
  shows "int (length (filter (\<lambda>a. ar_snapshot_id a \<in> live_ids d) (db_artifacts d))) = sum_list (map sn_artifact_count (live_rows d))"
proof -
  let ?arts = "filter (\<lambda>a. ar_snapshot_id a \<in> live_ids d) (db_artifacts d)"
  have ids: "distinct (map sn_id (live_rows d))" using assms(2) by (simp add: live_rows_def distinct_map_filter)
  have "filter (\<lambda>a. ar_snapshot_id a = i) ?arts = rows_of_snapshot d i" if "i \<in> live_ids d" for i
    using that by (auto simp: rows_of_snapshot_def intro: filter_cong)
  then have "map (\<lambda>i. length (filter (\<lambda>a. ar_snapshot_id a = i) ?arts)) (map sn_id (live_rows d)) =
      map (\<lambda>r. length (rows_of_snapshot d (sn_id r))) (live_rows d)"
    by (auto simp: live_ids_rows)
  moreover have "sum_list (map (\<lambda>i. length (filter (\<lambda>a. ar_snapshot_id a = i) ?arts)) (map sn_id (live_rows d))) = length ?arts"
    by (rule sum_of_classes [OF ids]) (auto simp: live_ids_rows)
  ultimately have "length ?arts = sum_list (map (\<lambda>r. length (rows_of_snapshot d (sn_id r))) (live_rows d))" by metis
  then have "int (length ?arts) = sum_list (map (\<lambda>r. int (length (rows_of_snapshot d (sn_id r)))) (live_rows d))"
    by (simp only: int_sum_list)
  also have "\<dots> = sum_list (map sn_artifact_count (live_rows d))"
    using live_contents(3) [OF assms(1)] by (auto intro: arg_cong [of _ _ sum_list])
  finally show ?thesis .
qed

lemma sessions_have_snapshots: "card {i. live_of d i \<noteq> {}} \<le> length (filter (\<lambda>s. sn_deleted_at s = None) (db_snapshots d))"
proof -
  have "{i. live_of d i \<noteq> {}} = sn_session_id ` set (filter (\<lambda>s. sn_deleted_at s = None) (db_snapshots d))"
    by (auto simp: live_of_def)
  then show ?thesis by (metis (no_types, lifting) List.finite_set card_image_le card_length le_trans)
qed

lemma newest_capture:
  "case newest_capture_at rows of None \<Rightarrow> rows = []
   | Some at \<Rightarrow> \<exists>c \<in> set rows. cp_server_completed_at c = at
       \<and> (\<forall>c' \<in> set rows. cp_server_completed_at_seq c' \<le> cp_server_completed_at_seq c)"
proof (cases "last_by (\<lambda>c. (cp_server_completed_at_seq c, cp_id c)) rows")
  case (Some c)
  from last_by_SomeD [OF this] have "c \<in> set rows" "\<forall>c' \<in> set rows. cp_server_completed_at_seq c' \<le> cp_server_completed_at_seq c"
    by fastforce+
  then show ?thesis by (auto simp: newest_capture_at_def Some)
next
  case None
  then have "rows = []" by simp
  then show ?thesis by (simp add: newest_capture_at_def last_by_def)
qed

text \<open>C38: The inventory adds up. In every archive the server can reach, both documents are answered as
  long as no sum of bytes exceeds \<open>i64\<close>, and they agree: live snapshots and tombstones are all the snapshots
  there ever were, the sessions are those with a live snapshot, every live snapshot has a capture, the
  artifacts are those the live snapshots count, and the capture counts of the clients sum up to the
  captures of the archive. There is a time of the last ingest exactly when there is a live capture, and
  then it is that of the newest.\<close>

theorem inventory_adds_up:
  assumes "trusted srv U" "archive_reachable srv U s" "format_time (ext srv) t \<noteq> None"
    and "sum_list (map sn_total_stored_size_bytes (live_rows (db s))) \<le> int i64_max"
    and "sum_list (map sn_total_original_size_bytes (live_rows (db s))) \<le> int i64_max"
    and "sum_list (map bl_stored_size_bytes (db_blobs (db s))) \<le> int i64_max"
  shows "\<exists>st page. get_stats srv t (db s) = Inr st \<and> list_clients (db s) = Inr page
    \<and> as_snapshots st + as_tombstones st = length (db_snapshots (db s))
    \<and> as_sessions st = card {i. live_of (db s) i \<noteq> {}}
    \<and> as_sessions st \<le> as_snapshots st \<and> as_snapshots st \<le> as_captures st
    \<and> as_captures st = sum_list (map ci_capture_count (pr_items page))
    \<and> int (as_artifacts st) = sum_list (map sn_artifact_count (live_rows (db s)))
    \<and> int (as_stored_bytes st) = sum_list (map sn_total_stored_size_bytes (live_rows (db s)))
    \<and> (case as_last_ingest_at st of None \<Rightarrow> as_captures st = 0
       | Some at \<Rightarrow> \<exists>c \<in> set (db_captures (db s)). cp_snapshot_id c \<in> live_ids (db s) \<and> cp_server_completed_at c = at
          \<and> (\<forall>c' \<in> set (db_captures (db s)). cp_snapshot_id c' \<in> live_ids (db s) \<longrightarrow>
              cp_server_completed_at_seq c' \<le> cp_server_completed_at_seq c))"
proof -
  let ?d = "db s"
  note inv = reachable_sound(3) [OF assms(1,2), unfolded history_inv_def]
  have unique: "distinct (map sn_id (db_snapshots ?d))" using inv by (simp add: snapshots_recorded_def)
  have clients: "distinct (map cl_id (db_clients ?d))" "cp_client_id ` set (db_captures ?d) \<subseteq> cl_id ` set (db_clients ?d)"
    and sizes: "\<forall>b \<in> set (db_blobs ?d). 0 \<le> bl_stored_size_bytes b"
    using clients.always [OF assms(2)] by (simp_all add: clients_ok_def)
  note joined = live_joined_eq [OF unique]
  have contents: "contents_inv (ext srv) ?d" by (rule reachable_contents [OF assms(1,2)])
  let ?live = "filter (\<lambda>s. sn_deleted_at s = None) (db_snapshots ?d)"
  let ?caps = "filter (\<lambda>c. cp_snapshot_id c \<in> live_ids ?d) (db_captures ?d)"
  have sums: "sql_sum 0 (map sn_total_stored_size_bytes ?live) = Inr (sum_list (map sn_total_stored_size_bytes ?live))"
    "sql_sum 0 (map sn_total_original_size_bytes ?live) = Inr (sum_list (map sn_total_original_size_bytes ?live))"
    "sql_sum 0 (map bl_stored_size_bytes (db_blobs ?d)) = Inr (sum_list (map bl_stored_size_bytes (db_blobs ?d)))"
    using assms(4-6) sizes live_contents [OF contents] by (auto simp: sql_sum_ok list_all_iff live_rows_def)
  have nonneg: "0 \<le> sum_list (map sn_total_stored_size_bytes ?live)" "0 \<le> sum_list (map sn_total_original_size_bytes ?live)"
    "0 \<le> sum_list (map bl_stored_size_bytes (db_blobs ?d))"
    using sizes live_contents [OF contents] by (auto intro!: sum_list_nonneg simp: live_rows_def)
  obtain now_text where now: "format_time (ext srv) t = Some now_text" using assms(3) by auto
  obtain st where st: "get_stats srv t ?d = Inr st" "as_snapshots st = length ?live" "as_tombstones st = length (db_tombstones ?d)"
    "as_sessions st = length (db_latest_contexts ?d)" "as_captures st = length ?caps"
    "as_last_ingest_at st = newest_capture_at ?caps"
    "as_artifacts st = length (filter (\<lambda>a. ar_snapshot_id a \<in> live_ids ?d) (db_artifacts ?d))"
    "as_stored_bytes st = nat (sum_list (map sn_total_stored_size_bytes ?live))"
    using inv by (auto simp: get_stats_def Let_def now sums counter_ok nonneg joined contexts_live(1))
  obtain page where page: "list_clients ?d = Inr page" by (simp add: list_clients_def client_entries)
  have "length ?live + length (db_tombstones ?d) = length (db_snapshots ?d)"
    using tombstones_count [OF _ unique] inv sum_length_filter_compl [of "\<lambda>s. sn_deleted_at s = None" "db_snapshots ?d"] by simp
  moreover have "length ?caps = sum_list (map ci_capture_count (pr_items page))"
    using captures_by_client [OF clients page] by (simp add: joined)
  moreover note newest_capture [of ?caps]
  ultimately show ?thesis
    using st page contexts_live(2) [of ?d] inv snapshots_captured [of "ext srv" ?d] sessions_have_snapshots [of ?d] nonneg(1)
      live_artifacts [OF contents unique]
    by (intro exI [of _ st] exI [of _ page]) (auto simp: live_rows_def split: option.splits)
qed

definition inventory_facts :: "database \<Rightarrow> bool" where
  "inventory_facts d =
     (sum_list (map sn_total_stored_size_bytes (live_rows d)) \<le> int i64_max
      \<and> sum_list (map sn_total_original_size_bytes (live_rows d)) \<le> int i64_max
      \<and> sum_list (map bl_stored_size_bytes (db_blobs d)) \<le> int i64_max \<and> length (db_snapshots d) = 1)"

lemma flow_inventory: "inventory_facts (db flow_deleted)"
  by code_simp

theorem inventory_adds_up_witness:
  "\<exists>st page. get_stats flow_server (sample_time 1767312000) (db flow_deleted) = Inr st
     \<and> list_clients (db flow_deleted) = Inr page
     \<and> as_snapshots st + as_tombstones st = 1 \<and> as_captures st = sum_list (map ci_capture_count (pr_items page))"
proof -
  have now: "format_time (ext flow_server) (sample_time 1767312000) \<noteq> None" by code_simp
  from inventory_adds_up [OF flow_trusted flow_reachable(3) now] flow_inventory
  show ?thesis by (auto simp: inventory_facts_def)
qed

end
