(* ===== verification/Service.thy ===== *)
theory Service
  imports Lifecycle Configuration Maintenance Integrity
begin

text \<open>
  The service of \<open>service.rs\<close> and \<open>health.rs\<close>: how an archive is opened, the maintenance entry points,
  and the table of routes with the gate in front of it. Opening the pool, running the migrations and
  the HTTP stack are third-party code; whether they fail is a parameter.
\<close>

section \<open>Opening an archive\<close>

datatype bootstrap_error =
    Bootstrap_Configuration config_error | Bootstrap_Storage | Bootstrap_Database | Bootstrap_Migration
  | Bootstrap_Identity | Bootstrap_Clock | Bootstrap_Recovery | Bootstrap_Bind | Bootstrap_Serve

text \<open>What is kept under the data directory: the tables and files, the identity row and the lease row.\<close>

record installation =
  in_disk :: disk
  in_identity :: "archive_identity option"
  in_lease :: lease
  in_schema_version :: nat

datatype startup_point = Open_Layout | Open_Database | Run_Migrations | Begin_Identity | Insert_Identity | Read_Lease | Bind_Listener | Serve_Listener

record startup_env =
  su_fails :: "startup_point \<Rightarrow> bool"
  su_file_permit :: "gate_error option"
  su_migrate :: "nat \<Rightarrow> disk \<Rightarrow> nat \<times> disk"
  su_fresh_id :: string
  su_now :: offset_date_time
  su_now_unix :: int
  su_recovery :: recovery_env
  su_expiry :: env

type_synonym 'a startup = "(installation, bootstrap_error, 'a) fallible_op"

definition require :: "bool \<Rightarrow> bootstrap_error \<Rightarrow> unit startup" where
  "require ok err = pure_op (reject_if (\<not> ok) err)"

definition load_identity :: "externals \<Rightarrow> startup_env \<Rightarrow> archive_identity startup" where
  "load_identity x e =
     bind_op (require (\<not> su_fails e Begin_Identity) Bootstrap_Identity) (\<lambda>_.
     try_op (ok_or Bootstrap_Clock (format_time x (su_now e))) (\<lambda>created_at.
     bind_op (require (\<not> su_fails e Insert_Identity) Bootstrap_Identity) (\<lambda>_.
     (\<lambda>i. case initialize_identity (su_fresh_id e) created_at (in_identity i) of
        (identity, row) \<Rightarrow> (Inr identity, i\<lparr>in_identity := row\<rparr>)))))"

text \<open>The migrations are SQL files (\<open>migrations/\<close>) that the library runs, each in a transaction of its
  own, from the version the database is at. What they make of the rows of an older version is the
  parameter \<open>su_migrate\<close>, with the version it gets to. A database of the current version is left as
  it is, one of a newer version is refused.\<close>

definition SCHEMA_VERSION :: nat where "SCHEMA_VERSION = 11"

definition run_migrations :: "startup_env \<Rightarrow> unit startup" where
  "run_migrations e = (\<lambda>i.
     if su_fails e Run_Migrations \<or> in_schema_version i > SCHEMA_VERSION then (Inl Bootstrap_Migration, i)
     else if in_schema_version i = SCHEMA_VERSION then (Inr (), i)
     else (case su_migrate e (in_schema_version i) (in_disk i) of (reached, d) \<Rightarrow>
       (if reached = SCHEMA_VERSION then Inr () else Inl Bootstrap_Migration,
        i\<lparr>in_disk := d, in_schema_version := reached\<rparr>)))"

definition connect :: "externals \<Rightarrow> startup_env \<Rightarrow> archive_identity startup" where
  "connect x e =
     bind_op (require (\<not> su_fails e Open_Database) Bootstrap_Database) (\<lambda>_.
     bind_op (run_migrations e) (\<lambda>_.
     load_identity x e))"

definition ensure_not_active :: "startup_env \<Rightarrow> unit startup" where
  "ensure_not_active e =
     bind_op (require (\<not> su_fails e Read_Lease) Bootstrap_Recovery) (\<lambda>_.
     (\<lambda>i. case maintenance_is_active (su_now_unix e) (in_lease i) of
        (active, row) \<Rightarrow> (reject_if active Bootstrap_Recovery, i\<lparr>in_lease := row\<rparr>)))"

definition recover_archive :: "server \<Rightarrow> startup_env \<Rightarrow> unit startup" where
  "recover_archive srv e =
     bind_op (\<lambda>i. case recover_uploads srv (su_recovery e) (in_disk i) of
        (Inl _, d) \<Rightarrow> (Inl Bootstrap_Recovery, i\<lparr>in_disk := d\<rparr>) | (Inr _, d) \<Rightarrow> (Inr (), i\<lparr>in_disk := d\<rparr>)) (\<lambda>_.
     (\<lambda>i. case expire_uploads_at srv (su_expiry e) (now (su_expiry e)) (dk_archive (in_disk i)) of
        (r, a) \<Rightarrow> (case r of Inl _ \<Rightarrow> Inl Bootstrap_Recovery | Inr _ \<Rightarrow> Inr (),
                    i\<lparr>in_disk := (in_disk i)\<lparr>dk_archive := a\<rparr>\<rparr>)))"

definition bootstrap_with_recovery :: "config \<Rightarrow> externals \<Rightarrow> startup_env \<Rightarrow> bool \<Rightarrow> server startup" where
  "bootstrap_with_recovery c x e recover =
     try_op (map_error Bootstrap_Configuration (validate c)) (\<lambda>_.
     bind_op (require (su_file_permit e = None) Bootstrap_Recovery) (\<lambda>_.
     bind_op (require (\<not> su_fails e Open_Layout) Bootstrap_Storage) (\<lambda>_.
     bind_op (connect x e) (\<lambda>identity.
     bind_op (ensure_not_active e) (\<lambda>_.
     let srv = app_state c x identity in
     bind_op (if recover then recover_archive srv e else pure_op (Inr ())) (\<lambda>_.
     pure_op (Inr srv)))))))"

definition bootstrap :: "config \<Rightarrow> externals \<Rightarrow> startup_env \<Rightarrow> server startup" where
  "bootstrap c x e = bootstrap_with_recovery c x e True"

definition bootstrap_for_scan :: "config \<Rightarrow> externals \<Rightarrow> startup_env \<Rightarrow> server startup" where
  "bootstrap_for_scan c x e = bootstrap_with_recovery c x e False"

text \<open>\<open>serve\<close> binds and serves after the bootstrap; it returns when it is asked to stop.\<close>

definition serve :: "config \<Rightarrow> externals \<Rightarrow> startup_env \<Rightarrow> unit startup" where
  "serve c x e =
     bind_op (bootstrap c x e) (\<lambda>_.
     bind_op (require (\<not> su_fails e Bind_Listener) Bootstrap_Bind) (\<lambda>_.
     require (\<not> su_fails e Serve_Listener) Bootstrap_Serve))"

section \<open>Maintenance under a shared permit\<close>

definition with_permit :: "gate_error option \<Rightarrow> 'e \<Rightarrow> ('s, 'e, 'a) fallible_op \<Rightarrow> ('s, 'e, 'a) fallible_op" where
  "with_permit denied err m = (case denied of None \<Rightarrow> m | Some _ \<Rightarrow> pure_op (Inl err))"

definition service_expire_uploads ::
  "server \<Rightarrow> env \<Rightarrow> gate_error option \<Rightarrow> (archive, maintenance_error, nat) fallible_op" where
  "service_expire_uploads srv e denied = with_permit denied Maintenance_Operation (expire_uploads_at srv e (now e))"

definition service_collect_garbage ::
  "env \<Rightarrow> gate_error option \<Rightarrow> (archive, maintenance_error, blob_gc_response) fallible_op" where
  "service_collect_garbage e denied = with_permit denied Maintenance_Operation (collect_orphaned_blobs_at e (now e))"

definition service_verify_integrity ::
  "server \<Rightarrow> scan_env \<Rightarrow> gate_error option \<Rightarrow> (integrity_tables, scan_stop, integrity_report) fallible_op" where
  "service_verify_integrity srv e denied = with_permit denied (Scan_Failed Scan_Maintenance) (scan_archive srv e)"

text \<open>The remaining entry points take no permit.\<close>

definition service_reconcile_snapshot :: "server \<Rightarrow> string \<Rightarrow> database \<Rightarrow> reconciliation_error + unit" where
  "service_reconcile_snapshot srv snapshot_id d = reconcile_snapshot (ext srv) snapshot_id d"

definition service_latest_health :: "server \<Rightarrow> integrity_tables \<Rightarrow> integrity_scan_error + integrity_run_summary option" where
  "service_latest_health srv saved = latest_health srv saved"

section \<open>Routes\<close>

datatype http_method = GET | HEAD | POST | PUT | DELETE | Other_Method

datatype segment = Literal string | Param

datatype endpoint =
    Liveness | Readiness
  | Register_Client_Route | Create_Upload_Route | Get_Upload_Status_Route | Put_Artifact_Chunk_Route
  | Abandon_Upload_Route | Complete_Upload_Route | Get_Capture_By_Upload_Route | Get_Stats_Route | List_Clients_Route
  | List_Sessions_Route | Get_Session_Route | List_Session_Captures_Route | List_Session_Snapshots_Route
  | List_Captures_Route | Get_Capture_Route | List_Snapshots_Route | Get_Snapshot_Route | Get_Snapshot_Captures_Route
  | Get_Snapshot_Manifest_Route | List_Manifests_Route | Get_Manifest_Route | List_Artifacts_Route
  | Get_Artifact_Metadata_Route | Download_Artifact_Route | Delete_Snapshot_Route | List_Tombstones_Route
  | Get_Tombstone_Route | Run_Blob_Gc_Route

type_synonym route = "segment list \<times> (http_method \<times> endpoint) list"

definition api_routes :: "route list" where
  "api_routes =
     [([Literal ''clients'', Param], [(PUT, Register_Client_Route)]),
      ([Literal ''uploads''], [(POST, Create_Upload_Route)]),
      ([Literal ''uploads'', Param], [(GET, Get_Upload_Status_Route)]),
      ([Literal ''uploads'', Param, Literal ''artifacts'', Param, Literal ''chunks'', Param],
        [(PUT, Put_Artifact_Chunk_Route)]),
      ([Literal ''uploads'', Param, Literal ''abandon''], [(POST, Abandon_Upload_Route)]),
      ([Literal ''uploads'', Param, Literal ''complete''], [(POST, Complete_Upload_Route)]),
      ([Literal ''uploads'', Param, Literal ''capture''], [(GET, Get_Capture_By_Upload_Route)]),
      ([Literal ''stats''], [(GET, Get_Stats_Route)]),
      ([Literal ''clients''], [(GET, List_Clients_Route)]),
      ([Literal ''sessions''], [(GET, List_Sessions_Route)]),
      ([Literal ''sessions'', Param], [(GET, Get_Session_Route)]),
      ([Literal ''sessions'', Param, Literal ''captures''], [(GET, List_Session_Captures_Route)]),
      ([Literal ''sessions'', Param, Literal ''snapshots''], [(GET, List_Session_Snapshots_Route)]),
      ([Literal ''captures''], [(GET, List_Captures_Route)]),
      ([Literal ''captures'', Param], [(GET, Get_Capture_Route)]),
      ([Literal ''snapshots''], [(GET, List_Snapshots_Route)]),
      ([Literal ''snapshots'', Param], [(GET, Get_Snapshot_Route)]),
      ([Literal ''snapshots'', Param, Literal ''captures''], [(GET, Get_Snapshot_Captures_Route)]),
      ([Literal ''snapshots'', Param, Literal ''manifest''], [(GET, Get_Snapshot_Manifest_Route)]),
      ([Literal ''manifests''], [(GET, List_Manifests_Route)]),
      ([Literal ''manifests'', Param], [(GET, Get_Manifest_Route)]),
      ([Literal ''artifacts''], [(GET, List_Artifacts_Route)]),
      ([Literal ''artifacts'', Param], [(GET, Get_Artifact_Metadata_Route)]),
      ([Literal ''artifacts'', Param, Literal ''content''], [(GET, Download_Artifact_Route)]),
      ([Literal ''admin'', Literal ''snapshots'', Param], [(DELETE, Delete_Snapshot_Route)]),
      ([Literal ''admin'', Literal ''tombstones''], [(GET, List_Tombstones_Route)]),
      ([Literal ''admin'', Literal ''tombstones'', Param], [(GET, Get_Tombstone_Route)]),
      ([Literal ''admin'', Literal ''blob-gc''], [(POST, Run_Blob_Gc_Route)])]"

definition health_routes :: "route list" where
  "health_routes = [([Literal ''healthz''], [(GET, Liveness)]), ([Literal ''readyz''], [(GET, Readiness)])]"

text \<open>A parameter matches a segment that is not empty; a GET route answers HEAD as well.\<close>

fun segment_matches :: "segment \<Rightarrow> string \<Rightarrow> bool" where
  "segment_matches (Literal l) s = (s = l)"
| "segment_matches Param s = (s \<noteq> [])"

definition path_matches :: "segment list \<Rightarrow> string list \<Rightarrow> bool" where
  "path_matches = list_all2 segment_matches"

definition route_method :: "http_method \<Rightarrow> http_method" where
  "route_method m = (if m = HEAD then GET else m)"

datatype routing = Handler endpoint | Method_Not_Allowed | No_Route

definition route_in :: "route list \<Rightarrow> http_method \<Rightarrow> string list \<Rightarrow> routing" where
  "route_in routes m path =
     (case find (\<lambda>(pattern, _). path_matches pattern path) routes of
        None \<Rightarrow> No_Route
      | Some (_, handlers) \<Rightarrow> (case map_of handlers (route_method m) of
            Some endpoint \<Rightarrow> Handler endpoint | None \<Rightarrow> Method_Not_Allowed))"

text \<open>What becomes of a request: the gate is asked for everything below \<open>/api/v1\<close>, unknown paths and
  wrong methods included, and for nothing else; the time limit is inside the gate.\<close>

datatype outcome = Runs endpoint | Answers api_error | Bare_Status nat

definition api_not_found :: api_error where
  "api_not_found = not_found ''endpoint_not_found'' ''API endpoint was not found''"

definition handle_timeout :: "bool \<Rightarrow> api_error" where
  "handle_timeout elapsed =
     (if elapsed then ApiError 408 ''request_timeout'' ''request exceeded the configured time limit'' else internal)"

definition answer_request :: "gate_error option \<Rightarrow> http_method \<Rightarrow> string list \<Rightarrow> outcome" where
  "answer_request denied m path =
     (case path of
        api # v1 # rest \<Rightarrow>
          if api = ''api'' \<and> v1 = ''v1''
          then (case denied of
              Some err \<Rightarrow> Answers (gate_response err)
            | None \<Rightarrow> (case route_in api_routes m rest of
                  Handler endpoint \<Rightarrow> Runs endpoint
                | Method_Not_Allowed \<Rightarrow> Bare_Status 405
                | No_Route \<Rightarrow> Answers api_not_found))
          else Bare_Status 404
      | _ \<Rightarrow> (case route_in health_routes m path of
            Handler endpoint \<Rightarrow> Runs endpoint
          | Method_Not_Allowed \<Rightarrow> Bare_Status 405
          | No_Route \<Rightarrow> Bare_Status 404))"

section \<open>Health\<close>

record health_response =
  hr_status :: string

definition liveness :: health_response where
  "liveness = \<lparr>hr_status = ''live''\<rparr>"

text \<open>A directory is writable when a probe can be written and removed; the first that is not ends the
  check.\<close>

definition directory_is_writable :: "(string \<Rightarrow> bool \<times> bool) \<Rightarrow> string \<Rightarrow> bool" where
  "directory_is_writable probe directory = (case probe directory of (written, removed) \<Rightarrow> written \<and> removed)"

definition STORAGE_DIRECTORIES :: "string list" where
  "STORAGE_DIRECTORIES = [''blobs'', ''uploads'', ''maintenance'']"

definition is_usable :: "(string \<Rightarrow> bool \<times> bool) \<Rightarrow> bool" where
  "is_usable probe = list_all (directory_is_writable probe) STORAGE_DIRECTORIES"

definition readiness :: "bool \<Rightarrow> (string \<Rightarrow> bool \<times> bool) \<Rightarrow> nat \<times> health_response" where
  "readiness database_ready probe =
     (let storage_ready = is_usable probe in
      if database_ready \<and> storage_ready then (200, \<lparr>hr_status = ''ready''\<rparr>) else (503, \<lparr>hr_status = ''not_ready''\<rparr>))"

end
