(* ===== verification/Service_Properties.thy ===== *)
theory Service_Properties
  imports Service Recovery_Properties
begin

text \<open>
  What opening an archive does to it, and what the routes and the gate do to a request.
\<close>

section \<open>Opening an archive\<close>

lemma require_run: "require ok err i = (if ok then Inr () else Inl err, i)"
  by (simp add: require_def pure_op_def reject_if_def)

lemma bind_run: "bind_op m f i = (case m i of (Inl err, j) \<Rightarrow> (Inl err, j) | (Inr v, j) \<Rightarrow> f v j)"
  by (simp add: bind_op_def)

lemma try_run: "try_op r f i = (case r of Inl err \<Rightarrow> (Inl err, i) | Inr v \<Rightarrow> f v i)"
  by (simp add: try_op_def pure_op_def split: sum.splits)

text \<open>Connecting touches the identity row only, and never a row that is there, when the schema is current.\<close>

lemma migrations_outcome:
  assumes "run_migrations e i = (r, j)"
  shows "in_identity j = in_identity i" "in_lease j = in_lease i" "in_schema_version i = SCHEMA_VERSION \<Longrightarrow> j = i"
  using assms by (auto simp: run_migrations_def split: if_splits prod.splits)

lemma load_identity_outcome:
  assumes "load_identity x e i = (r, j)"
  shows "in_disk j = in_disk i" "in_lease j = in_lease i"
    "in_identity i = Some identity \<Longrightarrow> in_identity j = Some identity"
    "r = Inr identity \<Longrightarrow> in_identity j = Some identity"
  using assms
  by (auto simp: load_identity_def bind_run try_run require_run initialize_identity_def Let_def
      split: if_splits sum.splits option.splits)

lemma connect_outcome:
  assumes "connect x e i = (r, j)"
  shows "in_schema_version i = SCHEMA_VERSION \<Longrightarrow> in_disk j = in_disk i" "in_lease j = in_lease i"
    "in_identity i = Some identity \<Longrightarrow> in_identity j = Some identity"
    "r = Inr identity \<Longrightarrow> in_identity j = Some identity"
proof -
  obtain r1 i1 where m: "run_migrations e i = (r1, i1)" by fastforce
  note migrated = migrations_outcome [OF m]
  have cases: "(j = i \<and> \<not> is_ok r) \<or> (j = i1 \<and> \<not> is_ok r) \<or> load_identity x e i1 = (r, j)"
    using assms m by (auto simp: connect_def bind_run require_run is_ok_def split: if_splits sum.splits)
  show "in_disk j = in_disk i" if "in_schema_version i = SCHEMA_VERSION"
    using cases migrated(3) [OF that] load_identity_outcome(1) [of x e i1 r j] by auto
  show "in_lease j = in_lease i" using cases migrated(2) load_identity_outcome(2) [of x e i1 r j] by auto
  show "in_identity j = Some identity" if "in_identity i = Some identity"
    using cases migrated(1) that load_identity_outcome(3) [of x e i1 r j] by auto
  show "in_identity j = Some identity" if "r = Inr identity"
    using cases that load_identity_outcome(4) [of x e i1 r j] by (auto simp: is_ok_def)
qed

lemma ensure_outcome:
  assumes "ensure_not_active e i = (r, j)"
  shows "in_disk j = in_disk i" "in_identity j = in_identity i"
    "in_lease j = in_lease i \<or> in_lease j = no_lease \<and> (\<exists>token. read_lease (su_now_unix e) (in_lease i) = Lease_Stale token)"
    "is_ok r \<Longrightarrow> read_lease (su_now_unix e) (in_lease i) \<noteq> Lease_Active"
  using assms
  by (auto simp: ensure_not_active_def bind_run require_run maintenance_is_active_def numeral_2_eq_2 clear_stale_lease_def
      reject_if_def is_ok_def split: if_splits prod.splits lease_reading.splits)

lemma recover_outcome:
  assumes "recover_archive srv e i = (r, j)"
  shows "in_identity j = in_identity i" "in_lease j = in_lease i"
    "r = Inr () \<Longrightarrow> \<exists>d n a. recover_uploads srv (su_recovery e) (in_disk i) = (Inr (), d)
      \<and> expire_uploads_at srv (su_expiry e) (now (su_expiry e)) (dk_archive d) = (Inr n, a)
      \<and> in_disk j = d\<lparr>dk_archive := a\<rparr>"
proof -
  obtain r1 d where recovered: "recover_uploads srv (su_recovery e) (in_disk i) = (r1, d)" by fastforce
  obtain r2 a where expired: "expire_uploads_at srv (su_expiry e) (now (su_expiry e)) (dk_archive d) = (r2, a)" by fastforce
  have run: "(r, j) = (case r1 of Inl _ \<Rightarrow> (Inl Bootstrap_Recovery, i\<lparr>in_disk := d\<rparr>)
      | Inr _ \<Rightarrow> (case r2 of Inl _ \<Rightarrow> Inl Bootstrap_Recovery | Inr _ \<Rightarrow> Inr (), i\<lparr>in_disk := d\<lparr>dk_archive := a\<rparr>\<rparr>))"
    using assms by (cases r1) (simp_all add: recover_archive_def bind_run recovered expired)
  show "in_identity j = in_identity i" "in_lease j = in_lease i" using run by (cases r1; simp)+
  show "\<exists>d n a. recover_uploads srv (su_recovery e) (in_disk i) = (Inr (), d)
      \<and> expire_uploads_at srv (su_expiry e) (now (su_expiry e)) (dk_archive d) = (Inr n, a)
      \<and> in_disk j = d\<lparr>dk_archive := a\<rparr>" if "r = Inr ()"
    using run recovered expired that by (cases r1; cases r2) auto
qed

text \<open>The run of a bootstrap, after the checks that touch nothing.\<close>

lemma bootstrap_cases:
  assumes "bootstrap_with_recovery c x e recover i = (r, j)"
  obtains "\<not> is_ok r" "j = i"
  | r1 where "connect x e i = (r1, j)" "\<not> is_ok r"
  | identity i1 r2 where "connect x e i = (Inr identity, i1)" "ensure_not_active e i1 = (r2, j)" "\<not> is_ok r"
  | identity i1 i2 r3 where "validate c = Inr ()" "su_file_permit e = None"
      "connect x e i = (Inr identity, i1)" "ensure_not_active e i1 = (Inr (), i2)"
      "(if recover then recover_archive (app_state c x identity) e else pure_op (Inr ())) i2 = (r3, j)"
      "r = (case r3 of Inl err \<Rightarrow> Inl err | Inr _ \<Rightarrow> Inr (app_state c x identity))"
proof -
  obtain r1 i1 where c1: "connect x e i = (r1, i1)" by fastforce
  obtain r2 i2 where c2: "ensure_not_active e i1 = (r2, i2)" by fastforce
  note run = assms [unfolded bootstrap_with_recovery_def try_run bind_run require_run, unfolded c1 Let_def, simplified]
  show thesis
  proof (cases "\<not> is_ok r \<and> j = i")
    case False
    then have ok: "validate c = Inr ()" "su_file_permit e = None" "\<not> su_fails e Open_Layout"
      using run by (auto simp: map_error_def split: sum.splits if_splits)
    show thesis
    proof (cases r1)
      case (Inl err)
      then show thesis using run c1 ok that(2) by (auto simp: map_error_def)
    next
      case (Inr identity)
      show thesis
      proof (cases r2)
        case (Inl err)
        then show thesis using run c1 c2 ok \<open>r1 = Inr identity\<close> that(3) by (auto simp: map_error_def)
      next
        case (Inr u)
        obtain r3 i3 where c3: "(if recover then recover_archive (app_state c x identity) e else pure_op (Inr ())) i2 = (r3, i3)"
          by fastforce
        have "j = i3" "r = (case r3 of Inl err \<Rightarrow> Inl err | Inr _ \<Rightarrow> Inr (app_state c x identity))"
          using run c1 c2 ok \<open>r1 = Inr identity\<close> Inr c3
          by (auto simp: map_error_def pure_op_def split: sum.splits)
        then show thesis using that(4) [OF ok(1,2)] c1 c2 c3 \<open>r1 = Inr identity\<close> Inr by simp
      qed
    qed
  qed (use that(1) in simp)
qed

text \<open>C39: What opening an archive leaves. Whether the start succeeds or not: an identity, once written, is
  never changed, and the lease row is as it was unless it was the stale lease of a dead backup, which may
  be cleared. When the schema is current, a start for a scan leaves every table and file of the
  archive as it was beside those two rows (the identity of a fresh installation and the lease), so that a
  scan sees the evidence that recovery would remove, and so does every start while another process holds
  the lease. A start succeeds only with a valid configuration, when no
  exclusive lock and no live lease is there, and it serves under the stored identity. When a normal start
  succeeds on a current schema, and the archive was left in a state that stopping the service can lead to,
  with the upload rows of this version and contents on which SHA-256 is collision free,
  then the archive it serves is one the service can reach.\<close>

theorem bootstrap_opens_archive:
  assumes "bootstrap_with_recovery c x e recover i = (r, j)"
  shows "(\<forall>identity. in_identity i = Some identity \<longrightarrow> in_identity j = Some identity)
    \<and> (in_lease j = in_lease i
        \<or> in_lease j = no_lease \<and> (\<exists>token. read_lease (su_now_unix e) (in_lease i) = Lease_Stale token))
    \<and> (in_schema_version i = SCHEMA_VERSION \<and> (\<not> recover \<or> read_lease (su_now_unix e) (in_lease i) = Lease_Active)
        \<longrightarrow> in_disk j = in_disk i)
    \<and> (\<forall>srv. r = Inr srv \<longrightarrow> validate c = Inr () \<and> su_file_permit e = None
          \<and> read_lease (su_now_unix e) (in_lease i) \<noteq> Lease_Active
          \<and> (\<exists>identity. in_identity j = Some identity \<and> srv = app_state c x identity))
    \<and> (\<forall>srv U. r = Inr srv \<and> recover \<and> in_schema_version i = SCHEMA_VERSION
          \<and> service_reachable srv U (Down (in_disk i)) \<and> current_uploads (tables (in_disk i))
          \<and> (\<forall>a. assembled_in U srv (su_expiry e) a) \<longrightarrow> service_reachable srv U (Serving (in_disk j)))"
  using assms
proof (cases rule: bootstrap_cases)
  case (2 r1)
  then show ?thesis using connect_outcome [OF 2(1)] by (auto simp: is_ok_def)
next
  case (3 identity i1 r2)
  note kept = connect_outcome [OF 3(1)] ensure_outcome [OF 3(2)]
  have "r \<noteq> Inr srv" for srv using 3(3) by (auto simp: is_ok_def)
  then show ?thesis using kept by auto
next
  case (4 identity i1 i2 r3)
  note kept = connect_outcome [OF 4(3)] ensure_outcome [OF 4(4)]
  have inactive: "read_lease (su_now_unix e) (in_lease i) \<noteq> Lease_Active" using kept(2,8) by (auto simp: is_ok_def)
  show ?thesis
  proof (cases recover)
    case False
    then have "j = i2" "r = Inr (app_state c x identity)" using 4 by (auto simp: pure_op_def)
    with kept 4(1,2) False inactive show ?thesis by auto
  next
    case True
    with 4(5) have run: "recover_archive (app_state c x identity) e i2 = (r3, j)" by simp
    note recovered = recover_outcome [OF run]
    have serves: "service_reachable srv U (Serving (in_disk j))"
      if r: "r = Inr srv" and down: "service_reachable srv U (Down (in_disk i))" "current_uploads (tables (in_disk i))"
        and current: "in_schema_version i = SCHEMA_VERSION"
        and trusted: "\<forall>a. assembled_in U srv (su_expiry e) a" for srv U
    proof -
      have srv: "srv = app_state c x identity" "r3 = Inr ()" using r 4(6) by (cases r3; simp)+
      from recovered(3) [OF srv(2)] obtain d n a where steps:
        "recover_uploads srv (su_recovery e) (in_disk i) = (Inr (), d)"
        "expire_uploads_at srv (su_expiry e) (now (su_expiry e)) (dk_archive d) = (Inr n, a)"
        "in_disk j = d\<lparr>dk_archive := a\<rparr>"
        using kept current by (auto simp: srv(1))
      have "service_reachable srv U (Serving d)"
        using reachable.next_state [OF down(1) service_step.restart [OF down(2) steps(1)]] .
      moreover have "dk_archive (in_disk j) = run_request srv (su_expiry e) Expire_Uploads (dk_archive d)"
        by (simp add: steps(3) expire_uploads_op_def steps(2))
      with trusted have "service_step srv U (Serving d) (Serving (in_disk j))"
        using service_step.serve [of U srv "su_expiry e" d "in_disk j" Expire_Uploads] by blast
      ultimately show ?thesis by (rule reachable.next_state)
    qed
    moreover have "srv = app_state c x identity" if "r = Inr srv" for srv using that 4(6) by (cases r3) simp_all
    ultimately show ?thesis using kept recovered(1,2) 4(1,2) True inactive by auto
  qed
qed (auto simp: is_ok_def)

text \<open>An installation that was stopped while it received files: it holds an upload directory without a row,
  a blob file without a row and the lease of a backup that died. Opening it clears all three.\<close>

definition stray_disk :: disk where
  "stray_disk = empty_disk\<lparr>dk_archive := empty_archive\<lparr>fs :=
       \<lparr>chunk_files = [((''1-upload'', 0, 0), Regular [5])], blob_files = [(''unknown'', Regular [4])]\<rparr>\<rparr>,
     dk_upload_dirs := [''1-upload'']\<rparr>"

definition stray_installation :: installation where
  "stray_installation =
     \<lparr>in_disk = stray_disk, in_identity = Some (srv_identity flow_server),
      in_lease = \<lparr>exclusive_token = Some ''token'', exclusive_until_unix = Some 1767225600\<rparr>,
      in_schema_version = SCHEMA_VERSION\<rparr>"

definition sample_startup :: startup_env where
  "sample_startup =
     \<lparr>su_fails = (\<lambda>_. False), su_file_permit = None, su_migrate = Pair, su_fresh_id = ''fresh'', su_now = sample_time 1767312000,
      su_now_unix = 1767312000, su_recovery = flow_recovery, su_expiry = day_2\<rparr>"

definition sample_config :: config where
  "sample_config = default_config\<lparr>cf_blob_gc_grace := seconds 86400\<rparr>"

abbreviation opened_server :: server where
  "opened_server \<equiv> app_state sample_config flow_externals (srv_identity flow_server)"

definition opened_summary ::
  "(bootstrap_error + server) \<times> installation \<Rightarrow> bool \<times> archive_identity option \<times> string option \<times> chunk_key list \<times> string list" where
  "opened_summary = (\<lambda>(r, i).
     (is_ok r, in_identity i, exclusive_token (in_lease i), map fst (chunk_files (staged (in_disk i))),
      map fst (blob_files (staged (in_disk i)))))"

lemma stray_opened:
  "opened_summary (bootstrap sample_config flow_externals sample_startup stray_installation)
   = (True, Some (srv_identity flow_server), None, [], [])"
  by code_simp

lemma stray_reachable: "service_reachable srv UNIV (Down stray_disk)"
proof -
  have "damaged UNIV empty_disk stray_disk"
    by (simp add: damaged_def stray_disk_def empty_disk_def empty_archive_def tables_def staged_def files_in_def
        blob_file_def del: disk_simps)
  then show ?thesis by (blast intro: reachable.initial reachable.next_state service_step.stop)
qed

theorem bootstrap_opens_archive_witness:
  "\<exists>i. bootstrap sample_config flow_externals sample_startup stray_installation = (Inr opened_server, i)
    \<and> in_identity i = Some (srv_identity flow_server) \<and> map fst (blob_files (staged (in_disk i))) = []
    \<and> service_reachable opened_server UNIV (Serving (in_disk i))"
proof -
  obtain srv i where run: "bootstrap_with_recovery sample_config flow_externals sample_startup True stray_installation = (Inr srv, i)"
    and out: "in_identity i = Some (srv_identity flow_server)" "map fst (blob_files (staged (in_disk i))) = []"
    using stray_opened
    by (cases "bootstrap sample_config flow_externals sample_startup stray_installation")
      (auto simp: bootstrap_def opened_summary_def is_ok_def split: sum.splits)
  have "current_uploads (tables stray_disk)" by code_simp
  with bootstrap_opens_archive [OF run] stray_reachable [of srv] assembled_in_UNIV out
  have "srv = opened_server" "service_reachable srv UNIV (Serving (in_disk i))"
    by (auto simp: stray_installation_def)
  with run out show ?thesis by (auto simp: bootstrap_def)
qed

section \<open>Routes\<close>

fun segments_meet :: "segment \<Rightarrow> segment \<Rightarrow> bool" where
  "segments_meet (Literal l) (Literal k) = (l = k)"
| "segments_meet _ _ = True"

definition compatible :: "segment list \<Rightarrow> segment list \<Rightarrow> bool" where
  "compatible = list_all2 segments_meet"

lemma segments_meetI: "segment_matches p s \<Longrightarrow> segment_matches q s \<Longrightarrow> segments_meet p q"
  by (cases p; cases q) auto

lemma matches_compatible: "path_matches p path \<Longrightarrow> path_matches q path \<Longrightarrow> compatible p q"
  unfolding path_matches_def compatible_def by (simp add: list_all2_conv_all_nth) (metis segments_meetI)

lemma api_patterns: "list_all (\<lambda>p. list_all (\<lambda>q. compatible p q \<longrightarrow> p = q) (map fst api_routes)) (map fst api_routes)
    \<and> distinct (map fst api_routes)"
  by code_simp

text \<open>No path matches two patterns, so the order of the table does not matter.\<close>

lemma routes_unambiguous:
  assumes "r \<in> set api_routes" "r' \<in> set api_routes" "path_matches (fst r) path" "path_matches (fst r') path"
  shows "r = r'"
proof -
  have "compatible (fst r) (fst r')" using matches_compatible assms(3,4) by blast
  then have "fst r = fst r'" using api_patterns assms(1,2) by (simp add: list_all_iff)
  then show ?thesis using api_patterns assms(1,2) eq_key_imp_eq_value [of api_routes "fst r" "snd r" "snd r'"]
    by (metis prod.collapse)
qed

text \<open>While a backup holds the archive, nothing below \<open>/api/v1\<close> runs, whatever the method and the path, and
  the health endpoints are answered as ever.\<close>

lemma gate_covers_api:
  "answer_request (Some err) m (''api'' # ''v1'' # rest) = Answers (gate_response err)"
  "answer_request denied GET [''healthz''] = Runs Liveness" "answer_request denied GET [''readyz''] = Runs Readiness"
  by (simp_all add: answer_request_def route_in_def health_routes_def path_matches_def route_method_def)

end
