(* ===== verification/Command_Line.thy ===== *)
theory Command_Line
  imports Service Backup
begin

text \<open>
  The command line of \<open>main.rs\<close>: which command an argument vector names, what a command prints on the
  standard output, and its exit code. What the commands call is modelled in \<open>Service\<close>, \<open>Integrity\<close> and
  \<open>Backup\<close>; their results on this machine are a parameter, and so is whether a report serializes.
\<close>

section \<open>Commands\<close>

datatype command =
    Serve | Help | Version | Verify | Backup_Create string | Backup_Verify string | Backup_Restore string string | Unknown

fun parse_command :: "string list \<Rightarrow> command" where
  "parse_command [] = Serve"
| "parse_command [command] =
     (if command = ''serve'' then Serve
      else if command = ''--help'' \<or> command = ''-h'' \<or> command = ''help'' then Help
      else if command = ''--version'' then Version
      else if command = ''verify'' then Verify
      else Unknown)"
| "parse_command [backup, command, directory] =
     (if backup = ''backup'' \<and> command = ''verify'' then Backup_Verify directory else Unknown)"
| "parse_command [backup, command, flag, out] =
     (if backup = ''backup'' \<and> command = ''create'' \<and> flag = ''--output'' then Backup_Create out else Unknown)"
| "parse_command [backup, command, directory, flag, data_dir] =
     (if backup = ''backup'' \<and> command = ''restore'' \<and> flag = ''--data-dir'' then Backup_Restore directory data_dir
      else Unknown)"
| "parse_command _ = Unknown"

datatype document =
    Created_Document backup_create_result | Verified_Document backup_verification | Restored_Document backup_restore_result
  | Scan_Document integrity_report | Failure_Document string string

datatype printed = Document document | Usage_Text | Version_Text

record cli_result =
  cr_stdout :: "printed list"
  cr_usage_on_stderr :: bool
  cr_exit :: nat

record cli_calls =
  call_create :: "config \<Rightarrow> string \<Rightarrow> backup_error + backup_create_result"
  call_verify :: "config \<Rightarrow> string \<Rightarrow> backup_error + backup_verification"
  call_restore :: "config \<Rightarrow> string \<Rightarrow> string \<Rightarrow> backup_error + backup_restore_result"
  call_bootstrap_for_scan :: "config \<Rightarrow> bootstrap_error + unit"
  call_scan :: "config \<Rightarrow> integrity_scan_error + integrity_report"
  call_serve :: "config \<Rightarrow> bootstrap_error + unit"
  call_serializes :: "document \<Rightarrow> bool"

definition prints :: "printed list \<Rightarrow> nat \<Rightarrow> cli_result" where
  "prints lines code = \<lparr>cr_stdout = lines, cr_usage_on_stderr = False, cr_exit = code\<rparr>"

definition machine_error :: "string \<Rightarrow> printed" where
  "machine_error code = Document (Failure_Document ''scanner_failed'' code)"

definition backup_failure :: "string \<Rightarrow> cli_result" where
  "backup_failure code = prints [Document (Failure_Document ''backup_failed'' code)] 2"

text \<open>A report that cannot be serialized is replaced by an error, and the command ends there.\<close>

definition print_json :: "cli_calls \<Rightarrow> document \<Rightarrow> string \<Rightarrow> nat \<Rightarrow> cli_result" where
  "print_json calls d error_code code =
     (if call_serializes calls d then prints [Document d] code else prints [machine_error error_code] 2)"

section \<open>Running a command\<close>

definition with_config :: "(string \<times> string) list \<Rightarrow> (config \<Rightarrow> cli_result) \<Rightarrow> cli_result" where
  "with_config vars run =
     (case from_env vars of Inl _ \<Rightarrow> prints [machine_error ''configuration_error''] 2 | Inr c \<Rightarrow> run c)"

definition run_backup_create :: "cli_calls \<Rightarrow> (string \<times> string) list \<Rightarrow> string \<Rightarrow> cli_result" where
  "run_backup_create calls vars out =
     with_config vars (\<lambda>c. case call_create calls c out of
        Inl _ \<Rightarrow> backup_failure ''backup_create_failed''
      | Inr created \<Rightarrow> print_json calls (Created_Document created) ''backup_report_serialization_error'' 0)"

definition run_backup_verify :: "cli_calls \<Rightarrow> (string \<times> string) list \<Rightarrow> string \<Rightarrow> cli_result" where
  "run_backup_verify calls vars directory =
     with_config vars (\<lambda>c. case call_verify calls c directory of
        Inl _ \<Rightarrow> backup_failure ''backup_verify_failed''
      | Inr checked \<Rightarrow> print_json calls (Verified_Document checked) ''backup_report_serialization_error''
          (if rp_status (bv_integrity checked) = Healthy then 0 else 1))"

definition run_backup_restore :: "cli_calls \<Rightarrow> (string \<times> string) list \<Rightarrow> string \<Rightarrow> string \<Rightarrow> cli_result" where
  "run_backup_restore calls vars directory data_dir =
     with_config vars (\<lambda>c. let c = c\<lparr>cf_data_dir := data_dir\<rparr> in
      case validate c of
        Inl _ \<Rightarrow> prints [machine_error ''configuration_error''] 2
      | Inr _ \<Rightarrow> (case call_restore calls c directory data_dir of
            Inl _ \<Rightarrow> backup_failure ''backup_restore_failed''
          | Inr restored \<Rightarrow> print_json calls (Restored_Document restored) ''backup_report_serialization_error'' 0))"

definition run_verify :: "cli_calls \<Rightarrow> (string \<times> string) list \<Rightarrow> cli_result" where
  "run_verify calls vars =
     with_config vars (\<lambda>c. case call_bootstrap_for_scan calls c of
        Inl _ \<Rightarrow> prints [machine_error ''bootstrap_error''] 2
      | Inr _ \<Rightarrow> (case call_scan calls c of
            Inl _ \<Rightarrow> prints [machine_error ''scan_error''] 2
          | Inr report \<Rightarrow> print_json calls (Scan_Document report) ''report_serialization_error''
              (if rp_status report = Healthy then 0 else 1)))"

definition run_serve :: "cli_calls \<Rightarrow> (string \<times> string) list \<Rightarrow> cli_result" where
  "run_serve calls vars =
     (case from_env vars of
        Inl _ \<Rightarrow> prints [] 1
      | Inr c \<Rightarrow> (case call_serve calls c of Inl _ \<Rightarrow> prints [] 1 | Inr _ \<Rightarrow> prints [] 0))"

fun run_command :: "cli_calls \<Rightarrow> (string \<times> string) list \<Rightarrow> command \<Rightarrow> cli_result" where
  "run_command calls vars Serve = run_serve calls vars"
| "run_command calls vars Help = prints [Usage_Text] 0"
| "run_command calls vars Version = prints [Version_Text] 0"
| "run_command calls vars Verify = run_verify calls vars"
| "run_command calls vars (Backup_Create out) = run_backup_create calls vars out"
| "run_command calls vars (Backup_Verify directory) = run_backup_verify calls vars directory"
| "run_command calls vars (Backup_Restore directory data_dir) = run_backup_restore calls vars directory data_dir"
| "run_command calls vars Unknown =
     \<lparr>cr_stdout = [machine_error ''invalid_command''], cr_usage_on_stderr = True, cr_exit = 2\<rparr>"

definition main_program :: "cli_calls \<Rightarrow> (string \<times> string) list \<Rightarrow> string list \<Rightarrow> cli_result" where
  "main_program calls vars arguments = run_command calls vars (parse_command arguments)"

section \<open>What a script sees\<close>

fun report_status :: "document \<Rightarrow> integrity_run_status" where
  "report_status (Verified_Document v) = rp_status (bv_integrity v)"
| "report_status (Scan_Document r) = rp_status r"
| "report_status _ = Healthy"

fun is_failure :: "document \<Rightarrow> bool" where
  "is_failure (Failure_Document _ _) = True"
| "is_failure _ = False"

definition expected_exit :: "document \<Rightarrow> nat" where
  "expected_exit d = (if is_failure d then 2 else if report_status d = Healthy then 0 else 1)"

definition one_report :: "cli_result \<Rightarrow> bool" where
  "one_report r = (\<exists>d. cr_stdout r = [Document d] \<and> cr_exit r = expected_exit d)"

lemma one_report_intros:
  "one_report (prints [machine_error code] 2)" "one_report (backup_failure code)"
  "\<not> is_failure d \<Longrightarrow> n = (if report_status d = Healthy then 0 else 1) \<Longrightarrow> one_report (print_json calls d code n)"
  by (simp_all add: one_report_def prints_def machine_error_def backup_failure_def print_json_def expected_exit_def)

lemma one_report_with_config: "(\<And>c. one_report (run c)) \<Longrightarrow> one_report (with_config vars run)"
  by (auto simp: with_config_def one_report_intros split: sum.splits)

text \<open>Every command but serving, the help and the version prints exactly one document on the standard
  output, and its exit code is a function of that document: 2 for an error document, 1 for a report that
  is not healthy, 0 otherwise.\<close>

lemma one_document:
  assumes "parse_command arguments \<notin> {Serve, Help, Version}"
  shows "\<exists>d. cr_stdout (main_program calls vars arguments) = [Document d]
    \<and> cr_exit (main_program calls vars arguments) = expected_exit d"
proof -
  have "one_report (run_backup_create calls vars out)" for out
    unfolding run_backup_create_def
    by (intro one_report_with_config) (auto intro!: one_report_intros split: sum.splits)
  moreover have "one_report (run_backup_verify calls vars directory)" for directory
    unfolding run_backup_verify_def
    by (intro one_report_with_config) (auto intro!: one_report_intros split: sum.splits)
  moreover have "one_report (run_backup_restore calls vars directory data_dir)" for directory data_dir
    unfolding run_backup_restore_def Let_def
    by (intro one_report_with_config) (auto intro!: one_report_intros split: sum.splits)
  moreover have "one_report (run_verify calls vars)"
    unfolding run_verify_def
    by (intro one_report_with_config) (auto intro!: one_report_intros split: sum.splits)
  moreover have "one_report (run_command calls vars Unknown)"
    by (simp add: one_report_def machine_error_def expected_exit_def)
  ultimately have "one_report (main_program calls vars arguments)"
    using assms by (cases "parse_command arguments") (simp_all add: main_program_def)
  then show ?thesis by (simp add: one_report_def)
qed

end
