(* ===== verification/Spec2Isabelle.thy ===== *)
theory Spec2Isabelle
  imports Validation_Properties Chunk_Properties Archive_Properties Request_Properties
    Retrieval_Properties Listing_Properties Concurrency_Properties Configuration_Properties Recovery_Properties
    Integrity_Properties Backup_Properties Row_Types Inventory_Properties Service_Properties Command_Line
begin

text \<open>
  Patwari, the archive server of \<open>crates/patwari-server\<close>. File names below are those of
  \<open>src/crates/patwari-server/src/\<close>.

  The program. A client registers, proposes a manifest (the upload), sends the stored bytes of every
  artifact in chunks of the negotiated size, and completes the upload. Completion assembles and
  verifies the artifacts, finds a live snapshot with the same fingerprint or promotes the assembled files
  to content-addressed blobs, and records capture, snapshot, artifacts and blobs in one transaction.
  Deletion tombstones a snapshot and schedules its blobs; the garbage collector removes blobs that
  no live snapshot refers to. Readers browse sessions, captures, snapshots, manifests, artifacts and
  tombstones with cursors, and download artifacts after checking them. At start the service recovers
  from whatever a stop left; an integrity scan reports damage, and a backup copies the archive while a
  lease in the database and a lock on a file keep every request out.
\<close>

text \<open>
  Conventions. A struct is a \<open>record\<close>, an enum a \<open>datatype\<close> with its \<open>as_str\<close> and parser, a row of a
  SQLite table a record with \<open>TEXT\<close> as \<open>string\<close> and \<open>INTEGER\<close> as \<open>int\<close>; a table is the list of its rows,
  and unique indexes are checked where the code inserts. Sizes and counts are \<open>nat\<close>, and every checked
  operation, conversion to \<open>i64\<close> or \<open>u64\<close> and sum says at which bound it fails; hashes of lock stripes are
  \<open>64 word\<close>. \<open>Result\<close> is a sum with the error on the left. A handler is state passing with such a
  result (\<open>Operations\<close>): what it did before an error stays done, a transaction that fails has no effect.
  A loop of the code is a structural recursion or, where the code reads pages until one is empty, a
  recursion on fuel with its own result for a loop that still runs.

  Third-party code is an argument. The record \<open>externals\<close> of \<open>Externals\<close> has the parser and printer of
  RFC 3339, UUIDs, media types, SHA-256, the Zstandard decoder and the JSON of every stored
  document; the cursor codec of \<open>Pagination\<close> and the backup codec of \<open>Backup\<close> (SQLite images, the JSON of
  a backup manifest) are records too. Assumed of them, where a theorem says so and nowhere else: JSON
  decodes what it encoded and SHA-256 does not collide on the contents the archive assembled
  (\<open>trusted\<close>); a printed time parses to itself (\<open>rfc3339_roundtrip\<close>); the codecs read back what they
  wrote. \<open>Samples\<close>, \<open>Sample_Flow\<close>, \<open>Sample_Codec\<close> and \<open>Sample_Backup\<close> are instances for which all of
  this holds; the witnesses run on them. What clock, file system and SQLite do during a request is its
  environment (\<open>env\<close>, \<open>recovery_env\<close>, \<open>scan_env\<close>, \<open>backup_env\<close>, \<open>startup_env\<close>): the times it
  reads, the identifiers it draws, which named step fails and which of its commits fail: every
  transaction has a name of its own (\<open>commit_point\<close>) and fails or succeeds independently of the others. The
  theorems hold for every environment unless they restrict it.
\<close>

text \<open>
  Theories and code, in the order of their dependencies.

  Shared: \<open>Prelude\<close> (results, checked arithmetic, strings, lists; the collections \<open>result_simps\<close> and
  \<open>error_intros\<close>); \<open>Api_Error\<close> (\<open>error.rs\<close>); \<open>Contract\<close> (\<open>contract.rs\<close>, with the locale \<open>string_enum\<close> for
  an enum and its parser); \<open>Externals\<close> (\<open>database.rs\<close>: identity, sort keys, deadlines); \<open>Database\<close> (the
  tables of the migrations and the files of \<open>storage.rs\<close>); \<open>Operations\<close> (handlers as operations, with one
  rule per combinator for preservation of an invariant, \<open>preserves_intros\<close> and \<open>run_intros\<close>).

  Requests that write: \<open>Validation\<close> (\<open>validation.rs\<close>); \<open>Chunks\<close>, \<open>Uploads\<close>, \<open>Chunk_Uploads\<close> and
  \<open>Completion\<close> (\<open>ingestion.rs\<close>: layout and bitmap, registration to expiry, \<open>put_artifact_chunk\<close>,
  \<open>complete_upload\<close>); \<open>Deletion\<close> (\<open>deletion.rs\<close>).

  The archive as a state machine: \<open>Archive_Steps\<close> has a step \<open>archive_step\<close> for every request, from the
  empty archive, and the locales \<open>inductive_invariant\<close> and \<open>step_guarantee\<close>. Their interpretations
  carry the invariants: \<open>Blob_Invariant\<close> and \<open>Archive_Invariant\<close> (every artifact can be read back),
  \<open>Upload_Invariant\<close> (rows, chunks and files of uploads), \<open>History_Invariant\<close> (captures, snapshots,
  tombstones, latest contexts), \<open>Contents_Invariant\<close> and \<open>Archive_Contents\<close> (the rows of a live snapshot
  are its canonical manifest; locale \<open>completion_contract\<close>), \<open>Client_Invariant\<close> (references to clients);
  \<open>Row_Invariant\<close> (every stored column has a value its readers accept); \<open>Archive_Growth\<close> (nothing
  recorded is lost) is about single steps.

  Readers: \<open>Pagination\<close> (\<open>pagination.rs\<close>; locale \<open>keyset_collection\<close>: what a walk over cursors sees while
  rows come and go), \<open>Retrieval\<close> (\<open>retrieval.rs\<close>: filters, queries and pages; it interprets the
  locale for every collection), \<open>Reconciliation\<close> (\<open>reconcile_snapshot\<close>, the snapshot document and the
  download with its preflight), \<open>Inventory\<close> (\<open>inventory.rs\<close>).

  Start and restarts: \<open>Recovery\<close> (\<open>recover_uploads\<close> of \<open>ingestion.rs\<close>), \<open>Recovery_Invariant\<close>,
  \<open>Recovery_Effects\<close>, \<open>Recovery_Outcome\<close> and \<open>Recovery_Chunks\<close> (what it keeps and what it leaves),
  \<open>Lifecycle\<close> (serving, stopping at any point, losing files of uploads, recovering; an interpretation
  of \<open>inductive_invariant\<close>), \<open>Socket_Address\<close> and \<open>Configuration\<close> (\<open>config.rs\<close>), \<open>Service\<close> (\<open>service.rs\<close>,
  \<open>health.rs\<close>: bootstrap, maintenance entry points, routes, probes), \<open>Command_Line\<close> (\<open>main.rs\<close>).

  Concurrency: \<open>Locks\<close> (the stripes of \<open>service.rs\<close> and the order in which each request takes its locks;
  locale \<open>ordered_locking\<close>), \<open>Maintenance\<close> (\<open>maintenance.rs\<close>: lease row, file lock and the
  interleaved steps of the processes that use both).

  Operators: \<open>Integrity\<close> (\<open>integrity.rs\<close>: every stage of the scan, the file checks, the runs and
  findings it stores), \<open>Integrity_Report\<close> (the scan of an archive at rest is a function of its tables and
  files) and \<open>Integrity_Trust\<close> (what no findings mean); \<open>Backup\<close> (\<open>backup.rs\<close>: create, verify, restore),
  \<open>Backup_Copies\<close> and \<open>Backup_Restore\<close> (what a created backup holds and what a restore makes of it).

  The theories named \<open>_Properties\<close>, and \<open>Row_Types\<close>, hold the properties, each with its
  number and statement in words, and a witness on concrete values.
\<close>

text \<open>
  What is shown. Validation accepts exactly the well-formed manifests within the limits, and its
  normal form does not depend on the order of the artifacts. Chunk lengths partition the
  stored bytes. In every reachable archive, whatever fails: archived artifacts can be read back, content
  is stored once, accepted chunks have their files, completed uploads and deletions are recorded, the latest
  context is the newest live snapshot, the readers decode every stored row, live snapshots agree with their manifests, the
  inventory adds up, and nothing recorded is lost. A snapshot document is what the row and the stored
  manifest say, and a download delivers exactly the archived bytes under the headers
  \<open>announced_headers\<close> unless the header library refuses the stored media type; a walk over a listing returns each row once and ends. Requests cannot
  deadlock; a backup excludes them, cannot be overtaken, and its lease ends with its term. Every
  configuration error names a variable that is set. A recovery succeeds when nothing fails, restores
  all of the above, and an opened archive is one the service can reach. A scan records exactly the
  findings of the archive in its tables, no errors mean an intact archive, and a backup restores to what it was
  made of, unless something the theorem names stands in the way.

  Why requests are single steps. Two requests that touch the same upload, snapshot identity or digest hold the
  same stripe lock (\<open>Locks\<close> models the order in which they are taken, and that no order gets stuck), and
  SQLite serializes the transactions. Readers take no lock; a reader is a function of one state. A
  request that is cut short leaves the tables of the state before or after its commit, and what it
  left among the files is covered by \<open>Lifecycle\<close>. Damage there is confined to the upload directories; blob
  files are synced before the commit that refers to them.

  Fuel. Only the scan has loops without a structural measure. A page that is not empty moves the cursor
  past its last row, so a loop takes at most as many rounds as there are rows; \<open>at_rest\<close> asks for
  fuel above the number of rows, and \<open>scan_records_findings\<close> proves that the scan then ends. The
  view of the archive of a scan is a function of the read, so a scan beside running requests is modelled; the
  theorems about its report are for an archive at rest.
\<close>

text \<open>
  Not modelled. The code of axum, tower and tokio around the handlers: extraction of requests, the limits for
  concurrency, body size and time, tracing, the task pool of the scan and the shutdown signal; of
  them only what a handler sees is a parameter. SQLite itself: the connection pool, the query planner and the text of queries; a query is the function
  it computes. The SQL of the migrations is not Rust: what it makes of the tables of an older schema is the
  parameter \<open>su_migrate\<close> of the start, which a database of the current schema does not reach. Of the Zstandard
  decoder, a parameter, the model uses the decoded contents and, for a stream that is damaged, the part it
  delivers before the error (\<open>zstd_partial\<close>). The JSON, base64, Zstandard and SHA-256 libraries. The
  test hooks, \<open>lib.rs\<close> (which declares the modules) and the tests. The bytes of a download are checked in
  the preflight, and the file is assumed to be the same when it is streamed; the code opens it once and
  streams from the same handle.
\<close>

end
